(* ===== verification/Prelude.thy ===== *)
theory Prelude
  imports Main "HOL-Library.Word" "HOL-Library.Char_ord" "HOL-Library.List_Lexorder"
    "HOL-Library.Multiset" "HOL-Library.AList"
begin

text \<open>
  What every component of the development shares: results with errors, Python text as a list of
  code points, byte strings, the UTF-16 and UTF-8 encoders of the standard library as the sources
  use them, decimal and hexadecimal numerals, and the interface of the iterative walks that the
  sources write with an explicit work stack.
\<close>

named_theorems eval_simps \<open>equations that evaluate a concrete input of the model\<close>
named_theorems text_simps \<open>facts on text, code points and bytes\<close>

section \<open>Results\<close>

text \<open>A raise is \<open>Inl\<close>, a returned value \<open>Inr\<close>.\<close>

definition rbind :: "'e + 'a \<Rightarrow> ('a \<Rightarrow> 'e + 'b) \<Rightarrow> 'e + 'b" where
  "rbind r f = (case r of Inl e \<Rightarrow> Inl e | Inr x \<Rightarrow> f x)"

lemma rbind_simps [simp, eval_simps]:
  "rbind (Inl e) f = Inl e" "rbind (Inr x) f = f x"
  by (simp_all add: rbind_def)

lemma rbind_Inr_iff: "rbind r f = Inr y \<longleftrightarrow> (\<exists>x. r = Inr x \<and> f x = Inr y)"
  by (cases r) auto

lemma rbind_Inl_iff: "rbind r f = Inl e \<longleftrightarrow> r = Inl e \<or> (\<exists>x. r = Inr x \<and> f x = Inl e)"
  by (cases r) auto

lemma rbind_assoc: "rbind (rbind r f) g = rbind r (\<lambda>x. rbind (f x) g)"
  by (cases r) auto

fun traverse :: "('a \<Rightarrow> 'e + 'b) \<Rightarrow> 'a list \<Rightarrow> 'e + 'b list" where
  "traverse f [] = Inr []"
| "traverse f (x # xs) = rbind (f x) (\<lambda>y. rbind (traverse f xs) (\<lambda>ys. Inr (y # ys)))"

lemma traverse_Inr_iff:
  "traverse f xs = Inr ys \<longleftrightarrow> list_all2 (\<lambda>x y. f x = Inr y) xs ys"
  by (induction xs arbitrary: ys) (auto simp: rbind_Inr_iff list_all2_Cons1)

lemma traverse_Inr_mem: "traverse f xs = Inr ys \<Longrightarrow> x \<in> set xs \<Longrightarrow> \<exists>y \<in> set ys. f x = Inr y"
  by (induction xs arbitrary: ys) (auto simp: rbind_Inr_iff)

lemma traverse_all:
  "traverse f xs = Inr ys \<Longrightarrow> (\<And>x y. x \<in> set xs \<Longrightarrow> f x = Inr y \<Longrightarrow> P y) \<Longrightarrow> \<forall>y \<in> set ys. P y"
  unfolding traverse_Inr_iff by (induction xs ys rule: list_all2_induct) auto

lemma traverse_cong [fundef_cong]:
  "xs = ys \<Longrightarrow> (\<And>x. x \<in> set ys \<Longrightarrow> f x = g x) \<Longrightarrow> traverse f xs = traverse g ys"
  by (induction ys arbitrary: xs) auto

lemma traverse_map_Inr: "traverse (\<lambda>x. Inr (f x)) xs = Inr (map f xs)"
  by (induction xs) auto

lemma list_all2_mem: "list_all2 R xs ys \<Longrightarrow> x \<in> set xs \<Longrightarrow> \<exists>y \<in> set ys. R x y"
  by (induction rule: list_all2_induct) auto

fun check_all :: "('a \<Rightarrow> 'e + unit) \<Rightarrow> 'a list \<Rightarrow> 'e + unit" where
  "check_all f [] = Inr ()"
| "check_all f (x # xs) = rbind (f x) (\<lambda>_. check_all f xs)"

lemma check_all_Inr_iff: "check_all f xs = Inr () \<longleftrightarrow> (\<forall>x \<in> set xs. f x = Inr ())"
  by (induction xs) (auto simp: rbind_Inr_iff)

definition raise_if :: "bool \<Rightarrow> 'e \<Rightarrow> 'e + unit" where
  "raise_if b e = (if b then Inl e else Inr ())"

lemma raise_if_simps [simp, eval_simps]:
  "raise_if True e = Inl e" "raise_if False e = Inr ()"
  by (simp_all add: raise_if_def)

lemma raise_if_Inr_iff [simp]: "raise_if b e = Inr u \<longleftrightarrow> \<not> b"
  by (simp add: raise_if_def)

section \<open>Text and bytes\<close>

text \<open>A Python \<open>str\<close> is its sequence of code points; lone surrogates are code points too.\<close>

type_synonym ustr = "nat list"
type_synonym byte = "8 word"

definition U :: "string \<Rightarrow> ustr" where
  "U s = map of_char s"

lemma U_Nil [simp, eval_simps]: "U [] = []"
  by (simp add: U_def)

lemma U_Cons [eval_simps]: "U (c # s) = of_char c # U s"
  by (simp add: U_def)

lemma length_U [simp]: "length (U s) = length s"
  by (simp add: U_def)

lemma U_inject [simp]: "U s = U t \<longleftrightarrow> s = t"
  by (simp add: U_def inj_map_eq_map inj_def)

lemma U_append: "U (s @ t) = U s @ U t"
  by (simp add: U_def)

definition is_surrogate :: "nat \<Rightarrow> bool" where
  "is_surrogate c \<longleftrightarrow> 0xD800 \<le> c \<and> c \<le> 0xDFFF"

definition valid_cp :: "nat \<Rightarrow> bool" where
  "valid_cp c \<longleftrightarrow> c < 0x110000"

text \<open>Text that a codec accepts: every code point is a Unicode scalar value.\<close>

definition scalar_cp :: "nat \<Rightarrow> bool" where
  "scalar_cp c \<longleftrightarrow> valid_cp c \<and> \<not> is_surrogate c"

definition utf16_units :: "nat \<Rightarrow> nat list" where
  "utf16_units c =
     (if c < 0x10000 then [c]
      else [0xD800 + (c - 0x10000) div 0x400, 0xDC00 + (c - 0x10000) mod 0x400])"

definition byte_of :: "nat \<Rightarrow> byte" where
  "byte_of n = of_nat n"

definition unit_bytes :: "nat \<Rightarrow> byte list" where
  "unit_bytes u = [byte_of (u div 256), byte_of (u mod 256)]"

text \<open>The index of the first lone surrogate is what the codec's exception reports.\<close>

definition first_surrogate :: "ustr \<Rightarrow> nat option" where
  "first_surrogate s =
     (if list_ex is_surrogate s then Some (length (takeWhile (\<lambda>c. \<not> is_surrogate c) s)) else None)"

definition utf16 :: "ustr \<Rightarrow> nat list" where
  "utf16 s = concat (map utf16_units s)"

definition utf16_be :: "ustr \<Rightarrow> byte list" where
  "utf16_be s = concat (map unit_bytes (utf16 s))"

definition utf8_cp :: "nat \<Rightarrow> byte list" where
  "utf8_cp c =
     (if c < 0x80 then [byte_of c]
      else if c < 0x800 then [byte_of (0xC0 + c div 0x40), byte_of (0x80 + c mod 0x40)]
      else if c < 0x10000 then
        [byte_of (0xE0 + c div 0x1000), byte_of (0x80 + c div 0x40 mod 0x40), byte_of (0x80 + c mod 0x40)]
      else
        [byte_of (0xF0 + c div 0x40000), byte_of (0x80 + c div 0x1000 mod 0x40),
         byte_of (0x80 + c div 0x40 mod 0x40), byte_of (0x80 + c mod 0x40)])"

definition utf8 :: "ustr \<Rightarrow> byte list" where
  "utf8 s = concat (map utf8_cp s)"

lemma first_surrogate_None_iff: "first_surrogate s = None \<longleftrightarrow> (\<forall>c \<in> set s. \<not> is_surrogate c)"
  by (auto simp: first_surrogate_def list_ex_iff)

lemma unat_byte_of: "n < 256 \<Longrightarrow> unat (byte_of n) = n"
  by (simp add: byte_of_def unat_of_nat take_bit_eq_mod)

lemma byte_of_unat [simp]: "byte_of (unat b) = b"
  by (simp add: byte_of_def)

lemma byte_of_nat_inject: "a < 256 \<Longrightarrow> b < 256 \<Longrightarrow> byte_of a = byte_of b \<longleftrightarrow> a = b"
  by (simp add: byte_of_def word_of_nat_eq_iff take_bit_nat_eq_self_iff take_bit_eq_mod)

lemma byte_of_nat_less: "a < 256 \<Longrightarrow> b < 256 \<Longrightarrow> byte_of a < byte_of b \<longleftrightarrow> a < b"
  by (simp add: byte_of_def word_of_nat_less_iff take_bit_eq_mod)

lemma div_mod_eqI: "c div k = d div k \<Longrightarrow> c mod k = d mod k \<Longrightarrow> c = (d :: nat)"
  by (metis div_mult_mod_eq)

lemma less_by_div_mod: "(u :: nat) < v \<longleftrightarrow> u div k < v div k \<or> u div k = v div k \<and> u mod k < v mod k"
proof (cases "u div k" "v div k" rule: linorder_cases)
  case less
  then show ?thesis by (metis div_le_mono linorder_not_less)
next
  case equal
  then show ?thesis by (metis div_mult_mod_eq less_irrefl nat_add_left_cancel_less)
next
  case greater
  then show ?thesis by (metis div_le_mono less_imp_le_nat linorder_not_less)
qed

lemma div64_digits:
  fixes c d :: nat
  shows "c div 4096 = d div 4096 \<Longrightarrow> c div 64 mod 64 = d div 64 mod 64 \<Longrightarrow> c mod 64 = d mod 64 \<Longrightarrow> c = d"
  using div_mod_eqI [of "c div 64" 64 "d div 64"] div_mod_eqI [of c 64 d]
  by (simp add: div_mult2_eq [symmetric])

lemma div64_digits3:
  fixes c d :: nat
  assumes "c div 262144 = d div 262144" "c div 4096 mod 64 = d div 4096 mod 64"
    "c div 64 mod 64 = d div 64 mod 64" "c mod 64 = d mod 64"
  shows "c = d"
proof (rule div64_digits [OF _ assms(3,4)])
  show "c div 4096 = d div 4096"
    by (rule div_mod_eqI [of _ 64]) (use assms in \<open>simp_all add: div_mult2_eq [symmetric]\<close>)
qed

lemma utf8_lead_bounds:
  "c < 0x800 \<Longrightarrow> 0xC0 + c div 0x40 < 0xE0"
  "c < 0x10000 \<Longrightarrow> 0xE0 + c div 0x1000 < 0xF0"
  "c < 0x110000 \<Longrightarrow> 0xF0 + c div 0x40000 < 0xF8"
  "(0x80::nat) + c mod 0x40 < 0xC0"
  by (auto simp: less_mult_imp_div_less)

lemma utf8_cp_prefix_free:
  assumes c: "valid_cp c" and d: "valid_cp d" and eq: "utf8_cp c @ xs = utf8_cp d @ ys"
  shows "c = d \<and> xs = ys"
proof -
  note b = utf8_lead_bounds byte_of_nat_inject
  have lt: "c div 64 mod 64 < 64" "d div 64 mod 64 < 64" "c div 4096 mod 64 < 64" "d div 4096 mod 64 < 64"
    "c mod 64 < 64" "d mod 64 < 64"
    by simp_all
  consider "c < 0x80" | "\<not> c < 0x80" "c < 0x800" | "\<not> c < 0x800" "c < 0x10000" | "\<not> c < 0x10000"
    by linarith
  then show ?thesis
  proof cases
    case 1
    then show ?thesis using eq d utf8_lead_bounds [of d]
      by (auto simp: utf8_cp_def valid_cp_def byte_of_nat_inject split: if_splits)
  next
    case 2
    then show ?thesis using eq d utf8_lead_bounds [of c] utf8_lead_bounds [of d] lt
      by (auto simp: utf8_cp_def valid_cp_def byte_of_nat_inject split: if_splits dest: div_mod_eqI)
  next
    case 3
    then show ?thesis using eq d utf8_lead_bounds [of c] utf8_lead_bounds [of d] lt
      by (auto simp: utf8_cp_def valid_cp_def byte_of_nat_inject split: if_splits dest: div64_digits)
  next
    case 4
    then show ?thesis using eq c d utf8_lead_bounds [of c] utf8_lead_bounds [of d] lt
      by (auto simp: utf8_cp_def valid_cp_def byte_of_nat_inject split: if_splits dest: div64_digits3)
  qed
qed

lemma utf8_cp_nonempty [simp]: "utf8_cp c \<noteq> []"
  by (simp add: utf8_cp_def)

lemma utf8_inject:
  assumes "\<forall>c \<in> set s. valid_cp c" "\<forall>c \<in> set t. valid_cp c" "utf8 s = utf8 t"
  shows "s = t"
  using assms
proof (induction s arbitrary: t)
  case Nil
  then show ?case by (cases t) (auto simp: utf8_def)
next
  case (Cons c s)
  from Cons.prems(3) obtain d t' where t: "t = d # t'" by (cases t) (auto simp: utf8_def)
  with Cons.prems(3) have pre: "utf8_cp c @ utf8 s = utf8_cp d @ utf8 t'" by (simp add: utf8_def)
  have v: "valid_cp c" "valid_cp d" using Cons.prems t by auto
  have eq: "c = d" "utf8 s = utf8 t'" using utf8_cp_prefix_free [OF v pre] by auto
  have "s = t'" using Cons.IH [of t'] Cons.prems t eq by simp
  with eq t show ?case by simp
qed


lemma unit_bytes_less:
  assumes "u < 65536" "v < 65536"
  shows "unit_bytes u @ xs < unit_bytes v @ ys \<longleftrightarrow> u < v \<or> u = v \<and> xs < ys"
proof -
  have *: "u div 256 < 256" "v div 256 < 256" "u mod 256 < 256" "v mod 256 < 256"
    using assms by (auto simp: less_mult_imp_div_less)
  have "u < v \<longleftrightarrow> u div 256 < v div 256 \<or> u div 256 = v div 256 \<and> u mod 256 < v mod 256"
    by (rule less_by_div_mod)
  moreover have "u = v \<longleftrightarrow> u div 256 = v div 256 \<and> u mod 256 = v mod 256"
    using div_mod_eqI [of u 256 v] by auto
  ultimately show ?thesis
    by (simp add: unit_bytes_def byte_of_nat_less byte_of_nat_inject *) blast
qed

lemma units_bytes_less:
  assumes "\<forall>u \<in> set us. u < 65536" "\<forall>v \<in> set vs. v < 65536"
  shows "concat (map unit_bytes us) < concat (map unit_bytes vs) \<longleftrightarrow> us < vs"
  using assms
proof (induction us arbitrary: vs)
  case Nil
  then show ?case by (cases vs) (auto simp: unit_bytes_def)
next
  case (Cons u us)
  show ?case
  proof (cases vs)
    case Nil
    then show ?thesis by (simp add: unit_bytes_def)
  next
    case (Cons v vs')
    with Cons.prems Cons.IH [of vs'] show ?thesis by (auto simp: unit_bytes_less)
  qed
qed

lemma utf16_units_bound: "valid_cp c \<Longrightarrow> u \<in> set (utf16_units c) \<Longrightarrow> u < 65536"
  by (auto simp: utf16_units_def valid_cp_def split: if_splits)

lemma utf16_be_less_iff:
  assumes "\<forall>c \<in> set s. valid_cp c" "\<forall>c \<in> set t. valid_cp c"
  shows "utf16_be s < utf16_be t \<longleftrightarrow> utf16 s < utf16 t"
  unfolding utf16_be_def utf16_def
  by (rule units_bytes_less) (use assms utf16_units_bound in auto)

lemma utf16_units_prefix_free:
  assumes "scalar_cp c" "scalar_cp d" "utf16_units c @ xs = utf16_units d @ ys"
  shows "c = d \<and> xs = ys"
proof -
  have "c = d" if "(c - 0x10000) div 0x400 = (d - 0x10000) div 0x400"
    "(c - 0x10000) mod 0x400 = (d - 0x10000) mod 0x400" "\<not> c < 0x10000" "\<not> d < 0x10000"
    using div_mod_eqI [OF that(1,2)] that(3,4) by simp
  then show ?thesis
    using assms
    by (auto simp: utf16_units_def scalar_cp_def valid_cp_def is_surrogate_def split: if_splits)
qed

lemma utf16_be_inject:
  assumes "\<forall>c \<in> set s. scalar_cp c" "\<forall>c \<in> set t. scalar_cp c" "utf16_be s = utf16_be t"
  shows "s = t"
proof -
  have v: "\<forall>c \<in> set s. valid_cp c" "\<forall>c \<in> set t. valid_cp c"
    using assms by (auto simp: scalar_cp_def)
  have "\<not> utf16 s < utf16 t" "\<not> utf16 t < utf16 s"
    using assms(3) utf16_be_less_iff [OF v] utf16_be_less_iff [OF v(2,1)] by auto
  then have "utf16 s = utf16 t" by simp
  then show ?thesis using assms(1,2)
  proof (induction s arbitrary: t)
    case Nil
    then show ?case by (cases t) (auto simp: utf16_def utf16_units_def split: if_splits)
  next
    case (Cons c s)
    from Cons.prems(1) obtain d t' where t: "t = d # t'"
      by (cases t) (auto simp: utf16_def utf16_units_def split: if_splits)
    with Cons.prems(1) have pre: "utf16_units c @ utf16 s = utf16_units d @ utf16 t'" by (simp add: utf16_def)
    have v: "scalar_cp c" "scalar_cp d" using Cons.prems t by auto
    have eq: "c = d" "utf16 s = utf16 t'" using utf16_units_prefix_free [OF v pre] by auto
    have "s = t'" using Cons.IH [of t'] Cons.prems t eq by simp
    with eq t show ?case by simp
  qed
qed

lemma utf8_less_128: "(\<forall>c \<in> set s. c < 128) \<Longrightarrow> utf8 s = map byte_of s"
  by (induction s) (auto simp: utf8_def utf8_cp_def)

text \<open>Domain tags are ASCII without NUL, so the frame's first NUL ends the tag.\<close>

definition tag_ok :: "ustr \<Rightarrow> bool" where
  "tag_ok s \<longleftrightarrow> (\<forall>c \<in> set s. 0 < c \<and> c < 128)"

abbreviation domain_tag :: "string \<Rightarrow> bool" where
  "domain_tag d \<equiv> tag_ok (U d)"

lemma frame_inject:
  assumes "tag_ok s" "tag_ok s'" "utf8 s @ 0 # b = utf8 s' @ 0 # b'"
  shows "s = s' \<and> b = b'"
proof -
  have no0: "0 \<notin> set (utf8 e)" if "tag_ok e" for e
  proof -
    have "0 \<noteq> byte_of c" if "0 < c" "c < 128" for c
      using byte_of_nat_inject [of 0 c] that by (auto simp: byte_of_def)
    then show ?thesis using that utf8_less_128 [of e] by (auto simp: tag_ok_def)
  qed
  have tw: "takeWhile (\<lambda>x. x \<noteq> 0) (utf8 e @ 0 # c) = utf8 e" if "tag_ok e" for e c
    using no0 [OF that] by (subst takeWhile_append2) auto
  have "utf8 s = utf8 s'" using tw assms by metis
  moreover have "s = s'"
    by (rule utf8_inject) (use assms calculation in \<open>auto simp: tag_ok_def valid_cp_def\<close>)
  ultimately show ?thesis using assms(3) by simp
qed

text \<open>\<open>str.split\<close> at a character, and \<open>replace\<close> of a two-character pattern by one.\<close>

fun split_at :: "nat \<Rightarrow> ustr \<Rightarrow> ustr list" where
  "split_at c [] = [[]]"
| "split_at c (x # xs) =
     (if x = c then [] # split_at c xs
      else case split_at c xs of [] \<Rightarrow> [[x]] | p # ps \<Rightarrow> (x # p) # ps)"

fun replace2 :: "nat \<Rightarrow> nat \<Rightarrow> nat \<Rightarrow> ustr \<Rightarrow> ustr" where
  "replace2 a b c (x # y # xs) =
     (if x = a \<and> y = b then c # replace2 a b c xs else x # replace2 a b c (y # xs))"
| "replace2 a b c xs = xs"

section \<open>Numerals\<close>

text \<open>\<open>str(n)\<close> of a natural number: its decimal digits, most significant first.\<close>

fun nat_digits :: "nat \<Rightarrow> nat list" where
  "nat_digits n = (if n < 10 then [n] else nat_digits (n div 10) @ [n mod 10])"

declare nat_digits.simps [simp del]

definition digits_nat :: "nat list \<Rightarrow> nat" where
  "digits_nat ds = foldl (\<lambda>a d. 10 * a + d) 0 ds"

definition digit_chars :: "nat list \<Rightarrow> ustr" where
  "digit_chars ds = map (\<lambda>d. 48 + d) ds"

definition int_text :: "int \<Rightarrow> ustr" where
  "int_text i = (if i < 0 then 45 # digit_chars (nat_digits (nat (- i)))
                 else digit_chars (nat_digits (nat i)))"

definition is_digit :: "nat \<Rightarrow> bool" where
  "is_digit c \<longleftrightarrow> 48 \<le> c \<and> c \<le> 57"

definition hex_char :: "nat \<Rightarrow> nat" where
  "hex_char d = (if d < 10 then 48 + d else 87 + d)"

lemma nat_digits_small: "d \<in> set (nat_digits n) \<Longrightarrow> d < 10"
proof (induction n rule: nat_digits.induct)
  case (1 n)
  then show ?case by (subst (asm) nat_digits.simps) (auto split: if_splits)
qed

lemma nat_digits_nonempty [simp]: "nat_digits n \<noteq> []"
  by (subst nat_digits.simps) simp

lemma digits_nat_snoc: "digits_nat (ds @ [d]) = 10 * digits_nat ds + d"
  by (simp add: digits_nat_def)

lemma digits_nat_nat_digits [simp]: "digits_nat (nat_digits n) = n"
proof (induction n rule: nat_digits.induct)
  case (1 n)
  show ?case
  proof (cases "n < 10")
    case True
    then show ?thesis by (subst nat_digits.simps) (simp add: digits_nat_def)
  next
    case False
    then show ?thesis using 1 by (subst nat_digits.simps) (simp add: digits_nat_snoc)
  qed
qed

lemma nat_digits_inject [simp]: "nat_digits m = nat_digits n \<longleftrightarrow> m = n"
  by (metis digits_nat_nat_digits)

lemma hd_nat_digits: "0 < n \<Longrightarrow> hd (nat_digits n) \<noteq> 0"
proof (induction n rule: nat_digits.induct)
  case (1 n)
  show ?case
  proof (cases "n < 10")
    case True
    then show ?thesis using 1 by (subst nat_digits.simps) simp
  next
    case False
    then show ?thesis using 1 by (subst nat_digits.simps) (simp add: hd_append)
  qed
qed

lemma length_nat_digits_le: "n < 10 ^ k \<Longrightarrow> 0 < k \<Longrightarrow> length (nat_digits n) \<le> k"
proof (induction n arbitrary: k rule: nat_digits.induct)
  case (1 n)
  show ?case
  proof (cases "n < 10")
    case True
    then show ?thesis using 1 by (subst nat_digits.simps) simp
  next
    case False
    with "1.prems" have "k \<noteq> 1" by auto
    with "1.prems"(2) obtain k' where k: "k = Suc k'" "0 < k'" by (cases k) auto
    with 1 have "n div 10 < 10 ^ k'" by (simp add: div_less_iff_less_mult)
    with 1 False k have "length (nat_digits (n div 10)) \<le> k'" by simp
    with False k show ?thesis by (subst nat_digits.simps) simp
  qed
qed

section \<open>Sorting\<close>

lemma sum_list_map_sort_key [simp]:
  "sum_list (map (f :: 'a \<Rightarrow> nat) (sort_key g xs)) = sum_list (map f xs)"
  by (metis mset_map mset_sort sum_mset_sum_list)

lemma insort_key_map: "insort_key f (g x) (map g xs) = map g (insort_key (\<lambda>x. f (g x)) x xs)"
  by (induction xs) auto

lemma sort_key_map: "sort_key f (map g xs) = map g (sort_key (\<lambda>x. f (g x)) xs)"
  by (induction xs) (auto simp: insort_key_map)

section \<open>Walks with an explicit work stack\<close>

text \<open>
  The canonicalizer, the two prevalidation passes and the structural comparator are loops of one
  shape: pop an entry of a stack, act on a state, push the entries the entry gives rise to, or
  raise. \<open>step\<close> is the loop body; \<open>run\<close> is the loop; \<open>cost\<close> bounds the iterations an entry can
  cause. Whatever the entries mean, running a stack of two parts is running the first and then
  the second: that is what lets each walk be compared with a recursive function on the data.
\<close>

locale work_stack =
  fixes step :: "'s \<Rightarrow> 'w \<Rightarrow> 'e + ('s \<times> 'w list)"
    and run :: "'s \<Rightarrow> 'w list \<Rightarrow> 'e + 's"
    and cost :: "'w \<Rightarrow> nat"
  assumes run_Nil: "run s [] = Inr s"
    and run_Cons: "run s (w # ws) = rbind (step s w) (\<lambda>(s', new). run s' (new @ ws))"
    and step_cost: "step s w = Inr (s', new) \<Longrightarrow> sum_list (map cost new) < cost w"
begin

lemma run_append: "run s (ws @ vs) = rbind (run s ws) (\<lambda>s'. run s' vs)"
proof (induction "sum_list (map cost ws)" arbitrary: s ws rule: less_induct)
  case less
  show ?case
  proof (cases ws)
    case Nil
    then show ?thesis by (simp add: run_Nil)
  next
    case (Cons w ws')
    show ?thesis
    proof (cases "step s w")
      case (Inl e)
      with Cons show ?thesis by (simp add: run_Cons)
    next
      case (Inr r)
      then obtain s' new where st: "step s w = Inr (s', new)" by (cases r) auto
      from step_cost [OF st] Cons
      have "sum_list (map cost (new @ ws')) < sum_list (map cost ws)" by simp
      from less [OF this, of s'] show ?thesis using Cons st by (simp add: run_Cons)
    qed
  qed
qed

lemma run_Cons_single: "run s (w # ws) = rbind (run s [w]) (\<lambda>s'. run s' ws)"
  using run_append [of s "[w]" ws] by simp

lemma run_single: "run s [w] = rbind (step s w) (\<lambda>(s', new). run s' new)"
  using run_Cons [of s w "[]"] by simp

lemma run_invariant:
  assumes "\<And>s w s' new. P s \<Longrightarrow> step s w = Inr (s', new) \<Longrightarrow> P s'"
  shows "P s \<Longrightarrow> run s ws = Inr s' \<Longrightarrow> P s'"
proof (induction "sum_list (map cost ws)" arbitrary: s ws rule: less_induct)
  case less
  show ?case
  proof (cases ws)
    case Nil
    with less.prems show ?thesis by (simp add: run_Nil)
  next
    case (Cons w ws')
    with less.prems obtain t new where st: "step s w = Inr (t, new)" "run t (new @ ws') = Inr s'"
      by (auto simp: run_Cons rbind_Inr_iff)
    have "sum_list (map cost (new @ ws')) < sum_list (map cost ws)"
      using step_cost [OF st(1)] Cons by simp
    from less.hyps [OF this assms [OF less.prems(1) st(1)] st(2)] show ?thesis .
  qed
qed

lemma run_Cons_Inr:
  "run s (w # ws) = Inr s' \<longleftrightarrow> (\<exists>s1. run s [w] = Inr s1 \<and> run s1 ws = Inr s')"
  by (subst run_Cons_single) (simp add: rbind_Inr_iff)

lemma run_step: "run s [w] = Inr s' \<Longrightarrow> run s (w # ws) = run s' ws"
  by (subst run_Cons_single) simp

lemma run_all_same: "(\<And>w. w \<in> set ws \<Longrightarrow> run s [w] = Inr s) \<Longrightarrow> run s ws = Inr s"
proof (induction ws)
  case Nil
  then show ?case by (simp add: run_Nil)
next
  case (Cons w ws)
  then show ?case by (simp add: run_Cons_single [of s w ws])
qed

lemma run_error_member:
  assumes "run s ws = Inl e" "I s"
    and "\<And>w s s'. w \<in> set ws \<Longrightarrow> I s \<Longrightarrow> run s [w] = Inr s' \<Longrightarrow> I s'"
  shows "\<exists>w \<in> set ws. \<exists>s1. I s1 \<and> run s1 [w] = Inl e"
  using assms
proof (induction ws arbitrary: s)
  case Nil
  then show ?case by (simp add: run_Nil)
next
  case (Cons w ws)
  show ?case
  proof (cases "run s [w]")
    case (Inl e')
    with Cons.prems(1) have "run s [w] = Inl e" by (subst (asm) run_Cons_single) simp
    with Cons.prems(2) show ?thesis by auto
  next
    case (Inr s')
    with Cons.prems have "run s' ws = Inl e" "I s'" by (auto simp: run_Cons_single [of s w ws])
    from Cons.IH [OF this] Cons.prems(3) show ?thesis by (metis list.set_intros(2))
  qed
qed

lemma run_member:
  assumes "run s ws = Inr s'" "w \<in> set ws"
  shows "\<exists>s1 s2. run s1 [w] = Inr s2"
  using assms
proof (induction ws arbitrary: s)
  case (Cons v ws)
  from Cons.prems(1) obtain s1 where "run s [v] = Inr s1" "run s1 ws = Inr s'"
    by (auto simp: run_Cons_Inr [of s v ws])
  with Cons show ?case by (cases "w = v") auto
qed simp

end

end
