(* ===== verification/PyValue.thy ===== *)
theory PyValue
  imports Prelude
begin

text \<open>
  The Python values the package's canonicalizer, validators and comparators walk. Containers are
  objects of a heap, so that a value can reach itself and two members can share one object;
  \<open>json\<close> is the finite tree such a value spells when it spells one, and \<open>unfold_value\<close> reads
  it off, down to a given number of nested containers.
\<close>

section \<open>Floats\<close>

text \<open>
  A finite non-zero double is given by the decimal that identifies it: the digits of the shortest
  decimal that rounds to it, and the exponent \<open>n\<close> with value \<open>0.d1d2...dk * 10^n\<close>. Python's
  \<open>repr\<close> and JavaScript's \<open>Number::toString\<close> both print that decimal and differ only in layout.
  Rounding to doubles is monotone, so comparing this decimal with an integer below 2**53 agrees
  with comparing the double.
\<close>

datatype pyfloat =
    FNaN
  | FInf bool \<comment> \<open>negative?\<close>
  | FZero bool
  | FDec bool "nat list" int

definition wf_digits :: "nat list \<Rightarrow> bool" where
  "wf_digits ds \<longleftrightarrow> ds \<noteq> [] \<and> (\<forall>d \<in> set ds. d < 10) \<and> hd ds \<noteq> 0 \<and> last ds \<noteq> 0"

fun wf_float :: "pyfloat \<Rightarrow> bool" where
  "wf_float (FDec neg ds n) = wf_digits ds"
| "wf_float _ = True"

fun is_finite_float :: "pyfloat \<Rightarrow> bool" where
  "is_finite_float FNaN = False"
| "is_finite_float (FInf neg) = False"
| "is_finite_float _ = True"

text \<open>The magnitude of \<open>0.d1...dk * 10^n\<close> compared with a natural number, in integers.\<close>

definition dec_gt :: "nat list \<Rightarrow> int \<Rightarrow> nat \<Rightarrow> bool" where
  "dec_gt ds n m =
     (let e = n - int (length ds) in
      if 0 \<le> e then m < digits_nat ds * 10 ^ nat e
      else m * 10 ^ nat (- e) < digits_nat ds)"

fun float_abs_gt :: "pyfloat \<Rightarrow> nat \<Rightarrow> bool" where
  "float_abs_gt FNaN m = False"
| "float_abs_gt (FInf neg) m = True"
| "float_abs_gt (FZero neg) m = False"
| "float_abs_gt (FDec neg ds n) m = dec_gt ds n m"

text \<open>\<open>x == int(x)\<close> for a finite float: no digit stands after the decimal point.\<close>

fun float_integral :: "pyfloat \<Rightarrow> bool" where
  "float_integral (FZero neg) = True"
| "float_integral (FDec neg ds n) = (int (length ds) \<le> n)"
| "float_integral _ = False"

text \<open>Python's \<open>repr\<close> of a positive finite float (\<open>float_repr_style\<close> short).\<close>

definition py_repr_dec :: "nat list \<Rightarrow> int \<Rightarrow> ustr" where
  "py_repr_dec ds n =
     (let k = int (length ds); cs = digit_chars ds in
      if n \<le> -4 \<or> 16 < n then
        (if length ds = 1 then cs else take 1 cs @ U ''.'' @ drop 1 cs) @ U ''e''
        @ (if n - 1 < 0 then U ''-'' else U ''+'')
        @ (let e = digit_chars (nat_digits (nat \<bar>n - 1\<bar>)) in if length e < 2 then U ''0'' @ e else e)
      else if n \<le> 0 then U ''0.'' @ replicate (nat (- n)) 48 @ cs
      else if k \<le> n then cs @ replicate (nat (n - k)) 48 @ U ''.0''
      else take (nat n) cs @ U ''.'' @ drop (nat n) cs)"

section \<open>Values, objects, trees\<close>

text \<open>
  \<open>VOther\<close> is a value of any type that is not exactly one of the JSON built-ins: a subclass of
  one of them, a tuple, a user object. The sources dispatch on the exact type, so nothing else of
  such a value is ever read.
\<close>

datatype pyval =
    VNone
  | VBool bool
  | VInt int
  | VFloat pyfloat
  | VStr ustr
  | VRef nat \<comment> \<open>an exact \<open>list\<close> or \<open>dict\<close>; the number is its identity, \<open>id(value)\<close>\<close>
  | VOther ustr \<comment> \<open>the type's name\<close>

datatype pyobj =
    OList "pyval list"
  | ODict "(pyval \<times> pyval) list" \<comment> \<open>insertion order\<close>

type_synonym heap = "nat \<Rightarrow> pyobj"

datatype json =
    JNull
  | JBool bool
  | JInt int
  | JFloat pyfloat
  | JStr ustr
  | JArr "json list"
  | JObj "(ustr \<times> json) list"

text \<open>
  \<open>unfold_value h n v\<close>: the tree of \<open>v\<close> if it nests at most \<open>n\<close> containers, holds exact JSON
  built-ins only and every key is an exact \<open>str\<close>. A value that reaches itself nests without end
  and has no tree for any \<open>n\<close>.
\<close>

fun unfold_items :: "('a \<Rightarrow> json option) \<Rightarrow> 'a list \<Rightarrow> json list option" where
  "unfold_items f [] = Some []"
| "unfold_items f (x # xs) =
     (case f x of None \<Rightarrow> None | Some t \<Rightarrow> map_option (Cons t) (unfold_items f xs))"

fun unfold_members :: "('a \<Rightarrow> json option) \<Rightarrow> (pyval \<times> 'a) list \<Rightarrow> (ustr \<times> json) list option" where
  "unfold_members f [] = Some []"
| "unfold_members f ((k, x) # xs) =
     (case k of
        VStr s \<Rightarrow> (case f x of None \<Rightarrow> None | Some t \<Rightarrow> map_option (Cons (s, t)) (unfold_members f xs))
      | _ \<Rightarrow> None)"

fun scalar_tree :: "pyval \<Rightarrow> json option" where
  "scalar_tree VNone = Some JNull"
| "scalar_tree (VBool b) = Some (JBool b)"
| "scalar_tree (VInt i) = Some (JInt i)"
| "scalar_tree (VFloat f) = Some (JFloat f)"
| "scalar_tree (VStr s) = Some (JStr s)"
| "scalar_tree (VRef a) = None"
| "scalar_tree (VOther t) = None"

fun unfold_value :: "heap \<Rightarrow> nat \<Rightarrow> pyval \<Rightarrow> json option" where
  "unfold_value h 0 (VRef a) = None"
| "unfold_value h (Suc n) (VRef a) =
     (case h a of
        OList vs \<Rightarrow> map_option JArr (unfold_items (unfold_value h n) vs)
      | ODict kvs \<Rightarrow> map_option JObj (unfold_members (unfold_value h n) kvs))"
| "unfold_value h n v = scalar_tree v"

text \<open>
  How many iterations visiting \<open>v\<close> can cause in any of the walks, when at most \<open>n\<close> more
  containers may be entered. It bounds the walks' loops also on values that reach themselves.
\<close>

fun weight :: "heap \<Rightarrow> nat \<Rightarrow> pyval \<Rightarrow> nat" where
  "weight h (Suc n) (VRef a) =
     (case h a of
        OList vs \<Rightarrow> 4 + sum_list (map (\<lambda>x. weight h n x + 2) vs)
      | ODict kvs \<Rightarrow> 4 + sum_list (map (\<lambda>kv. weight h n (snd kv) + 2) kvs))"
| "weight h n v = 1"

text \<open>Reading containers: the items of an exact \<open>dict\<close> or \<open>list\<close>, \<open>dict.get\<close>, truth values.\<close>

fun dict_items :: "heap \<Rightarrow> pyval \<Rightarrow> (pyval \<times> pyval) list option" where
  "dict_items h (VRef a) = (case h a of ODict kvs \<Rightarrow> Some kvs | OList vs \<Rightarrow> None)"
| "dict_items h v = None"

fun list_items :: "heap \<Rightarrow> pyval \<Rightarrow> pyval list option" where
  "list_items h (VRef a) = (case h a of OList vs \<Rightarrow> Some vs | ODict kvs \<Rightarrow> None)"
| "list_items h v = None"

definition dict_get :: "(pyval \<times> pyval) list \<Rightarrow> string \<Rightarrow> pyval option" where
  "dict_get kvs key = map_of kvs (VStr (U key))"

fun truthy :: "heap \<Rightarrow> pyval \<Rightarrow> bool" where
  "truthy h VNone = False"
| "truthy h (VBool b) = b"
| "truthy h (VInt i) = (i \<noteq> 0)"
| "truthy h (VFloat (FZero neg)) = False"
| "truthy h (VFloat f) = True"
| "truthy h (VStr s) = (s \<noteq> [])"
| "truthy h (VRef a) = (case h a of OList vs \<Rightarrow> vs \<noteq> [] | ODict kvs \<Rightarrow> kvs \<noteq> [])"
| "truthy h (VOther t) = True"

section \<open>Facts on unfolding\<close>

lemma tree_item_size: "t' \<in> set ts \<Longrightarrow> size t' < size (JArr ts)"
  using size_list_estimation' [of t' ts "size t'" size] by simp

lemma tree_member_size: "kt \<in> set kts \<Longrightarrow> size (snd kt) < size (JObj kts)"
  using size_list_estimation' [of kt kts "size (snd kt)" "size_prod (\<lambda>x. 0) size"] by (cases kt) simp

lemma weight_pos [simp]: "0 < weight h n v"
  by (cases n; cases v) (auto split: pyobj.split)

lemma unfold_items_cong [fundef_cong]:
  "xs = ys \<Longrightarrow> (\<And>x. x \<in> set ys \<Longrightarrow> f x = g x) \<Longrightarrow> unfold_items f xs = unfold_items g ys"
  by (induction ys arbitrary: xs) (auto split: option.split)

lemma unfold_items_Some_iff:
  "unfold_items f xs = Some ts \<longleftrightarrow> list_all2 (\<lambda>x t. f x = Some t) xs ts"
  by (induction xs arbitrary: ts) (auto simp: list_all2_Cons1 split: option.split)

lemma unfold_members_Some_iff:
  "unfold_members f kvs = Some kts \<longleftrightarrow>
   list_all2 (\<lambda>kv kt. fst kv = VStr (fst kt) \<and> f (snd kv) = Some (snd kt)) kvs kts"
proof (induction kvs arbitrary: kts)
  case (Cons kv kvs)
  then show ?case
    by (cases kv) (auto simp: list_all2_Cons1 split: option.split pyval.split)
qed auto

lemma unfold_value_Suc_mono: "unfold_value h n v = Some t \<Longrightarrow> unfold_value h (Suc n) v = Some t"
proof (induction n arbitrary: v t)
  case 0
  then show ?case by (cases v) auto
next
  case (Suc n)
  show ?case
  proof (cases v)
    case (VRef a)
    show ?thesis
    proof (cases "h a")
      case (OList vs)
      with Suc.prems VRef obtain ts where t: "t = JArr ts"
        and l: "list_all2 (\<lambda>x t. unfold_value h n x = Some t) vs ts"
        by (auto simp: unfold_items_Some_iff)
      from l have "list_all2 (\<lambda>x t. unfold_value h (Suc n) x = Some t) vs ts"
        by (rule list.rel_mono_strong) (rule Suc.IH)
      with t VRef OList show ?thesis by (simp add: unfold_items_Some_iff)
    next
      case (ODict kvs)
      with Suc.prems VRef obtain kts where t: "t = JObj kts"
        and l: "list_all2 (\<lambda>kv kt. fst kv = VStr (fst kt) \<and> unfold_value h n (snd kv) = Some (snd kt)) kvs kts"
        by (auto simp: unfold_members_Some_iff)
      from l have "list_all2 (\<lambda>kv kt. fst kv = VStr (fst kt) \<and> unfold_value h (Suc n) (snd kv) = Some (snd kt)) kvs kts"
        by (rule list.rel_mono_strong) (simp add: Suc.IH)
      with t VRef ODict show ?thesis by (simp add: unfold_members_Some_iff)
    qed
  qed (use Suc.prems in auto)
qed

lemma unfold_value_mono: "m \<le> n \<Longrightarrow> unfold_value h m v = Some t \<Longrightarrow> unfold_value h n v = Some t"
  by (induction n rule: dec_induct) (auto intro: unfold_value_Suc_mono simp del: unfold_value.simps)

lemma unfold_value_unique:
  assumes "unfold_value h m v = Some t" "unfold_value h n v = Some t'"
  shows "t = t'"
proof (cases "m \<le> n")
  case True
  with assms unfold_value_mono [of m n h v t] show ?thesis by simp
next
  case False
  with assms unfold_value_mono [of n m h v t'] show ?thesis by simp
qed

end
