(* ===== verification/Fp2.thy ===== *)
theory Fp2
  imports PyValue
begin

text \<open>
  The fp2 canonicalizer, \<open>traigent_schema/fp2.py\<close>: the scalar encoders, the encoder loop with
  its explicit work stack, \<open>canonicalize\<close> and \<open>digest\<close>. \<open>canon\<close> is the recursive meaning of
  the loop on a finite tree; the lemmas show that the loop computes it and that it rejects exactly
  what has no canonical form. What the texts say of the values is in \<open>Fp2Text\<close>.
\<close>

section \<open>Scalars\<close>

datatype fp2_error =
    LoneSurrogate nat
  | NonFiniteNumber
  | IntOutsideSafeRange
  | KeyNotPlainString
  | NestsTooDeep
  | CircularReference
  | UnsupportedType

definition MAX_SAFE_INTEGER :: nat where
  "MAX_SAFE_INTEGER = 2 ^ 53 - 1"

definition MAX_DEPTH :: nat where
  "MAX_DEPTH = 100"

definition escape_char :: "nat \<Rightarrow> ustr" where
  "escape_char c =
     (if c = 34 then [92, 34]
      else if c = 92 then [92, 92]
      else if c = 10 then [92, 110]
      else if c = 13 then [92, 114]
      else if c = 9 then [92, 116]
      else if c = 8 then [92, 98]
      else if c = 12 then [92, 102]
      else if c < 32 then [92, 117, 48, 48, hex_char (c div 16), hex_char (c mod 16)]
      else [c])"

definition utf16_sort_key :: "ustr \<Rightarrow> fp2_error + byte list" where
  "utf16_sort_key s =
     (case first_surrogate s of Some i \<Rightarrow> Inl (LoneSurrogate i) | None \<Rightarrow> Inr (utf16_be s))"

definition string_text :: "ustr \<Rightarrow> ustr" where
  "string_text s = 34 # concat (map escape_char s) @ [34]"

definition encode_string :: "ustr \<Rightarrow> fp2_error + ustr" where
  "encode_string s = rbind (utf16_sort_key s) (\<lambda>_. Inr (string_text s))"

text \<open>\<open>str.partition\<close> at a character, \<open>lstrip\<close> and \<open>rstrip\<close> of zeros, \<open>int\<close> of an exponent.\<close>

definition partition_at :: "nat \<Rightarrow> ustr \<Rightarrow> ustr \<times> ustr" where
  "partition_at c s = (takeWhile (\<lambda>x. x \<noteq> c) s, drop 1 (dropWhile (\<lambda>x. x \<noteq> c) s))"

definition lstrip0 :: "ustr \<Rightarrow> ustr" where
  "lstrip0 s = dropWhile (\<lambda>x. x = 48) s"

definition rstrip0 :: "ustr \<Rightarrow> ustr" where
  "rstrip0 s = rev (dropWhile (\<lambda>x. x = 48) (rev s))"

definition digits_value :: "ustr \<Rightarrow> int" where
  "digits_value s = int (digits_nat (map (\<lambda>c. c - 48) s))"

definition int_of_text :: "ustr \<Rightarrow> int" where
  "int_of_text s =
     (case s of [] \<Rightarrow> 0
      | c # r \<Rightarrow> if c = 45 then - digits_value r else if c = 43 then digits_value r else digits_value s)"

text \<open>
  \<open>_shortest_digits\<close> reads the digits and the exponent back from the text of \<open>repr\<close>.
\<close>

definition shortest_digits :: "ustr \<Rightarrow> ustr \<times> int" where
  "shortest_digits text =
     (let (mantissa, exponent_text) = partition_at 101 text;
          exponent = (if exponent_text = [] then 0 else int_of_text exponent_text);
          (integer_part, fraction_part) = partition_at 46 mantissa;
          digits = integer_part @ fraction_part;
          stripped = lstrip0 digits;
          n = int (length integer_part) + exponent - int (length digits - length stripped);
          result = rstrip0 stripped
      in (if result = [] then [48] else result, n))"

definition es_number :: "ustr \<Rightarrow> int \<Rightarrow> ustr" where
  "es_number digits n =
     (let k = int (length digits) in
      if k \<le> n \<and> n \<le> 21 then digits @ replicate (nat (n - k)) 48
      else if 0 < n \<and> n \<le> 21 then take (nat n) digits @ U ''.'' @ drop (nat n) digits
      else if -6 < n \<and> n \<le> 0 then U ''0.'' @ replicate (nat (- n)) 48 @ digits
      else
        (if length digits = 1 then digits else take 1 digits @ U ''.'' @ drop 1 digits)
        @ U ''e'' @ (if 0 \<le> n - 1 then U ''+'' else U ''-'') @ digit_chars (nat_digits (nat \<bar>n - 1\<bar>)))"

fun ecmascript_number_to_string :: "pyfloat \<Rightarrow> ustr" where
  "ecmascript_number_to_string (FDec neg ds n) =
     (let (digits, m) = shortest_digits (py_repr_dec ds n);
          text = es_number digits m
      in if neg then 45 # text else text)"
| "ecmascript_number_to_string (FZero neg) = U ''0''"
| "ecmascript_number_to_string _ = []"

definition encode_float :: "pyfloat \<Rightarrow> fp2_error + ustr" where
  "encode_float f =
     (if \<not> is_finite_float f then Inl NonFiniteNumber else Inr (ecmascript_number_to_string f))"

definition encode_int :: "int \<Rightarrow> fp2_error + ustr" where
  "encode_int i =
     (if int MAX_SAFE_INTEGER < \<bar>i\<bar> then Inl IntOutsideSafeRange else Inr (int_text i))"

text \<open>\<open>None\<close>: not a scalar.\<close>

fun encode_scalar :: "pyval \<Rightarrow> fp2_error + ustr option" where
  "encode_scalar VNone = Inr (Some (U ''null''))"
| "encode_scalar (VBool True) = Inr (Some (U ''true''))"
| "encode_scalar (VBool False) = Inr (Some (U ''false''))"
| "encode_scalar (VStr s) = rbind (encode_string s) (\<lambda>t. Inr (Some t))"
| "encode_scalar (VInt i) = rbind (encode_int i) (\<lambda>t. Inr (Some t))"
| "encode_scalar (VFloat f) = rbind (encode_float f) (\<lambda>t. Inr (Some t))"
| "encode_scalar _ = Inr None"

section \<open>The encoder loop\<close>

text \<open>
  The stack's top is the head of the list; entries pushed reversed by the source stand here in
  the order they pop.
\<close>

datatype fp2_work =
    Emit ustr
  | Value pyval nat
  | Close nat

definition plain_key :: "pyval \<Rightarrow> fp2_error + unit" where
  "plain_key k = (case k of VStr s \<Rightarrow> Inr () | _ \<Rightarrow> Inl KeyNotPlainString)"

definition key_text :: "pyval \<Rightarrow> ustr" where
  "key_text k = (case k of VStr s \<Rightarrow> s | _ \<Rightarrow> [])"

fun member_entries :: "bool \<Rightarrow> (ustr \<times> pyval) list \<Rightarrow> nat \<Rightarrow> fp2_error + fp2_work list" where
  "member_entries first [] depth = Inr [Emit (U ''}'')]"
| "member_entries first ((key, item) # items) depth =
     rbind (encode_string key) (\<lambda>text.
     rbind (member_entries False items depth) (\<lambda>rest.
     Inr ((if first then [] else [Emit (U '','')])
          @ [Emit (text @ U '':''), Value item (depth + 1)] @ rest)))"

definition dict_children :: "(pyval \<times> pyval) list \<Rightarrow> nat \<Rightarrow> fp2_error + fp2_work list" where
  "dict_children kvs depth =
     rbind (check_all (\<lambda>kv. plain_key (fst kv)) kvs) (\<lambda>_.
     rbind (traverse (\<lambda>kv. rbind (utf16_sort_key (key_text (fst kv)))
                              (\<lambda>key. Inr (key, key_text (fst kv), snd kv))) kvs) (\<lambda>keyed.
     member_entries True (map snd (sort_key fst keyed)) depth))"

fun item_entries :: "bool \<Rightarrow> pyval list \<Rightarrow> nat \<Rightarrow> fp2_work list" where
  "item_entries first [] depth = [Emit (U '']'')]"
| "item_entries first (item # items) depth =
     (if first then [] else [Emit (U '','')]) @ [Value item (depth + 1)]
     @ item_entries False items depth"

definition list_children :: "pyval list \<Rightarrow> nat \<Rightarrow> fp2_work list" where
  "list_children vs depth = item_entries True vs depth"

text \<open>The opener to emit, the identities now open, and the entries pushed.\<close>

definition open_container ::
  "heap \<Rightarrow> nat \<Rightarrow> nat \<Rightarrow> nat set \<Rightarrow> fp2_error + (ustr \<times> nat set \<times> fp2_work list)" where
  "open_container h a depth opened =
     (if MAX_DEPTH < depth then Inl NestsTooDeep
      else if a \<in> opened then Inl CircularReference
      else
        (case h a of
           ODict kvs \<Rightarrow>
             rbind (dict_children kvs depth)
               (\<lambda>pending. Inr (U ''{'', insert a opened, pending @ [Close a]))
         | OList vs \<Rightarrow> Inr (U ''['', insert a opened, list_children vs depth @ [Close a])))"

fun encode_step ::
  "heap \<Rightarrow> ustr \<times> nat set \<Rightarrow> fp2_work \<Rightarrow> fp2_error + ((ustr \<times> nat set) \<times> fp2_work list)" where
  "encode_step h (out, opened) (Emit text) = Inr ((out @ text, opened), [])"
| "encode_step h (out, opened) (Close a) = Inr ((out, opened - {a}), [])"
| "encode_step h (out, opened) (Value v depth) =
     rbind (encode_scalar v) (\<lambda>scalar.
       case scalar of
         Some text \<Rightarrow> Inr ((out @ text, opened), [])
       | None \<Rightarrow>
           (case v of
              VRef a \<Rightarrow> rbind (open_container h a depth opened)
                          (\<lambda>(opener, opened', pending). Inr ((out @ opener, opened'), pending))
            | _ \<Rightarrow> Inl UnsupportedType))"

fun entry_cost :: "heap \<Rightarrow> fp2_work \<Rightarrow> nat" where
  "entry_cost h (Emit text) = 1"
| "entry_cost h (Close a) = 1"
| "entry_cost h (Value v depth) = weight h (Suc MAX_DEPTH - depth) v"

lemma sum_cost_item_entries:
  "sum_list (map (entry_cost h) (item_entries first vs depth))
   \<le> 1 + sum_list (map (\<lambda>v. weight h (MAX_DEPTH - depth) v + 2) vs)"
  by (induction vs arbitrary: first) (auto simp: le_SucI)

lemma sum_cost_member_entries:
  "member_entries first kvs depth = Inr ws \<Longrightarrow>
   sum_list (map (entry_cost h) ws)
   \<le> 1 + sum_list (map (\<lambda>kv. weight h (MAX_DEPTH - depth) (snd kv) + 2) kvs)"
proof (induction first kvs depth arbitrary: ws rule: member_entries.induct)
  case (2 first key item items depth)
  from 2(2) obtain t rest where "member_entries False items depth = Inr rest"
    and ws: "ws = (if first then [] else [Emit (U '','')])
          @ [Emit (t @ U '':''), Value item (depth + 1)] @ rest"
    by (auto simp: rbind_Inr_iff)
  from 2(1) [OF this(1)] show ?case by (auto simp: ws)
qed auto

lemma dict_children_items:
  assumes "dict_children kvs depth = Inr ws"
  shows "\<exists>keyed. traverse (\<lambda>kv. rbind (utf16_sort_key (key_text (fst kv)))
                              (\<lambda>key. Inr (key, key_text (fst kv), snd kv))) kvs = Inr keyed
           \<and> member_entries True (map snd (sort_key fst keyed)) depth = Inr ws"
  using assms by (auto simp: dict_children_def rbind_Inr_iff)

lemma sum_cost_dict_children:
  assumes "dict_children kvs depth = Inr ws"
  shows "sum_list (map (entry_cost h) ws)
         \<le> 1 + sum_list (map (\<lambda>kv. weight h (MAX_DEPTH - depth) (snd kv) + 2) kvs)"
proof -
  obtain keyed where k: "traverse (\<lambda>kv. rbind (utf16_sort_key (key_text (fst kv)))
        (\<lambda>key. Inr (key, key_text (fst kv), snd kv))) kvs = Inr keyed"
    and m: "member_entries True (map snd (sort_key fst keyed)) depth = Inr ws"
    using dict_children_items [OF assms] by blast
  have "map (\<lambda>k. snd (snd k)) keyed = map snd kvs"
    using k [unfolded traverse_Inr_iff]
    by (induction rule: list_all2_induct) (auto simp: rbind_Inr_iff)
  then have "map (f \<circ> (\<lambda>k. snd (snd k))) keyed = map (f \<circ> snd) kvs" for f :: "pyval \<Rightarrow> nat"
    by (metis map_map)
  from this [of "\<lambda>v. weight h (MAX_DEPTH - depth) v + 2"] show ?thesis
    using sum_cost_member_entries [OF m, of h] by (simp add: comp_def)
qed

lemma encode_step_cost:
  "encode_step h s w = Inr (s', new) \<Longrightarrow> sum_list (map (entry_cost h) new) < entry_cost h w"
proof (induction h s w rule: encode_step.induct)
  case (3 h out opened v depth)
  show ?case
  proof (cases v)
    case (VRef a)
    with 3 have d: "\<not> MAX_DEPTH < depth"
      by (auto simp: open_container_def)
    then have suc: "Suc MAX_DEPTH - depth = Suc (MAX_DEPTH - depth)" by simp
    show ?thesis
    proof (cases "h a")
      case (OList vs)
      with 3 VRef d have "new = list_children vs depth @ [Close a]"
        by (auto simp: open_container_def split: if_splits)
      then show ?thesis
        using sum_cost_item_entries [of h True vs depth] VRef OList suc
        by (simp add: list_children_def)
    next
      case (ODict kvs)
      with 3 VRef d obtain ws where "dict_children kvs depth = Inr ws" "new = ws @ [Close a]"
        by (auto simp: open_container_def rbind_Inr_iff split: if_splits)
      then show ?thesis
        using sum_cost_dict_children [of kvs depth ws h] VRef ODict suc by simp
    qed
  next
    case (VBool b)
    with 3 show ?thesis by (cases b) auto
  qed (use 3 in \<open>auto simp: rbind_Inr_iff\<close>)
qed auto

function encode_loop ::
  "heap \<Rightarrow> ustr \<times> nat set \<Rightarrow> fp2_work list \<Rightarrow> fp2_error + ustr \<times> nat set" where
  "encode_loop h s [] = Inr s"
| "encode_loop h s (w # ws) =
     (case encode_step h s w of Inl e \<Rightarrow> Inl e | Inr (s', new) \<Rightarrow> encode_loop h s' (new @ ws))"
  by pat_completeness auto
termination
  by (relation "measure (\<lambda>(h, s, ws). sum_list (map (entry_cost h) ws))")
    (auto dest: encode_step_cost)

definition encode :: "heap \<Rightarrow> pyval \<Rightarrow> fp2_error + ustr" where
  "encode h root = rbind (encode_loop h ([], {}) [Value root 1]) (\<lambda>s. Inr (fst s))"

definition canonicalize :: "heap \<Rightarrow> pyval \<Rightarrow> fp2_error + ustr" where
  "canonicalize h v = encode h v"

text \<open>\<open>sha256\<close> is the hash function of \<open>hashlib\<close>, \<open>hex\<close> its \<open>hexdigest\<close>.\<close>

definition hexdigest :: "byte list \<Rightarrow> ustr" where
  "hexdigest bs = concat (map (\<lambda>b. [hex_char (unat b div 16), hex_char (unat b mod 16)]) bs)"

definition digest :: "(byte list \<Rightarrow> byte list) \<Rightarrow> heap \<Rightarrow> pyval \<Rightarrow> fp2_error + ustr" where
  "digest sha256 h v =
     rbind (canonicalize h v) (\<lambda>canonical. Inr (U ''sha256:'' @ hexdigest (sha256 (utf8 canonical))))"

interpretation fp2_walk: work_stack "encode_step h" "encode_loop h" "entry_cost h" for h
  by unfold_locales
    (auto dest: encode_step_cost simp: rbind_def split: sum.split)

section \<open>The recursive meaning of the loop\<close>

fun with_commas :: "bool \<Rightarrow> ustr list \<Rightarrow> ustr" where
  "with_commas first [] = []"
| "with_commas first (x # xs) = (if first then [] else U '','') @ x @ with_commas False xs"

fun canon :: "json \<Rightarrow> ustr" where
  "canon JNull = U ''null''"
| "canon (JBool b) = (if b then U ''true'' else U ''false'')"
| "canon (JInt i) = int_text i"
| "canon (JFloat f) = ecmascript_number_to_string f"
| "canon (JStr s) = string_text s"
| "canon (JArr ts) = U ''['' @ with_commas True (map canon ts) @ U '']''"
| "canon (JObj kts) =
     U ''{'' @ with_commas True (map (\<lambda>(k, text). string_text k @ U '':'' @ text)
                 (sort_key (\<lambda>(k, text). utf16_be k) (map (\<lambda>(k, t). (k, canon t)) kts))) @ U ''}''"

definition encodable :: "ustr \<Rightarrow> bool" where
  "encodable s \<longleftrightarrow> (\<forall>c \<in> set s. \<not> is_surrogate c)"

lemma encodable_U [simp]: "encodable (U s)"
proof -
  have small: "of_char c < (256 :: nat)" for c :: char using rangeI [of of_char c] unfolding range_nat_of_char by simp
  have "\<not> is_surrogate (of_char c)" for c :: char
    using small [of c] unfolding is_surrogate_def by linarith
  then show ?thesis by (auto simp: encodable_def U_def)
qed

fun fp2_ok :: "json \<Rightarrow> bool" where
  "fp2_ok (JInt i) = (\<bar>i\<bar> \<le> int MAX_SAFE_INTEGER)"
| "fp2_ok (JFloat f) = is_finite_float f"
| "fp2_ok (JStr s) = encodable s"
| "fp2_ok (JArr ts) = (\<forall>t \<in> set ts. fp2_ok t)"
| "fp2_ok (JObj kts) = (\<forall>(k, t) \<in> set kts. encodable k \<and> fp2_ok t)"
| "fp2_ok _ = True"

lemma encode_string_iff: "encode_string s = Inr t \<longleftrightarrow> encodable s \<and> t = string_text s"
  by (auto simp: encode_string_def utf16_sort_key_def encodable_def first_surrogate_None_iff
      rbind_def split: option.split sum.split)
    (metis first_surrogate_None_iff option.distinct(1))+

lemma encode_scalar_iff:
  "encode_scalar v = Inr (Some s) \<longleftrightarrow> (\<exists>t. scalar_tree v = Some t \<and> fp2_ok t \<and> s = canon t)"
proof (cases v)
  case (VBool b)
  then show ?thesis by (cases b) auto
next
  case (VStr s)
  then show ?thesis by (auto simp: rbind_Inr_iff encode_string_iff)
next
  case (VInt i)
  then show ?thesis by (auto simp: rbind_Inr_iff encode_int_def)
next
  case (VFloat f)
  then show ?thesis by (auto simp: rbind_Inr_iff encode_float_def)
qed auto

lemma scalar_tree_None_iff: "scalar_tree v = None \<longleftrightarrow> (\<exists>a. v = VRef a) \<or> (\<exists>t. v = VOther t)"
  by (cases v) auto

lemma unfold_scalar: "(\<And>a. v \<noteq> VRef a) \<Longrightarrow> unfold_value h n v = scalar_tree v"
  by (cases v) auto

definition open_ok :: "heap \<Rightarrow> nat set \<Rightarrow> json \<Rightarrow> bool" where
  "open_ok h opened t \<longleftrightarrow> (\<forall>a \<in> opened. \<exists>m t'. unfold_value h m (VRef a) = Some t' \<and> size t < size t')"

lemma open_ok_not_mem: "open_ok h opened t \<Longrightarrow> unfold_value h n (VRef a) = Some t \<Longrightarrow> a \<notin> opened"
  using unfold_value_unique by (fastforce simp: open_ok_def)

lemma open_ok_child:
  "open_ok h opened t \<Longrightarrow> unfold_value h n (VRef a) = Some t \<Longrightarrow> size t' < size t \<Longrightarrow>
   open_ok h (insert a opened) t'"
  unfolding open_ok_def by (auto intro: less_trans) (meson less_trans)

declare encode_loop.simps(2) [simp del]

lemma loop_Emit [simp]:
  "encode_loop h (out, opened) (Emit s # ws) = encode_loop h (out @ s, opened) ws"
  by (simp add: encode_loop.simps(2))

lemma loop_Close [simp]:
  "encode_loop h (out, opened) (Close a # ws) = encode_loop h (out, opened - {a}) ws"
  by (simp add: encode_loop.simps(2))

lemma item_loop:
  assumes "list_all2 ok vs ts"
    and "\<And>x t out. ok x t \<Longrightarrow> encode_loop h (out, opened) [Value x (Suc d)] = Inr (out @ canon t, opened)"
  shows "encode_loop h (out, opened) (item_entries first vs d @ ws) =
           encode_loop h (out @ with_commas first (map canon ts) @ U '']'', opened) ws"
  using assms(1)
proof (induction arbitrary: out first rule: list_all2_induct)
  case Nil
  then show ?case by simp
next
  case (Cons x xs t ts)
  then show ?case
    by (cases first) (simp_all add: fp2_walk.run_step [OF assms(2) [OF Cons(1)]])
qed

lemma member_loop:
  assumes "\<forall>(k, x, t) \<in> set zs. encodable k \<and>
      (\<forall>out. encode_loop h (out, opened) [Value x (Suc d)] = Inr (out @ canon t, opened))"
  shows "\<exists>es. member_entries first (map (\<lambda>(k, x, t). (k, x)) zs) d = Inr es \<and>
           (\<forall>out ws. encode_loop h (out, opened) (es @ ws) = encode_loop h
             (out @ with_commas first (map (\<lambda>(k, x, t). string_text k @ U '':'' @ canon t) zs) @ U ''}'', opened) ws)"
  using assms
proof (induction zs arbitrary: first)
  case Nil
  then show ?case by simp
next
  case (Cons z zs)
  obtain k x t where z: "z = (k, x, t)" by (cases z) auto
  have k: "encode_string k = Inr (string_text k)"
    using Cons.prems z by (simp add: encode_string_iff)
  have x: "encode_loop h (out, opened) (Value x (Suc d) # ws) = encode_loop h (out @ canon t, opened) ws" for out ws
    by (rule fp2_walk.run_step) (use Cons.prems z in auto)
  obtain es where "member_entries False (map (\<lambda>(k, x, t). (k, x)) zs) d = Inr es"
    "\<And>out ws. encode_loop h (out, opened) (es @ ws) = encode_loop h
       (out @ with_commas False (map (\<lambda>(k, x, t). string_text k @ U '':'' @ canon t) zs) @ U ''}'', opened) ws"
    using Cons.IH [of False] Cons.prems by auto
  then show ?case using x k z by simp
qed

lemma keyed_ok:
  assumes "\<forall>(k, x, t) \<in> set zs. encodable k"
  shows "traverse (\<lambda>kv. rbind (utf16_sort_key (key_text (fst kv))) (\<lambda>key. Inr (key, key_text (fst kv), snd kv)))
           (map (\<lambda>(k, x, t). (VStr k, x)) zs) = Inr (map (\<lambda>(k, x, t). (utf16_be k, k, x)) zs)"
  using assms
  by (induction zs) (auto simp: key_text_def utf16_sort_key_def encodable_def split: option.split
      dest: first_surrogate_None_iff [THEN iffD2])

lemma dict_children_ok:
  assumes "\<forall>(k, x, t) \<in> set zs. encodable k \<and>
      (\<forall>out. encode_loop h (out, opened) [Value x (Suc d)] = Inr (out @ canon t, opened))"
  shows "\<exists>es. dict_children (map (\<lambda>(k, x, t). (VStr k, x)) zs) d = Inr es \<and>
           (\<forall>out ws. encode_loop h (out @ U ''{'', opened) (es @ ws) = encode_loop h
             (out @ canon (JObj (map (\<lambda>(k, x, t). (k, t)) zs)), opened) ws)"
proof -
  let ?sorted = "sort_key (\<lambda>(k, x, t). utf16_be k) zs"
  have "\<forall>(k, x, t) \<in> set ?sorted. encodable k \<and>
      (\<forall>out. encode_loop h (out, opened) [Value x (Suc d)] = Inr (out @ canon t, opened))"
    using assms by simp
  from member_loop [OF this, of True] obtain es where
    es: "member_entries True (map (\<lambda>(k, x, t). (k, x)) ?sorted) d = Inr es"
      "\<And>out ws. encode_loop h (out, opened) (es @ ws) = encode_loop h
       (out @ with_commas True (map (\<lambda>(k, x, t). string_text k @ U '':'' @ canon t) ?sorted) @ U ''}'', opened) ws"
    by blast
  have "check_all (\<lambda>kv. plain_key (fst kv)) (map (\<lambda>(k, x, t). (VStr k, x)) zs) = Inr ()"
    by (auto simp: check_all_Inr_iff plain_key_def)
  moreover have "map snd (sort_key fst (map (\<lambda>(k, x, t). (utf16_be k, k, x)) zs)) = map (\<lambda>(k, x, t). (k, x)) ?sorted"
    by (simp add: sort_key_map comp_def case_prod_beta')
  moreover have "map (\<lambda>(k, text). string_text k @ U '':'' @ text) (sort_key (\<lambda>(k, text). utf16_be k)
      (map (\<lambda>(k, t). (k, canon t)) (map (\<lambda>(k, x, t). (k, t)) zs))) =
      map (\<lambda>(k, x, t). string_text k @ U '':'' @ canon t) ?sorted"
    by (simp add: sort_key_map comp_def case_prod_beta')
  ultimately show ?thesis
    using es keyed_ok [of zs] assms by (auto simp: dict_children_def case_prod_beta')
qed

lemma visit_ok:
  assumes "unfold_value h n v = Some t" "fp2_ok t" "d + n \<le> Suc MAX_DEPTH" "open_ok h opened t"
  shows "encode_loop h (out, opened) [Value v d] = Inr (out @ canon t, opened)"
  using assms
proof (induction n arbitrary: v t d out opened)
  case 0
  then have "scalar_tree v = Some t" by (cases v) auto
  with 0 have "encode_scalar v = Inr (Some (canon t))" by (auto simp: encode_scalar_iff)
  then show ?case by (simp add: encode_loop.simps(2))
next
  case (Suc n)
  show ?case
  proof (cases "\<exists>a. v = VRef a")
    case False
    then have "scalar_tree v = Some t" using Suc.prems(1) by (cases v) auto
    with Suc.prems have "encode_scalar v = Inr (Some (canon t))" by (auto simp: encode_scalar_iff)
    then show ?thesis by (simp add: encode_loop.simps(2))
  next
    case True
    then obtain a where v: "v = VRef a" by blast
    have d: "\<not> MAX_DEPTH < d" using Suc.prems by simp
    have a: "a \<notin> opened" using open_ok_not_mem Suc.prems v by blast
    have child: "encode_loop h (out, insert a opened) [Value x (Suc d)] = Inr (out @ canon t', insert a opened)"
      if "unfold_value h n x = Some t'" "fp2_ok t'" "size t' < size t" for x t' out
      by (rule Suc.IH [OF that(1,2) _ open_ok_child [OF Suc.prems(4) Suc.prems(1) [unfolded v] that(3)]])
        (use Suc.prems in simp)
    show ?thesis
    proof (cases "h a")
      case (OList vs)
      with Suc.prems v obtain ts where t: "t = JArr ts"
        and l: "list_all2 (\<lambda>x t. unfold_value h n x = Some t) vs ts"
        by (auto simp: unfold_items_Some_iff)
      have sz: "t' \<in> set ts \<Longrightarrow> size t' < size t" for t'
        using t size_list_estimation' [of t' ts "size t'" size] by simp
      have "list_all2 (\<lambda>x t'. unfold_value h n x = Some t' \<and> t' \<in> set ts) vs ts"
        using l by (auto simp: list_all2_conv_all_nth)
      from item_loop [OF this, of h "insert a opened" d "out @ U ''[''" True "[Close a]"]
      show ?thesis using child sz Suc.prems(2) t v OList d a
        by (simp add: encode_loop.simps(2) open_container_def list_children_def)
    next
      case (ODict kvs)
      with Suc.prems v obtain kts where t: "t = JObj kts"
        and l: "list_all2 (\<lambda>kv kt. fst kv = VStr (fst kt) \<and> unfold_value h n (snd kv) = Some (snd kt)) kvs kts"
        by (auto simp: unfold_members_Some_iff)
      have sz: "size t' < size t" if "(k, t') \<in> set kts" for k t'
        using that t size_list_estimation [of "(k, t')" kts "size t'" "size_prod (\<lambda>x. 0) size"] by simp
      define zs where "zs = map (\<lambda>(kv, kt). (fst kt, snd kv, snd kt)) (zip kvs kts)"
      have kvs: "kvs = map (\<lambda>(k, x, t). (VStr k, x)) zs" and kts: "kts = map (\<lambda>(k, x, t). (k, t)) zs"
        using l by (auto simp: zs_def list_all2_conv_all_nth intro!: nth_equalityI) (auto simp: prod_eq_iff)
      have "\<forall>(k, x, t') \<in> set zs. unfold_value h n x = Some t' \<and> (k, t') \<in> set kts"
        using l by (auto simp: zs_def set_zip list_all2_conv_all_nth) (metis snd_conv)
      then have "\<forall>(k, x, t') \<in> set zs. encodable k \<and>
        (\<forall>out. encode_loop h (out, insert a opened) [Value x (Suc d)] = Inr (out @ canon t', insert a opened))"
        using child sz Suc.prems(2) t by fastforce
      from dict_children_ok [OF this] obtain es where "dict_children kvs d = Inr es"
        "\<And>out ws. encode_loop h (out @ U ''{'', insert a opened) (es @ ws) =
             encode_loop h (out @ canon t, insert a opened) ws"
        unfolding kvs t kts by blast
      then show ?thesis using t v ODict d a
        by (simp add: encode_loop.simps(2) open_container_def)
    qed
  qed
qed

lemma item_entries_Value: "x \<in> set vs \<Longrightarrow> Value x (Suc d) \<in> set (item_entries first vs d)"
  by (induction vs arbitrary: first) auto

lemma member_entries_sound:
  "member_entries first kvs d = Inr es \<Longrightarrow> (k, x) \<in> set kvs \<Longrightarrow>
   encodable k \<and> Value x (Suc d) \<in> set es"
  by (induction first kvs d arbitrary: es rule: member_entries.induct)
    (auto simp: rbind_Inr_iff encode_string_iff)

lemma dict_children_sound:
  assumes "dict_children kvs d = Inr es" "(k, x) \<in> set kvs"
  shows "\<exists>s. k = VStr s \<and> encodable s \<and> Value x (Suc d) \<in> set es"
proof -
  obtain keyed where k: "traverse (\<lambda>kv. rbind (utf16_sort_key (key_text (fst kv)))
        (\<lambda>key. Inr (key, key_text (fst kv), snd kv))) kvs = Inr keyed"
    and m: "member_entries True (map snd (sort_key fst keyed)) d = Inr es"
    using dict_children_items [OF assms(1)] by blast
  have "plain_key k = Inr ()"
    using assms by (auto simp: dict_children_def rbind_Inr_iff check_all_Inr_iff)
  then obtain s where s: "k = VStr s" by (auto simp: plain_key_def split: pyval.splits)
  from traverse_Inr_mem [OF k assms(2)] obtain b where "(b, key_text k, x) \<in> set keyed"
    by (auto simp: rbind_Inr_iff)
  then have "(s, x) \<in> set (map snd (sort_key fst keyed))"
    by (force simp: s key_text_def)
  from member_entries_sound [OF m this] s show ?thesis by simp
qed

lemma visit_sound:
  assumes "encode_loop h s [Value v d] = Inr s'" "Suc MAX_DEPTH - d = n"
  shows "\<exists>t. unfold_value h n v = Some t \<and> fp2_ok t"
  using assms
proof (induction n arbitrary: v d s s')
  case 0
  obtain out opened where s: "s = (out, opened)" by (cases s) auto
  have "\<exists>text. encode_scalar v = Inr (Some text)"
  proof (cases "encode_scalar v")
    case (Inr r)
    with 0 s show ?thesis
      by (cases r; cases v) (auto simp: encode_loop.simps(2) open_container_def)
  qed (use 0 s in \<open>simp add: encode_loop.simps(2)\<close>)
  then obtain t where "scalar_tree v = Some t" "fp2_ok t" by (auto simp: encode_scalar_iff)
  then show ?case by (cases v) auto
next
  case (Suc n)
  obtain out opened where s: "s = (out, opened)" by (cases s) auto
  show ?case
  proof (cases "\<exists>a. v = VRef a")
    case False
    then have "\<exists>text. encode_scalar v = Inr (Some text)"
      using Suc.prems(1) s
      by (cases "encode_scalar v"; cases v) (auto simp: encode_loop.simps(2) rbind_Inr_iff split: option.splits)
    then obtain t where "scalar_tree v = Some t" "fp2_ok t" by (auto simp: encode_scalar_iff)
    with False show ?thesis by (cases v) auto
  next
    case True
    then obtain a where v: "v = VRef a" by blast
    have n: "Suc MAX_DEPTH - Suc d = n" using Suc.prems(2) by simp
    have child: "\<exists>t. unfold_value h n x = Some t \<and> fp2_ok t"
      if "Value x (Suc d) \<in> set es" "encode_loop h s1 es = Inr s2" for x es s1 s2
      using fp2_walk.run_member [OF that(2,1)] Suc.IH [OF _ n] by blast
    from Suc.prems(1) obtain opener opened' es
      where o: "open_container h a d opened = Inr (opener, opened', es)"
        and run: "encode_loop h (out @ opener, opened') es = Inr s'"
      by (cases "open_container h a d opened") (auto simp: encode_loop.simps(2) v s)
    show ?thesis
    proof (cases "h a")
      case (OList vs)
      with o have es: "es = item_entries True vs d @ [Close a]"
        by (auto simp: open_container_def list_children_def split: if_splits)
      then have "\<forall>x \<in> set vs. \<exists>t. unfold_value h n x = Some t \<and> fp2_ok t"
        using child [OF _ run] item_entries_Value by auto
      then obtain f where f: "\<forall>x \<in> set vs. unfold_value h n x = Some (f x) \<and> fp2_ok (f x)" by metis
      then have "unfold_items (unfold_value h n) vs = Some (map f vs)"
        by (simp add: unfold_items_Some_iff list_all2_conv_all_nth)
      with f v OList show ?thesis by simp
    next
      case (ODict kvs)
      with o obtain ws where ws: "dict_children kvs d = Inr ws" and es: "es = ws @ [Close a]"
        by (auto simp: open_container_def rbind_Inr_iff split: if_splits)
      have "\<forall>kv \<in> set kvs. \<exists>k t. fst kv = VStr k \<and> encodable k \<and> unfold_value h n (snd kv) = Some t \<and> fp2_ok t"
        using dict_children_sound [OF ws] child [OF _ run] es by fastforce
      then obtain f g where f: "\<forall>kv \<in> set kvs. fst kv = VStr (f kv) \<and> encodable (f kv) \<and>
          unfold_value h n (snd kv) = Some (g kv) \<and> fp2_ok (g kv)" by metis
      then have "unfold_members (unfold_value h n) kvs = Some (map (\<lambda>kv. (f kv, g kv)) kvs)"
        by (simp add: unfold_members_Some_iff list_all2_conv_all_nth)
      with f v ODict show ?thesis by auto
    qed
  qed
qed

lemma canonicalize_char:
  "canonicalize h v = Inr s \<longleftrightarrow> (\<exists>t. unfold_value h MAX_DEPTH v = Some t \<and> fp2_ok t \<and> s = canon t)"
proof
  assume "canonicalize h v = Inr s"
  then obtain s' where s': "encode_loop h ([], {}) [Value v 1] = Inr s'" "s = fst s'"
    by (auto simp: canonicalize_def encode_def rbind_Inr_iff)
  from visit_sound [OF s'(1), of MAX_DEPTH] obtain t where t: "unfold_value h MAX_DEPTH v = Some t" "fp2_ok t"
    by auto
  from visit_ok [OF this, of 1 "{}" "[]"] s' show "\<exists>t. unfold_value h MAX_DEPTH v = Some t \<and> fp2_ok t \<and> s = canon t"
    using t by (auto simp: open_ok_def)
next
  assume "\<exists>t. unfold_value h MAX_DEPTH v = Some t \<and> fp2_ok t \<and> s = canon t"
  then show "canonicalize h v = Inr s"
    using visit_ok [of h MAX_DEPTH v _ 1 "{}" "[]"]
    by (auto simp: canonicalize_def encode_def open_ok_def)
qed

end
