(* ===== verification/Fp2Text.thy ===== *)
theory Fp2Text
  imports Fp2
begin

text \<open>
  What fp2 canonical texts say of the values they were made from: Python's and JavaScript's number
  layouts spell the same digits, canonical texts are prefix-free, and two values have the same
  text exactly if they have the same normal form (an \<open>int\<close> is the float of its value, members
  stand in UTF-16 order). The last section holds the theorems on \<open>canonicalize\<close>.
\<close>

section \<open>Number texts\<close>

lemma partition_at_hit: "c \<notin> set xs \<Longrightarrow> partition_at c (xs @ c # ys) = (xs, ys)"
proof -
  assume c: "c \<notin> set xs"
  have "dropWhile (\<lambda>x. x \<noteq> c) (xs @ c # ys) = c # ys"
    by (subst dropWhile_append2) (use c in auto)
  moreover have "takeWhile (\<lambda>x. x \<noteq> c) (xs @ c # ys) = xs"
    by (subst takeWhile_append2) (use c in auto)
  ultimately show ?thesis by (simp only: partition_at_def) simp
qed

lemma partition_at_miss: "c \<notin> set xs \<Longrightarrow> partition_at c xs = (xs, [])"
proof -
  assume c: "c \<notin> set xs"
  have "dropWhile (\<lambda>x. x \<noteq> c) (xs @ []) = dropWhile (\<lambda>x. x \<noteq> c) []"
    by (subst dropWhile_append2) (use c in auto)
  moreover have "takeWhile (\<lambda>x. x \<noteq> c) xs = xs"
    using c by (auto simp: takeWhile_eq_all_conv)
  ultimately show ?thesis by (simp only: partition_at_def append_Nil2) simp
qed

lemma digit_chars_range: "c \<in> set (digit_chars ds) \<Longrightarrow> (\<forall>d \<in> set ds. d < 10) \<Longrightarrow> 48 \<le> c \<and> c < 58"
  by (auto simp: digit_chars_def)

lemma wf_digits_chars:
  assumes "wf_digits ds"
  shows "digit_chars ds \<noteq> []" "hd (digit_chars ds) \<noteq> 48" "last (digit_chars ds) \<noteq> 48"
    "\<forall>c \<in> set (digit_chars ds). 48 \<le> c \<and> c < 58" "length (digit_chars ds) = length ds"
  using assms by (auto simp: wf_digits_def digit_chars_def hd_map last_map)

lemma lstrip0_replicate [simp]: "lstrip0 (replicate a 48 @ xs) = lstrip0 xs"
  by (induction a) (auto simp: lstrip0_def)

lemma lstrip0_id: "xs \<noteq> [] \<Longrightarrow> hd xs \<noteq> 48 \<Longrightarrow> lstrip0 (xs @ ys) = xs @ ys"
  by (cases xs) (auto simp: lstrip0_def)

lemma rstrip0_replicate [simp]: "rstrip0 (xs @ replicate b 48) = rstrip0 xs"
  using lstrip0_replicate [of b "rev xs"] by (simp add: rstrip0_def lstrip0_def)

lemma rstrip0_id: "xs \<noteq> [] \<Longrightarrow> last xs \<noteq> 48 \<Longrightarrow> rstrip0 xs = xs"
  using lstrip0_id [of "rev xs" "[]"] by (simp add: rstrip0_def lstrip0_def hd_rev)

lemma digits_nat_Cons0: "digits_nat (0 # ds) = digits_nat ds"
  by (simp add: digits_nat_def)

lemma digits_value_chars [simp]: "digits_value (digit_chars ds) = int (digits_nat ds)"
  by (simp add: digits_value_def digit_chars_def comp_def)

lemma int_of_text_signed:
  "int_of_text (43 # digit_chars (nat_digits m)) = int m"
  "int_of_text (45 # digit_chars (nat_digits m)) = - int m"
  "int_of_text (43 # 48 # digit_chars (nat_digits m)) = int m"
  "int_of_text (45 # 48 # digit_chars (nat_digits m)) = - int m"
  by (simp_all add: int_of_text_def digits_value_def digit_chars_def comp_def digits_nat_Cons0)

lemma shortest_digits_form:
  assumes wf: "wf_digits ds"
    and ip: "\<forall>c \<in> set ip. 48 \<le> c \<and> c < 58" and fp: "\<forall>c \<in> set fp. 48 \<le> c \<and> c < 58"
    and split: "ip @ fp = replicate a 48 @ digit_chars ds @ replicate b 48"
    and tx: "text = (if point then ip @ 46 # fp else ip) @ (if exp then 101 # et else [])"
    and nofp: "\<not> point \<Longrightarrow> fp = []"
    and et: "exp \<Longrightarrow> et \<noteq> [] \<and> int_of_text et = e" "\<not> exp \<Longrightarrow> e = 0"
  shows "shortest_digits text = (digit_chars ds, int (length ip) + e - int a)"
proof -
  note w = wf_digits_chars [OF wf]
  have noE: "101 \<notin> set ip" "101 \<notin> set fp" and noP: "46 \<notin> set ip"
    using ip fp by auto
  have m: "partition_at 101 text = (if point then ip @ 46 # fp else ip, if exp then et else [])"
  proof (cases exp)
    case True
    then show ?thesis unfolding tx
      using partition_at_hit [of 101 "if point then ip @ 46 # fp else ip" et] noE by auto
  next
    case False
    then show ?thesis unfolding tx
      using partition_at_miss [of 101 "if point then ip @ 46 # fp else ip"] noE by auto
  qed
  have p: "partition_at 46 (if point then ip @ 46 # fp else ip) = (ip, fp)"
    using partition_at_hit [OF noP] partition_at_miss [OF noP] nofp by auto
  have s: "lstrip0 (ip @ fp) = digit_chars ds @ replicate b 48"
    unfolding split using lstrip0_id [OF w(1,2)] by simp
  have r: "rstrip0 (digit_chars ds @ replicate b 48) = digit_chars ds"
    using rstrip0_id [OF w(1,3)] by simp
  have l: "int (length (ip @ fp)) - int (length (digit_chars ds @ replicate b 48)) = int a"
    unfolding split by simp
  show ?thesis using m p s r l w(1) et
    by (auto simp: shortest_digits_def Let_def)
qed

text \<open>Python's and JavaScript's layouts spell the same digits and exponent.\<close>

lemma shortest_digits_py_repr:
  assumes wf: "wf_digits ds"
  shows "shortest_digits (py_repr_dec ds n) = (digit_chars ds, n)"
proof -
  let ?cs = "digit_chars ds"
  note w = wf_digits_chars [OF wf]
  have z: "\<forall>c \<in> set (replicate k (48::nat)). 48 \<le> c \<and> c < 58" for k by simp
  have tk: "\<forall>c \<in> set (take k ?cs). 48 \<le> c \<and> c < 58" "\<forall>c \<in> set (drop k ?cs). 48 \<le> c \<and> c < 58" for k
    using w(4) by (auto dest: in_set_takeD in_set_dropD)
  have len1: "0 < int (length ds)" using w(1,5) by auto
  have min1: "min (length ds) (Suc 0) = Suc 0" using len1 by (cases ds) auto
  consider (exp) "n \<le> -4 \<or> 16 < n" | (small) "\<not> (n \<le> -4 \<or> 16 < n)" "n \<le> 0"
    | (whole) "\<not> (n \<le> -4 \<or> 16 < n)" "0 < n" "int (length ds) \<le> n"
    | (split) "\<not> (n \<le> -4 \<or> 16 < n)" "0 < n" "n < int (length ds)"
    by linarith
  then show ?thesis
  proof cases
    case exp
    let ?m = "nat \<bar>n - 1\<bar>"
    let ?et = "(if n - 1 < 0 then U ''-'' else U ''+'') @
      (let e = digit_chars (nat_digits ?m) in if length e < 2 then U ''0'' @ e else e)"
    have et: "?et \<noteq> [] \<and> int_of_text ?et = n - 1"
      by (auto simp: U_def Let_def int_of_text_signed)
    show ?thesis
    proof (cases "length ds = 1")
      case True
      with w have "shortest_digits (py_repr_dec ds n) = (?cs, int (length ?cs) + (n - 1) - int 0)"
        using exp et
        by (intro shortest_digits_form [OF wf, where fp = "[]" and b = 0 and point = False and exp = True and et = ?et])
          (auto simp: py_repr_dec_def Let_def U_def)
      with True w show ?thesis by simp
    next
      case False
      have "shortest_digits (py_repr_dec ds n) = (?cs, int (length (take 1 ?cs)) + (n - 1) - int 0)"
        using exp et tk False
        by (intro shortest_digits_form [OF wf, where fp = "drop 1 ?cs" and b = 0 and point = True and exp = True and et = ?et])
          (auto simp: py_repr_dec_def Let_def U_def)
      with min1 w show ?thesis by simp
    qed
  next
    case small
    then have "shortest_digits (py_repr_dec ds n) = (?cs, int (length [48::nat]) + 0 - int (Suc (nat (- n))))"
      using w z by (intro shortest_digits_form [OF wf, where fp = "replicate (nat (- n)) 48 @ ?cs" and b = 0 and point = True and exp = False])
        (auto simp: py_repr_dec_def Let_def U_def)
    with small show ?thesis by simp
  next
    case whole
    then have "shortest_digits (py_repr_dec ds n) = (?cs, int (length (?cs @ replicate (nat (n - int (length ds))) 48)) + 0 - int 0)"
      using w z by (intro shortest_digits_form [OF wf, where fp = "[48]" and b = "Suc (nat (n - int (length ds)))" and point = True and exp = False])
        (auto simp: py_repr_dec_def Let_def U_def replicate_append_same)
    with whole w show ?thesis by simp
  next
    case split
    then have "shortest_digits (py_repr_dec ds n) = (?cs, int (length (take (nat n) ?cs)) + 0 - int 0)"
      using tk by (intro shortest_digits_form [OF wf, where fp = "drop (nat n) ?cs" and b = 0 and point = True and exp = False])
        (auto simp: py_repr_dec_def Let_def U_def)
    with split w show ?thesis by simp
  qed
qed

lemma shortest_digits_es_number:
  assumes wf: "wf_digits ds"
  shows "shortest_digits (es_number (digit_chars ds) n) = (digit_chars ds, n)"
proof -
  let ?cs = "digit_chars ds"
  note w = wf_digits_chars [OF wf]
  have z: "\<forall>c \<in> set (replicate k (48::nat)). 48 \<le> c \<and> c < 58" for k by simp
  have tk: "\<forall>c \<in> set (take k ?cs). 48 \<le> c \<and> c < 58" "\<forall>c \<in> set (drop k ?cs). 48 \<le> c \<and> c < 58" for k
    using w(4) by (auto dest: in_set_takeD in_set_dropD)
  have len1: "0 < int (length ds)" using w(1,5) by auto
  have min1: "min (length ds) (Suc 0) = Suc 0" using len1 by (cases ds) auto
  consider (whole) "int (length ds) \<le> n" "n \<le> 21" | (split) "n < int (length ds)" "0 < n" "n \<le> 21"
    | (small) "-6 < n" "n \<le> 0" | (exp) "n \<le> -6 \<or> 21 < n"
    by linarith
  then show ?thesis
  proof cases
    case whole
    then have "shortest_digits (es_number ?cs n) = (?cs, int (length (?cs @ replicate (nat (n - int (length ds))) 48)) + 0 - int 0)"
      using w z by (intro shortest_digits_form [OF wf, where fp = "[]" and b = "nat (n - int (length ds))" and point = False and exp = False])
        (auto simp: es_number_def Let_def)
    with whole w show ?thesis by simp
  next
    case split
    then have "shortest_digits (es_number ?cs n) = (?cs, int (length (take (nat n) ?cs)) + 0 - int 0)"
      using tk w by (intro shortest_digits_form [OF wf, where fp = "drop (nat n) ?cs" and b = 0 and point = True and exp = False])
        (auto simp: es_number_def Let_def U_def)
    with split w show ?thesis by simp
  next
    case small
    then have "shortest_digits (es_number ?cs n) = (?cs, int (length [48::nat]) + 0 - int (Suc (nat (- n))))"
      using w z len1 by (intro shortest_digits_form [OF wf, where fp = "replicate (nat (- n)) 48 @ ?cs" and b = 0 and point = True and exp = False])
        (auto simp: es_number_def Let_def U_def, cases ds, auto)
    with small show ?thesis by simp
  next
    case exp
    let ?et = "(if 0 \<le> n - 1 then U ''+'' else U ''-'') @ digit_chars (nat_digits (nat \<bar>n - 1\<bar>))"
    have et: "?et \<noteq> [] \<and> int_of_text ?et = n - 1"
      by (auto simp: U_def int_of_text_signed)
    show ?thesis
    proof (cases "length ds = 1")
      case True
      with w have "shortest_digits (es_number ?cs n) = (?cs, int (length ?cs) + (n - 1) - int 0)"
        using exp et
        by (intro shortest_digits_form [OF wf, where fp = "[]" and b = 0 and point = False and exp = True and et = ?et])
          (auto simp: es_number_def Let_def U_def)
      with True w show ?thesis by simp
    next
      case False
      have shape: "es_number ?cs n = (take 1 ?cs @ 46 # drop 1 ?cs) @ 101 # ?et"
        using exp False w by (auto simp: es_number_def Let_def U_def)
      have "shortest_digits (es_number ?cs n) = (?cs, int (length (take 1 ?cs)) + (n - 1) - int 0)"
        by (rule shortest_digits_form [OF wf tk, where b = 0 and point = True and exp = True and et = ?et])
          (use shape et in \<open>simp_all only: if_True append_take_drop_id replicate_0 append_Nil append_Nil2 not_True_eq_False not_False_eq_True simp_thms\<close>)
      with min1 w show ?thesis by simp
    qed
  qed
qed

section \<open>Canonical texts identify values\<close>

definition int_float :: "int \<Rightarrow> pyfloat" where
  "int_float i =
     (if i = 0 then FZero False
      else let ds = nat_digits (nat \<bar>i\<bar>)
           in FDec (i < 0) (rev (dropWhile (\<lambda>d. d = 0) (rev ds))) (int (length ds)))"

fun norm :: "json \<Rightarrow> json" where
  "norm (JInt i) = JFloat (int_float i)"
| "norm (JFloat (FZero neg)) = JFloat (FZero False)"
| "norm (JArr ts) = JArr (map norm ts)"
| "norm (JObj kts) = JObj (sort_key (\<lambda>(k, t). utf16_be k) (map (\<lambda>(k, t). (k, norm t)) kts))"
| "norm t = t"

fun wf_tree :: "json \<Rightarrow> bool" where
  "wf_tree (JFloat f) = wf_float f"
| "wf_tree (JArr ts) = (\<forall>t \<in> set ts. wf_tree t)"
| "wf_tree (JStr s) = list_all valid_cp s"
| "wf_tree (JObj kts) = (\<forall>(k, t) \<in> set kts. list_all valid_cp k \<and> wf_tree t)"
| "wf_tree _ = True"

lemma rev_dropWhile_split:
  "\<exists>b. ds = rev (dropWhile (\<lambda>d. d = 0) (rev ds)) @ replicate b (0::nat)"
proof -
  have "rev ds = takeWhile (\<lambda>d. d = 0) (rev ds) @ dropWhile (\<lambda>d. d = 0) (rev ds)" by simp
  moreover have "takeWhile (\<lambda>d. d = 0) (rev ds) = replicate (length (takeWhile (\<lambda>d. d = 0) (rev ds))) (0::nat)"
    by (rule replicate_length_same [symmetric]) (auto dest: set_takeWhileD)
  ultimately show ?thesis by (metis rev_append rev_replicate rev_rev_ident)
qed

lemma int_float_wf:
  assumes "i \<noteq> 0"
  shows "\<exists>ds b. int_float i = FDec (i < 0) ds (int (length (nat_digits (nat \<bar>i\<bar>)))) \<and> wf_digits ds
           \<and> nat_digits (nat \<bar>i\<bar>) = ds @ replicate b 0"
proof -
  let ?ns = "nat_digits (nat \<bar>i\<bar>)"
  let ?ds = "rev (dropWhile (\<lambda>d. d = 0) (rev ?ns))"
  obtain b where b: "?ns = ?ds @ replicate b 0" using rev_dropWhile_split by blast
  have hd: "hd ?ns \<noteq> 0" using hd_nat_digits [of "nat \<bar>i\<bar>"] assms by simp
  have ne: "?ds \<noteq> []"
  proof
    assume "?ds = []"
    with b have "?ns = replicate b 0" by simp
    with hd nat_digits_nonempty [of "nat \<bar>i\<bar>"] show False by (metis hd_replicate replicate_empty)
  qed
  have "hd ?ds \<noteq> 0" using hd b ne by (metis hd_append)
  moreover have "last ?ds \<noteq> 0" using ne hd_dropWhile [of "\<lambda>d. d = 0" "rev ?ns"] by (simp add: last_rev)
  moreover have "\<forall>d \<in> set ?ds. d < 10" by (auto dest!: set_dropWhileD nat_digits_small)
  ultimately have "wf_digits ?ds" using ne by (simp add: wf_digits_def)
  with b assms show ?thesis by (auto simp: int_float_def Let_def)
qed

lemma digit_chars_append: "digit_chars (xs @ replicate b 0) = digit_chars xs @ replicate b 48"
  by (simp add: digit_chars_def)

lemma length_digits_safe:
  assumes "\<bar>i\<bar> \<le> int MAX_SAFE_INTEGER"
  shows "length (nat_digits (nat \<bar>i\<bar>)) \<le> 16"
  using assms by (intro length_nat_digits_le) (auto simp: MAX_SAFE_INTEGER_def)

lemma float_text_FDec:
  "wf_digits ds \<Longrightarrow> ecmascript_number_to_string (FDec neg ds n) =
     (if neg then [45] else []) @ es_number (digit_chars ds) n"
  by (simp add: shortest_digits_py_repr)

text \<open>An \<open>int\<close> and the float of the same value have the same canonical text.\<close>

lemma int_text_float:
  assumes "\<bar>i\<bar> \<le> int MAX_SAFE_INTEGER"
  shows "ecmascript_number_to_string (int_float i) = int_text i"
proof (cases "i = 0")
  case True
  have "nat_digits 0 = [0]" by (subst nat_digits.simps) simp
  with True show ?thesis by (simp add: int_float_def int_text_def U_def digit_chars_def)
next
  case False
  then obtain ds b where f: "int_float i = FDec (i < 0) ds (int (length (nat_digits (nat \<bar>i\<bar>))))"
    "wf_digits ds" and d: "nat_digits (nat \<bar>i\<bar>) = ds @ replicate b 0"
    using int_float_wf by blast
  have "length ds + b \<le> 16" using length_digits_safe [OF assms] d by simp
  then have "es_number (digit_chars ds) (int (length (nat_digits (nat \<bar>i\<bar>)))) = digit_chars (nat_digits (nat \<bar>i\<bar>))"
    using d wf_digits_chars(5) [OF f(2)] by (simp add: es_number_def digit_chars_append)
  then show ?thesis using f False by (auto simp: float_text_FDec int_text_def simp del: ecmascript_number_to_string.simps)
qed

lemma canon_norm: "fp2_ok t \<Longrightarrow> canon (norm t) = canon t"
proof (induction t rule: norm.induct)
  case (4 kts)
  have "map (\<lambda>(k, t). (k, canon (norm t))) kts = map (\<lambda>(k, t). (k, canon t)) kts"
    using 4 by auto
  moreover have "sort_key (\<lambda>(k, t). utf16_be k) (map (\<lambda>(k, t). (k, canon t))
      (sort_key (\<lambda>(k, t). utf16_be k) (map (\<lambda>(k, t). (k, norm t)) kts))) =
      sort_key (\<lambda>(k, t). utf16_be k) (map (\<lambda>(k, t). (k, canon (norm t))) kts)"
    by (simp add: sort_key_map comp_def case_prod_beta' sort_key_id_if_sorted)
  ultimately show ?case unfolding norm.simps canon.simps by (simp only:)
qed (auto simp: int_text_float cong: map_cong)

lemma with_commas_chars: "c \<in> set (with_commas first xs) \<Longrightarrow> c = 44 \<or> (\<exists>x \<in> set xs. c \<in> set x)"
  by (induction first xs rule: with_commas.induct) (auto simp: U_def split: if_splits)

lemma escape_char_valid: "valid_cp d \<Longrightarrow> c \<in> set (escape_char d) \<Longrightarrow> valid_cp c"
  by (auto simp: escape_char_def valid_cp_def hex_char_def split: if_splits)

lemma string_text_valid: "list_all valid_cp s \<Longrightarrow> c \<in> set (string_text s) \<Longrightarrow> valid_cp c"
  by (auto simp: string_text_def list_all_iff valid_cp_def [of 34] dest: escape_char_valid)

subsection \<open>No canonical text is a prefix of another\<close>

definition num_char :: "nat \<Rightarrow> bool" where
  "num_char c \<longleftrightarrow> 48 \<le> c \<and> c \<le> 57 \<or> c = 43 \<or> c = 45 \<or> c = 46 \<or> c = 101"

definition delimited :: "ustr \<Rightarrow> bool" where
  "delimited r \<longleftrightarrow> (\<forall>c r'. r = c # r' \<longrightarrow> \<not> num_char c)"

lemma hex_char_inject: "a < 16 \<Longrightarrow> b < 16 \<Longrightarrow> hex_char a = hex_char b \<longleftrightarrow> a = b"
  by (auto simp: hex_char_def split: if_splits)

lemma escape_char_nonempty: "\<exists>x xs. escape_char c = x # xs \<and> x \<noteq> 34"
  by (simp add: escape_char_def)

definition short_escapes :: "(nat \<times> nat) set" where
  "short_escapes = {(34, 34), (92, 92), (10, 110), (13, 114), (9, 116), (8, 98), (12, 102)}"

lemma escape_char_cases:
  obtains (plain) "escape_char c = [c]" "c \<noteq> 92"
  | (short) x where "escape_char c = [92, x]" "(c, x) \<in> short_escapes" "x \<noteq> 117"
  | (hex) "escape_char c = [92, 117, 48, 48, hex_char (c div 16), hex_char (c mod 16)]" "c < 32"
proof -
  have "(escape_char c = [c] \<and> c \<noteq> 92) \<or> (\<exists>x. escape_char c = [92, x] \<and> (c, x) \<in> short_escapes \<and> x \<noteq> 117)
    \<or> (escape_char c = [92, 117, 48, 48, hex_char (c div 16), hex_char (c mod 16)] \<and> c < 32)"
    by (simp add: escape_char_def short_escapes_def)
  with that show thesis by blast
qed

lemma short_escapes_inject: "(c, x) \<in> short_escapes \<Longrightarrow> (d, x) \<in> short_escapes \<Longrightarrow> c = d"
  by (auto simp: short_escapes_def)

lemma escape_char_prefix_free:
  assumes "escape_char c @ xs = escape_char d @ ys"
  shows "c = d \<and> xs = ys"
proof -
  have "c = d" if "hex_char (c div 16) = hex_char (d div 16)" "hex_char (c mod 16) = hex_char (d mod 16)" "c < 32" "d < 32"
    using that by (intro div_mod_eqI [of c 16 d]) (auto simp: hex_char_inject)
  then show ?thesis
    using assms by (cases c rule: escape_char_cases; cases d rule: escape_char_cases)
      (auto dest: short_escapes_inject)
qed

lemma string_text_prefix_free:
  assumes "string_text s @ xs = string_text t @ ys"
  shows "s = t \<and> xs = ys"
proof -
  have "concat (map escape_char s) @ 34 # xs = concat (map escape_char t) @ 34 # ys"
    using assms by (simp add: string_text_def)
  then show ?thesis
  proof (induction s arbitrary: t)
    case Nil
    then show ?case using escape_char_nonempty [of "hd t"] by (cases t) auto
  next
    case (Cons c s)
    show ?case
    proof (cases t)
      case Nil
      then show ?thesis using Cons.prems escape_char_nonempty [of c] by auto
    next
      case (Cons d t')
      with Cons.prems have "escape_char c @ concat (map escape_char s) @ 34 # xs =
        escape_char d @ concat (map escape_char t') @ 34 # ys" by simp
      from escape_char_prefix_free [OF this] Cons.IH [of t'] Cons show ?thesis by auto
    qed
  qed
qed

text \<open>Floats in normal form, and the texts of numbers.\<close>

fun normal_float :: "pyfloat \<Rightarrow> bool" where
  "normal_float (FZero neg) = (\<not> neg)"
| "normal_float (FDec neg ds n) = wf_digits ds"
| "normal_float _ = False"

lemma num_char_intros [simp]: "num_char 43" "num_char 45" "num_char 46" "num_char 48" "num_char 101"
  by (simp_all add: num_char_def)

lemma num_char_digits: "c \<in> set (digit_chars ds) \<Longrightarrow> (\<forall>d \<in> set ds. d < 10) \<Longrightarrow> num_char c"
  by (auto simp: digit_chars_def num_char_def)

lemma num_char_nat_digits: "c \<in> set (digit_chars (nat_digits m)) \<Longrightarrow> num_char c"
  by (rule num_char_digits) (auto dest: nat_digits_small)

lemma es_number_chars:
  assumes "wf_digits ds"
  shows "c \<in> set (es_number (digit_chars ds) n) \<Longrightarrow> num_char c"
    "\<exists>x xs. es_number (digit_chars ds) n = x # xs \<and> 48 \<le> x \<and> x \<le> 57"
proof -
  note w = wf_digits_chars [OF assms]
  have d: "c \<in> set (digit_chars ds) \<Longrightarrow> num_char c" for c
    using assms by (intro num_char_digits) (auto simp: wf_digits_def)
  show "c \<in> set (es_number (digit_chars ds) n) \<Longrightarrow> num_char c"
    by (auto simp: es_number_def Let_def U_def split: if_splits
        dest!: in_set_takeD in_set_dropD d num_char_nat_digits)
  obtain x xs where "digit_chars ds = x # xs" using w(1) by (cases "digit_chars ds") auto
  with w(4) show "\<exists>x xs. es_number (digit_chars ds) n = x # xs \<and> 48 \<le> x \<and> x \<le> 57"
    by (auto simp: es_number_def Let_def U_def take_Cons' split: if_splits)
qed

lemma float_text_inject:
  assumes "normal_float f" "normal_float g"
    and "ecmascript_number_to_string f = ecmascript_number_to_string g"
  shows "f = g"
proof -
  have zero: "es_number (digit_chars ds) n \<noteq> U ''0''" if wf: "wf_digits ds" for ds n
  proof
    assume "es_number (digit_chars ds) n = U ''0''"
    then have "shortest_digits (U ''0'') = (digit_chars ds, n)"
      using shortest_digits_es_number [OF wf, of n] by simp
    moreover have "fst (shortest_digits (U ''0'')) = [48]"
      by (simp add: shortest_digits_def partition_at_def U_def lstrip0_def rstrip0_def Let_def)
    ultimately show False using wf_digits_chars(2) [OF wf] by (metis fst_conv list.sel(1))
  qed
  have es: "ds = ds' \<and> n = n'" if "wf_digits ds" "wf_digits ds'"
    "es_number (digit_chars ds) n = es_number (digit_chars ds') n'" for ds ds' n n'
  proof -
    have "(digit_chars ds, n) = (digit_chars ds', n')"
      using that shortest_digits_es_number by metis
    then show ?thesis by (simp add: digit_chars_def inj_map_eq_map inj_def)
  qed
  show ?thesis
  proof (cases f)
    case (FZero b)
    with assms zero es_number_chars(2) show ?thesis
      by (cases g) (force simp: float_text_FDec U_def simp del: ecmascript_number_to_string.simps(1))+
  next
    case (FDec neg ds n)
    with assms have ds: "wf_digits ds" by simp
    show ?thesis
    proof (cases g)
      case (FZero b)
      with assms FDec ds zero es_number_chars(2) [OF ds, of n] show ?thesis
        by (auto simp: float_text_FDec U_def simp del: ecmascript_number_to_string.simps(1) split: if_splits)
    next
      case g: (FDec neg' ds' n')
      with assms have ds': "wf_digits ds'" by simp
      have "neg = neg' \<and> es_number (digit_chars ds) n = es_number (digit_chars ds') n'"
        using assms(3) FDec g ds ds' es_number_chars(2) [OF ds, of n] es_number_chars(2) [OF ds', of n']
        by (auto simp: float_text_FDec simp del: ecmascript_number_to_string.simps(1) split: if_splits)
      moreover from this have "ds = ds' \<and> n = n'" by (intro es [OF ds ds']) simp
      ultimately show ?thesis using FDec g by simp
    qed (use assms in auto)
  qed (use assms in auto)
qed

lemma norm_number:
  assumes "fp2_ok t" "wf_tree t" "(\<exists>i. t = JInt i) \<or> (\<exists>f. t = JFloat f)"
  shows "\<exists>f. norm t = JFloat f \<and> normal_float f \<and> canon t = ecmascript_number_to_string f"
proof (cases "\<exists>i. t = JInt i")
  case True
  then obtain i where t: "t = JInt i" by blast
  have "normal_float (int_float i)"
    using int_float_wf [of i] by (cases "i = 0") (auto simp: int_float_def)
  with assms t int_text_float [of i] show ?thesis by simp
next
  case False
  with assms obtain f where "t = JFloat f" by blast
  with assms show ?thesis by (cases f) auto
qed

lemma float_text_chars:
  assumes "normal_float f"
  shows "\<forall>c \<in> set (ecmascript_number_to_string f). num_char c"
    "\<exists>x xs. ecmascript_number_to_string f = x # xs \<and> num_char x"
proof -
  show *: "\<forall>c \<in> set (ecmascript_number_to_string f). num_char c"
    using assms es_number_chars(1)
    by (cases f) (auto simp: float_text_FDec U_def simp del: ecmascript_number_to_string.simps(1))
  have "ecmascript_number_to_string f \<noteq> []"
    using assms es_number_chars(2)
    by (cases f) (auto simp: float_text_FDec U_def simp del: ecmascript_number_to_string.simps(1)
        split: if_splits, metis list.distinct(1))
  with * show "\<exists>x xs. ecmascript_number_to_string f = x # xs \<and> num_char x"
    by (cases "ecmascript_number_to_string f") auto
qed

lemma delimited_takeWhile:
  assumes "\<forall>c \<in> set s. num_char c" "delimited r"
  shows "takeWhile num_char (s @ r) = s"
  using assms by (cases r) (auto simp: delimited_def takeWhile_append)

text \<open>What the first character of a canonical text says of the value.\<close>

fun lead :: "json \<Rightarrow> nat \<Rightarrow> bool" where
  "lead JNull c = (c = 110)"
| "lead (JBool b) c = (c = (if b then 116 else 102))"
| "lead (JStr s) c = (c = 34)"
| "lead (JArr ts) c = (c = 91)"
| "lead (JObj kts) c = (c = 123)"
| "lead t c = num_char c"

lemma canon_lead:
  assumes "fp2_ok t" "wf_tree t"
  shows "\<exists>x xs. canon t = x # xs \<and> lead t x"
proof (cases "(\<exists>i. t = JInt i) \<or> (\<exists>f. t = JFloat f)")
  case True
  from norm_number [OF assms True] obtain f where "normal_float f" "canon t = ecmascript_number_to_string f"
    by blast
  with float_text_chars(2) [of f] True show ?thesis by auto
next
  case False
  then show ?thesis by (cases t) (auto simp: U_def string_text_def)
qed

lemma delimited_simps [simp]:
  "delimited []" "delimited (44 # r)" "delimited (93 # r)" "delimited (125 # r)"
  by (auto simp: delimited_def num_char_def)

lemma delimited_commas:
  "delimited (with_commas False xs @ 93 # r)" "delimited (with_commas False xs @ 125 # r)"
  by (cases xs; simp add: U_def)+

lemma lead_not_close: "lead t c \<Longrightarrow> c \<noteq> 93 \<and> c \<noteq> 44 \<and> c \<noteq> 125"
  by (cases t) (auto simp: num_char_def split: if_splits)

lemma items_prefix_free:
  assumes IH: "\<And>x y r1 r2. x \<in> set ts1 \<Longrightarrow> y \<in> set ts2 \<Longrightarrow> canon x @ r1 = canon y @ r2 \<Longrightarrow>
      delimited r1 \<Longrightarrow> delimited r2 \<Longrightarrow> norm x = norm y \<and> r1 = r2"
    and ok: "\<forall>t \<in> set ts1 \<union> set ts2. fp2_ok t \<and> wf_tree t"
    and eq: "with_commas first (map canon ts1) @ 93 # r1 = with_commas first (map canon ts2) @ 93 # r2"
  shows "map norm ts1 = map norm ts2 \<and> r1 = r2"
  using assms
proof (induction ts1 arbitrary: ts2 first)
  case Nil
  then show ?case
  proof (cases ts2)
    case (Cons y ys)
    with Nil.prems(2) obtain c cs where "canon y = c # cs" "lead y c" using canon_lead [of y] by auto
    with Nil.prems(3) Cons lead_not_close [of y c] show ?thesis by (auto simp: U_def split: if_splits)
  qed auto
next
  case (Cons x xs)
  show ?case
  proof (cases ts2)
    case Nil
    from Cons.prems(2) obtain c cs where "canon x = c # cs" "lead x c" using canon_lead [of x] by auto
    with Cons.prems(3) Nil lead_not_close [of x c] show ?thesis by (auto simp: U_def split: if_splits)
  next
    case ts2: (Cons y ys)
    have "canon x @ with_commas False (map canon xs) @ 93 # r1 = canon y @ with_commas False (map canon ys) @ 93 # r2"
      using Cons.prems(3) ts2 by (auto split: if_splits)
    then have "norm x = norm y" "with_commas False (map canon xs) @ 93 # r1 = with_commas False (map canon ys) @ 93 # r2"
      using Cons.prems(1) [of x y] ts2 delimited_commas(1) by auto
    moreover from this(2) have "map norm xs = map norm ys \<and> r1 = r2"
      by (intro Cons.IH [of ys False]) (use Cons.prems ts2 in auto)
    ultimately show ?thesis using ts2 by simp
  qed
qed

definition member_text :: "ustr \<times> json \<Rightarrow> ustr" where
  "member_text kt = string_text (fst kt) @ U '':'' @ canon (snd kt)"

lemma member_text_prefix_free:
  assumes "member_text (k, x) @ r1 = member_text (l, y) @ r2"
  shows "k = l \<and> canon x @ r1 = canon y @ r2"
  using string_text_prefix_free [of k "U '':'' @ canon x @ r1" l "U '':'' @ canon y @ r2"] assms
  by (auto simp: member_text_def)

lemma member_text_lead: "\<exists>xs. member_text kt = 34 # xs"
  by (simp add: member_text_def string_text_def)

lemma members_prefix_free:
  assumes IH: "\<And>x y r1 r2. x \<in> snd ` set kts1 \<Longrightarrow> y \<in> snd ` set kts2 \<Longrightarrow> canon x @ r1 = canon y @ r2 \<Longrightarrow>
      delimited r1 \<Longrightarrow> delimited r2 \<Longrightarrow> norm x = norm y \<and> r1 = r2"
    and eq: "with_commas first (map member_text kts1) @ 125 # r1 = with_commas first (map member_text kts2) @ 125 # r2"
  shows "map (\<lambda>(k, t). (k, norm t)) kts1 = map (\<lambda>(k, t). (k, norm t)) kts2 \<and> r1 = r2"
  using assms
proof (induction kts1 arbitrary: kts2 first)
  case Nil
  then show ?case using member_text_lead [of "hd kts2"]
    by (cases kts2) (auto simp: U_def split: if_splits)
next
  case (Cons kx kxs)
  obtain k x where kx: "kx = (k, x)" by (cases kx)
  show ?case
  proof (cases kts2)
    case Nil
    then show ?thesis using Cons.prems(2) member_text_lead [of kx] by (auto simp: U_def split: if_splits)
  next
    case ts2: (Cons ly lys)
    obtain l y where ly: "ly = (l, y)" by (cases ly)
    have "member_text (k, x) @ with_commas False (map member_text kxs) @ 125 # r1 =
        member_text (l, y) @ with_commas False (map member_text lys) @ 125 # r2"
      using Cons.prems(2) ts2 kx ly by (auto split: if_splits)
    from member_text_prefix_free [OF this] have k: "k = l"
      and "canon x @ with_commas False (map member_text kxs) @ 125 # r1 =
        canon y @ with_commas False (map member_text lys) @ 125 # r2" by auto
    from Cons.prems(1) [OF _ _ this(2)] have "norm x = norm y"
      "with_commas False (map member_text kxs) @ 125 # r1 = with_commas False (map member_text lys) @ 125 # r2"
      using ts2 kx ly delimited_commas(2) by auto
    moreover have "map (\<lambda>(k, t). (k, norm t)) kxs = map (\<lambda>(k, t). (k, norm t)) lys \<and> r1 = r2"
      by (rule Cons.IH [of lys False, OF Cons.prems(1)]) (use ts2 calculation in auto)
    ultimately show ?thesis using ts2 kx ly k by simp
  qed
qed

abbreviation sorted_members :: "(ustr \<times> json) list \<Rightarrow> (ustr \<times> json) list" where
  "sorted_members kts \<equiv> sort_key (\<lambda>(k, t). utf16_be k) kts"

lemma canon_JObj:
  "canon (JObj kts) = 123 # with_commas True (map member_text (sorted_members kts)) @ [125]"
proof -
  have "(\<lambda>kt. string_text (fst kt) @ 58 # canon (snd kt)) = member_text"
    by (rule ext) (simp add: member_text_def U_def)
  then show ?thesis by (simp add: sort_key_map comp_def case_prod_beta' U_def)
qed

lemma norm_JObj: "norm (JObj kts) = JObj (map (\<lambda>(k, t). (k, norm t)) (sorted_members kts))"
  by (simp add: sort_key_map comp_def case_prod_beta')

lemma number_prefix_free:
  assumes "fp2_ok t1" "wf_tree t1" "fp2_ok t2" "wf_tree t2" "canon t1 @ r1 = canon t2 @ r2"
    "delimited r1" "delimited r2" and num: "(\<exists>i. t1 = JInt i) \<or> (\<exists>f. t1 = JFloat f)"
  shows "norm t1 = norm t2 \<and> r1 = r2"
proof -
  obtain f where f: "norm t1 = JFloat f" "normal_float f" "canon t1 = ecmascript_number_to_string f"
    using norm_number [OF assms(1,2) num] by blast
  obtain x xs where x: "canon t1 = x # xs" "num_char x" using float_text_chars(2) [OF f(2)] f(3) by auto
  have "(\<exists>i. t2 = JInt i) \<or> (\<exists>f. t2 = JFloat f)"
  proof -
    obtain y ys where y: "canon t2 = y # ys" "lead t2 y" using canon_lead [OF assms(3,4)] by blast
    with x assms(5) have "num_char y" by simp
    with y(2) show ?thesis by (cases t2) (auto simp: num_char_def split: if_splits)
  qed
  then obtain g where g: "norm t2 = JFloat g" "normal_float g" "canon t2 = ecmascript_number_to_string g"
    using norm_number [OF assms(3,4)] by blast
  have "takeWhile num_char (canon t1 @ r1) = canon t1" "takeWhile num_char (canon t2 @ r2) = canon t2"
    using f g float_text_chars(1) assms(6,7) delimited_takeWhile by metis+
  with assms(5) have c: "canon t1 = canon t2" by metis
  with assms(5) have "r1 = r2" by simp
  moreover have "f = g" using float_text_inject [OF f(2) g(2)] c f(3) g(3) by simp
  ultimately show ?thesis using f g by simp
qed

lemma canon_prefix_free:
  "fp2_ok t1 \<Longrightarrow> wf_tree t1 \<Longrightarrow> fp2_ok t2 \<Longrightarrow> wf_tree t2 \<Longrightarrow> canon t1 @ r1 = canon t2 @ r2 \<Longrightarrow>
   delimited r1 \<Longrightarrow> delimited r2 \<Longrightarrow> norm t1 = norm t2 \<and> r1 = r2"
proof (induction t1 arbitrary: t2 r1 r2)
  case JNull
  with canon_lead [of t2] show ?case
    by (cases t2) (auto simp: U_def string_text_def num_char_def split: if_splits)
next
  case (JBool b)
  with canon_lead [of t2] show ?case
    by (cases t2) (auto simp: U_def string_text_def num_char_def split: if_splits)
next
  case (JStr s)
  with canon_lead [of t2] string_text_prefix_free [of s r1 _ r2] show ?case
    by (cases t2) (auto simp: U_def string_text_def [of s] num_char_def split: if_splits)
next
  case (JArr ts)
  from canon_lead [OF JArr.prems(3,4)] JArr.prems(5) obtain us where t2: "t2 = JArr us"
    by (cases t2) (auto simp: U_def num_char_def split: if_splits)
  have "map norm ts = map norm us \<and> r1 = r2"
    by (rule items_prefix_free [where first = True])
      (use JArr t2 in \<open>auto simp: U_def\<close>)
  with t2 show ?case by simp
next
  case (JObj kts)
  from canon_lead [OF JObj.prems(3,4)] JObj.prems(5) obtain lts where t2: "t2 = JObj lts"
    by (cases t2) (auto simp: U_def num_char_def split: if_splits)
  have "map (\<lambda>(k, t). (k, norm t)) (sorted_members kts) = map (\<lambda>(k, t). (k, norm t)) (sorted_members lts) \<and> r1 = r2"
  proof (rule members_prefix_free [where first = True])
    show "with_commas True (map member_text (sorted_members kts)) @ 125 # r1 =
      with_commas True (map member_text (sorted_members lts)) @ 125 # r2"
      using JObj.prems(5) unfolding t2 canon_JObj by simp
    show "norm x = norm y \<and> r1 = r2" if "x \<in> snd ` set (sorted_members kts)" "y \<in> snd ` set (sorted_members lts)"
      "canon x @ r1 = canon y @ r2" "delimited r1" "delimited r2" for x y r1 r2
    proof -
      from that obtain k l where k: "(k, x) \<in> set kts" and l: "(l, y) \<in> set lts" by auto
      show ?thesis
        by (rule JObj.IH [OF k _ _ _ _ _ that(3-5)]) (use k l JObj.prems t2 in auto)
    qed
  qed
  then show ?case unfolding t2 norm_JObj by simp
next
  case (JInt i)
  then show ?case by (intro number_prefix_free) auto
next
  case (JFloat f)
  then show ?case by (intro number_prefix_free) auto
qed

lemma canon_eq_iff:
  assumes "fp2_ok t1" "wf_tree t1" "fp2_ok t2" "wf_tree t2"
  shows "canon t1 = canon t2 \<longleftrightarrow> norm t1 = norm t2"
  using canon_prefix_free [OF assms, of "[]" "[]"] canon_norm [OF assms(1)] canon_norm [OF assms(3)]
  by auto

lemma num_char_valid: "num_char c \<Longrightarrow> valid_cp c"
  by (auto simp: num_char_def valid_cp_def)

lemma canon_valid: "fp2_ok t \<Longrightarrow> wf_tree t \<Longrightarrow> c \<in> set (canon t) \<Longrightarrow> valid_cp c"
proof (induction t)
  case (JInt i)
  then show ?case using norm_number [of "JInt i"] float_text_chars(1) num_char_valid by fastforce
next
  case (JFloat f)
  then show ?case using norm_number [of "JFloat f"] float_text_chars(1) num_char_valid by fastforce
next
  case (JArr ts)
  then have "c = 91 \<or> c = 93 \<or> c \<in> set (with_commas True (map canon ts))" by (auto simp: U_def)
  with JArr show ?case by (auto dest!: with_commas_chars simp: valid_cp_def [of 91] valid_cp_def [of 93] valid_cp_def [of 44])
next
  case (JObj kts)
  then have "c = 123 \<or> c = 125 \<or> c \<in> set (with_commas True (map member_text (sorted_members kts)))"
    unfolding canon_JObj by auto
  moreover have "valid_cp c" if "c \<in> set (member_text kt)" "kt \<in> set kts" for kt
    using that JObj.prems(1,2) JObj.IH [of kt "snd kt"] string_text_valid [of "fst kt" c]
    by (cases kt) (auto simp: member_text_def U_def valid_cp_def [of 58])
  ultimately show ?case
    by (auto dest!: with_commas_chars simp: valid_cp_def [of 123] valid_cp_def [of 125] valid_cp_def [of 44])
next
  case (JStr s)
  then show ?case using string_text_valid by auto
qed (auto simp: U_def valid_cp_def split: if_splits)

lemma byte_nibbles: "unat (x :: byte) div 16 < 16" "unat x mod 16 < 16"
  using unsigned_less [of x, where 'a = nat] by (auto simp: less_mult_imp_div_less)

lemma hexdigest_length [simp]: "length (hexdigest bs) = 2 * length bs"
  by (induction bs) (auto simp: hexdigest_def)

lemma hexdigest_inject [simp]: "hexdigest bs = hexdigest cs \<longleftrightarrow> bs = cs"
proof
  assume "hexdigest bs = hexdigest cs"
  then show "bs = cs"
  proof (induction bs arbitrary: cs)
    case Nil
    then show ?case by (cases cs) (auto simp: hexdigest_def)
  next
    case (Cons b bs)
    then obtain c cs' where cs: "cs = c # cs'" by (cases cs) (auto simp: hexdigest_def)
    from Cons.prems cs have "hex_char (unat b div 16) = hex_char (unat c div 16)"
      "hex_char (unat b mod 16) = hex_char (unat c mod 16)" "hexdigest bs = hexdigest cs'"
      by (auto simp: hexdigest_def)
    then have "unat b div 16 = unat c div 16" "unat b mod 16 = unat c mod 16"
      by (simp_all add: hex_char_inject byte_nibbles)
    then have "unat b = unat c" by (rule div_mod_eqI)
    with Cons.IH \<open>hexdigest bs = hexdigest cs'\<close> cs show ?case by (simp add: word_unat_eq_iff)
  qed
qed simp

section \<open>Encoders that hash canonical text\<close>

text \<open>
  The interface of the profiles built on fp2: an encoder that accepts some of the values fp2
  accepts and returns the UTF-8 bytes of their canonical text. Its bytes identify values, and
  bytes framed by a domain tag identify the tag and the value.
\<close>

locale canonical_encoder =
  fixes enc :: "heap \<Rightarrow> pyval \<Rightarrow> 'e + byte list"
  assumes enc_canonical: "enc h v = Inr b \<Longrightarrow> \<exists>s. canonicalize h v = Inr s \<and> b = utf8 s"
begin

lemma bytes_tree:
  assumes "enc h v = Inr b"
  shows "\<exists>t. unfold_value h MAX_DEPTH v = Some t \<and> fp2_ok t \<and> b = utf8 (canon t)"
  using enc_canonical [OF assms] by (auto simp: canonicalize_char)

lemma bytes_eq_iff:
  assumes "enc h v = Inr b" "enc h' v' = Inr b'"
    and "unfold_value h MAX_DEPTH v = Some t" "unfold_value h' MAX_DEPTH v' = Some t'"
    and "wf_tree t" "wf_tree t'"
  shows "b = b' \<longleftrightarrow> norm t = norm t'"
proof -
  have b: "fp2_ok t" "b = utf8 (canon t)" "fp2_ok t'" "b' = utf8 (canon t')"
    using bytes_tree [OF assms(1)] bytes_tree [OF assms(2)] assms(3,4) by auto
  have "b = b' \<longleftrightarrow> canon t = canon t'"
    unfolding b(2,4) using utf8_inject [of "canon t" "canon t'"] canon_valid [OF b(1) assms(5)] canon_valid [OF b(3) assms(6)]
    by auto
  with canon_eq_iff [OF b(1) assms(5) b(3) assms(6)] show ?thesis by simp
qed

lemma framed_bytes_eq_iff:
  assumes "enc h v = Inr b" "enc h' v' = Inr b'"
    and "unfold_value h MAX_DEPTH v = Some t" "unfold_value h' MAX_DEPTH v' = Some t'"
    and "wf_tree t" "wf_tree t'" "tag_ok d" "tag_ok d'"
  shows "utf8 d @ 0 # b = utf8 d' @ 0 # b' \<longleftrightarrow> d = d' \<and> norm t = norm t'"
  using bytes_eq_iff [OF assms(1-6)] frame_inject [OF assms(7,8)] by auto

end

section \<open>Which errors fp2 still has on a tree\<close>

fun ints_safe :: "json \<Rightarrow> bool" where
  "ints_safe (JInt i) = (\<bar>i\<bar> \<le> int MAX_SAFE_INTEGER)"
| "ints_safe (JArr ts) = (\<forall>t \<in> set ts. ints_safe t)"
| "ints_safe (JObj kts) = (\<forall>(k, t) \<in> set kts. ints_safe t)"
| "ints_safe _ = True"

definition value_error :: "fp2_error \<Rightarrow> bool" where
  "value_error e \<longleftrightarrow> e = NonFiniteNumber \<or> (\<exists>i. e = LoneSurrogate i)"

lemma encode_string_error: "encode_string s = Inl e \<Longrightarrow> value_error e"
  by (auto simp: encode_string_def utf16_sort_key_def value_error_def rbind_Inl_iff split: option.splits)

lemma encode_scalar_error: "encode_scalar v = Inl e \<Longrightarrow> scalar_tree v = Some t \<Longrightarrow> ints_safe t \<Longrightarrow> value_error e"
  by (induction v rule: encode_scalar.induct)
    (auto simp: rbind_Inl_iff encode_int_def encode_float_def value_error_def [of NonFiniteNumber]
      dest: encode_string_error split: if_splits)

lemma encode_scalar_total:
  "scalar_tree v = Some t \<Longrightarrow> (\<exists>s. encode_scalar v = Inr (Some s)) \<or> (\<exists>e. encode_scalar v = Inl e)"
proof (induction v rule: encode_scalar.induct)
  case (4 s)
  then show ?case by (cases "encode_string s") auto
next
  case (5 i)
  then show ?case by (cases "encode_int i") auto
next
  case (6 f)
  then show ?case by (cases "encode_float f") auto
qed auto

lemma item_entries_mem:
  "w \<in> set (item_entries first vs d) \<Longrightarrow> (\<exists>s. w = Emit s) \<or> (\<exists>x \<in> set vs. w = Value x (Suc d))"
  by (induction vs arbitrary: first) (auto split: if_splits)

lemma member_entries_mem:
  "member_entries first kvs d = Inr es \<Longrightarrow> w \<in> set es \<Longrightarrow> (\<exists>s. w = Emit s) \<or> (\<exists>x \<in> snd ` set kvs. w = Value x (Suc d))"
  by (induction first kvs d arbitrary: es rule: member_entries.induct)
    (fastforce simp: rbind_Inr_iff split: if_splits)+

lemma member_entries_error: "member_entries first kvs d = Inl e \<Longrightarrow> value_error e"
  by (induction first kvs d arbitrary: e rule: member_entries.induct)
    (auto simp: rbind_Inl_iff dest: encode_string_error)

lemma traverse_error: "traverse f xs = Inl e \<Longrightarrow> \<exists>x \<in> set xs. f x = Inl e"
  by (induction xs) (auto simp: rbind_Inl_iff)

lemma check_all_error: "check_all f xs = Inl e \<Longrightarrow> \<exists>x \<in> set xs. f x = Inl e"
  by (induction xs) (auto simp: rbind_Inl_iff)

lemma dict_children_error:
  assumes "dict_children kvs d = Inl e" "\<forall>kv \<in> set kvs. \<exists>s. fst kv = VStr s"
  shows "value_error e"
  using assms
  by (fastforce simp: dict_children_def rbind_Inl_iff plain_key_def utf16_sort_key_def value_error_def
      dest!: member_entries_error traverse_error check_all_error split: option.splits)

lemma dict_children_mem:
  assumes "dict_children kvs d = Inr es" "w \<in> set es"
  shows "(\<exists>s. w = Emit s) \<or> (\<exists>x \<in> snd ` set kvs. w = Value x (Suc d))"
proof -
  obtain keyed where k: "traverse (\<lambda>kv. rbind (utf16_sort_key (key_text (fst kv)))
        (\<lambda>key. Inr (key, key_text (fst kv), snd kv))) kvs = Inr keyed"
    and m: "member_entries True (map snd (sort_key fst keyed)) d = Inr es"
    using dict_children_items [OF assms(1)] by blast
  have "map (\<lambda>k. snd (snd k)) keyed = map snd kvs"
    using k [unfolded traverse_Inr_iff]
    by (induction rule: list_all2_induct) (auto simp: rbind_Inr_iff)
  then have "(\<lambda>k. snd (snd k)) ` set keyed = snd ` set kvs" by (metis list.set_map)
  with member_entries_mem [OF m assms(2)] show ?thesis by (auto simp: image_image)
qed

lemma visit_error:
  "unfold_value h n v = Some t \<Longrightarrow> ints_safe t \<Longrightarrow> d + n \<le> Suc MAX_DEPTH \<Longrightarrow> open_ok h opened t \<Longrightarrow>
   encode_loop h (out, opened) [Value v d] = Inl e \<Longrightarrow> value_error e"
proof (induction n arbitrary: v t d out opened)
  case 0
  then have "scalar_tree v = Some t" by (cases v) auto
  with 0 encode_scalar_error encode_scalar_total [OF this] show ?case by (auto simp: encode_loop.simps(2))
next
  case (Suc n)
  show ?case
  proof (cases "\<exists>a. v = VRef a")
    case False
    then have sc: "scalar_tree v = Some t" using Suc.prems(1) by (cases v) auto
    with Suc.prems encode_scalar_error encode_scalar_total [OF sc] show ?thesis by (auto simp: encode_loop.simps(2))
  next
    case True
    then obtain a where v: "v = VRef a" by blast
    have d: "\<not> MAX_DEPTH < d" using Suc.prems by simp
    have a: "a \<notin> opened" using open_ok_not_mem Suc.prems v by blast
    have child_ok: "open_ok h (insert a opened) t'" if "size t' < size t" for t'
      using open_ok_child Suc.prems(1,4) that v by blast
    have entry: "value_error e"
      if run: "encode_loop h (out', insert a opened) (es @ [Close a]) = Inl e"
        and es: "\<And>w. w \<in> set es \<Longrightarrow> (\<exists>s. w = Emit s) \<or> (\<exists>x t'. w = Value x (Suc d) \<and> unfold_value h n x = Some t' \<and>
          ints_safe t' \<and> size t' < size t)" for es out'
    proof -
      let ?I = "\<lambda>s :: ustr \<times> nat set. snd s = insert a opened"
      have failed: "encode_loop h (out', insert a opened) es = Inl e"
        using run by (auto simp: fp2_walk.run_append rbind_Inl_iff)
      have keep: "snd s' = insert a opened"
        if w: "w \<in> set es" and s: "snd s = insert a opened" "encode_loop h s [w] = Inr s'" for w s s'
      proof -
        obtain o' where s': "s = (o', insert a opened)" using s(1) by (cases s) auto
        from es [OF w] show ?thesis
        proof
          assume "\<exists>x t'. w = Value x (Suc d) \<and> unfold_value h n x = Some t' \<and> ints_safe t' \<and> size t' < size t"
          then obtain x t' where x: "w = Value x (Suc d)" "unfold_value h n x = Some t'" "size t' < size t" by blast
          obtain t2 where t2: "unfold_value h (MAX_DEPTH - d) x = Some t2" "fp2_ok t2"
            using visit_sound [of h s x "Suc d" s' "MAX_DEPTH - d"] s(2) x(1) by auto
          have "t2 = t'" using unfold_value_unique t2(1) x(2) by blast
          with visit_ok [OF t2, of "Suc d" "insert a opened" o'] child_ok x s(2) s' d
          show ?thesis by auto
        qed (use s s' in auto)
      qed
      have "\<exists>w \<in> set es. \<exists>s1. ?I s1 \<and> encode_loop h s1 [w] = Inl e"
        by (rule fp2_walk.run_error_member [OF failed]) (use keep in simp_all)
      then obtain w s1 where w: "w \<in> set es" "snd s1 = insert a opened" "encode_loop h s1 [w] = Inl e" by blast
      obtain o' where s1: "s1 = (o', insert a opened)" using w(2) by (cases s1) auto
      from es [OF w(1)] show ?thesis
      proof
        assume "\<exists>x t'. w = Value x (Suc d) \<and> unfold_value h n x = Some t' \<and> ints_safe t' \<and> size t' < size t"
        then obtain x t' where x: "w = Value x (Suc d)" "unfold_value h n x = Some t'" "ints_safe t'" "size t' < size t" by blast
        show ?thesis
          by (rule Suc.IH [OF x(2,3) _ child_ok [OF x(4)]]) (use w(3) x(1) s1 Suc.prems(3) in auto)
      qed (use w s1 in auto)
    qed
    show ?thesis
    proof (cases "h a")
      case (OList vs)
      with Suc.prems v obtain ts where t: "t = JArr ts"
        and l: "list_all2 (\<lambda>x t. unfold_value h n x = Some t) vs ts"
        by (auto simp: unfold_items_Some_iff)
      have mem: "\<exists>t'. unfold_value h n x = Some t' \<and> ints_safe t' \<and> size t' < size t" if "x \<in> set vs" for x
      proof -
        from l that obtain t' where t': "t' \<in> set ts" "unfold_value h n x = Some t'"
          using list_all2_mem [OF l] by blast
        have "size t' < size t" using size_list_estimation' [of t' ts "size t'" size] t' t by simp
        moreover have "ints_safe t'" using Suc.prems(2) t t' by simp
        ultimately show ?thesis using t'(2) by blast
      qed
      have "encode_loop h (out @ U ''['', insert a opened) (item_entries True vs d @ [Close a]) = Inl e"
        using Suc.prems(5) v OList d a by (simp add: encode_loop.simps(2) open_container_def list_children_def)
      then show ?thesis
        by (rule entry) (use item_entries_mem [of _ True vs d] mem in blast)
    next
      case (ODict kvs)
      with Suc.prems v obtain kts where t: "t = JObj kts"
        and l: "list_all2 (\<lambda>kv kt. fst kv = VStr (fst kt) \<and> unfold_value h n (snd kv) = Some (snd kt)) kvs kts"
        by (auto simp: unfold_members_Some_iff)
      have mem: "\<exists>k t'. fst kv = VStr k \<and> unfold_value h n (snd kv) = Some t' \<and> ints_safe t' \<and> size t' < size t"
        if "kv \<in> set kvs" for kv
      proof -
        from l that obtain kt where kt: "kt \<in> set kts" "fst kv = VStr (fst kt)" "unfold_value h n (snd kv) = Some (snd kt)"
          using list_all2_mem [OF l] by blast
        obtain k' t' where k': "kt = (k', t')" by (cases kt)
        have "size (snd kt) < size t"
          using size_list_estimation [OF kt(1), of "size t'" "size_prod (\<lambda>x. 0) size"] t by (simp add: k')
        moreover have "ints_safe (snd kt)" using Suc.prems(2) t kt(1) by (cases kt) auto
        ultimately show ?thesis using kt(2,3) by blast
      qed
      show ?thesis
      proof (cases "dict_children kvs d")
        case (Inl e')
        with Suc.prems(5) v ODict d a have "e' = e" by (simp add: encode_loop.simps(2) open_container_def)
        with dict_children_error [OF Inl] mem show ?thesis by blast
      next
        case (Inr es)
        with Suc.prems(5) v ODict d a have "encode_loop h (out @ U ''{'', insert a opened) (es @ [Close a]) = Inl e"
          by (simp add: encode_loop.simps(2) open_container_def)
        then show ?thesis
          by (rule entry) (use dict_children_mem [OF Inr] mem in fastforce)
      qed
    qed
  qed
qed

lemma canonicalize_tree_error:
  assumes "unfold_value h MAX_DEPTH v = Some t" "ints_safe t" "canonicalize h v = Inl e"
  shows "value_error e"
  using visit_error [OF assms(1,2), of 1 "{}" "[]" e] assms(3)
  by (auto simp: canonicalize_def encode_def rbind_Inl_iff open_ok_def)

section \<open>The theorems on canonicalize\<close>

inductive child :: "heap \<Rightarrow> pyval \<Rightarrow> pyval \<Rightarrow> bool" for h where
  child_item: "h a = OList vs \<Longrightarrow> v \<in> set vs \<Longrightarrow> child h (VRef a) v"
| child_member: "h a = ODict kvs \<Longrightarrow> (k, v) \<in> set kvs \<Longrightarrow> child h (VRef a) v"

inductive_cases childE: "child h u v"

lemma unfold_child:
  assumes "child h u v" "unfold_value h n u = Some t"
  shows "\<exists>m t'. n = Suc m \<and> unfold_value h m v = Some t'"
  using assms
proof cases
  case (child_item a vs)
  with assms(2) show ?thesis
    by (cases n) (auto simp: unfold_items_Some_iff list_all2_conv_all_nth in_set_conv_nth)
next
  case (child_member a kvs k)
  with assms(2) show ?thesis
    by (cases n) (force simp: unfold_members_Some_iff list_all2_conv_all_nth in_set_conv_nth)+
qed

lemma unfold_reach:
  assumes "(child h)\<^sup>+\<^sup>+ u v" "unfold_value h n u = Some t"
  shows "\<exists>m t'. m < n \<and> unfold_value h m v = Some t'"
  using assms
proof (induction rule: tranclp_induct)
  case (base y)
  then show ?case using unfold_child by fastforce
next
  case (step y z)
  then obtain m t' where "m < n" "unfold_value h m y = Some t'" by blast
  with unfold_child [OF step.hyps(2)] show ?case by (metis less_SucI not_less_eq order.strict_trans)
qed

lemma cyclic_no_unfold: "(child h)\<^sup>+\<^sup>+ v v \<Longrightarrow> unfold_value h n v = None"
proof (induction n rule: less_induct)
  case (less n)
  then show ?case using unfold_reach [of h v v n] by fastforce
qed

text \<open>
  C40: A value from which some object that contains itself can be reached is rejected: the encoder
  raises on it and never loops, whatever else the value holds.
\<close>

theorem canonicalize_reaching_cycle:
  assumes "(child h)\<^sup>*\<^sup>* v u" "(child h)\<^sup>+\<^sup>+ u u"
  shows "\<exists>e. canonicalize h v = Inl e"
proof (cases "canonicalize h v")
  case (Inr s)
  then obtain t where t: "unfold_value h MAX_DEPTH v = Some t" by (auto simp: canonicalize_char)
  have "\<exists>m t'. unfold_value h m u = Some t'"
    using assms(1) t unfold_reach by (metis rtranclpD)
  with cyclic_no_unfold [OF assms(2)] show ?thesis by auto
qed auto

lemma canon_order:
  assumes "mset kts = mset lts" "distinct (map fst kts)" "\<forall>k \<in> set (map fst kts). \<forall>c \<in> set k. scalar_cp c"
  shows "canon (JObj kts) = canon (JObj lts)"
proof -
  have "inj_on (\<lambda>(k, t). utf16_be k) (set kts)"
  proof (rule inj_onI)
    fix x y assume x: "x \<in> set kts" "y \<in> set kts"
      "(case x of (k, t) \<Rightarrow> utf16_be k) = (case y of (k, t) \<Rightarrow> utf16_be k)"
    with assms(3) have "fst x = fst y" by (intro utf16_be_inject) (auto simp: case_prod_beta')
    with x assms(2) show "x = y" by (auto simp: distinct_map dest: inj_onD)
  qed
  then have "sorted_members kts = sorted_members lts"
    using assms(1) by (intro sort_key_inj_key_eq) auto
  then show ?thesis unfolding canon_JObj by simp
qed

lemma canonicalize_reordered:
  assumes h: "h a = ODict kvs" "h b = ODict lvs" and perm: "mset kvs = mset lvs" "distinct (map fst kvs)"
    and keys: "\<forall>(k, v) \<in> set kvs. \<forall>c \<in> set (key_text k). valid_cp c"
    and s: "canonicalize h (VRef a) = Inr s"
  shows "canonicalize h (VRef b) = Inr s"
proof -
  obtain n where depth: "MAX_DEPTH = Suc n" by (simp add: MAX_DEPTH_def numeral_eq_Suc)
  define R where "R = (\<lambda>kv kt. fst kv = VStr (fst kt) \<and> unfold_value h n (snd kv) = Some (snd kt))"
  obtain t where t: "unfold_value h MAX_DEPTH (VRef a) = Some t" "fp2_ok t" "s = canon t"
    using s by (auto simp: canonicalize_char)
  from t(1) h obtain kts where kts: "t = JObj kts" "list_all2 R kvs kts"
    unfolding depth R_def by (auto simp: unfold_members_Some_iff)
  obtain lts where lts: "mset lts = mset kts" "list_all2 R lvs lts"
    using list_all2_reorder_left_invariance [OF kts(2) perm(1) [symmetric]] by blast
  have un: "unfold_value h MAX_DEPTH (VRef b) = Some (JObj lts)"
    using lts(2) h unfolding depth R_def by (simp add: unfold_members_Some_iff)
  have set_eq: "set lts = set kts" using lts(1) by (metis set_mset_mset)
  have fst: "map fst kvs = map (\<lambda>kt. VStr (fst kt)) kts"
    using kts(2) by (induction rule: list_all2_induct) (auto simp: R_def)
  with perm(2) have dist: "distinct (map fst kts)"
    by (metis (no_types, lifting) distinct_map list.map_comp comp_def map_eq_conv)
  have "\<forall>k \<in> set (map fst kts). \<forall>c \<in> set k. scalar_cp c"
  proof (intro ballI)
    fix k c assume k: "k \<in> set (map fst kts)" and c: "c \<in> set k"
    then have "VStr k \<in> set (map fst kvs)" unfolding fst by auto
    with keys c have "valid_cp c" by (force simp: key_text_def)
    moreover have "\<not> is_surrogate c" using t(2) k c kts(1) by (auto simp: encodable_def)
    ultimately show "scalar_cp c" by (simp add: scalar_cp_def)
  qed
  with canon_order [OF lts(1) [symmetric] dist] have "canon (JObj kts) = canon (JObj lts)" by blast
  moreover have "fp2_ok (JObj lts)" using t(2) kts(1) set_eq by simp
  ultimately show ?thesis using un t(3) kts(1) by (auto simp: canonicalize_char)
qed

text \<open>
  Two dicts with the same members, inserted in whatever order, have the same canonical text, or
  both have none.
\<close>

theorem canonicalize_dict_order:
  assumes h: "h a = ODict kvs" "h b = ODict lvs" and perm: "mset kvs = mset lvs" "distinct (map fst kvs)"
    and keys: "\<forall>(k, v) \<in> set kvs. \<forall>c \<in> set (key_text k). valid_cp c"
  shows "canonicalize h (VRef a) = Inr s \<longleftrightarrow> canonicalize h (VRef b) = Inr s"
proof
  have "set kvs = set lvs" using perm(1) by (metis set_mset_mset)
  moreover have "distinct (map fst lvs)" using perm by (metis mset_eq_imp_distinct_iff mset_map)
  ultimately show "canonicalize h (VRef b) = Inr s \<Longrightarrow> canonicalize h (VRef a) = Inr s"
    using canonicalize_reordered [OF h(2,1) perm(1) [symmetric]] keys by auto
qed (rule canonicalize_reordered [OF assms])

text \<open>
  C2: The encoder's loop, with its work stack, its set of open identities and its depth counter, returns
  a text exactly if the value spells a finite tree of at most 100 nested containers whose integers
  are safe, whose floats are finite and whose text has no lone surrogate; the text is then the
  recursive canonical form of the tree, so an object shared by two members is spelled twice.
\<close>

theorem canonicalize_iff:
  "canonicalize h v = Inr s \<longleftrightarrow>
   (\<exists>t. unfold_value h MAX_DEPTH v = Some t \<and> fp2_ok t \<and> s = canon t)"
  by (rule canonicalize_char)

text \<open>
  C5: Canonical texts identify values: two canonicalized values have the same text exactly if their
  trees agree up to the order of members, the sign of zero and an integer being the float of its
  value.
\<close>

theorem canonicalize_identifies:
  assumes "canonicalize h v = Inr s" "canonicalize h' v' = Inr s'"
    and "unfold_value h MAX_DEPTH v = Some t" "unfold_value h' MAX_DEPTH v' = Some t'"
    and "wf_tree t" "wf_tree t'"
  shows "s = s' \<longleftrightarrow> norm t = norm t'"
  using assms by (auto simp: canonicalize_char canon_eq_iff)

text \<open>
  Re-laying out Python's \<open>repr\<close> of a float as JavaScript prints it loses nothing: the digits and the
  exponent read back from either layout are the same.
\<close>

theorem number_layouts_agree:
  assumes "wf_digits ds"
  shows "shortest_digits (ecmascript_number_to_string (FDec False ds n)) =
         shortest_digits (py_repr_dec ds n)"
  using assms by (simp add: shortest_digits_py_repr shortest_digits_es_number)


lemma canonicalize_reaching_cycle_witness:
  "\<exists>e. canonicalize (\<lambda>a. OList [VNone, VRef 0]) (VRef 5) = Inl e"
proof (rule canonicalize_reaching_cycle)
  show "(child (\<lambda>a. OList [VNone, VRef 0]))\<^sup>*\<^sup>* (VRef 5) (VRef 0)"
    by (rule r_into_rtranclp) (rule child_item, auto)
  show "(child (\<lambda>a. OList [VNone, VRef 0]))\<^sup>+\<^sup>+ (VRef 0) (VRef 0)"
    by (rule tranclp.r_into_trancl) (rule child_item, auto)
qed

lemma canonicalize_dict_order_witness:
  "let a = (VStr (U ''a''), VBool True); b = (VStr (U ''b''), VNone);
       h = (\<lambda>x. if x = 1 then ODict [a, b] else ODict [b, a])
   in \<forall>s. canonicalize h (VRef 1) = Inr s \<longleftrightarrow> canonicalize h (VRef 2) = Inr s"
  unfolding Let_def
  by (intro allI, rule canonicalize_dict_order [where kvs = "[(VStr (U ''a''), VBool True), (VStr (U ''b''), VNone)]"
        and lvs = "[(VStr (U ''b''), VNone), (VStr (U ''a''), VBool True)]"])
    (simp_all add: key_text_def U_def valid_cp_def add_mset_commute)

lemma canonicalize_identifies_witness:
  "canonicalize (\<lambda>a. OList [VInt 20]) (VRef 1) = canonicalize (\<lambda>a. OList [VFloat (FDec False [2] 2)]) (VRef 1)"
proof -
  obtain n where depth: "MAX_DEPTH = Suc n" by (simp add: MAX_DEPTH_def numeral_eq_Suc)
  let ?h = "\<lambda>a::nat. OList [VInt 20]" and ?h' = "\<lambda>a::nat. OList [VFloat (FDec False [2] 2)]"
  have t: "unfold_value ?h MAX_DEPTH (VRef 1) = Some (JArr [JInt 20])"
    "unfold_value ?h' MAX_DEPTH (VRef 1) = Some (JArr [JFloat (FDec False [2] 2)])"
    by (cases n; simp add: depth)+
  have ok: "fp2_ok (JArr [JInt 20])" "fp2_ok (JArr [JFloat (FDec False [2] 2)])"
    by (simp_all add: MAX_SAFE_INTEGER_def)
  have s: "canonicalize ?h (VRef 1) = Inr (canon (JArr [JInt 20]))"
    "canonicalize ?h' (VRef 1) = Inr (canon (JArr [JFloat (FDec False [2] 2)]))"
    using t ok by (metis canonicalize_char)+
  have d: "nat_digits 20 = [2, 0]" by (subst nat_digits.simps, subst nat_digits.simps) simp
  have "norm (JArr [JInt 20]) = norm (JArr [JFloat (FDec False [2] 2)])"
    by (simp add: int_float_def d)
  then show ?thesis
    using canonicalize_identifies [OF s t] s by (simp add: wf_digits_def)
qed

lemma number_layouts_agree_witness:
  "shortest_digits (ecmascript_number_to_string (FDec False [1, 5] 7)) =
   shortest_digits (py_repr_dec [1, 5] 7)"
  by (rule number_layouts_agree) (simp add: wf_digits_def)

end
