(* ===== verification/Identity.thy ===== *)
theory Identity
  imports Fp2Text
begin

text \<open>
  Content identity, \<open>traigent_schema/example_identity.py\<close>: strict canonical bytes, HKDF tenant
  keys, example ids and versions, the public input digest, and the agent and evaluator manifest
  digests. SHA-256 is the parameter \<open>H\<close>. A dict the code builds lives at an address the
  definitions take as an argument, which stands for the identity of the fresh object.
\<close>

section \<open>Canonical bytes\<close>

datatype ci_error =
    Uncanonical fp2_error
  | UnsafeNumber
  | WalkUnfinished \<comment> \<open>of the model only: its walk ran out of fuel\<close>
  | HkdfLength
  | CounterOverflow
  | BadTenantId
  | BadTenantMaster
  | NotAnIdentifier
  | BadKeys
  | InputRequired
  | MetadataNotDict
  | ReservedMetadata
  | NotAnExampleId
  | WrongKeyId
  | BadDigest string
  | NeedsRevision
  | BadAssets
  | BadRuntime
  | BadCoverage
  | NotCertifiable
  | ManifestNotDict
  | BadHelpers
  | BadJudge
  | BadObjective
  | ObjectivesUnsorted
  | BadDependencies
  | NotAMember
  | MixedMemberKeys
  | BadCount
  | BadItem
  | CountOverflow
  | BadKeyId
  | EmptyNeedsKeyId
  | MixedKeyIds
  | TotalOverflow
  | NotALeaf

text \<open>The walk pushes a container's values and pops the last one first.\<close>

fun container_values :: "heap \<Rightarrow> pyval \<Rightarrow> pyval list" where
  "container_values h (VRef a) = (case h a of OList vs \<Rightarrow> vs | ODict kvs \<Rightarrow> map snd kvs)"
| "container_values h v = []"

fun unsafe_float :: "pyval \<Rightarrow> bool" where
  "unsafe_float (VFloat f) = float_abs_gt f MAX_SAFE_INTEGER"
| "unsafe_float v = False"

fun reject_unsafe_numbers :: "heap \<Rightarrow> nat \<Rightarrow> pyval list \<Rightarrow> ci_error + unit" where
  "reject_unsafe_numbers h fuel [] = Inr ()"
| "reject_unsafe_numbers h 0 (v # stack) = Inl WalkUnfinished"
| "reject_unsafe_numbers h (Suc fuel) (v # stack) =
     (if unsafe_float v then Inl UnsafeNumber
      else reject_unsafe_numbers h fuel (rev (container_values h v) @ stack))"

definition canonical_bytes :: "heap \<Rightarrow> pyval \<Rightarrow> ci_error + byte list" where
  "canonical_bytes h v =
     (case canonicalize h v of
        Inl e \<Rightarrow> Inl (Uncanonical e)
      | Inr text \<Rightarrow>
          rbind (reject_unsafe_numbers h (weight h MAX_DEPTH v) [v]) (\<lambda>_. Inr (utf8 text)))"

definition framed :: "string \<Rightarrow> heap \<Rightarrow> pyval \<Rightarrow> ci_error + byte list" where
  "framed domain h payload =
     rbind (canonical_bytes h payload) (\<lambda>bytes. Inr (utf8 (U domain) @ 0 # bytes))"

section \<open>Keys\<close>

text \<open>\<open>hmac.new(key, msg, sha256).digest()\<close>, as the standard library computes it (RFC 2104).\<close>

definition hmac_sha256 :: "(byte list \<Rightarrow> byte list) \<Rightarrow> byte list \<Rightarrow> byte list \<Rightarrow> byte list" where
  "hmac_sha256 H key msg =
     (let k = (if 64 < length key then H key else key);
          k = k @ replicate (64 - length k) 0
      in H (map (\<lambda>b. Bit_Operations.xor b 0x5c) k @ H (map (\<lambda>b. Bit_Operations.xor b 0x36) k @ msg)))"

function hkdf_expand ::
  "(byte list \<Rightarrow> byte list) \<Rightarrow> byte list \<Rightarrow> byte list \<Rightarrow> nat \<Rightarrow> byte list \<Rightarrow> byte list \<Rightarrow> nat
   \<Rightarrow> ci_error + byte list" where
  "hkdf_expand H prk info len okm block counter =
     (if len \<le> length okm then Inr (take len okm)
      else if 255 < counter then Inl CounterOverflow
      else let block' = hmac_sha256 H prk (block @ info @ [byte_of counter])
           in hkdf_expand H prk info len (okm @ block') block' (counter + 1))"
  by pat_completeness auto
termination by (relation "measure (\<lambda>(H, prk, info, len, okm, block, counter). 256 - counter)") auto

declare hkdf_expand.simps [simp del]

definition hkdf_sha256 ::
  "(byte list \<Rightarrow> byte list) \<Rightarrow> byte list \<Rightarrow> byte list \<Rightarrow> byte list \<Rightarrow> nat \<Rightarrow> ci_error + byte list" where
  "hkdf_sha256 H ikm salt info len =
     (if \<not> (0 < len \<and> len \<le> 255 * 32) then Inl HkdfLength
      else hkdf_expand H (hmac_sha256 H salt ikm) info len [] [] 1)"

definition tenant_char :: "nat \<Rightarrow> bool" where
  "tenant_char c \<longleftrightarrow> 65 \<le> c \<and> c \<le> 90 \<or> 97 \<le> c \<and> c \<le> 122 \<or> is_digit c \<or> c = 95 \<or> c = 45"

definition tenant_id_ok :: "ustr \<Rightarrow> bool" where
  "tenant_id_ok s \<longleftrightarrow> 1 \<le> length s \<and> length s \<le> 128 \<and> list_all tenant_char s"

definition hkdf_info :: "string \<Rightarrow> pyval \<Rightarrow> ci_error + byte list" where
  "hkdf_info domain tenant_id =
     (case tenant_id of
        VStr s \<Rightarrow> if tenant_id_ok s then Inr (utf8 (U domain) @ 0 # map byte_of s) else Inl BadTenantId
      | _ \<Rightarrow> Inl BadTenantId)"

definition HKDF_SALT :: "byte list" where
  "HKDF_SALT = utf8 (U ''traigent.content_identity.v1'')"

definition DOMAIN_EXAMPLE_ID :: string where
  "DOMAIN_EXAMPLE_ID = ''traigent.content_identity.example_id.v1''"

definition DOMAIN_EXAMPLE_VERSION :: string where
  "DOMAIN_EXAMPLE_VERSION = ''traigent.content_identity.example_version.v1''"

definition DOMAIN_KEY_ID :: string where
  "DOMAIN_KEY_ID = ''traigent.content_identity.key_id.v1''"

definition DOMAIN_MULTISET_LEAF :: string where
  "DOMAIN_MULTISET_LEAF = ''traigent.content_identity.multiset_leaf.v1''"

definition DOMAIN_PUBLIC_INPUT :: string where
  "DOMAIN_PUBLIC_INPUT = ''traigent.content_identity.public_input.v1''"

definition DOMAIN_AGENT_BUILD :: string where
  "DOMAIN_AGENT_BUILD = ''traigent.content_identity.agent_build.v1''"

definition DOMAIN_EVALUATOR_VERSION :: string where
  "DOMAIN_EVALUATOR_VERSION = ''traigent.content_identity.evaluator_version.v1''"

record tenant_keys =
  key_id :: ustr
  example_id_key :: "byte list"
  example_version_key :: "byte list"

definition derive_tenant_keys ::
  "(byte list \<Rightarrow> byte list) \<Rightarrow> byte list \<Rightarrow> pyval \<Rightarrow> ci_error + tenant_keys" where
  "derive_tenant_keys H tenant_master tenant_id =
     (if length tenant_master \<noteq> 32 then Inl BadTenantMaster
      else
        let expand = (\<lambda>domain len. rbind (hkdf_info domain tenant_id)
              (\<lambda>info. hkdf_sha256 H tenant_master HKDF_SALT info len))
        in rbind (hkdf_info DOMAIN_KEY_ID tenant_id) (\<lambda>_.
           rbind (expand DOMAIN_KEY_ID 8) (\<lambda>kid.
           rbind (expand DOMAIN_EXAMPLE_ID 32) (\<lambda>idk.
           rbind (expand DOMAIN_EXAMPLE_VERSION 32) (\<lambda>vk.
             Inr \<lparr>key_id = U ''k'' @ hexdigest kid, example_id_key = idk, example_version_key = vk\<rparr>)))))"

text \<open>The identifier patterns: \<open>k\<close> and 16 hex digits; a prefix, a key id, a colon, 64 hex digits.\<close>

definition is_hex :: "nat \<Rightarrow> bool" where
  "is_hex c \<longleftrightarrow> is_digit c \<or> 97 \<le> c \<and> c \<le> 102"

definition is_kid :: "ustr \<Rightarrow> bool" where
  "is_kid s \<longleftrightarrow> length s = 17 \<and> hd s = 107 \<and> list_all is_hex (tl s)"

definition is_hex64 :: "ustr \<Rightarrow> bool" where
  "is_hex64 s \<longleftrightarrow> length s = 64 \<and> list_all is_hex s"

definition match_identifier :: "string \<Rightarrow> ustr \<Rightarrow> (ustr \<times> ustr) option" where
  "match_identifier pre s =
     (let n = length pre; kid = take 17 (drop n s); rest = drop (n + 17) s in
      if take n s = U pre \<and> is_kid kid \<and> take 1 rest = U '':'' \<and> is_hex64 (drop 1 rest)
      then Some (kid, drop 1 rest) else None)"

definition match_example_id :: "pyval \<Rightarrow> ustr option" where
  "match_example_id v = (case v of VStr s \<Rightarrow> map_option fst (match_identifier ''ex1:'' s) | _ \<Rightarrow> None)"

definition match_example_version :: "pyval \<Rightarrow> ustr option" where
  "match_example_version v = (case v of VStr s \<Rightarrow> map_option fst (match_identifier ''exv1:'' s) | _ \<Rightarrow> None)"

definition match_root :: "pyval \<Rightarrow> (ustr \<times> ustr) option" where
  "match_root v = (case v of VStr s \<Rightarrow> match_identifier ''msr1:'' s | _ \<Rightarrow> None)"

definition key_id_of :: "pyval \<Rightarrow> ci_error + ustr" where
  "key_id_of v =
     (case match_example_id v of Some kid \<Rightarrow> Inr kid
      | None \<Rightarrow> (case match_example_version v of Some kid \<Rightarrow> Inr kid
        | None \<Rightarrow> (case match_root v of Some (kid, _) \<Rightarrow> Inr kid | None \<Rightarrow> Inl NotAnIdentifier)))"

definition check_keys :: "tenant_keys \<Rightarrow> ci_error + unit" where
  "check_keys keys = raise_if (\<not> is_kid (key_id keys)) BadKeys"

section \<open>Examples\<close>

text \<open>\<open>None\<close> is the sentinel \<open>ABSENT\<close>.\<close>

definition is_absent :: "pyval option \<Rightarrow> bool" where
  "is_absent v \<longleftrightarrow> v = None \<or> v = Some VNone"

definition RESERVED_METADATA_KEYS :: "string list" where
  "RESERVED_METADATA_KEYS =
     [''context'', ''example_id'', ''external_id'', ''source_ref'', ''tags'', ''split'', ''splits'',
      ''difficulty'', ''confidence'', ''status'', ''score'', ''explanation'', ''created_at'',
      ''updated_at'', ''supersedes'']"

definition reserved_key :: "pyval \<Rightarrow> bool" where
  "reserved_key k \<longleftrightarrow> k \<in> (\<lambda>s. VStr (U s)) ` set RESERVED_METADATA_KEYS"

definition example_id_payload :: "pyval option \<Rightarrow> pyval option \<Rightarrow> ci_error + pyobj" where
  "example_id_payload input context =
     (case input of
        None \<Rightarrow> Inl InputRequired
      | Some i \<Rightarrow> Inr (ODict ((VStr (U ''input''), i) #
          (if is_absent context then [] else [(VStr (U ''context''), the context)]))))"

definition check_metadata :: "heap \<Rightarrow> pyval option \<Rightarrow> ci_error + pyval option" where
  "check_metadata h metadata =
     (if is_absent metadata then Inr None
      else case dict_items h (the metadata) of
        None \<Rightarrow> Inl MetadataNotDict
      | Some kvs \<Rightarrow>
          if list_ex (\<lambda>kv. reserved_key (fst kv)) kvs then Inl ReservedMetadata
          else Inr (if kvs = [] then None else metadata))"

definition example_version_payload ::
  "heap \<Rightarrow> pyval \<Rightarrow> pyval option \<Rightarrow> pyval option \<Rightarrow> ci_error + pyobj" where
  "example_version_payload h example_id expected metadata =
     (if match_example_id example_id = None then Inl NotAnExampleId
      else rbind (check_metadata h metadata) (\<lambda>checked.
        Inr (ODict ((VStr (U ''example_id''), example_id) #
          (if is_absent expected then [] else [(VStr (U ''expected''), the expected)])
          @ (case checked of None \<Rightarrow> [] | Some m \<Rightarrow> [(VStr (U ''metadata''), m)])))))"

definition hmac_hex ::
  "(byte list \<Rightarrow> byte list) \<Rightarrow> byte list \<Rightarrow> string \<Rightarrow> heap \<Rightarrow> pyval \<Rightarrow> ci_error + ustr" where
  "hmac_hex H key domain h payload =
     rbind (framed domain h payload) (\<lambda>msg. Inr (hexdigest (hmac_sha256 H key msg)))"

definition compute_example_id ::
  "(byte list \<Rightarrow> byte list) \<Rightarrow> heap \<Rightarrow> nat \<Rightarrow> tenant_keys \<Rightarrow> pyval option \<Rightarrow> pyval option \<Rightarrow> ci_error + ustr" where
  "compute_example_id H h a keys input context =
     rbind (check_keys keys) (\<lambda>_.
     rbind (example_id_payload input context) (\<lambda>payload.
     rbind (hmac_hex H (example_id_key keys) DOMAIN_EXAMPLE_ID (h(a := payload)) (VRef a)) (\<lambda>hex.
       Inr (U ''ex1:'' @ key_id keys @ U '':'' @ hex))))"

definition compute_example_version ::
  "(byte list \<Rightarrow> byte list) \<Rightarrow> heap \<Rightarrow> nat \<Rightarrow> tenant_keys \<Rightarrow> pyval \<Rightarrow> pyval option \<Rightarrow> pyval option
   \<Rightarrow> ci_error + ustr" where
  "compute_example_version H h a keys example_id expected metadata =
     rbind (check_keys keys) (\<lambda>_.
     rbind (example_version_payload h example_id expected metadata) (\<lambda>payload.
       case match_example_id example_id of
         None \<Rightarrow> Inl NotAnExampleId
       | Some kid \<Rightarrow>
           if kid \<noteq> key_id keys then Inl WrongKeyId
           else rbind (hmac_hex H (example_version_key keys) DOMAIN_EXAMPLE_VERSION (h(a := payload)) (VRef a))
             (\<lambda>hex. Inr (U ''exv1:'' @ key_id keys @ U '':'' @ hex))))"

definition compute_public_input_digest ::
  "(byte list \<Rightarrow> byte list) \<Rightarrow> heap \<Rightarrow> nat \<Rightarrow> pyval option \<Rightarrow> pyval option \<Rightarrow> ci_error + ustr" where
  "compute_public_input_digest H h a input context =
     rbind (example_id_payload input context) (\<lambda>payload.
     rbind (framed DOMAIN_PUBLIC_INPUT (h(a := payload)) (VRef a)) (\<lambda>msg.
       Inr (U ''exu1:'' @ hexdigest (H msg))))"

record projection =
  p_input :: "pyval option"
  p_context :: "pyval option"
  p_expected :: "pyval option"
  p_metadata :: "(pyval \<times> pyval) list option" \<comment> \<open>the members of the fresh dict\<close>

datatype projection_error = MetadataNotMapping | MetadataKeyNotString

definition drop_none :: "pyval option \<Rightarrow> pyval option" where
  "drop_none v = (if v = Some VNone then None else v)"

definition is_str :: "pyval \<Rightarrow> bool" where
  "is_str v \<longleftrightarrow> (case v of VStr s \<Rightarrow> True | _ \<Rightarrow> False)"

definition project_sdk_example ::
  "heap \<Rightarrow> pyval \<Rightarrow> pyval option \<Rightarrow> pyval \<Rightarrow> projection_error + projection" where
  "project_sdk_example h input_data expected_output metadata =
     (case (if metadata = VNone then Some [] else dict_items h metadata) of
        None \<Rightarrow> Inl MetadataNotMapping
      | Some kvs \<Rightarrow>
          let context = dict_get kvs ''context'';
              kept = filter (\<lambda>kv. \<not> reserved_key (fst kv)) kvs
          in if \<not> list_all (\<lambda>kv. is_str (fst kv)) kept then Inl MetadataKeyNotString
             else Inr \<lparr>p_input = Some input_data, p_context = drop_none context,
                       p_expected = drop_none expected_output,
                       p_metadata = (if kept = [] then None else Some kept)\<rparr>)"

text \<open>\<open>a\<close> is the payload's identity and \<open>b\<close> that of the projection's metadata dict.\<close>

definition identify_example ::
  "(byte list \<Rightarrow> byte list) \<Rightarrow> heap \<Rightarrow> nat \<Rightarrow> nat \<Rightarrow> tenant_keys \<Rightarrow> projection \<Rightarrow> ci_error + ustr \<times> ustr" where
  "identify_example H h a b keys p =
     (let h' = (case p_metadata p of None \<Rightarrow> h | Some kvs \<Rightarrow> h(b := ODict kvs));
          metadata = (case p_metadata p of None \<Rightarrow> Some VNone | Some kvs \<Rightarrow> Some (VRef b))
      in rbind (compute_example_id H h' a keys (p_input p) (p_context p)) (\<lambda>example_id.
         rbind (compute_example_version H h' a keys (VStr example_id) (p_expected p) metadata) (\<lambda>example_version.
           Inr (example_id, example_version))))"

section \<open>Manifests\<close>

definition require_digest :: "pyval option \<Rightarrow> string \<Rightarrow> ci_error + unit" where
  "require_digest v what =
     (case v of
        Some (VStr s) \<Rightarrow> raise_if (\<not> (take 7 s = U ''sha256:'' \<and> is_hex64 (drop 7 s))) (BadDigest what)
      | _ \<Rightarrow> Inl (BadDigest what))"

definition AGENT_ASSET_CATEGORIES :: "string list" where
  "AGENT_ASSET_CATEGORIES = [''helper_modules'', ''prompts'', ''tool_definitions'']"

definition has_key :: "(pyval \<times> pyval) list \<Rightarrow> string \<Rightarrow> bool" where
  "has_key kvs key \<longleftrightarrow> dict_get kvs key \<noteq> None"

definition check_agent_revision :: "heap \<Rightarrow> (pyval \<times> pyval) list \<Rightarrow> ci_error + unit" where
  "check_agent_revision h manifest =
     (let revision = dict_get manifest ''code_revision'' in
      rbind (raise_if (is_absent revision \<and> \<not> has_key manifest ''source_digest'') NeedsRevision) (\<lambda>_.
        case revision of
          None \<Rightarrow> Inr ()
        | Some r \<Rightarrow> (case dict_items h r of
            None \<Rightarrow> Inr ()
          | Some kvs \<Rightarrow> raise_if (dict_get kvs ''dirty'' = Some (VBool True) \<and>
                            \<not> has_key manifest ''source_digest'') NeedsRevision)))"

definition check_agent_assets :: "heap \<Rightarrow> pyval option \<Rightarrow> ci_error + unit" where
  "check_agent_assets h assets =
     (case assets of
        None \<Rightarrow> Inl BadAssets
      | Some v \<Rightarrow> (case dict_items h v of
          None \<Rightarrow> Inl BadAssets
        | Some kvs \<Rightarrow>
            if \<not> list_all (\<lambda>kv. is_str (fst kv)) kvs
               \<or> sort (map (\<lambda>kv. key_text (fst kv)) kvs) \<noteq> sort (map U AGENT_ASSET_CATEGORIES)
            then Inl BadAssets
            else check_all (\<lambda>category.
              case dict_get kvs category of
                None \<Rightarrow> Inl BadAssets
              | Some m \<Rightarrow> (case dict_items h m of
                  None \<Rightarrow> Inl BadAssets
                | Some digests \<Rightarrow> check_all (\<lambda>kv. require_digest (Some (snd kv)) category) digests))
              AGENT_ASSET_CATEGORIES))"

definition get_truthy :: "heap \<Rightarrow> (pyval \<times> pyval) list \<Rightarrow> string \<Rightarrow> bool" where
  "get_truthy h kvs key = (case dict_get kvs key of None \<Rightarrow> False | Some v \<Rightarrow> truthy h v)"

definition check_agent_runtime :: "heap \<Rightarrow> pyval option \<Rightarrow> ci_error + unit" where
  "check_agent_runtime h runtime =
     (case runtime of
        None \<Rightarrow> Inl BadRuntime
      | Some v \<Rightarrow> (case dict_items h v of
          None \<Rightarrow> Inl BadRuntime
        | Some kvs \<Rightarrow> raise_if (\<not> get_truthy h kvs ''language'' \<or> \<not> get_truthy h kvs ''sdk_version'') BadRuntime))"

definition check_agent_coverage :: "pyval option \<Rightarrow> bool \<Rightarrow> ci_error + unit" where
  "check_agent_coverage coverage certifiable =
     rbind (raise_if (coverage \<notin> {Some (VStr (U ''complete'')), Some (VStr (U ''partial''))}) BadCoverage) (\<lambda>_.
       raise_if (certifiable \<and> coverage \<noteq> Some (VStr (U ''complete''))) NotCertifiable)"

definition compute_agent_build_digest ::
  "(byte list \<Rightarrow> byte list) \<Rightarrow> heap \<Rightarrow> pyval \<Rightarrow> bool \<Rightarrow> ci_error + ustr" where
  "compute_agent_build_digest H h manifest certifiable =
     (case dict_items h manifest of
        None \<Rightarrow> Inl ManifestNotDict
      | Some kvs \<Rightarrow>
          rbind (check_agent_revision h kvs) (\<lambda>_.
          rbind (check_agent_assets h (dict_get kvs ''asset_digests'')) (\<lambda>_.
          rbind (require_digest (dict_get kvs ''applied_config_digest'') ''applied_config_digest'') (\<lambda>_.
          rbind (check_agent_runtime h (dict_get kvs ''runtime'')) (\<lambda>_.
          rbind (check_agent_coverage (dict_get kvs ''coverage'') certifiable) (\<lambda>_.
          rbind (framed DOMAIN_AGENT_BUILD h manifest) (\<lambda>msg.
            Inr (U ''sha256:'' @ hexdigest (H msg)))))))))"

definition check_evaluator_judge :: "heap \<Rightarrow> (pyval \<times> pyval) list \<Rightarrow> ci_error + unit" where
  "check_evaluator_judge h manifest =
     (case dict_get manifest ''judge'' of
        None \<Rightarrow> Inl BadJudge
      | Some VNone \<Rightarrow> Inr ()
      | Some judge \<Rightarrow> (case dict_items h judge of
          None \<Rightarrow> Inl BadJudge
        | Some kvs \<Rightarrow>
            (case dict_get kvs ''model'' of
               Some (VStr model) \<Rightarrow> require_digest (dict_get kvs ''config_digest'') ''judge.config_digest''
             | _ \<Rightarrow> Inl BadJudge)))"

definition name_start :: "nat \<Rightarrow> bool" where
  "name_start c \<longleftrightarrow> 65 \<le> c \<and> c \<le> 90 \<or> 97 \<le> c \<and> c \<le> 122 \<or> c = 95"

definition objective_name_ok :: "ustr \<Rightarrow> bool" where
  "objective_name_ok s \<longleftrightarrow>
     s \<noteq> [] \<and> name_start (hd s) \<and> length (tl s) \<le> 127
     \<and> list_all (\<lambda>c. name_start c \<or> is_digit c \<or> c = 46 \<or> c = 45) (tl s)"

definition evaluator_objective_name :: "heap \<Rightarrow> pyval \<Rightarrow> ci_error + ustr" where
  "evaluator_objective_name h objective =
     (case dict_items h objective of
        None \<Rightarrow> Inl BadObjective
      | Some kvs \<Rightarrow>
          (case dict_get kvs ''name'' of
             Some (VStr name) \<Rightarrow>
               if \<not> objective_name_ok name then Inl BadObjective
               else if dict_get kvs ''orientation'' \<notin> {Some (VStr (U ''maximize'')), Some (VStr (U ''minimize''))}
               then Inl BadObjective
               else (case dict_get kvs ''weight'' of
                       Some (VInt i) \<Rightarrow> Inr name
                     | Some (VFloat f) \<Rightarrow> Inr name
                     | _ \<Rightarrow> Inl BadObjective)
           | _ \<Rightarrow> Inl BadObjective))"

definition check_evaluator_objectives :: "heap \<Rightarrow> pyval option \<Rightarrow> ci_error + unit" where
  "check_evaluator_objectives h objectives =
     (case objectives of
        None \<Rightarrow> Inl BadObjective
      | Some v \<Rightarrow> (case list_items h v of
          None \<Rightarrow> Inl BadObjective
        | Some vs \<Rightarrow>
            if vs = [] then Inl BadObjective
            else rbind (traverse (evaluator_objective_name h) vs) (\<lambda>names.
              raise_if (names \<noteq> sort (remdups names)) ObjectivesUnsorted)))"

definition compute_evaluator_version_digest ::
  "(byte list \<Rightarrow> byte list) \<Rightarrow> heap \<Rightarrow> pyval \<Rightarrow> ci_error + ustr" where
  "compute_evaluator_version_digest H h manifest =
     (case dict_items h manifest of
        None \<Rightarrow> Inl ManifestNotDict
      | Some kvs \<Rightarrow>
          rbind (require_digest (dict_get kvs ''code_digest'') ''code_digest'') (\<lambda>_.
          rbind (require_digest (dict_get kvs ''config_digest'') ''config_digest'') (\<lambda>_.
          rbind (case dict_get kvs ''helper_digests'' of
                   None \<Rightarrow> Inl BadHelpers
                 | Some v \<Rightarrow> (case dict_items h v of
                     None \<Rightarrow> Inl BadHelpers
                   | Some ds \<Rightarrow> check_all (\<lambda>kv. require_digest (Some (snd kv)) ''helper_digests value'') ds)) (\<lambda>_.
          rbind (check_evaluator_judge h kvs) (\<lambda>_.
          rbind (check_evaluator_objectives h (dict_get kvs ''objectives'')) (\<lambda>_.
          rbind (raise_if (case dict_get kvs ''dependency_versions'' of
                   None \<Rightarrow> True | Some v \<Rightarrow> dict_items h v = None) BadDependencies) (\<lambda>_.
          rbind (framed DOMAIN_EVALUATOR_VERSION h manifest) (\<lambda>msg.
            Inr (U ''sha256:'' @ hexdigest (H msg))))))))))"

section \<open>Facts on canonical bytes\<close>

fun node_count :: "json \<Rightarrow> nat" where
  "node_count (JArr ts) = Suc (sum_list (map node_count ts))"
| "node_count (JObj kts) = Suc (sum_list (map (\<lambda>(k, t). node_count t) kts))"
| "node_count t = 1"

fun floats_safe :: "json \<Rightarrow> bool" where
  "floats_safe (JFloat f) = (\<not> float_abs_gt f MAX_SAFE_INTEGER)"
| "floats_safe (JArr ts) = (\<forall>t \<in> set ts. floats_safe t)"
| "floats_safe (JObj kts) = (\<forall>(k, t) \<in> set kts. floats_safe t)"
| "floats_safe _ = True"

lemma reject_children:
  assumes "list_all2 (\<lambda>v t. \<forall>fuel stack. reject_unsafe_numbers h (node_count t + fuel) (v # stack) =
      (if floats_safe t then reject_unsafe_numbers h fuel stack else Inl UnsafeNumber)) vs ts"
  shows "reject_unsafe_numbers h (sum_list (map node_count ts) + fuel) (vs @ stack) =
      (if \<forall>t \<in> set ts. floats_safe t then reject_unsafe_numbers h fuel stack else Inl UnsafeNumber)"
  using assms by (induction arbitrary: fuel rule: list_all2_induct) (auto simp: add.assoc)

lemma reject_tree:
  "unfold_value h n v = Some t \<Longrightarrow>
   reject_unsafe_numbers h (node_count t + fuel) (v # stack) =
   (if floats_safe t then reject_unsafe_numbers h fuel stack else Inl UnsafeNumber)"
proof (induction n arbitrary: v t fuel stack)
  case 0
  then show ?case by (cases v) auto
next
  case (Suc n)
  show ?case
  proof (cases v)
    case (VRef a)
    show ?thesis
    proof (cases "h a")
      case (OList vs)
      with Suc.prems VRef obtain ts where t: "t = JArr ts"
        and l: "list_all2 (\<lambda>x t. unfold_value h n x = Some t) vs ts"
        by (auto simp: unfold_items_Some_iff)
      from l have "list_all2 (\<lambda>x t. unfold_value h n x = Some t) (rev vs) (rev ts)" by simp
      then have "list_all2 (\<lambda>v t. \<forall>fuel stack. reject_unsafe_numbers h (node_count t + fuel) (v # stack) =
          (if floats_safe t then reject_unsafe_numbers h fuel stack else Inl UnsafeNumber)) (rev vs) (rev ts)"
        by (rule list.rel_mono_strong) (use Suc.IH in auto)
      from reject_children [OF this, of fuel stack] show ?thesis
        using VRef OList t by (simp add: rev_map [symmetric])
    next
      case (ODict kvs)
      with Suc.prems VRef obtain kts where t: "t = JObj kts"
        and l: "list_all2 (\<lambda>kv kt. fst kv = VStr (fst kt) \<and> unfold_value h n (snd kv) = Some (snd kt)) kvs kts"
        by (auto simp: unfold_members_Some_iff)
      from l have "list_all2 (\<lambda>x t. unfold_value h n x = Some t) (rev (map snd kvs)) (rev (map snd kts))"
        by (auto simp: list.rel_map elim: list.rel_mono_strong)
      then have "list_all2 (\<lambda>v t. \<forall>fuel stack. reject_unsafe_numbers h (node_count t + fuel) (v # stack) =
          (if floats_safe t then reject_unsafe_numbers h fuel stack else Inl UnsafeNumber))
          (rev (map snd kvs)) (rev (map snd kts))"
        by (rule list.rel_mono_strong) (use Suc.IH in auto)
      from reject_children [OF this, of fuel stack] show ?thesis
        using VRef ODict t by (simp add: rev_map [symmetric] comp_def case_prod_beta')
    qed
  qed (use Suc.prems in auto)
qed

lemma node_count_le_weight: "unfold_value h n v = Some t \<Longrightarrow> node_count t \<le> weight h n v"
proof (induction n arbitrary: v t)
  case 0
  then show ?case by (cases v) auto
next
  case (Suc n)
  have le: "sum_list (map node_count ts) \<le> sum_list (map (\<lambda>x. weight h n x + 2) vs)"
    if "list_all2 (\<lambda>x t. unfold_value h n x = Some t) vs ts" for vs ts
    using that by (induction rule: list_all2_induct) (auto dest: Suc.IH)
  show ?case
  proof (cases v)
    case (VRef a)
    show ?thesis
    proof (cases "h a")
      case (OList vs)
      with Suc.prems VRef show ?thesis by (auto simp: unfold_items_Some_iff dest!: le)
    next
      case (ODict kvs)
      with Suc.prems VRef obtain kts where t: "t = JObj kts"
        and l: "list_all2 (\<lambda>kv kt. fst kv = VStr (fst kt) \<and> unfold_value h n (snd kv) = Some (snd kt)) kvs kts"
        by (auto simp: unfold_members_Some_iff)
      from l have "list_all2 (\<lambda>x t. unfold_value h n x = Some t) (map snd kvs) (map snd kts)"
        by (auto simp: list.rel_map elim: list.rel_mono_strong)
      from le [OF this] show ?thesis using t VRef ODict by (simp add: comp_def case_prod_beta')
    qed
  qed (use Suc.prems in auto)
qed

lemma canonical_bytes_char:
  "canonical_bytes h v = Inr b \<longleftrightarrow>
   (\<exists>t. unfold_value h MAX_DEPTH v = Some t \<and> fp2_ok t \<and> floats_safe t \<and> b = utf8 (canon t))"
proof -
  have "reject_unsafe_numbers h (weight h MAX_DEPTH v) [v] = (if floats_safe t then Inr () else Inl UnsafeNumber)"
    if t: "unfold_value h MAX_DEPTH v = Some t" for t
  proof -
    obtain k where "weight h MAX_DEPTH v = node_count t + k"
      using node_count_le_weight [OF t] le_Suc_ex by blast
    then show ?thesis using reject_tree [OF t, of k "[]"] by (cases k) auto
  qed
  note walk = this
  show ?thesis
  proof
    assume b: "canonical_bytes h v = Inr b"
    then obtain tx where tx: "canonicalize h v = Inr tx"
      by (cases "canonicalize h v") (auto simp: canonical_bytes_def)
    then obtain t where t: "unfold_value h MAX_DEPTH v = Some t" "fp2_ok t" "tx = canon t"
      by (auto simp: canonicalize_char)
    with b tx walk [OF t(1)]
    show "\<exists>t. unfold_value h MAX_DEPTH v = Some t \<and> fp2_ok t \<and> floats_safe t \<and> b = utf8 (canon t)"
      by (auto simp: canonical_bytes_def split: if_splits)
  next
    assume "\<exists>t. unfold_value h MAX_DEPTH v = Some t \<and> fp2_ok t \<and> floats_safe t \<and> b = utf8 (canon t)"
    then obtain t where t: "unfold_value h MAX_DEPTH v = Some t" "fp2_ok t" "floats_safe t" "b = utf8 (canon t)"
      by blast
    then have "canonicalize h v = Inr (canon t)" by (auto simp: canonicalize_char)
    with walk [OF t(1)] t show "canonical_bytes h v = Inr b" by (simp add: canonical_bytes_def)
  qed
qed

interpretation ci: canonical_encoder canonical_bytes
  by unfold_locales (auto simp: canonical_bytes_char canonicalize_char)

lemma framed_Inr_iff: "framed d h v = Inr m \<longleftrightarrow> (\<exists>b. canonical_bytes h v = Inr b \<and> m = utf8 (U d) @ 0 # b)"
  by (auto simp: framed_def rbind_Inr_iff)

lemma domain_tags [simp]:
  "domain_tag DOMAIN_EXAMPLE_ID" "domain_tag DOMAIN_EXAMPLE_VERSION" "domain_tag DOMAIN_KEY_ID"
  "domain_tag DOMAIN_MULTISET_LEAF" "domain_tag DOMAIN_PUBLIC_INPUT" "domain_tag DOMAIN_AGENT_BUILD"
  "domain_tag DOMAIN_EVALUATOR_VERSION"
  by (simp_all add: tag_ok_def DOMAIN_EXAMPLE_ID_def DOMAIN_EXAMPLE_VERSION_def DOMAIN_KEY_ID_def
      DOMAIN_MULTISET_LEAF_def DOMAIN_PUBLIC_INPUT_def DOMAIN_AGENT_BUILD_def DOMAIN_EVALUATOR_VERSION_def U_def)

lemma hexdigest_hex: "list_all is_hex (hexdigest bs)"
proof -
  have "is_hex (hex_char d)" if "d < 16" for d
    using that by (auto simp: is_hex_def is_digit_def hex_char_def)
  then show ?thesis by (auto simp: hexdigest_def list_all_iff byte_nibbles)
qed

section \<open>Facts on keys\<close>

fun hkdf_block :: "(byte list \<Rightarrow> byte list) \<Rightarrow> byte list \<Rightarrow> byte list \<Rightarrow> nat \<Rightarrow> byte list" where
  "hkdf_block H prk info 0 = []"
| "hkdf_block H prk info (Suc i) = hmac_sha256 H prk (hkdf_block H prk info i @ info @ [byte_of (Suc i)])"

definition hkdf_stream :: "(byte list \<Rightarrow> byte list) \<Rightarrow> byte list \<Rightarrow> byte list \<Rightarrow> nat \<Rightarrow> byte list" where
  "hkdf_stream H prk info n = concat (map (\<lambda>i. hkdf_block H prk info (Suc i)) [0..<n])"

lemma hmac_length: "(\<forall>x. length (H x) = L) \<Longrightarrow> length (hmac_sha256 H key msg) = L"
  by (simp add: hmac_sha256_def Let_def)

lemma hkdf_stream_length:
  "(\<forall>x. length (H x) = 32) \<Longrightarrow> length (hkdf_stream H prk info n) = 32 * n"
  by (induction n) (auto simp: hkdf_stream_def hmac_length)

lemma hkdf_stream_mono: "m \<le> n \<Longrightarrow> \<exists>rest. hkdf_stream H prk info n = hkdf_stream H prk info m @ rest"
  by (induction n rule: dec_induct) (auto simp: hkdf_stream_def)

lemma hkdf_expand_stream:
  assumes H: "\<forall>x. length (H x) = 32" and len: "len \<le> 8160"
  shows "i \<le> 255 \<Longrightarrow>
    hkdf_expand H prk info len (hkdf_stream H prk info i) (hkdf_block H prk info i) (Suc i) =
    Inr (take len (hkdf_stream H prk info 255))"
proof (induction "255 - i" arbitrary: i)
  case 0
  then show ?case using len
    by (subst hkdf_expand.simps) (simp add: hkdf_stream_length [OF H])
next
  case (Suc k)
  show ?case
  proof (cases "len \<le> 32 * i")
    case True
    obtain rest where "hkdf_stream H prk info 255 = hkdf_stream H prk info i @ rest"
      using hkdf_stream_mono Suc.prems by blast
    with True show ?thesis by (subst hkdf_expand.simps) (simp add: hkdf_stream_length [OF H])
  next
    case False
    have i: "i < 255" using Suc.hyps(2) by simp
    have "hkdf_stream H prk info (Suc i) = hkdf_stream H prk info i @ hkdf_block H prk info (Suc i)"
      by (simp add: hkdf_stream_def)
    with Suc.hyps(1) [of "Suc i"] Suc.hyps(2) i False show ?thesis
      by (subst hkdf_expand.simps) (simp add: hkdf_stream_length [OF H] Let_def)
  qed
qed

lemma hkdf_sha256_stream:
  assumes "\<forall>x. length (H x) = 32" "0 < len" "len \<le> 8160"
  shows "hkdf_sha256 H ikm salt info len = Inr (take len (hkdf_stream H (hmac_sha256 H salt ikm) info 255))"
  using hkdf_expand_stream [OF assms(1,3), of 0 "hmac_sha256 H salt ikm" info] assms(2,3)
  by (simp add: hkdf_sha256_def hkdf_stream_def)

section \<open>Facts on payloads\<close>

definition unreached :: "heap \<Rightarrow> nat \<Rightarrow> pyval \<Rightarrow> bool" where
  "unreached h a v \<longleftrightarrow> \<not> (child h)\<^sup>*\<^sup>* v (VRef a)"

definition norm_of :: "heap \<Rightarrow> pyval \<Rightarrow> json option" where
  "norm_of h v = map_option norm (unfold_value h MAX_DEPTH v)"

definition wf_value :: "heap \<Rightarrow> pyval \<Rightarrow> bool" where
  "wf_value h v \<longleftrightarrow> (case unfold_value h MAX_DEPTH v of None \<Rightarrow> True | Some t \<Rightarrow> wf_tree t)"

lemma unreached_child: "unreached h a v \<Longrightarrow> child h v w \<Longrightarrow> unreached h a w"
  unfolding unreached_def by (meson converse_rtranclp_into_rtranclp)

lemma unfold_members_eqI:
  "(\<And>kv. kv \<in> set kvs \<Longrightarrow> f (snd kv) = g (snd kv)) \<Longrightarrow> unfold_members f kvs = unfold_members g kvs"
proof (induction kvs)
  case (Cons kv kvs)
  have "f (snd kv) = g (snd kv)" "unfold_members f kvs = unfold_members g kvs"
    using Cons by simp_all
  then show ?case by (cases kv) (auto split: pyval.split option.split)
qed simp

lemma unfold_unreached: "unreached h a v \<Longrightarrow> unfold_value (h(a := ob)) n v = unfold_value h n v"
proof (induction n arbitrary: v)
  case 0
  then show ?case by (cases v) auto
next
  case (Suc n)
  show ?case
  proof (cases v)
    case (VRef b)
    with Suc.prems have b: "b \<noteq> a" by (auto simp: unreached_def)
    show ?thesis
    proof (cases "h b")
      case (OList vs)
      have "unfold_value (h(a := ob)) n x = unfold_value h n x" if "x \<in> set vs" for x
        using Suc.IH unreached_child [OF Suc.prems] child_item [of h b vs x, OF OList that] VRef by blast
      then have "unfold_items (unfold_value (h(a := ob)) n) vs = unfold_items (unfold_value h n) vs"
        by (rule unfold_items_cong [OF refl])
      then show ?thesis using VRef OList b by (simp add: fun_upd_other del: fun_upd_apply)
    next
      case (ODict kvs)
      have "unfold_value (h(a := ob)) n x = unfold_value h n x" if "(k, x) \<in> set kvs" for k x
        using Suc.IH unreached_child [OF Suc.prems] child_member [of h b kvs k x, OF ODict that] VRef by blast
      then have "unfold_members (unfold_value (h(a := ob)) n) kvs = unfold_members (unfold_value h n) kvs"
        by (intro unfold_members_eqI) auto
      then show ?thesis using VRef ODict b by (simp add: fun_upd_other del: fun_upd_apply)
    qed
  qed auto
qed

lemma map_of_norm_JObj:
  assumes "norm (JObj kts) = norm (JObj lts)" "distinct (map fst kts)" "distinct (map fst lts)"
  shows "map_option norm (map_of kts k) = map_option norm (map_of lts k)"
proof -
  let ?n = "\<lambda>xs. map (\<lambda>(k, t). (k, norm t)) xs"
  have "mset (?n kts) = mset (?n lts)"
    using assms(1) unfolding norm.simps by (metis json.inject(6) mset_sort)
  moreover have d: "distinct (map fst (?n xs)) = distinct (map fst xs)" for xs :: "(ustr \<times> json) list"
    by (simp add: comp_def case_prod_beta')
  ultimately have "map_of (?n kts) = map_of (?n lts)"
    using assms(2,3) by (intro map_of_inject_set [THEN iffD2]) (simp_all only: d, metis set_mset_mset)
  moreover have "map_of (?n xs) k = map_option norm (map_of xs k)" for xs
    by (simp add: map_of_map)
  ultimately show ?thesis by metis
qed

lemma payload_tree:
  assumes m: "framed d (h(a := ODict kvs)) (VRef a) = Inr m"
    and v: "\<forall>v \<in> snd ` set kvs. unreached h a v \<and> wf_value h v"
    and keys: "\<forall>k \<in> fst ` set kvs. list_all valid_cp (key_text k)"
  shows "\<exists>kts b. list_all2 (\<lambda>kv kt. fst kv = VStr (fst kt) \<and> norm_of h (snd kv) = Some (norm (snd kt))) kvs kts \<and>
    canonical_bytes (h(a := ODict kvs)) (VRef a) = Inr b \<and> m = utf8 (U d) @ 0 # b \<and>
    unfold_value (h(a := ODict kvs)) MAX_DEPTH (VRef a) = Some (JObj kts) \<and> wf_tree (JObj kts)"
proof -
  obtain n where depth: "MAX_DEPTH = Suc n" by (simp add: MAX_DEPTH_def numeral_eq_Suc)
  obtain b where b: "canonical_bytes (h(a := ODict kvs)) (VRef a) = Inr b" "m = utf8 (U d) @ 0 # b"
    using m by (auto simp: framed_Inr_iff)
  then obtain t where t: "unfold_value (h(a := ODict kvs)) MAX_DEPTH (VRef a) = Some t"
    by (auto simp: canonical_bytes_char)
  then obtain kts where kts: "t = JObj kts"
    and l: "list_all2 (\<lambda>kv kt. fst kv = VStr (fst kt) \<and> unfold_value (h(a := ODict kvs)) n (snd kv) = Some (snd kt)) kvs kts"
    by (auto simp: depth unfold_members_Some_iff)
  have l': "list_all2 (\<lambda>kv kt. fst kv = VStr (fst kt) \<and> unfold_value h MAX_DEPTH (snd kv) = Some (snd kt)) kvs kts"
    using l by (rule list.rel_mono_strong) (use v unfold_unreached unfold_value_Suc_mono depth in fastforce)
  have "list_all2 (\<lambda>kv kt. fst kv = VStr (fst kt) \<and> norm_of h (snd kv) = Some (norm (snd kt))) kvs kts"
    using l' by (rule list.rel_mono_strong) (simp add: norm_of_def)
  moreover have "wf_tree (JObj kts)"
    using l' v keys
    by (induction rule: list_all2_induct) (auto simp: wf_value_def key_text_def split: option.splits)
  ultimately show ?thesis using b t kts by blast
qed

lemma payload_eq_iff:
  assumes m: "framed d (h(a := ODict kvs)) (VRef a) = Inr m" "framed d' (h'(a' := ODict lvs)) (VRef a') = Inr m'"
    and d: "domain_tag d" "domain_tag d'"
    and v: "\<forall>v \<in> snd ` set kvs. unreached h a v \<and> wf_value h v" "\<forall>v \<in> snd ` set lvs. unreached h' a' v \<and> wf_value h' v"
    and keys: "\<forall>k \<in> fst ` set kvs. list_all valid_cp (key_text k)" "\<forall>k \<in> fst ` set lvs. list_all valid_cp (key_text k)"
  shows "\<exists>kts lts. list_all2 (\<lambda>kv kt. fst kv = VStr (fst kt) \<and> norm_of h (snd kv) = Some (norm (snd kt))) kvs kts \<and>
    list_all2 (\<lambda>kv kt. fst kv = VStr (fst kt) \<and> norm_of h' (snd kv) = Some (norm (snd kt))) lvs lts \<and>
    (m = m' \<longleftrightarrow> d = d' \<and> norm (JObj kts) = norm (JObj lts))"
proof -
  obtain kts b where k: "list_all2 (\<lambda>kv kt. fst kv = VStr (fst kt) \<and> norm_of h (snd kv) = Some (norm (snd kt))) kvs kts"
    "canonical_bytes (h(a := ODict kvs)) (VRef a) = Inr b" "m = utf8 (U d) @ 0 # b"
    "unfold_value (h(a := ODict kvs)) MAX_DEPTH (VRef a) = Some (JObj kts)" "wf_tree (JObj kts)"
    using payload_tree [OF m(1) v(1) keys(1)] by blast
  obtain lts c where l: "list_all2 (\<lambda>kv kt. fst kv = VStr (fst kt) \<and> norm_of h' (snd kv) = Some (norm (snd kt))) lvs lts"
    "canonical_bytes (h'(a' := ODict lvs)) (VRef a') = Inr c" "m' = utf8 (U d') @ 0 # c"
    "unfold_value (h'(a' := ODict lvs)) MAX_DEPTH (VRef a') = Some (JObj lts)" "wf_tree (JObj lts)"
    using payload_tree [OF m(2) v(2) keys(2)] by blast
  have "m = m' \<longleftrightarrow> d = d' \<and> b = c" using frame_inject [OF d] k(3) l(3) by auto
  with ci.bytes_eq_iff [OF k(2) l(2) k(4) l(4) k(5) l(5)] k(1) l(1) show ?thesis by blast
qed

definition norm_context :: "heap \<Rightarrow> pyval option \<Rightarrow> json option" where
  "norm_context h c = (if is_absent c then None else norm_of h (the c))"

definition own_values :: "heap \<Rightarrow> nat \<Rightarrow> pyval option list \<Rightarrow> bool" where
  "own_values h a vs \<longleftrightarrow> (\<forall>v. Some v \<in> set vs \<longrightarrow> unreached h a v \<and> wf_value h v)"

lemma valid_ascii [simp]: "list_all valid_cp (U s)"
proof -
  have "valid_cp (of_char c)" for c
    using nat_of_char_less_256 [of c] unfolding valid_cp_def by linarith
  then show ?thesis by (auto simp: list_all_iff U_def)
qed

lemma example_id_message:
  assumes p: "example_id_payload i c = Inr ob" "example_id_payload i' c' = Inr ob'"
    and m: "framed d (h(a := ob)) (VRef a) = Inr m" "framed d' (h'(a' := ob')) (VRef a') = Inr m'"
    and d: "domain_tag d" "domain_tag d'"
    and own: "own_values h a [i, c]" "own_values h' a' [i', c']"
  shows "m = m' \<longleftrightarrow> d = d' \<and> norm_of h (the i) = norm_of h' (the i') \<and> norm_context h c = norm_context h' c'"
proof -
  obtain v where i: "i = Some v" using p(1) by (auto simp: example_id_payload_def split: option.splits)
  obtain v' where i': "i' = Some v'" using p(2) by (auto simp: example_id_payload_def split: option.splits)
  let ?ms = "\<lambda>v c. (VStr (U ''input''), v) # (if is_absent c then [] else [(VStr (U ''context''), the c)])"
  have ob: "ob = ODict (?ms v c)" "ob' = ODict (?ms v' c')"
    using p i i' by (auto simp: example_id_payload_def)
  have own': "\<forall>x \<in> snd ` set (?ms v c). unreached h a x \<and> wf_value h x"
    "\<forall>x \<in> snd ` set (?ms v' c'). unreached h' a' x \<and> wf_value h' x"
    using own i i' by (auto simp: own_values_def is_absent_def)
  have keys: "\<forall>k \<in> fst ` set (?ms v c). list_all valid_cp (key_text k)" for v c by (auto simp: key_text_def)
  from payload_eq_iff [OF m [unfolded ob] d own' keys keys] obtain kts lts where
    k: "list_all2 (\<lambda>kv kt. fst kv = VStr (fst kt) \<and> norm_of h (snd kv) = Some (norm (snd kt))) (?ms v c) kts"
    and l: "list_all2 (\<lambda>kv kt. fst kv = VStr (fst kt) \<and> norm_of h' (snd kv) = Some (norm (snd kt))) (?ms v' c') lts"
    and iff: "m = m' \<longleftrightarrow> d = d' \<and> norm (JObj kts) = norm (JObj lts)"
    by blast
  have dist: "distinct (map fst kts)" "distinct (map fst lts)"
    using k l by (auto simp: list_all2_Cons1 split: if_splits)
  have look: "map_option norm (map_of kts (U ''input'')) = norm_of h v" "map_option norm (map_of lts (U ''input'')) = norm_of h' v'"
    "map_option norm (map_of kts (U ''context'')) = norm_context h c" "map_option norm (map_of lts (U ''context'')) = norm_context h' c'"
    using k l by (auto simp: list_all2_Cons1 norm_context_def split: if_splits)
  have "norm (JObj kts) = norm (JObj lts) \<longleftrightarrow> norm_of h v = norm_of h' v' \<and> norm_context h c = norm_context h' c'"
  proof
    assume "norm (JObj kts) = norm (JObj lts)"
    from map_of_norm_JObj [OF this dist] look
    show "norm_of h v = norm_of h' v' \<and> norm_context h c = norm_context h' c'" by metis
  next
    assume "norm_of h v = norm_of h' v' \<and> norm_context h c = norm_context h' c'"
    then have "map (\<lambda>(k, t). (k, norm t)) kts = map (\<lambda>(k, t). (k, norm t)) lts"
      using k l by (auto simp: list_all2_Cons1 norm_context_def split: if_splits)
    then show "norm (JObj kts) = norm (JObj lts)" by simp
  qed
  with iff i i' show ?thesis by simp
qed

section \<open>Facts on identifiers\<close>

lemma match_identifier_minted:
  assumes "is_kid kid" "is_hex64 hex"
  shows "match_identifier pre (U pre @ kid @ U '':'' @ hex) = Some (kid, hex)"
proof -
  have "length kid = 17" using assms(1) by (simp add: is_kid_def)
  then show ?thesis using assms
    by (simp add: match_identifier_def Let_def U_Cons)
qed

lemma minted_hex64: "(\<forall>x. length (H x) = 32) \<Longrightarrow> is_hex64 (hexdigest (hmac_sha256 H k m))"
  using hmac_length [of H 32 k m] by (simp add: is_hex64_def hexdigest_hex)

lemma compute_example_id_minted:
  assumes "\<forall>x. length (H x) = 32" "compute_example_id H h a keys i c = Inr x"
  shows "match_example_id (VStr x) = Some (key_id keys)"
  using assms minted_hex64 [OF assms(1)]
  by (auto simp: compute_example_id_def check_keys_def hmac_hex_def rbind_Inr_iff match_example_id_def
      match_identifier_minted)

lemma match_example_id_prefix: "match_example_id (VStr (U ''exv1:'' @ s)) = None"
  by (simp add: match_example_id_def match_identifier_def Let_def U_Cons)

lemma compute_example_version_minted:
  assumes "\<forall>x. length (H x) = 32" "compute_example_version H h a keys e c m = Inr x"
  shows "match_example_version (VStr x) = Some (key_id keys) \<and> match_example_id (VStr x) = None"
proof -
  from assms(2) obtain msg where x: "x = U ''exv1:'' @ key_id keys @ U '':'' @ hexdigest (hmac_sha256 H (example_version_key keys) msg)"
    and k: "is_kid (key_id keys)"
    by (auto simp: compute_example_version_def check_keys_def hmac_hex_def rbind_Inr_iff split: option.splits if_splits)
  show ?thesis using match_identifier_minted [OF k minted_hex64 [OF assms(1)]] match_example_id_prefix
    by (auto simp: match_example_version_def x)
qed

lemma is_kid_hex: "length bs = 8 \<Longrightarrow> is_kid (U ''k'' @ hexdigest bs)"
  by (simp add: is_kid_def U_Cons hexdigest_hex)

lemma hkdf_info_Inr_iff:
  "hkdf_info d t = Inr x \<longleftrightarrow> (\<exists>s. t = VStr s \<and> tenant_id_ok s \<and> x = utf8 (U d) @ 0 # map byte_of s)"
  by (auto simp: hkdf_info_def split: pyval.splits if_splits)

lemma reject_unsafe_errors:
  "reject_unsafe_numbers h fuel vs = Inl e \<Longrightarrow> e = UnsafeNumber \<or> e = WalkUnfinished"
  by (induction h fuel vs rule: reject_unsafe_numbers.induct) (auto split: if_splits)

lemma hmac_hex_errors:
  "hmac_hex H k d h v = Inl e \<Longrightarrow> e = UnsafeNumber \<or> e = WalkUnfinished \<or> (\<exists>f. e = Uncanonical f)"
  by (auto simp: hmac_hex_def framed_def rbind_Inl_iff canonical_bytes_def dest: reject_unsafe_errors split: sum.splits)

section \<open>The theorems\<close>

text \<open>
  Content identity hashes bytes exactly for the values that fp2 canonicalizes and that hold
  no float beyond the safe range; the bytes are the UTF-8 of the canonical text. The walk for
  unsafe floats is a loop over a stack, here related to the recursive check of the tree.
\<close>

theorem canonical_bytes_iff:
  "canonical_bytes h v = Inr b \<longleftrightarrow>
   (\<exists>t. unfold_value h MAX_DEPTH v = Some t \<and> fp2_ok t \<and> floats_safe t \<and> b = utf8 (canon t))"
  by (rule canonical_bytes_char)

text \<open>
  The walk for unsafe floats never runs out of the fuel it is given: once fp2 has accepted
  the value, the walk visits each node of its finite tree once.
\<close>

theorem canonical_bytes_finishes: "canonical_bytes h v \<noteq> Inl WalkUnfinished"
proof (cases "canonicalize h v")
  case (Inr s)
  then obtain t where t: "unfold_value h MAX_DEPTH v = Some t" by (auto simp: canonicalize_char)
  obtain k where "weight h MAX_DEPTH v = node_count t + k"
    using node_count_le_weight [OF t] le_Suc_ex by blast
  with Inr reject_tree [OF t, of k "[]"] show ?thesis
    by (cases k) (auto simp: canonical_bytes_def)
qed (simp add: canonical_bytes_def)

text \<open>
  The byte strings hashed for an example id and for a public digest are equal exactly if the
  domain tags, the inputs and the contexts agree as canonical values; a context that is absent
  and one that is None agree.
\<close>

theorem example_messages_identify:
  assumes "example_id_payload i c = Inr ob" "example_id_payload i' c' = Inr ob'"
    and "framed d (h(a := ob)) (VRef a) = Inr m" "framed d' (h'(a' := ob')) (VRef a') = Inr m'"
    and "domain_tag d" "domain_tag d'"
    and "own_values h a [i, c]" "own_values h' a' [i', c']"
  shows "m = m' \<longleftrightarrow> d = d' \<and> norm_of h (the i) = norm_of h' (the i') \<and> norm_context h c = norm_context h' c'"
  using assms by (rule example_id_message)

text \<open>
  Two public input digests are equal exactly if inputs and contexts agree as canonical
  values, or SHA-256 collides on the two byte strings hashed.
\<close>

theorem public_digest_identifies:
  assumes x: "compute_public_input_digest H h a i c = Inr x" "compute_public_input_digest H h' a' i' c' = Inr x'"
    and own: "own_values h a [i, c]" "own_values h' a' [i', c']"
  shows "x = x' \<longleftrightarrow>
    norm_of h (the i) = norm_of h' (the i') \<and> norm_context h c = norm_context h' c' \<or>
    (\<exists>p p' m m'. example_id_payload i c = Inr p \<and> example_id_payload i' c' = Inr p' \<and>
       framed DOMAIN_PUBLIC_INPUT (h(a := p)) (VRef a) = Inr m \<and>
       framed DOMAIN_PUBLIC_INPUT (h'(a' := p')) (VRef a') = Inr m' \<and> m \<noteq> m' \<and> H m = H m')"
proof -
  obtain p m where p: "example_id_payload i c = Inr p" "framed DOMAIN_PUBLIC_INPUT (h(a := p)) (VRef a) = Inr m"
    "x = U ''exu1:'' @ hexdigest (H m)"
    using x(1) by (auto simp: compute_public_input_digest_def rbind_Inr_iff)
  obtain p' m' where p': "example_id_payload i' c' = Inr p'" "framed DOMAIN_PUBLIC_INPUT (h'(a' := p')) (VRef a') = Inr m'"
    "x' = U ''exu1:'' @ hexdigest (H m')"
    using x(2) by (auto simp: compute_public_input_digest_def rbind_Inr_iff)
  have "x = x' \<longleftrightarrow> H m = H m'" unfolding p(3) p'(3) by simp
  moreover have "m = m' \<longleftrightarrow> norm_of h (the i) = norm_of h' (the i') \<and> norm_context h c = norm_context h' c'"
    using example_id_message [OF p(1) p'(1) p(2) p'(2) _ _ own] by simp
  ultimately show ?thesis using p p' by auto
qed

text \<open>
  The key id read back from an identifier minted by identify_example, id or version, is the
  key id of the keys it was minted with.
\<close>

theorem identified_keys:
  assumes "\<forall>x. length (H x) = 32" "identify_example H h a b keys p = Inr (example_id, example_version)"
  shows "key_id_of (VStr example_id) = Inr (key_id keys) \<and> key_id_of (VStr example_version) = Inr (key_id keys)"
  using assms compute_example_id_minted [OF assms(1)] compute_example_version_minted [OF assms(1)]
  by (fastforce simp: identify_example_def rbind_Inr_iff Let_def key_id_of_def split: option.splits)

text \<open>
  An example that went through the SDK projection is never refused for its metadata: no
  reserved annotation key and no non-dict reaches the version payload.
\<close>

theorem projection_identifiable:
  assumes "project_sdk_example h input expected metadata = Inr p"
  shows "identify_example H h a b keys p \<notin> {Inl ReservedMetadata, Inl MetadataNotDict, Inl InputRequired}"
proof -
  have p: "p_input p = Some input" "p_metadata p = None \<or>
      (\<exists>kvs. p_metadata p = Some kvs \<and> kvs \<noteq> [] \<and> (\<forall>kv \<in> set kvs. \<not> reserved_key (fst kv)))"
    using assms by (auto simp: project_sdk_example_def Let_def split: option.splits if_splits)
  have "check_metadata h' (case p_metadata p of None \<Rightarrow> Some VNone | Some kvs \<Rightarrow> Some (VRef b)) =
      Inr (case p_metadata p of None \<Rightarrow> None | Some kvs \<Rightarrow> Some (VRef b))"
    if "h' = (case p_metadata p of None \<Rightarrow> h | Some kvs \<Rightarrow> h(b := ODict kvs))" for h'
    using that p(2) by (auto simp: check_metadata_def is_absent_def list_ex_iff)
  note meta = this
  have id: "compute_example_id H h' a keys (p_input p) (p_context p) \<noteq> Inl e"
    if "e \<in> {ReservedMetadata, MetadataNotDict, InputRequired}" for h' e
    using that
    by (auto simp: compute_example_id_def p(1) example_id_payload_def rbind_Inl_iff check_keys_def raise_if_def
        dest: hmac_hex_errors)
  have version: "compute_example_version H h' a keys (VStr eid) (p_expected p)
      (case p_metadata p of None \<Rightarrow> Some VNone | Some kvs \<Rightarrow> Some (VRef b)) \<noteq> Inl e"
    if "e \<in> {ReservedMetadata, MetadataNotDict, InputRequired}"
      "h' = (case p_metadata p of None \<Rightarrow> h | Some kvs \<Rightarrow> h(b := ODict kvs))" for h' e eid
    using that(1) meta [OF that(2)]
    by (auto simp: compute_example_version_def example_version_payload_def rbind_Inl_iff check_keys_def raise_if_def
        dest: hmac_hex_errors split: option.splits if_splits)
  show ?thesis
    using id version by (auto simp: identify_example_def Let_def rbind_Inl_iff)
qed

text \<open>
  The HKDF loop computes the first length bytes of the blocks T(1), T(2), ... of RFC 5869
  for every length up to 255 blocks, and its one-byte counter never overflows.
\<close>

theorem hkdf_sha256_is_rfc5869:
  assumes "\<forall>x. length (H x) = 32" "0 < len" "len \<le> 8160"
  shows "hkdf_sha256 H ikm salt info len =
    Inr (take len (concat (map (hkdf_block H (hmac_sha256 H salt ikm) info) [1..<256])))"
proof -
  have "map (\<lambda>i. hkdf_block H (hmac_sha256 H salt ikm) info (Suc i)) [0..<255] =
    map (hkdf_block H (hmac_sha256 H salt ikm) info) (map Suc [0..<255])" by (simp add: comp_def)
  also have "map Suc [0..<255] = [1..<256]" by (simp only: map_Suc_upt) simp
  finally show ?thesis using hkdf_sha256_stream [OF assms] by (simp only: hkdf_stream_def)
qed

text \<open>
  Tenant keys are derived exactly for a 32-byte master secret and a well-formed tenant id;
  both keys then have 32 bytes and the key id has the form every identifier pattern demands.
\<close>

theorem derive_tenant_keys_iff:
  assumes "\<forall>x. length (H x) = 32"
  shows "(\<exists>keys. derive_tenant_keys H master tenant = Inr keys \<and> check_keys keys = Inr () \<and>
      length (example_id_key keys) = 32 \<and> length (example_version_key keys) = 32) \<longleftrightarrow>
    length master = 32 \<and> (\<exists>s. tenant = VStr s \<and> tenant_id_ok s)"
proof
  assume "length master = 32 \<and> (\<exists>s. tenant = VStr s \<and> tenant_id_ok s)"
  then obtain s where s: "length master = 32" "tenant = VStr s" "tenant_id_ok s" by blast
  have info: "hkdf_info d tenant = Inr (utf8 (U d) @ 0 # map byte_of s)" for d
    using s by (simp add: hkdf_info_def)
  have len: "length (take n (hkdf_stream H prk i 255)) = n" if "n \<le> 8160" for n prk i
    using that by (simp add: hkdf_stream_length [OF assms])
  show "\<exists>keys. derive_tenant_keys H master tenant = Inr keys \<and> check_keys keys = Inr () \<and>
      length (example_id_key keys) = 32 \<and> length (example_version_key keys) = 32"
    using s(1) len by (simp add: derive_tenant_keys_def info hkdf_sha256_stream [OF assms] check_keys_def is_kid_hex)
qed (auto simp: derive_tenant_keys_def rbind_Inr_iff hkdf_info_Inr_iff split: if_splits)

text \<open>
  HKDF info strings are equal only for the same purpose and the same tenant, so one master
  secret used for two tenants or two purposes is expanded under different info.
\<close>

theorem hkdf_info_binds_tenant:
  assumes "hkdf_info d t = Inr x" "hkdf_info d' t' = Inr x" "domain_tag d" "domain_tag d'"
  shows "d = d' \<and> t = t'"
proof -
  obtain s s' where s: "t = VStr s" "tenant_id_ok s" "x = utf8 (U d) @ 0 # map byte_of s"
    and s': "t' = VStr s'" "tenant_id_ok s'" "x = utf8 (U d') @ 0 # map byte_of s'"
    using assms by (auto simp: hkdf_info_Inr_iff)
  have "d = d' \<and> map byte_of s = map byte_of s'"
    using frame_inject [OF assms(3,4)] s(3) s'(3) U_inject by metis
  moreover have "inj_on byte_of (set s \<union> set s')"
  proof (rule inj_onI)
    fix x y assume x: "x \<in> set s \<union> set s'" "y \<in> set s \<union> set s'" "byte_of x = byte_of y"
    have "tenant_char c \<Longrightarrow> c < 256" for c by (auto simp: tenant_char_def is_digit_def)
    with x s(2) s'(2) have "x < 256" "y < 256" by (auto simp: tenant_id_ok_def list_all_iff)
    with x(3) show "x = y" by (simp add: byte_of_nat_inject)
  qed
  ultimately show ?thesis using s(1) s'(1) by (simp add: inj_on_map_eq_map)
qed

text \<open>
  With certifiable=True an agent manifest has a digest exactly if it has one without and its
  coverage is complete, and the digest is the same.
\<close>

theorem certifiable_agent_digest:
  "compute_agent_build_digest H h manifest True = Inr x \<longleftrightarrow>
   compute_agent_build_digest H h manifest False = Inr x \<and>
   (\<exists>kvs. dict_items h manifest = Some kvs \<and> dict_get kvs ''coverage'' = Some (VStr (U ''complete'')))"
  by (auto simp: compute_agent_build_digest_def rbind_Inr_iff check_agent_coverage_def split: option.splits)

text \<open>
  The objectives of an evaluator manifest are accepted exactly if they are a non-empty list
  of valid objectives whose names increase strictly.
\<close>

theorem evaluator_objectives_sorted:
  "check_evaluator_objectives h objectives = Inr () \<longleftrightarrow>
   (\<exists>v vs names. objectives = Some v \<and> list_items h v = Some vs \<and> vs \<noteq> [] \<and>
      list_all2 (\<lambda>v name. evaluator_objective_name h v = Inr name) vs names \<and> sorted_wrt (<) names)"
proof -
  have "names = sort (remdups names) \<longleftrightarrow> sorted_wrt (<) names" for names :: "ustr list"
    by (metis distinct_remdups distinct_sort set_remdups set_sort sorted_sort strict_sorted_iff
        distinct_remdups_id sort_key_id_if_sorted sorted_distinct_set_unique sorted_sort_id)
  then show ?thesis
    by (auto simp: check_evaluator_objectives_def rbind_Inr_iff traverse_Inr_iff split: option.splits if_splits)
qed


section \<open>Concrete inputs\<close>

lemma encodable_ascii [simp]: "encodable (U s)"
proof -
  have "\<not> is_surrogate (of_char c)" for c
    using nat_of_char_less_256 [of c] unfolding is_surrogate_def by linarith
  then show ?thesis by (auto simp: encodable_def U_def)
qed

lemma framed_single:
  assumes "scalar_tree v = Some t" "fp2_ok t" "floats_safe t"
  shows "\<exists>m. framed d (h(a := ODict [(VStr (U k), v)])) (VRef a) = Inr m"
proof -
  obtain n where depth: "MAX_DEPTH = Suc n" by (simp add: MAX_DEPTH_def numeral_eq_Suc)
  have v: "unfold_value (h(a := ODict [(VStr (U k), v)])) n v = Some t"
    using assms(1) by (cases n; cases v) auto
  have "unfold_value (h(a := ODict [(VStr (U k), v)])) MAX_DEPTH (VRef a) = Some (JObj [(U k, t)])"
    using v by (simp add: depth)
  moreover have "fp2_ok (JObj [(U k, t)])" "floats_safe (JObj [(U k, t)])" using assms by auto
  ultimately have "canonical_bytes (h(a := ODict [(VStr (U k), v)])) (VRef a) = Inr (utf8 (canon (JObj [(U k, t)])))"
    unfolding canonical_bytes_char by blast
  then show ?thesis by (simp add: framed_def)
qed

lemma unreached_scalar: "unreached h a (VInt i)" "unreached h a VNone"
  by (auto simp: unreached_def elim: converse_rtranclpE childE)

lemma wf_scalar: "unfold_value h MAX_DEPTH (VInt i) = Some (JInt i)"
  by (cases MAX_DEPTH) auto

lemma own_scalar: "own_values h a [Some (VInt i), None]" "own_values h a [Some (VInt i), Some VNone]"
proof -
  have "unfold_value h MAX_DEPTH VNone = Some JNull" by (cases MAX_DEPTH) auto
  then show "own_values h a [Some (VInt i), None]" "own_values h a [Some (VInt i), Some VNone]"
    by (simp_all add: own_values_def unreached_scalar wf_value_def wf_scalar)
qed

lemma example_messages_identify_witness:
  "\<exists>m m'. framed DOMAIN_EXAMPLE_ID ((\<lambda>_. OList [])(0 := ODict [(VStr (U ''input''), VInt 1)])) (VRef 0) = Inr m \<and>
     framed DOMAIN_PUBLIC_INPUT ((\<lambda>_. OList [])(0 := ODict [(VStr (U ''input''), VInt 1)])) (VRef 0) = Inr m' \<and> m \<noteq> m'"
proof -
  have ok: "fp2_ok (JInt 1)" "floats_safe (JInt 1)" by (simp_all add: MAX_SAFE_INTEGER_def)
  obtain m m' where m: "framed DOMAIN_EXAMPLE_ID ((\<lambda>_. OList [])(0 := ODict [(VStr (U ''input''), VInt 1)])) (VRef 0) = Inr m"
    "framed DOMAIN_PUBLIC_INPUT ((\<lambda>_. OList [])(0 := ODict [(VStr (U ''input''), VInt 1)])) (VRef 0) = Inr m'"
    using framed_single [of "VInt 1" "JInt 1", OF _ ok] by (metis scalar_tree.simps(3))
  have p: "example_id_payload (Some (VInt 1)) None = Inr (ODict [(VStr (U ''input''), VInt 1)])"
    by (simp add: example_id_payload_def is_absent_def)
  have "DOMAIN_EXAMPLE_ID \<noteq> DOMAIN_PUBLIC_INPUT" by (simp add: DOMAIN_EXAMPLE_ID_def DOMAIN_PUBLIC_INPUT_def)
  then have "m \<noteq> m'"
    using example_messages_identify [OF p p m _ _ own_scalar(1) own_scalar(1)] by simp
  with m show ?thesis by blast
qed

lemma public_digest_identifies_witness:
  "\<exists>x. compute_public_input_digest (\<lambda>b. b) (\<lambda>_. OList []) 0 (Some (VInt 1)) None = Inr x \<and>
       compute_public_input_digest (\<lambda>b. b) (\<lambda>_. OList []) 0 (Some (VInt 1)) (Some VNone) = Inr x"
proof -
  have ok: "fp2_ok (JInt 1)" "floats_safe (JInt 1)" by (simp_all add: MAX_SAFE_INTEGER_def)
  have "\<exists>m. framed d ((\<lambda>_. OList [])(0 := ODict [(VStr (U ''input''), VInt 1)])) (VRef 0) = Inr m" for d
    using framed_single [of "VInt 1" "JInt 1", OF _ ok] by (metis scalar_tree.simps(3))
  from this [of DOMAIN_PUBLIC_INPUT] obtain x y where x: "compute_public_input_digest (\<lambda>b. b) (\<lambda>_. OList []) 0 (Some (VInt 1)) None = Inr x"
    "compute_public_input_digest (\<lambda>b. b) (\<lambda>_. OList []) 0 (Some (VInt 1)) (Some VNone) = Inr y"
    by (fastforce simp: compute_public_input_digest_def example_id_payload_def is_absent_def)
  then have "x = y" using public_digest_identifies [OF x own_scalar] by (simp add: norm_context_def is_absent_def)
  with x show ?thesis by simp
qed

abbreviation zero_hash :: "byte list \<Rightarrow> byte list" where
  "zero_hash \<equiv> \<lambda>b. replicate 32 0"

abbreviation sample_keys :: tenant_keys where
  "sample_keys \<equiv> \<lparr>key_id = U ''k0123456789abcdef'', example_id_key = replicate 32 1, example_version_key = replicate 32 2\<rparr>"

abbreviation sample_projection :: projection where
  "sample_projection \<equiv> \<lparr>p_input = Some (VInt 1), p_context = None, p_expected = None, p_metadata = None\<rparr>"

lemma identified_keys_witness:
  "\<exists>e v. identify_example zero_hash (\<lambda>_. OList []) 0 1 sample_keys sample_projection = Inr (e, v) \<and>
     key_id_of (VStr e) = Inr (U ''k0123456789abcdef'') \<and> key_id_of (VStr v) = Inr (U ''k0123456789abcdef'')"
proof -
  have H: "\<forall>x. length (zero_hash x) = 32" by simp
  have kid: "is_kid (U ''k0123456789abcdef'')" by (simp add: is_kid_def U_def is_hex_def is_digit_def)
  have ok: "fp2_ok (JInt 1)" "floats_safe (JInt 1)" by (simp_all add: MAX_SAFE_INTEGER_def)
  obtain m where m: "framed DOMAIN_EXAMPLE_ID ((\<lambda>_. OList [])(0 := ODict [(VStr (U ''input''), VInt 1)])) (VRef 0) = Inr m"
    using framed_single [of "VInt 1" "JInt 1", OF _ ok] by (metis scalar_tree.simps(3))
  define e where "e = U ''ex1:'' @ U ''k0123456789abcdef'' @ U '':'' @ hexdigest (replicate 32 0)"
  have hex: "hmac_sha256 zero_hash k x = replicate 32 0" for k x by (simp add: hmac_sha256_def Let_def)
  have e: "compute_example_id zero_hash (\<lambda>_. OList []) 0 sample_keys (Some (VInt 1)) None = Inr e"
    using m kid by (simp add: compute_example_id_def check_keys_def example_id_payload_def is_absent_def hmac_hex_def e_def hex)
  have e': "encodable e" 
    using hexdigest_hex [of "replicate 32 0"]
    by (auto simp: e_def encodable_def U_def is_surrogate_def is_hex_def is_digit_def list_all_iff)
  have t: "scalar_tree (VStr e) = Some (JStr e)" by simp
  obtain m' where m': "framed DOMAIN_EXAMPLE_VERSION ((\<lambda>_. OList [])(0 := ODict [(VStr (U ''example_id''), VStr e)])) (VRef 0) = Inr m'"
    using framed_single [OF t, of DOMAIN_EXAMPLE_VERSION "\<lambda>_. OList []" 0 "''example_id''"] e' by auto
  have me: "match_example_id (VStr e) = Some (U ''k0123456789abcdef'')"
    using compute_example_id_minted [OF H e] by simp
  have "\<exists>v. compute_example_version zero_hash (\<lambda>_. OList []) 0 sample_keys (VStr e) None (Some VNone) = Inr v"
    using m' kid me
    by (simp add: compute_example_version_def check_keys_def example_version_payload_def check_metadata_def
        is_absent_def hmac_hex_def)
  then obtain v where "compute_example_version zero_hash (\<lambda>_. OList []) 0 sample_keys (VStr e) None (Some VNone) = Inr v" ..
  with e have "identify_example zero_hash (\<lambda>_. OList []) 0 1 sample_keys sample_projection = Inr (e, v)"
    by (simp add: identify_example_def)
  with identified_keys [OF H this] show ?thesis by auto
qed

lemma projection_identifiable_witness:
  "let h = (\<lambda>_. ODict [(VStr (U ''split''), VStr (U ''test'')), (VStr (U ''lang''), VStr (U ''en''))])
   in \<exists>p. project_sdk_example h (VInt 1) None (VRef 3) = Inr p \<and>
        identify_example zero_hash h 0 1 sample_keys p \<notin> {Inl ReservedMetadata, Inl MetadataNotDict, Inl InputRequired}"
proof -
  let ?h = "\<lambda>_::nat. ODict [(VStr (U ''split''), VStr (U ''test'')), (VStr (U ''lang''), VStr (U ''en''))]"
  have "\<exists>p. project_sdk_example ?h (VInt 1) None (VRef 3) = Inr p"
    by (auto simp: project_sdk_example_def Let_def is_str_def list_all_iff)
  then obtain p where p: "project_sdk_example ?h (VInt 1) None (VRef 3) = Inr p" by blast
  from projection_identifiable [OF p] p show ?thesis unfolding Let_def by blast
qed

lemma hkdf_sha256_is_rfc5869_witness:
  "hkdf_sha256 zero_hash [1, 2] [3] [4] 42 =
   Inr (take 42 (concat (map (hkdf_block zero_hash (hmac_sha256 zero_hash [3] [1, 2]) [4]) [1..<256])))"
  by (rule hkdf_sha256_is_rfc5869) simp_all

lemma derive_tenant_keys_iff_witness:
  "\<exists>keys. derive_tenant_keys zero_hash (replicate 32 7) (VStr (U ''tenant_1'')) = Inr keys"
proof -
  have "tenant_id_ok (U ''tenant_1'')" by (simp add: tenant_id_ok_def U_def tenant_char_def is_digit_def)
  then show ?thesis
    using derive_tenant_keys_iff [of zero_hash "replicate 32 7" "VStr (U ''tenant_1'')"] by auto
qed

lemma hkdf_info_binds_tenant_witness:
  "hkdf_info DOMAIN_KEY_ID (VStr (U ''t1'')) \<noteq> hkdf_info DOMAIN_KEY_ID (VStr (U ''t2''))"
proof
  assume eq: "hkdf_info DOMAIN_KEY_ID (VStr (U ''t1'')) = hkdf_info DOMAIN_KEY_ID (VStr (U ''t2''))"
  have "tenant_id_ok (U ''t1'')" by (simp add: tenant_id_ok_def U_def tenant_char_def is_digit_def)
  then obtain x where x: "hkdf_info DOMAIN_KEY_ID (VStr (U ''t1'')) = Inr x" by (simp add: hkdf_info_def)
  with eq hkdf_info_binds_tenant [OF x, of DOMAIN_KEY_ID "VStr (U ''t2'')"] show False by simp
qed

end
