(* ===== verification/Merkle.thy ===== *)
theory Merkle
  imports Prelude
begin

text \<open>
  The RFC 9162 Merkle tree of \<open>traigent_schema/example_identity.py\<close>: the tree hash, audit paths,
  and the iterative verification of an audit path. The hash function \<open>H\<close> is \<open>hashlib\<close>'s SHA-256
  and a parameter throughout. \<open>rebuild\<close> is the recursive meaning of the verification loop.
\<close>

section \<open>The tree\<close>

definition leaf_hash :: "(byte list \<Rightarrow> byte list) \<Rightarrow> byte list \<Rightarrow> byte list" where
  "leaf_hash H data = H (0 # data)"

definition node_hash :: "(byte list \<Rightarrow> byte list) \<Rightarrow> byte list \<Rightarrow> byte list \<Rightarrow> byte list" where
  "node_hash H left right = H (1 # left @ right)"

function split_loop :: "nat \<Rightarrow> nat \<Rightarrow> nat" where
  "split_loop k n = (if 0 < k \<and> k * 2 < n then split_loop (k * 2) n else k)"
  by pat_completeness auto
termination by (relation "measure (\<lambda>(k, n). n - k)") auto

declare split_loop.simps [simp del]

definition split_point :: "nat \<Rightarrow> nat" where
  "split_point n = split_loop 1 n"

lemma split_loop_pow:
  "0 < k \<Longrightarrow> k < n \<Longrightarrow>
   (\<exists>j. split_loop k n = k * 2 ^ j) \<and> split_loop k n < n \<and> n \<le> 2 * split_loop k n"
proof (induction k n rule: split_loop.induct)
  case (1 k n)
  show ?case
  proof (cases "k * 2 < n")
    case True
    with 1 obtain j where "split_loop (k * 2) n = k * 2 * 2 ^ j" by auto
    then have "split_loop (k * 2) n = k * 2 ^ Suc j" by simp
    then have "\<exists>j. split_loop (k * 2) n = k * 2 ^ j" by blast
    moreover have "split_loop k n = split_loop (k * 2) n" using True 1 by (simp add: split_loop.simps [of k n])
    ultimately show ?thesis using True 1 by auto
  next
    case False
    then have "split_loop k n = k * 2 ^ 0" by (subst split_loop.simps) simp
    with False 1 show ?thesis by (metis linorder_not_less mult.commute mult_1_right power_0)
  qed
qed

lemma split_point_props:
  assumes "2 \<le> n"
  shows "\<exists>j. split_point n = 2 ^ j" "split_point n < n" "n \<le> 2 * split_point n" "0 < split_point n"
  using split_loop_pow [of 1 n] assms by (auto simp: split_point_def)

lemma split_point_less [simp]: "\<not> n \<le> Suc 0 \<Longrightarrow> split_point n < n" "\<not> n \<le> Suc 0 \<Longrightarrow> 0 < split_point n"
  using split_point_props [of n] by auto

lemma split_point_diff [simp]: "\<not> n \<le> Suc 0 \<Longrightarrow> n - split_point n < n"
  using split_point_less [of n] by linarith

lemma split_point_list [simp]:
  "ls \<noteq> [] \<Longrightarrow> length ls \<noteq> Suc 0 \<Longrightarrow> split_point (length ls) < length ls"
  "ls \<noteq> [] \<Longrightarrow> length ls \<noteq> Suc 0 \<Longrightarrow> 0 < split_point (length ls)"
  by (cases ls; cases "tl ls"; simp)+

lemma split_point_eqI:
  assumes "2 ^ j < n" "n \<le> 2 * 2 ^ j"
  shows "split_point n = 2 ^ j"
proof -
  have n: "2 \<le> n" using assms(1) by (metis Suc_leI one_le_numeral one_le_power order.strict_trans1 numeral_2_eq_2 le_trans Suc_le_mono One_nat_def)
  obtain i where i: "split_point n = 2 ^ i" using split_point_props(1) [OF n] by blast
  have "(2::nat) ^ i < 2 ^ Suc j" "(2::nat) ^ j < 2 ^ Suc i"
    using split_point_props(2,3) [OF n] assms unfolding i by simp_all
  then have "i < Suc j" "j < Suc i" by (simp_all only: power_strict_increasing_iff one_less_numeral_iff semiring_norm)
  then have "i = j" by simp
  with i show ?thesis by simp
qed

function mth :: "(byte list \<Rightarrow> byte list) \<Rightarrow> byte list list \<Rightarrow> byte list" where
  "mth H leaf_hashes =
     (let n = length leaf_hashes in
      if n = 0 then H []
      else if n = 1 then hd leaf_hashes
      else let k = split_point n
           in node_hash H (mth H (take k leaf_hashes)) (mth H (drop k leaf_hashes)))"
  by pat_completeness auto
termination by (relation "measure (\<lambda>(H, ls). length ls)") (auto simp: min_less_iff_disj diff_less)

declare mth.simps [simp del]

lemma mth_simps:
  "mth H [] = H []" "mth H [l] = l"
  "2 \<le> length ls \<Longrightarrow> mth H ls =
     node_hash H (mth H (take (split_point (length ls)) ls)) (mth H (drop (split_point (length ls)) ls))"
  by (subst mth.simps, simp) (subst mth.simps, simp, subst mth.simps, auto simp: Let_def)

function path :: "(byte list \<Rightarrow> byte list) \<Rightarrow> nat \<Rightarrow> byte list list \<Rightarrow> byte list list" where
  "path H m leaf_hashes =
     (let n = length leaf_hashes in
      if n \<le> 1 then []
      else let k = split_point n in
        if m < k then path H m (take k leaf_hashes) @ [mth H (drop k leaf_hashes)]
        else path H (m - k) (drop k leaf_hashes) @ [mth H (take k leaf_hashes)])"
  by pat_completeness auto
termination by (relation "measure (\<lambda>(H, m, ls). length ls)") (auto simp: min_less_iff_disj)

declare path.simps [simp del]

lemma path_simps:
  "length ls \<le> 1 \<Longrightarrow> path H m ls = []"
  "2 \<le> length ls \<Longrightarrow> path H m ls =
     (let k = split_point (length ls) in
      if m < k then path H m (take k ls) @ [mth H (drop k ls)]
      else path H (m - k) (drop k ls) @ [mth H (take k ls)])"
  by (subst path.simps, simp) (subst path.simps, auto simp: Let_def)

section \<open>Verification\<close>

function skip_right_edge_levels :: "nat \<Rightarrow> nat \<Rightarrow> nat \<times> nat" where
  "skip_right_edge_levels fn sn =
     (if even fn \<and> fn \<noteq> 0 then skip_right_edge_levels (fn div 2) (sn div 2) else (fn, sn))"
  by pat_completeness auto
termination by (relation "measure fst") (auto elim: evenE)

declare skip_right_edge_levels.simps [simp del]

fun fold_audit_path ::
  "(byte list \<Rightarrow> byte list) \<Rightarrow> byte list \<Rightarrow> byte list list \<Rightarrow> nat \<Rightarrow> nat \<Rightarrow> byte list option" where
  "fold_audit_path H r [] fn sn = (if sn = 0 then Some r else None)"
| "fold_audit_path H r (p # ps) fn sn =
     (if sn = 0 then None
      else if odd fn \<or> fn = sn then
        (let (fn', sn') = (if even fn then skip_right_edge_levels fn sn else (fn, sn))
         in fold_audit_path H (node_hash H p r) ps (fn' div 2) (sn' div 2))
      else fold_audit_path H (node_hash H r p) ps (fn div 2) (sn div 2))"

section \<open>The recursive meaning of verification\<close>

function rebuild ::
  "(byte list \<Rightarrow> byte list) \<Rightarrow> nat \<Rightarrow> nat \<Rightarrow> byte list \<Rightarrow> byte list list \<Rightarrow> byte list option" where
  "rebuild H m n r ps =
     (if n \<le> 1 then (if ps = [] then Some r else None)
      else if ps = [] then None
      else let k = split_point n in
        if m < k then map_option (\<lambda>x. node_hash H x (last ps)) (rebuild H m k r (butlast ps))
        else map_option (\<lambda>x. node_hash H (last ps) x) (rebuild H (m - k) (n - k) r (butlast ps)))"
  by pat_completeness auto
termination by (relation "measure (\<lambda>(H, m, n, r, ps). n)") auto

function path_len :: "nat \<Rightarrow> nat \<Rightarrow> nat" where
  "path_len m n =
     (if n \<le> 1 then 0
      else let k = split_point n
           in Suc (if m < k then path_len m k else path_len (m - k) (n - k)))"
  by pat_completeness auto
termination by (relation "measure snd") auto

declare rebuild.simps [simp del] path_len.simps [simp del]

lemma rebuild_1 [simp]: "rebuild H m (Suc 0) r ps = (if ps = [] then Some r else None)"
  by (subst rebuild.simps) simp

lemma path_len_1 [simp]: "path_len m (Suc 0) = 0"
  by (subst path_len.simps) simp

lemma path_len_2: "2 \<le> n \<Longrightarrow> path_len m n =
  (let k = split_point n in Suc (if m < k then path_len m k else path_len (m - k) (n - k)))"
  by (subst path_len.simps) simp

lemma rebuild_snoc:
  "2 \<le> n \<Longrightarrow> rebuild H m n r (ps @ [p]) =
     (let k = split_point n in
      if m < k then map_option (\<lambda>x. node_hash H x p) (rebuild H m k r ps)
      else map_option (\<lambda>x. node_hash H p x) (rebuild H (m - k) (n - k) r ps))"
  by (subst rebuild.simps) (simp add: Let_def)

lemma rebuild_Some_length: "rebuild H m n r ps = Some x \<Longrightarrow> length ps = path_len m n"
proof (induction H m n r ps arbitrary: x rule: rebuild.induct)
  case (1 H m n r ps)
  show ?case
  proof (cases "n \<le> 1")
    case True
    with "1.prems" show ?thesis by (subst path_len.simps) (auto simp: rebuild.simps split: if_splits)
  next
    case False
    with "1.prems" have ps: "ps \<noteq> []" by (auto simp: rebuild.simps)
    from False ps "1.prems" have *: "if m < split_point n then \<exists>y. rebuild H m (split_point n) r (butlast ps) = Some y
        else \<exists>y. rebuild H (m - split_point n) (n - split_point n) r (butlast ps) = Some y"
      by (subst (asm) rebuild.simps) (auto simp: Let_def split: if_splits)
    have "length (butlast ps) =
       (if m < split_point n then path_len m (split_point n) else path_len (m - split_point n) (n - split_point n))"
      using * "1.IH" [OF False ps refl] by (auto split: if_splits)
    moreover have "length ps = Suc (length (butlast ps))" using ps by simp
    ultimately show ?thesis using False by (subst path_len.simps) (simp only: if_False Let_def)
  qed
qed

lemma split_point_pow: "split_point (2 ^ Suc j) = 2 ^ j"
  by (rule split_point_eqI) simp_all

lemma fold_left_sibling:
  "even fn \<Longrightarrow> fn < sn \<Longrightarrow>
   fold_audit_path H r (p # ps) fn sn = fold_audit_path H (node_hash H r p) ps (fn div 2) (sn div 2)"
  by simp

lemma fold_right_sibling:
  "odd fn \<Longrightarrow> fn < sn \<Longrightarrow>
   fold_audit_path H r (p # ps) fn sn = fold_audit_path H (node_hash H p r) ps (fn div 2) (sn div 2)"
  by simp

text \<open>A complete subtree away from the right edge.\<close>

lemma fold_perfect:
  "length ps1 = j \<Longrightarrow> m < 2 ^ j \<Longrightarrow> q < sn div 2 ^ j \<Longrightarrow>
   \<exists>x. rebuild H m (2 ^ j) r ps1 = Some x \<and>
       fold_audit_path H r (ps1 @ ps) (q * 2 ^ j + m) sn = fold_audit_path H x ps q (sn div 2 ^ j)"
proof (induction j arbitrary: ps1 ps m q)
  case 0
  then show ?case by simp
next
  case (Suc j)
  obtain ps0 p where ps1: "ps1 = ps0 @ [p]" "length ps0 = j"
    using Suc.prems(1) by (metis length_Suc_conv_rev)
  have sn: "sn div 2 ^ Suc j = sn div 2 ^ j div 2" by (metis div_mult2_eq mult.commute power_Suc)
  have two: "(2::nat) \<le> 2 ^ Suc j" by simp
  show ?case
  proof (cases "m < 2 ^ j")
    case True
    have "2 * q < sn div 2 ^ j" using Suc.prems(3) sn by linarith
    from Suc.IH [OF ps1(2) True this, of "p # ps"] obtain x where
      x: "rebuild H m (2 ^ j) r ps0 = Some x"
      "fold_audit_path H r (ps0 @ p # ps) (2 * q * 2 ^ j + m) sn = fold_audit_path H x (p # ps) (2 * q) (sn div 2 ^ j)"
      by blast
    have "rebuild H m (2 ^ Suc j) r ps1 = Some (node_hash H x p)"
      unfolding ps1 rebuild_snoc [OF two] split_point_pow Let_def using x(1) True by simp
    moreover have "fold_audit_path H x (p # ps) (2 * q) (sn div 2 ^ j) = fold_audit_path H (node_hash H x p) ps q (sn div 2 ^ Suc j)"
      unfolding sn using \<open>2 * q < sn div 2 ^ j\<close> by (subst fold_left_sibling) auto
    ultimately show ?thesis using x(2) ps1 by (auto simp: mult.assoc mult.left_commute)
  next
    case False
    have m: "m - 2 ^ j < 2 ^ j" using Suc.prems(2) False by simp
    have "2 * q + 1 < sn div 2 ^ j" using Suc.prems(3) sn by linarith
    from Suc.IH [OF ps1(2) m this, of "p # ps"] obtain x where
      x: "rebuild H (m - 2 ^ j) (2 ^ j) r ps0 = Some x"
      "fold_audit_path H r (ps0 @ p # ps) ((2 * q + 1) * 2 ^ j + (m - 2 ^ j)) sn = fold_audit_path H x (p # ps) (2 * q + 1) (sn div 2 ^ j)"
      by blast
    have "(2::nat) ^ Suc j - 2 ^ j = 2 ^ j" by simp
    then have "rebuild H m (2 ^ Suc j) r ps1 = Some (node_hash H p x)"
      unfolding ps1 rebuild_snoc [OF two] split_point_pow Let_def using x(1) False by simp
    moreover have "fold_audit_path H x (p # ps) (2 * q + 1) (sn div 2 ^ j) = fold_audit_path H (node_hash H p x) ps q (sn div 2 ^ Suc j)"
      unfolding sn using \<open>2 * q + 1 < sn div 2 ^ j\<close> by (subst fold_right_sibling) auto
    moreover have e: "(2 * q + 1) * 2 ^ j + (m - 2 ^ j) = q * 2 ^ Suc j + m" using False by (simp add: algebra_simps)
    ultimately show ?thesis using x(2) [unfolded e] by (simp only: ps1 append_assoc append.simps) blast
  qed
qed

lemma path_len_pow: "m < 2 ^ j \<Longrightarrow> path_len m (2 ^ j) = j"
proof (induction j arbitrary: m)
  case (Suc j)
  have "(2::nat) \<le> 2 ^ Suc j" "(2::nat) ^ Suc j - 2 ^ j = 2 ^ j" by simp_all
  then have "path_len m (2 ^ Suc j) = Suc (if m < 2 ^ j then path_len m (2 ^ j) else path_len (m - 2 ^ j) (2 ^ j))"
    unfolding path_len_2 [OF \<open>2 \<le> 2 ^ Suc j\<close>] split_point_pow Let_def by simp
  with Suc show ?case by auto
qed simp

text \<open>On the right edge, the shifts skip the levels at which the subtree is its own parent.\<close>

lemma skip_odd_multiple: "odd q \<Longrightarrow> skip_right_edge_levels (q * 2 ^ e) (q * 2 ^ e) = (q, q)"
proof (induction e)
  case 0
  then show ?case by (subst skip_right_edge_levels.simps) simp
next
  case (Suc e)
  then have "q \<noteq> 0" by (metis even_zero)
  with Suc show ?case by (subst skip_right_edge_levels.simps) simp
qed

lemma fold_edge_step:
  assumes "odd q"
  shows "fold_audit_path H r (p # ps) (q * 2 ^ e) (q * 2 ^ e) = fold_audit_path H (node_hash H p r) ps (q div 2) (q div 2)"
proof -
  have "q * 2 ^ e \<noteq> 0" using assms by (auto elim: oddE)
  moreover have "odd (q * 2 ^ e) \<Longrightarrow> q * 2 ^ e = q" using assms by (cases e) auto
  ultimately show ?thesis using skip_odd_multiple [OF assms, of e] by auto
qed

lemma fold_edge:
  "odd q \<Longrightarrow> 1 \<le> n \<Longrightarrow> n \<le> 2 ^ i \<Longrightarrow> m < n \<Longrightarrow> length ps1 = path_len m n \<Longrightarrow>
   \<exists>x. rebuild H m n r ps1 = Some x \<and>
       fold_audit_path H r (ps1 @ p # ps) (m + q * 2 ^ i) (n - 1 + q * 2 ^ i) =
       fold_audit_path H (node_hash H p x) ps (q div 2) (q div 2)"
proof (induction n arbitrary: m i q ps1 p ps rule: less_induct)
  case (less n)
  show ?case
  proof (cases "n = 1")
    case True
    with less.prems fold_edge_step [of q H r p ps i] show ?thesis by simp
  next
    case False
    with less.prems have n: "2 \<le> n" by simp
    obtain j where j: "split_point n = 2 ^ j" using split_point_props(1) [OF n] by blast
    note b = split_point_props(2,3) [OF n, unfolded j]
    have "(2::nat) ^ j < 2 ^ i" using b(1) less.prems(3) by (rule order.strict_trans2)
    then have ji: "j < i" by simp
    define e where "e = i - j - 1"
    have i: "i = Suc e + j" using ji by (simp add: e_def)
    define Q where "Q = q * 2 ^ e"
    have Q: "q * 2 ^ i = 2 * Q * 2 ^ j" by (simp add: i Q_def power_add)
    from less.prems(5) n obtain ps0 p0 where ps1: "ps1 = ps0 @ [p0]"
      by (cases ps1 rule: rev_cases) (auto simp: path_len_2 Let_def)
    have up: "fold_audit_path H y (p # ps) Q Q = fold_audit_path H (node_hash H p y) ps (q div 2) (q div 2)" for y
      unfolding Q_def by (rule fold_edge_step [OF less.prems(1)])
    show ?thesis
    proof (cases "m < 2 ^ j")
      case True
      with less.prems(5) n have l: "length ps0 = j" by (simp add: ps1 path_len_2 j path_len_pow Let_def)
      let ?sn = "n - 1 + q * 2 ^ i"
      have one: "(n - 1) div 2 ^ j = 1" using b by (intro div_nat_eqI) auto
      have sn: "?sn div 2 ^ j = 2 * Q + 1" unfolding Q using one by simp
      from fold_perfect [OF l True, of "2 * Q" ?sn H r "p0 # p # ps"] sn obtain x where
        x: "rebuild H m (2 ^ j) r ps0 = Some x"
        "fold_audit_path H r (ps0 @ p0 # p # ps) (2 * Q * 2 ^ j + m) ?sn = fold_audit_path H x (p0 # p # ps) (2 * Q) (2 * Q + 1)"
        by auto
      moreover have "fold_audit_path H x (p0 # p # ps) (2 * Q) (2 * Q + 1) = fold_audit_path H (node_hash H x p0) (p # ps) Q Q"
        by (subst fold_left_sibling) auto
      moreover have "rebuild H m n r ps1 = Some (node_hash H x p0)"
        using x(1) True rebuild_snoc [OF n, of H m r ps0 p0] by (simp add: ps1 j Let_def)
      ultimately show ?thesis using up [of "node_hash H x p0"] unfolding Q ps1 by (simp add: add.commute)
    next
      case False
      with less.prems(5) n have l: "length ps0 = path_len (m - 2 ^ j) (n - 2 ^ j)" by (simp add: ps1 path_len_2 j Let_def)
      have odd: "odd (2 * Q + 1)" by simp
      have k: "n - 2 ^ j < n" "1 \<le> n - 2 ^ j" "n - 2 ^ j \<le> 2 ^ j" "m - 2 ^ j < n - 2 ^ j"
        using b False less.prems(4) by auto
      from less.IH [OF k(1) odd k(2-4) l, of p0 "p # ps"] obtain x where
        x: "rebuild H (m - 2 ^ j) (n - 2 ^ j) r ps0 = Some x"
        "fold_audit_path H r (ps0 @ p0 # p # ps) (m - 2 ^ j + (2 * Q + 1) * 2 ^ j) (n - 2 ^ j - 1 + (2 * Q + 1) * 2 ^ j) =
         fold_audit_path H (node_hash H p0 x) (p # ps) Q Q"
        by auto
      moreover have "m - 2 ^ j + (2 * Q + 1) * 2 ^ j = m + q * 2 ^ i" "n - 2 ^ j - 1 + (2 * Q + 1) * 2 ^ j = n - 1 + q * 2 ^ i"
        using False b unfolding Q by (auto simp: algebra_simps)
      moreover have "rebuild H m n r ps1 = Some (node_hash H p0 x)"
        using x(1) False rebuild_snoc [OF n, of H m r ps0 p0] by (simp add: ps1 j Let_def)
      ultimately show ?thesis using up [of "node_hash H p0 x"] unfolding ps1 by simp
    qed
  qed
qed

lemma fold_exact:
  assumes "m < n" "length ps1 = path_len m n"
  shows "\<exists>x. rebuild H m n r ps1 = Some x \<and> fold_audit_path H r (ps1 @ ps) m (n - 1) = fold_audit_path H x ps 0 0"
proof (cases "n = 1")
  case True
  with assms show ?thesis by simp
next
  case False
  with assms have n: "2 \<le> n" by simp
  obtain j where j: "split_point n = 2 ^ j" using split_point_props(1) [OF n] by blast
  note b = split_point_props(2,3) [OF n, unfolded j]
  from assms(2) n obtain ps0 p0 where ps1: "ps1 = ps0 @ [p0]"
    by (cases ps1 rule: rev_cases) (auto simp: path_len_2 Let_def)
  show ?thesis
  proof (cases "m < 2 ^ j")
    case True
    with assms(2) n have l: "length ps0 = j" by (simp add: ps1 path_len_2 j path_len_pow Let_def)
    have sn: "(n - 1) div 2 ^ j = 1" using b by (intro div_nat_eqI) auto
    from fold_perfect [OF l True, of 0 "n - 1" H r "p0 # ps"] sn obtain x where
      "rebuild H m (2 ^ j) r ps0 = Some x"
      "fold_audit_path H r (ps0 @ p0 # ps) m (n - 1) = fold_audit_path H x (p0 # ps) 0 1"
      by auto
    then show ?thesis using True rebuild_snoc [OF n, of H m r ps0 p0] by (simp add: ps1 j Let_def)
  next
    case False
    with assms(2) n have l: "length ps0 = path_len (m - 2 ^ j) (n - 2 ^ j)" by (simp add: ps1 path_len_2 j Let_def)
    have k: "1 \<le> n - 2 ^ j" "n - 2 ^ j \<le> 2 ^ j" "m - 2 ^ j < n - 2 ^ j"
      using b False assms(1) by auto
    have e: "m - 2 ^ j + 1 * 2 ^ j = m" "n - 2 ^ j - 1 + 1 * 2 ^ j = n - 1" using False b by auto
    from fold_edge [OF _ k l, of 1 H r p0 ps] obtain x where
      "rebuild H (m - 2 ^ j) (n - 2 ^ j) r ps0 = Some x"
      "fold_audit_path H r (ps0 @ p0 # ps) m (n - 1) = fold_audit_path H (node_hash H p0 x) ps 0 0"
      unfolding e by auto
    then show ?thesis using False rebuild_snoc [OF n, of H m r ps0 p0] by (simp add: ps1 j Let_def)
  qed
qed

lemma fold_Some_snoc: "fold_audit_path H r ps fn sn = Some x \<Longrightarrow> fold_audit_path H r (ps @ p # ps') fn sn = None"
  by (induction ps arbitrary: r fn sn) (auto simp: Let_def split: if_splits prod.splits)

lemma fold_eq_rebuild:
  assumes "m < n"
  shows "fold_audit_path H r ps m (n - 1) = rebuild H m n r ps"
proof (cases "length ps = path_len m n")
  case True
  from fold_exact [OF assms this, of H r "[]"] show ?thesis by auto
next
  case False
  then have none: "rebuild H m n r ps = None" using rebuild_Some_length by fastforce
  have "fold_audit_path H r ps m (n - 1) = None"
  proof (cases "length ps < path_len m n")
    case True
    then obtain d where d: "length (ps @ [] # replicate d []) = path_len m n"
      by (metis add_Suc_right length_Cons length_append length_replicate less_iff_Suc_add)
    from fold_exact [OF assms d, of H r "[]"] obtain x where
      "fold_audit_path H r (ps @ [] # replicate d []) m (n - 1) = Some x" by auto
    with fold_Some_snoc show ?thesis by (metis not_Some_eq)
  next
    case longer: False
    with False have "path_len m n < length ps" by simp
    then have "length (take (path_len m n) ps) = path_len m n" "drop (path_len m n) ps \<noteq> []" by auto
    moreover from this(2) obtain p ps' where "drop (path_len m n) ps = p # ps'" by (metis list.exhaust)
    ultimately show ?thesis using fold_exact [OF assms, of "take (path_len m n) ps" H r "p # ps'"]
      by (metis append_take_drop_id fold_audit_path.simps(2))
  qed
  with none show ?thesis by simp
qed


section \<open>Completeness and binding\<close>

lemma rebuild_path: "m < length ls \<Longrightarrow> rebuild H m (length ls) (ls ! m) (path H m ls) = Some (mth H ls)"
proof (induction "length ls" arbitrary: ls m rule: less_induct)
  case less
  show ?case
  proof (cases "length ls \<le> 1")
    case True
    with less.prems obtain l where "ls = [l]" by (cases ls) auto
    with less.prems show ?thesis by (simp add: path_simps(1) mth_simps)
  next
    case False
    then have n: "2 \<le> length ls" by simp
    let ?k = "split_point (length ls)"
    have k: "?k < length ls" "0 < ?k" using split_point_props [OF n] by auto
    show ?thesis
    proof (cases "m < ?k")
      case True
      have len: "length (take ?k ls) = ?k" using k by simp
      from less.hyps [of "take ?k ls" m] True k
      have "rebuild H m ?k (ls ! m) (path H m (take ?k ls)) = Some (mth H (take ?k ls))"
        unfolding len by simp
      then show ?thesis
        using True by (simp add: path_simps(2) [OF n] mth_simps(3) [OF n] rebuild_snoc [OF n] Let_def)
    next
      case F: False
      from less.hyps [of "drop ?k ls" "m - ?k"] F k less.prems
      have "rebuild H (m - ?k) (length ls - ?k) (ls ! m) (path H (m - ?k) (drop ?k ls)) = Some (mth H (drop ?k ls))"
        by simp
      then show ?thesis
        using F by (simp add: path_simps(2) [OF n] mth_simps(3) [OF n] rebuild_snoc [OF n] Let_def)
    qed
  qed
qed

text \<open>
  What stands under a tree hash, and under the hash a verification ends with: the byte strings
  last hashed. \<open>extract_collision\<close> walks both down until they differ.
\<close>

definition tree_input :: "(byte list \<Rightarrow> byte list) \<Rightarrow> byte list list \<Rightarrow> byte list" where
  "tree_input H ds =
     (if ds = [] then []
      else if length ds = 1 then 0 # hd ds
      else let ls = map (leaf_hash H) ds; k = split_point (length ds)
           in 1 # mth H (take k ls) @ mth H (drop k ls))"

definition chain_input ::
  "(byte list \<Rightarrow> byte list) \<Rightarrow> nat \<Rightarrow> nat \<Rightarrow> byte list \<Rightarrow> byte list list \<Rightarrow> byte list" where
  "chain_input H m n d ps =
     (if n \<le> 1 then 0 # d
      else let k = split_point n in
        if m < k then 1 # the (rebuild H m k (leaf_hash H d) (butlast ps)) @ last ps
        else 1 # last ps @ the (rebuild H (m - k) (n - k) (leaf_hash H d) (butlast ps)))"

definition is_collision :: "(byte list \<Rightarrow> byte list) \<Rightarrow> byte list \<times> byte list \<Rightarrow> bool" where
  "is_collision H ab \<longleftrightarrow> fst ab \<noteq> snd ab \<and> H (fst ab) = H (snd ab)"

function extract_collision ::
  "(byte list \<Rightarrow> byte list) \<Rightarrow> nat \<Rightarrow> nat \<Rightarrow> byte list \<Rightarrow> byte list list \<Rightarrow> byte list list \<Rightarrow> byte list \<times> byte list" where
  "extract_collision H m n d ps ds =
     (if chain_input H m n d ps \<noteq> tree_input H ds then (chain_input H m n d ps, tree_input H ds)
      else if n \<le> 1 then ([], [])
      else let k = split_point n; j = split_point (length ds) in
        if m < k then extract_collision H m k d (butlast ps) (take j ds)
        else extract_collision H (m - k) (n - k) d (butlast ps) (drop j ds))"
  by pat_completeness auto
termination by (relation "measure (\<lambda>(H, m, n, d, ps, ds). n)") auto

declare extract_collision.simps [simp del]

lemma mth_tree_input: "mth H (map (leaf_hash H) ds) = H (tree_input H ds)"
proof (cases "length ds \<le> 1")
  case True
  then show ?thesis by (cases ds) (auto simp: mth_simps tree_input_def leaf_hash_def)
next
  case False
  then have "2 \<le> length (map (leaf_hash H) ds)" by simp
  from mth_simps(3) [OF this] False show ?thesis
    by (auto simp: tree_input_def Let_def node_hash_def take_map drop_map)
qed

lemma rebuild_chain_input:
  "rebuild H m n (leaf_hash H d) ps = Some x \<Longrightarrow> H (chain_input H m n d ps) = x"
  by (subst (asm) rebuild.simps)
    (auto simp: chain_input_def Let_def node_hash_def leaf_hash_def split: if_splits)

lemma rebuild_length:
  assumes "\<forall>x. length (H x) = L"
  shows "rebuild H m n (leaf_hash H d) ps = Some x \<Longrightarrow> length x = L"
  using rebuild_chain_input assms by metis

lemma tree_input_split:
  assumes "2 \<le> length ds"
  shows "tree_input H ds = 1 # mth H (map (leaf_hash H) (take (split_point (length ds)) ds)) @
           mth H (map (leaf_hash H) (drop (split_point (length ds)) ds))"
  using assms by (auto simp: tree_input_def Let_def take_map drop_map)

lemma tree_input_leaf: "tree_input H ds = 0 # d \<longleftrightarrow> ds = [d]"
  by (cases ds) (auto simp: tree_input_def Let_def)

lemma rebuild_binds:
  assumes H: "\<forall>x. length (H x) = L"
  shows "rebuild H m n (leaf_hash H d) ps = Some (mth H (map (leaf_hash H) ds)) \<Longrightarrow>
    d \<in> set ds \<and> (n = length ds \<and> m < n \<longrightarrow> ds ! m = d) \<or>
    is_collision H (extract_collision H m n d ps ds)"
proof (induction n arbitrary: m ps ds rule: less_induct)
  case (less n)
  have top: "H (chain_input H m n d ps) = H (tree_input H ds)"
    using rebuild_chain_input [OF less.prems] by (simp add: mth_tree_input)
  show ?case
  proof (cases "chain_input H m n d ps = tree_input H ds")
    case False
    with top show ?thesis by (simp add: extract_collision.simps is_collision_def)
  next
    case same: True
    show ?thesis
    proof (cases "n \<le> 1")
      case True
      with same have "tree_input H ds = 0 # d" by (simp add: chain_input_def)
      then show ?thesis using True by (auto simp: tree_input_leaf)
    next
      case False
      let ?k = "split_point n" and ?j = "split_point (length ds)"
      have ds: "2 \<le> length ds"
        using same False by (cases ds; cases "tl ds") (auto simp: chain_input_def tree_input_def Let_def split: if_splits)
      note j = split_point_props(2,4) [OF ds]
      have k: "?k < n" "n - ?k < n" using False by auto
      have len: "length (mth H (map (leaf_hash H) es)) = L" for es
        using H by (simp add: mth_tree_input)
      note un = extract_collision.simps [of H m n d ps ds]
      show ?thesis
      proof (cases "m < ?k")
        case True
        with less.prems False obtain x where x: "rebuild H m ?k (leaf_hash H d) (butlast ps) = Some x"
          by (subst (asm) rebuild.simps) (auto simp: Let_def split: if_splits)
        have "length x = L" using rebuild_length [OF H x] .
        with same x True False have "x = mth H (map (leaf_hash H) (take ?j ds))"
          by (simp add: tree_input_split [OF ds] chain_input_def Let_def len)
        with x less.IH [OF k(1), of m "butlast ps" "take ?j ds"] j
        have "d \<in> set (take ?j ds) \<and> (?k = ?j \<longrightarrow> ds ! m = d) \<or>
          is_collision H (extract_collision H m ?k d (butlast ps) (take ?j ds))"
          using True by auto
        then show ?thesis using un same False True by (auto simp: Let_def dest: in_set_takeD)
      next
        case F: False
        with less.prems False obtain x where x: "rebuild H (m - ?k) (n - ?k) (leaf_hash H d) (butlast ps) = Some x"
          by (subst (asm) rebuild.simps) (auto simp: Let_def split: if_splits)
        have "length x = L" using rebuild_length [OF H x] .
        with same x F False have "x = mth H (map (leaf_hash H) (drop ?j ds))"
          by (simp add: tree_input_split [OF ds] chain_input_def Let_def) (metis append_eq_append_conv len)
        with x less.IH [OF k(2), of "m - ?k" "butlast ps" "drop ?j ds"] j
        have "d \<in> set (drop ?j ds) \<and> (n - ?k = length ds - ?j \<and> m - ?k < n - ?k \<longrightarrow> ds ! (?j + (m - ?k)) = d) \<or>
          is_collision H (extract_collision H (m - ?k) (n - ?k) d (butlast ps) (drop ?j ds))"
          by auto
        then show ?thesis using un same False F by (auto simp: Let_def dest: in_set_dropD)
      qed
    qed
  qed
qed


text \<open>The same walk on two trees: either the leaves agree or two different byte strings hash alike.\<close>

function tree_collision ::
  "(byte list \<Rightarrow> byte list) \<Rightarrow> byte list list \<Rightarrow> byte list list \<Rightarrow> byte list \<times> byte list" where
  "tree_collision H ds es =
     (if tree_input H ds \<noteq> tree_input H es then (tree_input H ds, tree_input H es)
      else if length ds \<le> 1 then ([], [])
      else let j = split_point (length ds); i = split_point (length es) in
        if take j ds \<noteq> take i es then tree_collision H (take j ds) (take i es)
        else tree_collision H (drop j ds) (drop i es))"
  by pat_completeness auto
termination by (relation "measure (\<lambda>(H, ds, es). length ds)") (auto simp: min_less_iff_disj)

declare tree_collision.simps [simp del]

lemma tree_binds:
  assumes H: "\<forall>x. length (H x) = L"
  shows "mth H (map (leaf_hash H) ds) = mth H (map (leaf_hash H) es) \<Longrightarrow>
    ds = es \<or> is_collision H (tree_collision H ds es)"
proof (induction "length ds" arbitrary: ds es rule: less_induct)
  case less
  note un = tree_collision.simps [of H ds es]
  show ?case
  proof (cases "tree_input H ds = tree_input H es")
    case False
    with less.prems show ?thesis by (simp add: un mth_tree_input is_collision_def)
  next
    case same: True
    show ?thesis
    proof (cases "length ds \<le> 1")
      case True
      then have "ds = [] \<or> (\<exists>d. ds = [d])" by (cases ds) auto
      then show ?thesis
      proof
        assume "ds = []"
        with same show ?thesis by (auto simp: tree_input_def Let_def split: if_splits)
      next
        assume "\<exists>d. ds = [d]"
        then obtain d where d: "ds = [d]" ..
        with same have "tree_input H es = 0 # d" by (simp add: tree_input_def)
        then show ?thesis unfolding tree_input_leaf d by simp
      qed
    next
      case False
      then have ds: "2 \<le> length ds" by simp
      with same have es: "2 \<le> length es"
        by (cases es; cases "tl es") (auto simp: tree_input_def Let_def split: if_splits)
      let ?j = "split_point (length ds)" and ?i = "split_point (length es)"
      have len: "length (mth H (map (leaf_hash H) xs)) = L" for xs
        using H by (simp add: mth_tree_input)
      have eq: "mth H (map (leaf_hash H) (take ?j ds)) = mth H (map (leaf_hash H) (take ?i es))"
        "mth H (map (leaf_hash H) (drop ?j ds)) = mth H (map (leaf_hash H) (drop ?i es))"
        using same len by (auto simp: tree_input_split [OF ds] tree_input_split [OF es])
      have less_len: "length (take ?j ds) < length ds" "length (drop ?j ds) < length ds"
        using split_point_props [OF ds] by auto
      from less.hyps [OF less_len(1) eq(1)] less.hyps [OF less_len(2) eq(2)] show ?thesis
        using same False by (auto simp: un Let_def) (metis append_take_drop_id)+
    qed
  qed
qed

text \<open>Every hash of the tree has the length of the hash function's output.\<close>

lemma mth_length:
  assumes "\<forall>x. length (H x) = L" "\<forall>l \<in> set ls. length l = L"
  shows "length (mth H ls) = L"
proof (cases "length ls \<le> 1")
  case True
  with assms show ?thesis by (cases ls) (auto simp: mth_simps)
next
  case False
  then show ?thesis using assms(1) by (simp add: mth_simps(3) node_hash_def)
qed

lemma path_lengths:
  assumes H: "\<forall>x. length (H x) = L"
  shows "\<forall>l \<in> set ls. length l = L \<Longrightarrow> p \<in> set (path H m ls) \<Longrightarrow> length p = L"
proof (induction "length ls" arbitrary: ls m rule: less_induct)
  case less
  show ?case
  proof (cases "length ls \<le> 1")
    case True
    with less.prems show ?thesis by (simp add: path_simps)
  next
    case False
    then have n: "2 \<le> length ls" by simp
    let ?k = "split_point (length ls)"
    have sub: "\<forall>l \<in> set (take ?k ls). length l = L" "\<forall>l \<in> set (drop ?k ls). length l = L"
      using less.prems(1) by (auto dest: in_set_takeD in_set_dropD)
    have l: "length (take ?k ls) < length ls" "length (drop ?k ls) < length ls"
      using split_point_props [OF n] by auto
    have "p \<in> set (path H m (take ?k ls)) \<or> p \<in> set (path H (m - ?k) (drop ?k ls)) \<or>
        p = mth H (take ?k ls) \<or> p = mth H (drop ?k ls)"
      using less.prems(2) by (auto simp: path_simps(2) [OF n] Let_def split: if_splits)
    then show ?thesis
      using less.hyps [OF l(1) sub(1)] less.hyps [OF l(2) sub(2)] mth_length [OF H sub(1)] mth_length [OF H sub(2)]
      by blast
  qed
qed

lemma fold_builds:
  "m < length ls \<Longrightarrow> fold_audit_path H (ls ! m) (path H m ls) m (length ls - 1) = Some (mth H ls)"
  by (simp only: fold_eq_rebuild rebuild_path)

lemma fold_binds:
  assumes "\<forall>x. length (H x) = L" "m < n"
    and "fold_audit_path H (leaf_hash H d) ps m (n - 1) = Some (mth H (map (leaf_hash H) ds))"
  shows "d \<in> set ds \<and> (n = length ds \<longrightarrow> ds ! m = d) \<or>
    is_collision H (extract_collision H m n d ps ds)"
  using rebuild_binds [OF assms(1) assms(3) [unfolded fold_eq_rebuild [OF assms(2)]]] assms(2)
  by simp

end
