(* ===== verification/MultisetRoot.thy ===== *)
theory MultisetRoot
  imports Identity Merkle "HOL-Library.AList" "HOL-Library.Product_Lexorder"
begin

text \<open>
  Multisets of examples, \<open>traigent_schema/example_identity.py\<close>: members, normalization, the
  order-free root, inclusion proofs and the set relations. A proof's index, size, path and root
  come from outside, so they are Python values of any type.
\<close>

section \<open>Members\<close>

datatype multiset_member = Member (m_id: ustr) (m_version: ustr) (m_count: int)

text \<open>\<open>order=True\<close>: members are ordered as the tuples of their fields.\<close>

instantiation multiset_member :: linorder
begin

definition less_eq_multiset_member :: "multiset_member \<Rightarrow> multiset_member \<Rightarrow> bool" where
  "a \<le> b \<longleftrightarrow> ((m_id a, m_version a), m_count a) \<le> ((m_id b, m_version b), m_count b)"

definition less_multiset_member :: "multiset_member \<Rightarrow> multiset_member \<Rightarrow> bool" where
  "a < b \<longleftrightarrow> ((m_id a, m_version a), m_count a) < ((m_id b, m_version b), m_count b)"

instance
proof
  fix a b c :: multiset_member
  show "a < b \<longleftrightarrow> a \<le> b \<and> \<not> b \<le> a"
    by (simp only: less_eq_multiset_member_def less_multiset_member_def less_le_not_le)
  show "a \<le> a" by (simp add: less_eq_multiset_member_def)
  show "a \<le> b \<Longrightarrow> b \<le> c \<Longrightarrow> a \<le> c"
    unfolding less_eq_multiset_member_def by (rule order_trans)
  show "a \<le> b \<Longrightarrow> b \<le> a \<Longrightarrow> a = b"
    unfolding less_eq_multiset_member_def by (cases a; cases b) (simp only: multiset_member.sel order_antisym_conv prod.inject)
  show "a \<le> b \<or> b \<le> a" unfolding less_eq_multiset_member_def by (rule linear)
qed

end

definition MAX_COUNT :: int where
  "MAX_COUNT = 2 ^ 53 - 1"

definition make_member :: "pyval \<Rightarrow> pyval \<Rightarrow> pyval \<Rightarrow> ci_error + multiset_member" where
  "make_member example_id example_version n_arg =
     (case (match_example_id example_id, match_example_version example_version) of
        (Some k, Some k') \<Rightarrow>
          if k \<noteq> k' then Inl MixedMemberKeys
          else (case n_arg of
                  VInt n \<Rightarrow> if 1 \<le> n \<and> n \<le> MAX_COUNT
                    then Inr (Member (key_text example_id) (key_text example_version) n) else Inl BadCount
                | _ \<Rightarrow> Inl BadCount)
      | _ \<Rightarrow> Inl NotAMember)"

text \<open>\<open>example_id.split(":", 2)[1]\<close>.\<close>

definition member_key_id :: "multiset_member \<Rightarrow> ustr" where
  "member_key_id m = fst (partition_at 58 (snd (partition_at 58 (m_id m))))"

datatype multiset_item =
    IMember multiset_member
  | ITuple "pyval list" \<comment> \<open>a tuple or a list\<close>
  | IOther

definition coerce_item :: "multiset_item \<Rightarrow> ci_error + multiset_member" where
  "coerce_item item =
     (case item of
        IMember m \<Rightarrow> Inr m
      | ITuple [i, v] \<Rightarrow> make_member i v (VInt 1)
      | ITuple [i, v, c] \<Rightarrow> make_member i v c
      | _ \<Rightarrow> Inl BadItem)"

definition coerce_members :: "multiset_item list \<Rightarrow> ci_error + multiset_member list" where
  "coerce_members items = traverse coerce_item items"

text \<open>The dict of totals, in insertion order.\<close>

fun merge_members ::
  "((ustr \<times> ustr) \<times> int) list \<Rightarrow> multiset_member list \<Rightarrow> ci_error + ((ustr \<times> ustr) \<times> int) list" where
  "merge_members totals [] = Inr totals"
| "merge_members totals (m # ms) =
     (let pair = (m_id m, m_version m);
          total = (case map_of totals pair of None \<Rightarrow> 0 | Some n \<Rightarrow> n) + m_count m
      in if MAX_COUNT < total then Inl CountOverflow
         else merge_members (AList.update pair total totals) ms)"

definition normalize :: "multiset_item list \<Rightarrow> ci_error + multiset_member list" where
  "normalize items =
     rbind (coerce_members items) (\<lambda>ms.
     rbind (merge_members [] ms) (\<lambda>totals.
     traverse (\<lambda>((example_id, example_version), total).
         make_member (VStr example_id) (VStr example_version) (VInt total)) (sort totals)))"

definition single_key_id :: "multiset_member list \<Rightarrow> pyval option \<Rightarrow> ci_error + ustr" where
  "single_key_id members explicit =
     rbind (case explicit of
              None \<Rightarrow> Inr []
            | Some (VStr k) \<Rightarrow> if is_kid k then Inr [k] else Inl BadKeyId
            | _ \<Rightarrow> Inl BadKeyId) (\<lambda>extra.
       case remdups (map member_key_id members @ extra) of
         [] \<Rightarrow> Inl EmptyNeedsKeyId
       | [k] \<Rightarrow> Inr k
       | _ \<Rightarrow> Inl MixedKeyIds)"

definition conflicting_example_ids :: "multiset_member list \<Rightarrow> ustr list" where
  "conflicting_example_ids members =
     sort (remdups (filter (\<lambda>e. 1 < length (filter (\<lambda>m. m_id m = e) members)) (map m_id members)))"

definition multiset_leaf_data :: "multiset_member \<Rightarrow> ci_error + byte list" where
  "multiset_leaf_data m =
     framed DOMAIN_MULTISET_LEAF (\<lambda>_. OList [VStr (m_id m), VStr (m_version m), VInt (m_count m)]) (VRef 0)"

record multiset_root =
  mr_root :: ustr
  mr_key_id :: ustr
  mr_members :: "multiset_member list"
  mr_distinct_count :: nat
  mr_total_count :: int
  mr_conflicting_example_ids :: "ustr list"

definition compute_multiset_root ::
  "(byte list \<Rightarrow> byte list) \<Rightarrow> multiset_item list \<Rightarrow> pyval option \<Rightarrow> ci_error + multiset_root" where
  "compute_multiset_root H items explicit =
     rbind (normalize items) (\<lambda>members.
     rbind (single_key_id members explicit) (\<lambda>kid.
     let total = sum_list (map m_count members) in
     rbind (raise_if (MAX_COUNT < total) TotalOverflow) (\<lambda>_.
     rbind (traverse multiset_leaf_data members) (\<lambda>leaves.
       Inr \<lparr>mr_root = U ''msr1:'' @ kid @ U '':'' @ hexdigest (mth H (map (leaf_hash H) leaves)),
            mr_key_id = kid, mr_members = members, mr_distinct_count = length members,
            mr_total_count = total,
            mr_conflicting_example_ids = conflicting_example_ids members\<rparr>))))"

section \<open>Inclusion proofs\<close>

record inclusion_proof =
  ip_member :: multiset_member
  ip_leaf_index :: pyval
  ip_tree_size :: pyval
  ip_audit_path :: "pyval list"
  ip_root :: pyval

fun index_of :: "'a \<Rightarrow> 'a list \<Rightarrow> nat option" where
  "index_of x [] = None"
| "index_of x (y # ys) = (if x = y then Some 0 else map_option Suc (index_of x ys))"

definition build_inclusion_proof ::
  "(byte list \<Rightarrow> byte list) \<Rightarrow> multiset_root \<Rightarrow> multiset_member \<Rightarrow> ci_error + inclusion_proof" where
  "build_inclusion_proof H ms m =
     (case index_of m (mr_members ms) of
        None \<Rightarrow> Inl NotALeaf
      | Some index \<Rightarrow>
          rbind (traverse multiset_leaf_data (mr_members ms)) (\<lambda>leaves.
            let leaf_hashes = map (leaf_hash H) leaves in
            Inr \<lparr>ip_member = m, ip_leaf_index = VInt (int index),
                 ip_tree_size = VInt (int (length leaf_hashes)),
                 ip_audit_path = map (\<lambda>node. VStr (hexdigest node)) (path H index leaf_hashes),
                 ip_root = VStr (mr_root ms)\<rparr>))"

definition hex_value :: "nat \<Rightarrow> nat" where
  "hex_value c = (if c < 58 then c - 48 else c - 87)"

fun bytes_fromhex :: "ustr \<Rightarrow> byte list" where
  "bytes_fromhex (a # b # s) = byte_of (16 * hex_value a + hex_value b) # bytes_fromhex s"
| "bytes_fromhex _ = []"

fun decode_audit_path :: "pyval list \<Rightarrow> byte list list option" where
  "decode_audit_path [] = Some []"
| "decode_audit_path (node # nodes) =
     (case node of
        VStr s \<Rightarrow> if is_hex64 s then map_option (Cons (bytes_fromhex s)) (decode_audit_path nodes) else None
      | _ \<Rightarrow> None)"

definition verify_inclusion_proof ::
  "(byte list \<Rightarrow> byte list) \<Rightarrow> inclusion_proof \<Rightarrow> ci_error + bool" where
  "verify_inclusion_proof H p =
     (case match_root (ip_root p) of
        None \<Rightarrow> Inr False
      | Some (kid, root_hex) \<Rightarrow>
          if kid \<noteq> member_key_id (ip_member p) then Inr False
          else (case (ip_leaf_index p, ip_tree_size p) of
            (VInt leaf_index, VInt tree_size) \<Rightarrow>
              if \<not> (0 \<le> leaf_index \<and> leaf_index < tree_size) then Inr False
              else (case decode_audit_path (ip_audit_path p) of
                None \<Rightarrow> Inr False
              | Some nodes \<Rightarrow>
                  rbind (multiset_leaf_data (ip_member p)) (\<lambda>data.
                    case fold_audit_path H (leaf_hash H data) nodes (nat leaf_index) (nat (tree_size - 1)) of
                      None \<Rightarrow> Inr False
                    | Some computed \<Rightarrow> Inr (computed = bytes_fromhex root_hex)))
          | _ \<Rightarrow> Inr False))"

section \<open>Set relations\<close>

definition is_sub_multiset :: "multiset_root \<Rightarrow> multiset_root \<Rightarrow> bool" where
  "is_sub_multiset inner outer =
     (if mr_key_id inner \<noteq> mr_key_id outer then False
      else let available = map_of (rev (map (\<lambda>m. ((m_id m, m_version m), m_count m)) (mr_members outer)))
           in list_all (\<lambda>m. m_count m \<le> (case available (m_id m, m_version m) of None \<Rightarrow> 0 | Some n \<Rightarrow> n))
                (mr_members inner))"

definition example_id_overlap :: "multiset_root \<Rightarrow> multiset_root \<Rightarrow> ci_error + ustr list" where
  "example_id_overlap first second =
     (if mr_key_id first \<noteq> mr_key_id second then Inl MixedKeyIds
      else Inr (sort (remdups (filter (\<lambda>e. e \<in> m_id ` set (mr_members second))
             (map m_id (mr_members first))))))"

section \<open>Facts on members\<close>

definition valid_member :: "multiset_member \<Rightarrow> bool" where
  "valid_member m \<longleftrightarrow> make_member (VStr (m_id m)) (VStr (m_version m)) (VInt (m_count m)) = Inr m"

lemma match_identifier_form:
  "match_identifier pre s = Some (kid, hex) \<longleftrightarrow> s = U pre @ kid @ U '':'' @ hex \<and> is_kid kid \<and> is_hex64 hex"
proof
  assume m: "match_identifier pre s = Some (kid, hex)"
  let ?n = "length pre"
  have s: "s = take ?n s @ take 17 (drop ?n s) @ take 1 (drop (?n + 17) s) @ drop 1 (drop (?n + 17) s)"
    by (metis append_take_drop_id add.commute drop_drop)
  with m show "s = U pre @ kid @ U '':'' @ hex \<and> is_kid kid \<and> is_hex64 hex"
    by (simp add: match_identifier_def Let_def split: if_splits)
qed (auto simp: match_identifier_minted)

lemma make_member_Inr_iff:
  "make_member i v c = Inr m \<longleftrightarrow>
   (\<exists>k. match_example_id i = Some k \<and> match_example_version v = Some k \<and> i = VStr (m_id m) \<and> v = VStr (m_version m)
      \<and> c = VInt (m_count m) \<and> 1 \<le> m_count m \<and> m_count m \<le> MAX_COUNT)"
  by (cases m) (auto simp: make_member_def match_example_id_def match_example_version_def key_text_def
      split: option.splits pyval.splits if_splits)

lemma valid_member_made: "make_member i v c = Inr m \<Longrightarrow> valid_member m"
  by (auto simp: valid_member_def make_member_Inr_iff)

lemma is_hex_facts: "is_hex c \<Longrightarrow> c \<noteq> 58 \<and> \<not> is_surrogate c \<and> valid_cp c"
  by (auto simp: is_hex_def is_digit_def is_surrogate_def valid_cp_def)

lemma is_kid_chars: "is_kid k \<Longrightarrow> c \<in> set k \<Longrightarrow> c \<noteq> 58 \<and> \<not> is_surrogate c \<and> valid_cp c"
proof -
  assume k: "is_kid k" and c: "c \<in> set k"
  then obtain ks where ks: "k = 107 # ks" "\<forall>x \<in> set ks. is_hex x" by (cases k) (auto simp: is_kid_def list_all_iff)
  show "c \<noteq> 58 \<and> \<not> is_surrogate c \<and> valid_cp c"
  proof (cases "c = 107")
    case True
    then show ?thesis by (simp add: is_surrogate_def valid_cp_def)
  next
    case False
    with ks c is_hex_facts show ?thesis by auto
  qed
qed

lemma identifier_chars:
  assumes "match_identifier pre s = Some (kid, hex)" "list_all (\<lambda>c. c < 128) (U pre)"
  shows "encodable s" "list_all valid_cp s"
  using assms is_kid_chars [of kid] is_hex_facts
  by (fastforce simp: match_identifier_form encodable_def is_hex64_def list_all_iff U_Cons is_surrogate_def valid_cp_def)+

lemma valid_member_ids:
  assumes "valid_member m"
  shows "\<exists>k x y. m_id m = U ''ex1:'' @ k @ U '':'' @ x \<and> m_version m = U ''exv1:'' @ k @ U '':'' @ y \<and>
    is_kid k \<and> is_hex64 x \<and> is_hex64 y \<and> member_key_id m = k"
    "encodable (m_id m)" "encodable (m_version m)" "list_all valid_cp (m_id m)" "list_all valid_cp (m_version m)"
    "1 \<le> m_count m" "m_count m \<le> MAX_COUNT"
proof -
  obtain k x y where m: "match_identifier ''ex1:'' (m_id m) = Some (k, x)" "match_identifier ''exv1:'' (m_version m) = Some (k, y)"
    "1 \<le> m_count m" "m_count m \<le> MAX_COUNT"
    using assms by (auto simp: valid_member_def make_member_Inr_iff match_example_id_def match_example_version_def)
  then have f: "m_id m = U ''ex1:'' @ k @ U '':'' @ x" "m_version m = U ''exv1:'' @ k @ U '':'' @ y"
    "is_kid k" "is_hex64 x" "is_hex64 y" by (auto simp: match_identifier_form)
  have "partition_at 58 (U ''ex1'' @ 58 # k @ U '':'' @ x) = (U ''ex1'', k @ U '':'' @ x)"
    by (rule partition_at_hit) (simp add: U_def)
  moreover have "partition_at 58 (k @ 58 # x) = (k, x)"
    by (rule partition_at_hit) (use is_kid_chars [OF f(3)] in blast)
  ultimately have "member_key_id m = k" by (simp add: member_key_id_def f(1) U_Cons)
  with f show "\<exists>k x y. m_id m = U ''ex1:'' @ k @ U '':'' @ x \<and> m_version m = U ''exv1:'' @ k @ U '':'' @ y \<and>
    is_kid k \<and> is_hex64 x \<and> is_hex64 y \<and> member_key_id m = k" by blast
  have a: "list_all (\<lambda>c. c < 128) (U ''ex1:'')" "list_all (\<lambda>c. c < 128) (U ''exv1:'')" by (simp_all add: U_def)
  show "encodable (m_id m)" "encodable (m_version m)" "list_all valid_cp (m_id m)" "list_all valid_cp (m_version m)"
    using identifier_chars [OF m(1) a(1)] identifier_chars [OF m(2) a(2)] by auto
qed (use assms in \<open>auto simp: valid_member_def make_member_Inr_iff\<close>)

text \<open>Leaves of valid members exist and identify the member.\<close>

lemma leaf_tree:
  assumes "valid_member m"
  shows "unfold_value (\<lambda>_. OList [VStr (m_id m), VStr (m_version m), VInt (m_count m)]) MAX_DEPTH (VRef 0) =
    Some (JArr [JStr (m_id m), JStr (m_version m), JInt (m_count m)])"
proof -
  obtain n where depth: "MAX_DEPTH = Suc n" by (simp add: MAX_DEPTH_def numeral_eq_Suc)
  show ?thesis by (cases n) (simp_all add: depth)
qed

lemma leaf_data_exists:
  assumes "valid_member m"
  shows "\<exists>d. multiset_leaf_data m = Inr d"
proof -
  have "fp2_ok (JArr [JStr (m_id m), JStr (m_version m), JInt (m_count m)])"
    using valid_member_ids [OF assms] by (auto simp: MAX_COUNT_def MAX_SAFE_INTEGER_def)
  then show ?thesis
    using leaf_tree [OF assms] by (fastforce simp: multiset_leaf_data_def framed_Inr_iff canonical_bytes_char)
qed

lemma leaf_data_inject:
  assumes "valid_member m" "valid_member m'" "multiset_leaf_data m = Inr d" "multiset_leaf_data m' = Inr d"
  shows "m = m'"
proof -
  let ?t = "\<lambda>m. JArr [JStr (m_id m), JStr (m_version m), JInt (m_count m)]"
  have wf: "wf_tree (?t m)" "wf_tree (?t m')" using valid_member_ids assms(1,2) by auto
  obtain b b' where b: "canonical_bytes (\<lambda>_. OList [VStr (m_id m), VStr (m_version m), VInt (m_count m)]) (VRef 0) = Inr b"
    "canonical_bytes (\<lambda>_. OList [VStr (m_id m'), VStr (m_version m'), VInt (m_count m')]) (VRef 0) = Inr b'"
    "utf8 (U DOMAIN_MULTISET_LEAF) @ 0 # b = utf8 (U DOMAIN_MULTISET_LEAF) @ 0 # b'"
    using assms(3,4) by (auto simp: multiset_leaf_data_def framed_Inr_iff)
  from ci.bytes_eq_iff [OF b(1,2) leaf_tree [OF assms(1)] leaf_tree [OF assms(2)] wf] b(3)
  have "norm (?t m) = norm (?t m')" by simp
  then have ids: "m_id m = m_id m'" "m_version m = m_version m'" "int_float (m_count m) = int_float (m_count m')" by auto
  have "int_text (m_count x) = ecmascript_number_to_string (int_float (m_count x))" if "valid_member x" for x
    using valid_member_ids(6,7) [OF that] by (intro int_text_float [symmetric]) (auto simp: MAX_COUNT_def MAX_SAFE_INTEGER_def)
  with ids(3) assms have "int_text (m_count m) = int_text (m_count m')" by metis
  moreover have "1 \<le> m_count m" "1 \<le> m_count m'" using valid_member_ids(6) assms(1,2) by auto
  ultimately have "m_count m = m_count m'"
    by (simp add: int_text_def digit_chars_def inj_map_eq_map inj_def)
  with ids show ?thesis by (cases m; cases m') auto
qed

section \<open>Facts on normalization\<close>

abbreviation member_pair :: "multiset_member \<Rightarrow> ustr \<times> ustr" where
  "member_pair m \<equiv> (m_id m, m_version m)"

definition total_of :: "multiset_member list \<Rightarrow> ustr \<times> ustr \<Rightarrow> int" where
  "total_of ms p = sum_list (map m_count (filter (\<lambda>m. member_pair m = p) ms))"

definition summary :: "multiset_member list \<Rightarrow> multiset_member list" where
  "summary ms = map (\<lambda>p. Member (fst p) (snd p) (total_of ms p)) (sort (remdups (map member_pair ms)))"

definition lookup0 :: "('a \<times> int) list \<Rightarrow> 'a \<Rightarrow> int" where
  "lookup0 T p = (case map_of T p of None \<Rightarrow> 0 | Some n \<Rightarrow> n)"

lemma lookup0_update: "lookup0 (AList.update k v T) p = (if p = k then v else lookup0 T p)"
  by (simp add: lookup0_def update_conv)

lemma total_of_Cons:
  "total_of (m # ms) p = (if member_pair m = p then m_count m else 0) + total_of ms p"
  by (auto simp: total_of_def)

lemma total_of_nonneg: "\<forall>m \<in> set ms. 1 \<le> m_count m \<Longrightarrow> 0 \<le> total_of ms p"
  by (induction ms) (auto simp: total_of_Cons total_of_def)

lemma total_of_pos: "\<forall>m \<in> set ms. 1 \<le> m_count m \<Longrightarrow> 0 < total_of ms p \<longleftrightarrow> p \<in> member_pair ` set ms"
proof (induction ms)
  case (Cons m ms)
  with total_of_nonneg [of ms p] show ?case by (auto simp: total_of_Cons)
qed (simp add: total_of_def)

lemma merge_cons:
  "merge_members T (m # ms) =
     (if MAX_COUNT < lookup0 T (member_pair m) + m_count m then Inl CountOverflow
      else merge_members (AList.update (member_pair m) (lookup0 T (member_pair m) + m_count m) T) ms)"
  by (simp add: lookup0_def Let_def)

declare merge_members.simps(2) [simp del]

lemma merge_facts:
  assumes "\<forall>m \<in> set ms. 1 \<le> m_count m"
  shows "distinct (map fst T) \<Longrightarrow>
    (if \<forall>p \<in> member_pair ` set ms. lookup0 T p + total_of ms p \<le> MAX_COUNT
     then \<exists>T'. merge_members T ms = Inr T' \<and> distinct (map fst T') \<and>
            (\<forall>p. lookup0 T' p = lookup0 T p + total_of ms p) \<and> fst ` set T' = fst ` set T \<union> member_pair ` set ms
     else merge_members T ms = Inl CountOverflow)"
  using assms
proof (induction ms arbitrary: T)
  case Nil
  then show ?case by (simp add: total_of_def)
next
  case (Cons m ms)
  let ?p = "member_pair m"
  let ?T = "AList.update ?p (lookup0 T ?p + m_count m) T"
  have pos: "1 \<le> m_count m" "\<forall>m \<in> set ms. 1 \<le> m_count m" using Cons.prems by auto
  have dist: "distinct (map fst ?T)" using Cons.prems(1) by (rule distinct_update)
  have keys: "fst ` set ?T = insert ?p (fst ` set T)"
    by (simp add: dom_update)
  have step: "lookup0 ?T p + total_of ms p = lookup0 T p + total_of (m # ms) p" for p
    by (auto simp: lookup0_update total_of_Cons)
  show ?case
  proof (cases "MAX_COUNT < lookup0 T ?p + m_count m")
    case True
    with total_of_nonneg [OF pos(2), of ?p] have "\<not> lookup0 T ?p + total_of (m # ms) ?p \<le> MAX_COUNT"
      by (simp add: total_of_Cons)
    with True show ?thesis by (auto simp: merge_cons)
  next
    case False
    have all: "(\<forall>p \<in> member_pair ` set (m # ms). lookup0 T p + total_of (m # ms) p \<le> MAX_COUNT) \<longleftrightarrow>
      (\<forall>p \<in> member_pair ` set ms. lookup0 ?T p + total_of ms p \<le> MAX_COUNT)"
    proof (cases "?p \<in> member_pair ` set ms")
      case True
      then show ?thesis unfolding step by auto
    next
      case F: False
      then have "total_of ms ?p = 0" using total_of_pos [OF pos(2), of ?p] total_of_nonneg [OF pos(2), of ?p] by linarith
      with F False show ?thesis unfolding step by (auto simp: total_of_Cons)
    qed
    show ?thesis
      using Cons.IH [OF dist pos(2)] False unfolding all step keys
      by (auto simp: merge_cons split: if_splits)
  qed
qed

lemma sorted_pairs: "sorted ps \<Longrightarrow> distinct ps \<Longrightarrow> sorted (map (\<lambda>p. (p, f p)) (ps :: ('a :: linorder) list))"
proof (induction ps)
  case (Cons p ps)
  then show ?case by (auto simp: less_le)
qed simp

lemma sort_totals:
  assumes "distinct (map fst T)" "\<forall>p. lookup0 T p = f p" "fst ` set T = set ps"
  shows "sort T = map (\<lambda>p. (p, f p)) (sort (remdups ps))"
proof (rule sorted_distinct_set_unique)
  have mem: "(p, c) \<in> set T \<longleftrightarrow> p \<in> set ps \<and> c = f p" for p c
  proof
    assume pc: "(p, c) \<in> set T"
    then have "map_of T p = Some c" using assms(1) by simp
    with pc assms(2,3) show "p \<in> set ps \<and> c = f p" by (force simp: lookup0_def split: option.splits)
  next
    assume p: "p \<in> set ps \<and> c = f p"
    then have "p \<in> fst ` set T" using assms(3) by simp
    then obtain d where d: "(p, d) \<in> set T" by auto
    then have "map_of T p = Some d" using assms(1) by simp
    with assms(2) have "d = f p" by (metis lookup0_def option.simps(5))
    with p d show "(p, c) \<in> set T" by simp
  qed
  show "set (sort T) = set (map (\<lambda>p. (p, f p)) (sort (remdups ps)))" using mem by auto
  show "distinct (sort T)" using assms(1) by (simp add: distinct_map)
qed (auto simp: sorted_pairs distinct_map inj_on_def)

definition valid_items :: "multiset_item list \<Rightarrow> bool" where
  "valid_items items \<longleftrightarrow> (\<forall>m. IMember m \<in> set items \<longrightarrow> valid_member m)"

lemma coerce_item_valid: "coerce_item item = Inr m \<Longrightarrow> (\<forall>n. item = IMember n \<longrightarrow> valid_member n) \<Longrightarrow> valid_member m"
  by (auto simp: coerce_item_def split: multiset_item.splits list.splits dest: valid_member_made)

lemma coerce_members_valid: "valid_items items \<Longrightarrow> coerce_members items = Inr ms \<Longrightarrow> m \<in> set ms \<Longrightarrow> valid_member m"
  unfolding coerce_members_def
proof (induction items arbitrary: ms)
  case (Cons item items)
  then show ?case using coerce_item_valid [of item m]
    by (auto simp: rbind_Inr_iff valid_items_def)
qed simp

lemma valid_member_count:
  "valid_member m \<Longrightarrow> 1 \<le> n \<Longrightarrow> n \<le> MAX_COUNT \<Longrightarrow> make_member (VStr (m_id m)) (VStr (m_version m)) (VInt n) = Inr (Member (m_id m) (m_version m) n)"
  by (auto simp: valid_member_def make_member_Inr_iff)

lemma summary_valid:
  assumes "\<forall>m \<in> set ms. valid_member m" "\<forall>p. total_of ms p \<le> MAX_COUNT" "p \<in> member_pair ` set ms"
  shows "make_member (VStr (fst p)) (VStr (snd p)) (VInt (total_of ms p)) = Inr (Member (fst p) (snd p) (total_of ms p))"
proof -
  obtain m where m: "m \<in> set ms" "p = member_pair m" using assms(3) by auto
  have "\<forall>m \<in> set ms. 1 \<le> m_count m" using assms(1) valid_member_ids(6) by auto
  from total_of_pos [OF this, of p] assms(3) have "1 \<le> total_of ms p" by simp
  with valid_member_count [of m "total_of ms p"] assms m show ?thesis by simp
qed

lemma normalize_char:
  assumes "valid_items items" "coerce_members items = Inr ms"
  shows "normalize items = (if \<forall>p. total_of ms p \<le> MAX_COUNT then Inr (summary ms) else Inl CountOverflow)"
proof -
  have valid: "\<forall>m \<in> set ms. valid_member m" using coerce_members_valid [OF assms] by blast
  then have pos: "\<forall>m \<in> set ms. 1 \<le> m_count m" using valid_member_ids(6) by auto
  have zero: "total_of ms p \<le> MAX_COUNT" if "p \<notin> member_pair ` set ms" for p
    using total_of_pos [OF pos, of p] that by (simp add: MAX_COUNT_def)
  have all: "(\<forall>p \<in> member_pair ` set ms. lookup0 [] p + total_of ms p \<le> MAX_COUNT) \<longleftrightarrow> (\<forall>p. total_of ms p \<le> MAX_COUNT)"
    using zero by (simp only: lookup0_def map_of.simps option.case add_0) blast
  show ?thesis
  proof (cases "\<forall>p. total_of ms p \<le> MAX_COUNT")
    case True
    with merge_facts [OF pos, of "[]"] all obtain T where T: "merge_members [] ms = Inr T" "distinct (map fst T)"
      "\<forall>p. lookup0 T p = total_of ms p" "fst ` set T = set (map member_pair ms)"
      by (auto simp: lookup0_def)
    have "traverse (\<lambda>((e, v), n). make_member (VStr e) (VStr v) (VInt n)) (sort T) = Inr (summary ms)"
      unfolding sort_totals [OF T(2-4)] summary_def traverse_Inr_iff
      unfolding list.rel_map case_prod_beta' fst_conv snd_conv
      by (rule list.rel_refl_strong) (use summary_valid [OF valid True] in simp)
    with T(1) True assms(2) show ?thesis by (simp add: normalize_def)
  next
    case False
    with merge_facts [OF pos, of "[]"] all have "merge_members [] ms = Inl CountOverflow" by (auto split: if_splits)
    with False assms(2) show ?thesis by (auto simp: normalize_def)
  qed
qed

lemma summary_cong:
  assumes "\<forall>m \<in> set ms. valid_member m" "\<forall>m \<in> set ms'. valid_member m" "\<forall>p. total_of ms p = total_of ms' p"
  shows "summary ms = summary ms'"
proof -
  have pos: "\<forall>m \<in> set ms. 1 \<le> m_count m" "\<forall>m \<in> set ms'. 1 \<le> m_count m" using assms(1,2) valid_member_ids(6) by auto
  have "set (map member_pair ms) = set (map member_pair ms')"
    using total_of_pos [OF pos(1)] total_of_pos [OF pos(2)] assms(3) by (metis (no_types, lifting) list.set_map set_eqI)
  then have "sort (remdups (map member_pair ms)) = sort (remdups (map member_pair ms'))"
    by (intro sorted_distinct_set_unique) auto
  with assms(3) show ?thesis by (simp add: summary_def)
qed

definition well_formed_root :: "multiset_root \<Rightarrow> bool" where
  "well_formed_root r \<longleftrightarrow> (\<forall>m \<in> set (mr_members r). valid_member m \<and> member_key_id m = mr_key_id r) \<and>
     distinct (map member_pair (mr_members r)) \<and> sorted (mr_members r) \<and> is_kid (mr_key_id r)"

lemma summary_members:
  assumes "\<forall>m \<in> set ms. valid_member m" "\<forall>p. total_of ms p \<le> MAX_COUNT"
  shows "\<forall>m \<in> set (summary ms). valid_member m" "map member_pair (summary ms) = sort (remdups (map member_pair ms))"
    "sorted (summary ms)"
proof -
  show "\<forall>m \<in> set (summary ms). valid_member m"
  proof -
    have "valid_member (Member (m_id m) (m_version m) (total_of ms (member_pair m)))" if "m \<in> set ms" for m
      using valid_member_made [OF summary_valid [OF assms, of "member_pair m"]] that by auto
    then show ?thesis by (auto simp: summary_def)
  qed
  show "map member_pair (summary ms) = sort (remdups (map member_pair ms))"
    by (simp add: summary_def comp_def)
  have "sorted ps \<Longrightarrow> distinct ps \<Longrightarrow> sorted (map (\<lambda>p. Member (fst p) (snd p) (f p)) ps)" for f ps
    by (induction ps) (auto simp: less_eq_multiset_member_def less_le)
  then show "sorted (summary ms)" by (simp add: summary_def)
qed

lemma single_key_id_Inr:
  assumes "single_key_id members explicit = Inr k" "\<forall>m \<in> set members. valid_member m"
  shows "is_kid k \<and> (\<forall>m \<in> set members. member_key_id m = k)"
proof -
  obtain extra where e: "remdups (map member_key_id members @ extra) = [k]" "\<forall>x \<in> set extra. is_kid x"
  proof (cases explicit)
    case None
    with assms(1) that [of "[]"] show ?thesis by (auto simp: single_key_id_def split: list.splits)
  next
    case (Some v)
    with assms(1) that show ?thesis
      by (auto simp: single_key_id_def rbind_Inr_iff split: pyval.splits if_splits list.splits)
  qed
  then have s: "set (map member_key_id members @ extra) = {k}" by (metis list.set(1,2) set_remdups)
  have "\<forall>x \<in> set (map member_key_id members). is_kid x" using assms(2) valid_member_ids(1) by fastforce
  moreover have "k \<in> set (map member_key_id members) \<or> k \<in> set extra" using s by auto
  ultimately have "is_kid k" using e(2) by blast
  with s show ?thesis by auto
qed

lemma compute_root_well_formed:
  assumes "valid_items items" "compute_multiset_root H items explicit = Inr r"
  shows "well_formed_root r"
    "\<exists>leaves. traverse multiset_leaf_data (mr_members r) = Inr leaves \<and>
       mr_root r = U ''msr1:'' @ mr_key_id r @ U '':'' @ hexdigest (mth H (map (leaf_hash H) leaves))"
    "mr_total_count r = sum_list (map m_count (mr_members r))" "mr_distinct_count r = length (mr_members r)"
    "mr_conflicting_example_ids r = conflicting_example_ids (mr_members r)"
proof -
  obtain ns kid leaves where n: "normalize items = Inr ns" "single_key_id ns explicit = Inr kid"
    "traverse multiset_leaf_data ns = Inr leaves"
    "r = \<lparr>mr_root = U ''msr1:'' @ kid @ U '':'' @ hexdigest (mth H (map (leaf_hash H) leaves)),
            mr_key_id = kid, mr_members = ns, mr_distinct_count = length ns,
            mr_total_count = sum_list (map m_count ns),
            mr_conflicting_example_ids = conflicting_example_ids ns\<rparr>"
    using assms(2) by (auto simp: compute_multiset_root_def rbind_Inr_iff Let_def)
  obtain ms where c: "coerce_members items = Inr ms" using n(1) by (auto simp: normalize_def rbind_Inr_iff)
  have valid: "\<forall>m \<in> set ms. valid_member m" using coerce_members_valid [OF assms(1) c] by blast
  have ns: "\<forall>p. total_of ms p \<le> MAX_COUNT" "ns = summary ms"
    using n(1) normalize_char [OF assms(1) c] by (auto split: if_splits)
  note s = summary_members [OF valid ns(1), folded ns(2)]
  have "distinct (map member_pair ns)" unfolding s(2) by simp
  with s single_key_id_Inr [OF n(2) s(1)] show "well_formed_root r"
    by (simp add: well_formed_root_def n(4))
  show "\<exists>leaves. traverse multiset_leaf_data (mr_members r) = Inr leaves \<and>
       mr_root r = U ''msr1:'' @ mr_key_id r @ U '':'' @ hexdigest (mth H (map (leaf_hash H) leaves))"
    "mr_total_count r = sum_list (map m_count (mr_members r))" "mr_distinct_count r = length (mr_members r)"
    "mr_conflicting_example_ids r = conflicting_example_ids (mr_members r)"
    using n(3) by (auto simp: n(4))
qed


section \<open>Facts on proofs\<close>

lemma hex_value_char: "d < 16 \<Longrightarrow> hex_value (hex_char d) = d"
  by (auto simp: hex_value_def hex_char_def)

lemma bytes_fromhex_hexdigest [simp]: "bytes_fromhex (hexdigest bs) = bs"
proof (induction bs)
  case (Cons b bs)
  have "16 * (unat b div 16) + unat b mod 16 = unat b" by (rule mult_div_mod_eq)
  with Cons show ?case by (simp add: hexdigest_def hex_value_char byte_nibbles byte_of_unat)
qed (simp add: hexdigest_def)

lemma decode_hexdigests:
  "\<forall>b \<in> set nodes. length b = 32 \<Longrightarrow> decode_audit_path (map (\<lambda>node. VStr (hexdigest node)) nodes) = Some nodes"
  by (induction nodes) (auto simp: is_hex64_def hexdigest_hex)

lemma index_of_Some: "index_of x xs = Some i \<Longrightarrow> i < length xs \<and> xs ! i = x"
  by (induction xs arbitrary: i) (auto split: if_splits)

lemma index_of_exists: "x \<in> set xs \<Longrightarrow> \<exists>i. index_of x xs = Some i"
  by (induction xs) auto

lemma leaves_nth:
  assumes "traverse multiset_leaf_data ms = Inr leaves"
  shows "length leaves = length ms" "i < length ms \<Longrightarrow> multiset_leaf_data (ms ! i) = Inr (leaves ! i)"
  using assms by (auto simp: traverse_Inr_iff list_all2_conv_all_nth)

lemma match_root_of:
  assumes "is_kid k" "length h = 32"
  shows "match_root (VStr (U ''msr1:'' @ k @ U '':'' @ hexdigest h)) = Some (k, hexdigest h)"
  using match_identifier_minted [OF assms(1), of "hexdigest h" "''msr1:''"] assms(2)
  by (simp add: match_root_def is_hex64_def hexdigest_hex)


lemma build_then_verify:
  assumes H: "\<forall>x. length (H x) = 32" and items: "valid_items items"
    and r: "compute_multiset_root H items explicit = Inr r" and m: "m \<in> set (mr_members r)"
  shows "\<exists>p. build_inclusion_proof H r m = Inr p \<and> verify_inclusion_proof H p = Inr True"
proof -
  note wf = compute_root_well_formed [OF items r]
  obtain leaves where l: "traverse multiset_leaf_data (mr_members r) = Inr leaves"
    "mr_root r = U ''msr1:'' @ mr_key_id r @ U '':'' @ hexdigest (mth H (map (leaf_hash H) leaves))"
    using wf(2) by blast
  obtain i where i: "index_of m (mr_members r) = Some i" using index_of_exists [OF m] by blast
  have il: "i < length leaves" "mr_members r ! i = m"
    using index_of_Some [OF i] leaves_nth(1) [OF l(1)] by auto
  have data: "multiset_leaf_data m = Inr (leaves ! i)"
    using leaves_nth(2) [OF l(1), of i] il leaves_nth(1) [OF l(1)] by simp
  let ?ls = "map (leaf_hash H) leaves"
  have ls: "\<forall>x \<in> set ?ls. length x = 32" using H by (simp add: leaf_hash_def)
  have root: "match_root (VStr (mr_root r)) = Some (mr_key_id r, hexdigest (mth H ?ls))"
    unfolding l(2) using wf(1) mth_length [OF H ls] by (intro match_root_of) (auto simp: well_formed_root_def)
  have kid: "member_key_id m = mr_key_id r" using wf(1) m by (auto simp: well_formed_root_def)
  have dec: "decode_audit_path (map (\<lambda>node. VStr (hexdigest node)) (path H i ?ls)) = Some (path H i ?ls)"
    using path_lengths [OF H ls] by (intro decode_hexdigests) blast
  have fold: "fold_audit_path H (leaf_hash H (leaves ! i)) (path H i ?ls) i (length leaves - 1) = Some (mth H ?ls)"
    using fold_builds [of i ?ls H] il(1) by simp
  have size: "nat (int (length leaves) - 1) = length leaves - 1" by simp
  show ?thesis
    using i l(1) root kid dec data fold il(1) unfolding build_inclusion_proof_def verify_inclusion_proof_def
    by (simp add: size Let_def)
qed

section \<open>The theorems\<close>

text \<open>
  C3: Completeness of inclusion proofs: the proof built for any member of a computed root
  verifies, for every tree size and every index, although the builder recurses on the tree and
  the verifier shifts two indices along the path.
\<close>

theorem built_proof_verifies:
  assumes "\<forall>x. length (H x) = 32" "valid_items items"
    and "compute_multiset_root H items explicit = Inr r" "m \<in> set (mr_members r)"
  shows "\<exists>p. build_inclusion_proof H r m = Inr p \<and> verify_inclusion_proof H p = Inr True"
  using assms by (rule build_then_verify)

text \<open>
  C4: Soundness of inclusion proofs: a proof that verifies against a computed root names a
  member of the multiset, and the one at the claimed index when the claimed size is the true
  one, or the explicit walk extract_collision returns two different byte strings with the same
  SHA-256.
\<close>

theorem verified_proof_binds:
  assumes H: "\<forall>x. length (H x) = 32" and items: "valid_items items"
    and r: "compute_multiset_root H items explicit = Inr r"
    and p: "verify_inclusion_proof H p = Inr True" "ip_root p = VStr (mr_root r)" "valid_member (ip_member p)"
    and data: "multiset_leaf_data (ip_member p) = Inr d" "traverse multiset_leaf_data (mr_members r) = Inr leaves"
    and pos: "ip_leaf_index p = VInt i" "ip_tree_size p = VInt n" "decode_audit_path (ip_audit_path p) = Some nodes"
  shows "ip_member p \<in> set (mr_members r) \<and>
      (n = int (mr_distinct_count r) \<longrightarrow> mr_members r ! nat i = ip_member p) \<or>
    is_collision H (extract_collision H (nat i) (nat n) d nodes leaves)"
proof -
  note wf = compute_root_well_formed [OF items r]
  let ?ls = "map (leaf_hash H) leaves"
  have root: "mr_root r = U ''msr1:'' @ mr_key_id r @ U '':'' @ hexdigest (mth H ?ls)"
    using wf(2) data(2) by auto
  have ls: "\<forall>x \<in> set ?ls. length x = 32" using H by (simp add: leaf_hash_def)
  have mr: "match_root (ip_root p) = Some (mr_key_id r, hexdigest (mth H ?ls))"
    unfolding p(2) root using wf(1) mth_length [OF H ls] by (intro match_root_of) (auto simp: well_formed_root_def)
  have in_range: "0 \<le> i" "i < n" and eq: "fold_audit_path H (leaf_hash H d) nodes (nat i) (nat (n - 1)) = Some (mth H ?ls)"
    using p(1) mr pos data(1) by (auto simp: verify_inclusion_proof_def split: if_splits option.splits)
  have nn: "nat (n - 1) = nat n - 1" "nat i < nat n" using in_range by auto
  from fold_binds [OF H nn(2) eq [unfolded nn(1)]]
  have "d \<in> set leaves \<and> (nat n = length leaves \<longrightarrow> leaves ! nat i = d) \<or>
    is_collision H (extract_collision H (nat i) (nat n) d nodes leaves)" .
  moreover have "ip_member p \<in> set (mr_members r) \<and>
      (n = int (mr_distinct_count r) \<longrightarrow> mr_members r ! nat i = ip_member p)"
    if d: "d \<in> set leaves" "nat n = length leaves \<longrightarrow> leaves ! nat i = d"
  proof -
    note len = leaves_nth(1) [OF data(2)]
    have same: "mr_members r ! j = ip_member p" if "j < length leaves" "leaves ! j = d" for j
    proof (rule leaf_data_inject [OF _ p(3) _ data(1)])
      show "valid_member (mr_members r ! j)" using wf(1) that len by (auto simp: well_formed_root_def)
      show "multiset_leaf_data (mr_members r ! j) = Inr d" using leaves_nth(2) [OF data(2), of j] that len by simp
    qed
    from d(1) obtain j where j: "j < length leaves" "leaves ! j = d" by (auto simp: in_set_conv_nth)
    have "ip_member p \<in> set (mr_members r)" using same [OF j] j(1) len by (metis nth_mem)
    moreover have "mr_members r ! nat i = ip_member p" if "n = int (mr_distinct_count r)"
      using that same [of "nat i"] d(2) nn(2) wf(4) len by simp
    ultimately show ?thesis by blast
  qed
  ultimately show ?thesis by blast
qed

text \<open>
  C21: The root depends on the multiset only: two item lists, in any order and with counts split
  in any way, whose totals per (id, version) pair agree give the same result, error results
  included.
\<close>

theorem root_is_order_free:
  assumes "valid_items items" "valid_items items'"
    and c: "coerce_members items = Inr ms" "coerce_members items' = Inr ms'"
    and tot: "\<forall>p. total_of ms p = total_of ms' p"
  shows "compute_multiset_root H items explicit = compute_multiset_root H items' explicit"
proof -
  have "\<forall>m \<in> set ms. valid_member m" "\<forall>m \<in> set ms'. valid_member m"
    using coerce_members_valid [OF assms(1) c(1)] coerce_members_valid [OF assms(2) c(2)] by blast+
  from summary_cong [OF this tot] have "normalize items = normalize items'"
    unfolding normalize_char [OF assms(1) c(1)] normalize_char [OF assms(2) c(2)] using tot by simp
  then show ?thesis by (simp add: compute_multiset_root_def)
qed

text \<open>
  C22: Equal roots stand for the same key id and the same members with the same counts, or
  tree_collision returns two different byte strings with the same SHA-256.
\<close>

theorem root_binds_members:
  assumes H: "\<forall>x. length (H x) = 32" and items: "valid_items items" "valid_items items'"
    and r: "compute_multiset_root H items explicit = Inr r" "compute_multiset_root H items' explicit' = Inr r'"
    and leaves: "traverse multiset_leaf_data (mr_members r) = Inr ds" "traverse multiset_leaf_data (mr_members r') = Inr es"
    and eq: "mr_root r = mr_root r'"
  shows "mr_key_id r = mr_key_id r' \<and>
    (mr_members r = mr_members r' \<or> is_collision H (tree_collision H ds es))"
proof -
  note wf = compute_root_well_formed [OF items(1) r(1)] and wf' = compute_root_well_formed [OF items(2) r(2)]
  have k: "length (mr_key_id r) = 17" "length (mr_key_id r') = 17"
    using wf(1) wf'(1) by (auto simp: well_formed_root_def is_kid_def)
  have "mr_key_id r @ U '':'' @ hexdigest (mth H (map (leaf_hash H) ds)) = mr_key_id r' @ U '':'' @ hexdigest (mth H (map (leaf_hash H) es))"
    using eq wf(2) wf'(2) leaves by auto
  with k have kid: "mr_key_id r = mr_key_id r'" and root: "mth H (map (leaf_hash H) ds) = mth H (map (leaf_hash H) es)"
    by (auto simp: append_eq_append_conv)
  from tree_binds [OF H root] have "ds = es \<or> is_collision H (tree_collision H ds es)" .
  moreover have "mr_members r = mr_members r'" if "ds = es"
  proof (rule nth_equalityI)
    show len: "length (mr_members r) = length (mr_members r')"
      using leaves_nth(1) leaves that by metis
    fix i assume i: "i < length (mr_members r)"
    then have "valid_member (mr_members r ! i)" "valid_member (mr_members r' ! i)"
      using wf(1) wf'(1) len by (auto simp: well_formed_root_def)
    then show "mr_members r ! i = mr_members r' ! i"
      using leaves_nth(2) [OF leaves(1) i] leaves_nth(2) [OF leaves(2)] i len that by (intro leaf_data_inject) auto
  qed
  ultimately show ?thesis using kid by blast
qed

text \<open>The multiset of pairs a root stands for.\<close>

definition bag :: "multiset_root \<Rightarrow> (ustr \<times> ustr) multiset" where
  "bag r = sum_list (map (\<lambda>m. replicate_mset (nat (m_count m)) (member_pair m)) (mr_members r))"

lemma count_bag:
  assumes "distinct (map member_pair ms)"
  shows "count (sum_list (map (\<lambda>m. replicate_mset (nat (m_count m)) (member_pair m)) ms)) p =
    nat (case map_of (map (\<lambda>m. (member_pair m, m_count m)) ms) p of None \<Rightarrow> 0 | Some n \<Rightarrow> n)"
  using assms
proof (induction ms)
  case (Cons m ms)
  have "map_of (map (\<lambda>m. (member_pair m, m_count m)) ms) (member_pair m) = None"
    using Cons.prems by (auto simp: map_of_eq_None_iff image_image)
  with Cons show ?case by auto
qed simp

text \<open>
  is_sub_multiset decides inclusion of the multisets of pairs that two roots of one key id
  stand for.
\<close>

theorem is_sub_multiset_iff:
  assumes "well_formed_root r" "well_formed_root r'"
  shows "is_sub_multiset r r' \<longleftrightarrow> mr_key_id r = mr_key_id r' \<and> bag r \<subseteq># bag r'"
proof -
  let ?A = "\<lambda>r. map (\<lambda>m. (member_pair m, m_count m)) (mr_members r)"
  let ?n = "\<lambda>r p. case map_of (?A r) p of None \<Rightarrow> 0 | Some n \<Rightarrow> n"
  have d: "distinct (map fst (?A r))" "distinct (map fst (?A r'))"
    using assms by (auto simp: well_formed_root_def comp_def)
  have rev: "map_of (rev (?A r')) = map_of (?A r')"
    using d(2) map_of_inject_set [of "rev (?A r')" "?A r'"] by (simp only: rev_map [symmetric] distinct_rev set_rev)
  have cnt: "count (bag r) p = nat (?n r p)" "count (bag r') p = nat (?n r' p)" for p
    using count_bag assms by (auto simp: well_formed_root_def bag_def)
  have pos: "1 \<le> m_count m" if "m \<in> set (mr_members r)" for m
    using assms(1) that valid_member_ids(6) by (auto simp: well_formed_root_def)
  have at: "?n r (member_pair m) = m_count m" if "m \<in> set (mr_members r)" for m
    using d(1) that by (subst map_of_is_SomeI [of _ _ "m_count m"]) auto
  have "(\<forall>m \<in> set (mr_members r). m_count m \<le> ?n r' (member_pair m)) \<longleftrightarrow> (\<forall>p. nat (?n r p) \<le> nat (?n r' p))"
  proof
    assume le: "\<forall>m \<in> set (mr_members r). m_count m \<le> ?n r' (member_pair m)"
    show "\<forall>p. nat (?n r p) \<le> nat (?n r' p)"
    proof
      fix p show "nat (?n r p) \<le> nat (?n r' p)"
      proof (cases "map_of (?A r) p")
        case (Some c)
        then obtain m where "m \<in> set (mr_members r)" "p = member_pair m" "c = m_count m" 
          using map_of_SomeD [OF Some] by auto
        with le Some show ?thesis by (auto intro: nat_mono)
      qed simp
    qed
  next
    assume le: "\<forall>p. nat (?n r p) \<le> nat (?n r' p)"
    show "\<forall>m \<in> set (mr_members r). m_count m \<le> ?n r' (member_pair m)"
    proof
      fix m assume m: "m \<in> set (mr_members r)"
      have "nat (?n r (member_pair m)) \<le> nat (?n r' (member_pair m))" using le by blast
      then have "nat (m_count m) \<le> nat (?n r' (member_pair m))" unfolding at [OF m] .
      with pos [OF m] show "m_count m \<le> ?n r' (member_pair m)" by (subst (asm) nat_le_eq_zle) auto
    qed
  qed
  then show ?thesis
    by (auto simp: is_sub_multiset_def rev list_all_iff subseteq_mset_def cnt)
qed

text \<open>
  The conflicting ids of a root are exactly the example ids that occur in it with two
  different versions.
\<close>

theorem conflicting_ids_iff:
  assumes "valid_items items" "compute_multiset_root H items explicit = Inr r"
  shows "e \<in> set (mr_conflicting_example_ids r) \<longleftrightarrow>
    (\<exists>m m'. m \<in> set (mr_members r) \<and> m' \<in> set (mr_members r) \<and> m_id m = e \<and> m_id m' = e \<and> m_version m \<noteq> m_version m')"
proof -
  note wf = compute_root_well_formed [OF assms]
  let ?f = "filter (\<lambda>m. m_id m = e) (mr_members r)"
  have d: "distinct (map member_pair ?f)" using wf(1) by (auto simp: well_formed_root_def distinct_map intro: inj_on_subset)
  have "1 < length ?f \<longleftrightarrow> (\<exists>m m'. m \<in> set ?f \<and> m' \<in> set ?f \<and> m_version m \<noteq> m_version m')"
  proof
    assume l: "1 < length ?f"
    then have "map member_pair ?f ! 0 \<noteq> map member_pair ?f ! 1" using d by (subst nth_eq_iff_index_eq) auto
    moreover have "0 < length ?f" using l by linarith
    moreover have in_f: "?f ! 0 \<in> set ?f" "?f ! 1 \<in> set ?f" using l by (auto simp del: filter_set set_filter intro: nth_mem)
    moreover have "m_id (?f ! 0) = e" "m_id (?f ! 1) = e" using in_f by auto
    ultimately show "\<exists>m m'. m \<in> set ?f \<and> m' \<in> set ?f \<and> m_version m \<noteq> m_version m'"
      using l by (intro exI [of _ "?f ! 0"] exI [of _ "?f ! 1"] conjI in_f) auto
  next
    assume "\<exists>m m'. m \<in> set ?f \<and> m' \<in> set ?f \<and> m_version m \<noteq> m_version m'"
    then show "1 < length ?f" by (cases ?f; cases "tl ?f") auto
  qed
  then show ?thesis by (auto simp: wf(5) conflicting_example_ids_def)
qed


section \<open>Concrete inputs\<close>

definition sample_member :: "nat \<Rightarrow> int \<Rightarrow> multiset_member" where
  "sample_member label n = Member (U ''ex1:k0123456789abcdef:'' @ replicate 64 48)
     (U ''exv1:k0123456789abcdef:'' @ replicate 64 label) n"

lemma sample_member_valid:
  assumes "is_hex label" "1 \<le> n" "n \<le> MAX_COUNT"
  shows "valid_member (sample_member label n)"
proof -
  have hex: "is_hex64 (replicate 64 label)" "is_hex64 (replicate 64 48)"
    using assms(1) by (simp_all add: is_hex64_def list_all_iff is_hex_def is_digit_def)
  have kid: "is_kid (U ''k0123456789abcdef'')" by (simp add: is_kid_def U_def is_hex_def is_digit_def)
  have id: "U ''ex1:k0123456789abcdef:'' @ replicate 64 48 = U ''ex1:'' @ U ''k0123456789abcdef'' @ U '':'' @ replicate 64 48"
    "U ''exv1:k0123456789abcdef:'' @ replicate 64 label = U ''exv1:'' @ U ''k0123456789abcdef'' @ U '':'' @ replicate 64 label"
    by (simp_all add: U_Cons)
  show ?thesis
    unfolding valid_member_def make_member_Inr_iff match_example_id_def match_example_version_def sample_member_def
      multiset_member.sel id pyval.case match_identifier_minted [OF kid hex(1)] match_identifier_minted [OF kid hex(2)]
    using assms(2,3) by simp
qed

lemma total_of_single: "total_of [m] p = (if member_pair m = p then m_count m else 0)"
  by (simp add: total_of_def)

lemma root_of_one:
  assumes "valid_member m"
  shows "\<exists>r. compute_multiset_root H [IMember m] None = Inr r \<and> mr_members r = [m]"
proof -
  have items: "valid_items [IMember m]" "coerce_members [IMember m] = Inr [m]"
    using assms by (auto simp: valid_items_def coerce_members_def coerce_item_def)
  note count = valid_member_ids(6,7) [OF assms]
  have "\<forall>p. total_of [m] p \<le> MAX_COUNT" using count by (simp add: total_of_single)
  then have n: "normalize [IMember m] = Inr [m]"
    using normalize_char [OF items] by (simp add: summary_def total_of_single)
  obtain d where "multiset_leaf_data m = Inr d" using leaf_data_exists [OF assms] by blast
  then show ?thesis using n count
    by (simp add: compute_multiset_root_def single_key_id_def Let_def)
qed

lemma sample_ok: "valid_member (sample_member 49 3)" "valid_items [IMember (sample_member 49 3)]"
  using sample_member_valid [of 49 3] by (auto simp: valid_items_def is_hex_def is_digit_def MAX_COUNT_def)

lemma built_proof_verifies_witness:
  "\<exists>r p. compute_multiset_root zero_hash [IMember (sample_member 49 3)] None = Inr r \<and>
     build_inclusion_proof zero_hash r (sample_member 49 3) = Inr p \<and> verify_inclusion_proof zero_hash p = Inr True"
proof -
  obtain r where r: "compute_multiset_root zero_hash [IMember (sample_member 49 3)] None = Inr r" "mr_members r = [sample_member 49 3]"
    using root_of_one [OF sample_ok(1)] by blast
  have "\<forall>x. length (zero_hash x) = 32" "sample_member 49 3 \<in> set (mr_members r)" using r(2) by simp_all
  from built_proof_verifies [OF this(1) sample_ok(2) r(1) this(2)] r(1) show ?thesis by blast
qed

lemma verified_proof_binds_witness:
  "\<exists>r p d leaves. compute_multiset_root zero_hash [IMember (sample_member 49 3)] None = Inr r \<and>
     verify_inclusion_proof zero_hash p = Inr True \<and> ip_root p = VStr (mr_root r) \<and>
     (ip_member p \<in> set (mr_members r) \<and> mr_members r ! 0 = ip_member p \<or>
      is_collision zero_hash (extract_collision zero_hash 0 1 d [] leaves))"
proof -
  let ?m = "sample_member 49 3"
  obtain r where r: "compute_multiset_root zero_hash [IMember ?m] None = Inr r" "mr_members r = [?m]"
    using root_of_one [OF sample_ok(1)] by blast
  have H: "\<forall>x. length (zero_hash x) = 32" and m: "?m \<in> set (mr_members r)" using r(2) by simp_all
  obtain p where p: "build_inclusion_proof zero_hash r ?m = Inr p" "verify_inclusion_proof zero_hash p = Inr True"
    using build_then_verify [OF H sample_ok(2) r(1) m] by blast
  obtain d where d: "multiset_leaf_data ?m = Inr d" using leaf_data_exists [OF sample_ok(1)] by blast
  have f: "ip_member p = ?m" "ip_root p = VStr (mr_root r)" "ip_leaf_index p = VInt 0" "ip_tree_size p = VInt 1"
    "decode_audit_path (ip_audit_path p) = Some []"
    using p(1) r(2) d by (auto simp: build_inclusion_proof_def path_simps)
  have l: "traverse multiset_leaf_data (mr_members r) = Inr [d]" using r(2) d by simp
  have size: "(1::int) = int (mr_distinct_count r)"
    using compute_root_well_formed(4) [OF sample_ok(2) r(1)] r(2) by simp
  from verified_proof_binds [OF H sample_ok(2) r(1) p(2) f(2) _ _ l f(3-5)] f(1) d sample_ok(1) size
  show ?thesis using r(1) p(2) f(2) by fastforce
qed

lemma root_is_order_free_witness:
  "compute_multiset_root zero_hash [IMember (sample_member 49 1), IMember (sample_member 49 2)] None =
   compute_multiset_root zero_hash [IMember (sample_member 49 3)] None"
proof (rule root_is_order_free)
  have "valid_member (sample_member 49 1)" "valid_member (sample_member 49 2)"
    using sample_member_valid [of 49] by (auto simp: is_hex_def is_digit_def MAX_COUNT_def)
  then show "valid_items [IMember (sample_member 49 1), IMember (sample_member 49 2)]" by (auto simp: valid_items_def)
  show "\<forall>p. total_of [sample_member 49 1, sample_member 49 2] p = total_of [sample_member 49 3] p"
    by (simp add: total_of_def sample_member_def)
qed (auto simp: sample_ok coerce_members_def coerce_item_def)

lemma root_binds_members_witness:
  "\<exists>r ds. compute_multiset_root zero_hash [IMember (sample_member 49 3)] None = Inr r \<and>
     traverse multiset_leaf_data (mr_members r) = Inr ds \<and>
     (mr_members r = mr_members r \<or> is_collision zero_hash (tree_collision zero_hash ds ds))"
proof -
  obtain r where r: "compute_multiset_root zero_hash [IMember (sample_member 49 3)] None = Inr r" "mr_members r = [sample_member 49 3]"
    using root_of_one [OF sample_ok(1)] by blast
  obtain d where "multiset_leaf_data (sample_member 49 3) = Inr d" using leaf_data_exists [OF sample_ok(1)] by blast
  then have l: "traverse multiset_leaf_data (mr_members r) = Inr [d]" using r(2) by simp
  have "\<forall>x. length (zero_hash x) = 32" by simp
  from root_binds_members [OF this sample_ok(2) sample_ok(2) r(1) r(1) l l refl] r(1) l show ?thesis by blast
qed

lemma is_sub_multiset_iff_witness:
  "\<exists>r. compute_multiset_root zero_hash [IMember (sample_member 49 3)] None = Inr r \<and> is_sub_multiset r r"
proof -
  obtain r where r: "compute_multiset_root zero_hash [IMember (sample_member 49 3)] None = Inr r"
    using root_of_one [OF sample_ok(1)] by blast
  note wf = compute_root_well_formed(1) [OF sample_ok(2) r]
  from is_sub_multiset_iff [OF wf wf] r show ?thesis by blast
qed

lemma conflicting_ids_iff_witness:
  "\<exists>r. compute_multiset_root zero_hash [IMember (sample_member 49 3)] None = Inr r \<and>
     m_id (sample_member 49 3) \<notin> set (mr_conflicting_example_ids r)"
proof -
  obtain r where r: "compute_multiset_root zero_hash [IMember (sample_member 49 3)] None = Inr r" "mr_members r = [sample_member 49 3]"
    using root_of_one [OF sample_ok(1)] by blast
  from conflicting_ids_iff [OF sample_ok(2) r(1)] r show ?thesis by simp
qed

end
