(* ===== verification/BestConfig.thy ===== *)
theory BestConfig
  imports Fp2Text
begin

text \<open>
  The best-config integrity profile, \<open>traigent_schema/best_config_profile.py\<close>: the constants read
  from the packaged contract, the iterative prevalidation walk, the bounded canonical bytes, the
  two domain-separated digests, and the hooks of the strict JSON parse. Error values carry the
  positional location the messages report. SHA-256 is the parameter \<open>H\<close>.
\<close>

section \<open>The contract\<close>

datatype profile_error =
    ContractMalformed
  | BadMaxBytes
  | BadMaxDepth
  | BadDomainTags
  | DepthDiverges
  | UnsafeIntegral "nat list"
  | SpecTooLarge nat
  | Circular "nat list"
  | ExceedsMaxDepth "nat list"
  | NonStringKey "nat list"
  | UnsupportedProfileType "nat list"
  | Fp2Failure fp2_error
  | DuplicateProperty
  | MalformedJson

fun json_get :: "json \<Rightarrow> string \<Rightarrow> json option" where
  "json_get (JObj kts) key = map_of (rev kts) (U key)"
| "json_get t key = None"

fun json_path :: "json option \<Rightarrow> string list \<Rightarrow> json option" where
  "json_path t [] = t"
| "json_path None (k # ks) = None"
| "json_path (Some t) (k # ks) = json_path (json_get t k) ks"

definition read_contract_constants :: "json \<Rightarrow> profile_error + json \<times> json \<times> json" where
  "read_contract_constants contract =
     (let definitions = json_get contract ''definitions'';
          canonicalization = json_path definitions [''canonicalization'', ''properties''];
          max_bytes = json_path canonicalization [''max_canonical_spec_bytes'', ''const''];
          max_depth = json_path canonicalization [''max_depth'', ''const''];
          domain_tags = json_path definitions [''domain_tag'', ''enum'']
      in case (max_bytes, max_depth, domain_tags) of
           (Some b, Some d, Some t) \<Rightarrow> Inr (b, d, t)
         | _ \<Rightarrow> Inl ContractMalformed)"

definition is_positive_int :: "json \<Rightarrow> bool" where
  "is_positive_int v = (case v of JInt i \<Rightarrow> 0 < i | _ \<Rightarrow> False)"

definition ends_with :: "ustr \<Rightarrow> ustr \<Rightarrow> bool" where
  "ends_with s suffix \<longleftrightarrow> length suffix \<le> length s \<and> drop (length s - length suffix) s = suffix"

definition string_of_json :: "json \<Rightarrow> ustr option" where
  "string_of_json v = (case v of JStr s \<Rightarrow> Some s | _ \<Rightarrow> None)"

definition domain_tag_pair :: "json \<Rightarrow> profile_error + ustr \<times> ustr" where
  "domain_tag_pair domain_tags =
     (case domain_tags of
        JArr ts \<Rightarrow>
          if list_ex (\<lambda>t. string_of_json t = None) ts then Inl BadDomainTags
          else let tags = map (\<lambda>t. the (string_of_json t)) ts;
                   config_tags = filter (\<lambda>tag. ends_with tag (U ''.config.v1'')) tags;
                   spec_tags = filter (\<lambda>tag. ends_with tag (U ''.spec.v1'')) tags
               in (case (config_tags, spec_tags) of
                     ([c], [s]) \<Rightarrow> Inr (c, s)
                   | _ \<Rightarrow> Inl BadDomainTags)
      | _ \<Rightarrow> Inl BadDomainTags)"

record contract =
  max_canonical_spec_bytes :: nat
  max_depth :: nat
  config_tag :: ustr
  spec_tag :: ustr

definition json_nat :: "json \<Rightarrow> nat" where
  "json_nat v = (case v of JInt i \<Rightarrow> nat i | _ \<Rightarrow> 0)"

text \<open>Loading, and the assertion the module makes right after it.\<close>

definition load_contract :: "json \<Rightarrow> profile_error + contract" where
  "load_contract raw =
     rbind (read_contract_constants raw) (\<lambda>(max_bytes, max_depth, domain_tags).
     rbind (raise_if (\<not> is_positive_int max_bytes) BadMaxBytes) (\<lambda>_.
     rbind (raise_if (\<not> is_positive_int max_depth) BadMaxDepth) (\<lambda>_.
     rbind (domain_tag_pair domain_tags) (\<lambda>(config, spec).
       Inr \<lparr>max_canonical_spec_bytes = json_nat max_bytes, max_depth = json_nat max_depth,
            config_tag = config, spec_tag = spec\<rparr>))))"

definition checked_contract :: "json \<Rightarrow> profile_error + contract" where
  "checked_contract raw =
     rbind (load_contract raw) (\<lambda>c. if max_depth c \<noteq> MAX_DEPTH then Inl DepthDiverges else Inr c)"

section \<open>Prevalidation\<close>

fun is_unsafe_integral :: "pyval \<Rightarrow> bool" where
  "is_unsafe_integral (VInt i) = (int MAX_SAFE_INTEGER < \<bar>i\<bar>)"
| "is_unsafe_integral (VFloat f) =
     (if \<not> is_finite_float f then False
      else if \<not> float_integral f then False
      else float_abs_gt f MAX_SAFE_INTEGER)"
| "is_unsafe_integral _ = False"

datatype profile_work =
    PValue pyval nat "nat list"
  | PClose nat

fun is_admissible_scalar :: "pyval \<Rightarrow> nat list \<Rightarrow> profile_error + bool" where
  "is_admissible_scalar VNone path = Inr True"
| "is_admissible_scalar (VBool b) path = Inr True"
| "is_admissible_scalar (VInt i) path =
     (if is_unsafe_integral (VInt i) then Inl (UnsafeIntegral path) else Inr True)"
| "is_admissible_scalar (VFloat f) path =
     (if is_unsafe_integral (VFloat f) then Inl (UnsafeIntegral path) else Inr True)"
| "is_admissible_scalar (VStr s) path = Inr True"
| "is_admissible_scalar (VOther t) path = Inl (UnsupportedProfileType path)"
| "is_admissible_scalar (VRef a) path = Inr False"

text \<open>The entries a container pushes, in the order pushed; the last one pops first.\<close>

fun member_pushes :: "nat \<Rightarrow> (pyval \<times> pyval) list \<Rightarrow> nat \<Rightarrow> nat list \<Rightarrow> profile_error + profile_work list" where
  "member_pushes index [] depth path = Inr []"
| "member_pushes index ((key, item) # kvs) depth path =
     (if \<not> (case key of VStr s \<Rightarrow> True | _ \<Rightarrow> False) then Inl (NonStringKey (path @ [index]))
      else rbind (member_pushes (index + 1) kvs depth path)
             (\<lambda>rest. Inr (PValue item (depth + 1) (path @ [index]) # rest)))"

fun item_pushes :: "nat \<Rightarrow> pyval list \<Rightarrow> nat \<Rightarrow> nat list \<Rightarrow> profile_work list" where
  "item_pushes index [] depth path = []"
| "item_pushes index (item # vs) depth path =
     PValue item (depth + 1) (path @ [index]) # item_pushes (index + 1) vs depth path"

definition open_profile_container ::
  "heap \<Rightarrow> nat \<Rightarrow> nat \<Rightarrow> nat list \<Rightarrow> nat set \<Rightarrow> profile_error + (nat set \<times> profile_work list)" where
  "open_profile_container h a depth path open_ids =
     (if MAX_DEPTH < depth then Inl (ExceedsMaxDepth path)
      else if a \<in> open_ids then Inl (Circular path)
      else
        (case h a of
           ODict kvs \<Rightarrow>
             rbind (member_pushes 0 kvs depth path)
               (\<lambda>pushed. Inr (insert a open_ids, rev (PClose a # pushed)))
         | OList vs \<Rightarrow> Inr (insert a open_ids, rev (PClose a # item_pushes 0 vs depth path))))"

fun prevalidate_step :: "heap \<Rightarrow> nat set \<Rightarrow> profile_work \<Rightarrow> profile_error + (nat set \<times> profile_work list)" where
  "prevalidate_step h open_ids (PClose a) = Inr (open_ids - {a}, [])"
| "prevalidate_step h open_ids (PValue node depth path) =
     rbind (is_admissible_scalar node path) (\<lambda>admissible.
       if admissible then Inr (open_ids, [])
       else (case node of
               VRef a \<Rightarrow> open_profile_container h a depth path open_ids
             | _ \<Rightarrow> Inr (open_ids, [])))"

fun profile_cost :: "heap \<Rightarrow> profile_work \<Rightarrow> nat" where
  "profile_cost h (PClose a) = 1"
| "profile_cost h (PValue v depth path) = weight h (Suc MAX_DEPTH - depth) v"

lemma sum_cost_item_pushes:
  "sum_list (map (profile_cost h) (item_pushes i vs depth path))
   \<le> sum_list (map (\<lambda>v. weight h (MAX_DEPTH - depth) v + 2) vs)"
  by (induction vs arbitrary: i) (auto intro: le_SucI)

lemma sum_cost_member_pushes:
  "member_pushes i kvs depth path = Inr ws \<Longrightarrow>
   sum_list (map (profile_cost h) ws) \<le> sum_list (map (\<lambda>kv. weight h (MAX_DEPTH - depth) (snd kv) + 2) kvs)"
  by (induction i kvs depth path arbitrary: ws rule: member_pushes.induct)
    (fastforce simp: rbind_Inr_iff split: if_splits)+

lemma prevalidate_step_cost:
  "prevalidate_step h s w = Inr (s', new) \<Longrightarrow> sum_list (map (profile_cost h) new) < profile_cost h w"
proof (induction h s w rule: prevalidate_step.induct)
  case (2 h open_ids node depth path)
  show ?case
  proof (cases node)
    case (VRef a)
    with 2 have d: "\<not> MAX_DEPTH < depth" by (auto simp: open_profile_container_def)
    then have suc: "Suc MAX_DEPTH - depth = Suc (MAX_DEPTH - depth)" by simp
    show ?thesis
    proof (cases "h a")
      case (OList vs)
      with 2 VRef d have "new = rev (PClose a # item_pushes 0 vs depth path)"
        by (auto simp: open_profile_container_def split: if_splits)
      then show ?thesis
        using sum_cost_item_pushes [of h 0 vs depth path] VRef OList suc by (simp add: rev_map [symmetric])
    next
      case (ODict kvs)
      with 2 VRef d obtain ws where "member_pushes 0 kvs depth path = Inr ws" "new = rev (PClose a # ws)"
        by (auto simp: open_profile_container_def rbind_Inr_iff split: if_splits)
      then show ?thesis
        using sum_cost_member_pushes [of 0 kvs depth path ws h] VRef ODict suc by (simp add: rev_map [symmetric])
    qed
  qed (use 2 in \<open>auto split: if_splits\<close>)
qed auto

function prevalidate_loop :: "heap \<Rightarrow> nat set \<Rightarrow> profile_work list \<Rightarrow> profile_error + nat set" where
  "prevalidate_loop h s [] = Inr s"
| "prevalidate_loop h s (w # ws) =
     (case prevalidate_step h s w of Inl e \<Rightarrow> Inl e | Inr (s', new) \<Rightarrow> prevalidate_loop h s' (new @ ws))"
  by pat_completeness auto
termination
  by (relation "measure (\<lambda>(h, s, ws). sum_list (map (profile_cost h) ws))")
    (auto dest: prevalidate_step_cost)

declare prevalidate_loop.simps(2) [simp del]

definition prevalidate :: "heap \<Rightarrow> pyval \<Rightarrow> profile_error + unit" where
  "prevalidate h root = rbind (prevalidate_loop h {} [PValue root 1 []]) (\<lambda>_. Inr ())"

interpretation profile_walk: work_stack "prevalidate_step h" "prevalidate_loop h" "profile_cost h" for h
  by unfold_locales
    (auto dest: prevalidate_step_cost simp: rbind_def prevalidate_loop.simps split: sum.split)

section \<open>Bytes and digests\<close>

definition profile_bytes :: "contract \<Rightarrow> heap \<Rightarrow> pyval \<Rightarrow> profile_error + byte list" where
  "profile_bytes c h v =
     rbind (prevalidate h v) (\<lambda>_.
       case canonicalize h v of
         Inl e \<Rightarrow> Inl (Fp2Failure e)
       | Inr canonical \<Rightarrow>
           let encoded = utf8 canonical
           in if max_canonical_spec_bytes c < length encoded then Inl (SpecTooLarge (length encoded)) else Inr encoded)"

definition domain_digest ::
  "(byte list \<Rightarrow> byte list) \<Rightarrow> contract \<Rightarrow> heap \<Rightarrow> pyval \<Rightarrow> ustr \<Rightarrow> profile_error + ustr" where
  "domain_digest H c h v tag =
     rbind (profile_bytes c h v) (\<lambda>encoded. Inr (U ''sha256:'' @ hexdigest (H (utf8 tag @ 0 # encoded))))"

definition config_digest :: "(byte list \<Rightarrow> byte list) \<Rightarrow> contract \<Rightarrow> heap \<Rightarrow> pyval \<Rightarrow> profile_error + ustr" where
  "config_digest H c h config = domain_digest H c h config (config_tag c)"

definition spec_digest :: "(byte list \<Rightarrow> byte list) \<Rightarrow> contract \<Rightarrow> heap \<Rightarrow> pyval \<Rightarrow> profile_error + ustr" where
  "spec_digest H c h spec = domain_digest H c h spec (spec_tag c)"

section \<open>Parse hooks\<close>

text \<open>\<open>float(literal)\<close> is the parameter \<open>to_float\<close>, on literals of any representation.\<close>

definition parse_float_rejecting_overflow :: "('l \<Rightarrow> pyfloat) \<Rightarrow> 'l \<Rightarrow> profile_error + pyfloat" where
  "parse_float_rejecting_overflow to_float literal =
     (let value = to_float literal in if \<not> is_finite_float value then Inl MalformedJson else Inr value)"

definition SAFE_INTEGER_DIGIT_COUNT :: nat where
  "SAFE_INTEGER_DIGIT_COUNT = length (nat_digits MAX_SAFE_INTEGER)"

definition parse_int_rejecting_unsafe_magnitude :: "ustr \<Rightarrow> profile_error + int" where
  "parse_int_rejecting_unsafe_magnitude literal =
     (let digits = (if take 1 literal = U ''-'' then drop 1 literal else literal) in
      if SAFE_INTEGER_DIGIT_COUNT < length digits then Inl (UnsafeIntegral [])
      else let value = int_of_text literal
           in if int MAX_SAFE_INTEGER < \<bar>value\<bar> then Inl (UnsafeIntegral []) else Inr value)"

fun repeated_key :: "ustr set \<Rightarrow> (ustr \<times> 'a) list \<Rightarrow> bool" where
  "repeated_key seen [] = False"
| "repeated_key seen ((key, v) # pairs) = (key \<in> seen \<or> repeated_key (insert key seen) pairs)"

definition reject_duplicate_object_keys :: "(ustr \<times> 'a) list \<Rightarrow> profile_error + (ustr \<times> 'a) list" where
  "reject_duplicate_object_keys pairs = (if repeated_key {} pairs then Inl DuplicateProperty else Inr pairs)"

section \<open>What prevalidation decides\<close>

fun profile_ok :: "json \<Rightarrow> bool" where
  "profile_ok (JInt i) = (\<bar>i\<bar> \<le> int MAX_SAFE_INTEGER)"
| "profile_ok (JFloat f) = (\<not> is_unsafe_integral (VFloat f))"
| "profile_ok (JArr ts) = (\<forall>t \<in> set ts. profile_ok t)"
| "profile_ok (JObj kts) = (\<forall>(k, t) \<in> set kts. profile_ok t)"
| "profile_ok _ = True"

lemma item_pushes_mem: "w \<in> set (item_pushes i vs d path) \<Longrightarrow> \<exists>x \<in> set vs. \<exists>p. w = PValue x (Suc d) p"
  by (induction vs arbitrary: i) auto

lemma item_pushes_all: "x \<in> set vs \<Longrightarrow> \<exists>p. PValue x (Suc d) p \<in> set (item_pushes i vs d path)"
proof (induction vs arbitrary: i)
  case (Cons a vs)
  then show ?case by (cases "x = a") auto
qed simp

lemma member_pushes_mem:
  "member_pushes i kvs d path = Inr es \<Longrightarrow>
   (\<forall>w \<in> set es. \<exists>kv \<in> set kvs. \<exists>p. w = PValue (snd kv) (Suc d) p) \<and>
   (\<forall>kv \<in> set kvs. (\<exists>s. fst kv = VStr s) \<and> (\<exists>p. PValue (snd kv) (Suc d) p \<in> set es))"
proof (induction i kvs d path arbitrary: es rule: member_pushes.induct)
  case (2 i key item kvs d path)
  then obtain rest s where r: "key = VStr s" "member_pushes (i + 1) kvs d path = Inr rest"
    "es = PValue item (d + 1) (path @ [i]) # rest"
    by (auto simp: rbind_Inr_iff split: if_splits pyval.splits)
  from "2.IH" [OF _ r(2)] r(1) have "(\<forall>w \<in> set rest. \<exists>kv \<in> set kvs. \<exists>p. w = PValue (snd kv) (Suc d) p) \<and>
    (\<forall>kv \<in> set kvs. (\<exists>s. fst kv = VStr s) \<and> (\<exists>p. PValue (snd kv) (Suc d) p \<in> set rest))" by simp
  then show ?case using r by auto
qed auto

lemma member_pushes_ok: "\<forall>kv \<in> set kvs. \<exists>s. fst kv = VStr s \<Longrightarrow> \<exists>es. member_pushes i kvs d path = Inr es"
  by (induction i kvs d path rule: member_pushes.induct) (auto split: pyval.splits)

lemma walk_close [simp]: "prevalidate_loop h s (PClose a # ws) = prevalidate_loop h (s - {a}) ws"
  by (simp add: prevalidate_loop.simps(2))

lemma scalar_profile:
  "scalar_tree v = Some t \<Longrightarrow> is_admissible_scalar v path = (if profile_ok t then Inr True else Inl (UnsafeIntegral path))"
  by (cases v) auto

lemma profile_visit_ok:
  "unfold_value h n v = Some t \<Longrightarrow> profile_ok t \<Longrightarrow> d + n \<le> Suc MAX_DEPTH \<Longrightarrow> open_ok h opened t \<Longrightarrow>
   prevalidate_loop h opened [PValue v d path] = Inr opened"
proof (induction n arbitrary: v t d opened path)
  case 0
  then have "scalar_tree v = Some t" by (cases v) auto
  with 0 show ?case by (simp add: prevalidate_loop.simps scalar_profile)
next
  case (Suc n)
  show ?case
  proof (cases "\<exists>a. v = VRef a")
    case False
    then have "scalar_tree v = Some t" using Suc.prems(1) by (cases v) auto
    with Suc.prems show ?thesis by (simp add: prevalidate_loop.simps scalar_profile)
  next
    case True
    then obtain a where v: "v = VRef a" by blast
    have d: "\<not> MAX_DEPTH < d" using Suc.prems by simp
    have a: "a \<notin> opened" using open_ok_not_mem Suc.prems v by blast
    have child: "prevalidate_loop h (insert a opened) [PValue x (Suc d) p] = Inr (insert a opened)"
      if "unfold_value h n x = Some t'" "profile_ok t'" "size t' < size t" for x t' p
      by (rule Suc.IH [OF that(1,2) _ open_ok_child [OF Suc.prems(4) Suc.prems(1) [unfolded v] that(3)]])
        (use Suc.prems in simp)
    have all: "prevalidate_loop h (insert a opened) (rev es @ [PClose a]) = Inr opened"
      if "\<And>w. w \<in> set es \<Longrightarrow> prevalidate_loop h (insert a opened) [w] = Inr (insert a opened)" for es
      using profile_walk.run_all_same [of "rev es" h "insert a opened"] that a
      by (simp add: profile_walk.run_append)
    show ?thesis
    proof (cases "h a")
      case (OList vs)
      with Suc.prems v obtain ts where t: "t = JArr ts"
        and l: "list_all2 (\<lambda>x t. unfold_value h n x = Some t) vs ts"
        by (auto simp: unfold_items_Some_iff)
      have "\<exists>t'. unfold_value h n x = Some t' \<and> profile_ok t' \<and> size t' < size t" if "x \<in> set vs" for x
        using list_all2_mem [OF l that] Suc.prems(2) t tree_item_size [of _ ts] by auto
      with child have "prevalidate_loop h (insert a opened) [w] = Inr (insert a opened)"
        if "w \<in> set (item_pushes 0 vs d path)" for w
        using item_pushes_mem [OF that] by blast
      from all [OF this] show ?thesis using v OList d a
        by (simp add: prevalidate_loop.simps open_profile_container_def)
    next
      case (ODict kvs)
      with Suc.prems v obtain kts where t: "t = JObj kts"
        and l: "list_all2 (\<lambda>kv kt. fst kv = VStr (fst kt) \<and> unfold_value h n (snd kv) = Some (snd kt)) kvs kts"
        by (auto simp: unfold_members_Some_iff)
      have mem: "(\<exists>s. fst kv = VStr s) \<and> (\<exists>t'. unfold_value h n (snd kv) = Some t' \<and> profile_ok t' \<and> size t' < size t)"
        if kv: "kv \<in> set kvs" for kv
      proof -
        obtain kt where kt: "kt \<in> set kts" "fst kv = VStr (fst kt)" "unfold_value h n (snd kv) = Some (snd kt)"
          using list_all2_mem [OF l kv] by blast
        moreover have "profile_ok (snd kt)" using Suc.prems(2) t kt(1) by (cases kt) auto
        ultimately show ?thesis using tree_member_size [OF kt(1)] t by blast
      qed
      then obtain es where es: "member_pushes 0 kvs d path = Inr es" using member_pushes_ok by blast
      have "prevalidate_loop h (insert a opened) [w] = Inr (insert a opened)" if w: "w \<in> set es" for w
      proof -
        obtain kv p where "kv \<in> set kvs" "w = PValue (snd kv) (Suc d) p"
          using member_pushes_mem [OF es] w by blast
        with mem [of kv] child show ?thesis by blast
      qed
      from all [OF this] show ?thesis using v ODict d a es
        by (simp add: prevalidate_loop.simps open_profile_container_def)
    qed
  qed
qed

lemma profile_visit_sound:
  "prevalidate_loop h s [PValue v d path] = Inr s' \<Longrightarrow> Suc MAX_DEPTH - d = n \<Longrightarrow>
   \<exists>t. unfold_value h n v = Some t \<and> profile_ok t"
proof (induction n arbitrary: v d s s' path)
  case 0
  have "\<exists>t. scalar_tree v = Some t \<and> profile_ok t"
    using 0 by (cases v) (auto simp: prevalidate_loop.simps open_profile_container_def split: if_splits)
  then show ?case by (cases v) auto
next
  case (Suc n)
  show ?case
  proof (cases "\<exists>a. v = VRef a")
    case False
    then have "\<exists>t. scalar_tree v = Some t \<and> profile_ok t"
      using Suc.prems(1) by (cases v) (auto simp: prevalidate_loop.simps split: if_splits)
    with False show ?thesis by (cases v) auto
  next
    case True
    then obtain a where v: "v = VRef a" by blast
    have n: "Suc MAX_DEPTH - Suc d = n" using Suc.prems(2) by simp
    have child: "\<exists>t. unfold_value h n x = Some t \<and> profile_ok t"
      if "PValue x (Suc d) p \<in> set es" "prevalidate_loop h s1 (rev es @ ws) = Inr s2" for x es s1 s2 p ws
    proof -
      have "PValue x (Suc d) p \<in> set (rev es @ ws)" using that(1) by simp
      from profile_walk.run_member [OF that(2) this] Suc.IH [OF _ n] show ?thesis by blast
    qed
    show ?thesis
    proof (cases "h a")
      case (OList vs)
      with Suc.prems(1) v have run: "prevalidate_loop h (insert a s) (rev (item_pushes 0 vs d path) @ [PClose a]) = Inr s'"
        by (auto simp: prevalidate_loop.simps open_profile_container_def split: if_splits)
      then have "\<forall>x \<in> set vs. \<exists>t. unfold_value h n x = Some t \<and> profile_ok t"
        using child [OF _ run] item_pushes_all by blast
      then obtain f where f: "\<forall>x \<in> set vs. unfold_value h n x = Some (f x) \<and> profile_ok (f x)" by metis
      then have "unfold_items (unfold_value h n) vs = Some (map f vs)"
        by (simp add: unfold_items_Some_iff list_all2_conv_all_nth)
      with f v OList show ?thesis by simp
    next
      case (ODict kvs)
      with Suc.prems(1) v obtain es where es: "member_pushes 0 kvs d path = Inr es"
        and run: "prevalidate_loop h (insert a s) (rev es @ [PClose a]) = Inr s'"
        by (auto simp: prevalidate_loop.simps open_profile_container_def rbind_def split: if_splits sum.splits)
      then have "\<forall>kv \<in> set kvs. \<exists>k t. fst kv = VStr k \<and> unfold_value h n (snd kv) = Some t \<and> profile_ok t"
        using member_pushes_mem [OF es] child [OF _ run] by blast
      then obtain f g where f: "\<forall>kv \<in> set kvs. fst kv = VStr (f kv) \<and> unfold_value h n (snd kv) = Some (g kv) \<and> profile_ok (g kv)"
        by metis
      then have "unfold_members (unfold_value h n) kvs = Some (map (\<lambda>kv. (f kv, g kv)) kvs)"
        by (simp add: unfold_members_Some_iff list_all2_conv_all_nth)
      with f v ODict show ?thesis by auto
    qed
  qed
qed

lemma prevalidate_char:
  "prevalidate h v = Inr () \<longleftrightarrow> (\<exists>t. unfold_value h MAX_DEPTH v = Some t \<and> profile_ok t)"
proof
  assume "prevalidate h v = Inr ()"
  then obtain s where "prevalidate_loop h {} [PValue v 1 []] = Inr s" by (auto simp: prevalidate_def rbind_Inr_iff)
  from profile_visit_sound [OF this, of MAX_DEPTH] show "\<exists>t. unfold_value h MAX_DEPTH v = Some t \<and> profile_ok t" by simp
next
  assume "\<exists>t. unfold_value h MAX_DEPTH v = Some t \<and> profile_ok t"
  then show "prevalidate h v = Inr ()"
    using profile_visit_ok [of h MAX_DEPTH v _ 1 "{}" "[]"] by (auto simp: prevalidate_def open_ok_def)
qed

lemma profile_ok_ints: "profile_ok t \<Longrightarrow> ints_safe t"
  by (induction t) fastforce+

lemma profile_bytes_Inr:
  "profile_bytes c h v = Inr b \<longleftrightarrow>
   prevalidate h v = Inr () \<and> (\<exists>s. canonicalize h v = Inr s \<and> b = utf8 s) \<and> length b \<le> max_canonical_spec_bytes c"
  by (auto simp: profile_bytes_def rbind_Inr_iff Let_def split: sum.splits if_splits)

interpretation profile: canonical_encoder "profile_bytes c" for c
  by unfold_locales (auto simp: profile_bytes_Inr)

lemma reject_duplicates_char: "repeated_key seen pairs \<longleftrightarrow> \<not> (distinct (map fst pairs) \<and> fst ` set pairs \<inter> seen = {})"
  by (induction seen pairs rule: repeated_key.induct) auto

lemma load_contract_tags:
  assumes "load_contract raw = Inr c"
  shows "ends_with (config_tag c) (U ''.config.v1'')" "ends_with (spec_tag c) (U ''.spec.v1'')"
    "config_tag c \<noteq> spec_tag c"
proof -
  obtain tags where t: "domain_tag_pair tags = Inr (config_tag c, spec_tag c)"
    using assms by (auto simp: load_contract_def rbind_Inr_iff)
  then obtain ts where "filter (\<lambda>tag. ends_with tag (U ''.config.v1'')) ts = [config_tag c]"
    "filter (\<lambda>tag. ends_with tag (U ''.spec.v1'')) ts = [spec_tag c]"
    by (auto simp: domain_tag_pair_def Let_def split: json.splits list.splits if_splits)
  then show e: "ends_with (config_tag c) (U ''.config.v1'')" "ends_with (spec_tag c) (U ''.spec.v1'')"
    by (metis filter_eq_ConsD)+
  show "config_tag c \<noteq> spec_tag c"
  proof
    assume "config_tag c = spec_tag c"
    with e have "drop (length (spec_tag c) - 10) (spec_tag c) = U ''.config.v1''"
      "drop (length (spec_tag c) - 8) (spec_tag c) = U ''.spec.v1''" "10 \<le> length (spec_tag c)"
      by (simp_all add: ends_with_def eval_nat_numeral)
    moreover from this(3) have "length (spec_tag c) - 8 = 2 + (length (spec_tag c) - 10)" by simp
    ultimately have "drop 2 (U ''.config.v1'') = U ''.spec.v1''" by (metis drop_drop)
    then show False by (simp add: U_def)
  qed
qed

section \<open>The theorems\<close>


text \<open>
  After a value passed prevalidation, canonicalization can fail only for a non-finite float
  or a lone surrogate: depth, cycles, key types, value types and integer range are all decided
  before.
\<close>

theorem fp2_after_prevalidation:
  assumes "prevalidate h v = Inr ()" "canonicalize h v = Inl e"
  shows "e = NonFiniteNumber \<or> (\<exists>i. e = LoneSurrogate i)"
proof -
  obtain t where t: "unfold_value h MAX_DEPTH v = Some t" "profile_ok t"
    using assms(1) by (auto simp: prevalidate_char)
  from canonicalize_tree_error [OF t(1) profile_ok_ints [OF t(2)] assms(2)] show ?thesis
    by (simp add: value_error_def)
qed

lemma domain_digest_message:
  "domain_digest H c h v tag = Inr x \<longleftrightarrow>
   (\<exists>b. profile_bytes c h v = Inr b \<and> x = U ''sha256:'' @ hexdigest (H (utf8 tag @ 0 # b)))"
  by (auto simp: domain_digest_def rbind_Inr_iff)

text \<open>
  Two domain digests are equal exactly if tag and canonical value agree, or SHA-256 collides
  on the two framed byte strings.
\<close>

theorem domain_digest_identifies:
  assumes x: "domain_digest H c h v tag = Inr x" "domain_digest H c h' v' tag' = Inr x'"
    and b: "profile_bytes c h v = Inr b" "profile_bytes c h' v' = Inr b'"
    and t: "unfold_value h MAX_DEPTH v = Some t" "unfold_value h' MAX_DEPTH v' = Some t'" "wf_tree t" "wf_tree t'"
    and tags: "tag_ok tag" "tag_ok tag'"
  shows "x = x' \<longleftrightarrow> tag = tag' \<and> norm t = norm t' \<or>
    utf8 tag @ 0 # b \<noteq> utf8 tag' @ 0 # b' \<and> H (utf8 tag @ 0 # b) = H (utf8 tag' @ 0 # b')"
proof -
  have "x = x' \<longleftrightarrow> H (utf8 tag @ 0 # b) = H (utf8 tag' @ 0 # b')"
    using x b by (auto simp: domain_digest_message)
  moreover have "utf8 tag @ 0 # b = utf8 tag' @ 0 # b' \<longleftrightarrow> tag = tag' \<and> norm t = norm t'"
    using profile.framed_bytes_eq_iff [OF b t tags] .
  ultimately show ?thesis by auto
qed

text \<open>
  A config digest equal to a spec digest exhibits two different framed byte strings with one
  SHA-256, whatever the values are: the two roles never share a message.
\<close>

theorem roles_separate:
  assumes c: "load_contract raw = Inr c" "tag_ok (config_tag c)" "tag_ok (spec_tag c)"
    and x: "config_digest H c h v = Inr x" "spec_digest H c h' v' = Inr x"
  shows "\<exists>b b'. profile_bytes c h v = Inr b \<and> profile_bytes c h' v' = Inr b' \<and>
    utf8 (config_tag c) @ 0 # b \<noteq> utf8 (spec_tag c) @ 0 # b' \<and>
    H (utf8 (config_tag c) @ 0 # b) = H (utf8 (spec_tag c) @ 0 # b')"
proof -
  obtain b b' where b: "profile_bytes c h v = Inr b" "profile_bytes c h' v' = Inr b'"
    "H (utf8 (config_tag c) @ 0 # b) = H (utf8 (spec_tag c) @ 0 # b')"
    using x by (auto simp: config_digest_def spec_digest_def domain_digest_message)
  moreover have "utf8 (config_tag c) @ 0 # b \<noteq> utf8 (spec_tag c) @ 0 # b'"
    using frame_inject [OF c(2,3)] load_contract_tags(3) [OF c(1)] by metis
  ultimately show ?thesis by blast
qed

text \<open>
  The profile returns bytes exactly for the trees both prevalidation and fp2 accept whose
  canonical text has at most max_canonical_spec_bytes bytes; the bytes are that text.
\<close>

theorem canonical_bytes_bounded:
  "profile_bytes c h v = Inr b \<longleftrightarrow>
   (\<exists>t. unfold_value h MAX_DEPTH v = Some t \<and> profile_ok t \<and> fp2_ok t \<and> b = utf8 (canon t)
      \<and> length b \<le> max_canonical_spec_bytes c)"
proof -
  have "(\<exists>t. unfold_value h MAX_DEPTH v = Some t \<and> profile_ok t) \<and>
      (\<exists>s. (\<exists>t. unfold_value h MAX_DEPTH v = Some t \<and> fp2_ok t \<and> s = canon t) \<and> b = utf8 s) \<longleftrightarrow>
    (\<exists>t. unfold_value h MAX_DEPTH v = Some t \<and> profile_ok t \<and> fp2_ok t \<and> b = utf8 (canon t))"
    by auto
  then show ?thesis by (auto simp: profile_bytes_Inr prevalidate_char canonicalize_char)
qed

lemma safe_digit_count: "SAFE_INTEGER_DIGIT_COUNT = 16"
  by (simp add: SAFE_INTEGER_DIGIT_COUNT_def MAX_SAFE_INTEGER_def nat_digits.simps)

lemma digit_text_head: "\<exists>c cs. digit_chars (nat_digits n) = c # cs \<and> 48 \<le> c"
  by (cases "nat_digits n") (auto simp: digit_chars_def)

lemma int_of_text_int_text: "int_of_text (int_text i) = i"
proof (cases "i < 0")
  case True
  then show ?thesis by (simp add: int_text_def int_of_text_def)
next
  case False
  obtain c cs where "digit_chars (nat_digits (nat i)) = c # cs" "48 \<le> c" using digit_text_head by blast
  with False show ?thesis
    using digits_value_chars [of "nat_digits (nat i)"] by (simp add: int_text_def int_of_text_def)
qed

text \<open>
  The digit-count precheck of the integer parser never changes a verdict: on the decimal
  text of any integer the parser returns it if it is safe and rejects it otherwise.
\<close>

theorem parse_int_exact:
  "parse_int_rejecting_unsafe_magnitude (int_text i) =
   (if \<bar>i\<bar> \<le> int MAX_SAFE_INTEGER then Inr i else Inl (UnsafeIntegral []))"
proof -
  let ?ds = "digit_chars (nat_digits (nat \<bar>i\<bar>))"
  have digits: "(if take 1 (int_text i) = U ''-'' then drop 1 (int_text i) else int_text i) = ?ds"
    using digit_text_head [of "nat i"] by (auto simp: int_text_def U_def)
  have "length ?ds \<le> 16" if "\<bar>i\<bar> \<le> int MAX_SAFE_INTEGER"
    using length_digits_safe [OF that] by (simp add: digit_chars_def)
  then show ?thesis
    unfolding parse_int_rejecting_unsafe_magnitude_def digits safe_digit_count Let_def int_of_text_int_text
    by auto
qed

theorem contract_fails_closed:
  assumes "checked_contract raw = Inr c"
  shows "max_depth c = MAX_DEPTH \<and> 0 < max_canonical_spec_bytes c \<and> config_tag c \<noteq> spec_tag c"
proof -
  have c: "load_contract raw = Inr c" "max_depth c = MAX_DEPTH"
    using assms by (auto simp: checked_contract_def rbind_Inr_iff split: if_splits)
  have "0 < max_canonical_spec_bytes c"
  proof -
    obtain b d where "is_positive_int b" "max_canonical_spec_bytes c = json_nat b"
      using c(1) by (auto simp: load_contract_def rbind_Inr_iff)
    then show ?thesis by (cases b) (auto simp: is_positive_int_def json_nat_def)
  qed
  with c load_contract_tags(3) [OF c(1)] show ?thesis by simp
qed

theorem duplicate_keys_rejected:
  "reject_duplicate_object_keys pairs = Inr pairs' \<longleftrightarrow> distinct (map fst pairs) \<and> pairs' = pairs"
  by (auto simp: reject_duplicate_object_keys_def reject_duplicates_char)


section \<open>Concrete inputs\<close>

text \<open>The members of the packaged contract that the module reads.\<close>

definition packaged_contract :: json where
  "packaged_contract =
     JObj [(U ''definitions'', JObj
       [(U ''domain_tag'', JObj [(U ''enum'',
            JArr [JStr (U ''traigent.best_config.config.v1''), JStr (U ''traigent.best_config.spec.v1'')])]),
        (U ''canonicalization'', JObj [(U ''properties'', JObj
          [(U ''max_depth'', JObj [(U ''const'', JInt 100)]),
           (U ''max_canonical_spec_bytes'', JObj [(U ''const'', JInt 262144)])])])])]"

definition packaged :: contract where
  "packaged = \<lparr>max_canonical_spec_bytes = 262144, max_depth = 100,
     config_tag = U ''traigent.best_config.config.v1'', spec_tag = U ''traigent.best_config.spec.v1''\<rparr>"

lemma packaged_loads: "load_contract packaged_contract = Inr packaged"
proof -
  have "read_contract_constants packaged_contract = Inr (JInt 262144, JInt 100,
      JArr [JStr (U ''traigent.best_config.config.v1''), JStr (U ''traigent.best_config.spec.v1'')])"
    by (simp add: read_contract_constants_def packaged_contract_def)
  moreover have "domain_tag_pair (JArr [JStr (U ''traigent.best_config.config.v1''), JStr (U ''traigent.best_config.spec.v1'')]) =
      Inr (U ''traigent.best_config.config.v1'', U ''traigent.best_config.spec.v1'')"
    by (simp add: domain_tag_pair_def string_of_json_def ends_with_def U_def)
  ultimately show ?thesis by (simp add: load_contract_def is_positive_int_def json_nat_def packaged_def)
qed

definition zero_bytes :: "byte list \<Rightarrow> byte list" where
  "zero_bytes b = replicate 32 0"

lemma packaged_tags: "tag_ok (config_tag packaged)" "tag_ok (spec_tag packaged)"
  by (simp_all add: packaged_def tag_ok_def U_def)

lemma int_profile_bytes: "profile_bytes packaged h (VInt 7) = Inr (utf8 (int_text 7))"
proof -
  have "unfold_value h MAX_DEPTH (VInt 7) = Some (JInt 7)" by (cases MAX_DEPTH) auto
  moreover have "int_text 7 = [55]" by (simp add: int_text_def digit_chars_def nat_digits.simps)
  ultimately show ?thesis
    by (auto simp: profile_bytes_Inr prevalidate_char canonicalize_char MAX_SAFE_INTEGER_def packaged_def utf8_def utf8_cp_def)
qed

lemma fp2_after_prevalidation_witness:
  "\<exists>e. canonicalize (\<lambda>_. OList []) (VFloat FNaN) = Inl e \<and> (e = NonFiniteNumber \<or> (\<exists>i. e = LoneSurrogate i))"
proof -
  have p: "prevalidate (\<lambda>_. OList []) (VFloat FNaN) = Inr ()" by (simp add: prevalidate_def prevalidate_loop.simps(2))
  have "canonicalize (\<lambda>_. OList []) (VFloat FNaN) = Inl NonFiniteNumber"
    by (simp add: canonicalize_def encode_def encode_loop.simps(2) encode_float_def)
  with fp2_after_prevalidation [OF p this] show ?thesis by blast
qed


lemma domain_digest_identifies_witness:
  "domain_digest (\<lambda>b. b) packaged (\<lambda>_. OList []) (VInt 7) (config_tag packaged) \<noteq>
   domain_digest (\<lambda>b. b) packaged (\<lambda>_. OList []) (VInt 7) (spec_tag packaged)"
proof -
  let ?b = "utf8 (int_text 7)"
  have x: "domain_digest (\<lambda>b. b) packaged (\<lambda>_. OList []) (VInt 7) tag =
      Inr (U ''sha256:'' @ hexdigest (utf8 tag @ 0 # ?b))" for tag
    by (simp add: domain_digest_def int_profile_bytes)
  have t: "unfold_value (\<lambda>_. OList []) MAX_DEPTH (VInt 7) = Some (JInt 7)" by (cases MAX_DEPTH) auto
  have "config_tag packaged \<noteq> spec_tag packaged" by (simp add: packaged_def)
  with domain_digest_identifies [OF x x int_profile_bytes int_profile_bytes t t _ _ packaged_tags] x show ?thesis by simp
qed

lemma roles_separate_witness:
  "\<exists>b b'. utf8 (config_tag packaged) @ 0 # b \<noteq> utf8 (spec_tag packaged) @ 0 # b' \<and>
     zero_bytes (utf8 (config_tag packaged) @ 0 # b) = zero_bytes (utf8 (spec_tag packaged) @ 0 # b')"
proof -
  have x: "config_digest zero_bytes packaged (\<lambda>_. OList []) (VInt 7) = Inr (U ''sha256:'' @ hexdigest (replicate 32 0))"
    "spec_digest zero_bytes packaged (\<lambda>_. OList []) (VInt 7) = Inr (U ''sha256:'' @ hexdigest (replicate 32 0))"
    by (simp_all add: config_digest_def spec_digest_def domain_digest_def int_profile_bytes zero_bytes_def)
  from roles_separate [OF packaged_loads packaged_tags x] show ?thesis by blast
qed

lemma contract_fails_closed_witness:
  "max_depth packaged = MAX_DEPTH \<and> 0 < max_canonical_spec_bytes packaged \<and> config_tag packaged \<noteq> spec_tag packaged"
  by (rule contract_fails_closed [of packaged_contract])
    (simp add: checked_contract_def packaged_loads packaged_def MAX_DEPTH_def)

end
