(* ===== verification/StrictJson.thy ===== *)
theory StrictJson
  imports BestConfig Identity
begin

text \<open>
  The strict JSON readers: \<open>json.loads\<close> with the hooks of the best-config profile, of content
  identity and of the prohibited-claims register, and the register's load-time verification
  (\<open>certification/prohibited_register.py\<close>). A well-formed text is given by its syntax tree with
  the number literals unread; the scanner that rejects malformed text is not modelled. The JSON
  Schema validator is the parameter \<open>violations\<close>, the number of errors it yields, \<open>None\<close> when it
  raises. Documents nest less deeply than the interpreter's recursion limit.
\<close>

section \<open>json.loads with hooks\<close>

text \<open>Sign, integer digits, fraction digits and exponent of a literal with a fraction or exponent.\<close>

record number_literal =
  nl_neg :: bool
  nl_int :: "nat list"
  nl_frac :: "nat list"
  nl_exp :: int

datatype rawjson =
    RNull
  | RBool bool
  | RInt ustr
  | RFloat number_literal
  | RConst string \<comment> \<open>\<open>NaN\<close>, \<open>Infinity\<close>, \<open>-Infinity\<close>\<close>
  | RStr ustr
  | RArr "rawjson list"
  | RObj "(ustr \<times> rawjson) list"

record 'e hooks =
  on_int :: "ustr \<Rightarrow> 'e + int"
  on_float :: "number_literal \<Rightarrow> 'e + pyfloat"
  on_const :: "string \<Rightarrow> 'e + pyfloat"
  on_pairs :: "(ustr \<times> json) list \<Rightarrow> 'e + (ustr \<times> json) list"

fun loads :: "'e hooks \<Rightarrow> rawjson \<Rightarrow> 'e + json" where
  "loads k RNull = Inr JNull"
| "loads k (RBool b) = Inr (JBool b)"
| "loads k (RInt literal) = rbind (on_int k literal) (\<lambda>i. Inr (JInt i))"
| "loads k (RFloat literal) = rbind (on_float k literal) (\<lambda>f. Inr (JFloat f))"
| "loads k (RConst name) = rbind (on_const k name) (\<lambda>f. Inr (JFloat f))"
| "loads k (RStr s) = Inr (JStr s)"
| "loads k (RArr rs) = rbind (traverse (loads k) rs) (\<lambda>ts. Inr (JArr ts))"
| "loads k (RObj members) =
     rbind (traverse (\<lambda>m. rbind (loads k (snd m)) (\<lambda>t. Inr (fst m, t))) members) (\<lambda>pairs.
     rbind (on_pairs k pairs) (\<lambda>kts. Inr (JObj kts)))"

text \<open>
  \<open>float(literal)\<close> is the parameter \<open>to_float\<close>; a constant's float is \<open>nan\<close> or an infinity. The
  default object hook keeps the last value of a repeated key at the place of the first.
\<close>

definition const_float :: "string \<Rightarrow> pyfloat" where
  "const_float name = (if name = ''NaN'' then FNaN else FInf (name = ''-Infinity''))"

text \<open>\<open>json.loads\<close> without hooks: \<open>int\<close> refuses a literal longer than the interpreter's limit.\<close>

definition INT_MAX_STR_DIGITS :: nat where
  "INT_MAX_STR_DIGITS = 4300"

definition int_too_long :: "ustr \<Rightarrow> bool" where
  "int_too_long literal \<longleftrightarrow>
     INT_MAX_STR_DIGITS < length (if take 1 literal = U ''-'' then drop 1 literal else literal)"

definition dict_of_pairs :: "(ustr \<times> json) list \<Rightarrow> (ustr \<times> json) list" where
  "dict_of_pairs pairs = foldl (\<lambda>d (key, value). AList.update key value d) [] pairs"

definition plain_hooks :: "(number_literal \<Rightarrow> pyfloat) \<Rightarrow> unit hooks" where
  "plain_hooks to_float =
     \<lparr>on_int = (\<lambda>l. if int_too_long l then Inl () else Inr (int_of_text l)),
      on_float = (\<lambda>l. Inr (to_float l)),
      on_const = (\<lambda>name. Inr (const_float name)),
      on_pairs = (\<lambda>pairs. Inr (dict_of_pairs pairs))\<rparr>"

section \<open>The three profiles\<close>

definition best_config_hooks :: "(number_literal \<Rightarrow> pyfloat) \<Rightarrow> profile_error hooks" where
  "best_config_hooks to_float =
     \<lparr>on_int = parse_int_rejecting_unsafe_magnitude,
      on_float = parse_float_rejecting_overflow to_float,
      on_const = (\<lambda>name. Inl MalformedJson),
      on_pairs = reject_duplicate_object_keys\<rparr>"

definition loads_strict :: "(number_literal \<Rightarrow> pyfloat) \<Rightarrow> rawjson \<Rightarrow> profile_error + json" where
  "loads_strict to_float doc = loads (best_config_hooks to_float) doc"

datatype strict_error =
    NonFiniteLiteral
  | DuplicateKey
  | IntegerLiteral
  | NumberLiteral
  | InvalidText

text \<open>\<open>Decimal(text).copy_abs() > 2**53-1\<close>, exactly: the digits scaled by the exponent.\<close>

definition decimal_gt :: "number_literal \<Rightarrow> nat \<Rightarrow> bool" where
  "decimal_gt l m =
     (let digits = digits_nat (nl_int l @ nl_frac l);
          e = nl_exp l - int (length (nl_frac l))
      in if 0 \<le> e then m < digits * 10 ^ nat e else m * 10 ^ nat (- e) < digits)"

definition parse_int_strict :: "ustr \<Rightarrow> strict_error + int" where
  "parse_int_strict literal =
     (if int_too_long literal then Inl InvalidText
      else let value = int_of_text literal
           in if int MAX_SAFE_INTEGER < \<bar>value\<bar> then Inl IntegerLiteral else Inr value)"

definition parse_float_strict :: "(number_literal \<Rightarrow> pyfloat) \<Rightarrow> number_literal \<Rightarrow> strict_error + pyfloat" where
  "parse_float_strict to_float l =
     (if decimal_gt l MAX_SAFE_INTEGER then Inl NumberLiteral else Inr (to_float l))"

fun pairs_without_duplicates :: "(ustr \<times> json) list \<Rightarrow> (ustr \<times> json) list \<Rightarrow> strict_error + (ustr \<times> json) list" where
  "pairs_without_duplicates result [] = Inr result"
| "pairs_without_duplicates result ((key, value) # pairs) =
     (if key \<in> fst ` set result then Inl DuplicateKey
      else pairs_without_duplicates (result @ [(key, value)]) pairs)"

definition content_identity_hooks :: "(number_literal \<Rightarrow> pyfloat) \<Rightarrow> strict_error hooks" where
  "content_identity_hooks to_float =
     \<lparr>on_int = parse_int_strict, on_float = parse_float_strict to_float,
      on_const = (\<lambda>name. Inl NonFiniteLiteral), on_pairs = pairs_without_duplicates []\<rparr>"

definition parse_strict_json :: "(number_literal \<Rightarrow> pyfloat) \<Rightarrow> rawjson \<Rightarrow> strict_error + json" where
  "parse_strict_json to_float doc = loads (content_identity_hooks to_float) doc"

definition register_hooks :: "(number_literal \<Rightarrow> pyfloat) \<Rightarrow> strict_error hooks" where
  "register_hooks to_float =
     \<lparr>on_int = (\<lambda>l. if int_too_long l then Inl InvalidText else Inr (int_of_text l)),
      on_float = (\<lambda>l. Inr (to_float l)),
      on_const = (\<lambda>name. Inr (const_float name)), on_pairs = pairs_without_duplicates []\<rparr>"

section \<open>The prohibited-claims register\<close>

text \<open>Every failure is the one content-free error, \<open>None\<close>.\<close>

definition strict_json_loads :: "(number_literal \<Rightarrow> pyfloat) \<Rightarrow> rawjson \<Rightarrow> json option" where
  "strict_json_loads to_float doc =
     (case loads (register_hooks to_float) doc of Inl e \<Rightarrow> None | Inr t \<Rightarrow> Some t)"

fun json_depth :: "json \<Rightarrow> nat" where
  "json_depth (JArr ts) = Suc (Max (insert 0 (json_depth ` set ts)))"
| "json_depth (JObj kts) = Suc (Max (insert 0 ((\<lambda>kt. json_depth (snd kt)) ` set kts)))"
| "json_depth t = 0"

text \<open>fp2's canonical text of a document just parsed, which shares no object and has no cycle.\<close>

definition canonical_text :: "json \<Rightarrow> ustr option" where
  "canonical_text t = (if json_depth t \<le> MAX_DEPTH \<and> fp2_ok t then Some (canon t) else None)"

definition plain_digest :: "(byte list \<Rightarrow> byte list) \<Rightarrow> json \<Rightarrow> ustr option" where
  "plain_digest H document =
     map_option (\<lambda>text. U ''sha256:'' @ hexdigest (H (utf8 text))) (canonical_text document)"

definition verify_baseline ::
  "(byte list \<Rightarrow> byte list) \<Rightarrow> (json \<Rightarrow> json \<Rightarrow> nat option) \<Rightarrow> json \<Rightarrow> json \<Rightarrow> ustr \<Rightarrow> ustr option" where
  "verify_baseline H violations document schema pinned_digest =
     (if violations schema document \<noteq> Some 0 then None
      else case plain_digest H document of
        None \<Rightarrow> None
      | Some computed \<Rightarrow> if computed \<noteq> pinned_digest then None else Some computed)"

text \<open>A file that cannot be read is \<open>None\<close>.\<close>

definition load_json :: "(number_literal \<Rightarrow> pyfloat) \<Rightarrow> rawjson option \<Rightarrow> json option" where
  "load_json to_float file = Option.bind file (strict_json_loads to_float)"

definition load_and_verify ::
  "(byte list \<Rightarrow> byte list) \<Rightarrow> (json \<Rightarrow> json \<Rightarrow> nat option) \<Rightarrow> (number_literal \<Rightarrow> pyfloat)
   \<Rightarrow> rawjson option \<Rightarrow> rawjson option \<Rightarrow> rawjson option \<Rightarrow> (json \<times> ustr \<times> ustr) option" where
  "load_and_verify H violations to_float document_file pin_file schema_file =
     Option.bind (load_json to_float document_file) (\<lambda>document.
     Option.bind (load_json to_float pin_file) (\<lambda>pin.
     Option.bind (json_get pin ''digest'') (\<lambda>pinned.
     Option.bind (string_of_json pinned) (\<lambda>pinned_digest.
     Option.bind (load_json to_float schema_file) (\<lambda>schema.
     Option.bind (verify_baseline H violations document schema pinned_digest) (\<lambda>computed.
       Some (document, computed, pinned_digest)))))))"

section \<open>Facts\<close>

lemma without_duplicates_char:
  "pairs_without_duplicates result pairs = Inr kts \<longleftrightarrow>
   distinct (map fst pairs) \<and> fst ` set pairs \<inter> fst ` set result = {} \<and> kts = result @ pairs"
proof (induction result pairs rule: pairs_without_duplicates.induct)
  case (2 result key v pairs)
  then show ?case by (cases "key \<in> fst ` set result") auto
qed auto

text \<open>A document read strictly: what the reader accepts and the tree it returns.\<close>

fun raw_keys_unique :: "rawjson \<Rightarrow> bool" where
  "raw_keys_unique (RArr rs) = (\<forall>r \<in> set rs. raw_keys_unique r)"
| "raw_keys_unique (RObj ms) = (distinct (map fst ms) \<and> (\<forall>m \<in> set ms. raw_keys_unique (snd m)))"
| "raw_keys_unique r = True"

fun raw_scalars :: "rawjson \<Rightarrow> rawjson list" where
  "raw_scalars (RArr rs) = concat (map raw_scalars rs)"
| "raw_scalars (RObj ms) = concat (map (\<lambda>m. raw_scalars (snd m)) ms)"
| "raw_scalars r = [r]"

lemma loads_accepts:
  assumes pairs: "\<And>ps kts. on_pairs k ps = Inr kts \<longleftrightarrow> distinct (map fst ps) \<and> kts = ps"
  shows "(\<exists>t. loads k r = Inr t) \<longleftrightarrow>
    raw_keys_unique r \<and> (\<forall>x \<in> set (raw_scalars r). \<exists>t. loads k x = Inr t)"
proof (induction r rule: raw_scalars.induct)
  case (1 rs)
  have "(\<exists>ts. traverse (loads k) rs = Inr ts) \<longleftrightarrow> (\<forall>r \<in> set rs. \<exists>t. loads k r = Inr t)"
    by (induction rs) (auto simp: rbind_Inr_iff)
  with 1 show ?case by (auto simp: rbind_Inr_iff)
next
  case (2 ms)
  let ?f = "\<lambda>m. rbind (loads k (snd m)) (\<lambda>t. Inr (fst m, t))"
  have all: "(\<exists>ps. traverse ?f ms = Inr ps) \<longleftrightarrow> (\<forall>m \<in> set ms. \<exists>t. loads k (snd m) = Inr t)"
    by (induction ms) (auto simp: rbind_Inr_iff)
  have keys: "traverse ?f ms = Inr ps \<Longrightarrow> map fst ps = map fst ms" for ps
    by (induction ms arbitrary: ps) (auto simp: rbind_Inr_iff)
  have "(\<exists>t. loads k (RObj ms) = Inr t) \<longleftrightarrow> distinct (map fst ms) \<and> (\<exists>ps. traverse ?f ms = Inr ps)"
    using keys by (fastforce simp: rbind_Inr_iff pairs)
  with all 2 show ?case by auto
qed simp_all

lemma update_fresh: "key \<notin> fst ` set d \<Longrightarrow> AList.update key v d = d @ [(key, v)]"
  by (induction d) auto

lemma dict_of_distinct_pairs:
  assumes "distinct (map fst ps)"
  shows "dict_of_pairs ps = ps"
proof -
  have "foldl (\<lambda>d (key, value). AList.update key value d) acc ps = acc @ ps"
    if "distinct (map fst (acc @ ps))" for acc
    using that
  proof (induction ps arbitrary: acc)
    case (Cons p ps)
    have "AList.update (fst p) (snd p) acc = acc @ [p]"
      using Cons.prems by (cases p) (simp add: update_fresh)
    with Cons.IH [of "acc @ [p]"] Cons.prems show ?case by (simp add: case_prod_beta)
  qed simp
  from this [of "[]"] assms show ?thesis by (simp add: dict_of_pairs_def)
qed

text \<open>The contract of a strict reader's hooks, and what every strict reader returns.\<close>

locale strict_reader =
  fixes k :: "'e hooks" and to_float :: "number_literal \<Rightarrow> pyfloat"
  assumes pairs: "on_pairs k ps = Inr kts \<longleftrightarrow> distinct (map fst ps) \<and> kts = ps"
    and ints: "on_int k l = Inr i \<Longrightarrow> \<not> int_too_long l \<and> i = int_of_text l"
    and floats: "on_float k n = Inr f \<Longrightarrow> f = to_float n"
    and constants: "on_const k c = Inr f \<Longrightarrow> f = const_float c"
begin

lemma accepts: "(\<exists>t. loads k r = Inr t) \<longleftrightarrow> raw_keys_unique r \<and> (\<forall>x \<in> set (raw_scalars r). \<exists>t. loads k x = Inr t)"
  by (rule loads_accepts) (rule pairs)

lemma reads_plain: "loads k r = Inr t \<Longrightarrow> loads (plain_hooks to_float) r = Inr t"
proof (induction r arbitrary: t)
  case (RArr rs)
  then obtain ts where ts: "traverse (loads k) rs = Inr ts" "t = JArr ts" by (auto simp: rbind_Inr_iff)
  from ts(1) RArr.IH have "traverse (loads (plain_hooks to_float)) rs = Inr ts"
    by (auto simp: traverse_Inr_iff list_all2_conv_all_nth)
  with ts show ?case by simp
next
  case (RObj ms)
  let ?f = "\<lambda>k m. rbind (loads k (snd m)) (\<lambda>t. Inr (fst m, t))"
  obtain ps where ps: "traverse (\<lambda>m. rbind (loads k (snd m)) (\<lambda>t. Inr (fst m, t))) ms = Inr ps"
    "distinct (map fst ps)" "t = JObj ps"
    using RObj.prems by (auto simp: rbind_Inr_iff pairs)
  have "rbind (loads (plain_hooks to_float) (snd m)) (\<lambda>t. Inr (fst m, t)) = Inr p"
    if "m \<in> set ms" "rbind (loads k (snd m)) (\<lambda>t. Inr (fst m, t)) = Inr p" for m p
    using that RObj.IH [of m "snd m"] by (cases m) (auto simp: rbind_Inr_iff snds.simps)
  with ps(1) have "traverse (\<lambda>m. rbind (loads (plain_hooks to_float) (snd m)) (\<lambda>t. Inr (fst m, t))) ms = Inr ps"
    by (auto simp: traverse_Inr_iff list_all2_conv_all_nth)
  with ps dict_of_distinct_pairs [OF ps(2)] show ?case by (simp add: plain_hooks_def)
qed (auto simp: rbind_Inr_iff plain_hooks_def dest: ints floats constants)

lemma reads_iff:
  "loads k r = Inr t \<longleftrightarrow> raw_keys_unique r \<and> (\<forall>x \<in> set (raw_scalars r). \<exists>t. loads k x = Inr t) \<and>
   loads (plain_hooks to_float) r = Inr t"
  using accepts reads_plain by (metis sum.inject(2))

end

interpretation best_config: strict_reader "best_config_hooks to_float" to_float for to_float
proof unfold_locales
  fix l i
  have "SAFE_INTEGER_DIGIT_COUNT < INT_MAX_STR_DIGITS"
    unfolding safe_digit_count by (simp add: INT_MAX_STR_DIGITS_def)
  then show "on_int (best_config_hooks to_float) l = Inr i \<Longrightarrow> \<not> int_too_long l \<and> i = int_of_text l"
    by (auto simp: best_config_hooks_def parse_int_rejecting_unsafe_magnitude_def int_too_long_def Let_def
        split: if_splits)
qed (auto simp: best_config_hooks_def parse_float_rejecting_overflow_def reject_duplicate_object_keys_def
    reject_duplicates_char Let_def split: if_splits)

interpretation content_identity: strict_reader "content_identity_hooks to_float" to_float for to_float
  by unfold_locales (auto simp: content_identity_hooks_def parse_int_strict_def parse_float_strict_def Let_def
      without_duplicates_char split: if_splits)

interpretation register: strict_reader "register_hooks to_float" to_float for to_float
  by unfold_locales (auto simp: register_hooks_def without_duplicates_char split: if_splits)

text \<open>The literals each profile accepts.\<close>

fun best_config_literal :: "(number_literal \<Rightarrow> pyfloat) \<Rightarrow> rawjson \<Rightarrow> bool" where
  "best_config_literal to_float (RInt l) =
     (\<bar>int_of_text l\<bar> \<le> int MAX_SAFE_INTEGER \<and>
      length (if take 1 l = U ''-'' then drop 1 l else l) \<le> SAFE_INTEGER_DIGIT_COUNT)"
| "best_config_literal to_float (RFloat n) = is_finite_float (to_float n)"
| "best_config_literal to_float (RConst c) = False"
| "best_config_literal to_float r = True"

fun content_identity_literal :: "rawjson \<Rightarrow> bool" where
  "content_identity_literal (RInt l) = (\<not> int_too_long l \<and> \<bar>int_of_text l\<bar> \<le> int MAX_SAFE_INTEGER)"
| "content_identity_literal (RFloat n) = (\<not> decimal_gt n MAX_SAFE_INTEGER)"
| "content_identity_literal (RConst c) = False"
| "content_identity_literal r = True"

fun is_scalar :: "rawjson \<Rightarrow> bool" where
  "is_scalar (RArr rs) = False"
| "is_scalar (RObj ms) = False"
| "is_scalar r = True"

lemma raw_scalars_scalar: "x \<in> set (raw_scalars r) \<Longrightarrow> is_scalar x"
  by (induction r rule: raw_scalars.induct) auto

lemma best_config_accepts:
  "is_scalar x \<Longrightarrow> (\<exists>t. loads (best_config_hooks to_float) x = Inr t) \<longleftrightarrow> best_config_literal to_float x"
  by (cases x) (auto simp: best_config_hooks_def parse_int_rejecting_unsafe_magnitude_def Let_def
      parse_float_rejecting_overflow_def rbind_Inr_iff)

lemma content_identity_accepts:
  "is_scalar x \<Longrightarrow> (\<exists>t. loads (content_identity_hooks to_float) x = Inr t) \<longleftrightarrow> content_identity_literal x"
  by (cases x) (auto simp: content_identity_hooks_def parse_int_strict_def parse_float_strict_def Let_def rbind_Inr_iff)

lemma register_accepts:
  "(\<exists>t. loads (register_hooks to_float) r = Inr t) \<longleftrightarrow>
   raw_keys_unique r \<and> (\<forall>l. RInt l \<in> set (raw_scalars r) \<longrightarrow> \<not> int_too_long l)"
proof -
  have "(\<exists>t. loads (register_hooks to_float) x = Inr t) \<longleftrightarrow> (\<forall>l. x = RInt l \<longrightarrow> \<not> int_too_long l)"
    if "is_scalar x" for x
    using that by (cases x) (auto simp: register_hooks_def)
  from this [OF raw_scalars_scalar] have
    "(\<forall>x \<in> set (raw_scalars r). \<exists>t. loads (register_hooks to_float) x = Inr t) \<longleftrightarrow>
     (\<forall>x \<in> set (raw_scalars r). \<forall>l. x = RInt l \<longrightarrow> \<not> int_too_long l)"
    by (rule ball_cong [OF refl])
  then show ?thesis by (subst register.accepts) auto
qed

section \<open>Depth of a parsed document\<close>

lemma json_depth_le:
  "json_depth (JArr ts) \<le> Suc m \<longleftrightarrow> (\<forall>t \<in> set ts. json_depth t \<le> m)"
  "json_depth (JObj kts) \<le> Suc m \<longleftrightarrow> (\<forall>kt \<in> set kts. json_depth (snd kt) \<le> m)"
  by auto

lemma unfold_value_depth:
  "unfold_value h n v = Some t \<Longrightarrow> unfold_value h m v = Some t \<longleftrightarrow> json_depth t \<le> m"
proof (induction n arbitrary: v t m)
  case 0
  then have "scalar_tree v = Some t" "\<And>a. v \<noteq> VRef a" by (cases v; auto)+
  moreover from this have "json_depth t = 0" by (cases v) auto
  ultimately show ?case by (simp add: unfold_scalar)
next
  case (Suc n)
  show ?case
  proof (cases "\<exists>a. v = VRef a")
    case False
    with Suc.prems have "scalar_tree v = Some t" by (simp add: unfold_scalar)
    moreover from this have "json_depth t = 0" by (cases v) auto
    ultimately show ?thesis using False by (simp add: unfold_scalar)
  next
    case True
    then obtain a where v: "v = VRef a" by blast
    show ?thesis
    proof (cases m)
      case 0
      with v Suc.prems show ?thesis by (auto split: pyobj.splits)
    next
      case m: (Suc m')
      show ?thesis
      proof (cases "h a")
        case (OList vs)
        with Suc.prems v obtain ts where t: "t = JArr ts"
          and l: "list_all2 (\<lambda>x t. unfold_value h n x = Some t) vs ts"
          by (auto simp: unfold_items_Some_iff)
        have "list_all2 (\<lambda>x t. unfold_value h m' x = Some t) vs ts \<longleftrightarrow> (\<forall>t \<in> set ts. json_depth t \<le> m')"
          using l Suc.IH by (auto simp: list_all2_conv_all_nth all_set_conv_all_nth)
        with v m OList t show ?thesis by (auto simp: unfold_items_Some_iff json_depth_le simp del: json_depth.simps)
      next
        case (ODict kvs)
        with Suc.prems v obtain kts where t: "t = JObj kts"
          and l: "list_all2 (\<lambda>kv kt. fst kv = VStr (fst kt) \<and> unfold_value h n (snd kv) = Some (snd kt)) kvs kts"
          by (auto simp: unfold_members_Some_iff)
        have "list_all2 (\<lambda>kv kt. fst kv = VStr (fst kt) \<and> unfold_value h m' (snd kv) = Some (snd kt)) kvs kts \<longleftrightarrow>
            (\<forall>kt \<in> set kts. json_depth (snd kt) \<le> m')"
          using l Suc.IH by (auto simp: list_all2_conv_all_nth all_set_conv_all_nth)
        with v m ODict t show ?thesis by (auto simp: unfold_members_Some_iff json_depth_le simp del: json_depth.simps)
      qed
    qed
  qed
qed

text \<open>\<open>canonical_text\<close> is \<open>fp2.canonicalize\<close> on any object graph that spells the document.\<close>

lemma canonical_text_canonicalize:
  assumes "unfold_value h n v = Some t"
  shows "canonical_text t = Some s \<longleftrightarrow> canonicalize h v = Inr s"
  using unfold_value_depth [OF assms, of MAX_DEPTH] unfold_value_unique [OF assms]
  by (auto simp: canonical_text_def canonicalize_char)

section \<open>The theorems\<close>

lemma best_config_scalars:
  "(\<forall>x \<in> set (raw_scalars r). \<exists>t. loads (best_config_hooks to_float) x = Inr t) \<longleftrightarrow>
   list_all (best_config_literal to_float) (raw_scalars r)"
  unfolding list_all_iff by (rule ball_cong) (simp_all add: best_config_accepts [OF raw_scalars_scalar])

text \<open>
  The strict reader accepts exactly the documents without a repeated key at any depth whose
  literals are all acceptable, and then returns what json.loads returns.
\<close>

theorem loads_strict_iff:
  "loads_strict to_float r = Inr t \<longleftrightarrow>
   raw_keys_unique r \<and> list_all (best_config_literal to_float) (raw_scalars r) \<and>
   loads (plain_hooks to_float) r = Inr t"
  unfolding loads_strict_def best_config_scalars [symmetric] by (rule best_config.reads_iff)

lemma content_identity_scalars:
  "(\<forall>x \<in> set (raw_scalars r). \<exists>t. loads (content_identity_hooks to_float) x = Inr t) \<longleftrightarrow>
   list_all (content_identity_literal) (raw_scalars r)"
  unfolding list_all_iff by (rule ball_cong) (simp_all add: content_identity_accepts [OF raw_scalars_scalar])

theorem parse_strict_json_iff:
  "parse_strict_json to_float r = Inr t \<longleftrightarrow>
   raw_keys_unique r \<and> list_all content_identity_literal (raw_scalars r) \<and>
   loads (plain_hooks to_float) r = Inr t"
  unfolding parse_strict_json_def content_identity_scalars [of r to_float, symmetric] by (rule content_identity.reads_iff)

lemma verify_baseline_Some:
  "verify_baseline H violations d s p = Some c \<longleftrightarrow>
   violations s d = Some 0 \<and> plain_digest H d = Some p \<and> c = p"
  by (auto simp: verify_baseline_def split: option.splits)

lemma string_of_json_Some: "string_of_json v = Some s \<longleftrightarrow> v = JStr s"
  by (cases v) (auto simp: string_of_json_def)

lemma strict_json_loads_Some: "strict_json_loads to_float r = Some t \<longleftrightarrow> loads (register_hooks to_float) r = Inr t"
  by (auto simp: strict_json_loads_def split: sum.splits)

lemma load_json_Some:
  "load_json to_float file = Some t \<longleftrightarrow> (\<exists>r. file = Some r \<and> loads (register_hooks to_float) r = Inr t)"
  by (simp add: load_json_def bind_eq_Some_conv strict_json_loads_Some)

text \<open>
  The prohibited-claims register loads exactly if the three files parse without a repeated
  key, the schema validator reports no violation and the document hashes to the pin.
\<close>

theorem load_and_verify_iff:
  "load_and_verify H violations to_float document_file pin_file schema_file = Some (document, computed, pinned) \<longleftrightarrow>
   computed = pinned \<and>
   (\<exists>pin schema. load_json to_float document_file = Some document \<and> load_json to_float pin_file = Some pin \<and>
      load_json to_float schema_file = Some schema \<and> json_get pin ''digest'' = Some (JStr pinned) \<and>
      violations schema document = Some 0 \<and> plain_digest H document = Some pinned)"
  by (auto simp: load_and_verify_def bind_eq_Some_conv verify_baseline_Some string_of_json_Some)

lemma plain_digest_Some:
  "plain_digest H t = Some x \<longleftrightarrow> json_depth t \<le> MAX_DEPTH \<and> fp2_ok t \<and> x = U ''sha256:'' @ hexdigest (H (utf8 (canon t)))"
  by (auto simp: plain_digest_def canonical_text_def)

text \<open>
  Two documents loaded under one pin are the same canonical value, or their canonical texts
  collide under SHA-256.
\<close>

theorem pin_binds_document:
  assumes l: "load_and_verify H violations to_float document_file pin_file schema_file = Some (t, c, pinned)"
    and l': "load_and_verify H violations to_float document_file' pin_file' schema_file' = Some (t', c', pinned)"
    and wf: "wf_tree t" "wf_tree t'"
  shows "norm t = norm t' \<or> utf8 (canon t) \<noteq> utf8 (canon t') \<and> H (utf8 (canon t)) = H (utf8 (canon t'))"
proof -
  have d: "plain_digest H t = Some pinned" "plain_digest H t' = Some pinned"
    using l l' by (auto simp: load_and_verify_def bind_eq_Some_conv verify_baseline_Some)
  then have H: "H (utf8 (canon t)) = H (utf8 (canon t'))" and ok: "fp2_ok t" "fp2_ok t'"
    by (auto simp: plain_digest_Some)
  have "norm t = norm t'" if "utf8 (canon t) = utf8 (canon t')"
  proof -
    have "canon t = canon t'"
      using utf8_inject [of "canon t" "canon t'"] that canon_valid [OF ok(1) wf(1)] canon_valid [OF ok(2) wf(2)] by auto
    with canon_eq_iff [OF ok(1) wf(1) ok(2) wf(2)] show ?thesis by simp
  qed
  with H show ?thesis by blast
qed

fun text_ok :: "json \<Rightarrow> bool" where
  "text_ok (JStr s) = encodable s"
| "text_ok (JArr ts) = (\<forall>t \<in> set ts. text_ok t)"
| "text_ok (JObj kts) = (\<forall>(k, t) \<in> set kts. encodable k \<and> text_ok t)"
| "text_ok _ = True"

definition rounds_within :: "(number_literal \<Rightarrow> pyfloat) \<Rightarrow> bool" where
  "rounds_within to_float \<longleftrightarrow> (\<forall>n. \<not> decimal_gt n MAX_SAFE_INTEGER \<longrightarrow>
     is_finite_float (to_float n) \<and> \<not> float_abs_gt (to_float n) MAX_SAFE_INTEGER)"

lemma loads_content_identity_ok:
  assumes "rounds_within to_float"
  shows "loads (content_identity_hooks to_float) r = Inr t \<Longrightarrow> floats_safe t \<and> (fp2_ok t \<longleftrightarrow> text_ok t)"
proof (induction r arbitrary: t)
  case (RInt l)
  then show ?case by (auto simp: content_identity_hooks_def parse_int_strict_def rbind_Inr_iff Let_def split: if_splits)
next
  case (RFloat n)
  with assms show ?case
    by (auto simp: content_identity_hooks_def parse_float_strict_def rbind_Inr_iff rounds_within_def split: if_splits)
next
  case (RConst n)
  then show ?case by (auto simp: content_identity_hooks_def)
next
  case (RArr rs)
  then obtain ts where ts: "traverse (loads (content_identity_hooks to_float)) rs = Inr ts" "t = JArr ts"
    by (auto simp: rbind_Inr_iff)
  have "\<forall>t \<in> set ts. floats_safe t \<and> (fp2_ok t \<longleftrightarrow> text_ok t)"
    by (rule traverse_all [OF ts(1)]) (rule RArr.IH)
  with ts show ?case by auto
next
  case (RObj ms)
  then obtain ps where ps: "traverse (\<lambda>m. rbind (loads (content_identity_hooks to_float) (snd m)) (\<lambda>t. Inr (fst m, t))) ms = Inr ps"
    "t = JObj ps"
    by (auto simp: rbind_Inr_iff content_identity.pairs)
  have "floats_safe (snd p) \<and> (fp2_ok (snd p) \<longleftrightarrow> text_ok (snd p))"
    if "m \<in> set ms" "rbind (loads (content_identity_hooks to_float) (snd m)) (\<lambda>t. Inr (fst m, t)) = Inr p" for m p
    using that RObj.IH [of m "snd m"] by (cases m) (auto simp: rbind_Inr_iff snds.simps)
  then have "\<forall>p \<in> set ps. floats_safe (snd p) \<and> (fp2_ok (snd p) \<longleftrightarrow> text_ok (snd p))"
    by (rule traverse_all [OF ps(1)])
  with ps show ?case by (auto simp: case_prod_beta)
qed auto

text \<open>
  A document the content-identity reader accepted, however spelled as an object graph, has
  canonical bytes exactly if its text has no lone surrogate: number ranges are settled while
  parsing.
\<close>

theorem parsed_json_identifiable:
  assumes "rounds_within to_float" "parse_strict_json to_float r = Inr t" "unfold_value h MAX_DEPTH v = Some t"
  shows "(\<exists>b. canonical_bytes h v = Inr b) \<longleftrightarrow> text_ok t"
  using loads_content_identity_ok [OF assms(1), of r t] assms(2,3)
  by (auto simp: parse_strict_json_def canonical_bytes_char)

section \<open>Concrete inputs\<close>

definition zero_pin :: rawjson where
  "zero_pin = RObj [(U ''digest'', RStr (U ''sha256:'' @ hexdigest (replicate 32 0)))]"

lemma pin_binds_document_witness:
  "norm JNull = norm (JBool True) \<or>
   utf8 (canon JNull) \<noteq> utf8 (canon (JBool True)) \<and> zero_bytes (utf8 (canon JNull)) = zero_bytes (utf8 (canon (JBool True)))"
proof -
  let ?load = "\<lambda>r. load_and_verify zero_bytes (\<lambda>s d. Some 0) (\<lambda>n. FNaN) (Some r) (Some zero_pin) (Some RNull)"
  have "loads (register_hooks (\<lambda>n. FNaN)) zero_pin =
      Inr (JObj [(U ''digest'', JStr (U ''sha256:'' @ hexdigest (replicate 32 0)))])"
    by (simp add: zero_pin_def register_hooks_def)
  then have l: "?load r = Some (t, U ''sha256:'' @ hexdigest (replicate 32 0), U ''sha256:'' @ hexdigest (replicate 32 0))"
    if "loads (register_hooks (\<lambda>n. FNaN)) r = Inr t" "json_depth t = 0" "fp2_ok t" for r t
    using that by (simp add: load_and_verify_def bind_eq_Some_conv verify_baseline_Some load_json_Some
        string_of_json_Some plain_digest_Some zero_bytes_def)
  from pin_binds_document [OF l [of RNull JNull] l [of "RBool True" "JBool True"]] show ?thesis by simp
qed

lemma parsed_json_identifiable_witness: "\<exists>b. canonical_bytes (\<lambda>_. OList []) (VFloat (FZero False)) = Inr b"
proof -
  have t: "unfold_value (\<lambda>_. OList []) MAX_DEPTH (VFloat (FZero False)) = Some (JFloat (FZero False))" by (cases MAX_DEPTH) auto
  have "rounds_within (\<lambda>n. FZero False)" by (simp add: rounds_within_def)
  moreover have "parse_strict_json (\<lambda>n. FZero False) (RFloat \<lparr>nl_neg = False, nl_int = [0], nl_frac = [0], nl_exp = 0\<rparr>) =
      Inr (JFloat (FZero False))"
    by (simp add: parse_strict_json_def content_identity_hooks_def parse_float_strict_def decimal_gt_def digits_nat_def)
  ultimately show ?thesis using parsed_json_identifiable [OF _ _ t] by simp
qed

end
