(* ===== verification/JsonText.thy ===== *)
theory JsonText
  imports PyValue Complex_Main
begin

text \<open>
  Parsed JSON as the repository's scripts use it: Python's equality and truth on such values,
  dict and list access, and the text \<open>json.dumps\<close> writes with \<open>sort_keys\<close>. A dict is a member
  list without repeated keys, as a parser leaves it.
\<close>

section \<open>Access\<close>

text \<open>\<open>d.get(key)\<close> on a dict, \<open>None\<close> being the JSON null; the members of a value that is a dict.\<close>

fun json_member :: "json \<Rightarrow> ustr \<Rightarrow> json option" where
  "json_member (JObj kts) key = map_of kts key"
| "json_member t key = None"

definition member_or :: "json \<Rightarrow> json \<Rightarrow> string \<Rightarrow> json" where
  "member_or d t key = (case json_member t (U key) of None \<Rightarrow> d | Some v \<Rightarrow> v)"

abbreviation get_member :: "json \<Rightarrow> string \<Rightarrow> json" where
  "get_member t key \<equiv> member_or JNull t key"

fun is_dict :: "json \<Rightarrow> bool" where
  "is_dict (JObj kts) = True"
| "is_dict t = False"

fun is_list :: "json \<Rightarrow> bool" where
  "is_list (JArr ts) = True"
| "is_list t = False"

fun members :: "json \<Rightarrow> (ustr \<times> json) list" where
  "members (JObj kts) = kts"
| "members t = []"

fun elements :: "json \<Rightarrow> json list" where
  "elements (JArr ts) = ts"
| "elements t = []"

text \<open>\<open>sorted(set(a) | set(b))\<close> for two dicts with string keys.\<close>

definition sorted_keys :: "(ustr \<times> json) list \<Rightarrow> (ustr \<times> json) list \<Rightarrow> ustr list" where
  "sorted_keys a b = sort (remdups (map fst a @ map fst b))"

lemma set_sorted_keys [simp]: "set (sorted_keys a b) = fst ` set a \<union> fst ` set b"
  by (auto simp: sorted_keys_def)

lemma distinct_sorted_keys [simp]: "distinct (sorted_keys a b)"
  by (simp add: sorted_keys_def)

fun json_truthy :: "json \<Rightarrow> bool" where
  "json_truthy JNull = False"
| "json_truthy (JBool b) = b"
| "json_truthy (JInt i) = (i \<noteq> 0)"
| "json_truthy (JFloat (FZero neg)) = False"
| "json_truthy (JFloat f) = True"
| "json_truthy (JStr s) = (s \<noteq> [])"
| "json_truthy (JArr ts) = (ts \<noteq> [])"
| "json_truthy (JObj kts) = (kts \<noteq> [])"

section \<open>Numbers and equality\<close>

definition dec_value :: "nat list \<Rightarrow> int \<Rightarrow> rat" where
  "dec_value ds n =
     (let e = n - int (length ds) in
      if 0 \<le> e then of_nat (digits_nat ds) * 10 ^ nat e else of_nat (digits_nat ds) / 10 ^ nat (- e))"

text \<open>The value of a finite number; \<open>bool\<close> is a subclass of \<open>int\<close>.\<close>

fun num_value :: "json \<Rightarrow> rat option" where
  "num_value (JBool b) = Some (if b then 1 else 0)"
| "num_value (JInt i) = Some (of_int i)"
| "num_value (JFloat (FZero neg)) = Some 0"
| "num_value (JFloat (FDec neg ds n)) = Some (if neg then - dec_value ds n else dec_value ds n)"
| "num_value t = None"

lemma zip_size_less: "(t, u) \<in> set (zip ts us) \<Longrightarrow> size t < Suc (size_list size ts)"
  using size_list_estimation' [of t ts "size t" size] by (auto dest: set_zip_leftD simp: less_Suc_eq_le)

function (sequential) py_eq :: "json \<Rightarrow> json \<Rightarrow> bool" where
  "py_eq JNull u = (u = JNull)"
| "py_eq (JStr s) u = (u = JStr s)"
| "py_eq (JArr ts) u =
     (case u of JArr us \<Rightarrow> length ts = length us \<and> list_all (\<lambda>(t, u). py_eq t u) (zip ts us) | _ \<Rightarrow> False)"
| "py_eq (JObj kts) u =
     (case u of
        JObj kus \<Rightarrow> length kts = length kus \<and>
          list_all (\<lambda>(k, t). case map_of kus k of None \<Rightarrow> False | Some u \<Rightarrow> py_eq t u) kts
      | _ \<Rightarrow> False)"
| "py_eq (JFloat (FInf neg)) u = (u = JFloat (FInf neg))"
| "py_eq (JFloat FNaN) u = False"
| "py_eq t u = (num_value u = num_value t)"
  by pat_completeness auto
termination by (relation "measure (\<lambda>(t, u). size t)") (auto simp: zip_size_less dest: tree_member_size)

text \<open>Documents as a parser returns them: no repeated key, no \<open>NaN\<close>.\<close>

fun plain_json :: "json \<Rightarrow> bool" where
  "plain_json (JFloat f) = (f \<noteq> FNaN)"
| "plain_json (JArr ts) = (\<forall>t \<in> set ts. plain_json t)"
| "plain_json (JObj kts) = (distinct (map fst kts) \<and> (\<forall>kt \<in> set kts. plain_json (snd kt)))"
| "plain_json t = True"

lemma py_eq_refl: "plain_json t \<Longrightarrow> py_eq t t"
proof (induction t)
  case (JFloat f)
  then show ?case by (cases f) auto
next
  case (JArr ts)
  then show ?case by (auto simp: list_all_iff zip_same_conv_map)
next
  case (JObj kts)
  then have "map_of kts (fst kt) = Some (snd kt) \<and> py_eq (snd kt) (snd kt)" if "kt \<in> set kts" for kt
    using that by (cases kt) (auto simp: snds.simps)
  then show ?case by (fastforce simp: list_all_iff split: option.split)
qed auto

section \<open>json.dumps with sort\_keys\<close>

record dump_style =
  ensure_ascii :: bool
  item_separator :: ustr
  key_separator :: ustr

definition hex4 :: "nat \<Rightarrow> ustr" where
  "hex4 u = [92, 117] @ map hex_char [u div 4096 mod 16, u div 256 mod 16, u div 16 mod 16, u mod 16]"

definition dump_char :: "bool \<Rightarrow> nat \<Rightarrow> ustr" where
  "dump_char ascii c =
     (if c = 34 then [92, 34]
      else if c = 92 then [92, 92]
      else if c = 10 then [92, 110]
      else if c = 13 then [92, 114]
      else if c = 9 then [92, 116]
      else if c = 12 then [92, 102]
      else if c = 8 then [92, 98]
      else if c < 32 then hex4 c
      else if ascii \<and> 126 < c then concat (map hex4 (utf16_units c))
      else [c])"

definition dump_string :: "bool \<Rightarrow> ustr \<Rightarrow> ustr" where
  "dump_string ascii s = 34 # concat (map (dump_char ascii) s) @ [34]"

fun dump_float :: "pyfloat \<Rightarrow> ustr" where
  "dump_float FNaN = U ''NaN''"
| "dump_float (FInf neg) = (if neg then U ''-Infinity'' else U ''Infinity'')"
| "dump_float (FZero neg) = (if neg then U ''-0.0'' else U ''0.0'')"
| "dump_float (FDec neg ds n) = (if neg then [45] else []) @ py_repr_dec ds n"

fun joined :: "ustr \<Rightarrow> ustr list \<Rightarrow> ustr" where
  "joined sep [] = []"
| "joined sep [x] = x"
| "joined sep (x # y # xs) = x @ sep @ joined sep (y # xs)"

fun dumps :: "dump_style \<Rightarrow> json \<Rightarrow> ustr" where
  "dumps st JNull = U ''null''"
| "dumps st (JBool b) = (if b then U ''true'' else U ''false'')"
| "dumps st (JInt i) = int_text i"
| "dumps st (JFloat f) = dump_float f"
| "dumps st (JStr s) = dump_string (ensure_ascii st) s"
| "dumps st (JArr ts) = U ''['' @ joined (item_separator st) (map (dumps st) ts) @ U '']''"
| "dumps st (JObj kts) =
     U ''{'' @ joined (item_separator st)
       (map snd (sort_key fst (map (\<lambda>kt. (fst kt,
          dump_string (ensure_ascii st) (fst kt) @ key_separator st @ dumps st (snd kt))) kts)))
     @ U ''}''"

end
