(* ===== verification/BreakingDiff.thy ===== *)
theory BreakingDiff
  imports JsonText
begin

text \<open>
  The structural comparator of the breaking-change gate, \<open>scripts/breaking_schema_check.py\<close>: how a
  difference between an old and a new schema is found, classified by the role of the file, and
  recorded. Resolving a reference is left to two parameters, as the script leaves it to
  \<open>referencing\<close> and \<open>urllib\<close>: a registry maps document URIs to contents, and \<open>split\<close> is
  \<open>urldefrag (urljoin base ref)\<close>. A finding carries its identity; the message text is not modelled.
  Appending to the shared list of findings is returning the findings of each call in order.
\<close>

section \<open>Findings\<close>

datatype diff_error =
    Unmodelled \<comment> \<open>a value the Draft-07 metaschema or OpenAPI excludes, where the model stops\<close>
  | AttributeError
  | TypeError
  | ValueError

datatype role = Request | Response | Conservative | NotApplicable

datatype severity = Breaking | Info

record finding =
  f_file :: ustr
  f_pointer :: ustr
  f_rule :: ustr
  f_severity :: severity
  f_role :: role
  f_subject :: json
  f_old :: json
  f_new :: json

definition emit :: "ustr \<Rightarrow> ustr \<Rightarrow> ustr \<Rightarrow> severity \<Rightarrow> role \<Rightarrow> json \<Rightarrow> json \<Rightarrow> json \<Rightarrow> finding" where
  "emit file pointer rule severity role subject old new =
     \<lparr>f_file = file, f_pointer = pointer, f_rule = rule, f_severity = severity, f_role = role,
      f_subject = subject, f_old = old, f_new = new\<rparr>"

text \<open>The mirror-image rule: what a keyword change means depends on who sends the document.\<close>

definition keyword_severity :: "role \<Rightarrow> bool \<Rightarrow> severity" where
  "keyword_severity role narrowed =
     (case role of
        Request \<Rightarrow> if narrowed then Breaking else Info
      | Response \<Rightarrow> if \<not> narrowed then Breaking else Info
      | _ \<Rightarrow> Breaking)"

definition keyword_finding ::
  "ustr \<Rightarrow> ustr \<Rightarrow> role \<Rightarrow> ustr \<Rightarrow> bool \<Rightarrow> json \<Rightarrow> json \<Rightarrow> json \<Rightarrow> finding" where
  "keyword_finding file pointer role keyword narrowed subject old new =
     emit file pointer keyword (keyword_severity role narrowed) role
       (if subject \<noteq> JNull then subject else JStr keyword) old new"

section \<open>References\<close>

text \<open>\<open>int(part)\<close> for a part made of ASCII digits with an optional sign, and list indexing.\<close>

definition parse_index :: "ustr \<Rightarrow> int option" where
  "parse_index s =
     (case s of
        [] \<Rightarrow> None
      | c # r \<Rightarrow>
          let digits = (if c = 45 \<or> c = 43 then r else s) in
          if digits = [] \<or> \<not> list_all is_digit digits then None
          else let n = int (digits_nat (map (\<lambda>d. d - 48) digits)) in Some (if c = 45 then - n else n))"

definition list_index :: "'a list \<Rightarrow> int \<Rightarrow> 'a option" where
  "list_index xs i =
     (let j = (if i < 0 then i + int (length xs) else i) in
      if 0 \<le> j \<and> j < int (length xs) then Some (xs ! nat j) else None)"

fun json_pointer_steps :: "json \<Rightarrow> ustr list \<Rightarrow> json option" where
  "json_pointer_steps node [] = Some node"
| "json_pointer_steps node (raw # raws) =
     (let part = replace2 126 48 126 (replace2 126 49 47 raw) in
      case node of
        JArr ts \<Rightarrow> Option.bind (Option.bind (parse_index part) (list_index ts)) (\<lambda>t. json_pointer_steps t raws)
      | JObj kts \<Rightarrow> Option.bind (json_member node part) (\<lambda>t. json_pointer_steps t raws)
      | _ \<Rightarrow> None)"

definition json_pointer_get :: "json \<Rightarrow> ustr \<Rightarrow> json option" where
  "json_pointer_get doc pointer =
     (if pointer = [] \<or> pointer = [47] then Some doc
      else json_pointer_steps doc (split_at 47 (dropWhile (\<lambda>c. c = 47) pointer)))"

type_synonym registry = "ustr \<Rightarrow> json option"
type_synonym splitter = "ustr \<Rightarrow> ustr \<Rightarrow> ustr \<times> ustr"

record resolved =
  r_node :: json
  r_base :: ustr
  r_visited :: "ustr set"
  r_cyclic :: bool

text \<open>\<open>None\<close> is the exception \<open>UnresolvedRef\<close>; the number counts the hops left.\<close>

fun deref_hops :: "splitter \<Rightarrow> nat \<Rightarrow> json \<Rightarrow> ustr \<Rightarrow> registry \<Rightarrow> ustr set \<Rightarrow> resolved option" where
  "deref_hops split hops node base reg visited =
     (case get_member node ''$ref'' of
        JStr ref \<Rightarrow>
          (case hops of
             0 \<Rightarrow> Some \<lparr>r_node = node, r_base = base, r_visited = visited, r_cyclic = True\<rparr>
           | Suc hops \<Rightarrow>
               let (doc_uri, pointer) = split base ref;
                   key = doc_uri @ U ''#'' @ pointer
               in if key \<in> visited
                  then Some \<lparr>r_node = node, r_base = base, r_visited = visited, r_cyclic = True\<rparr>
                  else case Option.bind (reg doc_uri) (\<lambda>doc. json_pointer_get doc pointer) of
                    None \<Rightarrow> None
                  | Some target \<Rightarrow> deref_hops split hops target doc_uri reg (insert key visited))
      | _ \<Rightarrow> Some \<lparr>r_node = node, r_base = base, r_visited = visited, r_cyclic = False\<rparr>)"

declare deref_hops.simps [simp del]

definition max_hops :: nat where
  "max_hops = 25"

definition deref :: "splitter \<Rightarrow> json \<Rightarrow> ustr \<Rightarrow> registry \<Rightarrow> ustr set \<Rightarrow> resolved option" where
  "deref split node base reg visited = deref_hops split max_hops node base reg visited"

section \<open>Reading the keywords\<close>

definition string_list :: "json list \<Rightarrow> diff_error + ustr list" where
  "string_list ts = traverse (\<lambda>t. case t of JStr s \<Rightarrow> Inr s | _ \<Rightarrow> Inl Unmodelled) ts"

definition type_set :: "json \<Rightarrow> diff_error + ustr set option" where
  "type_set schema =
     (case get_member schema ''type'' of
        JStr t \<Rightarrow> Inr (Some {t})
      | JArr ts \<Rightarrow> rbind (string_list ts) (\<lambda>names. Inr (Some (set names)))
      | _ \<Rightarrow> Inr None)"

definition plain_dump :: dump_style where
  "plain_dump = \<lparr>ensure_ascii = True, item_separator = U '', '', key_separator = U '': ''\<rparr>"

definition enum_set :: "json \<Rightarrow> diff_error + ustr set option" where
  "enum_set schema =
     (case get_member schema ''enum'' of
        JNull \<Rightarrow> Inr None
      | JArr vs \<Rightarrow> Inr (Some (set (map (dumps plain_dump) vs)))
      | _ \<Rightarrow> Inl Unmodelled)"

definition closedness_rank :: "json \<Rightarrow> nat" where
  "closedness_rank schema =
     (case member_or (JBool True) schema ''additionalProperties'' of
        JBool b \<Rightarrow> if b then 0 else 2
      | JObj kts \<Rightarrow> 1
      | _ \<Rightarrow> 0)"

definition closedness_label :: "nat \<Rightarrow> json" where
  "closedness_label rank =
     JStr (if rank = 0 then U ''open (true/absent)''
           else if rank = 1 then U ''constrained (a value schema)''
           else U ''closed (false)'')"

definition texts :: "ustr set \<Rightarrow> json" where
  "texts s = JArr (map JStr (sorted_list_of_set s))"

section \<open>The keyword comparisons\<close>

text \<open>What \<open>compare_node\<close> threads through its recursion.\<close>

record node_scope =
  old_base :: ustr
  new_base :: ustr
  old_reg :: registry
  new_reg :: registry
  old_visited :: "ustr set"
  new_visited :: "ustr set"
  s_role :: role
  s_file :: ustr

type_synonym findings = "diff_error + finding list"
type_synonym recursion = "json \<Rightarrow> json \<Rightarrow> ustr \<Rightarrow> findings"

definition scope_emit :: "node_scope \<Rightarrow> ustr \<Rightarrow> ustr \<Rightarrow> severity \<Rightarrow> finding" where
  "scope_emit scope pointer rule severity =
     emit (s_file scope) pointer rule severity (s_role scope) JNull JNull JNull"

definition scope_keyword :: "node_scope \<Rightarrow> ustr \<Rightarrow> ustr \<Rightarrow> bool \<Rightarrow> json \<Rightarrow> json \<Rightarrow> json \<Rightarrow> finding" where
  "scope_keyword scope pointer keyword narrowed subject old new =
     keyword_finding (s_file scope) pointer (s_role scope) keyword narrowed subject old new"

text \<open>Calls one after the other, an exception ending the sequence.\<close>

definition in_order :: "findings list \<Rightarrow> findings" where
  "in_order calls = rbind (traverse (\<lambda>call. call) calls) (\<lambda>fss. Inr (concat fss))"

definition direction_subject :: "string \<Rightarrow> ustr set \<Rightarrow> json" where
  "direction_subject direction values =
     JObj [(U ''direction'', JStr (U direction)), (U ''values'', texts values)]"

definition optional_set :: "ustr set option \<Rightarrow> ustr set" where
  "optional_set s = (case s of None \<Rightarrow> {} | Some x \<Rightarrow> x)"

definition set_delta :: "ustr set option \<Rightarrow> ustr set option \<Rightarrow> ustr \<Rightarrow> ustr \<Rightarrow> ustr set \<times> ustr set" where
  "set_delta old_set new_set was_unset now_unset =
     (let removed = optional_set old_set - optional_set new_set;
          added = optional_set new_set - optional_set old_set
      in (if old_set = None \<and> new_set \<noteq> None then {was_unset} else removed,
          if new_set = None \<and> old_set \<noteq> None then {now_unset} else added))"

definition optional_texts :: "ustr set option \<Rightarrow> json" where
  "optional_texts s = (case s of None \<Rightarrow> JNull | Some x \<Rightarrow> texts x)"

definition compare_type :: "node_scope \<Rightarrow> ustr \<Rightarrow> json \<Rightarrow> json \<Rightarrow> findings" where
  "compare_type scope pointer old new =
     rbind (type_set old) (\<lambda>old_types.
     rbind (type_set new) (\<lambda>new_types.
       if old_types = new_types then Inr []
       else
         let (removed, added) =
               set_delta old_types new_types (U ''<was unconstrained>'') (U ''<now unconstrained>'');
             old_repr = (if optional_set old_types = {} then JNull else optional_texts old_types);
             new_repr = (if optional_set new_types = {} then JNull else optional_texts new_types)
         in Inr ((if removed \<noteq> {}
                  then [scope_keyword scope pointer (U ''type'') True (direction_subject ''removed'' removed) old_repr new_repr]
                  else []) @
                 (if added \<noteq> {}
                  then [scope_keyword scope pointer (U ''type'') False (direction_subject ''added'' added) old_repr new_repr]
                  else []))))"

definition enum_delta :: "ustr set option \<Rightarrow> ustr set option \<Rightarrow> ustr set \<times> ustr set" where
  "enum_delta old_enum new_enum =
     (let removed_e = optional_set old_enum - optional_set new_enum;
          added_e = optional_set new_enum - optional_set old_enum
      in (if old_enum \<noteq> None \<and> new_enum = None then {U ''<enum constraint removed entirely>''} else removed_e,
          if new_enum \<noteq> None \<and> old_enum = None then {U ''<enum constraint added>''} else added_e))"

definition compare_enum :: "node_scope \<Rightarrow> ustr \<Rightarrow> json \<Rightarrow> json \<Rightarrow> findings" where
  "compare_enum scope pointer old new =
     rbind (enum_set old) (\<lambda>old_enum.
     rbind (enum_set new) (\<lambda>new_enum.
       if old_enum = new_enum then Inr []
       else
         let (removed_e, added_e) = enum_delta old_enum new_enum;
             old_sorted = optional_texts old_enum;
             new_sorted = optional_texts new_enum
         in Inr ((if removed_e \<noteq> {}
                  then [scope_keyword scope pointer (U ''enum'') True (direction_subject ''removed'' removed_e) old_sorted new_sorted]
                  else []) @
                 (if added_e \<noteq> {}
                  then [scope_keyword scope pointer (U ''enum'') False (direction_subject ''added'' added_e) old_sorted new_sorted]
                  else []))))"

definition compare_additional_properties ::
  "recursion \<Rightarrow> node_scope \<Rightarrow> ustr \<Rightarrow> json \<Rightarrow> json \<Rightarrow> findings" where
  "compare_additional_properties recurse scope pointer old new =
     (let old_rank = closedness_rank old; new_rank = closedness_rank new;
          ranks = (if old_rank \<noteq> new_rank
                   then [scope_keyword scope pointer (U ''additionalProperties'') (old_rank < new_rank) JNull
                           (closedness_label old_rank) (closedness_label new_rank)]
                   else []);
          old_ap = get_member old ''additionalProperties'';
          new_ap = get_member new ''additionalProperties''
      in in_order [Inr ranks,
           if is_dict old_ap \<and> is_dict new_ap
           then recurse old_ap new_ap (pointer @ U ''/additionalProperties'') else Inr []])"

definition compare_pattern :: "node_scope \<Rightarrow> ustr \<Rightarrow> json \<Rightarrow> json \<Rightarrow> findings" where
  "compare_pattern scope pointer old new =
     (let old_pat = get_member old ''pattern''; new_pat = get_member new ''pattern'' in
      if py_eq old_pat new_pat then Inr []
      else
        let narrowed = (if old_pat = JNull \<and> new_pat \<noteq> JNull then True
                        else if old_pat \<noteq> JNull \<and> new_pat = JNull then False
                        else True)
        in Inr [scope_keyword scope pointer (U ''pattern'') narrowed JNull old_pat new_pat])"

text \<open>A bound that is \<open>None\<close> is infinite, upwards for an upper bound and downwards for a lower one.\<close>

definition bound_value :: "json \<Rightarrow> diff_error + rat option" where
  "bound_value v =
     (case v of
        JNull \<Rightarrow> Inr None
      | JInt i \<Rightarrow> Inr (Some (of_int i))
      | JFloat f \<Rightarrow> if is_finite_float f then Inr (num_value v) else Inl Unmodelled
      | _ \<Rightarrow> Inl Unmodelled)"

definition below_max :: "rat option \<Rightarrow> rat option \<Rightarrow> bool" where
  "below_max a b = (case a of None \<Rightarrow> False | Some x \<Rightarrow> (case b of None \<Rightarrow> True | Some y \<Rightarrow> x < y))"

definition above_min :: "rat option \<Rightarrow> rat option \<Rightarrow> bool" where
  "above_min a b = (case a of None \<Rightarrow> False | Some x \<Rightarrow> (case b of None \<Rightarrow> True | Some y \<Rightarrow> y < x))"

definition MAX_KEYS :: "string list" where
  "MAX_KEYS = [''maxLength'', ''maximum'', ''maxItems'', ''maxProperties'']"

definition MIN_KEYS :: "string list" where
  "MIN_KEYS = [''minLength'', ''minimum'', ''minItems'', ''minProperties'']"

text \<open>\<open>tighter a b\<close>: the bound \<open>a\<close> admits less than \<open>b\<close>.\<close>

definition compare_bound ::
  "(rat option \<Rightarrow> rat option \<Rightarrow> bool) \<Rightarrow> node_scope \<Rightarrow> ustr \<Rightarrow> json \<Rightarrow> json \<Rightarrow> string \<Rightarrow> findings" where
  "compare_bound tighter scope pointer old new kw =
     (let ov = get_member old kw; nv = get_member new kw in
      if py_eq ov nv then Inr []
      else
        rbind (bound_value ov) (\<lambda>ov_eff.
        rbind (bound_value nv) (\<lambda>nv_eff.
          if tighter nv_eff ov_eff then Inr [scope_keyword scope pointer (U kw) True JNull ov nv]
          else if tighter ov_eff nv_eff then Inr [scope_keyword scope pointer (U kw) False JNull ov nv]
          else Inr [])))"

definition compare_max_bounds :: "node_scope \<Rightarrow> ustr \<Rightarrow> json \<Rightarrow> json \<Rightarrow> findings" where
  "compare_max_bounds scope pointer old new = in_order (map (compare_bound below_max scope pointer old new) MAX_KEYS)"

definition compare_min_bounds :: "node_scope \<Rightarrow> ustr \<Rightarrow> json \<Rightarrow> json \<Rightarrow> findings" where
  "compare_min_bounds scope pointer old new = in_order (map (compare_bound above_min scope pointer old new) MIN_KEYS)"

definition required_set :: "json \<Rightarrow> diff_error + ustr set" where
  "required_set schema =
     (let v = get_member schema ''required'' in
      if \<not> json_truthy v then Inr {}
      else case v of JArr ts \<Rightarrow> rbind (string_list ts) (\<lambda>names. Inr (set names)) | _ \<Rightarrow> Inl Unmodelled)"

definition compare_required :: "node_scope \<Rightarrow> ustr \<Rightarrow> json \<Rightarrow> json \<Rightarrow> findings" where
  "compare_required scope pointer old new =
     rbind (required_set old) (\<lambda>old_req.
     rbind (required_set new) (\<lambda>new_req.
       Inr (map (\<lambda>name. scope_keyword scope pointer (U ''required'') True (JStr name) (JBool False) (JBool True))
              (sorted_list_of_set (new_req - old_req)) @
            map (\<lambda>name. scope_keyword scope pointer (U ''required'') False (JStr name) (JBool True) (JBool False))
              (sorted_list_of_set (old_req - new_req)))))"

section \<open>The keywords that recurse\<close>

definition property_removed :: "node_scope \<Rightarrow> ustr \<Rightarrow> ustr \<Rightarrow> nat \<Rightarrow> finding" where
  "property_removed scope child_pointer name new_rank =
     (if 1 \<le> new_rank
      then scope_keyword scope child_pointer (U ''property_removed'') True (JStr name) (JBool True) (JBool False)
      else scope_emit scope child_pointer (U ''property_removed'') Info)"

definition property_added :: "node_scope \<Rightarrow> ustr \<Rightarrow> ustr \<Rightarrow> nat \<Rightarrow> finding" where
  "property_added scope child_pointer name old_rank =
     (if 1 \<le> old_rank
      then scope_keyword scope child_pointer (U ''property_added'') False (JStr name) (JBool False) (JBool True)
      else scope_emit scope child_pointer (U ''property_added'') Info)"

definition compare_properties ::
  "recursion \<Rightarrow> node_scope \<Rightarrow> ustr \<Rightarrow> json \<Rightarrow> json \<Rightarrow> nat \<Rightarrow> nat \<Rightarrow> findings" where
  "compare_properties recurse scope pointer old new old_rank new_rank =
     (let old_props = members (get_member old ''properties'');
          new_props = members (get_member new ''properties'')
      in in_order (map (\<lambda>name.
           let child_pointer = pointer @ U ''/properties/'' @ name in
           case (map_of old_props name, map_of new_props name) of
             (Some x, None) \<Rightarrow> Inr [property_removed scope child_pointer name new_rank]
           | (Some x, Some y) \<Rightarrow> recurse x y child_pointer
           | (None, _) \<Rightarrow> Inr [property_added scope child_pointer name old_rank])
         (sorted_keys old_props new_props)))"

definition pattern_property_added :: "node_scope \<Rightarrow> ustr \<Rightarrow> ustr \<Rightarrow> nat \<Rightarrow> finding" where
  "pattern_property_added scope child_pointer pat old_rank =
     (if 1 \<le> old_rank
      then scope_keyword scope child_pointer (U ''patternProperties_added'') False (JStr pat) (JBool False) (JBool True)
      else scope_emit scope child_pointer (U ''patternProperties_added'') Info)"

definition compare_pattern_properties ::
  "recursion \<Rightarrow> node_scope \<Rightarrow> ustr \<Rightarrow> json \<Rightarrow> json \<Rightarrow> nat \<Rightarrow> nat \<Rightarrow> findings" where
  "compare_pattern_properties recurse scope pointer old new old_rank new_rank =
     (let old_pp = members (get_member old ''patternProperties'');
          new_pp = members (get_member new ''patternProperties'')
      in in_order (map (\<lambda>pat.
           let child_pointer = pointer @ U ''/patternProperties/'' @ pat in
           case (map_of old_pp pat, map_of new_pp pat) of
             (Some x, None) \<Rightarrow>
               Inr [scope_keyword scope child_pointer (U ''patternProperties_removed'') (1 \<le> new_rank)
                      (JStr pat) (JBool True) (JBool False)]
           | (Some x, Some y) \<Rightarrow> recurse x y child_pointer
           | (None, _) \<Rightarrow> Inr [pattern_property_added scope child_pointer pat old_rank])
         (sorted_keys old_pp new_pp)))"

definition compare_items :: "recursion \<Rightarrow> node_scope \<Rightarrow> ustr \<Rightarrow> json \<Rightarrow> json \<Rightarrow> findings" where
  "compare_items recurse scope pointer old new =
     (let old_items = get_member old ''items''; new_items = get_member new ''items'';
          items_pointer = pointer @ U ''/items''
      in if is_dict old_items \<and> is_dict new_items then recurse old_items new_items items_pointer
         else if old_items = JNull \<and> is_dict new_items
         then Inr [scope_keyword scope items_pointer (U ''items'') True JNull old_items new_items]
         else if is_dict old_items \<and> new_items = JNull
         then Inr [scope_keyword scope items_pointer (U ''items'') False JNull old_items new_items]
         else if \<not> py_eq old_items new_items \<and> (old_items \<noteq> JNull \<or> new_items \<noteq> JNull)
         then Inr [scope_emit scope items_pointer (U ''items_structure_changed'') Info]
         else Inr [])"

definition combinator_appeared :: "node_scope \<Rightarrow> ustr \<Rightarrow> string \<Rightarrow> json list \<Rightarrow> finding" where
  "combinator_appeared scope combinator_pointer combinator new_list =
     (if combinator = ''allOf'' \<and> new_list = []
      then scope_emit scope combinator_pointer (U combinator @ U ''_added'') Info
      else scope_keyword scope combinator_pointer (U combinator @ U ''_added'') True
             (JStr (U combinator)) (JInt 0) (JInt (int (length new_list))))"

definition combinator_disappeared :: "node_scope \<Rightarrow> ustr \<Rightarrow> string \<Rightarrow> json list \<Rightarrow> finding" where
  "combinator_disappeared scope combinator_pointer combinator old_list =
     (if combinator = ''allOf'' \<and> old_list = []
      then scope_emit scope combinator_pointer (U combinator @ U ''_removed'') Info
      else scope_keyword scope combinator_pointer (U combinator @ U ''_removed'') False
             (JStr (U combinator)) (JInt (int (length old_list))) (JInt 0))"

fun compare_branches :: "recursion \<Rightarrow> ustr \<Rightarrow> nat \<Rightarrow> json list \<Rightarrow> json list \<Rightarrow> findings list" where
  "compare_branches recurse combinator_pointer i (ob # obs) (nb # nbs) =
     recurse ob nb (combinator_pointer @ U ''/'' @ int_text (int i))
     # compare_branches recurse combinator_pointer (i + 1) obs nbs"
| "compare_branches recurse combinator_pointer i obs nbs = []"

definition compare_combinator_branches ::
  "recursion \<Rightarrow> node_scope \<Rightarrow> ustr \<Rightarrow> string \<Rightarrow> json list \<Rightarrow> json list \<Rightarrow> findings" where
  "compare_combinator_branches recurse scope combinator_pointer combinator old_list new_list =
     (if length old_list \<noteq> length new_list
      then Inr [emit (s_file scope) combinator_pointer (U combinator @ U ''_branch_count_changed'') Breaking (s_role scope)
                  (JStr (U combinator)) (JInt (int (length old_list))) (JInt (int (length new_list)))]
      else in_order (compare_branches recurse combinator_pointer 0 old_list new_list))"

definition compare_combinator ::
  "recursion \<Rightarrow> node_scope \<Rightarrow> ustr \<Rightarrow> json \<Rightarrow> json \<Rightarrow> string \<Rightarrow> findings" where
  "compare_combinator recurse scope pointer old new combinator =
     (let combinator_pointer = pointer @ U ''/'' @ U combinator;
          old_list = get_member old combinator; new_list = get_member new combinator
      in if old_list = JNull \<and> new_list = JNull then Inr []
         else if old_list = JNull \<and> is_list new_list
         then Inr [combinator_appeared scope combinator_pointer combinator (elements new_list)]
         else if is_list old_list \<and> new_list = JNull
         then Inr [combinator_disappeared scope combinator_pointer combinator (elements old_list)]
         else if \<not> is_list old_list \<or> \<not> is_list new_list
         then Inr [scope_emit scope combinator_pointer (U combinator @ U ''_shape_changed'') Breaking]
         else compare_combinator_branches recurse scope combinator_pointer combinator
                (elements old_list) (elements new_list))"

section \<open>Comparing two nodes\<close>

text \<open>The end of a comparison, or the two resolved object schemas with the scope they are read in.\<close>

definition resolve_node_pair ::
  "splitter \<Rightarrow> node_scope \<Rightarrow> json \<Rightarrow> json \<Rightarrow> ustr \<Rightarrow> finding list + json \<times> json \<times> node_scope" where
  "resolve_node_pair split scope old_raw new_raw pointer =
     (case deref split old_raw (old_base scope) (old_reg scope) (old_visited scope) of
        None \<Rightarrow> Inl [scope_emit scope pointer (U ''unresolved_ref'') Breaking]
      | Some old \<Rightarrow>
          (case deref split new_raw (new_base scope) (new_reg scope) (new_visited scope) of
             None \<Rightarrow> Inl [scope_emit scope pointer (U ''unresolved_ref'') Breaking]
           | Some new \<Rightarrow>
               if \<not> is_dict (r_node old) \<or> \<not> is_dict (r_node new)
               then Inl (if \<not> py_eq (r_node old) (r_node new)
                         then [scope_emit scope pointer (U ''leaf_changed'') Info] else [])
               else if r_cyclic old \<or> r_cyclic new
               then Inl [scope_emit scope pointer (U ''cyclic_ref'') Info]
               else Inr (r_node old, r_node new,
                 scope\<lparr>old_base := r_base old, new_base := r_base new,
                       old_visited := r_visited old, new_visited := r_visited new\<rparr>)))"

definition compare_keywords :: "recursion \<Rightarrow> node_scope \<Rightarrow> ustr \<Rightarrow> json \<Rightarrow> json \<Rightarrow> findings" where
  "compare_keywords recurse scope pointer old new =
     (let old_rank = closedness_rank old; new_rank = closedness_rank new in
      in_order
       ([compare_type scope pointer old new,
         compare_enum scope pointer old new,
         compare_additional_properties recurse scope pointer old new,
         compare_pattern scope pointer old new,
         compare_max_bounds scope pointer old new,
         compare_min_bounds scope pointer old new,
         compare_required scope pointer old new,
         compare_properties recurse scope pointer old new old_rank new_rank,
         compare_pattern_properties recurse scope pointer old new old_rank new_rank,
         compare_items recurse scope pointer old new] @
        map (compare_combinator recurse scope pointer old new) [''oneOf'', ''anyOf'', ''allOf'']))"

text \<open>The number counts the levels left: a node at depth \<open>d\<close> is compared with \<open>61 - d\<close>.\<close>

fun compare_node :: "splitter \<Rightarrow> nat \<Rightarrow> node_scope \<Rightarrow> json \<Rightarrow> json \<Rightarrow> ustr \<Rightarrow> findings" where
  "compare_node split 0 scope old_raw new_raw pointer =
     Inr [scope_emit scope pointer (U ''depth_limit'') Info]"
| "compare_node split (Suc levels) scope old_raw new_raw pointer =
     (case resolve_node_pair split scope old_raw new_raw pointer of
        Inl fs \<Rightarrow> Inr fs
      | Inr (old, new, scope') \<Rightarrow> compare_keywords (compare_node split levels scope') scope' pointer old new)"

definition node_levels :: nat where
  "node_levels = 61"

end
