(* ===== verification/BreakingLaws.thy ===== *)
theory BreakingLaws
  imports BreakingDiff
begin

text \<open>
  Laws of the comparator: its findings under the three roles are one role-free list of changes
  read with each role's severities, so \<open>conservative\<close> reports as breaking exactly what one of the
  other two roles does; and comparing a schema with itself finds nothing but the limits of
  reference resolution.
\<close>

section \<open>Changes and the roles' views of them\<close>

datatype change_kind = Keyword bool | Fixed severity

record change =
  c_pointer :: ustr
  c_rule :: ustr
  c_kind :: change_kind
  c_subject :: json
  c_old :: json
  c_new :: json

definition as_finding :: "ustr \<Rightarrow> role \<Rightarrow> change \<Rightarrow> finding" where
  "as_finding file role c =
     emit file (c_pointer c) (c_rule c)
       (case c_kind c of Keyword narrowed \<Rightarrow> keyword_severity role narrowed | Fixed severity \<Rightarrow> severity)
       role (c_subject c) (c_old c) (c_new c)"

text \<open>A computation that depends on the role only through the severities of its findings.\<close>

definition role_free :: "ustr \<Rightarrow> (role \<Rightarrow> findings) \<Rightarrow> bool" where
  "role_free file F \<longleftrightarrow> (\<exists>cs. \<forall>role. F role = map_sum id (map (as_finding file role)) cs)"

lemma role_freeI: "(\<And>role. F role = map_sum id (map (as_finding file role)) cs) \<Longrightarrow> role_free file F"
  by (auto simp: role_free_def)

lemma role_free_const: "role_free file (\<lambda>role. Inl e)" "role_free file (\<lambda>role. Inr [])"
  using role_freeI [of "\<lambda>role. Inl e" "file" "Inl e"] role_freeI [of "\<lambda>role. Inr []" "file" "Inr []"] by simp_all

lemma role_free_keyword:
  "role_free (s_file scope) (\<lambda>role. Inr [scope_keyword (scope\<lparr>s_role := role\<rparr>) pointer keyword narrowed subject old new])"
  by (rule role_freeI [of _ _ "Inr [\<lparr>c_pointer = pointer, c_rule = keyword, c_kind = Keyword narrowed,
        c_subject = (if subject \<noteq> JNull then subject else JStr keyword), c_old = old, c_new = new\<rparr>]"])
    (simp add: as_finding_def scope_keyword_def keyword_finding_def)

lemma role_free_emit:
  "role_free (s_file scope) (\<lambda>role. Inr [scope_emit (scope\<lparr>s_role := role\<rparr>) pointer rule severity])"
  by (rule role_freeI [of _ _ "Inr [\<lparr>c_pointer = pointer, c_rule = rule, c_kind = Fixed severity,
        c_subject = JNull, c_old = JNull, c_new = JNull\<rparr>]"])
    (simp add: as_finding_def scope_emit_def)

lemma role_free_emit_full:
  "role_free file (\<lambda>role. Inr [emit file pointer rule severity role subject old new])"
  by (rule role_freeI [of _ _ "Inr [\<lparr>c_pointer = pointer, c_rule = rule, c_kind = Fixed severity,
        c_subject = subject, c_old = old, c_new = new\<rparr>]"])
    (simp add: as_finding_def)

lemma in_order_simps [simp]:
  "in_order [] = Inr []"
  "in_order (c # cs) = rbind c (\<lambda>fs. rbind (in_order cs) (\<lambda>gs. Inr (fs @ gs)))"
  by (auto simp: in_order_def rbind_assoc)

lemma role_free_seq:
  assumes "role_free file F" "role_free file G"
  shows "role_free file (\<lambda>role. rbind (F role) (\<lambda>fs. rbind (G role) (\<lambda>gs. Inr (fs @ gs))))"
proof -
  obtain c d where c: "\<And>role. F role = map_sum id (map (as_finding file role)) c"
    and d: "\<And>role. G role = map_sum id (map (as_finding file role)) d"
    using assms by (auto simp: role_free_def)
  show ?thesis
    by (rule role_freeI [of _ _ "rbind c (\<lambda>fs. rbind d (\<lambda>gs. Inr (fs @ gs)))"])
      (unfold c d, cases c; cases d; simp)
qed

lemma role_free_emit_scope:
  "role_free (s_file scope) (\<lambda>role. Inr [emit (s_file (scope\<lparr>s_role := role\<rparr>)) pointer rule severity
     (s_role (scope\<lparr>s_role := role\<rparr>)) subject old new])"
  using role_free_emit_full [of "s_file scope" pointer rule severity subject old new] by simp

lemma role_free_in_order:
  "list_all (role_free file) Fs \<Longrightarrow> role_free file (\<lambda>role. in_order (map (\<lambda>F. F role) Fs))"
  by (induction Fs) (auto intro: role_free_seq role_free_const)

lemma role_free_append:
  "role_free file (\<lambda>role. Inr (f role)) \<Longrightarrow> role_free file (\<lambda>role. Inr (g role)) \<Longrightarrow>
   role_free file (\<lambda>role. Inr (f role @ g role))"
  using role_free_seq [of "file" "\<lambda>role. Inr (f role)" "\<lambda>role. Inr (g role)"] by simp

lemma role_free_map:
  assumes "\<And>x. role_free file (\<lambda>role. Inr [f role x])"
  shows "role_free file (\<lambda>role. Inr (map (f role) xs))"
proof (induction xs)
  case (Cons x xs)
  from role_free_append [OF assms [of x] this] show ?case by simp
qed (simp add: role_free_const)

lemma role_free_rbind: "(\<And>x. role_free file (\<lambda>role. F role x)) \<Longrightarrow> role_free file (\<lambda>role. rbind a (F role))"
  by (cases a) (auto simp: role_free_const)

lemma role_free_if:
  "(b \<Longrightarrow> role_free file F) \<Longrightarrow> (\<not> b \<Longrightarrow> role_free file G) \<Longrightarrow> role_free file (\<lambda>role. if b then F role else G role)"
  by (cases b) auto

lemma role_free_if_list:
  "role_free file (\<lambda>role. Inr (f role)) \<Longrightarrow> role_free file (\<lambda>role. Inr (g role)) \<Longrightarrow>
   role_free file (\<lambda>role. Inr (if b then f role else g role))"
  by (cases b) auto

lemmas role_free_intros =
  role_free_const role_free_keyword role_free_emit role_free_append role_free_map role_free_rbind
  role_free_if role_free_if_list

lemma role_free_type: "role_free (s_file scope) (\<lambda>role. compare_type (scope\<lparr>s_role := role\<rparr>) pointer old new)"
  unfolding compare_type_def Let_def case_prod_beta by (intro role_free_intros)

lemma role_free_enum: "role_free (s_file scope) (\<lambda>role. compare_enum (scope\<lparr>s_role := role\<rparr>) pointer old new)"
  unfolding compare_enum_def Let_def case_prod_beta by (intro role_free_intros)

lemma role_free_pattern: "role_free (s_file scope) (\<lambda>role. compare_pattern (scope\<lparr>s_role := role\<rparr>) pointer old new)"
  unfolding compare_pattern_def Let_def by (intro role_free_intros)

lemma role_free_required: "role_free (s_file scope) (\<lambda>role. compare_required (scope\<lparr>s_role := role\<rparr>) pointer old new)"
  unfolding compare_required_def by (intro role_free_intros)

lemma role_free_bound: "role_free (s_file scope) (\<lambda>role. compare_bound tighter (scope\<lparr>s_role := role\<rparr>) pointer old new kw)"
  unfolding compare_bound_def Let_def by (intro role_free_intros)

lemma role_free_calls:
  assumes "\<And>x. x \<in> set xs \<Longrightarrow> role_free file (\<lambda>role. F role x)"
  shows "role_free file (\<lambda>role. in_order (map (F role) xs))"
proof -
  have "role_free file (\<lambda>role. in_order (map (\<lambda>G. G role) (map (\<lambda>x role. F role x) xs)))"
    using assms by (intro role_free_in_order) (auto simp: list_all_iff)
  then show ?thesis by (simp add: comp_def)
qed

lemma role_free_bounds:
  "role_free (s_file scope) (\<lambda>role. compare_max_bounds (scope\<lparr>s_role := role\<rparr>) pointer old new)"
  "role_free (s_file scope) (\<lambda>role. compare_min_bounds (scope\<lparr>s_role := role\<rparr>) pointer old new)"
  unfolding compare_max_bounds_def compare_min_bounds_def by (intro role_free_calls role_free_bound)+

text \<open>The keywords that recurse, given that the recursion is role-free.\<close>

lemma role_free_additional:
  assumes "\<And>a b p. role_free (s_file scope) (\<lambda>role. recurse role a b p)"
  shows "role_free (s_file scope)
    (\<lambda>role. compare_additional_properties (recurse role) (scope\<lparr>s_role := role\<rparr>) pointer old new)"
proof -
  let ?F = "\<lambda>role. Inr (if closedness_rank old \<noteq> closedness_rank new
      then [scope_keyword (scope\<lparr>s_role := role\<rparr>) pointer (U ''additionalProperties'')
              (closedness_rank old < closedness_rank new) JNull
              (closedness_label (closedness_rank old)) (closedness_label (closedness_rank new))] else [])"
  let ?G = "\<lambda>role. if is_dict (get_member old ''additionalProperties'') \<and> is_dict (get_member new ''additionalProperties'')
      then recurse role (get_member old ''additionalProperties'') (get_member new ''additionalProperties'')
             (pointer @ U ''/additionalProperties'') else Inr []"
  have "role_free (s_file scope) ?F" by (intro role_free_intros)
  moreover have "role_free (s_file scope) ?G" by (intro role_free_intros assms)
  ultimately show ?thesis
    using role_free_in_order [of "s_file scope" "[?F, ?G]"]
    by (simp add: compare_additional_properties_def Let_def)
qed

lemma role_free_member:
  "role_free (s_file scope) (\<lambda>role. Inr [property_removed (scope\<lparr>s_role := role\<rparr>) p name rank])"
  "role_free (s_file scope) (\<lambda>role. Inr [property_added (scope\<lparr>s_role := role\<rparr>) p name rank])"
  "role_free (s_file scope) (\<lambda>role. Inr [pattern_property_added (scope\<lparr>s_role := role\<rparr>) p name rank])"
  unfolding property_removed_def property_added_def pattern_property_added_def
  by (cases "1 \<le> rank"; simp add: role_free_keyword role_free_emit)+

lemma role_free_properties:
  assumes "\<And>a b p. role_free (s_file scope) (\<lambda>role. recurse role a b p)"
  shows "role_free (s_file scope)
    (\<lambda>role. compare_properties (recurse role) (scope\<lparr>s_role := role\<rparr>) pointer old new old_rank new_rank)"
  unfolding compare_properties_def Let_def
proof (rule role_free_calls)
  fix name
  show "role_free (s_file scope) (\<lambda>role.
     case (map_of (members (get_member old ''properties'')) name, map_of (members (get_member new ''properties'')) name) of
       (Some x, None) \<Rightarrow> Inr [property_removed (scope\<lparr>s_role := role\<rparr>) (pointer @ U ''/properties/'' @ name) name new_rank]
     | (Some x, Some y) \<Rightarrow> recurse role x y (pointer @ U ''/properties/'' @ name)
     | (None, _) \<Rightarrow> Inr [property_added (scope\<lparr>s_role := role\<rparr>) (pointer @ U ''/properties/'' @ name) name old_rank])"
    by (cases "map_of (members (get_member old ''properties'')) name";
        cases "map_of (members (get_member new ''properties'')) name")
      (simp_all add: role_free_member assms)
qed

lemma role_free_pattern_properties:
  assumes "\<And>a b p. role_free (s_file scope) (\<lambda>role. recurse role a b p)"
  shows "role_free (s_file scope)
    (\<lambda>role. compare_pattern_properties (recurse role) (scope\<lparr>s_role := role\<rparr>) pointer old new old_rank new_rank)"
  unfolding compare_pattern_properties_def Let_def
proof (rule role_free_calls)
  fix pat
  show "role_free (s_file scope) (\<lambda>role.
     case (map_of (members (get_member old ''patternProperties'')) pat, map_of (members (get_member new ''patternProperties'')) pat) of
       (Some x, None) \<Rightarrow> Inr [scope_keyword (scope\<lparr>s_role := role\<rparr>) (pointer @ U ''/patternProperties/'' @ pat)
          (U ''patternProperties_removed'') (1 \<le> new_rank) (JStr pat) (JBool True) (JBool False)]
     | (Some x, Some y) \<Rightarrow> recurse role x y (pointer @ U ''/patternProperties/'' @ pat)
     | (None, _) \<Rightarrow> Inr [pattern_property_added (scope\<lparr>s_role := role\<rparr>) (pointer @ U ''/patternProperties/'' @ pat) pat old_rank])"
    by (cases "map_of (members (get_member old ''patternProperties'')) pat";
        cases "map_of (members (get_member new ''patternProperties'')) pat")
      (simp_all add: role_free_member role_free_keyword assms)
qed

lemma role_free_items:
  assumes "\<And>a b p. role_free (s_file scope) (\<lambda>role. recurse role a b p)"
  shows "role_free (s_file scope) (\<lambda>role. compare_items (recurse role) (scope\<lparr>s_role := role\<rparr>) pointer old new)"
  unfolding compare_items_def Let_def by (intro role_free_intros assms)

lemma role_free_branches:
  assumes "\<And>a b p. role_free file (\<lambda>role. recurse role a b p)"
  shows "role_free file (\<lambda>role. in_order (compare_branches (recurse role) pointer i obs nbs))"
proof (induction obs arbitrary: i nbs)
  case (Cons ob obs)
  show ?case
  proof (cases nbs)
    case (Cons nb nbs')
    show ?thesis unfolding Cons compare_branches.simps in_order_simps
      by (rule role_free_seq [OF assms Cons.IH])
  qed (simp add: role_free_const)
qed (simp add: role_free_const)

lemma role_free_combinator_change:
  "role_free (s_file scope) (\<lambda>role. Inr [combinator_appeared (scope\<lparr>s_role := role\<rparr>) p combinator ts])"
  "role_free (s_file scope) (\<lambda>role. Inr [combinator_disappeared (scope\<lparr>s_role := role\<rparr>) p combinator ts])"
  unfolding combinator_appeared_def combinator_disappeared_def
  by (cases "combinator = ''allOf'' \<and> ts = []"; simp only: if_True if_False simp_thms role_free_keyword role_free_emit)+

lemma role_free_combinator:
  assumes "\<And>a b p. role_free (s_file scope) (\<lambda>role. recurse role a b p)"
  shows "role_free (s_file scope)
    (\<lambda>role. compare_combinator (recurse role) (scope\<lparr>s_role := role\<rparr>) pointer old new combinator)"
  unfolding compare_combinator_def compare_combinator_branches_def Let_def
  by (intro role_free_intros role_free_combinator_change role_free_emit_scope role_free_branches assms)

lemma role_free_keywords:
  assumes "\<And>a b p. role_free (s_file scope) (\<lambda>role. recurse role a b p)"
  shows "role_free (s_file scope)
    (\<lambda>role. compare_keywords (recurse role) (scope\<lparr>s_role := role\<rparr>) pointer old new)"
proof -
  let ?Fs = "[\<lambda>role. compare_type (scope\<lparr>s_role := role\<rparr>) pointer old new,
     \<lambda>role. compare_enum (scope\<lparr>s_role := role\<rparr>) pointer old new,
     \<lambda>role. compare_additional_properties (recurse role) (scope\<lparr>s_role := role\<rparr>) pointer old new,
     \<lambda>role. compare_pattern (scope\<lparr>s_role := role\<rparr>) pointer old new,
     \<lambda>role. compare_max_bounds (scope\<lparr>s_role := role\<rparr>) pointer old new,
     \<lambda>role. compare_min_bounds (scope\<lparr>s_role := role\<rparr>) pointer old new,
     \<lambda>role. compare_required (scope\<lparr>s_role := role\<rparr>) pointer old new,
     \<lambda>role. compare_properties (recurse role) (scope\<lparr>s_role := role\<rparr>) pointer old new (closedness_rank old) (closedness_rank new),
     \<lambda>role. compare_pattern_properties (recurse role) (scope\<lparr>s_role := role\<rparr>) pointer old new (closedness_rank old) (closedness_rank new),
     \<lambda>role. compare_items (recurse role) (scope\<lparr>s_role := role\<rparr>) pointer old new] @
     map (\<lambda>c role. compare_combinator (recurse role) (scope\<lparr>s_role := role\<rparr>) pointer old new c) [''oneOf'', ''anyOf'', ''allOf'']"
  have "list_all (role_free (s_file scope)) ?Fs"
    using role_free_type role_free_enum role_free_additional role_free_pattern role_free_bounds role_free_required
      role_free_properties role_free_pattern_properties role_free_items role_free_combinator assms
    by simp
  from role_free_in_order [OF this] show ?thesis by (simp add: compare_keywords_def Let_def)
qed

lemma resolve_role:
  "resolve_node_pair split (scope\<lparr>s_role := role\<rparr>) a b p =
   map_sum (map (\<lambda>f. f\<lparr>f_role := role\<rparr>)) (\<lambda>(x, y, sc). (x, y, sc\<lparr>s_role := role\<rparr>)) (resolve_node_pair split scope a b p)"
  by (simp add: resolve_node_pair_def scope_emit_def emit_def split: option.split)

lemma resolve_file: "resolve_node_pair split scope a b p = Inr (x, y, sc) \<Longrightarrow> s_file sc = s_file scope"
  by (auto simp: resolve_node_pair_def split: option.splits if_splits)

lemma resolve_role_free:
  "resolve_node_pair split scope a b p = Inl fs \<Longrightarrow> role_free (s_file scope) (\<lambda>role. Inr (map (\<lambda>f. f\<lparr>f_role := role\<rparr>) fs))"
  using role_free_emit [of scope p] role_free_const(2) [of "s_file scope"]
  by (auto simp: resolve_node_pair_def scope_emit_def emit_def split: option.splits if_splits)

lemma role_free_node:
  "role_free (s_file scope) (\<lambda>role. compare_node split levels (scope\<lparr>s_role := role\<rparr>) a b p)"
proof (induction levels arbitrary: scope a b p)
  case 0
  then show ?case by (simp add: role_free_emit)
next
  case (Suc levels)
  show ?case
  proof (cases "resolve_node_pair split scope a b p")
    case (Inl fs)
    with resolve_role_free [OF Inl] show ?thesis by (simp add: resolve_role)
  next
    case (Inr r)
    then obtain x y sc where r: "r = (x, y, sc)" by (cases r) auto
    with Inr resolve_file have f: "s_file sc = s_file scope" by blast
    from role_free_keywords [of sc "\<lambda>role. compare_node split levels (sc\<lparr>s_role := role\<rparr>)" p x y] Suc.IH [of sc]
    show ?thesis using Inr r f by (simp add: resolve_role)
  qed
qed

text \<open>
  C20: Under the three roles the comparator finds the same changes in the same order, and a
  change is breaking under the conservative role exactly if it is under the request or the
  response role.
\<close>

theorem conservative_is_union:
  assumes c: "compare_node split levels (scope\<lparr>s_role := Conservative\<rparr>) a b p = Inr cs"
    and q: "compare_node split levels (scope\<lparr>s_role := Request\<rparr>) a b p = Inr qs"
    and r: "compare_node split levels (scope\<lparr>s_role := Response\<rparr>) a b p = Inr rs"
  shows "map (\<lambda>f. f\<lparr>f_role := NotApplicable, f_severity := Info\<rparr>) qs = map (\<lambda>f. f\<lparr>f_role := NotApplicable, f_severity := Info\<rparr>) cs \<and>
    map (\<lambda>f. f\<lparr>f_role := NotApplicable, f_severity := Info\<rparr>) rs = map (\<lambda>f. f\<lparr>f_role := NotApplicable, f_severity := Info\<rparr>) cs \<and>
    map (\<lambda>f. f_severity f = Breaking) cs =
      map2 (\<lambda>f g. f_severity f = Breaking \<or> f_severity g = Breaking) qs rs"
proof -
  obtain ch where ch: "\<And>role. compare_node split levels (scope\<lparr>s_role := role\<rparr>) a b p =
      map_sum id (map (as_finding (s_file scope) role)) ch"
    using role_free_node [of scope split levels a b p] unfolding role_free_def by blast
  then obtain xs where xs: "ch = Inr xs" using c by (cases ch) auto
  have fs: "cs = map (as_finding (s_file scope) Conservative) xs" "qs = map (as_finding (s_file scope) Request) xs"
    "rs = map (as_finding (s_file scope) Response) xs"
    using c q r unfolding ch xs by auto
  have union: "map2 (\<lambda>f g. P f \<or> Q g) (map F xs) (map G xs) = map (\<lambda>x. P (F x) \<or> Q (G x)) xs" for P Q F G
    by (induction xs) auto
  show ?thesis
    unfolding fs union
    by (auto simp: as_finding_def emit_def keyword_severity_def split: change_kind.split)
qed

section \<open>A schema compared with itself\<close>

definition limit_rules :: "ustr set" where
  "limit_rules = {U ''depth_limit'', U ''unresolved_ref'', U ''cyclic_ref'',
     U ''oneOf_shape_changed'', U ''anyOf_shape_changed'', U ''allOf_shape_changed''}"

definition quiet :: "findings \<Rightarrow> bool" where
  "quiet F = (case F of Inl e \<Rightarrow> True | Inr fs \<Rightarrow> list_all (\<lambda>f. f_rule f \<in> limit_rules) fs)"

lemma quiet_simps [simp]: "quiet (Inl e)" "quiet (Inr [])"
  by (simp_all add: quiet_def)

lemma quiet_in_order: "list_all quiet cs \<Longrightarrow> quiet (in_order cs)"
proof (induction cs)
  case (Cons c cs)
  then show ?case by (cases c; cases "in_order cs") (auto simp: quiet_def)
qed simp

lemma quiet_calls: "(\<And>x. x \<in> set xs \<Longrightarrow> quiet (F x)) \<Longrightarrow> quiet (in_order (map F xs))"
  by (rule quiet_in_order) (simp add: list_all_iff)

lemma plain_member: "plain_json t \<Longrightarrow> json_member t k = Some u \<Longrightarrow> plain_json u"
  by (cases t) (auto dest!: map_of_SomeD)

lemma plain_get_member: "plain_json t \<Longrightarrow> plain_json (get_member t k)"
  by (auto simp: member_or_def dest: plain_member split: option.split)

lemma plain_members: "plain_json t \<Longrightarrow> map_of (members t) k = Some u \<Longrightarrow> plain_json u"
  by (cases t) (auto dest!: map_of_SomeD)

lemma plain_pointer: "json_pointer_steps t parts = Some u \<Longrightarrow> plain_json t \<Longrightarrow> plain_json u"
proof (induction parts arbitrary: t)
  case (Cons raw raws)
  then show ?case
    by (auto simp: Let_def bind_eq_Some_conv list_index_def split: json.splits if_splits
        dest: plain_member [of "JObj _"])
qed simp

lemma plain_deref_hops:
  assumes "\<And>uri doc. reg uri = Some doc \<Longrightarrow> plain_json doc"
  shows "deref_hops split hops t base reg visited = Some r \<Longrightarrow> plain_json t \<Longrightarrow> plain_json (r_node r)"
proof (induction hops arbitrary: t base visited)
  case 0
  then show ?case by (subst (asm) deref_hops.simps) (auto split: json.splits)
next
  case (Suc hops)
  have doc: "plain_json u" if "reg uri = Some doc" "json_pointer_get doc pointer = Some u" for uri doc pointer u
    using that assms plain_pointer by (auto simp: json_pointer_get_def split: if_splits)
  from Suc.prems show ?case
    by (subst (asm) deref_hops.simps)
      (auto simp: Let_def bind_eq_Some_conv split: json.splits prod.splits if_splits option.splits
        dest!: Suc.IH doc)
qed

lemma quiet_keywords:
  assumes "plain_json t" and recurse: "\<And>u p. plain_json u \<Longrightarrow> quiet (recurse u u p)"
  shows "quiet (compare_keywords recurse scope pointer t t)"
proof -
  have props: "quiet (case (map_of (members (get_member t k)) name, map_of (members (get_member t k)) name) of
      (Some x, None) \<Rightarrow> F | (Some x, Some y) \<Rightarrow> recurse x y p | (None, z) \<Rightarrow> G)"
    if "name \<in> fst ` set (members (get_member t k))" for k name F G p
    using that plain_members [OF plain_get_member [OF assms(1)], of k name] recurse
    by (auto split: option.split simp: map_of_eq_None_iff)
  have branches: "list_all quiet (compare_branches recurse p i us us)" if "\<forall>u \<in> set us. plain_json u" for p i us
    using that recurse by (induction us arbitrary: i) auto
  have elements: "\<forall>u \<in> set (elements (get_member t k)). plain_json u" for k
    using plain_get_member [OF assms(1), of k] by (cases "get_member t k") auto
  have refl: "py_eq (get_member t k) (get_member t k)" for k
    using py_eq_refl [OF plain_get_member [OF assms(1)]] .
  have parts: "quiet (compare_type scope pointer t t)" "quiet (compare_enum scope pointer t t)"
    "quiet (compare_required scope pointer t t)"
    by (auto simp: compare_type_def compare_enum_def compare_required_def rbind_def split: sum.split)
  have "quiet (compare_properties recurse scope pointer t t (closedness_rank t) (closedness_rank t))"
    unfolding compare_properties_def Let_def by (rule quiet_calls) (rule props, simp)
  moreover have "quiet (compare_pattern_properties recurse scope pointer t t (closedness_rank t) (closedness_rank t))"
    unfolding compare_pattern_properties_def Let_def by (rule quiet_calls) (rule props, simp)
  moreover have "quiet (compare_items recurse scope pointer t t)"
    using recurse [OF plain_get_member [OF assms(1)]] refl by (auto simp: compare_items_def Let_def)
  moreover have "quiet (compare_combinator recurse scope pointer t t c)" if "c \<in> {''oneOf'', ''anyOf'', ''allOf''}" for c
  proof -
    have "quiet (Inr [scope_emit scope p (U c @ U ''_shape_changed'') Breaking])" for p
      using that by (auto simp: quiet_def scope_emit_def emit_def limit_rules_def U_def)
    moreover have "quiet (in_order (compare_branches recurse p 0 (elements (get_member t c)) (elements (get_member t c))))" for p
      by (rule quiet_in_order [OF branches [OF elements]])
    ultimately show ?thesis
      by (simp add: compare_combinator_def compare_combinator_branches_def Let_def)
  qed
  moreover have "quiet (compare_additional_properties recurse scope pointer t t)"
    using recurse [OF plain_get_member [OF assms(1)]]
    by (auto simp: compare_additional_properties_def Let_def intro!: quiet_in_order simp del: in_order_simps)
  moreover have "quiet (compare_max_bounds scope pointer t t)" "quiet (compare_min_bounds scope pointer t t)"
    using refl by (auto simp: compare_max_bounds_def compare_min_bounds_def compare_bound_def list_all_iff
        intro!: quiet_in_order)
  moreover have "quiet (compare_pattern scope pointer t t)"
    using refl by (simp add: compare_pattern_def)
  ultimately show ?thesis
    using parts unfolding compare_keywords_def Let_def by (intro quiet_in_order) simp
qed

lemma quiet_node:
  assumes reg: "\<And>uri doc. reg uri = Some doc \<Longrightarrow> plain_json doc"
  shows "plain_json t \<Longrightarrow> old_reg scope = reg \<Longrightarrow> new_reg scope = reg \<Longrightarrow> old_base scope = new_base scope \<Longrightarrow>
    old_visited scope = new_visited scope \<Longrightarrow> quiet (compare_node split levels scope t t pointer)"
proof (induction levels arbitrary: t scope pointer)
  case 0
  then show ?case by (simp add: quiet_def scope_emit_def emit_def limit_rules_def)
next
  case (Suc levels)
  show ?case
  proof (cases "deref split t (old_base scope) reg (old_visited scope)")
    case None
    with Suc.prems show ?thesis
      by (simp add: resolve_node_pair_def quiet_def scope_emit_def emit_def limit_rules_def)
  next
    case (Some r)
    have plain: "plain_json (r_node r)"
      by (rule plain_deref_hops [OF _ Some [unfolded deref_def] Suc.prems(1)]) (rule reg)
    have IH: "quiet (compare_node split levels (scope\<lparr>old_base := r_base r, new_base := r_base r,
        old_visited := r_visited r, new_visited := r_visited r\<rparr>) u u p)" if "plain_json u" for u p
      using that Suc.prems by (intro Suc.IH) auto
    show ?thesis
      using Some Suc.prems py_eq_refl [OF plain]
        quiet_keywords [of "r_node r" "compare_node split levels (scope\<lparr>old_base := r_base r, new_base := r_base r,
          old_visited := r_visited r, new_visited := r_visited r\<rparr>)", OF plain IH]
      by (auto simp: resolve_node_pair_def quiet_def [of "Inr [_]"] scope_emit_def emit_def limit_rules_def)
  qed
qed

text \<open>
  Comparing a schema with itself, through all its references, reports nothing but the limits
  of reference resolution and combinators that are not lists.
\<close>

theorem unchanged_schema_is_quiet:
  assumes "compare_node split levels scope t t pointer = Inr fs"
    and same: "old_reg scope = new_reg scope" "old_base scope = new_base scope" "old_visited scope = new_visited scope"
    and plain: "plain_json t" "\<And>uri doc. new_reg scope uri = Some doc \<Longrightarrow> plain_json doc"
    and "f \<in> set fs"
  shows "f_rule f \<in> {U ''depth_limit'', U ''unresolved_ref'', U ''cyclic_ref'',
     U ''oneOf_shape_changed'', U ''anyOf_shape_changed'', U ''allOf_shape_changed''}"
proof -
  have "quiet (compare_node split levels scope t t pointer)"
    by (rule quiet_node [of "new_reg scope"]) (use plain same in auto)
  with assms(1,7) show ?thesis by (simp add: quiet_def list_all_iff limit_rules_def)
qed

end
