(* ===== verification/BreakingSound.thy ===== *)
theory BreakingSound
  imports BreakingLaws
begin

text \<open>
  What a clean report on a request schema means: a specification of Draft-07 validation for the
  keywords the comparator models, and the proof that an instance the old schema accepts is still
  accepted by the new one. Outside the specification are \<open>$ref\<close>, \<open>oneOf\<close>, tuple \<open>items\<close> and the
  keywords the comparator does not look at. Matching a regular expression and being equal to the
  value a text prints are the fields of a parameter.
\<close>

section \<open>Validation\<close>

record judge =
  regex_finds :: "ustr \<Rightarrow> ustr \<Rightarrow> bool"
  prints_equal :: "ustr \<Rightarrow> json \<Rightarrow> bool"

fun has_type :: "ustr \<Rightarrow> json \<Rightarrow> bool" where
  "has_type name JNull = (name = U ''null'')"
| "has_type name (JBool b) = (name = U ''boolean'')"
| "has_type name (JInt i) = (name \<in> {U ''integer'', U ''number''})"
| "has_type name (JFloat f) = (name = U ''number'' \<or> name = U ''integer'' \<and> float_integral f)"
| "has_type name (JStr s) = (name = U ''string'')"
| "has_type name (JArr ts) = (name = U ''array'')"
| "has_type name (JObj kts) = (name = U ''object'')"

definition type_ok :: "json \<Rightarrow> json \<Rightarrow> bool" where
  "type_ok schema x =
     (case get_member schema ''type'' of
        JStr t \<Rightarrow> has_type t x
      | JArr ts \<Rightarrow> list_ex (\<lambda>t. case t of JStr name \<Rightarrow> has_type name x | _ \<Rightarrow> False) ts
      | _ \<Rightarrow> True)"

definition enum_ok :: "judge \<Rightarrow> json \<Rightarrow> json \<Rightarrow> bool" where
  "enum_ok m schema x =
     (case get_member schema ''enum'' of
        JArr vs \<Rightarrow> list_ex (\<lambda>v. prints_equal m (dumps plain_dump v) x) vs
      | _ \<Rightarrow> True)"

definition pattern_ok :: "judge \<Rightarrow> json \<Rightarrow> json \<Rightarrow> bool" where
  "pattern_ok m schema x =
     (case (get_member schema ''pattern'', x) of (JStr pat, JStr s) \<Rightarrow> regex_finds m pat s | _ \<Rightarrow> True)"

text \<open>What a bound keyword measures of an instance it applies to.\<close>

fun measured :: "string \<Rightarrow> json \<Rightarrow> rat option" where
  "measured kw (JStr s) = (if kw \<in> {''maxLength'', ''minLength''} then Some (of_nat (length s)) else None)"
| "measured kw (JArr ts) = (if kw \<in> {''maxItems'', ''minItems''} then Some (of_nat (length ts)) else None)"
| "measured kw (JObj kts) = (if kw \<in> {''maxProperties'', ''minProperties''} then Some (of_nat (length kts)) else None)"
| "measured kw (JInt i) = (if kw \<in> {''maximum'', ''minimum''} then Some (of_int i) else None)"
| "measured kw (JFloat f) = (if kw \<in> {''maximum'', ''minimum''} then num_value (JFloat f) else None)"
| "measured kw x = None"

definition bound_ok :: "(rat option \<Rightarrow> rat option \<Rightarrow> bool) \<Rightarrow> json \<Rightarrow> json \<Rightarrow> string \<Rightarrow> bool" where
  "bound_ok tighter schema x kw =
     (case (num_value (get_member schema kw), measured kw x) of
        (Some b, Some v) \<Rightarrow> \<not> tighter (Some b) (Some v)
      | _ \<Rightarrow> True)"

definition required_ok :: "json \<Rightarrow> json \<Rightarrow> bool" where
  "required_ok schema x =
     (case (required_set schema, x) of
        (Inr names, JObj kts) \<Rightarrow> names \<subseteq> fst ` set kts
      | _ \<Rightarrow> True)"

lemma get_member_size: "is_dict (get_member s k) \<or> is_list (get_member s k) \<Longrightarrow> size (get_member s k) < size s"
proof -
  assume a: "is_dict (get_member s k) \<or> is_list (get_member s k)"
  then obtain kts t where "s = JObj kts" "map_of kts (U k) = Some t" "get_member s k = t"
    by (cases s) (auto simp: member_or_def split: option.splits)
  then show ?thesis using tree_member_size [of "(U k, t)" kts] by (auto dest: map_of_SomeD)
qed

lemma members_size: "(k, t) \<in> set (members u) \<Longrightarrow> size t < size u"
  using tree_member_size [of "(k, t)"] by (cases u) auto

lemma member_of_member_size:
  assumes "map_of (members (get_member s k)) n = Some t"
  shows "size t < size s"
proof -
  have "(n, t) \<in> set (members (get_member s k))" using assms by (rule map_of_SomeD)
  then have "is_dict (get_member s k)" by (cases "get_member s k") auto
  with get_member_size [of s k] members_size [OF \<open>(n, t) \<in> _\<close>] show ?thesis by simp
qed

lemma element_of_member_size:
  assumes "t \<in> set (elements (get_member s k))"
  shows "size t < size s"
proof -
  have "is_list (get_member s k)" "size t < size (get_member s k)"
    using assms tree_item_size [of t] by (cases "get_member s k"; auto)+
  with get_member_size [of s k] show ?thesis by simp
qed

lemma pattern_member_size:
  assumes "(k, t) \<in> set (members (get_member s n))"
  shows "size t < size s"
proof -
  have "is_dict (get_member s n)" using assms by (cases "get_member s n") auto
  with get_member_size [of s n] members_size [OF assms] show ?thesis by simp
qed

text \<open>A member not named by \<open>properties\<close> nor matched by \<open>patternProperties\<close> is additional.\<close>

function validates :: "judge \<Rightarrow> json \<Rightarrow> json \<Rightarrow> bool" where
  "validates m s x =
     (if \<not> is_dict s then num_value s \<noteq> Some 0
      else
        type_ok s x \<and> enum_ok m s x \<and> pattern_ok m s x \<and> required_ok s x \<and>
        list_all (bound_ok below_max s x) MAX_KEYS \<and> list_all (bound_ok above_min s x) MIN_KEYS \<and>
        list_all (\<lambda>(k, v).
            (case map_of (members (get_member s ''properties'')) k of
               None \<Rightarrow> True | Some p \<Rightarrow> validates m p v) \<and>
            list_all (\<lambda>(pat, p). if regex_finds m pat k then validates m p v else True)
              (members (get_member s ''patternProperties'')) \<and>
            (if map_of (members (get_member s ''properties'')) k = None \<and>
                \<not> list_ex (\<lambda>(pat, p). regex_finds m pat k) (members (get_member s ''patternProperties''))
             then (if is_dict (get_member s ''additionalProperties'')
                   then validates m (get_member s ''additionalProperties'') v
                   else closedness_rank s \<noteq> 2)
             else True))
          (members x) \<and>
        (if is_dict (get_member s ''items'')
         then list_all (validates m (get_member s ''items'')) (elements x) else True) \<and>
        (if is_list (get_member s ''anyOf'')
         then list_ex (\<lambda>t. validates m t x) (elements (get_member s ''anyOf'')) else True) \<and>
        list_all (\<lambda>t. validates m t x) (elements (get_member s ''allOf'')))"
  by auto
termination
  by (relation "measure (\<lambda>(m, s, x). size s)")
    (auto simp: get_member_size element_of_member_size dest: member_of_member_size pattern_member_size)

declare validates.simps [simp del]

definition member_ok :: "judge \<Rightarrow> json \<Rightarrow> ustr \<Rightarrow> json \<Rightarrow> bool" where
  "member_ok m s k v \<longleftrightarrow>
     (case map_of (members (get_member s ''properties'')) k of None \<Rightarrow> True | Some p \<Rightarrow> validates m p v) \<and>
     list_all (\<lambda>(pat, p). if regex_finds m pat k then validates m p v else True)
       (members (get_member s ''patternProperties'')) \<and>
     (if map_of (members (get_member s ''properties'')) k = None \<and>
         \<not> list_ex (\<lambda>(pat, p). regex_finds m pat k) (members (get_member s ''patternProperties''))
      then (if is_dict (get_member s ''additionalProperties'')
            then validates m (get_member s ''additionalProperties'') v
            else closedness_rank s \<noteq> 2)
      else True)"

lemma validates_dict:
  assumes "is_dict s"
  shows "validates m s x \<longleftrightarrow>
    type_ok s x \<and> enum_ok m s x \<and> pattern_ok m s x \<and> required_ok s x \<and>
    list_all (bound_ok below_max s x) MAX_KEYS \<and> list_all (bound_ok above_min s x) MIN_KEYS \<and>
    list_all (\<lambda>(k, v). member_ok m s k v) (members x) \<and>
    (if is_dict (get_member s ''items'')
     then list_all (validates m (get_member s ''items'')) (elements x) else True) \<and>
    (if is_list (get_member s ''anyOf'')
     then list_ex (\<lambda>t. validates m t x) (elements (get_member s ''anyOf'')) else True) \<and>
    list_all (\<lambda>t. validates m t x) (elements (get_member s ''allOf''))"
  using assms by (subst validates.simps) (simp only: member_ok_def [abs_def] not_True_eq_False if_False)

section \<open>Clean reports\<close>

text \<open>The informational findings that can stand for a narrowing of a request schema.\<close>

definition silent_narrowing :: "finding \<Rightarrow> bool" where
  "silent_narrowing f \<longleftrightarrow>
     f_rule f \<in> {U ''property_added'', U ''patternProperties_added'', U ''leaf_changed'',
       U ''items_structure_changed'', U ''depth_limit''} \<or>
     f_rule f = U ''enum'' \<and> f_old f = JNull"

definition clean :: "finding \<Rightarrow> bool" where
  "clean f \<longleftrightarrow> f_severity f = Info \<and> \<not> silent_narrowing f"

definition clean_report :: "findings \<Rightarrow> bool" where
  "clean_report F = (case F of Inl e \<Rightarrow> False | Inr fs \<Rightarrow> list_all clean fs)"

lemma clean_report_simps [simp]:
  "\<not> clean_report (Inl e)" "clean_report (Inr fs) = list_all clean fs"
  by (simp_all add: clean_report_def)

lemma clean_rbind: "clean_report (rbind a f) \<longleftrightarrow> (\<exists>x. a = Inr x \<and> clean_report (f x))"
  by (cases a) auto

lemma clean_in_order: "clean_report (in_order cs) \<longleftrightarrow> list_all clean_report cs"
proof (induction cs)
  case (Cons c cs)
  then show ?case by (cases c; cases "in_order cs") auto
qed simp

lemma clean_keyword:
  "s_role scope = Request \<Longrightarrow> clean (scope_keyword scope p kw narrowed subject old new) \<longleftrightarrow>
   \<not> narrowed \<and> kw \<notin> {U ''property_added'', U ''patternProperties_added'', U ''leaf_changed'',
     U ''items_structure_changed'', U ''depth_limit''} \<and> \<not> (kw = U ''enum'' \<and> old = JNull)"
  by (auto simp: clean_def silent_narrowing_def scope_keyword_def keyword_finding_def emit_def keyword_severity_def)

lemma clean_emit:
  "clean (scope_emit scope p rule severity) \<longleftrightarrow>
   severity = Info \<and> rule \<notin> {U ''property_added'', U ''patternProperties_added'', U ''leaf_changed'',
     U ''items_structure_changed'', U ''depth_limit'', U ''enum''}"
  by (auto simp: clean_def silent_narrowing_def scope_emit_def emit_def)

lemma type_ok_set: "type_set s = Inr S \<Longrightarrow> type_ok s x \<longleftrightarrow> (case S of None \<Rightarrow> True | Some T \<Rightarrow> \<exists>t \<in> T. has_type t x)"
proof -
  have "list_ex (\<lambda>t. case t of JStr name \<Rightarrow> has_type name x | _ \<Rightarrow> False) ts \<longleftrightarrow> (\<exists>t \<in> set names. has_type t x)"
    if "string_list ts = Inr names" for ts names
    using that unfolding string_list_def
    by (induction ts arbitrary: names) (auto simp: rbind_Inr_iff split: json.splits)
  then show "type_set s = Inr S \<Longrightarrow> ?thesis"
    by (cases "get_member s ''type''") (auto simp: type_set_def type_ok_def rbind_Inr_iff)
qed

lemma clean_type:
  assumes "clean_report (compare_type scope p old new)" "s_role scope = Request" "type_ok old x"
  shows "type_ok new x"
proof -
  obtain S T where S: "type_set old = Inr S" "type_set new = Inr T"
    and c: "clean_report (if S = T then Inr [] else
      let (removed, added) = set_delta S T (U ''<was unconstrained>'') (U ''<now unconstrained>'');
          old_repr = (if optional_set S = {} then JNull else optional_texts S);
          new_repr = (if optional_set T = {} then JNull else optional_texts T)
      in Inr ((if removed \<noteq> {} then [scope_keyword scope p (U ''type'') True (direction_subject ''removed'' removed) old_repr new_repr] else []) @
              (if added \<noteq> {} then [scope_keyword scope p (U ''type'') False (direction_subject ''added'' added) old_repr new_repr] else [])))"
    using assms(1) unfolding compare_type_def clean_rbind by blast
  have "T = None \<or> S = T \<or> (\<exists>A B. S = Some A \<and> T = Some B \<and> A \<subseteq> B)"
    using c clean_keyword [OF assms(2)]
    by (cases S; cases T) (auto simp: set_delta_def optional_set_def Let_def split: if_splits)
  with S assms(3) show ?thesis by (auto simp: type_ok_set) blast
qed

lemma clean_enum:
  assumes "clean_report (compare_enum scope p old new)" "s_role scope = Request" "enum_ok m old x"
  shows "enum_ok m new x"
proof -
  have ok: "enum_ok m s x \<longleftrightarrow> (case S of None \<Rightarrow> True | Some T \<Rightarrow> \<exists>t \<in> T. prints_equal m t x)" if "enum_set s = Inr S" for s S
    using that by (auto simp: enum_set_def enum_ok_def list_ex_iff split: json.splits)
  obtain S T where S: "enum_set old = Inr S" "enum_set new = Inr T"
    and c: "clean_report (if S = T then Inr [] else
      let (removed_e, added_e) = enum_delta S T; old_sorted = optional_texts S; new_sorted = optional_texts T
      in Inr ((if removed_e \<noteq> {} then [scope_keyword scope p (U ''enum'') True (direction_subject ''removed'' removed_e) old_sorted new_sorted] else []) @
              (if added_e \<noteq> {} then [scope_keyword scope p (U ''enum'') False (direction_subject ''added'' added_e) old_sorted new_sorted] else [])))"
    using assms(1) unfolding compare_enum_def clean_rbind by blast
  have "T = None \<or> S = T \<or> (\<exists>A B. S = Some A \<and> T = Some B \<and> A \<subseteq> B)"
    using c clean_keyword [OF assms(2)]
    by (cases S; cases T) (auto simp: enum_delta_def optional_set_def optional_texts_def Let_def split: if_splits)
  with S assms(3) show ?thesis by (auto simp: ok) blast
qed

lemma py_eq_num: "py_eq a b \<Longrightarrow> num_value a = num_value b"
proof (induction a b rule: py_eq.induct)
  case (4 kts u)
  then show ?case by (auto split: json.splits)
qed (auto split: json.splits)

lemma py_eq_dict: "py_eq a b \<Longrightarrow> is_dict a = is_dict b"
proof (cases a)
  case (JFloat f)
  then show "py_eq a b \<Longrightarrow> ?thesis" by (cases f; cases b) auto
qed (cases b; auto)+

lemma py_eq_str: "py_eq a (JStr s) \<Longrightarrow> a = JStr s"
proof (cases a)
  case (JFloat f)
  then show "py_eq a (JStr s) \<Longrightarrow> ?thesis" by (cases f) auto
qed auto

lemma clean_pattern:
  assumes "clean_report (compare_pattern scope p old new)" "s_role scope = Request" "pattern_ok m old x"
  shows "pattern_ok m new x"
proof (cases "get_member new ''pattern''")
  case (JStr pat)
  then have "get_member old ''pattern'' = JStr pat"
    using assms(1) clean_keyword [OF assms(2)] py_eq_str
    by (auto simp: compare_pattern_def Let_def split: if_splits)
  with JStr assms(3) show ?thesis by (simp add: pattern_ok_def)
qed (simp_all add: pattern_ok_def)

lemma clean_required:
  assumes "clean_report (compare_required scope p old new)" "s_role scope = Request" "required_ok old x"
  shows "required_ok new x"
proof -
  obtain R S where R: "required_set old = Inr R" "required_set new = Inr S"
    and c: "list_all clean (map (\<lambda>name. scope_keyword scope p (U ''required'') True (JStr name) (JBool False) (JBool True))
        (sorted_list_of_set (S - R)))"
    using assms(1) by (auto simp: compare_required_def clean_rbind)
  have "finite S" using R(2) by (auto simp: required_set_def Let_def rbind_Inr_iff split: if_splits json.splits)
  with c have "S \<subseteq> R" using clean_keyword [OF assms(2)] by (auto simp: list_all_iff)
  with R assms(3) show ?thesis by (auto simp: required_ok_def split: json.splits)
qed

lemma bound_value_num: "bound_value v = Inr b \<Longrightarrow> b = num_value v"
  by (cases v) (auto simp: bound_value_def split: if_splits)

lemma clean_bound:
  assumes "clean_report (compare_bound tighter scope p old new kw)" "s_role scope = Request" "bound_ok tighter old x kw"
    and trans: "\<And>a b c. \<not> tighter a b \<Longrightarrow> \<not> tighter b c \<Longrightarrow> \<not> tighter a c"
    and top: "\<And>a. \<not> tighter None a"
  shows "bound_ok tighter new x kw"
proof (cases "py_eq (get_member old kw) (get_member new kw)")
  case True
  from py_eq_num [OF this] assms(3) show ?thesis by (simp add: bound_ok_def)
next
  case False
  with assms(1) clean_keyword [OF assms(2)]
  have t: "\<not> tighter (num_value (get_member new kw)) (num_value (get_member old kw))"
    by (auto simp: compare_bound_def Let_def clean_rbind dest!: bound_value_num split: if_splits)
  have "bound_ok tighter s x kw \<longleftrightarrow> (case measured kw x of None \<Rightarrow> True | Some v \<Rightarrow> \<not> tighter (num_value (get_member s kw)) (Some v))" for s
    using top by (auto simp: bound_ok_def split: option.split)
  with t assms(3) trans show ?thesis by (auto split: option.splits)
qed

lemma tighter_trans:
  "\<not> below_max a b \<Longrightarrow> \<not> below_max b c \<Longrightarrow> \<not> below_max a c"
  "\<not> above_min a b \<Longrightarrow> \<not> above_min b c \<Longrightarrow> \<not> above_min a c"
  "\<not> below_max None a" "\<not> above_min None a"
  by (auto simp: below_max_def above_min_def split: option.splits)

section \<open>Soundness\<close>

fun ref_free :: "json \<Rightarrow> bool" where
  "ref_free (JArr ts) = (\<forall>t \<in> set ts. ref_free t)"
| "ref_free (JObj kts) = (\<forall>kt \<in> set kts. fst kt \<noteq> U ''$ref'' \<and> ref_free (snd kt))"
| "ref_free t = True"

lemma ref_free_get: "ref_free t \<Longrightarrow> ref_free (get_member t k)"
  by (cases t) (auto simp: member_or_def split: option.split dest!: map_of_SomeD)

lemma ref_free_sub:
  "ref_free t \<Longrightarrow> (k, u) \<in> set (members t) \<Longrightarrow> ref_free u"
  "ref_free t \<Longrightarrow> u \<in> set (elements t) \<Longrightarrow> ref_free u"
  by (cases t; force)+

lemma plain_sub:
  "plain_json t \<Longrightarrow> (k, u) \<in> set (members t) \<Longrightarrow> plain_json u"
  "plain_json t \<Longrightarrow> u \<in> set (elements t) \<Longrightarrow> plain_json u"
  "plain_json t \<Longrightarrow> distinct (map fst (members t))"
  by (cases t; force)+

lemma ref_free_deref:
  assumes "ref_free t"
  shows "deref split t base reg visited = Some \<lparr>r_node = t, r_base = base, r_visited = visited, r_cyclic = False\<rparr>"
proof -
  have "get_member t ''$ref'' = JNull"
    using assms by (cases t) (auto simp: member_or_def split: option.split dest!: map_of_SomeD)
  then show ?thesis unfolding deref_def by (subst deref_hops.simps) simp
qed

text \<open>What one level of the comparison relies on: every pair it recurses into is sound.\<close>

definition sound_recursion :: "judge \<Rightarrow> recursion \<Rightarrow> bool" where
  "sound_recursion m recurse \<longleftrightarrow>
     (\<forall>a b p x. clean_report (recurse a b p) \<longrightarrow> ref_free a \<longrightarrow> ref_free b \<longrightarrow> plain_json b \<longrightarrow>
        validates m a x \<longrightarrow> validates m b x)"

lemma sound_recursionD:
  "sound_recursion m recurse \<Longrightarrow> clean_report (recurse a b p) \<Longrightarrow> ref_free a \<Longrightarrow> ref_free b \<Longrightarrow> plain_json b \<Longrightarrow>
   validates m a x \<Longrightarrow> validates m b x"
  by (auto simp: sound_recursion_def)

text \<open>The members of an object schema: \<open>k\<close> is what \<open>properties\<close> or \<open>patternProperties\<close> maps a name to.\<close>

lemma clean_properties:
  assumes c: "clean_report (compare_properties recurse scope p old new ro rn)" and r: "s_role scope = Request"
  shows "map_of (members (get_member new ''properties'')) k = Some b \<Longrightarrow>
      \<exists>a q. map_of (members (get_member old ''properties'')) k = Some a \<and> clean_report (recurse a b q)"
    and "map_of (members (get_member new ''properties'')) k = None \<Longrightarrow> 1 \<le> rn \<Longrightarrow>
      map_of (members (get_member old ''properties'')) k = None"
proof -
  let ?o = "members (get_member old ''properties'')" and ?n = "members (get_member new ''properties'')"
  have each: "clean_report (case (map_of ?o k, map_of ?n k) of
       (Some x, None) \<Rightarrow> Inr [property_removed scope (p @ U ''/properties/'' @ k) k rn]
     | (Some x, Some y) \<Rightarrow> recurse x y (p @ U ''/properties/'' @ k)
     | (None, _) \<Rightarrow> Inr [property_added scope (p @ U ''/properties/'' @ k) k ro])"
    if "k \<in> fst ` set ?o \<or> k \<in> fst ` set ?n"
    using c that unfolding compare_properties_def Let_def clean_in_order by (auto simp: list_all_iff)
  have added: "\<not> clean (property_added scope q k ro)" for q
    using r by (simp add: property_added_def clean_keyword clean_emit)
  show "\<exists>a q. map_of ?o k = Some a \<and> clean_report (recurse a b q)" if n: "map_of ?n k = Some b"
  proof -
    from n have "k \<in> fst ` set ?n" by (force dest: map_of_SomeD)
    with each n added show ?thesis by (cases "map_of ?o k") auto
  qed
  show "map_of ?o k = None" if n: "map_of ?n k = None" "1 \<le> rn"
  proof (rule ccontr)
    assume "map_of ?o k \<noteq> None"
    then obtain a where a: "map_of ?o k = Some a" by blast
    then have "k \<in> fst ` set ?o" by (force dest: map_of_SomeD)
    with each n a r show False by (simp add: property_removed_def clean_keyword)
  qed
qed

lemma clean_pattern_properties:
  assumes c: "clean_report (compare_pattern_properties recurse scope p old new ro rn)" and r: "s_role scope = Request"
  shows "map_of (members (get_member new ''patternProperties'')) k = Some b \<Longrightarrow>
      \<exists>a q. map_of (members (get_member old ''patternProperties'')) k = Some a \<and> clean_report (recurse a b q)"
    and "map_of (members (get_member new ''patternProperties'')) k = None \<Longrightarrow> 1 \<le> rn \<Longrightarrow>
      map_of (members (get_member old ''patternProperties'')) k = None"
proof -
  let ?o = "members (get_member old ''patternProperties'')" and ?n = "members (get_member new ''patternProperties'')"
  have each: "clean_report (case (map_of ?o k, map_of ?n k) of
       (Some x, None) \<Rightarrow> Inr [scope_keyword scope (p @ U ''/patternProperties/'' @ k) (U ''patternProperties_removed'')
          (1 \<le> rn) (JStr k) (JBool True) (JBool False)]
     | (Some x, Some y) \<Rightarrow> recurse x y (p @ U ''/patternProperties/'' @ k)
     | (None, _) \<Rightarrow> Inr [pattern_property_added scope (p @ U ''/patternProperties/'' @ k) k ro])"
    if "k \<in> fst ` set ?o \<or> k \<in> fst ` set ?n"
    using c that unfolding compare_pattern_properties_def Let_def clean_in_order by (auto simp: list_all_iff)
  have added: "\<not> clean (pattern_property_added scope q k ro)" for q
    using r by (simp add: pattern_property_added_def clean_keyword clean_emit)
  show "\<exists>a q. map_of ?o k = Some a \<and> clean_report (recurse a b q)" if n: "map_of ?n k = Some b"
  proof -
    from n have "k \<in> fst ` set ?n" by (force dest: map_of_SomeD)
    with each n added show ?thesis by (cases "map_of ?o k") auto
  qed
  show "map_of ?o k = None" if n: "map_of ?n k = None" "1 \<le> rn"
  proof (rule ccontr)
    assume "map_of ?o k \<noteq> None"
    then obtain a where a: "map_of ?o k = Some a" by blast
    then have "k \<in> fst ` set ?o" by (force dest: map_of_SomeD)
    with each n a r show False by (simp add: clean_keyword)
  qed
qed

lemma rank_dict: "is_dict (get_member s ''additionalProperties'') \<longleftrightarrow> closedness_rank s = 1"
  by (auto simp: closedness_rank_def member_or_def split: option.splits json.splits)

lemma rank_cases: "closedness_rank s = 0 \<or> closedness_rank s = 1 \<or> closedness_rank s = 2"
  by (auto simp: closedness_rank_def split: json.splits)

lemma clean_additional:
  assumes "clean_report (compare_additional_properties recurse scope p old new)" "s_role scope = Request"
  shows "closedness_rank new \<le> closedness_rank old"
    and "closedness_rank old = 1 \<Longrightarrow> closedness_rank new = 1 \<Longrightarrow>
      \<exists>q. clean_report (recurse (get_member old ''additionalProperties'') (get_member new ''additionalProperties'') q)"
  using assms clean_keyword [OF assms(2)]
  by (auto simp: compare_additional_properties_def Let_def clean_in_order rank_dict simp del: in_order_simps
      split: if_splits)

lemma clean_items:
  assumes "clean_report (compare_items recurse scope p old new)" "s_role scope = Request"
    "is_dict (get_member new ''items'')"
  shows "is_dict (get_member old ''items'') \<and>
    (\<exists>q. clean_report (recurse (get_member old ''items'') (get_member new ''items'') q))"
  using assms clean_keyword [OF assms(2)] py_eq_dict [of "get_member old ''items''" "get_member new ''items''"]
  by (auto simp: compare_items_def Let_def clean_emit split: if_splits)

lemma clean_branches:
  "list_all clean_report (compare_branches recurse p i obs nbs) \<Longrightarrow> length obs = length nbs \<Longrightarrow>
   list_all2 (\<lambda>a b. \<exists>q. clean_report (recurse a b q)) obs nbs"
proof (induction obs arbitrary: i nbs)
  case (Cons ob obs)
  then show ?case by (cases nbs) auto
qed simp

lemma clean_combinator:
  assumes "clean_report (compare_combinator recurse scope p old new c)" "s_role scope = Request"
    "is_list (get_member new c)" "elements (get_member new c) \<noteq> [] \<or> c \<noteq> ''allOf''"
  shows "is_list (get_member old c) \<and>
    list_all2 (\<lambda>a b. \<exists>q. clean_report (recurse a b q)) (elements (get_member old c)) (elements (get_member new c))"
proof -
  have new: "get_member new c \<noteq> JNull" using assms(3) by auto
  have appeared: "\<not> clean (combinator_appeared scope q c (elements (get_member new c)))" for q
    using assms(4) clean_keyword [OF assms(2)] by (auto simp: combinator_appeared_def)
  have "\<not> clean (scope_emit scope q rule Breaking)" for q rule
    by (simp add: clean_emit)
  moreover have "\<not> clean (emit file q rule Breaking role subject x y)" for "file" q rule role subject x y
    by (simp add: clean_def emit_def)
  ultimately show ?thesis
    using assms(1,3) new appeared
    by (auto simp: compare_combinator_def compare_combinator_branches_def Let_def clean_in_order
        split: if_splits intro: clean_branches)
qed

lemma sound_members:
  assumes c: "clean_report (compare_keywords recurse scope p old new)" and r: "s_role scope = Request"
    and sound: "sound_recursion m recurse"
    and rf: "ref_free old" "ref_free new" "plain_json new" and dicts: "is_dict old" "is_dict new"
    and v: "validates m old x" and kv: "(k, v) \<in> set (members x)"
  shows "member_ok m new k v"
proof -
  let ?P = "\<lambda>s. members (get_member s ''properties'')" and ?Q = "\<lambda>s. members (get_member s ''patternProperties'')"
    and ?A = "\<lambda>s. get_member s ''additionalProperties''"
  have c': "clean_report (compare_properties recurse scope p old new (closedness_rank old) (closedness_rank new))"
    "clean_report (compare_pattern_properties recurse scope p old new (closedness_rank old) (closedness_rank new))"
    "clean_report (compare_additional_properties recurse scope p old new)"
    using c by (auto simp: compare_keywords_def Let_def clean_in_order simp del: in_order_simps)
  note P = clean_properties [OF c'(1) r] and Q = clean_pattern_properties [OF c'(2) r]
    and A = clean_additional [OF c'(3) r]
  have "member_ok m old k v" using v kv dicts by (auto simp: validates_dict list_all_iff)
  note old = this [unfolded member_ok_def, THEN conjunct1] this [unfolded member_ok_def, THEN conjunct2, THEN conjunct1]
    this [unfolded member_ok_def, THEN conjunct2, THEN conjunct2]
  have step: "validates m b v" if "clean_report (recurse a b q)" "validates m a v"
      "(n, a) \<in> set (members (get_member old kw))" "(n', b) \<in> set (members (get_member new kw'))" for a b q n n' kw kw'
    using sound_recursionD [OF sound that(1) _ _ _ that(2)]
      ref_free_sub(1) [OF ref_free_get [OF rf(1)] that(3)] ref_free_sub(1) [OF ref_free_get [OF rf(2)] that(4)]
      plain_sub(1) [OF plain_get_member [OF rf(3)] that(4)] by blast
  have props: "validates m b v" if b: "map_of (?P new) k = Some b" for b
  proof -
    obtain a q where "map_of (?P old) k = Some a" "clean_report (recurse a b q)" using P(1) [OF b] by blast
    with old(1) step [of a b q k "''properties''" k "''properties''"] b show ?thesis by (auto dest: map_of_SomeD)
  qed
  have pats: "validates m b v" if b: "(pat, b) \<in> set (?Q new)" "regex_finds m pat k" for pat b
  proof -
    have "map_of (?Q new) pat = Some b"
      using b(1) plain_sub(3) [OF plain_get_member [OF rf(3)]] by simp
    from Q(1) [OF this] obtain a q where a: "map_of (?Q old) pat = Some a" "clean_report (recurse a b q)" by blast
    with old(2) b(2) have "validates m a v" by (auto simp: list_all_iff dest!: map_of_SomeD)
    with a b(1) step [of a b q pat "''patternProperties''" pat "''patternProperties''"] show ?thesis
      by (auto dest: map_of_SomeD)
  qed
  have additional: "if is_dict (?A new) then validates m (?A new) v else closedness_rank new \<noteq> 2"
    if n: "map_of (?P new) k = None" "\<not> list_ex (\<lambda>(pat, p). regex_finds m pat k) (?Q new)"
  proof (cases "closedness_rank new = 0")
    case True
    then show ?thesis by (simp add: rank_dict)
  next
    case False
    then have rn: "1 \<le> closedness_rank new" by simp
    have "map_of (?P old) k = None" using P(2) [OF n(1) rn] .
    moreover have "\<not> list_ex (\<lambda>(pat, p). regex_finds m pat k) (?Q old)"
    proof
      assume "list_ex (\<lambda>(pat, p). regex_finds m pat k) (?Q old)"
      then obtain pat a where a: "(pat, a) \<in> set (?Q old)" "regex_finds m pat k" by (auto simp: list_ex_iff)
      from a(1) have "pat \<in> fst ` set (?Q old)" by (rule image_eqI [rotated]) simp
      then have "map_of (?Q old) pat \<noteq> None" by (simp add: map_of_eq_None_iff)
      with Q(2) [of pat, OF _ rn] obtain b where "map_of (?Q new) pat = Some b" by (cases "map_of (?Q new) pat") auto
      then have "(pat, b) \<in> set (?Q new)" by (rule map_of_SomeD)
      with a(2) n(2) show False by (auto simp: list_ex_iff)
    qed
    ultimately have o: "if is_dict (?A old) then validates m (?A old) v else closedness_rank old \<noteq> 2"
      using old(3) by simp
    with A(1) rn rank_cases [of old] rank_cases [of new] have ranks: "closedness_rank old = 1" "closedness_rank new = 1"
      by (auto simp: rank_dict split: if_splits)
    from A(2) [OF this] obtain q where "clean_report (recurse (?A old) (?A new) q)" by blast
    from sound_recursionD [OF sound this ref_free_get [OF rf(1)] ref_free_get [OF rf(2)] plain_get_member [OF rf(3)]] o ranks
    show ?thesis by (simp add: rank_dict)
  qed
  show ?thesis unfolding member_ok_def using props pats additional by (auto simp: list_all_iff split: option.split)
qed

lemma sound_keywords:
  assumes c: "clean_report (compare_keywords recurse scope p old new)" and r: "s_role scope = Request"
    and sound: "sound_recursion m recurse"
    and rf: "ref_free old" "ref_free new" "plain_json new" and dicts: "is_dict old" "is_dict new"
    and v: "validates m old x"
  shows "validates m new x"
proof -
  have parts: "clean_report (compare_type scope p old new)" "clean_report (compare_enum scope p old new)"
    "clean_report (compare_pattern scope p old new)" "clean_report (compare_required scope p old new)"
    "clean_report (compare_max_bounds scope p old new)" "clean_report (compare_min_bounds scope p old new)"
    "clean_report (compare_items recurse scope p old new)"
    "clean_report (compare_combinator recurse scope p old new ''anyOf'')"
    "clean_report (compare_combinator recurse scope p old new ''allOf'')"
    using c by (auto simp: compare_keywords_def Let_def clean_in_order simp del: in_order_simps)
  have old: "type_ok old x" "enum_ok m old x" "pattern_ok m old x" "required_ok old x"
    "list_all (bound_ok below_max old x) MAX_KEYS" "list_all (bound_ok above_min old x) MIN_KEYS"
    "is_dict (get_member old ''items'') \<Longrightarrow> list_all (validates m (get_member old ''items'')) (elements x)"
    "is_list (get_member old ''anyOf'') \<Longrightarrow> list_ex (\<lambda>t. validates m t x) (elements (get_member old ''anyOf''))"
    "list_all (\<lambda>t. validates m t x) (elements (get_member old ''allOf''))"
    using v dicts by (simp_all add: validates_dict)
  have bounds: "list_all (bound_ok below_max new x) MAX_KEYS" "list_all (bound_ok above_min new x) MIN_KEYS"
    using parts(5,6) old(5,6) clean_bound [OF _ r] tighter_trans
    unfolding compare_max_bounds_def compare_min_bounds_def clean_in_order list_all_iff by force+
  have items: "list_all (validates m (get_member new ''items'')) (elements x)" if "is_dict (get_member new ''items'')"
    using clean_items [OF parts(7) r that] old(7) sound_recursionD [OF sound _ ref_free_get [OF rf(1)] ref_free_get [OF rf(2)]
        plain_get_member [OF rf(3)]] by (auto simp: list_all_iff)
  have branch: "validates m b y" if "\<exists>q. clean_report (recurse a b q)" "validates m a y"
      "a \<in> set (elements (get_member old kw))" "b \<in> set (elements (get_member new kw))" for a b y kw
    using that(1) sound_recursionD [OF sound _ _ _ _ that(2)] ref_free_sub(2) [OF ref_free_get [OF rf(1)] that(3)]
      ref_free_sub(2) [OF ref_free_get [OF rf(2)] that(4)] plain_sub(2) [OF plain_get_member [OF rf(3)] that(4)] by blast
  have any: "list_ex (\<lambda>t. validates m t x) (elements (get_member new ''anyOf''))" if "is_list (get_member new ''anyOf'')"
  proof -
    have l: "is_list (get_member old ''anyOf'')"
      "list_all2 (\<lambda>a b. \<exists>q. clean_report (recurse a b q)) (elements (get_member old ''anyOf'')) (elements (get_member new ''anyOf''))"
      using clean_combinator [OF parts(8) r that] by auto
    from old(8) [OF l(1)] obtain a where a: "a \<in> set (elements (get_member old ''anyOf''))" "validates m a x"
      by (auto simp: list_ex_iff)
    from list_all2_mem [OF l(2) a(1)] obtain b where "b \<in> set (elements (get_member new ''anyOf''))"
      "\<exists>q. clean_report (recurse a b q)" by blast
    with branch [OF this(2) a(2) a(1) this(1)] show ?thesis by (auto simp: list_ex_iff)
  qed
  have all: "list_all (\<lambda>t. validates m t x) (elements (get_member new ''allOf''))"
  proof (cases "is_list (get_member new ''allOf'') \<and> elements (get_member new ''allOf'') \<noteq> []")
    case True
    then have "list_all2 (\<lambda>a b. \<exists>q. clean_report (recurse a b q)) (elements (get_member old ''allOf'')) (elements (get_member new ''allOf''))"
      using clean_combinator [OF parts(9) r] by auto
    from list_all2_mem [OF list.rel_flip [THEN iffD2, OF this]] branch old(9) show ?thesis
      by (fastforce simp: list_all_iff)
  next
    case False
    then show ?thesis by (cases "get_member new ''allOf''") auto
  qed
  have mem: "list_all (\<lambda>(k, v). member_ok m new k v) (members x)"
    using sound_members [OF c r sound rf dicts v] by (auto simp: list_all_iff)
  show ?thesis
    unfolding validates_dict [OF dicts(2)]
    using clean_type [OF parts(1) r old(1)] clean_enum [OF parts(2) r old(2)] clean_pattern [OF parts(3) r old(3)]
      clean_required [OF parts(4) r old(4)] bounds items any all mem by simp
qed

lemma sound_node:
  "s_role scope = Request \<Longrightarrow> sound_recursion m (compare_node split levels scope)"
proof (induction levels)
  case 0
  then show ?case by (simp add: sound_recursion_def clean_emit)
next
  case (Suc levels)
  note IH = Suc.IH [OF Suc.prems]
  show ?case
    unfolding sound_recursion_def
  proof (intro allI impI)
    fix a b p x
    assume c: "clean_report (compare_node split (Suc levels) scope a b p)"
      and rf: "ref_free a" "ref_free b" "plain_json b" and v: "validates m a x"
    have scope: "scope\<lparr>old_base := old_base scope, new_base := new_base scope,
        old_visited := old_visited scope, new_visited := new_visited scope\<rparr> = scope" by simp
    show "validates m b x"
    proof (cases "is_dict a \<and> is_dict b")
      case True
      with c have "clean_report (compare_keywords (compare_node split levels scope) scope p a b)"
        by (simp add: resolve_node_pair_def ref_free_deref rf scope)
      from sound_keywords [OF this Suc.prems IH rf _ _ v] True show ?thesis by simp
    next
      case False
      with c have eq: "py_eq a b"
        by (auto simp: resolve_node_pair_def ref_free_deref rf clean_emit split: if_splits)
      with False py_eq_dict have "\<not> is_dict a" "\<not> is_dict b" by blast+
      with v py_eq_num [OF eq] show ?thesis by (simp add: validates.simps)
    qed
  qed
qed


section \<open>Concrete inputs\<close>

definition sample_scope :: "role \<Rightarrow> node_scope" where
  "sample_scope role = \<lparr>old_base = [], new_base = [], old_reg = (\<lambda>_. None), new_reg = (\<lambda>_. None),
     old_visited = {}, new_visited = {}, s_role = role, s_file = U ''a.json''\<rparr>"

definition short_text :: "int \<Rightarrow> json" where
  "short_text n = JObj [(U ''type'', JStr (U ''string'')), (U ''maxLength'', JInt n)]"

definition only_a :: json where
  "only_a = JObj [(U ''enum'', JArr [JStr (U ''a'')])]"

lemma short_text_raised:
  "compare_node (\<lambda>b r. (b, r)) 1 (sample_scope role) (short_text 5) (short_text 9) (U ''#'') =
   Inr [keyword_finding (U ''a.json'') (U ''#'') role (U ''maxLength'') False JNull (JInt 5) (JInt 9)]"
  by (cases role) (code_simp)+

definition sample_judge :: judge where
  "sample_judge = \<lparr>regex_finds = (\<lambda>pat s. True), prints_equal = (\<lambda>text x. text = dumps plain_dump x)\<rparr>"

lemma conservative_is_union_witness:
  "f_severity (keyword_finding (U ''a.json'') (U ''#'') Conservative (U ''maxLength'') False JNull (JInt 5) (JInt 9)) = Breaking"
proof -
  note l = short_text_raised
  have c: "compare_node (\<lambda>b r. (b, r)) 1 ((sample_scope Request)\<lparr>s_role := role\<rparr>) (short_text 5) (short_text 9) (U ''#'') =
      Inr [keyword_finding (U ''a.json'') (U ''#'') role (U ''maxLength'') False JNull (JInt 5) (JInt 9)]" for role
    using l [of role] by (simp add: sample_scope_def)
  from conservative_is_union [OF c c c] show ?thesis
    by (simp add: keyword_finding_def emit_def keyword_severity_def)
qed

lemma unchanged_schema_is_quiet_witness:
  "f_rule (scope_emit (sample_scope Request) (U ''#'') (U ''depth_limit'') Info) \<in> {U ''depth_limit'', U ''unresolved_ref'', U ''cyclic_ref'',
     U ''oneOf_shape_changed'', U ''anyOf_shape_changed'', U ''allOf_shape_changed''}"
  by (rule unchanged_schema_is_quiet [of "\<lambda>b r. (b, r)" 0 "sample_scope Request" JNull "U ''#''"
        "[scope_emit (sample_scope Request) (U ''#'') (U ''depth_limit'') Info]"])
    (simp_all add: sample_scope_def)


section \<open>What the classification misses\<close>

text \<open>An \<open>enum\<close> introduced into a request schema is reported as a widening, and one dropped from a
  response schema as a narrowing, so neither blocks: instances lose, or gain, validity unnoticed.\<close>

lemma enum_introduced_is_info:
  "compare_node (\<lambda>b r. (b, r)) 1 (sample_scope Request) (JObj []) only_a (U ''#'') =
     Inr [keyword_finding (U ''a.json'') (U ''#'') Request (U ''enum'') False
       (direction_subject ''added'' {U ''<enum constraint added>''}) JNull (JArr [JStr (dumps plain_dump (JStr (U ''a'')))])]"
  "validates sample_judge (JObj []) (JStr (U ''b'')) \<and> \<not> validates sample_judge only_a (JStr (U ''b''))"
  by code_simp+

lemma enum_dropped_is_info:
  "compare_node (\<lambda>b r. (b, r)) 1 (sample_scope Response) only_a (JObj []) (U ''#'') =
     Inr [keyword_finding (U ''a.json'') (U ''#'') Response (U ''enum'') True
       (direction_subject ''removed'' {U ''<enum constraint removed entirely>''}) (JArr [JStr (dumps plain_dump (JStr (U ''a'')))]) JNull]"
  by code_simp

text \<open>A property schema added to an open request object rejects values the old schema let through.\<close>

lemma property_added_narrows:
  "compare_node (\<lambda>b r. (b, r)) 1 (sample_scope Request) (JObj [])
      (JObj [(U ''properties'', JObj [(U ''n'', short_text 9)])]) (U ''#'') =
     Inr [scope_emit (sample_scope Request) (U ''#/properties/n'') (U ''property_added'') Info]"
  "validates sample_judge (JObj []) (JObj [(U ''n'', JInt 1)]) \<and>
   \<not> validates sample_judge (JObj [(U ''properties'', JObj [(U ''n'', short_text 9)])]) (JObj [(U ''n'', JInt 1)])"
  by code_simp+

text \<open>An unchanged schema with a combinator that is not a list is reported as a breaking change.\<close>

lemma unchanged_combinator_is_breaking:
  "compare_node (\<lambda>b r. (b, r)) 1 (sample_scope Request) (JObj [(U ''anyOf'', JObj [])]) (JObj [(U ''anyOf'', JObj [])]) (U ''#'') =
     Inr [scope_emit (sample_scope Request) (U ''#/anyOf'') (U ''anyOf_shape_changed'') Breaking]"
  by code_simp

end
