(* ===== verification/BreakingEndpoints.thy ===== *)
theory BreakingEndpoints
  imports BreakingLaws "HOL-Library.AList"
begin

text \<open>
  The OpenAPI walker of \<open>scripts/breaking_schema_check.py\<close>: request bodies, parameters and responses
  of the operations two versions of an endpoints document share, and the operations only one of
  them has. Message texts are not modelled. Registering a resource in a registry of \<open>referencing\<close>
  makes its URI resolve to it and leaves the other URIs alone.
\<close>

section \<open>Local definitions\<close>

text \<open>\<open>urllib.parse.quote(s, safe='')\<close>.\<close>

definition quote_safe :: "nat \<Rightarrow> bool" where
  "quote_safe c \<longleftrightarrow> is_digit c \<or> 65 \<le> c \<and> c \<le> 90 \<or> 97 \<le> c \<and> c \<le> 122 \<or> c \<in> {95, 46, 45, 126}"

definition upper_hex :: "nat \<Rightarrow> nat" where
  "upper_hex d = (if d < 10 then 48 + d else 55 + d)"

definition quote_byte :: "byte \<Rightarrow> ustr" where
  "quote_byte b =
     (if quote_safe (unat b) then [unat b] else [37, upper_hex (unat b div 16), upper_hex (unat b mod 16)])"

definition quote :: "ustr \<Rightarrow> ustr" where
  "quote s = concat (map quote_byte (utf8 s))"

definition localize_schema_fragment :: "registry \<Rightarrow> ustr \<Rightarrow> ustr \<Rightarrow> json \<Rightarrow> registry \<times> ustr" where
  "localize_schema_fragment reg base_uri fragment_pointer fragment =
     (if json_member fragment (U ''definitions'') = None \<and> json_member fragment (U ''$defs'') = None
      then (reg, base_uri)
      else let local_uri = base_uri @ U ''?local-fragment-scope='' @ quote fragment_pointer
           in (reg(local_uri := Some fragment), local_uri))"

section \<open>Media types\<close>

text \<open>The per-document state every part of an operation comparison shares.\<close>

record operation_scope =
  o_file :: ustr
  o_old_base :: ustr
  o_new_base :: ustr
  o_old_reg :: registry
  o_new_reg :: registry

definition op_emit :: "operation_scope \<Rightarrow> ustr \<Rightarrow> ustr \<Rightarrow> severity \<Rightarrow> role \<Rightarrow> finding" where
  "op_emit scope pointer rule severity role = emit (o_file scope) pointer rule severity role JNull JNull JNull"

definition fresh_scope :: "operation_scope \<Rightarrow> registry \<Rightarrow> ustr \<Rightarrow> registry \<Rightarrow> ustr \<Rightarrow> role \<Rightarrow> node_scope" where
  "fresh_scope scope oreg obase nreg nbase role =
     \<lparr>old_base = obase, new_base = nbase, old_reg = oreg, new_reg = nreg, old_visited = {}, new_visited = {},
      s_role = role, s_file = o_file scope\<rparr>"

definition media_schema :: "(ustr \<times> json) list \<Rightarrow> ustr \<Rightarrow> diff_error + json" where
  "media_schema content media_type =
     (case map_of content media_type of
        None \<Rightarrow> Inr JNull
      | Some v \<Rightarrow>
          if \<not> json_truthy v then Inr JNull
          else if is_dict v then Inr (get_member v ''schema'') else Inl AttributeError)"

definition compare_media_type ::
  "splitter \<Rightarrow> operation_scope \<Rightarrow> role \<Rightarrow> ustr \<Rightarrow> json \<Rightarrow> json \<Rightarrow> findings" where
  "compare_media_type split scope role mp old_schema new_schema =
     (if is_dict old_schema \<and> is_dict new_schema
      then
        let (oreg, obase) = localize_schema_fragment (o_old_reg scope) (o_old_base scope) mp old_schema;
            (nreg, nbase) = localize_schema_fragment (o_new_reg scope) (o_new_base scope) mp new_schema
        in compare_node split node_levels (fresh_scope scope oreg obase nreg nbase role) old_schema new_schema mp
      else if old_schema = JNull \<and> is_dict new_schema
      then Inr [op_emit scope mp (U ''schema_added'') Info role]
      else if is_dict old_schema \<and> new_schema = JNull
      then Inr [op_emit scope mp (U ''schema_removed'') Breaking role]
      else Inr [])"

definition compare_media_schemas ::
  "splitter \<Rightarrow> operation_scope \<Rightarrow> json \<Rightarrow> json \<Rightarrow> role \<Rightarrow> ustr \<Rightarrow> findings" where
  "compare_media_schemas split scope old_content new_content role pointer =
     in_order (map (\<lambda>media_type.
       rbind (media_schema (members old_content) media_type) (\<lambda>old_schema.
       rbind (media_schema (members new_content) media_type) (\<lambda>new_schema.
         compare_media_type split scope role (pointer @ U ''/content/'' @ media_type @ U ''/schema'') old_schema new_schema)))
     (sorted_keys (members old_content) (members new_content)))"

section \<open>Operations\<close>

definition compare_required_flag ::
  "operation_scope \<Rightarrow> ustr \<Rightarrow> json \<Rightarrow> json \<Rightarrow> ustr \<Rightarrow> ustr \<Rightarrow> finding list" where
  "compare_required_flag scope pointer old_obj new_obj became_required became_optional =
     (let old_flag = json_truthy (member_or (JBool False) old_obj ''required'');
          new_flag = json_truthy (member_or (JBool False) new_obj ''required'')
      in if \<not> old_flag \<and> new_flag then [op_emit scope pointer became_required Breaking Request]
         else if old_flag \<and> \<not> new_flag then [op_emit scope pointer became_optional Info Request]
         else [])"

definition compare_request_body :: "splitter \<Rightarrow> operation_scope \<Rightarrow> ustr \<Rightarrow> json \<Rightarrow> json \<Rightarrow> findings" where
  "compare_request_body split scope pointer old_rb new_rb =
     (let rb_pointer = pointer @ U ''/requestBody'' in
      if is_dict old_rb \<and> is_dict new_rb
      then in_order
        [Inr (compare_required_flag scope rb_pointer old_rb new_rb (U ''request_body_required'') (U ''request_body_optional'')),
         compare_media_schemas split scope (get_member old_rb ''content'') (get_member new_rb ''content'') Request rb_pointer]
      else if old_rb = JNull \<and> is_dict new_rb
      then Inr [op_emit scope rb_pointer (U ''request_body_added'')
                  (if json_truthy (get_member new_rb ''required'') then Breaking else Info) Request]
      else if is_dict old_rb \<and> new_rb = JNull
      then Inr [op_emit scope rb_pointer (U ''request_body_removed'') Info Request]
      else Inr [])"

text \<open>Parameters by name, a repeated name keeping the last of them.\<close>

fun add_parameter :: "(ustr \<times> json) list \<Rightarrow> json list \<Rightarrow> diff_error + (ustr \<times> json) list" where
  "add_parameter named [] = Inr named"
| "add_parameter named (p # ps) =
     (case json_member p (U ''name'') of
        None \<Rightarrow> add_parameter named ps
      | Some (JStr name) \<Rightarrow> add_parameter (AList.update name p named) ps
      | Some v \<Rightarrow> Inl Unmodelled)"

definition named_parameters :: "json \<Rightarrow> diff_error + (ustr \<times> json) list" where
  "named_parameters opn =
     (let v = get_member opn ''parameters'' in
      if \<not> json_truthy v then Inr []
      else case v of
        JArr ps \<Rightarrow> add_parameter [] ps
      | JObj kts \<Rightarrow> Inr []
      | JStr s \<Rightarrow> Inr []
      | _ \<Rightarrow> Inl TypeError)"

definition compare_shared_parameter :: "splitter \<Rightarrow> operation_scope \<Rightarrow> ustr \<Rightarrow> json \<Rightarrow> json \<Rightarrow> findings" where
  "compare_shared_parameter split scope ptr old_param new_param =
     (let old_pschema = get_member old_param ''schema''; new_pschema = get_member new_param ''schema'' in
      in_order
        [Inr (compare_required_flag scope ptr old_param new_param (U ''parameter_required'') (U ''parameter_optional'')),
         if is_dict old_pschema \<and> is_dict new_pschema
         then compare_node split node_levels
                (fresh_scope scope (o_old_reg scope) (o_old_base scope) (o_new_reg scope) (o_new_base scope) Request)
                old_pschema new_pschema (ptr @ U ''/schema'')
         else Inr []])"

definition compare_parameters :: "splitter \<Rightarrow> operation_scope \<Rightarrow> ustr \<Rightarrow> json \<Rightarrow> json \<Rightarrow> findings" where
  "compare_parameters split scope pointer old_op new_op =
     rbind (named_parameters old_op) (\<lambda>old_params.
     rbind (named_parameters new_op) (\<lambda>new_params.
       in_order (map (\<lambda>name.
         let ptr = pointer @ U ''/parameters/'' @ name in
         case (map_of old_params name, map_of new_params name) of
           (Some old_param, None) \<Rightarrow>
             Inr [op_emit scope ptr (U ''parameter_removed'')
                    (if json_truthy (get_member old_param ''required'') then Breaking else Info) Request]
         | (Some old_param, Some new_param) \<Rightarrow> compare_shared_parameter split scope ptr old_param new_param
         | (None, Some new_param) \<Rightarrow>
             Inr [op_emit scope ptr (U ''parameter_added'')
                    (if json_truthy (get_member new_param ''required'') then Breaking else Info) Request]
         | (None, None) \<Rightarrow> Inr [])
       (sorted_keys old_params new_params))))"

definition compare_responses :: "splitter \<Rightarrow> operation_scope \<Rightarrow> ustr \<Rightarrow> json \<Rightarrow> json \<Rightarrow> findings" where
  "compare_responses split scope pointer old_op new_op =
     (let old_resp = members (get_member old_op ''responses'');
          new_resp = members (get_member new_op ''responses'')
      in in_order (map (\<lambda>status.
           let ptr = pointer @ U ''/responses/'' @ status in
           case (map_of old_resp status, map_of new_resp status) of
             (Some x, None) \<Rightarrow> Inr [op_emit scope ptr (U ''response_status_removed'') Breaking Response]
           | (Some x, Some y) \<Rightarrow>
               compare_media_schemas split scope (get_member x ''content'') (get_member y ''content'') Response ptr
           | (None, _) \<Rightarrow> Inr [op_emit scope ptr (U ''response_status_added'') Info Response])
         (sorted_keys old_resp new_resp)))"

definition compare_operation :: "splitter \<Rightarrow> operation_scope \<Rightarrow> ustr \<Rightarrow> json \<Rightarrow> json \<Rightarrow> findings" where
  "compare_operation split scope pointer old_op new_op =
     in_order
       [compare_request_body split scope pointer (get_member old_op ''requestBody'') (get_member new_op ''requestBody''),
        compare_parameters split scope pointer old_op new_op,
        compare_responses split scope pointer old_op new_op]"

section \<open>Documents\<close>

definition compare_method ::
  "splitter \<Rightarrow> operation_scope \<Rightarrow> ustr \<Rightarrow> (ustr \<times> json) list \<Rightarrow> (ustr \<times> json) list \<Rightarrow> ustr \<Rightarrow> findings" where
  "compare_method split scope path old_methods new_methods verb =
     (let ptr = U ''#/paths/'' @ path @ U ''/'' @ verb in
      case (map_of old_methods verb, map_of new_methods verb) of
        (_, None) \<Rightarrow> Inr [op_emit scope ptr (U ''endpoint_removed'') Breaking Request]
      | (None, Some new_op) \<Rightarrow> Inr [op_emit scope ptr (U ''endpoint_added'') Info Request]
      | (Some old_op, Some new_op) \<Rightarrow>
          if is_dict old_op \<and> is_dict new_op then compare_operation split scope ptr old_op new_op else Inr [])"

definition path_methods :: "(ustr \<times> json) list \<Rightarrow> ustr \<Rightarrow> (ustr \<times> json) list" where
  "path_methods paths path = (case map_of paths path of None \<Rightarrow> [] | Some v \<Rightarrow> members v)"

definition compare_endpoints_file :: "splitter \<Rightarrow> operation_scope \<Rightarrow> json \<Rightarrow> json \<Rightarrow> findings" where
  "compare_endpoints_file split scope old_doc new_doc =
     (let old_paths = members (get_member old_doc ''paths'');
          new_paths = members (get_member new_doc ''paths'')
      in in_order (map (\<lambda>path.
           let old_methods = path_methods old_paths path; new_methods = path_methods new_paths path in
           in_order (map (compare_method split scope path old_methods new_methods)
             (sorted_keys old_methods new_methods)))
         (sorted_keys old_paths new_paths)))"

section \<open>A document compared with itself\<close>

text \<open>Both sides of the scope are the same document tree, and its documents are plain.\<close>

definition same_sides :: "operation_scope \<Rightarrow> bool" where
  "same_sides scope \<longleftrightarrow>
     o_old_reg scope = o_new_reg scope \<and> o_old_base scope = o_new_base scope \<and>
     (\<forall>uri doc. o_new_reg scope uri = Some doc \<longrightarrow> plain_json doc)"

lemma quiet_fresh:
  assumes "plain_json t" "\<And>uri doc. reg uri = Some doc \<Longrightarrow> plain_json doc"
  shows "quiet (compare_node split levels (fresh_scope scope reg base reg base role) t t p)"
  by (rule quiet_node [of reg]) (use assms in \<open>auto simp: fresh_scope_def\<close>)

lemma quiet_rbind: "(\<And>x. a = Inr x \<Longrightarrow> quiet (F x)) \<Longrightarrow> quiet (rbind a F)"
  by (cases a) auto

lemma quiet_media_type:
  assumes "same_sides scope" "plain_json t"
  shows "quiet (compare_media_type split scope role mp t t)"
proof -
  obtain reg base where l: "localize_schema_fragment (o_new_reg scope) (o_new_base scope) mp t = (reg, base)"
    by (cases "localize_schema_fragment (o_new_reg scope) (o_new_base scope) mp t")
  have "plain_json doc" if "reg uri = Some doc" for uri doc
    using l that assms by (auto simp: localize_schema_fragment_def Let_def same_sides_def split: if_splits)
  then show ?thesis
    using assms l by (auto simp: compare_media_type_def same_sides_def intro: quiet_fresh)
qed

lemma quiet_media:
  assumes "same_sides scope" "plain_json t"
  shows "quiet (compare_media_schemas split scope t t role pointer)"
proof -
  have "quiet (rbind (media_schema (members t) mt) (\<lambda>x. rbind (media_schema (members t) mt) (\<lambda>y.
      compare_media_type split scope role mp x y)))" for mt mp
  proof (rule quiet_rbind)
    fix x
    assume x: "media_schema (members t) mt = Inr x"
    then have "plain_json x"
      using plain_members [OF assms(2)] plain_get_member
      by (auto simp: media_schema_def split: option.splits if_splits)
    with x assms(1) show "quiet (rbind (media_schema (members t) mt) (\<lambda>y. compare_media_type split scope role mp x y))"
      by (simp add: quiet_media_type)
  qed
  then show ?thesis unfolding compare_media_schemas_def by (intro quiet_calls)
qed

lemma add_parameter_plain:
  "add_parameter named ps = Inr out \<Longrightarrow> (\<forall>p \<in> set ps. plain_json p) \<Longrightarrow> (\<forall>np \<in> set named. plain_json (snd np)) \<Longrightarrow>
   \<forall>np \<in> set out. plain_json (snd np)"
proof (induction ps arbitrary: named)
  case (Cons p ps)
  have "set (AList.update name p named) \<subseteq> insert (name, p) (set named)" for name
    by (induction named) auto
  then have upd: "\<forall>np \<in> set (AList.update name p named). plain_json (snd np)" for name
    using Cons.prems(2,3) by fastforce
  show ?case
  proof (cases "json_member p (U ''name'')")
    case None
    with Cons.IH [of named] Cons.prems show ?thesis by simp
  next
    case (Some v)
    with Cons.prems(1) obtain name where "v = JStr name" by (cases v) auto
    with Some Cons.IH [OF _ _ upd [of name]] Cons.prems show ?thesis by simp
  qed
qed auto

lemma named_parameters_plain:
  assumes "named_parameters opn = Inr ps" "plain_json opn" "map_of ps name = Some p"
  shows "plain_json p"
proof -
  have "\<forall>np \<in> set ps. plain_json (snd np)"
    using assms(1) plain_get_member [OF assms(2), of "''parameters''"]
    by (auto simp: named_parameters_def Let_def split: if_splits json.splits dest: add_parameter_plain)
  moreover have "(name, p) \<in> set ps" using assms(3) by (rule map_of_SomeD)
  ultimately show ?thesis by auto
qed

lemma quiet_parameters:
  assumes "same_sides scope" "plain_json opn"
  shows "quiet (compare_parameters split scope pointer opn opn)"
  unfolding compare_parameters_def
proof (intro quiet_rbind)
  fix ps qs
  assume ps: "named_parameters opn = Inr ps" "named_parameters opn = Inr qs"
  have "quiet (compare_shared_parameter split scope ptr p p)" if "plain_json p" for p ptr
    using that assms(1) plain_get_member [OF that]
    by (auto simp: compare_shared_parameter_def compare_required_flag_def Let_def same_sides_def simp del: in_order_simps
        intro!: quiet_in_order quiet_fresh)
  then show "quiet (in_order (map (\<lambda>name. let ptr = pointer @ U ''/parameters/'' @ name in
      case (map_of ps name, map_of qs name) of
           (Some old_param, None) \<Rightarrow>
             Inr [op_emit scope ptr (U ''parameter_removed'')
                    (if json_truthy (get_member old_param ''required'') then Breaking else Info) Request]
         | (Some old_param, Some new_param) \<Rightarrow> compare_shared_parameter split scope ptr old_param new_param
         | (None, Some new_param) \<Rightarrow>
             Inr [op_emit scope ptr (U ''parameter_added'')
                    (if json_truthy (get_member new_param ''required'') then Breaking else Info) Request]
         | (None, None) \<Rightarrow> Inr []) (sorted_keys ps qs)))"
    using ps named_parameters_plain [OF ps(1) assms(2)]
    by (intro quiet_calls) (auto simp: Let_def split: option.split)
qed

lemma quiet_operation:
  assumes "same_sides scope" "plain_json opn"
  shows "quiet (compare_operation split scope pointer opn opn)"
proof -
  have "quiet (compare_request_body split scope pointer t t)" if "plain_json t" for t
    using assms(1) plain_get_member [OF that]
    by (auto simp: compare_request_body_def compare_required_flag_def Let_def simp del: in_order_simps
        intro!: quiet_in_order quiet_media)
  moreover have "quiet (compare_responses split scope pointer opn opn)"
    unfolding compare_responses_def Let_def
    by (rule quiet_calls)
      (use plain_members [OF plain_get_member [OF assms(2)]] plain_get_member assms(1) in
        \<open>auto split: option.split intro!: quiet_media simp: map_of_eq_None_iff\<close>)
  ultimately show ?thesis
    unfolding compare_operation_def using quiet_parameters [OF assms] plain_get_member [OF assms(2)]
    by (intro quiet_in_order) simp
qed

theorem unchanged_endpoints_are_quiet:
  assumes "compare_endpoints_file split scope doc doc = Inr fs" "plain_json doc"
    and "o_old_reg scope = o_new_reg scope" "o_old_base scope = o_new_base scope"
    and "\<And>uri d. o_new_reg scope uri = Some d \<Longrightarrow> plain_json d" and "f \<in> set fs"
  shows "f_rule f \<in> {U ''depth_limit'', U ''unresolved_ref'', U ''cyclic_ref'',
     U ''oneOf_shape_changed'', U ''anyOf_shape_changed'', U ''allOf_shape_changed''}"
proof -
  let ?paths = "members (get_member doc ''paths'')"
  have same: "same_sides scope" using assms(3-5) by (simp add: same_sides_def)
  have plain: "plain_json opn" if opn: "map_of (path_methods ?paths path) verb = Some opn" for path verb opn
  proof -
    obtain v where v: "map_of ?paths path = Some v" "map_of (members v) verb = Some opn"
      using opn by (auto simp: path_methods_def split: option.splits)
    from plain_members [OF plain_members [OF plain_get_member [OF assms(2)] v(1)] v(2)] show ?thesis .
  qed
  have "quiet (compare_method split scope path (path_methods ?paths path) (path_methods ?paths path) verb)"
    if m: "verb \<in> fst ` set (path_methods ?paths path)" for path verb
  proof -
    obtain opn where "map_of (path_methods ?paths path) verb = Some opn"
      using m by (cases "map_of (path_methods ?paths path) verb") (auto simp: map_of_eq_None_iff)
    with plain quiet_operation [OF same] show ?thesis by (simp add: compare_method_def Let_def)
  qed
  then have "quiet (compare_endpoints_file split scope doc doc)"
    unfolding compare_endpoints_file_def Let_def by (intro quiet_calls) simp
  with assms(1,6) show ?thesis by (simp add: quiet_def list_all_iff limit_rules_def)
qed

section \<open>Removed operations\<close>

lemma in_order_Inr_mem: "in_order cs = Inr fs \<Longrightarrow> c \<in> set cs \<Longrightarrow> \<exists>gs. c = Inr gs \<and> set gs \<subseteq> set fs"
  by (induction cs arbitrary: fs) (auto simp: rbind_Inr_iff, blast+)

theorem removed_endpoint_is_breaking:
  assumes "compare_endpoints_file split scope old_doc new_doc = Inr fs"
    and "map_of (path_methods (members (get_member old_doc ''paths'')) path) verb = Some opn"
    and "map_of (path_methods (members (get_member new_doc ''paths'')) path) verb = None"
  shows "op_emit scope (U ''#/paths/'' @ path @ U ''/'' @ verb) (U ''endpoint_removed'') Breaking Request \<in> set fs"
proof -
  let ?o = "members (get_member old_doc ''paths'')" and ?n = "members (get_member new_doc ''paths'')"
  have path: "path \<in> set (sorted_keys ?o ?n)"
    using assms(2) by (force simp: path_methods_def split: option.splits dest: map_of_SomeD)
  have verb: "verb \<in> set (sorted_keys (path_methods ?o path) (path_methods ?n path))"
    using assms(2) by (force dest: map_of_SomeD)
  obtain gs where gs: "in_order (map (compare_method split scope path (path_methods ?o path) (path_methods ?n path))
      (sorted_keys (path_methods ?o path) (path_methods ?n path))) = Inr gs" "set gs \<subseteq> set fs"
    using in_order_Inr_mem [OF assms(1) [unfolded compare_endpoints_file_def Let_def] imageI [OF path, simplified set_map [symmetric]]]
    by auto
  obtain hs where "compare_method split scope path (path_methods ?o path) (path_methods ?n path) verb = Inr hs" "set hs \<subseteq> set gs"
    using in_order_Inr_mem [OF gs(1) imageI [OF verb, simplified set_map [symmetric]]] by auto
  with gs(2) assms(2,3) show ?thesis by (auto simp: compare_method_def Let_def)
qed

end
