(* ===== verification/BreakingRoles.thy ===== *)
theory BreakingRoles
  imports BreakingDiff
begin

text \<open>
  Which role the breaking-change gate gives a schema file, \<open>scripts/breaking_schema_check.py\<close>: the
  roles the endpoints documents use a file in, their propagation along the references between
  schema files, and the classification that also reads the file's name. A file tree is the list of
  its documents by relative POSIX path. A dict of non-empty sets is a function to sets; a file
  without an entry has the empty one.
\<close>

section \<open>Paths and references\<close>

text \<open>The parts of a \<open>PurePosixPath\<close>: empty and \<open>.\<close> components vanish, a leading slash is a part.\<close>

definition path_parts :: "ustr \<Rightarrow> ustr list" where
  "path_parts s =
     (if take 2 s = [47, 47] \<and> take 3 s \<noteq> [47, 47, 47] then [[47, 47]]
      else if take 1 s = [47] then [[47]] else [])
     @ filter (\<lambda>p. p \<noteq> [] \<and> p \<noteq> [46]) (split_at 47 s)"

definition path_name :: "ustr \<Rightarrow> ustr" where
  "path_name s =
     (let parts = path_parts s in
      if parts = [] \<or> last parts = [47] \<or> last parts = [47, 47] then [] else last parts)"

definition path_parent_parts :: "ustr \<Rightarrow> ustr list" where
  "path_parent_parts s =
     (let parts = path_parts s in
      if length parts = 1 \<and> take 1 s = [47] then parts else butlast parts)"

definition starts_with :: "ustr \<Rightarrow> ustr \<Rightarrow> bool" where
  "starts_with s prefix \<longleftrightarrow> take (length prefix) s = prefix"

definition ends_in :: "ustr \<Rightarrow> ustr \<Rightarrow> bool" where
  "ends_in s suffix \<longleftrightarrow> length suffix \<le> length s \<and> drop (length s - length suffix) s = suffix"

fun contains :: "ustr \<Rightarrow> ustr \<Rightarrow> bool" where
  "contains [] t = (t = [])"
| "contains (c # s) t = (starts_with (c # s) t \<or> contains s t)"

text \<open>\<open>urlparse(s).scheme\<close>: white space is stripped, tabs and line ends are removed.\<close>

definition ascii_lower :: "nat \<Rightarrow> nat" where
  "ascii_lower c = (if 65 \<le> c \<and> c \<le> 90 then c + 32 else c)"

definition ascii_letter :: "nat \<Rightarrow> bool" where
  "ascii_letter c \<longleftrightarrow> 65 \<le> c \<and> c \<le> 90 \<or> 97 \<le> c \<and> c \<le> 122"

definition url_scheme :: "ustr \<Rightarrow> ustr" where
  "url_scheme s =
     (let t = filter (\<lambda>c. c \<noteq> 9 \<and> c \<noteq> 10 \<and> c \<noteq> 13) (dropWhile (\<lambda>c. c \<le> 32) s);
          head = takeWhile (\<lambda>c. c \<noteq> 58) t
      in if length head < length t \<and> head \<noteq> [] \<and> ascii_letter (hd head)
            \<and> list_all (\<lambda>c. ascii_letter c \<or> is_digit c \<or> c \<in> {43, 45, 46}) head
         then map ascii_lower head else [])"

definition SCHEMA_ID_BASE :: ustr where
  "SCHEMA_ID_BASE = U ''https://schemas.traigent.ai/''"

fun normalize_parts :: "ustr list \<Rightarrow> ustr list \<Rightarrow> ustr list" where
  "normalize_parts out [] = out"
| "normalize_parts out (part # parts) =
     normalize_parts
       (if part = [46, 46] then butlast out
        else if part = [46] \<or> part = [] then out
        else out @ [part]) parts"

fun join_with :: "nat \<Rightarrow> ustr list \<Rightarrow> ustr" where
  "join_with c [] = []"
| "join_with c [p] = p"
| "join_with c (p # q # ps) = p @ c # join_with c (q # ps)"

definition relpath_from_ref_string :: "ustr \<Rightarrow> ustr \<Rightarrow> ustr option" where
  "relpath_from_ref_string current_file ref =
     (if take 1 ref = [35] then None
      else
        let doc_part = takeWhile (\<lambda>c. c \<noteq> 35) ref in
        if doc_part = [] then None
        else if starts_with doc_part SCHEMA_ID_BASE then Some (drop (length SCHEMA_ID_BASE) doc_part)
        else if url_scheme doc_part \<in> {U ''http'', U ''https''} then None
        else
          let parts = (if take 1 doc_part = [47] then path_parts doc_part
                       else path_parent_parts current_file @ path_parts doc_part)
          in Some (join_with 47 (normalize_parts [] parts)))"

section \<open>Crawling\<close>

text \<open>Each use of a file in a role, in the order found.\<close>

fun crawl_walk :: "ustr \<Rightarrow> role option \<Rightarrow> json \<Rightarrow> (ustr \<times> role) list" where
  "crawl_walk current_file context (JObj kts) =
     concat (map (\<lambda>kt.
       (case (fst kt = U ''$ref'', snd kt, context) of
          (True, JStr ref, Some role) \<Rightarrow>
            (case relpath_from_ref_string current_file ref of
               None \<Rightarrow> []
             | Some target \<Rightarrow> if target = [] then [] else [(target, role)])
        | _ \<Rightarrow>
            crawl_walk current_file
              (if fst kt = U ''requestBody'' \<or> fst kt = U ''parameters'' then Some Request
               else if fst kt = U ''responses'' then Some Response
               else context) (snd kt))) kts)"
| "crawl_walk current_file context (JArr ts) = concat (map (crawl_walk current_file context) ts)"
| "crawl_walk current_file context t = []"

type_synonym files = "(ustr \<times> json) list"

definition is_endpoints_file :: "ustr \<Rightarrow> bool" where
  "is_endpoints_file relpath \<longleftrightarrow> contains (path_name relpath) (U ''_endpoints'')"

definition crawl_endpoint_uses :: "files \<Rightarrow> (ustr \<times> role) list" where
  "crawl_endpoint_uses files =
     concat (map (\<lambda>(relpath, doc).
       if \<not> is_endpoints_file relpath then []
       else if is_dict (get_member doc ''paths'')
       then crawl_walk relpath None (get_member doc ''paths'') else []) files)"

definition crawl_endpoint_roles :: "files \<Rightarrow> ustr \<Rightarrow> role set" where
  "crawl_endpoint_roles files f = set (map snd (filter (\<lambda>(target, role). target = f) (crawl_endpoint_uses files)))"

fun ref_targets :: "ustr \<Rightarrow> json \<Rightarrow> ustr list" where
  "ref_targets current_file (JObj kts) =
     concat (map (\<lambda>kt.
       (case (fst kt = U ''$ref'', snd kt) of
          (True, JStr ref) \<Rightarrow>
            (case relpath_from_ref_string current_file ref of
               None \<Rightarrow> []
             | Some target \<Rightarrow> if target = [] \<or> target = current_file then [] else [target])
        | _ \<Rightarrow> ref_targets current_file (snd kt))) kts)"
| "ref_targets current_file (JArr ts) = concat (map (ref_targets current_file) ts)"
| "ref_targets current_file t = []"

text \<open>A file without targets has no entry; iterating over it changes nothing.\<close>

definition build_ref_graph :: "files \<Rightarrow> (ustr \<times> ustr list) list" where
  "build_ref_graph files =
     map (\<lambda>(relpath, doc). (relpath, remdups (ref_targets relpath doc)))
       (filter (\<lambda>(relpath, doc). \<not> is_endpoints_file relpath) files)"

section \<open>Propagation\<close>

fun sweep_targets :: "ustr \<Rightarrow> ustr list \<Rightarrow> (ustr \<Rightarrow> role set) \<times> bool \<Rightarrow> (ustr \<Rightarrow> role set) \<times> bool" where
  "sweep_targets f [] (roles, changed) = (roles, changed)"
| "sweep_targets f (t # ts) (roles, changed) =
     (let before = card (roles t); roles' = roles(t := roles t \<union> roles f) in
      sweep_targets f ts (roles', if card (roles' t) \<noteq> before then True else changed))"

fun sweep :: "(ustr \<times> ustr list) list \<Rightarrow> (ustr \<Rightarrow> role set) \<times> bool \<Rightarrow> (ustr \<Rightarrow> role set) \<times> bool" where
  "sweep [] state = state"
| "sweep ((f, targets) # graph) (roles, changed) =
     sweep graph (if roles f = {} then (roles, changed) else sweep_targets f targets (roles, changed))"

text \<open>Every sweep that changes something adds a role to a file that some file refers to.\<close>

definition roles_missing :: "(ustr \<times> ustr list) list \<Rightarrow> (ustr \<Rightarrow> role set) \<Rightarrow> nat" where
  "roles_missing graph roles = (\<Sum>t \<in> set (concat (map snd graph)). card (UNIV - roles t))"

lemma UNIV_role: "UNIV = {Request, Response, Conservative, NotApplicable}"
  by (auto intro: role.exhaust)

lemma finite_roles [simp]: "finite (s :: role set)"
  by (rule finite_subset [OF subset_UNIV]) (simp add: UNIV_role)

lemma missing_card: "(s :: role set) \<subseteq> t \<Longrightarrow> card (UNIV - t) \<le> card (UNIV - s)"
  by (rule card_mono) auto

lemma missing_card_less: "(s :: role set) \<subset> t \<Longrightarrow> card (UNIV - t) < card (UNIV - s)"
  by (rule psubset_card_mono) auto

lemma sweep_targets_grows:
  "sweep_targets f ts (roles, c) = (roles', c') \<Longrightarrow> roles x \<subseteq> roles' x"
proof (induction ts arbitrary: roles c)
  case (Cons t ts)
  let ?r = "roles(t := roles t \<union> roles f)"
  obtain d where "sweep_targets f ts (?r, d) = (roles', c')" using Cons.prems by (auto simp only: sweep_targets.simps Let_def)
  from Cons.IH [OF this] have "?r x \<subseteq> roles' x" .
  then show ?case by (auto split: if_splits)
qed simp

lemma sweep_targets_only: "sweep_targets f ts (roles, c) = (roles', c') \<Longrightarrow> x \<notin> set ts \<Longrightarrow> roles' x = roles x"
proof (induction ts arbitrary: roles c)
  case (Cons t ts)
  then show ?case by (auto simp: Let_def)
qed simp

lemma sweep_targets_changed:
  "sweep_targets f ts (roles, False) = (roles', True) \<Longrightarrow> \<exists>t \<in> set ts. roles t \<subset> roles' t"
proof (induction ts arbitrary: roles)
  case (Cons t ts)
  let ?r = "roles(t := roles t \<union> roles f)"
  show ?case
  proof (cases "card (?r t) \<noteq> card (roles t)")
    case True
    with Cons.prems have "sweep_targets f ts (?r, True) = (roles', True)" by (simp add: Let_def)
    from sweep_targets_grows [OF this, of t] have "?r t \<subseteq> roles' t" .
    moreover have "roles t \<subseteq> ?r t" "roles t \<noteq> ?r t" using True by auto
    ultimately have "roles t \<subset> roles' t" by blast
    then show ?thesis by auto
  next
    case False
    with Cons.prems have s: "sweep_targets f ts (?r, False) = (roles', True)" by (simp add: Let_def)
    from False have "?r t = roles t" using card_subset_eq [of "?r t" "roles t"] by auto
    then have "?r = roles" by auto
    with Cons.IH [of ?r] s show ?thesis by auto
  qed
qed simp

lemma sweep_grows: "sweep graph (roles, c) = (roles', c') \<Longrightarrow> roles x \<subseteq> roles' x"
proof (induction graph arbitrary: roles c)
  case (Cons e graph)
  obtain f ts where e: "e = (f, ts)" by (cases e)
  obtain r d where r: "sweep_targets f ts (roles, c) = (r, d)" by (cases "sweep_targets f ts (roles, c)")
  show ?case using Cons.prems Cons.IH [of roles c] Cons.IH [of r d] sweep_targets_grows [OF r, of x] e r
    by (auto split: if_splits)
qed simp

lemma sweep_changed:
  "sweep graph (roles, False) = (roles', True) \<Longrightarrow> \<exists>t \<in> set (concat (map snd graph)). roles t \<subset> roles' t"
proof (induction graph arbitrary: roles)
  case (Cons e graph)
  obtain f ts where e: "e = (f, ts)" by (cases e)
  obtain r d where r: "sweep_targets f ts (roles, False) = (r, d)" by (cases "sweep_targets f ts (roles, False)")
  show ?case
  proof (cases "roles f \<noteq> {} \<and> d")
    case True
    with Cons.prems e r have "sweep graph (r, True) = (roles', True)" by simp
    note grows = sweep_grows [OF this]
    obtain t where t: "t \<in> set ts" "roles t \<subset> r t" using sweep_targets_changed [of f ts roles r] r True by auto
    have "roles t \<subset> roles' t" using t(2) grows [of t] by blast
    with t(1) e show ?thesis by auto
  next
    case False
    show ?thesis
    proof (cases "roles f = {}")
      case True
      with Cons.prems e have "sweep graph (roles, False) = (roles', True)" by simp
      from Cons.IH [OF this] e show ?thesis by auto
    next
      case ne: False
      with False r e Cons.prems have s: "sweep graph (r, False) = (roles', True)" by simp
      from Cons.IH [OF this] obtain t where t: "t \<in> set (concat (map snd graph))" "r t \<subset> roles' t" by blast
      have "roles t \<subset> roles' t" using t(2) sweep_targets_grows [OF r, of t] by blast
      with t(1) e show ?thesis by auto
    qed
  qed
qed simp

function propagate_loop :: "(ustr \<times> ustr list) list \<Rightarrow> (ustr \<Rightarrow> role set) \<Rightarrow> ustr \<Rightarrow> role set" where
  "propagate_loop graph roles =
     (let (roles', changed) = sweep graph (roles, False) in
      if changed then propagate_loop graph roles' else roles')"
  by auto
termination
proof (relation "measure (\<lambda>(graph, roles). roles_missing graph roles)")
  fix graph roles s roles' changed
  assume "s = sweep graph (roles, False)" "(roles', changed) = s" "changed"
  then have s: "sweep graph (roles, False) = (roles', True)" by simp
  obtain t where t: "t \<in> set (concat (map snd graph))" "roles t \<subset> roles' t" using sweep_changed [OF s] by blast
  have "\<forall>t \<in> set (concat (map snd graph)). card (UNIV - roles' t) \<le> card (UNIV - roles t)"
    using missing_card [OF sweep_grows [OF s]] by blast
  moreover have "\<exists>t \<in> set (concat (map snd graph)). card (UNIV - roles' t) < card (UNIV - roles t)"
    using t(1) missing_card_less [OF t(2)] by blast
  ultimately have "roles_missing graph roles' < roles_missing graph roles"
    unfolding roles_missing_def by (rule sum_strict_mono_ex1 [OF finite_set])
  then show "((graph, roles'), graph, roles) \<in> measure (\<lambda>(graph, roles). roles_missing graph roles)" by simp
qed simp

declare propagate_loop.simps [simp del]

definition propagate_roles :: "(ustr \<Rightarrow> role set) \<Rightarrow> (ustr \<times> ustr list) list \<Rightarrow> ustr \<Rightarrow> role set" where
  "propagate_roles direct graph = propagate_loop graph direct"

section \<open>Classification\<close>

definition classify_file_role :: "ustr \<Rightarrow> role set \<Rightarrow> role" where
  "classify_file_role relpath graph_roles =
     (let name = path_name relpath;
          name_hint = (if ends_in name (U ''_request_schema.json'') then Some Request
                       else if ends_in name (U ''_response_schema.json'') then Some Response
                       else None)
      in if name_hint = Some Request \<and> Response \<notin> graph_roles then Request
         else if name_hint = Some Response \<and> Request \<notin> graph_roles then Response
         else Conservative)"

definition merged_roles :: "files \<Rightarrow> files \<Rightarrow> ustr \<Rightarrow> role set" where
  "merged_roles base head f =
     propagate_roles (crawl_endpoint_roles base) (build_ref_graph base) f \<union>
     propagate_roles (crawl_endpoint_roles head) (build_ref_graph head) f"

section \<open>What propagation computes\<close>

text \<open>The references between files as a relation.\<close>

definition edges :: "(ustr \<times> ustr list) list \<Rightarrow> (ustr \<times> ustr) set" where
  "edges graph = {(f, t). \<exists>ts. (f, ts) \<in> set graph \<and> t \<in> set ts}"

definition reached_roles :: "(ustr \<Rightarrow> role set) \<Rightarrow> (ustr \<times> ustr list) list \<Rightarrow> ustr \<Rightarrow> role set" where
  "reached_roles direct graph f = {role. \<exists>g. role \<in> direct g \<and> (g, f) \<in> (edges graph)\<^sup>*}"

lemma sweep_targets_sound:
  assumes closed: "\<And>t. t \<in> set ts \<Longrightarrow> bound f \<subseteq> bound t"
  shows "sweep_targets f ts (roles, c) = (roles', c') \<Longrightarrow> (\<And>x. roles x \<subseteq> bound x) \<Longrightarrow> roles' x \<subseteq> bound x"
  using closed
proof (induction ts arbitrary: roles c)
  case (Cons t ts)
  let ?r = "roles(t := roles t \<union> roles f)"
  have r: "?r y \<subseteq> bound y" for y
    using Cons.prems(2) [of f] Cons.prems(2) [of y] Cons.prems(3) [of t] by auto
  obtain d where "sweep_targets f ts (?r, d) = (roles', c')" using Cons.prems(1) by (auto simp only: sweep_targets.simps Let_def)
  from Cons.IH [OF this r] Cons.prems(3) show ?case by simp
qed simp

lemma sweep_sound:
  assumes "\<And>f t. (f, t) \<in> edges graph \<Longrightarrow> bound f \<subseteq> bound t"
  shows "sweep graph (roles, c) = (roles', c') \<Longrightarrow> (\<And>x. roles x \<subseteq> bound x) \<Longrightarrow> roles' x \<subseteq> bound x"
  using assms
proof (induction graph arbitrary: roles c)
  case (Cons e graph)
  obtain f ts where e: "e = (f, ts)" by (cases e)
  obtain r d where r: "sweep_targets f ts (roles, c) = (r, d)" by (cases "sweep_targets f ts (roles, c)")
  have tail: "(g, t) \<in> edges graph \<Longrightarrow> bound g \<subseteq> bound t" for g t
    using Cons.prems(3) by (fastforce simp: edges_def)
  have "t \<in> set ts \<Longrightarrow> bound f \<subseteq> bound t" for t
    using Cons.prems(3) e by (fastforce simp: edges_def)
  from sweep_targets_sound [OF this r Cons.prems(2)] have "\<And>y. r y \<subseteq> bound y" by blast
  with Cons.IH [OF _ _ tail] Cons.prems(1,2) e r show ?case by (auto split: if_splits)
qed simp

lemma sweep_targets_unchanged:
  "sweep_targets f ts (roles, c) = (roles', False) \<Longrightarrow> roles' = roles \<and> \<not> c \<and> (\<forall>t \<in> set ts. roles f \<subseteq> roles t)"
proof (induction ts arbitrary: roles c)
  case (Cons t ts)
  let ?r = "roles(t := roles t \<union> roles f)"
  from Cons.prems obtain d where "sweep_targets f ts (?r, d) = (roles', False)"
    and d: "d = (if card (?r t) \<noteq> card (roles t) then True else c)" by (simp add: Let_def)
  from Cons.IH [OF this(1)] d have eq: "card (?r t) = card (roles t)" "\<not> c" "roles' = ?r"
    "\<forall>u \<in> set ts. ?r f \<subseteq> ?r u" by (auto split: if_splits)
  have "?r t = roles t" using card_subset_eq [of "?r t" "roles t"] eq(1) by auto
  then have "?r = roles" "roles f \<subseteq> roles t" by auto
  with eq show ?case by auto
qed simp

lemma sweep_unchanged:
  "sweep graph (roles, c) = (roles', False) \<Longrightarrow> roles' = roles \<and> \<not> c \<and> (\<forall>(f, t) \<in> edges graph. roles f \<subseteq> roles t)"
proof (induction graph arbitrary: roles c)
  case (Cons e graph)
  obtain f ts where e: "e = (f, ts)" by (cases e)
  have edges: "edges (e # graph) = {(f, t) |t. t \<in> set ts} \<union> edges graph"
    unfolding e by (auto simp: edges_def)
  show ?case
  proof (cases "roles f = {}")
    case True
    with Cons.prems e have "sweep graph (roles, c) = (roles', False)" by simp
    from Cons.IH [OF this] True show ?thesis unfolding edges by auto
  next
    case False
    obtain r d where r: "sweep_targets f ts (roles, c) = (r, d)" by (cases "sweep_targets f ts (roles, c)")
    with False Cons.prems e have "sweep graph (r, d) = (roles', False)" by simp
    note s = Cons.IH [OF this]
    with r have "sweep_targets f ts (roles, c) = (r, False)" by simp
    from sweep_targets_unchanged [OF this] s show ?thesis unfolding edges by auto
  qed
qed (simp add: edges_def)

lemma propagate_loop_char:
  "(\<forall>x. roles x \<subseteq> propagate_loop graph roles x) \<and>
   (\<forall>(f, t) \<in> edges graph. propagate_loop graph roles f \<subseteq> propagate_loop graph roles t) \<and>
   (\<forall>bound. (\<forall>(f, t) \<in> edges graph. bound f \<subseteq> bound t) \<longrightarrow> (\<forall>x. roles x \<subseteq> bound x) \<longrightarrow>
      (\<forall>x. propagate_loop graph roles x \<subseteq> bound x))"
proof (induction graph roles rule: propagate_loop.induct)
  case (1 graph roles)
  obtain roles' changed where s: "sweep graph (roles, False) = (roles', changed)"
    by (cases "sweep graph (roles, False)")
  have loop: "propagate_loop graph roles = (if changed then propagate_loop graph roles' else roles')"
    by (subst propagate_loop.simps) (simp add: s)
  have sound: "roles' x \<subseteq> bound x" if "\<forall>(f, t) \<in> edges graph. bound f \<subseteq> bound t" "\<forall>x. roles x \<subseteq> bound x" for bound x
    by (rule sweep_sound [OF _ s]) (use that in auto)
  show ?case
  proof (cases changed)
    case True
    note IH = 1 [OF refl s [symmetric] True]
    have "roles x \<subseteq> propagate_loop graph roles' x" for x
      using IH sweep_grows [OF s, of x] by blast
    moreover have "propagate_loop graph roles' x \<subseteq> bound x"
      if b: "\<forall>(f, t) \<in> edges graph. bound f \<subseteq> bound t" "\<forall>x. roles x \<subseteq> bound x" for bound x
    proof -
      have "\<forall>x. roles' x \<subseteq> bound x" using sound [OF b] by blast
      with IH b(1) show ?thesis by blast
    qed
    ultimately show ?thesis using IH loop True by simp
  next
    case False
    with sweep_unchanged [of graph roles False roles'] s loop show ?thesis by simp
  qed
qed

lemma propagate_reach:
  "propagate_roles direct graph f = reached_roles direct graph f"
proof -
  let ?p = "propagate_loop graph direct"
  note char = propagate_loop_char [of direct graph]
  have closed: "\<forall>(f, t) \<in> edges graph. reached_roles direct graph f \<subseteq> reached_roles direct graph t"
    by (auto simp: reached_roles_def dest: rtrancl_into_rtrancl)
  have "\<forall>x. direct x \<subseteq> reached_roles direct graph x" by (auto simp: reached_roles_def)
  with char closed have "?p f \<subseteq> reached_roles direct graph f" by blast
  moreover have "role \<in> ?p f" if "role \<in> direct g" "(g, f) \<in> (edges graph)\<^sup>*" for role g
    using that(2)
  proof (induction rule: rtrancl_induct)
    case base
    with that(1) char show ?case by blast
  next
    case (step y z)
    with char show ?case by blast
  qed
  ultimately show ?thesis by (auto simp: propagate_roles_def reached_roles_def)
qed

text \<open>
  C31: The fixpoint loop that propagates roles computes exactly the roles of the files from which
  a file is reachable along references, and ends on every graph, cyclic ones included.
\<close>

theorem propagate_roles_reachable: "propagate_roles direct graph f = reached_roles direct graph f"
  by (rule propagate_reach)

text \<open>
  A file is treated as request-only exactly if it is named like one and no response of the old or
  the new tree leads to it along references.
\<close>

text \<open>
  A file is classified as request-only exactly if its name says so and neither in the old
  nor in the new tree a response leads to it along references.
\<close>

theorem request_only_unreached:
  "classify_file_role relpath (merged_roles base head relpath) = Request \<longleftrightarrow>
   ends_in (path_name relpath) (U ''_request_schema.json'') \<and>
   \<not> (\<exists>g. Response \<in> crawl_endpoint_roles base g \<and> (g, relpath) \<in> (edges (build_ref_graph base))\<^sup>*) \<and>
   \<not> (\<exists>g. Response \<in> crawl_endpoint_roles head g \<and> (g, relpath) \<in> (edges (build_ref_graph head))\<^sup>*)"
  by (auto simp: classify_file_role_def merged_roles_def propagate_reach reached_roles_def Let_def split: if_splits)

end
