(* ===== verification/BreakingGate.thy ===== *)
theory BreakingGate
  imports BreakingEndpoints BreakingRoles Fp2Text
begin

text \<open>
  The gate of \<open>scripts/breaking_schema_check.py\<close>: the acknowledgements an allowlist entry can give,
  the comparison of two schema trees, and the exit code. Unicode's decimal digits are the parameter
  \<open>decimal\<close>; SHA-256 is the parameter \<open>H\<close>. Reading the trees and the output of \<open>git diff\<close> is left
  out: a tree is given by its documents, its registry and the base URI of each file.
\<close>

section \<open>Reasons\<close>

datatype rejection = NotAString | EmptyReason | PlaceholderReason | ShortReason nat | SingleToken

text \<open>\<open>str.isspace\<close>, which \<open>strip\<close> and \<open>\s\<close> share.\<close>

definition is_space :: "nat \<Rightarrow> bool" where
  "is_space c \<longleftrightarrow>
     9 \<le> c \<and> c \<le> 13 \<or> 28 \<le> c \<and> c \<le> 32 \<or> 8192 \<le> c \<and> c \<le> 8202 \<or>
     c \<in> {133, 160, 5760, 8232, 8233, 8239, 8287, 12288}"

definition skip_space :: "ustr \<Rightarrow> ustr" where
  "skip_space s = dropWhile is_space s"

definition strip :: "ustr \<Rightarrow> ustr" where
  "strip s = rev (skip_space (rev (skip_space s)))"

text \<open>Case folding of a literal under \<open>re.IGNORECASE\<close>: dotted and dotless i, long s, the kelvin sign.\<close>

definition fold_char :: "nat \<Rightarrow> nat" where
  "fold_char c =
     (if c = 304 \<or> c = 305 then 105 else if c = 383 then 115 else if c = 8490 then 107 else ascii_lower c)"

text \<open>The rests after the literals a text can start with.\<close>

definition after_word :: "string list \<Rightarrow> ustr \<Rightarrow> ustr list" where
  "after_word ws s = map (\<lambda>w. drop (length w) s) (filter (\<lambda>w. starts_with (map fold_char s) (U w)) ws)"

definition PLACEHOLDER_WORDS :: "string list" where
  "PLACEHOLDER_WORDS =
     [''todo'', ''tbd'', ''tba'', ''na'', ''n/a'', ''wip'', ''pending'', ''placeholder'', ''reason'', ''approved'']"

definition ends_or_stops :: "ustr \<Rightarrow> bool" where
  "ends_or_stops r \<longleftrightarrow> r = [] \<or> skip_space r \<in> {[58], [46]}"

definition see_tail :: "ustr \<Rightarrow> bool" where
  "see_tail r \<longleftrightarrow> r = [] \<or>
     \<not> is_digit (hd r) \<and> skip_space r \<noteq> [] \<and> list_all (\<lambda>c. c \<in> {58, 46, 35} \<or> is_digit c) (skip_space r)"

definition number_tail :: "(nat \<Rightarrow> bool) \<Rightarrow> bool \<Rightarrow> ustr \<Rightarrow> bool" where
  "number_tail decimal hash r =
     (let r1 = skip_space r; r2 = (if hash \<and> take 1 r1 = [35] then skip_space (drop 1 r1) else r1)
      in r2 \<noteq> [] \<and> list_all decimal r2)"

text \<open>The four patterns, on a text without white space at its ends.\<close>

definition placeholder_pattern :: "(nat \<Rightarrow> bool) \<Rightarrow> ustr \<Rightarrow> bool" where
  "placeholder_pattern decimal s \<longleftrightarrow>
     list_ex ends_or_stops (after_word PLACEHOLDER_WORDS s) \<or>
     list_ex (\<lambda>r. take 1 r \<noteq> [] \<and> is_space (hd r) \<and>
         list_ex see_tail (after_word [''pr'', ''above'', ''below'', ''issue'', ''ticket''] (skip_space r)))
       (after_word [''see''] s) \<or>
     list_ex (number_tail decimal False) (after_word [''#''] s) \<or>
     list_ex (number_tail decimal True) (after_word [''pr'', ''issue''] s) \<or>
     list_ex ends_or_stops (after_word [''intentional'', ''breaking change'', ''because''] s)"

definition MIN_REASON_LENGTH :: nat where
  "MIN_REASON_LENGTH = 20"

definition reason_rejection :: "(nat \<Rightarrow> bool) \<Rightarrow> json \<Rightarrow> rejection option" where
  "reason_rejection decimal reason =
     (case reason of
        JStr r \<Rightarrow>
          let stripped = strip r in
          if stripped = [] then Some EmptyReason
          else if placeholder_pattern decimal stripped then Some PlaceholderReason
          else if length stripped < MIN_REASON_LENGTH then Some (ShortReason (length stripped))
          else if 32 \<notin> set stripped then Some SingleToken
          else None
      | _ \<Rightarrow> Some NotAString)"

section \<open>Identities\<close>

fun canonical_value :: "json \<Rightarrow> json" where
  "canonical_value (JArr ts) = JArr (map canonical_value ts)"
| "canonical_value (JObj kts) = JObj (sort_key fst (map (\<lambda>kt. (fst kt, canonical_value (snd kt))) kts))"
| "canonical_value t = t"

fun has_nonfinite :: "json \<Rightarrow> bool" where
  "has_nonfinite (JFloat f) = (\<not> is_finite_float f)"
| "has_nonfinite (JArr ts) = list_ex has_nonfinite ts"
| "has_nonfinite (JObj kts) = list_ex (\<lambda>kt. has_nonfinite (snd kt)) kts"
| "has_nonfinite t = False"

definition compact_dump :: dump_style where
  "compact_dump = \<lparr>ensure_ascii = False, item_separator = U '','', key_separator = U '':''\<rparr>"

definition canonical_json_bytes :: "json \<Rightarrow> diff_error + byte list" where
  "canonical_json_bytes value =
     (if has_nonfinite value then Inl ValueError
      else let text = dumps compact_dump (canonical_value value)
           in if list_ex is_surrogate text then Inl ValueError else Inr (utf8 text))"

definition role_text :: "role \<Rightarrow> ustr" where
  "role_text role =
     U (case role of Request \<Rightarrow> ''request'' | Response \<Rightarrow> ''response'' | Conservative \<Rightarrow> ''conservative''
        | NotApplicable \<Rightarrow> ''n/a'')"

definition identity :: "finding \<Rightarrow> json" where
  "identity f =
     JObj [(U ''pointer'', JStr (f_pointer f)),
           (U ''role'', JStr (role_text (f_role f))),
           (U ''subject'', canonical_value (f_subject f)),
           (U ''old'', canonical_value (f_old f)),
           (U ''new'', canonical_value (f_new f))]"

definition fingerprint_for_identity ::
  "(byte list \<Rightarrow> byte list) \<Rightarrow> ustr \<Rightarrow> ustr \<Rightarrow> json \<Rightarrow> diff_error + ustr" where
  "fingerprint_for_identity H file rule ident =
     rbind (canonical_json_bytes (JObj ([(U ''file'', JStr file), (U ''rule'', JStr rule)] @ members ident)))
       (\<lambda>bytes. Inr (hexdigest (H bytes)))"

definition fingerprint :: "(byte list \<Rightarrow> byte list) \<Rightarrow> finding \<Rightarrow> diff_error + ustr" where
  "fingerprint H f = fingerprint_for_identity H (f_file f) (f_rule f) (identity f)"

section \<open>Acknowledgements\<close>

definition STRUCTURED_IDENTITY_KEYS :: "ustr list" where
  "STRUCTURED_IDENTITY_KEYS = [U ''pointer'', U ''role'', U ''subject'', U ''old'', U ''new'']"

definition is_hex_digest :: "ustr \<Rightarrow> bool" where
  "is_hex_digest s \<longleftrightarrow> length s = 64 \<and> list_all (\<lambda>c. is_digit c \<or> 97 \<le> c \<and> c \<le> 102) s"

definition stored_part :: "json \<Rightarrow> json" where
  "stored_part stored =
     JObj (map (\<lambda>key. (key, case json_member stored key of None \<Rightarrow> JNull | Some v \<Rightarrow> v)) STRUCTURED_IDENTITY_KEYS)"

definition stored_identity_matches ::
  "(byte list \<Rightarrow> byte list) \<Rightarrow> ustr \<Rightarrow> ustr \<Rightarrow> json \<Rightarrow> json \<Rightarrow> ustr \<Rightarrow> bool" where
  "stored_identity_matches H file rule stored current current_fingerprint =
     (if fst ` set (members stored) \<noteq> insert (U ''fingerprint'') (set STRUCTURED_IDENTITY_KEYS) then False
      else case get_member stored ''fingerprint'' of
        JStr stored_fingerprint \<Rightarrow>
          if \<not> is_hex_digest stored_fingerprint then False
          else (case fingerprint_for_identity H file rule (stored_part stored) of
              Inl e \<Rightarrow> False
            | Inr expected_fingerprint \<Rightarrow>
                if stored_fingerprint \<noteq> expected_fingerprint then False
                else if stored_fingerprint \<noteq> current_fingerprint then False
                else (case (canonical_json_bytes current, canonical_json_bytes (stored_part stored)) of
                    (Inr a, Inr b) \<Rightarrow> a = b
                  | _ \<Rightarrow> False))
      | _ \<Rightarrow> False)"

definition structured_entry_matches :: "(byte list \<Rightarrow> byte list) \<Rightarrow> json \<Rightarrow> finding \<Rightarrow> diff_error + bool" where
  "structured_entry_matches H entry f =
     (case get_member entry ''rule'' of
        JStr rule \<Rightarrow>
          if rule = [] \<or> rule \<noteq> f_rule f then Inr False
          else (case get_member entry ''findings'' of
              JArr exact_findings \<Rightarrow>
                if \<not> list_all is_dict exact_findings then Inr False
                else rbind (fingerprint H f) (\<lambda>current_fingerprint.
                  Inr (list_ex (\<lambda>stored.
                    stored_identity_matches H (f_file f) rule stored (identity f) current_fingerprint) exact_findings))
            | _ \<Rightarrow> Inr False)
      | _ \<Rightarrow> Inr False)"

definition entry_matches_finding :: "(byte list \<Rightarrow> byte list) \<Rightarrow> json \<Rightarrow> finding \<Rightarrow> diff_error + bool" where
  "entry_matches_finding H entry f =
     (if \<not> is_dict entry then Inl AttributeError
      else if get_member entry ''file'' \<noteq> JStr (f_file f) then Inr False
      else if json_member entry (U ''findings'') \<noteq> None then structured_entry_matches H entry f
      else if json_member entry (U ''pointers'') \<noteq> None \<or> json_member entry (U ''pointer'') \<noteq> None then Inr False
      else if json_truthy (get_member entry ''rule'') \<and> get_member entry ''rule'' \<noteq> JStr (f_rule f) then Inr False
      else case member_or (JStr []) entry ''pointer_prefix'' of
             JStr prefix \<Rightarrow> Inr (starts_with (f_pointer f) prefix)
           | _ \<Rightarrow> Inl TypeError)"

datatype problem = BadReason rejection | NoVersion

definition entry_problems :: "(nat \<Rightarrow> bool) \<Rightarrow> json \<Rightarrow> problem list" where
  "entry_problems decimal entry =
     (case reason_rejection decimal (get_member entry ''reason'') of None \<Rightarrow> [] | Some bad \<Rightarrow> [BadReason bad])
     @ (if \<not> json_truthy (get_member entry ''version'') then [NoVersion] else [])"

text \<open>The first entry that acknowledges the finding, and the matching ones rejected before it.\<close>

fun find_allow_entry ::
  "(byte list \<Rightarrow> byte list) \<Rightarrow> (nat \<Rightarrow> bool) \<Rightarrow> finding \<Rightarrow> (json \<times> problem list) list \<Rightarrow> json list \<Rightarrow>
   diff_error + (json option \<times> (json \<times> problem list) list)" where
  "find_allow_entry H decimal f rejected [] = Inr (None, rejected)"
| "find_allow_entry H decimal f rejected (e # entries) =
     rbind (entry_matches_finding H e f) (\<lambda>matched.
       if \<not> matched then find_allow_entry H decimal f rejected entries
       else
         let problems = entry_problems decimal e in
         if problems \<noteq> [] then find_allow_entry H decimal f (rejected @ [(e, problems)]) entries
         else Inr (Some e, rejected))"

definition suggested_entry :: "(byte list \<Rightarrow> byte list) \<Rightarrow> ustr \<Rightarrow> ustr \<Rightarrow> finding list \<Rightarrow> diff_error + json" where
  "suggested_entry H file rule covered =
     rbind (traverse (\<lambda>f. rbind (fingerprint H f) (\<lambda>digest.
         Inr (JObj (members (identity f) @ [(U ''fingerprint'', JStr digest)])))) covered) (\<lambda>identities.
       Inr (JObj [(U ''file'', JStr file), (U ''rule'', JStr rule), (U ''findings'', JArr identities),
         (U ''reason'', JStr (U ''<explain WHY this is intentional and reviewed, not just that it happened>'')),
         (U ''version'', JStr (U ''<the contract version this change ships in, e.g. 5.6.0>'')),
         (U ''pr'', JStr (U ''<#NNN>''))]))"

section \<open>Comparing trees\<close>

record schema_tree =
  t_files :: files
  t_registry :: registry
  t_base_uri :: "ustr \<Rightarrow> ustr option"

definition tree_get :: "schema_tree \<Rightarrow> ustr \<Rightarrow> json" where
  "tree_get tree relpath = (case map_of (t_files tree) relpath of None \<Rightarrow> JNull | Some doc \<Rightarrow> doc)"

definition base_uri_of :: "schema_tree \<Rightarrow> ustr \<Rightarrow> ustr" where
  "base_uri_of tree relpath =
     (case t_base_uri tree relpath of None \<Rightarrow> SCHEMA_ID_BASE @ relpath | Some uri \<Rightarrow> uri)"

definition compare_file :: "splitter \<Rightarrow> schema_tree \<Rightarrow> schema_tree \<Rightarrow> ustr \<times> ustr \<Rightarrow> findings" where
  "compare_file split base head change =
     (let (status, relpath) = change;
          whole = (\<lambda>rule severity. emit relpath (U ''#'') (U rule) severity NotApplicable JNull JNull JNull);
          old_doc = tree_get base relpath; new_doc = tree_get head relpath;
          oreg = t_registry base; nreg = t_registry head;
          obase = base_uri_of base relpath; nbase = base_uri_of head relpath
      in if status = U ''A'' then Inr [whole ''new_file'' Info]
         else if status = U ''D'' then Inr [whole ''file_removed'' Breaking]
         else if old_doc = JNull \<or> new_doc = JNull then Inr [whole ''missing_side'' Info]
         else if is_endpoints_file relpath
         then compare_endpoints_file split
                \<lparr>o_file = relpath, o_old_base = obase, o_new_base = nbase, o_old_reg = oreg, o_new_reg = nreg\<rparr>
                old_doc new_doc
         else compare_node split node_levels
                \<lparr>old_base = obase, new_base = nbase, old_reg = oreg, new_reg = nreg, old_visited = {}, new_visited = {},
                 s_role = classify_file_role relpath (merged_roles (t_files base) (t_files head) relpath),
                 s_file = relpath\<rparr>
                old_doc new_doc (U ''#''))"

record report =
  all_findings :: "finding list"
  breaking_unacked :: "(finding \<times> (json \<times> problem list) list) list"
  breaking_acked :: "(finding \<times> json) list"

fun acknowledge ::
  "(byte list \<Rightarrow> byte list) \<Rightarrow> (nat \<Rightarrow> bool) \<Rightarrow> json list \<Rightarrow> finding list \<Rightarrow>
   diff_error + (finding \<times> (json \<times> problem list) list) list \<times> (finding \<times> json) list" where
  "acknowledge H decimal entries [] = Inr ([], [])"
| "acknowledge H decimal entries (f # fs) =
     rbind (find_allow_entry H decimal f [] entries) (\<lambda>(entry, rejected).
     rbind (acknowledge H decimal entries fs) (\<lambda>(unacked, acked).
       case entry of
         Some e \<Rightarrow> Inr (unacked, (f, e) # acked)
       | None \<Rightarrow> Inr ((f, rejected) # unacked, acked)))"

definition compare_trees ::
  "(byte list \<Rightarrow> byte list) \<Rightarrow> (nat \<Rightarrow> bool) \<Rightarrow> splitter \<Rightarrow> schema_tree \<Rightarrow> schema_tree \<Rightarrow> (ustr \<times> ustr) list \<Rightarrow>
   json list \<Rightarrow> diff_error + report" where
  "compare_trees H decimal split base head changed allow_entries =
     rbind (in_order (map (compare_file split base head) changed)) (\<lambda>findings.
     rbind (acknowledge H decimal allow_entries (filter (\<lambda>f. f_severity f = Breaking) findings)) (\<lambda>(unacked, acked).
       Inr \<lparr>all_findings = findings, breaking_unacked = unacked, breaking_acked = acked\<rparr>))"

definition exit_code :: "report \<Rightarrow> int" where
  "exit_code report = (if breaking_unacked report \<noteq> [] then 1 else 0)"

section \<open>What passes\<close>

text \<open>An entry acknowledges a finding if it matches and has no problem.\<close>

definition acknowledges :: "(byte list \<Rightarrow> byte list) \<Rightarrow> (nat \<Rightarrow> bool) \<Rightarrow> json \<Rightarrow> finding \<Rightarrow> bool" where
  "acknowledges H decimal entry f \<longleftrightarrow>
     entry_matches_finding H entry f = Inr True \<and> entry_problems decimal entry = []"

lemma find_allow_entry_char:
  "find_allow_entry H decimal f rejected entries = Inr (found, rejected') \<Longrightarrow>
   (found = None \<longleftrightarrow> \<not> list_ex (\<lambda>e. acknowledges H decimal e f) entries) \<and>
   (\<forall>e. found = Some e \<longrightarrow> e \<in> set entries \<and> acknowledges H decimal e f)"
proof (induction entries arbitrary: rejected)
  case (Cons e entries)
  then show ?case
    by (auto simp: rbind_Inr_iff acknowledges_def Let_def split: if_splits)
qed auto

lemma acknowledge_unacked:
  "acknowledge H decimal entries fs = Inr (unacked, acked) \<Longrightarrow>
   map fst unacked = filter (\<lambda>f. \<not> list_ex (\<lambda>e. acknowledges H decimal e f) entries) fs"
proof (induction fs arbitrary: unacked acked)
  case (Cons f fs)
  then obtain found rejected us as where f: "find_allow_entry H decimal f [] entries = Inr (found, rejected)"
    and fs: "acknowledge H decimal entries fs = Inr (us, as)"
    by (auto simp: rbind_Inr_iff)
  with Cons.prems Cons.IH [OF fs] find_allow_entry_char [OF f] show ?case
    by (auto split: option.splits)
qed simp


lemma stored_identity_matches_iff:
  "stored_identity_matches H file rule stored current d \<longleftrightarrow>
   fst ` set (members stored) = insert (U ''fingerprint'') (set STRUCTURED_IDENTITY_KEYS) \<and>
   get_member stored ''fingerprint'' = JStr d \<and> is_hex_digest d \<and>
   fingerprint_for_identity H file rule (stored_part stored) = Inr d \<and>
   (\<exists>bytes. canonical_json_bytes current = Inr bytes \<and> canonical_json_bytes (stored_part stored) = Inr bytes)"
  unfolding stored_identity_matches_def
  by (cases "get_member stored ''fingerprint''"; cases "fingerprint_for_identity H file rule (stored_part stored)";
      cases "canonical_json_bytes current"; cases "canonical_json_bytes (stored_part stored)") auto

lemma structured_entry_matches_True:
  "structured_entry_matches H entry f = Inr True \<longleftrightarrow>
   get_member entry ''rule'' = JStr (f_rule f) \<and> f_rule f \<noteq> [] \<and>
   is_list (get_member entry ''findings'') \<and> list_all is_dict (elements (get_member entry ''findings'')) \<and>
   (\<exists>d. fingerprint H f = Inr d \<and>
      (\<exists>stored \<in> set (elements (get_member entry ''findings'')).
         stored_identity_matches H (f_file f) (f_rule f) stored (identity f) d))"
  unfolding structured_entry_matches_def
  by (cases "get_member entry ''rule''"; cases "get_member entry ''findings''") (auto simp: rbind_Inr_iff list_ex_iff)

text \<open>
  C32: A structured entry acknowledges a finding only if it names its file and rule and stores an
  identity with the same canonical bytes as the finding has, whatever the hash function does.
\<close>

theorem structured_acknowledgement_exact:
  assumes "entry_matches_finding H entry f = Inr True" "json_member entry (U ''findings'') \<noteq> None"
  shows "get_member entry ''file'' = JStr (f_file f) \<and> get_member entry ''rule'' = JStr (f_rule f) \<and>
    (\<exists>stored \<in> set (elements (get_member entry ''findings'')). \<exists>bytes.
       canonical_json_bytes (stored_part stored) = Inr bytes \<and> canonical_json_bytes (identity f) = Inr bytes \<and>
       fingerprint H f = fingerprint_for_identity H (f_file f) (f_rule f) (stored_part stored))"
proof -
  have "get_member entry ''file'' = JStr (f_file f)" "structured_entry_matches H entry f = Inr True"
    using assms by (auto simp: entry_matches_finding_def split: if_splits)
  then show ?thesis
    unfolding structured_entry_matches_True stored_identity_matches_iff by fastforce
qed

text \<open>The entry the gate suggests acknowledges the findings it was written for.\<close>

lemma identity_dict: "is_dict (identity f)" "map fst (members (identity f)) = STRUCTURED_IDENTITY_KEYS"
  by (simp_all add: identity_def STRUCTURED_IDENTITY_KEYS_def)

lemma suggestion_parts:
  "stored_part (JObj (members (identity f) @ [(U ''fingerprint'', JStr d)])) = identity f"
  "get_member (JObj (members (identity f) @ [(U ''fingerprint'', JStr d)])) ''fingerprint'' = JStr d"
  "fst ` set (members (JObj (members (identity f) @ [(U ''fingerprint'', JStr d)]))) =
     insert (U ''fingerprint'') (set STRUCTURED_IDENTITY_KEYS)"
  by (auto simp: stored_part_def identity_def STRUCTURED_IDENTITY_KEYS_def member_or_def)

lemma hex_char_is_hex: "d < 16 \<Longrightarrow> is_digit (hex_char d) \<or> 97 \<le> hex_char d \<and> hex_char d \<le> 102"
  by (auto simp: hex_char_def is_digit_def)

lemma hexdigest_is_hex: "length b = 32 \<Longrightarrow> is_hex_digest (hexdigest b)"
proof -
  have "list_all (\<lambda>c. is_digit c \<or> 97 \<le> c \<and> c \<le> 102) (hexdigest b)" for b
    using hex_char_is_hex byte_nibbles by (induction b) (auto simp: hexdigest_def)
  then show "length b = 32 \<Longrightarrow> ?thesis" by (simp add: is_hex_digest_def)
qed

lemma fingerprint_bytes:
  assumes "fingerprint H f = Inr d"
  shows "\<exists>b. d = hexdigest (H b)"
  using assms by (auto simp: fingerprint_def fingerprint_for_identity_def rbind_Inr_iff)

text \<open>
  The allowlist entry the gate prints for a group of findings matches each of them.
\<close>

theorem suggestion_acknowledges:
  assumes "suggested_entry H (f_file f) (f_rule f) covered = Inr entry" "f \<in> set covered" "f_rule f \<noteq> []"
    and "canonical_json_bytes (identity f) = Inr bytes" "\<And>b. length (H b) = 32"
  shows "entry_matches_finding H entry f = Inr True"
proof -
  obtain ids where ids: "traverse (\<lambda>f. rbind (fingerprint H f) (\<lambda>digest.
      Inr (JObj (members (identity f) @ [(U ''fingerprint'', JStr digest)])))) covered = Inr ids"
    and entry: "get_member entry ''file'' = JStr (f_file f)" "get_member entry ''rule'' = JStr (f_rule f)"
      "get_member entry ''findings'' = JArr ids" "is_dict entry" "json_member entry (U ''findings'') = Some (JArr ids)"
    using assms(1) by (auto simp: suggested_entry_def rbind_Inr_iff member_or_def)
  have dicts: "\<forall>i \<in> set ids. is_dict i"
    by (rule traverse_all [OF ids]) (auto simp: rbind_Inr_iff)
  obtain d where d: "fingerprint H f = Inr d"
    and mem: "JObj (members (identity f) @ [(U ''fingerprint'', JStr d)]) \<in> set ids"
    using traverse_Inr_mem [OF ids assms(2)] by (auto simp: rbind_Inr_iff)
  obtain b where "d = hexdigest (H b)" using fingerprint_bytes [OF d] by blast
  with assms(5) have hex: "is_hex_digest d" using hexdigest_is_hex by simp
  have "stored_identity_matches H (f_file f) (f_rule f) (JObj (members (identity f) @ [(U ''fingerprint'', JStr d)])) (identity f) d"
    unfolding stored_identity_matches_iff suggestion_parts using hex d assms(4) by (simp add: fingerprint_def)
  with d mem dicts assms(3) entry show ?thesis
    by (auto simp: entry_matches_finding_def structured_entry_matches_True list_all_iff)
qed

section \<open>Concrete inputs\<close>

definition zero_digest :: "byte list \<Rightarrow> byte list" where
  "zero_digest b = replicate 32 0"

definition empty_tree :: schema_tree where
  "empty_tree = \<lparr>t_files = [], t_registry = (\<lambda>_. None), t_base_uri = (\<lambda>_. None)\<rparr>"

definition removed_file :: finding where
  "removed_file = emit (U ''a.json'') (U ''#'') (U ''file_removed'') Breaking NotApplicable JNull JNull JNull"

lemma removed_file_rule: "U ''file_removed'' \<noteq> []"
  by (simp add: U_def)


lemma removed_file_bytes: "\<exists>bytes. canonical_json_bytes (identity removed_file) = Inr bytes"
  by (simp add: removed_file_def emit_def identity_def canonical_json_bytes_def dump_string_def dump_char_def U_def
      role_text_def is_surrogate_def Let_def compact_dump_def insort_key_def)

lemma removed_file_suggestion:
  "\<exists>entry. suggested_entry zero_digest (f_file removed_file) (f_rule removed_file) [removed_file] = Inr entry"
proof -
  have "\<exists>d. fingerprint zero_digest removed_file = Inr d"
    by (simp add: removed_file_def emit_def identity_def fingerprint_def fingerprint_for_identity_def canonical_json_bytes_def
        dump_string_def dump_char_def U_def role_text_def is_surrogate_def Let_def compact_dump_def insort_key_def)
  then show ?thesis by (auto simp: suggested_entry_def)
qed

lemma suggestion_acknowledges_witness:
  "\<exists>entry. suggested_entry zero_digest (U ''a.json'') (U ''file_removed'') [removed_file] = Inr entry \<and>
     entry_matches_finding zero_digest entry removed_file = Inr True"
proof -
  obtain entry where e: "suggested_entry zero_digest (f_file removed_file) (f_rule removed_file) [removed_file] = Inr entry"
    using removed_file_suggestion by blast
  obtain bytes where b: "canonical_json_bytes (identity removed_file) = Inr bytes" using removed_file_bytes by blast
  have "entry_matches_finding zero_digest entry removed_file = Inr True"
    by (rule suggestion_acknowledges [OF e _ _ b]) (simp_all add: zero_digest_def removed_file_def emit_def removed_file_rule)
  with e show ?thesis by (auto simp: removed_file_def emit_def)
qed

lemma structured_acknowledgement_exact_witness:
  "\<exists>entry. (\<exists>stored \<in> set (elements (get_member entry ''findings'')). \<exists>bytes.
      canonical_json_bytes (stored_part stored) = Inr bytes \<and> canonical_json_bytes (identity removed_file) = Inr bytes)"
proof -
  obtain d where d: "fingerprint zero_digest removed_file = Inr d"
    using removed_file_suggestion by (auto simp: suggested_entry_def rbind_Inr_iff)
  let ?stored = "JObj (members (identity removed_file) @ [(U ''fingerprint'', JStr d)])"
  let ?entry = "JObj [(U ''file'', JStr (U ''a.json'')), (U ''rule'', JStr (U ''file_removed'')), (U ''findings'', JArr [?stored])]"
  obtain b where b: "d = hexdigest (zero_digest b)" using fingerprint_bytes [OF d] by blast
  have "stored_identity_matches zero_digest (f_file removed_file) (f_rule removed_file) ?stored (identity removed_file) d"
    unfolding stored_identity_matches_iff suggestion_parts
    using hexdigest_is_hex [of "zero_digest b"] b d removed_file_bytes
    by (simp add: fingerprint_def zero_digest_def)
  with d have "entry_matches_finding zero_digest ?entry removed_file = Inr True"
    by (simp add: entry_matches_finding_def structured_entry_matches_True member_or_def removed_file_def emit_def removed_file_rule)
  from structured_acknowledgement_exact [OF this] show ?thesis by (intro exI [of _ ?entry]) auto
qed

end
