(* ===== verification/Invariants.thy ===== *)
theory Invariants
  imports Fp2 JsonText
begin

text \<open>
  The interpreter of declared cross-field invariants, \<open>traigent_schema/invariants.py\<close>: JSON
  pointers, the prevalidation of a compared subtree, the structural comparison, the three
  relations and \<open>validate_declared_invariants\<close>. The schema, the meta-schema and the payload are
  values of one heap; \<open>jsonschema\<close> is the parameter \<open>check\<close>, which says of an item schema and a
  declaration what the validator does. The second half relates the interpreter to the trees the
  values spell.
\<close>

section \<open>Pointers\<close>

datatype invariant_error =
    DeclarationError
  | NoncanonicalFloat | NoncanonicalType | NoncanonicalKey
  | TooDeep | SelfContaining | TooManyNodes
  | MissingField | NotSubscriptable | NoSuchAttribute
  | DoesNotReturn

definition MAX_COMPARISON_DEPTH :: nat where
  "MAX_COMPARISON_DEPTH = 100"

definition MAX_COMPARISON_NODES :: nat where
  "MAX_COMPARISON_NODES = 100000"

definition unescape_segment :: "ustr \<Rightarrow> ustr" where
  "unescape_segment segment = replace2 126 48 126 (replace2 126 49 47 segment)"

text \<open>The value of the first key that is an exact \<open>str\<close> equal to the segment.\<close>

fun object_member :: "(pyval \<times> pyval) list \<Rightarrow> ustr \<Rightarrow> pyval option" where
  "object_member [] segment = None"
| "object_member ((key, value) # kvs) segment =
     (case key of
        VStr k \<Rightarrow> if k = segment then Some value else object_member kvs segment
      | _ \<Rightarrow> object_member kvs segment)"

text \<open>\<open>int\<close> refuses a text of more than 4300 digits.\<close>

definition array_index :: "ustr \<Rightarrow> nat option" where
  "array_index segment =
     (if segment = [48] \<or> segment \<noteq> [] \<and> list_all is_digit segment \<and> hd segment \<noteq> 48
      then if 4300 < length segment then None else Some (digits_nat (map (\<lambda>d. d - 48) segment))
      else None)"

definition array_item :: "'a list \<Rightarrow> ustr \<Rightarrow> 'a option" where
  "array_item current segment =
     (case array_index segment of
        None \<Rightarrow> None
      | Some index \<Rightarrow> if length current \<le> index then None else Some (current ! index))"

definition pointer_step :: "heap \<Rightarrow> pyval \<Rightarrow> ustr \<Rightarrow> pyval option" where
  "pointer_step h current segment =
     (case dict_items h current of
        Some kvs \<Rightarrow> object_member kvs segment
      | None \<Rightarrow>
          (case list_items h current of
             Some vs \<Rightarrow> array_item vs segment
           | None \<Rightarrow> None))"

fun follow_segments :: "heap \<Rightarrow> pyval \<Rightarrow> ustr list \<Rightarrow> pyval option" where
  "follow_segments h current [] = Some current"
| "follow_segments h current (raw_segment # rest) =
     (case pointer_step h current (unescape_segment raw_segment) of
        None \<Rightarrow> None
      | Some v \<Rightarrow> follow_segments h v rest)"

text \<open>\<open>None\<close> is the sentinel for a missing pointer.\<close>

definition resolve_pointer :: "heap \<Rightarrow> pyval \<Rightarrow> pyval \<Rightarrow> invariant_error + pyval option" where
  "resolve_pointer h payload pointer =
     (case pointer of
        VStr p \<Rightarrow>
          if p = [] then Inr (Some payload)
          else if hd p \<noteq> 47 then Inl DeclarationError
          else Inr (follow_segments h payload (drop 1 (split_at 47 p)))
      | _ \<Rightarrow> Inl NoSuchAttribute)"

section \<open>Prevalidation\<close>

datatype canonical_work =
    Visit pyval nat
  | Leave nat

fun is_canonical_scalar :: "pyval \<Rightarrow> invariant_error + bool" where
  "is_canonical_scalar (VFloat f) = (if \<not> is_finite_float f then Inl NoncanonicalFloat else Inr True)"
| "is_canonical_scalar (VRef a) = Inr False"
| "is_canonical_scalar (VOther t) = Inl NoncanonicalType"
| "is_canonical_scalar node = Inr True"

definition container_len :: "pyobj \<Rightarrow> nat" where
  "container_len obj = (case obj of OList vs \<Rightarrow> length vs | ODict kvs \<Rightarrow> length kvs)"

definition reserve_container ::
  "heap \<Rightarrow> nat \<Rightarrow> nat \<Rightarrow> nat set \<times> nat \<Rightarrow> invariant_error + nat set \<times> nat" where
  "reserve_container h a depth s =
     (case s of (open_ids, remaining) \<Rightarrow>
        if MAX_COMPARISON_DEPTH < depth then Inl TooDeep
        else if a \<in> open_ids then Inl SelfContaining
        else if remaining < container_len (h a) then Inl TooManyNodes
        else Inr (insert a open_ids, remaining - container_len (h a)))"

text \<open>The entries in the order they are pushed; the last one is popped first.\<close>

definition push_canonical_children :: "pyobj \<Rightarrow> nat \<Rightarrow> invariant_error + canonical_work list" where
  "push_canonical_children obj depth =
     (case obj of
        ODict kvs \<Rightarrow>
          traverse (\<lambda>(key, item). case key of VStr k \<Rightarrow> Inr (Visit item (depth + 1)) | _ \<Rightarrow> Inl NoncanonicalKey) kvs
      | OList vs \<Rightarrow> Inr (map (\<lambda>item. Visit item (depth + 1)) vs))"

fun canonical_step ::
  "heap \<Rightarrow> nat set \<times> nat \<Rightarrow> canonical_work \<Rightarrow> invariant_error + (nat set \<times> nat) \<times> canonical_work list" where
  "canonical_step h (open_ids, remaining) (Leave a) = Inr ((open_ids - {a}, remaining), [])"
| "canonical_step h s (Visit node depth) =
     rbind (is_canonical_scalar node) (\<lambda>scalar.
       if scalar then Inr (s, [])
       else (case node of
               VRef a \<Rightarrow>
                 rbind (reserve_container h a depth s) (\<lambda>s'.
                 rbind (push_canonical_children (h a) depth) (\<lambda>pushed. Inr (s', rev pushed @ [Leave a])))
             | _ \<Rightarrow> Inr (s, [])))"

fun canonical_cost :: "heap \<Rightarrow> canonical_work \<Rightarrow> nat" where
  "canonical_cost h (Leave a) = 1"
| "canonical_cost h (Visit v depth) = weight h (Suc MAX_COMPARISON_DEPTH - depth) v"

lemma traverse_keys_iff:
  "traverse (\<lambda>(key, item). case key of VStr k \<Rightarrow> Inr (f item) | _ \<Rightarrow> Inl e) kvs = Inr ws \<longleftrightarrow>
   (\<forall>kv \<in> set kvs. \<exists>k. fst kv = VStr k) \<and> ws = map (\<lambda>kv. f (snd kv)) kvs"
  by (induction kvs arbitrary: ws) (auto simp: rbind_Inr_iff split: pyval.splits)

lemma push_children_Inr:
  "push_canonical_children obj depth = Inr ws \<longleftrightarrow>
   (case obj of
      ODict kvs \<Rightarrow> (\<forall>kv \<in> set kvs. \<exists>k. fst kv = VStr k) \<and> ws = map (\<lambda>kv. Visit (snd kv) (depth + 1)) kvs
    | OList vs \<Rightarrow> ws = map (\<lambda>v. Visit v (depth + 1)) vs)"
  by (auto simp: push_canonical_children_def traverse_keys_iff split: pyobj.split)

lemma sum_list_padded: "sum_list (map f xs) < 3 + sum_list (map (\<lambda>x. Suc (Suc (f x))) xs)"
  by (induction xs) auto

lemma canonical_step_cost:
  "canonical_step h s w = Inr (s', new) \<Longrightarrow> sum_list (map (canonical_cost h) new) < canonical_cost h w"
proof (induction h s w rule: canonical_step.induct)
  case (2 h s node depth)
  show ?case
  proof (cases node)
    case (VRef a)
    with 2 obtain pushed where "\<not> MAX_COMPARISON_DEPTH < depth" "push_canonical_children (h a) depth = Inr pushed"
      "new = rev pushed @ [Leave a]"
      by (cases s) (auto simp: reserve_container_def rbind_Inr_iff split: if_splits)
    moreover from this(1) have "Suc MAX_COMPARISON_DEPTH - depth = Suc (MAX_COMPARISON_DEPTH - depth)" by simp
    ultimately show ?thesis using VRef
      by (auto simp: push_children_Inr sum_list_padded comp_def rev_map [symmetric] split: pyobj.splits)
  qed (use 2 in \<open>auto split: if_splits\<close>)
qed auto

function canonical_loop ::
  "heap \<Rightarrow> nat set \<times> nat \<Rightarrow> canonical_work list \<Rightarrow> invariant_error + nat set \<times> nat" where
  "canonical_loop h s [] = Inr s"
| "canonical_loop h s (w # ws) =
     (case canonical_step h s w of Inl e \<Rightarrow> Inl e | Inr (s', new) \<Rightarrow> canonical_loop h s' (new @ ws))"
  by pat_completeness auto
termination
  by (relation "measure (\<lambda>(h, s, ws). sum_list (map (canonical_cost h) ws))")
    (auto dest: canonical_step_cost)

declare canonical_loop.simps(2) [simp del]

interpretation canonical_walk: work_stack "canonical_step h" "canonical_loop h" "canonical_cost h" for h
  by unfold_locales
    (auto dest: canonical_step_cost simp: rbind_def canonical_loop.simps split: sum.split)

definition prevalidate_canonical :: "heap \<Rightarrow> pyval \<Rightarrow> invariant_error + unit" where
  "prevalidate_canonical h node =
     rbind (canonical_loop h ({}, MAX_COMPARISON_NODES - 1) [Visit node 1]) (\<lambda>_. Inr ())"

section \<open>Comparison\<close>

fun py_float_eq :: "pyfloat \<Rightarrow> pyfloat \<Rightarrow> bool" where
  "py_float_eq FNaN g = False"
| "py_float_eq (FZero neg) g = (\<exists>n. g = FZero n)"
| "py_float_eq f g = (f = g)"

text \<open>\<open>type(l) is type(r)\<close> and \<open>l == r\<close> for values prevalidation admits; \<open>None\<close> ends the comparison.\<close>

fun expand_pair :: "heap \<Rightarrow> pyval \<Rightarrow> pyval \<Rightarrow> (pyval \<times> pyval) list option" where
  "expand_pair h VNone r = (if r = VNone then Some [] else None)"
| "expand_pair h (VBool b) r = (if r = VBool b then Some [] else None)"
| "expand_pair h (VInt i) r = (if r = VInt i then Some [] else None)"
| "expand_pair h (VFloat f) r = (case r of VFloat g \<Rightarrow> if py_float_eq f g then Some [] else None | _ \<Rightarrow> None)"
| "expand_pair h (VStr s) r = (if r = VStr s then Some [] else None)"
| "expand_pair h (VOther t) r = None"
| "expand_pair h (VRef a) r =
     (case r of
        VRef b \<Rightarrow>
          (case (h a, h b) of
             (ODict kvs, ODict lvs) \<Rightarrow>
               if fst ` set kvs \<noteq> fst ` set lvs then None
               else Some (map (\<lambda>(key, item). (item, the (map_of lvs key))) kvs)
           | (OList vs, OList ws) \<Rightarrow> if length vs \<noteq> length ws then None else Some (zip vs ws)
           | _ \<Rightarrow> None)
      | _ \<Rightarrow> None)"

partial_function (option) compare_validated :: "heap \<Rightarrow> (pyval \<times> pyval) list \<Rightarrow> bool option" where
  "compare_validated h work =
     (case work of
        [] \<Rightarrow> Some True
      | (node_left, node_right) # rest \<Rightarrow>
          (case expand_pair h node_left node_right of
             None \<Rightarrow> Some False
           | Some pushed \<Rightarrow> compare_validated h (rev pushed @ rest)))"

definition exact_structural_equal :: "heap \<Rightarrow> pyval \<Rightarrow> pyval \<Rightarrow> invariant_error + bool" where
  "exact_structural_equal h left right =
     rbind (prevalidate_canonical h left) (\<lambda>_.
     rbind (prevalidate_canonical h right) (\<lambda>_.
       case compare_validated h [(left, right)] of
         None \<Rightarrow> Inl DoesNotReturn
       | Some b \<Rightarrow> Inr b))"

section \<open>The relations\<close>

text \<open>\<open>declaration[key]\<close>.\<close>

definition field :: "heap \<Rightarrow> pyval \<Rightarrow> string \<Rightarrow> invariant_error + pyval" where
  "field h declaration key =
     (case dict_items h declaration of
        None \<Rightarrow> Inl NotSubscriptable
      | Some kvs \<Rightarrow> (case dict_get kvs key of None \<Rightarrow> Inl MissingField | Some v \<Rightarrow> Inr v))"

definition resolve_field :: "heap \<Rightarrow> pyval \<Rightarrow> pyval \<Rightarrow> string \<Rightarrow> invariant_error + pyval option" where
  "resolve_field h payload declaration key =
     rbind (field h declaration key) (\<lambda>pointer. resolve_pointer h payload pointer)"

definition present_and_equal :: "heap \<Rightarrow> pyval \<Rightarrow> pyval \<Rightarrow> invariant_error + bool" where
  "present_and_equal h payload declaration =
     rbind (resolve_field h payload declaration ''left_pointer'') (\<lambda>left.
     rbind (resolve_field h payload declaration ''right_pointer'') (\<lambda>right.
       case (left, right) of
         (Some l, Some r) \<Rightarrow> exact_structural_equal h l r
       | _ \<Rightarrow> Inr False))"

definition selector_lookup_equals_literal :: "heap \<Rightarrow> pyval \<Rightarrow> pyval \<Rightarrow> invariant_error + bool" where
  "selector_lookup_equals_literal h payload declaration =
     rbind (resolve_field h payload declaration ''selector_pointer'') (\<lambda>selector.
       case selector of
         Some (VStr key) \<Rightarrow>
           rbind (resolve_field h payload declaration ''map_pointer'') (\<lambda>mapping.
             case Option.bind mapping (dict_items h) of
               None \<Rightarrow> Inr False
             | Some kvs \<Rightarrow>
                 (case object_member kvs key of
                    None \<Rightarrow> Inr False
                  | Some looked_up \<Rightarrow>
                      rbind (field h declaration ''literal'') (\<lambda>literal. exact_structural_equal h looked_up literal)))
       | _ \<Rightarrow> Inr False)"

definition condition_implies_unequal :: "heap \<Rightarrow> pyval \<Rightarrow> pyval \<Rightarrow> invariant_error + bool" where
  "condition_implies_unequal h payload declaration =
     rbind (resolve_field h payload declaration ''condition_pointer'') (\<lambda>condition.
       if condition \<noteq> Some (VBool True) then Inr True
       else
         rbind (resolve_field h payload declaration ''left_pointer'') (\<lambda>left.
         rbind (resolve_field h payload declaration ''right_pointer'') (\<lambda>right.
           case (left, right) of
             (Some l, Some r) \<Rightarrow> rbind (exact_structural_equal h l r) (\<lambda>equal. Inr (\<not> equal))
           | _ \<Rightarrow> Inr False)))"

definition relation_check :: "pyval \<Rightarrow> (heap \<Rightarrow> pyval \<Rightarrow> pyval \<Rightarrow> invariant_error + bool) option" where
  "relation_check relation =
     (if relation = VStr (U ''present_and_equal'') then Some present_and_equal
      else if relation = VStr (U ''selector_lookup_equals_literal'') then Some selector_lookup_equals_literal
      else if relation = VStr (U ''condition_implies_unequal'') then Some condition_implies_unequal
      else None)"

section \<open>The interpreter\<close>

text \<open>What \<open>Draft7Validator(item_schema).is_valid(declaration)\<close> does.\<close>

datatype validity = Raises | Verdict bool

type_synonym item_check = "pyval \<Rightarrow> pyval \<Rightarrow> validity"

text \<open>A missing key and a value that is not subscriptable both end in the declaration error.\<close>

definition invariants_item_schema :: "heap \<Rightarrow> pyval \<Rightarrow> invariant_error + pyval" where
  "invariants_item_schema h meta_schema =
     (case rbind (field h meta_schema ''properties'') (\<lambda>properties.
           rbind (field h properties ''x-traigent-invariants'') (\<lambda>invariants. field h invariants ''items'')) of
        Inl e \<Rightarrow> Inl DeclarationError
      | Inr item_schema \<Rightarrow> Inr item_schema)"

definition validate_declaration_shape :: "item_check \<Rightarrow> pyval \<Rightarrow> pyval \<Rightarrow> invariant_error + unit" where
  "validate_declaration_shape check item_schema declaration =
     (case check item_schema declaration of
        Raises \<Rightarrow> Inl DeclarationError
      | Verdict is_valid \<Rightarrow> if \<not> is_valid then Inl DeclarationError else Inr ())"

definition declarations :: "item_check \<Rightarrow> heap \<Rightarrow> pyval \<Rightarrow> pyval \<Rightarrow> invariant_error + pyval list" where
  "declarations check h meta_schema schema =
     (case dict_items h schema of
        None \<Rightarrow> Inl NoSuchAttribute
      | Some kvs \<Rightarrow>
          (case Option.bind (dict_get kvs ''x-traigent-invariants'') (list_items h) of
             Some (d # ds) \<Rightarrow>
               rbind (invariants_item_schema h meta_schema) (\<lambda>item_schema.
               rbind (check_all (\<lambda>declaration.
                   rbind (validate_declaration_shape check item_schema declaration) (\<lambda>_.
                   rbind (field h declaration ''relation'') (\<lambda>relation.
                     raise_if (relation_check relation = None) DeclarationError))) (d # ds)) (\<lambda>_.
                 Inr (d # ds)))
           | _ \<Rightarrow> Inl DeclarationError))"

record violation =
  vi_code :: pyval
  vi_relation :: pyval
  vi_left_pointer :: pyval
  vi_right_pointer :: pyval
  vi_condition_pointer :: "pyval option"

text \<open>\<open>declaration.get(key, declaration.get(other, ''))\<close>.\<close>

definition field_or :: "heap \<Rightarrow> pyval \<Rightarrow> string \<Rightarrow> string \<Rightarrow> pyval" where
  "field_or h declaration key other =
     (case field h declaration key of
        Inr v \<Rightarrow> v
      | Inl e \<Rightarrow> (case field h declaration other of Inr v \<Rightarrow> v | Inl e \<Rightarrow> VStr []))"

definition violation_of :: "heap \<Rightarrow> pyval \<Rightarrow> invariant_error + violation" where
  "violation_of h declaration =
     rbind (field h declaration ''code'') (\<lambda>code.
     rbind (field h declaration ''relation'') (\<lambda>relation.
       Inr \<lparr>vi_code = code, vi_relation = relation,
            vi_left_pointer = field_or h declaration ''left_pointer'' ''selector_pointer'',
            vi_right_pointer = field_or h declaration ''right_pointer'' ''map_pointer'',
            vi_condition_pointer =
              (case field h declaration ''condition_pointer'' of Inr v \<Rightarrow> Some v | Inl e \<Rightarrow> None)\<rparr>))"

definition evaluate_declaration :: "heap \<Rightarrow> pyval \<Rightarrow> pyval \<Rightarrow> invariant_error + violation list" where
  "evaluate_declaration h payload declaration =
     rbind (field h declaration ''relation'') (\<lambda>relation.
       case relation_check relation of
         None \<Rightarrow> Inl MissingField
       | Some check \<Rightarrow>
           rbind (check h payload declaration) (\<lambda>holds.
             if holds then Inr [] else rbind (violation_of h declaration) (\<lambda>v. Inr [v])))"

definition validate_declared_invariants ::
  "item_check \<Rightarrow> heap \<Rightarrow> pyval \<Rightarrow> pyval \<Rightarrow> pyval \<Rightarrow> invariant_error + violation list" where
  "validate_declared_invariants check h meta_schema schema payload =
     rbind (declarations check h meta_schema schema) (\<lambda>ds.
     rbind (traverse (evaluate_declaration h payload) ds) (\<lambda>vss. Inr (concat vss)))"

section \<open>What prevalidation decides\<close>

fun nodes_below :: "json \<Rightarrow> nat" where
  "nodes_below (JArr ts) = length ts + sum_list (map nodes_below ts)"
| "nodes_below (JObj kts) = length kts + sum_list (map (\<lambda>kt. nodes_below (snd kt)) kts)"
| "nodes_below t = 0"

fun finite_floats :: "json \<Rightarrow> bool" where
  "finite_floats (JFloat f) = is_finite_float f"
| "finite_floats (JArr ts) = (\<forall>t \<in> set ts. finite_floats t)"
| "finite_floats (JObj kts) = (\<forall>kt \<in> set kts. finite_floats (snd kt))"
| "finite_floats t = True"

definition canonical_tree :: "heap \<Rightarrow> pyval \<Rightarrow> json \<Rightarrow> bool" where
  "canonical_tree h v t \<longleftrightarrow>
     unfold_value h MAX_COMPARISON_DEPTH v = Some t \<and> finite_floats t \<and> nodes_below t < MAX_COMPARISON_NODES"

lemma canonical_leave [simp]: "canonical_loop h (opened, r) (Leave a # ws) = canonical_loop h (opened - {a}, r) ws"
  by (simp add: canonical_loop.simps(2))

lemma visits_ok:
  "list_all2 (\<lambda>x t. \<forall>r. nodes_below t \<le> r \<longrightarrow>
     canonical_loop h (opened, r) [Visit x d] = Inr (opened, r - nodes_below t)) xs ts \<Longrightarrow>
   sum_list (map nodes_below ts) \<le> r \<Longrightarrow>
   canonical_loop h (opened, r) (map (\<lambda>x. Visit x d) xs @ ws) =
   canonical_loop h (opened, r - sum_list (map nodes_below ts)) ws"
proof (induction xs ts arbitrary: r rule: list_all2_induct)
  case (Cons x xs t ts)
  then have le: "sum_list (map nodes_below ts) \<le> r - nodes_below t" "nodes_below t \<le> r" by simp_all
  with Cons.hyps(1) have "canonical_loop h (opened, r) [Visit x d] = Inr (opened, r - nodes_below t)" by blast
  from canonical_walk.run_step [OF this] show ?case using Cons.IH [OF le(1)] by (simp only: list.map append_Cons) simp
qed simp

lemma visits_sound:
  "canonical_loop h (opened, r) (map (\<lambda>x. Visit x d) xs @ ws) = Inr s \<Longrightarrow>
   (\<And>x opened r opened' r'. x \<in> set xs \<Longrightarrow> canonical_loop h (opened, r) [Visit x d] = Inr (opened', r') \<Longrightarrow>
      \<exists>t. P x t \<and> r = r' + nodes_below t) \<Longrightarrow>
   \<exists>ts opened' r'. list_all2 P xs ts \<and> r = r' + sum_list (map nodes_below ts) \<and> canonical_loop h (opened', r') ws = Inr s"
proof (induction xs arbitrary: opened r)
  case (Cons x xs)
  from Cons.prems(1) have "\<exists>s1. canonical_loop h (opened, r) [Visit x d] = Inr s1 \<and>
      canonical_loop h s1 (map (\<lambda>x. Visit x d) xs @ ws) = Inr s"
    by (simp only: list.map append_Cons canonical_walk.run_Cons_Inr [of h "(opened, r)" "Visit x d" "_ @ _"])
  then obtain o1 r1 where 1: "canonical_loop h (opened, r) [Visit x d] = Inr (o1, r1)"
    and 2: "canonical_loop h (o1, r1) (map (\<lambda>x. Visit x d) xs @ ws) = Inr s"
    by (metis surj_pair)
  obtain t where t: "P x t" "r = r1 + nodes_below t" using Cons.prems(2) [OF _ 1] by auto
  obtain ts opened' r' where "list_all2 P xs ts" "r1 = r' + sum_list (map nodes_below ts)" "canonical_loop h (opened', r') ws = Inr s"
    using Cons.IH [OF 2] Cons.prems(2) by (metis list.set_intros(2))
  with t have "list_all2 P (x # xs) (t # ts) \<and> r = r' + sum_list (map nodes_below (t # ts)) \<and> canonical_loop h (opened', r') ws = Inr s"
    by simp
  then show ?case by blast
qed auto

lemma scalar_canonical:
  "scalar_tree v = Some t \<Longrightarrow> is_canonical_scalar v = (if finite_floats t then Inr True else Inl NoncanonicalFloat) \<and> nodes_below t = 0"
  by (cases v) auto

lemma canonical_visit_ok:
  "unfold_value h n v = Some t \<Longrightarrow> finite_floats t \<Longrightarrow> d + n \<le> Suc MAX_COMPARISON_DEPTH \<Longrightarrow> open_ok h opened t \<Longrightarrow>
   nodes_below t \<le> r \<Longrightarrow> canonical_loop h (opened, r) [Visit v d] = Inr (opened, r - nodes_below t)"
proof (induction n arbitrary: v t d opened r)
  case 0
  then have "scalar_tree v = Some t" by (cases v) auto
  with 0 show ?case by (simp add: canonical_loop.simps scalar_canonical)
next
  case (Suc n)
  show ?case
  proof (cases "\<exists>a. v = VRef a")
    case False
    then have "scalar_tree v = Some t" using Suc.prems(1) by (cases v) auto
    with Suc.prems show ?thesis by (simp add: canonical_loop.simps scalar_canonical)
  next
    case True
    then obtain a where v: "v = VRef a" by blast
    have a: "a \<notin> opened" using open_ok_not_mem Suc.prems v by blast
    have child: "\<forall>r. nodes_below t' \<le> r \<longrightarrow>
        canonical_loop h (insert a opened, r) [Visit x (Suc d)] = Inr (insert a opened, r - nodes_below t')"
      if "unfold_value h n x = Some t'" "finite_floats t'" "size t' < size t" for x t'
      using Suc.IH [OF that(1,2) _ open_ok_child [OF Suc.prems(4) Suc.prems(1) [unfolded v] that(3)]] Suc.prems(3) by simp
    have finish: "canonical_loop h (opened, r) [Visit v d] = Inr (opened, r - nodes_below t)"
      if l: "list_all2 (\<lambda>x t'. unfold_value h n x = Some t' \<and> finite_floats t' \<and> size t' < size t) xs ts"
        and n: "nodes_below t = length xs + sum_list (map nodes_below ts)" "container_len (h a) = length xs"
        and push: "push_canonical_children (h a) d = Inr (map (\<lambda>x. Visit x (Suc d)) xs)" for xs ts
    proof -
      let ?r = "r - length xs"
      have "list_all2 (\<lambda>x t'. \<forall>r. nodes_below t' \<le> r \<longrightarrow>
          canonical_loop h (insert a opened, r) [Visit x (Suc d)] = Inr (insert a opened, r - nodes_below t')) (rev xs) (rev ts)"
        unfolding list_all2_rev using l by (rule list_all2_mono) (blast dest: child)
      from visits_ok [OF this, of ?r "[Leave a]"] n Suc.prems(3,5) push a v
      show ?thesis by (simp add: canonical_loop.simps(2) reserve_container_def rev_map [symmetric])
    qed
    show ?thesis
    proof (cases "h a")
      case (OList vs)
      with Suc.prems v obtain ts where t: "t = JArr ts" and l: "list_all2 (\<lambda>x t. unfold_value h n x = Some t) vs ts"
        by (auto simp: unfold_items_Some_iff)
      have "list_all2 (\<lambda>x t'. unfold_value h n x = Some t' \<and> finite_floats t' \<and> size t' < size t) vs ts"
        using l by (rule list.rel_mono_strong) (use Suc.prems(2) t tree_item_size in auto)
      from finish [OF this] OList t show ?thesis
        by (simp add: container_len_def push_canonical_children_def list_all2_lengthD [OF l])
    next
      case (ODict kvs)
      with Suc.prems v obtain kts where t: "t = JObj kts"
        and l: "list_all2 (\<lambda>kv kt. fst kv = VStr (fst kt) \<and> unfold_value h n (snd kv) = Some (snd kt)) kvs kts"
        by (auto simp: unfold_members_Some_iff)
      have "list_all2 (\<lambda>kv kt. unfold_value h n (snd kv) = Some (snd kt) \<and> finite_floats (snd kt) \<and> size (snd kt) < size t) kvs kts"
        using l by (rule list.rel_mono_strong) (use Suc.prems(2) t tree_member_size in auto)
      then have "list_all2 (\<lambda>x t'. unfold_value h n x = Some t' \<and> finite_floats t' \<and> size t' < size t) (map snd kvs) (map snd kts)"
        by (simp add: list_all2_map1 list_all2_map2)
      moreover have "\<forall>kv \<in> set kvs. \<exists>k. fst kv = VStr k" using l list_all2_mem by fastforce
      ultimately show ?thesis using finish [of "map snd kvs" "map snd kts"] ODict t
        by (simp add: container_len_def push_children_Inr list_all2_lengthD [OF l] comp_def)
    qed
  qed
qed

lemma canonical_visit_sound:
  "canonical_loop h (opened, r) [Visit v d] = Inr (opened', r') \<Longrightarrow> Suc MAX_COMPARISON_DEPTH - d = n \<Longrightarrow>
   \<exists>t. (unfold_value h n v = Some t \<and> finite_floats t) \<and> r = r' + nodes_below t"
proof (induction n arbitrary: v d opened r opened' r')
  case 0
  have "\<exists>t. (scalar_tree v = Some t \<and> finite_floats t) \<and> r = r' + nodes_below t"
    using 0 by (cases v) (auto simp: canonical_loop.simps reserve_container_def split: if_splits)
  then show ?case by (cases v) auto
next
  case (Suc n)
  show ?case
  proof (cases "\<exists>a. v = VRef a")
    case False
    then have "\<exists>t. (scalar_tree v = Some t \<and> finite_floats t) \<and> r = r' + nodes_below t"
      using Suc.prems(1) by (cases v) (auto simp: canonical_loop.simps split: if_splits)
    with False show ?thesis by (cases v) auto
  next
    case True
    then obtain a where v: "v = VRef a" by blast
    have n: "Suc MAX_COMPARISON_DEPTH - Suc d = n" using Suc.prems(2) by simp
    obtain pushed where len: "container_len (h a) \<le> r" and push: "push_canonical_children (h a) d = Inr pushed"
      and run: "canonical_loop h (insert a opened, r - container_len (h a)) (rev pushed @ [Leave a]) = Inr (opened', r')"
      using Suc.prems(1) v
      by (auto simp: canonical_loop.simps(2) reserve_container_def rbind_Inr_iff split: if_splits sum.splits prod.splits)
    have trees: "\<exists>ts. list_all2 (\<lambda>x t. unfold_value h n x = Some t \<and> finite_floats t) xs ts \<and>
        r - container_len (h a) = r' + sum_list (map nodes_below ts)"
      if xs: "pushed = map (\<lambda>x. Visit x (Suc d)) xs" for xs
    proof -
      have single: "\<exists>t. (unfold_value h n x = Some t \<and> finite_floats t) \<and> r = r' + nodes_below t"
        if "canonical_loop h (o1, r) [Visit x (Suc d)] = Inr (o2, r')" for x o1 r o2 r'
        by (rule Suc.IH [OF that n])
      have run': "canonical_loop h (insert a opened, r - container_len (h a))
          (map (\<lambda>x. Visit x (Suc d)) (rev xs) @ [Leave a]) = Inr (opened', r')"
        using run xs by (simp add: rev_map)
      have "\<exists>ts o2 r2. list_all2 (\<lambda>x t. unfold_value h n x = Some t \<and> finite_floats t) (rev xs) ts \<and>
          r - container_len (h a) = r2 + sum_list (map nodes_below ts) \<and>
          canonical_loop h (o2, r2) [Leave a] = Inr (opened', r')"
        by (rule visits_sound [OF run']) (rule single)
      then obtain ts o2 r2 where ts: "list_all2 (\<lambda>x t. unfold_value h n x = Some t \<and> finite_floats t) (rev xs) ts"
        "r - container_len (h a) = r2 + sum_list (map nodes_below ts)" "canonical_loop h (o2, r2) [Leave a] = Inr (opened', r')"
        by blast
      then have "list_all2 (\<lambda>x t. unfold_value h n x = Some t \<and> finite_floats t) xs (rev ts)"
        by (subst list_all2_rev [symmetric]) (simp only: rev_rev_ident)
      with ts(2,3) show ?thesis by (intro exI [of _ "rev ts"]) (simp add: rev_map [symmetric])
    qed
    show ?thesis
    proof (cases "h a")
      case (OList vs)
      with push trees [of vs] obtain ts where ts: "list_all2 (\<lambda>x t. unfold_value h n x = Some t \<and> finite_floats t) vs ts"
        "r - length vs = r' + sum_list (map nodes_below ts)" by (auto simp: push_children_Inr container_len_def)
      have "list_all2 (\<lambda>x t. unfold_value h n x = Some t) vs ts" using ts(1) by (rule list_all2_mono) simp
      moreover have "\<forall>t \<in> set ts. finite_floats t" using ts(1) by (auto simp: list_all2_conv_all_nth in_set_conv_nth)
      ultimately show ?thesis using ts(2) len v OList list_all2_lengthD [OF ts(1)]
        by (intro exI [of _ "JArr ts"]) (simp add: unfold_items_Some_iff container_len_def)
    next
      case (ODict kvs)
      with push trees [of "map snd kvs"] obtain ts
        where keys: "\<forall>kv \<in> set kvs. \<exists>k. fst kv = VStr k"
          and ts: "list_all2 (\<lambda>kv t. unfold_value h n (snd kv) = Some t \<and> finite_floats t) kvs ts"
        "r - length kvs = r' + sum_list (map nodes_below ts)"
        by (auto simp: push_children_Inr container_len_def list_all2_map1 comp_def)
      obtain k where k: "\<forall>kv \<in> set kvs. fst kv = VStr (k kv)" using keys by metis
      let ?kts = "zip (map k kvs) ts"
      have len2: "length ts = length kvs" using list_all2_lengthD [OF ts(1)] by simp
      have "list_all2 (\<lambda>kv kt. fst kv = VStr (fst kt) \<and> unfold_value h n (snd kv) = Some (snd kt)) kvs ?kts"
        using k ts(1) len2 by (auto simp: list_all2_conv_all_nth)
      moreover have "\<forall>kt \<in> set ?kts. finite_floats (snd kt)"
        using ts(1) len2 by (auto simp: list_all2_conv_all_nth in_set_conv_nth)
      moreover have "map (\<lambda>kt. nodes_below (snd kt)) ?kts = map nodes_below ts"
      proof -
        have "map nodes_below (map snd ?kts) = map nodes_below ts" using len2 by simp
        then show ?thesis by (simp only: list.map_comp comp_def)
      qed
      ultimately show ?thesis using ts(2) len v ODict len2
        by (intro exI [of _ "JObj ?kts"]) (simp add: unfold_members_Some_iff container_len_def)
    qed
  qed
qed

lemma prevalidate_canonical_iff:
  "prevalidate_canonical h v = Inr () \<longleftrightarrow> (\<exists>t. canonical_tree h v t)"
proof
  assume "prevalidate_canonical h v = Inr ()"
  then obtain o' r' where "canonical_loop h ({}, MAX_COMPARISON_NODES - 1) [Visit v 1] = Inr (o', r')"
    by (auto simp: prevalidate_canonical_def rbind_Inr_iff)
  from canonical_visit_sound [OF this refl] show "\<exists>t. canonical_tree h v t"
    by (auto simp: canonical_tree_def MAX_COMPARISON_NODES_def)
next
  assume "\<exists>t. canonical_tree h v t"
  then obtain t where "canonical_tree h v t" by blast
  then show "prevalidate_canonical h v = Inr ()"
    using canonical_visit_ok [of h MAX_COMPARISON_DEPTH v t 1 "{}" "MAX_COMPARISON_NODES - 1"]
    by (auto simp: canonical_tree_def prevalidate_canonical_def open_ok_def)
qed

section \<open>What the comparison decides\<close>

text \<open>Equality of canonical trees: exact types, dicts without an order, and the two zeros equal.\<close>

function (sequential) same_tree :: "json \<Rightarrow> json \<Rightarrow> bool" where
  "same_tree (JFloat f) u = (case u of JFloat g \<Rightarrow> py_float_eq f g | _ \<Rightarrow> False)"
| "same_tree (JArr ts) u =
     (case u of JArr us \<Rightarrow> length ts = length us \<and> list_all (\<lambda>(t, u). same_tree t u) (zip ts us) | _ \<Rightarrow> False)"
| "same_tree (JObj kts) u =
     (case u of
        JObj kus \<Rightarrow> fst ` set kts = fst ` set kus \<and>
          list_all (\<lambda>kt. same_tree (snd kt) (case map_of kus (fst kt) of None \<Rightarrow> JNull | Some u \<Rightarrow> u)) kts
      | _ \<Rightarrow> False)"
| "same_tree t u = (t = u)"
  by pat_completeness auto
termination by (relation "measure (\<lambda>(t, u). size t)") (auto simp: zip_size_less dest: tree_member_size)

text \<open>A value spells a tree if it unfolds to it at some depth.\<close>

definition spells :: "heap \<Rightarrow> pyval \<Rightarrow> json \<Rightarrow> bool" where
  "spells h v t \<longleftrightarrow> (\<exists>n. unfold_value h n v = Some t)"

lemma spells_unique: "spells h v t \<Longrightarrow> spells h v t' \<Longrightarrow> t = t'"
  using unfold_value_unique by (auto simp: spells_def)

lemma spells_scalar: "(\<And>a. v \<noteq> VRef a) \<Longrightarrow> spells h v t \<longleftrightarrow> scalar_tree v = Some t"
  by (cases v) (auto simp: spells_def intro: exI [of _ 0])

lemma spells_list:
  assumes "h a = OList vs" "spells h (VRef a) t"
  shows "\<exists>ts. t = JArr ts \<and> list_all2 (spells h) vs ts"
proof -
  from assms(2) obtain n where "unfold_value h n (VRef a) = Some t" by (auto simp: spells_def)
  then obtain m ts where t: "t = JArr ts"
    and l: "list_all2 (\<lambda>x t. unfold_value h m x = Some t) vs ts"
    using assms(1) by (cases n) (auto simp: unfold_items_Some_iff)
  have "list_all2 (spells h) vs ts" using l by (rule list_all2_mono) (auto simp: spells_def)
  with t show ?thesis by blast
qed

lemma spells_dict:
  assumes "h a = ODict kvs" "spells h (VRef a) t"
  shows "\<exists>kts. t = JObj kts \<and> list_all2 (\<lambda>kv kt. fst kv = VStr (fst kt) \<and> spells h (snd kv) (snd kt)) kvs kts"
proof -
  from assms(2) obtain n where "unfold_value h n (VRef a) = Some t" by (auto simp: spells_def)
  then obtain m kts where t: "t = JObj kts"
    and l: "list_all2 (\<lambda>kv kt. fst kv = VStr (fst kt) \<and> unfold_value h m (snd kv) = Some (snd kt)) kvs kts"
    using assms(1) by (cases n) (auto simp: unfold_members_Some_iff)
  have "list_all2 (\<lambda>kv kt. fst kv = VStr (fst kt) \<and> spells h (snd kv) (snd kt)) kvs kts"
    using l by (rule list_all2_mono) (auto simp: spells_def)
  with t show ?thesis by blast
qed

lemma keyed_map_of:
  "list_all2 (\<lambda>kv kt. fst kv = VStr (fst kt) \<and> P (snd kv) (snd kt)) kvs kts \<Longrightarrow>
   rel_option P (map_of kvs (VStr k)) (map_of kts k)"
  by (induction rule: list_all2_induct) auto

lemma keyed_keys:
  "list_all2 (\<lambda>kv kt. fst kv = VStr (fst kt) \<and> P (snd kv) (snd kt)) kvs kts \<Longrightarrow>
   fst ` set kvs = VStr ` fst ` set kts"
  by (induction rule: list_all2_induct) auto

abbreviation pair_spells :: "heap \<Rightarrow> pyval \<times> pyval \<Rightarrow> json \<times> json \<Rightarrow> bool" where
  "pair_spells h p q \<equiv> spells h (fst p) (fst q) \<and> spells h (snd p) (snd q)"

abbreviation left_size :: "(json \<times> json) list \<Rightarrow> nat" where
  "left_size trees \<equiv> sum_list (map (\<lambda>q. Suc (size (fst q))) trees)"

text \<open>Comparing two values is comparing their children, one level down.\<close>

definition expands :: "heap \<Rightarrow> (pyval \<times> pyval) list option \<Rightarrow> json \<Rightarrow> json \<Rightarrow> bool" where
  "expands h children t u \<longleftrightarrow>
     (case children of
        None \<Rightarrow> \<not> same_tree t u
      | Some pushed \<Rightarrow> \<exists>trees. list_all2 (pair_spells h) pushed trees \<and> left_size trees \<le> size t \<and>
          (same_tree t u \<longleftrightarrow> list_all (\<lambda>(t, u). same_tree t u) trees))"

lemma left_size_items: "length ts = length us \<Longrightarrow> left_size (zip ts us) = size_list size ts"
  by (induction ts us rule: list_induct2) auto

lemma left_size_members: "left_size (map (\<lambda>kt. (snd kt, f kt)) kts) \<le> size_list (size_prod (\<lambda>x. 0) size) kts"
  by (induction kts) auto

lemma expand_lists:
  assumes h: "h a = OList vs" "h b = OList ws" and t: "spells h (VRef a) t" "spells h (VRef b) u"
  shows "expands h (expand_pair h (VRef a) (VRef b)) t u"
proof -
  obtain ts us where ts: "t = JArr ts" "list_all2 (spells h) vs ts" and us: "u = JArr us" "list_all2 (spells h) ws us"
    using spells_list h t by meson
  have len: "length vs = length ts" "length ws = length us" using ts us list_all2_lengthD by auto
  show ?thesis
  proof (cases "length vs = length ws")
    case True
    have "list_all2 (pair_spells h) (zip vs ws) (zip ts us)"
      using ts(2) us(2) True by (auto simp: list_all2_conv_all_nth)
    then show ?thesis using True len ts(1) us(1) h left_size_items [of ts us]
      by (auto simp: expands_def intro!: exI [of _ "zip ts us"])
  qed (use h ts us len in \<open>simp add: expands_def\<close>)
qed

lemma expand_dicts:
  assumes h: "h a = ODict kvs" "h b = ODict lvs" and t: "spells h (VRef a) t" "spells h (VRef b) u"
  shows "expands h (expand_pair h (VRef a) (VRef b)) t u"
proof -
  obtain kts kus where ts: "t = JObj kts" "list_all2 (\<lambda>kv kt. fst kv = VStr (fst kt) \<and> spells h (snd kv) (snd kt)) kvs kts"
    and us: "u = JObj kus" "list_all2 (\<lambda>kv kt. fst kv = VStr (fst kt) \<and> spells h (snd kv) (snd kt)) lvs kus"
    using spells_dict h t by meson
  have inj: "inj VStr" by (auto intro: injI)
  have keys: "fst ` set kvs = fst ` set lvs \<longleftrightarrow> fst ` set kts = fst ` set kus"
    by (simp add: keyed_keys [OF ts(2)] keyed_keys [OF us(2)] inj_image_eq_iff [OF inj])
  let ?right = "\<lambda>k. case map_of kus k of None \<Rightarrow> JNull | Some u \<Rightarrow> u"
  show ?thesis
  proof (cases "fst ` set kts = fst ` set kus")
    case True
    have right: "spells h (the (map_of lvs (VStr k))) (?right k)" if "k \<in> fst ` set kts" for k
    proof -
      have "map_of kus k \<noteq> None" using that True by (simp add: map_of_eq_None_iff)
      then show ?thesis using keyed_map_of [OF us(2), of k] by (auto elim: option.rel_cases)
    qed
    have "list_all2 (pair_spells h) (map (\<lambda>(key, item). (item, the (map_of lvs key))) kvs)
        (map (\<lambda>kt. (snd kt, ?right (fst kt))) kts)"
      unfolding list_all2_map1 list_all2_map2 using ts(2)
      by (rule list.rel_mono_strong) (use right in force)
    moreover have "list_all (\<lambda>(t, u). same_tree t u) (map (\<lambda>kt. (snd kt, ?right (fst kt))) kts) =
        list_all (\<lambda>kt. same_tree (snd kt) (?right (fst kt))) kts"
      by (simp add: list.pred_map comp_def)
    ultimately have "\<exists>trees. list_all2 (pair_spells h) (map (\<lambda>(key, item). (item, the (map_of lvs key))) kvs) trees \<and>
        left_size trees \<le> size t \<and> (same_tree t u \<longleftrightarrow> list_all (\<lambda>(t, u). same_tree t u) trees)"
      using True ts(1) us(1) left_size_members [of "\<lambda>kt. ?right (fst kt)" kts]
      by (intro exI [of _ "map (\<lambda>kt. (snd kt, ?right (fst kt))) kts"]) simp
    then show ?thesis using keys True h by (simp add: expands_def)
  qed (use h ts us keys in \<open>simp add: expands_def\<close>)
qed

lemma expand_scalar:
  assumes l: "scalar_tree l = Some t" and r: "spells h r u"
  shows "expands h (expand_pair h l r) t u"
proof (cases "\<exists>b. r = VRef b")
  case True
  then obtain b where "r = VRef b" by blast
  with r have "(\<exists>us. u = JArr us) \<or> (\<exists>kus. u = JObj kus)"
    using spells_list [of h b _ u] spells_dict [of h b _ u] by (cases "h b") blast+
  with l \<open>r = VRef b\<close> show ?thesis by (cases l) (auto simp: expands_def)
next
  case False
  with r have "scalar_tree r = Some u" by (simp add: spells_scalar)
  with l show ?thesis
    by (cases l; cases r) (auto simp: expands_def)
qed

lemma expand_pair_char:
  assumes "spells h l t" "spells h r u"
  shows "expands h (expand_pair h l r) t u"
proof (cases "\<exists>a. l = VRef a")
  case False
  with assms show ?thesis using expand_scalar by (simp add: spells_scalar)
next
  case True
  then obtain a where l: "l = VRef a" by blast
  have kind: "(\<exists>vs. h a = OList vs \<and> (\<exists>ts. t = JArr ts)) \<or> (\<exists>kvs. h a = ODict kvs \<and> (\<exists>kts. t = JObj kts))"
    using spells_list [of h a _ t] spells_dict [of h a _ t] assms(1) l by (cases "h a") blast+
  show ?thesis
  proof (cases "\<exists>b. r = VRef b")
    case True
    then obtain b where r: "r = VRef b" by blast
    have "(\<exists>ws. h b = OList ws \<and> (\<exists>us. u = JArr us)) \<or> (\<exists>lvs. h b = ODict lvs \<and> (\<exists>kus. u = JObj kus))"
      using spells_list [of h b _ u] spells_dict [of h b _ u] assms(2) r by (cases "h b") blast+
    then show ?thesis using kind l r expand_lists expand_dicts assms
      by (auto simp: expands_def)
  next
    case False
    with assms(2) have "scalar_tree r = Some u" by (simp add: spells_scalar)
    then show ?thesis using kind l False by (cases r) (auto simp: expands_def)
  qed
qed

lemma compare_trees:
  "list_all2 (pair_spells h) work trees \<Longrightarrow>
   compare_validated h work = Some (list_all (\<lambda>(t, u). same_tree t u) trees)"
proof (induction "left_size trees" arbitrary: work trees rule: less_induct)
  case less
  show ?case
  proof (cases work)
    case Nil
    with less.prems show ?thesis by (simp add: compare_validated.simps)
  next
    case (Cons w rest)
    then obtain l r where work: "work = (l, r) # rest" by (cases w) auto
    with less.prems obtain t u ts where trees: "trees = (t, u) # ts" "spells h l t" "spells h r u"
      "list_all2 (pair_spells h) rest ts" by (auto simp: list_all2_Cons1)
    note ex = expand_pair_char [OF trees(2,3)]
    show ?thesis
    proof (cases "expand_pair h l r")
      case None
      with ex trees(1) work show ?thesis by (subst compare_validated.simps) (simp add: expands_def)
    next
      case (Some pushed)
      with ex obtain qs where qs: "list_all2 (pair_spells h) pushed qs" "left_size qs \<le> size t"
        "same_tree t u \<longleftrightarrow> list_all (\<lambda>(t, u). same_tree t u) qs" by (auto simp: expands_def)
      have "list_all2 (pair_spells h) (rev pushed @ rest) (rev qs @ ts)"
        using qs(1) trees(4) by (simp add: list_all2_appendI)
      moreover have "left_size (rev qs @ ts) < left_size trees"
        using qs(2) trees(1) by (simp add: rev_map [symmetric])
      ultimately have "compare_validated h (rev pushed @ rest) = Some (list_all (\<lambda>(t, u). same_tree t u) (rev qs @ ts))"
        using less.hyps by blast
      then show ?thesis using Some work trees(1) qs(3) by (subst compare_validated.simps) simp
    qed
  qed
qed

lemma canonical_spells: "canonical_tree h v t \<Longrightarrow> spells h v t"
  by (auto simp: canonical_tree_def spells_def)

lemma structural_equal_char:
  "exact_structural_equal h l r = Inr b \<longleftrightarrow>
   (\<exists>t u. canonical_tree h l t \<and> canonical_tree h r u \<and> b = same_tree t u)"
proof (cases "(\<exists>t. canonical_tree h l t) \<and> (\<exists>u. canonical_tree h r u)")
  case True
  then obtain t u where tu: "canonical_tree h l t" "canonical_tree h r u" by blast
  have "compare_validated h [(l, r)] = Some (same_tree t u)"
    using compare_trees [of h "[(l, r)]" "[(t, u)]"] tu canonical_spells by simp
  moreover have "prevalidate_canonical h l = Inr ()" "prevalidate_canonical h r = Inr ()"
    using tu prevalidate_canonical_iff by auto
  ultimately show ?thesis using tu canonical_spells spells_unique
    by (auto simp: exact_structural_equal_def) metis+
next
  case False
  then have "prevalidate_canonical h l \<noteq> Inr () \<or> prevalidate_canonical h r \<noteq> Inr ()"
    by (simp add: prevalidate_canonical_iff)
  with False show ?thesis by (auto simp: exact_structural_equal_def rbind_Inr_iff prevalidate_canonical_iff)
qed

section \<open>The declared relations on trees\<close>

definition tree_step :: "json \<Rightarrow> ustr \<Rightarrow> json option" where
  "tree_step t segment =
     (case t of JObj kts \<Rightarrow> map_of kts segment | JArr ts \<Rightarrow> array_item ts segment | _ \<Rightarrow> None)"

fun tree_follow :: "json \<Rightarrow> ustr list \<Rightarrow> json option" where
  "tree_follow t [] = Some t"
| "tree_follow t (raw # rest) = Option.bind (tree_step t (unescape_segment raw)) (\<lambda>u. tree_follow u rest)"

definition tree_at :: "json \<Rightarrow> ustr \<Rightarrow> json option" where
  "tree_at t p = (if p = [] then Some t else tree_follow t (drop 1 (split_at 47 p)))"

text \<open>The three relations between locations of a tree, and reading one off a declaration.\<close>

datatype relation =
    PresentAndEqual ustr ustr
  | SelectorLookupEquals ustr ustr json
  | ConditionImpliesUnequal ustr ustr ustr

definition both_at :: "json \<Rightarrow> ustr \<Rightarrow> ustr \<Rightarrow> (json \<Rightarrow> json \<Rightarrow> bool) \<Rightarrow> bool" where
  "both_at t p q R = (case (tree_at t p, tree_at t q) of (Some a, Some b) \<Rightarrow> R a b | _ \<Rightarrow> False)"

fun holds :: "json \<Rightarrow> relation \<Rightarrow> bool" where
  "holds t (PresentAndEqual p q) = both_at t p q same_tree"
| "holds t (SelectorLookupEquals s m literal) =
     (case (tree_at t s, tree_at t m) of
        (Some (JStr key), Some (JObj kts)) \<Rightarrow>
          (case map_of kts key of None \<Rightarrow> False | Some a \<Rightarrow> same_tree a literal)
      | _ \<Rightarrow> False)"
| "holds t (ConditionImpliesUnequal c p q) =
     (tree_at t c = Some (JBool True) \<longrightarrow> both_at t p q (\<lambda>a b. \<not> same_tree a b))"

text \<open>A declaration of the shape the meta-schema fixes for its relation.\<close>

definition declares_pointer :: "heap \<Rightarrow> pyval \<Rightarrow> string \<Rightarrow> ustr \<Rightarrow> bool" where
  "declares_pointer h d key p \<longleftrightarrow> field h d key = Inr (VStr p) \<and> (p = [] \<or> hd p = 47)"

fun declares_shape :: "heap \<Rightarrow> pyval \<Rightarrow> relation \<Rightarrow> bool" where
  "declares_shape h d (PresentAndEqual p q) \<longleftrightarrow>
     field h d ''relation'' = Inr (VStr (U ''present_and_equal'')) \<and>
     declares_pointer h d ''left_pointer'' p \<and> declares_pointer h d ''right_pointer'' q"
| "declares_shape h d (SelectorLookupEquals s m literal) \<longleftrightarrow>
     field h d ''relation'' = Inr (VStr (U ''selector_lookup_equals_literal'')) \<and>
     declares_pointer h d ''selector_pointer'' s \<and> declares_pointer h d ''map_pointer'' m \<and>
     (case field h d ''literal'' of Inr v \<Rightarrow> canonical_tree h v literal | Inl e \<Rightarrow> False)"
| "declares_shape h d (ConditionImpliesUnequal c p q) \<longleftrightarrow>
     field h d ''relation'' = Inr (VStr (U ''condition_implies_unequal'')) \<and>
     declares_pointer h d ''condition_pointer'' c \<and>
     declares_pointer h d ''left_pointer'' p \<and> declares_pointer h d ''right_pointer'' q"

definition declares :: "heap \<Rightarrow> pyval \<Rightarrow> relation \<Rightarrow> bool" where
  "declares h d R \<longleftrightarrow> declares_shape h d R \<and> \<not> isl (field h d ''code'')"

lemma object_member_keyed:
  "\<forall>kv \<in> set kvs. \<exists>k. fst kv = VStr k \<Longrightarrow> object_member kvs s = map_of kvs (VStr s)"
proof (induction kvs s rule: object_member.induct)
  case (2 key v kvs s)
  then show ?case by (cases key) auto
qed simp

lemma array_item_spells:
  "list_all2 P vs ts \<Longrightarrow> rel_option P (array_item vs s) (array_item ts s)"
  using list_all2_lengthD [of P vs ts] list_all2_nthD [of P vs ts]
  by (auto simp: array_item_def split: option.split)

lemma canonical_items:
  assumes "canonical_tree h (VRef a) t" "h a = OList vs"
  shows "\<exists>ts. t = JArr ts \<and> list_all2 (canonical_tree h) vs ts"
proof -
  obtain m where m: "MAX_COMPARISON_DEPTH = Suc m" by (simp add: MAX_COMPARISON_DEPTH_def)
  have unfolded: "unfold_value h (Suc m) (VRef a) = Some t" using assms(1) m by (metis canonical_tree_def)
  obtain ts where t: "t = JArr ts" and l: "list_all2 (\<lambda>x t. unfold_value h m x = Some t) vs ts"
    using assms(2) unfolded by (auto simp: unfold_items_Some_iff)
  have "list_all2 (canonical_tree h) vs ts"
  proof (rule list.rel_mono_strong [OF l])
    fix v u assume u: "u \<in> set ts" "unfold_value h m v = Some u"
    have "nodes_below u \<le> nodes_below t" using member_le_sum_list [of "nodes_below u" "map nodes_below ts"] u t by simp
    then show "canonical_tree h v u" using assms(1) t u unfold_value_mono [OF _ u(2)] m
      by (simp add: canonical_tree_def)
  qed
  with t show ?thesis by blast
qed

lemma canonical_members:
  assumes "canonical_tree h (VRef a) t" "h a = ODict kvs"
  shows "\<exists>kts. t = JObj kts \<and> list_all2 (\<lambda>kv kt. fst kv = VStr (fst kt) \<and> canonical_tree h (snd kv) (snd kt)) kvs kts"
proof -
  obtain m where m: "MAX_COMPARISON_DEPTH = Suc m" by (simp add: MAX_COMPARISON_DEPTH_def)
  have unfolded: "unfold_value h (Suc m) (VRef a) = Some t" using assms(1) m by (metis canonical_tree_def)
  obtain kts where t: "t = JObj kts"
    and l: "list_all2 (\<lambda>kv kt. fst kv = VStr (fst kt) \<and> unfold_value h m (snd kv) = Some (snd kt)) kvs kts"
    using assms(2) unfolded by (auto simp: unfold_members_Some_iff)
  have "list_all2 (\<lambda>kv kt. fst kv = VStr (fst kt) \<and> canonical_tree h (snd kv) (snd kt)) kvs kts"
  proof (rule list.rel_mono_strong [OF l])
    fix kv kt assume u: "kt \<in> set kts" "fst kv = VStr (fst kt) \<and> unfold_value h m (snd kv) = Some (snd kt)"
    have "nodes_below (snd kt) \<le> nodes_below t"
      using member_le_sum_list [of "nodes_below (snd kt)" "map (\<lambda>kt. nodes_below (snd kt)) kts"] u t by simp
    then show "fst kv = VStr (fst kt) \<and> canonical_tree h (snd kv) (snd kt)"
      using assms(1) t u unfold_value_mono [of m _ h "snd kv" "snd kt"] m by (simp add: canonical_tree_def)
  qed
  with t show ?thesis by blast
qed

lemma canonical_scalar: "canonical_tree h v t \<Longrightarrow> (\<And>a. v \<noteq> VRef a) \<Longrightarrow> scalar_tree v = Some t"
  by (cases v) (auto simp: canonical_tree_def MAX_COMPARISON_DEPTH_def)

lemma pointer_step_canonical:
  assumes "canonical_tree h v t"
  shows "rel_option (canonical_tree h) (pointer_step h v s) (tree_step t s)"
proof (cases "\<exists>a. v = VRef a")
  case False
  with assms canonical_scalar have "scalar_tree v = Some t" by blast
  then show ?thesis by (cases v) (auto simp: pointer_step_def tree_step_def)
next
  case True
  then obtain a where v: "v = VRef a" by blast
  show ?thesis
  proof (cases "h a")
    case (OList vs)
    with assms v canonical_items obtain ts where "t = JArr ts" "list_all2 (canonical_tree h) vs ts" by blast
    with OList v show ?thesis by (simp add: pointer_step_def tree_step_def array_item_spells)
  next
    case (ODict kvs)
    with assms v canonical_members obtain kts where t: "t = JObj kts"
      and l: "list_all2 (\<lambda>kv kt. fst kv = VStr (fst kt) \<and> canonical_tree h (snd kv) (snd kt)) kvs kts" by blast
    have "\<forall>kv \<in> set kvs. \<exists>k. fst kv = VStr k" using l list_all2_mem by fastforce
    with ODict v t keyed_map_of [OF l, of s] show ?thesis
      by (simp add: pointer_step_def tree_step_def object_member_keyed)
  qed
qed

lemma follow_canonical:
  "canonical_tree h v t \<Longrightarrow> rel_option (canonical_tree h) (follow_segments h v segs) (tree_follow t segs)"
proof (induction segs arbitrary: v t)
  case (Cons raw segs)
  from pointer_step_canonical [OF Cons.prems, of "unescape_segment raw"] Cons.IH show ?case
    by (auto elim!: option.rel_cases)
qed simp

lemma resolve_canonical:
  assumes "canonical_tree h payload t" "declares_pointer h d key p"
  obtains found where "resolve_field h payload d key = Inr found" "rel_option (canonical_tree h) found (tree_at t p)"
  using assms follow_canonical [OF assms(1)]
  by (cases "p = []") (auto simp: resolve_field_def resolve_pointer_def tree_at_def declares_pointer_def)

lemma equal_canonical:
  "canonical_tree h l t \<Longrightarrow> canonical_tree h r u \<Longrightarrow> exact_structural_equal h l r = Inr (same_tree t u)"
  using structural_equal_char by blast

lemma canonical_cases:
  assumes "canonical_tree h v t"
  obtains "\<And>a. v \<noteq> VRef a" "scalar_tree v = Some t"
  | a vs ts where "v = VRef a" "h a = OList vs" "t = JArr ts"
  | a kvs kts where "v = VRef a" "h a = ODict kvs" "t = JObj kts"
      "list_all2 (\<lambda>kv kt. fst kv = VStr (fst kt) \<and> canonical_tree h (snd kv) (snd kt)) kvs kts"
proof (cases "\<exists>a. v = VRef a")
  case True
  then obtain a where v: "v = VRef a" by blast
  with assms canonical_items [of h a t] canonical_members [of h a t] that(2,3) show thesis
    by (cases "h a") blast+
next
  case False
  with assms canonical_scalar that(1) show thesis by blast
qed

lemma canonical_scalar_iff:
  assumes "canonical_tree h v t"
  shows "v = VBool b \<longleftrightarrow> t = JBool b" "v = VStr k \<longleftrightarrow> t = JStr k"
  using assms by (cases rule: canonical_cases; cases v; auto)+

lemma canonical_VBool: "canonical_tree h (VBool b) t \<Longrightarrow> t = JBool b"
  and canonical_VStr: "canonical_tree h (VStr k) t \<Longrightarrow> t = JStr k"
  by (simp_all add: canonical_tree_def)

lemma present_and_equal_decides:
  assumes "canonical_tree h payload t" "declares_shape h d (PresentAndEqual p q)"
  shows "present_and_equal h payload d = Inr (holds t (PresentAndEqual p q))"
proof -
  from assms obtain l r where
    "resolve_field h payload d ''left_pointer'' = Inr l" "rel_option (canonical_tree h) l (tree_at t p)"
    "resolve_field h payload d ''right_pointer'' = Inr r" "rel_option (canonical_tree h) r (tree_at t q)"
    using resolve_canonical by (metis declares_shape.simps(1))
  then show ?thesis
    by (auto simp: present_and_equal_def both_at_def equal_canonical elim!: option.rel_cases)
qed

lemma condition_implies_unequal_decides:
  assumes "canonical_tree h payload t" "declares_shape h d (ConditionImpliesUnequal c p q)"
  shows "condition_implies_unequal h payload d = Inr (holds t (ConditionImpliesUnequal c p q))"
proof -
  from assms obtain x l r where
    x: "resolve_field h payload d ''condition_pointer'' = Inr x" "rel_option (canonical_tree h) x (tree_at t c)" and
    "resolve_field h payload d ''left_pointer'' = Inr l" "rel_option (canonical_tree h) l (tree_at t p)"
    "resolve_field h payload d ''right_pointer'' = Inr r" "rel_option (canonical_tree h) r (tree_at t q)"
    using resolve_canonical by (metis declares_shape.simps(3))
  moreover have "x = Some (VBool True) \<longleftrightarrow> tree_at t c = Some (JBool True)"
    using x(2) canonical_scalar_iff(1) by (auto elim!: option.rel_cases dest: canonical_VBool)
  ultimately show ?thesis
    by (auto simp: condition_implies_unequal_def both_at_def equal_canonical elim!: option.rel_cases)
qed

lemma selector_lookup_decides:
  assumes "canonical_tree h payload t" "declares_shape h d (SelectorLookupEquals s m literal)"
  shows "selector_lookup_equals_literal h payload d = Inr (holds t (SelectorLookupEquals s m literal))"
proof -
  from assms obtain x y where
    x: "resolve_field h payload d ''selector_pointer'' = Inr x" "rel_option (canonical_tree h) x (tree_at t s)" and
    y: "resolve_field h payload d ''map_pointer'' = Inr y" "rel_option (canonical_tree h) y (tree_at t m)"
    using resolve_canonical by (metis declares_shape.simps(2))
  from assms(2) obtain v where v: "field h d ''literal'' = Inr v" "canonical_tree h v literal"
    by (auto split: sum.splits)
  show ?thesis
  proof (cases "\<exists>key. tree_at t s = Some (JStr key)")
    case False
    then have "\<not> (\<exists>key. x = Some (VStr key))" using x(2) by (auto elim!: option.rel_cases dest: canonical_VStr)
    then show ?thesis using False x(1)
      by (auto simp: selector_lookup_equals_literal_def split: option.split pyval.split json.split)
  next
    case True
    then obtain key where key: "tree_at t s = Some (JStr key)" by blast
    with x(2) canonical_scalar_iff(2) have xk: "x = Some (VStr key)" by (auto elim!: option.rel_cases)
    have "(case Option.bind y (dict_items h) of
          None \<Rightarrow> Inr False
        | Some kvs \<Rightarrow>
            (case object_member kvs key of
               None \<Rightarrow> Inr False
             | Some looked_up \<Rightarrow>
                 rbind (field h d ''literal'') (\<lambda>literal. exact_structural_equal h looked_up literal))) =
        Inr (holds t (SelectorLookupEquals s m literal))"
    proof (cases y)
      case None
      with y(2) key show ?thesis by auto
    next
      case (Some mv)
      with y(2) obtain mt where mt: "tree_at t m = Some mt" "canonical_tree h mv mt" by (auto elim!: option.rel_cases)
      from mt(2) show ?thesis
      proof (cases rule: canonical_cases)
        case 1
        then show ?thesis using Some mt(1) key by (cases mv) auto
      next
        case (2 a vs ts)
        then show ?thesis using Some mt(1) key by simp
      next
        case (3 a kvs kts)
        have "\<forall>kv \<in> set kvs. \<exists>k. fst kv = VStr k" using 3(4) list_all2_mem by fastforce
        with keyed_map_of [OF 3(4), of key] show ?thesis using Some mt(1) key 3(1-3) v equal_canonical
          by (auto simp: object_member_keyed elim!: option.rel_cases)
      qed
    qed
    then show ?thesis using x(1) y(1) xk by (simp add: selector_lookup_equals_literal_def)
  qed
qed

lemma evaluate_decides:
  assumes "canonical_tree h payload t" "declares h d R"
  obtains v where "violation_of h d = Inr v"
    "evaluate_declaration h payload d = Inr (if holds t R then [] else [v])"
proof -
  obtain c where "field h d ''code'' = Inr c"
    using assms(2) by (cases "field h d ''code''") (auto simp: declares_def)
  moreover obtain r where "field h d ''relation'' = Inr r"
    using assms(2) by (cases R) (auto simp: declares_def)
  ultimately obtain v where v: "violation_of h d = Inr v" by (simp add: violation_of_def)
  have "evaluate_declaration h payload d = Inr (if holds t R then [] else [v])"
    using assms v present_and_equal_decides [OF assms(1)] selector_lookup_decides [OF assms(1)]
      condition_implies_unequal_decides [OF assms(1)]
    by (cases R) (auto simp: declares_def evaluate_declaration_def relation_check_def simp del: holds.simps)
  with v that show thesis by blast
qed

section \<open>Properties\<close>

text \<open>
  The comparison of two subtrees gives a verdict, and ends, exactly if both spell canonical
  trees within the depth and node bounds; the verdict is equality of the trees up to member
  order and the sign of zero.
\<close>

theorem structural_equality_exact:
  "exact_structural_equal h l r = Inr b \<longleftrightarrow>
   (\<exists>t u. canonical_tree h l t \<and> canonical_tree h r u \<and> b = same_tree t u)"
  by (rule structural_equal_char)

text \<open>
  C19: On a payload that spells a canonical tree the interpreter of declared invariants returns,
  without an error, exactly one violation for each declared relation that does not hold between
  the named locations of the tree, in the order of the declarations.
\<close>

theorem declared_invariants_decided:
  assumes "declarations check h meta_schema schema = Inr ds" "list_all2 (declares h) ds Rs"
    and "canonical_tree h payload t"
  shows "\<exists>vs. validate_declared_invariants check h meta_schema schema payload = Inr vs \<and>
    list_all2 (\<lambda>v d. violation_of h d = Inr v) vs (map fst (filter (\<lambda>(d, R). \<not> holds t R) (zip ds Rs)))"
proof -
  from assms(2) have "\<exists>vss. traverse (evaluate_declaration h payload) ds = Inr vss \<and>
    list_all2 (\<lambda>v d. violation_of h d = Inr v) (concat vss) (map fst (filter (\<lambda>(d, R). \<not> holds t R) (zip ds Rs)))"
  proof (induction rule: list_all2_induct)
    case (Cons d ds R Rs)
    obtain v where "violation_of h d = Inr v" "evaluate_declaration h payload d = Inr (if holds t R then [] else [v])"
      using evaluate_decides [OF assms(3) Cons.hyps(1)] .
    with Cons.IH show ?case by (auto simp del: holds.simps)
  qed simp
  with assms(1) show ?thesis by (auto simp: validate_declared_invariants_def)
qed

text \<open>A payload with two unequal members, a schema that declares them equal, and the meta-schema.\<close>

definition demo_heap :: heap where
  "demo_heap a =
     (if a = 0 then ODict [(VStr (U ''a''), VInt 1), (VStr (U ''b''), VInt 2)]
      else if a = 1 then ODict [(VStr (U ''x-traigent-invariants''), VRef 2)]
      else if a = 2 then OList [VRef 3]
      else if a = 3 then ODict [(VStr (U ''code''), VStr (U ''SAME'')), (VStr (U ''relation''), VStr (U ''present_and_equal'')),
        (VStr (U ''left_pointer''), VStr (U ''/a'')), (VStr (U ''right_pointer''), VStr (U ''/b''))]
      else if a = 4 then ODict [(VStr (U ''properties''), VRef 5)]
      else if a = 5 then ODict [(VStr (U ''x-traigent-invariants''), VRef 6)]
      else ODict [(VStr (U ''items''), VRef 7)])"

lemma declared_invariants_decided_witness:
  "\<exists>vs. validate_declared_invariants (\<lambda>_ _. Verdict True) demo_heap (VRef 4) (VRef 1) (VRef 0) = Inr vs \<and>
    list_all2 (\<lambda>v d. violation_of demo_heap d = Inr v) vs [VRef 3]"
proof -
  let ?R = "PresentAndEqual (U ''/a'') (U ''/b'')" and ?t = "JObj [(U ''a'', JInt 1), (U ''b'', JInt 2)]"
  have "declarations (\<lambda>_ _. Verdict True) demo_heap (VRef 4) (VRef 1) = Inr [VRef 3]" by code_simp
  moreover have "list_all2 (declares demo_heap) [VRef 3] [?R]" by code_simp
  moreover have "unfold_value demo_heap (Suc 0) (VRef 0) = Some ?t" by code_simp
  then have "canonical_tree demo_heap (VRef 0) ?t"
    using unfold_value_mono [of "Suc 0" MAX_COMPARISON_DEPTH demo_heap "VRef 0" ?t]
    by (simp add: canonical_tree_def MAX_COMPARISON_DEPTH_def MAX_COMPARISON_NODES_def)
  moreover have "map fst (filter (\<lambda>(d, R). \<not> holds ?t R) (zip [VRef 3] [?R])) = [VRef 3]" by code_simp
  ultimately show ?thesis using declared_invariants_decided [of "\<lambda>_ _. Verdict True" demo_heap "VRef 4" "VRef 1" "[VRef 3]" "[?R]" "VRef 0" ?t]
    by simp
qed

end
