(* ===== verification/RequiredGate.thy ===== *)
theory RequiredGate
  imports JsonText
begin

text \<open>
  The required-status gate, \<open>scripts/check_required_gate.py\<close>: which job results of a workflow run
  let the one required check pass. \<open>needs\<close> is the parsed \<open>needs\<close> context; messages are
  constructors that carry the values they print. What \<open>int()\<close> makes of a text is
  \<open>text_int\<close>; the value of a decimal digit beyond ASCII and Unicode's white space are parameters.
\<close>

section \<open>int()\<close>

text \<open>White space and digits beyond ASCII, from Python's Unicode database.\<close>

record unicode_data =
  space_char :: "nat \<Rightarrow> bool"
  digit_char :: "nat \<Rightarrow> nat option"

definition is_space :: "unicode_data \<Rightarrow> nat \<Rightarrow> bool" where
  "is_space u c = (if c < 128 then c = 32 \<or> 9 \<le> c \<and> c \<le> 13 else space_char u c)"

definition digit_of :: "unicode_data \<Rightarrow> nat \<Rightarrow> nat option" where
  "digit_of u c = (if c < 128 then if is_digit c then Some (c - 48) else None else digit_char u c)"

definition strip :: "unicode_data \<Rightarrow> ustr \<Rightarrow> ustr" where
  "strip u s = rev (dropWhile (is_space u) (rev (dropWhile (is_space u) s)))"

text \<open>Digits, single underscores between them allowed; \<open>None\<close> is a \<open>ValueError\<close>.\<close>

fun digit_run :: "unicode_data \<Rightarrow> ustr \<Rightarrow> nat list option" where
  "digit_run u [] = None"
| "digit_run u (c # cs) =
     (case digit_of u c of
        None \<Rightarrow> None
      | Some d \<Rightarrow>
          (case cs of
             [] \<Rightarrow> Some [d]
           | c' # cs' \<Rightarrow> map_option (Cons d) (digit_run u (if c' = 95 then cs' else cs))))"

definition text_int :: "unicode_data \<Rightarrow> ustr \<Rightarrow> int option" where
  "text_int u s =
     (case strip u s of
        [] \<Rightarrow> None
      | c # cs \<Rightarrow>
          (case digit_run u (if c = 45 \<or> c = 43 then cs else c # cs) of
             None \<Rightarrow> None
           | Some ds \<Rightarrow>
               if 4300 < length ds then None
               else let n = int (digits_nat ds) in Some (if c = 45 then - n else n)))"

section \<open>The skip of the classified job\<close>

definition CHANGES_JOB :: ustr where "CHANGES_JOB = U ''changes''"
definition BREAKING_SCHEMA_JOB :: ustr where "BREAKING_SCHEMA_JOB = U ''breaking-schema-check''"

definition UNCONDITIONAL_SKIP_OK :: "ustr list" where
  "UNCONDITIONAL_SKIP_OK = [U ''test'', U ''package'']"

datatype gate_problem =
    EmptyNeeds
  | StaleAllowlist ustr
  | BreakingJobMissing
  | BadResult ustr json
  | ChangesNotSuccessful json
  | EventApplicableNotLiteral json
  | SchemaRelevantMissing
  | SchemaRelevantNotLiteral json
  | FileCountMissing
  | FileCountNotInteger json
  | FileCountNegative int
  | AncestryOnlyWithFiles json
  | EmptyRange int

datatype gate_justification = EventHasNoRange | NothingRelevant int | AncestryOnly

text \<open>An exception that leaves the script: \<open>int(float('inf'))\<close>.\<close>

datatype gate_error = OverflowError

type_synonym verdict = "gate_problem + gate_justification"

text \<open>\<open>int(v)\<close>: the inner option is the \<open>TypeError\<close> or \<open>ValueError\<close> the script catches.\<close>

definition float_int :: "nat list \<Rightarrow> int \<Rightarrow> nat" where
  "float_int ds n =
     (let e = n - int (length ds) in
      if 0 \<le> e then digits_nat ds * 10 ^ nat e else digits_nat ds div 10 ^ nat (- e))"

fun py_int :: "unicode_data \<Rightarrow> json \<Rightarrow> gate_error + int option" where
  "py_int u (JBool b) = Inr (Some (if b then 1 else 0))"
| "py_int u (JInt i) = Inr (Some i)"
| "py_int u (JFloat FNaN) = Inr None"
| "py_int u (JFloat (FInf neg)) = Inl OverflowError"
| "py_int u (JFloat (FZero neg)) = Inr (Some 0)"
| "py_int u (JFloat (FDec neg ds n)) = Inr (Some (if neg then - int (float_int ds n) else int (float_int ds n)))"
| "py_int u (JStr s) = Inr (text_int u s)"
| "py_int u v = Inr None"

definition schema_relevant_problem :: "json \<Rightarrow> gate_problem option" where
  "schema_relevant_problem outputs =
     (let schema_relevant = get_member outputs ''schema_relevant'' in
      if schema_relevant = JNull then Some SchemaRelevantMissing
      else if schema_relevant \<noteq> JStr (U ''false'') then Some (SchemaRelevantNotLiteral schema_relevant)
      else None)"

definition verify_zero_file_count :: "json \<Rightarrow> int \<Rightarrow> verdict" where
  "verify_zero_file_count outputs n =
     (if get_member outputs ''ancestry_only'' \<noteq> JStr (U ''true'') then Inl (EmptyRange n)
      else Inr AncestryOnly)"

definition verify_changed_file_count :: "unicode_data \<Rightarrow> json \<Rightarrow> gate_error + verdict" where
  "verify_changed_file_count u outputs =
     (let count_raw = get_member outputs ''changed_file_count'' in
      if count_raw = JNull then Inr (Inl FileCountMissing)
      else
        rbind (py_int u count_raw) (\<lambda>parsed.
          case parsed of
            None \<Rightarrow> Inr (Inl (FileCountNotInteger count_raw))
          | Some n \<Rightarrow>
              if n < 0 then Inr (Inl (FileCountNegative n))
              else if n = 0 then Inr (verify_zero_file_count outputs n)
              else
                let ancestry_only = get_member outputs ''ancestry_only'' in
                if ancestry_only \<noteq> JNull \<and> ancestry_only \<noteq> JStr (U ''false'')
                then Inr (Inl (AncestryOnlyWithFiles ancestry_only))
                else Inr (Inr (NothingRelevant n))))"

definition job_entry :: "(ustr \<times> json) list \<Rightarrow> ustr \<Rightarrow> json" where
  "job_entry needs job = (case map_of needs job of Some (JObj kts) \<Rightarrow> JObj kts | _ \<Rightarrow> JObj [])"

definition verify_breaking_schema_check_skip :: "unicode_data \<Rightarrow> (ustr \<times> json) list \<Rightarrow> gate_error + verdict" where
  "verify_breaking_schema_check_skip u needs =
     (let changes_entry = job_entry needs CHANGES_JOB;
          changes_result = get_member changes_entry ''result''
      in if changes_result \<noteq> JStr (U ''success'') then Inr (Inl (ChangesNotSuccessful changes_result))
         else
           let outputs = get_member changes_entry ''outputs'';
               outputs = (if is_dict outputs then outputs else JObj []);
               event_applicable = get_member outputs ''event_applicable''
           in if event_applicable = JStr (U ''false'') then Inr (Inr EventHasNoRange)
              else if event_applicable \<noteq> JStr (U ''true'') then Inr (Inl (EventApplicableNotLiteral event_applicable))
              else (case schema_relevant_problem outputs of
                      Some problem \<Rightarrow> Inr (Inl problem)
                    | None \<Rightarrow> verify_changed_file_count u outputs))"

section \<open>The gate\<close>

record gate_result =
  g_ok :: bool
  g_problems :: "gate_problem list"
  g_justifications :: "gate_justification list"

definition declared_dependency_problems :: "(ustr \<times> json) list \<Rightarrow> gate_problem list" where
  "declared_dependency_problems needs =
     map StaleAllowlist (filter (\<lambda>job. job \<notin> fst ` set needs) UNCONDITIONAL_SKIP_OK) @
     (if BREAKING_SCHEMA_JOB \<notin> fst ` set needs then [BreakingJobMissing] else [])"

definition dependency_verdict ::
  "unicode_data \<Rightarrow> (ustr \<times> json) list \<Rightarrow> ustr \<times> json \<Rightarrow> gate_error + gate_justification option \<times> gate_problem option" where
  "dependency_verdict u needs entry =
     (let (job, info) = entry; result = get_member info ''result'' in
      if result = JStr (U ''success'') then Inr (None, None)
      else if result = JStr (U ''skipped'') \<and> job \<in> set UNCONDITIONAL_SKIP_OK then Inr (None, None)
      else if result = JStr (U ''skipped'') \<and> job = BREAKING_SCHEMA_JOB then
        rbind (verify_breaking_schema_check_skip u needs) (\<lambda>verdict.
          Inr (case verdict of Inr message \<Rightarrow> (Some message, None) | Inl message \<Rightarrow> (None, Some message)))
      else Inr (None, Some (BadResult job result)))"

definition somes :: "'a option list \<Rightarrow> 'a list" where
  "somes xs = concat (map (case_option [] (\<lambda>x. [x])) xs)"

definition evaluate :: "unicode_data \<Rightarrow> (ustr \<times> json) list \<Rightarrow> gate_error + gate_result" where
  "evaluate u needs =
     (if needs = [] then Inr \<lparr>g_ok = False, g_problems = [EmptyNeeds], g_justifications = []\<rparr>
      else
        rbind (traverse (dependency_verdict u needs) needs) (\<lambda>verdicts.
          let problems = declared_dependency_problems needs @ somes (map snd verdicts)
          in Inr \<lparr>g_ok = (problems = []), g_problems = problems, g_justifications = somes (map fst verdicts)\<rparr>))"

text \<open>The exit code, on what \<open>json.loads\<close> gives; \<open>None\<close> is text that is empty or not JSON.\<close>

definition gate_exit :: "unicode_data \<Rightarrow> (ustr \<times> json) list option \<Rightarrow> gate_error + nat" where
  "gate_exit u parsed =
     (case parsed of
        None \<Rightarrow> Inr 1
      | Some needs \<Rightarrow> rbind (evaluate u needs) (\<lambda>result. Inr (if \<not> g_ok result then 1 else 0)))"

section \<open>When the gate passes\<close>

definition result_of :: "(ustr \<times> json) list \<Rightarrow> ustr \<Rightarrow> json" where
  "result_of needs job = (case map_of needs job of None \<Rightarrow> JNull | Some info \<Rightarrow> get_member info ''result'')"

text \<open>What the outputs of the classifier must prove for the comparison to be skipped.\<close>

definition skip_proved :: "unicode_data \<Rightarrow> json \<Rightarrow> bool" where
  "skip_proved u outputs \<longleftrightarrow>
     get_member outputs ''event_applicable'' = JStr (U ''false'') \<or>
     get_member outputs ''event_applicable'' = JStr (U ''true'') \<and>
     get_member outputs ''schema_relevant'' = JStr (U ''false'') \<and>
     (case py_int u (get_member outputs ''changed_file_count'') of
        Inr (Some n) \<Rightarrow>
          n = 0 \<and> get_member outputs ''ancestry_only'' = JStr (U ''true'') \<or>
          0 < n \<and> get_member outputs ''ancestry_only'' \<in> {JNull, JStr (U ''false'')}
      | _ \<Rightarrow> False)"

definition job_green :: "unicode_data \<Rightarrow> (ustr \<times> json) list \<Rightarrow> ustr \<Rightarrow> bool" where
  "job_green u needs job \<longleftrightarrow>
     result_of needs job = JStr (U ''success'') \<or>
     result_of needs job = JStr (U ''skipped'') \<and>
       (job \<in> {U ''test'', U ''package''} \<or>
        job = U ''breaking-schema-check'' \<and> result_of needs (U ''changes'') = JStr (U ''success'') \<and>
        skip_proved u (get_member (job_entry needs (U ''changes'')) ''outputs''))"

lemma somes_Nil_iff: "somes xs = [] \<longleftrightarrow> (\<forall>x \<in> set xs. x = None)"
  by (auto simp: somes_def split: option.splits)

lemma list_all2_iff_all: "list_all2 (\<lambda>x y. Q y \<longleftrightarrow> P x) xs ys \<Longrightarrow> (\<forall>y \<in> set ys. Q y) \<longleftrightarrow> list_all P xs"
  by (induction rule: list_all2_induct) auto

lemma job_entry_result: "get_member (job_entry needs job) ''result'' = result_of needs job"
  by (auto simp: job_entry_def result_of_def member_or_def split: option.split json.split)

lemma get_member_no_dict: "\<not> is_dict t \<Longrightarrow> get_member t key = JNull" "get_member (JObj []) key = JNull"
  by (cases t) (auto simp: member_or_def)

lemma file_count_verdict:
  "verify_changed_file_count u outputs = Inr v \<Longrightarrow>
   (\<exists>j. v = Inr j) \<longleftrightarrow>
   (case py_int u (get_member outputs ''changed_file_count'') of
      Inr (Some n) \<Rightarrow>
        n = 0 \<and> get_member outputs ''ancestry_only'' = JStr (U ''true'') \<or>
        0 < n \<and> get_member outputs ''ancestry_only'' \<in> {JNull, JStr (U ''false'')}
    | _ \<Rightarrow> False)"
proof (cases "get_member outputs ''changed_file_count'' = JNull")
  case True
  assume "verify_changed_file_count u outputs = Inr v"
  with True show ?thesis by (auto simp: verify_changed_file_count_def)
next
  case False
  assume v: "verify_changed_file_count u outputs = Inr v"
  with False obtain parsed where p: "py_int u (get_member outputs ''changed_file_count'') = Inr parsed"
    by (auto simp: verify_changed_file_count_def Let_def rbind_Inr_iff)
  show ?thesis
  proof (cases parsed)
    case None
    with v False p show ?thesis by (auto simp: verify_changed_file_count_def Let_def)
  next
    case (Some n)
    with v False p show ?thesis
      by (cases n "0 :: int" rule: linorder_cases)
        (auto simp: verify_changed_file_count_def verify_zero_file_count_def Let_def split: if_splits)
  qed
qed

lemma skip_verdict:
  assumes "verify_breaking_schema_check_skip u needs = Inr v"
  shows "(\<exists>j. v = Inr j) \<longleftrightarrow>
    result_of needs CHANGES_JOB = JStr (U ''success'') \<and>
    skip_proved u (get_member (job_entry needs CHANGES_JOB) ''outputs'')"
proof (cases "is_dict (get_member (job_entry needs CHANGES_JOB) ''outputs'')")
  case True
  then show ?thesis
    using assms file_count_verdict [of u "get_member (job_entry needs CHANGES_JOB) ''outputs''" v]
    by (auto simp: verify_breaking_schema_check_skip_def schema_relevant_problem_def skip_proved_def Let_def
        job_entry_result split: if_splits option.splits)
next
  case False
  then show ?thesis using assms
    by (auto simp: verify_breaking_schema_check_skip_def skip_proved_def Let_def get_member_no_dict job_entry_result
        split: if_splits)
qed

lemma dependency_verdict_green:
  assumes "distinct (map fst needs)" "entry \<in> set needs" "dependency_verdict u needs entry = Inr (j, p)"
  shows "p = None \<longleftrightarrow> job_green u needs (fst entry)"
proof -
  obtain job info where e: "entry = (job, info)" by (cases entry) auto
  have r: "result_of needs job = get_member info ''result''"
    using assms(1,2) e by (simp add: result_of_def)
  have jobs: "U ''breaking-schema-check'' \<notin> set UNCONDITIONAL_SKIP_OK" "CHANGES_JOB = U ''changes''"
    "set UNCONDITIONAL_SKIP_OK = {U ''test'', U ''package''}" "BREAKING_SCHEMA_JOB = U ''breaking-schema-check''"
    by (simp_all add: UNCONDITIONAL_SKIP_OK_def CHANGES_JOB_def BREAKING_SCHEMA_JOB_def)
  show ?thesis
  proof (cases "get_member info ''result'' = JStr (U ''skipped'') \<and> job = BREAKING_SCHEMA_JOB")
    case True
    with assms(3) e jobs obtain v where v: "verify_breaking_schema_check_skip u needs = Inr v"
      and jp: "(case v of Inr message \<Rightarrow> (Some message, None) | Inl message \<Rightarrow> (None, Some message)) = (j, p)"
      by (auto simp: dependency_verdict_def Let_def rbind_Inr_iff)
    from jp have "p = None \<longleftrightarrow> (\<exists>x. v = Inr x)" by (cases v) auto
    with skip_verdict [OF v] True e r jobs show ?thesis by (auto simp: job_green_def)
  next
    case False
    with assms(3) e r jobs show ?thesis
      by (auto simp: dependency_verdict_def job_green_def Let_def split: if_splits)
  qed
qed

section \<open>Properties\<close>

text \<open>
  C33: The required gate passes exactly if the allowlisted and the classified jobs are declared
  and every job succeeded, or was skipped as an allowlisted job, or is the classified job whose
  skip the outputs of a successful classifier prove legitimate.
\<close>

theorem gate_ok_iff:
  assumes "distinct (map fst needs)" "evaluate u needs = Inr result"
  shows "g_ok result \<longleftrightarrow>
    {U ''test'', U ''package'', U ''breaking-schema-check''} \<subseteq> fst ` set needs \<and>
    list_all (\<lambda>entry. job_green u needs (fst entry)) needs"
proof (cases "needs = []")
  case True
  with assms(2) show ?thesis by (auto simp: evaluate_def)
next
  case False
  with assms(2) obtain vs where vs: "traverse (dependency_verdict u needs) needs = Inr vs"
    and ok: "g_ok result \<longleftrightarrow> declared_dependency_problems needs @ somes (map snd vs) = []"
    by (auto simp: evaluate_def Let_def rbind_Inr_iff)
  have l: "list_all2 (\<lambda>entry v. dependency_verdict u needs entry = Inr v) needs vs"
    using vs by (simp add: traverse_Inr_iff)
  have "list_all2 (\<lambda>entry v. snd v = None \<longleftrightarrow> job_green u needs (fst entry)) needs vs"
    using l by (rule list.rel_mono_strong) (metis assms(1) dependency_verdict_green prod.collapse)
  from list_all2_iff_all [OF this]
  have "somes (map snd vs) = [] \<longleftrightarrow> list_all (\<lambda>entry. job_green u needs (fst entry)) needs"
    by (simp add: somes_Nil_iff)
  moreover have "declared_dependency_problems needs = [] \<longleftrightarrow>
      {U ''test'', U ''package'', U ''breaking-schema-check''} \<subseteq> fst ` set needs"
    by (auto simp: declared_dependency_problems_def UNCONDITIONAL_SKIP_OK_def BREAKING_SCHEMA_JOB_def)
  ultimately show ?thesis using ok by simp
qed

definition demo_needs :: "(ustr \<times> json) list" where
  "demo_needs =
     (let entry = (\<lambda>r. JObj [(U ''result'', JStr (U r))]) in
      [(U ''lint-type'', entry ''success''), (U ''test'', entry ''success''), (U ''package'', entry ''skipped''),
       (U ''changes'', JObj [(U ''result'', JStr (U ''success'')),
          (U ''outputs'', JObj [(U ''event_applicable'', JStr (U ''true'')), (U ''schema_relevant'', JStr (U ''false'')),
            (U ''changed_file_count'', JStr (U '' 3''))])]),
       (U ''breaking-schema-check'', entry ''skipped'')])"

lemma gate_ok_iff_witness:
  "{U ''test'', U ''package'', U ''breaking-schema-check''} \<subseteq> fst ` set demo_needs \<and>
   list_all (\<lambda>entry. job_green \<lparr>space_char = \<lambda>_. False, digit_char = \<lambda>_. None\<rparr> demo_needs (fst entry)) demo_needs"
proof -
  let ?u = "\<lparr>space_char = \<lambda>_. False, digit_char = \<lambda>_. None\<rparr>"
  have d: "distinct (map fst demo_needs)" by code_simp
  have e: "evaluate ?u demo_needs = Inr \<lparr>g_ok = True, g_problems = [], g_justifications = [NothingRelevant 3]\<rparr>"
    by code_simp
  from gate_ok_iff [OF d e] show ?thesis by simp
qed

end
