(* ===== verification/Codec.thy ===== *)
theory Codec
  imports Prelude
begin

text \<open>
  Decoders of the standard library the sources call on bytes from outside: strict UTF-8 and
  base64 with the URL-safe alphabet. UTF-8 decoding inverts the encoder of the prelude.
\<close>

section \<open>UTF-8\<close>

definition continuation :: "byte \<Rightarrow> bool" where
  "continuation b \<longleftrightarrow> 0x80 \<le> unat b \<and> unat b < 0xC0"

definition low6 :: "byte \<Rightarrow> nat" where
  "low6 b = unat b - 0x80"

text \<open>\<open>bytes.decode('utf-8')\<close>; \<open>None\<close> is a \<open>UnicodeDecodeError\<close>.\<close>

fun utf8_decode :: "byte list \<Rightarrow> ustr option" where
  "utf8_decode [] = Some []"
| "utf8_decode (a # bs) =
     (let x = unat a in
      if x < 0x80 then map_option (Cons x) (utf8_decode bs)
      else if x < 0xC2 then None
      else if x < 0xE0 then
        (case bs of
           b # cs \<Rightarrow>
             if continuation b then map_option (Cons ((x - 0xC0) * 64 + low6 b)) (utf8_decode cs) else None
         | _ \<Rightarrow> None)
      else if x < 0xF0 then
        (case bs of
           b # c # ds \<Rightarrow>
             let cp = (x - 0xE0) * 4096 + low6 b * 64 + low6 c in
             if continuation b \<and> continuation c \<and> 0x800 \<le> cp \<and> \<not> is_surrogate cp
             then map_option (Cons cp) (utf8_decode ds) else None
         | _ \<Rightarrow> None)
      else if x < 0xF5 then
        (case bs of
           b # c # d # es \<Rightarrow>
             let cp = (x - 0xF0) * 262144 + low6 b * 4096 + low6 c * 64 + low6 d in
             if continuation b \<and> continuation c \<and> continuation d \<and> 0x10000 \<le> cp \<and> cp < 0x110000
             then map_option (Cons cp) (utf8_decode es) else None
         | _ \<Rightarrow> None)
      else None)"

lemma continuation_low6: "continuation b \<Longrightarrow> low6 b < 64 \<and> byte_of (0x80 + low6 b) = b"
  by (auto simp: continuation_def low6_def)

lemma continuation_byte_of:
  "n < 64 \<Longrightarrow> continuation (byte_of (0x80 + n)) \<and> low6 (byte_of (0x80 + n)) = n"
  by (auto simp: continuation_def low6_def unat_byte_of)

lemma join64_3: "c div 4096 * 4096 + c div 64 mod 64 * 64 + c mod 64 = (c :: nat)"
proof -
  have "c div 4096 = c div 64 div 64" by (simp add: div_mult2_eq [symmetric])
  moreover have "c div 64 div 64 * 64 + c div 64 mod 64 = c div 64" "c div 64 * 64 + c mod 64 = c"
    by (rule div_mult_mod_eq)+
  ultimately show ?thesis by linarith
qed

lemma join64_4: "c div 262144 * 262144 + c div 4096 mod 64 * 4096 + c div 64 mod 64 * 64 + c mod 64 = (c :: nat)"
proof -
  have "c div 262144 = c div 4096 div 64" by (simp add: div_mult2_eq [symmetric])
  moreover have "c div 4096 div 64 * 64 + c div 4096 mod 64 = c div 4096" by (rule div_mult_mod_eq)
  ultimately show ?thesis using join64_3 [of c] by linarith
qed

lemma utf8_decode_cp:
  assumes "scalar_cp c"
  shows "utf8_decode (utf8_cp c @ rest) = map_option (Cons c) (utf8_decode rest)"
proof -
  have c: "c < 0x110000" "\<not> is_surrogate c" using assms by (auto simp: scalar_cp_def valid_cp_def)
  consider "c < 0x80" | "\<not> c < 0x80" "c < 0x800" | "\<not> c < 0x800" "c < 0x10000" | "\<not> c < 0x10000"
    by linarith
  then show ?thesis
  proof cases
    case 1
    then show ?thesis by (simp add: utf8_cp_def unat_byte_of)
  next
    case 2
    then have "2 \<le> c div 64" "c div 64 < 32" by (auto simp: less_mult_imp_div_less div_le_mono [of 128 c 64, simplified])
    with 2 show ?thesis by (simp add: utf8_cp_def unat_byte_of continuation_byte_of Let_def)
  next
    case 3
    have "c div 4096 * 4096 + c div 64 mod 64 * 64 + c mod 64 = c" by (rule join64_3)
    moreover have "c div 4096 < 16" using 3 by (auto simp: less_mult_imp_div_less)
    ultimately show ?thesis using 3 c by (simp add: utf8_cp_def unat_byte_of continuation_byte_of Let_def)
  next
    case 4
    have "c div 262144 * 262144 + c div 4096 mod 64 * 4096 + c div 64 mod 64 * 64 + c mod 64 = c" by (rule join64_4)
    moreover have "c div 262144 < 5" using c by (auto simp: less_mult_imp_div_less)
    ultimately show ?thesis using 4 c by (simp add: utf8_cp_def unat_byte_of continuation_byte_of Let_def)
  qed
qed

lemma utf8_decode_utf8: "(\<forall>c \<in> set s. scalar_cp c) \<Longrightarrow> utf8_decode (utf8 s) = Some s"
  by (induction s) (auto simp: utf8_def utf8_decode_cp)

lemma split64:
  assumes "q < (64 :: nat)" "r < 64"
  shows "(p * 4096 + q * 64 + r) div 4096 = p" "(p * 4096 + q * 64 + r) div 64 = p * 64 + q"
    "(p * 4096 + q * 64 + r) mod 64 = r"
proof -
  have c: "p * 4096 + q * 64 + r = (p * 64 + q) * 64 + r" by simp
  show d: "(p * 4096 + q * 64 + r) div 64 = p * 64 + q" and "(p * 4096 + q * 64 + r) mod 64 = r"
    unfolding c using assms(2) by (simp_all only: div_mult_self3 mod_mult_self3) simp_all
  have "(p * 4096 + q * 64 + r) div 4096 = (p * 4096 + q * 64 + r) div 64 div 64" by (simp add: div_mult2_eq [symmetric])
  also have "\<dots> = p" unfolding d using assms(1) by simp
  finally show "(p * 4096 + q * 64 + r) div 4096 = p" .
qed

lemma split64_4:
  assumes "o1 < (64 :: nat)" "q < 64" "r < 64"
  shows "(p * 262144 + o1 * 4096 + q * 64 + r) div 262144 = p" "(p * 262144 + o1 * 4096 + q * 64 + r) div 4096 mod 64 = o1"
    "(p * 262144 + o1 * 4096 + q * 64 + r) div 64 mod 64 = q" "(p * 262144 + o1 * 4096 + q * 64 + r) mod 64 = r"
proof -
  have c: "p * 262144 + o1 * 4096 + q * 64 + r = (p * 64 + o1) * 4096 + q * 64 + r" by simp
  note s = split64 [OF assms(2,3), of "p * 64 + o1"]
  show "(p * 262144 + o1 * 4096 + q * 64 + r) div 4096 mod 64 = o1" "(p * 262144 + o1 * 4096 + q * 64 + r) mod 64 = r"
    unfolding c s using assms by simp_all
  have "((p * 64 + o1) * 64 + q) mod 64 = q" using assms(2) by (simp only: mod_mult_self3) simp
  then show "(p * 262144 + o1 * 4096 + q * 64 + r) div 64 mod 64 = q" unfolding c s .
  have "(p * 262144 + o1 * 4096 + q * 64 + r) div 262144 = (p * 262144 + o1 * 4096 + q * 64 + r) div 4096 div 64"
    by (simp add: div_mult2_eq [symmetric])
  also have "\<dots> = p" unfolding c s using assms(1) by simp
  finally show "(p * 262144 + o1 * 4096 + q * 64 + r) div 262144 = p" .
qed

lemma utf8_cp_long:
  "0x800 \<le> c \<Longrightarrow> c < 0x10000 \<Longrightarrow>
     utf8_cp c = [byte_of (0xE0 + c div 4096), byte_of (0x80 + c div 64 mod 64), byte_of (0x80 + c mod 64)]"
  "0x10000 \<le> c \<Longrightarrow>
     utf8_cp c = [byte_of (0xF0 + c div 262144), byte_of (0x80 + c div 4096 mod 64), byte_of (0x80 + c div 64 mod 64), byte_of (0x80 + c mod 64)]"
  unfolding utf8_cp_def by simp_all

lemma utf8_decode_sound:
  "utf8_decode bs = Some s \<Longrightarrow> bs = utf8 s \<and> (\<forall>c \<in> set s. scalar_cp c)"
proof (induction bs arbitrary: s rule: utf8_decode.induct)
  case (2 a bs)
  obtain x where a: "a = byte_of x" "unat a = x" by (metis byte_of_unat)
  have step: ?case if "a # bs = utf8_cp c @ rest" "scalar_cp c" "s = c # t" "rest = utf8 t \<and> (\<forall>c \<in> set t. scalar_cp c)" for c rest t
    using that by (simp add: utf8_def)
  note dec = "2.prems" [unfolded utf8_decode.simps a(2) Let_def]
  consider "x < 0x80" | "0xC2 \<le> x" "x < 0xE0" | "0xE0 \<le> x" "x < 0xF0" | "0xF0 \<le> x" "x < 0xF5"
    | "0x80 \<le> x" "x < 0xC2" | "0xF5 \<le> x"
    by linarith
  then show ?case
  proof cases
    case 1
    with dec obtain t where t: "s = x # t" "utf8_decode bs = Some t" by auto
    have "bs = utf8 t \<and> (\<forall>c \<in> set t. scalar_cp c)" by (rule "2.IH"(1)) (use 1 t a in simp_all)
    then show ?thesis using 1 t a(1) by (intro step [of x bs t]) (simp_all add: utf8_cp_def scalar_cp_def valid_cp_def is_surrogate_def)
  next
    case 2
    with dec obtain b cs t where t: "bs = b # cs" "continuation b" "s = ((x - 0xC0) * 64 + low6 b) # t" "utf8_decode cs = Some t"
      by (auto split: list.splits if_splits)
    note l = continuation_low6 [OF t(2)]
    have "cs = utf8 t \<and> (\<forall>c \<in> set t. scalar_cp c)" by (rule "2.IH"(2) [OF refl]) (use 2 t a in simp_all)
    moreover have "128 \<le> (x - 0xC0) * 64 + low6 b" "(x - 0xC0) * 64 + low6 b < 2048" using 2 l by linarith+
    ultimately show ?thesis using 2 t a(1) l
      by (intro step [of "(x - 0xC0) * 64 + low6 b" cs t])
        (simp_all add: utf8_cp_def scalar_cp_def valid_cp_def is_surrogate_def)
  next
    case 3
    with dec obtain b c ds t where t: "bs = b # c # ds" "continuation b" "continuation c"
      "s = ((x - 0xE0) * 4096 + low6 b * 64 + low6 c) # t" "utf8_decode ds = Some t"
      "0x800 \<le> (x - 0xE0) * 4096 + low6 b * 64 + low6 c" "\<not> is_surrogate ((x - 0xE0) * 4096 + low6 b * 64 + low6 c)"
      by (auto simp: Let_def split: list.splits if_splits)
    note l = continuation_low6 [OF t(2)] continuation_low6 [OF t(3)]
    let ?c = "(x - 0xE0) * 4096 + low6 b * 64 + low6 c"
    have "ds = utf8 t \<and> (\<forall>c \<in> set t. scalar_cp c)" using "2.IH"(3) [OF refl _ _ _ _ t(1) refl refl] 3 t a by simp
    moreover obtain cp where cp: "cp = ?c" by blast
    have small: "cp < 0x10000" unfolding cp using 3 l by linarith
    have parts: "cp div 4096 = x - 0xE0" "cp div 64 = (x - 0xE0) * 64 + low6 b" "cp mod 64 = low6 c"
      unfolding cp using split64 [OF conjunct1 [OF l(1)] conjunct1 [OF l(2)]] by blast+
    have "cp div 64 mod 64 = low6 b" unfolding parts(2) using l by simp
    moreover have "utf8_cp cp = [byte_of (0xE0 + (x - 0xE0)), byte_of (0x80 + low6 b), byte_of (0x80 + low6 c)]"
      using utf8_cp_long(1) [OF t(6) [folded cp] small] unfolding parts(1,3) calculation(2) .
    then have "a # bs = utf8_cp cp @ ds" using 3 t(1) a(1) l by simp
    moreover have "scalar_cp cp" using t(7) [folded cp] small by (simp add: scalar_cp_def valid_cp_def)
    ultimately show ?thesis using t(4) [folded cp] step [of cp ds t] by blast
  next
    case 4
    with dec obtain b c d es t where t: "bs = b # c # d # es" "continuation b" "continuation c" "continuation d"
      "s = ((x - 0xF0) * 262144 + low6 b * 4096 + low6 c * 64 + low6 d) # t" "utf8_decode es = Some t"
      "0x10000 \<le> (x - 0xF0) * 262144 + low6 b * 4096 + low6 c * 64 + low6 d"
      "(x - 0xF0) * 262144 + low6 b * 4096 + low6 c * 64 + low6 d < 0x110000"
      by (auto simp: Let_def split: list.splits if_splits)
    note l = continuation_low6 [OF t(2)] continuation_low6 [OF t(3)] continuation_low6 [OF t(4)]
    let ?c = "(x - 0xF0) * 262144 + low6 b * 4096 + low6 c * 64 + low6 d"
    have "es = utf8 t \<and> (\<forall>c \<in> set t. scalar_cp c)" using "2.IH"(4) [OF refl _ _ _ _ _ t(1) refl refl refl] 4 t a by simp
    moreover obtain cp where cp: "cp = ?c" by blast
    have parts: "cp div 262144 = x - 0xF0" "cp div 4096 mod 64 = low6 b" "cp div 64 mod 64 = low6 c" "cp mod 64 = low6 d"
      unfolding cp by (rule split64_4 [OF conjunct1 [OF l(1)] conjunct1 [OF l(2)] conjunct1 [OF l(3)]])+
    have "utf8_cp cp = [byte_of (0xF0 + (x - 0xF0)), byte_of (0x80 + low6 b), byte_of (0x80 + low6 c), byte_of (0x80 + low6 d)]"
      using utf8_cp_long(2) [OF t(7) [folded cp]] unfolding parts .
    then have "a # bs = utf8_cp cp @ es" using 4 t(1) a(1) l by simp
    moreover have "scalar_cp cp" using t(7,8) cp by (simp add: scalar_cp_def valid_cp_def is_surrogate_def)
    ultimately show ?thesis using t(5) [folded cp] step [of cp es t] by blast
  qed (use dec in simp_all)
qed (simp add: utf8_def)

lemma utf8_decode_iff: "utf8_decode bs = Some s \<longleftrightarrow> bs = utf8 s \<and> (\<forall>c \<in> set s. scalar_cp c)"
  using utf8_decode_sound utf8_decode_utf8 by blast

section \<open>Base64\<close>

definition b64_char :: "nat \<Rightarrow> nat" where
  "b64_char n =
     (if n < 26 then 65 + n else if n < 52 then 71 + n else if n < 62 then n - 4
      else if n = 62 then 45 else 95)"

text \<open>\<open>urlsafe_b64encode\<close> without the padding.\<close>

fun b64_text :: "byte list \<Rightarrow> ustr" where
  "b64_text [] = []"
| "b64_text [a] = map b64_char [unat a div 4, unat a mod 4 * 16]"
| "b64_text [a, b] = map b64_char [unat a div 4, unat a mod 4 * 16 + unat b div 16, unat b mod 16 * 4]"
| "b64_text (a # b # c # rest) =
     map b64_char [unat a div 4, unat a mod 4 * 16 + unat b div 16, unat b mod 16 * 4 + unat c div 64, unat c mod 64]
     @ b64_text rest"

text \<open>Decoding translates the URL-safe letters first, so both alphabets are read.\<close>

definition b64_value :: "nat \<Rightarrow> nat option" where
  "b64_value c =
     (if 65 \<le> c \<and> c \<le> 90 then Some (c - 65)
      else if 97 \<le> c \<and> c \<le> 122 then Some (c - 71)
      else if 48 \<le> c \<and> c \<le> 57 then Some (c + 4)
      else if c = 43 \<or> c = 45 then Some 62
      else if c = 47 \<or> c = 95 then Some 63
      else None)"

fun b64_bytes :: "nat list \<Rightarrow> byte list" where
  "b64_bytes (a # b # c # d # rest) =
     [byte_of (a * 4 + b div 16), byte_of (b mod 16 * 16 + c div 4), byte_of (c mod 4 * 64 + d)] @ b64_bytes rest"
| "b64_bytes [a, b, c] = [byte_of (a * 4 + b div 16), byte_of (b mod 16 * 16 + c div 4)]"
| "b64_bytes [a, b] = [byte_of (a * 4 + b div 16)]"
| "b64_bytes _ = []"

text \<open>
  \<open>urlsafe_b64decode(text + '=' * (-len(text) % 4))\<close> on a text without \<open>=\<close>: letters outside the
  alphabets are skipped, and the padding must complete the last group.
\<close>

definition b64_decode :: "ustr \<Rightarrow> byte list option" where
  "b64_decode text =
     (let vals = List.map_filter b64_value text;
          pads = (4 - length text mod 4) mod 4;
          q = length vals mod 4
      in if q = 1 \<or> q = 2 \<and> pads < 2 \<or> q = 3 \<and> pads < 1 then None else Some (b64_bytes vals))"

lemma b64_value_char [simp]: "n < 64 \<Longrightarrow> b64_value (b64_char n) = Some n"
  by (auto simp: b64_value_def b64_char_def)

lemma b64_char_ascii: "n < 64 \<Longrightarrow> b64_char n < 128 \<and> b64_char n \<noteq> 61"
  by (auto simp: b64_char_def)

fun b64_vals :: "byte list \<Rightarrow> nat list" where
  "b64_vals [] = []"
| "b64_vals [a] = [unat a div 4, unat a mod 4 * 16]"
| "b64_vals [a, b] = [unat a div 4, unat a mod 4 * 16 + unat b div 16, unat b mod 16 * 4]"
| "b64_vals (a # b # c # rest) =
     [unat a div 4, unat a mod 4 * 16 + unat b div 16, unat b mod 16 * 4 + unat c div 64, unat c mod 64] @ b64_vals rest"

lemma b64_text_vals: "b64_text bs = map b64_char (b64_vals bs)"
  by (induction bs rule: b64_vals.induct) simp_all

lemma byte_bound [simp]: "unat (x :: byte) < 256"
  using unsigned_less [of x, where 'a = nat] by simp

lemma byte_parts:
  fixes x :: byte
  shows "unat x div 4 < 64" "unat x mod 4 * 16 + k < 64 \<longleftrightarrow> unat x mod 4 * 16 + k < 64"
    "unat x div 16 < 16" "unat x mod 16 * 4 < 64" "unat x div 64 < 4" "unat x mod 4 * 16 < 64"
  using byte_bound [of x] by (auto simp: less_mult_imp_div_less)

lemma b64_vals_small: "list_all (\<lambda>n. n < 64) (b64_vals bs)"
proof (induction bs rule: b64_vals.induct)
  case (4 a b c rest)
  have "unat a mod 4 < 4" "unat b div 16 < 16" "unat b mod 16 < 16" "unat c div 64 < 4" using byte_parts by auto
  then have "unat a mod 4 * 16 + unat b div 16 < 64" "unat b mod 16 * 4 + unat c div 64 < 64" by linarith+
  with 4 byte_parts show ?case by simp
next
  case (3 a b)
  have "unat a mod 4 < 4" "unat b div 16 < 16" using byte_parts by auto
  then have "unat a mod 4 * 16 + unat b div 16 < 64" by linarith
  with byte_parts show ?case by simp
qed (use byte_parts in simp_all)

lemma unquad:
  fixes a b c :: byte
  shows "byte_of (unat a div 4 * 4 + (unat a mod 4 * 16) div 16) = a"
    "byte_of (unat a div 4 * 4 + (unat a mod 4 * 16 + unat b div 16) div 16) = a"
    "byte_of ((unat a mod 4 * 16 + unat b div 16) mod 16 * 16 + (unat b mod 16 * 4) div 4) = b"
    "byte_of ((unat a mod 4 * 16 + unat b div 16) mod 16 * 16 + (unat b mod 16 * 4 + unat c div 64) div 4) = b"
    "byte_of ((unat b mod 16 * 4 + unat c div 64) mod 4 * 64 + unat c mod 64) = c"
proof -
  have d: "unat b div 16 < 16" "unat c div 64 < 4" by (rule byte_parts)+
  have 1: "(unat a mod 4 * 16 + unat b div 16) div 16 = unat a mod 4" "(unat a mod 4 * 16 + unat b div 16) mod 16 = unat b div 16"
    and 2: "(unat b mod 16 * 4 + unat c div 64) div 4 = unat b mod 16" "(unat b mod 16 * 4 + unat c div 64) mod 4 = unat c div 64"
    using d by simp_all
  show "byte_of (unat a div 4 * 4 + (unat a mod 4 * 16) div 16) = a"
    "byte_of (unat a div 4 * 4 + (unat a mod 4 * 16 + unat b div 16) div 16) = a"
    "byte_of ((unat a mod 4 * 16 + unat b div 16) mod 16 * 16 + (unat b mod 16 * 4) div 4) = b"
    "byte_of ((unat a mod 4 * 16 + unat b div 16) mod 16 * 16 + (unat b mod 16 * 4 + unat c div 64) div 4) = b"
    "byte_of ((unat b mod 16 * 4 + unat c div 64) mod 4 * 64 + unat c mod 64) = c"
    unfolding 1 2 by (simp_all only: div_mult_mod_eq nonzero_mult_div_cancel_right) simp_all
qed

lemma b64_bytes_vals: "b64_bytes (b64_vals bs) = bs"
  by (induction bs rule: b64_vals.induct) (simp_all only: b64_vals.simps b64_bytes.simps append_Cons append_Nil unquad)

text \<open>The last group of a text has the length the last group of the bytes calls for.\<close>

lemma b64_vals_length: "length (b64_vals bs) mod 4 \<in> {0, 2, 3}"
  by (induction bs rule: b64_vals.induct) auto

lemma map_filter_chars: "list_all (\<lambda>n. n < 64) ns \<Longrightarrow> List.map_filter b64_value (map b64_char ns) = ns"
  by (induction ns) (simp_all add: List.map_filter_simps)

lemma b64_decode_text: "b64_decode (b64_text bs) = Some bs"
proof -
  have m: "List.map_filter b64_value (b64_text bs) = b64_vals bs"
    using map_filter_chars [OF b64_vals_small] by (simp add: b64_text_vals)
  have l: "length (b64_text bs) = length (b64_vals bs)" by (simp add: b64_text_vals)
  then show ?thesis
    using b64_vals_length [of bs] by (auto simp: b64_decode_def m b64_bytes_vals Let_def)
qed

lemma b64_text_inject [simp]: "b64_text a = b64_text b \<longleftrightarrow> a = b"
  by (metis b64_decode_text option.inject)

lemma b64_text_ascii: "c \<in> set (b64_text bs) \<Longrightarrow> c < 128 \<and> c \<noteq> 61"
  using b64_vals_small [of bs] b64_char_ascii by (auto simp: b64_text_vals list_all_iff)

section \<open>Integers as bytes\<close>

text \<open>\<open>value.to_bytes(length, 'big')\<close> for a value that fits.\<close>

fun i2osp :: "nat \<Rightarrow> nat \<Rightarrow> byte list" where
  "i2osp v 0 = []"
| "i2osp v (Suc n) = i2osp (v div 256) n @ [byte_of (v mod 256)]"

definition os2ip :: "byte list \<Rightarrow> nat" where
  "os2ip bs = foldl (\<lambda>n b. n * 256 + unat b) 0 bs"

lemma os2ip_snoc: "os2ip (bs @ [b]) = os2ip bs * 256 + unat b"
  by (simp add: os2ip_def)

lemma os2ip_i2osp: "v < 256 ^ n \<Longrightarrow> os2ip (i2osp v n) = v"
proof (induction n arbitrary: v)
  case (Suc n)
  then have "v div 256 < 256 ^ n" by (simp add: less_mult_imp_div_less mult.commute)
  with Suc.IH show ?case by (simp add: os2ip_snoc unat_byte_of)
qed (simp add: os2ip_def)

lemma i2osp_length [simp]: "length (i2osp v n) = n"
  by (induction n arbitrary: v) simp_all

lemma i2osp_os2ip: "i2osp (os2ip bs) (length bs) = bs"
proof (induction bs rule: rev_induct)
  case (snoc b bs)
  then show ?case by (simp add: os2ip_snoc)
qed simp

lemma digit_bound: "(n :: nat) < m \<Longrightarrow> d < k \<Longrightarrow> n * k + d < m * k"
  using mult_le_mono1 [of "Suc n" m k] by simp

lemma os2ip_bound: "os2ip bs < 256 ^ length bs"
proof (induction bs rule: rev_induct)
  case (snoc b bs)
  from digit_bound [OF snoc byte_bound [of b]] show ?case by (simp add: os2ip_snoc mult.commute)
qed (simp add: os2ip_def)

lemma i2osp_inject: "u < 256 ^ n \<Longrightarrow> v < 256 ^ n \<Longrightarrow> i2osp u n = i2osp v n \<longleftrightarrow> u = v"
  by (metis os2ip_i2osp)

section \<open>Padded base64\<close>

text \<open>\<open>b64encode\<close>, and \<open>b64decode(text, validate=True)\<close> on ASCII text.\<close>

definition std_b64_char :: "nat \<Rightarrow> nat" where
  "std_b64_char n = (if n = 62 then 43 else if n = 63 then 47 else b64_char n)"

definition std_b64 :: "byte list \<Rightarrow> ustr" where
  "std_b64 bs = map std_b64_char (b64_vals bs) @ replicate ((3 - length bs mod 3) mod 3) 61"

definition std_b64_value :: "nat \<Rightarrow> nat option" where
  "std_b64_value c = (if c = 45 \<or> c = 95 then None else b64_value c)"

fun std_b64_decode :: "ustr \<Rightarrow> byte list option" where
  "std_b64_decode [] = Some []"
| "std_b64_decode (a # b # c # d # rest) =
     (if rest = [] \<and> d = 61 then
        map_option b64_bytes (those (map std_b64_value (if c = 61 then [a, b] else [a, b, c])))
      else (case those (map std_b64_value [a, b, c, d]) of
              None \<Rightarrow> None
            | Some vs \<Rightarrow> map_option (\<lambda>bs. b64_bytes vs @ bs) (std_b64_decode rest)))"
| "std_b64_decode _ = None"

lemma std_b64_value_char [simp]: "n < 64 \<Longrightarrow> std_b64_value (std_b64_char n) = Some n"
  by (auto simp: std_b64_value_def std_b64_char_def b64_value_def b64_char_def)

lemma std_b64_char_not_pad [simp]: "n < 64 \<Longrightarrow> std_b64_char n \<noteq> 61"
  by (auto simp: std_b64_char_def b64_char_def)

lemma std_b64_group:
  "std_b64 (a # b # c # rest) = map std_b64_char (b64_vals [a, b, c]) @ std_b64 rest"
  by (simp add: std_b64_def mod_simps)

lemma std_b64_decode_text [simp]: "std_b64_decode (std_b64 bs) = Some bs"
proof (induction bs rule: b64_vals.induct)
  case (2 a)
  have "list_all (\<lambda>n. n < 64) (b64_vals [a])" by (rule b64_vals_small)
  then show ?case using b64_bytes_vals [of "[a]"] by (simp add: std_b64_def numeral_2_eq_2)
next
  case (3 a b)
  have "list_all (\<lambda>n. n < 64) (b64_vals [a, b])" by (rule b64_vals_small)
  then show ?case using b64_bytes_vals [of "[a, b]"] by (simp add: std_b64_def)
next
  case (4 a b c rest)
  have "list_all (\<lambda>n. n < 64) (b64_vals [a, b, c])" by (rule b64_vals_small)
  then show ?case using b64_bytes_vals [of "[a, b, c]"] 4 unfolding std_b64_group by simp
qed (simp add: std_b64_def)

lemma std_b64_inject [simp]: "std_b64 a = std_b64 b \<longleftrightarrow> a = b"
  by (metis std_b64_decode_text option.inject)

end
