(* ===== verification/Labels.thy ===== *)
theory Labels
  imports Codec JsonText Identity
begin

text \<open>
  The reference implementation of the label service, \<open>scripts/labels_reference.py\<close>: unpadded
  base64url, canonical JSON, RFC 9180 base mode over HKDF-SHA256, label padding, envelopes, and the
  member, recovery and local wraps. Signed bindings are in \<open>LabelChain\<close>. The primitives of
  \<open>hashlib\<close> and of the \<open>cryptography\<close> package are the fields of the parameter \<open>crypto\<close>.
\<close>

section \<open>Errors and primitives\<close>

text \<open>\<open>LabelCryptoError\<close> with its reason; the other exceptions by their class.\<close>

datatype refusal =
    NotBase64url | NonCanonicalBase64url | UnsupportedType | LowOrderPoint | AuthenticationFailed
  | LabelTooLong | NotABucket | MalformedPadding | NonMinimalBucket | NotUtf8
  | EnvelopeTooShort | UnsupportedVersion
  | BadSignature | SignerKeyIdMismatch | BadTimestamp | NoTimezone
  | TenantMismatch | SequenceBelowRetained | RootNotPinned | WrongPurpose | ProjectMismatch | EpochMismatch
  | RevokedKey | NotYetActive | OtherRecipient | UnknownSubject | BadSizes

datatype label_error = Refused refusal | PyKeyError | PyTypeError | PyValueError | PyStructError | PyUnicodeError | PyAttributeError

definition refuse_if :: "bool \<Rightarrow> refusal \<Rightarrow> label_error + unit" where
  "refuse_if b r = raise_if b (Refused r)"

datatype aead_primitive = AesGcm | ChaCha20Poly1305

datatype opened = Opened "byte list" | InvalidTag | InvalidArgument

record crypto =
  sha256 :: "byte list \<Rightarrow> byte list"
  x_public :: "byte list \<Rightarrow> byte list"
  x_exchange :: "byte list \<Rightarrow> byte list \<Rightarrow> byte list option" \<comment> \<open>\<open>None\<close>: the package raises\<close>
  aead_encrypt :: "aead_primitive \<Rightarrow> byte list \<Rightarrow> byte list \<Rightarrow> byte list \<Rightarrow> byte list \<Rightarrow> byte list"
  aead_decrypt :: "aead_primitive \<Rightarrow> byte list \<Rightarrow> byte list \<Rightarrow> byte list \<Rightarrow> byte list \<Rightarrow> opened"
  ed_public :: "byte list \<Rightarrow> byte list"
  ed_loads :: "byte list \<Rightarrow> bool" \<comment> \<open>a raw public key that loads\<close>
  ed_sign :: "byte list \<Rightarrow> byte list \<Rightarrow> byte list"
  ed_verify :: "byte list \<Rightarrow> byte list \<Rightarrow> byte list \<Rightarrow> bool"

definition LABEL_VERSION :: int where "LABEL_VERSION = 1"
definition BUCKETS :: "nat list" where "BUCKETS = [32, 64, 128, 256]"
definition MAX_LABEL_BYTES :: nat where "MAX_LABEL_BYTES = 255"
definition HPKE_INFO_LABEL :: "byte list" where "HPKE_INFO_LABEL = utf8 (U ''traigent.label.v1'')"
definition BINDING_DOMAIN :: "byte list" where "BINDING_DOMAIN = utf8 (U ''traigent.label.binding.v1'') @ [0]"
definition RECOVERY_INFO :: "byte list" where "RECOVERY_INFO = utf8 (U ''traigent.label.recovery.v1'')"
definition LOCAL_INFO :: "byte list" where "LOCAL_INFO = utf8 (U ''traigent.label.local.v1'')"

section \<open>Encodings\<close>

definition b64u :: "byte list \<Rightarrow> ustr" where
  "b64u data = b64_text data"

definition unb64u :: "json \<Rightarrow> label_error + byte list" where
  "unb64u v =
     (case v of
        JStr text \<Rightarrow>
          if 61 \<in> set text \<or> list_ex (\<lambda>c. 128 \<le> c) text then Inl (Refused NotBase64url)
          else (case b64_decode text of
                  None \<Rightarrow> Inl (Refused NotBase64url)
                | Some raw \<Rightarrow> if b64u raw \<noteq> text then Inl (Refused NonCanonicalBase64url) else Inr raw)
      | _ \<Rightarrow> Inl (Refused NotBase64url))"

text \<open>A key with a lone surrogate cannot be encoded to sort by it.\<close>

fun jcs_text :: "json \<Rightarrow> label_error + ustr" where
  "jcs_text JNull = Inr (U ''null'')"
| "jcs_text (JBool b) = Inr (if b then U ''true'' else U ''false'')"
| "jcs_text (JInt i) = Inr (int_text i)"
| "jcs_text (JFloat f) = Inl (Refused UnsupportedType)"
| "jcs_text (JStr s) = Inr (dump_string False s)"
| "jcs_text (JArr ts) =
     rbind (traverse jcs_text ts) (\<lambda>texts. Inr (U ''['' @ joined (U '','') texts @ U '']''))"
| "jcs_text (JObj kts) =
     (if list_ex (\<lambda>kt. list_ex is_surrogate (fst kt)) kts then Inl PyUnicodeError
      else
        rbind (traverse (\<lambda>kt. rbind (jcs_text (snd kt)) (\<lambda>v. Inr (dump_string False (fst kt) @ U '':'' @ v)))
                 (sort_key (\<lambda>kt. utf16_be (fst kt)) kts))
          (\<lambda>texts. Inr (U ''{'' @ joined (U '','') texts @ U ''}'')))"

definition jcs :: "json \<Rightarrow> label_error + byte list" where
  "jcs value =
     rbind (jcs_text value) (\<lambda>text. if list_ex is_surrogate text then Inl PyUnicodeError else Inr (utf8 text))"

section \<open>HKDF-SHA256\<close>

definition label_hkdf_extract :: "crypto \<Rightarrow> byte list \<Rightarrow> byte list \<Rightarrow> byte list" where
  "label_hkdf_extract c salt ikm = hmac_sha256 (sha256 c) (if salt = [] then replicate 32 0 else salt) ikm"

text \<open>\<open>bytes([i])\<close> raises beyond 255.\<close>

function label_hkdf_blocks ::
  "crypto \<Rightarrow> byte list \<Rightarrow> byte list \<Rightarrow> nat \<Rightarrow> byte list \<Rightarrow> byte list \<Rightarrow> nat \<Rightarrow> label_error + byte list" where
  "label_hkdf_blocks c prk info len out block i =
     (if len \<le> length out then Inr (take len out)
      else if 255 < i then Inl PyValueError
      else
        let block' = hmac_sha256 (sha256 c) prk (block @ info @ [byte_of i])
        in label_hkdf_blocks c prk info len (out @ block') block' (i + 1))"
  by pat_completeness auto
termination by (relation "measure (\<lambda>(c, prk, info, len, out, block, i). 256 - i)") auto

declare label_hkdf_blocks.simps [simp del]

definition label_hkdf_expand :: "crypto \<Rightarrow> byte list \<Rightarrow> byte list \<Rightarrow> nat \<Rightarrow> label_error + byte list" where
  "label_hkdf_expand c prk info len = label_hkdf_blocks c prk info len [] [] 1"

definition label_hkdf :: "crypto \<Rightarrow> byte list \<Rightarrow> byte list \<Rightarrow> label_error + byte list" where
  "label_hkdf c ikm info = label_hkdf_expand c (label_hkdf_extract c [] ikm) info 32"

section \<open>RFC 9180 base mode\<close>

definition KEM_ID :: nat where "KEM_ID = 0x20"
definition KDF_ID :: nat where "KDF_ID = 1"
definition AEAD_AES256 :: nat where "AEAD_AES256 = 2"
definition NN :: nat where "NN = 12"

definition AEAD_TABLE :: "nat \<Rightarrow> (nat \<times> aead_primitive) option" where
  "AEAD_TABLE = [1 \<mapsto> (16, AesGcm), 2 \<mapsto> (32, AesGcm), 3 \<mapsto> (32, ChaCha20Poly1305)]"

definition le :: "crypto \<Rightarrow> byte list \<Rightarrow> byte list \<Rightarrow> string \<Rightarrow> byte list \<Rightarrow> nat \<Rightarrow> label_error + byte list" where
  "le c suite prk label info len =
     label_hkdf_expand c prk (i2osp len 2 @ utf8 (U ''HPKE-v1'') @ suite @ utf8 (U label) @ info) len"

definition lx :: "crypto \<Rightarrow> byte list \<Rightarrow> byte list \<Rightarrow> string \<Rightarrow> byte list \<Rightarrow> byte list" where
  "lx c suite salt label ikm = label_hkdf_extract c salt (utf8 (U ''HPKE-v1'') @ suite @ utf8 (U label) @ ikm)"

definition KEM_SUITE :: "byte list" where
  "KEM_SUITE = utf8 (U ''KEM'') @ i2osp KEM_ID 2"

definition derive_keypair :: "crypto \<Rightarrow> byte list \<Rightarrow> label_error + byte list \<times> byte list" where
  "derive_keypair c ikm =
     (let prk = lx c KEM_SUITE [] ''dkp_prk'' ikm in
      rbind (le c KEM_SUITE prk ''sk'' [] 32) (\<lambda>sk. Inr (sk, x_public c sk)))"

definition dh :: "crypto \<Rightarrow> byte list \<Rightarrow> byte list \<Rightarrow> label_error + byte list" where
  "dh c sk pk =
     (case x_exchange c sk pk of
        None \<Rightarrow> Inl PyValueError
      | Some shared \<Rightarrow> if shared = replicate 32 0 then Inl (Refused LowOrderPoint) else Inr shared)"

definition extract_and_expand :: "crypto \<Rightarrow> byte list \<Rightarrow> byte list \<Rightarrow> label_error + byte list" where
  "extract_and_expand c shared kem_context =
     (let eae_prk = lx c KEM_SUITE [] ''eae_prk'' shared in
      le c KEM_SUITE eae_prk ''shared_secret'' kem_context 32)"

definition key_schedule ::
  "crypto \<Rightarrow> nat \<Rightarrow> byte list \<Rightarrow> byte list \<Rightarrow> label_error + aead_primitive \<times> byte list \<times> byte list" where
  "key_schedule c aead_id shared_secret info =
     (let suite = utf8 (U ''HPKE'') @ i2osp KEM_ID 2 @ i2osp KDF_ID 2 @ i2osp aead_id 2 in
      case AEAD_TABLE aead_id of
        None \<Rightarrow> Inl PyKeyError
      | Some (nk, primitive) \<Rightarrow>
          let psk_id_hash = lx c suite [] ''psk_id_hash'' [];
              info_hash = lx c suite [] ''info_hash'' info;
              context = 0 # psk_id_hash @ info_hash;
              secret = lx c suite shared_secret ''secret'' []
          in rbind (le c suite secret ''key'' context nk) (\<lambda>key.
             rbind (le c suite secret ''base_nonce'' context NN) (\<lambda>nonce.
               Inr (primitive, key, nonce))))"

definition hpke_seal ::
  "crypto \<Rightarrow> byte list \<Rightarrow> byte list \<Rightarrow> byte list \<Rightarrow> byte list \<Rightarrow> byte list \<Rightarrow> nat \<Rightarrow>
   label_error + byte list \<times> byte list" where
  "hpke_seal c pk_r info aad plaintext ikm_e aead_id =
     rbind (derive_keypair c ikm_e) (\<lambda>(sk_e, enc).
     rbind (dh c sk_e pk_r) (\<lambda>s.
     rbind (extract_and_expand c s (enc @ pk_r)) (\<lambda>shared.
     rbind (key_schedule c aead_id shared info) (\<lambda>(primitive, key, nonce).
       Inr (enc, aead_encrypt c primitive key nonce plaintext aad)))))"

definition aead_open :: "crypto \<Rightarrow> aead_primitive \<Rightarrow> byte list \<Rightarrow> byte list \<Rightarrow> byte list \<Rightarrow> byte list \<Rightarrow> label_error + byte list" where
  "aead_open c primitive key nonce ciphertext aad =
     (case aead_decrypt c primitive key nonce ciphertext aad of
        Opened plaintext \<Rightarrow> Inr plaintext
      | InvalidTag \<Rightarrow> Inl (Refused AuthenticationFailed)
      | InvalidArgument \<Rightarrow> Inl PyValueError)"

definition hpke_open ::
  "crypto \<Rightarrow> byte list \<Rightarrow> byte list \<Rightarrow> byte list \<Rightarrow> byte list \<Rightarrow> byte list \<Rightarrow> nat \<Rightarrow> label_error + byte list" where
  "hpke_open c sk_r enc info aad ciphertext aead_id =
     (let pk_r = x_public c sk_r in
      rbind (dh c sk_r enc) (\<lambda>s.
      rbind (extract_and_expand c s (enc @ pk_r)) (\<lambda>shared.
      rbind (key_schedule c aead_id shared info) (\<lambda>(primitive, key, nonce).
        aead_open c primitive key nonce ciphertext aad))))"

section \<open>Padding\<close>

definition smallest_bucket :: "nat \<Rightarrow> nat option" where
  "smallest_bucket n = find (\<lambda>bucket. n + 1 \<le> bucket) BUCKETS"

definition pad :: "ustr \<Rightarrow> label_error + byte list" where
  "pad text =
     (if list_ex is_surrogate text then Inl PyUnicodeError
      else
        let raw = utf8 text in
        if MAX_LABEL_BYTES < length raw then Inl (Refused LabelTooLong)
        else (case smallest_bucket (length raw) of
                None \<Rightarrow> Inl (Refused LabelTooLong)
              | Some bucket \<Rightarrow> Inr (raw @ 0x80 # replicate (bucket - length raw - 1) 0)))"

definition rstrip_zeros :: "byte list \<Rightarrow> byte list" where
  "rstrip_zeros bs = rev (dropWhile (\<lambda>b. b = 0) (rev bs))"

text \<open>\<open>next\<close> without a default raises \<open>StopIteration\<close> when no bucket fits; here some bucket does.\<close>

definition unpad :: "byte list \<Rightarrow> label_error + ustr" where
  "unpad padded =
     (if length padded \<notin> set BUCKETS then Inl (Refused NotABucket)
      else
        let stripped = rstrip_zeros padded in
        if stripped = [] \<or> last stripped \<noteq> 0x80 then Inl (Refused MalformedPadding)
        else
          let body = butlast stripped in
          if Some (length padded) \<noteq> smallest_bucket (length body) then Inl (Refused NonMinimalBucket)
          else (case utf8_decode body of None \<Rightarrow> Inl (Refused NotUtf8) | Some text \<Rightarrow> Inr text))"

section \<open>Envelopes\<close>

definition pack_envelope :: "int \<Rightarrow> int \<Rightarrow> byte list \<Rightarrow> byte list \<Rightarrow> label_error + byte list" where
  "pack_envelope version epoch enc ciphertext =
     (if \<not> (0 \<le> version \<and> version < 256) then Inl PyValueError
      else if \<not> (0 \<le> epoch \<and> epoch < 2 ^ 32) then Inl PyStructError
      else Inr (byte_of (nat version) # i2osp (nat epoch) 4 @ enc @ ciphertext))"

definition unpack_envelope :: "byte list \<Rightarrow> label_error + int \<times> int \<times> byte list \<times> byte list" where
  "unpack_envelope blob =
     (if length blob < 1 + 4 + 32 + 16 + 32 then Inl (Refused EnvelopeTooShort)
      else
        let version = int (unat (hd blob)); epoch = int (os2ip (take 4 (drop 1 blob))) in
        if version \<noteq> LABEL_VERSION then Inl (Refused UnsupportedVersion)
        else Inr (version, epoch, take 32 (drop 5 blob), drop 37 blob))"

section \<open>Sealed labels\<close>

text \<open>\<open>d[key]\<close>.\<close>

definition key_of :: "json \<Rightarrow> string \<Rightarrow> label_error + json" where
  "key_of d key =
     (case d of
        JObj kts \<Rightarrow> (case map_of kts (U key) of None \<Rightarrow> Inl PyKeyError | Some v \<Rightarrow> Inr v)
      | _ \<Rightarrow> Inl PyTypeError)"

record label_place =
  tenant_ref :: ustr
  project_ref :: ustr
  purpose :: ustr
  object_ref :: ustr

definition label_aad :: "label_place \<Rightarrow> json \<Rightarrow> int \<Rightarrow> label_error + byte list" where
  "label_aad place key_epoch revision =
     jcs (JObj
       [(U ''schema_version'', JInt LABEL_VERSION),
        (U ''tenant_ref'', JStr (tenant_ref place)),
        (U ''project_ref'', JStr (project_ref place)),
        (U ''purpose'', JStr (purpose place)),
        (U ''object_ref'', JStr (object_ref place)),
        (U ''key_epoch'', key_epoch),
        (U ''revision'', JInt revision)])"

definition seal_label :: "crypto \<Rightarrow> byte list \<Rightarrow> ustr \<Rightarrow> label_place \<Rightarrow> int \<Rightarrow> int \<Rightarrow> byte list \<Rightarrow> label_error + json" where
  "seal_label c pk_project text place key_epoch revision ikm_e =
     rbind (label_aad place (JInt key_epoch) revision) (\<lambda>aad.
     rbind (pad text) (\<lambda>padded.
     rbind (hpke_seal c pk_project HPKE_INFO_LABEL aad padded ikm_e AEAD_AES256) (\<lambda>(enc, ct).
       Inr (JObj
         [(U ''version'', JInt LABEL_VERSION),
          (U ''key_epoch'', JInt key_epoch),
          (U ''enc'', JStr (b64u enc)),
          (U ''ciphertext'', JStr (b64u ct))]))))"

definition open_label :: "crypto \<Rightarrow> byte list \<Rightarrow> json \<Rightarrow> label_place \<Rightarrow> int \<Rightarrow> label_error + ustr" where
  "open_label c sk_project envelope place revision =
     rbind (refuse_if (\<not> py_eq (get_member envelope ''version'') (JInt LABEL_VERSION)) UnsupportedVersion) (\<lambda>_.
     rbind (key_of envelope ''key_epoch'') (\<lambda>epoch.
     rbind (key_of envelope ''enc'') (\<lambda>enc_text.
     rbind (unb64u enc_text) (\<lambda>enc.
     rbind (label_aad place epoch revision) (\<lambda>aad.
     rbind (key_of envelope ''ciphertext'') (\<lambda>ct_text.
     rbind (unb64u ct_text) (\<lambda>ct.
     rbind (hpke_open c sk_project enc HPKE_INFO_LABEL aad ct AEAD_AES256) unpad)))))))"

section \<open>Wraps\<close>

definition public_key_id :: "crypto \<Rightarrow> byte list \<Rightarrow> ustr" where
  "public_key_id c public_key = b64u (take 16 (sha256 c public_key))"

definition member_wrap_info :: "ustr \<Rightarrow> ustr \<Rightarrow> json \<Rightarrow> json \<Rightarrow> label_error + byte list" where
  "member_wrap_info tenant project epoch recipient_key_id =
     jcs (JObj
       [(U ''tenant_ref'', JStr tenant),
        (U ''project_ref'', JStr project),
        (U ''epoch'', epoch),
        (U ''recipient_key_id'', recipient_key_id),
        (U ''purpose'', JStr (U ''member_wrap'')),
        (U ''version'', JInt LABEL_VERSION)])"

definition wrap_to_member ::
  "crypto \<Rightarrow> byte list \<Rightarrow> byte list \<Rightarrow> ustr \<Rightarrow> ustr \<Rightarrow> int \<Rightarrow> byte list \<Rightarrow> label_error + json" where
  "wrap_to_member c project_sk member_pk tenant project epoch ikm_e =
     (let rid = public_key_id c member_pk in
      rbind (member_wrap_info tenant project (JInt epoch) (JStr rid)) (\<lambda>info.
      rbind (hpke_seal c member_pk info [] project_sk ikm_e AEAD_AES256) (\<lambda>(enc, ct).
        Inr (JObj
          [(U ''version'', JInt LABEL_VERSION),
           (U ''epoch'', JInt epoch),
           (U ''recipient_key_id'', JStr rid),
           (U ''enc'', JStr (b64u enc)),
           (U ''ciphertext'', JStr (b64u ct))]))))"

text \<open>A raw private key has 32 bytes.\<close>

definition unwrap_from_member :: "crypto \<Rightarrow> byte list \<Rightarrow> json \<Rightarrow> ustr \<Rightarrow> ustr \<Rightarrow> label_error + byte list" where
  "unwrap_from_member c member_sk wrap tenant project =
     rbind (key_of wrap ''recipient_key_id'') (\<lambda>rid.
     rbind (refuse_if (\<not> py_eq rid (JStr (public_key_id c (x_public c member_sk)))) OtherRecipient) (\<lambda>_.
     rbind (key_of wrap ''enc'') (\<lambda>enc_text.
     rbind (unb64u enc_text) (\<lambda>enc.
     rbind (key_of wrap ''epoch'') (\<lambda>epoch.
     rbind (member_wrap_info tenant project epoch rid) (\<lambda>info.
     rbind (key_of wrap ''ciphertext'') (\<lambda>ct_text.
     rbind (unb64u ct_text) (\<lambda>ct.
     rbind (hpke_open c member_sk enc info [] ct AEAD_AES256) (\<lambda>raw.
       if length raw \<noteq> 32 then Inl PyValueError else Inr raw)))))))))"

definition RECOVERY_SUBJECTS :: "ustr list" where
  "RECOVERY_SUBJECTS = [U ''root_key'', U ''project_key'']"

definition recovery_aad :: "ustr \<Rightarrow> ustr \<Rightarrow> json \<Rightarrow> json \<Rightarrow> label_error + byte list" where
  "recovery_aad tenant project epoch subject =
     rbind (refuse_if (\<not> list_ex (\<lambda>s. py_eq subject (JStr s)) RECOVERY_SUBJECTS) UnknownSubject) (\<lambda>_.
       jcs (JObj
         [(U ''tenant_ref'', JStr tenant),
          (U ''project_ref'', JStr project),
          (U ''epoch'', epoch),
          (U ''subject'', subject),
          (U ''purpose'', JStr (U ''recovery_wrap'')),
          (U ''version'', JInt LABEL_VERSION)]))"

definition recovery_wrap ::
  "crypto \<Rightarrow> byte list \<Rightarrow> byte list \<Rightarrow> ustr \<Rightarrow> ustr \<Rightarrow> int \<Rightarrow> byte list \<Rightarrow> ustr \<Rightarrow> label_error + json" where
  "recovery_wrap c recovery_secret secret_key_raw tenant project epoch nonce subject =
     rbind (refuse_if (length recovery_secret \<noteq> 32 \<or> length nonce \<noteq> 12) BadSizes) (\<lambda>_.
     rbind (label_hkdf c recovery_secret RECOVERY_INFO) (\<lambda>key.
     rbind (recovery_aad tenant project (JInt epoch) (JStr subject)) (\<lambda>aad.
       let ct = aead_encrypt c AesGcm key nonce secret_key_raw aad in
       Inr (JObj
         [(U ''version'', JInt LABEL_VERSION),
          (U ''epoch'', JInt epoch),
          (U ''subject'', JStr subject),
          (U ''nonce'', JStr (b64u nonce)),
          (U ''ciphertext'', JStr (b64u ct))]))))"

definition recovery_unwrap :: "crypto \<Rightarrow> byte list \<Rightarrow> json \<Rightarrow> ustr \<Rightarrow> ustr \<Rightarrow> label_error + byte list" where
  "recovery_unwrap c recovery_secret wrap tenant project =
     rbind (label_hkdf c recovery_secret RECOVERY_INFO) (\<lambda>key.
     rbind (key_of wrap ''nonce'') (\<lambda>nonce_text.
     rbind (unb64u nonce_text) (\<lambda>nonce.
     rbind (key_of wrap ''ciphertext'') (\<lambda>ct_text.
     rbind (unb64u ct_text) (\<lambda>ct.
     rbind (key_of wrap ''epoch'') (\<lambda>epoch.
     rbind (key_of wrap ''subject'') (\<lambda>subject.
     rbind (recovery_aad tenant project epoch subject) (\<lambda>aad.
       aead_open c AesGcm key nonce ct aad))))))))"

definition local_aad :: "ustr \<Rightarrow> ustr \<Rightarrow> label_error + byte list" where
  "local_aad tenant member_key_id =
     jcs (JObj
       [(U ''tenant_ref'', JStr tenant),
        (U ''member_key_id'', JStr member_key_id),
        (U ''purpose'', JStr (U ''local_member_key'')),
        (U ''version'', JInt LABEL_VERSION)])"

definition local_wrap :: "crypto \<Rightarrow> byte list \<Rightarrow> byte list \<Rightarrow> ustr \<Rightarrow> ustr \<Rightarrow> byte list \<Rightarrow> label_error + json" where
  "local_wrap c ikm secret_raw tenant member_key_id nonce =
     rbind (label_hkdf c ikm LOCAL_INFO) (\<lambda>key.
     rbind (local_aad tenant member_key_id) (\<lambda>aad.
       let ct = aead_encrypt c AesGcm key nonce secret_raw aad in
       Inr (JObj [(U ''nonce'', JStr (b64u nonce)), (U ''ciphertext'', JStr (b64u ct))])))"

definition local_unwrap :: "crypto \<Rightarrow> byte list \<Rightarrow> json \<Rightarrow> ustr \<Rightarrow> ustr \<Rightarrow> label_error + byte list" where
  "local_unwrap c ikm record_value tenant member_key_id =
     rbind (label_hkdf c ikm LOCAL_INFO) (\<lambda>key.
     rbind (key_of record_value ''nonce'') (\<lambda>nonce_text.
     rbind (unb64u nonce_text) (\<lambda>nonce.
     rbind (key_of record_value ''ciphertext'') (\<lambda>ct_text.
     rbind (unb64u ct_text) (\<lambda>ct.
     rbind (local_aad tenant member_key_id) (\<lambda>aad.
       aead_open c AesGcm key nonce ct aad))))))"

section \<open>Facts on the encodings\<close>

lemma unb64u_b64u [simp]: "unb64u (JStr (b64u bs)) = Inr bs"
  using b64_text_ascii [of _ bs] by (force simp: unb64u_def b64u_def b64_decode_text list_ex_iff)

lemma unb64u_iff: "unb64u v = Inr raw \<longleftrightarrow> v = JStr (b64u raw)"
proof
  assume "unb64u v = Inr raw"
  then show "v = JStr (b64u raw)" by (auto simp: unb64u_def split: json.splits option.splits if_splits)
qed simp

lemma smallest_bucket_iff:
  "smallest_bucket n = Some b \<longleftrightarrow>
   n < 32 \<and> b = 32 \<or> 32 \<le> n \<and> n < 64 \<and> b = 64 \<or> 64 \<le> n \<and> n < 128 \<and> b = 128 \<or> 128 \<le> n \<and> n < 256 \<and> b = 256"
  by (auto simp: smallest_bucket_def BUCKETS_def)

lemma rstrip_zeros_padded: "b \<noteq> 0 \<Longrightarrow> rstrip_zeros (xs @ b # replicate n 0) = xs @ [b]"
  by (simp add: rstrip_zeros_def dropWhile_append)

lemma rstrip_zeros_split: "\<exists>n. bs = rstrip_zeros bs @ replicate n 0"
proof -
  have "takeWhile (\<lambda>b. b = 0) (rev bs) = replicate (length (takeWhile (\<lambda>b. b = 0) (rev bs))) 0"
    by (rule replicate_length_same [symmetric]) (auto dest: set_takeWhileD)
  then have "rev bs = replicate (length (takeWhile (\<lambda>b. b = 0) (rev bs))) 0 @ dropWhile (\<lambda>b. b = 0) (rev bs)"
    by (metis takeWhile_dropWhile_id)
  then have "bs = rev (replicate (length (takeWhile (\<lambda>b. b = 0) (rev bs))) 0 @ dropWhile (\<lambda>b. b = 0) (rev bs))"
    by (metis rev_rev_ident)
  then show ?thesis by (auto simp: rstrip_zeros_def)
qed

lemma pad_Inr:
  "pad s = Inr p \<longleftrightarrow>
   \<not> list_ex is_surrogate s \<and> length (utf8 s) \<le> 255 \<and>
   (\<exists>bucket. smallest_bucket (length (utf8 s)) = Some bucket \<and>
      p = utf8 s @ 0x80 # replicate (bucket - length (utf8 s) - 1) 0)"
  by (auto simp: pad_def Let_def MAX_LABEL_BYTES_def split: option.splits)

lemma unpad_Inr:
  "unpad p = Inr s \<longleftrightarrow>
   (\<exists>bucket. smallest_bucket (length (utf8 s)) = Some bucket \<and>
      p = utf8 s @ 0x80 # replicate (bucket - length (utf8 s) - 1) 0) \<and> (\<forall>c \<in> set s. scalar_cp c)"
  (is "_ \<longleftrightarrow> ?padded \<and> ?scalar")
proof
  assume u: "unpad p = Inr s"
  let ?t = "rstrip_zeros p"
  from u have t: "?t \<noteq> []" "last ?t = 0x80" "smallest_bucket (length (butlast ?t)) = Some (length p)"
    "utf8_decode (butlast ?t) = Some s"
    by (auto simp: unpad_def Let_def split: if_splits option.splits)
  then have s: "butlast ?t = utf8 s" "?scalar" by (auto simp: utf8_decode_iff)
  have split: "?t = utf8 s @ [0x80]" using t(1,2) s(1) by (metis append_butlast_last_id)
  obtain n where n: "p = ?t @ replicate n 0" using rstrip_zeros_split by blast
  then have p: "p = utf8 s @ 0x80 # replicate n 0" using split by simp
  then have "n = length p - length (utf8 s) - 1" by simp
  with p t(3) s show "?padded \<and> ?scalar" by auto
next
  assume a: "?padded \<and> ?scalar"
  then obtain bucket where b: "smallest_bucket (length (utf8 s)) = Some bucket"
    and p: "p = utf8 s @ 0x80 # replicate (bucket - length (utf8 s) - 1) 0" by blast
  have l: "length p = bucket" "bucket \<in> set BUCKETS" using b p by (auto simp: smallest_bucket_iff BUCKETS_def)
  have "rstrip_zeros p = utf8 s @ [0x80]" using p by (simp add: rstrip_zeros_padded)
  then show "unpad p = Inr s" using a b l by (simp add: unpad_def Let_def utf8_decode_utf8)
qed

end
