(* ===== verification/LabelLaws.thy ===== *)
theory LabelLaws
  imports Labels BestConfig
begin

text \<open>
  What the label reference guarantees: every wrap opens to what was wrapped, one label has one
  padded form, envelopes pack and unpack exactly, canonical JSON agrees with the fp2 canonicalizer,
  and the authenticated data of the four uses never coincide. The round trips rest on what the
  documentation of the primitives promises, \<open>primitives_ok\<close>.
\<close>

section \<open>The primitives\<close>

definition primitives_ok :: "crypto \<Rightarrow> bool" where
  "primitives_ok c \<longleftrightarrow>
     (\<forall>a b. length a = 32 \<and> length b = 32 \<longrightarrow> x_exchange c a (x_public c b) = x_exchange c b (x_public c a)) \<and>
     (\<forall>k n p ad. length k = 32 \<and> length n = 12 \<longrightarrow>
        aead_decrypt c AesGcm k n (aead_encrypt c AesGcm k n p ad) ad = Opened p)"

lemma hkdf_blocks_length: "label_hkdf_blocks c prk info len out block i = Inr okm \<Longrightarrow> length okm = len"
proof (induction c prk info len out block i rule: label_hkdf_blocks.induct)
  case (1 c prk info len out block i)
  show ?case
  proof (cases "len \<le> length out")
    case True
    with "1.prems" show ?thesis by (subst (asm) label_hkdf_blocks.simps) auto
  next
    case False
    with "1.prems" have "\<not> 255 < i" by (subst (asm) label_hkdf_blocks.simps) (auto split: if_splits)
    moreover from this False "1.prems"
    have "label_hkdf_blocks c prk info len (out @ hmac_sha256 (sha256 c) prk (block @ info @ [byte_of i]))
        (hmac_sha256 (sha256 c) prk (block @ info @ [byte_of i])) (i + 1) = Inr okm"
      by (subst (asm) label_hkdf_blocks.simps) (simp add: Let_def)
    ultimately show ?thesis using "1.IH" False by simp
  qed
qed

lemma hkdf_expand_length: "label_hkdf_expand c prk info len = Inr okm \<Longrightarrow> length okm = len"
  using hkdf_blocks_length by (simp add: label_hkdf_expand_def)

lemma derive_keypair_Inr:
  "derive_keypair c ikm = Inr (sk, pk) \<Longrightarrow> length sk = 32 \<and> pk = x_public c sk"
  by (auto simp: derive_keypair_def Let_def rbind_Inr_iff le_def dest: hkdf_expand_length)

lemma key_schedule_lengths:
  "key_schedule c AEAD_AES256 shared info = Inr (p, k, n) \<Longrightarrow> p = AesGcm \<and> length k = 32 \<and> length n = 12"
  by (auto simp: key_schedule_def Let_def rbind_Inr_iff AEAD_TABLE_def AEAD_AES256_def NN_def le_def
      dest!: hkdf_expand_length)

lemma hpke_opens:
  assumes "primitives_ok c" "length sk_r = 32"
    and "hpke_seal c (x_public c sk_r) info aad plaintext ikm_e AEAD_AES256 = Inr (enc, ct)"
  shows "hpke_open c sk_r enc info aad ct AEAD_AES256 = Inr plaintext"
proof -
  from assms(3) obtain sk_e s shared p k n where
    e: "derive_keypair c ikm_e = Inr (sk_e, enc)" and s: "dh c sk_e (x_public c sk_r) = Inr s"
    and x: "extract_and_expand c s (enc @ x_public c sk_r) = Inr shared"
    and k: "key_schedule c AEAD_AES256 shared info = Inr (p, k, n)"
    and ct: "ct = aead_encrypt c p k n plaintext aad"
    by (auto simp: hpke_seal_def rbind_Inr_iff)
  note sk = derive_keypair_Inr [OF e] and l = key_schedule_lengths [OF k]
  have "dh c sk_r enc = Inr s"
    using s sk assms(1,2) by (simp add: dh_def primitives_ok_def)
  moreover have "aead_open c p k n ct aad = Inr plaintext"
    using assms(1) l ct by (simp add: aead_open_def primitives_ok_def)
  ultimately show ?thesis using x k by (simp add: hpke_open_def Let_def)
qed

lemma get_member_Cons:
  "get_member (JObj ((k, v) # kts)) key = (if k = U key then v else get_member (JObj kts) key)"
  "key_of (JObj ((k, v) # kts)) key = (if k = U key then Inr v else key_of (JObj kts) key)"
  by (auto simp: member_or_def key_of_def)

lemma py_eq_int: "py_eq (JInt i) (JInt j) \<longleftrightarrow> i = j"
  by auto

section \<open>Canonical JSON\<close>

lemma dump_string_text: "dump_string False s = string_text s"
proof -
  have "dump_char False c = escape_char c" for c
    by (auto simp: dump_char_def escape_char_def hex4_def hex_char_def)
  then have "dump_char False = escape_char" by (rule ext)
  then show ?thesis by (simp add: dump_string_def string_text_def)
qed

lemma joined_commas: "joined (U '','') xs = with_commas True xs"
  by (induction xs rule: induct_list012) simp_all

lemma list_all2_map_eq: "list_all2 (\<lambda>x y. y = f x) xs ys \<longleftrightarrow> ys = map f xs"
  by (induction xs arbitrary: ys) (auto simp: list_all2_Cons1)

lemma jcs_text_canon: "jcs_text t = Inr out \<Longrightarrow> out = canon t"
proof (induction t arbitrary: out)
  case (JArr ts)
  then obtain texts where t: "traverse jcs_text ts = Inr texts" "out = U ''['' @ joined (U '','') texts @ U '']''"
    by (auto simp: rbind_Inr_iff)
  have "list_all2 (\<lambda>t out. out = canon t) ts texts"
    using t(1) unfolding traverse_Inr_iff by (rule list.rel_mono_strong) (use JArr.IH in auto)
  with t(2) show ?case by (simp add: list_all2_map_eq joined_commas)
next
  case (JObj kts)
  let ?sorted = "sort_key (\<lambda>kt. utf16_be (fst kt)) kts"
  from JObj.prems obtain texts where t: "out = U ''{'' @ joined (U '','') texts @ U ''}''"
    and tr: "traverse (\<lambda>kt. rbind (jcs_text (snd kt)) (\<lambda>v. Inr (dump_string False (fst kt) @ U '':'' @ v))) ?sorted = Inr texts"
    by (auto simp: rbind_Inr_iff split: if_splits)
  have "list_all2 (\<lambda>kt out. out = member_text kt) ?sorted texts"
    using tr unfolding traverse_Inr_iff
    by (rule list.rel_mono_strong) (use JObj.IH in \<open>fastforce simp: rbind_Inr_iff member_text_def dump_string_text snds.simps\<close>)
  then have "texts = map member_text (sorted_members kts)" by (simp add: list_all2_map_eq case_prod_beta')
  with t show ?case unfolding canon_JObj by (simp only: joined_commas) (simp add: U_def)
qed (auto simp: dump_string_text)

lemma surrogate_in_text: "list_ex is_surrogate s \<Longrightarrow> list_ex is_surrogate (string_text s)"
proof -
  assume "list_ex is_surrogate s"
  then obtain c where c: "c \<in> set s" "is_surrogate c" by (auto simp: list_ex_iff)
  then have "escape_char c = [c]" by (auto simp: escape_char_def is_surrogate_def)
  with c show ?thesis by (force simp: string_text_def list_ex_iff)
qed

lemma with_commas_mem: "x \<in> set xs \<Longrightarrow> c \<in> set x \<Longrightarrow> c \<in> set (with_commas b xs)"
  by (induction b xs rule: with_commas.induct) auto

lemma canon_surrogate_free:
  "\<not> list_ex is_surrogate (canon t) \<Longrightarrow> ints_safe t \<Longrightarrow> (\<exists>out. jcs_text t = Inr out) \<Longrightarrow> fp2_ok t"
proof (induction t)
  case (JStr s)
  then show ?case using surrogate_in_text [of s] by (auto simp: encodable_def list_ex_iff)
next
  case (JArr ts)
  then obtain texts where "traverse jcs_text ts = Inr texts" by (auto simp: rbind_Inr_iff)
  then have "\<exists>out. jcs_text t = Inr out" if "t \<in> set ts" for t using traverse_Inr_mem that by metis
  moreover have "\<not> list_ex is_surrogate (canon t)" if "t \<in> set ts" for t
    using JArr.prems(1) that by (auto simp: list_ex_iff dest: with_commas_mem [of "canon t" "map canon ts", rotated])
  ultimately show ?case using JArr by auto
next
  case (JObj kts)
  then obtain texts where
    "traverse (\<lambda>kt. rbind (jcs_text (snd kt)) (\<lambda>v. Inr (dump_string False (fst kt) @ U '':'' @ v)))
       (sort_key (\<lambda>kt. utf16_be (fst kt)) kts) = Inr texts" "\<not> list_ex (\<lambda>kt. list_ex is_surrogate (fst kt)) kts"
    by (auto simp: rbind_Inr_iff split: if_splits)
  then have ok: "\<exists>out. jcs_text (snd kt) = Inr out" "encodable (fst kt)" if "kt \<in> set kts" for kt
    using traverse_Inr_mem [of _ "sort_key (\<lambda>kt. utf16_be (fst kt)) kts" texts kt] that
    by (fastforce simp: rbind_Inr_iff encodable_def list_ex_iff)+
  have "\<not> list_ex is_surrogate (canon (snd kt))" if "kt \<in> set kts" for kt
    using JObj.prems(1) that with_commas_mem [of "member_text kt" "map member_text (sorted_members kts)"]
    unfolding canon_JObj by (auto simp: member_text_def list_ex_iff)
  with JObj.IH JObj.prems(2) ok show ?case by (fastforce simp: snds.simps)
qed auto

lemma jcs_canon:
  assumes "jcs t = Inr bs" "ints_safe t"
  shows "fp2_ok t \<and> bs = utf8 (canon t)"
proof -
  from assms(1) obtain out where "jcs_text t = Inr out" "\<not> list_ex is_surrogate out" "bs = utf8 out"
    by (auto simp: jcs_def rbind_Inr_iff split: if_splits)
  with jcs_text_canon canon_surrogate_free assms(2) show ?thesis by metis
qed

lemma jcs_binds:
  assumes "jcs t = Inr bs" "jcs u = Inr bs" "ints_safe t" "ints_safe u" "wf_tree t" "wf_tree u"
  shows "norm t = norm u"
proof -
  have t: "fp2_ok t" "bs = utf8 (canon t)" and u: "fp2_ok u" "bs = utf8 (canon u)"
    using jcs_canon assms by blast+
  have "canon t = canon u"
    using utf8_inject [of "canon t" "canon u"] canon_valid t u assms(5,6) by metis
  then show ?thesis using canon_eq_iff t(1) u(1) assms(5,6) by blast
qed

lemma norm_JInt_inject:
  assumes "\<bar>i\<bar> \<le> int MAX_SAFE_INTEGER" "\<bar>j\<bar> \<le> int MAX_SAFE_INTEGER" "norm (JInt i) = norm (JInt j)"
  shows "i = j"
proof -
  have "canon (JInt i) = canon (JInt j)"
    using canon_eq_iff [of "JInt i" "JInt j"] assms by (simp del: norm.simps canon.simps)
  then have "int_text i = int_text j" by simp
  then show ?thesis using int_of_text_int_text by metis
qed

text \<open>What a dict built by the code says under one key is what another with the same bytes says.\<close>

lemma jcs_members:
  assumes "jcs (JObj kts) = Inr bs" "jcs (JObj lts) = Inr bs"
    and "ints_safe (JObj kts)" "ints_safe (JObj lts)" "wf_tree (JObj kts)" "wf_tree (JObj lts)"
    and "distinct (map fst kts)" "distinct (map fst lts)"
  shows "map_option norm (map_of kts k) = map_option norm (map_of lts k)"
  using map_of_norm_JObj [OF jcs_binds [OF assms(1-6)] assms(7,8)] .

definition safe_int :: "int \<Rightarrow> bool" where
  "safe_int i \<longleftrightarrow> \<bar>i\<bar> \<le> int MAX_SAFE_INTEGER"

definition wf_place :: "label_place \<Rightarrow> bool" where
  "wf_place p \<longleftrightarrow>
     list_all valid_cp (tenant_ref p) \<and> list_all valid_cp (project_ref p) \<and>
     list_all valid_cp (purpose p) \<and> list_all valid_cp (object_ref p)"

text \<open>Canonical JSON exists for every value without floats that fp2 accepts.\<close>

fun float_free :: "json \<Rightarrow> bool" where
  "float_free (JFloat f) = False"
| "float_free (JArr ts) = (\<forall>t \<in> set ts. float_free t)"
| "float_free (JObj kts) = (\<forall>(k, t) \<in> set kts. float_free t)"
| "float_free _ = True"

lemma jcs_text_total: "float_free t \<Longrightarrow> fp2_ok t \<Longrightarrow> jcs_text t = Inr (canon t)"
proof (induction t)
  case (JArr ts)
  then have "traverse jcs_text ts = Inr (map canon ts)"
    by (auto simp: traverse_Inr_iff list_all2_map2 intro!: list.rel_refl_strong)
  then show ?case by (simp add: joined_commas)
next
  case (JObj kts)
  let ?member = "\<lambda>kt. rbind (jcs_text (snd kt)) (\<lambda>v. Inr (dump_string False (fst kt) @ U '':'' @ v))"
  have "?member kt = Inr (member_text kt)" if "kt \<in> set kts" for kt
    using JObj that by (fastforce simp: member_text_def dump_string_text snds.simps)
  then have "traverse ?member (sort_key (\<lambda>kt. utf16_be (fst kt)) kts) = Inr (map member_text (sorted_members kts))"
    by (auto simp: traverse_Inr_iff list_all2_map2 case_prod_beta' intro!: list.rel_refl_strong)
  moreover have "\<not> list_ex (\<lambda>kt. list_ex is_surrogate (fst kt)) kts"
    using JObj.prems(2) by (fastforce simp: list_ex_iff encodable_def)
  ultimately show ?case unfolding canon_JObj by (simp add: joined_commas) (simp add: U_def)
qed (auto simp: dump_string_text)

lemma jcs_text_float_free: "jcs_text t = Inr out \<Longrightarrow> float_free t"
proof (induction t arbitrary: out)
  case (JArr ts)
  then obtain texts where "traverse jcs_text ts = Inr texts" by (auto simp: rbind_Inr_iff)
  with JArr.IH show ?case using traverse_Inr_mem by fastforce
next
  case (JObj kts)
  then obtain texts where
    "traverse (\<lambda>kt. rbind (jcs_text (snd kt)) (\<lambda>v. Inr (dump_string False (fst kt) @ U '':'' @ v)))
       (sort_key (\<lambda>kt. utf16_be (fst kt)) kts) = Inr texts"
    by (auto simp: rbind_Inr_iff split: if_splits)
  with JObj.IH show ?case using traverse_Inr_mem by (fastforce simp: rbind_Inr_iff snds.simps)
qed auto

lemma escape_char_not_surrogate: "\<not> is_surrogate d \<Longrightarrow> c \<in> set (escape_char d) \<Longrightarrow> \<not> is_surrogate c"
  by (auto simp: escape_char_def is_surrogate_def hex_char_def split: if_splits)

lemma text_not_surrogate: "encodable s \<Longrightarrow> \<not> list_ex is_surrogate (string_text s)"
  using escape_char_not_surrogate
  by (fastforce simp: string_text_def encodable_def list_ex_iff is_surrogate_def [of 34])

lemma int_text_char: "c \<in> set (int_text i) \<Longrightarrow> \<not> is_surrogate c"
  by (auto simp: int_text_def digit_chars_def is_surrogate_def dest: nat_digits_small split: if_splits)

lemma canon_not_surrogate: "float_free t \<Longrightarrow> fp2_ok t \<Longrightarrow> c \<in> set (canon t) \<Longrightarrow> \<not> is_surrogate c"
proof (induction t)
  case (JStr s)
  then show ?case using text_not_surrogate by (auto simp: list_ex_iff)
next
  case (JArr ts)
  then have "c = 91 \<or> c = 93 \<or> c \<in> set (with_commas True (map canon ts))" by (auto simp: U_def)
  with JArr show ?case by (auto dest!: with_commas_chars simp: is_surrogate_def)
next
  case (JObj kts)
  then have "c = 123 \<or> c = 125 \<or> c \<in> set (with_commas True (map member_text (sorted_members kts)))"
    unfolding canon_JObj by auto
  then consider "c = 123 \<or> c = 125 \<or> c = 44" | kt where "kt \<in> set kts" "c \<in> set (member_text kt)"
    by (auto dest!: with_commas_chars)
  then show ?case
  proof cases
    case 2
    obtain k t where kt: "kt = (k, t)" by (cases kt)
    with 2 JObj.prems have "encodable k" "float_free t" "fp2_ok t" by auto
    moreover have "c \<in> set (string_text k) \<or> c = 58 \<or> c \<in> set (canon t)" using 2(2) kt by (auto simp: member_text_def U_def)
    ultimately show ?thesis using JObj.IH [of kt t] 2(1) kt text_not_surrogate [of k]
      by (auto simp: list_ex_iff is_surrogate_def [of 58] snds.simps)
  qed (auto simp: is_surrogate_def)
qed (auto simp: U_def is_surrogate_def dest: int_text_char split: if_splits)

lemma jcs_total: "float_free t \<Longrightarrow> fp2_ok t \<Longrightarrow> jcs t = Inr (utf8 (canon t))"
  using canon_not_surrogate [of t] by (auto simp: jcs_def jcs_text_total list_ex_iff)

text \<open>Enough bytes come out of the key derivation whenever the hash returns 32.\<close>

lemma hkdf_blocks_shared:
  "i \<le> 256 \<Longrightarrow> hkdf_expand (sha256 c) prk info len out block i = Inr okm \<Longrightarrow>
   label_hkdf_blocks c prk info len out block i = Inr okm"
proof (induction c prk info len out block i rule: label_hkdf_blocks.induct)
  case (1 c prk info len out block i)
  then show ?case
    by (subst label_hkdf_blocks.simps, subst (asm) (2) hkdf_expand.simps) (auto simp: Let_def split: if_splits)
qed

lemma label_hkdf_total:
  assumes "\<forall>x. length (sha256 c x) = 32" "len \<le> 8160"
  shows "\<exists>okm. label_hkdf_expand c prk info len = Inr okm"
proof -
  have "hkdf_expand (sha256 c) prk info len [] [] 1 = Inr (take len (hkdf_stream (sha256 c) prk info 255))"
    using hkdf_expand_stream [OF assms, of 0 prk info] by (simp add: hkdf_stream_def)
  then show ?thesis using hkdf_blocks_shared by (auto simp: label_hkdf_expand_def)
qed

text \<open>With such a hash and an exchange that never returns zeros, nothing in HPKE refuses.\<close>

definition exchange_ok :: "crypto \<Rightarrow> byte list \<Rightarrow> bool" where
  "exchange_ok c pk \<longleftrightarrow> (\<forall>sk. \<exists>s. x_exchange c sk pk = Some s \<and> s \<noteq> replicate 32 0)"

lemma le_total: "\<forall>x. length (sha256 c x) = 32 \<Longrightarrow> len \<le> 8160 \<Longrightarrow> \<exists>okm. le c suite prk label info len = Inr okm"
  using label_hkdf_total by (simp add: le_def)

lemma hpke_seal_total:
  assumes H: "\<forall>x. length (sha256 c x) = 32" and "exchange_ok c pk"
  shows "\<exists>enc ct. hpke_seal c pk info aad plaintext ikm_e AEAD_AES256 = Inr (enc, ct)"
proof -
  obtain sk_e where sk: "derive_keypair c ikm_e = Inr (sk_e, x_public c sk_e)"
    using le_total [OF H, of 32 KEM_SUITE "lx c KEM_SUITE [] ''dkp_prk'' ikm_e" "''sk''" "[]"]
    by (auto simp: derive_keypair_def Let_def)
  obtain s where s: "dh c sk_e pk = Inr s"
  proof -
    obtain s where "x_exchange c sk_e pk = Some s" "s \<noteq> replicate 32 0" using assms(2) exchange_ok_def by blast
    then have "dh c sk_e pk = Inr s" by (simp add: dh_def)
    then show ?thesis by (rule that)
  qed
  obtain shared where x: "extract_and_expand c s (x_public c sk_e @ pk) = Inr shared"
    using le_total [OF H, of 32 KEM_SUITE "lx c KEM_SUITE [] ''eae_prk'' s" "''shared_secret''" "x_public c sk_e @ pk"]
    by (auto simp: extract_and_expand_def Let_def)
  let ?suite = "utf8 (U ''HPKE'') @ i2osp KEM_ID 2 @ i2osp KDF_ID 2 @ i2osp AEAD_AES256 2"
  let ?ctx = "0 # lx c ?suite [] ''psk_id_hash'' [] @ lx c ?suite [] ''info_hash'' info"
  let ?secret = "lx c ?suite shared ''secret'' []"
  obtain key where key: "le c ?suite ?secret ''key'' ?ctx 32 = Inr key"
    using le_total [OF H, of 32 ?suite ?secret "''key''" ?ctx] by auto
  obtain nonce where nonce: "le c ?suite ?secret ''base_nonce'' ?ctx NN = Inr nonce"
    using le_total [OF H, of NN ?suite ?secret "''base_nonce''" ?ctx] by (auto simp: NN_def)
  have "key_schedule c AEAD_AES256 shared info = Inr (AesGcm, key, nonce)"
    using key nonce by (simp add: key_schedule_def Let_def AEAD_TABLE_def AEAD_AES256_def)
  with sk s x show ?thesis by (simp add: hpke_seal_def)
qed

section \<open>Properties\<close>

text \<open>
  Unpadding inverts padding and accepts nothing else: a padded text has exactly one bucket
  and filler.
\<close>

theorem unpad_iff: "unpad p = Inr s \<longleftrightarrow> pad s = Inr p \<and> list_all valid_cp s"
proof -
  have "(\<forall>c \<in> set s. scalar_cp c) \<longleftrightarrow> \<not> list_ex is_surrogate s \<and> list_all valid_cp s"
    by (auto simp: scalar_cp_def list_ex_iff list_all_iff)
  moreover have "length (utf8 s) \<le> 255" if "smallest_bucket (length (utf8 s)) = Some b" for b
    using that by (auto simp: smallest_bucket_iff)
  ultimately show ?thesis unfolding unpad_Inr pad_Inr by blast
qed

text \<open>
  C24: A label sealed for a place opens, with the private key and for the same place, to the
  label: through padding, canonical JSON, HPKE base mode and base64url, for every X25519 and
  AES-GCM that keep their documented promises.
\<close>

theorem sealed_label_opens:
  assumes "primitives_ok c" "length sk = 32" "list_all valid_cp label"
    and "seal_label c (x_public c sk) label place key_epoch revision ikm_e = Inr envelope"
  shows "open_label c sk envelope place revision = Inr label"
proof -
  from assms(4) obtain aad padded enc ct where s: "label_aad place (JInt key_epoch) revision = Inr aad" "pad label = Inr padded"
    "hpke_seal c (x_public c sk) HPKE_INFO_LABEL aad padded ikm_e AEAD_AES256 = Inr (enc, ct)"
    "envelope = JObj [(U ''version'', JInt LABEL_VERSION), (U ''key_epoch'', JInt key_epoch),
       (U ''enc'', JStr (b64u enc)), (U ''ciphertext'', JStr (b64u ct))]"
    by (auto simp: seal_label_def rbind_Inr_iff)
  have "unpad padded = Inr label"
    using assms(3) s(2) by (auto simp: pad_Inr unpad_Inr scalar_cp_def list_all_iff list_ex_iff)
  with hpke_opens [OF assms(1,2) s(3)] s(1) show ?thesis
    unfolding s(4) by (simp add: open_label_def refuse_if_def get_member_Cons)
qed

theorem wraps_open:
  assumes "primitives_ok c" "length sk = 32" "length key = 32"
    and "wrap_to_member c key (x_public c sk) tenant project epoch ikm_e = Inr wrap"
  shows "unwrap_from_member c sk wrap tenant project = Inr key"
proof -
  from assms(4) obtain info enc ct where
    w: "member_wrap_info tenant project (JInt epoch) (JStr (public_key_id c (x_public c sk))) = Inr info"
    "hpke_seal c (x_public c sk) info [] key ikm_e AEAD_AES256 = Inr (enc, ct)"
    "wrap = JObj [(U ''version'', JInt LABEL_VERSION), (U ''epoch'', JInt epoch),
       (U ''recipient_key_id'', JStr (public_key_id c (x_public c sk))), (U ''enc'', JStr (b64u enc)),
       (U ''ciphertext'', JStr (b64u ct))]"
    by (auto simp: wrap_to_member_def Let_def rbind_Inr_iff)
  from hpke_opens [OF assms(1,2) w(2)] w(1) assms(3) show ?thesis
    unfolding w(3) by (simp add: unwrap_from_member_def refuse_if_def get_member_Cons)
qed

lemma hkdf_32: "label_hkdf c ikm info = Inr key \<Longrightarrow> length key = 32"
  by (auto simp: label_hkdf_def dest: hkdf_expand_length)

text \<open>
  A recovery wrap opens, with the recovery secret and for the same tenant and project, to
  the wrapped key.
\<close>

theorem recovery_wrap_opens:
  assumes "primitives_ok c"
    and "recovery_wrap c secret key tenant project epoch nonce subject = Inr wrap"
  shows "recovery_unwrap c secret wrap tenant project = Inr key"
proof -
  from assms(2) obtain k aad where k: "length nonce = 12" "label_hkdf c secret RECOVERY_INFO = Inr k"
    "recovery_aad tenant project (JInt epoch) (JStr subject) = Inr aad"
    "wrap = JObj [(U ''version'', JInt LABEL_VERSION), (U ''epoch'', JInt epoch), (U ''subject'', JStr subject),
       (U ''nonce'', JStr (b64u nonce)), (U ''ciphertext'', JStr (b64u (aead_encrypt c AesGcm k nonce key aad)))]"
    by (auto simp: recovery_wrap_def refuse_if_def Let_def rbind_Inr_iff)
  have "aead_decrypt c AesGcm k nonce (aead_encrypt c AesGcm k nonce key aad) aad = Opened key"
    using assms(1) k(1) hkdf_32 [OF k(2)] by (simp add: primitives_ok_def)
  then show ?thesis unfolding k(4) by (simp add: recovery_unwrap_def k(2,3) get_member_Cons aead_open_def)
qed

theorem local_wrap_opens:
  assumes "primitives_ok c" "length nonce = 12"
    and "local_wrap c ikm key tenant member_key_id nonce = Inr wrap"
  shows "local_unwrap c ikm wrap tenant member_key_id = Inr key"
proof -
  from assms(3) obtain k aad where k: "label_hkdf c ikm LOCAL_INFO = Inr k" "local_aad tenant member_key_id = Inr aad"
    "wrap = JObj [(U ''nonce'', JStr (b64u nonce)), (U ''ciphertext'', JStr (b64u (aead_encrypt c AesGcm k nonce key aad)))]"
    by (auto simp: local_wrap_def Let_def rbind_Inr_iff)
  have "aead_decrypt c AesGcm k nonce (aead_encrypt c AesGcm k nonce key aad) aad = Opened key"
    using assms(1,2) hkdf_32 [OF k(1)] by (simp add: primitives_ok_def)
  then show ?thesis unfolding k(3) by (simp add: local_unwrap_def k(1,2) get_member_Cons aead_open_def)
qed

text \<open>Packing and unpacking.\<close>

text \<open>
  Unpacking returns four parts exactly if the blob is what packing those parts, of the
  supported version and admissible lengths, gives.
\<close>

theorem unpack_envelope_iff:
  "unpack_envelope blob = Inr (version, epoch, enc, ct) \<longleftrightarrow>
   version = LABEL_VERSION \<and> length enc = 32 \<and> 48 \<le> length ct \<and> pack_envelope version epoch enc ct = Inr blob"
proof
  assume u: "unpack_envelope blob = Inr (version, epoch, enc, ct)"
  then have l: "85 \<le> length blob" and v: "version = int (unat (hd blob))" "version = LABEL_VERSION"
    and e: "epoch = int (os2ip (take 4 (drop 1 blob)))" "enc = take 32 (drop 5 blob)" "ct = drop 37 blob"
    by (auto simp: unpack_envelope_def Let_def split: if_splits)
  have "length (take 4 (drop 1 blob)) = 4" using l by simp
  then have i: "i2osp (nat epoch) 4 = take 4 (drop 1 blob)" "epoch < 2 ^ 32"
    using i2osp_os2ip [of "take 4 (drop 1 blob)"] os2ip_bound [of "take 4 (drop 1 blob)"] e(1) by simp_all
  have "blob = hd blob # drop 1 blob" using l by (cases blob) auto
  also have "drop 1 blob = take 4 (drop 1 blob) @ take 32 (drop 5 blob) @ drop 37 blob"
  proof -
    have "drop 5 blob = drop 4 (drop 1 blob)" "drop 37 blob = drop 32 (drop 5 blob)" by simp_all
    then show ?thesis by (metis append_take_drop_id)
  qed
  finally have "byte_of (nat version) # i2osp (nat epoch) 4 @ enc @ ct = blob"
    using v(1) e i(1) by (simp add: v(1))
  moreover have "0 \<le> version" "version < 256" "0 \<le> epoch" using v(2) e(1) by (simp_all add: LABEL_VERSION_def)
  ultimately show "version = LABEL_VERSION \<and> length enc = 32 \<and> 48 \<le> length ct \<and> pack_envelope version epoch enc ct = Inr blob"
    using l v(2) e(2,3) i(2) by (simp add: pack_envelope_def)
next
  assume a: "version = LABEL_VERSION \<and> length enc = 32 \<and> 48 \<le> length ct \<and> pack_envelope version epoch enc ct = Inr blob"
  then have e: "0 \<le> epoch" "epoch < 2 ^ 32" "blob = 1 # i2osp (nat epoch) 4 @ enc @ ct"
    by (auto simp: pack_envelope_def LABEL_VERSION_def byte_of_def split: if_splits)
  have "nat epoch < 256 ^ 4" using e(1,2) by (simp add: nat_less_iff)
  with a e show "unpack_envelope blob = Inr (version, epoch, enc, ct)"
    by (simp add: unpack_envelope_def Let_def LABEL_VERSION_def os2ip_i2osp)
qed

text \<open>
  The authenticated data of two labels are equal only if tenant, project, purpose, object,
  key epoch and revision are, so an envelope cannot be moved.
\<close>

theorem label_aad_binds:
  assumes "label_aad p (JInt e) r = Inr aad" "label_aad p' (JInt e') r' = Inr aad"
    and "wf_place p" "wf_place p'" "list_all safe_int [e, r, e', r']"
  shows "p = p' \<and> e = e' \<and> r = r'"
proof -
  let ?m = "\<lambda>(p :: label_place) e r. [(U ''schema_version'', JInt LABEL_VERSION), (U ''tenant_ref'', JStr (tenant_ref p)),
    (U ''project_ref'', JStr (project_ref p)), (U ''purpose'', JStr (purpose p)),
    (U ''object_ref'', JStr (object_ref p)), (U ''key_epoch'', JInt e), (U ''revision'', JInt r)]"
  have eq: "map_option norm (map_of (?m p e r) k) = map_option norm (map_of (?m p' e' r') k)" for k
    by (rule jcs_members [OF assms(1,2) [unfolded label_aad_def]])
      (use assms(3-5) in \<open>simp_all add: wf_place_def safe_int_def LABEL_VERSION_def MAX_SAFE_INTEGER_def\<close>)
  have "tenant_ref p = tenant_ref p'" using eq [of "U ''tenant_ref''"] by simp
  moreover have "project_ref p = project_ref p'" using eq [of "U ''project_ref''"] by simp
  moreover have "purpose p = purpose p'" using eq [of "U ''purpose''"] by simp
  moreover have "object_ref p = object_ref p'" using eq [of "U ''object_ref''"] by simp
  moreover have "e = e'"
    using eq [of "U ''key_epoch''"] assms(5) norm_JInt_inject [of e e'] by (simp add: safe_int_def del: norm.simps)
  moreover have "r = r'"
    using eq [of "U ''revision''"] assms(5) norm_JInt_inject [of r r'] by (simp add: safe_int_def del: norm.simps)
  ultimately show ?thesis by simp
qed

lemma jcs_members_total:
  assumes "list_all (\<lambda>kt. encodable (fst kt) \<and> fp2_ok (snd kt) \<and> float_free (snd kt)) kts"
  shows "\<exists>b. jcs (JObj kts) = Inr b"
  using jcs_total [of "JObj kts"] assms by (fastforce simp: list_all_iff)

definition encodable_place :: "label_place \<Rightarrow> bool" where
  "encodable_place p \<longleftrightarrow>
     encodable (tenant_ref p) \<and> encodable (project_ref p) \<and> encodable (purpose p) \<and> encodable (object_ref p)"

lemma label_aad_total:
  assumes "encodable_place place" "safe_int e" "safe_int r"
  shows "\<exists>aad. label_aad place (JInt e) r = Inr aad"
  unfolding label_aad_def
  by (rule jcs_members_total)
    (use assms in \<open>simp add: encodable_place_def safe_int_def LABEL_VERSION_def MAX_SAFE_INTEGER_def\<close>)

lemma pad_total:
  assumes "encodable s" "length (utf8 s) \<le> 255"
  shows "\<exists>p. pad s = Inr p"
proof -
  have "\<exists>bucket. smallest_bucket (length (utf8 s)) = Some bucket"
    using assms(2) by (simp add: smallest_bucket_def BUCKETS_def)
  with assms show ?thesis unfolding pad_Inr by (auto simp: encodable_def list_ex_iff)
qed

text \<open>
  Sealing produces an envelope exactly if the label can be encoded and takes at most 255
  bytes; nothing else in key derivation, key schedule or padding gets stuck.
\<close>

theorem seal_label_iff:
  assumes "\<forall>x. length (sha256 c x) = 32" "exchange_ok c pk"
    and "encodable_place place" "safe_int key_epoch" "safe_int revision"
  shows "(\<exists>envelope. seal_label c pk label place key_epoch revision ikm_e = Inr envelope) \<longleftrightarrow>
    encodable label \<and> length (utf8 label) \<le> 255"
proof
  assume "encodable label \<and> length (utf8 label) \<le> 255"
  then obtain p where "pad label = Inr p" using pad_total by blast
  moreover obtain aad where "label_aad place (JInt key_epoch) revision = Inr aad" using label_aad_total assms(3-5) by blast
  moreover obtain enc ct where "hpke_seal c pk HPKE_INFO_LABEL aad p ikm_e AEAD_AES256 = Inr (enc, ct)"
    using hpke_seal_total [OF assms(1,2)] by blast
  ultimately show "\<exists>envelope. seal_label c pk label place key_epoch revision ikm_e = Inr envelope"
    by (simp add: seal_label_def)
qed (auto simp: seal_label_def rbind_Inr_iff pad_Inr encodable_def list_ex_iff)

text \<open>
  On values with safe integers the canonical JSON of the label reference succeeds exactly on
  the float-free values fp2 accepts, with the bytes fp2 gives.
\<close>

theorem jcs_agrees_with_fp2:
  assumes "ints_safe t"
  shows "jcs t = Inr bs \<longleftrightarrow> float_free t \<and> fp2_ok t \<and> bs = utf8 (canon t)"
  using jcs_canon [OF _ assms] jcs_total jcs_text_float_free by (fastforce simp: jcs_def rbind_Inr_iff)

section \<open>Witnesses\<close>

text \<open>Primitives that keep their promises, on which a concrete label is sealed and opened.\<close>

definition demo_crypto :: crypto where
  "demo_crypto =
     \<lparr>sha256 = \<lambda>x. replicate 32 7, x_public = \<lambda>sk. sk, x_exchange = \<lambda>a b. Some [1],
      aead_encrypt = \<lambda>_ k n p ad. rev p, aead_decrypt = \<lambda>_ k n ct ad. Opened (rev ct),
      ed_public = \<lambda>sk. sk, ed_loads = \<lambda>pk. True,
      ed_sign = \<lambda>sk msg. sk @ msg, ed_verify = \<lambda>pk msg sig. sig = pk @ msg\<rparr>"

lemma demo_crypto_ok:
  "primitives_ok demo_crypto" "exchange_ok demo_crypto pk" "\<forall>x. length (sha256 demo_crypto x) = 32"
  by (simp_all add: primitives_ok_def exchange_ok_def demo_crypto_def numeral_eq_Suc)

definition demo_place :: label_place where
  "demo_place = \<lparr>tenant_ref = U ''t1'', project_ref = U ''p1'', purpose = U ''name'', object_ref = U ''o1''\<rparr>"

lemma demo_place_ok: "encodable_place demo_place" "wf_place demo_place" "safe_int 3" "safe_int 1"
  by (simp_all add: encodable_place_def demo_place_def wf_place_def safe_int_def MAX_SAFE_INTEGER_def)

lemma seal_label_iff_witness:
  "(\<exists>envelope. seal_label demo_crypto (replicate 32 7) (U ''hi'') demo_place 3 1 [1] = Inr envelope) \<and>
   \<not> (\<exists>envelope. seal_label demo_crypto (replicate 32 7) (replicate 256 97) demo_place 3 1 [1] = Inr envelope)"
proof -
  note iff = seal_label_iff [OF demo_crypto_ok(3,2) demo_place_ok(1,3,4)]
  have "length (utf8 (U ''hi'')) \<le> 255" by (simp add: utf8_def utf8_cp_def U_Cons)
  moreover have "length (utf8 (replicate 256 97)) = 256" using utf8_less_128 [of "replicate 256 97"] by simp
  ultimately show ?thesis unfolding iff by simp
qed

lemma jcs_agrees_with_fp2_witness:
  "jcs (JArr [JInt 3]) = Inr (utf8 (canon (JArr [JInt 3])))"
  using jcs_agrees_with_fp2 [of "JArr [JInt 3]" "utf8 (canon (JArr [JInt 3]))"] by (simp add: MAX_SAFE_INTEGER_def)

lemma demo_sealed: "\<exists>envelope. seal_label demo_crypto (replicate 32 7) (U ''hi'') demo_place 3 1 [1] = Inr envelope"
proof -
  obtain p where "pad (U ''hi'') = Inr p"
    using pad_total [OF encodable_U, of "''hi''"] by (simp add: utf8_def utf8_cp_def U_Cons) blast
  moreover obtain aad where "label_aad demo_place (JInt 3) 1 = Inr aad" using label_aad_total demo_place_ok by blast
  moreover obtain enc ct where "hpke_seal demo_crypto (replicate 32 7) HPKE_INFO_LABEL aad p [1] AEAD_AES256 = Inr (enc, ct)"
    using hpke_seal_total [OF demo_crypto_ok(3,2)] by blast
  ultimately show ?thesis by (simp add: seal_label_def)
qed

lemma sealed_label_opens_witness:
  "\<exists>envelope. seal_label demo_crypto (replicate 32 7) (U ''hi'') demo_place 3 1 [1] = Inr envelope \<and>
     open_label demo_crypto (replicate 32 7) envelope demo_place 1 = Inr (U ''hi'')"
proof -
  obtain envelope where e: "seal_label demo_crypto (replicate 32 7) (U ''hi'') demo_place 3 1 [1] = Inr envelope"
    using demo_sealed by blast
  have "x_public demo_crypto (replicate 32 7) = replicate 32 7" by (simp add: demo_crypto_def)
  then have "seal_label demo_crypto (x_public demo_crypto (replicate 32 7)) (U ''hi'') demo_place 3 1 [1] = Inr envelope"
    using e by simp
  from sealed_label_opens [OF demo_crypto_ok(1) _ _ this] e show ?thesis by (simp add: U_Cons valid_cp_def)
qed

lemma label_aad_binds_witness:
  "\<exists>aad. label_aad demo_place (JInt 3) 1 = Inr aad \<and>
     label_aad (demo_place\<lparr>object_ref := U ''o1''\<rparr>) (JInt (1 + 2)) 1 = Inr aad \<and>
     demo_place = demo_place\<lparr>object_ref := U ''o1''\<rparr>"
proof -
  obtain aad where a: "label_aad demo_place (JInt 3) 1 = Inr aad" using label_aad_total demo_place_ok by blast
  have b: "label_aad (demo_place\<lparr>object_ref := U ''o1''\<rparr>) (JInt (1 + 2)) 1 = Inr aad" using a by (simp add: demo_place_def)
  have w: "wf_place (demo_place\<lparr>object_ref := U ''o1''\<rparr>)" by (simp add: wf_place_def demo_place_def)
  have i: "list_all safe_int [3, 1, 1 + 2, 1]" by (simp add: safe_int_def MAX_SAFE_INTEGER_def)
  from label_aad_binds [OF a b demo_place_ok(2) w i] a b show ?thesis by blast
qed

lemma recovery_wrap_opens_witness:
  "\<exists>wrap. recovery_wrap demo_crypto (replicate 32 1) [5, 6] (U ''t'') (U ''p'') 2 (replicate 12 0) (U ''root_key'') = Inr wrap \<and>
     recovery_unwrap demo_crypto (replicate 32 1) wrap (U ''t'') (U ''p'') = Inr [5, 6]"
proof -
  obtain k where "label_hkdf demo_crypto (replicate 32 1) RECOVERY_INFO = Inr k"
    using label_hkdf_total [OF demo_crypto_ok(3)] by (fastforce simp: label_hkdf_def)
  moreover have "\<exists>aad. recovery_aad (U ''t'') (U ''p'') (JInt 2) (JStr (U ''root_key'')) = Inr aad"
    unfolding recovery_aad_def refuse_if_def
    by (simp add: RECOVERY_SUBJECTS_def, rule jcs_members_total) (simp add: LABEL_VERSION_def MAX_SAFE_INTEGER_def)
  ultimately obtain wrap where
    w: "recovery_wrap demo_crypto (replicate 32 1) [5, 6] (U ''t'') (U ''p'') 2 (replicate 12 0) (U ''root_key'') = Inr wrap"
    by (auto simp: recovery_wrap_def refuse_if_def)
  from recovery_wrap_opens [OF demo_crypto_ok(1) w] w show ?thesis by blast
qed

end
