(* ===== verification/PyEq.thy ===== *)
theory PyEq
  imports JsonText Identity
begin

text \<open>
  Python's \<open>==\<close> on parsed JSON is an equivalence, coarser than equality of canonical text only in
  that \<open>True\<close> equals 1: values with the same canonical text are equal.
\<close>

section \<open>Equality is an equivalence\<close>

lemma py_eq_number: "num_value t = Some q \<Longrightarrow> py_eq t u \<longleftrightarrow> num_value u = Some q"
  by (induction t u rule: py_eq.induct) auto

lemma num_value_cases:
  obtains (number) q where "num_value t = Some q"
  | (other) "num_value t = None" "t = JNull \<or> (\<exists>s. t = JStr s) \<or> (\<exists>ts. t = JArr ts) \<or> (\<exists>kts. t = JObj kts) \<or>
      (\<exists>neg. t = JFloat (FInf neg)) \<or> t = JFloat FNaN"
proof (cases t)
  case (JFloat f)
  with that show ?thesis by (cases f) auto
qed (use that in auto)

lemma py_eq_JObj:
  "py_eq (JObj kts) u \<longleftrightarrow>
   (\<exists>kus. u = JObj kus \<and> length kts = length kus \<and>
      (\<forall>kt \<in> set kts. \<exists>v. map_of kus (fst kt) = Some v \<and> py_eq (snd kt) v))"
  by (cases u) (auto simp: list_all_iff split: option.splits; fastforce)+

lemma py_eq_JArr: "py_eq (JArr ts) u \<longleftrightarrow> (\<exists>us. u = JArr us \<and> list_all2 py_eq ts us)"
  by (cases u) (auto simp: list_all2_iff list_all_iff)

lemma keys_covered:
  assumes "distinct (map fst kts)" "length kts = length kus" "fst ` set kts \<subseteq> fst ` set kus"
  shows "fst ` set kts = fst ` set kus"
proof (rule card_subset_eq [OF _ assms(3)])
  have "card (fst ` set kts) = length kts" using assms(1) distinct_card [of "map fst kts"] by simp
  moreover have "card (fst ` set kus) \<le> length kus" by (metis card_length length_map list.set_map)
  moreover have "card (fst ` set kts) \<le> card (fst ` set kus)" by (rule card_mono) (use assms(3) in auto)
  ultimately show "card (fst ` set kts) = card (fst ` set kus)" using assms(2) by simp
qed simp

lemma py_eq_sym: "py_eq t u \<Longrightarrow> plain_json t \<Longrightarrow> plain_json u \<Longrightarrow> py_eq u t"
proof (induction t arbitrary: u)
  case (JArr ts)
  then obtain us where u: "u = JArr us" "list_all2 py_eq ts us" unfolding py_eq_JArr by blast
  have p: "\<forall>t \<in> set ts. plain_json t" "\<forall>t \<in> set us. plain_json t" using JArr.prems u(1) by simp_all
  have "list_all2 py_eq us ts"
    unfolding list_all2_conv_all_nth
  proof (intro conjI allI impI)
    fix i assume i: "i < length us"
    with u(2) have "i < length ts" "py_eq (ts ! i) (us ! i)" by (simp_all add: list_all2_conv_all_nth)
    with p i show "py_eq (us ! i) (ts ! i)" using JArr.IH [of "ts ! i" "us ! i"] by simp
  qed (use u(2) in \<open>simp add: list_all2_lengthD\<close>)
  then show ?case unfolding u(1) py_eq_JArr by blast
next
  case (JObj kts)
  then obtain kus where u: "u = JObj kus" "length kts = length kus"
    and eq: "\<forall>kt \<in> set kts. \<exists>v. map_of kus (fst kt) = Some v \<and> py_eq (snd kt) v" unfolding py_eq_JObj by blast
  have d: "distinct (map fst kts)" "distinct (map fst kus)" using JObj.prems u(1) by auto
  have "fst ` set kts \<subseteq> fst ` set kus" using eq by (force dest: map_of_SomeD)
  then have keys: "fst ` set kts = fst ` set kus" using keys_covered [OF d(1) u(2)] by blast
  have "\<exists>v. map_of kts (fst ku) = Some v \<and> py_eq (snd ku) v" if ku: "ku \<in> set kus" for ku
  proof -
    from keys ku obtain kt where kt: "kt \<in> set kts" "fst kt = fst ku" by (metis image_iff)
    obtain v where v: "map_of kus (fst kt) = Some v" "py_eq (snd kt) v" using eq kt(1) by blast
    have "v = snd ku" using v(1) kt(2) ku d(2) by (metis map_of_eq_Some_iff option.inject prod.collapse)
    then have "py_eq (snd ku) (snd kt)"
      using JObj.IH [of kt "snd kt" "snd ku"] kt(1) v(2) JObj.prems(2,3) u(1) ku by (auto simp: snds.simps)
    moreover have "map_of kts (fst ku) = Some (snd kt)" using kt d(1) by (metis map_of_eq_Some_iff prod.collapse)
    ultimately show ?thesis by blast
  qed
  then show ?case using u(2) unfolding u(1) py_eq_JObj by metis
next
  case (JBool b)
  then show ?case using py_eq_number [of "JBool b"] py_eq_number [of u] by auto
next
  case (JInt i)
  then show ?case using py_eq_number [of "JInt i"] py_eq_number [of u] by auto
next
  case (JFloat f)
  then show ?case using py_eq_number [of "JFloat f"] py_eq_number [of u] by (cases f) auto
qed auto

lemma py_eq_trans: "py_eq t u \<Longrightarrow> py_eq u v \<Longrightarrow> py_eq t v"
proof (induction t arbitrary: u v)
  case (JArr ts)
  obtain us where u: "u = JArr us" "list_all2 py_eq ts us" using JArr.prems(1) unfolding py_eq_JArr by blast
  obtain vs where v: "v = JArr vs" "list_all2 py_eq us vs" using JArr.prems(2) unfolding u(1) py_eq_JArr by blast
  have "list_all2 py_eq ts vs"
    unfolding list_all2_conv_all_nth
  proof (intro conjI allI impI)
    fix i assume i: "i < length ts"
    with u(2) v(2) have "py_eq (ts ! i) (us ! i)" "py_eq (us ! i) (vs ! i)" by (simp_all add: list_all2_conv_all_nth)
    with i show "py_eq (ts ! i) (vs ! i)" using JArr.IH [of "ts ! i" "us ! i" "vs ! i"] by simp
  qed (use u(2) v(2) in \<open>simp add: list_all2_lengthD\<close>)
  then show ?case unfolding v(1) py_eq_JArr by blast
next
  case (JObj kts)
  obtain kus where u: "u = JObj kus" "length kts = length kus"
    and t: "\<forall>kt \<in> set kts. \<exists>v. map_of kus (fst kt) = Some v \<and> py_eq (snd kt) v"
    using JObj.prems(1) unfolding py_eq_JObj by blast
  obtain kvs where v: "v = JObj kvs" "length kus = length kvs"
    and uv: "\<forall>kt \<in> set kus. \<exists>v. map_of kvs (fst kt) = Some v \<and> py_eq (snd kt) v"
    using JObj.prems(2) unfolding u(1) py_eq_JObj by blast
  have "\<exists>w. map_of kvs (fst kt) = Some w \<and> py_eq (snd kt) w" if kt: "kt \<in> set kts" for kt
  proof -
    obtain x where x: "map_of kus (fst kt) = Some x" "py_eq (snd kt) x" using t kt by blast
    then obtain w where "map_of kvs (fst kt) = Some w" "py_eq x w" using uv by (fastforce dest: map_of_SomeD)
    moreover have "py_eq (snd kt) w" using JObj.IH [of kt "snd kt" x w] kt x(2) calculation(2) by (auto simp: snds.simps)
    ultimately show ?thesis by blast
  qed
  then show ?case using u(2) v(2) unfolding v(1) py_eq_JObj by simp
next
  case (JBool b)
  then show ?case using py_eq_number [of "JBool b"] py_eq_number [of u] by auto
next
  case (JInt i)
  then show ?case using py_eq_number [of "JInt i"] py_eq_number [of u] by auto
next
  case (JFloat f)
  then show ?case using py_eq_number [of "JFloat f"] py_eq_number [of u] by (cases f) auto
qed auto

lemma py_eq_JStr [simp]: "py_eq t (JStr s) \<longleftrightarrow> t = JStr s"
proof (cases t rule: num_value_cases)
  case (number q)
  then show ?thesis using py_eq_number [OF number, of "JStr s"] by auto
qed auto

lemma py_eq_JNull [simp]: "py_eq t JNull \<longleftrightarrow> t = JNull"
proof (cases t rule: num_value_cases)
  case (number q)
  then show ?thesis using py_eq_number [OF number, of JNull] by auto
qed auto

section \<open>The same canonical text\<close>

lemma dec_value_padded: "dec_value ds n = dec_value (ds @ replicate b 0) n"
proof -
  have p: "digits_nat (ds @ replicate b 0) = digits_nat ds * 10 ^ b" for b
    by (induction b) (simp_all add: replicate_append_same [symmetric] digits_nat_snoc flip: append_assoc)
  let ?e = "n - int (length ds)"
  show ?thesis
  proof (cases "int b \<le> ?e")
    case True
    then have "nat ?e = b + nat (?e - int b)" by simp
    then have "(10 :: rat) ^ nat ?e = 10 ^ b * 10 ^ nat (?e - int b)" by (metis power_add)
    with True show ?thesis by (simp add: dec_value_def Let_def p algebra_simps)
  next
    case False
    show ?thesis
    proof (cases "0 \<le> ?e")
      case True
      then have "b = nat ?e + nat (int b - ?e)" using False by simp
      then have "(10 :: rat) ^ b = 10 ^ nat ?e * 10 ^ nat (int b - ?e)" by (metis power_add)
      with True False show ?thesis by (simp add: dec_value_def Let_def p algebra_simps)
    next
      case neg: False
      then have "nat (int b - ?e) = b + nat (- ?e)" by simp
      then have "(10 :: rat) ^ nat (int b - ?e) = 10 ^ b * 10 ^ nat (- ?e)" by (metis power_add)
      with neg False show ?thesis by (simp add: dec_value_def Let_def p algebra_simps)
    qed
  qed
qed

lemma num_value_int_float: "num_value (JFloat (int_float i)) = Some (of_int i)"
proof (cases "i = 0")
  case False
  then obtain ds b where f: "int_float i = FDec (i < 0) ds (int (length (nat_digits (nat \<bar>i\<bar>))))"
    and d: "nat_digits (nat \<bar>i\<bar>) = ds @ replicate b 0"
    using int_float_wf by blast
  have "dec_value ds (int (length (nat_digits (nat \<bar>i\<bar>)))) = dec_value (nat_digits (nat \<bar>i\<bar>)) (int (length (nat_digits (nat \<bar>i\<bar>))))"
    unfolding d by (rule dec_value_padded)
  also have "\<dots> = of_nat (nat \<bar>i\<bar>)" by (simp add: dec_value_def)
  finally have "dec_value ds (int (length (nat_digits (nat \<bar>i\<bar>)))) = of_int \<bar>i\<bar>" by (simp add: of_nat_nat)
  then show ?thesis using False by (simp only: f num_value.simps) simp
qed (simp add: int_float_def)

lemma num_value_norm: "(\<And>b. t \<noteq> JBool b) \<Longrightarrow> num_value (norm t) = num_value t"
proof (cases t)
  case (JInt i)
  then show ?thesis using num_value_int_float by simp
next
  case (JFloat f)
  then show ?thesis by (cases f) auto
qed auto

lemma norm_of_number: "num_value t = Some q \<Longrightarrow> (\<exists>b. norm t = JBool b \<and> t = JBool b) \<or> (\<exists>f. norm t = JFloat f)"
proof (cases t)
  case (JFloat f)
  then show ?thesis by (cases f) auto
qed auto

lemma norm_py_eq: "norm t = norm u \<Longrightarrow> plain_json t \<Longrightarrow> plain_json u \<Longrightarrow> py_eq t u"
proof (induction t arbitrary: u)
  case (JArr ts)
  from JArr.prems(1) obtain us where u: "u = JArr us" "map norm ts = map norm us"
    by (cases u rule: norm.cases) auto
  then have "list_all2 py_eq ts us"
    using JArr by (auto simp: list_all2_conv_all_nth list_eq_iff_nth_eq)
  then show ?case unfolding u(1) py_eq_JArr by blast
next
  case (JObj kts)
  from JObj.prems(1) obtain kus where u: "u = JObj kus" by (cases u rule: norm.cases) auto
  have d: "distinct (map fst kts)" "distinct (map fst kus)" using JObj.prems u by auto
  note m = map_of_norm_JObj [OF JObj.prems(1) [unfolded u] d]
  have "length (sort_key (\<lambda>(k, t). utf16_be k) (map (\<lambda>(k, t). (k, norm t)) kts)) =
      length (sort_key (\<lambda>(k, t). utf16_be k) (map (\<lambda>(k, t). (k, norm t)) kus))"
    using JObj.prems(1) unfolding u norm.simps json.inject by simp
  then have "length kts = length kus" by simp
  moreover have "\<exists>v. map_of kus (fst kt) = Some v \<and> py_eq (snd kt) v" if kt: "kt \<in> set kts" for kt
  proof -
    have "map_of kts (fst kt) = Some (snd kt)" using kt d(1) by (metis map_of_eq_Some_iff prod.collapse)
    then obtain v where v: "map_of kus (fst kt) = Some v" "norm (snd kt) = norm v"
      using m [of "fst kt"] by (cases "map_of kus (fst kt)") auto
    then have "(fst kt, v) \<in> set kus" by (simp add: map_of_SomeD)
    then have "py_eq (snd kt) v" using JObj.IH [of kt "snd kt" v] kt v(2) JObj.prems(2,3) u by (auto simp: snds.simps)
    with v(1) show ?thesis by blast
  qed
  ultimately show ?case unfolding u py_eq_JObj by blast
next
  case (JStr s)
  then show ?case by (cases u rule: norm.cases) auto
next
  case JNull
  then show ?case by (cases u rule: norm.cases) auto
next
  case (JBool b)
  then show ?case by (cases u rule: norm.cases) auto
next
  case (JInt i)
  then have n: "norm u = JFloat (int_float i)" by simp
  then have "u \<noteq> JBool b" for b by (cases u) auto
  then have "num_value u = Some (of_int i)" using num_value_norm [of u] num_value_int_float [of i] n by simp
  then show ?case using py_eq_number [of "JInt i"] by simp
next
  case (JFloat f)
  show ?case
  proof (cases "num_value (JFloat f)")
    case (Some q)
    then obtain g where g: "norm (JFloat f) = JFloat g" using norm_of_number [OF Some] by auto
    then have "u \<noteq> JBool b" for b using JFloat.prems(1) by (cases u) auto
    then have "num_value u = Some q"
      using num_value_norm [of u] num_value_norm [of "JFloat f"] JFloat.prems(1) Some by simp
    then show ?thesis using py_eq_number [OF Some] by simp
  next
    case None
    then obtain neg where f: "f = FInf neg" using JFloat.prems(2) by (cases f) simp_all
    then have "norm u = JFloat (FInf neg)" using JFloat.prems(1) by simp
    then have "u = JFloat (FInf neg)"
      by (cases u rule: norm.cases) (auto simp: int_float_def Let_def split: if_splits)
    with f show ?thesis by simp
  qed
qed

end
