(* ===== verification/LabelChain.thy ===== *)
theory LabelChain
  imports LabelLaws PyEq
begin

text \<open>
  Signed bindings of \<open>scripts/labels_reference.py\<close>: a body signed under its signer's key id, the
  root-signed list of revoked keys, and the chain root, admin, project key, member key. What
  \<open>datetime.fromisoformat\<close> makes of a text differs between the Python versions the package
  supports, so it is the parameter \<open>fromiso\<close>; instants are microseconds.
\<close>

section \<open>Bodies and signatures\<close>

definition root_fingerprint :: "crypto \<Rightarrow> byte list \<Rightarrow> ustr" where
  "root_fingerprint c public_key = hexdigest (sha256 c public_key)"

definition sign_body :: "crypto \<Rightarrow> byte list \<Rightarrow> json \<Rightarrow> label_error + ustr" where
  "sign_body c sk body = rbind (jcs body) (\<lambda>text. Inr (b64u (ed_sign c sk (BINDING_DOMAIN @ text))))"

definition verify_body :: "crypto \<Rightarrow> byte list \<Rightarrow> json \<Rightarrow> json \<Rightarrow> label_error + unit" where
  "verify_body c public_key body signature =
     rbind (raise_if (\<not> ed_loads c public_key) PyValueError) (\<lambda>_.
     rbind (unb64u signature) (\<lambda>raw.
     rbind (jcs body) (\<lambda>text.
       refuse_if (\<not> ed_verify c public_key (BINDING_DOMAIN @ text) raw) BadSignature)))"

text \<open>\<open>dict(body, key=value)\<close> is the library's \<open>AList.update\<close>.\<close>

definition make_binding :: "crypto \<Rightarrow> byte list \<Rightarrow> byte list \<Rightarrow> (ustr \<times> json) list \<Rightarrow> label_error + json" where
  "make_binding c signer_sk signer_pub body =
     (let body' = AList.update (U ''signer_key_id'') (JStr (public_key_id c signer_pub)) body in
      rbind (sign_body c signer_sk (JObj body')) (\<lambda>signature.
        Inr (JObj (AList.update (U ''signature'') (JStr signature) body'))))"

definition unsigned_body :: "json \<Rightarrow> json" where
  "unsigned_body binding = JObj (filter (\<lambda>kv. fst kv \<noteq> U ''signature'') (members binding))"

definition verify_binding :: "crypto \<Rightarrow> byte list \<Rightarrow> json \<Rightarrow> label_error + unit" where
  "verify_binding c signer_pub binding =
     rbind (raise_if (\<not> is_dict binding) PyAttributeError) (\<lambda>_.
       let body = unsigned_body binding in
       rbind (refuse_if (\<not> py_eq (get_member body ''signer_key_id'') (JStr (public_key_id c signer_pub))) SignerKeyIdMismatch) (\<lambda>_.
       rbind (key_of binding ''signature'') (verify_body c signer_pub body)))"

section \<open>Timestamps\<close>

datatype iso_time = Naive | Instant int

definition replace_Z :: "ustr \<Rightarrow> ustr" where
  "replace_Z text = concat (map (\<lambda>ch. if ch = 90 then U ''+00:00'' else [ch]) text)"

definition parse_ts :: "(ustr \<Rightarrow> iso_time option) \<Rightarrow> json \<Rightarrow> label_error + int" where
  "parse_ts fromiso text =
     (case text of
        JStr s \<Rightarrow>
          (case fromiso (replace_Z s) of
             None \<Rightarrow> Inl (Refused BadTimestamp)
           | Some Naive \<Rightarrow> Inl (Refused NoTimezone)
           | Some (Instant t) \<Rightarrow> Inr t)
      | _ \<Rightarrow> Inl (Refused BadTimestamp))"

section \<open>The binding list\<close>

text \<open>\<open>v < n\<close> for a number on the right; \<open>NaN\<close> is below nothing.\<close>

definition number_below :: "json \<Rightarrow> int \<Rightarrow> label_error + bool" where
  "number_below v n =
     (case v of
        JFloat FNaN \<Rightarrow> Inr False
      | JFloat (FInf neg) \<Rightarrow> Inr neg
      | _ \<Rightarrow> (case num_value v of None \<Rightarrow> Inl PyTypeError | Some q \<Rightarrow> Inr (q < of_int n)))"

definition hashable :: "json \<Rightarrow> bool" where
  "hashable v \<longleftrightarrow> \<not> is_dict v \<and> \<not> is_list v"

text \<open>\<open>set(v)\<close>, as a list, and \<open>v in s\<close> for such a set.\<close>

fun python_set :: "json \<Rightarrow> label_error + json list" where
  "python_set (JArr ts) = (if list_all hashable ts then Inr ts else Inl PyTypeError)"
| "python_set (JStr s) = Inr (map (\<lambda>ch. JStr [ch]) s)"
| "python_set (JObj kts) = Inr (map (\<lambda>kt. JStr (fst kt)) kts)"
| "python_set v = Inl PyTypeError"

definition in_set :: "json \<Rightarrow> json list \<Rightarrow> label_error + bool" where
  "in_set v s = (if hashable v then Inr (list_ex (py_eq v) s) else Inl PyTypeError)"

definition verify_binding_list :: "crypto \<Rightarrow> byte list \<Rightarrow> json \<Rightarrow> ustr \<Rightarrow> int \<Rightarrow> label_error + json list" where
  "verify_binding_list c root_pub binding_list tenant retained_sequence =
     rbind (verify_binding c root_pub binding_list) (\<lambda>_.
     rbind (key_of binding_list ''tenant_ref'') (\<lambda>t.
     rbind (refuse_if (\<not> py_eq t (JStr tenant)) TenantMismatch) (\<lambda>_.
     rbind (key_of binding_list ''sequence'') (\<lambda>s.
     rbind (number_below s retained_sequence) (\<lambda>below.
     rbind (refuse_if below SequenceBelowRetained) (\<lambda>_.
     rbind (key_of binding_list ''revoked_key_ids'') python_set))))))"

section \<open>The chain of trust\<close>

definition require_text :: "json \<Rightarrow> string \<Rightarrow> ustr \<Rightarrow> refusal \<Rightarrow> label_error + unit" where
  "require_text binding key expected reason =
     rbind (key_of binding key) (\<lambda>v. refuse_if (\<not> py_eq v (JStr expected)) reason)"

text \<open>The body of the last loop: not revoked, and active.\<close>

definition check_active :: "(ustr \<Rightarrow> iso_time option) \<Rightarrow> json list \<Rightarrow> int \<Rightarrow> json \<Rightarrow> label_error + unit" where
  "check_active fromiso revoked current binding =
     rbind (key_of binding ''key_id'') (\<lambda>k.
     rbind (in_set k revoked) (\<lambda>own.
     rbind (if own then Inr True else rbind (key_of binding ''signer_key_id'') (\<lambda>s. in_set s revoked)) (\<lambda>gone.
     rbind (refuse_if gone RevokedKey) (\<lambda>_.
     rbind (key_of binding ''not_before'') (\<lambda>nb.
     rbind (parse_ts fromiso nb) (\<lambda>t.
       refuse_if (t > current) NotYetActive))))))"

definition verify_chain ::
  "crypto \<Rightarrow> (ustr \<Rightarrow> iso_time option) \<Rightarrow> ustr \<Rightarrow> byte list \<Rightarrow> json \<Rightarrow> json \<Rightarrow> json \<Rightarrow> ustr \<Rightarrow> ustr \<Rightarrow> json \<Rightarrow> int \<Rightarrow> ustr \<Rightarrow>
   label_error + unit" where
  "verify_chain c fromiso pinned_root_fingerprint root_pub admin project member_key tenant project_id binding_list retained now =
     rbind (raise_if (list_ex (\<lambda>ch. 128 \<le> ch) pinned_root_fingerprint) PyTypeError) (\<lambda>_.
     rbind (refuse_if (root_fingerprint c root_pub \<noteq> pinned_root_fingerprint) RootNotPinned) (\<lambda>_.
     rbind (verify_binding_list c root_pub binding_list tenant retained) (\<lambda>revoked.
     rbind (verify_binding c root_pub admin) (\<lambda>_.
     rbind (require_text admin ''purpose'' (U ''admin_identity'') WrongPurpose) (\<lambda>_.
     rbind (rbind (key_of admin ''public_key'') unb64u) (\<lambda>admin_pub.
     rbind (check_all (\<lambda>(binding, p).
        rbind (verify_binding c admin_pub binding) (\<lambda>_. require_text binding ''purpose'' p WrongPurpose))
       [(project, U ''project_key''), (member_key, U ''member_key'')]) (\<lambda>_.
     rbind (check_all (\<lambda>b. require_text b ''tenant_ref'' tenant TenantMismatch) [admin, project, member_key]) (\<lambda>_.
     rbind (check_all (\<lambda>b. require_text b ''project_ref'' project_id ProjectMismatch) [project, member_key]) (\<lambda>_.
     rbind (key_of member_key ''epoch'') (\<lambda>e.
     rbind (key_of project ''epoch'') (\<lambda>e'.
     rbind (refuse_if (\<not> py_eq e e') EpochMismatch) (\<lambda>_.
     rbind (parse_ts fromiso (JStr now)) (\<lambda>current.
       check_all (check_active fromiso revoked current) [admin, project, member_key])))))))))))))"

section \<open>What a signed binding is\<close>

definition signed_by :: "crypto \<Rightarrow> byte list \<Rightarrow> json \<Rightarrow> bool" where
  "signed_by c pub binding \<longleftrightarrow>
     (\<exists>sig raw text. key_of binding ''signature'' = Inr sig \<and> unb64u sig = Inr raw \<and>
        jcs (unsigned_body binding) = Inr text \<and> ed_verify c pub (BINDING_DOMAIN @ text) raw) \<and>
     get_member binding ''signer_key_id'' = JStr (public_key_id c pub)"

lemma map_of_filter_key: "k \<noteq> x \<Longrightarrow> map_of (filter (\<lambda>kv. fst kv \<noteq> x) kvs) k = map_of kvs k"
  by (induction kvs) auto

lemma unsigned_member:
  "k \<noteq> U ''signature'' \<Longrightarrow> is_dict binding \<Longrightarrow> json_member (unsigned_body binding) k = json_member binding k"
  by (cases binding) (auto simp: unsigned_body_def map_of_filter_key)

lemma key_of_Inr: "key_of d key = Inr v \<Longrightarrow> get_member d key = v"
  by (cases d) (auto simp: key_of_def member_or_def split: option.splits)

lemma verify_binding_iff:
  "verify_binding c pub binding = Inr () \<longleftrightarrow> is_dict binding \<and> ed_loads c pub \<and> signed_by c pub binding"
  by (auto simp: verify_binding_def verify_body_def signed_by_def Let_def rbind_Inr_iff refuse_if_def member_or_def
      unsigned_member)

lemma number_below_False:
  "number_below v n = Inr False \<Longrightarrow> float_free v \<Longrightarrow> \<exists>q. num_value v = Some q \<and> of_int n \<le> q"
  by (cases v) (auto simp: number_below_def split: option.splits)

lemma signed_float_free: "signed_by c pub binding \<Longrightarrow> float_free (unsigned_body binding)"
  by (auto simp: signed_by_def jcs_def rbind_Inr_iff dest: jcs_text_float_free)

lemma float_free_member:
  "float_free t \<Longrightarrow> json_member t k = Some v \<Longrightarrow> float_free v"
  by (cases t) (auto dest: map_of_SomeD)

lemma in_set_False: "in_set v s = Inr False \<Longrightarrow> plain_json v \<Longrightarrow> v \<notin> set s"
  by (auto simp: in_set_def list_ex_iff py_eq_refl split: if_splits)

lemma check_active_facts:
  assumes "check_active fromiso revoked current binding = Inr ()"
    and "get_member binding ''signer_key_id'' = JStr s"
  shows "JStr s \<notin> set revoked \<and> in_set (get_member binding ''key_id'') revoked = Inr False \<and>
    (\<exists>t. parse_ts fromiso (get_member binding ''not_before'') = Inr t \<and> t \<le> current)"
proof -
  from assms(1) obtain k sk nb t where f: "key_of binding ''key_id'' = Inr k" "in_set k revoked = Inr False"
    "key_of binding ''signer_key_id'' = Inr sk" "in_set sk revoked = Inr False"
    "key_of binding ''not_before'' = Inr nb" "parse_ts fromiso nb = Inr t" "t \<le> current"
    by (auto simp: check_active_def rbind_Inr_iff refuse_if_def split: if_splits)
  have "sk = JStr s" using key_of_Inr [OF f(3)] assms(2) by simp
  with f(2,4,6,7) key_of_Inr [OF f(1)] key_of_Inr [OF f(5)] show ?thesis using in_set_False [of "JStr s" revoked] by auto
qed

lemma require_text_Inr: "require_text binding key expected reason = Inr () \<Longrightarrow> get_member binding key = JStr expected"
  by (auto simp: require_text_def rbind_Inr_iff refuse_if_def dest: key_of_Inr)

lemma binding_list_facts:
  assumes "verify_binding_list c root_pub binding_list tenant retained = Inr revoked"
  shows "signed_by c root_pub binding_list \<and> get_member binding_list ''tenant_ref'' = JStr tenant \<and>
    (\<exists>q. num_value (get_member binding_list ''sequence'') = Some q \<and> of_int retained \<le> q) \<and>
    python_set (get_member binding_list ''revoked_key_ids'') = Inr revoked"
proof -
  from assms obtain t s r where f: "is_dict binding_list" "signed_by c root_pub binding_list"
    "key_of binding_list ''tenant_ref'' = Inr t" "t = JStr tenant"
    "key_of binding_list ''sequence'' = Inr s" "number_below s retained = Inr False"
    "key_of binding_list ''revoked_key_ids'' = Inr r" "python_set r = Inr revoked"
    by (auto simp: verify_binding_list_def rbind_Inr_iff refuse_if_def verify_binding_iff)
  have "json_member (unsigned_body binding_list) (U ''sequence'') = Some s"
    using f(1,5) by (cases binding_list) (auto simp: unsigned_member key_of_def split: option.splits)
  with float_free_member [OF signed_float_free [OF f(2)]] have "float_free s" by blast
  with number_below_False [OF f(6)] f(2,4,8) key_of_Inr [OF f(3)] key_of_Inr [OF f(5)] key_of_Inr [OF f(7)] show ?thesis by simp
qed

lemma made_body:
  assumes "U ''signature'' \<notin> fst ` set body"
  shows "unsigned_body (JObj (AList.update (U ''signature'') v body)) = JObj body"
proof -
  have "AList.update x v kvs = kvs @ [(x, v)] \<and> filter (\<lambda>kv. fst kv \<noteq> x) kvs = kvs"
    if "x \<notin> fst ` set kvs" for x and v :: json and kvs
    using that by (induction kvs) auto
  from this [OF assms] show ?thesis by (simp add: unsigned_body_def)
qed

lemma keys_update: "fst ` set (AList.update k v al) = insert k (fst ` set al)"
  by (induction al) auto

section \<open>The chain\<close>

text \<open>
  C26: A binding made with a private key verifies under its public key, for every Ed25519 that verifies what it
  signed, unless the body already has a member \<open>signature\<close>, which signing covers and verification drops.
\<close>

theorem made_binding_verifies:
  assumes "\<forall>m. ed_verify c (ed_public c sk) m (ed_sign c sk m)" "ed_loads c (ed_public c sk)"
    and "U ''signature'' \<notin> fst ` set body"
    and "make_binding c sk (ed_public c sk) body = Inr binding"
  shows "verify_binding c (ed_public c sk) binding = Inr ()"
proof -
  let ?body = "AList.update (U ''signer_key_id'') (JStr (public_key_id c (ed_public c sk))) body"
  from assms(4) obtain msg where t: "jcs (JObj ?body) = Inr msg"
    "binding = JObj (AList.update (U ''signature'') (JStr (b64u (ed_sign c sk (BINDING_DOMAIN @ msg)))) ?body)"
    by (auto simp: make_binding_def sign_body_def Let_def rbind_Inr_iff)
  have "unsigned_body binding = JObj ?body"
    unfolding t(2) by (rule made_body) (use assms(3) in \<open>simp add: keys_update\<close>)
  with assms(1,2) t show ?thesis
    by (auto simp: verify_binding_iff signed_by_def key_of_def member_or_def update_conv')
qed

text \<open>
  C25: An accepted chain starts at the root key whose fingerprint is pinned: the root has signed the list of
  revoked keys, whose sequence is not below the retained one, and the admin binding; the admin key in that
  binding has signed the project and the member binding. Purposes, tenant, project and epoch fit together,
  neither the root key nor the admin key nor the stated key of any binding is revoked, and all three bindings
  are active.
\<close>

theorem verified_chain_is_trusted:
  assumes "verify_chain c fromiso pin root_pub admin project member_key tenant project_id binding_list retained now = Inr ()"
  shows "root_fingerprint c root_pub = pin \<and> signed_by c root_pub binding_list \<and> signed_by c root_pub admin \<and>
    (\<exists>q. num_value (get_member binding_list ''sequence'') = Some q \<and> of_int retained \<le> q) \<and>
    (\<exists>admin_pub revoked current.
       unb64u (get_member admin ''public_key'') = Inr admin_pub \<and>
       signed_by c admin_pub project \<and> signed_by c admin_pub member_key \<and>
       map (\<lambda>b. get_member b ''purpose'') [admin, project, member_key] =
         [JStr (U ''admin_identity''), JStr (U ''project_key''), JStr (U ''member_key'')] \<and>
       map (\<lambda>b. get_member b ''tenant_ref'') [binding_list, admin, project, member_key] = replicate 4 (JStr tenant) \<and>
       map (\<lambda>b. get_member b ''project_ref'') [project, member_key] = replicate 2 (JStr project_id) \<and>
       py_eq (get_member member_key ''epoch'') (get_member project ''epoch'') \<and>
       python_set (get_member binding_list ''revoked_key_ids'') = Inr revoked \<and>
       JStr (public_key_id c root_pub) \<notin> set revoked \<and> JStr (public_key_id c admin_pub) \<notin> set revoked \<and>
       parse_ts fromiso (JStr now) = Inr current \<and>
       list_all (\<lambda>b. in_set (get_member b ''key_id'') revoked = Inr False \<and>
         (\<exists>t. parse_ts fromiso (get_member b ''not_before'') = Inr t \<and> t \<le> current)) [admin, project, member_key])"
proof -
  from assms obtain revoked pk admin_pub e e' current where f:
    "root_fingerprint c root_pub = pin" "verify_binding_list c root_pub binding_list tenant retained = Inr revoked"
    "signed_by c root_pub admin" "require_text admin ''purpose'' (U ''admin_identity'') WrongPurpose = Inr ()"
    "key_of admin ''public_key'' = Inr pk" "unb64u pk = Inr admin_pub" "signed_by c admin_pub project"
    "require_text project ''purpose'' (U ''project_key'') WrongPurpose = Inr ()" "signed_by c admin_pub member_key"
    "require_text member_key ''purpose'' (U ''member_key'') WrongPurpose = Inr ()"
    and g: "require_text admin ''tenant_ref'' tenant TenantMismatch = Inr ()"
    "require_text project ''tenant_ref'' tenant TenantMismatch = Inr ()"
    "require_text member_key ''tenant_ref'' tenant TenantMismatch = Inr ()"
    "require_text project ''project_ref'' project_id ProjectMismatch = Inr ()"
    "require_text member_key ''project_ref'' project_id ProjectMismatch = Inr ()"
    and h: "key_of member_key ''epoch'' = Inr e" "key_of project ''epoch'' = Inr e'" "py_eq e e'"
    "parse_ts fromiso (JStr now) = Inr current" "check_active fromiso revoked current admin = Inr ()"
    "check_active fromiso revoked current project = Inr ()" "check_active fromiso revoked current member_key = Inr ()"
    by (auto simp: verify_chain_def rbind_Inr_iff refuse_if_def verify_binding_iff)
  have s: "get_member admin ''signer_key_id'' = JStr (public_key_id c root_pub)"
    "get_member project ''signer_key_id'' = JStr (public_key_id c admin_pub)"
    "get_member member_key ''signer_key_id'' = JStr (public_key_id c admin_pub)"
    using f(3,7,9) by (auto simp: signed_by_def)
  note active = check_active_facts [OF h(5) s(1)] check_active_facts [OF h(6) s(2)] check_active_facts [OF h(7) s(3)]
  note texts = require_text_Inr [OF f(4)] require_text_Inr [OF f(8)] require_text_Inr [OF f(10)] g [THEN require_text_Inr]
  have "unb64u (get_member admin ''public_key'') = Inr admin_pub" "py_eq (get_member member_key ''epoch'') (get_member project ''epoch'')"
    using f(5,6) h(1-3) key_of_Inr by auto
  with f(1,3,7,9) h(4) binding_list_facts [OF f(2)] texts active show ?thesis by (simp add: numeral_eq_Suc)
qed

section \<open>Witnesses\<close>

definition demo_signed :: "byte list \<Rightarrow> (ustr \<times> json) list \<Rightarrow> json" where
  "demo_signed sk kvs =
     (let body = (U ''signer_key_id'', JStr (public_key_id demo_crypto sk)) # kvs in
      JObj (body @ [(U ''signature'', JStr (b64u (sk @ BINDING_DOMAIN @ (case jcs (JObj body) of Inl e \<Rightarrow> [] | Inr m \<Rightarrow> m))))]))"

lemma demo_kid: "public_key_id demo_crypto sk = b64u (replicate 16 7)"
  by (simp add: public_key_id_def demo_crypto_def take_replicate)

lemma encodable_b64u: "encodable (b64u bs)"
  using b64_text_ascii [of _ bs] by (force simp: encodable_def b64u_def list_all_iff is_surrogate_def)

lemma demo_signed_verifies:
  assumes "list_all (\<lambda>kt. encodable (fst kt) \<and> fp2_ok (snd kt) \<and> float_free (snd kt)) kvs"
    and "U ''signature'' \<notin> fst ` set kvs"
  shows "verify_binding demo_crypto sk (demo_signed sk kvs) = Inr ()"
proof -
  let ?body = "(U ''signer_key_id'', JStr (public_key_id demo_crypto sk)) # kvs"
  obtain m where m: "jcs (JObj ?body) = Inr m"
    using jcs_members_total [of ?body] assms(1) by (auto simp: encodable_U demo_kid encodable_b64u)
  have "filter (\<lambda>kv. fst kv \<noteq> U ''signature'') kvs = kvs" using assms(2) by (force simp: filter_id_conv)
  moreover have "map_of kvs (U ''signature'') = None" using assms(2) by (simp add: map_of_eq_None_iff)
  ultimately show ?thesis
    using m by (auto simp: verify_binding_iff signed_by_def demo_signed_def unsigned_body_def key_of_def member_or_def
        demo_crypto_def map_add_def Let_def)
qed

lemma made_binding_verifies_witness:
  "\<exists>binding. make_binding demo_crypto [1] [1] [(U ''tenant_ref'', JStr (U ''t1''))] = Inr binding \<and>
     verify_binding demo_crypto [1] binding = Inr ()"
proof -
  let ?kvs = "[(U ''tenant_ref'', JStr (U ''t1''))]"
  have "\<exists>m. jcs (JObj (AList.update (U ''signer_key_id'') (JStr (public_key_id demo_crypto [1])) ?kvs)) = Inr m"
    by (rule jcs_members_total) (simp add: encodable_U demo_kid encodable_b64u)
  then obtain binding where b: "make_binding demo_crypto [1] [1] ?kvs = Inr binding"
    by (auto simp: make_binding_def sign_body_def Let_def)
  have "ed_public demo_crypto [1] = [1]" by (simp add: demo_crypto_def)
  with made_binding_verifies [of demo_crypto "[1]" ?kvs binding] b show ?thesis by (simp add: demo_crypto_def)
qed

definition demo_link :: "byte list \<Rightarrow> string \<Rightarrow> byte list \<Rightarrow> json" where
  "demo_link sk use pub = demo_signed sk
     [(U ''purpose'', JStr (U use)), (U ''tenant_ref'', JStr (U ''t1'')), (U ''project_ref'', JStr (U ''p1'')),
      (U ''epoch'', JInt 1), (U ''key_id'', JStr (U use)), (U ''public_key'', JStr (b64u pub)),
      (U ''not_before'', JStr (U ''2026-01-01T00:00:00Z''))]"

definition demo_binding_list :: json where
  "demo_binding_list = demo_signed [1]
     [(U ''tenant_ref'', JStr (U ''t1'')), (U ''sequence'', JInt 3), (U ''revoked_key_ids'', JArr [JStr (U ''lost'')])]"

definition demo_iso :: "ustr \<Rightarrow> iso_time option" where
  "demo_iso s = Some (Instant (if s = U ''2026-01-01T00:00:00+00:00'' then 0 else 86400000000))"

lemma demo_links_verify:
  "verify_binding demo_crypto sk (demo_link sk use pub) = Inr ()"
  "verify_binding demo_crypto [1] demo_binding_list = Inr ()"
  unfolding demo_link_def demo_binding_list_def
  by (rule demo_signed_verifies; simp add: encodable_U encodable_b64u MAX_SAFE_INTEGER_def)+

lemma demo_chain_verifies:
  "verify_chain demo_crypto demo_iso (hexdigest (replicate 32 7)) [1] (demo_link [1] ''admin_identity'' [2])
     (demo_link [2] ''project_key'' [3]) (demo_link [2] ''member_key'' [4]) (U ''t1'') (U ''p1'') demo_binding_list 3
     (U ''2026-01-02T00:00:00Z'') = Inr ()"
proof -
  have texts: "key_of (demo_link sk use pub) ''purpose'' = Inr (JStr (U use))"
    "key_of (demo_link sk use pub) ''tenant_ref'' = Inr (JStr (U ''t1''))"
    "key_of (demo_link sk use pub) ''project_ref'' = Inr (JStr (U ''p1''))"
    "key_of (demo_link sk use pub) ''epoch'' = Inr (JInt 1)" "key_of (demo_link sk use pub) ''key_id'' = Inr (JStr (U use))"
    "key_of (demo_link sk use pub) ''public_key'' = Inr (JStr (b64u pub))"
    "key_of (demo_link sk use pub) ''not_before'' = Inr (JStr (U ''2026-01-01T00:00:00Z''))"
    "key_of (demo_link sk use pub) ''signer_key_id'' = Inr (JStr (b64u (replicate 16 7)))" for sk use pub
    by (simp_all add: demo_link_def demo_signed_def key_of_def demo_kid)
  have listed: "key_of demo_binding_list ''tenant_ref'' = Inr (JStr (U ''t1''))" "key_of demo_binding_list ''sequence'' = Inr (JInt 3)"
    "key_of demo_binding_list ''revoked_key_ids'' = Inr (JArr [JStr (U ''lost'')])"
    by (simp_all add: demo_binding_list_def demo_signed_def key_of_def)
  have kid: "b64u (replicate 16 7) \<noteq> U ''lost''" by code_simp
  have z: "replace_Z (U ''2026-01-01T00:00:00Z'') = U ''2026-01-01T00:00:00+00:00''"
    "replace_Z (U ''2026-01-02T00:00:00Z'') \<noteq> U ''2026-01-01T00:00:00+00:00''" by code_simp+
  have hex: "\<not> list_ex (\<lambda>ch. 128 \<le> ch) (hexdigest (replicate 32 7))" by code_simp
  have list: "verify_binding_list demo_crypto [1] demo_binding_list (U ''t1'') 3 = Inr [JStr (U ''lost'')]"
    by (simp add: verify_binding_list_def demo_links_verify listed refuse_if_def number_below_def hashable_def)
  have active: "check_active demo_iso [JStr (U ''lost'')] 86400000000 (demo_link sk use pub) = Inr ()" if "U use \<noteq> U ''lost''" for sk use pub
    using that kid z by (simp add: check_active_def texts in_set_def hashable_def refuse_if_def parse_ts_def demo_iso_def)
  have fp: "root_fingerprint demo_crypto [1] = hexdigest (replicate 32 7)" by (simp add: root_fingerprint_def demo_crypto_def)
  have now: "parse_ts demo_iso (JStr (U ''2026-01-02T00:00:00Z'')) = Inr 86400000000" using z by (simp add: parse_ts_def demo_iso_def)
  show ?thesis
    using hex by (simp add: verify_chain_def fp list demo_links_verify texts refuse_if_def require_text_def now active)
qed

lemma verified_chain_is_trusted_witness:
  "\<exists>admin_pub. unb64u (get_member (demo_link [1] ''admin_identity'' [2]) ''public_key'') = Inr admin_pub \<and>
     signed_by demo_crypto admin_pub (demo_link [2] ''member_key'' [4])"
  using verified_chain_is_trusted [OF demo_chain_verifies] by blast

end
