(* ===== verification/CertCore.thy ===== *)
theory CertCore
  imports Codec StrictJson JsonText
begin

text \<open>
  What the verifiers of \<open>traigent_schema/certification\<close> share: failures with a fixed code, Python's
  access to parsed JSON with its exceptions, role-separated digests, length-prefixed material, and
  public keys and signatures as \<open>relying_party_verifier.py\<close> checks them. SHA-256, the keys and
  signatures of the \<open>cryptography\<close> package and the verdicts of \<open>jsonschema\<close> on the packaged
  schemas are the fields of the parameter \<open>cert_env\<close>.
\<close>

section \<open>Failures\<close>

text \<open>
  \<open>Failed code\<close> is \<open>RelyingPartyVerificationError(code)\<close>, a \<open>ValueError\<close>, or the error of the same shape
  of another verifier; \<open>Located code location\<close> is the error of a verifier that names the field as well;
  then the exceptions some handler names, and any other.
\<close>

datatype cert_error =
    Failed string | Located string ustr | SchemaDependency | PyKeyErr | PyTypeErr | PyValueErr | OtherErr

definition fail_if :: "bool \<Rightarrow> string \<Rightarrow> cert_error + unit" where
  "fail_if b code = raise_if b (Failed code)"

lemma fail_if_Inr [simp]: "fail_if b code = Inr u \<longleftrightarrow> \<not> b"
  by (simp add: fail_if_def)

lemma fail_if_simps [simp]: "fail_if False code = Inr ()" "fail_if True code = Inl (Failed code)"
  by (simp_all add: fail_if_def)

text \<open>\<open>try: ... except (...): _fail(code)\<close>.\<close>

definition recast :: "(cert_error \<Rightarrow> bool) \<Rightarrow> string \<Rightarrow> cert_error + 'a \<Rightarrow> cert_error + 'a" where
  "recast caught code r = (case r of Inl e \<Rightarrow> Inl (if caught e then Failed code else e) | Inr x \<Rightarrow> Inr x)"

lemma recast_Inr [simp]: "recast caught code r = Inr x \<longleftrightarrow> r = Inr x"
  by (auto simp: recast_def split: sum.split)

lemma recast_Inl: "recast caught code r = Inl e \<longleftrightarrow> (\<exists>e'. r = Inl e' \<and> e = (if caught e' then Failed code else e'))"
  by (auto simp: recast_def split: sum.split)

definition key_or_type :: "cert_error \<Rightarrow> bool" where
  "key_or_type e \<longleftrightarrow> e = PyKeyErr \<or> e = PyTypeErr"

definition is_failed :: "cert_error \<Rightarrow> bool" where
  "is_failed e \<longleftrightarrow> (\<exists>code. e = Failed code)"

lemma is_failed_simps [simp, code]:
  "is_failed (Failed code)" "\<not> is_failed (Located code l)" "\<not> is_failed SchemaDependency" "\<not> is_failed PyKeyErr" "\<not> is_failed PyTypeErr"
  "\<not> is_failed PyValueErr" "\<not> is_failed OtherErr"
  by (simp_all add: is_failed_def)

definition value_error_like :: "cert_error \<Rightarrow> bool" where
  "value_error_like e \<longleftrightarrow> is_failed e \<or> e = PyValueErr"

text \<open>Statements in turn: the first one that raises decides.\<close>

definition in_turn :: "('e + unit) list \<Rightarrow> 'e + unit" where
  "in_turn rs = check_all (\<lambda>r. r) rs"

lemma in_turn_Nil [simp]: "in_turn [] = Inr ()"
  by (simp add: in_turn_def)

lemma in_turn_Inr [simp]: "in_turn (r # rs) = Inr () \<longleftrightarrow> r = Inr () \<and> in_turn rs = Inr ()"
  by (cases r) (auto simp: in_turn_def)

text \<open>A loop that changes a state, and \<open>any\<close>, which stops at the first hit.\<close>

fun fold_steps :: "('s \<Rightarrow> 'a \<Rightarrow> 'e + 's) \<Rightarrow> 's \<Rightarrow> 'a list \<Rightarrow> 'e + 's" where
  "fold_steps f s [] = Inr s"
| "fold_steps f s (x # xs) = rbind (f s x) (\<lambda>s'. fold_steps f s' xs)"

fun any_of :: "('a \<Rightarrow> 'e + bool) \<Rightarrow> 'a list \<Rightarrow> 'e + bool" where
  "any_of p [] = Inr False"
| "any_of p (x # xs) = rbind (p x) (\<lambda>b. if b then Inr True else any_of p xs)"

section \<open>Access to parsed JSON\<close>

fun is_container :: "json \<Rightarrow> bool" where
  "is_container (JArr ts) = True"
| "is_container (JObj kts) = True"
| "is_container t = False"

fun is_str :: "json \<Rightarrow> bool" where
  "is_str (JStr s) = True"
| "is_str t = False"

definition list_item :: "'a list \<Rightarrow> int \<Rightarrow> cert_error + 'a" where
  "list_item xs i =
     (let j = (if i < 0 then i + int (length xs) else i) in
      if 0 \<le> j \<and> j < int (length xs) then Inr (xs ! nat j) else Inl OtherErr)"

fun as_index :: "json \<Rightarrow> int option" where
  "as_index (JInt i) = Some i"
| "as_index (JBool b) = Some (if b then 1 else 0)"
| "as_index t = None"

text \<open>\<open>d[key]\<close>.\<close>

fun subscript :: "json \<Rightarrow> json \<Rightarrow> cert_error + json" where
  "subscript (JObj kts) key =
     (case key of
        JStr k \<Rightarrow> (case map_of kts k of None \<Rightarrow> Inl PyKeyErr | Some v \<Rightarrow> Inr v)
      | _ \<Rightarrow> Inl (if is_container key then PyTypeErr else PyKeyErr))"
| "subscript (JArr ts) key =
     (case as_index key of None \<Rightarrow> Inl PyTypeErr | Some i \<Rightarrow> list_item ts i)"
| "subscript (JStr s) key =
     (case as_index key of None \<Rightarrow> Inl PyTypeErr | Some i \<Rightarrow> rbind (list_item s i) (\<lambda>c. Inr (JStr [c])))"
| "subscript t key = Inl PyTypeErr"

abbreviation field :: "json \<Rightarrow> string \<Rightarrow> cert_error + json" where
  "field d key \<equiv> subscript d (JStr (U key))"

text \<open>\<open>d[k1][k2]...\<close>.\<close>

fun path_to :: "json \<Rightarrow> string list \<Rightarrow> cert_error + json" where
  "path_to d [] = Inr d"
| "path_to d (k # ks) = rbind (field d k) (\<lambda>v. path_to v ks)"

text \<open>\<open>d.get(key)\<close> when \<open>d\<close> need not be a dict.\<close>

definition get_item :: "json \<Rightarrow> string \<Rightarrow> cert_error + json" where
  "get_item d key = (if is_dict d then Inr (get_member d key) else Inl OtherErr)"

text \<open>\<open>for x in d\<close> and \<open>key in d\<close>.\<close>

fun iterate :: "json \<Rightarrow> cert_error + json list" where
  "iterate (JArr ts) = Inr ts"
| "iterate (JObj kts) = Inr (map (\<lambda>kt. JStr (fst kt)) kts)"
| "iterate (JStr s) = Inr (map (\<lambda>c. JStr [c]) s)"
| "iterate t = Inl PyTypeErr"

fun starts_with :: "ustr \<Rightarrow> ustr \<Rightarrow> bool" where
  "starts_with [] s = True"
| "starts_with (c # cs) [] = False"
| "starts_with (c # cs) (d # ds) = (c = d \<and> starts_with cs ds)"

fun occurs_in :: "ustr \<Rightarrow> ustr \<Rightarrow> bool" where
  "occurs_in p [] = (p = [])"
| "occurs_in p (c # cs) = (starts_with p (c # cs) \<or> occurs_in p cs)"

fun has_key :: "json \<Rightarrow> string \<Rightarrow> cert_error + bool" where
  "has_key (JObj kts) key = Inr (U key \<in> fst ` set kts)"
| "has_key (JArr ts) key = Inr (list_ex (\<lambda>t. t = JStr (U key)) ts)"
| "has_key (JStr s) key = Inr (occurs_in (U key) s)"
| "has_key t key = Inl PyTypeErr"

text \<open>\<open>if a != b: _fail(code)\<close>, both sides evaluated first.\<close>

definition must_equal :: "string \<Rightarrow> cert_error + json \<Rightarrow> cert_error + json \<Rightarrow> cert_error + unit" where
  "must_equal code a b = rbind a (\<lambda>x. rbind b (\<lambda>y. fail_if (\<not> py_eq x y) code))"

lemma must_equal_Inr: "must_equal code a b = Inr u \<longleftrightarrow> (\<exists>x y. a = Inr x \<and> b = Inr y \<and> py_eq x y)"
  by (auto simp: must_equal_def rbind_Inr_iff)

lemma must_equal_literals [simp]: "must_equal code (Inr (JStr s)) (Inr (JStr t)) = fail_if (s \<noteq> t) code"
  by (simp add: must_equal_def eq_commute)

abbreviation jstr :: "string \<Rightarrow> json" where
  "jstr s \<equiv> JStr (U s)"

section \<open>Patterns\<close>

definition lower :: "nat \<Rightarrow> bool" where "lower c \<longleftrightarrow> 97 \<le> c \<and> c \<le> 122"
definition upper :: "nat \<Rightarrow> bool" where "upper c \<longleftrightarrow> 65 \<le> c \<and> c \<le> 90"

definition word_char :: "nat \<Rightarrow> bool" where \<comment> \<open>\<open>[A-Za-z0-9_-]\<close>\<close>
  "word_char c \<longleftrightarrow> lower c \<or> upper c \<or> is_digit c \<or> c = 95 \<or> c = 45"

definition low_hex :: "nat \<Rightarrow> bool" where
  "low_hex c \<longleftrightarrow> is_digit c \<or> 97 \<le> c \<and> c \<le> 102"

definition chars_of :: "(nat \<Rightarrow> bool) \<Rightarrow> nat \<Rightarrow> nat \<Rightarrow> ustr \<Rightarrow> bool" where
  "chars_of p lo hi s \<longleftrightarrow> lo \<le> length s \<and> length s \<le> hi \<and> list_all p s"

text \<open>\<open>sha256:[a-f0-9]{64}\<close>, \<open>[A-Za-z0-9_.-]{1,128}\<close>, \<open>[a-z][a-z0-9_.-]{1,63}:[A-Za-z0-9_-]{8,128}\<close>.\<close>

definition is_sha256_ref :: "ustr \<Rightarrow> bool" where
  "is_sha256_ref s \<longleftrightarrow> take 7 s = U ''sha256:'' \<and> chars_of low_hex 64 64 (drop 7 s)"

definition is_project_ref :: "ustr \<Rightarrow> bool" where
  "is_project_ref s \<longleftrightarrow> chars_of (\<lambda>c. word_char c \<or> c = 46) 1 128 s"

definition is_ref :: "ustr \<Rightarrow> bool" where
  "is_ref s \<longleftrightarrow>
     (let a = takeWhile (\<lambda>c. c \<noteq> 58) s; b = dropWhile (\<lambda>c. c \<noteq> 58) s in
      a \<noteq> [] \<and> lower (hd a) \<and>
      chars_of (\<lambda>c. lower c \<or> is_digit c \<or> c = 95 \<or> c = 46 \<or> c = 45) 1 63 (tl a) \<and>
      b \<noteq> [] \<and> chars_of word_char 8 128 (tl b))"

definition is_client_key_ref :: "ustr \<Rightarrow> bool" where
  "is_client_key_ref s \<longleftrightarrow> take 4 s = U ''ckr:'' \<and> chars_of word_char 43 43 (drop 4 s)"

text \<open>\<open>[0-9]{1,4}\.[0-9]{1,4}\.[0-9]{1,4}\<close>.\<close>

definition is_semver :: "ustr \<Rightarrow> bool" where
  "is_semver s \<longleftrightarrow> (let parts = split_at 46 s in length parts = 3 \<and> list_all (chars_of is_digit 1 4) parts)"

definition one_of :: "string list \<Rightarrow> ustr \<Rightarrow> bool" where
  "one_of allowed s \<longleftrightarrow> s \<in> U ` set allowed"

section \<open>The environment\<close>

text \<open>A public key object with its \<open>SubjectPublicKeyInfo\<close>; \<open>NotAKey\<close> is any other caller object.\<close>

datatype key_object = Ed25519Key "byte list" | P256Key "byte list" | OtherKey "byte list" | NotAKey

fun spki_of :: "key_object \<Rightarrow> byte list option" where
  "spki_of (Ed25519Key der) = Some der"
| "spki_of (P256Key der) = Some der"
| "spki_of (OtherKey der) = Some der"
| "spki_of NotAKey = None"

datatype schema_id =
    CertificateSchema | UnsignedManifestSchema | PrepareResponseSchema | RetrievalResponseSchema
  | MaterialsSchema | LinkageSchema | ProcessRecordSchema | TrustStatusSchema | CapturePolicySchema | ProcessDefinitionSchema
  | RecordSchema string | DefinitionSchema string \<comment> \<open>the bundle of a record family, and one definition of it\<close>

datatype schema_outcome =
    Conforms | Violates | DanglingReference | SchemaRaises
  | NoValidator \<comment> \<open>the packaged resources cannot be read\<close>
  | MissingDependency \<comment> \<open>\<open>SchemaDependencyError\<close>\<close>

record cert_env =
  hash :: "byte list \<Rightarrow> byte list"
  load_der :: "byte list \<Rightarrow> key_object option"
  ed25519_valid :: "byte list \<Rightarrow> byte list \<Rightarrow> byte list \<Rightarrow> bool" \<comment> \<open>SPKI, signature, material\<close>
  ecdsa_valid :: "byte list \<Rightarrow> nat \<Rightarrow> nat \<Rightarrow> byte list \<Rightarrow> bool" \<comment> \<open>SPKI, \<open>r\<close>, \<open>s\<close>, material\<close>
  schema :: "schema_id \<Rightarrow> json \<Rightarrow> schema_outcome"
  container_repr :: "json \<Rightarrow> ustr" \<comment> \<open>\<open>repr\<close> of a list or dict\<close>

section \<open>Digests and material\<close>

definition SHA256_PREFIX :: ustr where "SHA256_PREFIX = U ''sha256:''"

definition role_digest :: "cert_env \<Rightarrow> byte list \<Rightarrow> json \<Rightarrow> cert_error + ustr" where
  "role_digest env role document =
     (if role = [] \<or> list_ex (\<lambda>b. 0x7F < b) role then Inl (Failed ''DIGEST_ROLE'')
      else (case canonical_text document of
              None \<Rightarrow> Inl (Failed ''CANONICALIZATION'')
            | Some text \<Rightarrow> Inr (SHA256_PREFIX @ hexdigest (hash env (role @ 0 # utf8 text)))))"

definition length_prefixed_fields :: "byte list \<Rightarrow> byte list list \<Rightarrow> cert_error + byte list" where
  "length_prefixed_fields domain parts =
     (if domain = [] \<or> list_ex (\<lambda>f. 2 ^ 64 \<le> length f) parts then Inl (Failed ''MATERIAL'')
      else Inr (domain @ concat (map (\<lambda>f. i2osp (length f) 8 @ f) parts)))"

section \<open>Keys and signatures\<close>

definition CLIENT_KEY_REF_DOMAIN :: "byte list" where
  "CLIENT_KEY_REF_DOMAIN = utf8 (U ''traigent.agent_certificate.client_key_ref.v0'')"

definition derive_client_key_ref :: "cert_env \<Rightarrow> ustr \<Rightarrow> json \<Rightarrow> key_object \<Rightarrow> cert_error + ustr" where
  "derive_client_key_ref env project_ref signature_algorithm client_public_key =
     rbind (fail_if (\<not> is_project_ref project_ref) ''CLIENT_KEY_REF'') (\<lambda>_.
     rbind (case signature_algorithm of
              JStr alg \<Rightarrow>
                if alg = U ''ed25519'' then
                  (case client_public_key of Ed25519Key der \<Rightarrow> Inr (alg, der) | _ \<Rightarrow> Inl (Failed ''CLIENT_KEY_REF''))
                else if alg = U ''ecdsa_p256_sha256'' then
                  (case client_public_key of P256Key der \<Rightarrow> Inr (alg, der) | _ \<Rightarrow> Inl (Failed ''CLIENT_KEY_REF''))
                else Inl (Failed ''CLIENT_KEY_REF'')
            | _ \<Rightarrow> Inl (Failed ''CLIENT_KEY_REF'')) (\<lambda>(alg, spki).
     rbind (length_prefixed_fields CLIENT_KEY_REF_DOMAIN [utf8 project_ref, utf8 alg, spki]) (\<lambda>material.
       let result = U ''ckr:'' @ b64_text (hash env material) in
       if is_client_key_ref result then Inr result else Inl (Failed ''CLIENT_KEY_REF''))))"

definition material_public_key :: "cert_env \<Rightarrow> json \<Rightarrow> byte list \<Rightarrow> cert_error + key_object" where
  "material_public_key env projection digest_domain =
     rbind (field projection ''public_key_der_b64'') (\<lambda>encoded.
     rbind (case encoded of JStr s \<Rightarrow> Inr s | _ \<Rightarrow> Inl OtherErr) (\<lambda>encoded.
     rbind (case std_b64_decode encoded of None \<Rightarrow> Inl (Failed ''MATERIALS_KEY'') | Some der \<Rightarrow> Inr der) (\<lambda>der.
     rbind (fail_if (std_b64 der \<noteq> encoded) ''MATERIALS_KEY'') (\<lambda>_.
     rbind (case load_der env der of None \<Rightarrow> Inl (Failed ''MATERIALS_KEY'') | Some key \<Rightarrow> Inr key) (\<lambda>key.
     rbind (fail_if (spki_of key \<noteq> Some der) ''MATERIALS_KEY'') (\<lambda>_.
     rbind (must_equal ''MATERIALS_KEY'' (field projection ''public_key_digest'')
              (Inr (JStr (SHA256_PREFIX @ hexdigest (hash env (digest_domain @ 0 # der)))))) (\<lambda>_.
     rbind (field projection ''algorithm'') (\<lambda>algorithm.
     rbind (fail_if (algorithm = jstr ''ed25519'' \<and> key \<noteq> Ed25519Key der) ''MATERIALS_KEY'') (\<lambda>_.
     rbind (fail_if (algorithm = jstr ''ecdsa_p256_sha256'' \<and> key \<noteq> P256Key der) ''MATERIALS_KEY'') (\<lambda>_.
       Inr key))))))))))"

definition decode_signature :: "json \<Rightarrow> cert_error + byte list" where
  "decode_signature encoded =
     (case encoded of
        JStr s \<Rightarrow>
          if length s = 88 \<and> list_all (\<lambda>c. std_b64_value c \<noteq> None) (take 86 s) \<and> drop 86 s = U ''==''
          then (case std_b64_decode s of
                  None \<Rightarrow> Inl PyValueErr
                | Some raw \<Rightarrow>
                    if length raw \<noteq> 64 \<or> std_b64 raw \<noteq> s then Inl (Failed ''SIGNATURE_BASE64'') else Inr raw)
          else Inl (Failed ''SIGNATURE_BASE64'')
      | _ \<Rightarrow> Inl (Failed ''SIGNATURE_BASE64''))"

definition ECDSA_ORDER :: nat where
  "ECDSA_ORDER = 0xFFFFFFFF00000000FFFFFFFFFFFFFFFFBCE6FAADA7179E84F3B9CAC2FC632551"

definition ECDSA_HALF_ORDER :: nat where
  "ECDSA_HALF_ORDER = ECDSA_ORDER div 2"

definition verify_signature :: "cert_env \<Rightarrow> key_object \<Rightarrow> json \<Rightarrow> byte list \<Rightarrow> json \<Rightarrow> cert_error + unit" where
  "verify_signature env public_key algorithm material encoded =
     (if is_container algorithm then Inl PyTypeErr
      else if algorithm \<notin> {jstr ''ed25519'', jstr ''ecdsa_p256_sha256''} then Inl (Failed ''ALGORITHM'')
      else
        rbind (decode_signature encoded) (\<lambda>raw.
          if algorithm = jstr ''ed25519'' then
            (case public_key of
               Ed25519Key der \<Rightarrow> fail_if (\<not> ed25519_valid env der raw material) ''SIGNATURE_INVALID''
             | _ \<Rightarrow> Inl (Failed ''KEY_ALGORITHM''))
          else
            (case public_key of
               P256Key der \<Rightarrow>
                 let r = os2ip (take 32 raw); s = os2ip (drop 32 raw) in
                 in_turn
                   [fail_if (\<not> (1 \<le> r \<and> r < ECDSA_ORDER) \<or> \<not> (1 \<le> s \<and> s < ECDSA_ORDER)) ''SIGNATURE_SCALAR'',
                    fail_if (ECDSA_HALF_ORDER < s) ''SIGNATURE_HIGH_S'',
                    fail_if (\<not> ecdsa_valid env der r s material) ''SIGNATURE_INVALID'']
             | _ \<Rightarrow> Inl (Failed ''KEY_ALGORITHM''))))"

section \<open>Which errors leave\<close>

definition errors_in :: "('e \<Rightarrow> bool) \<Rightarrow> 'e + 'a \<Rightarrow> bool" where
  "errors_in P r \<longleftrightarrow> (\<forall>e. r = Inl e \<longrightarrow> P e)"

named_theorems errors_intros \<open>one rule per combinator\<close>

lemma errors_inD: "errors_in P r \<Longrightarrow> r = Inl e \<Longrightarrow> P e"
  by (simp add: errors_in_def)

lemma errors_in_mono: "errors_in P r \<Longrightarrow> (\<And>e. P e \<Longrightarrow> Q e) \<Longrightarrow> errors_in Q r"
  by (simp add: errors_in_def)

lemma errors_in_Inr [errors_intros]: "errors_in P (Inr x)"
  by (simp add: errors_in_def)

lemma errors_in_Inl [errors_intros]: "P e \<Longrightarrow> errors_in P (Inl e)"
  by (simp add: errors_in_def)

lemma errors_in_rbind [errors_intros]: "errors_in P r \<Longrightarrow> (\<And>x. errors_in P (f x)) \<Longrightarrow> errors_in P (rbind r f)"
  by (cases r) (auto simp: errors_in_def)

lemma errors_in_rbind_bound: "errors_in P r \<Longrightarrow> (\<And>x. r = Inr x \<Longrightarrow> errors_in P (f x)) \<Longrightarrow> errors_in P (rbind r f)"
  by (cases r) (auto simp: errors_in_def)

lemma errors_in_check_all [errors_intros]: "(\<And>x. errors_in P (f x)) \<Longrightarrow> errors_in P (check_all f xs)"
  by (induction xs) (auto simp: errors_in_def rbind_def split: sum.splits)

lemma errors_in_traverse [errors_intros]: "(\<And>x. errors_in P (f x)) \<Longrightarrow> errors_in P (traverse f xs)"
  by (induction xs) (auto simp: errors_in_def rbind_def split: sum.splits)

lemma errors_in_any_of [errors_intros]: "(\<And>x. errors_in P (f x)) \<Longrightarrow> errors_in P (any_of f xs)"
  by (induction xs) (auto simp: errors_in_def rbind_def split: sum.splits)

lemma errors_in_fold [errors_intros]: "(\<And>s x. errors_in P (f s x)) \<Longrightarrow> errors_in P (fold_steps f s xs)"
  by (induction xs arbitrary: s) (auto simp: errors_in_def rbind_def split: sum.splits)

lemma errors_in_turn_Nil [errors_intros]: "errors_in P (in_turn [])"
  by (simp add: errors_in_def)

lemma errors_in_turn_Cons [errors_intros]: "errors_in P r \<Longrightarrow> errors_in P (in_turn rs) \<Longrightarrow> errors_in P (in_turn (r # rs))"
  by (cases r) (auto simp: errors_in_def in_turn_def)

lemma errors_in_fail_if [errors_intros]: "P (Failed code) \<Longrightarrow> errors_in P (fail_if b code)"
  by (cases b) (auto simp: errors_in_def)

lemma errors_in_must_equal [errors_intros]:
  "errors_in P a \<Longrightarrow> errors_in P b \<Longrightarrow> P (Failed code) \<Longrightarrow> errors_in P (must_equal code a b)"
  unfolding must_equal_def by (intro errors_intros)

lemma errors_in_recast: "errors_in (\<lambda>e. if caught e then P (Failed code) else P e) r \<Longrightarrow> errors_in P (recast caught code r)"
  by (cases r) (auto simp: errors_in_def recast_def split: if_splits)

lemma errors_in_if [errors_intros]: "errors_in P a \<Longrightarrow> errors_in P b \<Longrightarrow> errors_in P (if c then a else b)"
  by simp

lemma errors_in_option [errors_intros]:
  "errors_in P a \<Longrightarrow> (\<And>x. errors_in P (f x)) \<Longrightarrow> errors_in P (case v of None \<Rightarrow> a | Some x \<Rightarrow> f x)"
  by (simp split: option.split)

lemma errors_in_prod [errors_intros]: "(\<And>x y. errors_in P (f x y)) \<Longrightarrow> errors_in P (case p of (x, y) \<Rightarrow> f x y)"
  by (simp split: prod.split)

text \<open>What plain Python on parsed JSON can raise.\<close>

definition access_error :: "cert_error \<Rightarrow> bool" where
  "access_error e \<longleftrightarrow> e = PyKeyErr \<or> e = PyTypeErr \<or> e = OtherErr"

lemma errors_in_list_item: "errors_in (\<lambda>e. e = OtherErr) (list_item xs i)"
  by (simp add: errors_in_def list_item_def Let_def)

lemma errors_in_subscript: "errors_in access_error (subscript t k)"
  by (cases t; cases k)
    (auto simp: errors_in_def access_error_def rbind_def list_item_def Let_def split: option.splits sum.splits if_splits)

lemma errors_in_path: "errors_in access_error (path_to t ks)"
  by (induction ks arbitrary: t) (auto intro!: errors_intros errors_in_subscript)

lemma errors_in_iterate: "errors_in access_error (iterate t)"
  by (cases t) (auto simp: errors_in_def access_error_def)

lemma errors_in_has_key: "errors_in access_error (has_key t k)"
  by (cases t) (auto simp: errors_in_def access_error_def)

lemma errors_in_get_item: "errors_in access_error (get_item t k)"
  by (simp add: errors_in_def access_error_def get_item_def)

lemmas access_errors = errors_in_subscript errors_in_path errors_in_iterate errors_in_has_key errors_in_get_item

end
