(* ===== verification/RelyingParty.thy ===== *)
theory RelyingParty
  imports CertCore
begin

text \<open>
  The offline verifier of Agent Certificate v0, \<open>certification/relying_party_verifier.py\<close>: schema and
  digest checks, the policy, the ledger seal, the projections between envelope, manifest and audit
  report, the printed claims, the context and the two signatures. A certificate is a parsed JSON
  value; comparisons are Python's.
\<close>

section \<open>Constants\<close>

definition AUDIT_DOMAIN :: "byte list" where
  "AUDIT_DOMAIN = utf8 (U ''traigent.agent_certificate.audit_report.v1'')"
definition CLAIM_MATERIAL_DOMAIN :: "byte list" where
  "CLAIM_MATERIAL_DOMAIN = utf8 (U ''traigent.agent_certificate.claim_material.v1'')"
definition UNSIGNED_DOMAIN :: "byte list" where
  "UNSIGNED_DOMAIN = utf8 (U ''traigent.agent_certificate.unsigned_manifest.v1'')"
definition SEAL_DOMAIN :: "byte list" where
  "SEAL_DOMAIN = utf8 (U ''traigent.agent_certificate.seal_statement.v1'')"
definition CLIENT_DOMAIN :: "byte list" where
  "CLIENT_DOMAIN = utf8 (U ''traigent.agent_certificate.client_co_attestation.v0'')"
definition CLIENT_CERTIFICATE_DOMAIN :: "byte list" where
  "CLIENT_CERTIFICATE_DOMAIN = utf8 (U ''traigent.agent_certificate.client_certificate_projection.v0'')"
definition ISSUER_DOMAIN :: "byte list" where
  "ISSUER_DOMAIN = utf8 (U ''traigent.agent_certificate.issuer_signature.v0'')"

definition SEMANTICS_KEYS :: "string list" where
  "SEMANTICS_KEYS =
     [''semantics_manifest_digest'', ''claim_template_catalog_digest'', ''prohibited_register_digest'',
      ''verifier_catalog_digest'', ''non_claim_reason_catalog_digest'']"

definition COMPILER_REGISTER_KEYS :: "string list" where
  "COMPILER_REGISTER_KEYS = ''compiler_version'' # SEMANTICS_KEYS"

definition VERIFIER_POLICY_IDS :: "string list" where
  "VERIFIER_POLICY_IDS = [''B1'', ''G1'']"

definition BUILD_LEDGER_CHAIN_SCHEMA_VERSION :: string where
  "BUILD_LEDGER_CHAIN_SCHEMA_VERSION = ''traigent.cert_build_ledger.v0''"

text \<open>Stream, family, status.\<close>

definition STREAM_FAMILIES :: "(string \<times> string \<times> string) list" where
  "STREAM_FAMILIES =
     [(''decision_stream'', ''decision'', ''empty_sealed''),
      (''receipt_event_stream'', ''receipt_event'', ''sealed''),
      (''transition_stream'', ''transition'', ''sealed'')]"

definition ZERO_DIGEST :: json where
  "ZERO_DIGEST = JStr (SHA256_PREFIX @ replicate 64 48)"

definition AUDIT_ROWS :: "string list" where
  "AUDIT_ROWS = [''B1'', ''REG1'', ''C1'', ''D2'', ''F1'', ''G1'', ''G3'']"

definition ABSTENTION_CODE :: "json \<Rightarrow> cert_error + json" where
  "ABSTENTION_CODE claim_id =
     (if claim_id = jstr ''REG1'' then Inr (jstr ''unregistered_claim_id'')
      else if claim_id \<in> jstr ` set AUDIT_ROWS then Inr (jstr ''verifier_not_run_or_not_pass'')
      else Inl (if is_container claim_id then PyTypeErr else PyKeyErr))"

definition NON_CLAIMS :: "(string \<times> string) list" where
  "NON_CLAIMS =
     [(''A3'', ''tmpl.noncert.a3_no_deployment_binding.v1''),
      (''A4'', ''tmpl.noncert.a4_no_drift_detection.v1''),
      (''B2'', ''tmpl.noncert.b2_no_closeout_reconciliation.v1''),
      (''E2'', ''tmpl.noncert.e2_statistical_validity_suspended.v1''),
      (''E3'', ''tmpl.noncert.e3_winner_stability_suspended.v1''),
      (''F3'', ''tmpl.noncert.f3_no_offline_verifiability.v1''),
      (''G2'', ''tmpl.noncert.g2_no_selective_disclosure.v1''),
      (''H1'', ''tmpl.noncert.h1_no_criteria_epochs.v1''),
      (''NC_STEP_CAPTURE'', ''tmpl.noncert.nc_step_capture.v1''),
      (''NC_PRESEAL_RECORDER'', ''tmpl.noncert.nc_preseal_recorder.v1''),
      (''NC_TIER4_GAPCHECKED'', ''tmpl.noncert.nc_tier4_gapchecked.v1''),
      (''NC_TARGET_MINIMIZED'', ''tmpl.noncert.nc_target_minimized.v1''),
      (''NC_CURRENT_ONLINE_FREETEXT'', ''tmpl.noncert.nc_current_online_freetext.v1''),
      (''NC_BUILD_SESSION_SCOPE'', ''tmpl.noncert.nc_build_session_scope.v1'')]"

definition COVERAGE :: "string list" where
  "COVERAGE =
     [''subject'', ''seal'', ''claims'', ''tiers'', ''evidence_digests'', ''non_claims'', ''disclosure_profile'',
      ''privacy_mode'', ''sdk_identity'', ''compiler_register_versions'', ''key_ring_identifiers'', ''freshness'']"

section \<open>Context and policy\<close>

record verification_context =
  expected_nonce :: ustr
  expected_build_session_ref :: ustr
  expected_issuer_key_ref :: ustr
  expected_issuer_algorithm :: ustr
  expected_trust_ring_ref :: ustr
  expected_project_ref :: "ustr option"
  expected_client_key_ref :: "ustr option"
  expected_client_algorithm :: "ustr option"
  client_public_key :: "key_object option"

definition opt_str :: "ustr option \<Rightarrow> json" where
  "opt_str s = (case s of None \<Rightarrow> JNull | Some s \<Rightarrow> JStr s)"

record relying_party_policy =
  compiler_register_versions :: "(ustr \<times> ustr) list"
  verifier_bindings :: "(ustr \<times> ustr \<times> ustr) list"

text \<open>\<open>__post_init__\<close>: the keys and verifier ids are the contract's, in its order.\<close>

definition make_policy :: "(ustr \<times> ustr) list \<Rightarrow> (ustr \<times> ustr \<times> ustr) list \<Rightarrow> cert_error + relying_party_policy" where
  "make_policy registers bindings =
     (if map fst registers \<noteq> map U COMPILER_REGISTER_KEYS \<or> map fst bindings \<noteq> map U VERIFIER_POLICY_IDS
      then Inl PyValueErr
      else Inr \<lparr>compiler_register_versions = registers, verifier_bindings = bindings\<rparr>)"

section \<open>Manifest and seal\<close>

definition has_exact_keys :: "json \<Rightarrow> string list \<Rightarrow> bool" where
  "has_exact_keys t keys = (is_dict t \<and> fst ` set (members t) = U ` set keys)"

definition MANIFEST_KEYS :: "string list" where
  "MANIFEST_KEYS =
     [''subject'', ''seal'', ''claims'', ''tiers'', ''evidence_digests'', ''non_claims'', ''privacy_mode'',
      ''sdk_identity'', ''compiler_register_versions'', ''key_ring_identifiers'', ''freshness'', ''disclosure_profile'']"

definition manifest_bytes :: "cert_env \<Rightarrow> json \<Rightarrow> cert_error + byte list" where
  "manifest_bytes env manifest =
     rbind (in_turn
       [fail_if (\<not> has_exact_keys manifest MANIFEST_KEYS) ''MANIFEST_SHAPE'',
        fail_if (schema env UnsignedManifestSchema manifest \<noteq> Conforms) ''MANIFEST_SCHEMA'']) (\<lambda>_.
       (case canonical_text manifest of
          None \<Rightarrow> Inl (Failed ''MANIFEST_NOT_FP2'')
        | Some text \<Rightarrow> Inr (utf8 text)))"

definition issuer_material :: "byte list \<Rightarrow> cert_error + byte list" where
  "issuer_material manifest = length_prefixed_fields ISSUER_DOMAIN [manifest]"

definition client_material :: "byte list \<Rightarrow> cert_error + byte list" where
  "client_material projection =
     (if 2 ^ 64 \<le> length projection then Inl (Failed ''MATERIAL'')
      else length_prefixed_fields CLIENT_DOMAIN [projection])"

definition SEAL_KEYS :: "string list" where
  "SEAL_KEYS =
     [''seal_ref'', ''chain_schema_version'', ''build_session_ref'', ''expected_stream_projection'',
      ''seal_statement_digest'']"

definition without_member :: "string \<Rightarrow> json \<Rightarrow> json" where
  "without_member key t = JObj (filter (\<lambda>kt. fst kt \<noteq> U key) (members t))"

definition compute_seal_digest :: "cert_env \<Rightarrow> json \<Rightarrow> cert_error + ustr" where
  "compute_seal_digest env seal =
     rbind (fail_if (\<not> has_exact_keys seal SEAL_KEYS) ''SEAL_DIGEST'') (\<lambda>_.
       (case canonical_text (without_member ''seal_statement_digest'' seal) of
          None \<Rightarrow> Inl (Failed ''SEAL_DIGEST'')
        | Some text \<Rightarrow> Inr (SHA256_PREFIX @ hexdigest (hash env (SEAL_DOMAIN @ 0 # utf8 text)))))"

definition check_stream :: "json \<Rightarrow> string \<times> string \<times> string \<Rightarrow> cert_error + unit" where
  "check_stream projection = (\<lambda>(name, family, status).
     (let stream = get_member projection name in
      fail_if (\<not> is_dict stream \<or> \<not> py_eq (get_member stream ''stream_family'') (jstr family) \<or>
        \<not> py_eq (get_member stream ''chain_status'') (jstr status) \<or>
        json_member stream (U ''root_commitment'') = None \<or>
        py_eq (get_member stream ''root_commitment'') ZERO_DIGEST) ''LEDGER_STREAM''))"

definition check_streams :: "cert_env \<Rightarrow> json \<Rightarrow> cert_error + unit" where
  "check_streams env seal =
     rbind (must_equal ''LEDGER_PROFILE'' (get_item seal ''chain_schema_version'')
              (Inr (jstr BUILD_LEDGER_CHAIN_SCHEMA_VERSION))) (\<lambda>_.
     rbind (must_equal ''SEAL_DIGEST'' (get_item seal ''seal_statement_digest'')
              (rbind (compute_seal_digest env seal) (\<lambda>d. Inr (JStr d)))) (\<lambda>_.
     rbind (get_item seal ''expected_stream_projection'') (\<lambda>projection.
     rbind (fail_if (\<not> has_exact_keys projection (map fst STREAM_FAMILIES)) ''LEDGER_STREAM'') (\<lambda>_.
       check_all (check_stream projection) STREAM_FAMILIES))))"

section \<open>Policy\<close>

text \<open>\<open>{key: d[key] for key in keys}\<close>.\<close>

definition selected :: "json \<Rightarrow> string list \<Rightarrow> cert_error + json" where
  "selected d keys = rbind (traverse (field d) keys) (\<lambda>vs. Inr (JObj (zip (map U keys) vs)))"

definition allowed_verifier :: "relying_party_policy \<Rightarrow> json \<Rightarrow> cert_error + ustr \<times> ustr" where
  "allowed_verifier policy claim_id =
     (case claim_id of
        JStr s \<Rightarrow> (case map_of (verifier_bindings policy) s of None \<Rightarrow> Inl PyKeyErr | Some v \<Rightarrow> Inr v)
      | _ \<Rightarrow> Inl (if is_container claim_id then PyTypeErr else PyKeyErr))"

definition check_claim_policy :: "relying_party_policy \<Rightarrow> json \<Rightarrow> cert_error + unit" where
  "check_claim_policy policy claim =
     rbind (recast key_or_type ''POLICY''
       (rbind (field claim ''verifier'') (\<lambda>verifier.
        rbind (field claim ''claim_id'') (\<lambda>claim_id.
        rbind (allowed_verifier policy claim_id) (\<lambda>expected. Inr (verifier, expected))))))
       (\<lambda>(verifier, expected).
          rbind (field verifier ''verifier_id'') (\<lambda>ident.
          rbind (field verifier ''verifier_version'') (\<lambda>version.
            fail_if (\<not> py_eq ident (JStr (fst expected)) \<or> \<not> py_eq version (JStr (snd expected))) ''POLICY'')))"

definition check_policy :: "json \<Rightarrow> json \<Rightarrow> relying_party_policy \<Rightarrow> cert_error + unit" where
  "check_policy certificate manifest policy =
     (let expected = JObj (map (\<lambda>(k, v). (k, JStr v)) (compiler_register_versions policy)) in
      rbind (must_equal ''POLICY'' (field manifest ''compiler_register_versions'') (Inr expected)) (\<lambda>_.
      rbind (must_equal ''POLICY''
               (rbind (traverse (\<lambda>key. path_to certificate [''semantics'', key]) SEMANTICS_KEYS)
                  (\<lambda>vs. Inr (JObj (zip (map U SEMANTICS_KEYS) vs))))
               (selected expected SEMANTICS_KEYS)) (\<lambda>_.
      rbind (rbind (field certificate ''claims'') iterate) (\<lambda>claims.
        check_all (check_claim_policy policy) claims))))"

section \<open>Projections\<close>

definition projected_member :: "json \<Rightarrow> json \<Rightarrow> string \<times> string \<times> string \<Rightarrow> cert_error + unit" where
  "projected_member certificate manifest = (\<lambda>(key, source, code).
     must_equal code (field manifest key) (field certificate source))"

definition expected_non_claims :: json where
  "expected_non_claims =
     JArr (map (\<lambda>(ident, template).
       JObj [(U ''record_type'', jstr ''non_claim''), (U ''non_claim_id'', jstr ident),
             (U ''reason_template_id'', jstr template)]) NON_CLAIMS)"

definition claim_tier :: "json \<Rightarrow> cert_error + json" where
  "claim_tier claim =
     rbind (field claim ''claim_id'') (\<lambda>claim_id.
     rbind (field claim ''tier'') (\<lambda>tier. Inr (JObj [(U ''claim_id'', claim_id), (U ''tier'', tier)])))"

text \<open>The markers seen and the evidence expected; a marker is a hashed pair.\<close>

definition add_evidence ::
  "(json \<times> json) list \<times> json list \<Rightarrow> json \<Rightarrow> cert_error + (json \<times> json) list \<times> json list" where
  "add_evidence st ref =
     rbind (field ref ''evidence_kind'') (\<lambda>kind.
     rbind (field ref ''evidence_digest'') (\<lambda>digest.
       if is_container kind \<or> is_container digest then Inl PyTypeErr
       else if list_ex (\<lambda>(k, d). py_eq k kind \<and> py_eq d digest) (fst st) then Inr st
       else Inr ((kind, digest) # fst st, snd st @ [ref])))"

definition add_claim_evidence ::
  "(json \<times> json) list \<times> json list \<Rightarrow> json \<Rightarrow> cert_error + (json \<times> json) list \<times> json list" where
  "add_claim_evidence st claim =
     rbind (rbind (field claim ''evidence_refs'') iterate) (fold_steps add_evidence st)"

definition expected_evidence :: "json list \<Rightarrow> ustr \<Rightarrow> cert_error + json" where
  "expected_evidence claims audit_digest =
     (let audit = jstr ''audit_report_digest'' in
      rbind (fold_steps add_claim_evidence
               ([(audit, JStr audit_digest)],
                [JObj [(U ''evidence_kind'', audit), (U ''evidence_digest'', JStr audit_digest)]]) claims)
        (\<lambda>st. Inr (JArr (snd st))))"

definition check_projections :: "json \<Rightarrow> json \<Rightarrow> ustr \<Rightarrow> cert_error + unit" where
  "check_projections certificate manifest audit_digest =
     rbind (check_all (projected_member certificate manifest)
       [(''subject'', ''subject'', ''SUBJECT_BINDING''),
        (''seal'', ''ledger_seal_projection'', ''SEAL_BINDING''),
        (''claims'', ''claims'', ''CLAIMS_BINDING''),
        (''non_claims'', ''non_claims'', ''NON_CLAIMS_BINDING''),
        (''disclosure_profile'', ''disclosure_profile'', ''DISCLOSURE_PROFILE_BINDING'')]) (\<lambda>_.
     rbind (must_equal ''SESSION_REF'' (path_to certificate [''subject'', ''build_session_ref''])
              (path_to certificate [''ledger_seal_projection'', ''build_session_ref''])) (\<lambda>_.
     rbind (must_equal ''NON_CLAIMS'' (field certificate ''non_claims'') (Inr expected_non_claims)) (\<lambda>_.
     rbind (rbind (field certificate ''claims'') iterate) (\<lambda>claims.
     rbind (traverse claim_tier claims) (\<lambda>tiers.
     rbind (must_equal ''TIERS'' (field manifest ''tiers'') (Inr (JArr tiers))) (\<lambda>_.
     rbind (expected_evidence claims audit_digest) (\<lambda>evidence.
       must_equal ''EVIDENCE_PROJECTION'' (field manifest ''evidence_digests'') (Inr evidence))))))))"

section \<open>Printed claims\<close>

text \<open>The references of a claim with their kinds; the claim's own are those not of the audit report.\<close>

definition kinded_refs :: "json \<Rightarrow> cert_error + (json \<times> json) list" where
  "kinded_refs claim =
     rbind (rbind (field claim ''evidence_refs'') iterate)
       (traverse (\<lambda>ref. rbind (field ref ''evidence_kind'') (\<lambda>kind. Inr (kind, ref))))"

definition is_audit_kind :: "json \<Rightarrow> bool" where
  "is_audit_kind kind = py_eq kind (jstr ''audit_report_digest'')"

definition audit_refs :: "json \<Rightarrow> cert_error + json list" where
  "audit_refs claim = rbind (kinded_refs claim) (\<lambda>rs. Inr (map snd (filter (\<lambda>r. is_audit_kind (fst r)) rs)))"

definition own_refs :: "json \<Rightarrow> cert_error + json list" where
  "own_refs claim = rbind (kinded_refs claim) (\<lambda>rs. Inr (map snd (filter (\<lambda>r. \<not> is_audit_kind (fst r)) rs)))"

definition claim_material :: "json \<Rightarrow> cert_error + json" where
  "claim_material claim =
     rbind (field claim ''claim_id'') (\<lambda>claim_id.
     rbind (field claim ''tier'') (\<lambda>tier.
     rbind (field claim ''payload'') (\<lambda>payload.
     rbind (field claim ''verifier'') (\<lambda>verifier.
     rbind (own_refs claim) (\<lambda>refs.
     rbind (field claim ''rendered_text'') (\<lambda>rendered.
       Inr (JObj [(U ''claim_id'', claim_id), (U ''tier'', tier), (U ''payload'', payload),
         (U ''verifier'', verifier), (U ''evidence_refs'', JArr refs), (U ''rendered_text'', rendered)])))))))"

text \<open>\<open>str(value)\<close> as \<open>format\<close> inserts it.\<close>

fun float_repr :: "pyfloat \<Rightarrow> ustr" where
  "float_repr FNaN = U ''nan''"
| "float_repr (FInf neg) = U (if neg then ''-inf'' else ''inf'')"
| "float_repr (FZero neg) = U (if neg then ''-0.0'' else ''0.0'')"
| "float_repr (FDec neg ds n) = (if neg then U ''-'' else []) @ py_repr_dec ds n"

fun formatted :: "cert_env \<Rightarrow> json \<Rightarrow> cert_error + ustr" where
  "formatted env (JStr s) = Inr s"
| "formatted env (JInt i) =
     (if 4300 < length (nat_digits (nat \<bar>i\<bar>)) then Inl PyValueErr else Inr (int_text i))"
| "formatted env (JBool b) = Inr (U (if b then ''True'' else ''False''))"
| "formatted env JNull = Inr (U ''None'')"
| "formatted env (JFloat f) = Inr (float_repr f)"
| "formatted env t = Inr (container_repr env t)"

text \<open>The one template of the packaged catalog, \<open>TemplateG1V2\<close>.\<close>

definition render_g1_text :: "cert_env \<Rightarrow> json \<Rightarrow> cert_error + ustr" where
  "render_g1_text env params =
     recast (\<lambda>e. e = PyKeyErr \<or> value_error_like e) ''CLAIM_RENDERING''
       (rbind (field params ''manifest_root_digest'') (\<lambda>m.
        rbind (field params ''commitment_scheme'') (\<lambda>s.
        rbind (field params ''client_attestor_version'') (\<lambda>v.
        rbind (formatted env m) (\<lambda>m.
        rbind (formatted env s) (\<lambda>s.
        rbind (formatted env v) (\<lambda>v.
          Inr (U ''The pinned client key co-signed the declaration that evidence-manifest root '' @ m @
               U '' uses scheme '' @ s @ U '' and client attestor version '' @ v @
               U ''. The declaration is unopened; correspondence to, possession of, and completeness of any underlying evidence are not proven.''))))))))"

definition sole_ref :: "string \<Rightarrow> json list \<Rightarrow> string \<Rightarrow> json \<Rightarrow> cert_error + unit" where
  "sole_ref code refs kind value =
     rbind (fail_if (length refs \<noteq> 1) code) (\<lambda>_.
     rbind (must_equal code (field (hd refs) ''evidence_kind'') (Inr (jstr kind))) (\<lambda>_.
       must_equal code (field (hd refs) ''evidence_digest'') (Inr value)))"

definition check_printed_g1_claim :: "cert_env \<Rightarrow> json \<Rightarrow> json \<Rightarrow> json list \<Rightarrow> json \<Rightarrow> cert_error + unit" where
  "check_printed_g1_claim env claim params refs audit =
     rbind (must_equal ''CLAIM_STATUS'' (field claim ''tier'') (Inr (JInt 1))) (\<lambda>_.
     rbind (field params ''manifest_root_digest'') (\<lambda>root.
     rbind (fail_if (py_eq root ZERO_DIGEST) ''CLIENT_ROOT'') (\<lambda>_.
     rbind (must_equal ''CLIENT_ROOT'' (Inr root) (field audit ''client_evidence_manifest_root'')) (\<lambda>_.
     rbind (sole_ref ''CLIENT_ROOT'' refs ''client_commitment_digest'' root) (\<lambda>_.
       must_equal ''CLAIM_RENDERING'' (get_item claim ''rendered_text'')
         (rbind (render_g1_text env params) (\<lambda>s. Inr (JStr s))))))))"

definition as_text :: "json \<Rightarrow> cert_error + ustr" where
  "as_text t = (case t of JStr s \<Rightarrow> Inr s | _ \<Rightarrow> Inl PyTypeErr)"

definition check_printed_b1_claim :: "json \<Rightarrow> json \<Rightarrow> json \<Rightarrow> json list \<Rightarrow> json \<Rightarrow> cert_error + unit" where
  "check_printed_b1_claim certificate claim params refs audit =
     rbind (must_equal ''CLAIM_STATUS'' (field claim ''tier'') (Inr (JInt 3))) (\<lambda>_.
     rbind (get_item audit ''ledger_seal_statement_digest'') (\<lambda>seal.
     rbind (must_equal ''SEAL_BINDING'' (field params ''seal_statement_digest'') (Inr seal)) (\<lambda>_.
     rbind (must_equal ''SEAL_BINDING'' (field params ''seal_ref'')
              (path_to certificate [''ledger_seal_projection'', ''seal_ref''])) (\<lambda>_.
     rbind (sole_ref ''SEAL_BINDING'' refs ''seal_statement'' seal) (\<lambda>_.
     rbind (rbind (field params ''seal_ref'') as_text) (\<lambda>seal_ref.
     rbind (rbind (field params ''seal_statement_digest'') as_text) (\<lambda>digest.
       must_equal ''CLAIM_RENDERING'' (get_item claim ''rendered_text'')
         (Inr (JStr (U ''The issuer signed this seal statement: seal '' @ seal_ref @
            U '', canonical seal-statement digest '' @ digest @ U ''.''))))))))))"

definition check_printed_claim :: "cert_env \<Rightarrow> json \<Rightarrow> json \<Rightarrow> ustr \<Rightarrow> json \<Rightarrow> cert_error + unit" where
  "check_printed_claim env certificate audit audit_digest claim =
     rbind (audit_refs claim) (\<lambda>ars.
     rbind (fail_if (length ars \<noteq> 1) ''AUDIT_BINDING'') (\<lambda>_.
     rbind (must_equal ''AUDIT_BINDING'' (field (hd ars) ''evidence_digest'') (Inr (JStr audit_digest))) (\<lambda>_.
     rbind (must_equal ''CLAIM_STATUS'' (path_to claim [''verifier'', ''result'']) (Inr (jstr ''PASS''))) (\<lambda>_.
     rbind (path_to claim [''payload'', ''params'']) (\<lambda>params.
     rbind (own_refs claim) (\<lambda>refs.
     rbind (field claim ''claim_id'') (\<lambda>claim_id.
       if py_eq claim_id (jstr ''G1'') then check_printed_g1_claim env claim params refs audit
       else check_printed_b1_claim certificate claim params refs audit)))))))"

text \<open>The claims by their ids, which are then two distinct strings at most.\<close>

definition check_printed_claims :: "cert_env \<Rightarrow> json \<Rightarrow> json \<Rightarrow> ustr \<Rightarrow> cert_error + (json \<times> json) list" where
  "check_printed_claims env certificate audit audit_digest =
     rbind (rbind (field certificate ''claims'') iterate) (\<lambda>claims.
     rbind (traverse (\<lambda>claim. rbind (field claim ''claim_id'')
              (\<lambda>i. if is_container i then Inl PyTypeErr else Inr (i, claim))) claims) (\<lambda>by_id.
     rbind (fail_if (\<not> distinct (map fst by_id) \<or> \<not> list_all (\<lambda>i. i \<in> {jstr ''B1'', jstr ''G1''}) (map fst by_id))
              ''CLAIM_ID'') (\<lambda>_.
     rbind (check_all (check_printed_claim env certificate audit audit_digest) claims) (\<lambda>_.
       Inr by_id))))"

section \<open>Audit report\<close>

definition check_audit_row :: "cert_env \<Rightarrow> (json \<times> json) list \<Rightarrow> json \<Rightarrow> cert_error + unit" where
  "check_audit_row env by_id row =
     rbind (field row ''evidence_basis'') (\<lambda>basis.
     rbind (field row ''claim_id'') (\<lambda>claim_id.
       if is_container claim_id then Inl PyTypeErr
       else case map_of by_id claim_id of
         None \<Rightarrow>
           rbind (fail_if (\<not> py_eq basis (jstr ''abstained'')) ''AUDIT_STATUS'') (\<lambda>_.
             must_equal ''AUDIT_STATUS'' (field row ''abstention_code'') (ABSTENTION_CODE claim_id))
       | Some claim \<Rightarrow>
           rbind (fail_if (\<not> py_eq basis (jstr (if claim_id = jstr ''B1'' then ''issuer_verified'' else ''client_declared'')))
                    ''AUDIT_STATUS'') (\<lambda>_.
           rbind (must_equal ''AUDIT_STATUS'' (field row ''verifier'') (field claim ''verifier'')) (\<lambda>_.
             must_equal ''CLAIM_MATERIAL'' (field row ''claim_material_digest'')
               (rbind (claim_material claim) (\<lambda>m.
                rbind (role_digest env CLAIM_MATERIAL_DOMAIN m) (\<lambda>d. Inr (JStr d))))))))"

definition check_audit_rows :: "cert_env \<Rightarrow> json \<Rightarrow> (json \<times> json) list \<Rightarrow> cert_error + unit" where
  "check_audit_rows env audit by_id =
     rbind (rbind (field audit ''claim_support_rows'') iterate) (\<lambda>rows.
     rbind (traverse (\<lambda>row. field row ''claim_id'') rows) (\<lambda>ids.
     rbind (fail_if (\<not> py_eq (JArr ids) (JArr (map jstr AUDIT_ROWS))) ''AUDIT_ROWS'') (\<lambda>_.
       check_all (check_audit_row env by_id) rows)))"

definition check_audit_bindings :: "json \<Rightarrow> json \<Rightarrow> json \<Rightarrow> (json \<times> json) list \<Rightarrow> cert_error + unit" where
  "check_audit_bindings certificate manifest audit by_id =
     rbind (must_equal ''SESSION_REF'' (field audit ''build_session_ref'')
              (path_to certificate [''subject'', ''build_session_ref''])) (\<lambda>_.
     rbind (must_equal ''SEAL_DIGEST'' (field audit ''ledger_seal_statement_digest'')
              (path_to certificate [''ledger_seal_projection'', ''seal_statement_digest''])) (\<lambda>_.
     rbind (must_equal ''COMPILER_REGISTERS'' (field audit ''compiler_register_versions'')
              (field manifest ''compiler_register_versions'')) (\<lambda>_.
       (case map_of by_id (jstr ''G1'') of
          Some claim \<Rightarrow>
            must_equal ''CLIENT_ROOT'' (field audit ''client_evidence_manifest_root'')
              (path_to claim [''payload'', ''params'', ''manifest_root_digest''])
        | None \<Rightarrow>
            rbind (field audit ''client_evidence_manifest_root'') (\<lambda>root.
              fail_if (root \<noteq> JNull) ''CLIENT_ROOT'')))))"

definition check_claims_and_audit :: "cert_env \<Rightarrow> json \<Rightarrow> json \<Rightarrow> json \<Rightarrow> ustr \<Rightarrow> cert_error + unit" where
  "check_claims_and_audit env certificate manifest audit audit_digest =
     rbind (check_printed_claims env certificate audit audit_digest) (\<lambda>by_id.
     rbind (check_audit_rows env audit by_id) (\<lambda>_.
       check_audit_bindings certificate manifest audit by_id))"

section \<open>Context\<close>

definition check_g1_binding :: "json \<Rightarrow> json \<Rightarrow> json \<Rightarrow> cert_error + unit" where
  "check_g1_binding manifest ring claim =
     rbind (field claim ''claim_id'') (\<lambda>claim_id.
       if \<not> py_eq claim_id (jstr ''G1'') then Inr ()
       else
         rbind (path_to claim [''payload'', ''params'']) (\<lambda>params.
         rbind (must_equal ''G1_BINDING'' (field params ''build_session_ref'')
                  (path_to manifest [''subject'', ''build_session_ref''])) (\<lambda>_.
           must_equal ''G1_BINDING'' (field params ''client_key_ref'') (field ring ''client_key_ref''))))"

definition check_client_ring_context ::
  "cert_env \<Rightarrow> json \<Rightarrow> json \<Rightarrow> verification_context \<Rightarrow> cert_error + unit" where
  "check_client_ring_context env manifest ring ctx =
     rbind (must_equal ''CONTEXT'' (Inr (opt_str (expected_client_key_ref ctx))) (field ring ''client_key_ref'')) (\<lambda>_.
     rbind (must_equal ''CONTEXT'' (Inr (opt_str (expected_client_algorithm ctx)))
              (field ring ''client_signature_algorithm'')) (\<lambda>_.
     rbind (case (expected_project_ref ctx, client_public_key ctx) of
              (Some project, Some key) \<Rightarrow> Inr (project, key)
            | _ \<Rightarrow> Inl (Failed ''CLIENT_KEY_CONTEXT'')) (\<lambda>(project, key).
     rbind (field ring ''client_signature_algorithm'') (\<lambda>algorithm.
     rbind (derive_client_key_ref env project algorithm key) (\<lambda>key_ref.
     rbind (must_equal ''CLIENT_KEY_CONTEXT'' (Inr (JStr key_ref)) (field ring ''client_key_ref'')) (\<lambda>_.
     rbind (rbind (field manifest ''claims'') iterate) (\<lambda>claims.
       check_all (check_g1_binding manifest ring) claims)))))))"

definition check_context :: "cert_env \<Rightarrow> json \<Rightarrow> json \<Rightarrow> verification_context \<Rightarrow> cert_error + unit" where
  "check_context env manifest signatures ctx =
     rbind (case expected_project_ref ctx of
              None \<Rightarrow> Inl (Failed ''PROJECT_CONTEXT'')
            | Some project \<Rightarrow> fail_if (\<not> is_project_ref project) ''PROJECT_CONTEXT'') (\<lambda>_.
     rbind (field manifest ''key_ring_identifiers'') (\<lambda>ring.
     rbind (field signatures ''issuer_signature'') (\<lambda>issuer.
     rbind (in_turn
       [must_equal ''CONTEXT'' (Inr (JStr (expected_nonce ctx))) (path_to manifest [''freshness'', ''nonce'']),
        must_equal ''CONTEXT'' (Inr (JStr (expected_build_session_ref ctx))) (path_to manifest [''subject'', ''build_session_ref'']),
        must_equal ''CONTEXT'' (Inr (opt_str (expected_project_ref ctx))) (path_to manifest [''subject'', ''project_ref'']),
        must_equal ''CONTEXT'' (Inr (JStr (expected_issuer_key_ref ctx))) (field ring ''issuer_key_ref''),
        must_equal ''CONTEXT'' (Inr (JStr (expected_issuer_algorithm ctx))) (field ring ''issuer_signature_algorithm''),
        must_equal ''CONTEXT'' (Inr (JStr (expected_trust_ring_ref ctx))) (field ring ''trust_ring_ref''),
        must_equal ''CONTEXT'' (field issuer ''issuer_key_ref'') (field ring ''issuer_key_ref''),
        must_equal ''CONTEXT'' (field issuer ''algorithm'') (field ring ''issuer_signature_algorithm''),
        must_equal ''CONTEXT'' (field issuer ''trust_ring_ref'') (field ring ''trust_ring_ref'')]) (\<lambda>_.
     rbind (has_key ring ''client_key_ref'') (\<lambda>has_client.
     rbind (has_key ring ''client_signature_algorithm'') (\<lambda>has_algorithm.
     rbind (fail_if (has_client \<noteq> has_algorithm) ''KEY_RING'') (\<lambda>_.
       if has_client then check_client_ring_context env manifest ring ctx
       else fail_if (expected_client_key_ref ctx \<noteq> None \<or> expected_client_algorithm ctx \<noteq> None)
              ''CLIENT_KEY_CONTEXT'')))))))"

section \<open>The document\<close>

record validated =
  v_signatures :: json
  v_unsigned :: json
  v_manifest_bytes :: "byte list"

definition key_strings :: "json list \<Rightarrow> ustr list" where
  "key_strings ks = map (\<lambda>k. case k of JStr s \<Rightarrow> s | _ \<Rightarrow> []) ks"

definition check_semantics :: "json \<Rightarrow> json \<Rightarrow> cert_error + unit" where
  "check_semantics document manifest =
     rbind (field document ''semantics'') (\<lambda>semantics.
     rbind (iterate semantics) (\<lambda>ks.
     rbind (traverse (\<lambda>k. rbind (field manifest ''compiler_register_versions'') (\<lambda>regs. subscript regs k)) ks) (\<lambda>vs.
       fail_if (\<not> (is_dict semantics \<and> py_eq semantics (JObj (zip (key_strings ks) vs)))) ''SEMANTICS'')))"

definition validated_document :: "cert_env \<Rightarrow> json \<Rightarrow> relying_party_policy \<Rightarrow> cert_error + validated" where
  "validated_document env document policy =
     rbind (fail_if (\<not> is_dict document) ''ENVELOPE_SHAPE'') (\<lambda>_.
     rbind (fail_if (schema env CertificateSchema document \<noteq> Conforms) ''SCHEMA'') (\<lambda>_.
     rbind (field document ''signatures'') (\<lambda>signatures.
     rbind (field signatures ''unsigned_manifest'') (\<lambda>unsigned_ref.
     rbind (field unsigned_ref ''document'') (\<lambda>manifest.
     rbind (manifest_bytes env manifest) (\<lambda>bytes.
     rbind (role_digest env UNSIGNED_DOMAIN manifest) (\<lambda>manifest_digest.
     rbind (field document ''audit_report'') (\<lambda>audit.
     rbind (role_digest env AUDIT_DOMAIN audit) (\<lambda>audit_digest.
     rbind (must_equal ''MANIFEST_DIGEST'' (field unsigned_ref ''manifest_digest'') (Inr (JStr manifest_digest))) (\<lambda>_.
     rbind (check_policy document manifest policy) (\<lambda>_.
     rbind (rbind (field unsigned_ref ''coverage'') iterate) (\<lambda>coverage.
     rbind (in_turn
       [fail_if (\<not> py_eq (JArr coverage) (JArr (map jstr COVERAGE))) ''COVERAGE'',
        must_equal ''SESSION_REF'' (field audit ''build_session_ref'')
          (path_to document [''subject'', ''build_session_ref'']),
        must_equal ''SEAL_DIGEST'' (field audit ''ledger_seal_statement_digest'')
          (path_to document [''ledger_seal_projection'', ''seal_statement_digest'']),
        check_semantics document manifest,
        must_equal ''DISCLOSURE_PROFILE'' (field document ''disclosure_profile'') (field manifest ''disclosure_profile''),
        rbind (field document ''ledger_seal_projection'') (check_streams env),
        check_projections document manifest audit_digest,
        check_claims_and_audit env document manifest audit audit_digest]) (\<lambda>_.
       Inr \<lparr>v_signatures = signatures, v_unsigned = manifest, v_manifest_bytes = bytes\<rparr>)))))))))))))"

section \<open>The client's co-attestation\<close>

record client_projection =
  projection_bytes :: "byte list"
  signing_bytes :: "byte list"
  signed_manifest_digest :: ustr

text \<open>The document with \<open>co_attestation\<close> taken out of its signatures.\<close>

definition co_free :: "json \<Rightarrow> json" where
  "co_free document =
     JObj (map (\<lambda>kt. if fst kt = U ''signatures'' then (fst kt, without_member ''co_attestation'' (snd kt)) else kt)
             (members document))"

definition prepare_client_projection :: "cert_env \<Rightarrow> json \<Rightarrow> cert_error + client_projection" where
  "prepare_client_projection env document =
     rbind (field document ''signatures'') (\<lambda>signatures.
     rbind (fail_if (\<not> is_dict signatures) ''CO_PROJECTION'') (\<lambda>_.
     rbind (case canonical_text (co_free document) of
              None \<Rightarrow> Inl (Failed ''CO_PROJECTION'') | Some text \<Rightarrow> Inr (utf8 text)) (\<lambda>canonical.
     rbind (recast (\<lambda>e. e = Failed ''CANONICALIZATION'') ''CO_PROJECTION''
              (role_digest env CLIENT_CERTIFICATE_DOMAIN (co_free document))) (\<lambda>dgst.
     rbind (client_material canonical) (\<lambda>material.
       Inr \<lparr>projection_bytes = canonical, signing_bytes = material, signed_manifest_digest = dgst\<rparr>)))))"

definition check_no_client_key_context :: "json \<Rightarrow> verification_context \<Rightarrow> cert_error + unit" where
  "check_no_client_key_context manifest ctx =
     rbind (any_of (\<lambda>key. rbind (field manifest ''key_ring_identifiers'') (\<lambda>ring. has_key ring key))
              [''client_key_ref'', ''client_signature_algorithm'']) (\<lambda>present.
       fail_if (present \<or> expected_client_key_ref ctx \<noteq> None \<or> expected_client_algorithm ctx \<noteq> None \<or>
         client_public_key ctx \<noteq> None) ''CLIENT_KEY_CONTEXT'')"

definition check_co_bindings :: "json \<Rightarrow> json \<Rightarrow> verification_context \<Rightarrow> cert_error + unit" where
  "check_co_bindings co manifest ctx =
     in_turn
       [fail_if (client_public_key ctx = None) ''CLIENT_KEY_REQUIRED'',
        must_equal ''KEY_REF'' (field co ''client_key_ref'') (path_to manifest [''key_ring_identifiers'', ''client_key_ref'']),
        must_equal ''ALGORITHM'' (field co ''algorithm'')
          (path_to manifest [''key_ring_identifiers'', ''client_signature_algorithm'']),
        must_equal ''ALGORITHM'' (field co ''algorithm'') (Inr (opt_str (expected_client_algorithm ctx))),
        must_equal ''NONCE'' (field co ''nonce'') (path_to manifest [''freshness'', ''nonce'']),
        must_equal ''NONCE'' (field co ''nonce'') (Inr (JStr (expected_nonce ctx)))]"

definition client_claim :: "json \<Rightarrow> cert_error + bool" where
  "client_claim claim =
     rbind (field claim ''claim_id'') (\<lambda>claim_id.
       if py_eq claim_id (jstr ''G1'') then Inr True
       else rbind (field claim ''tier'') (\<lambda>tier. Inr (py_eq tier (JInt 1))))"

definition verify_co_attestation :: "cert_env \<Rightarrow> json \<Rightarrow> json \<Rightarrow> json \<Rightarrow> verification_context \<Rightarrow> cert_error + unit" where
  "verify_co_attestation env document signatures manifest ctx =
     rbind (rbind (field document ''claims'') iterate) (\<lambda>claims.
     rbind (any_of client_claim claims) (\<lambda>requires_co.
     rbind (has_key signatures ''co_attestation'') (\<lambda>has_co.
     rbind (fail_if (requires_co \<noteq> has_co) (if requires_co then ''CO_REQUIRED'' else ''CO_ZERO_CLAIMS'')) (\<lambda>_.
       if \<not> has_co then check_no_client_key_context manifest ctx
       else
         rbind (field signatures ''co_attestation'') (\<lambda>co.
         rbind (check_co_bindings co manifest ctx) (\<lambda>_.
         rbind (prepare_client_projection env document) (\<lambda>prepared.
         rbind (must_equal ''CO_PROJECTION'' (field co ''signed_manifest_digest'')
                  (Inr (JStr (signed_manifest_digest prepared)))) (\<lambda>_.
         rbind (rbind (field co ''signature'') decode_signature) (\<lambda>co_raw.
         rbind (field co ''algorithm'') (\<lambda>algorithm.
         rbind (fail_if (py_eq algorithm (jstr ''ecdsa_p256_sha256'') \<and> ECDSA_HALF_ORDER < os2ip (drop 32 co_raw))
                  ''CLIENT_SIGNATURE_NON_CANONICAL'') (\<lambda>_.
         rbind (field co ''signature'') (\<lambda>signature.
           verify_signature env (case client_public_key ctx of None \<Rightarrow> NotAKey | Some key \<Rightarrow> key) algorithm
             (signing_bytes prepared) signature))))))))))))"

section \<open>verify\_certificate\<close>

definition verify_steps ::
  "cert_env \<Rightarrow> json \<Rightarrow> key_object \<Rightarrow> verification_context \<Rightarrow> relying_party_policy \<Rightarrow> cert_error + unit" where
  "verify_steps env certificate issuer_public_key ctx policy =
     rbind (validated_document env certificate policy) (\<lambda>v.
     rbind (check_context env (v_unsigned v) (v_signatures v) ctx) (\<lambda>_.
     rbind (field (v_signatures v) ''issuer_signature'') (\<lambda>issuer.
     rbind (must_equal ''SIGNED_PAYLOAD'' (field issuer ''signed_payload'') (Inr (JArr [jstr ''unsigned_manifest'']))) (\<lambda>_.
     rbind (field issuer ''algorithm'') (\<lambda>algorithm.
     rbind (issuer_material (v_manifest_bytes v)) (\<lambda>material.
     rbind (field issuer ''signature'') (\<lambda>signature.
     rbind (verify_signature env issuer_public_key algorithm material signature) (\<lambda>_.
       verify_co_attestation env certificate (v_signatures v) (v_unsigned v) ctx))))))))"

text \<open>The one successful result is \<open>VERIFIED_SIGNATURE_ONLY\<close> with status \<open>not_checked\<close>.\<close>

definition verify_certificate ::
  "cert_env \<Rightarrow> json \<Rightarrow> key_object \<Rightarrow> verification_context \<Rightarrow> relying_party_policy \<Rightarrow> cert_error + unit" where
  "verify_certificate env certificate issuer_public_key ctx policy =
     recast (\<lambda>e. \<not> is_failed e) ''VERIFICATION_FAILED'' (verify_steps env certificate issuer_public_key ctx policy)"

end
