(* ===== verification/RelyingLaws.thy ===== *)
theory RelyingLaws
  imports RelyingParty PyEq
begin

text \<open>
  What accepting a certificate means: the issuer's signature covers the canonical manifest and the
  manifest determines what the envelope shows, the context's pins hold, every printed claim has its
  row in the audit report, and a client claim is there only under the client's signature over the
  whole document.
\<close>

section \<open>Access\<close>

text \<open>Certificates as a JSON parser returns them.\<close>

definition parsed :: "json \<Rightarrow> bool" where
  "parsed t \<longleftrightarrow> plain_json t \<and> wf_tree t"

lemma list_item_mem: "list_item xs i = Inr x \<Longrightarrow> x \<in> set xs"
  by (auto simp: list_item_def Let_def split: if_splits)

lemma subscript_parsed: "subscript t k = Inr v \<Longrightarrow> parsed t \<Longrightarrow> parsed v"
proof (cases t)
  case (JObj kts)
  assume "subscript t k = Inr v" "parsed t"
  with JObj obtain s where "map_of kts s = Some v" by (auto split: json.splits option.splits)
  with JObj \<open>parsed t\<close> show ?thesis by (fastforce simp: parsed_def dest: map_of_SomeD)
next
  case (JStr s)
  assume "subscript t k = Inr v" "parsed t"
  with JStr show ?thesis
    by (auto simp: parsed_def rbind_Inr_iff list_all_iff split: option.splits dest!: list_item_mem)
next
  case (JArr ts)
  assume "subscript t k = Inr v" "parsed t"
  with JArr show ?thesis by (auto simp: parsed_def split: option.splits dest!: list_item_mem)
qed auto

lemma path_parsed: "path_to t ks = Inr v \<Longrightarrow> parsed t \<Longrightarrow> parsed v"
  by (induction ks arbitrary: t) (auto simp: rbind_Inr_iff dest: subscript_parsed)

lemma field_dict: "is_dict t \<Longrightarrow> field t k = Inr v \<longleftrightarrow> map_of (members t) (U k) = Some v"
  by (cases t) (auto split: option.splits)

lemma py_eq_field:
  assumes "py_eq t u" "is_dict t" "field t k = Inr x" "field u k = Inr y"
  shows "py_eq x y"
proof -
  from assms(2) obtain kts where t: "t = JObj kts" by (cases t) auto
  with assms(1) obtain kus where u: "u = JObj kus"
    and eq: "\<forall>kt \<in> set kts. \<exists>v. map_of kus (fst kt) = Some v \<and> py_eq (snd kt) v" unfolding t py_eq_JObj by blast
  have "(U k, x) \<in> set kts" using assms(3) t by (auto split: option.splits dest: map_of_SomeD)
  with eq assms(4) u show ?thesis by (force split: option.splits)
qed

section \<open>Material\<close>

lemma canonical_text_Some: "canonical_text t = Some s \<longleftrightarrow> json_depth t \<le> MAX_DEPTH \<and> fp2_ok t \<and> s = canon t"
  by (auto simp: canonical_text_def)

lemma canonical_bytes_bind:
  assumes "canonical_text t = Some s" "canonical_text u = Some s'" "utf8 s = utf8 s'" "wf_tree t" "wf_tree u"
  shows "Fp2Text.norm t = Fp2Text.norm u"
proof -
  have "s = s'"
    using utf8_inject [of s s'] assms canon_valid [of t] canon_valid [of u] by (auto simp: canonical_text_Some)
  then show ?thesis using assms canon_eq_iff [of t u] by (auto simp: canonical_text_Some)
qed

lemma length_prefixed_Inr:
  "length_prefixed_fields domain parts = Inr m \<longleftrightarrow>
   domain \<noteq> [] \<and> (\<forall>p \<in> set parts. length p < 2 ^ 64) \<and> m = domain @ concat (map (\<lambda>f. i2osp (length f) 8 @ f) parts)"
  by (auto simp: length_prefixed_fields_def list_ex_iff simp flip: not_le)

lemma prefixed_concat_inject:
  assumes "concat (map (\<lambda>f. i2osp (length f) 8 @ f) ps) = concat (map (\<lambda>f. i2osp (length f) 8 @ f) qs)"
    and "length ps = length qs" "\<forall>p \<in> set ps. length p < 2 ^ 64" "\<forall>p \<in> set qs. length p < 2 ^ 64"
  shows "ps = qs"
  using assms(2,1,3,4)
proof (induction ps qs rule: list_induct2)
  case (Cons p ps q qs)
  from Cons.prems(1) have "i2osp (length p) 8 = i2osp (length q) 8"
    and rest: "p @ concat (map (\<lambda>f. i2osp (length f) 8 @ f) ps) = q @ concat (map (\<lambda>f. i2osp (length f) 8 @ f) qs)"
    by simp_all
  moreover have "length p < 256 ^ 8" "length q < 256 ^ 8" using Cons.prems(2,3) by simp_all
  ultimately have l: "length p = length q" using i2osp_inject by blast
  with rest show ?case using Cons.IH Cons.prems(2,3) by simp
qed simp

lemma length_prefixed_inject:
  assumes "length_prefixed_fields d ps = Inr m" "length_prefixed_fields d qs = Inr m" "length ps = length qs"
  shows "ps = qs"
  using assms prefixed_concat_inject [of ps qs] by (auto simp: length_prefixed_Inr)

lemma manifest_bytes_Inr:
  "manifest_bytes env m = Inr b \<longleftrightarrow>
   has_exact_keys m MANIFEST_KEYS \<and> schema env UnsignedManifestSchema m = Conforms \<and>
   (\<exists>s. canonical_text m = Some s \<and> b = utf8 s)"
  by (auto simp: manifest_bytes_def rbind_Inr_iff split: option.splits)

lemma client_material_Inr: "client_material b = Inr m \<longleftrightarrow> length_prefixed_fields CLIENT_DOMAIN [b] = Inr m"
  by (auto simp: client_material_def length_prefixed_Inr)

lemma tag_ascii:
  "list_all (\<lambda>c. 0 < c \<and> c < 128) (U d) \<Longrightarrow> d \<noteq> [] \<Longrightarrow> utf8 (U d) \<noteq> [] \<and> \<not> list_ex (\<lambda>b. 0x7F < b) (utf8 (U d))"
proof -
  assume a: "list_all (\<lambda>c. 0 < c \<and> c < 128) (U d)" "d \<noteq> []"
  then have u: "utf8 (U d) = map byte_of (U d)" by (intro utf8_less_128) (simp add: list_all_iff)
  have "\<not> 0x7F < byte_of c" if "c \<in> set (U d)" for c
    using a(1) that byte_of_nat_less [of 127 c] by (auto simp: list_all_iff byte_of_def)
  with u a(2) show ?thesis by (auto simp: list_ex_iff U_def)
qed

section \<open>Signatures\<close>

lemma length_b64_vals: "length (b64_vals bs) = (4 * length bs + 2) div 3"
  by (induction bs rule: b64_vals.induct) auto

lemma decode_signature_char: "decode_signature v = Inr raw \<longleftrightarrow> length raw = 64 \<and> v = JStr (std_b64 raw)"
proof
  assume "decode_signature v = Inr raw"
  then show "length raw = 64 \<and> v = JStr (std_b64 raw)"
    by (auto simp: decode_signature_def split: json.splits if_splits option.splits)
next
  assume a: "length raw = 64 \<and> v = JStr (std_b64 raw)"
  have "\<forall>n \<in> set (b64_vals raw). n < 64" using b64_vals_small [of raw] by (simp add: list_all_iff)
  moreover have "std_b64 raw = map std_b64_char (b64_vals raw) @ U ''==''"
    using a by (simp add: std_b64_def U_Cons numeral_2_eq_2)
  moreover have l: "length (b64_vals raw) = 86" using a by (simp add: length_b64_vals)
  ultimately have "length (std_b64 raw) = 88" "list_all (\<lambda>c. std_b64_value c \<noteq> None) (take 86 (std_b64 raw))"
    "drop 86 (std_b64 raw) = U ''==''"
    by (simp_all add: list_all_iff)
  then show "decode_signature v = Inr raw" using a by (simp add: decode_signature_def)
qed

text \<open>The text of an ECDSA signature.\<close>

definition ecdsa_text :: "nat \<Rightarrow> nat \<Rightarrow> json" where
  "ecdsa_text r s = JStr (std_b64 (i2osp r 32 @ i2osp s 32))"

lemma decode_ecdsa_text: "decode_signature (ecdsa_text r s) = Inr (i2osp r 32 @ i2osp s 32)"
  by (simp add: decode_signature_char ecdsa_text_def)

section \<open>What acceptance checks\<close>

lemma verify_facts:
  assumes "verify_certificate env c key ctx pol = Inr ()"
  obtains v issuer algorithm signature message where
    "validated_document env c pol = Inr v" "check_context env (v_unsigned v) (v_signatures v) ctx = Inr ()"
    "field (v_signatures v) ''issuer_signature'' = Inr issuer" "field issuer ''algorithm'' = Inr algorithm"
    "field issuer ''signature'' = Inr signature" "issuer_material (v_manifest_bytes v) = Inr message"
    "verify_signature env key algorithm message signature = Inr ()"
    "verify_co_attestation env c (v_signatures v) (v_unsigned v) ctx = Inr ()"
  using assms by (auto simp: verify_certificate_def verify_steps_def rbind_Inr_iff)

lemma validated_facts:
  assumes "validated_document env c pol = Inr v"
  obtains unsigned_ref audit audit_digest manifest_digest where
    "is_dict c" "field c ''signatures'' = Inr (v_signatures v)"
    "field (v_signatures v) ''unsigned_manifest'' = Inr unsigned_ref" "field unsigned_ref ''document'' = Inr (v_unsigned v)"
    "manifest_bytes env (v_unsigned v) = Inr (v_manifest_bytes v)"
    "field c ''audit_report'' = Inr audit" "role_digest env AUDIT_DOMAIN audit = Inr audit_digest"
    "role_digest env UNSIGNED_DOMAIN (v_unsigned v) = Inr manifest_digest"
    "check_policy c (v_unsigned v) pol = Inr ()"
    "check_projections c (v_unsigned v) audit_digest = Inr ()"
    "check_claims_and_audit env c (v_unsigned v) audit audit_digest = Inr ()"
  using assms by (auto simp: validated_document_def rbind_Inr_iff)

lemma projections_facts:
  assumes "check_projections c m d = Inr ()"
  shows "\<exists>x y. field m ''subject'' = Inr x \<and> field c ''subject'' = Inr y \<and> py_eq x y"
    "\<exists>x y. field m ''seal'' = Inr x \<and> field c ''ledger_seal_projection'' = Inr y \<and> py_eq x y"
    "\<exists>x y. field m ''claims'' = Inr x \<and> field c ''claims'' = Inr y \<and> py_eq x y"
    "\<exists>x y. field m ''non_claims'' = Inr x \<and> field c ''non_claims'' = Inr y \<and> py_eq x y"
    "\<exists>x y. field m ''disclosure_profile'' = Inr x \<and> field c ''disclosure_profile'' = Inr y \<and> py_eq x y"
  using assms by (auto simp: check_projections_def rbind_Inr_iff check_all_Inr_iff projected_member_def must_equal_Inr)

text \<open>The bytes under the issuer's signature.\<close>

definition issuer_message :: "cert_env \<Rightarrow> json \<Rightarrow> cert_error + byte list" where
  "issuer_message env c =
     rbind (path_to c [''signatures'', ''unsigned_manifest'', ''document'']) (\<lambda>m.
     rbind (manifest_bytes env m) issuer_material)"

lemma message_facts:
  assumes "verify_certificate env c key ctx pol = Inr ()"
  obtains m b message where "path_to c [''signatures'', ''unsigned_manifest'', ''document''] = Inr m"
    "manifest_bytes env m = Inr b" "issuer_message env c = Inr message" "issuer_material b = Inr message"
    "\<exists>d. check_projections c m d = Inr ()"
proof -
  from verify_facts [OF assms] obtain v message where
    v: "validated_document env c pol = Inr v" "issuer_material (v_manifest_bytes v) = Inr message" by metis
  from validated_facts [OF v(1)] obtain r d where
    "field c ''signatures'' = Inr (v_signatures v)" "field (v_signatures v) ''unsigned_manifest'' = Inr r"
    "field r ''document'' = Inr (v_unsigned v)" "manifest_bytes env (v_unsigned v) = Inr (v_manifest_bytes v)"
    "check_projections c (v_unsigned v) d = Inr ()" by metis
  then show ?thesis using that [of "v_unsigned v" "v_manifest_bytes v" message] v(2) by (auto simp: issuer_message_def)
qed

lemma shown_member:
  assumes "py_eq m m'" "is_dict m" "parsed m" "parsed m'" "parsed c" "parsed c'"
    and "\<exists>x y. field m k = Inr x \<and> field c l = Inr y \<and> py_eq x y"
    and "\<exists>x y. field m' k = Inr x \<and> field c' l = Inr y \<and> py_eq x y"
  shows "\<exists>x y. field c l = Inr x \<and> field c' l = Inr y \<and> py_eq x y"
proof -
  from assms(7,8) obtain x y x' y' where
    x: "field m k = Inr x" "field c l = Inr y" "py_eq x y" and x': "field m' k = Inr x'" "field c' l = Inr y'" "py_eq x' y'"
    by blast
  have p: "plain_json x" "plain_json y"
    using subscript_parsed [OF x(1) assms(3)] subscript_parsed [OF x(2) assms(5)] by (auto simp: parsed_def)
  have "py_eq y x" using py_eq_sym [OF x(3) p] .
  moreover have "py_eq x x'" using py_eq_field [OF assms(1,2) x(1) x'(1)] .
  ultimately have "py_eq y y'" using x'(3) py_eq_trans by blast
  with x(2) x'(2) show ?thesis by blast
qed

section \<open>Properties\<close>

text \<open>
  C7: If two accepted certificates carry the same message signed by the issuer, the subject,
  seal, claims, non-claims and disclosure profile that they print are equal: none of it can be
  changed under one signature.
\<close>

theorem issuer_signature_binds:
  assumes v: "verify_certificate env c key ctx pol = Inr ()" "verify_certificate env c' key' ctx' pol' = Inr ()"
    and message: "issuer_message env c = issuer_message env c'" and parsed: "parsed c" "parsed c'"
  shows "list_all (\<lambda>l. \<exists>x y. field c l = Inr x \<and> field c' l = Inr y \<and> py_eq x y)
    [''subject'', ''ledger_seal_projection'', ''claims'', ''non_claims'', ''disclosure_profile'']"
proof -
  obtain m b d t where m: "manifest_bytes env m = Inr b" "path_to c [''signatures'', ''unsigned_manifest'', ''document''] = Inr m"
    "issuer_message env c = Inr t" "check_projections c m d = Inr ()" "issuer_material b = Inr t"
    using message_facts [OF v(1)] by metis
  obtain m' b' d' t' where m': "manifest_bytes env m' = Inr b'" "path_to c' [''signatures'', ''unsigned_manifest'', ''document''] = Inr m'"
    "issuer_message env c' = Inr t'" "check_projections c' m' d' = Inr ()" "issuer_material b' = Inr t'"
    using message_facts [OF v(2)] by metis
  have p: "parsed m" "parsed m'" using path_parsed m(2) m'(2) parsed by blast+
  have "b = b'" using length_prefixed_inject [of ISSUER_DOMAIN "[b]" t "[b']"] message m(3,5) m'(3,5)
    by (simp add: issuer_material_def)
  then have "Fp2Text.norm m = Fp2Text.norm m'"
    using m(1) m'(1) p canonical_bytes_bind [of m _ m'] by (auto simp: manifest_bytes_Inr parsed_def)
  then have eq: "py_eq m m'" using norm_py_eq p by (simp add: parsed_def)
  have d: "is_dict m" using m(1) by (simp add: manifest_bytes_Inr has_exact_keys_def)
  note shown = shown_member [OF eq d p parsed]
  show ?thesis
    using shown [OF projections_facts(1) [OF m(4)] projections_facts(1) [OF m'(4)]]
      shown [OF projections_facts(2) [OF m(4)] projections_facts(2) [OF m'(4)]]
      shown [OF projections_facts(3) [OF m(4)] projections_facts(3) [OF m'(4)]]
      shown [OF projections_facts(4) [OF m(4)] projections_facts(4) [OF m'(4)]]
      shown [OF projections_facts(5) [OF m(4)] projections_facts(5) [OF m'(4)]]
    by simp
qed

theorem decode_signature_iff:
  "decode_signature v = Inr raw \<longleftrightarrow> length raw = 64 \<and> v = JStr (std_b64 raw)"
  by (rule decode_signature_char)

text \<open>
  C35: If the verifier accepts an ECDSA signature (r, s), it refuses the twin (r, n - s), which
  is as valid for the curve: signatures are not malleable.
\<close>

theorem twin_signature_refused:
  assumes "r < 2 ^ 256" "s < 2 ^ 256"
    and "verify_signature env (P256Key der) (jstr ''ecdsa_p256_sha256'') message (ecdsa_text r s) = Inr ()"
  shows "verify_signature env (P256Key der) (jstr ''ecdsa_p256_sha256'') message (ecdsa_text r (ECDSA_ORDER - s)) =
    Inl (Failed ''SIGNATURE_HIGH_S'')"
proof -
  have sizes: "os2ip (i2osp r 32) = r" "os2ip (i2osp s 32) = s" using assms(1,2) by (simp_all add: os2ip_i2osp)
  then have s: "1 \<le> r" "r < ECDSA_ORDER" "1 \<le> s" "s \<le> ECDSA_HALF_ORDER"
    using assms(3) by (auto simp: verify_signature_def decode_ecdsa_text)
  have "os2ip (i2osp (ECDSA_ORDER - s) 32) = ECDSA_ORDER - s" by (rule os2ip_i2osp) (simp add: ECDSA_ORDER_def)
  moreover have "1 \<le> ECDSA_ORDER - s" "ECDSA_ORDER - s < ECDSA_ORDER" "ECDSA_HALF_ORDER < ECDSA_ORDER - s"
    using s(3,4) by (simp_all add: ECDSA_ORDER_def ECDSA_HALF_ORDER_def)
  ultimately show ?thesis
    using s sizes by (simp add: verify_signature_def decode_ecdsa_text in_turn_def fail_if_def)
qed

lemma must_equal_JStr: "must_equal code (Inr (JStr s)) b = Inr u \<longleftrightarrow> b = Inr (JStr s)"
  by (auto simp: must_equal_Inr)

lemma must_equal_to_JStr: "must_equal code a (Inr (JStr s)) = Inr u \<longleftrightarrow> a = Inr (JStr s)"
  by (auto simp: must_equal_Inr)

lemma context_facts:
  assumes "check_context env m sigs ctx = Inr ()"
  obtains project ring issuer where "expected_project_ref ctx = Some project" "is_project_ref project"
    "field m ''key_ring_identifiers'' = Inr ring" "field sigs ''issuer_signature'' = Inr issuer"
    "path_to m [''freshness'', ''nonce''] = Inr (JStr (expected_nonce ctx))"
    "path_to m [''subject'', ''build_session_ref''] = Inr (JStr (expected_build_session_ref ctx))"
    "path_to m [''subject'', ''project_ref''] = Inr (JStr project)"
    "field ring ''issuer_key_ref'' = Inr (JStr (expected_issuer_key_ref ctx))"
    "field ring ''trust_ring_ref'' = Inr (JStr (expected_trust_ring_ref ctx))"
    "field issuer ''algorithm'' = Inr (JStr (expected_issuer_algorithm ctx))"
proof -
  from assms obtain project ring issuer where
    c: "expected_project_ref ctx = Some project" "is_project_ref project"
    "field m ''key_ring_identifiers'' = Inr ring" "field sigs ''issuer_signature'' = Inr issuer"
    "path_to m [''freshness'', ''nonce''] = Inr (JStr (expected_nonce ctx))"
    "path_to m [''subject'', ''build_session_ref''] = Inr (JStr (expected_build_session_ref ctx))"
    "path_to m [''subject'', ''project_ref''] = Inr (JStr project)"
    "field ring ''issuer_key_ref'' = Inr (JStr (expected_issuer_key_ref ctx))"
    "field ring ''trust_ring_ref'' = Inr (JStr (expected_trust_ring_ref ctx))"
    "field ring ''issuer_signature_algorithm'' = Inr (JStr (expected_issuer_algorithm ctx))"
    "must_equal ''CONTEXT'' (field issuer ''algorithm'') (field ring ''issuer_signature_algorithm'') = Inr ()"
    unfolding check_context_def rbind_Inr_iff in_turn_Inr must_equal_JStr
    by (auto simp: opt_str_def must_equal_JStr split: option.splits simp del: path_to.simps)
  from c(11) have "field issuer ''algorithm'' = Inr (JStr (expected_issuer_algorithm ctx))"
    unfolding c(10) by (simp add: must_equal_to_JStr)
  with c show ?thesis by (intro that)
qed


text \<open>Printed claims.\<close>

lemma claims_facts:
  assumes "check_claims_and_audit env c m audit d = Inr ()"
  obtains claims by_id rows where "rbind (field c ''claims'') iterate = Inr claims"
    "list_all2 (\<lambda>claim e. field claim ''claim_id'' = Inr (fst e) \<and> snd e = claim) claims by_id"
    "distinct (map fst by_id)" "\<forall>e \<in> set by_id. fst e \<in> {jstr ''B1'', jstr ''G1''}"
    "\<forall>claim \<in> set claims. check_printed_claim env c audit d claim = Inr ()"
    "rbind (field audit ''claim_support_rows'') iterate = Inr rows"
    "list_all2 (\<lambda>row i. field row ''claim_id'' = Inr i) rows (map jstr AUDIT_ROWS)"
    "\<forall>row \<in> set rows. check_audit_row env by_id row = Inr ()"
proof -
  from assms obtain by_id where p: "check_printed_claims env c audit d = Inr by_id" and r: "check_audit_rows env audit by_id = Inr ()"
    by (auto simp: check_claims_and_audit_def rbind_Inr_iff)
  from p obtain claims where "rbind (field c ''claims'') iterate = Inr claims"
    "traverse (\<lambda>claim. rbind (field claim ''claim_id'')
              (\<lambda>i. if is_container i then Inl PyTypeErr else Inr (i, claim))) claims = Inr by_id"
    "distinct (map fst by_id)" "\<forall>e \<in> set by_id. fst e \<in> {jstr ''B1'', jstr ''G1''}"
    "\<forall>claim \<in> set claims. check_printed_claim env c audit d claim = Inr ()"
    unfolding check_printed_claims_def rbind_Inr_iff check_all_Inr_iff
    by (auto simp: list_all_iff check_all_Inr_iff rbind_Inr_iff)
  moreover from this(2) have "list_all2 (\<lambda>claim e. field claim ''claim_id'' = Inr (fst e) \<and> snd e = claim) claims by_id"
    unfolding traverse_Inr_iff by (rule list.rel_mono_strong) (auto simp: rbind_Inr_iff split: if_splits)
  moreover from r obtain rows ids where "rbind (field audit ''claim_support_rows'') iterate = Inr rows"
    "traverse (\<lambda>row. field row ''claim_id'') rows = Inr ids" "py_eq (JArr ids) (JArr (map jstr AUDIT_ROWS))"
    "\<forall>row \<in> set rows. check_audit_row env by_id row = Inr ()"
    unfolding check_audit_rows_def rbind_Inr_iff check_all_Inr_iff by (auto simp: check_all_Inr_iff rbind_Inr_iff)
  moreover have "ids = map jstr AUDIT_ROWS" if "list_all2 py_eq ids (map jstr AUDIT_ROWS)" for ids
    using that by (auto simp: list_all2_conv_all_nth intro: nth_equalityI)
  ultimately show ?thesis using that unfolding py_eq_JArr traverse_Inr_iff by blast
qed

lemma list_all2_mem_right: "list_all2 R xs ys \<Longrightarrow> y \<in> set ys \<Longrightarrow> \<exists>x \<in> set xs. R x y"
  by (induction rule: list_all2_induct) auto

text \<open>
  Every claim of an accepted certificate has a row in the audit report with its id and the
  evidence basis of that id: issuer verified for B1, client declared otherwise.
\<close>

theorem accepted_claims_are_supported:
  assumes "verify_certificate env c key ctx pol = Inr ()"
  shows "\<exists>claims audit rows. rbind (field c ''claims'') iterate = Inr claims \<and>
    field c ''audit_report'' = Inr audit \<and> rbind (field audit ''claim_support_rows'') iterate = Inr rows \<and>
    (\<exists>ids. list_all2 (\<lambda>claim i. field claim ''claim_id'' = Inr i) claims ids \<and> distinct ids \<and>
       set ids \<subseteq> {jstr ''B1'', jstr ''G1''}) \<and>
    list_all (\<lambda>claim. path_to claim [''verifier'', ''result''] = Inr (jstr ''PASS'') \<and>
      list_ex (\<lambda>row. field row ''claim_id'' = field claim ''claim_id'' \<and>
        field row ''evidence_basis'' =
          Inr (jstr (if field claim ''claim_id'' = Inr (jstr ''B1'') then ''issuer_verified'' else ''client_declared'')) \<and>
        (\<exists>material d. claim_material claim = Inr material \<and> role_digest env CLAIM_MATERIAL_DOMAIN material = Inr d \<and>
           field row ''claim_material_digest'' = Inr (JStr d))) rows) claims"
proof -
  from verify_facts [OF assms] obtain v where v: "validated_document env c pol = Inr v" by metis
  from validated_facts [OF v] obtain audit d where audit: "field c ''audit_report'' = Inr audit"
    and cl: "check_claims_and_audit env c (v_unsigned v) audit d = Inr ()" by metis
  obtain claims by_id rows where
    claims: "rbind (field c ''claims'') iterate = Inr claims"
    "list_all2 (\<lambda>claim e. field claim ''claim_id'' = Inr (fst e) \<and> snd e = claim) claims by_id"
    "distinct (map fst by_id)" "\<forall>e \<in> set by_id. fst e \<in> {jstr ''B1'', jstr ''G1''}"
    "\<forall>claim \<in> set claims. check_printed_claim env c audit d claim = Inr ()"
    and rows: "rbind (field audit ''claim_support_rows'') iterate = Inr rows"
    "list_all2 (\<lambda>row i. field row ''claim_id'' = Inr i) rows (map jstr AUDIT_ROWS)"
    "\<forall>row \<in> set rows. check_audit_row env by_id row = Inr ()" by (rule claims_facts [OF cl]) (rule that)
  have ids: "list_all2 (\<lambda>claim i. field claim ''claim_id'' = Inr i) claims (map fst by_id)"
    using claims(2) by (simp add: list_all2_map2 list_all2_mono)
  have "path_to claim [''verifier'', ''result''] = Inr (jstr ''PASS'')" if "claim \<in> set claims" for claim
    using claims(5) that
    by (auto simp: check_printed_claim_def rbind_Inr_iff must_equal_to_JStr simp del: path_to.simps)
  moreover have "\<exists>row \<in> set rows. field row ''claim_id'' = field claim ''claim_id'' \<and>
        field row ''evidence_basis'' =
          Inr (jstr (if field claim ''claim_id'' = Inr (jstr ''B1'') then ''issuer_verified'' else ''client_declared'')) \<and>
        (\<exists>material d. claim_material claim = Inr material \<and> role_digest env CLAIM_MATERIAL_DOMAIN material = Inr d \<and>
           field row ''claim_material_digest'' = Inr (JStr d))" if c: "claim \<in> set claims" for claim
  proof -
    obtain e where e: "e \<in> set by_id" "field claim ''claim_id'' = Inr (fst e)" "snd e = claim"
      using list_all2_mem [OF claims(2) c] by blast
    have "fst e \<in> set (map jstr AUDIT_ROWS)" using claims(4) e(1) by (auto simp: AUDIT_ROWS_def)
    then obtain row where row: "row \<in> set rows" "field row ''claim_id'' = Inr (fst e)"
      using list_all2_mem_right [OF rows(2)] by blast
    have "map_of by_id (fst e) = Some claim" using e(1,3) claims(3) by (metis map_of_eq_Some_iff prod.collapse)
    moreover have "\<not> is_container (fst e)" using claims(4) e(1) by auto
    moreover have "check_audit_row env by_id row = Inr ()" using rows(3) row(1) by blast
    ultimately have "\<exists>basis. field row ''evidence_basis'' = Inr basis \<and>
        py_eq basis (jstr (if fst e = jstr ''B1'' then ''issuer_verified'' else ''client_declared'')) \<and>
        (\<exists>material d. claim_material claim = Inr material \<and> role_digest env CLAIM_MATERIAL_DOMAIN material = Inr d \<and>
           field row ''claim_material_digest'' = Inr (JStr d))"
      using row(2) unfolding check_audit_row_def rbind_Inr_iff
      by (auto simp: rbind_Inr_iff must_equal_Inr)
    then show ?thesis using row e(2) by (intro bexI [of _ row]) auto
  qed
  ultimately show ?thesis
    using claims(1,3,4) audit rows(1) ids
    by (intro exI [of _ claims] exI [of _ audit] exI [of _ rows])
      (auto simp: list_all_iff list_ex_iff simp del: path_to.simps intro!: exI [of _ "map fst by_id"])
qed

section \<open>The client's side\<close>

lemma any_of_hit: "any_of p xs = Inr b \<Longrightarrow> x \<in> set xs \<Longrightarrow> p x = Inr True \<Longrightarrow> b"
  by (induction xs) (auto simp: rbind_Inr_iff split: if_splits)

lemma field_has_key: "field t k = Inr v \<Longrightarrow> has_key t k = Inr True"
  by (cases t) (auto split: option.splits dest!: map_of_SomeD intro: rev_image_eqI)

lemma derive_Inr:
  "derive_client_key_ref env project algorithm key = Inr r \<longleftrightarrow>
   is_project_ref project \<and>
   (\<exists>alg der material. algorithm = JStr alg \<and>
      (alg = U ''ed25519'' \<and> key = Ed25519Key der \<or> alg = U ''ecdsa_p256_sha256'' \<and> key = P256Key der) \<and>
      length_prefixed_fields CLIENT_KEY_REF_DOMAIN [utf8 project, utf8 alg, der] = Inr material \<and>
      r = U ''ckr:'' @ b64_text (hash env material) \<and> is_client_key_ref r)"
  by (cases algorithm; cases key) (auto simp: derive_client_key_ref_def rbind_Inr_iff Let_def split: if_splits)

lemma ring_facts:
  assumes "check_context env m sigs ctx = Inr ()" "path_to m [''key_ring_identifiers'', ''client_key_ref''] = Inr ref"
  obtains project key alg kr where "expected_project_ref ctx = Some project" "client_public_key ctx = Some key"
    "expected_client_algorithm ctx = Some alg" "expected_client_key_ref ctx = Some kr"
    "derive_client_key_ref env project (JStr alg) key = Inr kr"
proof -
  from assms(2) obtain ring where ring: "field m ''key_ring_identifiers'' = Inr ring" "field ring ''client_key_ref'' = Inr ref"
    by (auto simp: rbind_Inr_iff)
  have "check_client_ring_context env m ring ctx = Inr ()"
    using assms(1) unfolding check_context_def rbind_Inr_iff ring(1)
    by (auto simp: field_has_key [OF ring(2)])
  then obtain project key a kr where c:
    "must_equal ''CONTEXT'' (Inr (opt_str (expected_client_key_ref ctx))) (Inr ref) = Inr ()"
    "must_equal ''CONTEXT'' (Inr (opt_str (expected_client_algorithm ctx))) (Inr a) = Inr ()"
    "expected_project_ref ctx = Some project" "client_public_key ctx = Some key"
    "derive_client_key_ref env project a key = Inr kr" "ref = JStr kr"
    unfolding check_client_ring_context_def rbind_Inr_iff ring(2) must_equal_JStr
    by (auto split: option.splits simp: must_equal_Inr rbind_Inr_iff)
  from c(5) obtain alg where a: "a = JStr alg" unfolding derive_Inr by blast
  have "expected_client_key_ref ctx = Some kr" "expected_client_algorithm ctx = Some alg"
    using c(1,2,6) a by (auto simp: must_equal_to_JStr opt_str_def split: option.splits)
  with c(3-5) a show ?thesis using that by blast
qed

text \<open>
  C27: If an accepted certificate carries a client claim, the pinned client key signed the
  canonical certificate without the co-attestation.
\<close>

theorem client_claims_are_co_signed:
  assumes v: "verify_certificate env c key ctx pol = Inr ()"
    and claim: "rbind (field c ''claims'') iterate = Inr claims" "claim \<in> set claims"
      "field claim ''claim_id'' = Inr (jstr ''G1'')"
  shows "\<exists>project client_key alg kr text signature. expected_project_ref ctx = Some project \<and>
    client_public_key ctx = Some client_key \<and> expected_client_algorithm ctx = Some alg \<and>
    expected_client_key_ref ctx = Some kr \<and> derive_client_key_ref env project (JStr alg) client_key = Inr kr \<and>
    canonical_text (co_free c) = Some text \<and>
    path_to c [''signatures'', ''co_attestation'', ''signature''] = Inr signature \<and>
    verify_signature env client_key (JStr alg)
      (CLIENT_DOMAIN @ i2osp (length (utf8 text)) 8 @ utf8 text) signature = Inr ()"
proof -
  obtain v where v: "validated_document env c pol = Inr v" "check_context env (v_unsigned v) (v_signatures v) ctx = Inr ()"
    and co: "verify_co_attestation env c (v_signatures v) (v_unsigned v) ctx = Inr ()"
    using verify_facts [OF v] by metis
  have sigs: "field c ''signatures'' = Inr (v_signatures v)" using validated_facts [OF v(1)] by metis
  obtain requires_co where r: "any_of client_claim claims = Inr requires_co"
    using co claim(1) by (auto simp: verify_co_attestation_def rbind_Inr_iff)
  have "client_claim claim = Inr True" using claim(3) by (simp add: client_claim_def)
  then have "requires_co" using any_of_hit [OF r claim(2)] by simp
  then have req: "any_of client_claim claims = Inr True" using r by simp
  obtain att prepared algorithm signature where a: "has_key (v_signatures v) ''co_attestation'' = Inr True"
    "field (v_signatures v) ''co_attestation'' = Inr att" "check_co_bindings att (v_unsigned v) ctx = Inr ()"
    "prepare_client_projection env c = Inr prepared" "field att ''algorithm'' = Inr algorithm"
    "field att ''signature'' = Inr signature"
    "verify_signature env (case client_public_key ctx of None \<Rightarrow> NotAKey | Some key \<Rightarrow> key) algorithm
       (signing_bytes prepared) signature = Inr ()"
    using co unfolding verify_co_attestation_def rbind_Inr_iff claim(1) by (auto simp: req rbind_Inr_iff split: if_splits)
  from a(3) obtain ref where "path_to (v_unsigned v) [''key_ring_identifiers'', ''client_key_ref''] = Inr ref"
    unfolding check_co_bindings_def in_turn_Inr must_equal_Inr by blast
  from ring_facts [OF v(2) this] obtain project client_key alg kr where
    k: "expected_project_ref ctx = Some project" "client_public_key ctx = Some client_key"
    "expected_client_algorithm ctx = Some alg" "expected_client_key_ref ctx = Some kr"
    "derive_client_key_ref env project (JStr alg) client_key = Inr kr" by metis
  have "algorithm = JStr alg" using a(3,5) k(3) unfolding check_co_bindings_def in_turn_Inr
    by (simp add: opt_str_def must_equal_to_JStr)
  moreover obtain s where s: "canonical_text (co_free c) = Some s" "client_material (utf8 s) = Inr (signing_bytes prepared)"
    using a(4) by (auto simp: prepare_client_projection_def rbind_Inr_iff split: option.splits)
  ultimately show ?thesis
    using k a(2,6,7) sigs by (auto simp: client_material_Inr length_prefixed_Inr)
qed

lemma co_free_wf: "wf_tree c \<Longrightarrow> wf_tree (co_free c)"
proof (cases c)
  case (JObj kts)
  have "wf_tree (without_member k t)" if "wf_tree t" for k t
    using that by (cases t) (auto simp: without_member_def)
  then show "wf_tree c \<Longrightarrow> ?thesis" using JObj by (fastforce simp: co_free_def)
qed (simp_all add: co_free_def)

text \<open>
  Two certificates with the same bytes for the client to sign are the same certificate up to
  the co-attestation.
\<close>

theorem client_signature_binds:
  assumes "prepare_client_projection env c = Inr p" "prepare_client_projection env c' = Inr p'"
    and "signing_bytes p = signing_bytes p'" "parsed c" "parsed c'"
  shows "Fp2Text.norm (co_free c) = Fp2Text.norm (co_free c')"
proof -
  obtain s s' where s: "canonical_text (co_free c) = Some s" "client_material (utf8 s) = Inr (signing_bytes p)"
    "canonical_text (co_free c') = Some s'" "client_material (utf8 s') = Inr (signing_bytes p')"
    using assms(1,2) by (auto simp: prepare_client_projection_def rbind_Inr_iff split: option.splits)
  then have "utf8 s = utf8 s'"
    using length_prefixed_inject [of CLIENT_DOMAIN "[utf8 s]" "signing_bytes p" "[utf8 s']"] assms(3)
    by (simp add: client_material_Inr)
  with s canonical_bytes_bind co_free_wf assms(4,5) show ?thesis unfolding parsed_def by blast
qed

text \<open>The message whose hash names a client key.\<close>

definition client_key_message :: "ustr \<Rightarrow> ustr \<Rightarrow> key_object \<Rightarrow> cert_error + byte list" where
  "client_key_message project alg key =
     length_prefixed_fields CLIENT_KEY_REF_DOMAIN [utf8 project, utf8 alg, case spki_of key of None \<Rightarrow> [] | Some der \<Rightarrow> der]"

theorem client_key_ref_binds:
  assumes "derive_client_key_ref env p (JStr a) k = Inr r" "derive_client_key_ref env p' (JStr a') k' = Inr r"
  shows "(p = p' \<and> a = a' \<and> k = k') \<or>
    (\<exists>m m'. client_key_message p a k = Inr m \<and> client_key_message p' a' k' = Inr m' \<and> m \<noteq> m' \<and> hash env m = hash env m')"
proof -
  have project: "c < 128" if "is_project_ref q" "c \<in> set q" for q c
    using that by (auto simp: is_project_ref_def chars_of_def list_all_iff word_char_def lower_def upper_def is_digit_def)
  obtain d m where k: "is_project_ref p" "a = U ''ed25519'' \<and> k = Ed25519Key d \<or> a = U ''ecdsa_p256_sha256'' \<and> k = P256Key d"
    "length_prefixed_fields CLIENT_KEY_REF_DOMAIN [utf8 p, utf8 a, d] = Inr m" "r = U ''ckr:'' @ b64_text (hash env m)"
    using assms(1) unfolding derive_Inr by auto
  obtain d' m' where k': "is_project_ref p'" "a' = U ''ed25519'' \<and> k' = Ed25519Key d' \<or> a' = U ''ecdsa_p256_sha256'' \<and> k' = P256Key d'"
    "length_prefixed_fields CLIENT_KEY_REF_DOMAIN [utf8 p', utf8 a', d'] = Inr m'" "r = U ''ckr:'' @ b64_text (hash env m')"
    using assms(2) unfolding derive_Inr by auto
  have h: "hash env m = hash env m'" using k(4) k'(4) by simp
  have messages: "client_key_message p a k = Inr m" "client_key_message p' a' k' = Inr m'"
    using k(2,3) k'(2,3) by (auto simp: client_key_message_def)
  show ?thesis
  proof (cases "m = m'")
    case True
    then have "utf8 p = utf8 p'" "utf8 a = utf8 a'" "d = d'"
      using length_prefixed_inject [OF k(3), of "[utf8 p', utf8 a', d']"] k'(3) by simp_all
    moreover have "p = p'" by (rule utf8_inject [OF _ _ calculation(1)]) (use project k(1) k'(1) in \<open>fastforce simp: valid_cp_def\<close>)+
    moreover have "a = a'" by (rule utf8_inject [OF _ _ calculation(2)]) (use k(2) k'(2) in \<open>auto simp: U_Cons valid_cp_def\<close>)
    ultimately show ?thesis using k(2) k'(2) by auto
  qed (use messages h in blast)
qed

end
