(* ===== verification/RelyingMaterials.thy ===== *)
theory RelyingMaterials
  imports RelyingLaws
begin

text \<open>
  \<open>verify_certificate_with_materials\<close>: the bundle with the public keys and the policy, pinned by its
  digest, and the retrieval response that wraps a certificate with its status.
\<close>

definition MATERIALS_DOMAIN :: "byte list" where
  "MATERIALS_DOMAIN = utf8 (U ''traigent.agent_certificate.verification_materials.v0'')"
definition ISSUER_SPKI_DOMAIN :: "byte list" where
  "ISSUER_SPKI_DOMAIN = utf8 (U ''traigent.agent_certificate.issuer_spki_der.v0'')"
definition CLIENT_SPKI_DOMAIN :: "byte list" where
  "CLIENT_SPKI_DOMAIN = utf8 (U ''traigent.agent_certificate.client_spki_der.v0'')"

section \<open>The bundle\<close>

text \<open>Policy rows as a caller or a bundle gives them, before \<open>__post_init__\<close> has looked at them.\<close>

definition strings :: "json list \<Rightarrow> ustr list option" where
  "strings ts = those (map (\<lambda>t. case t of JStr s \<Rightarrow> Some s | _ \<Rightarrow> None) ts)"

definition binding_row :: "json \<Rightarrow> cert_error + json \<times> json \<times> json" where
  "binding_row b =
     rbind (field b ''verifier_id'') (\<lambda>ident.
     rbind (field b ''verifier_ref'') (\<lambda>ref.
     rbind (field b ''verifier_version'') (\<lambda>version. Inr (ident, ref, version))))"

definition materials_policy :: "json \<Rightarrow> cert_error + relying_party_policy" where
  "materials_policy document =
     recast (\<lambda>e. key_or_type e \<or> value_error_like e) ''MATERIALS_POLICY''
       (rbind (field document ''relying_party_policy'') (\<lambda>policy.
        rbind (field policy ''compiler_register_versions'') (\<lambda>versions.
        rbind (traverse (field versions) COMPILER_REGISTER_KEYS) (\<lambda>registers.
        rbind (rbind (field policy ''verifier_bindings'') iterate) (\<lambda>bindings.
        rbind (traverse binding_row bindings) (\<lambda>rows.
          (case (strings registers, strings (map fst rows), strings (map (\<lambda>r. fst (snd r)) rows),
                 strings (map (\<lambda>r. snd (snd r)) rows)) of
             (Some vs, Some idents, Some refs, Some versions) \<Rightarrow>
               make_policy (zip (map U COMPILER_REGISTER_KEYS) vs) (zip idents (zip refs versions))
           | _ \<Rightarrow> Inl PyValueErr)))))))"

definition check_materials_digest :: "cert_env \<Rightarrow> json \<Rightarrow> ustr \<Rightarrow> cert_error + unit" where
  "check_materials_digest env document expected_materials_digest =
     rbind (role_digest env MATERIALS_DOMAIN (without_member ''materials_digest'' document)) (\<lambda>recomputed.
       fail_if (\<not> py_eq (get_member document ''materials_digest'') (JStr expected_materials_digest) \<or>
         recomputed \<noteq> expected_materials_digest) ''MATERIALS_DIGEST'')"

definition check_issuer_binding :: "json \<Rightarrow> verification_context \<Rightarrow> cert_error + unit" where
  "check_issuer_binding issuer ctx =
     in_turn
       [must_equal ''MATERIALS_BINDING'' (field issuer ''key_ref'') (Inr (JStr (expected_issuer_key_ref ctx))),
        must_equal ''MATERIALS_BINDING'' (field issuer ''algorithm'') (Inr (JStr (expected_issuer_algorithm ctx))),
        must_equal ''MATERIALS_BINDING'' (field issuer ''trust_ring_ref'') (Inr (JStr (expected_trust_ring_ref ctx)))]"

definition public_key_der :: "key_object \<Rightarrow> cert_error + byte list" where
  "public_key_der key = (case spki_of key of Some der \<Rightarrow> Inr der | None \<Rightarrow> Inl (Failed ''MATERIALS_BINDING''))"

definition check_caller_client_key ::
  "cert_env \<Rightarrow> json \<Rightarrow> verification_context \<Rightarrow> key_object \<Rightarrow> cert_error + unit" where
  "check_caller_client_key env client ctx bundle_key =
     (case client_public_key ctx of
        None \<Rightarrow> Inr ()
      | Some caller_key \<Rightarrow>
          rbind (case (expected_project_ref ctx, expected_client_algorithm ctx) of
                   (Some project, Some algorithm) \<Rightarrow> Inr (project, algorithm)
                 | _ \<Rightarrow> Inl (Failed ''MATERIALS_BINDING'')) (\<lambda>(project, algorithm).
          rbind (recast is_failed ''MATERIALS_BINDING'' (derive_client_key_ref env project (JStr algorithm) caller_key))
            (\<lambda>caller_ref.
          rbind (must_equal ''MATERIALS_BINDING'' (Inr (JStr caller_ref)) (field client ''key_ref'')) (\<lambda>_.
          rbind (public_key_der caller_key) (\<lambda>caller_der.
          rbind (public_key_der bundle_key) (\<lambda>bundle_der.
            fail_if (caller_der \<noteq> bundle_der) ''MATERIALS_BINDING''))))))"

text \<open>A chain of \<open>==\<close> with \<open>and\<close>.\<close>

fun all_equal :: "((cert_error + json) \<times> (cert_error + json)) list \<Rightarrow> cert_error + bool" where
  "all_equal [] = Inr True"
| "all_equal ((a, b) # rest) = rbind a (\<lambda>x. rbind b (\<lambda>y. if py_eq x y then all_equal rest else Inr False))"

definition client_bindings_with_client ::
  "cert_env \<Rightarrow> json \<Rightarrow> json \<Rightarrow> json \<Rightarrow> verification_context \<Rightarrow> key_object option \<Rightarrow> cert_error + bool" where
  "client_bindings_with_client env ring signatures client ctx bundle_key =
     rbind (fail_if (\<not> is_dict client) ''MATERIALS_BINDING'') (\<lambda>_.
     rbind (in_turn
       [must_equal ''MATERIALS_BINDING'' (field client ''key_ref'') (Inr (opt_str (expected_client_key_ref ctx))),
        must_equal ''MATERIALS_BINDING'' (field client ''algorithm'') (Inr (opt_str (expected_client_algorithm ctx)))]) (\<lambda>_.
     rbind (case (expected_project_ref ctx, bundle_key) of
              (Some project, Some key) \<Rightarrow> Inr (project, key)
            | _ \<Rightarrow> Inl (Failed ''MATERIALS_BINDING'')) (\<lambda>(project, key).
     rbind (field client ''algorithm'') (\<lambda>algorithm.
     rbind (derive_client_key_ref env project algorithm key) (\<lambda>key_ref.
     rbind (must_equal ''MATERIALS_BINDING'' (Inr (JStr key_ref)) (field client ''key_ref'')) (\<lambda>_.
     rbind (check_caller_client_key env client ctx key) (\<lambda>_.
     rbind (field signatures ''co_attestation'') (\<lambda>co.
       all_equal
         [(field ring ''client_key_ref'', field client ''key_ref''),
          (field ring ''client_signature_algorithm'', field client ''algorithm''),
          (field co ''client_key_ref'', field client ''key_ref''),
          (field co ''algorithm'', field client ''algorithm'')]))))))))"

definition client_bindings_without_client :: "json \<Rightarrow> verification_context \<Rightarrow> cert_error + bool" where
  "client_bindings_without_client ring ctx =
     rbind (fail_if (expected_client_key_ref ctx \<noteq> None \<or> expected_client_algorithm ctx \<noteq> None \<or>
       client_public_key ctx \<noteq> None) ''MATERIALS_BINDING'') (\<lambda>_.
     rbind (any_of (has_key ring) [''client_key_ref'', ''client_signature_algorithm'']) (\<lambda>present. Inr (\<not> present)))"

definition check_materials_bindings ::
  "cert_env \<Rightarrow> json \<Rightarrow> json \<Rightarrow> ustr \<Rightarrow> verification_context \<Rightarrow> key_object option \<Rightarrow> cert_error + unit" where
  "check_materials_bindings env certificate document certificate_ref ctx bundle_key =
     recast key_or_type ''MATERIALS_BINDING''
       (rbind (must_equal ''CERTIFICATE_REF'' (field document ''certificate_ref'') (Inr (JStr certificate_ref))) (\<lambda>_.
        rbind (field document ''issuer'') (\<lambda>issuer.
        rbind (path_to certificate [''signatures'', ''unsigned_manifest'', ''document'']) (\<lambda>manifest.
        rbind (field manifest ''key_ring_identifiers'') (\<lambda>ring.
        rbind (field certificate ''signatures'') (\<lambda>signatures.
        rbind (rbind (field manifest ''claims'') iterate) (\<lambda>claims.
        rbind (any_of client_claim claims) (\<lambda>requires_claim.
        rbind (if requires_claim then Inr True else has_key signatures ''co_attestation'') (\<lambda>requires_client.
        rbind (fail_if (requires_client \<noteq> (get_member document ''client'' \<noteq> JNull)) ''MATERIALS_BINDING'') (\<lambda>_.
        rbind (check_issuer_binding issuer ctx) (\<lambda>_.
        rbind (if requires_client
               then client_bindings_with_client env ring signatures (get_member document ''client'') ctx bundle_key
               else client_bindings_without_client ring ctx) (\<lambda>client_match.
        rbind (in_turn
          [must_equal ''MATERIALS_BINDING'' (field ring ''issuer_key_ref'') (field issuer ''key_ref''),
           must_equal ''MATERIALS_BINDING'' (field ring ''issuer_signature_algorithm'') (field issuer ''algorithm''),
           must_equal ''MATERIALS_BINDING'' (field ring ''trust_ring_ref'') (field issuer ''trust_ring_ref'')]) (\<lambda>_.
          fail_if (\<not> client_match) ''MATERIALS_BINDING'')))))))))))))"

section \<open>The retrieval response\<close>

definition check_retrieval_wrapper_bindings :: "json \<Rightarrow> json \<Rightarrow> verification_context \<Rightarrow> cert_error + unit" where
  "check_retrieval_wrapper_bindings wrapper certificate ctx =
     recast key_or_type ''CERTIFICATE_STATUS''
       (in_turn
         [must_equal ''SESSION_REF'' (field wrapper ''build_session_ref'') (path_to certificate [''subject'', ''build_session_ref'']),
          must_equal ''SCHEMA'' (field wrapper ''schema_version'') (field certificate ''schema_version''),
          must_equal ''MANIFEST_DIGEST'' (field wrapper ''manifest_digest'')
            (path_to certificate [''signatures'', ''unsigned_manifest'', ''manifest_digest'']),
          must_equal ''PROJECT_CONTEXT'' (path_to certificate [''subject'', ''project_ref''])
            (Inr (opt_str (expected_project_ref ctx)))])"

definition check_wrapper_status :: "cert_env \<Rightarrow> json \<Rightarrow> ustr \<Rightarrow> cert_error + unit" where
  "check_wrapper_status env wrapper certificate_ref =
     (let status = get_member wrapper ''certificate_status'' in
      in_turn
        [fail_if (schema env RetrievalResponseSchema wrapper \<noteq> Conforms) ''CERTIFICATE_STATUS'',
         fail_if (\<not> has_exact_keys status [''status'', ''revoked_at'', ''reason''] \<or>
           \<not> py_eq (get_member status ''status'') (jstr ''active'') \<or>
           get_member status ''revoked_at'' \<noteq> JNull \<or> get_member status ''reason'' \<noteq> JNull) ''CERTIFICATE_STATUS'',
         fail_if (\<not> py_eq (get_member wrapper ''certificate_ref'') (JStr certificate_ref)) ''CERTIFICATE_REF''])"

text \<open>The wrapper, if there is one, and the signed certificate.\<close>

definition unwrap_retrieval_certificate ::
  "cert_env \<Rightarrow> json \<Rightarrow> ustr \<Rightarrow> bool \<Rightarrow> cert_error + json option \<times> json" where
  "unwrap_retrieval_certificate env certificate certificate_ref require_status =
     rbind (fail_if (\<not> is_dict certificate) ''ENVELOPE_SHAPE'') (\<lambda>_.
       if json_member certificate (U ''signed_certificate'') \<noteq> None \<or>
          json_member certificate (U ''certificate_status'') \<noteq> None
       then
         rbind (check_wrapper_status env certificate certificate_ref) (\<lambda>_.
         rbind (fail_if (\<not> is_dict (get_member certificate ''signed_certificate'')) ''ENVELOPE_SHAPE'') (\<lambda>_.
           Inr (Some certificate, get_member certificate ''signed_certificate'')))
       else rbind (fail_if require_status ''CERTIFICATE_STATUS_UNKNOWN'') (\<lambda>_. Inr (None, certificate)))"

section \<open>verify\_certificate\_with\_materials\<close>

text \<open>
  \<open>SchemaValidator.validate_json\<close> on the bundle returns what it meets as errors, a missing dependency
  apart; the construction of the validator may raise.
\<close>

definition check_materials_schema :: "cert_env \<Rightarrow> json \<Rightarrow> cert_error + unit" where
  "check_materials_schema env document =
     (case schema env MaterialsSchema document of
        Conforms \<Rightarrow> Inr ()
      | MissingDependency \<Rightarrow> Inl SchemaDependency
      | NoValidator \<Rightarrow> Inl OtherErr
      | _ \<Rightarrow> Inl (Failed ''MATERIALS_SCHEMA''))"

definition materials_steps ::
  "cert_env \<Rightarrow> json \<Rightarrow> json \<Rightarrow> ustr \<Rightarrow> ustr \<Rightarrow> verification_context \<Rightarrow> bool \<Rightarrow> cert_error + unit" where
  "materials_steps env certificate document expected_materials_digest certificate_ref ctx require_status =
     rbind (fail_if (\<not> is_dict document) ''MATERIALS_SCHEMA'') (\<lambda>_.
     rbind (check_materials_schema env document) (\<lambda>_.
     rbind (unwrap_retrieval_certificate env certificate certificate_ref require_status) (\<lambda>(wrapper, envelope).
     rbind (check_materials_digest env document expected_materials_digest) (\<lambda>_.
     rbind (field document ''issuer'') (\<lambda>issuer.
     rbind (material_public_key env issuer ISSUER_SPKI_DOMAIN) (\<lambda>issuer_key.
     rbind (if get_member document ''client'' = JNull then Inr None
            else rbind (material_public_key env (get_member document ''client'') CLIENT_SPKI_DOMAIN) (\<lambda>k. Inr (Some k)))
       (\<lambda>client_key.
     rbind (check_materials_bindings env envelope document certificate_ref ctx client_key) (\<lambda>_.
     rbind (materials_policy document) (\<lambda>policy.
     rbind (verify_certificate env envelope issuer_key (ctx\<lparr>client_public_key := client_key\<rparr>) policy) (\<lambda>_.
       (case wrapper of None \<Rightarrow> Inr () | Some w \<Rightarrow> check_retrieval_wrapper_bindings w envelope ctx)))))))))))"

definition verify_certificate_with_materials ::
  "cert_env \<Rightarrow> json \<Rightarrow> json \<Rightarrow> ustr \<Rightarrow> ustr \<Rightarrow> verification_context \<Rightarrow> bool \<Rightarrow> cert_error + unit" where
  "verify_certificate_with_materials env certificate document expected_materials_digest certificate_ref ctx require_status =
     recast (\<lambda>e. \<not> is_failed e \<and> e \<noteq> SchemaDependency) ''VERIFICATION_FAILED''
       (materials_steps env certificate document expected_materials_digest certificate_ref ctx require_status)"

section \<open>Lemmas\<close>

lemma only_JStr: "(case t of JStr s \<Rightarrow> Inr s | _ \<Rightarrow> Inl e) = Inr x \<longleftrightarrow> t = JStr x"
  by (cases t) auto

lemma only_Some: "(case v of None \<Rightarrow> Inl e | Some y \<Rightarrow> Inr y) = Inr x \<longleftrightarrow> v = Some x"
  by (cases v) auto

lemma material_key_facts:
  assumes "material_public_key env projection domain = Inr key"
  obtains der where "field projection ''public_key_der_b64'' = Inr (JStr (std_b64 der))" "load_der env der = Some key"
    "spki_of key = Some der"
    "field projection ''public_key_digest'' = Inr (JStr (SHA256_PREFIX @ hexdigest (hash env (domain @ 0 # der))))"
  using assms unfolding material_public_key_def rbind_Inr_iff only_JStr only_Some by (auto simp: must_equal_to_JStr)

lemma materials_facts:
  assumes "verify_certificate_with_materials env c document pin ref ctx require_status = Inr ()"
  obtains wrapper envelope issuer issuer_key client_key policy where
    "unwrap_retrieval_certificate env c ref require_status = Inr (wrapper, envelope)"
    "check_materials_digest env document pin = Inr ()" "field document ''issuer'' = Inr issuer"
    "material_public_key env issuer ISSUER_SPKI_DOMAIN = Inr issuer_key"
    "check_materials_bindings env envelope document ref ctx client_key = Inr ()"
    "materials_policy document = Inr policy"
    "verify_certificate env envelope issuer_key (ctx\<lparr>client_public_key := client_key\<rparr>) policy = Inr ()"
    "\<And>w. wrapper = Some w \<Longrightarrow> check_retrieval_wrapper_bindings w envelope ctx = Inr ()"
    "is_dict document"
    "(if get_member document ''client'' = JNull then Inr None
      else rbind (material_public_key env (get_member document ''client'') CLIENT_SPKI_DOMAIN) (\<lambda>k. Inr (Some k))) = Inr client_key"
proof -
  from assms have "materials_steps env c document pin ref ctx require_status = Inr ()"
    by (simp add: verify_certificate_with_materials_def)
  then obtain wrapper envelope issuer issuer_key client_key policy where
    f: "unwrap_retrieval_certificate env c ref require_status = Inr (wrapper, envelope)"
    "check_materials_digest env document pin = Inr ()" "field document ''issuer'' = Inr issuer"
    "material_public_key env issuer ISSUER_SPKI_DOMAIN = Inr issuer_key"
    "(if get_member document ''client'' = JNull then Inr None
      else rbind (material_public_key env (get_member document ''client'') CLIENT_SPKI_DOMAIN) (\<lambda>k. Inr (Some k))) = Inr client_key"
    "check_materials_bindings env envelope document ref ctx client_key = Inr ()"
    "materials_policy document = Inr policy"
    "verify_certificate env envelope issuer_key (ctx\<lparr>client_public_key := client_key\<rparr>) policy = Inr ()"
    "(case wrapper of None \<Rightarrow> Inr () | Some w \<Rightarrow> check_retrieval_wrapper_bindings w envelope ctx) = Inr ()" "is_dict document"
    unfolding materials_steps_def rbind_Inr_iff by (auto simp: rbind_Inr_iff split del: if_split)
  have w: "check_retrieval_wrapper_bindings w envelope ctx = Inr ()" if "wrapper = Some w" for w
    using f(9) that by simp
  show ?thesis by (rule that [OF f(1-4,6-8) _ f(10,5)]) (rule w)
qed

lemma materials_digest_Inr:
  "check_materials_digest env document pin = Inr () \<longleftrightarrow>
   get_member document ''materials_digest'' = JStr pin \<and>
   role_digest env MATERIALS_DOMAIN (without_member ''materials_digest'' document) = Inr pin"
  by (auto simp: check_materials_digest_def rbind_Inr_iff)

lemma role_digest_Inr:
  "role_digest env role t = Inr d \<longleftrightarrow> role \<noteq> [] \<and> \<not> list_ex (\<lambda>b. 0x7F < b) role \<and>
   (\<exists>s. canonical_text t = Some s \<and> d = SHA256_PREFIX @ hexdigest (hash env (role @ 0 # utf8 s)))"
  by (auto simp: role_digest_def split: option.splits)

lemma without_member_wf: "wf_tree t \<Longrightarrow> wf_tree (without_member k t)"
  by (cases t) (auto simp: without_member_def)

section \<open>Properties\<close>


theorem materials_digest_binds:
  assumes "check_materials_digest env d pin = Inr ()" "check_materials_digest env d' pin = Inr ()" "parsed d" "parsed d'"
  shows "Fp2Text.norm (without_member ''materials_digest'' d) = Fp2Text.norm (without_member ''materials_digest'' d') \<or>
    (\<exists>s s'. canonical_text (without_member ''materials_digest'' d) = Some s \<and>
       canonical_text (without_member ''materials_digest'' d') = Some s' \<and>
       MATERIALS_DOMAIN @ 0 # utf8 s \<noteq> MATERIALS_DOMAIN @ 0 # utf8 s' \<and>
       hash env (MATERIALS_DOMAIN @ 0 # utf8 s) = hash env (MATERIALS_DOMAIN @ 0 # utf8 s'))"
proof -
  obtain s s' where s: "canonical_text (without_member ''materials_digest'' d) = Some s"
    "canonical_text (without_member ''materials_digest'' d') = Some s'"
    "hash env (MATERIALS_DOMAIN @ 0 # utf8 s) = hash env (MATERIALS_DOMAIN @ 0 # utf8 s')"
    using assms(1,2) by (auto simp: materials_digest_Inr role_digest_Inr)
  show ?thesis
  proof (cases "utf8 s = utf8 s'")
    case True
    have "wf_tree (without_member ''materials_digest'' d)" "wf_tree (without_member ''materials_digest'' d')"
      using without_member_wf assms(3,4) by (auto simp: parsed_def)
    from canonical_bytes_bind [OF s(1,2) True this] show ?thesis by (rule disjI1)
  next
    case False
    then show ?thesis using s by (intro disjI2 exI [of _ s] exI [of _ s'] conjI) simp_all
  qed
qed

lemma unwrap_facts:
  assumes "unwrap_retrieval_certificate env c ref True = Inr (wrapper, envelope)"
  shows "wrapper = Some c \<and> field c ''signed_certificate'' = Inr envelope \<and>
    schema env RetrievalResponseSchema c = Conforms \<and>
    has_exact_keys (get_member c ''certificate_status'') [''status'', ''revoked_at'', ''reason''] \<and>
    get_member (get_member c ''certificate_status'') ''status'' = jstr ''active'' \<and>
    get_member (get_member c ''certificate_status'') ''revoked_at'' = JNull \<and>
    get_member (get_member c ''certificate_status'') ''reason'' = JNull \<and> get_member c ''certificate_ref'' = JStr ref"
  using assms
  by (cases c) (auto simp: unwrap_retrieval_certificate_def check_wrapper_status_def Let_def rbind_Inr_iff member_or_def
      split: if_splits option.splits)

lemma get_member_path: "get_member t k = v \<Longrightarrow> v \<noteq> JNull \<Longrightarrow> field t k = Inr v"
  by (cases t) (auto simp: member_or_def split: option.splits)

lemma exact_member: "has_exact_keys t keys \<Longrightarrow> k \<in> set keys \<Longrightarrow> field t k = Inr (get_member t k)"
proof -
  assume a: "has_exact_keys t keys" "k \<in> set keys"
  then obtain kts where t: "t = JObj kts" and k: "U k \<in> fst ` set kts" by (cases t) (auto simp: has_exact_keys_def)
  then obtain v where "map_of kts (U k) = Some v" by (metis (no_types, lifting) map_of_eq_None_iff not_None_eq)
  then show ?thesis by (simp add: t member_or_def)
qed

text \<open>
  C36: When status is required, acceptance means that the input is a retrieval response for the
  given reference whose status is active with null revocation fields, bound to the certificate
  inside.
\<close>

theorem required_status_is_active:
  assumes "verify_certificate_with_materials env c document pin ref ctx True = Inr ()"
  shows "schema env RetrievalResponseSchema c = Conforms \<and>
    path_to c [''certificate_status'', ''status''] = Inr (jstr ''active'') \<and>
    path_to c [''certificate_status'', ''revoked_at''] = Inr JNull \<and>
    path_to c [''certificate_status'', ''reason''] = Inr JNull \<and>
    field c ''certificate_ref'' = Inr (JStr ref) \<and>
    (\<exists>envelope session manifest_digest. field c ''signed_certificate'' = Inr envelope \<and>
       path_to envelope [''subject'', ''project_ref''] = Inr (opt_str (expected_project_ref ctx)) \<and>
       field c ''build_session_ref'' = Inr session \<and>
       (\<exists>signed. path_to envelope [''subject'', ''build_session_ref''] = Inr signed \<and> py_eq session signed) \<and>
       field c ''manifest_digest'' = Inr manifest_digest \<and>
       (\<exists>signed. path_to envelope [''signatures'', ''unsigned_manifest'', ''manifest_digest''] = Inr signed \<and>
          py_eq manifest_digest signed))"
proof -
  obtain wrapper envelope issuer issuer_key client_key policy where
    f: "unwrap_retrieval_certificate env c ref True = Inr (wrapper, envelope)"
    "\<And>w. wrapper = Some w \<Longrightarrow> check_retrieval_wrapper_bindings w envelope ctx = Inr ()"
    using materials_facts [OF assms] by metis
  note u = unwrap_facts [OF f(1)]
  let ?status = "get_member c ''certificate_status''"
  have keys: "has_exact_keys ?status [''status'', ''revoked_at'', ''reason'']" using u by blast
  then have "?status \<noteq> JNull" by (auto simp: has_exact_keys_def)
  then have s: "field c ''certificate_status'' = Inr ?status" by (rule get_member_path [OF refl])
  have st: "field ?status ''status'' = Inr (jstr ''active'')" "field ?status ''revoked_at'' = Inr JNull"
    "field ?status ''reason'' = Inr JNull"
    using exact_member [OF keys, of "''status''"] exact_member [OF keys, of "''revoked_at''"] exact_member [OF keys, of "''reason''"] u
    by simp_all
  then have path: "path_to c [''certificate_status'', k] = field ?status k" for k using s by (cases "field ?status k") auto
  have "field c ''certificate_ref'' = Inr (JStr ref)" using u by (intro get_member_path) auto
  moreover have "check_retrieval_wrapper_bindings c envelope ctx = Inr ()" using f(2) u by blast
  then have b: "\<exists>x y. field c ''build_session_ref'' = Inr x \<and> path_to envelope [''subject'', ''build_session_ref''] = Inr y \<and> py_eq x y"
    "\<exists>x y. field c ''manifest_digest'' = Inr x \<and>
       path_to envelope [''signatures'', ''unsigned_manifest'', ''manifest_digest''] = Inr y \<and> py_eq x y"
    "must_equal ''PROJECT_CONTEXT'' (path_to envelope [''subject'', ''project_ref'']) (Inr (opt_str (expected_project_ref ctx))) = Inr ()"
    unfolding check_retrieval_wrapper_bindings_def recast_Inr in_turn_Inr by (simp_all only: must_equal_Inr)
  from b(3) have "path_to envelope [''subject'', ''project_ref''] = Inr (opt_str (expected_project_ref ctx))"
    by (cases "expected_project_ref ctx") (auto simp: opt_str_def must_equal_Inr simp del: path_to.simps)
  ultimately show ?thesis using b(1,2) u unfolding path st by blast
qed

text \<open>Only codes leave, and the missing dependency of the bundle's schema.\<close>

definition codes_only :: "cert_error \<Rightarrow> bool" where
  "codes_only e \<longleftrightarrow> e \<noteq> SchemaDependency"

lemma codes_only_simps [simp]: "codes_only (Failed code)" "codes_only PyKeyErr" "codes_only PyTypeErr" "codes_only PyValueErr"
  "codes_only OtherErr"
  by (simp_all add: codes_only_def)

lemma codes_only_access [errors_intros]:
  "errors_in codes_only (subscript t k)" "errors_in codes_only (path_to t ks)" "errors_in codes_only (iterate t)"
  "errors_in codes_only (has_key t k')" "errors_in codes_only (get_item t k')"
  by (rule access_errors [THEN errors_in_mono], auto simp: access_error_def)+

lemma codes_only_recast [errors_intros]: "errors_in codes_only r \<Longrightarrow> errors_in codes_only (recast caught code r)"
  by (rule errors_in_recast) (auto elim: errors_in_mono)

lemma codes_only_role_digest [errors_intros]: "errors_in codes_only (role_digest env role t)"
  by (simp add: errors_in_def role_digest_def split: option.split)

lemma codes_only_key_ref [errors_intros]: "errors_in codes_only (derive_client_key_ref env project algorithm key)"
  unfolding derive_client_key_ref_def length_prefixed_fields_def Let_def
  by (intro errors_intros) (auto simp: errors_in_def split: json.splits key_object.splits)

lemma codes_only_verify [errors_intros]: "errors_in codes_only (verify_certificate env c key ctx pol)"
  by (auto simp: errors_in_def verify_certificate_def recast_Inl codes_only_def)

lemma codes_only_material_key [errors_intros]: "errors_in codes_only (material_public_key env projection domain)"
  unfolding material_public_key_def
  by (intro errors_intros) (auto simp: errors_in_def split: json.splits option.splits)

lemma codes_only_unwrap [errors_intros]: "errors_in codes_only (unwrap_retrieval_certificate env c ref require_status)"
  unfolding unwrap_retrieval_certificate_def check_wrapper_status_def Let_def by (intro errors_intros) simp_all

lemma codes_only_digest [errors_intros]: "errors_in codes_only (check_materials_digest env d pin)"
  unfolding check_materials_digest_def by (intro errors_intros) simp_all

lemma codes_only_policy [errors_intros]: "errors_in codes_only (materials_policy d)"
  unfolding materials_policy_def binding_row_def make_policy_def
  by (intro errors_intros) (auto simp: errors_in_def split: option.splits)

lemma codes_only_all_equal [errors_intros]: "list_all (\<lambda>p. errors_in codes_only (fst p) \<and> errors_in codes_only (snd p)) ps \<Longrightarrow> errors_in codes_only (all_equal ps)"
  by (induction ps rule: all_equal.induct) (auto simp: errors_in_def rbind_def split: sum.splits)

lemma codes_only_client_claim [errors_intros]: "errors_in codes_only (client_claim claim)"
  unfolding client_claim_def by (intro errors_intros)

lemma codes_only_caller_key [errors_intros]: "errors_in codes_only (check_caller_client_key env client ctx key)"
  unfolding check_caller_client_key_def public_key_der_def by (intro errors_intros) simp_all

lemma codes_only_with_client [errors_intros]: "errors_in codes_only (client_bindings_with_client env ring signatures client ctx key)"
  unfolding client_bindings_with_client_def by (intro errors_intros) (auto intro!: errors_intros)

lemma codes_only_without_client [errors_intros]: "errors_in codes_only (client_bindings_without_client ring ctx)"
  unfolding client_bindings_without_client_def by (intro errors_intros) simp_all

lemma codes_only_bindings [errors_intros]: "errors_in codes_only (check_materials_bindings env c d ref ctx key)"
  unfolding check_materials_bindings_def check_issuer_binding_def by (intro errors_intros) simp_all

lemma codes_only_wrapper [errors_intros]: "errors_in codes_only (check_retrieval_wrapper_bindings w c ctx)"
  unfolding check_retrieval_wrapper_bindings_def by (intro errors_intros) simp_all

theorem materials_errors:
  "verify_certificate_with_materials env c document pin ref ctx require_status = Inl e \<Longrightarrow>
   is_failed e \<or> e = SchemaDependency \<and> is_dict document \<and> schema env MaterialsSchema document = MissingDependency"
proof -
  assume "verify_certificate_with_materials env c document pin ref ctx require_status = Inl e"
  then obtain e' where e': "materials_steps env c document pin ref ctx require_status = Inl e'"
    "e = (if \<not> is_failed e' \<and> e' \<noteq> SchemaDependency then Failed ''VERIFICATION_FAILED'' else e')"
    by (auto simp: verify_certificate_with_materials_def recast_Inl)
  let ?P = "\<lambda>e. e = SchemaDependency \<longrightarrow> is_dict document \<and> schema env MaterialsSchema document = MissingDependency"
  have late: "errors_in codes_only r \<Longrightarrow> errors_in ?P r" for r :: "cert_error + 'a"
    by (auto simp: errors_in_def codes_only_def)
  have "errors_in ?P (materials_steps env c document pin ref ctx require_status)"
    unfolding materials_steps_def
  proof (rule errors_in_rbind_bound [OF _ errors_in_rbind])
    show "errors_in ?P (fail_if (\<not> is_dict document) ''MATERIALS_SCHEMA'')" by (intro errors_intros) simp
    show "errors_in ?P (check_materials_schema env document)" if "fail_if (\<not> is_dict document) ''MATERIALS_SCHEMA'' = Inr x" for x
      using that by (auto simp: errors_in_def check_materials_schema_def split: schema_outcome.splits)
  qed (rule late, intro errors_intros)
  with e' show ?thesis by (auto dest: errors_inD)
qed

end
