(* ===== verification/RelyingDemo.thy ===== *)
theory RelyingDemo
  imports RelyingLaws
begin

text \<open>
  A certificate with an issuer claim and a client claim that the verifier accepts, in an environment
  whose hash is constant and whose schemas and signatures accept: the properties of acceptance are
  not about an empty set.
\<close>

section \<open>How long canonical text can be\<close>

fun nodes :: "json \<Rightarrow> nat" where
  "nodes (JArr ts) = 1 + sum_list (map nodes ts)"
| "nodes (JObj kts) = 1 + sum_list (map (\<lambda>kt. nodes (snd kt)) kts)"
| "nodes t = 1"

fun short_text :: "nat \<Rightarrow> json \<Rightarrow> bool" where
  "short_text L (JStr s) = (length s \<le> L)"
| "short_text L (JInt i) = (length (int_text i) \<le> L)"
| "short_text L (JFloat f) = False"
| "short_text L (JArr ts) = list_all (short_text L) ts"
| "short_text L (JObj kts) = list_all (\<lambda>kt. length (fst kt) \<le> L \<and> short_text L (snd kt)) kts"
| "short_text L t = True"

lemma string_text_length: "length (string_text s) \<le> 6 * length s + 2"
proof -
  have "length (escape_char c) \<le> 6" for c by (simp add: escape_char_def)
  then have "length (concat (map escape_char s)) \<le> 6 * length s"
    by (induction s) (simp_all add: add_mono)
  then show ?thesis by (simp add: string_text_def)
qed

lemma utf8_length: "length (utf8 s) \<le> 4 * length s"
proof (induction s)
  case (Cons c s)
  have "length (utf8_cp c) \<le> 4" by (simp add: utf8_cp_def)
  with Cons show ?case by (simp add: utf8_def)
qed (simp add: utf8_def)

lemma commas_length: "length (with_commas first xs) \<le> sum_list (map (\<lambda>x. length x + 1) xs)"
  by (induction first xs rule: with_commas.induct) auto

lemma canon_length: "short_text L t \<Longrightarrow> length (canon t) + 6 * L + 4 \<le> nodes t * (12 * L + 20)"
proof (induction t)
  case (JStr s)
  then show ?case using string_text_length [of s] by simp
next
  case (JArr ts)
  have "sum_list (map (\<lambda>x. length x + 1) (map canon ts)) \<le> sum_list (map (\<lambda>t. nodes t * (12 * L + 20)) ts)"
    unfolding map_map comp_def by (rule sum_list_mono) (use JArr in \<open>fastforce simp: list_all_iff\<close>)
  also have "\<dots> = sum_list (map nodes ts) * (12 * L + 20)" by (simp add: sum_list_mult_const)
  finally show ?case using commas_length [of True "map canon ts"] by (simp add: algebra_simps)
next
  case (JObj kts)
  have "sum_list (map (\<lambda>x. length x + 1) (map member_text (sorted_members kts))) = sum_list (map (\<lambda>kt. length (member_text kt) + 1) kts)"
    by (simp add: comp_def)
  also have "\<dots> \<le> sum_list (map (\<lambda>kt. nodes (snd kt) * (12 * L + 20)) kts)"
  proof (rule sum_list_mono)
    fix kt assume kt: "kt \<in> set kts"
    then have "length (canon (snd kt)) + 6 * L + 4 \<le> nodes (snd kt) * (12 * L + 20)" "length (fst kt) \<le> L"
      using JObj by (auto simp: list_all_iff snds.simps)
    then show "length (member_text kt) + 1 \<le> nodes (snd kt) * (12 * L + 20)"
      using string_text_length [of "fst kt"] by (simp add: member_text_def)
  qed
  also have "\<dots> = sum_list (map (\<lambda>kt. nodes (snd kt)) kts) * (12 * L + 20)" by (simp add: sum_list_mult_const)
  finally show ?case using commas_length [of True "map member_text (sorted_members kts)"]
    unfolding canon_JObj by (simp add: algebra_simps)
qed auto

lemma canon_fits: "short_text 400 t \<Longrightarrow> nodes t \<le> 1000 \<Longrightarrow> length (utf8 (canon t)) < 2 ^ 64"
proof -
  assume "short_text 400 t" "nodes t \<le> 1000"
  moreover have "nodes t * 4820 \<le> 1000 * 4820" using calculation(2) by (rule mult_le_mono1)
  ultimately have "length (canon t) \<le> 4820000" using canon_length [of 400 t] by simp
  then show ?thesis using utf8_length [of "canon t"] by simp
qed

section \<open>The environment and the documents\<close>

definition demo_env :: cert_env where
  "demo_env =
     \<lparr>hash = \<lambda>x. replicate 32 17, load_der = \<lambda>der. Some (Ed25519Key der), ed25519_valid = \<lambda>k s m. True,
      ecdsa_valid = \<lambda>k r s m. True, schema = \<lambda>i t. Conforms, container_repr = \<lambda>t. []\<rparr>"

definition dig :: ustr where "dig = SHA256_PREFIX @ hexdigest (replicate 32 17)"
definition ckr :: ustr where "ckr = U ''ckr:'' @ b64_text (replicate 32 17)"
definition demo_signature :: json where "demo_signature = JStr (std_b64 (replicate 64 1))"

definition demo_registers :: "(ustr \<times> ustr) list" where
  "demo_registers =
     [(U ''compiler_version'', U ''1.0.0''), (U ''semantics_manifest_digest'', U ''a''),
      (U ''claim_template_catalog_digest'', U ''b''), (U ''prohibited_register_digest'', U ''c''),
      (U ''verifier_catalog_digest'', U ''d''), (U ''non_claim_reason_catalog_digest'', U ''e'')]"

definition registers_json :: json where
  "registers_json = JObj (map (\<lambda>(k, v). (k, JStr v)) demo_registers)"

definition demo_policy :: relying_party_policy where
  "demo_policy = \<lparr>compiler_register_versions = demo_registers,
     verifier_bindings = [(U ''B1'', U ''ver.b1'', U ''1.0.0''), (U ''G1'', U ''ver.g1'', U ''1.0.0'')]\<rparr>"

definition demo_subject :: json where
  "demo_subject = JObj [(U ''build_session_ref'', jstr ''ses''), (U ''project_ref'', jstr ''p1''),
     (U ''session_commitment_digest'', JStr dig)]"

definition demo_profile :: json where
  "demo_profile = JObj [(U ''profile_id'', jstr ''public'')]"

definition demo_stream :: "string \<times> string \<times> string \<Rightarrow> ustr \<times> json" where
  "demo_stream s = (case s of (stream, family, status) \<Rightarrow>
     (U stream, JObj [(U ''stream_family'', jstr family), (U ''chain_status'', jstr status), (U ''root_commitment'', jstr ''r'')]))"

definition demo_seal :: json where
  "demo_seal = JObj [(U ''seal_ref'', jstr ''seal''), (U ''chain_schema_version'', jstr BUILD_LEDGER_CHAIN_SCHEMA_VERSION),
     (U ''build_session_ref'', jstr ''ses''), (U ''expected_stream_projection'', JObj (map demo_stream STREAM_FAMILIES)),
     (U ''seal_statement_digest'', JStr dig)]"

definition evidence_ref :: "string \<Rightarrow> json" where
  "evidence_ref kind = JObj [(U ''evidence_kind'', jstr kind), (U ''evidence_digest'', JStr dig)]"

definition verifier :: "string \<Rightarrow> json" where
  "verifier ident = JObj [(U ''verifier_id'', jstr ident), (U ''verifier_version'', jstr ''1.0.0''), (U ''result'', jstr ''PASS'')]"

definition b1_claim :: json where
  "b1_claim = JObj [(U ''claim_id'', jstr ''B1''), (U ''tier'', JInt 3),
     (U ''payload'', JObj [(U ''params'', JObj [(U ''seal_ref'', jstr ''seal''), (U ''seal_statement_digest'', JStr dig)])]),
     (U ''verifier'', verifier ''ver.b1''),
     (U ''evidence_refs'', JArr [evidence_ref ''audit_report_digest'', evidence_ref ''seal_statement'']),
     (U ''rendered_text'', JStr (U ''The issuer signed this seal statement: seal '' @ U ''seal'' @
            U '', canonical seal-statement digest '' @ dig @ U ''.''))]"

definition g1_params :: json where
  "g1_params = JObj [(U ''manifest_root_digest'', JStr dig), (U ''commitment_scheme'', jstr ''s''),
     (U ''client_attestor_version'', jstr ''1''), (U ''build_session_ref'', jstr ''ses''), (U ''client_key_ref'', JStr ckr)]"

definition g1_text :: ustr where
  "g1_text = U ''The pinned client key co-signed the declaration that evidence-manifest root '' @ dig @
     U '' uses scheme '' @ U ''s'' @ U '' and client attestor version '' @ U ''1'' @
     U ''. The declaration is unopened; correspondence to, possession of, and completeness of any underlying evidence are not proven.''"

definition g1_claim :: json where
  "g1_claim = JObj [(U ''claim_id'', jstr ''G1''), (U ''tier'', JInt 1), (U ''payload'', JObj [(U ''params'', g1_params)]),
     (U ''verifier'', verifier ''ver.g1''),
     (U ''evidence_refs'', JArr [evidence_ref ''audit_report_digest'', evidence_ref ''client_commitment_digest'']),
     (U ''rendered_text'', JStr g1_text)]"

definition demo_ring :: json where
  "demo_ring = JObj [(U ''issuer_key_ref'', jstr ''ik''), (U ''issuer_signature_algorithm'', jstr ''ed25519''),
     (U ''trust_ring_ref'', jstr ''tr''), (U ''client_key_ref'', JStr ckr), (U ''client_signature_algorithm'', jstr ''ed25519'')]"

definition tier_of :: "string \<Rightarrow> int \<Rightarrow> json" where
  "tier_of ident n = JObj [(U ''claim_id'', jstr ident), (U ''tier'', JInt n)]"

definition demo_manifest :: json where
  "demo_manifest = JObj [(U ''subject'', demo_subject), (U ''seal'', demo_seal), (U ''claims'', JArr [b1_claim, g1_claim]),
     (U ''tiers'', JArr [tier_of ''B1'' 3, tier_of ''G1'' 1]),
     (U ''evidence_digests'', JArr [evidence_ref ''audit_report_digest'', evidence_ref ''seal_statement'', evidence_ref ''client_commitment_digest'']),
     (U ''non_claims'', expected_non_claims), (U ''privacy_mode'', JObj [(U ''declared_mode'', jstr ''offline'')]),
     (U ''sdk_identity'', JObj [(U ''sdk_ref'', jstr ''r''), (U ''sdk_version'', jstr ''1.0.0'')]),
     (U ''compiler_register_versions'', registers_json), (U ''key_ring_identifiers'', demo_ring),
     (U ''freshness'', JObj [(U ''nonce'', jstr ''n'')]), (U ''disclosure_profile'', demo_profile)]"

definition abstained :: "string \<Rightarrow> string \<Rightarrow> json" where
  "abstained ident code = JObj [(U ''claim_id'', jstr ident), (U ''evidence_basis'', jstr ''abstained''), (U ''abstention_code'', jstr code)]"

definition printed_row :: "string \<Rightarrow> string \<Rightarrow> string \<Rightarrow> json" where
  "printed_row ident basis ver = JObj [(U ''claim_id'', jstr ident), (U ''evidence_basis'', jstr basis),
     (U ''verifier'', verifier ver), (U ''claim_material_digest'', JStr dig)]"

definition demo_audit :: json where
  "demo_audit = JObj [(U ''build_session_ref'', jstr ''ses''), (U ''ledger_seal_statement_digest'', JStr dig),
     (U ''compiler_register_versions'', registers_json), (U ''client_evidence_manifest_root'', JStr dig),
     (U ''claim_support_rows'', JArr
        [printed_row ''B1'' ''issuer_verified'' ''ver.b1'', abstained ''REG1'' ''unregistered_claim_id'',
         abstained ''C1'' ''verifier_not_run_or_not_pass'', abstained ''D2'' ''verifier_not_run_or_not_pass'',
         abstained ''F1'' ''verifier_not_run_or_not_pass'', printed_row ''G1'' ''client_declared'' ''ver.g1'',
         abstained ''G3'' ''verifier_not_run_or_not_pass''])]"

definition issuer_block :: json where
  "issuer_block = JObj [(U ''issuer_key_ref'', jstr ''ik''), (U ''algorithm'', jstr ''ed25519''), (U ''trust_ring_ref'', jstr ''tr''),
     (U ''signed_payload'', JArr [jstr ''unsigned_manifest'']), (U ''signature'', demo_signature)]"

definition co_block :: json where
  "co_block = JObj [(U ''client_key_ref'', JStr ckr), (U ''algorithm'', jstr ''ed25519''), (U ''nonce'', jstr ''n''),
     (U ''signed_manifest_digest'', JStr dig), (U ''signature'', demo_signature)]"

definition unsigned_block :: json where
  "unsigned_block = JObj [(U ''document'', demo_manifest), (U ''manifest_digest'', JStr dig), (U ''coverage'', JArr (map jstr COVERAGE))]"

definition demo_signatures :: json where
  "demo_signatures = JObj [(U ''unsigned_manifest'', unsigned_block), (U ''issuer_signature'', issuer_block), (U ''co_attestation'', co_block)]"

definition demo_semantics :: json where
  "demo_semantics = JObj (map (\<lambda>(k, v). (k, JStr v)) (tl demo_registers))"

definition demo_envelope :: "json \<Rightarrow> json" where
  "demo_envelope signatures = JObj [(U ''schema_version'', jstr ''0''), (U ''subject'', demo_subject), (U ''ledger_seal_projection'', demo_seal),
     (U ''claims'', JArr [b1_claim, g1_claim]), (U ''non_claims'', expected_non_claims), (U ''disclosure_profile'', demo_profile),
     (U ''semantics'', demo_semantics), (U ''audit_report'', demo_audit), (U ''signatures'', signatures)]"

abbreviation demo_certificate :: json where
  "demo_certificate \<equiv> demo_envelope demo_signatures"

text \<open>What the issuer returns for the client to sign.\<close>

abbreviation demo_response :: json where
  "demo_response \<equiv> demo_envelope (JObj [(U ''unsigned_manifest'', unsigned_block), (U ''issuer_signature'', issuer_block)])"

definition demo_context :: verification_context where
  "demo_context = \<lparr>expected_nonce = U ''n'', expected_build_session_ref = U ''ses'', expected_issuer_key_ref = U ''ik'',
     expected_issuer_algorithm = U ''ed25519'', expected_trust_ring_ref = U ''tr'', expected_project_ref = Some (U ''p1''),
     expected_client_key_ref = Some ckr, expected_client_algorithm = Some (U ''ed25519''),
     client_public_key = Some (Ed25519Key [1])\<rparr>"

section \<open>The documents are well formed\<close>

definition fine :: "json \<Rightarrow> bool" where
  "fine t \<longleftrightarrow> parsed t \<and> fp2_ok t \<and> short_text 400 t"

lemma fine_JObj: "fine (JObj kts) \<longleftrightarrow> distinct (map fst kts) \<and>
   list_all (\<lambda>kt. list_all valid_cp (fst kt) \<and> encodable (fst kt) \<and> length (fst kt) \<le> 400 \<and> fine (snd kt)) kts"
  by (auto simp: fine_def parsed_def list_all_iff)

lemma fine_JArr: "fine (JArr ts) \<longleftrightarrow> list_all fine ts"
  by (auto simp: fine_def parsed_def list_all_iff)

lemma fine_scalar:
  "fine (JStr s) \<longleftrightarrow> list_all valid_cp s \<and> encodable s \<and> length s \<le> 400" "fine JNull"
  "fine (JInt i) \<longleftrightarrow> \<bar>i\<bar> \<le> int MAX_SAFE_INTEGER \<and> length (int_text i) \<le> 400"
  by (auto simp: fine_def parsed_def)

lemma valid_U [simp]: "list_all valid_cp (U s)"
proof -
  have small: "of_char c < (256 :: nat)" for c :: char using rangeI [of of_char c] unfolding range_nat_of_char by simp
  have "valid_cp (of_char c)" for c :: char using small [of c] unfolding valid_cp_def by linarith
  then show ?thesis by (simp add: U_def list_all_iff)
qed

lemma encodable_append [simp]: "encodable (a @ b) \<longleftrightarrow> encodable a \<and> encodable b"
  by (auto simp: encodable_def)

lemma ascii_fine: "(\<forall>c \<in> set s. c < 128) \<Longrightarrow> length s \<le> 400 \<Longrightarrow> fine (JStr s)"
  by (auto simp: fine_scalar list_all_iff encodable_def valid_cp_def is_surrogate_def)

lemma fine_dig: "fine (JStr dig)"
proof (rule ascii_fine)
  have "list_all is_hex (hexdigest (replicate 32 17))" by (rule hexdigest_hex)
  then show "\<forall>c \<in> set dig. c < 128"
    by (auto simp: dig_def SHA256_PREFIX_def U_Cons list_all_iff is_hex_def is_digit_def)
  show "length dig \<le> 400" by (simp add: dig_def SHA256_PREFIX_def hexdigest_length)
qed

lemma b64_chars: "c \<in> set (b64_text bs) \<Longrightarrow> word_char c"
  using b64_vals_small [of bs]
  by (auto simp: b64_text_vals list_all_iff b64_char_def word_char_def lower_def upper_def is_digit_def)

lemma ckr_ok: "is_client_key_ref ckr"
proof -
  have "length (b64_text (replicate 32 17)) = 43" by (simp add: b64_text_vals length_b64_vals)
  then show ?thesis using b64_chars by (auto simp: ckr_def is_client_key_ref_def chars_of_def list_all_iff U_Cons)
qed

lemma fine_ckr: "fine (JStr ckr)"
proof (rule ascii_fine)
  show "\<forall>c \<in> set ckr. c < 128" using b64_text_ascii by (auto simp: ckr_def U_Cons)
  show "length ckr \<le> 400" by (simp add: ckr_def b64_text_vals length_b64_vals)
qed

lemma fine_signature: "fine demo_signature"
  unfolding demo_signature_def
proof (rule ascii_fine)
  have "\<forall>n \<in> set (b64_vals (replicate 64 1)). n < 64" using b64_vals_small by (auto simp: list_all_iff)
  then show "\<forall>c \<in> set (std_b64 (replicate 64 1)). c < 128"
    using b64_char_ascii by (auto simp: std_b64_def std_b64_char_def)
  show "length (std_b64 (replicate 64 1)) \<le> 400" by (simp add: std_b64_def length_b64_vals)
qed

lemma fine_literal: "length s \<le> 400 \<Longrightarrow> fine (jstr s)"
  by (simp add: fine_scalar)

lemma fine_tier: "fine (JInt 1)" "fine (JInt 3)"
  by (simp_all add: fine_scalar MAX_SAFE_INTEGER_def int_text_def digit_chars_def nat_digits.simps)

lemma dig_length: "length dig = 71"
  by (simp add: dig_def SHA256_PREFIX_def hexdigest_length)

lemma fine_texts: "fine (JStr g1_text)" "fine (JStr (U ''The issuer signed this seal statement: seal '' @ U ''seal'' @
            U '', canonical seal-statement digest '' @ dig @ U ''.''))"
  using fine_dig by (simp_all add: g1_text_def fine_scalar dig_length)

lemma depth_le:
  "json_depth (JArr ts) \<le> n \<longleftrightarrow> 0 < n \<and> list_all (\<lambda>t. json_depth t \<le> n - 1) ts"
  "json_depth (JObj kts) \<le> n \<longleftrightarrow> 0 < n \<and> list_all (\<lambda>kt. json_depth (snd kt) \<le> n - 1) kts"
  by (cases n; auto simp: list_all_iff)+

text \<open>Canonical text exists for what is fine and shallow.\<close>

definition good :: "nat \<Rightarrow> json \<Rightarrow> bool" where
  "good n t \<longleftrightarrow> fine t \<and> json_depth t \<le> n"

lemma good_JObj: "good n (JObj kts) \<longleftrightarrow> distinct (map fst kts) \<and> 0 < n \<and>
   list_all (\<lambda>kt. list_all valid_cp (fst kt) \<and> encodable (fst kt) \<and> length (fst kt) \<le> 400 \<and> good (n - 1) (snd kt)) kts"
  unfolding good_def fine_JObj depth_le by (auto simp: list_all_iff)

lemma good_JArr: "good n (JArr ts) \<longleftrightarrow> 0 < n \<and> list_all (good (n - 1)) ts"
  unfolding good_def fine_JArr depth_le by (auto simp: list_all_iff)

lemma good_scalar: "good n (JStr s) \<longleftrightarrow> fine (JStr s)" "good n JNull" "good n (JInt i) \<longleftrightarrow> fine (JInt i)"
  by (simp_all add: good_def fine_scalar)

lemma good_text: "good 100 t \<Longrightarrow> canonical_text t = Some (canon t)"
  by (simp add: good_def fine_def canonical_text_Some MAX_DEPTH_def)

lemma good_digest: "good 100 t \<Longrightarrow> utf8 (U role) \<noteq> [] \<Longrightarrow> \<not> list_ex (\<lambda>b. 0x7F < b) (utf8 (U role)) \<Longrightarrow>
   role_digest demo_env (utf8 (U role)) t = Inr dig"
  by (simp add: role_digest_def good_text dig_def demo_env_def)

lemmas good_rules = good_JObj good_JArr good_scalar fine_dig fine_ckr fine_texts fine_tier fine_literal

lemma good_signature: "good n demo_signature"
  using fine_signature by (simp add: demo_signature_def good_scalar)

lemma good_parts:
  "5 \<le> n \<Longrightarrow> good n registers_json" "5 \<le> n \<Longrightarrow> good n demo_subject" "5 \<le> n \<Longrightarrow> good n demo_seal"
  "5 \<le> n \<Longrightarrow> good n b1_claim" "5 \<le> n \<Longrightarrow> good n g1_claim" "5 \<le> n \<Longrightarrow> good n demo_ring"
  "5 \<le> n \<Longrightarrow> good n expected_non_claims" "5 \<le> n \<Longrightarrow> good n demo_semantics"
  "5 \<le> n \<Longrightarrow> good n demo_profile"
  by (simp_all add: registers_json_def demo_registers_def demo_subject_def demo_seal_def demo_stream_def STREAM_FAMILIES_def
      b1_claim_def g1_claim_def g1_params_def demo_ring_def demo_semantics_def evidence_ref_def verifier_def demo_profile_def
      expected_non_claims_def NON_CLAIMS_def BUILD_LEDGER_CHAIN_SCHEMA_VERSION_def good_rules)

lemma good_manifest: "8 \<le> n \<Longrightarrow> good n demo_manifest"
  by (simp add: demo_manifest_def good_rules good_parts tier_of_def evidence_ref_def)

lemma good_audit: "8 \<le> n \<Longrightarrow> good n demo_audit"
  by (simp add: demo_audit_def good_rules good_parts printed_row_def abstained_def verifier_def)

lemma good_certificate: "good 100 demo_certificate"
  by (simp add: demo_envelope_def demo_signatures_def unsigned_block_def issuer_block_def co_block_def COVERAGE_def
      good_rules good_parts good_manifest good_audit good_signature)

lemma must_equal_refl: "good n x \<Longrightarrow> must_equal code (Inr x) (Inr x) = Inr ()"
  by (auto simp: must_equal_Inr good_def fine_def parsed_def py_eq_refl)

section \<open>The certificate is accepted\<close>

lemma co_free_demo: "co_free demo_certificate = demo_response" "co_free demo_response = demo_response"
  by (simp_all add: co_free_def without_member_def demo_envelope_def demo_signatures_def)

lemma demo_nodes: "nodes demo_manifest \<le> 1000" "nodes (co_free demo_certificate) \<le> 1000"
  unfolding co_free_demo by (simp_all add: demo_envelope_def demo_profile_def demo_manifest_def demo_signatures_def unsigned_block_def issuer_block_def
      co_block_def COVERAGE_def demo_audit_def printed_row_def abstained_def verifier_def registers_json_def
      demo_registers_def demo_subject_def demo_seal_def demo_stream_def STREAM_FAMILIES_def b1_claim_def g1_claim_def
      g1_params_def demo_ring_def demo_semantics_def evidence_ref_def expected_non_claims_def NON_CLAIMS_def tier_of_def
      demo_signature_def)

lemma good_co_free: "good 100 (co_free demo_certificate)"
  unfolding co_free_demo
  by (simp add: demo_envelope_def unsigned_block_def issuer_block_def COVERAGE_def good_rules good_parts good_manifest good_audit good_signature)

lemma demo_manifest_bytes: "manifest_bytes demo_env demo_manifest = Inr (utf8 (canon demo_manifest))"
proof -
  have "has_exact_keys demo_manifest MANIFEST_KEYS"
    by (auto simp: has_exact_keys_def demo_manifest_def MANIFEST_KEYS_def)
  then show ?thesis using good_text [OF good_manifest] by (simp add: manifest_bytes_Inr demo_env_def)
qed

lemma demo_materials:
  "\<exists>m. issuer_material (utf8 (canon demo_manifest)) = Inr m"
  "\<exists>m. client_material (utf8 (canon (co_free demo_certificate))) = Inr m"
proof -
  have "short_text 400 demo_manifest" "short_text 400 (co_free demo_certificate)"
    using good_manifest [of 100] good_co_free by (auto simp: good_def fine_def)
  then have l: "length (utf8 (canon demo_manifest)) < 2 ^ 64" "length (utf8 (canon (co_free demo_certificate))) < 2 ^ 64"
    using canon_fits demo_nodes by blast+
  have "ISSUER_DOMAIN \<noteq> []" "CLIENT_DOMAIN \<noteq> []"
    by (simp_all add: ISSUER_DOMAIN_def CLIENT_DOMAIN_def utf8_def U_Cons)
  with l show "\<exists>m. issuer_material (utf8 (canon demo_manifest)) = Inr m"
    "\<exists>m. client_material (utf8 (canon (co_free demo_certificate))) = Inr m"
    by (simp_all add: issuer_material_def client_material_Inr length_prefixed_Inr)
qed

lemma demo_tags:
  "list_all (\<lambda>c. 0 < c \<and> c < 128) (U ''traigent.agent_certificate.unsigned_manifest.v1'')"
  "list_all (\<lambda>c. 0 < c \<and> c < 128) (U ''traigent.agent_certificate.audit_report.v1'')"
  "list_all (\<lambda>c. 0 < c \<and> c < 128) (U ''traigent.agent_certificate.claim_material.v1'')"
  "list_all (\<lambda>c. 0 < c \<and> c < 128) (U ''traigent.agent_certificate.client_certificate_projection.v0'')"
  by (simp_all add: U_Cons)

lemma tag_digest: "good 100 t \<Longrightarrow> list_all (\<lambda>c. 0 < c \<and> c < 128) (U d) \<Longrightarrow> d \<noteq> [] \<Longrightarrow>
  role_digest demo_env (utf8 (U d)) t = Inr dig"
  using good_digest tag_ascii by blast

lemma demo_digests:
  assumes "good 100 t"
  shows "role_digest demo_env UNSIGNED_DOMAIN t = Inr dig" "role_digest demo_env AUDIT_DOMAIN t = Inr dig"
    "role_digest demo_env CLAIM_MATERIAL_DOMAIN t = Inr dig" "role_digest demo_env CLIENT_CERTIFICATE_DOMAIN t = Inr dig"
  unfolding UNSIGNED_DOMAIN_def AUDIT_DOMAIN_def CLAIM_MATERIAL_DOMAIN_def CLIENT_CERTIFICATE_DOMAIN_def
  by (rule tag_digest [OF assms demo_tags(1)] tag_digest [OF assms demo_tags(2)] tag_digest [OF assms demo_tags(3)]
      tag_digest [OF assms demo_tags(4)], simp)+

lemma demo_seal_digest: "compute_seal_digest demo_env demo_seal = Inr dig"
proof -
  have "has_exact_keys demo_seal SEAL_KEYS" by (auto simp: has_exact_keys_def demo_seal_def SEAL_KEYS_def)
  moreover have "good 100 (without_member ''seal_statement_digest'' demo_seal)"
    by (simp add: without_member_def demo_seal_def demo_stream_def STREAM_FAMILIES_def BUILD_LEDGER_CHAIN_SCHEMA_VERSION_def good_rules)
  ultimately show ?thesis using good_text by (simp add: compute_seal_digest_def dig_def demo_env_def)
qed

lemma demo_streams: "check_streams demo_env demo_seal = Inr ()"
proof -
  have "get_item demo_seal ''seal_statement_digest'' = Inr (JStr dig)" by (simp add: get_item_def demo_seal_def member_or_def)
  moreover have "get_item demo_seal ''chain_schema_version'' = Inr (jstr BUILD_LEDGER_CHAIN_SCHEMA_VERSION)"
    by (simp add: get_item_def demo_seal_def member_or_def)
  moreover have "get_item demo_seal ''expected_stream_projection'' = Inr (JObj (map demo_stream STREAM_FAMILIES))"
    by (simp add: get_item_def demo_seal_def member_or_def)
  moreover have "has_exact_keys (JObj (map demo_stream STREAM_FAMILIES)) (map fst STREAM_FAMILIES)"
    by (auto simp: has_exact_keys_def demo_stream_def STREAM_FAMILIES_def)
  moreover have "check_all (check_stream (JObj (map demo_stream STREAM_FAMILIES))) STREAM_FAMILIES = Inr ()"
    by (simp add: STREAM_FAMILIES_def demo_stream_def check_stream_def member_or_def ZERO_DIGEST_def SHA256_PREFIX_def U_Cons fail_if_def)
  ultimately show ?thesis by (simp add: check_streams_def demo_seal_digest)
qed

lemma demo_field [simp]: "field (demo_envelope s) ''schema_version'' = Inr (jstr ''0'')"
  "field (demo_envelope s) ''subject'' = Inr demo_subject" "field (demo_envelope s) ''ledger_seal_projection'' = Inr demo_seal"
  "field (demo_envelope s) ''claims'' = Inr (JArr [b1_claim, g1_claim])"
  "field (demo_envelope s) ''non_claims'' = Inr expected_non_claims"
  "field (demo_envelope s) ''disclosure_profile'' = Inr demo_profile"
  "field (demo_envelope s) ''semantics'' = Inr demo_semantics" "field (demo_envelope s) ''audit_report'' = Inr demo_audit"
  "field (demo_envelope s) ''signatures'' = Inr s"
  "field demo_manifest ''subject'' = Inr demo_subject" "field demo_manifest ''seal'' = Inr demo_seal"
  "field demo_manifest ''claims'' = Inr (JArr [b1_claim, g1_claim])"
  "field demo_manifest ''tiers'' = Inr (JArr [tier_of ''B1'' 3, tier_of ''G1'' 1])"
  "field demo_manifest ''evidence_digests'' =
     Inr (JArr [evidence_ref ''audit_report_digest'', evidence_ref ''seal_statement'', evidence_ref ''client_commitment_digest''])"
  "field demo_manifest ''non_claims'' = Inr expected_non_claims"
  "field demo_manifest ''disclosure_profile'' = Inr demo_profile"
  "field demo_manifest ''compiler_register_versions'' = Inr registers_json"
  "field demo_manifest ''key_ring_identifiers'' = Inr demo_ring"
  "field demo_manifest ''freshness'' = Inr (JObj [(U ''nonce'', jstr ''n'')])"
  by (simp_all add: demo_envelope_def demo_manifest_def)

lemma part_field [simp]:
  "field demo_subject ''build_session_ref'' = Inr (jstr ''ses'')" "field demo_subject ''project_ref'' = Inr (jstr ''p1'')"
  "field demo_seal ''build_session_ref'' = Inr (jstr ''ses'')" "field demo_seal ''seal_ref'' = Inr (jstr ''seal'')"
  "field demo_seal ''seal_statement_digest'' = Inr (JStr dig)"
  "field b1_claim ''claim_id'' = Inr (jstr ''B1'')" "field g1_claim ''claim_id'' = Inr (jstr ''G1'')"
  "field b1_claim ''tier'' = Inr (JInt 3)" "field g1_claim ''tier'' = Inr (JInt 1)"
  "field b1_claim ''verifier'' = Inr (verifier ''ver.b1'')" "field g1_claim ''verifier'' = Inr (verifier ''ver.g1'')"
  "field b1_claim ''evidence_refs'' = Inr (JArr [evidence_ref ''audit_report_digest'', evidence_ref ''seal_statement''])"
  "field g1_claim ''evidence_refs'' = Inr (JArr [evidence_ref ''audit_report_digest'', evidence_ref ''client_commitment_digest''])"
  "field g1_claim ''payload'' = Inr (JObj [(U ''params'', g1_params)])"
  "field (evidence_ref k) ''evidence_kind'' = Inr (jstr k)" "field (evidence_ref k) ''evidence_digest'' = Inr (JStr dig)"
  "field (verifier i) ''verifier_id'' = Inr (jstr i)" "field (verifier i) ''verifier_version'' = Inr (jstr ''1.0.0'')"
  "field (verifier i) ''result'' = Inr (jstr ''PASS'')"
  "field demo_ring ''issuer_key_ref'' = Inr (jstr ''ik'')" "field demo_ring ''issuer_signature_algorithm'' = Inr (jstr ''ed25519'')"
  "field demo_ring ''trust_ring_ref'' = Inr (jstr ''tr'')" "field demo_ring ''client_key_ref'' = Inr (JStr ckr)"
  "field demo_ring ''client_signature_algorithm'' = Inr (jstr ''ed25519'')"
  "field g1_params ''manifest_root_digest'' = Inr (JStr dig)" "field g1_params ''commitment_scheme'' = Inr (jstr ''s'')"
  "field g1_params ''client_attestor_version'' = Inr (jstr ''1'')" "field g1_params ''build_session_ref'' = Inr (jstr ''ses'')"
  "field g1_params ''client_key_ref'' = Inr (JStr ckr)"
  by (simp_all add: demo_subject_def demo_seal_def b1_claim_def g1_claim_def evidence_ref_def verifier_def demo_ring_def g1_params_def)

lemma demo_policy_ok: "check_policy demo_certificate demo_manifest demo_policy = Inr ()"
proof -
  have "must_equal ''POLICY'' (Inr registers_json) (Inr registers_json) = Inr ()" by (rule must_equal_refl [OF good_parts(1) [of 5]]) simp
  then have 1: "must_equal ''POLICY'' (Inr registers_json)
     (Inr (JObj (map (\<lambda>(k, v). (k, JStr v)) (compiler_register_versions demo_policy)))) = Inr ()"
    by (simp add: registers_json_def demo_policy_def)
  have 2: "traverse (\<lambda>key. path_to demo_certificate [''semantics'', key]) SEMANTICS_KEYS =
      Inr [jstr ''a'', jstr ''b'', jstr ''c'', jstr ''d'', jstr ''e'']"
    by (simp add: SEMANTICS_KEYS_def demo_semantics_def demo_registers_def)
  have 3: "selected (JObj (map (\<lambda>(k, v). (k, JStr v)) (compiler_register_versions demo_policy))) SEMANTICS_KEYS =
      Inr (JObj (zip (map U SEMANTICS_KEYS) [jstr ''a'', jstr ''b'', jstr ''c'', jstr ''d'', jstr ''e'']))"
    by (simp add: SEMANTICS_KEYS_def demo_policy_def demo_registers_def selected_def)
  have 4: "must_equal ''POLICY'' (Inr (JObj (zip (map U SEMANTICS_KEYS) [jstr ''a'', jstr ''b'', jstr ''c'', jstr ''d'', jstr ''e''])))
      (Inr (JObj (zip (map U SEMANTICS_KEYS) [jstr ''a'', jstr ''b'', jstr ''c'', jstr ''d'', jstr ''e'']))) = Inr ()"
    by (rule must_equal_refl [of 5]) (simp add: SEMANTICS_KEYS_def good_rules)
  have 5: "check_claim_policy demo_policy c = Inr ()" if "c \<in> {b1_claim, g1_claim}" for c
    using that by (auto simp: check_claim_policy_def allowed_verifier_def demo_policy_def recast_def)
  show ?thesis using 1 2 3 4 5 by (simp add: check_policy_def Let_def)
qed

lemma good_evidence: "5 \<le> n \<Longrightarrow> length k \<le> 400 \<Longrightarrow> good n (evidence_ref k)"
  by (simp add: evidence_ref_def good_rules)

lemma demo_evidence: "expected_evidence [b1_claim, g1_claim] dig =
  Inr (JArr [evidence_ref ''audit_report_digest'', evidence_ref ''seal_statement'', evidence_ref ''client_commitment_digest''])"
  by (simp add: expected_evidence_def add_claim_evidence_def add_evidence_def Let_def) (simp add: evidence_ref_def)

lemma demo_projections: "check_projections (demo_envelope s) demo_manifest dig = Inr ()"
proof -
  note refl = must_equal_refl [OF good_parts(2) [of 5]] must_equal_refl [OF good_parts(3) [of 5]]
    must_equal_refl [OF good_parts(7) [of 5]] must_equal_refl [OF good_parts(9) [of 5]]
  have claims: "must_equal code (Inr (JArr [b1_claim, g1_claim])) (Inr (JArr [b1_claim, g1_claim])) = Inr ()" for code
    by (rule must_equal_refl [of 6]) (simp add: good_rules good_parts)
  have tiers: "must_equal code (Inr (JArr [tier_of ''B1'' 3, tier_of ''G1'' 1])) (Inr (JArr [tier_of ''B1'' 3, tier_of ''G1'' 1])) = Inr ()" for code
    by (rule must_equal_refl [of 6]) (simp add: good_rules tier_of_def)
  have evidence: "must_equal code (Inr (JArr [evidence_ref ''audit_report_digest'', evidence_ref ''seal_statement'', evidence_ref ''client_commitment_digest'']))
      (Inr (JArr [evidence_ref ''audit_report_digest'', evidence_ref ''seal_statement'', evidence_ref ''client_commitment_digest''])) = Inr ()" for code
    by (rule must_equal_refl [of 6]) (simp add: good_rules good_evidence)
  have "traverse claim_tier [b1_claim, g1_claim] = Inr [tier_of ''B1'' 3, tier_of ''G1'' 1]"
    by (simp add: claim_tier_def tier_of_def)
  then show ?thesis
    by (simp add: check_projections_def projected_member_def refl claims tiers evidence demo_evidence)
qed

lemma demo_refs:
  "kinded_refs b1_claim = Inr [(jstr ''audit_report_digest'', evidence_ref ''audit_report_digest''), (jstr ''seal_statement'', evidence_ref ''seal_statement'')]"
  "kinded_refs g1_claim = Inr [(jstr ''audit_report_digest'', evidence_ref ''audit_report_digest''), (jstr ''client_commitment_digest'', evidence_ref ''client_commitment_digest'')]"
  by (simp_all add: kinded_refs_def)

lemma demo_own_refs:
  "own_refs b1_claim = Inr [evidence_ref ''seal_statement'']" "own_refs g1_claim = Inr [evidence_ref ''client_commitment_digest'']"
  "audit_refs b1_claim = Inr [evidence_ref ''audit_report_digest'']" "audit_refs g1_claim = Inr [evidence_ref ''audit_report_digest'']"
  by (simp_all add: own_refs_def audit_refs_def demo_refs is_audit_kind_def)

lemma hexdigest_zeros: "hexdigest (replicate n 0) = replicate (2 * n) 48"
  by (induction n) (simp_all add: hexdigest_def hex_char_def)

lemma dig_not_zero: "JStr dig \<noteq> ZERO_DIGEST"
proof
  assume "JStr dig = ZERO_DIGEST"
  then have "hexdigest (replicate 32 17) = hexdigest (replicate 32 0)"
    by (simp add: dig_def ZERO_DIGEST_def hexdigest_zeros)
  then have "replicate 32 (17 :: byte) = replicate 32 0" by (simp only: hexdigest_inject)
  then show False by simp
qed

lemma audit_field [simp]:
  "field demo_audit ''build_session_ref'' = Inr (jstr ''ses'')" "field demo_audit ''ledger_seal_statement_digest'' = Inr (JStr dig)"
  "field demo_audit ''compiler_register_versions'' = Inr registers_json"
  "field demo_audit ''client_evidence_manifest_root'' = Inr (JStr dig)"
  by (simp_all add: demo_audit_def)

lemma demo_g1: "check_printed_g1_claim demo_env g1_claim g1_params [evidence_ref ''client_commitment_digest''] demo_audit = Inr ()"
proof -
  have "render_g1_text demo_env g1_params = Inr g1_text" by (simp add: render_g1_text_def g1_text_def recast_def)
  moreover have "get_item g1_claim ''rendered_text'' = Inr (JStr g1_text)" by (simp add: get_item_def g1_claim_def member_or_def)
  moreover have "must_equal ''CLAIM_STATUS'' (Inr (JInt 1)) (Inr (JInt 1)) = Inr ()" by (simp add: must_equal_Inr)
  moreover have "\<not> py_eq (JStr dig) ZERO_DIGEST" using dig_not_zero by (simp add: ZERO_DIGEST_def)
  ultimately show ?thesis by (simp add: check_printed_g1_claim_def sole_ref_def)
qed

lemma demo_b1: "check_printed_b1_claim (demo_envelope s) b1_claim
  (JObj [(U ''seal_ref'', jstr ''seal''), (U ''seal_statement_digest'', JStr dig)]) [evidence_ref ''seal_statement''] demo_audit = Inr ()"
proof -
  have "get_item b1_claim ''rendered_text'' = Inr (JStr (U ''The issuer signed this seal statement: seal '' @ U ''seal'' @
            U '', canonical seal-statement digest '' @ dig @ U ''.''))" by (simp add: get_item_def b1_claim_def member_or_def)
  moreover have "get_item demo_audit ''ledger_seal_statement_digest'' = Inr (JStr dig)"
    by (simp add: get_item_def demo_audit_def member_or_def)
  moreover have "must_equal ''CLAIM_STATUS'' (Inr (JInt 3)) (Inr (JInt 3)) = Inr ()" by (simp add: must_equal_Inr)
  ultimately show ?thesis by (simp add: check_printed_b1_claim_def sole_ref_def as_text_def)
qed

lemma demo_printed: "check_printed_claims demo_env (demo_envelope s) demo_audit dig =
  Inr [(jstr ''B1'', b1_claim), (jstr ''G1'', g1_claim)]"
proof -
  have "path_to b1_claim [''payload'', ''params''] = Inr (JObj [(U ''seal_ref'', jstr ''seal''), (U ''seal_statement_digest'', JStr dig)])"
    by (simp add: b1_claim_def)
  then have "check_printed_claim demo_env (demo_envelope s) demo_audit dig b1_claim = Inr ()"
    unfolding check_printed_claim_def using demo_b1 by (simp add: demo_own_refs del: path_to.simps) simp
  moreover have "check_printed_claim demo_env (demo_envelope s) demo_audit dig g1_claim = Inr ()"
    unfolding check_printed_claim_def using demo_g1 by (simp add: demo_own_refs)
  ultimately show ?thesis by (simp add: check_printed_claims_def)
qed

lemma good_verifier: "length i \<le> 400 \<Longrightarrow> good 5 (verifier i)"
  by (simp add: verifier_def good_rules)

lemma demo_material:
  "\<exists>m. claim_material b1_claim = Inr m \<and> good 100 m" "\<exists>m. claim_material g1_claim = Inr m \<and> good 100 m"
proof -
  have "field b1_claim ''payload'' = Inr (JObj [(U ''params'', JObj [(U ''seal_ref'', jstr ''seal''), (U ''seal_statement_digest'', JStr dig)])])"
    by (simp add: b1_claim_def)
  moreover have "field b1_claim ''rendered_text'' = Inr (JStr (U ''The issuer signed this seal statement: seal '' @ U ''seal'' @
            U '', canonical seal-statement digest '' @ dig @ U ''.''))" by (simp add: b1_claim_def)
  moreover have "field g1_claim ''rendered_text'' = Inr (JStr g1_text)" by (simp add: g1_claim_def)
  ultimately show "\<exists>m. claim_material b1_claim = Inr m \<and> good 100 m" "\<exists>m. claim_material g1_claim = Inr m \<and> good 100 m"
    by (simp_all add: claim_material_def demo_own_refs good_rules good_evidence verifier_def g1_params_def)
qed

lemma good_signed_block: "good 100 unsigned_block" "good 100 issuer_block"
  by (simp_all add: unsigned_block_def issuer_block_def COVERAGE_def good_rules good_manifest good_signature)

definition demo_by_id :: "(json \<times> json) list" where
  "demo_by_id = [(jstr ''B1'', b1_claim), (jstr ''G1'', g1_claim)]"

lemma demo_row_printed:
  assumes "map_of demo_by_id (jstr i) = Some claim" "field claim ''verifier'' = Inr (verifier ver)" "length ver \<le> 400"
    "\<exists>m. claim_material claim = Inr m \<and> good 100 m"
    "basis = (if i = ''B1'' then ''issuer_verified'' else ''client_declared'')"
  shows "check_audit_row demo_env demo_by_id (printed_row i basis ver) = Inr ()"
proof -
  from assms(4) obtain m where m: "claim_material claim = Inr m" "good 100 m" by blast
  have f: "field (printed_row i b v) ''evidence_basis'' = Inr (jstr b)" "field (printed_row i b v) ''claim_id'' = Inr (jstr i)"
    "field (printed_row i b v) ''verifier'' = Inr (verifier v)"
    "field (printed_row i b v) ''claim_material_digest'' = Inr (JStr dig)" for i b v
    by (simp_all add: printed_row_def)
  show ?thesis using assms(1,2) m(1) demo_digests(3) [OF m(2)] must_equal_refl [OF good_verifier [OF assms(3)]]
    unfolding assms(5) by (simp add: check_audit_row_def f)
qed

lemma demo_row_abstained:
  assumes "map_of demo_by_id (jstr i) = None" "ABSTENTION_CODE (jstr i) = Inr (jstr code)"
  shows "check_audit_row demo_env demo_by_id (abstained i code) = Inr ()"
  using assms by (simp add: check_audit_row_def abstained_def)

lemma demo_rows: "check_audit_rows demo_env demo_audit demo_by_id = Inr ()"
proof -
  have rows: "field demo_audit ''claim_support_rows'' = Inr (JArr
        [printed_row ''B1'' ''issuer_verified'' ''ver.b1'', abstained ''REG1'' ''unregistered_claim_id'',
         abstained ''C1'' ''verifier_not_run_or_not_pass'', abstained ''D2'' ''verifier_not_run_or_not_pass'',
         abstained ''F1'' ''verifier_not_run_or_not_pass'', printed_row ''G1'' ''client_declared'' ''ver.g1'',
         abstained ''G3'' ''verifier_not_run_or_not_pass''])" by (simp add: demo_audit_def)
  have ids: "field (printed_row i b v) ''claim_id'' = Inr (jstr i)" "field (abstained i e) ''claim_id'' = Inr (jstr i)" for i b v e
    by (simp_all add: printed_row_def abstained_def)
  have b1: "check_audit_row demo_env demo_by_id (printed_row ''B1'' ''issuer_verified'' ''ver.b1'') = Inr ()"
    by (rule demo_row_printed [of _ b1_claim]) (simp_all add: demo_by_id_def demo_material)
  have g1: "check_audit_row demo_env demo_by_id (printed_row ''G1'' ''client_declared'' ''ver.g1'') = Inr ()"
    by (rule demo_row_printed [of _ g1_claim]) (simp_all add: demo_by_id_def demo_material)
  have abstain: "ABSTENTION_CODE (jstr ''REG1'') = Inr (jstr ''unregistered_claim_id'')"
    "i \<in> {''C1'', ''D2'', ''F1'', ''G3''} \<Longrightarrow> ABSTENTION_CODE (jstr i) = Inr (jstr ''verifier_not_run_or_not_pass'')" for i
    by (auto simp: ABSTENTION_CODE_def AUDIT_ROWS_def)
  have none: "i \<in> {''REG1'', ''C1'', ''D2'', ''F1'', ''G3''} \<Longrightarrow> map_of demo_by_id (jstr i) = None" for i
    by (auto simp: demo_by_id_def)
  show ?thesis
    by (simp add: check_audit_rows_def rows ids AUDIT_ROWS_def b1 g1 demo_row_abstained abstain none)
qed

lemma demo_claims_and_audit: "check_claims_and_audit demo_env (demo_envelope s) demo_manifest demo_audit dig = Inr ()"
proof -
  have "must_equal ''COMPILER_REGISTERS'' (Inr registers_json) (Inr registers_json) = Inr ()"
    by (rule must_equal_refl [OF good_parts(1) [of 5]]) simp
  moreover have "map_of demo_by_id (jstr ''G1'') = Some g1_claim" by (simp add: demo_by_id_def)
  ultimately have "check_audit_bindings (demo_envelope s) demo_manifest demo_audit demo_by_id = Inr ()"
    by (simp add: check_audit_bindings_def)
  then show ?thesis using demo_rows demo_printed by (simp add: check_claims_and_audit_def demo_by_id_def)
qed

lemma demo_semantics_ok: "check_semantics demo_certificate demo_manifest = Inr ()"
proof -
  have "py_eq demo_semantics demo_semantics"
    using good_parts(8) [of 5] by (simp add: good_def fine_def parsed_def py_eq_refl)
  then show ?thesis
    by (simp add: check_semantics_def) (simp add: demo_semantics_def demo_registers_def registers_json_def key_strings_def)
qed

lemma block_field [simp]:
  "field demo_signatures ''unsigned_manifest'' = Inr unsigned_block" "field demo_signatures ''issuer_signature'' = Inr issuer_block"
  "field demo_signatures ''co_attestation'' = Inr co_block"
  "field unsigned_block ''document'' = Inr demo_manifest" "field unsigned_block ''manifest_digest'' = Inr (JStr dig)"
  "field unsigned_block ''coverage'' = Inr (JArr (map jstr COVERAGE))"
  "field issuer_block ''issuer_key_ref'' = Inr (jstr ''ik'')" "field issuer_block ''algorithm'' = Inr (jstr ''ed25519'')"
  "field issuer_block ''trust_ring_ref'' = Inr (jstr ''tr'')" "field issuer_block ''signature'' = Inr demo_signature"
  "field issuer_block ''signed_payload'' = Inr (JArr [jstr ''unsigned_manifest''])"
  "field co_block ''client_key_ref'' = Inr (JStr ckr)" "field co_block ''algorithm'' = Inr (jstr ''ed25519'')"
  "field co_block ''nonce'' = Inr (jstr ''n'')" "field co_block ''signed_manifest_digest'' = Inr (JStr dig)"
  "field co_block ''signature'' = Inr demo_signature"
  by (simp_all add: demo_signatures_def unsigned_block_def issuer_block_def co_block_def)

lemma in_turn_next [simp]: "in_turn (Inr () # rs) = in_turn rs"
  by (simp add: in_turn_def)

lemma demo_validated: "validated_document demo_env demo_certificate demo_policy =
  Inr \<lparr>v_signatures = demo_signatures, v_unsigned = demo_manifest, v_manifest_bytes = utf8 (canon demo_manifest)\<rparr>"
proof -
  have "is_dict demo_certificate" by (simp add: demo_envelope_def)
  moreover have "schema demo_env CertificateSchema demo_certificate = Conforms" by (simp add: demo_env_def)
  moreover have "role_digest demo_env UNSIGNED_DOMAIN demo_manifest = Inr dig" "role_digest demo_env AUDIT_DOMAIN demo_audit = Inr dig"
    by (simp_all add: demo_digests good_manifest good_audit)
  moreover have "py_eq (JArr (map jstr COVERAGE)) (JArr (map jstr COVERAGE))"
    by (rule py_eq_refl) (simp_all add: COVERAGE_def)
  moreover have "must_equal code (Inr demo_profile) (Inr demo_profile) = Inr ()" for code
    by (rule must_equal_refl [OF good_parts(9) [of 5]]) simp
  ultimately show ?thesis
    by (simp add: validated_document_def demo_manifest_bytes demo_policy_ok demo_semantics_ok demo_streams demo_projections
        demo_claims_and_audit)
qed

lemma project_ok: "is_project_ref (U ''p1'')"
  by (simp add: is_project_ref_def chars_of_def U_Cons word_char_def lower_def is_digit_def)

lemma demo_key_ref: "derive_client_key_ref demo_env (U ''p1'') (jstr ''ed25519'') (Ed25519Key [1]) = Inr ckr"
proof -
  have "CLIENT_KEY_REF_DOMAIN \<noteq> []" by (simp add: CLIENT_KEY_REF_DOMAIN_def utf8_def U_Cons)
  moreover have "length (utf8 (U ''p1'')) < 2 ^ 64" "length (utf8 (U ''ed25519'')) < 2 ^ 64"
    using utf8_length [of "U ''p1''"] utf8_length [of "U ''ed25519''"] by simp_all
  ultimately have "\<exists>m. length_prefixed_fields CLIENT_KEY_REF_DOMAIN [utf8 (U ''p1''), utf8 (U ''ed25519''), [1]] = Inr m"
    by (simp add: length_prefixed_Inr)
  then show ?thesis
    using ckr_ok project_ok by (auto simp: derive_client_key_ref_def ckr_def demo_env_def)
qed

lemma opt_str_Some [simp]: "opt_str (Some s) = JStr s"
  by (simp add: opt_str_def)

lemma demo_context_ok: "check_context demo_env demo_manifest demo_signatures demo_context = Inr ()"
proof -
  have g1: "check_g1_binding demo_manifest demo_ring c = Inr ()" if "c \<in> {b1_claim, g1_claim}" for c
    using that by (auto simp: check_g1_binding_def)
  have "check_client_ring_context demo_env demo_manifest demo_ring demo_context = Inr ()"
    using demo_key_ref g1 by (simp add: check_client_ring_context_def demo_context_def)
  moreover have "has_key demo_ring ''client_key_ref'' = Inr True" "has_key demo_ring ''client_signature_algorithm'' = Inr True"
    by (rule field_has_key, simp)+
  ultimately show ?thesis
    by (simp add: check_context_def project_ok) (simp add: demo_context_def project_ok)
qed

lemma demo_decoded: "decode_signature demo_signature = Inr (replicate 64 1)"
  by (simp add: decode_signature_char demo_signature_def)

lemma demo_verified: "verify_signature demo_env (Ed25519Key k) (jstr ''ed25519'') material demo_signature = Inr ()"
  by (simp add: verify_signature_def demo_decoded demo_env_def)

lemma demo_co: "verify_co_attestation demo_env demo_certificate demo_signatures demo_manifest demo_context = Inr ()"
proof -
  obtain m where m: "client_material (utf8 (canon (co_free demo_certificate))) = Inr m" using demo_materials(2) by blast
  have "any_of client_claim [b1_claim, g1_claim] = Inr True" by (simp add: client_claim_def)
  moreover have "has_key demo_signatures ''co_attestation'' = Inr True" by (rule field_has_key) simp
  moreover have "check_co_bindings co_block demo_manifest demo_context = Inr ()"
    by (simp add: check_co_bindings_def) (simp add: demo_context_def)
  moreover have "is_dict demo_signatures" by (simp add: demo_signatures_def)
  then have "prepare_client_projection demo_env demo_certificate =
      Inr \<lparr>projection_bytes = utf8 (canon (co_free demo_certificate)), signing_bytes = m, signed_manifest_digest = dig\<rparr>"
    using m good_text [OF good_co_free] demo_digests(4) [OF good_co_free] by (simp add: prepare_client_projection_def recast_def)
  ultimately show ?thesis
    by (simp add: verify_co_attestation_def demo_decoded demo_verified) (simp add: demo_context_def demo_verified)
qed

theorem demo_accepted: "verify_certificate demo_env demo_certificate (Ed25519Key [1]) demo_context demo_policy = Inr ()"
proof -
  obtain m where "issuer_material (utf8 (canon demo_manifest)) = Inr m" using demo_materials(1) by blast
  moreover have "must_equal code (Inr (JArr [jstr ''unsigned_manifest''])) (Inr (JArr [jstr ''unsigned_manifest''])) = Inr ()" for code
    by (simp add: must_equal_def)
  ultimately have "verify_steps demo_env demo_certificate (Ed25519Key [1]) demo_context demo_policy = Inr ()"
    by (simp add: verify_steps_def demo_validated demo_context_ok demo_verified demo_co)
  then show ?thesis by (simp add: verify_certificate_def recast_def)
qed

section \<open>Witnesses\<close>

lemma demo_parsed: "parsed demo_certificate"
  using good_certificate by (simp add: good_def fine_def)

theorem issuer_signature_binds_witness:
  "verify_certificate demo_env demo_certificate (Ed25519Key [1]) demo_context demo_policy = Inr () \<and>
   list_all (\<lambda>l. \<exists>x y. field demo_certificate l = Inr x \<and> field demo_certificate l = Inr y \<and> py_eq x y)
     [''subject'', ''ledger_seal_projection'', ''claims'', ''non_claims'', ''disclosure_profile'']"
  using issuer_signature_binds [OF demo_accepted demo_accepted refl demo_parsed demo_parsed] demo_accepted by blast


theorem accepted_claims_are_supported_witness:
  "\<exists>audit rows. field demo_certificate ''audit_report'' = Inr audit \<and>
     rbind (field audit ''claim_support_rows'') iterate = Inr rows \<and>
     list_ex (\<lambda>row. field row ''claim_id'' = Inr (jstr ''G1'') \<and> field row ''evidence_basis'' = Inr (jstr ''client_declared'')) rows"
proof -
  obtain claims audit rows where c: "rbind (field demo_certificate ''claims'') iterate = Inr claims"
    "field demo_certificate ''audit_report'' = Inr audit" "rbind (field audit ''claim_support_rows'') iterate = Inr rows"
    "list_all (\<lambda>claim. list_ex (\<lambda>row. field row ''claim_id'' = field claim ''claim_id'' \<and>
        field row ''evidence_basis'' =
          Inr (jstr (if field claim ''claim_id'' = Inr (jstr ''B1'') then ''issuer_verified'' else ''client_declared''))) rows) claims"
    using accepted_claims_are_supported [OF demo_accepted] by (fastforce simp: list_all_iff list_ex_iff)
  from c(1) have "claims = [b1_claim, g1_claim]" by simp
  with c(4) have "list_ex (\<lambda>row. field row ''claim_id'' = Inr (jstr ''G1'') \<and> field row ''evidence_basis'' = Inr (jstr ''client_declared'')) rows"
    by simp
  with c(2,3) show ?thesis by blast
qed

theorem client_claims_are_co_signed_witness:
  "\<exists>text signature. canonical_text (co_free demo_certificate) = Some text \<and>
     verify_signature demo_env (Ed25519Key [1]) (jstr ''ed25519'')
       (CLIENT_DOMAIN @ i2osp (length (utf8 text)) 8 @ utf8 text) signature = Inr ()"
proof -
  have "rbind (field demo_certificate ''claims'') iterate = Inr [b1_claim, g1_claim]" by simp
  from client_claims_are_co_signed [OF demo_accepted this, of g1_claim] show ?thesis
    by (auto simp: demo_context_def)
qed

theorem client_signature_binds_witness:
  "\<exists>p. prepare_client_projection demo_env demo_certificate = Inr p \<and>
     Fp2Text.norm (co_free demo_certificate) = Fp2Text.norm (co_free demo_certificate)"
proof -
  obtain m where m: "client_material (utf8 (canon (co_free demo_certificate))) = Inr m" using demo_materials(2) by blast
  have "is_dict demo_signatures" by (simp add: demo_signatures_def)
  then have "prepare_client_projection demo_env demo_certificate =
      Inr \<lparr>projection_bytes = utf8 (canon (co_free demo_certificate)), signing_bytes = m, signed_manifest_digest = dig\<rparr>"
    using m good_text [OF good_co_free] demo_digests(4) [OF good_co_free] by (simp add: prepare_client_projection_def recast_def)
  from client_signature_binds [OF this this refl demo_parsed demo_parsed] this show ?thesis by blast
qed

theorem client_key_ref_binds_witness:
  "derive_client_key_ref demo_env (U ''p1'') (jstr ''ed25519'') (Ed25519Key [1]) = Inr ckr \<and>
   (U ''p1'' = U ''p1'' \<and> U ''ed25519'' = U ''ed25519'' \<and> Ed25519Key [1] = Ed25519Key [1] \<or>
    (\<exists>m m'. client_key_message (U ''p1'') (U ''ed25519'') (Ed25519Key [1]) = Inr m \<and>
       client_key_message (U ''p1'') (U ''ed25519'') (Ed25519Key [1]) = Inr m' \<and> m \<noteq> m' \<and> hash demo_env m = hash demo_env m'))"
  using client_key_ref_binds [OF demo_key_ref demo_key_ref] demo_key_ref by blast

theorem twin_signature_refused_witness:
  "verify_signature demo_env (P256Key [1]) (jstr ''ecdsa_p256_sha256'') [] (ecdsa_text 1 1) = Inr () \<and>
   verify_signature demo_env (P256Key [1]) (jstr ''ecdsa_p256_sha256'') [] (ecdsa_text 1 (ECDSA_ORDER - 1)) =
     Inl (Failed ''SIGNATURE_HIGH_S'')"
proof -
  have "os2ip (i2osp 1 32) = 1" by (rule os2ip_i2osp) simp
  then have "verify_signature demo_env (P256Key [1]) (jstr ''ecdsa_p256_sha256'') [] (ecdsa_text 1 1) = Inr ()"
    by (simp add: verify_signature_def decode_ecdsa_text ECDSA_ORDER_def ECDSA_HALF_ORDER_def demo_env_def)
  moreover from twin_signature_refused [OF _ _ this] have
    "verify_signature demo_env (P256Key [1]) (jstr ''ecdsa_p256_sha256'') [] (ecdsa_text 1 (ECDSA_ORDER - 1)) =
     Inl (Failed ''SIGNATURE_HIGH_S'')" by simp
  ultimately show ?thesis by blast
qed

end
