(* ===== verification/MaterialsDemo.thy ===== *)
theory MaterialsDemo
  imports RelyingMaterials RelyingDemo
begin

text \<open>A bundle and a retrieval response for the accepted certificate, and the witnesses over them.\<close>

definition demo_key_part :: "string \<Rightarrow> ustr \<Rightarrow> json" where
  "demo_key_part ring ref = JObj [(U ''key_ref'', JStr ref), (U ''algorithm'', jstr ''ed25519''), (U ''trust_ring_ref'', jstr ring),
     (U ''public_key_der_b64'', JStr (std_b64 [1])), (U ''public_key_digest'', JStr dig)]"

definition demo_binding :: "string \<Rightarrow> string \<Rightarrow> json" where
  "demo_binding ident ref = JObj [(U ''verifier_id'', jstr ident), (U ''verifier_ref'', jstr ref), (U ''verifier_version'', jstr ''1.0.0'')]"

definition demo_bundle_policy :: json where
  "demo_bundle_policy = JObj [(U ''compiler_register_versions'', registers_json),
     (U ''verifier_bindings'', JArr [demo_binding ''B1'' ''ver.b1'', demo_binding ''G1'' ''ver.g1''])]"

definition demo_bundle :: json where
  "demo_bundle = JObj [(U ''certificate_ref'', jstr ''cref''), (U ''issuer'', demo_key_part ''tr'' (U ''ik'')),
     (U ''client'', demo_key_part ''tr'' ckr), (U ''relying_party_policy'', demo_bundle_policy), (U ''materials_digest'', JStr dig)]"

definition demo_status :: json where
  "demo_status = JObj [(U ''status'', jstr ''active''), (U ''revoked_at'', JNull), (U ''reason'', JNull)]"

definition demo_wrapper :: json where
  "demo_wrapper = JObj [(U ''certificate_ref'', jstr ''cref''), (U ''certificate_status'', demo_status),
     (U ''signed_certificate'', demo_certificate), (U ''build_session_ref'', jstr ''ses''), (U ''schema_version'', jstr ''0''),
     (U ''manifest_digest'', JStr dig)]"

lemma bundle_field [simp]:
  "field (demo_key_part ring ref) ''key_ref'' = Inr (JStr ref)" "field (demo_key_part ring ref) ''algorithm'' = Inr (jstr ''ed25519'')"
  "field (demo_key_part ring ref) ''trust_ring_ref'' = Inr (jstr ring)"
  "field (demo_key_part ring ref) ''public_key_der_b64'' = Inr (JStr (std_b64 [1]))"
  "field (demo_key_part ring ref) ''public_key_digest'' = Inr (JStr dig)" "is_dict (demo_key_part ring ref)"
  "field demo_bundle ''certificate_ref'' = Inr (jstr ''cref'')" "field demo_bundle ''issuer'' = Inr (demo_key_part ''tr'' (U ''ik''))"
  "get_member demo_bundle ''client'' = demo_key_part ''tr'' ckr" "demo_key_part ring ref \<noteq> JNull"
  "field demo_bundle ''relying_party_policy'' = Inr demo_bundle_policy" "get_member demo_bundle ''materials_digest'' = JStr dig"
  "is_dict demo_bundle"
  by (simp_all add: demo_key_part_def demo_bundle_def member_or_def)

lemma demo_material_key: "material_public_key demo_env (demo_key_part ring ref) domain = Inr (Ed25519Key [1])"
  by (simp add: material_public_key_def) (simp add: demo_env_def dig_def)

lemma fine_key_text: "fine (JStr (std_b64 [1]))"
proof (rule ascii_fine)
  have "\<forall>n \<in> set (b64_vals [1]). n < 64" using b64_vals_small by (auto simp: list_all_iff)
  then show "\<forall>c \<in> set (std_b64 [1]). c < 128" using b64_char_ascii by (auto simp: std_b64_def std_b64_char_def)
  show "length (std_b64 [1]) \<le> 400" by (simp add: std_b64_def length_b64_vals)
qed

lemma good_bundle: "good 100 demo_bundle" "good 100 (without_member ''materials_digest'' demo_bundle)"
  using fine_key_text
  by (simp_all add: without_member_def demo_bundle_def demo_key_part_def demo_bundle_policy_def demo_binding_def good_rules good_parts)

lemma demo_bundle_digest: "check_materials_digest demo_env demo_bundle dig = Inr ()"
proof -
  have "list_all (\<lambda>c. 0 < c \<and> c < 128) (U ''traigent.agent_certificate.verification_materials.v0'')"
    by (simp add: U_Cons)
  then have "role_digest demo_env MATERIALS_DOMAIN (without_member ''materials_digest'' demo_bundle) = Inr dig"
    unfolding MATERIALS_DOMAIN_def using good_bundle(2) by (intro tag_digest) simp_all
  then show ?thesis by (simp add: materials_digest_Inr)
qed

lemma demo_materials_policy: "materials_policy demo_bundle = Inr demo_policy"
proof -
  have "field demo_bundle_policy ''compiler_register_versions'' = Inr registers_json"
    "field demo_bundle_policy ''verifier_bindings'' = Inr (JArr [demo_binding ''B1'' ''ver.b1'', demo_binding ''G1'' ''ver.g1''])"
    by (simp_all add: demo_bundle_policy_def)
  moreover have "traverse (field registers_json) COMPILER_REGISTER_KEYS =
      Inr [jstr ''1.0.0'', jstr ''a'', jstr ''b'', jstr ''c'', jstr ''d'', jstr ''e'']"
    by (simp add: registers_json_def demo_registers_def COMPILER_REGISTER_KEYS_def SEMANTICS_KEYS_def)
  moreover have "traverse binding_row [demo_binding ''B1'' ''ver.b1'', demo_binding ''G1'' ''ver.g1''] =
      Inr [(jstr ''B1'', jstr ''ver.b1'', jstr ''1.0.0''), (jstr ''G1'', jstr ''ver.g1'', jstr ''1.0.0'')]"
    by (simp add: binding_row_def demo_binding_def)
  ultimately show ?thesis
    by (simp add: materials_policy_def strings_def recast_def make_policy_def COMPILER_REGISTER_KEYS_def SEMANTICS_KEYS_def
        VERIFIER_POLICY_IDS_def demo_policy_def demo_registers_def)
qed

lemma demo_bindings: "check_materials_bindings demo_env demo_certificate demo_bundle (U ''cref'') demo_context (Some (Ed25519Key [1])) = Inr ()"
proof -
  have "any_of client_claim [b1_claim, g1_claim] = Inr True" by (simp add: client_claim_def)
  moreover have "check_issuer_binding (demo_key_part ''tr'' (U ''ik'')) demo_context = Inr ()"
    by (simp add: check_issuer_binding_def) (simp add: demo_context_def)
  moreover have "check_caller_client_key demo_env (demo_key_part ''tr'' ckr) demo_context (Ed25519Key [1]) = Inr ()"
    by (simp add: check_caller_client_key_def demo_context_def demo_key_ref public_key_der_def recast_def)
  then have "client_bindings_with_client demo_env demo_ring demo_signatures (demo_key_part ''tr'' ckr) demo_context (Some (Ed25519Key [1])) = Inr True"
    using demo_key_ref by (simp add: client_bindings_with_client_def) (simp add: demo_context_def)
  ultimately show ?thesis by (simp add: check_materials_bindings_def)
qed

lemma demo_unwrap: "unwrap_retrieval_certificate demo_env demo_wrapper (U ''cref'') True = Inr (Some demo_wrapper, demo_certificate)"
proof -
  have "has_exact_keys demo_status [''status'', ''revoked_at'', ''reason'']" by (auto simp: has_exact_keys_def demo_status_def)
  moreover have "is_dict demo_certificate" by (simp add: demo_envelope_def)
  moreover have "schema demo_env RetrievalResponseSchema demo_wrapper = Conforms" by (simp add: demo_env_def)
  ultimately show ?thesis
    by (simp add: unwrap_retrieval_certificate_def check_wrapper_status_def Let_def)
      (simp add: demo_wrapper_def member_or_def demo_status_def)
qed

lemma demo_with_materials:
  "verify_certificate_with_materials demo_env demo_wrapper demo_bundle dig (U ''cref'') demo_context True = Inr ()"
proof -
  have "demo_context\<lparr>client_public_key := Some (Ed25519Key [1])\<rparr> = demo_context" by (simp add: demo_context_def)
  moreover have "check_retrieval_wrapper_bindings demo_wrapper demo_certificate demo_context = Inr ()"
    by (simp add: check_retrieval_wrapper_bindings_def) (simp add: demo_wrapper_def demo_context_def)
  moreover have "check_materials_schema demo_env demo_bundle = Inr ()" by (simp add: check_materials_schema_def demo_env_def)
  ultimately have "materials_steps demo_env demo_wrapper demo_bundle dig (U ''cref'') demo_context True = Inr ()"
    by (simp add: materials_steps_def demo_unwrap demo_bundle_digest demo_material_key demo_bindings demo_materials_policy demo_accepted)
  then show ?thesis by (simp add: verify_certificate_with_materials_def)
qed

section \<open>Witnesses\<close>


theorem required_status_is_active_witness:
  "path_to demo_wrapper [''certificate_status'', ''status''] = Inr (jstr ''active'') \<and>
   path_to demo_wrapper [''certificate_status'', ''revoked_at''] = Inr JNull"
  using required_status_is_active [OF demo_with_materials] by blast

theorem materials_digest_binds_witness:
  "check_materials_digest demo_env demo_bundle dig = Inr () \<and>
   (Fp2Text.norm (without_member ''materials_digest'' demo_bundle) = Fp2Text.norm (without_member ''materials_digest'' demo_bundle))"
proof -
  have "parsed demo_bundle" using good_bundle(1) by (simp add: good_def fine_def)
  from materials_digest_binds [OF demo_bundle_digest demo_bundle_digest this this] demo_bundle_digest show ?thesis by auto
qed

theorem materials_errors_witness:
  "verify_certificate_with_materials demo_env demo_certificate demo_bundle dig (U ''cref'') demo_context True =
     Inl (Failed ''CERTIFICATE_STATUS_UNKNOWN'') \<and> is_failed (Failed ''CERTIFICATE_STATUS_UNKNOWN'')"
proof -
  have "unwrap_retrieval_certificate demo_env demo_certificate (U ''cref'') True = Inl (Failed ''CERTIFICATE_STATUS_UNKNOWN'')"
    by (simp add: unwrap_retrieval_certificate_def) (simp add: demo_envelope_def)
  moreover have "check_materials_schema demo_env demo_bundle = Inr ()" by (simp add: check_materials_schema_def demo_env_def)
  ultimately have e: "verify_certificate_with_materials demo_env demo_certificate demo_bundle dig (U ''cref'') demo_context True =
     Inl (Failed ''CERTIFICATE_STATUS_UNKNOWN'')"
    by (simp add: verify_certificate_with_materials_def materials_steps_def recast_def)
  from materials_errors [OF e] e show ?thesis by simp
qed

end
