(* ===== verification/RelyingPrepare.thy ===== *)
theory RelyingPrepare
  imports RelyingLaws
begin

text \<open>
  \<open>prepare_client_co_attestation\<close>: the size and depth check before anything else looks at the
  issuer's response, the client's own context, the comparison of every pinned value, and the bytes
  the client will sign.
\<close>

section \<open>Preflight\<close>

definition MAX_CLIENT_CERTIFICATE_PROJECTION_BYTES :: nat where
  "MAX_CLIENT_CERTIFICATE_PROJECTION_BYTES = 1024 * 384 + 2 * 16 * 2048 + 64 * 1024"
definition MAX_CLIENT_CERTIFICATE_NODES :: nat where
  "MAX_CLIENT_CERTIFICATE_NODES = 100000"
definition MAX_CLIENT_CERTIFICATE_VALUE_DEPTH :: nat where
  "MAX_CLIENT_CERTIFICATE_VALUE_DEPTH = 64"

text \<open>\<open>len(json.dumps(s, ensure_ascii=True))\<close>.\<close>

definition ascii_char_size :: "nat \<Rightarrow> nat" where
  "ascii_char_size c =
     (if c \<in> {34, 92, 10, 13, 9, 8, 12} then 2
      else if 32 \<le> c \<and> c < 127 then 1
      else if c < 0x10000 then 6
      else 12)"

definition ascii_text_size :: "ustr \<Rightarrow> nat" where
  "ascii_text_size s = 2 + sum_list (map ascii_char_size s)"

text \<open>\<open>int(x)\<close> of an integral float.\<close>

fun float_to_int :: "pyfloat \<Rightarrow> int" where
  "float_to_int (FDec neg ds n) =
     (if neg then -1 else 1) * int (digits_nat ds * 10 ^ nat (n - int (length ds)))"
| "float_to_int f = 0"

definition CO_FAIL :: "cert_error + 'a" where
  "CO_FAIL = Inl (Failed ''CO_PROJECTION'')"

fun preflight_scalar_size :: "json \<Rightarrow> cert_error + nat" where
  "preflight_scalar_size (JStr s) = Inr (ascii_text_size s)"
| "preflight_scalar_size (JInt i) = (if int MAX_SAFE_INTEGER < \<bar>i\<bar> then CO_FAIL else Inr (length (int_text i)))"
| "preflight_scalar_size JNull = Inr 5"
| "preflight_scalar_size (JBool b) = Inr 5"
| "preflight_scalar_size (JFloat f) =
     (if \<not> float_integral f \<or> float_abs_gt f MAX_SAFE_INTEGER then CO_FAIL
      else Inr (length (int_text (float_to_int f))))"
| "preflight_scalar_size t = CO_FAIL"

text \<open>
  Entries of the stack, the top first: a value to enter with its depth, or a container to leave. A
  parsed value is a tree, so the test for a container that is being visited never fires.
\<close>

datatype preflight_entry = Enter json nat | Leave

text \<open>A container: its own size, and the stack with its children on top.\<close>

fun preflight_container :: "json \<Rightarrow> nat \<Rightarrow> preflight_entry list \<Rightarrow> nat \<times> preflight_entry list" where
  "preflight_container (JArr ts) depth pending =
     (2 + length ts, rev (map (\<lambda>t. Enter t (depth + 1)) ts) @ Leave # pending)"
| "preflight_container (JObj kts) depth pending =
     (2 + sum_list (map (\<lambda>kt. ascii_text_size (fst kt) + 2) kts),
      rev (map (\<lambda>kt. Enter (snd kt) (depth + 1)) kts) @ Leave # pending)"
| "preflight_container t depth pending = (0, pending)"

definition preflight_enter ::
  "json \<Rightarrow> nat \<Rightarrow> preflight_entry list \<Rightarrow> cert_error + nat \<times> preflight_entry list" where
  "preflight_enter t depth pending =
     (if is_container t then Inr (preflight_container t depth pending)
      else rbind (preflight_scalar_size t) (\<lambda>size. Inr (size, pending)))"

fun entry_size :: "preflight_entry \<Rightarrow> nat" where
  "entry_size (Enter t depth) = size t + 1"
| "entry_size Leave = 1"

lemma items_size: "sum_list (map (\<lambda>t. size t + 1) ts) = size_list size ts"
  by (induction ts) simp_all

lemma member_values_size: "sum_list (map (\<lambda>kt. size (snd kt) + 1) kts) < size (JObj kts)"
  by (induction kts) auto

lemma preflight_enter_size:
  "preflight_enter t depth pending = Inr (n, pending') \<Longrightarrow>
   sum_list (map entry_size pending') < entry_size (Enter t depth) + sum_list (map entry_size pending)"
proof (cases t)
  case (JArr ts)
  assume "preflight_enter t depth pending = Inr (n, pending')"
  with JArr show ?thesis using items_size [of ts] by (auto simp: preflight_enter_def comp_def rev_map [symmetric] sum_list_rev)
next
  case (JObj kts)
  assume "preflight_enter t depth pending = Inr (n, pending')"
  with JObj show ?thesis using member_values_size [of kts]
    by (auto simp: preflight_enter_def comp_def rev_map [symmetric] sum_list_rev)
qed (auto simp: preflight_enter_def rbind_Inr_iff)

function preflight_loop :: "nat \<Rightarrow> nat \<Rightarrow> preflight_entry list \<Rightarrow> cert_error + unit" where
  "preflight_loop estimated_size nodes [] = Inr ()"
| "preflight_loop estimated_size nodes (Leave # pending) = preflight_loop estimated_size nodes pending"
| "preflight_loop estimated_size nodes (Enter t depth # pending) =
     (if MAX_CLIENT_CERTIFICATE_VALUE_DEPTH < depth then CO_FAIL
      else if MAX_CLIENT_CERTIFICATE_NODES < nodes + 1 then CO_FAIL
      else (case preflight_enter t depth pending of
              Inl e \<Rightarrow> Inl e
            | Inr (n, pending') \<Rightarrow>
                if MAX_CLIENT_CERTIFICATE_PROJECTION_BYTES < estimated_size + n then CO_FAIL
                else preflight_loop (estimated_size + n) (nodes + 1) pending'))"
  by pat_completeness auto
termination
  by (relation "measure (\<lambda>(n, m, pending). sum_list (map entry_size pending))") (auto dest: preflight_enter_size)

definition preflight_client_projection :: "json \<Rightarrow> cert_error + unit" where
  "preflight_client_projection t = (if is_dict t then preflight_loop 0 0 [Enter t 1] else CO_FAIL)"

section \<open>The client's context\<close>

record co_context =
  co_project_ref :: ustr
  co_build_session_ref :: ustr
  co_session_commitment_digest :: ustr
  co_nonce :: ustr
  co_privacy_mode :: ustr
  co_sdk_ref :: ustr
  co_sdk_version :: ustr
  co_disclosure_profile_id :: ustr
  co_issuer_key_ref :: ustr
  co_trust_ring_ref :: ustr
  co_issuer_algorithm :: ustr
  co_compiler_register_versions :: "(ustr \<times> ustr) list"
  co_g1_verifier_id :: ustr
  co_g1_verifier_version :: ustr
  co_manifest_root_digest :: ustr
  co_commitment_scheme :: ustr
  co_client_attestor_version :: ustr
  co_client_algorithm :: ustr
  co_client_public_key :: key_object
  co_issuer_public_key :: key_object

definition PRIVACY_MODES :: "string list" where
  "PRIVACY_MODES = [''offline'', ''current_online'', ''private_online'']"
definition DISCLOSURE_PROFILE_IDS :: "string list" where
  "DISCLOSURE_PROFILE_IDS = [''public'', ''customer_internal'', ''auditor_only'']"
definition SIGNATURE_ALGORITHMS :: "string list" where
  "SIGNATURE_ALGORITHMS = [''ed25519'', ''ecdsa_p256_sha256'']"
definition COMMITMENT_SCHEMES :: "string list" where
  "COMMITMENT_SCHEMES = [''sha256_secret_blinded_v1'']"

text \<open>\<open>[a-f0-9]{40}\<close>, \<open>[a-f0-9]{32,64}\<close>, \<open>ver\.cert\.[a-z0-9_]{1,64}\<close>.\<close>

definition is_git_sha :: "ustr \<Rightarrow> bool" where "is_git_sha s = chars_of low_hex 40 40 s"
definition is_nonce :: "ustr \<Rightarrow> bool" where "is_nonce s = chars_of low_hex 32 64 s"
definition is_verifier_id :: "ustr \<Rightarrow> bool" where
  "is_verifier_id s \<longleftrightarrow>
     take 9 s = U ''ver.cert.'' \<and> chars_of (\<lambda>c. lower c \<or> is_digit c \<or> c = 95) 1 64 (drop 9 s)"

definition issuer_key_matches_algorithm :: "co_context \<Rightarrow> bool" where
  "issuer_key_matches_algorithm ctx =
     (if co_issuer_algorithm ctx = U ''ed25519''
      then (case co_issuer_public_key ctx of Ed25519Key der \<Rightarrow> True | _ \<Rightarrow> False)
      else (case co_issuer_public_key ctx of P256Key der \<Rightarrow> True | _ \<Rightarrow> False))"

definition check_register_pins :: "co_context \<Rightarrow> cert_error + unit" where
  "check_register_pins ctx =
     (let registers = co_compiler_register_versions ctx in
      in_turn
        [fail_if (map fst registers \<noteq> map U COMPILER_REGISTER_KEYS) ''CO_CONTEXT'',
         fail_if (\<not> list_all (\<lambda>(k, v). if k = U ''compiler_version'' then is_semver v else is_sha256_ref v) registers)
           ''CO_CONTEXT''])"

text \<open>\<open>ClientCoAttestationContext.__post_init__\<close>.\<close>

definition check_co_context :: "co_context \<Rightarrow> cert_error + unit" where
  "check_co_context ctx =
     in_turn
       [fail_if (\<not> (is_project_ref (co_project_ref ctx) \<and> is_ref (co_build_session_ref ctx) \<and>
          is_sha256_ref (co_session_commitment_digest ctx) \<and> is_nonce (co_nonce ctx) \<and> is_git_sha (co_sdk_ref ctx) \<and>
          is_semver (co_sdk_version ctx) \<and> is_ref (co_issuer_key_ref ctx) \<and> is_ref (co_trust_ring_ref ctx) \<and>
          is_verifier_id (co_g1_verifier_id ctx) \<and> is_semver (co_g1_verifier_version ctx) \<and>
          is_sha256_ref (co_manifest_root_digest ctx) \<and> is_semver (co_client_attestor_version ctx))) ''CO_CONTEXT'',
        fail_if (\<not> (one_of PRIVACY_MODES (co_privacy_mode ctx) \<and> one_of DISCLOSURE_PROFILE_IDS (co_disclosure_profile_id ctx) \<and>
          one_of COMMITMENT_SCHEMES (co_commitment_scheme ctx) \<and> one_of SIGNATURE_ALGORITHMS (co_issuer_algorithm ctx) \<and>
          one_of SIGNATURE_ALGORITHMS (co_client_algorithm ctx))) ''CO_CONTEXT'',
        fail_if (\<not> issuer_key_matches_algorithm ctx) ''CO_CONTEXT'',
        check_register_pins ctx]"

section \<open>Pins\<close>

text \<open>Name, root and path of every pinned value; what the context expects there.\<close>

definition PIN_BINDINGS :: "(string \<times> string \<times> string list) list" where
  "PIN_BINDINGS =
     [(''expected_project_ref'', ''subject'', [''project_ref'']),
      (''expected_build_session_ref'', ''subject'', [''build_session_ref'']),
      (''expected_session_commitment_digest'', ''subject'', [''session_commitment_digest'']),
      (''expected_nonce'', ''unsigned'', [''freshness'', ''nonce'']),
      (''expected_privacy_mode'', ''unsigned'', [''privacy_mode'', ''declared_mode'']),
      (''expected_sdk_ref'', ''unsigned'', [''sdk_identity'', ''sdk_ref'']),
      (''expected_sdk_version'', ''unsigned'', [''sdk_identity'', ''sdk_version'']),
      (''expected_disclosure_profile_id'', ''unsigned'', [''disclosure_profile'', ''profile_id'']),
      (''expected_issuer_key_ref'', ''unsigned'', [''key_ring_identifiers'', ''issuer_key_ref'']),
      (''expected_trust_ring_ref'', ''unsigned'', [''key_ring_identifiers'', ''trust_ring_ref'']),
      (''expected_issuer_algorithm'', ''unsigned'', [''key_ring_identifiers'', ''issuer_signature_algorithm'']),
      (''expected_compiler_register_versions'', ''unsigned'', [''compiler_register_versions'']),
      (''expected_g1_verifier_id'', ''g1'', [''verifier'', ''verifier_id'']),
      (''expected_g1_verifier_version'', ''g1'', [''verifier'', ''verifier_version'']),
      (''manifest_root_digest'', ''g1'', [''payload'', ''params'', ''manifest_root_digest'']),
      (''commitment_scheme'', ''g1'', [''payload'', ''params'', ''commitment_scheme'']),
      (''client_attestor_version'', ''g1'', [''payload'', ''params'', ''client_attestor_version'']),
      (''expected_client_algorithm'', ''unsigned'', [''key_ring_identifiers'', ''client_signature_algorithm'']),
      (''client_public_key'', ''unsigned'', [''key_ring_identifiers'', ''client_key_ref''])]"

definition register_rows :: "(ustr \<times> json) list \<Rightarrow> json" where
  "register_rows rows = JArr (map (\<lambda>(k, v). JArr [JStr k, v]) rows)"

definition expected_pins :: "co_context \<Rightarrow> ustr \<Rightarrow> json list" where
  "expected_pins ctx derived_key_ref =
     map JStr
       [co_project_ref ctx, co_build_session_ref ctx, co_session_commitment_digest ctx, co_nonce ctx, co_privacy_mode ctx,
        co_sdk_ref ctx, co_sdk_version ctx, co_disclosure_profile_id ctx, co_issuer_key_ref ctx, co_trust_ring_ref ctx,
        co_issuer_algorithm ctx]
     @ [register_rows (map (\<lambda>(k, v). (k, JStr v)) (co_compiler_register_versions ctx))]
     @ map JStr
       [co_g1_verifier_id ctx, co_g1_verifier_version ctx, co_manifest_root_digest ctx, co_commitment_scheme ctx,
        co_client_attestor_version ctx, co_client_algorithm ctx, derived_key_ref]"

definition projection_pin :: "json \<Rightarrow> json \<Rightarrow> json \<Rightarrow> string \<times> string \<times> string list \<Rightarrow> cert_error + json" where
  "projection_pin subject manifest g1_claim = (\<lambda>(name, root, path).
     rbind (path_to (if root = ''subject'' then subject else if root = ''unsigned'' then manifest else g1_claim) path) (\<lambda>value.
       if name = ''expected_compiler_register_versions''
       then rbind (traverse (field value) COMPILER_REGISTER_KEYS)
              (\<lambda>vs. Inr (register_rows (zip (map U COMPILER_REGISTER_KEYS) vs)))
       else Inr value))"

definition check_client_pins :: "json \<Rightarrow> json \<Rightarrow> json \<Rightarrow> co_context \<Rightarrow> ustr \<Rightarrow> cert_error + unit" where
  "check_client_pins document manifest g1_claim ctx derived_key_ref =
     rbind (field document ''subject'') (\<lambda>subject.
     rbind (traverse (projection_pin subject manifest g1_claim) PIN_BINDINGS) (\<lambda>pins.
       fail_if (\<not> list_all2 py_eq pins (expected_pins ctx derived_key_ref)) ''CO_CONTEXT''))"

definition check_g1_cross_bound_params :: "json \<Rightarrow> json \<Rightarrow> json \<Rightarrow> cert_error + unit" where
  "check_g1_cross_bound_params document manifest params =
     rbind (field document ''subject'') (\<lambda>subject.
       in_turn
         [must_equal ''CO_PROJECTION'' (field params ''build_session_ref'') (field subject ''build_session_ref''),
          must_equal ''CO_PROJECTION'' (field params ''client_key_ref'')
            (path_to manifest [''key_ring_identifiers'', ''client_key_ref''])])"

section \<open>The issuer's signature\<close>

definition failed_with :: "string list \<Rightarrow> cert_error \<Rightarrow> bool" where
  "failed_with codes e \<longleftrightarrow> e \<in> Failed ` set codes"

definition check_prepare_issuer_signature :: "cert_env \<Rightarrow> json \<Rightarrow> json \<Rightarrow> co_context \<Rightarrow> cert_error + unit" where
  "check_prepare_issuer_signature env manifest issuer ctx =
     recast (failed_with [''SIGNATURE_BASE64'', ''SIGNATURE_SCALAR'', ''SIGNATURE_HIGH_S'', ''SIGNATURE_INVALID'']) ''CO_PROJECTION''
       (recast (failed_with [''ALGORITHM'', ''KEY_ALGORITHM'']) ''CO_CONTEXT''
         (rbind (manifest_bytes env manifest) (\<lambda>bytes.
          rbind (field issuer ''algorithm'') (\<lambda>algorithm.
          rbind (issuer_material bytes) (\<lambda>material.
          rbind (field issuer ''signature'') (\<lambda>signature.
            verify_signature env (co_issuer_public_key ctx) algorithm material signature))))))"

section \<open>prepare\_client\_co\_attestation\<close>

definition g1_claims :: "json \<Rightarrow> cert_error + json list" where
  "g1_claims document =
     rbind (rbind (field document ''claims'') iterate) (\<lambda>claims.
     rbind (traverse (\<lambda>claim. rbind (field claim ''claim_id'') (\<lambda>i. Inr (i, claim))) claims) (\<lambda>ids.
       Inr (map snd (filter (\<lambda>e. py_eq (fst e) (jstr ''G1'')) ids))))"

definition check_prepare_semantics :: "json \<Rightarrow> json \<Rightarrow> cert_error + unit" where
  "check_prepare_semantics document versions =
     rbind (field document ''semantics'') (\<lambda>semantics.
     rbind (iterate semantics) (\<lambda>ks.
     rbind (raise_if (list_ex is_container ks) PyTypeErr) (\<lambda>_.
     rbind (fail_if (set ks \<noteq> jstr ` set SEMANTICS_KEYS) ''CO_PROJECTION'') (\<lambda>_.
       must_equal ''CO_PROJECTION'' (Inr semantics) (selected versions SEMANTICS_KEYS)))))"

definition validate_client_preparation_context :: "cert_env \<Rightarrow> json \<Rightarrow> co_context \<Rightarrow> cert_error + unit" where
  "validate_client_preparation_context env document ctx =
     rbind (field document ''signatures'') (\<lambda>signatures.
     rbind (field signatures ''unsigned_manifest'') (\<lambda>unsigned_ref.
     rbind (field unsigned_ref ''document'') (\<lambda>manifest.
     rbind (field document ''audit_report'') (\<lambda>audit.
     rbind (g1_claims document) (\<lambda>g1s.
     rbind (fail_if (length g1s \<noteq> 1) ''CO_G1_REQUIRED'') (\<lambda>_.
     rbind (must_equal ''CO_G1_REQUIRED'' (field (hd g1s) ''tier'') (Inr (JInt 1))) (\<lambda>_.
     rbind (role_digest env AUDIT_DOMAIN audit) (\<lambda>audit_digest.
     rbind (must_equal ''CO_PROJECTION'' (field unsigned_ref ''manifest_digest'')
              (rbind (role_digest env UNSIGNED_DOMAIN manifest) (\<lambda>d. Inr (JStr d)))) (\<lambda>_.
     rbind (rbind (field unsigned_ref ''coverage'') iterate) (\<lambda>coverage.
     rbind (fail_if (\<not> py_eq (JArr coverage) (JArr (map jstr COVERAGE))) ''CO_PROJECTION'') (\<lambda>_.
     rbind (field manifest ''compiler_register_versions'') (\<lambda>versions.
     rbind (check_prepare_semantics document versions) (\<lambda>_.
     rbind (rbind (field document ''ledger_seal_projection'') (check_streams env)) (\<lambda>_.
     rbind (check_projections document manifest audit_digest) (\<lambda>_.
     rbind (check_claims_and_audit env document manifest audit audit_digest) (\<lambda>_.
     rbind (path_to (hd g1s) [''payload'', ''params'']) (\<lambda>params.
     rbind (field manifest ''key_ring_identifiers'') (\<lambda>ring.
     rbind (field signatures ''issuer_signature'') (\<lambda>issuer.
     rbind (any_of (\<lambda>k. rbind (has_key ring k) (\<lambda>b. Inr (\<not> b))) [''client_key_ref'', ''client_signature_algorithm'']) (\<lambda>missing.
     rbind (fail_if missing ''CO_PROJECTION'') (\<lambda>_.
     rbind (recast is_failed ''CO_CONTEXT''
              (derive_client_key_ref env (co_project_ref ctx) (JStr (co_client_algorithm ctx)) (co_client_public_key ctx))) (\<lambda>key_ref.
     rbind (in_turn
       [must_equal ''CO_PROJECTION'' (field issuer ''signed_payload'') (Inr (JArr [jstr ''unsigned_manifest''])),
        must_equal ''CO_PROJECTION'' (field issuer ''issuer_key_ref'') (field ring ''issuer_key_ref''),
        must_equal ''CO_PROJECTION'' (field issuer ''algorithm'') (field ring ''issuer_signature_algorithm''),
        must_equal ''CO_PROJECTION'' (field issuer ''trust_ring_ref'') (field ring ''trust_ring_ref''),
        check_g1_cross_bound_params document manifest params,
        must_equal ''CO_PROJECTION'' (field audit ''client_evidence_manifest_root'') (field params ''manifest_root_digest''),
        check_client_pins document manifest (hd g1s) ctx key_ref]) (\<lambda>_.
       check_prepare_issuer_signature env manifest issuer ctx)))))))))))))))))))))))"

definition CLIENT_CO_ATTESTATION_ERROR_CODES :: "string list" where
  "CLIENT_CO_ATTESTATION_ERROR_CODES = [''CO_CONTEXT'', ''CO_G1_REQUIRED'', ''CO_PROJECTION'', ''CO_SCHEMA_DEPENDENCY'']"

definition check_preparation_schema :: "cert_env \<Rightarrow> json \<Rightarrow> cert_error + unit" where
  "check_preparation_schema env document =
     (case schema env PrepareResponseSchema document of
        Conforms \<Rightarrow> Inr ()
      | Violates \<Rightarrow> CO_FAIL
      | NoValidator \<Rightarrow> Inl (Failed ''CO_SCHEMA_DEPENDENCY'')
      | DanglingReference \<Rightarrow> Inl (Failed ''CO_SCHEMA_DEPENDENCY'')
      | SchemaRaises \<Rightarrow> Inl OtherErr
      | MissingDependency \<Rightarrow> Inl SchemaDependency)"

definition prepare_client_co_attestation :: "cert_env \<Rightarrow> json \<Rightarrow> co_context \<Rightarrow> cert_error + client_projection" where
  "prepare_client_co_attestation env document ctx =
     rbind (preflight_client_projection document) (\<lambda>_.
     rbind (check_preparation_schema env document) (\<lambda>_.
     rbind (recast (\<lambda>e. is_failed e \<and> \<not> failed_with CLIENT_CO_ATTESTATION_ERROR_CODES e) ''CO_PROJECTION''
              (validate_client_preparation_context env document ctx)) (\<lambda>_.
       prepare_client_projection env document)))"

end
