(* ===== verification/PrepareLaws.thy ===== *)
theory PrepareLaws
  imports RelyingPrepare RelyingMaterials
begin

text \<open>
  Preparing a co-attestation: what the preflight admits and that it bounds the canonical bytes, the
  closed set of failures, what the returned bytes stand for, and that a certificate completed with a
  signature over them passes the verifier's client check.
\<close>

section \<open>The preflight loop\<close>

fun value_depth :: "json \<Rightarrow> nat" where
  "value_depth (JArr ts) = Suc (Max (set (0 # map value_depth ts)))"
| "value_depth (JObj kts) = Suc (Max (set (0 # map (\<lambda>kt. value_depth (snd kt)) kts)))"
| "value_depth t = 1"

fun value_nodes :: "json \<Rightarrow> nat" where
  "value_nodes (JArr ts) = 1 + sum_list (map value_nodes ts)"
| "value_nodes (JObj kts) = 1 + sum_list (map (\<lambda>kt. value_nodes (snd kt)) kts)"
| "value_nodes t = 1"

fun value_size :: "json \<Rightarrow> nat" where
  "value_size (JStr s) = ascii_text_size s"
| "value_size (JInt i) = length (int_text i)"
| "value_size (JFloat f) = length (int_text (float_to_int f))"
| "value_size (JArr ts) = 2 + length ts + sum_list (map value_size ts)"
| "value_size (JObj kts) =
     2 + sum_list (map (\<lambda>kt. ascii_text_size (fst kt) + 2) kts) + sum_list (map (\<lambda>kt. value_size (snd kt)) kts)"
| "value_size t = 5"

fun safe_numbers :: "json \<Rightarrow> bool" where
  "safe_numbers (JInt i) = (\<bar>i\<bar> \<le> int MAX_SAFE_INTEGER)"
| "safe_numbers (JFloat f) = (float_integral f \<and> \<not> float_abs_gt f MAX_SAFE_INTEGER)"
| "safe_numbers (JArr ts) = list_all safe_numbers ts"
| "safe_numbers (JObj kts) = list_all (\<lambda>kt. safe_numbers (snd kt)) kts"
| "safe_numbers t = True"

definition small_value :: "json \<Rightarrow> bool" where
  "small_value t \<longleftrightarrow> safe_numbers t \<and> value_depth t \<le> MAX_CLIENT_CERTIFICATE_VALUE_DEPTH \<and>
     value_nodes t \<le> MAX_CLIENT_CERTIFICATE_NODES \<and> value_size t \<le> MAX_CLIENT_CERTIFICATE_PROJECTION_BYTES"

fun entry_nodes :: "preflight_entry \<Rightarrow> nat" where
  "entry_nodes (Enter t d) = value_nodes t"
| "entry_nodes Leave = 0"

fun entry_bytes :: "preflight_entry \<Rightarrow> nat" where
  "entry_bytes (Enter t d) = value_size t"
| "entry_bytes Leave = 0"

fun entry_ok :: "preflight_entry \<Rightarrow> bool" where
  "entry_ok (Enter t d) \<longleftrightarrow> safe_numbers t \<and> value_depth t + d \<le> Suc MAX_CLIENT_CERTIFICATE_VALUE_DEPTH"
| "entry_ok Leave \<longleftrightarrow> True"

lemma value_depth_pos [simp]: "0 < value_depth t"
  by (cases t) auto

lemma value_depth_le:
  "value_depth (JArr ts) \<le> Suc n \<longleftrightarrow> list_all (\<lambda>t. value_depth t \<le> n) ts"
  "value_depth (JObj kts) \<le> Suc n \<longleftrightarrow> list_all (\<lambda>kt. value_depth (snd kt) \<le> n) kts"
  by (auto simp: list_all_iff)

text \<open>One entry: its own bytes, and the entries it leaves.\<close>

lemma preflight_enter_char:
  "preflight_enter t d pending = CO_FAIL \<and> \<not> safe_numbers t \<or>
   (\<exists>n new. preflight_enter t d pending = Inr (n, new @ pending) \<and>
      value_size t = n + sum_list (map entry_bytes new) \<and> value_nodes t = 1 + sum_list (map entry_nodes new) \<and>
      (d \<le> MAX_CLIENT_CERTIFICATE_VALUE_DEPTH \<longrightarrow> (entry_ok (Enter t d) \<longleftrightarrow> list_all entry_ok new)))"
proof (cases t)
  case (JArr ts)
  let ?new = "rev (map (\<lambda>t. Enter t (d + 1)) ts) @ [Leave]"
  have "preflight_enter t d pending = Inr (2 + length ts, ?new @ pending)" using JArr by (simp add: preflight_enter_def)
  moreover have "entry_ok (Enter t d) \<longleftrightarrow> list_all entry_ok ?new" if le: "d \<le> MAX_CLIENT_CERTIFICATE_VALUE_DEPTH"
  proof -
    obtain k where k: "MAX_CLIENT_CERTIFICATE_VALUE_DEPTH = d + k" using le by (metis le_iff_add)
    show ?thesis using JArr value_depth_le(1) [of ts k] by (auto simp: k list_all_iff simp del: value_depth.simps)
  qed
  ultimately show ?thesis using JArr
    by (intro disjI2 exI [of _ "2 + length ts"] exI [of _ ?new]) (simp add: comp_def rev_map [symmetric] sum_list_rev)
next
  case (JObj kts)
  let ?new = "rev (map (\<lambda>kt. Enter (snd kt) (d + 1)) kts) @ [Leave]"
  let ?n = "2 + sum_list (map (\<lambda>kt. ascii_text_size (fst kt) + 2) kts)"
  have "preflight_enter t d pending = Inr (?n, ?new @ pending)" using JObj by (simp add: preflight_enter_def)
  moreover have "entry_ok (Enter t d) \<longleftrightarrow> list_all entry_ok ?new" if le: "d \<le> MAX_CLIENT_CERTIFICATE_VALUE_DEPTH"
  proof -
    obtain k where k: "MAX_CLIENT_CERTIFICATE_VALUE_DEPTH = d + k" using le by (metis le_iff_add)
    show ?thesis using JObj value_depth_le(2) [of kts k] by (auto simp: k list_all_iff simp del: value_depth.simps)
  qed
  ultimately show ?thesis using JObj
    by (intro disjI2 exI [of _ ?n] exI [of _ ?new]) (simp add: comp_def rev_map [symmetric] sum_list_rev)
qed (auto simp: preflight_enter_def CO_FAIL_def)

lemma preflight_loop_iff:
  assumes "estimated_size \<le> MAX_CLIENT_CERTIFICATE_PROJECTION_BYTES" "nodes \<le> MAX_CLIENT_CERTIFICATE_NODES"
  shows "preflight_loop estimated_size nodes pending =
    (if list_all entry_ok pending \<and>
        estimated_size + sum_list (map entry_bytes pending) \<le> MAX_CLIENT_CERTIFICATE_PROJECTION_BYTES \<and>
        nodes + sum_list (map entry_nodes pending) \<le> MAX_CLIENT_CERTIFICATE_NODES
     then Inr () else CO_FAIL)"
  using assms
proof (induction estimated_size nodes pending rule: preflight_loop.induct)
  case (3 estimated_size nodes t depth pending)
  show ?case
  proof (cases "MAX_CLIENT_CERTIFICATE_VALUE_DEPTH < depth \<or> MAX_CLIENT_CERTIFICATE_NODES < nodes + 1")
    case True
    have "1 \<le> value_nodes t" by (cases t) auto
    moreover have "0 < value_depth t" by simp
    ultimately show ?thesis using True by (auto simp del: value_depth_pos)
  next
    case False
    from preflight_enter_char [of t depth pending] show ?thesis
    proof (elim disjE exE conjE)
      assume "preflight_enter t depth pending = CO_FAIL" "\<not> safe_numbers t"
      then show ?thesis using False by (simp add: CO_FAIL_def)
    next
      fix n new
      assume e: "preflight_enter t depth pending = Inr (n, new @ pending)"
        "value_size t = n + sum_list (map entry_bytes new)" "value_nodes t = 1 + sum_list (map entry_nodes new)"
        "depth \<le> MAX_CLIENT_CERTIFICATE_VALUE_DEPTH \<longrightarrow> (entry_ok (Enter t depth) \<longleftrightarrow> list_all entry_ok new)"
      show ?thesis
      proof (cases "MAX_CLIENT_CERTIFICATE_PROJECTION_BYTES < estimated_size + n")
        case True
        then show ?thesis using False e by simp
      next
        case small: False
        have ok: "entry_ok (Enter t depth) \<longleftrightarrow> list_all entry_ok new" using e(4) False by simp
        have "preflight_loop estimated_size nodes (Enter t depth # pending) =
          preflight_loop (estimated_size + n) (nodes + 1) (new @ pending)" using False small e(1) by simp
        also have "\<dots> = (if list_all entry_ok (new @ pending) \<and>
            estimated_size + n + sum_list (map entry_bytes (new @ pending)) \<le> MAX_CLIENT_CERTIFICATE_PROJECTION_BYTES \<and>
            nodes + 1 + sum_list (map entry_nodes (new @ pending)) \<le> MAX_CLIENT_CERTIFICATE_NODES then Inr () else CO_FAIL)"
          by (rule "3.IH" [OF _ _ e(1) refl]) (use False small in auto)
        finally show ?thesis using e(2,3) ok by (simp add: add.assoc del: entry_ok.simps)
      qed
    qed
  qed
qed simp_all

text \<open>
  C34: The iterative preflight with its explicit stack accepts a value exactly if it is an object
  without an unsafe number, of at most 64 levels, 100000 nodes and the estimated size bound.
\<close>

theorem preflight_iff:
  "preflight_client_projection t = (if is_dict t \<and> small_value t then Inr () else CO_FAIL)"
  using preflight_loop_iff [of 0 0 "[Enter t 1]"] by (auto simp: preflight_client_projection_def small_value_def)

section \<open>Canonical text of what passes the preflight\<close>

lemma utf8_append: "utf8 (a @ b) = utf8 a @ utf8 b"
  by (simp add: utf8_def)

lemma utf8_Cons: "utf8 (c # s) = utf8_cp c @ utf8 s"
  by (simp add: utf8_def)

lemma escape_bytes: "length (utf8 (escape_char c)) \<le> ascii_char_size c"
  by (auto simp: escape_char_def ascii_char_size_def utf8_def utf8_cp_def hex_char_def)

lemma string_text_bytes: "length (utf8 (string_text s)) \<le> ascii_text_size s"
proof -
  have "length (utf8 (concat (map escape_char s))) \<le> sum_list (map ascii_char_size s)"
  proof (induction s)
    case (Cons c s)
    then show ?case using escape_bytes [of c] by (simp add: utf8_append)
  qed (simp add: utf8_def)
  then show ?thesis by (simp add: string_text_def ascii_text_size_def utf8_append utf8_Cons) (simp add: utf8_def utf8_cp_def)
qed

lemma digits_ascii: "length (utf8 (digit_chars (nat_digits n))) = length (nat_digits n)"
proof -
  have "utf8 (digit_chars (nat_digits n)) = map byte_of (digit_chars (nat_digits n))"
    using digit_chars_range [of _ "nat_digits n"] nat_digits_small by (intro utf8_less_128) fastforce
  then show ?thesis by (simp add: digit_chars_def)
qed

lemma int_text_bytes: "length (utf8 (int_text i)) = length (int_text i)"
  using digits_ascii by (auto simp: int_text_def utf8_Cons) (simp_all add: utf8_cp_def digit_chars_def)

lemma digits_nat_append_zeros: "digits_nat (ds @ replicate b 0) = digits_nat ds * 10 ^ b"
proof -
  have "foldl (\<lambda>a d. 10 * a + d) x (replicate b 0) = x * 10 ^ b" for x :: nat
    by (induction b arbitrary: x) simp_all
  then show ?thesis by (simp add: digits_nat_def)
qed

lemma nat_digits_digits_nat: "ds \<noteq> [] \<Longrightarrow> hd ds \<noteq> 0 \<Longrightarrow> (\<forall>d \<in> set ds. d < 10) \<Longrightarrow> nat_digits (digits_nat ds) = ds"
proof (induction ds rule: rev_induct)
  case (snoc d ds)
  show ?case
  proof (cases "ds = []")
    case True
    with snoc show ?thesis by (subst nat_digits.simps) (simp add: digits_nat_def)
  next
    case False
    with snoc have ds: "nat_digits (digits_nat ds) = ds" by simp
    have "digits_nat ds \<noteq> 0"
    proof
      assume "digits_nat ds = 0"
      with ds have "ds = [0]" by (subst (asm) nat_digits.simps) simp
      with snoc.prems False show False by simp
    qed
    then show ?thesis using snoc.prems ds by (subst nat_digits.simps) (auto simp: digits_nat_snoc)
  qed
qed simp

text \<open>A float the preflight admits is written as the integer it is.\<close>

lemma float_canon:
  assumes "wf_float f" "float_integral f" "\<not> float_abs_gt f MAX_SAFE_INTEGER"
  shows "ecmascript_number_to_string f = int_text (float_to_int f)"
proof (cases f)
  case (FDec neg ds n)
  let ?b = "nat (n - int (length ds))"
  let ?ns = "ds @ replicate ?b 0"
  have wf: "wf_digits ds" and n: "int (length ds) \<le> n" using assms FDec by simp_all
  then have ns: "?ns \<noteq> []" "hd ?ns \<noteq> 0" "\<forall>d \<in> set ?ns. d < 10" by (auto simp: wf_digits_def)
  have v: "digits_nat ?ns = digits_nat ds * 10 ^ ?b" by (rule digits_nat_append_zeros)
  have digits: "nat_digits (digits_nat ds * 10 ^ ?b) = ?ns" using nat_digits_digits_nat [OF ns] v by simp
  have "digits_nat ds * 10 ^ ?b \<le> MAX_SAFE_INTEGER" using assms(3) FDec n by (auto simp: dec_gt_def Let_def)
  then have "digits_nat ds * 10 ^ ?b < 10 ^ 16" by (simp add: MAX_SAFE_INTEGER_def)
  then have "length (nat_digits (digits_nat ds * 10 ^ ?b)) \<le> 16" by (intro length_nat_digits_le) simp_all
  then have "n \<le> 16" using digits n by simp
  moreover have "0 < digits_nat ds * 10 ^ ?b"
  proof (rule ccontr)
    assume "\<not> 0 < digits_nat ds * 10 ^ ?b"
    then have "?ns = [0]" using digits by (simp add: nat_digits.simps [of 0])
    then show False using ns(2) by simp
  qed
  ultimately show ?thesis
    using n wf digits wf_digits_chars(5) [OF wf] FDec
    by (auto simp: float_text_FDec int_text_def es_number_def digit_chars_append mult_less_0_iff nat_mult_distrib nat_power_eq
        simp del: ecmascript_number_to_string.simps)
next
  case (FZero neg)
  then show ?thesis by (simp add: int_text_def nat_digits.simps digit_chars_def U_def)
qed (use assms in auto)

lemma commas_bytes: "length (utf8 (with_commas first xs)) \<le> sum_list (map (\<lambda>x. length (utf8 x) + 1) xs)"
  by (induction first xs rule: with_commas.induct) (auto simp: utf8_append utf8_Cons utf8_cp_def utf8_def [of "[]"] U_def)

lemma bracket_bytes: "c < 128 \<Longrightarrow> d < 128 \<Longrightarrow> length (utf8 (c # xs @ [d])) = 2 + length (utf8 xs)"
  by (simp add: utf8_append utf8_Cons utf8_cp_def) (simp add: utf8_def)

lemma canon_bytes: "wf_tree t \<Longrightarrow> safe_numbers t \<Longrightarrow> length (utf8 (canon t)) \<le> value_size t"
proof (induction t)
  case (JBool b)
  show ?case by (simp add: U_def utf8_def utf8_cp_def)
next
  case JNull
  show ?case by (simp add: U_def utf8_def utf8_cp_def)
next
  case (JStr s)
  show ?case by (simp add: string_text_bytes)
next
  case (JInt i)
  show ?case by (simp add: int_text_bytes)
next
  case (JFloat f)
  then show ?case using float_canon [of f] by (simp add: int_text_bytes del: ecmascript_number_to_string.simps)
next
  case (JArr ts)
  have "sum_list (map (\<lambda>x. length (utf8 x) + 1) (map canon ts)) \<le> sum_list (map (\<lambda>t. value_size t + 1) ts)"
    unfolding map_map comp_def by (rule sum_list_mono) (use JArr in \<open>auto simp: list_all_iff\<close>)
  also have "\<dots> = sum_list (map value_size ts) + length ts" by (induction ts) simp_all
  finally show ?case using commas_bytes [of True "map canon ts"] bracket_bytes [of 91 93 "with_commas True (map canon ts)"]
    by (simp add: U_def)
next
  case (JObj kts)
  have "sum_list (map (\<lambda>x. length (utf8 x) + 1) (map member_text (sorted_members kts))) =
      sum_list (map (\<lambda>kt. length (utf8 (member_text kt)) + 1) kts)" by (simp add: comp_def)
  also have "\<dots> \<le> sum_list (map (\<lambda>kt. (ascii_text_size (fst kt) + 2) + value_size (snd kt)) kts)"
  proof (rule sum_list_mono)
    fix kt assume kt: "kt \<in> set kts"
    then have "length (utf8 (canon (snd kt))) \<le> value_size (snd kt)" using JObj by (fastforce simp: list_all_iff snds.simps)
    then show "length (utf8 (member_text kt)) + 1 \<le> (ascii_text_size (fst kt) + 2) + value_size (snd kt)"
      using string_text_bytes [of "fst kt"]
      by (simp add: member_text_def utf8_append U_Cons utf8_Cons utf8_cp_def split: prod.splits)
  qed
  also have "\<dots> = sum_list (map (\<lambda>kt. ascii_text_size (fst kt) + 2) kts) + sum_list (map (\<lambda>kt. value_size (snd kt)) kts)"
    by (rule sum_list_addf)
  finally show ?case
    using commas_bytes [of True "map member_text (sorted_members kts)"]
      bracket_bytes [of 123 125 "with_commas True (map member_text (sorted_members kts))"]
    unfolding canon_JObj by simp
qed

fun encodable_strings :: "json \<Rightarrow> bool" where
  "encodable_strings (JStr s) = encodable s"
| "encodable_strings (JArr ts) = list_all encodable_strings ts"
| "encodable_strings (JObj kts) = list_all (\<lambda>kt. encodable (fst kt) \<and> encodable_strings (snd kt)) kts"
| "encodable_strings t = True"

lemma safe_fp2: "safe_numbers t \<Longrightarrow> fp2_ok t \<longleftrightarrow> encodable_strings t"
proof (induction t)
  case (JFloat f)
  then show ?case by (cases f) auto
next
  case (JObj kts)
  have "fp2_ok (snd kt) \<longleftrightarrow> encodable_strings (snd kt)" if "kt \<in> set kts" for kt
    using that JObj by (fastforce simp: list_all_iff snds.simps)
  then show ?case by (fastforce simp: list_all_iff)
qed (auto simp: list_all_iff)

lemma Max_le_Max: "(\<And>x. x \<in> A \<Longrightarrow> f x \<le> g x) \<Longrightarrow> finite A \<Longrightarrow> Max (insert 0 (f ` A)) \<le> Max (insert (0 :: nat) (g ` A))"
proof -
  assume le: "\<And>x. x \<in> A \<Longrightarrow> f x \<le> g x" and fin: "finite A"
  have "f x \<le> Max (insert 0 (g ` A))" if "x \<in> A" for x
  proof (rule order_trans [OF le [OF that]])
    show "g x \<le> Max (insert 0 (g ` A))" by (rule Max_ge) (use fin that in auto)
  qed
  then show ?thesis using fin by (intro Max.boundedI) auto
qed

lemma json_depth_value: "json_depth t \<le> value_depth t"
proof (induction t)
  case (JObj kts)
  have "json_depth (snd kt) \<le> value_depth (snd kt)" if "kt \<in> set kts" for kt
    using JObj that by (fastforce simp: snds.simps)
  then show ?case using Max_le_Max [of "set kts" "\<lambda>kt. json_depth (snd kt)" "\<lambda>kt. value_depth (snd kt)"] by simp
next
  case (JArr ts)
  then show ?case using Max_le_Max [of "set ts" json_depth value_depth] by simp
qed simp_all

text \<open>
  What the preflight accepts and fp2 canonicalizes has a canonical UTF-8 text of at most the
  declared number of bytes: the estimate is an upper bound.
\<close>

theorem preflight_bounds_canonical:
  assumes "preflight_client_projection t = Inr ()" "parsed t"
  shows "(canonical_text t = None \<longleftrightarrow> \<not> encodable_strings t) \<and>
    (\<forall>s. canonical_text t = Some s \<longrightarrow> length (utf8 s) \<le> 524288)"
proof -
  have small: "small_value t" using assms(1) by (auto simp: preflight_iff CO_FAIL_def split: if_splits)
  then have "json_depth t \<le> MAX_DEPTH" using json_depth_value [of t]
    by (simp add: small_value_def MAX_CLIENT_CERTIFICATE_VALUE_DEPTH_def MAX_DEPTH_def)
  moreover have "fp2_ok t \<longleftrightarrow> encodable_strings t" using small safe_fp2 by (simp add: small_value_def)
  moreover have "length (utf8 (canon t)) \<le> 524288"
    using small assms(2) canon_bytes [of t] by (simp add: small_value_def parsed_def MAX_CLIENT_CERTIFICATE_PROJECTION_BYTES_def)
  ultimately show ?thesis by (auto simp: canonical_text_def)
qed

section \<open>Which failures leave\<close>

lemma without_member_le:
  assumes "is_dict t"
  shows "value_size (without_member k t) \<le> value_size t"
proof -
  from assms obtain kts where "t = JObj kts" by (cases t) auto
  moreover have "sum_list (map f (filter p kts)) \<le> sum_list (map f kts)" for f :: "ustr \<times> json \<Rightarrow> nat" and p
    by (rule sum_list_filter_le_nat)
  ultimately show ?thesis by (simp add: without_member_def add_mono)
qed

lemma without_member_safe: "safe_numbers t \<Longrightarrow> safe_numbers (without_member k t)"
  by (cases t) (auto simp: without_member_def list_all_iff)

lemma co_free_le:
  assumes "parsed t" "is_dict t" "field t ''signatures'' = Inr sigs" "is_dict sigs" "safe_numbers t"
  shows "value_size (co_free t) \<le> value_size t \<and> safe_numbers (co_free t)"
proof -
  from assms(2) obtain kts where t: "t = JObj kts" by (cases t) auto
  have sigs: "snd kt = sigs" if "kt \<in> set kts" "fst kt = U ''signatures''" for kt
  proof -
    have "distinct (map fst kts)" using assms(1) t by (simp add: parsed_def)
    then show ?thesis using that assms(3) t by (cases kt) (auto split: option.splits dest: map_of_is_SomeI)
  qed
  let ?f = "\<lambda>kt. if fst kt = U ''signatures'' then (fst kt, without_member ''co_attestation'' (snd kt)) else kt"
  have "value_size (snd (?f kt)) \<le> value_size (snd kt)" if "kt \<in> set kts" for kt
    using that sigs [of kt] without_member_le [OF assms(4)] by auto
  then have "sum_list (map (\<lambda>kt. value_size (snd (?f kt))) kts) \<le> sum_list (map (\<lambda>kt. value_size (snd kt)) kts)"
    by (rule sum_list_mono)
  moreover have "(\<lambda>kt. ascii_text_size (fst (?f kt)) + 2) = (\<lambda>kt. ascii_text_size (fst kt) + 2)" by auto
  ultimately have "value_size (JObj (map ?f kts)) \<le> value_size (JObj kts)"
    by (simp only: value_size.simps map_map comp_def)
  moreover have "safe_numbers (JObj (map ?f kts))"
    using assms(5) t without_member_safe by (auto simp: list_all_iff)
  ultimately show ?thesis by (simp add: t co_free_def)
qed

lemma client_tag: "CLIENT_CERTIFICATE_DOMAIN \<noteq> [] \<and> \<not> list_ex (\<lambda>b. 0x7F < b) CLIENT_CERTIFICATE_DOMAIN"
  unfolding CLIENT_CERTIFICATE_DOMAIN_def by (rule tag_ascii) (simp_all add: U_Cons)

lemma client_material_total: "length b < 2 ^ 64 \<Longrightarrow> \<exists>m. client_material b = Inr m"
  by (simp add: client_material_Inr length_prefixed_Inr CLIENT_DOMAIN_def utf8_def U_Cons)

lemma prepare_projection_codes:
  assumes "parsed t" "is_dict t" "small_value t" "prepare_client_projection env t = Inl (Failed code)"
  shows "code = ''CO_PROJECTION''"
proof -
  have "\<exists>sigs. field t ''signatures'' = Inr sigs"
    using assms(4) errors_inD [OF errors_in_subscript, of t "JStr (U ''signatures'')"]
    by (cases "field t ''signatures''") (auto simp: prepare_client_projection_def access_error_def)
  then obtain sigs where sigs: "field t ''signatures'' = Inr sigs" by blast
  show ?thesis
  proof (cases "is_dict sigs")
    case True
    have "value_size (co_free t) \<le> value_size t \<and> safe_numbers (co_free t)"
      using co_free_le [OF assms(1,2) sigs True] assms(3) by (simp add: small_value_def)
    moreover have "wf_tree (co_free t)" using assms(1) co_free_wf by (simp add: parsed_def)
    ultimately have "length (utf8 (canon (co_free t))) \<le> 524288"
      using canon_bytes [of "co_free t"] assms(3) by (simp add: small_value_def MAX_CLIENT_CERTIFICATE_PROJECTION_BYTES_def)
    then have "\<exists>m. client_material (utf8 (canon (co_free t))) = Inr m" by (intro client_material_total) simp
    then show ?thesis
      using assms(4) sigs client_tag True
      by (auto simp: prepare_client_projection_def role_digest_def recast_def canonical_text_def split: if_splits)
  next
    case False
    then show ?thesis using assms(4) sigs by (simp add: prepare_client_projection_def)
  qed
qed

text \<open>
  Preparing a co-attestation fails with a code of the closed public vocabulary whenever it
  fails with a code.
\<close>

theorem prepare_codes:
  assumes "parsed document" "prepare_client_co_attestation env document ctx = Inl (Failed code)"
  shows "code \<in> set CLIENT_CO_ATTESTATION_ERROR_CODES"
proof -
  have codes: "Failed code' \<in> Failed ` set CLIENT_CO_ATTESTATION_ERROR_CODES \<longleftrightarrow> code' \<in> set CLIENT_CO_ATTESTATION_ERROR_CODES" for code'
    by auto
  have "code = ''CO_PROJECTION'' \<or> code = ''CO_SCHEMA_DEPENDENCY'' \<or> code \<in> set CLIENT_CO_ATTESTATION_ERROR_CODES"
  proof (cases "preflight_client_projection document")
    case (Inl e)
    then show ?thesis using assms(2) by (auto simp: prepare_client_co_attestation_def preflight_iff CO_FAIL_def split: if_splits)
  next
    case (Inr u)
    then have small: "is_dict document" "small_value document" by (auto simp: preflight_iff CO_FAIL_def split: if_splits)
    show ?thesis
    proof (cases "check_preparation_schema env document")
      case (Inl e)
      then show ?thesis using assms(2) Inr
        by (auto simp: prepare_client_co_attestation_def check_preparation_schema_def CO_FAIL_def split: schema_outcome.splits)
    next
      case schema: (Inr u')
      show ?thesis
      proof (cases "validate_client_preparation_context env document ctx")
        case (Inl e)
        then show ?thesis using assms(2) Inr schema
          by (auto simp: prepare_client_co_attestation_def recast_def failed_with_def codes split: if_splits)
      next
        case valid: (Inr u'')
        then have "prepare_client_projection env document = Inl (Failed code)"
          using assms(2) Inr schema by (simp add: prepare_client_co_attestation_def recast_def)
        then show ?thesis using prepare_projection_codes assms(1) small by blast
      qed
    qed
  qed
  then show ?thesis by (auto simp: CLIENT_CO_ATTESTATION_ERROR_CODES_def)
qed

section \<open>What was prepared\<close>

lemma prepare_facts:
  assumes "prepare_client_co_attestation env c ctx = Inr p"
  obtains "is_dict c" "small_value c" "validate_client_preparation_context env c ctx = Inr ()"
    "prepare_client_projection env c = Inr p"
  using assms by (auto simp: prepare_client_co_attestation_def rbind_Inr_iff preflight_iff CO_FAIL_def split: if_splits)

lemma preparation_facts:
  assumes "validate_client_preparation_context env c ctx = Inr ()"
  obtains sigs r m audit g1s d ring issuer params key_ref where
    "field c ''signatures'' = Inr sigs" "field sigs ''unsigned_manifest'' = Inr r" "field r ''document'' = Inr m"
    "g1_claims c = Inr g1s" "length g1s = 1" "field (hd g1s) ''tier'' = Inr (JInt 1) \<or> (\<exists>x. field (hd g1s) ''tier'' = Inr x \<and> py_eq x (JInt 1))"
    "check_projections c m d = Inr ()" "field m ''key_ring_identifiers'' = Inr ring"
    "field sigs ''issuer_signature'' = Inr issuer"
    "derive_client_key_ref env (co_project_ref ctx) (JStr (co_client_algorithm ctx)) (co_client_public_key ctx) = Inr key_ref"
    "must_equal ''CO_PROJECTION'' (field issuer ''algorithm'') (field ring ''issuer_signature_algorithm'') = Inr ()"
    "check_client_pins c m (hd g1s) ctx key_ref = Inr ()" "check_prepare_issuer_signature env m issuer ctx = Inr ()"
    "path_to (hd g1s) [''payload'', ''params''] = Inr params" "check_g1_cross_bound_params c m params = Inr ()"
    "role_digest env AUDIT_DOMAIN audit = Inr d" "field c ''audit_report'' = Inr audit" "check_claims_and_audit env c m audit d = Inr ()"
  using assms unfolding validate_client_preparation_context_def rbind_Inr_iff
  by (auto simp: rbind_Inr_iff must_equal_Inr [of "''CO_G1_REQUIRED''"] simp del: path_to.simps)

lemma pin_values:
  assumes "check_client_pins c m g1 ctx key_ref = Inr ()"
  shows "path_to c [''subject'', ''project_ref''] = Inr (JStr (co_project_ref ctx))"
    "path_to c [''subject'', ''build_session_ref''] = Inr (JStr (co_build_session_ref ctx))"
    "path_to c [''subject'', ''session_commitment_digest''] = Inr (JStr (co_session_commitment_digest ctx))"
    "path_to m [''freshness'', ''nonce''] = Inr (JStr (co_nonce ctx))"
    "path_to m [''privacy_mode'', ''declared_mode''] = Inr (JStr (co_privacy_mode ctx))"
    "path_to m [''key_ring_identifiers'', ''issuer_key_ref''] = Inr (JStr (co_issuer_key_ref ctx))"
    "path_to m [''key_ring_identifiers'', ''issuer_signature_algorithm''] = Inr (JStr (co_issuer_algorithm ctx))"
    "path_to m [''key_ring_identifiers'', ''client_signature_algorithm''] = Inr (JStr (co_client_algorithm ctx))"
    "path_to m [''key_ring_identifiers'', ''client_key_ref''] = Inr (JStr key_ref)"
    "path_to g1 [''payload'', ''params'', ''manifest_root_digest''] = Inr (JStr (co_manifest_root_digest ctx))"
    "path_to g1 [''payload'', ''params'', ''commitment_scheme''] = Inr (JStr (co_commitment_scheme ctx))"
    "path_to g1 [''verifier'', ''verifier_id''] = Inr (JStr (co_g1_verifier_id ctx))"
proof -
  obtain subject pins where s: "field c ''subject'' = Inr subject" "traverse (projection_pin subject m g1) PIN_BINDINGS = Inr pins"
    "list_all2 py_eq pins (expected_pins ctx key_ref)"
    using assms by (auto simp: check_client_pins_def rbind_Inr_iff)
  have "list_all2 (\<lambda>b v. projection_pin subject m g1 b = Inr v) PIN_BINDINGS pins" using s(2) by (simp add: traverse_Inr_iff)
  then have all: "list_all2 (\<lambda>b e. \<exists>v. projection_pin subject m g1 b = Inr v \<and> py_eq v e) PIN_BINDINGS (expected_pins ctx key_ref)"
    using s(3) unfolding list_all2_conv_all_nth by auto
  have path: "path_to c (''subject'' # ks) = path_to subject ks" for ks using s(1) by (cases "path_to subject ks") auto
  have pin: "projection_pin subject m g1 (name, root, ks) =
      path_to (if root = ''subject'' then subject else if root = ''unsigned'' then m else g1) ks"
    if "name \<noteq> ''expected_compiler_register_versions''" for name root ks
    using that by (auto simp: projection_pin_def rbind_def split: sum.split)
  show "path_to c [''subject'', ''project_ref''] = Inr (JStr (co_project_ref ctx))"
    "path_to c [''subject'', ''build_session_ref''] = Inr (JStr (co_build_session_ref ctx))"
    "path_to c [''subject'', ''session_commitment_digest''] = Inr (JStr (co_session_commitment_digest ctx))"
    "path_to m [''freshness'', ''nonce''] = Inr (JStr (co_nonce ctx))"
    "path_to m [''privacy_mode'', ''declared_mode''] = Inr (JStr (co_privacy_mode ctx))"
    "path_to m [''key_ring_identifiers'', ''issuer_key_ref''] = Inr (JStr (co_issuer_key_ref ctx))"
    "path_to m [''key_ring_identifiers'', ''issuer_signature_algorithm''] = Inr (JStr (co_issuer_algorithm ctx))"
    "path_to m [''key_ring_identifiers'', ''client_signature_algorithm''] = Inr (JStr (co_client_algorithm ctx))"
    "path_to m [''key_ring_identifiers'', ''client_key_ref''] = Inr (JStr key_ref)"
    "path_to g1 [''payload'', ''params'', ''manifest_root_digest''] = Inr (JStr (co_manifest_root_digest ctx))"
    "path_to g1 [''payload'', ''params'', ''commitment_scheme''] = Inr (JStr (co_commitment_scheme ctx))"
    "path_to g1 [''verifier'', ''verifier_id''] = Inr (JStr (co_g1_verifier_id ctx))"
    using all unfolding path by (simp_all add: PIN_BINDINGS_def expected_pins_def pin del: path_to.simps)
qed

lemma prepare_issuer_facts:
  assumes "check_prepare_issuer_signature env m issuer ctx = Inr ()"
  obtains b algorithm message signature where "manifest_bytes env m = Inr b" "field issuer ''algorithm'' = Inr algorithm"
    "issuer_material b = Inr message" "field issuer ''signature'' = Inr signature"
    "verify_signature env (co_issuer_public_key ctx) algorithm message signature = Inr ()"
  using assms by (auto simp: check_prepare_issuer_signature_def rbind_Inr_iff)

theorem prepared_is_pinned:
  assumes "prepare_client_co_attestation env c ctx = Inr p"
  shows "\<exists>m g1 key_ref issuer message signature s.
    path_to c [''signatures'', ''unsigned_manifest'', ''document''] = Inr m \<and> g1_claims c = Inr [g1] \<and>
    derive_client_key_ref env (co_project_ref ctx) (JStr (co_client_algorithm ctx)) (co_client_public_key ctx) = Inr key_ref \<and>
    check_client_pins c m g1 ctx key_ref = Inr () \<and>
    path_to c [''subject'', ''project_ref''] = Inr (JStr (co_project_ref ctx)) \<and>
    path_to c [''subject'', ''build_session_ref''] = Inr (JStr (co_build_session_ref ctx)) \<and>
    path_to m [''freshness'', ''nonce''] = Inr (JStr (co_nonce ctx)) \<and>
    path_to m [''key_ring_identifiers'', ''client_key_ref''] = Inr (JStr key_ref) \<and>
    path_to g1 [''payload'', ''params'', ''manifest_root_digest''] = Inr (JStr (co_manifest_root_digest ctx)) \<and>
    path_to c [''signatures'', ''issuer_signature''] = Inr issuer \<and> field issuer ''signature'' = Inr signature \<and>
    issuer_message env c = Inr message \<and>
    verify_signature env (co_issuer_public_key ctx) (JStr (co_issuer_algorithm ctx)) message signature = Inr () \<and>
    canonical_text (co_free c) = Some s \<and>
    signing_bytes p = CLIENT_DOMAIN @ i2osp (length (utf8 s)) 8 @ utf8 s"
proof -
  have v: "validate_client_preparation_context env c ctx = Inr ()" "prepare_client_projection env c = Inr p"
    by (rule prepare_facts [OF assms], assumption)+
  obtain sigs r m g1s ring issuer key_ref where
    f: "field c ''signatures'' = Inr sigs" "field sigs ''unsigned_manifest'' = Inr r" "field r ''document'' = Inr m"
    "g1_claims c = Inr g1s" "length g1s = 1" "field m ''key_ring_identifiers'' = Inr ring"
    "field sigs ''issuer_signature'' = Inr issuer"
    "derive_client_key_ref env (co_project_ref ctx) (JStr (co_client_algorithm ctx)) (co_client_public_key ctx) = Inr key_ref"
    "must_equal ''CO_PROJECTION'' (field issuer ''algorithm'') (field ring ''issuer_signature_algorithm'') = Inr ()"
    "check_client_pins c m (hd g1s) ctx key_ref = Inr ()" "check_prepare_issuer_signature env m issuer ctx = Inr ()"
    using preparation_facts [OF v(1)] by metis
  from f(5) obtain g1 where g1: "g1s = [g1]" by (cases g1s) auto
  note pins = pin_values [OF f(10)]
  obtain b algorithm message signature where i: "manifest_bytes env m = Inr b" "field issuer ''algorithm'' = Inr algorithm"
    "issuer_material b = Inr message" "field issuer ''signature'' = Inr signature"
    "verify_signature env (co_issuer_public_key ctx) algorithm message signature = Inr ()"
    using prepare_issuer_facts [OF f(11)] by metis
  have "field ring ''issuer_signature_algorithm'' = Inr (JStr (co_issuer_algorithm ctx))" using pins(7) f(6) by (auto simp: rbind_Inr_iff)
  then have "algorithm = JStr (co_issuer_algorithm ctx)" using f(9) i(2) by (simp add: must_equal_to_JStr)
  moreover obtain s where "canonical_text (co_free c) = Some s" "client_material (utf8 s) = Inr (signing_bytes p)"
    using v(2) by (auto simp: prepare_client_projection_def rbind_Inr_iff split: option.splits)
  moreover have "path_to c [''signatures'', ''unsigned_manifest'', ''document''] = Inr m" using f(1-3) by simp
  moreover have "issuer_message env c = Inr message" using f(1-3) i(1,3) by (simp add: issuer_message_def)
  moreover from calculation(3) have "signing_bytes p = CLIENT_DOMAIN @ i2osp (length (utf8 s)) 8 @ utf8 s"
    by (simp add: client_material_Inr length_prefixed_Inr)
  moreover have "path_to c [''signatures'', ''issuer_signature''] = Inr issuer" using f(1,7) by simp
  ultimately show ?thesis
    using f(4,8,10) g1 pins(1,2,4,9,10) i(4,5)
    by (intro exI [of _ m] exI [of _ g1] exI [of _ key_ref] exI [of _ issuer] exI [of _ message] exI [of _ signature] exI [of _ s])
      (simp del: path_to.simps)
qed

section \<open>Completing the certificate\<close>

definition attach_co :: "json \<Rightarrow> json \<Rightarrow> json" where
  "attach_co document co =
     JObj (map (\<lambda>kt. if fst kt = U ''signatures''
       then (fst kt, JObj (members (snd kt) @ [(U ''co_attestation'', co)])) else kt) (members document))"

definition co_attestation_block :: "co_context \<Rightarrow> ustr \<Rightarrow> client_projection \<Rightarrow> byte list \<Rightarrow> json" where
  "co_attestation_block ctx key_ref p raw =
     JObj [(U ''client_key_ref'', JStr key_ref), (U ''algorithm'', JStr (co_client_algorithm ctx)), (U ''nonce'', JStr (co_nonce ctx)),
       (U ''signed_manifest_digest'', JStr (signed_manifest_digest p)), (U ''signature'', JStr (std_b64 raw))]"

lemma field_attach: "field (attach_co c co) k =
  (if k = ''signatures'' then rbind (field (JObj (members c)) k) (\<lambda>s. Inr (JObj (members s @ [(U ''co_attestation'', co)])))
   else field (JObj (members c)) k)"
proof -
  have "map_of (map (\<lambda>kt. if fst kt = U ''signatures''
       then (fst kt, JObj (members (snd kt) @ [(U ''co_attestation'', co)])) else kt) kts) (U k) =
    (if k = ''signatures'' then map_option (\<lambda>s. JObj (members s @ [(U ''co_attestation'', co)])) (map_of kts (U k))
     else map_of kts (U k))" for kts
    by (induction kts) auto
  then show ?thesis by (simp add: attach_co_def split: option.split)
qed

lemma dict_members: "is_dict c \<Longrightarrow> JObj (members c) = c"
  by (cases c) auto

lemma co_free_attach:
  assumes "is_dict c"
  shows "co_free (attach_co c co) = co_free c"
proof -
  have "without_member ''co_attestation'' (JObj (members s @ [(U ''co_attestation'', co)])) = without_member ''co_attestation'' s" for s
    by (simp add: without_member_def)
  then show ?thesis using assms by (cases c) (auto simp: co_free_def attach_co_def)
qed

lemma prepare_projection_attach:
  assumes "is_dict c" "prepare_client_projection env c = Inr p"
  shows "prepare_client_projection env (attach_co c co) = Inr p"
proof -
  obtain sigs where "field c ''signatures'' = Inr sigs" "is_dict sigs"
    using assms(2) by (auto simp: prepare_client_projection_def rbind_Inr_iff)
  then show ?thesis using assms(2)
    by (simp add: prepare_client_projection_def co_free_attach [OF assms(1)] field_attach dict_members [OF assms(1)])
qed

lemma any_of_true:
  assumes "\<And>x. x \<in> set xs \<Longrightarrow> \<exists>b. p x = Inr b" "x \<in> set xs" "p x = Inr True"
  shows "any_of p xs = Inr True"
  using assms by (induction xs) (fastforce split: if_splits)+

lemma g1_claims_required:
  assumes "g1_claims c = Inr [g1]" "check_projections c m d = Inr ()"
  shows "\<exists>claims. rbind (field c ''claims'') iterate = Inr claims \<and> any_of client_claim claims = Inr True"
proof -
  obtain claims ids where c: "rbind (field c ''claims'') iterate = Inr claims"
    "traverse (\<lambda>claim. rbind (field claim ''claim_id'') (\<lambda>i. Inr (i, claim))) claims = Inr ids"
    "map snd (filter (\<lambda>e. py_eq (fst e) (jstr ''G1'')) ids) = [g1]"
    using assms(1) by (auto simp: g1_claims_def rbind_Inr_iff)
  obtain tiers where t: "traverse claim_tier claims = Inr tiers"
    using assms(2) c(1) by (auto simp: check_projections_def rbind_Inr_iff)
  have "\<exists>b. client_claim x = Inr b" if x: "x \<in> set claims" for x
  proof -
    obtain y where "claim_tier x = Inr y" using list_all2_mem [OF t [unfolded traverse_Inr_iff] x] by blast
    then obtain i n where "field x ''claim_id'' = Inr i" "field x ''tier'' = Inr n"
      unfolding claim_tier_def rbind_Inr_iff by blast
    then show ?thesis by (cases "py_eq i (jstr ''G1'')") (auto simp: client_claim_def)
  qed
  moreover have "g1 \<in> set (map snd (filter (\<lambda>e. py_eq (fst e) (jstr ''G1'')) ids))" unfolding c(3) by simp
  then obtain e where e: "e \<in> set ids" "py_eq (fst e) (jstr ''G1'')" by auto
  moreover obtain x where "x \<in> set claims" "field x ''claim_id'' = Inr (fst e)"
    using list_all2_mem_right [OF c(2) [unfolded traverse_Inr_iff] e(1)] by (auto simp: rbind_Inr_iff)
  moreover from this e(2) have "client_claim x = Inr True" by (simp add: client_claim_def)
  ultimately show ?thesis using any_of_true [of claims client_claim x] c(1) by blast
qed

lemma half_order_kept:
  assumes "verify_signature env key (JStr alg) message (JStr (std_b64 raw)) = Inr ()" "alg = U ''ecdsa_p256_sha256''"
  shows "\<not> ECDSA_HALF_ORDER < os2ip (drop 32 raw)"
proof -
  have "decode_signature (JStr (std_b64 raw)) = Inr raw"
    using assms by (auto simp: verify_signature_def rbind_Inr_iff decode_signature_char split: if_splits)
  then show ?thesis using assms by (auto simp: verify_signature_def Let_def split: key_object.splits)
qed

text \<open>
  C18: The two halves fit: if the bytes returned by preparation are signed with the client key
  and the signature is attached, the co-attestation check of the verifier accepts the completed
  certificate.
\<close>

theorem prepared_signature_completes:
  assumes prep: "prepare_client_co_attestation env c ctx = Inr p"
    and key: "derive_client_key_ref env (co_project_ref ctx) (JStr (co_client_algorithm ctx)) (co_client_public_key ctx) = Inr key_ref"
    and sigs: "field c ''signatures'' = Inr sigs" "json_member sigs (U ''co_attestation'') = None"
    and m: "path_to sigs [''unsigned_manifest'', ''document''] = Inr m"
    and raw: "length raw = 64"
      "verify_signature env (co_client_public_key ctx) (JStr (co_client_algorithm ctx)) (signing_bytes p) (JStr (std_b64 raw)) = Inr ()"
    and vctx: "expected_nonce vctx = co_nonce ctx" "expected_client_algorithm vctx = Some (co_client_algorithm ctx)"
      "client_public_key vctx = Some (co_client_public_key ctx)"
    and final: "final = attach_co c (co_attestation_block ctx key_ref p raw)" "field final ''signatures'' = Inr sigs'"
  shows "verify_co_attestation env final sigs' m vctx = Inr ()"
proof -
  let ?co = "co_attestation_block ctx key_ref p raw"
  have v: "is_dict c" "validate_client_preparation_context env c ctx = Inr ()" "prepare_client_projection env c = Inr p"
    by (rule prepare_facts [OF prep], assumption)+
  obtain sigs2 r m2 g1s d key_ref2 where f: "field c ''signatures'' = Inr sigs2" "field sigs2 ''unsigned_manifest'' = Inr r"
    "field r ''document'' = Inr m2" "g1_claims c = Inr g1s" "length g1s = 1" "check_projections c m2 d = Inr ()"
    "derive_client_key_ref env (co_project_ref ctx) (JStr (co_client_algorithm ctx)) (co_client_public_key ctx) = Inr key_ref2"
    "check_client_pins c m2 (hd g1s) ctx key_ref2 = Inr ()"
    using preparation_facts [OF v(2)] by metis
  have same: "sigs2 = sigs" "m2 = m" "key_ref2 = key_ref" using f(1-3,7) sigs(1) m key by auto
  from f(5) obtain g1 where g1: "g1s = [g1]" by (cases g1s) auto
  note pins = pin_values [OF f(8) [unfolded same]]
  obtain claims where claims: "rbind (field c ''claims'') iterate = Inr claims" "any_of client_claim claims = Inr True"
    using g1_claims_required f(4,6) g1 by blast
  have d: "JObj (members c) = c" using dict_members v(1) .
  have sigs': "sigs' = JObj (members sigs @ [(U ''co_attestation'', ?co)])"
    using final sigs(1) by (simp add: field_attach d)
  have sd: "is_dict sigs" using v(3) sigs(1) by (auto simp: prepare_client_projection_def rbind_Inr_iff)
  then have co: "field sigs' ''co_attestation'' = Inr ?co" "has_key sigs' ''co_attestation'' = Inr True"
    using sigs(2) unfolding sigs' by (cases sigs; simp add: map_add_def)+
  have fields: "field ?co ''client_key_ref'' = Inr (JStr key_ref)" "field ?co ''algorithm'' = Inr (JStr (co_client_algorithm ctx))"
    "field ?co ''nonce'' = Inr (JStr (co_nonce ctx))" "field ?co ''signed_manifest_digest'' = Inr (JStr (signed_manifest_digest p))"
    "field ?co ''signature'' = Inr (JStr (std_b64 raw))"
    by (simp_all add: co_attestation_block_def)
  have "check_co_bindings ?co m vctx = Inr ()"
    using pins(4,8,9) vctx by (simp add: check_co_bindings_def fields opt_str_def del: path_to.simps)
  moreover have "field final ''claims'' = field c ''claims''" by (simp add: final(1) field_attach d)
  moreover have "prepare_client_projection env final = Inr p" unfolding final(1) using prepare_projection_attach v(1,3) .
  moreover have "decode_signature (JStr (std_b64 raw)) = Inr raw" using raw(1) by (simp add: decode_signature_char)
  moreover have "\<not> (py_eq (JStr (co_client_algorithm ctx)) (jstr ''ecdsa_p256_sha256'') \<and> ECDSA_HALF_ORDER < os2ip (drop 32 raw))"
    using half_order_kept [OF raw(2)] by auto
  ultimately show ?thesis
    using claims co fields raw(2) vctx(3) unfolding verify_co_attestation_def by (auto simp: rbind_Inr_iff)
qed

end
