(* ===== verification/PrepareDemo.thy ===== *)
theory PrepareDemo
  imports PrepareLaws RelyingDemo
begin

text \<open>The issuer's response for the accepted certificate passes the preparation; the witnesses over it.\<close>

section \<open>The response is small\<close>

definition printable :: "ustr \<Rightarrow> bool" where
  "printable s \<longleftrightarrow> list_all (\<lambda>c. 32 \<le> c \<and> c < 127) s"

fun slim :: "json \<Rightarrow> bool" where
  "slim (JStr s) = (length s \<le> 400 \<and> printable s)"
| "slim (JInt i) = (length (int_text i) \<le> 400)"
| "slim (JFloat f) = False"
| "slim (JArr ts) = list_all slim ts"
| "slim (JObj kts) = list_all (\<lambda>kt. length (fst kt) \<le> 60 \<and> printable (fst kt) \<and> slim (snd kt)) kts"
| "slim t = True"

lemma printable_literal [simp]:
  "printable []" "printable (U (c # s)) \<longleftrightarrow> 32 \<le> (of_char c :: nat) \<and> (of_char c :: nat) < 127 \<and> printable (U s)"
  by (simp_all add: printable_def U_def)

lemma printable_append [simp]: "printable (a @ b) \<longleftrightarrow> printable a \<and> printable b"
  by (simp add: printable_def)

lemma printable_size: "printable s \<Longrightarrow> ascii_text_size s \<le> 2 * length s + 2"
  unfolding ascii_text_size_def printable_def by (induction s) (auto simp: ascii_char_size_def)

lemma slim_size: "slim t \<Longrightarrow> value_size t + 128 \<le> value_nodes t * 932"
proof (induction t)
  case (JStr s)
  then show ?case using printable_size [of s] by simp
next
  case (JArr ts)
  have "sum_list (map (\<lambda>t. value_size t + 1) ts) \<le> sum_list (map (\<lambda>t. value_nodes t * 932) ts)"
    by (rule sum_list_mono) (use JArr in \<open>fastforce simp: list_all_iff\<close>)
  moreover have "sum_list (map (\<lambda>t. value_size t + 1) ts) = sum_list (map value_size ts) + length ts" by (induction ts) simp_all
  ultimately show ?case by (simp add: sum_list_mult_const algebra_simps)
next
  case (JObj kts)
  have "sum_list (map (\<lambda>kt. (ascii_text_size (fst kt) + 2) + value_size (snd kt)) kts) \<le> sum_list (map (\<lambda>kt. value_nodes (snd kt) * 932) kts)"
  proof (rule sum_list_mono)
    fix kt assume kt: "kt \<in> set kts"
    then have "value_size (snd kt) + 128 \<le> value_nodes (snd kt) * 932" "ascii_text_size (fst kt) \<le> 122"
      using JObj printable_size [of "fst kt"] by (fastforce simp: list_all_iff snds.simps)+
    then show "(ascii_text_size (fst kt) + 2) + value_size (snd kt) \<le> value_nodes (snd kt) * 932" by simp
  qed
  also have "\<dots> = sum_list (map (\<lambda>kt. value_nodes (snd kt)) kts) * 932" by (simp add: sum_list_mult_const)
  finally show ?case unfolding value_size.simps value_nodes.simps sum_list_addf by simp
qed auto

lemma value_depth_json: "value_depth t \<le> Suc (json_depth t)"
proof (induction t)
  case (JArr ts)
  have "list_all (\<lambda>t. value_depth t \<le> json_depth (JArr ts)) ts"
    unfolding list_all_iff
  proof
    fix t assume t: "t \<in> set ts"
    then have "json_depth t \<le> Max (insert 0 (json_depth ` set ts))" by (intro Max_ge) auto
    with JArr [OF t] show "value_depth t \<le> json_depth (JArr ts)" by simp
  qed
  then show ?case by (simp only: value_depth_le)
next
  case (JObj kts)
  have "list_all (\<lambda>kt. value_depth (snd kt) \<le> json_depth (JObj kts)) kts"
    unfolding list_all_iff
  proof
    fix kt assume kt: "kt \<in> set kts"
    then have "json_depth (snd kt) \<le> Max (insert 0 ((\<lambda>kt. json_depth (snd kt)) ` set kts))" by (intro Max_ge) auto
    moreover have "value_depth (snd kt) \<le> Suc (json_depth (snd kt))" using JObj kt by (fastforce simp: snds.simps)
    ultimately show "value_depth (snd kt) \<le> json_depth (JObj kts)" by simp
  qed
  then show ?case by (simp only: value_depth_le)
qed simp_all

lemma printable_digits: "printable dig"
proof -
  have "list_all is_hex (hexdigest (replicate 32 17))" by (rule hexdigest_hex)
  then have "printable (hexdigest (replicate 32 17))"
    unfolding printable_def by (rule list.pred_mono_strong) (auto simp: is_hex_def is_digit_def)
  moreover have "printable SHA256_PREFIX" by (simp add: printable_def SHA256_PREFIX_def U_Cons)
  ultimately show ?thesis by (simp add: printable_def dig_def)
qed

lemma printable_ckr: "printable ckr"
proof -
  have "printable (b64_text (replicate 32 17))"
    using b64_chars [of _ "replicate 32 17"]
    by (fastforce simp: printable_def list_all_iff word_char_def lower_def upper_def is_digit_def)
  then show ?thesis by (simp add: ckr_def printable_def U_Cons)
qed

lemma printable_signature: "printable (std_b64 (replicate 64 1))"
proof -
  have "\<forall>n \<in> set (b64_vals (replicate 64 1)). n < 64" using b64_vals_small by (auto simp: list_all_iff)
  then show ?thesis by (auto simp: std_b64_def printable_def list_all_iff std_b64_char_def b64_char_def)
qed

lemma leaves [simp]: "length dig = 71" "length ckr = 47" "slim demo_signature" "length g1_text \<le> 400" "printable g1_text"
  using printable_digits printable_ckr printable_signature
  by (simp_all add: dig_length ckr_def demo_signature_def std_b64_def length_b64_vals b64_text_vals g1_text_def)

declare printable_digits [simp] printable_ckr [simp]

lemma slim_parts [simp]: "slim demo_subject" "slim demo_seal" "slim b1_claim" "slim g1_claim" "slim demo_ring" "slim demo_semantics"
  "slim demo_profile" "slim registers_json"
  by (simp_all add: demo_subject_def demo_seal_def b1_claim_def g1_claim_def g1_params_def demo_ring_def demo_semantics_def
      demo_profile_def registers_json_def evidence_ref_def verifier_def demo_stream_def STREAM_FAMILIES_def demo_registers_def
      BUILD_LEDGER_CHAIN_SCHEMA_VERSION_def int_text_def digit_chars_def nat_digits.simps)

lemma slim_response: "slim demo_response"
proof -
  have "slim demo_manifest"
    by (simp add: demo_manifest_def tier_of_def evidence_ref_def expected_non_claims_def NON_CLAIMS_def
      int_text_def digit_chars_def nat_digits.simps)
  then have "slim unsigned_block" "slim issuer_block" by (simp_all add: unsigned_block_def issuer_block_def COVERAGE_def)
  moreover have "slim demo_audit" by (simp add: demo_audit_def printed_row_def abstained_def verifier_def)
  ultimately show ?thesis by (simp add: demo_envelope_def expected_non_claims_def NON_CLAIMS_def)
qed

lemma response_nodes: "value_nodes demo_response \<le> 500"
  by (simp add: demo_envelope_def demo_profile_def demo_manifest_def unsigned_block_def issuer_block_def
      COVERAGE_def demo_audit_def printed_row_def abstained_def verifier_def registers_json_def
      demo_registers_def demo_subject_def demo_seal_def demo_stream_def STREAM_FAMILIES_def b1_claim_def g1_claim_def
      g1_params_def demo_ring_def demo_semantics_def evidence_ref_def expected_non_claims_def NON_CLAIMS_def tier_of_def
      demo_signature_def)

lemma response_small: "small_value demo_response"
proof -
  have "good 20 demo_response" 
    by (simp add: demo_envelope_def unsigned_block_def issuer_block_def COVERAGE_def good_rules good_parts good_manifest good_audit good_signature)
  then have "value_depth demo_response \<le> 64" "fp2_ok demo_response"
    using value_depth_json [of demo_response] by (auto simp: good_def fine_def)
  moreover have "safe_numbers t" if "fp2_ok t" "slim t" for t
    using that by (induction t) (auto simp: list_all_iff snds.simps)
  ultimately show ?thesis
    using slim_size [OF slim_response] response_nodes slim_response
    by (simp add: small_value_def MAX_CLIENT_CERTIFICATE_VALUE_DEPTH_def MAX_CLIENT_CERTIFICATE_NODES_def
        MAX_CLIENT_CERTIFICATE_PROJECTION_BYTES_def del: value_depth.simps)
qed

section \<open>The preparation\<close>

definition demo_co_context :: co_context where
  "demo_co_context = \<lparr>co_project_ref = U ''p1'', co_build_session_ref = U ''ses'', co_session_commitment_digest = dig, co_nonce = U ''n'',
     co_privacy_mode = U ''offline'', co_sdk_ref = U ''r'', co_sdk_version = U ''1.0.0'', co_disclosure_profile_id = U ''public'',
     co_issuer_key_ref = U ''ik'', co_trust_ring_ref = U ''tr'', co_issuer_algorithm = U ''ed25519'',
     co_compiler_register_versions = demo_registers, co_g1_verifier_id = U ''ver.g1'', co_g1_verifier_version = U ''1.0.0'',
     co_manifest_root_digest = dig, co_commitment_scheme = U ''s'', co_client_attestor_version = U ''1'',
     co_client_algorithm = U ''ed25519'', co_client_public_key = Ed25519Key [1], co_issuer_public_key = Ed25519Key [1]\<rparr>"

lemma demo_g1s: "g1_claims (demo_envelope s) = Inr [g1_claim]"
  by (simp add: g1_claims_def)

lemma demo_prepare_semantics: "check_prepare_semantics (demo_envelope s) registers_json = Inr ()"
proof -
  have "iterate demo_semantics = Inr (map jstr SEMANTICS_KEYS)"
    by (simp add: demo_semantics_def demo_registers_def SEMANTICS_KEYS_def)
  moreover have "selected registers_json SEMANTICS_KEYS = Inr demo_semantics"
    by (simp add: selected_def SEMANTICS_KEYS_def registers_json_def demo_registers_def demo_semantics_def)
  moreover have "must_equal code (Inr demo_semantics) (Inr demo_semantics) = Inr ()" for code
    by (rule must_equal_refl [OF good_parts(8) [of 5]]) simp
  moreover have "\<not> list_ex is_container (map jstr SEMANTICS_KEYS)" by (auto simp: list_ex_iff)
  ultimately show ?thesis by (simp add: check_prepare_semantics_def raise_if_def)
qed

lemma demo_pins: "check_client_pins (demo_envelope s) demo_manifest g1_claim demo_co_context ckr = Inr ()"
proof -
  let ?registers = "register_rows (map (\<lambda>(k, v). (k, JStr v)) demo_registers)"
  have registers: "projection_pin demo_subject demo_manifest g1_claim
      (''expected_compiler_register_versions'', ''unsigned'', [''compiler_register_versions'']) = Inr ?registers"
    by (simp add: projection_pin_def registers_json_def demo_registers_def COMPILER_REGISTER_KEYS_def SEMANTICS_KEYS_def)
  have manifest: "field demo_manifest ''privacy_mode'' = Inr (JObj [(U ''declared_mode'', jstr ''offline'')])"
    "field demo_manifest ''sdk_identity'' = Inr (JObj [(U ''sdk_ref'', jstr ''r''), (U ''sdk_version'', jstr ''1.0.0'')])"
    "field demo_profile ''profile_id'' = Inr (jstr ''public'')" "field demo_subject ''session_commitment_digest'' = Inr (JStr dig)"
    by (simp_all add: demo_manifest_def demo_profile_def demo_subject_def)
  have "good 5 ?registers" by (simp add: register_rows_def demo_registers_def good_rules)
  then have "py_eq ?registers ?registers" by (auto simp: good_def fine_def parsed_def py_eq_refl)
  moreover have "traverse (projection_pin demo_subject demo_manifest g1_claim) PIN_BINDINGS = Inr (expected_pins demo_co_context ckr)"
    unfolding PIN_BINDINGS_def traverse.simps registers
    by (simp add: projection_pin_def manifest expected_pins_def demo_co_context_def)
  ultimately show ?thesis
    by (simp add: check_client_pins_def expected_pins_def demo_co_context_def)
qed

lemma demo_issuer_signature: "check_prepare_issuer_signature demo_env demo_manifest issuer_block demo_co_context = Inr ()"
proof -
  obtain m where "issuer_material (utf8 (canon demo_manifest)) = Inr m" using demo_materials(1) by blast
  then show ?thesis
    by (simp add: check_prepare_issuer_signature_def demo_manifest_bytes) (simp add: demo_co_context_def demo_verified)
qed

definition response_signatures :: json where
  "response_signatures = JObj [(U ''unsigned_manifest'', unsigned_block), (U ''issuer_signature'', issuer_block)]"

lemma response_field [simp]:
  "field response_signatures ''unsigned_manifest'' = Inr unsigned_block" "field response_signatures ''issuer_signature'' = Inr issuer_block"
  "json_member response_signatures (U ''co_attestation'') = None" "is_dict response_signatures"
  by (simp_all add: response_signatures_def)

lemma demo_preparation: "validate_client_preparation_context demo_env (demo_envelope response_signatures) demo_co_context = Inr ()"
proof -
  have "role_digest demo_env UNSIGNED_DOMAIN demo_manifest = Inr dig" "role_digest demo_env AUDIT_DOMAIN demo_audit = Inr dig"
    by (simp_all add: demo_digests good_manifest good_audit)
  moreover have "py_eq (JArr (map jstr COVERAGE)) (JArr (map jstr COVERAGE))"
    by (rule py_eq_refl) (simp_all add: COVERAGE_def)
  moreover have "must_equal code (Inr (JInt 1)) (Inr (JInt 1)) = Inr ()" for code by (simp add: must_equal_Inr)
  moreover have "must_equal code (Inr (JArr [jstr ''unsigned_manifest''])) (Inr (JArr [jstr ''unsigned_manifest''])) = Inr ()" for code
    by (simp add: must_equal_def)
  moreover have "has_key demo_ring ''client_key_ref'' = Inr True" "has_key demo_ring ''client_signature_algorithm'' = Inr True"
    by (rule field_has_key, simp)+
  moreover have "derive_client_key_ref demo_env (co_project_ref demo_co_context) (JStr (co_client_algorithm demo_co_context))
      (co_client_public_key demo_co_context) = Inr ckr"
    using demo_key_ref by (simp add: demo_co_context_def)
  moreover have "check_g1_cross_bound_params (demo_envelope s) demo_manifest g1_params = Inr ()" for s
    by (simp add: check_g1_cross_bound_params_def)
  ultimately show ?thesis
    by (simp add: validate_client_preparation_context_def demo_g1s demo_prepare_semantics demo_streams demo_projections
        demo_claims_and_audit demo_pins demo_issuer_signature recast_def)
qed

lemma demo_prepared: "\<exists>p. prepare_client_co_attestation demo_env (demo_envelope response_signatures) demo_co_context = Inr p"
proof -
  have response: "demo_envelope response_signatures = demo_response" by (simp add: response_signatures_def)
  obtain m where "client_material (utf8 (canon demo_response)) = Inr m" using demo_materials(2) co_free_demo by auto
  moreover have "canonical_text demo_response = Some (canon demo_response)" "role_digest demo_env CLIENT_CERTIFICATE_DOMAIN demo_response = Inr dig"
    using good_text demo_digests(4) good_co_free unfolding co_free_demo by blast+
  ultimately have "\<exists>p. prepare_client_projection demo_env (demo_envelope response_signatures) = Inr p"
    unfolding prepare_client_projection_def by (simp add: response co_free_demo(2) recast_def)
  moreover have "preflight_client_projection (demo_envelope response_signatures) = Inr ()"
    using response_small by (simp add: response preflight_iff) (simp add: demo_envelope_def)
  moreover have "check_preparation_schema demo_env (demo_envelope response_signatures) = Inr ()"
    by (simp add: check_preparation_schema_def demo_env_def)
  ultimately show ?thesis using demo_preparation by (auto simp: prepare_client_co_attestation_def recast_def)
qed

section \<open>Witnesses\<close>

theorem preflight_bounds_canonical_witness:
  "\<exists>s. canonical_text demo_response = Some s \<and> length (utf8 s) \<le> 524288"
proof -
  have p: "preflight_client_projection demo_response = Inr ()"
    using response_small by (simp add: preflight_iff) (simp add: demo_envelope_def)
  have g: "good 100 demo_response" using good_co_free unfolding co_free_demo .
  then have "parsed demo_response" by (simp add: good_def fine_def)
  from preflight_bounds_canonical [OF p this] good_text [OF g] show ?thesis by blast
qed

theorem prepare_codes_witness:
  "prepare_client_co_attestation demo_env JNull demo_co_context = Inl (Failed ''CO_PROJECTION'') \<and>
   ''CO_PROJECTION'' \<in> set CLIENT_CO_ATTESTATION_ERROR_CODES"
proof -
  have e: "prepare_client_co_attestation demo_env JNull demo_co_context = Inl (Failed ''CO_PROJECTION'')"
    by (simp add: prepare_client_co_attestation_def preflight_client_projection_def CO_FAIL_def)
  have "parsed JNull" by (simp add: parsed_def)
  from prepare_codes [OF this e] e show ?thesis by blast
qed

theorem prepared_is_pinned_witness:
  "\<exists>p m message. prepare_client_co_attestation demo_env (demo_envelope response_signatures) demo_co_context = Inr p \<and>
     path_to m [''freshness'', ''nonce''] = Inr (jstr ''n'') \<and>
     issuer_message demo_env (demo_envelope response_signatures) = Inr message"
proof -
  obtain p where p: "prepare_client_co_attestation demo_env (demo_envelope response_signatures) demo_co_context = Inr p"
    using demo_prepared by blast
  obtain m message where "path_to m [''freshness'', ''nonce''] = Inr (JStr (co_nonce demo_co_context))"
    "issuer_message demo_env (demo_envelope response_signatures) = Inr message"
    using prepared_is_pinned [OF p] by blast
  then show ?thesis using p by (auto simp: demo_co_context_def)
qed

theorem prepared_signature_completes_witness:
  "\<exists>final sigs. field final ''signatures'' = Inr sigs \<and>
     verify_co_attestation demo_env final sigs demo_manifest demo_context = Inr ()"
proof -
  obtain p where p: "prepare_client_co_attestation demo_env (demo_envelope response_signatures) demo_co_context = Inr p"
    using demo_prepared by blast
  let ?final = "attach_co (demo_envelope response_signatures) (co_attestation_block demo_co_context ckr p (replicate 64 1))"
  have "is_dict (demo_envelope response_signatures)" by (simp add: demo_envelope_def)
  then obtain sigs where sigs: "field ?final ''signatures'' = Inr sigs" by (simp add: field_attach dict_members)
  have key: "derive_client_key_ref demo_env (co_project_ref demo_co_context) (JStr (co_client_algorithm demo_co_context))
      (co_client_public_key demo_co_context) = Inr ckr"
    using demo_key_ref by (simp add: demo_co_context_def)
  have "verify_signature demo_env (co_client_public_key demo_co_context) (JStr (co_client_algorithm demo_co_context))
      (signing_bytes p) (JStr (std_b64 (replicate 64 1))) = Inr ()"
    using demo_verified [of "[1]" "signing_bytes p"] by (simp add: demo_co_context_def demo_signature_def)
  then have "verify_co_attestation demo_env ?final sigs demo_manifest demo_context = Inr ()"
    by (intro prepared_signature_completes [OF p key _ _ _ _ _ _ _ _ refl sigs, where sigs = response_signatures])
      (simp_all add: demo_co_context_def demo_context_def)
  with sigs show ?thesis by blast
qed

end
