(* ===== verification/CommitmentLinkage.thy ===== *)
theory CommitmentLinkage
  imports RelyingMaterials
begin

text \<open>
  The commitment-linkage sidecar, \<open>certification/commitment_linkage.py\<close>: the commitment to a
  fingerprint, the offline verification of a sidecar, and opening one commitment of a verified one.
  \<open>Failed code\<close> is here \<open>CommitmentLinkageError(code)\<close>; the errors of the functions shared with
  the relying-party verifier are recast where the source catches them.
\<close>

definition COMMITMENT_DOMAIN :: "byte list" where "COMMITMENT_DOMAIN = utf8 (U ''traigent.commitment-linkage.v1'')"
definition UNSIGNED_LINKAGE_DOMAIN :: "byte list" where
  "UNSIGNED_LINKAGE_DOMAIN = utf8 (U ''traigent.commitment_linkage.unsigned.v1'')"
definition ISSUER_SIGNATURE_DOMAIN :: "byte list" where
  "ISSUER_SIGNATURE_DOMAIN = utf8 (U ''traigent.commitment_linkage.issuer_signature.v1'')"
definition FP_SCHEMA :: "byte list" where "FP_SCHEMA = utf8 (U ''fp1'')"
definition OPENING_BYTES :: nat where "OPENING_BYTES = 32"

definition COMMITMENT_LINKAGE_ERROR_CODES :: "string list" where
  "COMMITMENT_LINKAGE_ERROR_CODES =
     [''CONTEXT'', ''ENVELOPE_SHAPE'', ''SCHEMA'', ''CANONICALIZATION'', ''UNSIGNED_LINKAGE_DIGEST_MISMATCH'', ''KEY_MISMATCH'',
      ''KEY_MATERIAL'', ''SIGNATURE_INVALID'', ''RECORD_BINDING_MISMATCH'', ''SCOPE_MISMATCH'', ''DUPLICATE_ROLE'',
      ''OPENING_SHAPE'', ''FINGERPRINT_SHAPE'', ''ROLE_SHAPE'', ''VERIFICATION_FAILED'']"

definition ROLES :: "string list" where
  "ROLES = [''agent'', ''dataset'', ''config_space'', ''evaluator:primary'', ''evaluator:r0'', ''evaluator:r1'', ''evaluator:r2'',
     ''evaluator:r3'', ''evaluator:r4'', ''evaluator:r5'', ''evaluator:r6'', ''evaluator:r7'']"

definition BASES :: "string list" where
  "BASES = [''source_text'', ''name_only'', ''endpoint_only'', ''order_free_multiset'', ''config_space'', ''unavailable'']"

section \<open>Commitments\<close>

definition lp :: "byte list \<Rightarrow> byte list" where
  "lp x = i2osp (length x) 8 @ x"

definition commitment_preimage :: "ustr \<Rightarrow> ustr \<Rightarrow> ustr \<Rightarrow> byte list \<Rightarrow> byte list" where
  "commitment_preimage role basis fp_digest opening =
     lp COMMITMENT_DOMAIN @ lp (utf8 role) @ lp (utf8 basis) @ lp FP_SCHEMA @ lp (utf8 fp_digest) @ lp opening"

definition compute_commitment :: "cert_env \<Rightarrow> ustr \<Rightarrow> ustr \<Rightarrow> ustr \<Rightarrow> byte list \<Rightarrow> cert_error + ustr" where
  "compute_commitment env role basis fp_digest opening =
     rbind (in_turn
       [fail_if (\<not> one_of ROLES role) ''ROLE_SHAPE'',
        fail_if (\<not> one_of BASES basis \<or> basis = U ''unavailable'') ''ROLE_SHAPE'',
        fail_if (\<not> is_sha256_ref fp_digest) ''FINGERPRINT_SHAPE'',
        fail_if (length opening \<noteq> OPENING_BYTES) ''OPENING_SHAPE'']) (\<lambda>_.
       Inr (SHA256_PREFIX @ hexdigest (hash env (commitment_preimage role basis fp_digest opening))))"

section \<open>Context\<close>

record linkage_issuer_key =
  lk_key_ref :: ustr
  lk_trust_ring_ref :: ustr
  lk_algorithm :: ustr
  lk_public_key_der_b64 :: ustr
  lk_public_key_digest :: ustr

record linkage_context =
  expected_process_record_digest :: ustr
  linkage_project_ref :: ustr
  linkage_build_session_ref :: ustr
  issuer_key :: linkage_issuer_key

definition check_issuer_key_context :: "linkage_issuer_key \<Rightarrow> cert_error + unit" where
  "check_issuer_key_context key =
     in_turn
       [fail_if (\<not> is_ref (lk_key_ref key)) ''CONTEXT'', fail_if (\<not> is_ref (lk_trust_ring_ref key)) ''CONTEXT'',
        fail_if (lk_algorithm key \<noteq> U ''ed25519'' \<and> lk_algorithm key \<noteq> U ''ecdsa_p256_sha256'') ''CONTEXT'',
        fail_if (lk_public_key_der_b64 key = []) ''CONTEXT'',
        fail_if (\<not> is_sha256_ref (lk_public_key_digest key)) ''CONTEXT'']"

text \<open>\<open>__post_init__\<close>.\<close>

definition check_linkage_context :: "linkage_context \<Rightarrow> cert_error + unit" where
  "check_linkage_context ctx =
     in_turn
       [fail_if (\<not> is_sha256_ref (expected_process_record_digest ctx)) ''CONTEXT'',
        fail_if (\<not> is_project_ref (linkage_project_ref ctx)) ''CONTEXT'',
        fail_if (\<not> is_ref (linkage_build_session_ref ctx)) ''CONTEXT'',
        check_issuer_key_context (issuer_key ctx)]"

section \<open>Verification\<close>

record verified_linkage =
  process_record_digest :: json
  unsigned_linkage_digest :: ustr
  linkage_entries :: "(json \<times> json \<times> json) list" \<comment> \<open>role, basis, commitment or \<open>None\<close>\<close>

definition linkage_role_digest :: "cert_env \<Rightarrow> byte list \<Rightarrow> json \<Rightarrow> cert_error + ustr" where
  "linkage_role_digest env domain projection =
     (case canonical_text projection of
        None \<Rightarrow> Inl (Failed ''CANONICALIZATION'')
      | Some text \<Rightarrow> Inr (SHA256_PREFIX @ hexdigest (hash env (domain @ 0 # utf8 text))))"

definition is_ascii :: "ustr \<Rightarrow> bool" where
  "is_ascii s \<longleftrightarrow> list_all (\<lambda>c. c < 128) s"

definition check_linkage_signature :: "cert_env \<Rightarrow> json \<Rightarrow> json \<Rightarrow> linkage_issuer_key \<Rightarrow> cert_error + unit" where
  "check_linkage_signature env unsigned_linkage signature key =
     rbind (in_turn
       [must_equal ''KEY_MISMATCH'' (field signature ''issuer_key_ref'') (Inr (JStr (lk_key_ref key))),
        must_equal ''KEY_MISMATCH'' (field signature ''trust_ring_ref'') (Inr (JStr (lk_trust_ring_ref key))),
        must_equal ''KEY_MISMATCH'' (field signature ''algorithm'') (Inr (JStr (lk_algorithm key))),
        fail_if (\<not> (is_ascii (lk_public_key_der_b64 key) \<and> is_ascii (lk_public_key_digest key))) ''KEY_MATERIAL'']) (\<lambda>_.
     rbind (recast is_failed ''KEY_MATERIAL''
              (material_public_key env
                 (JObj [(U ''public_key_der_b64'', JStr (lk_public_key_der_b64 key)),
                        (U ''public_key_digest'', JStr (lk_public_key_digest key)), (U ''algorithm'', JStr (lk_algorithm key))])
                 ISSUER_SPKI_DOMAIN)) (\<lambda>public_key.
     rbind (case canonical_text unsigned_linkage of None \<Rightarrow> Inl (Failed ''CANONICALIZATION'') | Some text \<Rightarrow> Inr (utf8 text))
       (\<lambda>canonical.
     rbind (field signature ''algorithm'') (\<lambda>algorithm.
     rbind (field signature ''signature'') (\<lambda>encoded.
       recast is_failed ''SIGNATURE_INVALID''
         (verify_signature env public_key algorithm (ISSUER_SIGNATURE_DOMAIN @ 0 # canonical) encoded))))))"

definition linkage_entry :: "json \<Rightarrow> cert_error + json \<times> json \<times> json" where
  "linkage_entry entry =
     rbind (field entry ''role'') (\<lambda>role.
     rbind (field entry ''basis'') (\<lambda>basis.
     rbind (get_item entry ''commitment'') (\<lambda>commitment. Inr (role, basis, commitment))))"

definition known_role :: "json \<Rightarrow> bool" where
  "known_role t = (case t of JStr s \<Rightarrow> one_of ROLES s | _ \<Rightarrow> False)"

definition verify_linkage_steps :: "cert_env \<Rightarrow> json \<Rightarrow> linkage_context \<Rightarrow> cert_error + verified_linkage" where
  "verify_linkage_steps env envelope ctx =
     rbind (fail_if (schema env LinkageSchema envelope \<noteq> Conforms) ''SCHEMA'') (\<lambda>_.
     rbind (field envelope ''unsigned_linkage'') (\<lambda>unsigned_linkage.
     rbind (field envelope ''signature'') (\<lambda>signature.
     rbind (rbind (field unsigned_linkage ''entries'') iterate) (\<lambda>entries.
     rbind (traverse (\<lambda>entry. field entry ''role'') entries) (\<lambda>roles.
     rbind (fail_if (\<not> list_all known_role roles) ''ROLE_SHAPE'') (\<lambda>_.
     rbind (fail_if (\<not> distinct roles) ''DUPLICATE_ROLE'') (\<lambda>_.
     rbind (linkage_role_digest env UNSIGNED_LINKAGE_DOMAIN unsigned_linkage) (\<lambda>dgst.
     rbind (must_equal ''UNSIGNED_LINKAGE_DIGEST_MISMATCH'' (field signature ''unsigned_linkage_digest'') (Inr (JStr dgst))) (\<lambda>_.
     rbind (check_linkage_signature env unsigned_linkage signature (issuer_key ctx)) (\<lambda>_.
     rbind (in_turn
       [must_equal ''RECORD_BINDING_MISMATCH'' (field unsigned_linkage ''process_record_digest'')
          (Inr (JStr (expected_process_record_digest ctx))),
        must_equal ''SCOPE_MISMATCH'' (field unsigned_linkage ''project_ref'') (Inr (JStr (linkage_project_ref ctx))),
        must_equal ''SCOPE_MISMATCH'' (field unsigned_linkage ''build_session_ref'') (Inr (JStr (linkage_build_session_ref ctx)))])
       (\<lambda>_.
     rbind (field unsigned_linkage ''process_record_digest'') (\<lambda>record.
     rbind (traverse linkage_entry entries) (\<lambda>rows.
       Inr \<lparr>process_record_digest = record, unsigned_linkage_digest = dgst, linkage_entries = rows\<rparr>)))))))))))))"

definition verify_commitment_linkage :: "cert_env \<Rightarrow> json \<Rightarrow> linkage_context \<Rightarrow> cert_error + verified_linkage" where
  "verify_commitment_linkage env envelope ctx =
     rbind (fail_if (\<not> is_dict envelope) ''ENVELOPE_SHAPE'') (\<lambda>_.
       recast (\<lambda>e. \<not> is_failed e) ''VERIFICATION_FAILED'' (verify_linkage_steps env envelope ctx))"

section \<open>Opening\<close>

datatype opened = Match | Mismatch | Unavailable

text \<open>\<open>commitment.encode("ascii")\<close>.\<close>

definition ascii_bytes :: "json \<Rightarrow> cert_error + ustr" where
  "ascii_bytes t = (case t of JStr s \<Rightarrow> if is_ascii s then Inr s else Inl PyValueErr | _ \<Rightarrow> Inl OtherErr)"

definition open_entry :: "cert_env \<Rightarrow> ustr \<Rightarrow> json \<Rightarrow> json \<Rightarrow> ustr \<Rightarrow> byte list \<Rightarrow> cert_error + opened" where
  "open_entry env role basis commitment fp_digest opening =
     (if py_eq basis (jstr ''unavailable'') \<or> commitment = JNull then Inr Unavailable
      else
        rbind (case basis of JStr b \<Rightarrow> compute_commitment env role b fp_digest opening | _ \<Rightarrow> Inl (Failed ''ROLE_SHAPE'')) (\<lambda>expected.
        rbind (ascii_bytes commitment) (\<lambda>actual.
          Inr (if expected = actual then Match else Mismatch))))"

fun open_entries ::
  "cert_env \<Rightarrow> (json \<times> json \<times> json) list \<Rightarrow> ustr \<Rightarrow> ustr \<Rightarrow> byte list \<Rightarrow> cert_error + opened" where
  "open_entries env [] role fp_digest opening = Inr Unavailable"
| "open_entries env ((entry_role, basis, commitment) # rest) role fp_digest opening =
     (if \<not> py_eq entry_role (JStr role) then open_entries env rest role fp_digest opening
      else open_entry env role basis commitment fp_digest opening)"

definition open_commitment :: "cert_env \<Rightarrow> verified_linkage \<Rightarrow> ustr \<Rightarrow> ustr \<Rightarrow> byte list \<Rightarrow> cert_error + opened" where
  "open_commitment env linkage role fp_digest opening =
     rbind (in_turn
       [fail_if (\<not> one_of ROLES role) ''ROLE_SHAPE'', fail_if (\<not> is_sha256_ref fp_digest) ''FINGERPRINT_SHAPE'',
        fail_if (length opening \<noteq> OPENING_BYTES) ''OPENING_SHAPE'']) (\<lambda>_.
       open_entries env (linkage_entries linkage) role fp_digest opening)"

definition verify_and_open_commitment ::
  "cert_env \<Rightarrow> json \<Rightarrow> linkage_context \<Rightarrow> ustr \<Rightarrow> ustr \<Rightarrow> byte list \<Rightarrow> cert_error + opened" where
  "verify_and_open_commitment env envelope ctx role fp_digest opening =
     rbind (verify_commitment_linkage env envelope ctx) (\<lambda>linkage. open_commitment env linkage role fp_digest opening)"

section \<open>Lemmas\<close>

lemma lp_fields: "commitment_preimage role basis fp opening =
  concat (map (\<lambda>f. i2osp (length f) 8 @ f) [COMMITMENT_DOMAIN, utf8 role, utf8 basis, FP_SCHEMA, utf8 fp, opening])"
  by (simp add: commitment_preimage_def lp_def)

lemma compute_Inr:
  "compute_commitment env role basis fp opening = Inr c \<longleftrightarrow>
   one_of ROLES role \<and> one_of BASES basis \<and> basis \<noteq> U ''unavailable'' \<and> is_sha256_ref fp \<and> length opening = OPENING_BYTES \<and>
   c = SHA256_PREFIX @ hexdigest (hash env (commitment_preimage role basis fp opening))"
  by (auto simp: compute_commitment_def rbind_Inr_iff)

lemma role_ascii: "one_of ROLES s \<Longrightarrow> (\<forall>c \<in> set s. c < 128) \<and> length s < 2 ^ 64"
  by (auto simp: one_of_def ROLES_def U_Cons)

lemma basis_ascii: "one_of BASES s \<Longrightarrow> (\<forall>c \<in> set s. c < 128) \<and> length s < 2 ^ 64"
  by (auto simp: one_of_def BASES_def U_Cons)

lemma sha256_ref_ascii: "is_sha256_ref s \<Longrightarrow> (\<forall>c \<in> set s. c < 128) \<and> length s < 2 ^ 64"
proof -
  assume s: "is_sha256_ref s"
  have "\<forall>c \<in> set (take 7 s). c < 128" using s by (simp add: is_sha256_ref_def U_Cons)
  moreover have "\<forall>c \<in> set (drop 7 s). c < 128"
    using s by (auto simp: is_sha256_ref_def chars_of_def list_all_iff low_hex_def is_digit_def)
  ultimately have "\<forall>c \<in> set (take 7 s @ drop 7 s). c < 128" by (simp only: set_append) blast
  moreover have "length s \<le> 71" using s unfolding is_sha256_ref_def chars_of_def length_drop by linarith
  ultimately show ?thesis by simp
qed

lemma entry_roles:
  "traverse (\<lambda>entry. field entry ''role'') entries = Inr roles \<Longrightarrow> traverse linkage_entry entries = Inr rows \<Longrightarrow> map fst rows = roles"
  by (induction entries arbitrary: roles rows) (auto simp: rbind_Inr_iff linkage_entry_def)

section \<open>Properties\<close>

text \<open>
  C39: Equal commitments come from equal role, basis, fingerprint and opening, or from a
  collision of SHA-256 on two different preimages.
\<close>

theorem commitment_binds:
  assumes "compute_commitment env role basis fp opening = Inr c" "compute_commitment env role' basis' fp' opening' = Inr c"
  shows "role = role' \<and> basis = basis' \<and> fp = fp' \<and> opening = opening' \<or>
    (commitment_preimage role basis fp opening \<noteq> commitment_preimage role' basis' fp' opening' \<and>
     hash env (commitment_preimage role basis fp opening) = hash env (commitment_preimage role' basis' fp' opening'))"
proof (cases "commitment_preimage role basis fp opening = commitment_preimage role' basis' fp' opening'")
  case True
  have ok: "\<forall>p \<in> set [COMMITMENT_DOMAIN, utf8 r, utf8 b, FP_SCHEMA, utf8 f, x]. length p < 2 ^ 64"
    if c: "compute_commitment env r b f x = Inr c" for r b f x
  proof -
    have short: "length (utf8 s) < 2 ^ 64" if "(\<forall>c \<in> set s. c < 128) \<and> length s < 2 ^ 64" for s
      using that utf8_less_128 [of s] by simp
    have "length (utf8 r) < 2 ^ 64" "length (utf8 b) < 2 ^ 64" "length (utf8 f) < 2 ^ 64"
      using c role_ascii basis_ascii sha256_ref_ascii unfolding compute_Inr by (blast intro: short)+
    moreover have "length x < 2 ^ 64" using c by (simp add: compute_Inr OPENING_BYTES_def)
    ultimately show ?thesis by (simp add: COMMITMENT_DOMAIN_def FP_SCHEMA_def utf8_def U_Cons utf8_cp_def)
  qed
  have "[COMMITMENT_DOMAIN, utf8 role, utf8 basis, FP_SCHEMA, utf8 fp, opening] =
      [COMMITMENT_DOMAIN, utf8 role', utf8 basis', FP_SCHEMA, utf8 fp', opening']"
    by (rule prefixed_concat_inject [OF True [unfolded lp_fields] _ ok [OF assms(1)] ok [OF assms(2)]]) simp
  then have u: "utf8 role = utf8 role'" "utf8 basis = utf8 basis'" "utf8 fp = utf8 fp'" "opening = opening'" by simp_all
  have ascii: "s = t" if "utf8 s = utf8 t" "\<forall>c \<in> set s. c < 128" "\<forall>c \<in> set t. c < 128" for s t
    by (rule utf8_inject [OF _ _ that(1)]) (use that in \<open>auto simp: valid_cp_def\<close>)
  have "role = role'" "basis = basis'" "fp = fp'"
    using assms role_ascii basis_ascii sha256_ref_ascii unfolding compute_Inr by (blast intro: ascii [OF u(1)] ascii [OF u(2)] ascii [OF u(3)])+
  with u(4) show ?thesis by blast
next
  case False
  then show ?thesis using assms by (simp add: compute_Inr)
qed

lemma linkage_steps_facts:
  assumes "verify_commitment_linkage env envelope ctx = Inr linkage"
  obtains unsigned_linkage signature entries roles where
    "field envelope ''unsigned_linkage'' = Inr unsigned_linkage" "field envelope ''signature'' = Inr signature"
    "rbind (field unsigned_linkage ''entries'') iterate = Inr entries"
    "traverse (\<lambda>entry. field entry ''role'') entries = Inr roles" "list_all known_role roles" "distinct roles"
    "linkage_role_digest env UNSIGNED_LINKAGE_DOMAIN unsigned_linkage = Inr (unsigned_linkage_digest linkage)"
    "check_linkage_signature env unsigned_linkage signature (issuer_key ctx) = Inr ()"
    "field unsigned_linkage ''process_record_digest'' = Inr (JStr (expected_process_record_digest ctx))"
    "field unsigned_linkage ''project_ref'' = Inr (JStr (linkage_project_ref ctx))"
    "field unsigned_linkage ''build_session_ref'' = Inr (JStr (linkage_build_session_ref ctx))"
    "process_record_digest linkage = JStr (expected_process_record_digest ctx)"
    "traverse linkage_entry entries = Inr (linkage_entries linkage)"
  using assms unfolding verify_commitment_linkage_def verify_linkage_steps_def rbind_Inr_iff recast_Inr
  by (auto simp: must_equal_to_JStr rbind_Inr_iff)

lemma linkage_signature_facts:
  assumes "check_linkage_signature env u signature key = Inr ()"
  obtains der public_key s encoded where
    "lk_public_key_der_b64 key = std_b64 der" "load_der env der = Some public_key" "spki_of public_key = Some der"
    "canonical_text u = Some s" "field signature ''issuer_key_ref'' = Inr (JStr (lk_key_ref key))"
    "field signature ''signature'' = Inr encoded"
    "verify_signature env public_key (JStr (lk_algorithm key)) (ISSUER_SIGNATURE_DOMAIN @ 0 # utf8 s) encoded = Inr ()"
proof -
  obtain public_key s encoded where f: "field signature ''issuer_key_ref'' = Inr (JStr (lk_key_ref key))"
    "material_public_key env
                 (JObj [(U ''public_key_der_b64'', JStr (lk_public_key_der_b64 key)),
                        (U ''public_key_digest'', JStr (lk_public_key_digest key)), (U ''algorithm'', JStr (lk_algorithm key))])
                 ISSUER_SPKI_DOMAIN = Inr public_key"
    "canonical_text u = Some s" "field signature ''algorithm'' = Inr (JStr (lk_algorithm key))" "field signature ''signature'' = Inr encoded"
    "verify_signature env public_key (JStr (lk_algorithm key)) (ISSUER_SIGNATURE_DOMAIN @ 0 # utf8 s) encoded = Inr ()"
    using assms unfolding check_linkage_signature_def rbind_Inr_iff recast_Inr in_turn_Inr only_Some
    by (auto simp: must_equal_to_JStr split: option.splits)
  obtain der where "JStr (lk_public_key_der_b64 key) = JStr (std_b64 der)" "load_der env der = Some public_key" "spki_of public_key = Some der"
    by (rule material_key_facts [OF f(2)]) simp
  then show ?thesis using that f by blast
qed

text \<open>
  C38: A verified sidecar has canonical text signed under the pinned issuer key; record digest,
  project and session are the pinned ones, and its entries have distinct known roles.
\<close>

theorem verified_linkage_is_signed:
  assumes "verify_commitment_linkage env envelope ctx = Inr linkage"
  shows "\<exists>u s der public_key encoded entries. field envelope ''unsigned_linkage'' = Inr u \<and> canonical_text u = Some s \<and>
    lk_public_key_der_b64 (issuer_key ctx) = std_b64 der \<and> load_der env der = Some public_key \<and> spki_of public_key = Some der \<and>
    path_to envelope [''signature'', ''signature''] = Inr encoded \<and>
    verify_signature env public_key (JStr (lk_algorithm (issuer_key ctx))) (ISSUER_SIGNATURE_DOMAIN @ 0 # utf8 s) encoded = Inr () \<and>
    field u ''process_record_digest'' = Inr (JStr (expected_process_record_digest ctx)) \<and>
    field u ''project_ref'' = Inr (JStr (linkage_project_ref ctx)) \<and>
    field u ''build_session_ref'' = Inr (JStr (linkage_build_session_ref ctx)) \<and>
    rbind (field u ''entries'') iterate = Inr entries \<and> traverse linkage_entry entries = Inr (linkage_entries linkage) \<and>
    distinct (map fst (linkage_entries linkage)) \<and> list_all (\<lambda>e. known_role (fst e)) (linkage_entries linkage)"
proof -
  obtain u signature entries roles where f: "field envelope ''unsigned_linkage'' = Inr u" "field envelope ''signature'' = Inr signature"
    "rbind (field u ''entries'') iterate = Inr entries" "traverse (\<lambda>entry. field entry ''role'') entries = Inr roles"
    "list_all known_role roles" "distinct roles"
    "linkage_role_digest env UNSIGNED_LINKAGE_DOMAIN u = Inr (unsigned_linkage_digest linkage)"
    "check_linkage_signature env u signature (issuer_key ctx) = Inr ()"
    "field u ''process_record_digest'' = Inr (JStr (expected_process_record_digest ctx))"
    "field u ''project_ref'' = Inr (JStr (linkage_project_ref ctx))"
    "field u ''build_session_ref'' = Inr (JStr (linkage_build_session_ref ctx))"
    "process_record_digest linkage = JStr (expected_process_record_digest ctx)"
    "traverse linkage_entry entries = Inr (linkage_entries linkage)"
    by (rule linkage_steps_facts [OF assms]) (rule that)
  obtain der public_key s encoded where k: "lk_public_key_der_b64 (issuer_key ctx) = std_b64 der" "load_der env der = Some public_key"
    "spki_of public_key = Some der" "canonical_text u = Some s"
    "field signature ''issuer_key_ref'' = Inr (JStr (lk_key_ref (issuer_key ctx)))" "field signature ''signature'' = Inr encoded"
    "verify_signature env public_key (JStr (lk_algorithm (issuer_key ctx))) (ISSUER_SIGNATURE_DOMAIN @ 0 # utf8 s) encoded = Inr ()"
    by (rule linkage_signature_facts [OF f(8)]) (rule that)
  have "map fst (linkage_entries linkage) = roles" using entry_roles f(4,13) .
  then have "distinct (map fst (linkage_entries linkage))" "list_all known_role (map fst (linkage_entries linkage))"
    using f(5,6) by simp_all
  then have "distinct (map fst (linkage_entries linkage))" "list_all (\<lambda>e. known_role (fst e)) (linkage_entries linkage)"
    by (simp_all add: list.pred_map comp_def)
  moreover have "path_to envelope [''signature'', ''signature''] = Inr encoded" using f(2) k(6) by simp
  ultimately show ?thesis using f(1,3,9-11,13) k(1-4,7)
    by (intro exI [of _ u] exI [of _ s] exI [of _ der] exI [of _ public_key] exI [of _ encoded] exI [of _ entries])
      (simp del: path_to.simps)
qed

text \<open>Opening finds the one entry of the role.\<close>

lemma open_entries_char:
  assumes "distinct (map fst es)"
  shows "open_entries env es role fp opening =
    (case map_of es (JStr role) of None \<Rightarrow> Inr Unavailable | Some (basis, commitment) \<Rightarrow> open_entry env role basis commitment fp opening)"
  using assms by (induction es) auto

text \<open>
  Opening reports a match exactly if the verified sidecar has an entry of that role whose
  commitment is what the commitment function gives for the supplied fingerprint and opening.
\<close>

theorem opened_match_iff:
  assumes "verify_commitment_linkage env envelope ctx = Inr linkage"
  shows "verify_and_open_commitment env envelope ctx role fp opening = Inr Match \<longleftrightarrow>
    (\<exists>basis c. (JStr role, JStr basis, JStr c) \<in> set (linkage_entries linkage) \<and> compute_commitment env role basis fp opening = Inr c)"
proof -
  have d: "distinct (map fst (linkage_entries linkage))"
  proof -
    obtain entries roles where f: "traverse (\<lambda>entry. field entry ''role'') entries = Inr roles" "distinct roles"
      "traverse linkage_entry entries = Inr (linkage_entries linkage)"
      using linkage_steps_facts [OF assms] by metis
    have "map fst (linkage_entries linkage) = roles" using entry_roles f(1,3) .
    with f(2) show ?thesis by simp
  qed
  have ascii: "is_ascii c" if "compute_commitment env role b fp opening = Inr c" for b c
  proof -
    have "list_all (\<lambda>c. c < 128) (hexdigest bs)" for bs
      using hexdigest_hex [of bs] by (rule list.pred_mono_strong) (auto simp: is_hex_def is_digit_def)
    then show ?thesis using that by (auto simp: compute_Inr is_ascii_def SHA256_PREFIX_def U_Cons)
  qed
  have entry: "open_entry env role basis commitment fp opening = Inr Match \<longleftrightarrow>
      (\<exists>b c. basis = JStr b \<and> commitment = JStr c \<and> compute_commitment env role b fp opening = Inr c)" for basis commitment
  proof (cases "py_eq basis (jstr ''unavailable'') \<or> commitment = JNull")
    case True
    then show ?thesis by (auto simp: open_entry_def compute_Inr)
  next
    case False
    then show ?thesis using ascii
      by (cases basis; cases commitment) (auto simp: open_entry_def rbind_Inr_iff ascii_bytes_def split: if_splits)
  qed
  have "verify_and_open_commitment env envelope ctx role fp opening = Inr Match \<longleftrightarrow>
      one_of ROLES role \<and> is_sha256_ref fp \<and> length opening = OPENING_BYTES \<and>
      (\<exists>basis commitment. map_of (linkage_entries linkage) (JStr role) = Some (basis, commitment) \<and>
         open_entry env role basis commitment fp opening = Inr Match)"
    unfolding verify_and_open_commitment_def open_commitment_def
    by (auto simp: assms rbind_Inr_iff open_entries_char [OF d] split: option.splits)
  also have "\<dots> \<longleftrightarrow> (\<exists>basis c. (JStr role, JStr basis, JStr c) \<in> set (linkage_entries linkage) \<and> compute_commitment env role basis fp opening = Inr c)"
    unfolding entry map_of_eq_Some_iff [OF d] by (auto simp: compute_Inr)
  finally show ?thesis .
qed

text \<open>Codes.\<close>

definition linkage_code :: "cert_error \<Rightarrow> bool" where
  "linkage_code e \<longleftrightarrow> is_failed e \<longrightarrow> e \<in> Failed ` set COMMITMENT_LINKAGE_ERROR_CODES"

lemma linkage_code_simps [simp]: "linkage_code PyKeyErr" "linkage_code PyTypeErr" "linkage_code OtherErr" "linkage_code PyValueErr"
  "linkage_code SchemaDependency" "linkage_code (Failed code) \<longleftrightarrow> code \<in> set COMMITMENT_LINKAGE_ERROR_CODES"
  by (auto simp: linkage_code_def)

lemma linkage_access [errors_intros]:
  "errors_in linkage_code (subscript t k)" "errors_in linkage_code (iterate t)" "errors_in linkage_code (get_item t k')"
  by (rule access_errors [THEN errors_in_mono], auto simp: access_error_def)+

lemma linkage_recast: "code \<in> set COMMITMENT_LINKAGE_ERROR_CODES \<Longrightarrow> errors_in linkage_code (recast is_failed code r)"
  by (rule errors_in_recast) (auto simp: errors_in_def linkage_code_def)

lemma linkage_code_signature [errors_intros]: "errors_in linkage_code (check_linkage_signature env u signature key)"
  unfolding check_linkage_signature_def
  by (intro errors_intros linkage_recast) (simp_all add: COMMITMENT_LINKAGE_ERROR_CODES_def)

lemma linkage_code_digest [errors_intros]: "errors_in linkage_code (linkage_role_digest env domain t)"
  unfolding linkage_role_digest_def by (intro errors_intros) (simp add: COMMITMENT_LINKAGE_ERROR_CODES_def)

lemma linkage_code_entry [errors_intros]: "errors_in linkage_code (linkage_entry entry)"
  unfolding linkage_entry_def by (intro errors_intros)

theorem linkage_errors:
  "verify_commitment_linkage env envelope ctx = Inl e \<Longrightarrow> e \<in> Failed ` set COMMITMENT_LINKAGE_ERROR_CODES"
proof -
  assume e: "verify_commitment_linkage env envelope ctx = Inl e"
  have "errors_in linkage_code (verify_linkage_steps env envelope ctx)"
    unfolding verify_linkage_steps_def by (intro errors_intros) (simp_all add: COMMITMENT_LINKAGE_ERROR_CODES_def)
  then have "e = Failed ''ENVELOPE_SHAPE'' \<or> e = Failed ''VERIFICATION_FAILED'' \<or> is_failed e \<and> linkage_code e"
    using e by (cases "is_dict envelope") (auto simp: verify_commitment_linkage_def recast_Inl dest: errors_inD)
  then show ?thesis by (auto simp: linkage_code_def COMMITMENT_LINKAGE_ERROR_CODES_def)
qed

end
