(* ===== verification/LinkageDemo.thy ===== *)
theory LinkageDemo
  imports CommitmentLinkage RelyingDemo
begin

text \<open>A sidecar of one entry that the linkage verifier accepts, and the witnesses over it.\<close>

definition demo_commitment_entry :: json where
  "demo_commitment_entry = JObj [(U ''role'', jstr ''agent''), (U ''basis'', jstr ''source_text''), (U ''commitment'', JStr dig)]"

definition demo_unsigned_linkage :: json where
  "demo_unsigned_linkage = JObj [(U ''process_record_digest'', JStr dig), (U ''project_ref'', jstr ''p1''),
     (U ''build_session_ref'', jstr ''ses:abcdefgh''), (U ''entries'', JArr [demo_commitment_entry])]"

definition demo_linkage_signature :: json where
  "demo_linkage_signature = JObj [(U ''issuer_key_ref'', jstr ''key:abcdefgh''), (U ''trust_ring_ref'', jstr ''ring:abcdefgh''),
     (U ''algorithm'', jstr ''ed25519''), (U ''signature'', demo_signature), (U ''unsigned_linkage_digest'', JStr dig)]"

definition demo_sidecar :: json where
  "demo_sidecar = JObj [(U ''unsigned_linkage'', demo_unsigned_linkage), (U ''signature'', demo_linkage_signature)]"

definition demo_linkage_key :: linkage_issuer_key where
  "demo_linkage_key = \<lparr>lk_key_ref = U ''key:abcdefgh'', lk_trust_ring_ref = U ''ring:abcdefgh'', lk_algorithm = U ''ed25519'',
     lk_public_key_der_b64 = std_b64 [1], lk_public_key_digest = dig\<rparr>"

definition demo_linkage_context :: linkage_context where
  "demo_linkage_context = \<lparr>expected_process_record_digest = dig, linkage_project_ref = U ''p1'',
     linkage_build_session_ref = U ''ses:abcdefgh'', issuer_key = demo_linkage_key\<rparr>"

definition demo_linkage :: verified_linkage where
  "demo_linkage = \<lparr>process_record_digest = JStr dig, unsigned_linkage_digest = dig,
     linkage_entries = [(jstr ''agent'', jstr ''source_text'', JStr dig)]\<rparr>"

lemma dig_ref: "is_sha256_ref dig"
proof -
  have "hexdigest (replicate n 17) = replicate (2 * n) 49" for n
    by (induction n) (simp_all add: hexdigest_def hex_char_def)
  then show ?thesis
    by (simp add: is_sha256_ref_def dig_def SHA256_PREFIX_def U_Cons chars_of_def low_hex_def is_digit_def list_all_iff)
qed

lemma demo_commitment: "compute_commitment demo_env (U ''agent'') (U ''source_text'') dig (replicate 32 0) = Inr dig"
  using dig_ref by (simp add: compute_Inr one_of_def ROLES_def BASES_def OPENING_BYTES_def) (simp add: dig_def demo_env_def)

lemma sidecar_field [simp]:
  "field demo_sidecar ''unsigned_linkage'' = Inr demo_unsigned_linkage" "field demo_sidecar ''signature'' = Inr demo_linkage_signature"
  "is_dict demo_sidecar" "field demo_unsigned_linkage ''entries'' = Inr (JArr [demo_commitment_entry])"
  "field demo_unsigned_linkage ''process_record_digest'' = Inr (JStr dig)" "field demo_unsigned_linkage ''project_ref'' = Inr (jstr ''p1'')"
  "field demo_unsigned_linkage ''build_session_ref'' = Inr (jstr ''ses:abcdefgh'')"
  "field demo_linkage_signature ''issuer_key_ref'' = Inr (jstr ''key:abcdefgh'')"
  "field demo_linkage_signature ''trust_ring_ref'' = Inr (jstr ''ring:abcdefgh'')"
  "field demo_linkage_signature ''algorithm'' = Inr (jstr ''ed25519'')" "field demo_linkage_signature ''signature'' = Inr demo_signature"
  "field demo_linkage_signature ''unsigned_linkage_digest'' = Inr (JStr dig)"
  "field demo_commitment_entry ''role'' = Inr (jstr ''agent'')"
  "linkage_entry demo_commitment_entry = Inr (jstr ''agent'', jstr ''source_text'', JStr dig)"
  by (simp_all add: demo_sidecar_def demo_unsigned_linkage_def demo_linkage_signature_def demo_commitment_entry_def linkage_entry_def
      get_item_def member_or_def)

lemma good_unsigned_linkage: "canonical_text demo_unsigned_linkage = Some (canon demo_unsigned_linkage)"
  by (rule good_text) (simp add: demo_unsigned_linkage_def demo_commitment_entry_def good_rules)

lemma key_text_ascii: "is_ascii (std_b64 [1])"
proof -
  have "\<forall>n \<in> set (b64_vals [1]). n < 64" using b64_vals_small by (auto simp: list_all_iff)
  then show ?thesis using b64_char_ascii by (auto simp: is_ascii_def list_all_iff std_b64_def std_b64_char_def)
qed

lemma demo_linkage_signed: "check_linkage_signature demo_env demo_unsigned_linkage demo_linkage_signature demo_linkage_key = Inr ()"
proof -
  have "is_ascii dig" using sha256_ref_ascii [OF dig_ref] by (simp add: is_ascii_def list_all_iff)
  moreover have "material_public_key demo_env
     (JObj [(U ''public_key_der_b64'', JStr (std_b64 [1])), (U ''public_key_digest'', JStr dig), (U ''algorithm'', jstr ''ed25519'')])
     ISSUER_SPKI_DOMAIN = Inr (Ed25519Key [1])"
    by (simp add: material_public_key_def) (simp add: demo_env_def dig_def)
  ultimately show ?thesis using key_text_ascii
    by (simp add: check_linkage_signature_def good_unsigned_linkage demo_verified demo_linkage_key_def recast_def)
qed

lemma demo_linkage_accepted: "verify_commitment_linkage demo_env demo_sidecar demo_linkage_context = Inr demo_linkage"
proof -
  have "schema demo_env LinkageSchema demo_sidecar = Conforms" by (simp add: demo_env_def)
  moreover have "linkage_role_digest demo_env UNSIGNED_LINKAGE_DOMAIN demo_unsigned_linkage = Inr dig"
    by (simp add: linkage_role_digest_def good_unsigned_linkage dig_def demo_env_def)
  moreover have "known_role (jstr ''agent'')" by (simp add: known_role_def one_of_def ROLES_def)
  ultimately have "verify_linkage_steps demo_env demo_sidecar demo_linkage_context = Inr demo_linkage"
    using demo_linkage_signed
    by (simp add: verify_linkage_steps_def demo_linkage_context_def demo_linkage_def)
  then show ?thesis by (simp add: verify_commitment_linkage_def recast_def)
qed

section \<open>Witnesses\<close>

theorem commitment_binds_witness:
  "compute_commitment demo_env (U ''agent'') (U ''source_text'') dig (replicate 32 0) = Inr dig \<and>
   (U ''agent'' = U ''agent'' \<and> U ''source_text'' = U ''source_text'' \<and> dig = dig \<and> replicate 32 (0 :: nat) = replicate 32 0 \<or> False)"
  using commitment_binds [OF demo_commitment demo_commitment] demo_commitment by blast

theorem verified_linkage_is_signed_witness:
  "\<exists>s public_key encoded. canonical_text demo_unsigned_linkage = Some s \<and>
     path_to demo_sidecar [''signature'', ''signature''] = Inr encoded \<and>
     verify_signature demo_env public_key (jstr ''ed25519'') (ISSUER_SIGNATURE_DOMAIN @ 0 # utf8 s) encoded = Inr ()"
proof -
  from verified_linkage_is_signed [OF demo_linkage_accepted] obtain u s public_key encoded where
    "field demo_sidecar ''unsigned_linkage'' = Inr u" "canonical_text u = Some s"
    "path_to demo_sidecar [''signature'', ''signature''] = Inr encoded"
    "verify_signature demo_env public_key (JStr (lk_algorithm (issuer_key demo_linkage_context))) (ISSUER_SIGNATURE_DOMAIN @ 0 # utf8 s) encoded = Inr ()"
    by blast
  then show ?thesis by (auto simp: demo_linkage_context_def demo_linkage_key_def)
qed

theorem opened_match_iff_witness:
  "verify_and_open_commitment demo_env demo_sidecar demo_linkage_context (U ''agent'') dig (replicate 32 0) = Inr Match"
  unfolding opened_match_iff [OF demo_linkage_accepted] using demo_commitment by (auto simp: demo_linkage_def)

theorem linkage_errors_witness:
  "verify_commitment_linkage demo_env JNull demo_linkage_context = Inl (Failed ''ENVELOPE_SHAPE'') \<and>
   Failed ''ENVELOPE_SHAPE'' \<in> Failed ` set COMMITMENT_LINKAGE_ERROR_CODES"
proof -
  have "verify_commitment_linkage demo_env JNull demo_linkage_context = Inl (Failed ''ENVELOPE_SHAPE'')"
    by (simp add: verify_commitment_linkage_def)
  with linkage_errors [OF this] show ?thesis by blast
qed

end
