(* ===== verification/UtcTime.thy ===== *)
theory UtcTime
  imports CertCore
begin

text \<open>
  UTC timestamps of \<open>certification/process_record_verifier.py\<close>: the strict parser, with the ranges
  that \<open>datetime.datetime\<close> enforces, and microseconds since the epoch from the proleptic ordinal that
  \<open>datetime.date.toordinal\<close> documents.
\<close>

section \<open>Parsing\<close>

definition utc_shape :: "ustr \<Rightarrow> bool" where
  "utc_shape s \<longleftrightarrow>
     20 \<le> length s \<and> list_all (\<lambda>i. is_digit (s ! i)) [0, 1, 2, 3, 5, 6, 8, 9, 11, 12, 14, 15, 17, 18] \<and>
     map (\<lambda>i. s ! i) [4, 7, 10, 13, 16] = U ''--T::'' \<and>
     (let rest = drop 19 s in
      rest = U ''Z'' \<or> hd rest = 46 \<and> last rest = 90 \<and> chars_of is_digit 1 6 (butlast (tl rest)))"

definition number_at :: "ustr \<Rightarrow> nat \<Rightarrow> nat \<Rightarrow> nat" where
  "number_at s i n = digits_nat (map (\<lambda>c. c - 48) (take n (drop i s)))"

definition is_leap :: "nat \<Rightarrow> bool" where
  "is_leap y \<longleftrightarrow> y mod 4 = 0 \<and> (y mod 100 \<noteq> 0 \<or> y mod 400 = 0)"

definition days_in_month :: "nat \<Rightarrow> nat \<Rightarrow> nat" where
  "days_in_month y m = (if m = 2 then (if is_leap y then 29 else 28) else if m \<in> {4, 6, 9, 11} then 30 else 31)"

text \<open>\<open>datetime(...)\<close> does not raise; a year of four digits is at most 9999.\<close>

definition valid_instant :: "nat \<Rightarrow> nat \<Rightarrow> nat \<Rightarrow> nat \<Rightarrow> nat \<Rightarrow> nat \<Rightarrow> bool" where
  "valid_instant y mo d h mi s \<longleftrightarrow>
     1 \<le> y \<and> 1 \<le> mo \<and> mo \<le> 12 \<and> 1 \<le> d \<and> d \<le> days_in_month y mo \<and> h < 24 \<and> mi < 60 \<and> s < 60"

type_synonym utc_parts = "nat \<times> nat \<times> nat \<times> nat \<times> nat \<times> nat \<times> nat"

definition fraction_micros :: "ustr \<Rightarrow> nat" where
  "fraction_micros value =
     (if 46 \<in> set value
      then number_at (butlast (tl (dropWhile (\<lambda>c. c \<noteq> 46) value)) @ U ''000000'') 0 6
      else 0)"

definition parse_utc_timestamp :: "ustr \<Rightarrow> utc_parts option" where
  "parse_utc_timestamp value =
     (if \<not> utc_shape value then None
      else
        let y = number_at value 0 4; mo = number_at value 5 2; d = number_at value 8 2;
            h = number_at value 11 2; mi = number_at value 14 2; s = number_at value 17 2 in
        if valid_instant y mo d h mi s then Some (y, mo, d, h, mi, s, fraction_micros value) else None)"

section \<open>Microseconds since the epoch\<close>

definition days_before_year :: "nat \<Rightarrow> nat" where
  "days_before_year y = (let p = y - 1 in p * 365 + p div 4 - p div 100 + p div 400)"

definition days_before_month :: "nat \<Rightarrow> nat \<Rightarrow> nat" where
  "days_before_month y m = sum_list (map (days_in_month y) [1..<m])"

definition to_ordinal :: "nat \<Rightarrow> nat \<Rightarrow> nat \<Rightarrow> nat" where
  "to_ordinal y m d = days_before_year y + days_before_month y m + d"

definition EPOCH_ORDINAL :: nat where "EPOCH_ORDINAL = to_ordinal 1970 1 1"

definition utc_microseconds :: "ustr \<Rightarrow> cert_error + int" where
  "utc_microseconds value =
     (case parse_utc_timestamp value of
        None \<Rightarrow> Inl (Failed ''REVOCATION_STATUS_UNAVAILABLE'')
      | Some (y, mo, d, h, mi, s, us) \<Rightarrow>
          let days = int (to_ordinal y mo d) - int EPOCH_ORDINAL;
              seconds = days * 86400 + int h * 3600 + int mi * 60 + int s in
          Inr (seconds * 1000000 + int us))"

section \<open>Lemmas\<close>

definition year_length :: "nat \<Rightarrow> nat" where
  "year_length y = (if is_leap y then 366 else 365)"

lemma div_step: "0 < k \<Longrightarrow> Suc p div k = p div k + (if Suc p mod k = 0 then 1 else 0)" for k :: nat
  by (simp add: div_Suc mod_Suc)

lemma year_arith:
  fixes P :: nat
  assumes "A100 \<le> P" "B100 \<le> P + 365" "B4 = A4 + x" "B100 = A100 + u" "B400 = A400 + z" "u \<le> x"
  shows "(P + 365) + B4 - B100 + B400 = P + A4 - A100 + A400 + (365 + x + z - u)"
  using assms by linarith

lemma year_step: "1 \<le> y \<Longrightarrow> days_before_year (Suc y) = days_before_year y + year_length y"
proof -
  assume "1 \<le> y"
  then obtain p where p: "y = Suc p" by (cases y) auto
  define x where "x = (if Suc p mod 4 = 0 then 1 else 0 :: nat)"
  define u where "u = (if Suc p mod 100 = 0 then 1 else 0 :: nat)"
  define z where "z = (if Suc p mod 400 = 0 then 1 else 0 :: nat)"
  have steps: "Suc p div 4 = p div 4 + x" "Suc p div 100 = p div 100 + u" "Suc p div 400 = p div 400 + z"
    by (simp_all only: x_def u_def z_def div_step zero_less_numeral)
  have le: "p div 100 \<le> p * 365" "Suc p div 100 \<le> p * 365 + 365"
    by (rule order_trans [OF div_le_dividend], simp)+
  have "(4 :: nat) dvd 100" "(100 :: nat) dvd 400" by simp_all
  then have nested: "Suc p mod 100 = 0 \<Longrightarrow> Suc p mod 4 = 0" "Suc p mod 400 = 0 \<Longrightarrow> Suc p mod 100 = 0"
    unfolding mod_eq_0_iff_dvd using dvd_trans by blast+
  have ux: "u \<le> x" and len: "year_length y = 365 + x + z - u"
    using nested by (simp_all add: x_def u_def z_def year_length_def is_leap_def p split del: if_split) (auto split: if_splits)
  have "days_before_year (Suc y) = (p * 365 + 365) + Suc p div 4 - Suc p div 100 + Suc p div 400"
    unfolding days_before_year_def Let_def p by (simp only: diff_Suc_1 mult_Suc add.commute)
  moreover have "days_before_year y = p * 365 + p div 4 - p div 100 + p div 400"
    unfolding days_before_year_def Let_def p by (simp only: diff_Suc_1)
  ultimately show ?thesis using year_arith [OF le steps ux] len by simp
qed

lemma days_before_year_mono: "1 \<le> y \<Longrightarrow> y < y' \<Longrightarrow> days_before_year y + year_length y \<le> days_before_year y'"
proof (induction y')
  case (Suc n)
  show ?case
  proof (cases "y = n")
    case False
    with Suc have "days_before_year y + year_length y \<le> days_before_year n" by simp
    with Suc.prems show ?thesis using year_step [of n] by linarith
  qed (use Suc.prems year_step in simp)
qed simp

lemma month_step: "1 \<le> m \<Longrightarrow> days_before_month y (Suc m) = days_before_month y m + days_in_month y m"
  by (simp add: days_before_month_def)

lemma days_before_month_mono: "1 \<le> m \<Longrightarrow> m < m' \<Longrightarrow> days_before_month y m + days_in_month y m \<le> days_before_month y m'"
proof (induction m')
  case (Suc n)
  show ?case
  proof (cases "m = n")
    case False
    with Suc have "days_before_month y m + days_in_month y m \<le> days_before_month y n" by simp
    with Suc.prems show ?thesis using month_step [of n y] by linarith
  qed (use Suc.prems month_step in simp)
qed simp

lemma year_days: "days_before_month y 13 = year_length y"
  by (simp add: days_before_month_def upt_rec days_in_month_def year_length_def)

lemma day_in_year:
  assumes "1 \<le> m" "m \<le> 12" "1 \<le> d" "d \<le> days_in_month y m"
  shows "days_before_month y m + d \<le> year_length y"
  using days_before_month_mono [of m 13 y] assms by (simp add: year_days)

text \<open>Lexicographic order, and numbers whose digits are bounded.\<close>

fun earlier :: "nat list \<Rightarrow> nat list \<Rightarrow> bool" where
  "earlier (x # xs) (y # ys) = (x < y \<or> x = y \<and> earlier xs ys)"
| "earlier xs ys = False"

lemma earlier_cases: "length xs = length ys \<Longrightarrow> earlier xs ys \<or> xs = ys \<or> earlier ys xs"
  by (induction xs ys rule: list_induct2) auto

lemma ordinal_order:
  assumes v: "valid_instant y m d h mi s" "valid_instant y' m' d' h' mi' s'" and e: "earlier [y, m, d] [y', m', d']"
  shows "to_ordinal y m d < to_ordinal y' m' d'"
proof -
  have b: "1 \<le> y" "1 \<le> m" "m \<le> 12" "1 \<le> d" "d \<le> days_in_month y m" "1 \<le> d'"
    using v by (simp_all add: valid_instant_def)
  consider "y < y'" | "y = y'" "m < m'" | "y = y'" "m = m'" "d < d'" using e by auto
  then show ?thesis
  proof cases
    case 1
    then show ?thesis using days_before_year_mono [OF b(1) 1] day_in_year [OF b(2-5)] b(6) by (simp add: to_ordinal_def)
  next
    case 2
    then show ?thesis using days_before_month_mono [OF b(2) 2(2), of y] b(5,6) by (simp add: to_ordinal_def)
  qed (simp add: to_ordinal_def)
qed

lemma parse_valid: "parse_utc_timestamp v = Some (y, mo, d, h, mi, s, us) \<Longrightarrow> valid_instant y mo d h mi s"
  by (auto simp: parse_utc_timestamp_def Let_def split: if_splits)

lemma digits_nat_bound: "list_all (\<lambda>d. d \<le> 9) ds \<Longrightarrow> digits_nat ds < 10 ^ length ds"
proof (induction ds rule: rev_induct)
  case (snoc d ds)
  then have "digits_nat ds < 10 ^ length ds" "d \<le> 9" by simp_all
  then show ?case by (simp add: digits_nat_snoc)
qed (simp add: digits_nat_def)

lemma fraction_bound:
  assumes "utc_shape v"
  shows "fraction_micros v < 1000000"
proof (cases "46 \<in> set v")
  case True
  let ?f = "butlast (tl (dropWhile (\<lambda>c. c \<noteq> 46) v)) @ U ''000000''"
  have "list_all (\<lambda>d. d \<le> 9) (map (\<lambda>c. c - 48) (take 6 ?f))" if "list_all is_digit ?f"
  proof -
    have "\<forall>c \<in> set (take 6 ?f). is_digit c" using that by (auto simp: list_all_iff dest: in_set_takeD)
    then have "\<forall>c \<in> set (take 6 ?f). c - 48 \<le> 9" unfolding is_digit_def by fastforce
    then show ?thesis unfolding list_all_iff set_map by blast
  qed
  moreover have "list_all is_digit ?f"
  proof -
    have nodot: "46 \<notin> set (take 19 v)"
    proof
      assume "46 \<in> set (take 19 v)"
      then obtain i where "i < 19" "v ! i = 46" by (auto simp: in_set_conv_nth)
      then have i: "i \<in> set [0..<19]" by simp
      have upto: "[0..<19] = [0, 1, 2, 3, 4, 5, 6, 7, 8, 9, 10, 11, 12, 13, 14, 15, 16, 17, 18]" by (simp add: upt_rec)
      have "list_all (\<lambda>i. v ! i \<noteq> 46) [0..<19]"
        unfolding upto using assms by (auto simp: utc_shape_def is_digit_def U_Cons)
      then have "v ! i \<noteq> 46" unfolding list_all_iff using i by (rule bspec)
      then show False using \<open>v ! i = 46\<close> by (rule notE)
    qed
    have v: "v = take 19 v @ drop 19 v" by simp
    then have "46 \<in> set (drop 19 v)" using True nodot by (metis Un_iff set_append)
    then have rest: "hd (drop 19 v) = 46" "chars_of is_digit 1 6 (butlast (tl (drop 19 v)))"
      using assms by (auto simp: utc_shape_def Let_def U_Cons)
    have "drop 19 v \<noteq> []" using \<open>46 \<in> set (drop 19 v)\<close> by auto
    have "dropWhile (\<lambda>c. c \<noteq> 46) v = dropWhile (\<lambda>c. c \<noteq> 46) (drop 19 v)"
      using nodot dropWhile_append2 [of "take 19 v" "\<lambda>c. c \<noteq> 46" "drop 19 v"] v by force
    also have "\<dots> = drop 19 v" using rest(1) \<open>drop 19 v \<noteq> []\<close> by (cases "drop 19 v") auto
    finally show ?thesis using rest(2) by (simp add: chars_of_def list_all_iff U_Cons is_digit_def)
  qed
  ultimately have "number_at ?f 0 6 < 10 ^ length (take 6 ?f)"
    using digits_nat_bound by (fastforce simp: number_at_def)
  also have "\<dots> \<le> 10 ^ 6" by (rule power_increasing) simp_all
  finally show ?thesis using True by (simp add: fraction_micros_def)
qed (simp add: fraction_micros_def)

section \<open>Order\<close>

definition clock_micros :: "nat \<Rightarrow> nat \<Rightarrow> nat \<Rightarrow> nat \<Rightarrow> nat" where
  "clock_micros h mi s us = ((h * 60 + mi) * 60 + s) * 1000000 + us"

lemma clock_order:
  assumes "mi < 60" "s < 60" "us < 1000000" "earlier [h, mi, s, us] [h', mi', s', us']"
  shows "clock_micros h mi s us < clock_micros h' mi' s' us'"
  using assms by (auto simp: clock_micros_def)

lemma clock_bound:
  assumes "h < 24" "mi < 60" "s < 60" "us < 1000000"
  shows "clock_micros h mi s us < 86400000000"
proof -
  have "h * 60 + mi \<le> 1439" using assms(1,2) by linarith
  then have "(h * 60 + mi) * 60 \<le> 86340" by simp
  then have "(h * 60 + mi) * 60 + s \<le> 86399" using assms(3) by linarith
  then have "((h * 60 + mi) * 60 + s) * 1000000 \<le> 86399000000" by simp
  then show ?thesis using assms(4) unfolding clock_micros_def by linarith
qed

lemma parsed_micros:
  assumes "parse_utc_timestamp v = Some (y, mo, d, h, mi, s, us)"
  shows "utc_microseconds v =
    Inr ((int (to_ordinal y mo d) - int EPOCH_ORDINAL) * 86400000000 + int (clock_micros h mi s us))"
  using assms by (simp add: utc_microseconds_def clock_micros_def Let_def algebra_simps)

lemma micros_earlier:
  assumes p: "parse_utc_timestamp v = Some (y, mo, d, h, mi, s, us)" "parse_utc_timestamp w = Some (y', mo', d', h', mi', s', us')"
    and i: "utc_microseconds v = Inr a" "utc_microseconds w = Inr b"
    and e: "earlier [y, mo, d, h, mi, s, us] [y', mo', d', h', mi', s', us']"
  shows "a < b"
proof -
  have v: "valid_instant y mo d h mi s" "valid_instant y' mo' d' h' mi' s'" using p parse_valid by blast+
  have us: "us < 1000000"
    using p(1) fraction_bound [of v] by (auto simp: parse_utc_timestamp_def Let_def split: if_splits)
  have b: "h < 24" "mi < 60" "s < 60" using v by (simp_all add: valid_instant_def)
  have ab: "a = (int (to_ordinal y mo d) - int EPOCH_ORDINAL) * 86400000000 + int (clock_micros h mi s us)"
    "b = (int (to_ordinal y' mo' d') - int EPOCH_ORDINAL) * 86400000000 + int (clock_micros h' mi' s' us')"
    using parsed_micros [OF p(1)] parsed_micros [OF p(2)] i by simp_all
  show ?thesis
  proof (cases "(y, mo, d) = (y', mo', d')")
    case True
    then have "clock_micros h mi s us < clock_micros h' mi' s' us'" using e b us by (intro clock_order) auto
    with True ab show ?thesis by simp
  next
    case False
    then have "earlier [y, mo, d] [y', mo', d']" using e by auto
    then have "to_ordinal y mo d < to_ordinal y' mo' d'" using v by (rule_tac ordinal_order)
    then have "int (to_ordinal y mo d) + 1 \<le> int (to_ordinal y' mo' d')" by simp
    moreover have "int (clock_micros h mi s us) < 86400000000" using clock_bound [OF b us] by simp
    ultimately show ?thesis using ab by simp
  qed
qed

text \<open>
  On timestamps the parser accepts, the microseconds since the epoch are ordered exactly
  like the tuples (year, month, day, hour, minute, second, fraction), across months and leap
  years.
\<close>

theorem utc_order:
  assumes "parse_utc_timestamp v = Some (y, mo, d, h, mi, s, us)" "parse_utc_timestamp w = Some (y', mo', d', h', mi', s', us')"
    and "utc_microseconds v = Inr a" "utc_microseconds w = Inr b"
  shows "a < b \<longleftrightarrow> earlier [y, mo, d, h, mi, s, us] [y', mo', d', h', mi', s', us']"
proof
  assume ab: "a < b"
  show "earlier [y, mo, d, h, mi, s, us] [y', mo', d', h', mi', s', us']"
  proof (rule ccontr)
    assume n: "\<not> earlier [y, mo, d, h, mi, s, us] [y', mo', d', h', mi', s', us']"
    from earlier_cases [of "[y, mo, d, h, mi, s, us]" "[y', mo', d', h', mi', s', us']"] n
    consider "[y, mo, d, h, mi, s, us] = [y', mo', d', h', mi', s', us']" | "earlier [y', mo', d', h', mi', s', us'] [y, mo, d, h, mi, s, us]"
      by auto
    then show False
    proof cases
      case 1
      then have "a = b" using parsed_micros [OF assms(1)] parsed_micros [OF assms(2)] assms(3,4) by simp
      with ab show False by simp
    next
      case 2
      from micros_earlier [OF assms(2,1,4,3) 2] ab show False by simp
    qed
  qed
qed (rule micros_earlier [OF assms])

theorem utc_order_witness:
  "parse_utc_timestamp (U ''2028-02-29T23:59:59.5Z'') = Some (2028, 2, 29, 23, 59, 59, 500000) \<and>
   parse_utc_timestamp (U ''2028-03-01T00:00:00Z'') = Some (2028, 3, 1, 0, 0, 0, 0) \<and>
   parse_utc_timestamp (U ''2026-02-29T00:00:00Z'') = None \<and> parse_utc_timestamp (U ''2026-01-01T24:00:00Z'') = None \<and>
   utc_microseconds (U ''1970-01-01T00:00:00Z'') = Inr 0 \<and>
   (\<exists>a b. utc_microseconds (U ''2028-02-29T23:59:59.5Z'') = Inr a \<and> utc_microseconds (U ''2028-03-01T00:00:00Z'') = Inr b \<and> a < b)"
proof -
  note eval = parse_utc_timestamp_def utc_shape_def number_at_def fraction_micros_def U_Cons is_digit_def chars_of_def
    valid_instant_def days_in_month_def is_leap_def digits_nat_def Let_def
  have p: "parse_utc_timestamp (U ''2028-02-29T23:59:59.5Z'') = Some (2028, 2, 29, 23, 59, 59, 500000)"
    "parse_utc_timestamp (U ''2028-03-01T00:00:00Z'') = Some (2028, 3, 1, 0, 0, 0, 0)"
    "parse_utc_timestamp (U ''2026-02-29T00:00:00Z'') = None" "parse_utc_timestamp (U ''2026-01-01T24:00:00Z'') = None"
    "parse_utc_timestamp (U ''1970-01-01T00:00:00Z'') = Some (1970, 1, 1, 0, 0, 0, 0)"
    by (simp_all add: eval)
  from p(5) have epoch: "utc_microseconds (U ''1970-01-01T00:00:00Z'') = Inr 0"
    by (simp add: utc_microseconds_def EPOCH_ORDINAL_def Let_def)
  obtain a b where ab: "utc_microseconds (U ''2028-02-29T23:59:59.5Z'') = Inr a" "utc_microseconds (U ''2028-03-01T00:00:00Z'') = Inr b"
    using parsed_micros [OF p(1)] parsed_micros [OF p(2)] by blast
  have "a < b" unfolding utc_order [OF p(1,2) ab] by simp
  with ab p epoch show ?thesis by blast
qed

end
