(* ===== verification/ProcessRecord.thy ===== *)
theory ProcessRecord
  imports RelyingMaterials UtcTime
begin

text \<open>
  The process-record verifier, \<open>certification/process_record_verifier.py\<close>: the shipped registry
  documents, receipts and stream indexes, the derived report, the assertion and its support row, the
  trust-status snapshot, and the verifier over all of them. \<open>Failed code\<close> is here
  \<open>ProcessRecordVerificationError(code)\<close>; errors of the relying-party functions are recast where the
  source catches them, and are foreign where it does not.
\<close>

definition RECEIPT_DOMAIN :: "byte list" where "RECEIPT_DOMAIN = utf8 (U ''traigent.process_record.receipt.v1'')"
definition RECEIPT_BUNDLE_DOMAIN :: "byte list" where
  "RECEIPT_BUNDLE_DOMAIN = utf8 (U ''traigent.process_record.receipt_bundle.v1'')"
definition REPORT_DOMAIN :: "byte list" where "REPORT_DOMAIN = utf8 (U ''traigent.process_record.report.v1'')"
definition ASSERTION_DOMAIN :: "byte list" where "ASSERTION_DOMAIN = utf8 (U ''traigent.process_record.assertion.v1'')"
definition PR_CLAIM_MATERIAL_DOMAIN :: "byte list" where
  "PR_CLAIM_MATERIAL_DOMAIN = utf8 (U ''traigent.process_record.claim_material.v1'')"
definition CLAIM_SUPPORT_ROWS_DOMAIN :: "byte list" where
  "CLAIM_SUPPORT_ROWS_DOMAIN = utf8 (U ''traigent.process_record.claim_support_rows.v1'')"
definition UNSIGNED_MANIFEST_DOMAIN :: "byte list" where
  "UNSIGNED_MANIFEST_DOMAIN = utf8 (U ''traigent.process_record.unsigned_manifest.v1'')"
definition CAPTURE_POLICY_DOMAIN :: "byte list" where
  "CAPTURE_POLICY_DOMAIN = utf8 (U ''traigent.process_record.capture_policy.v1'')"
definition PROCESS_DEFINITION_DOMAIN :: "byte list" where
  "PROCESS_DEFINITION_DOMAIN = utf8 (U ''traigent.process_record.process_definition.v1'')"
definition EXPECTED_STEPS_DOMAIN :: "byte list" where
  "EXPECTED_STEPS_DOMAIN = utf8 (U ''traigent.process_record.expected_steps.v1'')"
definition PR_SIGNATURE_DOMAIN :: "byte list" where
  "PR_SIGNATURE_DOMAIN = utf8 (U ''traigent.process_record.issuer_signature.v1'')"
definition TRUST_STATUS_DOMAIN :: "byte list" where
  "TRUST_STATUS_DOMAIN = utf8 (U ''traigent.process_record.trust_status.v1'')"
definition TRUST_ANCHOR_SPKI_DOMAIN :: "byte list" where
  "TRUST_ANCHOR_SPKI_DOMAIN = utf8 (U ''traigent.process_record.trust_anchor_spki_der.v1'')"

definition TRUST_POLICY_ID :: string where "TRUST_POLICY_ID = ''traigent.trust_policy.process_record.v1''"
definition TRUST_MAX_AGE_SECONDS :: int where "TRUST_MAX_AGE_SECONDS = 86400"
definition TRUST_SKEW_SECONDS :: int where "TRUST_SKEW_SECONDS = 0"
definition MAX_STREAM_ITEMS :: nat where "MAX_STREAM_ITEMS = 2048"
definition MAX_TOTAL_RECEIPTS :: nat where "MAX_TOTAL_RECEIPTS = 6144"
definition MAX_RECEIPT_BYTES :: nat where "MAX_RECEIPT_BYTES = 8192"
definition MAX_TRUST_STATUS_ENTRIES :: nat where "MAX_TRUST_STATUS_ENTRIES = 64"

definition EXPECTED_STEPS :: "string list" where
  "EXPECTED_STEPS = [''prepare'', ''evaluate'', ''aggregate'', ''select'', ''finalize'']"

definition STREAM_IDS :: "string list" where
  "STREAM_IDS = [''decision_stream'', ''receipt_event_stream'', ''transition_stream'']"

definition REGISTERED_VALUE_INT_FIELDS :: "string list" where
  "REGISTERED_VALUE_INT_FIELDS = [''accuracy_ppm'', ''evaluated_count'', ''cost_microusd'', ''latency_us'']"

definition UNSIGNED_MANIFEST_COVERAGE :: "string list" where
  "UNSIGNED_MANIFEST_COVERAGE =
     [''base_unsigned_manifest_digest'', ''capture_policy'', ''process_definition'', ''project_ref'', ''build_session_ref'',
      ''agent_commitment_ref'', ''dataset_commitment_ref'', ''evaluator_commitment_ref'',
      ''build_definition_commitment_ref'', ''expected_steps'', ''expected_steps_digest'', ''decision_stream'',
      ''receipt_event_stream'', ''transition_stream'', ''assertion_digest'', ''process_report_digest'',
      ''receipt_bundle_digest'', ''client_evidence_manifest_digest'', ''process_claim_support_rows_digest'',
      ''trust_ring_ref'', ''issuer_key_ref'', ''issuer_signature_algorithm'']"

definition PROCESS_RECORD_ERROR_CODES :: "string list" where
  "PROCESS_RECORD_ERROR_CODES =
     [''CONTEXT'', ''BUNDLE_SHAPE'', ''SCHEMA'', ''SCHEMA_DEPENDENCY'', ''STRICT_INTEGER'', ''BASE_CERTIFICATE_INVALID'',
      ''SCOPE_MISMATCH'', ''BASE_MANIFEST_DIGEST_MISMATCH'', ''CAPTURE_POLICY_MISMATCH'', ''RECEIPT_STREAM_MISMATCH'',
      ''RECEIPT_ORDER'', ''RECEIPT_DUPLICATE'', ''RECEIPT_LIMIT_EXCEEDED'', ''RECEIPT_SIZE_EXCEEDED'',
      ''RECEIPT_DIGEST_MISMATCH'', ''RECEIPT_BUNDLE_DIGEST_MISMATCH'', ''STREAM_INDEX_MISMATCH'', ''REPORT_MISMATCH'',
      ''ASSERTION_DIGEST_MISMATCH'', ''CLAIM_SUPPORT_ROW_MISMATCH'', ''CLAIM_NOT_VERIFIED'', ''COMMITMENT_REF_MISMATCH'',
      ''UNSIGNED_MANIFEST_MISMATCH'', ''UNSIGNED_MANIFEST_DIGEST_MISMATCH'', ''KEY_RING_MISMATCH'',
      ''ISSUER_SIGNATURE_INVALID'', ''CANONICALIZATION'', ''VERIFICATION_FAILED'', ''TRUST_STATUS_SHAPE'',
      ''TRUST_STATUS_SCHEMA'', ''TRUST_STATUS_DIGEST_MISMATCH'', ''TRUST_ANCHOR_MISMATCH'',
      ''TRUST_STATUS_SIGNATURE_INVALID'', ''TRUST_POLICY_MISMATCH'', ''REVOCATION_STATUS_UNAVAILABLE'', ''KEY_REVOKED'',
      ''CERTIFICATE_REVOKED'']"

section \<open>Context\<close>

record trust_anchor_key =
  anchor_key_ref :: ustr
  anchor_algorithm :: ustr
  anchor_public_key_der_b64 :: ustr
  anchor_public_key_digest :: ustr

record process_context =
  pr_materials_digest :: ustr
  pr_certificate_ref :: ustr
  base_context :: verification_context
  pr_project_ref :: ustr
  pr_build_session_ref :: ustr
  pr_agent_ref :: ustr
  pr_dataset_ref :: ustr
  pr_evaluator_ref :: ustr
  pr_build_definition_ref :: ustr
  allow_unchecked_base_status :: bool
  verification_time :: ustr
  trust_anchor :: "trust_anchor_key option"

definition check_trust_anchor :: "trust_anchor_key \<Rightarrow> cert_error + unit" where
  "check_trust_anchor anchor =
     in_turn
       [fail_if (\<not> is_ref (anchor_key_ref anchor)) ''CONTEXT'',
        fail_if (anchor_algorithm anchor \<noteq> U ''ed25519'' \<and> anchor_algorithm anchor \<noteq> U ''ecdsa_p256_sha256'') ''CONTEXT'',
        fail_if (anchor_public_key_der_b64 anchor = []) ''CONTEXT'',
        fail_if (\<not> is_sha256_ref (anchor_public_key_digest anchor)) ''CONTEXT'']"

text \<open>\<open>__post_init__\<close>.\<close>

definition check_process_context :: "process_context \<Rightarrow> cert_error + unit" where
  "check_process_context ctx =
     in_turn
       [fail_if (\<not> is_sha256_ref (pr_materials_digest ctx)) ''CONTEXT'',
        fail_if (pr_certificate_ref ctx = []) ''CONTEXT'',
        fail_if (\<not> is_project_ref (pr_project_ref ctx)) ''CONTEXT'',
        fail_if (\<not> is_ref (pr_build_session_ref ctx)) ''CONTEXT'',
        check_all (\<lambda>ref. fail_if (\<not> is_sha256_ref ref) ''CONTEXT'')
          [pr_agent_ref ctx, pr_dataset_ref ctx, pr_evaluator_ref ctx, pr_build_definition_ref ctx],
        fail_if (parse_utc_timestamp (verification_time ctx) = None) ''CONTEXT'',
        fail_if ((trust_anchor ctx = None) \<noteq> allow_unchecked_base_status ctx) ''CONTEXT'',
        (case trust_anchor ctx of None \<Rightarrow> Inr () | Some anchor \<Rightarrow> check_trust_anchor anchor)]"

section \<open>Registry documents\<close>

definition process_digest :: "cert_env \<Rightarrow> byte list \<Rightarrow> json \<Rightarrow> cert_error + ustr" where
  "process_digest env domain projection =
     (case canonical_text projection of
        None \<Rightarrow> Inl (Failed ''CANONICALIZATION'')
      | Some text \<Rightarrow> Inr (SHA256_PREFIX @ hexdigest (hash env (domain @ 0 # utf8 text))))"

text \<open>\<open>data/certification/capture_policy_document.json\<close> and \<open>process_definition_document.json\<close>.\<close>

definition CAPTURE_POLICY_DOCUMENT :: json where
  "CAPTURE_POLICY_DOCUMENT = JObj
     [(U ''schema_version'', jstr ''traigent.capture_policy_document.v1''), (U ''policy_id'', jstr ''traigent.capture_policy.asap.v1''),
      (U ''policy_version'', jstr ''1.0.0''),
      (U ''observable_surfaces'', JArr [jstr ''decision_stream'', jstr ''receipt_event_stream'', jstr ''transition_stream'']),
      (U ''expected_steps'', JArr [jstr ''prepare'', jstr ''evaluate'', jstr ''aggregate'', jstr ''select'', jstr ''finalize'']),
      (U ''canonicalization'', jstr ''jcs_v1'')]"

definition PROCESS_DEFINITION_DOCUMENT :: json where
  "PROCESS_DEFINITION_DOCUMENT = JObj
     [(U ''schema_version'', jstr ''traigent.process_definition_document.v1''),
      (U ''definition_id'', jstr ''traigent.process_definition.asap.v1''), (U ''definition_version'', jstr ''1.0.0''),
      (U ''expected_steps'', JArr [jstr ''prepare'', jstr ''evaluate'', jstr ''aggregate'', jstr ''select'', jstr ''finalize'']),
      (U ''stream_ids'', JArr [jstr ''decision_stream'', jstr ''receipt_event_stream'', jstr ''transition_stream'']),
      (U ''canonicalization'', jstr ''jcs_v1'')]"

text \<open>The one failure of a registry document is \<open>None\<close>: \<open>ProcessRecordRegistryError\<close> with a fixed text.\<close>

definition validate_registry_document :: "cert_env \<Rightarrow> json \<Rightarrow> schema_id \<Rightarrow> string \<Rightarrow> byte list \<Rightarrow> unit option" where
  "validate_registry_document env document definition_name digest_field domain =
     (if json_member document (U digest_field) \<noteq> None then None
      else case process_digest env domain document of
             Inl e \<Rightarrow> None
           | Inr d \<Rightarrow>
               if schema env definition_name (JObj (members document @ [(U digest_field, JStr d)])) = Conforms
               then Some () else None)"

definition validate_registry_expected_steps :: "json \<Rightarrow> unit option" where
  "validate_registry_expected_steps document =
     (case get_member document ''expected_steps'' of
        JArr steps \<Rightarrow> if py_eq (JArr steps) (JArr (map jstr EXPECTED_STEPS)) then Some () else None
      | _ \<Rightarrow> None)"

definition load_registry_constant :: "cert_env \<Rightarrow> json option \<Rightarrow> schema_id \<Rightarrow> string \<Rightarrow> byte list \<Rightarrow> (json \<times> ustr) option" where
  "load_registry_constant env loaded definition_name digest_field domain =
     (case loaded of
        None \<Rightarrow> None
      | Some document \<Rightarrow>
          if is_dict document \<and> validate_registry_document env document definition_name digest_field domain = Some () \<and>
             validate_registry_expected_steps document = Some ()
          then (case process_digest env domain document of Inl e \<Rightarrow> None | Inr d \<Rightarrow> Some (document, d))
          else None)"

text \<open>The digests taken at import.\<close>

definition registry_digest :: "cert_env \<Rightarrow> byte list \<Rightarrow> json \<Rightarrow> ustr" where
  "registry_digest env domain document = SHA256_PREFIX @ hexdigest (hash env (domain @ 0 # utf8 (canon document)))"

definition EXPECTED_STEPS_DIGEST :: "cert_env \<Rightarrow> ustr" where
  "EXPECTED_STEPS_DIGEST env = registry_digest env EXPECTED_STEPS_DOMAIN (JArr (map jstr EXPECTED_STEPS))"

definition CAPTURE_POLICY_IDENTITY :: "cert_env \<Rightarrow> json" where
  "CAPTURE_POLICY_IDENTITY env = JObj
     [(U ''policy_id'', jstr ''traigent.capture_policy.asap.v1''), (U ''policy_version'', jstr ''1.0.0''),
      (U ''policy_digest'', JStr (registry_digest env CAPTURE_POLICY_DOMAIN CAPTURE_POLICY_DOCUMENT))]"

definition PROCESS_DEFINITION_IDENTITY :: "cert_env \<Rightarrow> json" where
  "PROCESS_DEFINITION_IDENTITY env = JObj
     [(U ''definition_id'', jstr ''traigent.process_definition.asap.v1''), (U ''definition_version'', jstr ''1.0.0''),
      (U ''definition_digest'', JStr (registry_digest env PROCESS_DEFINITION_DOMAIN PROCESS_DEFINITION_DOCUMENT))]"

section \<open>Strict integers and schema\<close>

fun require_int :: "json \<Rightarrow> cert_error + unit" where
  "require_int (JInt i) = Inr ()"
| "require_int t = Inl (Failed ''STRICT_INTEGER'')"

definition require_nullable_int :: "json \<Rightarrow> cert_error + unit" where
  "require_nullable_int t = (if t = JNull then Inr () else require_int t)"

definition check_registered_values_strict :: "json \<Rightarrow> cert_error + unit" where
  "check_registered_values_strict values =
     check_all (\<lambda>key. rbind (has_key values key) (\<lambda>b. if b then rbind (field values key) require_int else Inr ()))
       REGISTERED_VALUE_INT_FIELDS"

definition check_stream_integers :: "json \<Rightarrow> json \<Rightarrow> string \<Rightarrow> cert_error + unit" where
  "check_stream_integers manifest receipts name =
     rbind (field manifest name) (\<lambda>index.
     rbind (rbind (field index ''sequence_values'') iterate) (\<lambda>seqs.
     in_turn
       [check_all require_int seqs,
        rbind (field index ''first_seq'') require_nullable_int,
        rbind (field index ''last_seq'') require_nullable_int,
        rbind (field index ''receipt_count'') require_int,
        rbind (rbind (field receipts name) iterate) (check_all (\<lambda>receipt.
          rbind (rbind (field receipt ''seq'') require_int) (\<lambda>_.
          rbind (field receipt ''registered_values'') check_registered_values_strict)))]))"

definition check_strict_integers :: "json \<Rightarrow> cert_error + unit" where
  "check_strict_integers bundle =
     rbind (field bundle ''unsigned_manifest'') (\<lambda>manifest.
     rbind (field bundle ''receipts'') (\<lambda>receipts.
     rbind (check_all (check_stream_integers manifest receipts) STREAM_IDS) (\<lambda>_.
     rbind (field bundle ''report'') (\<lambda>report.
     rbind (rbind (field report ''expected_step_count'') require_int) (\<lambda>_.
     rbind (check_all (\<lambda>key. rbind (field report key) require_int)
              [''present_count'', ''missing_count'', ''backend_observed_present_count'', ''client_attested_present_count'']) (\<lambda>_.
     rbind (rbind (field report ''rows'') iterate) (check_all (\<lambda>row.
       rbind (field row ''status'') (\<lambda>status.
         if py_eq status (jstr ''present'') then rbind (field row ''registered_values'') check_registered_values_strict
         else Inr ())))))))))"

definition validate_process_schema :: "cert_env \<Rightarrow> json \<Rightarrow> cert_error + unit" where
  "validate_process_schema env bundle =
     (case schema env ProcessRecordSchema bundle of
        Conforms \<Rightarrow> Inr ()
      | Violates \<Rightarrow> Inl (Failed ''SCHEMA'')
      | NoValidator \<Rightarrow> Inl (Failed ''SCHEMA_DEPENDENCY'')
      | DanglingReference \<Rightarrow> Inl (Failed ''SCHEMA_DEPENDENCY'')
      | SchemaRaises \<Rightarrow> Inl OtherErr
      | MissingDependency \<Rightarrow> Inl SchemaDependency)"

definition verify_base_certificate :: "cert_env \<Rightarrow> json \<Rightarrow> process_context \<Rightarrow> cert_error + unit" where
  "verify_base_certificate env bundle ctx =
     rbind (field bundle ''base_certificate_v0'') (\<lambda>certificate.
     rbind (field bundle ''verification_materials_v0'') (\<lambda>materials.
       recast is_failed ''BASE_CERTIFICATE_INVALID''
         (verify_certificate_with_materials env certificate materials (pr_materials_digest ctx) (pr_certificate_ref ctx)
            (base_context ctx) False)))"

section \<open>Receipts\<close>

text \<open>Only integers get here: \<open>check_strict_integers\<close> has gone over the same receipts.\<close>

definition as_int :: "json \<Rightarrow> cert_error + int" where
  "as_int t = (case t of JInt i \<Rightarrow> Inr i | _ \<Rightarrow> Inl OtherErr)"

record receipt_state =
  prev_seq :: "int option"
  seen_refs :: "json list"
  seen_digests :: "json list"

text \<open>\<open>x in s\<close> for a set of hashed values.\<close>

definition seen :: "json \<Rightarrow> json list \<Rightarrow> cert_error + bool" where
  "seen x xs = (if is_container x then Inl PyTypeErr else Inr (list_ex (\<lambda>y. py_eq y x) xs))"

definition check_receipt :: "cert_env \<Rightarrow> string \<Rightarrow> ustr \<Rightarrow> ustr \<Rightarrow> receipt_state \<Rightarrow> json \<Rightarrow> cert_error + receipt_state" where
  "check_receipt env stream_name project_ref build_session_ref st receipt =
     rbind (in_turn
       [must_equal ''RECEIPT_STREAM_MISMATCH'' (field receipt ''stream_id'') (Inr (jstr stream_name)),
        must_equal ''SCOPE_MISMATCH'' (field receipt ''project_ref'') (Inr (JStr project_ref)),
        must_equal ''SCOPE_MISMATCH'' (field receipt ''build_session_ref'') (Inr (JStr build_session_ref))]) (\<lambda>_.
     rbind (rbind (field receipt ''seq'') as_int) (\<lambda>seq.
     rbind (fail_if (case prev_seq st of None \<Rightarrow> False | Some prev \<Rightarrow> seq \<le> prev) ''RECEIPT_ORDER'') (\<lambda>_.
     rbind (field receipt ''receipt_ref'') (\<lambda>ref.
     rbind (field receipt ''receipt_digest'') (\<lambda>receipt_digest.
     rbind (rbind (seen ref (seen_refs st)) (\<lambda>b. if b then Inr True else seen receipt_digest (seen_digests st))) (\<lambda>dup.
     rbind (fail_if dup ''RECEIPT_DUPLICATE'') (\<lambda>_.
     rbind (must_equal ''RECEIPT_DIGEST_MISMATCH''
              (rbind (process_digest env RECEIPT_DOMAIN (without_member ''receipt_digest'' receipt)) (\<lambda>d. Inr (JStr d)))
              (Inr receipt_digest)) (\<lambda>_.
     rbind (case canonical_text receipt of None \<Rightarrow> Inl (Failed ''CANONICALIZATION'') | Some text \<Rightarrow> Inr (length (utf8 text))) (\<lambda>size.
     rbind (fail_if (MAX_RECEIPT_BYTES < size) ''RECEIPT_SIZE_EXCEEDED'') (\<lambda>_.
       Inr \<lparr>prev_seq = Some seq, seen_refs = ref # seen_refs st, seen_digests = receipt_digest # seen_digests st\<rparr>))))))))))"

definition check_receipt_stream ::
  "cert_env \<Rightarrow> json \<Rightarrow> ustr \<Rightarrow> ustr \<Rightarrow> nat \<times> receipt_state \<Rightarrow> string \<Rightarrow> cert_error + nat \<times> receipt_state" where
  "check_receipt_stream env receipts project_ref build_session_ref st stream_name =
     rbind (rbind (field receipts stream_name) iterate) (\<lambda>stream.
     rbind (fail_if (MAX_STREAM_ITEMS < length stream) ''RECEIPT_LIMIT_EXCEEDED'') (\<lambda>_.
     rbind (fold_steps (check_receipt env stream_name project_ref build_session_ref) ((snd st)\<lparr>prev_seq := None\<rparr>) stream) (\<lambda>st'.
       Inr (fst st + length stream, st'))))"

definition check_receipts :: "cert_env \<Rightarrow> json \<Rightarrow> ustr \<Rightarrow> ustr \<Rightarrow> cert_error + unit" where
  "check_receipts env bundle project_ref build_session_ref =
     rbind (field bundle ''receipts'') (\<lambda>receipts.
     rbind (fold_steps (check_receipt_stream env receipts project_ref build_session_ref)
              (0, \<lparr>prev_seq = None, seen_refs = [], seen_digests = []\<rparr>) STREAM_IDS) (\<lambda>st.
       fail_if (MAX_TOTAL_RECEIPTS < fst st) ''RECEIPT_LIMIT_EXCEEDED''))"

definition stream_index :: "json list \<Rightarrow> cert_error + json" where
  "stream_index stream =
     rbind (traverse (\<lambda>receipt. field receipt ''seq'') stream) (\<lambda>seqs.
     rbind (traverse (\<lambda>receipt. field receipt ''receipt_digest'') stream) (\<lambda>digests.
       Inr (JObj [(U ''sequence_values'', JArr seqs), (U ''receipt_digests'', JArr digests),
         (U ''first_seq'', if seqs = [] then JNull else hd seqs), (U ''last_seq'', if seqs = [] then JNull else last seqs),
         (U ''receipt_count'', JInt (int (length seqs)))])))"

definition compute_stream_indexes :: "json \<Rightarrow> cert_error + json list" where
  "compute_stream_indexes bundle =
     rbind (field bundle ''receipts'') (\<lambda>receipts.
     rbind (field bundle ''unsigned_manifest'') (\<lambda>manifest.
       traverse (\<lambda>name.
         rbind (rbind (rbind (field receipts name) iterate) stream_index) (\<lambda>index.
         rbind (must_equal ''STREAM_INDEX_MISMATCH'' (Inr index) (field manifest name)) (\<lambda>_. Inr index))) STREAM_IDS))"

section \<open>The derived report\<close>

text \<open>The last receipt of the step, if any; a step without receipts is missing.\<close>

definition selected_receipt :: "json list \<Rightarrow> string \<Rightarrow> cert_error + json option" where
  "selected_receipt flattened step =
     fold_steps (\<lambda>found receipt. rbind (field receipt ''step_id'') (\<lambda>s.
       Inr (if py_eq s (jstr step) then Some receipt else found))) None flattened"

record report_counts =
  report_rows :: "json list"
  present_count :: nat
  backend_observed_count :: nat
  client_attested_count :: nat

definition report_step :: "json list \<Rightarrow> report_counts \<Rightarrow> string \<Rightarrow> cert_error + report_counts" where
  "report_step flattened counts step =
     rbind (selected_receipt flattened step) (\<lambda>found.
       case found of
         None \<Rightarrow>
           Inr (counts\<lparr>report_rows := report_rows counts @
             [JObj [(U ''step_id'', jstr step), (U ''status'', jstr ''missing'')]]\<rparr>)
       | Some receipt \<Rightarrow>
           rbind (field receipt ''observation_basis'') (\<lambda>basis.
           rbind (field receipt ''receipt_digest'') (\<lambda>receipt_digest.
           rbind (field receipt ''registered_values'') (\<lambda>registered_values.
             let backend = py_eq basis (jstr ''backend_observed''); client = py_eq basis (jstr ''client_attested'') in
             Inr \<lparr>report_rows = report_rows counts @
                    [JObj [(U ''step_id'', jstr step), (U ''status'', jstr ''present''), (U ''observation_kind'', basis),
                           (U ''receipt_digest'', receipt_digest), (U ''registered_values'', registered_values)]],
                  present_count = present_count counts + 1,
                  backend_observed_count = backend_observed_count counts + (if backend then 1 else 0),
                  client_attested_count = client_attested_count counts + (if \<not> backend \<and> client then 1 else 0)\<rparr>))))"

definition derive_report :: "cert_env \<Rightarrow> json \<Rightarrow> ustr \<Rightarrow> ustr \<Rightarrow> cert_error + ustr \<times> json \<times> report_counts" where
  "derive_report env bundle project_ref build_session_ref =
     rbind (field bundle ''receipts'') (\<lambda>receipts.
     rbind (traverse (\<lambda>name. rbind (field receipts name) iterate) STREAM_IDS) (\<lambda>streams.
     rbind (fold_steps (report_step (concat streams))
              \<lparr>report_rows = [], present_count = 0, backend_observed_count = 0, client_attested_count = 0\<rparr> EXPECTED_STEPS) (\<lambda>counts.
       let body =
         [(U ''schema_version'', jstr ''traigent.process_record.report.v1''), (U ''project_ref'', JStr project_ref),
          (U ''build_session_ref'', JStr build_session_ref), (U ''capture_policy'', CAPTURE_POLICY_IDENTITY env),
          (U ''process_definition'', PROCESS_DEFINITION_IDENTITY env), (U ''expected_step_count'', JInt 5),
          (U ''rows'', JArr (report_rows counts)), (U ''present_count'', JInt (int (present_count counts))),
          (U ''missing_count'', JInt (5 - int (present_count counts))),
          (U ''backend_observed_present_count'', JInt (int (backend_observed_count counts))),
          (U ''client_attested_present_count'', JInt (int (client_attested_count counts)))] in
       rbind (process_digest env REPORT_DOMAIN (JObj body)) (\<lambda>d.
         Inr (d, JObj (body @ [(U ''report_digest'', JStr d)]), counts)))))"

section \<open>Assertion, receipt bundle and support row\<close>

text \<open>The self-digest of a member of the bundle.\<close>

definition self_digest :: "cert_env \<Rightarrow> string \<Rightarrow> byte list \<Rightarrow> string \<Rightarrow> json \<Rightarrow> cert_error + ustr" where
  "self_digest env key domain code t =
     rbind (if is_dict t then Inr () else Inl OtherErr) (\<lambda>_.
     rbind (process_digest env domain (without_member key t)) (\<lambda>d.
     rbind (must_equal code (Inr (JStr d)) (field t key)) (\<lambda>_. Inr d)))"

definition check_assertion :: "cert_env \<Rightarrow> json \<Rightarrow> cert_error + ustr" where
  "check_assertion env bundle =
     rbind (field bundle ''assertion'') (\<lambda>assertion.
     rbind (must_equal ''CAPTURE_POLICY_MISMATCH'' (field assertion ''capture_policy'') (Inr (CAPTURE_POLICY_IDENTITY env))) (\<lambda>_.
       self_digest env ''assertion_digest'' ASSERTION_DOMAIN ''ASSERTION_DIGEST_MISMATCH'' assertion))"

definition claim_material_digest :: "cert_env \<Rightarrow> json \<Rightarrow> ustr \<Rightarrow> cert_error + ustr" where
  "claim_material_digest env assertion assertion_digest =
     rbind (field assertion ''assertion_template_id'') (\<lambda>template.
     rbind (field assertion ''rendered_text'') (\<lambda>rendered.
       process_digest env PR_CLAIM_MATERIAL_DOMAIN
         (JObj [(U ''claim_id'', jstr ''PROC1''), (U ''tier'', JInt 3), (U ''assertion_template_id'', template),
                (U ''rendered_text'', rendered), (U ''assertion_digest'', JStr assertion_digest)])))"

definition check_receipt_bundle :: "cert_env \<Rightarrow> json \<Rightarrow> cert_error + ustr" where
  "check_receipt_bundle env bundle =
     rbind (field bundle ''receipts'')
       (self_digest env ''receipt_bundle_digest'' RECEIPT_BUNDLE_DOMAIN ''RECEIPT_BUNDLE_DIGEST_MISMATCH'')"

definition check_support_row :: "json \<Rightarrow> ustr \<Rightarrow> ustr \<Rightarrow> ustr \<Rightarrow> ustr \<Rightarrow> cert_error + unit" where
  "check_support_row bundle assertion_digest report_digest bundle_digest material_digest =
     rbind (rbind (field bundle ''claim_support_rows'') (\<lambda>rows. subscript rows (JInt 0))) (\<lambda>row.
     rbind (must_equal ''CLAIM_NOT_VERIFIED'' (field row ''evidence_basis'') (Inr (jstr ''issuer_verified''))) (\<lambda>_.
       must_equal ''CLAIM_SUPPORT_ROW_MISMATCH'' (Inr row)
         (Inr (JObj [(U ''claim_id'', jstr ''PROC1''), (U ''evidence_basis'', jstr ''issuer_verified''),
            (U ''assertion_digest'', JStr assertion_digest), (U ''process_report_digest'', JStr report_digest),
            (U ''receipt_bundle_digest'', JStr bundle_digest), (U ''verifier_result'', jstr ''pass''),
            (U ''claim_material_digest'', JStr material_digest)]))))"

end
