(* ===== verification/ProcessVerify.thy ===== *)
theory ProcessVerify
  imports ProcessRecord
begin

text \<open>
  The second half of the process-record verifier: the trust-status snapshot with its freshness window,
  the expected unsigned manifest, and \<open>verify_process_record_certificate\<close>.
\<close>

section \<open>Trust status\<close>

definition check_trust_status_list_caps :: "json \<Rightarrow> cert_error + unit" where
  "check_trust_status_list_caps snapshot =
     (case (get_member snapshot ''key_status'', get_member snapshot ''certificate_status'') of
        (JArr keys, JArr certs) \<Rightarrow>
          fail_if (MAX_TRUST_STATUS_ENTRIES < length keys \<or> MAX_TRUST_STATUS_ENTRIES < length certs) ''TRUST_STATUS_SCHEMA''
      | _ \<Rightarrow> Inl (Failed ''TRUST_STATUS_SHAPE''))"

text \<open>A set of hashed tuples, and the members that make the tuple of an entry.\<close>

definition add_status_entry :: "string list \<Rightarrow> json list list \<Rightarrow> json \<Rightarrow> cert_error + json list list" where
  "add_status_entry keys known entry =
     rbind (fail_if (\<not> is_dict entry) ''TRUST_STATUS_SHAPE'') (\<lambda>_.
     let marker = map (get_member entry) keys in
     rbind (if list_ex is_container marker then Inl PyTypeErr else Inr ()) (\<lambda>_.
     rbind (fail_if (list_ex (\<lambda>m. list_all2 py_eq m marker) known) ''TRUST_STATUS_SHAPE'') (\<lambda>_.
       Inr (marker # known))))"

definition check_trust_status_no_duplicates :: "json \<Rightarrow> cert_error + unit" where
  "check_trust_status_no_duplicates snapshot =
     (case (get_member snapshot ''key_status'', get_member snapshot ''certificate_status'') of
        (JArr keys, JArr certs) \<Rightarrow>
          rbind (fold_steps (add_status_entry [''key_ref'', ''trust_ring_ref'']) [] keys) (\<lambda>_.
          rbind (fold_steps (add_status_entry [''certificate_ref'']) [] certs) (\<lambda>_. Inr ()))
      | _ \<Rightarrow> Inl (Failed ''TRUST_STATUS_SHAPE''))"

definition validate_trust_status_schema :: "cert_env \<Rightarrow> json \<Rightarrow> cert_error + unit" where
  "validate_trust_status_schema env envelope =
     (case schema env TrustStatusSchema envelope of
        Conforms \<Rightarrow> Inr ()
      | Violates \<Rightarrow> Inl (Failed ''TRUST_STATUS_SCHEMA'')
      | DanglingReference \<Rightarrow> Inl (Failed ''SCHEMA_DEPENDENCY'')
      | MissingDependency \<Rightarrow> Inl SchemaDependency
      | _ \<Rightarrow> Inl OtherErr)"

definition anchor_projection :: "trust_anchor_key \<Rightarrow> json" where
  "anchor_projection anchor =
     JObj [(U ''public_key_der_b64'', JStr (anchor_public_key_der_b64 anchor)),
           (U ''public_key_digest'', JStr (anchor_public_key_digest anchor)), (U ''algorithm'', JStr (anchor_algorithm anchor))]"

definition canonical_material :: "byte list \<Rightarrow> json \<Rightarrow> cert_error + byte list" where
  "canonical_material domain t =
     (case canonical_text t of None \<Rightarrow> Inl (Failed ''CANONICALIZATION'') | Some text \<Rightarrow> Inr (domain @ 0 # utf8 text))"

definition timestamp_micros :: "json \<Rightarrow> cert_error + int" where
  "timestamp_micros t = (case t of JStr s \<Rightarrow> utc_microseconds s | _ \<Rightarrow> Inl PyTypeErr)"

definition check_freshness :: "json \<Rightarrow> ustr \<Rightarrow> cert_error + unit" where
  "check_freshness snapshot now =
     rbind (rbind (field snapshot ''effective_time'') timestamp_micros) (\<lambda>effective_us.
     rbind (utc_microseconds now) (\<lambda>verification_us.
     in_turn
       [fail_if (verification_us + TRUST_SKEW_SECONDS * 1000000 < effective_us) ''REVOCATION_STATUS_UNAVAILABLE'',
        fail_if (TRUST_MAX_AGE_SECONDS * 1000000 < verification_us - effective_us) ''REVOCATION_STATUS_UNAVAILABLE'']))"

definition verify_trust_status :: "cert_env \<Rightarrow> json \<Rightarrow> process_context \<Rightarrow> cert_error + json" where
  "verify_trust_status env trust_status ctx =
     rbind (fail_if (trust_status = JNull) ''REVOCATION_STATUS_UNAVAILABLE'') (\<lambda>_.
     rbind (fail_if (\<not> is_dict trust_status) ''TRUST_STATUS_SHAPE'') (\<lambda>_.
     let snapshot = get_member trust_status ''snapshot''; signature = get_member trust_status ''signature'' in
     rbind (in_turn
       [fail_if (\<not> is_dict snapshot \<or> \<not> is_dict signature) ''TRUST_STATUS_SHAPE'',
        fail_if (\<not> py_eq (get_member snapshot ''trust_policy_id'') (jstr TRUST_POLICY_ID) \<or>
          \<not> py_eq (get_member snapshot ''max_age_seconds'') (JInt TRUST_MAX_AGE_SECONDS)) ''TRUST_POLICY_MISMATCH'',
        check_trust_status_list_caps snapshot,
        validate_trust_status_schema env trust_status,
        check_trust_status_no_duplicates snapshot]) (\<lambda>_.
     rbind (process_digest env TRUST_STATUS_DOMAIN snapshot) (\<lambda>d.
     rbind (must_equal ''TRUST_STATUS_DIGEST_MISMATCH'' (field signature ''snapshot_digest'') (Inr (JStr d))) (\<lambda>_.
     rbind (case trust_anchor ctx of None \<Rightarrow> Inl (Failed ''CONTEXT'') | Some anchor \<Rightarrow> Inr anchor) (\<lambda>anchor.
     rbind (in_turn
       [must_equal ''TRUST_ANCHOR_MISMATCH'' (field snapshot ''trust_anchor_ref'') (Inr (JStr (anchor_key_ref anchor))),
        must_equal ''TRUST_ANCHOR_MISMATCH'' (field signature ''trust_anchor_ref'') (Inr (JStr (anchor_key_ref anchor)))]) (\<lambda>_.
     rbind (recast is_failed ''CONTEXT''
              (material_public_key env (anchor_projection anchor) TRUST_ANCHOR_SPKI_DOMAIN)) (\<lambda>public_key.
     rbind (canonical_material TRUST_STATUS_DOMAIN snapshot) (\<lambda>material.
     rbind (field signature ''algorithm'') (\<lambda>algorithm.
     rbind (field signature ''signature'') (\<lambda>encoded.
     rbind (recast is_failed ''TRUST_STATUS_SIGNATURE_INVALID''
              (verify_signature env public_key algorithm material encoded)) (\<lambda>_.
     rbind (check_freshness snapshot (verification_time ctx)) (\<lambda>_.
       Inr snapshot)))))))))))))"

text \<open>The first entry that matches.\<close>

fun first_entry :: "(json \<Rightarrow> cert_error + bool) \<Rightarrow> json list \<Rightarrow> cert_error + json option" where
  "first_entry p [] = Inr None"
| "first_entry p (t # ts) = rbind (p t) (\<lambda>b. if b then Inr (Some t) else first_entry p ts)"

definition field_is :: "json \<Rightarrow> string \<Rightarrow> json \<Rightarrow> cert_error + bool" where
  "field_is t key v = rbind (field t key) (\<lambda>x. Inr (py_eq x v))"

definition key_entry_matches :: "json \<Rightarrow> json \<Rightarrow> json \<Rightarrow> cert_error + bool" where
  "key_entry_matches key_ref ring entry =
     rbind (field_is entry ''key_ref'' key_ref) (\<lambda>b. if b then field_is entry ''trust_ring_ref'' ring else Inr False)"

definition check_status_entry :: "string \<Rightarrow> json option \<Rightarrow> cert_error + unit" where
  "check_status_entry code found =
     (case found of
        None \<Rightarrow> Inl (Failed ''REVOCATION_STATUS_UNAVAILABLE'')
      | Some entry \<Rightarrow> must_equal code (field entry ''status'') (Inr (jstr ''active'')))"

definition check_trust_status_coverage :: "json \<Rightarrow> json \<Rightarrow> json \<Rightarrow> ustr \<Rightarrow> cert_error + unit" where
  "check_trust_status_coverage snapshot issuer_key_ref trust_ring_ref certificate_ref =
     rbind (rbind (field snapshot ''key_status'') iterate) (\<lambda>keys.
     rbind (first_entry (key_entry_matches issuer_key_ref trust_ring_ref) keys) (\<lambda>key_entry.
     rbind (check_status_entry ''KEY_REVOKED'' key_entry) (\<lambda>_.
     rbind (rbind (field snapshot ''certificate_status'') iterate) (\<lambda>certs.
     rbind (first_entry (\<lambda>entry. field_is entry ''certificate_ref'' (JStr certificate_ref)) certs) (\<lambda>cert_entry.
       check_status_entry ''CERTIFICATE_REVOKED'' cert_entry)))))"

section \<open>The unsigned manifest\<close>

definition check_commitment_refs :: "json \<Rightarrow> process_context \<Rightarrow> cert_error + unit" where
  "check_commitment_refs manifest ctx =
     in_turn
       [must_equal ''COMMITMENT_REF_MISMATCH'' (get_item manifest ''agent_commitment_ref'') (Inr (JStr (pr_agent_ref ctx))),
        must_equal ''COMMITMENT_REF_MISMATCH'' (get_item manifest ''dataset_commitment_ref'') (Inr (JStr (pr_dataset_ref ctx))),
        must_equal ''COMMITMENT_REF_MISMATCH'' (get_item manifest ''evaluator_commitment_ref'') (Inr (JStr (pr_evaluator_ref ctx))),
        must_equal ''COMMITMENT_REF_MISMATCH'' (get_item manifest ''build_definition_commitment_ref'')
          (Inr (JStr (pr_build_definition_ref ctx)))]"

record manifest_parts =
  mp_base_digest :: json
  mp_streams :: "json list"
  mp_assertion_digest :: ustr
  mp_report_digest :: ustr
  mp_receipt_bundle_digest :: ustr
  mp_client_root :: json
  mp_support_rows_digest :: ustr
  mp_trust_ring_ref :: json
  mp_issuer_key_ref :: json
  mp_algorithm :: json

definition expected_manifest :: "cert_env \<Rightarrow> process_context \<Rightarrow> manifest_parts \<Rightarrow> json" where
  "expected_manifest env ctx p =
     JObj
       [(U ''schema_version'', jstr ''traigent.process_record.unsigned_manifest.v1''),
        (U ''base_unsigned_manifest_digest'', mp_base_digest p),
        (U ''capture_policy'', CAPTURE_POLICY_IDENTITY env), (U ''process_definition'', PROCESS_DEFINITION_IDENTITY env),
        (U ''project_ref'', JStr (pr_project_ref ctx)), (U ''build_session_ref'', JStr (pr_build_session_ref ctx)),
        (U ''agent_commitment_ref'', JStr (pr_agent_ref ctx)), (U ''dataset_commitment_ref'', JStr (pr_dataset_ref ctx)),
        (U ''evaluator_commitment_ref'', JStr (pr_evaluator_ref ctx)),
        (U ''build_definition_commitment_ref'', JStr (pr_build_definition_ref ctx)),
        (U ''expected_steps'', JArr (map jstr EXPECTED_STEPS)), (U ''expected_steps_digest'', JStr (EXPECTED_STEPS_DIGEST env)),
        (U ''decision_stream'', mp_streams p ! 0), (U ''receipt_event_stream'', mp_streams p ! 1),
        (U ''transition_stream'', mp_streams p ! 2),
        (U ''assertion_digest'', JStr (mp_assertion_digest p)), (U ''process_report_digest'', JStr (mp_report_digest p)),
        (U ''receipt_bundle_digest'', JStr (mp_receipt_bundle_digest p)),
        (U ''client_evidence_manifest_digest'', mp_client_root p),
        (U ''process_claim_support_rows_digest'', JStr (mp_support_rows_digest p)),
        (U ''trust_ring_ref'', mp_trust_ring_ref p), (U ''issuer_key_ref'', mp_issuer_key_ref p),
        (U ''issuer_signature_algorithm'', mp_algorithm p), (U ''coverage'', JArr (map jstr UNSIGNED_MANIFEST_COVERAGE))]"

section \<open>Result\<close>

record process_result =
  result_code :: string
  base_certificate_status_evidence :: string
  result_project_ref :: ustr
  result_build_session_ref :: ustr
  result_agent_ref :: json
  result_dataset_ref :: json
  result_evaluator_ref :: json
  result_build_definition_ref :: json
  result_base_digest :: json
  unsigned_manifest_digest :: ustr
  result_assertion_digest :: ustr
  result_report_digest :: ustr
  result_receipt_bundle_digest :: ustr
  result_support_rows_digest :: ustr
  result_present :: nat
  result_missing :: int
  result_backend_observed :: nat
  result_client_attested :: nat
  receipt_count :: int
  trust_status_evidence :: string
  trust_anchor_ref :: json
  trust_status_effective_time :: json

text \<open>\<open>ProcessRecordVerificationResult.__post_init__\<close>.\<close>

definition result_ok :: "process_result \<Rightarrow> bool" where
  "result_ok r \<longleftrightarrow>
     (result_code r, trust_status_evidence r) \<in>
       {(''PROCESS_RECORD_VERIFIED'', ''checked_active''), (''PROCESS_RECORD_VERIFIED_STATUS_UNCHECKED'', ''not_checked'')}"

definition make_result :: "process_result \<Rightarrow> cert_error + process_result" where
  "make_result r = (if result_ok r then Inr r else Inl PyValueErr)"

section \<open>Verification\<close>

text \<open>An error class that the caller does not catch by name.\<close>

definition foreign :: "cert_error + 'a \<Rightarrow> cert_error + 'a" where
  "foreign r = (case r of Inl e \<Rightarrow> Inl (if is_failed e then OtherErr else e) | Inr x \<Rightarrow> Inr x)"

definition check_issuer_signature :: "cert_env \<Rightarrow> json \<Rightarrow> json \<Rightarrow> json \<Rightarrow> cert_error + ustr" where
  "check_issuer_signature env manifest signature issuer =
     rbind (process_digest env UNSIGNED_MANIFEST_DOMAIN manifest) (\<lambda>d.
     rbind (in_turn
       [must_equal ''UNSIGNED_MANIFEST_DIGEST_MISMATCH'' (field signature ''unsigned_manifest_digest'') (Inr (JStr d)),
        must_equal ''KEY_RING_MISMATCH'' (field signature ''issuer_key_ref'') (field issuer ''key_ref''),
        must_equal ''KEY_RING_MISMATCH'' (field signature ''trust_ring_ref'') (field issuer ''trust_ring_ref''),
        must_equal ''KEY_RING_MISMATCH'' (field signature ''algorithm'') (field issuer ''algorithm'')]) (\<lambda>_.
     rbind (foreign (material_public_key env issuer ISSUER_SPKI_DOMAIN)) (\<lambda>public_key.
     rbind (canonical_material PR_SIGNATURE_DOMAIN manifest) (\<lambda>material.
     rbind (field signature ''algorithm'') (\<lambda>algorithm.
     rbind (field signature ''signature'') (\<lambda>encoded.
     rbind (recast is_failed ''ISSUER_SIGNATURE_INVALID''
              (verify_signature env public_key algorithm material encoded)) (\<lambda>_. Inr d)))))))"

definition check_status :: "cert_env \<Rightarrow> json \<Rightarrow> process_context \<Rightarrow> json \<Rightarrow> cert_error + string \<times> json \<times> json" where
  "check_status env trust_status ctx issuer =
     (if allow_unchecked_base_status ctx then Inr (''not_checked'', JStr [], JStr [])
      else
        rbind (verify_trust_status env trust_status ctx) (\<lambda>snapshot.
        rbind (field issuer ''key_ref'') (\<lambda>key_ref.
        rbind (field issuer ''trust_ring_ref'') (\<lambda>ring.
        rbind (check_trust_status_coverage snapshot key_ref ring (pr_certificate_ref ctx)) (\<lambda>_.
        rbind (field snapshot ''trust_anchor_ref'') (\<lambda>anchor_ref.
        rbind (field snapshot ''effective_time'') (\<lambda>effective.
          Inr (''checked_active'', anchor_ref, effective))))))))"

definition check_record :: "cert_env \<Rightarrow> json \<Rightarrow> process_context \<Rightarrow> cert_error + manifest_parts \<times> report_counts" where
  "check_record env bundle ctx =
     rbind (verify_base_certificate env bundle ctx) (\<lambda>_.
     rbind (field bundle ''base_certificate_v0'') (\<lambda>certificate.
     rbind (field certificate ''subject'') (\<lambda>subject.
     rbind (in_turn
       [must_equal ''SCOPE_MISMATCH'' (field subject ''project_ref'') (Inr (JStr (pr_project_ref ctx))),
        must_equal ''SCOPE_MISMATCH'' (field subject ''build_session_ref'') (Inr (JStr (pr_build_session_ref ctx)))]) (\<lambda>_.
     rbind (field bundle ''unsigned_manifest'') (\<lambda>manifest.
     rbind (path_to certificate [''signatures'', ''unsigned_manifest'', ''manifest_digest'']) (\<lambda>base_digest.
     rbind (must_equal ''BASE_MANIFEST_DIGEST_MISMATCH'' (field manifest ''base_unsigned_manifest_digest'') (Inr base_digest)) (\<lambda>_.
     rbind (check_receipts env bundle (pr_project_ref ctx) (pr_build_session_ref ctx)) (\<lambda>_.
     rbind (compute_stream_indexes bundle) (\<lambda>streams.
     rbind (derive_report env bundle (pr_project_ref ctx) (pr_build_session_ref ctx)) (\<lambda>(report_digest, report, counts).
     rbind (must_equal ''REPORT_MISMATCH'' (Inr report) (field bundle ''report'')) (\<lambda>_.
     rbind (check_assertion env bundle) (\<lambda>assertion_digest.
     rbind (field bundle ''assertion'') (\<lambda>assertion.
     rbind (claim_material_digest env assertion assertion_digest) (\<lambda>material_digest.
     rbind (check_receipt_bundle env bundle) (\<lambda>bundle_digest.
     rbind (rbind (field bundle ''claim_support_rows'') (process_digest env CLAIM_SUPPORT_ROWS_DOMAIN)) (\<lambda>rows_digest.
     rbind (check_support_row bundle assertion_digest report_digest bundle_digest material_digest) (\<lambda>_.
     rbind (check_commitment_refs manifest ctx) (\<lambda>_.
     rbind (path_to bundle [''verification_materials_v0'', ''issuer'']) (\<lambda>issuer.
     rbind (path_to certificate [''audit_report'', ''client_evidence_manifest_root'']) (\<lambda>client_root.
     rbind (field issuer ''trust_ring_ref'') (\<lambda>ring.
     rbind (field issuer ''key_ref'') (\<lambda>key_ref.
     rbind (field issuer ''algorithm'') (\<lambda>algorithm.
     let p = \<lparr>mp_base_digest = base_digest, mp_streams = streams, mp_assertion_digest = assertion_digest,
               mp_report_digest = report_digest, mp_receipt_bundle_digest = bundle_digest, mp_client_root = client_root,
               mp_support_rows_digest = rows_digest, mp_trust_ring_ref = ring, mp_issuer_key_ref = key_ref,
               mp_algorithm = algorithm\<rparr> in
     rbind (must_equal ''UNSIGNED_MANIFEST_MISMATCH'' (Inr (expected_manifest env ctx p)) (Inr manifest)) (\<lambda>_.
       Inr (p, counts)))))))))))))))))))))))))"

definition verify_process_steps :: "cert_env \<Rightarrow> json \<Rightarrow> process_context \<Rightarrow> json \<Rightarrow> cert_error + process_result" where
  "verify_process_steps env bundle ctx trust_status =
     rbind (validate_process_schema env bundle) (\<lambda>_.
     rbind (check_strict_integers bundle) (\<lambda>_.
     rbind (check_record env bundle ctx) (\<lambda>(p, counts).
     rbind (field bundle ''unsigned_manifest'') (\<lambda>manifest.
     rbind (field bundle ''signature'') (\<lambda>signature.
     rbind (path_to bundle [''verification_materials_v0'', ''issuer'']) (\<lambda>issuer.
     rbind (check_issuer_signature env manifest signature issuer) (\<lambda>manifest_digest.
     rbind (check_status env trust_status ctx issuer) (\<lambda>(evidence, anchor_ref, effective).
     rbind (field manifest ''agent_commitment_ref'') (\<lambda>agent.
     rbind (field manifest ''dataset_commitment_ref'') (\<lambda>dataset.
     rbind (field manifest ''evaluator_commitment_ref'') (\<lambda>evaluator.
     rbind (field manifest ''build_definition_commitment_ref'') (\<lambda>build_definition.
     rbind (traverse (\<lambda>index. rbind (field index ''receipt_count'') as_int) (mp_streams p)) (\<lambda>receipt_counts.
       make_result
         \<lparr>result_code =
            (if allow_unchecked_base_status ctx then ''PROCESS_RECORD_VERIFIED_STATUS_UNCHECKED'' else ''PROCESS_RECORD_VERIFIED''),
          base_certificate_status_evidence = ''not_checked'', \<comment> \<open>the one value of a v0 result\<close>
          result_project_ref = pr_project_ref ctx, result_build_session_ref = pr_build_session_ref ctx,
          result_agent_ref = agent, result_dataset_ref = dataset, result_evaluator_ref = evaluator,
          result_build_definition_ref = build_definition, result_base_digest = mp_base_digest p,
          unsigned_manifest_digest = manifest_digest, result_assertion_digest = mp_assertion_digest p,
          result_report_digest = mp_report_digest p, result_receipt_bundle_digest = mp_receipt_bundle_digest p,
          result_support_rows_digest = mp_support_rows_digest p, result_present = present_count counts,
          result_missing = 5 - int (present_count counts), result_backend_observed = backend_observed_count counts,
          result_client_attested = client_attested_count counts, receipt_count = sum_list receipt_counts,
          trust_status_evidence = evidence, trust_anchor_ref = anchor_ref, trust_status_effective_time = effective\<rparr>)))))))))))))"

definition verify_process_record_certificate ::
  "cert_env \<Rightarrow> json \<Rightarrow> process_context \<Rightarrow> json \<Rightarrow> cert_error + process_result" where
  "verify_process_record_certificate env bundle ctx trust_status =
     rbind (in_turn
       [fail_if (allow_unchecked_base_status ctx \<and> trust_status \<noteq> JNull) ''CONTEXT'',
        fail_if (\<not> is_dict bundle) ''BUNDLE_SHAPE'']) (\<lambda>_.
       recast (\<lambda>e. \<not> is_failed e) ''VERIFICATION_FAILED'' (verify_process_steps env bundle ctx trust_status))"

end
