(* ===== verification/ProcessLaws.thy ===== *)
theory ProcessLaws
  imports ProcessVerify RelyingLaws
begin

text \<open>
  What an accepted process record means: receipts in order and without duplicates, a report derived from
  them, a manifest pinned by the caller and signed by the issuer of the base certificate, a fresh and
  active trust status, and the closed vocabulary of failures.
\<close>

section \<open>Receipts\<close>

lemma fold_steps_append: "fold_steps f s (xs @ ys) = rbind (fold_steps f s xs) (\<lambda>s'. fold_steps f s' ys)"
  by (induction xs arbitrary: s) (auto simp: rbind_def split: sum.split)

lemma traverse_append: "traverse f (xs @ ys) = rbind (traverse f xs) (\<lambda>as. rbind (traverse f ys) (\<lambda>bs. Inr (as @ bs)))"
  by (induction xs) (auto simp: rbind_def split: sum.split)

definition receipt_fine :: "cert_env \<Rightarrow> ustr \<Rightarrow> ustr \<Rightarrow> json \<Rightarrow> bool" where
  "receipt_fine env project_ref build_session_ref receipt \<longleftrightarrow>
     field receipt ''project_ref'' = Inr (JStr project_ref) \<and> field receipt ''build_session_ref'' = Inr (JStr build_session_ref) \<and>
     (\<exists>d text. process_digest env RECEIPT_DOMAIN (without_member ''receipt_digest'' receipt) = Inr d \<and>
        field receipt ''receipt_digest'' = Inr (JStr d) \<and> canonical_text receipt = Some text \<and>
        length (utf8 text) \<le> MAX_RECEIPT_BYTES)"

abbreviation seq_of :: "json \<Rightarrow> cert_error + int" where
  "seq_of receipt \<equiv> rbind (field receipt ''seq'') as_int"

lemma receipt_facts:
  assumes "check_receipt env name p s st receipt = Inr st'"
  obtains n ref d where "seq_of receipt = Inr n" "field receipt ''receipt_ref'' = Inr ref" "field receipt ''receipt_digest'' = Inr d"
    "field receipt ''stream_id'' = Inr (jstr name)" "receipt_fine env p s receipt"
    "\<And>m. prev_seq st = Some m \<Longrightarrow> m < n" "list_all (\<lambda>y. \<not> py_eq y ref) (seen_refs st)"
    "list_all (\<lambda>y. \<not> py_eq y d) (seen_digests st)"
    "st' = \<lparr>prev_seq = Some n, seen_refs = ref # seen_refs st, seen_digests = d # seen_digests st\<rparr>"
proof -
  obtain n ref d size where f: "field receipt ''stream_id'' = Inr (jstr name)" "field receipt ''project_ref'' = Inr (JStr p)"
    "field receipt ''build_session_ref'' = Inr (JStr s)" "seq_of receipt = Inr n"
    "\<not> (case prev_seq st of None \<Rightarrow> False | Some prev \<Rightarrow> n \<le> prev)"
    "field receipt ''receipt_ref'' = Inr ref" "field receipt ''receipt_digest'' = Inr d"
    "\<exists>b. seen ref (seen_refs st) = Inr b \<and> (if b then Inr True else seen d (seen_digests st)) = Inr False"
    "must_equal ''RECEIPT_DIGEST_MISMATCH''
              (rbind (process_digest env RECEIPT_DOMAIN (without_member ''receipt_digest'' receipt)) (\<lambda>d. Inr (JStr d)))
              (Inr d) = Inr ()"
    "(case canonical_text receipt of None \<Rightarrow> Inl (Failed ''CANONICALIZATION'') | Some text \<Rightarrow> Inr (length (utf8 text))) = Inr size"
    "\<not> MAX_RECEIPT_BYTES < size"
    "st' = \<lparr>prev_seq = Some n, seen_refs = ref # seen_refs st, seen_digests = d # seen_digests st\<rparr>"
    using assms unfolding check_receipt_def by (auto simp: rbind_Inr_iff must_equal_to_JStr)
  from f(8) have "list_all (\<lambda>y. \<not> py_eq y ref) (seen_refs st)" "list_all (\<lambda>y. \<not> py_eq y d) (seen_digests st)"
    by (auto simp: rbind_Inr_iff seen_def list_ex_iff list_all_iff split: if_splits)
  moreover obtain d' where "process_digest env RECEIPT_DOMAIN (without_member ''receipt_digest'' receipt) = Inr d'" "d = JStr d'"
    using f(9) by (auto simp: must_equal_Inr rbind_Inr_iff)
  moreover obtain canonical where "canonical_text receipt = Some canonical" "size = length (utf8 canonical)"
    using f(10) by (auto split: option.splits)
  moreover have "m < n" if "prev_seq st = Some m" for m using f(5) that by simp
  ultimately show ?thesis using that f(1-4,6,7,11,12) by (auto simp: receipt_fine_def)
qed

lemma stream_facts:
  assumes "fold_steps (check_receipt env name p s) st receipts = Inr st'"
  shows "\<exists>seqs refs digests. traverse seq_of receipts = Inr seqs \<and>
    sorted_wrt (<) ((case prev_seq st of None \<Rightarrow> [] | Some m \<Rightarrow> [m]) @ seqs) \<and>
    traverse (\<lambda>r. field r ''receipt_ref'') receipts = Inr refs \<and> traverse (\<lambda>r. field r ''receipt_digest'') receipts = Inr digests \<and>
    seen_refs st' = rev refs @ seen_refs st \<and> seen_digests st' = rev digests @ seen_digests st \<and>
    (sorted_wrt (\<lambda>y x. \<not> py_eq x y) (seen_refs st) \<longrightarrow> sorted_wrt (\<lambda>y x. \<not> py_eq x y) (seen_refs st')) \<and>
    (sorted_wrt (\<lambda>y x. \<not> py_eq x y) (seen_digests st) \<longrightarrow> sorted_wrt (\<lambda>y x. \<not> py_eq x y) (seen_digests st')) \<and>
    list_all (receipt_fine env p s) receipts"
  using assms
proof (induction receipts arbitrary: st)
  case (Cons receipt receipts)
  then obtain st1 where c: "check_receipt env name p s st receipt = Inr st1"
    "fold_steps (check_receipt env name p s) st1 receipts = Inr st'" by (auto simp: rbind_Inr_iff)
  obtain n ref d where f: "seq_of receipt = Inr n" "field receipt ''receipt_ref'' = Inr ref" "field receipt ''receipt_digest'' = Inr d"
    "field receipt ''stream_id'' = Inr (jstr name)" "receipt_fine env p s receipt" "\<And>m. prev_seq st = Some m \<Longrightarrow> m < n" "list_all (\<lambda>y. \<not> py_eq y ref) (seen_refs st)"
    "list_all (\<lambda>y. \<not> py_eq y d) (seen_digests st)"
    "st1 = \<lparr>prev_seq = Some n, seen_refs = ref # seen_refs st, seen_digests = d # seen_digests st\<rparr>"
    by (rule receipt_facts [OF c(1)]) (rule that)
  have st1: "prev_seq st1 = Some n" "seen_refs st1 = ref # seen_refs st" "seen_digests st1 = d # seen_digests st"
    by (simp_all add: f(9))
  obtain seqs refs digests where i: "traverse seq_of receipts = Inr seqs" "sorted_wrt (<) ([n] @ seqs)"
    "traverse (\<lambda>r. field r ''receipt_ref'') receipts = Inr refs" "traverse (\<lambda>r. field r ''receipt_digest'') receipts = Inr digests"
    "seen_refs st' = rev refs @ ref # seen_refs st" "seen_digests st' = rev digests @ d # seen_digests st"
    "sorted_wrt (\<lambda>y x. \<not> py_eq x y) (ref # seen_refs st) \<longrightarrow> sorted_wrt (\<lambda>y x. \<not> py_eq x y) (seen_refs st')"
    "sorted_wrt (\<lambda>y x. \<not> py_eq x y) (d # seen_digests st) \<longrightarrow> sorted_wrt (\<lambda>y x. \<not> py_eq x y) (seen_digests st')"
    "list_all (receipt_fine env p s) receipts"
    using Cons.IH [OF c(2)] unfolding st1 option.case by blast
  have "sorted_wrt (<) ((case prev_seq st of None \<Rightarrow> [] | Some m \<Rightarrow> [m]) @ n # seqs)"
    using i(2) f(6) by (fastforce split: option.splits)
  moreover have "sorted_wrt (\<lambda>y x. \<not> py_eq x y) (seen_refs st) \<Longrightarrow> sorted_wrt (\<lambda>y x. \<not> py_eq x y) (ref # seen_refs st)"
    "sorted_wrt (\<lambda>y x. \<not> py_eq x y) (seen_digests st) \<Longrightarrow> sorted_wrt (\<lambda>y x. \<not> py_eq x y) (d # seen_digests st)"
    using f(7,8) by (auto simp: list_all_iff)
  moreover have "traverse seq_of (receipt # receipts) = Inr (n # seqs)"
    "traverse (\<lambda>r. field r ''receipt_ref'') (receipt # receipts) = Inr (ref # refs)"
    "traverse (\<lambda>r. field r ''receipt_digest'') (receipt # receipts) = Inr (d # digests)"
    using i(1,3,4) f(1-3) by simp_all
  moreover have "seen_refs st' = rev (ref # refs) @ seen_refs st" "seen_digests st' = rev (d # digests) @ seen_digests st"
    "list_all (receipt_fine env p s) (receipt # receipts)"
    using i(5,6,9) f(5) by simp_all
  ultimately show ?case using i(7,8) by blast
qed (auto split: option.splits)

text \<open>Over all streams.\<close>

definition pairwise_new :: "json list \<Rightarrow> bool" where
  "pairwise_new xs \<longleftrightarrow> sorted_wrt (\<lambda>x y. \<not> py_eq x y) xs"

lemma pairwise_new_rev: "pairwise_new xs \<longleftrightarrow> sorted_wrt (\<lambda>y x. \<not> py_eq x y) (rev xs)"
  by (simp add: pairwise_new_def sorted_wrt_rev)

lemma streams_facts:
  assumes "fold_steps (check_receipt_stream env receipts p s) st names = Inr st'" "pairwise_new (rev (seen_refs (snd st)))"
    "pairwise_new (rev (seen_digests (snd st)))"
  shows "\<exists>streams refs digests. traverse (\<lambda>name. rbind (field receipts name) iterate) names = Inr streams \<and>
    list_all (\<lambda>stream. length stream \<le> MAX_STREAM_ITEMS \<and> (\<exists>seqs. traverse seq_of stream = Inr seqs \<and> sorted_wrt (<) seqs)) streams \<and>
    traverse (\<lambda>r. field r ''receipt_ref'') (concat streams) = Inr refs \<and>
    traverse (\<lambda>r. field r ''receipt_digest'') (concat streams) = Inr digests \<and>
    seen_refs (snd st') = rev refs @ seen_refs (snd st) \<and> seen_digests (snd st') = rev digests @ seen_digests (snd st) \<and>
    pairwise_new (rev (seen_refs (snd st'))) \<and> pairwise_new (rev (seen_digests (snd st'))) \<and>
    list_all (receipt_fine env p s) (concat streams) \<and> fst st' = fst st + length (concat streams)"
  using assms
proof (induction names arbitrary: st)
  case (Cons name names)
  then obtain st1 where c: "check_receipt_stream env receipts p s st name = Inr st1"
    "fold_steps (check_receipt_stream env receipts p s) st1 names = Inr st'" by (auto simp: rbind_Inr_iff)
  obtain stream rs where f: "rbind (field receipts name) iterate = Inr stream" "length stream \<le> MAX_STREAM_ITEMS"
    "fold_steps (check_receipt env name p s) ((snd st)\<lparr>prev_seq := None\<rparr>) stream = Inr rs" "st1 = (fst st + length stream, rs)"
    using c(1) by (auto simp: check_receipt_stream_def rbind_Inr_iff)
  obtain seqs refs digests where g: "traverse seq_of stream = Inr seqs" "sorted_wrt (<) seqs"
    "traverse (\<lambda>r. field r ''receipt_ref'') stream = Inr refs" "traverse (\<lambda>r. field r ''receipt_digest'') stream = Inr digests"
    "seen_refs rs = rev refs @ seen_refs (snd st)" "seen_digests rs = rev digests @ seen_digests (snd st)"
    "pairwise_new (rev (seen_refs rs))" "pairwise_new (rev (seen_digests rs))" "list_all (receipt_fine env p s) stream"
    using stream_facts [OF f(3)] Cons.prems(2,3) by (auto simp: pairwise_new_rev)
  obtain streams refs' digests' where h: "traverse (\<lambda>name. rbind (field receipts name) iterate) names = Inr streams"
    "list_all (\<lambda>stream. length stream \<le> MAX_STREAM_ITEMS \<and> (\<exists>seqs. traverse seq_of stream = Inr seqs \<and> sorted_wrt (<) seqs)) streams"
    "traverse (\<lambda>r. field r ''receipt_ref'') (concat streams) = Inr refs'"
    "traverse (\<lambda>r. field r ''receipt_digest'') (concat streams) = Inr digests'"
    "seen_refs (snd st') = rev refs' @ seen_refs rs" "seen_digests (snd st') = rev digests' @ seen_digests rs"
    "pairwise_new (rev (seen_refs (snd st')))" "pairwise_new (rev (seen_digests (snd st')))"
    "list_all (receipt_fine env p s) (concat streams)" "fst st' = fst st + length stream + length (concat streams)"
    using Cons.IH [OF c(2)] g(7,8) by (auto simp: f(4))
  then show ?case using f(1,2) g
    by (intro exI [of _ "stream # streams"] exI [of _ "refs @ refs'"] exI [of _ "digests @ digests'"]) (auto simp: traverse_append)
qed auto

text \<open>
  C28: When the receipt check accepts, every stream has at most 2048 receipts with strictly
  increasing sequence numbers, all streams together at most 6144, no reference and no digest
  occurs twice across the streams, and every receipt carries the scope and its own digest.
\<close>

theorem receipts_are_ordered_and_unique:
  assumes "check_receipts env bundle project_ref build_session_ref = Inr ()"
  shows "\<exists>receipts streams refs digests. field bundle ''receipts'' = Inr receipts \<and>
    traverse (\<lambda>name. rbind (field receipts name) iterate) STREAM_IDS = Inr streams \<and>
    list_all (\<lambda>stream. length stream \<le> 2048 \<and> (\<exists>seqs. traverse seq_of stream = Inr seqs \<and> sorted_wrt (<) seqs)) streams \<and>
    length (concat streams) \<le> 6144 \<and>
    traverse (\<lambda>r. field r ''receipt_ref'') (concat streams) = Inr refs \<and> pairwise_new refs \<and>
    traverse (\<lambda>r. field r ''receipt_digest'') (concat streams) = Inr digests \<and> pairwise_new digests \<and>
    list_all (receipt_fine env project_ref build_session_ref) (concat streams)"
proof -
  obtain receipts st where c: "field bundle ''receipts'' = Inr receipts"
    "fold_steps (check_receipt_stream env receipts project_ref build_session_ref)
       (0, \<lparr>prev_seq = None, seen_refs = [], seen_digests = []\<rparr>) STREAM_IDS = Inr st" "fst st \<le> MAX_TOTAL_RECEIPTS"
    using assms by (auto simp: check_receipts_def rbind_Inr_iff)
  have "pairwise_new []" by (simp add: pairwise_new_def)
  with streams_facts [OF c(2)] c(1,3) show ?thesis by (auto simp: MAX_STREAM_ITEMS_def MAX_TOTAL_RECEIPTS_def)
qed

section \<open>The report\<close>

definition of_step :: "string \<Rightarrow> json \<Rightarrow> bool" where
  "of_step step receipt \<longleftrightarrow> (case field receipt ''step_id'' of Inl e \<Rightarrow> False | Inr t \<Rightarrow> py_eq t (jstr step))"

lemma selected_last: "selected_receipt flattened step = Inr found \<Longrightarrow> found = find (of_step step) (rev flattened)"
proof (induction flattened arbitrary: found rule: rev_induct)
  case (snoc receipt flattened)
  then show ?case
    by (auto simp: selected_receipt_def fold_steps_append rbind_Inr_iff of_step_def split: if_splits sum.splits)
qed (simp add: selected_receipt_def)

definition row_reports :: "json list \<Rightarrow> string \<Rightarrow> json \<Rightarrow> bool" where
  "row_reports flattened step row \<longleftrightarrow>
     field row ''step_id'' = Inr (jstr step) \<and>
     (case find (of_step step) (rev flattened) of
        None \<Rightarrow> field row ''status'' = Inr (jstr ''missing'')
      | Some receipt \<Rightarrow>
          field row ''status'' = Inr (jstr ''present'') \<and> field row ''observation_kind'' = field receipt ''observation_basis'' \<and>
          field row ''receipt_digest'' = field receipt ''receipt_digest'' \<and>
          field row ''registered_values'' = field receipt ''registered_values'')"

definition row_present :: "json \<Rightarrow> bool" where
  "row_present row \<longleftrightarrow> field row ''status'' = Inr (jstr ''present'')"

lemma report_step_facts:
  assumes "report_step flattened c step = Inr c'"
  shows "\<exists>row. report_rows c' = report_rows c @ [row] \<and> row_reports flattened step row \<and>
    present_count c' = present_count c + (if row_present row then 1 else 0) \<and>
    backend_observed_count c' + client_attested_count c' + present_count c \<le>
      backend_observed_count c + client_attested_count c + present_count c'"
proof -
  obtain found where f: "selected_receipt flattened step = Inr found" using assms by (auto simp: report_step_def rbind_Inr_iff)
  note found = selected_last [OF f]
  show ?thesis
  proof (cases found)
    case None
    then have "c' = c\<lparr>report_rows := report_rows c @ [JObj [(U ''step_id'', jstr step), (U ''status'', jstr ''missing'')]]\<rparr>"
      using assms f by (simp add: report_step_def)
    with None found show ?thesis
      by (intro exI [of _ "JObj [(U ''step_id'', jstr step), (U ''status'', jstr ''missing'')]"])
        (simp add: row_reports_def row_present_def)
  next
    case (Some receipt)
    then obtain basis d regs where "field receipt ''observation_basis'' = Inr basis" "field receipt ''receipt_digest'' = Inr d"
      "field receipt ''registered_values'' = Inr regs" using assms f by (auto simp: report_step_def rbind_Inr_iff)
    with Some show ?thesis using assms f found
      by (auto simp: report_step_def row_reports_def row_present_def Let_def)
  qed
qed

lemma report_fold_facts:
  assumes "fold_steps (report_step flattened) c steps = Inr c'"
  shows "\<exists>rows. report_rows c' = report_rows c @ rows \<and> list_all2 (row_reports flattened) steps rows \<and>
    present_count c' = present_count c + length (filter row_present rows) \<and>
    backend_observed_count c' + client_attested_count c' + present_count c \<le>
      backend_observed_count c + client_attested_count c + present_count c'"
  using assms
proof (induction steps arbitrary: c)
  case (Cons step steps)
  then obtain c1 where c1: "report_step flattened c step = Inr c1" "fold_steps (report_step flattened) c1 steps = Inr c'"
    by (auto simp: rbind_Inr_iff)
  obtain row where r: "report_rows c1 = report_rows c @ [row]" "row_reports flattened step row"
    "present_count c1 = present_count c + (if row_present row then 1 else 0)"
    "backend_observed_count c1 + client_attested_count c1 + present_count c \<le>
      backend_observed_count c + client_attested_count c + present_count c1"
    using report_step_facts [OF c1(1)] by blast
  obtain rows where i: "report_rows c' = report_rows c1 @ rows" "list_all2 (row_reports flattened) steps rows"
    "present_count c' = present_count c1 + length (filter row_present rows)"
    "backend_observed_count c' + client_attested_count c' + present_count c1 \<le>
      backend_observed_count c1 + client_attested_count c1 + present_count c'"
    using Cons.IH [OF c1(2)] by blast
  show ?case
  proof (intro exI [of _ "row # rows"] conjI)
    show "report_rows c' = report_rows c @ row # rows" using i(1) r(1) by simp
    show "list_all2 (row_reports flattened) (step # steps) (row # rows)" using i(2) r(2) by simp
    show "present_count c' = present_count c + length (filter row_present (row # rows))" using i(3) r(3) by simp
  qed (use r(4) i(4) in linarith)
qed simp


section \<open>Acceptance\<close>

lemma py_eq_member:
  assumes "py_eq t u" "is_dict t" "field t k = Inr x"
  shows "\<exists>y. field u k = Inr y \<and> py_eq x y"
proof -
  from assms(2) obtain kts where t: "t = JObj kts" by (cases t) auto
  with assms(1) obtain kus where u: "u = JObj kus"
    and eq: "\<forall>kt \<in> set kts. \<exists>v. map_of kus (fst kt) = Some v \<and> py_eq (snd kt) v" unfolding t py_eq_JObj by blast
  have "(U k, x) \<in> set kts" using assms(3) t by (auto split: option.splits dest: map_of_SomeD)
  with eq u show ?thesis by force
qed

lemma py_eq_text_member: "py_eq t u \<Longrightarrow> is_dict t \<Longrightarrow> field t k = Inr (JStr x) \<Longrightarrow> field u k = Inr (JStr x)"
  using py_eq_member [of t u k "JStr x"] by auto

lemma process_facts:
  assumes "verify_process_record_certificate env b ctx ts = Inr r"
  obtains p counts manifest signature issuer d evidence anchor_ref effective where
    "check_record env b ctx = Inr (p, counts)" "field b ''unsigned_manifest'' = Inr manifest" "field b ''signature'' = Inr signature"
    "path_to b [''verification_materials_v0'', ''issuer''] = Inr issuer"
    "check_issuer_signature env manifest signature issuer = Inr d"
    "check_status env ts ctx issuer = Inr (evidence, anchor_ref, effective)" "result_ok r"
    "result_code r = (if allow_unchecked_base_status ctx then ''PROCESS_RECORD_VERIFIED_STATUS_UNCHECKED'' else ''PROCESS_RECORD_VERIFIED'')"
    "unsigned_manifest_digest r = d" "result_present r = present_count counts" "allow_unchecked_base_status ctx \<Longrightarrow> ts = JNull"
    "result_receipt_bundle_digest r = mp_receipt_bundle_digest p" "result_report_digest r = mp_report_digest p"
    "check_strict_integers b = Inr ()"
  using assms unfolding verify_process_record_certificate_def verify_process_steps_def
  by (auto simp: rbind_Inr_iff make_result_def simp del: path_to.simps split: if_splits)

lemma record_facts:
  assumes "check_record env b ctx = Inr (p, counts)"
  obtains certificate subject manifest report issuer where
    "verify_base_certificate env b ctx = Inr ()" "field b ''base_certificate_v0'' = Inr certificate"
    "field certificate ''subject'' = Inr subject" "field subject ''project_ref'' = Inr (JStr (pr_project_ref ctx))"
    "field b ''unsigned_manifest'' = Inr manifest" "must_equal ''UNSIGNED_MANIFEST_MISMATCH'' (Inr (expected_manifest env ctx p)) (Inr manifest) = Inr ()"
    "check_receipts env b (pr_project_ref ctx) (pr_build_session_ref ctx) = Inr ()"
    "derive_report env b (pr_project_ref ctx) (pr_build_session_ref ctx) = Inr (mp_report_digest p, report, counts)"
    "must_equal ''REPORT_MISMATCH'' (Inr report) (field b ''report'') = Inr ()"
    "check_receipt_bundle env b = Inr (mp_receipt_bundle_digest p)" "check_assertion env b = Inr (mp_assertion_digest p)"
    "path_to b [''verification_materials_v0'', ''issuer''] = Inr issuer" "field issuer ''key_ref'' = Inr (mp_issuer_key_ref p)"
    "field issuer ''trust_ring_ref'' = Inr (mp_trust_ring_ref p)" "field issuer ''algorithm'' = Inr (mp_algorithm p)"
    "path_to certificate [''signatures'', ''unsigned_manifest'', ''manifest_digest''] = Inr (mp_base_digest p)"
  using assms unfolding check_record_def Let_def
  by (auto simp: rbind_Inr_iff must_equal_to_JStr simp del: path_to.simps)

lemma issuer_signature_facts:
  assumes "check_issuer_signature env m signature issuer = Inr d"
  obtains public_key s encoded where "process_digest env UNSIGNED_MANIFEST_DOMAIN m = Inr d"
    "material_public_key env issuer ISSUER_SPKI_DOMAIN = Inr public_key" "canonical_text m = Some s"
    "field signature ''signature'' = Inr encoded" "field signature ''unsigned_manifest_digest'' = Inr (JStr d)"
    "\<exists>algorithm. field signature ''algorithm'' = Inr algorithm \<and>
       verify_signature env public_key algorithm (PR_SIGNATURE_DOMAIN @ 0 # utf8 s) encoded = Inr ()"
proof -
  obtain public_key material algorithm encoded where f: "process_digest env UNSIGNED_MANIFEST_DOMAIN m = Inr d"
    "field signature ''unsigned_manifest_digest'' = Inr (JStr d)"
    "foreign (material_public_key env issuer ISSUER_SPKI_DOMAIN) = Inr public_key"
    "canonical_material PR_SIGNATURE_DOMAIN m = Inr material" "field signature ''algorithm'' = Inr algorithm"
    "field signature ''signature'' = Inr encoded" "verify_signature env public_key algorithm material encoded = Inr ()"
    using assms unfolding check_issuer_signature_def by (auto simp: rbind_Inr_iff must_equal_to_JStr)
  moreover have "material_public_key env issuer ISSUER_SPKI_DOMAIN = Inr public_key"
    using f(3) by (auto simp: foreign_def split: sum.splits)
  moreover obtain s where "canonical_text m = Some s" "material = PR_SIGNATURE_DOMAIN @ 0 # utf8 s"
    using f(4) by (auto simp: canonical_material_def split: option.splits)
  ultimately show ?thesis using that by blast
qed

text \<open>
  C9: An accepted process record has a base certificate accepted under the pinned materials, and
  an unsigned manifest that carries the pinned project, session and four commitment references
  and is signed by the issuer key of the materials.
\<close>

theorem process_record_is_signed_and_pinned:
  assumes "verify_process_record_certificate env b ctx ts = Inr r"
  shows "\<exists>certificate materials m issuer public_key s signature algorithm.
    field b ''base_certificate_v0'' = Inr certificate \<and> field b ''verification_materials_v0'' = Inr materials \<and>
    verify_certificate_with_materials env certificate materials (pr_materials_digest ctx) (pr_certificate_ref ctx)
      (base_context ctx) False = Inr () \<and>
    field b ''unsigned_manifest'' = Inr m \<and>
    field m ''project_ref'' = Inr (JStr (pr_project_ref ctx)) \<and>
    field m ''build_session_ref'' = Inr (JStr (pr_build_session_ref ctx)) \<and>
    field m ''agent_commitment_ref'' = Inr (JStr (pr_agent_ref ctx)) \<and>
    field m ''dataset_commitment_ref'' = Inr (JStr (pr_dataset_ref ctx)) \<and>
    field m ''evaluator_commitment_ref'' = Inr (JStr (pr_evaluator_ref ctx)) \<and>
    field m ''build_definition_commitment_ref'' = Inr (JStr (pr_build_definition_ref ctx)) \<and>
    field materials ''issuer'' = Inr issuer \<and> material_public_key env issuer ISSUER_SPKI_DOMAIN = Inr public_key \<and>
    canonical_text m = Some s \<and> path_to b [''signature'', ''signature''] = Inr signature \<and>
    verify_signature env public_key algorithm (PR_SIGNATURE_DOMAIN @ 0 # utf8 s) signature = Inr ()"
proof -
  obtain p counts m signature issuer d where
    f: "check_record env b ctx = Inr (p, counts)" "field b ''unsigned_manifest'' = Inr m" "field b ''signature'' = Inr signature"
    "path_to b [''verification_materials_v0'', ''issuer''] = Inr issuer" "check_issuer_signature env m signature issuer = Inr d"
    using process_facts [OF assms] by metis
  obtain certificate m' where g: "verify_base_certificate env b ctx = Inr ()" "field b ''base_certificate_v0'' = Inr certificate"
    "field b ''unsigned_manifest'' = Inr m'"
    "must_equal ''UNSIGNED_MANIFEST_MISMATCH'' (Inr (expected_manifest env ctx p)) (Inr m') = Inr ()"
    using record_facts [OF f(1)] by metis
  obtain public_key s encoded where k: "material_public_key env issuer ISSUER_SPKI_DOMAIN = Inr public_key" "canonical_text m = Some s"
    "field signature ''signature'' = Inr encoded"
    "\<exists>algorithm. field signature ''algorithm'' = Inr algorithm \<and>
       verify_signature env public_key algorithm (PR_SIGNATURE_DOMAIN @ 0 # utf8 s) encoded = Inr ()"
    using issuer_signature_facts [OF f(5)] by metis
  have "py_eq (expected_manifest env ctx p) m" using g(3,4) f(2) by (simp add: must_equal_Inr)
  from py_eq_text_member [OF this] have pinned: "field (expected_manifest env ctx p) k = Inr (JStr x) \<Longrightarrow> field m k = Inr (JStr x)" for k x
    by (simp add: expected_manifest_def)
  have "field m ''project_ref'' = Inr (JStr (pr_project_ref ctx))" "field m ''build_session_ref'' = Inr (JStr (pr_build_session_ref ctx))"
    "field m ''agent_commitment_ref'' = Inr (JStr (pr_agent_ref ctx))" "field m ''dataset_commitment_ref'' = Inr (JStr (pr_dataset_ref ctx))"
    "field m ''evaluator_commitment_ref'' = Inr (JStr (pr_evaluator_ref ctx))"
    "field m ''build_definition_commitment_ref'' = Inr (JStr (pr_build_definition_ref ctx))"
    by (rule pinned, simp add: expected_manifest_def)+
  moreover obtain materials where "field b ''verification_materials_v0'' = Inr materials" "field materials ''issuer'' = Inr issuer"
    using f(4) by (auto simp: rbind_Inr_iff)
  moreover have "verify_certificate_with_materials env certificate materials (pr_materials_digest ctx) (pr_certificate_ref ctx)
      (base_context ctx) False = Inr ()"
    using g(1,2) calculation(7) by (simp add: verify_base_certificate_def)
  moreover have "path_to b [''signature'', ''signature''] = Inr encoded" using f(3) k(3) by simp
  ultimately show ?thesis using f(2) g(2) k(1,2,4) by blast
qed

end
