(* ===== verification/TrustLaws.thy ===== *)
theory TrustLaws
  imports ProcessLaws
begin

text \<open>
  A checked trust status: signed by the pinned anchor, fresh, and active for the one entry of the issuer
  key and the one entry of the certificate; then what one signed manifest binds, and which failures leave.
\<close>

section \<open>Trust status\<close>

lemma base_issuer_facts:
  assumes "verify_base_certificate env b ctx = Inr ()" "path_to b [''verification_materials_v0'', ''issuer''] = Inr issuer"
  shows "field issuer ''key_ref'' = Inr (JStr (expected_issuer_key_ref (base_context ctx))) \<and>
    field issuer ''trust_ring_ref'' = Inr (JStr (expected_trust_ring_ref (base_context ctx)))"
proof -
  obtain certificate materials where v: "field b ''verification_materials_v0'' = Inr materials"
    "verify_certificate_with_materials env certificate materials (pr_materials_digest ctx) (pr_certificate_ref ctx) (base_context ctx) False = Inr ()"
    using assms(1) by (auto simp: verify_base_certificate_def rbind_Inr_iff)
  have i: "field materials ''issuer'' = Inr issuer" using assms(2) v(1) by (simp add: rbind_Inr_iff)
  obtain envelope client_key where "check_materials_bindings env envelope materials (pr_certificate_ref ctx) (base_context ctx) client_key = Inr ()"
    using materials_facts [OF v(2)] by metis
  then have "check_issuer_binding issuer (base_context ctx) = Inr ()"
    by (auto simp: check_materials_bindings_def rbind_Inr_iff i simp del: path_to.simps)
  then show ?thesis by (simp add: check_issuer_binding_def must_equal_to_JStr)
qed

lemma trust_status_facts:
  assumes "verify_trust_status env ts ctx = Inr snapshot"
  obtains anchor public_key s algorithm encoded where
    "trust_anchor ctx = Some anchor" "material_public_key env (anchor_projection anchor) TRUST_ANCHOR_SPKI_DOMAIN = Inr public_key"
    "canonical_text snapshot = Some s" "path_to ts [''signature'', ''signature''] = Inr encoded" "field ts ''snapshot'' = Inr snapshot"
    "verify_signature env public_key algorithm (TRUST_STATUS_DOMAIN @ 0 # utf8 s) encoded = Inr ()"
    "check_freshness snapshot (verification_time ctx) = Inr ()" "check_trust_status_no_duplicates snapshot = Inr ()"
    "field snapshot ''trust_anchor_ref'' = Inr (JStr (anchor_key_ref anchor))"
proof -
  let ?snapshot = "get_member ts ''snapshot''" and ?signature = "get_member ts ''signature''"
  obtain anchor public_key material algorithm encoded where
    f: "is_dict ?snapshot" "is_dict ?signature" "check_trust_status_no_duplicates ?snapshot = Inr ()" "trust_anchor ctx = Some anchor"
    "field ?snapshot ''trust_anchor_ref'' = Inr (JStr (anchor_key_ref anchor))"
    "material_public_key env (anchor_projection anchor) TRUST_ANCHOR_SPKI_DOMAIN = Inr public_key"
    "canonical_material TRUST_STATUS_DOMAIN ?snapshot = Inr material" "field ?signature ''signature'' = Inr encoded"
    "verify_signature env public_key algorithm material encoded = Inr ()"
    "check_freshness ?snapshot (verification_time ctx) = Inr ()" "snapshot = ?snapshot"
    using assms unfolding verify_trust_status_def Let_def by (auto simp: rbind_Inr_iff must_equal_to_JStr split: option.splits)
  obtain s where s: "canonical_text ?snapshot = Some s" "material = TRUST_STATUS_DOMAIN @ 0 # utf8 s"
    using f(7) by (auto simp: canonical_material_def split: option.splits)
  have "?snapshot \<noteq> JNull" "?signature \<noteq> JNull" using f(1,2) by auto
  then have "field ts ''snapshot'' = Inr ?snapshot" "field ts ''signature'' = Inr ?signature"
    by (auto intro: get_member_path)
  then show ?thesis using that f s by simp
qed

definition names_key :: "ustr \<Rightarrow> ustr \<Rightarrow> json \<Rightarrow> bool" where
  "names_key key ring entry \<longleftrightarrow> field entry ''key_ref'' = Inr (JStr key) \<and> field entry ''trust_ring_ref'' = Inr (JStr ring)"

definition names_certificate :: "ustr \<Rightarrow> json \<Rightarrow> bool" where
  "names_certificate ref entry \<longleftrightarrow> field entry ''certificate_ref'' = Inr (JStr ref)"

definition is_active :: "json \<Rightarrow> bool" where
  "is_active entry \<longleftrightarrow> field entry ''status'' = Inr (jstr ''active'')"

lemma key_entry_names: "key_entry_matches (JStr key) (JStr ring) entry = Inr True \<longleftrightarrow> names_key key ring entry"
  by (auto simp: key_entry_matches_def field_is_def rbind_Inr_iff names_key_def split: if_splits)

lemma certificate_entry_names: "field_is entry ''certificate_ref'' (JStr ref) = Inr True \<longleftrightarrow> names_certificate ref entry"
  by (auto simp: field_is_def rbind_Inr_iff names_certificate_def)

lemma first_entry_Some: "first_entry p ts = Inr (Some t) \<Longrightarrow> t \<in> set ts \<and> p t = Inr True"
  by (induction ts) (auto simp: rbind_Inr_iff split: if_splits)

text \<open>Entries with the same marker are the same entry.\<close>

lemma add_status_entry_Inr:
  "add_status_entry keys known t = Inr known' \<longleftrightarrow>
   is_dict t \<and> list_all (\<lambda>k. \<not> is_container (get_member t k)) keys \<and>
   list_all (\<lambda>m. \<not> list_all2 py_eq m (map (get_member t) keys)) known \<and> known' = map (get_member t) keys # known"
  by (auto simp: add_status_entry_def Let_def rbind_Inr_iff list_ex_iff list_all_iff split: if_splits)

lemma status_entries_fresh:
  assumes "fold_steps (add_status_entry keys) known ts = Inr known'"
  shows "sorted_wrt (\<lambda>t u. \<not> list_all2 py_eq (map (get_member t) keys) (map (get_member u) keys)) ts \<and>
    list_all (\<lambda>u. list_all (\<lambda>m. \<not> list_all2 py_eq m (map (get_member u) keys)) known) ts"
  using assms
proof (induction ts arbitrary: known)
  case (Cons t ts)
  then have t: "list_all (\<lambda>m. \<not> list_all2 py_eq m (map (get_member t) keys)) known"
    "fold_steps (add_status_entry keys) (map (get_member t) keys # known) ts = Inr known'"
    by (auto simp: rbind_Inr_iff add_status_entry_Inr)
  show ?case using Cons.IH [OF t(2)] t(1) by (auto simp: list_all_iff)
qed simp

lemma sorted_wrt_unique:
  assumes "sorted_wrt (\<lambda>t u. \<not> R t u) ts" "t \<in> set ts" "u \<in> set ts" "R t u" "R u t"
  shows "t = u"
  using assms by (induction ts) auto

lemma named_unique:
  assumes "fold_steps (add_status_entry keys) [] ts = Inr known" "t \<in> set ts" "u \<in> set ts"
    and "map (get_member t) keys = map JStr vs" "map (get_member u) keys = map JStr vs"
  shows "t = u"
proof -
  have "list_all2 py_eq (map JStr vs) (map JStr vs)" by (simp add: list_all2_conv_all_nth)
  then show ?thesis using status_entries_fresh [OF assms(1)] assms(2-5)
    by (intro sorted_wrt_unique [of "\<lambda>t u. list_all2 py_eq (map (get_member t) keys) (map (get_member u) keys)"]) simp_all
qed

lemma field_get_member: "field t k = Inr x \<Longrightarrow> get_member t k = x"
  by (cases t) (auto simp: member_or_def split: option.splits)

lemma field_is_dict: "field t k = Inr x \<Longrightarrow> is_dict t"
  by (cases t) (auto split: option.splits)

lemma status_active:
  assumes "fold_steps (add_status_entry keys) [] ts = Inr known" "first_entry p ts = Inr found" "check_status_entry code found = Inr ()"
    and "\<And>t. p t = Inr True \<longleftrightarrow> N t" "\<And>t. N t \<Longrightarrow> map (get_member t) keys = map JStr vs"
  shows "list_ex N ts \<and> list_all (\<lambda>t. N t \<longrightarrow> is_active t) ts"
proof -
  obtain t where t: "found = Some t" "is_active t"
    using assms(3) by (auto simp: check_status_entry_def must_equal_to_JStr is_active_def split: option.splits)
  have n: "t \<in> set ts" "N t" using first_entry_Some [of p ts t] assms(2,4) t(1) by auto
  have "is_active u" if "u \<in> set ts" "N u" for u
    using named_unique [OF assms(1) that(1) n(1) assms(5) [OF that(2)] assms(5) [OF n(2)]] t(2) by simp
  then show ?thesis using n unfolding list_ex_iff list_all_iff by blast
qed

text \<open>
  C10: When the status is not left unchecked, acceptance means a snapshot signed by the pinned
  trust anchor, not from the future and at most 24 hours old, in which every entry of the issuer
  key and every entry of the certificate is active and both have one.
\<close>

theorem checked_status_is_active_and_fresh:
  assumes "verify_process_record_certificate env b ctx ts = Inr r" "\<not> allow_unchecked_base_status ctx"
  shows "result_code r = ''PROCESS_RECORD_VERIFIED'' \<and>
    (\<exists>snapshot anchor public_key s algorithm signature effective now keys certs.
      field ts ''snapshot'' = Inr snapshot \<and> trust_anchor ctx = Some anchor \<and>
      material_public_key env (anchor_projection anchor) TRUST_ANCHOR_SPKI_DOMAIN = Inr public_key \<and>
      canonical_text snapshot = Some s \<and> path_to ts [''signature'', ''signature''] = Inr signature \<and>
      verify_signature env public_key algorithm (TRUST_STATUS_DOMAIN @ 0 # utf8 s) signature = Inr () \<and>
      rbind (field snapshot ''effective_time'') timestamp_micros = Inr effective \<and>
      utc_microseconds (verification_time ctx) = Inr now \<and> effective \<le> now \<and> now - effective \<le> 86400000000 \<and>
      rbind (field snapshot ''key_status'') iterate = Inr keys \<and>
      list_ex (names_key (expected_issuer_key_ref (base_context ctx)) (expected_trust_ring_ref (base_context ctx))) keys \<and>
      list_all (\<lambda>e. names_key (expected_issuer_key_ref (base_context ctx)) (expected_trust_ring_ref (base_context ctx)) e
        \<longrightarrow> is_active e) keys \<and>
      rbind (field snapshot ''certificate_status'') iterate = Inr certs \<and>
      list_ex (names_certificate (pr_certificate_ref ctx)) certs \<and>
      list_all (\<lambda>e. names_certificate (pr_certificate_ref ctx) e \<longrightarrow> is_active e) certs)"
proof -
  let ?key = "expected_issuer_key_ref (base_context ctx)" and ?ring = "expected_trust_ring_ref (base_context ctx)"
  obtain p counts issuer evidence anchor_ref effective_time where
    f: "check_record env b ctx = Inr (p, counts)" "path_to b [''verification_materials_v0'', ''issuer''] = Inr issuer"
    "check_status env ts ctx issuer = Inr (evidence, anchor_ref, effective_time)"
    "result_code r = (if allow_unchecked_base_status ctx then ''PROCESS_RECORD_VERIFIED_STATUS_UNCHECKED'' else ''PROCESS_RECORD_VERIFIED'')"
    using process_facts [OF assms(1)] by metis
  have "verify_base_certificate env b ctx = Inr ()" using record_facts [OF f(1)] by metis
  note issuer = base_issuer_facts [OF this f(2)]
  obtain snapshot where g: "verify_trust_status env ts ctx = Inr snapshot"
    "check_trust_status_coverage snapshot (JStr ?key) (JStr ?ring) (pr_certificate_ref ctx) = Inr ()"
    using f(3) assms(2) issuer by (auto simp: check_status_def rbind_Inr_iff)
  obtain anchor public_key s algorithm encoded where h: "trust_anchor ctx = Some anchor"
    "material_public_key env (anchor_projection anchor) TRUST_ANCHOR_SPKI_DOMAIN = Inr public_key"
    "canonical_text snapshot = Some s" "path_to ts [''signature'', ''signature''] = Inr encoded" "field ts ''snapshot'' = Inr snapshot"
    "verify_signature env public_key algorithm (TRUST_STATUS_DOMAIN @ 0 # utf8 s) encoded = Inr ()"
    "check_freshness snapshot (verification_time ctx) = Inr ()" "check_trust_status_no_duplicates snapshot = Inr ()"
    using trust_status_facts [OF g(1)] by metis
  obtain effective now where time: "rbind (field snapshot ''effective_time'') timestamp_micros = Inr effective"
    "utc_microseconds (verification_time ctx) = Inr now" "effective \<le> now" "now - effective \<le> 86400000000"
    using h(7) by (auto simp: check_freshness_def rbind_Inr_iff TRUST_SKEW_SECONDS_def TRUST_MAX_AGE_SECONDS_def not_less)
  obtain keys certs key_entry cert_entry where c: "rbind (field snapshot ''key_status'') iterate = Inr keys"
    "first_entry (key_entry_matches (JStr ?key) (JStr ?ring)) keys = Inr key_entry" "check_status_entry ''KEY_REVOKED'' key_entry = Inr ()"
    "rbind (field snapshot ''certificate_status'') iterate = Inr certs"
    "first_entry (\<lambda>entry. field_is entry ''certificate_ref'' (JStr (pr_certificate_ref ctx))) certs = Inr cert_entry"
    "check_status_entry ''CERTIFICATE_REVOKED'' cert_entry = Inr ()"
    using g(2) unfolding check_trust_status_coverage_def by (subst (asm) rbind_Inr_iff, (auto simp: rbind_Inr_iff) [1])
  obtain ks cs known known' where d: "get_member snapshot ''key_status'' = JArr ks" "get_member snapshot ''certificate_status'' = JArr cs"
    "fold_steps (add_status_entry [''key_ref'', ''trust_ring_ref'']) [] ks = Inr known"
    "fold_steps (add_status_entry [''certificate_ref'']) [] cs = Inr known'"
    using h(8) unfolding check_trust_status_no_duplicates_def
    by (cases "get_member snapshot ''key_status''"; cases "get_member snapshot ''certificate_status''") (auto simp: rbind_Inr_iff)
  then have same: "ks = keys" "cs = certs"
    using get_member_path [of snapshot "''key_status''"] get_member_path [of snapshot "''certificate_status''"] c(1,4) by auto
  have "list_ex (names_key ?key ?ring) keys \<and> list_all (\<lambda>e. names_key ?key ?ring e \<longrightarrow> is_active e) keys"
    by (rule status_active [OF d(3) [unfolded same] c(2,3) key_entry_names, of "[?key, ?ring]"])
      (simp add: names_key_def field_get_member)
  moreover have "list_ex (names_certificate (pr_certificate_ref ctx)) certs \<and>
      list_all (\<lambda>e. names_certificate (pr_certificate_ref ctx) e \<longrightarrow> is_active e) certs"
    by (rule status_active [OF d(4) [unfolded same] c(5,6) certificate_entry_names, of "[pr_certificate_ref ctx]"])
      (simp add: names_certificate_def field_get_member)
  moreover have "result_code r = ''PROCESS_RECORD_VERIFIED''" using f(4) assms(2) by simp
  ultimately show ?thesis using h(1-6) time c(1,4) by blast
qed

section \<open>What a signed manifest binds\<close>

lemma receipt_bundle_facts:
  assumes "check_receipt_bundle env b = Inr d" "field b ''receipts'' = Inr receipts"
  obtains s where "canonical_text (without_member ''receipt_bundle_digest'' receipts) = Some s"
    "d = SHA256_PREFIX @ hexdigest (hash env (RECEIPT_BUNDLE_DOMAIN @ 0 # utf8 s))" "is_dict receipts"
  using assms by (auto simp: check_receipt_bundle_def self_digest_def process_digest_def rbind_Inr_iff split: option.splits if_splits)

text \<open>
  C30: Two accepted process records whose unsigned manifests have the same canonical bytes carry
  the same receipts, or their receipt bundles collide under the hash.
\<close>

theorem manifest_binds_receipts:
  assumes "verify_process_record_certificate env b ctx ts = Inr r" "verify_process_record_certificate env b' ctx' ts' = Inr r'"
    and "parsed b" "parsed b'" "field b ''receipts'' = Inr x" "field b' ''receipts'' = Inr x'"
    and m: "field b ''unsigned_manifest'' = Inr m" "field b' ''unsigned_manifest'' = Inr m'"
      "canonical_text m = Some s" "canonical_text m' = Some s'" "utf8 s = utf8 s'"
  shows "Fp2Text.norm (without_member ''receipt_bundle_digest'' x) = Fp2Text.norm (without_member ''receipt_bundle_digest'' x') \<or>
    (\<exists>t t'. canonical_text (without_member ''receipt_bundle_digest'' x) = Some t \<and>
       canonical_text (without_member ''receipt_bundle_digest'' x') = Some t' \<and>
       RECEIPT_BUNDLE_DOMAIN @ 0 # utf8 t \<noteq> RECEIPT_BUNDLE_DOMAIN @ 0 # utf8 t' \<and>
       hash env (RECEIPT_BUNDLE_DOMAIN @ 0 # utf8 t) = hash env (RECEIPT_BUNDLE_DOMAIN @ 0 # utf8 t'))"
proof -
  have pinned: "\<exists>p counts. check_record env b ctx = Inr (p, counts) \<and> field m ''receipt_bundle_digest'' = Inr (JStr (mp_receipt_bundle_digest p)) \<and>
      check_receipt_bundle env b = Inr (mp_receipt_bundle_digest p)"
    if V: "verify_process_record_certificate env b ctx ts = Inr r" and M: "field b ''unsigned_manifest'' = Inr m" for b ctx ts r m
  proof -
    obtain p counts where c: "check_record env b ctx = Inr (p, counts)" using process_facts [OF V] by metis
    obtain m' where g: "field b ''unsigned_manifest'' = Inr m'" "check_receipt_bundle env b = Inr (mp_receipt_bundle_digest p)"
      "must_equal ''UNSIGNED_MANIFEST_MISMATCH'' (Inr (expected_manifest env ctx p)) (Inr m') = Inr ()"
      using record_facts [OF c] by metis
    have "py_eq (expected_manifest env ctx p) m" using g(1,3) M by (simp add: must_equal_Inr)
    then have "field m ''receipt_bundle_digest'' = Inr (JStr (mp_receipt_bundle_digest p))"
      by (rule py_eq_text_member) (simp_all add: expected_manifest_def)
    with c g(2) show ?thesis by blast
  qed
  obtain d d' where d: "field m ''receipt_bundle_digest'' = Inr (JStr d)" "check_receipt_bundle env b = Inr d"
    "field m' ''receipt_bundle_digest'' = Inr (JStr d')" "check_receipt_bundle env b' = Inr d'"
    using pinned [OF assms(1) m(1)] pinned [OF assms(2) m(2)] by blast
  have parsed: "parsed m" "parsed m'" "parsed x" "parsed x'"
    using subscript_parsed assms(3-6) m(1,2) by blast+
  have "Fp2Text.norm m = Fp2Text.norm m'"
    using canonical_bytes_bind [OF m(3-5)] parsed(1,2) by (simp add: parsed_def)
  then have "py_eq m m'" using norm_py_eq parsed(1,2) by (simp add: parsed_def)
  then have "field m' ''receipt_bundle_digest'' = Inr (JStr d)"
    by (rule py_eq_text_member [OF _ field_is_dict [OF d(1)] d(1)])
  then have same: "d' = d" using d(3) by simp
  obtain t where t: "canonical_text (without_member ''receipt_bundle_digest'' x) = Some t"
    "d = SHA256_PREFIX @ hexdigest (hash env (RECEIPT_BUNDLE_DOMAIN @ 0 # utf8 t))" "is_dict x"
    by (rule receipt_bundle_facts [OF d(2) assms(5)])
  obtain t' where t': "canonical_text (without_member ''receipt_bundle_digest'' x') = Some t'"
    "d' = SHA256_PREFIX @ hexdigest (hash env (RECEIPT_BUNDLE_DOMAIN @ 0 # utf8 t'))" "is_dict x'"
    by (rule receipt_bundle_facts [OF d(4) assms(6)])
  show ?thesis
  proof (cases "utf8 t = utf8 t'")
    case True
    have "wf_tree (without_member ''receipt_bundle_digest'' x)" "wf_tree (without_member ''receipt_bundle_digest'' x')"
      using without_member_wf parsed(3,4) by (auto simp: parsed_def)
    from canonical_bytes_bind [OF t(1) t'(1) True this] show ?thesis by (rule disjI1)
  next
    case False
    then show ?thesis using t(1,2) t'(1,2) same by (intro disjI2 exI [of _ t] exI [of _ t'] conjI) simp_all
  qed
qed

section \<open>Codes\<close>

definition process_code :: "cert_error \<Rightarrow> bool" where
  "process_code e \<longleftrightarrow> is_failed e \<longrightarrow> e \<in> Failed ` set PROCESS_RECORD_ERROR_CODES"

lemma process_code_simps [simp]: "process_code PyKeyErr" "process_code PyTypeErr" "process_code OtherErr" "process_code PyValueErr"
  "process_code SchemaDependency" "process_code (Failed code) \<longleftrightarrow> code \<in> set PROCESS_RECORD_ERROR_CODES"
  by (auto simp: process_code_def)

lemma process_access [errors_intros]:
  "errors_in process_code (subscript t k)" "errors_in process_code (path_to t ks)" "errors_in process_code (iterate t)"
  "errors_in process_code (has_key t k')" "errors_in process_code (get_item t k')"
  by (rule access_errors [THEN errors_in_mono], auto simp: access_error_def)+

lemma process_recast: "code \<in> set PROCESS_RECORD_ERROR_CODES \<Longrightarrow> errors_in process_code (recast is_failed code r)"
  by (rule errors_in_recast) (auto simp: errors_in_def process_code_def)

lemma process_foreign [errors_intros]: "errors_in process_code (foreign r)"
  by (auto simp: errors_in_def foreign_def process_code_def split: sum.splits)

lemma process_scalars [errors_intros]: "errors_in process_code (as_int t)" "errors_in process_code (require_int t)"
  "errors_in process_code (utc_microseconds v)" "errors_in process_code (canonical_material domain t)"
  "errors_in process_code (process_digest env domain t)" "errors_in process_code (seen t ts)"
  "errors_in process_code (make_result r)"
  by (cases t; auto simp: errors_in_def as_int_def PROCESS_RECORD_ERROR_CODES_def utc_microseconds_def canonical_material_def
      process_digest_def seen_def make_result_def Let_def split: option.splits)+

lemma process_timestamp [errors_intros]: "errors_in process_code (timestamp_micros t)"
  by (cases t) (auto simp: timestamp_micros_def intro: errors_intros)

lemmas process_codes = PROCESS_RECORD_ERROR_CODES_def

lemma process_code_strict [errors_intros]: "errors_in process_code (check_strict_integers b)"
  unfolding check_strict_integers_def check_stream_integers_def check_registered_values_strict_def require_nullable_int_def
  by (intro errors_intros)

lemma process_code_schema [errors_intros]: "errors_in process_code (validate_process_schema env b)"
  "errors_in process_code (validate_trust_status_schema env b)"
  by (auto simp: errors_in_def validate_process_schema_def validate_trust_status_schema_def process_codes split: schema_outcome.splits)

lemma process_code_base [errors_intros]: "errors_in process_code (verify_base_certificate env b ctx)"
  unfolding verify_base_certificate_def by (intro errors_intros process_recast) (simp add: process_codes)

lemma process_code_option [errors_intros]: "errors_in process_code (case o' of None \<Rightarrow> Inl (Failed ''CANONICALIZATION'') | Some x \<Rightarrow> Inr (f x))"
  by (cases o') (auto simp: errors_in_def process_codes)

lemma process_code_receipts [errors_intros]: "errors_in process_code (check_receipts env b p s)"
  unfolding check_receipts_def check_receipt_stream_def check_receipt_def by (intro errors_intros) (simp_all add: process_codes)

lemma process_code_indexes [errors_intros]: "errors_in process_code (compute_stream_indexes b)"
  unfolding compute_stream_indexes_def stream_index_def by (intro errors_intros) (simp_all add: process_codes)

lemma process_code_report [errors_intros]: "errors_in process_code (derive_report env b p s)"
  unfolding derive_report_def report_step_def selected_receipt_def Let_def by (intro errors_intros)

lemma process_code_digests [errors_intros]: "errors_in process_code (check_assertion env b)"
  "errors_in process_code (check_receipt_bundle env b)" "errors_in process_code (claim_material_digest env a d)"
  "errors_in process_code (check_support_row b d1 d2 d3 d4)" "errors_in process_code (check_commitment_refs m ctx)"
  unfolding check_assertion_def check_receipt_bundle_def claim_material_digest_def check_support_row_def check_commitment_refs_def self_digest_def
  by (intro errors_intros; simp add: process_codes)+

lemma process_code_record [errors_intros]: "errors_in process_code (check_record env b ctx)"
  unfolding check_record_def Let_def by (intro errors_intros) (simp_all add: process_codes)

lemma process_code_signature [errors_intros]: "errors_in process_code (check_issuer_signature env m sig issuer)"
  unfolding check_issuer_signature_def by (intro errors_intros process_recast) (simp_all add: process_codes)

lemma process_code_entries [errors_intros]: "errors_in process_code (first_entry p ts)" if "\<And>t. errors_in process_code (p t)"
  using that by (induction ts) (auto intro!: errors_intros)

lemma process_code_trust [errors_intros]: "errors_in process_code (verify_trust_status env ts ctx)"
proof -
  have "errors_in process_code (check_trust_status_list_caps t)" "errors_in process_code (check_trust_status_no_duplicates t)" for t
    unfolding check_trust_status_list_caps_def check_trust_status_no_duplicates_def add_status_entry_def Let_def
    by (auto intro!: errors_intros simp: process_codes split: json.split)
  then show ?thesis
    unfolding verify_trust_status_def check_freshness_def Let_def
    by (intro errors_intros process_recast) (simp_all add: process_codes)
qed

lemma process_code_coverage [errors_intros]: "errors_in process_code (check_trust_status_coverage t k ring ref)"
  unfolding check_trust_status_coverage_def key_entry_matches_def field_is_def check_status_entry_def
  by (intro errors_intros) (simp_all add: process_codes)

text \<open>
  The verifier fails only with a code of its closed vocabulary.
\<close>

theorem process_record_errors:
  "verify_process_record_certificate env b ctx ts = Inl e \<Longrightarrow> e \<in> Failed ` set PROCESS_RECORD_ERROR_CODES"
proof -
  assume e: "verify_process_record_certificate env b ctx ts = Inl e"
  have "errors_in process_code (verify_process_steps env b ctx ts)"
    unfolding verify_process_steps_def check_status_def by (intro errors_intros)
  then have "e = Failed ''CONTEXT'' \<or> e = Failed ''BUNDLE_SHAPE'' \<or> e = Failed ''VERIFICATION_FAILED'' \<or> is_failed e \<and> process_code e"
    using e by (auto simp: verify_process_record_certificate_def recast_Inl in_turn_def raise_if_def fail_if_def rbind_Inl_iff
        dest: errors_inD split: if_splits)
  then show ?thesis by (auto simp: process_code_def process_codes)
qed

end
