(* ===== verification/ProcessDemo.thy ===== *)
theory ProcessDemo
  imports TrustLaws MaterialsDemo PrepareDemo
begin

text \<open>
  A process record of one receipt over the accepted base certificate, with an active and fresh trust status,
  that the verifier accepts, and the witnesses over it.
\<close>

section \<open>The bundle\<close>

definition demo_receipt :: json where
  "demo_receipt = JObj [(U ''stream_id'', jstr ''decision_stream''), (U ''project_ref'', jstr ''p1''), (U ''build_session_ref'', jstr ''ses''),
     (U ''seq'', JInt 1), (U ''receipt_ref'', jstr ''rcp''), (U ''receipt_digest'', JStr dig), (U ''step_id'', jstr ''prepare''),
     (U ''observation_basis'', jstr ''backend_observed''), (U ''registered_values'', JObj [(U ''accuracy_ppm'', JInt 5)])]"

definition demo_receipts :: json where
  "demo_receipts = JObj [(U ''decision_stream'', JArr [demo_receipt]), (U ''receipt_event_stream'', JArr []),
     (U ''transition_stream'', JArr []), (U ''receipt_bundle_digest'', JStr dig)]"

definition demo_index :: json where
  "demo_index = JObj [(U ''sequence_values'', JArr [JInt 1]), (U ''receipt_digests'', JArr [JStr dig]), (U ''first_seq'', JInt 1),
     (U ''last_seq'', JInt 1), (U ''receipt_count'', JInt 1)]"

definition empty_index :: json where
  "empty_index = JObj [(U ''sequence_values'', JArr []), (U ''receipt_digests'', JArr []), (U ''first_seq'', JNull),
     (U ''last_seq'', JNull), (U ''receipt_count'', JInt 0)]"

definition missing_row :: "string \<Rightarrow> json" where
  "missing_row step = JObj [(U ''step_id'', jstr step), (U ''status'', jstr ''missing'')]"

definition present_row :: json where
  "present_row = JObj [(U ''step_id'', jstr ''prepare''), (U ''status'', jstr ''present''), (U ''observation_kind'', jstr ''backend_observed''),
     (U ''receipt_digest'', JStr dig), (U ''registered_values'', JObj [(U ''accuracy_ppm'', JInt 5)])]"

definition demo_counts :: report_counts where
  "demo_counts = \<lparr>report_rows = [present_row, missing_row ''evaluate'', missing_row ''aggregate'', missing_row ''select'', missing_row ''finalize''],
     present_count = 1, backend_observed_count = 1, client_attested_count = 0\<rparr>"

definition demo_identity :: "string \<Rightarrow> json" where
  "demo_identity what = (if what = ''policy''
     then JObj [(U ''policy_id'', jstr ''traigent.capture_policy.asap.v1''), (U ''policy_version'', jstr ''1.0.0''), (U ''policy_digest'', JStr dig)]
     else JObj [(U ''definition_id'', jstr ''traigent.process_definition.asap.v1''), (U ''definition_version'', jstr ''1.0.0''),
            (U ''definition_digest'', JStr dig)])"

definition demo_report_body :: "(ustr \<times> json) list" where
  "demo_report_body =
     [(U ''schema_version'', jstr ''traigent.process_record.report.v1''), (U ''project_ref'', jstr ''p1''),
      (U ''build_session_ref'', jstr ''ses''), (U ''capture_policy'', demo_identity ''policy''),
      (U ''process_definition'', demo_identity ''definition''), (U ''expected_step_count'', JInt 5),
      (U ''rows'', JArr (report_rows demo_counts)), (U ''present_count'', JInt 1), (U ''missing_count'', JInt 4),
      (U ''backend_observed_present_count'', JInt 1), (U ''client_attested_present_count'', JInt 0)]"

definition demo_report :: json where
  "demo_report = JObj (demo_report_body @ [(U ''report_digest'', JStr dig)])"

definition demo_assertion :: json where
  "demo_assertion = JObj [(U ''capture_policy'', demo_identity ''policy''), (U ''assertion_template_id'', jstr ''tmpl''),
     (U ''rendered_text'', jstr ''text''), (U ''assertion_digest'', JStr dig)]"

definition demo_support_row :: json where
  "demo_support_row = JObj [(U ''claim_id'', jstr ''PROC1''), (U ''evidence_basis'', jstr ''issuer_verified''),
     (U ''assertion_digest'', JStr dig), (U ''process_report_digest'', JStr dig), (U ''receipt_bundle_digest'', JStr dig),
     (U ''verifier_result'', jstr ''pass''), (U ''claim_material_digest'', JStr dig)]"

definition demo_anchor :: trust_anchor_key where
  "demo_anchor = \<lparr>anchor_key_ref = U ''ta'', anchor_algorithm = U ''ed25519'', anchor_public_key_der_b64 = std_b64 [1],
     anchor_public_key_digest = dig\<rparr>"

definition demo_process_context :: process_context where
  "demo_process_context = \<lparr>pr_materials_digest = dig, pr_certificate_ref = U ''cref'', base_context = demo_context,
     pr_project_ref = U ''p1'', pr_build_session_ref = U ''ses'', pr_agent_ref = dig, pr_dataset_ref = dig, pr_evaluator_ref = dig,
     pr_build_definition_ref = dig, allow_unchecked_base_status = False, verification_time = U ''2026-01-02T00:00:00Z'',
     trust_anchor = Some demo_anchor\<rparr>"

definition demo_parts :: manifest_parts where
  "demo_parts = \<lparr>mp_base_digest = JStr dig, mp_streams = [demo_index, empty_index, empty_index], mp_assertion_digest = dig,
     mp_report_digest = dig, mp_receipt_bundle_digest = dig, mp_client_root = JStr dig, mp_support_rows_digest = dig,
     mp_trust_ring_ref = jstr ''tr'', mp_issuer_key_ref = jstr ''ik'', mp_algorithm = jstr ''ed25519''\<rparr>"

definition demo_record_manifest :: json where
  "demo_record_manifest = expected_manifest demo_env demo_process_context demo_parts"

definition demo_record_signature :: json where
  "demo_record_signature = JObj [(U ''unsigned_manifest_digest'', JStr dig), (U ''issuer_key_ref'', jstr ''ik''),
     (U ''trust_ring_ref'', jstr ''tr''), (U ''algorithm'', jstr ''ed25519''), (U ''signature'', demo_signature)]"

definition demo_record :: json where
  "demo_record = JObj [(U ''base_certificate_v0'', demo_certificate), (U ''verification_materials_v0'', demo_bundle),
     (U ''unsigned_manifest'', demo_record_manifest), (U ''receipts'', demo_receipts), (U ''report'', demo_report),
     (U ''assertion'', demo_assertion), (U ''claim_support_rows'', JArr [demo_support_row]), (U ''signature'', demo_record_signature)]"

definition demo_key_status :: json where
  "demo_key_status = JObj [(U ''key_ref'', jstr ''ik''), (U ''trust_ring_ref'', jstr ''tr''), (U ''status'', jstr ''active'')]"

definition demo_certificate_status :: json where
  "demo_certificate_status = JObj [(U ''certificate_ref'', jstr ''cref''), (U ''status'', jstr ''active'')]"

definition demo_snapshot :: json where
  "demo_snapshot = JObj [(U ''trust_policy_id'', jstr TRUST_POLICY_ID), (U ''max_age_seconds'', JInt 86400),
     (U ''key_status'', JArr [demo_key_status]), (U ''certificate_status'', JArr [demo_certificate_status]),
     (U ''trust_anchor_ref'', jstr ''ta''), (U ''effective_time'', jstr ''2026-01-01T12:00:00Z'')]"

definition demo_status_signature :: json where
  "demo_status_signature = JObj [(U ''snapshot_digest'', JStr dig), (U ''trust_anchor_ref'', jstr ''ta''),
     (U ''algorithm'', jstr ''ed25519''), (U ''signature'', demo_signature)]"

definition demo_trust_status :: json where
  "demo_trust_status = JObj [(U ''snapshot'', demo_snapshot), (U ''signature'', demo_status_signature)]"

section \<open>It is accepted\<close>

lemma fine_ints: "fine (JInt 0)" "fine (JInt 1)" "fine (JInt 3)" "fine (JInt 4)" "fine (JInt 5)" "fine (JInt 86400)"
  by (simp_all add: fine_scalar MAX_SAFE_INTEGER_def int_text_def digit_chars_def nat_digits.simps)

lemma demo_identities: "CAPTURE_POLICY_IDENTITY demo_env = demo_identity ''policy''"
  "PROCESS_DEFINITION_IDENTITY demo_env = demo_identity ''definition''" "EXPECTED_STEPS_DIGEST demo_env = dig"
  by (simp_all add: CAPTURE_POLICY_IDENTITY_def PROCESS_DEFINITION_IDENTITY_def EXPECTED_STEPS_DIGEST_def registry_digest_def demo_identity_def)
    (simp_all add: demo_env_def dig_def)

lemma demo_process_digest: "good 100 t \<Longrightarrow> process_digest demo_env domain t = Inr dig"
  by (simp add: process_digest_def good_text) (simp add: demo_env_def dig_def)

lemmas record_rules = good_rules fine_ints demo_identity_def

lemma good_record_parts:
  "20 \<le> n \<Longrightarrow> good n demo_receipt" "20 \<le> n \<Longrightarrow> good n demo_receipts" "20 \<le> n \<Longrightarrow> good n demo_index" "20 \<le> n \<Longrightarrow> good n empty_index"
  "20 \<le> n \<Longrightarrow> good n (JObj demo_report_body)" "20 \<le> n \<Longrightarrow> good n demo_report" "20 \<le> n \<Longrightarrow> good n demo_assertion"
  "20 \<le> n \<Longrightarrow> good n demo_support_row" "20 \<le> n \<Longrightarrow> good n demo_snapshot"
  by (simp_all add: demo_receipt_def demo_receipts_def demo_index_def empty_index_def demo_report_body_def demo_report_def
      demo_assertion_def demo_support_row_def demo_snapshot_def demo_counts_def present_row_def missing_row_def demo_key_status_def
      demo_certificate_status_def TRUST_POLICY_ID_def record_rules)

lemma good_record_manifest: "good 100 demo_record_manifest"
  by (simp add: demo_record_manifest_def expected_manifest_def demo_identities demo_parts_def demo_process_context_def EXPECTED_STEPS_def
      UNSIGNED_MANIFEST_COVERAGE_def demo_index_def empty_index_def record_rules)

lemma good_projections: "good 100 (without_member ''receipt_digest'' demo_receipt)" "good 100 (without_member ''receipt_bundle_digest'' demo_receipts)"
  "good 100 (without_member ''assertion_digest'' demo_assertion)"
  by (simp_all add: without_member_def demo_receipt_def demo_receipts_def demo_assertion_def record_rules)

lemma record_field [simp]:
  "field demo_record ''base_certificate_v0'' = Inr demo_certificate" "field demo_record ''verification_materials_v0'' = Inr demo_bundle"
  "field demo_record ''unsigned_manifest'' = Inr demo_record_manifest" "field demo_record ''receipts'' = Inr demo_receipts"
  "field demo_record ''report'' = Inr demo_report" "field demo_record ''assertion'' = Inr demo_assertion"
  "field demo_record ''claim_support_rows'' = Inr (JArr [demo_support_row])" "field demo_record ''signature'' = Inr demo_record_signature"
  "is_dict demo_record"
  by (simp_all add: demo_record_def)

lemma receipt_field [simp]:
  "field demo_receipt ''stream_id'' = Inr (jstr ''decision_stream'')" "field demo_receipt ''project_ref'' = Inr (jstr ''p1'')"
  "field demo_receipt ''build_session_ref'' = Inr (jstr ''ses'')" "field demo_receipt ''seq'' = Inr (JInt 1)"
  "field demo_receipt ''receipt_ref'' = Inr (jstr ''rcp'')" "field demo_receipt ''receipt_digest'' = Inr (JStr dig)"
  "field demo_receipt ''step_id'' = Inr (jstr ''prepare'')" "field demo_receipt ''observation_basis'' = Inr (jstr ''backend_observed'')"
  "field demo_receipt ''registered_values'' = Inr (JObj [(U ''accuracy_ppm'', JInt 5)])"
  "field demo_receipts ''decision_stream'' = Inr (JArr [demo_receipt])" "field demo_receipts ''receipt_event_stream'' = Inr (JArr [])"
  "field demo_receipts ''transition_stream'' = Inr (JArr [])" "field demo_receipts ''receipt_bundle_digest'' = Inr (JStr dig)"
  "is_dict demo_receipts"
  by (simp_all add: demo_receipt_def demo_receipts_def)

lemma manifest_field [simp]:
  "field demo_record_manifest ''decision_stream'' = Inr demo_index" "field demo_record_manifest ''receipt_event_stream'' = Inr empty_index"
  "field demo_record_manifest ''transition_stream'' = Inr empty_index"
  "field demo_record_manifest ''base_unsigned_manifest_digest'' = Inr (JStr dig)"
  "field demo_record_manifest ''agent_commitment_ref'' = Inr (JStr dig)" "field demo_record_manifest ''dataset_commitment_ref'' = Inr (JStr dig)"
  "field demo_record_manifest ''evaluator_commitment_ref'' = Inr (JStr dig)"
  "field demo_record_manifest ''build_definition_commitment_ref'' = Inr (JStr dig)" "is_dict demo_record_manifest"
  by (simp_all add: demo_record_manifest_def expected_manifest_def demo_parts_def demo_process_context_def numeral_2_eq_2)

lemma demo_integers: "check_strict_integers demo_record = Inr ()"
proof -
  have "check_registered_values_strict (JObj [(U ''accuracy_ppm'', JInt 5)]) = Inr ()"
    by (simp add: check_registered_values_strict_def REGISTERED_VALUE_INT_FIELDS_def)
  then have "check_all (check_stream_integers demo_record_manifest demo_receipts) STREAM_IDS = Inr ()"
    "field present_row ''registered_values'' = Inr (JObj [(U ''accuracy_ppm'', JInt 5)])"
    "check_registered_values_strict (JObj [(U ''accuracy_ppm'', JInt 5)]) = Inr ()"
    by (simp_all add: STREAM_IDS_def check_stream_integers_def present_row_def)
      (simp_all add: demo_index_def empty_index_def require_nullable_int_def)
  then show ?thesis
    by (simp add: check_strict_integers_def) (simp add: demo_report_def demo_report_body_def demo_counts_def missing_row_def, simp add: present_row_def)
qed

lemma text_size: "ascii_text_size s \<le> 12 * length s + 2"
  unfolding ascii_text_size_def by (induction s) (auto simp: ascii_char_size_def)

lemma receipt_size: "value_size demo_receipt \<le> 8192"
proof -
  have "ascii_text_size (U s) \<le> 12 * length s + 2" for s using text_size [of "U s"] by simp
  note size = this [of "''stream_id''"] this [of "''decision_stream''"] this [of "''project_ref''"] this [of "''p1''"]
    this [of "''build_session_ref''"] this [of "''ses''"] this [of "''seq''"] this [of "''receipt_ref''"] this [of "''rcp''"]
    this [of "''receipt_digest''"] this [of "''step_id''"] this [of "''prepare''"] this [of "''observation_basis''"]
    this [of "''backend_observed''"] this [of "''registered_values''"] this [of "''accuracy_ppm''"]
  have "length (int_text 1) = 1" "length (int_text 5) = 1"
    by (simp_all add: int_text_def digit_chars_def nat_digits.simps)
  then show ?thesis using size text_size [of dig] by (simp add: demo_receipt_def)
qed

lemma receipt_numbers: "wf_tree demo_receipt" "safe_numbers demo_receipt"
  using good_record_parts(1) [of 20] by (simp_all add: good_def fine_def parsed_def) (simp add: demo_receipt_def MAX_SAFE_INTEGER_def)

lemma demo_receipts_ok: "check_receipts demo_env demo_record (U ''p1'') (U ''ses'') = Inr ()"
proof -
  have short: "length (utf8 (canon demo_receipt)) \<le> 8192"
    using receipt_size canon_bytes [of demo_receipt] receipt_numbers by simp
  have "check_receipt demo_env ''decision_stream'' (U ''p1'') (U ''ses'') \<lparr>prev_seq = None, seen_refs = [], seen_digests = []\<rparr> demo_receipt =
      Inr \<lparr>prev_seq = Some 1, seen_refs = [jstr ''rcp''], seen_digests = [JStr dig]\<rparr>"
    using short by (simp add: check_receipt_def as_int_def seen_def demo_process_digest good_projections good_text good_record_parts MAX_RECEIPT_BYTES_def)
  then show ?thesis
    by (simp add: check_receipts_def check_receipt_stream_def STREAM_IDS_def MAX_STREAM_ITEMS_def MAX_TOTAL_RECEIPTS_def)
qed

lemma demo_indexes: "compute_stream_indexes demo_record = Inr [demo_index, empty_index, empty_index]"
proof -
  have "stream_index [demo_receipt] = Inr demo_index" "stream_index [] = Inr empty_index"
    by (simp_all add: stream_index_def demo_index_def empty_index_def)
  moreover have "must_equal code (Inr demo_index) (Inr demo_index) = Inr ()" "must_equal code (Inr empty_index) (Inr empty_index) = Inr ()" for code
    using must_equal_refl good_record_parts(3,4) [of 20] by simp_all
  ultimately show ?thesis by (simp add: compute_stream_indexes_def STREAM_IDS_def)
qed

lemma demo_derived: "derive_report demo_env demo_record (U ''p1'') (U ''ses'') = Inr (dig, demo_report, demo_counts)"
proof -
  have "fold_steps (report_step [demo_receipt])
      \<lparr>report_rows = [], present_count = 0, backend_observed_count = 0, client_attested_count = 0\<rparr> EXPECTED_STEPS = Inr demo_counts"
    by (simp add: EXPECTED_STEPS_def report_step_def selected_receipt_def Let_def demo_counts_def present_row_def missing_row_def)
  moreover have "process_digest demo_env REPORT_DOMAIN (JObj demo_report_body) = Inr dig"
    by (rule demo_process_digest) (simp add: good_record_parts)
  ultimately show ?thesis
    by (simp add: derive_report_def STREAM_IDS_def Let_def demo_identities)
      (simp add: demo_report_def demo_report_body_def demo_counts_def)
qed

lemma demo_base: "verify_base_certificate demo_env demo_record demo_process_context = Inr ()"
proof -
  have "unwrap_retrieval_certificate demo_env demo_certificate (U ''cref'') False = Inr (None, demo_certificate)"
    by (simp add: unwrap_retrieval_certificate_def Let_def) (simp add: demo_envelope_def member_or_def)
  moreover have "demo_context\<lparr>client_public_key := Some (Ed25519Key [1])\<rparr> = demo_context" by (simp add: demo_context_def)
  moreover have "check_materials_schema demo_env demo_bundle = Inr ()" by (simp add: check_materials_schema_def demo_env_def)
  ultimately have "materials_steps demo_env demo_certificate demo_bundle dig (U ''cref'') demo_context False = Inr ()"
    by (simp add: materials_steps_def demo_bundle_digest demo_material_key demo_bindings demo_materials_policy demo_accepted)
  then have "verify_certificate_with_materials demo_env demo_certificate demo_bundle dig (U ''cref'') demo_context False = Inr ()"
    by (simp add: verify_certificate_with_materials_def)
  then show ?thesis by (simp add: verify_base_certificate_def) (simp add: demo_process_context_def)
qed

lemma demo_assertion_ok: "check_assertion demo_env demo_record = Inr dig" "check_receipt_bundle demo_env demo_record = Inr dig"
  "claim_material_digest demo_env demo_assertion dig = Inr dig"
  "check_support_row demo_record dig dig dig dig = Inr ()"
proof -
  have "is_dict demo_assertion" "field demo_assertion ''assertion_digest'' = Inr (JStr dig)"
    "field demo_assertion ''capture_policy'' = Inr (demo_identity ''policy'')"
    "field demo_assertion ''assertion_template_id'' = Inr (jstr ''tmpl'')" "field demo_assertion ''rendered_text'' = Inr (jstr ''text'')"
    by (simp_all add: demo_assertion_def)
  moreover have "good 100 (demo_identity ''policy'')" by (simp add: record_rules)
  moreover have "subscript (JArr [demo_support_row]) (JInt 0) = Inr demo_support_row" by (simp add: list_item_def)
  moreover have "field demo_support_row ''evidence_basis'' = Inr (jstr ''issuer_verified'')" by (simp add: demo_support_row_def)
  moreover have "must_equal code (Inr demo_support_row) (Inr demo_support_row) = Inr ()" for code
    using must_equal_refl good_record_parts(8) [of 20] by simp
  moreover have "claim_material_digest demo_env demo_assertion dig = Inr dig"
    unfolding claim_material_digest_def using calculation(4,5) by (simp add: demo_process_digest record_rules)
  ultimately show "check_assertion demo_env demo_record = Inr dig" "check_receipt_bundle demo_env demo_record = Inr dig"
    "claim_material_digest demo_env demo_assertion dig = Inr dig" "check_support_row demo_record dig dig dig dig = Inr ()"
    using good_projections
    by (simp_all add: check_assertion_def check_receipt_bundle_def self_digest_def demo_identities demo_process_digest must_equal_refl
        check_support_row_def)
      (simp add: demo_support_row_def)
qed

lemma demo_rows_digest: "process_digest demo_env CLAIM_SUPPORT_ROWS_DOMAIN (JArr [demo_support_row]) = Inr dig"
  by (rule demo_process_digest) (simp add: record_rules good_record_parts)

lemma demo_checked: "check_record demo_env demo_record demo_process_context = Inr (demo_parts, demo_counts)"
proof -
  have c: "pr_project_ref demo_process_context = U ''p1''" "pr_build_session_ref demo_process_context = U ''ses''"
    "pr_agent_ref demo_process_context = dig" "pr_dataset_ref demo_process_context = dig" "pr_evaluator_ref demo_process_context = dig"
    "pr_build_definition_ref demo_process_context = dig"
    by (simp_all add: demo_process_context_def)
  have "get_member demo_record_manifest ''agent_commitment_ref'' = JStr dig" "get_member demo_record_manifest ''dataset_commitment_ref'' = JStr dig"
    "get_member demo_record_manifest ''evaluator_commitment_ref'' = JStr dig"
    "get_member demo_record_manifest ''build_definition_commitment_ref'' = JStr dig"
    by (simp_all add: demo_record_manifest_def expected_manifest_def demo_process_context_def member_or_def)
  then have refs: "check_commitment_refs demo_record_manifest demo_process_context = Inr ()"
    by (simp add: check_commitment_refs_def get_item_def c)
  have same: "must_equal code (Inr demo_report) (Inr demo_report) = Inr ()"
    "must_equal code (Inr demo_record_manifest) (Inr demo_record_manifest) = Inr ()" for code
    using must_equal_refl good_record_parts(6) [of 20] good_record_manifest by simp_all
  have "field demo_certificate ''subject'' = Inr demo_subject" "field demo_subject ''project_ref'' = Inr (jstr ''p1'')"
    "field demo_subject ''build_session_ref'' = Inr (jstr ''ses'')" "field demo_certificate ''audit_report'' = Inr demo_audit"
    "field demo_audit ''client_evidence_manifest_root'' = Inr (JStr dig)"
    "path_to demo_certificate [''signatures'', ''unsigned_manifest'', ''manifest_digest''] = Inr (JStr dig)"
    "path_to demo_certificate [''audit_report'', ''client_evidence_manifest_root''] = Inr (JStr dig)"
    by (simp_all add: demo_envelope_def demo_subject_def demo_audit_def demo_signatures_def unsigned_block_def)
  moreover have "path_to demo_record [''verification_materials_v0'', ''issuer''] = Inr (demo_key_part ''tr'' (U ''ik''))" by simp
  ultimately show ?thesis
    using same(2) [of "''UNSIGNED_MANIFEST_MISMATCH''", unfolded demo_record_manifest_def demo_parts_def]
    by (simp add: check_record_def Let_def c demo_base demo_receipts_ok demo_indexes demo_derived same(1) demo_assertion_ok demo_rows_digest
        refs del: path_to.simps) (simp add: demo_record_manifest_def demo_parts_def)
qed

lemma demo_signed: "check_issuer_signature demo_env demo_record_manifest demo_record_signature (demo_key_part ''tr'' (U ''ik'')) = Inr dig"
proof -
  have "field demo_record_signature ''unsigned_manifest_digest'' = Inr (JStr dig)" "field demo_record_signature ''issuer_key_ref'' = Inr (jstr ''ik'')"
    "field demo_record_signature ''trust_ring_ref'' = Inr (jstr ''tr'')" "field demo_record_signature ''algorithm'' = Inr (jstr ''ed25519'')"
    "field demo_record_signature ''signature'' = Inr demo_signature"
    by (simp_all add: demo_record_signature_def)
  then show ?thesis
    by (simp add: check_issuer_signature_def demo_process_digest good_record_manifest demo_material_key foreign_def canonical_material_def
        good_text demo_verified recast_def)
qed

lemma demo_times:
  "\<exists>a b. utc_microseconds (U ''2026-01-01T12:00:00Z'') = Inr a \<and> utc_microseconds (U ''2026-01-02T00:00:00Z'') = Inr b \<and> b - a = 43200000000"
proof -
  note eval = parse_utc_timestamp_def utc_shape_def number_at_def fraction_micros_def U_Cons is_digit_def chars_of_def
    valid_instant_def days_in_month_def is_leap_def digits_nat_def Let_def
  have "parse_utc_timestamp (U ''2026-01-01T12:00:00Z'') = Some (2026, 1, 1, 12, 0, 0, 0)"
    "parse_utc_timestamp (U ''2026-01-02T00:00:00Z'') = Some (2026, 1, 2, 0, 0, 0, 0)"
    by (simp_all add: eval)
  then show ?thesis by (simp add: utc_microseconds_def to_ordinal_def Let_def)
qed

lemma snapshot_field [simp]:
  "field demo_snapshot ''trust_anchor_ref'' = Inr (jstr ''ta'')" "field demo_snapshot ''effective_time'' = Inr (jstr ''2026-01-01T12:00:00Z'')"
  "field demo_snapshot ''key_status'' = Inr (JArr [demo_key_status])" "is_dict demo_snapshot"
  "field demo_snapshot ''certificate_status'' = Inr (JArr [demo_certificate_status])"
  "get_member demo_snapshot ''key_status'' = JArr [demo_key_status]"
  "get_member demo_snapshot ''certificate_status'' = JArr [demo_certificate_status]"
  "get_member demo_snapshot ''trust_policy_id'' = jstr TRUST_POLICY_ID" "get_member demo_snapshot ''max_age_seconds'' = JInt 86400"
  "field demo_status_signature ''snapshot_digest'' = Inr (JStr dig)" "field demo_status_signature ''trust_anchor_ref'' = Inr (jstr ''ta'')"
  "field demo_status_signature ''algorithm'' = Inr (jstr ''ed25519'')" "field demo_status_signature ''signature'' = Inr demo_signature"
  "is_dict demo_status_signature" "is_dict demo_trust_status" "get_member demo_trust_status ''snapshot'' = demo_snapshot"
  "get_member demo_trust_status ''signature'' = demo_status_signature" "demo_trust_status \<noteq> JNull"
  by (simp_all add: demo_snapshot_def demo_status_signature_def demo_trust_status_def member_or_def)

lemma demo_trusted: "verify_trust_status demo_env demo_trust_status demo_process_context = Inr demo_snapshot"
proof -
  have "material_public_key demo_env (anchor_projection demo_anchor) TRUST_ANCHOR_SPKI_DOMAIN = Inr (Ed25519Key [1])"
    by (simp add: material_public_key_def anchor_projection_def demo_anchor_def) (simp add: demo_env_def dig_def)
  moreover have "check_freshness demo_snapshot (U ''2026-01-02T00:00:00Z'') = Inr ()"
    using demo_times by (auto simp: check_freshness_def timestamp_micros_def TRUST_SKEW_SECONDS_def TRUST_MAX_AGE_SECONDS_def)
  moreover have "check_trust_status_no_duplicates demo_snapshot = Inr ()"
    by (simp add: check_trust_status_no_duplicates_def add_status_entry_def)
      (simp add: demo_key_status_def demo_certificate_status_def member_or_def)
  moreover have "check_trust_status_list_caps demo_snapshot = Inr ()" by (simp add: check_trust_status_list_caps_def MAX_TRUST_STATUS_ENTRIES_def)
  moreover have "validate_trust_status_schema demo_env demo_trust_status = Inr ()" by (simp add: validate_trust_status_schema_def demo_env_def)
  moreover have "trust_anchor demo_process_context = Some demo_anchor" "verification_time demo_process_context = U ''2026-01-02T00:00:00Z''"
    "anchor_key_ref demo_anchor = U ''ta''"
    by (simp_all add: demo_process_context_def demo_anchor_def)
  moreover have "good 100 demo_snapshot" by (simp add: good_record_parts)
  ultimately show ?thesis
    by (simp add: verify_trust_status_def TRUST_MAX_AGE_SECONDS_def demo_process_digest canonical_material_def good_text demo_verified recast_def)
qed

lemma demo_status_ok: "check_status demo_env demo_trust_status demo_process_context (demo_key_part ''tr'' (U ''ik'')) =
  Inr (''checked_active'', jstr ''ta'', jstr ''2026-01-01T12:00:00Z'')"
proof -
  have "\<not> allow_unchecked_base_status demo_process_context" "pr_certificate_ref demo_process_context = U ''cref''"
    by (simp_all add: demo_process_context_def)
  moreover have "field demo_key_status ''key_ref'' = Inr (jstr ''ik'')" "field demo_key_status ''trust_ring_ref'' = Inr (jstr ''tr'')"
    "field demo_key_status ''status'' = Inr (jstr ''active'')" "field demo_certificate_status ''certificate_ref'' = Inr (jstr ''cref'')"
    "field demo_certificate_status ''status'' = Inr (jstr ''active'')"
    by (simp_all add: demo_key_status_def demo_certificate_status_def)
  ultimately show ?thesis
    by (simp add: check_status_def demo_trusted check_trust_status_coverage_def key_entry_matches_def field_is_def check_status_entry_def)
qed

theorem demo_record_accepted:
  "\<exists>r. verify_process_record_certificate demo_env demo_record demo_process_context demo_trust_status = Inr r \<and>
     result_present r = 1 \<and> result_missing r = 4 \<and> receipt_count r = 1"
proof -
  have "\<not> allow_unchecked_base_status demo_process_context" by (simp add: demo_process_context_def)
  moreover have "validate_process_schema demo_env demo_record = Inr ()" by (simp add: validate_process_schema_def demo_env_def)
  moreover have "path_to demo_record [''verification_materials_v0'', ''issuer''] = Inr (demo_key_part ''tr'' (U ''ik''))" by simp
  moreover have "traverse (\<lambda>index. rbind (field index ''receipt_count'') as_int) (mp_streams demo_parts) = Inr [1, 0, 0]"
    by (simp add: demo_parts_def demo_index_def empty_index_def as_int_def)
  moreover have "present_count demo_counts = 1" by (simp add: demo_counts_def)
  ultimately show ?thesis
    by (simp add: verify_process_record_certificate_def verify_process_steps_def demo_integers demo_checked demo_signed demo_status_ok
        make_result_def result_ok_def recast_def del: path_to.simps)
qed

section \<open>Witnesses\<close>

lemma demo_record_parsed: "parsed demo_record"
proof -
  have "good 200 demo_record"
    using good_certificate good_bundle(1) good_record_manifest
    by (simp add: demo_record_def demo_record_signature_def record_rules good_record_parts good_signature)
      (simp add: good_def)
  then show ?thesis by (simp add: good_def fine_def)
qed

theorem receipts_are_ordered_and_unique_witness:
  "\<exists>receipts streams. field demo_record ''receipts'' = Inr receipts \<and>
     traverse (\<lambda>name. rbind (field receipts name) iterate) STREAM_IDS = Inr streams \<and> length (concat streams) = 1 \<and>
     list_all (receipt_fine demo_env (U ''p1'') (U ''ses'')) (concat streams)"
proof -
  have "traverse (\<lambda>name. rbind (field demo_receipts name) iterate) STREAM_IDS = Inr [[demo_receipt], [], []]"
    by (simp add: STREAM_IDS_def)
  with receipts_are_ordered_and_unique [OF demo_receipts_ok] show ?thesis by auto
qed


theorem process_record_is_signed_and_pinned_witness:
  "field demo_record_manifest ''project_ref'' = Inr (jstr ''p1'') \<and>
   (\<exists>public_key algorithm s. canonical_text demo_record_manifest = Some s \<and>
      verify_signature demo_env public_key algorithm (PR_SIGNATURE_DOMAIN @ 0 # utf8 s) demo_signature = Inr ())"
proof -
  obtain r where r: "verify_process_record_certificate demo_env demo_record demo_process_context demo_trust_status = Inr r"
    using demo_record_accepted by blast
  have "path_to demo_record [''signature'', ''signature''] = Inr demo_signature" by (simp add: demo_record_signature_def)
  moreover have "pr_project_ref demo_process_context = U ''p1''" by (simp add: demo_process_context_def)
  ultimately show ?thesis using process_record_is_signed_and_pinned [OF r] by fastforce
qed

theorem checked_status_is_active_and_fresh_witness:
  "\<exists>r. verify_process_record_certificate demo_env demo_record demo_process_context demo_trust_status = Inr r \<and>
     result_code r = ''PROCESS_RECORD_VERIFIED'' \<and> list_ex (names_key (U ''ik'') (U ''tr'')) [demo_key_status]"
proof -
  obtain r where r: "verify_process_record_certificate demo_env demo_record demo_process_context demo_trust_status = Inr r"
    using demo_record_accepted by blast
  have n: "\<not> allow_unchecked_base_status demo_process_context" "expected_issuer_key_ref (base_context demo_process_context) = U ''ik''"
    "expected_trust_ring_ref (base_context demo_process_context) = U ''tr''"
    by (simp_all add: demo_process_context_def demo_context_def)
  have "field demo_trust_status ''snapshot'' = Inr demo_snapshot" by (simp add: demo_trust_status_def)
  with checked_status_is_active_and_fresh [OF r n(1)] r n(2,3) show ?thesis by fastforce
qed

theorem manifest_binds_receipts_witness:
  "\<exists>r. verify_process_record_certificate demo_env demo_record demo_process_context demo_trust_status = Inr r \<and>
     Fp2Text.norm (without_member ''receipt_bundle_digest'' demo_receipts) = Fp2Text.norm (without_member ''receipt_bundle_digest'' demo_receipts)"
proof -
  obtain r where r: "verify_process_record_certificate demo_env demo_record demo_process_context demo_trust_status = Inr r"
    using demo_record_accepted by blast
  have "canonical_text demo_record_manifest = Some (canon demo_record_manifest)" by (rule good_text) (rule good_record_manifest)
  from manifest_binds_receipts [OF r r demo_record_parsed demo_record_parsed record_field(4) record_field(4) record_field(3) record_field(3)
      this this refl] r
  show ?thesis by blast
qed

theorem process_record_errors_witness:
  "verify_process_record_certificate demo_env demo_record demo_process_context JNull = Inl (Failed ''REVOCATION_STATUS_UNAVAILABLE'') \<and>
   ''REVOCATION_STATUS_UNAVAILABLE'' \<in> set PROCESS_RECORD_ERROR_CODES"
proof -
  have "\<not> allow_unchecked_base_status demo_process_context" by (simp add: demo_process_context_def)
  moreover have "validate_process_schema demo_env demo_record = Inr ()" by (simp add: validate_process_schema_def demo_env_def)
  moreover have "path_to demo_record [''verification_materials_v0'', ''issuer''] = Inr (demo_key_part ''tr'' (U ''ik''))" by simp
  ultimately have "verify_process_record_certificate demo_env demo_record demo_process_context JNull = Inl (Failed ''REVOCATION_STATUS_UNAVAILABLE'')"
    by (simp add: verify_process_record_certificate_def verify_process_steps_def demo_integers demo_checked demo_signed check_status_def
        verify_trust_status_def recast_def del: path_to.simps)
  from process_record_errors [OF this] this show ?thesis by auto
qed

end
