(* ===== verification/DatasetRecord.thy ===== *)
theory DatasetRecord
  imports ProcessVerify
begin

text \<open>
  The first half of \<open>certification/dataset_record_verifier.py\<close>: its constants, the caller's context, derived
  references, the caller-supplied leaf lists, and the checks of identity, composition and leakage. An error of
  this family carries its code and the location of the field.
\<close>

section \<open>Failures with a location\<close>

definition fail_at :: "bool \<Rightarrow> string \<Rightarrow> ustr \<Rightarrow> cert_error + unit" where
  "fail_at b code loc = raise_if b (Located code loc)"

lemma fail_at_Inr [simp]: "fail_at b code loc = Inr u \<longleftrightarrow> \<not> b"
  by (simp add: fail_at_def)

lemma fail_at_simps [simp]: "fail_at False code loc = Inr ()" "fail_at True code loc = Inl (Located code loc)"
  by (simp_all add: fail_at_def)

definition must_equal_at :: "string \<Rightarrow> ustr \<Rightarrow> cert_error + json \<Rightarrow> cert_error + json \<Rightarrow> cert_error + unit" where
  "must_equal_at code loc a b = rbind a (\<lambda>x. rbind b (\<lambda>y. fail_at (\<not> py_eq x y) code loc))"

lemma must_equal_at_Inr: "must_equal_at code loc a b = Inr u \<longleftrightarrow> (\<exists>x y. a = Inr x \<and> b = Inr y \<and> py_eq x y)"
  by (auto simp: must_equal_at_def rbind_Inr_iff)

lemma must_equal_at_texts [simp]: "must_equal_at code loc (Inr (JStr s)) (Inr (JStr t)) = fail_at (s \<noteq> t) code loc"
  by (simp add: must_equal_at_def eq_commute)

definition recast_at :: "(cert_error \<Rightarrow> bool) \<Rightarrow> string \<Rightarrow> ustr \<Rightarrow> cert_error + 'a \<Rightarrow> cert_error + 'a" where
  "recast_at caught code loc r = (case r of Inl e \<Rightarrow> Inl (if caught e then Located code loc else e) | Inr x \<Rightarrow> Inr x)"

lemma recast_at_Inr [simp]: "recast_at caught code loc r = Inr x \<longleftrightarrow> r = Inr x"
  by (auto simp: recast_at_def split: sum.split)

text \<open>\<open>for index, x in enumerate(xs)\<close>, without and with a state.\<close>

fun check_indexed :: "(nat \<Rightarrow> 'a \<Rightarrow> 'e + unit) \<Rightarrow> nat \<Rightarrow> 'a list \<Rightarrow> 'e + unit" where
  "check_indexed f i [] = Inr ()"
| "check_indexed f i (x # xs) = rbind (f i x) (\<lambda>_. check_indexed f (Suc i) xs)"

fun fold_indexed :: "(nat \<Rightarrow> 's \<Rightarrow> 'a \<Rightarrow> 'e + 's) \<Rightarrow> nat \<Rightarrow> 's \<Rightarrow> 'a list \<Rightarrow> 'e + 's" where
  "fold_indexed f i s [] = Inr s"
| "fold_indexed f i s (x # xs) = rbind (f i s x) (\<lambda>s'. fold_indexed f (Suc i) s' xs)"

definition at_index :: "string \<Rightarrow> nat \<Rightarrow> string \<Rightarrow> ustr" where
  "at_index before i after = U before @ int_text (int i) @ U after"

text \<open>
  \<open>x in frozenset(names)\<close>, \<open>d.get(x)\<close> of a dict with string keys, an integer operand, text to encode. A bundle
  that comes here has no floats, and numbers where the schema asks for them; another operand raises.
\<close>

definition in_names :: "string list \<Rightarrow> json \<Rightarrow> cert_error + bool" where
  "in_names names x = (if is_container x then Inl PyTypeErr else Inr (list_ex (\<lambda>n. x = jstr n) names))"

definition get_by :: "json \<Rightarrow> json \<Rightarrow> cert_error + json" where
  "get_by d key =
     (case key of JStr k \<Rightarrow> Inr (case json_member d k of None \<Rightarrow> JNull | Some v \<Rightarrow> v)
      | _ \<Rightarrow> if is_container key then Inl PyTypeErr else Inr JNull)"

definition as_num :: "json \<Rightarrow> cert_error + int" where
  "as_num t = (case t of JInt i \<Rightarrow> Inr i | JBool b \<Rightarrow> Inr (of_bool b) | _ \<Rightarrow> Inl PyTypeErr)"

definition num_field :: "json \<Rightarrow> string \<Rightarrow> cert_error + int" where
  "num_field t key = rbind (field t key) as_num"

definition encoded :: "json \<Rightarrow> cert_error + byte list" where
  "encoded t = (case t of JStr s \<Rightarrow> if encodable s then Inr (utf8 s) else Inl PyValueErr | _ \<Rightarrow> Inl OtherErr)"

definition list_field :: "json \<Rightarrow> string \<Rightarrow> cert_error + json list" where
  "list_field t key = rbind (field t key) iterate"

section \<open>Constants\<close>

definition DS_ITEM_SET_ROOT_DOMAIN :: "byte list" where
  "DS_ITEM_SET_ROOT_DOMAIN = utf8 (U ''traigent.dataset_record.item_set_root.v1'')"
definition DS_CELL_ROOT_DOMAIN :: "byte list" where "DS_CELL_ROOT_DOMAIN = utf8 (U ''traigent.dataset_record.cell_root.v1'')"
definition DS_TAXONOMY_DOMAIN :: "byte list" where "DS_TAXONOMY_DOMAIN = utf8 (U ''traigent.dataset_record.taxonomy.v1'')"
definition DS_METHOD_REGISTRY_DOMAIN :: "byte list" where
  "DS_METHOD_REGISTRY_DOMAIN = utf8 (U ''traigent.dataset_record.method_registry.v1'')"
definition DS_PREREG_DOMAIN :: "byte list" where "DS_PREREG_DOMAIN = utf8 (U ''traigent.dataset_record.prereg.v1'')"
definition DS_PREREG_SIGNATURE_DOMAIN :: "byte list" where
  "DS_PREREG_SIGNATURE_DOMAIN = utf8 (U ''traigent.dataset_record.prereg_signature.v1'')"
definition DS_COMPOSITION_DOMAIN :: "byte list" where "DS_COMPOSITION_DOMAIN = utf8 (U ''traigent.dataset_record.composition.v1'')"
definition DS_LEAKAGE_REPORT_DOMAIN :: "byte list" where
  "DS_LEAKAGE_REPORT_DOMAIN = utf8 (U ''traigent.dataset_record.leakage_report.v1'')"
definition DS_LEAF_GENERATION_ATTESTATION_DOMAIN :: "byte list" where
  "DS_LEAF_GENERATION_ATTESTATION_DOMAIN = utf8 (U ''traigent.dataset_record.leaf_generation_attestation.v1'')"
definition DS_EFFICIENCY_REPORT_DOMAIN :: "byte list" where
  "DS_EFFICIENCY_REPORT_DOMAIN = utf8 (U ''traigent.dataset_record.efficiency_report.v1'')"
definition DS_LIMITATIONS_DOMAIN :: "byte list" where "DS_LIMITATIONS_DOMAIN = utf8 (U ''traigent.dataset_record.limitations.v1'')"
definition DS_UNSIGNED_MANIFEST_DOMAIN :: "byte list" where
  "DS_UNSIGNED_MANIFEST_DOMAIN = utf8 (U ''traigent.dataset_record.unsigned_manifest.v1'')"
definition DS_ISSUER_SIGNATURE_DOMAIN :: "byte list" where
  "DS_ISSUER_SIGNATURE_DOMAIN = utf8 (U ''traigent.dataset_record.issuer_signature.v1'')"
definition DS_LEAF_LIST_DOMAIN :: "byte list" where "DS_LEAF_LIST_DOMAIN = utf8 (U ''traigent.dataset_record.leaf_list.v1'')"
definition DS_DATASET_REF_DOMAIN :: "byte list" where "DS_DATASET_REF_DOMAIN = utf8 (U ''traigent.dataset_record.dataset_ref.v1'')"
definition DS_DATASET_REF_ITEM_SET_DOMAIN :: "byte list" where
  "DS_DATASET_REF_ITEM_SET_DOMAIN = utf8 (U ''traigent.dataset_record.dataset_ref_item_set.v1'')"
definition DS_CORPUS_REF_DOMAIN :: "byte list" where "DS_CORPUS_REF_DOMAIN = utf8 (U ''traigent.dataset_record.corpus_ref.v1'')"
definition DS_LEAKAGE_SCOPE_REF_DOMAIN :: "byte list" where
  "DS_LEAKAGE_SCOPE_REF_DOMAIN = utf8 (U ''traigent.dataset_record.leakage_scope_ref.v1'')"
definition DS_SCOPE_BINDING_DOMAIN :: "byte list" where
  "DS_SCOPE_BINDING_DOMAIN = utf8 (U ''traigent.dataset_record.scope_binding.v1'')"
definition DS_CLAIM_SUPPORT_ROWS_DOMAIN :: "byte list" where
  "DS_CLAIM_SUPPORT_ROWS_DOMAIN = utf8 (U ''traigent.dataset_record.claim_support_rows.v1'')"

definition MAX_LEAF_LIST :: nat where "MAX_LEAF_LIST = 65536"
definition MAX_CELLS :: nat where "MAX_CELLS = 40"
definition CLAIM_IDS :: "string list" where "CLAIM_IDS = [''DS1'', ''DS2'', ''DS3'', ''DS4'', ''DS5'']"

definition NON_CLAIMS_CANONICAL :: "(string \<times> string) list" where
  "NON_CLAIMS_CANONICAL =
     [(''DS_NC_NO_CONTENT'', ''tmpl.dsnoncert.no_content.v1''),
      (''DS_NC_EVALUATED_SET_NOT_BOUND'', ''tmpl.dsnoncert.evaluated_set_not_bound.v1''),
      (''DS_NC_NO_REPRESENTATIVENESS'', ''tmpl.dsnoncert.no_representativeness.v1''),
      (''DS_NC_NO_SAMPLING_FRAME'', ''tmpl.dsnoncert.no_sampling_frame.v1''),
      (''DS_NC_COMPOSITION_IS_DECLARED_NOT_MEASURED'', ''tmpl.dsnoncert.composition_is_declared_not_measured.v1''),
      (''DS_NC_NO_LABEL_CORRECTNESS'', ''tmpl.dsnoncert.no_label_correctness.v1''),
      (''DS_NC_NO_ANNOTATION_QUALITY'', ''tmpl.dsnoncert.no_annotation_quality.v1''),
      (''DS_NC_TOKEN_DISJOINTNESS_NOT_ITEM_DISJOINTNESS'', ''tmpl.dsnoncert.token_disjointness_not_item_disjointness.v1''),
      (''DS_NC_LEAF_GENERATION_ATTESTED'', ''tmpl.dsnoncert.leaf_generation_attested.v1''),
      (''DS_NC_NO_TRAINING_CORPUS_ACCESS'', ''tmpl.dsnoncert.no_training_corpus_access.v1''),
      (''DS_NC_NEAR_DUPLICATE_METHOD_BOUND'', ''tmpl.dsnoncert.near_duplicate_method_bound.v1''),
      (''DS_NC_INERTNESS_IS_CANDIDATE_RELATIVE'', ''tmpl.dsnoncert.inertness_is_candidate_relative.v1''),
      (''DS_NC_DECISIVE_SUBSET_IS_UPPER_BOUND'', ''tmpl.dsnoncert.decisive_subset_is_upper_bound.v1''),
      (''DS_NC_ITEM_INFORMATION_MODEL_DEPENDENT'', ''tmpl.dsnoncert.item_information_model_dependent.v1''),
      (''DS_NC_EFFICIENCY_NOT_RECOMPUTABLE'', ''tmpl.dsnoncert.efficiency_not_recomputable.v1''),
      (''DS_NC_NO_FUTURE_VALIDITY'', ''tmpl.dsnoncert.no_future_validity.v1''),
      (''DS_NC_PREREG_ORDER_ISSUER_ASSERTED'', ''tmpl.dsnoncert.prereg_order_issuer_asserted.v1'')]"

definition PREREG_COVERAGE :: "string list" where
  "PREREG_COVERAGE =
     [''evidence_grade'', ''candidate_set_commitment'', ''candidate_count'', ''selection_rule'', ''inertness_criterion'',
      ''elimination_order'', ''information_method'', ''information_unit'', ''information_floor'', ''near_duplicate_method'',
      ''near_duplicate_threshold_milli'', ''interval_method'', ''interval_level_ppm'', ''score_metric'', ''per_item_weighting'',
      ''per_category_weighting'', ''missing_outcome_policy'', ''tie_break'', ''bootstrap_unit'', ''bootstrap_resamples'',
      ''random_seed'', ''minimum_sample_size_n'']"

definition DS_MANIFEST_COVERAGE :: "string list" where
  "DS_MANIFEST_COVERAGE =
     [''process_unsigned_manifest_digest'', ''dataset_commitment_ref'', ''commitment_scheme'', ''scope_binding_digest'',
      ''identity'', ''taxonomy'', ''method_registry'', ''composition_digest'', ''leakage_report_digest'',
      ''leaf_generation_attestation_digest'', ''efficiency_report_digest'', ''limitations_digest'', ''prereg_digest'',
      ''prereg_signature_digest'', ''prereg_evidence_grade'', ''prereg_registered_at'', ''claim_support_rows_digest'',
      ''non_claims'', ''trust_ring_ref'', ''issuer_key_ref'', ''issuer_signature_algorithm'']"

definition ORDERING_STEP_IDS :: "string list" where
  "ORDERING_STEP_IDS = [''evaluate'', ''aggregate'', ''select'', ''finalize'']"
definition TIER_C_FINDING_KINDS :: "string list" where
  "TIER_C_FINDING_KINDS = [''training_corpus_contamination'', ''prior_output_contamination'']"
definition TIER_A_B_FINDING_KINDS :: "string list" where
  "TIER_A_B_FINDING_KINDS = [''declared_corpus_overlap'', ''split_disjointness'', ''near_duplicate_overlap'']"
definition DERIVABLE_LIMITATION_CODES :: "string list" where
  "DERIVABLE_LIMITATION_CODES = [''small_stratum'', ''unbalanced_strata'']"
definition EVIDENCE_GRADES :: "string list" where
  "EVIDENCE_GRADES = [''digest_bound_attestation'', ''caller_pinned_before_results'', ''log_inclusion_proof'']"
definition APPLIED_POLICY_FIELDS :: "string list" where
  "APPLIED_POLICY_FIELDS =
     [''score_metric'', ''per_item_weighting'', ''per_category_weighting'', ''missing_outcome_policy'', ''tie_break'',
      ''bootstrap_unit'', ''bootstrap_resamples'', ''random_seed'', ''minimum_sample_size_n'']"
definition DS3_RELEVANT_FINDING_KINDS :: "string list" where
  "DS3_RELEVANT_FINDING_KINDS = [''declared_corpus_overlap'', ''split_disjointness'']"

definition VERIFIER_VERSION :: string where "VERIFIER_VERSION = ''1.0.0''"

record claim_profile =
  profile_verifier_id :: string
  profile_evidence_kind :: string
  profile_evidence_source :: string

definition claim_row_profile :: "string \<Rightarrow> claim_profile" where
  "claim_row_profile claim_id =
     (if claim_id = ''DS1'' then
        \<lparr>profile_verifier_id = ''ver.dataset.identity_v1'', profile_evidence_kind = ''client_commitment_digest'',
         profile_evidence_source = ''identity.dataset_identity_root''\<rparr>
      else if claim_id = ''DS2'' then
        \<lparr>profile_verifier_id = ''ver.dataset.composition_v1'', profile_evidence_kind = ''verifier_report_digest'',
         profile_evidence_source = ''composition_digest''\<rparr>
      else if claim_id = ''DS3'' then
        \<lparr>profile_verifier_id = ''ver.dataset.token_disjointness_v1'', profile_evidence_kind = ''verifier_report_digest'',
         profile_evidence_source = ''leakage_report_digest''\<rparr>
      else if claim_id = ''DS4'' then
        \<lparr>profile_verifier_id = ''ver.dataset.near_duplicate_v1'', profile_evidence_kind = ''verifier_report_digest'',
         profile_evidence_source = ''leakage_report_digest''\<rparr>
      else
        \<lparr>profile_verifier_id = ''ver.dataset.efficiency_v1'', profile_evidence_kind = ''verifier_report_digest'',
         profile_evidence_source = ''efficiency_report_digest''\<rparr>)"

definition DS_ABSTENTION_CODE :: string where "DS_ABSTENTION_CODE = ''missing_evidence_binding''"
definition DS_ATTESTATION_BASIS :: string where "DS_ATTESTATION_BASIS = ''client_signed_declaration_v1''"

definition DATASET_RECORD_ERROR_CODES :: "string list" where
  "DATASET_RECORD_ERROR_CODES =
     [''CONTEXT'', ''BUNDLE_SHAPE'', ''SCHEMA'', ''SCHEMA_DEPENDENCY'', ''STRICT_INTEGER'', ''CANONICALIZATION'',
      ''VERIFICATION_FAILED'', ''LEAF_LIST_SHAPE'', ''PROCESS_RECORD_INVALID'', ''SCOPE_BINDING_MISMATCH'',
      ''PROCESS_MANIFEST_DIGEST_MISMATCH'', ''DATASET_COMMITMENT_REF_MISMATCH'', ''DATASET_IDENTITY_MISMATCH'',
      ''IDENTITY_EPOCH_INCONSISTENT'', ''REF_NOT_DERIVED'', ''KEY_RING_MISMATCH'', ''UNSIGNED_MANIFEST_DIGEST_MISMATCH'',
      ''ISSUER_SIGNATURE_INVALID'', ''TAXONOMY_DIGEST_MISMATCH'', ''METHOD_REGISTRY_DIGEST_MISMATCH'',
      ''TAXONOMY_TERM_UNREGISTERED'', ''COMPOSITION_DIGEST_MISMATCH'', ''STRATUM_PARTITION_MISMATCH'',
      ''COMPOSITION_CELL_ROOT_MISMATCH'', ''COMPOSITION_CELL_COUNT_MISMATCH'', ''LEAKAGE_REPORT_DIGEST_MISMATCH'',
      ''LEAKAGE_BASIS_COUPLING'', ''LEAKAGE_SCOPE_MISMATCH'', ''LEAF_LIST_DIGEST_MISMATCH'', ''LEAKAGE_OVERLAP_MISMATCH'',
      ''SPLIT_DISJOINTNESS_VIOLATION'', ''LEAF_GENERATION_ATTESTATION_MISSING'', ''LEAF_SCOPE_BLIND_MISMATCH'',
      ''LEAF_COMPLETENESS_MISMATCH'', ''LIMITATIONS_DIGEST_MISMATCH'', ''LIMITATION_OMITTED'', ''LIMITATION_BASIS_COUPLING'',
      ''PREREGISTRATION_DIGEST_MISMATCH'', ''PREREGISTRATION_SIGNATURE_INVALID'', ''PREREGISTRATION_SCOPE_VIOLATION'',
      ''PREREGISTRATION_ORDER'', ''PREREGISTRATION_GRADE_MISMATCH'', ''PREREGISTRATION_GRADE_UNSUPPORTED'',
      ''EFFICIENCY_REPORT_DIGEST_MISMATCH'', ''INTERVAL_ORDER'', ''INTERVAL_METHOD_COUPLING'',
      ''INTERVAL_METHOD_QUANTITY_MISMATCH'', ''SAMPLE_SIZE_INSUFFICIENT'', ''INFORMATION_UNIT_RANGE'',
      ''INERT_FRACTION_MISMATCH'', ''DECISIVE_SUBSET_BOUND'', ''COST_EFFICIENCY_MISMATCH'', ''LATENCY_EFFICIENCY_MISMATCH'',
      ''NON_CLAIMS_MISMATCH'', ''CLAIM_SUPPORT_ROW_MISMATCH'', ''CLAIM_NOT_VERIFIED'']"

section \<open>The context\<close>

record dataset_context =
  ds_process_context :: process_context
  ds_project_ref :: ustr
  ds_build_session_ref :: ustr
  ds_commitment_ref :: ustr
  ds_identity_root :: "ustr option"
  ds_blind_epoch :: int
  ds_leakage_scope_ref :: ustr
  ds_prereg_pin :: "ustr option"
  require_leaf_lists :: bool

definition is_leakage_scope_ref :: "ustr \<Rightarrow> bool" where
  "is_leakage_scope_ref s \<longleftrightarrow> take 4 s = U ''lsr:'' \<and> chars_of word_char 43 43 (drop 4 s)"

text \<open>\<open>__post_init__\<close>.\<close>

definition check_dataset_context :: "dataset_context \<Rightarrow> cert_error + unit" where
  "check_dataset_context ctx =
     in_turn
       [fail_at (\<not> is_project_ref (ds_project_ref ctx)) ''CONTEXT'' [],
        fail_at (\<not> is_ref (ds_build_session_ref ctx)) ''CONTEXT'' [],
        fail_at (ds_project_ref ctx \<noteq> pr_project_ref (ds_process_context ctx)) ''CONTEXT'' [],
        fail_at (ds_build_session_ref ctx \<noteq> pr_build_session_ref (ds_process_context ctx)) ''CONTEXT'' [],
        fail_at (\<not> is_sha256_ref (ds_commitment_ref ctx)) ''CONTEXT'' [],
        fail_at (case ds_identity_root ctx of None \<Rightarrow> False | Some r \<Rightarrow> \<not> is_sha256_ref r) ''CONTEXT'' [],
        fail_at (\<not> (0 \<le> ds_blind_epoch ctx \<and> ds_blind_epoch ctx \<le> 65535)) ''CONTEXT'' [],
        fail_at (\<not> is_leakage_scope_ref (ds_leakage_scope_ref ctx)) ''CONTEXT'' [],
        fail_at (case ds_prereg_pin ctx of None \<Rightarrow> False | Some d \<Rightarrow> \<not> is_sha256_ref d) ''CONTEXT'' []]"

section \<open>Digests and derived references\<close>

definition ds_role_digest :: "cert_env \<Rightarrow> byte list \<Rightarrow> json \<Rightarrow> cert_error + ustr" where
  "ds_role_digest env domain projection =
     (case canonical_text projection of
        None \<Rightarrow> Inl (Located ''CANONICALIZATION'' [])
      | Some text \<Rightarrow> Inr (SHA256_PREFIX @ hexdigest (hash env (domain @ 0 # utf8 text))))"

text \<open>\<open>struct.pack(">Q", n)\<close>.\<close>

definition pack_u64 :: "int \<Rightarrow> cert_error + byte list" where
  "pack_u64 n = (if 0 \<le> n \<and> n < 2 ^ 64 then Inr (i2osp (nat n) 8) else Inl OtherErr)"

definition ds_length_prefixed :: "byte list list \<Rightarrow> cert_error + byte list" where
  "ds_length_prefixed parts =
     rbind (traverse (\<lambda>part. rbind (pack_u64 (int (length part))) (\<lambda>n. Inr (n @ part))) parts) (\<lambda>ps. Inr (concat ps))"

definition derive_ref :: "cert_env \<Rightarrow> string \<Rightarrow> byte list \<Rightarrow> byte list list \<Rightarrow> cert_error + ustr" where
  "derive_ref env prefix domain parts =
     rbind (ds_length_prefixed parts) (\<lambda>material. Inr (U prefix @ U '':'' @ b64_text (hash env (domain @ material))))"

definition derive_dataset_ref :: "cert_env \<Rightarrow> json \<Rightarrow> json \<Rightarrow> cert_error + ustr" where
  "derive_dataset_ref env identity_root epoch =
     rbind (encoded identity_root) (\<lambda>root.
     rbind (rbind (as_num epoch) pack_u64) (\<lambda>n. derive_ref env ''dsr'' DS_DATASET_REF_DOMAIN [root, n]))"

definition derive_dataset_ref_from_item_set :: "cert_env \<Rightarrow> json \<Rightarrow> cert_error + ustr" where
  "derive_dataset_ref_from_item_set env item_set_root =
     rbind (encoded item_set_root) (\<lambda>root. derive_ref env ''dsr'' DS_DATASET_REF_ITEM_SET_DOMAIN [root])"

definition expected_dataset_ref :: "cert_env \<Rightarrow> json \<Rightarrow> cert_error + ustr" where
  "expected_dataset_ref env identity =
     rbind (field identity ''dataset_identity_root'') (\<lambda>root.
       if root = JNull then rbind (field identity ''item_set_root'') (derive_dataset_ref_from_item_set env)
       else rbind (field identity ''identity_blind_epoch'') (derive_dataset_ref env root))"

definition derive_corpus_ref :: "cert_env \<Rightarrow> json \<Rightarrow> json \<Rightarrow> cert_error + ustr" where
  "derive_corpus_ref env corpus_leaf_root leakage_scope_ref =
     rbind (encoded corpus_leaf_root) (\<lambda>root.
     rbind (encoded leakage_scope_ref) (\<lambda>scope. derive_ref env ''cpr'' DS_CORPUS_REF_DOMAIN [root, scope]))"

definition derive_leakage_scope_ref :: "cert_env \<Rightarrow> json \<Rightarrow> cert_error + ustr" where
  "derive_leakage_scope_ref env scope_blind_commitment =
     rbind (encoded scope_blind_commitment) (\<lambda>c. derive_ref env ''lsr'' DS_LEAKAGE_SCOPE_REF_DOMAIN [c])"

definition leaf_list_digest :: "cert_env \<Rightarrow> ustr list \<Rightarrow> cert_error + ustr" where
  "leaf_list_digest env leaves = ds_role_digest env DS_LEAF_LIST_DOMAIN (JArr (map JStr (sort leaves)))"

section \<open>Registry documents\<close>

definition jnames :: "string list \<Rightarrow> json" where
  "jnames ns = JArr (map jstr ns)"

definition TAXONOMY_DOCUMENT :: json where
  "TAXONOMY_DOCUMENT = JObj
     [(U ''schema_version'', jstr ''traigent.dataset_taxonomy_document.v1''),
      (U ''taxonomy_id'', jstr ''traigent.dataset_taxonomy.asap.v1''), (U ''taxonomy_version'', jstr ''1.0.0''),
      (U ''category_ids'', jnames [''factual_lookup'', ''multi_hop_reasoning'', ''arithmetic'', ''code_generation'',
         ''structured_extraction'', ''summarization'', ''classification'', ''instruction_following'', ''safety_refusal'', ''tool_invocation'']),
      (U ''difficulty_strata'', jnames [''s1_easy'', ''s2_moderate'', ''s3_hard'', ''s4_adversarial'']),
      (U ''population_kinds'', jnames [''customer_declared_domain'', ''public_benchmark_replica'', ''synthetic_from_declared_spec'',
         ''historical_production_sample'', ''adversarial_curated'', ''undeclared'']),
      (U ''min_stratum_size'', JInt 30), (U ''imbalance_ratio_limit'', JInt 10), (U ''canonicalization'', jstr ''jcs_v1'')]"

definition METHOD_REGISTRY_DOCUMENT :: json where
  "METHOD_REGISTRY_DOCUMENT = JObj
     [(U ''schema_version'', jstr ''traigent.dataset_method_registry_document.v1''),
      (U ''registry_id'', jstr ''traigent.dataset_method_registry.asap.v1''), (U ''registry_version'', jstr ''1.0.0''),
      (U ''information_methods'', jnames [''irt_2pl_mml_v1'', ''point_biserial_v1'', ''score_variance_v1'']),
      (U ''selection_rules'', jnames [''argmax_mean_score_v1'', ''argmax_mean_score_cost_tiebreak_v1'', ''pareto_first_by_declared_order_v1'']),
      (U ''inertness_criteria'', jnames [''winner_preserving'', ''rank_preserving'']),
      (U ''elimination_orders'', jnames [''item_index_ascending'', ''estimated_information_ascending'']),
      (U ''near_duplicate_methods'', jnames [''exact_normalized_v1'', ''minhash_jaccard_v1'', ''simhash_hamming_v1'']),
      (U ''interval_methods'', jnames [''none'', ''bootstrap_percentile_v1'', ''wilson_score_v1'']), (U ''canonicalization'', jstr ''jcs_v1'')]"

text \<open>\<open>None\<close> is \<open>DatasetRecordRegistryError\<close>, at import.\<close>

definition ds_validate_registry_document :: "cert_env \<Rightarrow> json \<Rightarrow> string \<Rightarrow> string \<Rightarrow> byte list \<Rightarrow> unit option" where
  "ds_validate_registry_document env document definition_name digest_field domain =
     (if json_member document (U digest_field) \<noteq> None then None
      else case ds_role_digest env domain document of
             Inl e \<Rightarrow> None
           | Inr d \<Rightarrow>
               if schema env (DefinitionSchema definition_name) (JObj (members document @ [(U digest_field, JStr d)])) = Conforms
               then Some () else None)"

definition ds_load_registry_constant :: "cert_env \<Rightarrow> json option \<Rightarrow> string \<Rightarrow> string \<Rightarrow> byte list \<Rightarrow> (json \<times> ustr) option" where
  "ds_load_registry_constant env loaded definition_name digest_field domain =
     (case loaded of
        None \<Rightarrow> None
      | Some document \<Rightarrow>
          if is_dict document \<and> ds_validate_registry_document env document definition_name digest_field domain = Some ()
          then (case ds_role_digest env domain document of Inl e \<Rightarrow> None | Inr d \<Rightarrow> Some (document, d))
          else None)"

definition TAXONOMY_IDENTITY :: "cert_env \<Rightarrow> json" where
  "TAXONOMY_IDENTITY env = JObj
     [(U ''taxonomy_id'', jstr ''traigent.dataset_taxonomy.asap.v1''), (U ''taxonomy_version'', jstr ''1.0.0''),
      (U ''taxonomy_digest'', JStr (registry_digest env DS_TAXONOMY_DOMAIN TAXONOMY_DOCUMENT))]"

definition METHOD_REGISTRY_IDENTITY :: "cert_env \<Rightarrow> json" where
  "METHOD_REGISTRY_IDENTITY env = JObj
     [(U ''registry_id'', jstr ''traigent.dataset_method_registry.asap.v1''), (U ''registry_version'', jstr ''1.0.0''),
      (U ''registry_digest'', JStr (registry_digest env DS_METHOD_REGISTRY_DOMAIN METHOD_REGISTRY_DOCUMENT))]"

definition registered :: "json \<Rightarrow> string \<Rightarrow> json \<Rightarrow> cert_error + bool" where
  "registered document key x =
     (if is_container x then Inl PyTypeErr else Inr (x \<in> set (elements (get_member document key))))"

definition MIN_STRATUM_SIZE :: int where "MIN_STRATUM_SIZE = 30"
definition IMBALANCE_RATIO_LIMIT :: int where "IMBALANCE_RATIO_LIMIT = 10"

section \<open>Strict integers, schema and process record\<close>

lemma check_all_cong [fundef_cong]:
  "xs = ys \<Longrightarrow> (\<And>x. x \<in> set ys \<Longrightarrow> f x = g x) \<Longrightarrow> check_all f xs = check_all g ys"
  by (induction ys arbitrary: xs) auto

lemma size_snd_member: "(a, b) \<in> set kts \<Longrightarrow> size b \<le> size_list (size_prod (\<lambda>x. 0) size) kts"
  by (induction kts) auto

lemma size_enumerated: "x \<in> set (enumerate k ts) \<Longrightarrow> size (snd x) \<le> size_list size ts"
  by (induction ts arbitrary: k) fastforce+

function walk_strict_integers :: "ustr \<Rightarrow> json \<Rightarrow> cert_error + unit" where
  "walk_strict_integers loc (JFloat f) = Inl (Located ''STRICT_INTEGER'' loc)"
| "walk_strict_integers loc (JObj kts) = check_all (\<lambda>kt. walk_strict_integers (loc @ U ''/'' @ fst kt) (snd kt)) kts"
| "walk_strict_integers loc (JArr ts) =
     check_all (\<lambda>it. walk_strict_integers (loc @ U ''/'' @ int_text (int (fst it))) (snd it)) (enumerate 0 ts)"
| "walk_strict_integers loc JNull = Inr ()"
| "walk_strict_integers loc (JBool b) = Inr ()"
| "walk_strict_integers loc (JInt i) = Inr ()"
| "walk_strict_integers loc (JStr s) = Inr ()"
  by pat_completeness auto

termination walk_strict_integers
  by (relation "measure (\<lambda>(loc, t). size t)") (auto dest: size_snd_member size_enumerated simp: less_Suc_eq_le)

definition ds_check_strict_integers :: "json \<Rightarrow> cert_error + unit" where
  "ds_check_strict_integers bundle = walk_strict_integers [] bundle"

definition ds_validate_schema :: "cert_env \<Rightarrow> json \<Rightarrow> cert_error + unit" where
  "ds_validate_schema env bundle =
     (case schema env (RecordSchema ''dataset_record'') bundle of
        Conforms \<Rightarrow> Inr ()
      | Violates \<Rightarrow> Inl (Located ''SCHEMA'' [])
      | NoValidator \<Rightarrow> Inl (Located ''SCHEMA_DEPENDENCY'' [])
      | DanglingReference \<Rightarrow> Inl (Located ''SCHEMA_DEPENDENCY'' [])
      | SchemaRaises \<Rightarrow> Inl OtherErr
      | MissingDependency \<Rightarrow> Inl SchemaDependency)"

definition verify_process_record :: "cert_env \<Rightarrow> json \<Rightarrow> dataset_context \<Rightarrow> cert_error + process_result \<times> json" where
  "verify_process_record env process_record_bundle ctx =
     rbind (recast_at is_failed ''PROCESS_RECORD_INVALID'' []
              (verify_process_record_certificate env process_record_bundle (ds_process_context ctx) JNull)) (\<lambda>result.
     rbind (fail_at (\<not> is_dict process_record_bundle) ''PROCESS_RECORD_INVALID'' []) (\<lambda>_.
     rbind (field process_record_bundle ''unsigned_manifest'') (\<lambda>pr_unsigned. Inr (result, pr_unsigned))))"

section \<open>Bindings and identity\<close>

definition check_scope_binding :: "cert_env \<Rightarrow> json \<Rightarrow> json \<Rightarrow> dataset_context \<Rightarrow> cert_error + unit" where
  "check_scope_binding env manifest pr_unsigned ctx =
     (let loc = U ''/unsigned_manifest/scope_binding_digest'' in
      rbind (must_equal_at ''SCOPE_BINDING_MISMATCH'' loc (get_item pr_unsigned ''project_ref'') (Inr (JStr (ds_project_ref ctx)))) (\<lambda>_.
      rbind (must_equal_at ''SCOPE_BINDING_MISMATCH'' loc (get_item pr_unsigned ''build_session_ref'')
               (Inr (JStr (ds_build_session_ref ctx)))) (\<lambda>_.
      rbind (ds_role_digest env DS_SCOPE_BINDING_DOMAIN
               (JObj [(U ''schema_version'', jstr ''traigent.dataset_record.scope_binding.v1''),
                      (U ''project_ref'', JStr (ds_project_ref ctx)), (U ''build_session_ref'', JStr (ds_build_session_ref ctx))])) (\<lambda>d.
        must_equal_at ''SCOPE_BINDING_MISMATCH'' loc (field manifest ''scope_binding_digest'') (Inr (JStr d))))))"

definition check_process_binding :: "json \<Rightarrow> process_result \<Rightarrow> cert_error + unit" where
  "check_process_binding manifest pr_result =
     must_equal_at ''PROCESS_MANIFEST_DIGEST_MISMATCH'' (U ''/unsigned_manifest/process_unsigned_manifest_digest'')
       (field manifest ''process_unsigned_manifest_digest'') (Inr (JStr (unsigned_manifest_digest pr_result)))"

definition check_dataset_commitment :: "json \<Rightarrow> process_result \<Rightarrow> dataset_context \<Rightarrow> cert_error + unit" where
  "check_dataset_commitment manifest pr_result ctx =
     (let loc = U ''/unsigned_manifest/dataset_commitment_ref'' in
      rbind (field manifest ''dataset_commitment_ref'') (\<lambda>ref.
      rbind (must_equal_at ''DATASET_COMMITMENT_REF_MISMATCH'' loc (Inr ref) (Inr (result_dataset_ref pr_result))) (\<lambda>_.
        must_equal_at ''DATASET_COMMITMENT_REF_MISMATCH'' loc (Inr ref) (Inr (JStr (ds_commitment_ref ctx))))))"

definition check_identity :: "json \<Rightarrow> dataset_context \<Rightarrow> cert_error + string" where
  "check_identity identity ctx =
     rbind (field identity ''dataset_identity_root'') (\<lambda>root.
     rbind (field identity ''identity_blind_epoch'') (\<lambda>epoch.
       if root = JNull then Inr ''abstained''
       else case ds_identity_root ctx of
              None \<Rightarrow> Inr ''abstained''
            | Some pinned \<Rightarrow>
                let root_matches = py_eq root (JStr pinned); epoch_matches = py_eq epoch (JInt (ds_blind_epoch ctx)) in
                if root_matches \<and> epoch_matches then Inr ''issuer_verified''
                else if root_matches \<noteq> epoch_matches
                then Inl (Located ''IDENTITY_EPOCH_INCONSISTENT'' (U ''/unsigned_manifest/identity/identity_blind_epoch''))
                else Inl (Located ''DATASET_IDENTITY_MISMATCH'' (U ''/unsigned_manifest/identity/dataset_identity_root''))))"

definition check_derived_dataset_ref :: "cert_env \<Rightarrow> json \<Rightarrow> cert_error + unit" where
  "check_derived_dataset_ref env identity =
     must_equal_at ''REF_NOT_DERIVED'' (U ''/unsigned_manifest/identity/dataset_ref'')
       (field identity ''dataset_ref'') (rbind (expected_dataset_ref env identity) (\<lambda>r. Inr (JStr r)))"

section \<open>The leaf lists the caller supplies\<close>

text \<open>
  The fifth input is \<open>JNull\<close> for \<open>None\<close>, and a mapping with string keys is \<open>JObj\<close>, a sequence \<open>JArr\<close>.
\<close>

definition leaf_of :: "json \<Rightarrow> cert_error + ustr" where
  "leaf_of entry = rbind (field entry ''leaf'') (\<lambda>t. case t of JStr s \<Rightarrow> Inr s | _ \<Rightarrow> Inl PyTypeErr)"

definition project_leaf_list_row :: "bool \<Rightarrow> json \<Rightarrow> cert_error + json" where
  "project_leaf_list_row is_item_set entry =
     (let keys = (if is_item_set then [''leaf'', ''category_id'', ''difficulty_stratum''] else [''leaf'']);
          row = map (\<lambda>k. (U k, get_member entry k)) (filter (\<lambda>k. json_member entry (U k) \<noteq> None) keys) in
      rbind (fail_at (\<not> is_dict entry) ''LEAF_LIST_SHAPE'' []) (\<lambda>_.
      rbind (fail_at (length row \<noteq> length keys \<or> length row \<noteq> length (members entry)) ''LEAF_LIST_SHAPE'' []) (\<lambda>_.
      rbind (fail_at (case get_member entry ''leaf'' of JStr s \<Rightarrow> \<not> is_sha256_ref s | _ \<Rightarrow> True) ''LEAF_LIST_SHAPE'' []) (\<lambda>_.
        Inr (JObj row)))))"

definition leaf_list_projection_error :: "cert_env \<Rightarrow> string \<Rightarrow> json \<Rightarrow> cert_error + bool" where
  "leaf_list_projection_error env definition_name projection =
     (case schema env (DefinitionSchema definition_name) projection of
        Conforms \<Rightarrow> Inr False
      | Violates \<Rightarrow> Inr True
      | NoValidator \<Rightarrow> Inl (Located ''SCHEMA_DEPENDENCY'' [])
      | DanglingReference \<Rightarrow> Inl (Located ''SCHEMA_DEPENDENCY'' [])
      | SchemaRaises \<Rightarrow> Inl OtherErr
      | MissingDependency \<Rightarrow> Inl SchemaDependency)"

definition check_leaf_list_entry :: "cert_env \<Rightarrow> json \<Rightarrow> json \<Rightarrow> json \<Rightarrow> ustr \<times> json \<Rightarrow> cert_error + unit" where
  "check_leaf_list_entry env identity dataset_ref leakage_scope_ref supplied =
     (let key = JStr (fst supplied); is_item_set = py_eq key dataset_ref in
      rbind (case snd supplied of JArr ts \<Rightarrow> Inr ts | _ \<Rightarrow> Inl (Located ''LEAF_LIST_SHAPE'' [])) (\<lambda>entries.
      rbind (traverse (project_leaf_list_row is_item_set) entries) (\<lambda>rows.
      rbind (traverse leaf_of rows) (\<lambda>leaves.
      rbind (fail_at (\<not> distinct leaves) ''LEAF_LIST_SHAPE'' []) (\<lambda>_.
        if MAX_LEAF_LIST < length rows then Inr ()
        else if is_item_set then
          rbind (field identity ''item_set_root'') (\<lambda>item_set_root.
          rbind (leaf_list_projection_error env ''DatasetItemSetLeafListV1''
                   (JObj [(U ''schema_version'', jstr ''traigent.dataset_record.item_set_leaf_list.v1''),
                          (U ''dataset_ref'', key), (U ''item_set_root'', item_set_root), (U ''entries'', JArr rows)])) (\<lambda>bad.
            fail_at bad ''LEAF_LIST_SHAPE'' []))
        else
          rbind (leaf_list_projection_error env ''DatasetLeafListV1''
                   (JObj [(U ''schema_version'', jstr ''traigent.dataset_record.leaf_list.v1''), (U ''corpus_ref'', key),
                          (U ''leakage_scope_ref'', leakage_scope_ref), (U ''leaves'', JArr (map JStr (sort leaves)))])) (\<lambda>bad.
            fail_at bad ''LEAF_LIST_SHAPE'' []))))))"

definition check_leaf_list_input :: "cert_env \<Rightarrow> json \<Rightarrow> json \<Rightarrow> cert_error + unit" where
  "check_leaf_list_input env identity leaf_lists =
     (if leaf_lists = JNull then Inr ()
      else
        rbind (fail_at (\<not> is_dict leaf_lists) ''LEAF_LIST_SHAPE'' []) (\<lambda>_.
        rbind (field identity ''dataset_ref'') (\<lambda>dataset_ref.
        rbind (field identity ''leakage_scope_ref'') (\<lambda>scope.
          check_all (check_leaf_list_entry env identity dataset_ref scope) (members leaf_lists)))))"

text \<open>The corpora among the supplied lists: every key but the reserved one of the item set.\<close>

definition corpus_lists :: "json \<Rightarrow> json \<Rightarrow> (ustr \<times> json) list" where
  "corpus_lists dataset_ref leaf_lists = filter (\<lambda>(k, v). \<not> py_eq (JStr k) dataset_ref) (members leaf_lists)"

definition check_attestation_derived_refs :: "cert_env \<Rightarrow> json \<Rightarrow> json \<Rightarrow> cert_error + unit" where
  "check_attestation_derived_refs env attestation leakage_scope_ref =
     rbind (rbind (field attestation ''scope_blind_commitment'') (derive_leakage_scope_ref env)) (\<lambda>expected_scope.
     rbind (must_equal_at ''REF_NOT_DERIVED'' (U ''/unsigned_manifest/identity/leakage_scope_ref'')
              (Inr leakage_scope_ref) (Inr (JStr expected_scope))) (\<lambda>_.
     rbind (list_field attestation ''corpora'') (check_all (\<lambda>corpus.
       rbind (rbind (field corpus ''leaf_root'') (\<lambda>root. derive_corpus_ref env root leakage_scope_ref)) (\<lambda>expected_corpus.
         must_equal_at ''REF_NOT_DERIVED'' (U ''/leaf_generation_attestation/corpora'')
           (field corpus ''corpus_ref'') (Inr (JStr expected_corpus)))))))"

definition check_leaf_list_derived_refs :: "cert_env \<Rightarrow> json \<Rightarrow> json \<Rightarrow> json \<Rightarrow> cert_error + unit" where
  "check_leaf_list_derived_refs env leaf_lists dataset_ref leakage_scope_ref =
     check_all (\<lambda>(corpus_ref, entries).
       rbind (rbind (iterate entries) (traverse leaf_of)) (\<lambda>leaves.
       rbind (leaf_list_digest env leaves) (\<lambda>root.
       rbind (derive_corpus_ref env (JStr root) leakage_scope_ref) (\<lambda>expected_corpus.
         fail_at (corpus_ref \<noteq> expected_corpus) ''REF_NOT_DERIVED'' (U ''/leakage_report/leaf_list_digests'')))))
       (corpus_lists dataset_ref leaf_lists)"

definition check_derived_refs :: "cert_env \<Rightarrow> json \<Rightarrow> json \<Rightarrow> json \<Rightarrow> cert_error + unit" where
  "check_derived_refs env manifest leaf_lists attestation =
     rbind (field manifest ''identity'') (\<lambda>identity.
     rbind (field identity ''leakage_scope_ref'') (\<lambda>scope.
     rbind (if attestation = JNull then Inr () else check_attestation_derived_refs env attestation scope) (\<lambda>_.
       if json_truthy leaf_lists then
         rbind (field identity ''dataset_ref'') (\<lambda>dataset_ref. check_leaf_list_derived_refs env leaf_lists dataset_ref scope)
       else Inr ())))"

section \<open>Composition\<close>

definition check_taxonomy_and_registry_pins :: "cert_env \<Rightarrow> json \<Rightarrow> cert_error + unit" where
  "check_taxonomy_and_registry_pins env manifest =
     in_turn
       [must_equal_at ''TAXONOMY_DIGEST_MISMATCH'' (U ''/unsigned_manifest/taxonomy'')
          (field manifest ''taxonomy'') (Inr (TAXONOMY_IDENTITY env)),
        must_equal_at ''METHOD_REGISTRY_DIGEST_MISMATCH'' (U ''/unsigned_manifest/method_registry'')
          (field manifest ''method_registry'') (Inr (METHOD_REGISTRY_IDENTITY env))]"

definition check_report_registry_identities :: "json \<Rightarrow> json \<Rightarrow> json \<Rightarrow> cert_error + unit" where
  "check_report_registry_identities manifest composition leakage_report =
     in_turn
       [must_equal_at ''TAXONOMY_DIGEST_MISMATCH'' (U ''/composition/taxonomy'')
          (field composition ''taxonomy'') (field manifest ''taxonomy''),
        must_equal_at ''METHOD_REGISTRY_DIGEST_MISMATCH'' (U ''/leakage_report/method_registry'')
          (field leakage_report ''method_registry'') (field manifest ''method_registry'')]"

text \<open>The digest of a document without its self-digest member.\<close>

definition artifact_digest :: "cert_env \<Rightarrow> byte list \<Rightarrow> string \<Rightarrow> json \<Rightarrow> cert_error + ustr" where
  "artifact_digest env domain key t =
     rbind (if is_dict t then Inr () else Inl OtherErr) (\<lambda>_. ds_role_digest env domain (without_member key t))"

definition check_artifact_digest ::
  "cert_env \<Rightarrow> byte list \<Rightarrow> string \<Rightarrow> string \<Rightarrow> string \<Rightarrow> json \<Rightarrow> json \<Rightarrow> cert_error + unit" where
  "check_artifact_digest env domain key code own manifest artifact =
     rbind (artifact_digest env domain key artifact) (\<lambda>d.
     in_turn
       [must_equal_at code (U own) (Inr (JStr d)) (field artifact key),
        must_equal_at code (U ''/unsigned_manifest/'' @ U key) (Inr (JStr d)) (field manifest key)])"

definition check_composition_digest :: "cert_env \<Rightarrow> json \<Rightarrow> json \<Rightarrow> cert_error + unit" where
  "check_composition_digest env manifest composition =
     check_artifact_digest env DS_COMPOSITION_DOMAIN ''composition_digest'' ''COMPOSITION_DIGEST_MISMATCH''
       ''/composition/composition_digest'' manifest composition"

definition cell_key :: "json \<Rightarrow> cert_error + json \<times> json" where
  "cell_key t =
     rbind (field t ''category_id'') (\<lambda>category.
     rbind (field t ''difficulty_stratum'') (\<lambda>stratum.
       if is_container category \<or> is_container stratum then Inl PyTypeErr else Inr (category, stratum)))"

definition same_key :: "json \<times> json \<Rightarrow> json \<times> json \<Rightarrow> bool" where
  "same_key a b \<longleftrightarrow> py_eq (fst a) (fst b) \<and> py_eq (snd a) (snd b)"

definition partition_cell :: "nat \<Rightarrow> (json \<times> json) list \<times> int \<Rightarrow> json \<Rightarrow> cert_error + (json \<times> json) list \<times> int" where
  "partition_cell index st cell =
     rbind (cell_key cell) (\<lambda>key.
     rbind (fail_at (list_ex (\<lambda>k. same_key k key) (fst st)) ''STRATUM_PARTITION_MISMATCH'' (at_index ''/composition/cells/'' index [])) (\<lambda>_.
     rbind (num_field cell ''item_count'') (\<lambda>n.
     rbind (fail_at (n < 1) ''STRATUM_PARTITION_MISMATCH'' (at_index ''/composition/cells/'' index ''/item_count'')) (\<lambda>_.
       Inr (key # fst st, snd st + n)))))"

definition check_declared_partition :: "json \<Rightarrow> json \<Rightarrow> cert_error + unit" where
  "check_declared_partition identity composition =
     (let loc = U ''/composition/cells'' in
      rbind (list_field composition ''cells'') (\<lambda>cells.
      rbind (fail_at (MAX_CELLS < length cells) ''STRATUM_PARTITION_MISMATCH'' loc) (\<lambda>_.
      rbind (fold_indexed partition_cell 0 ([], 0) cells) (\<lambda>st.
      rbind (must_equal_at ''STRATUM_PARTITION_MISMATCH'' loc (Inr (JInt (snd st))) (field identity ''item_count'')) (\<lambda>_.
        must_equal_at ''STRATUM_PARTITION_MISMATCH'' (U ''/composition/populated_cell_count'')
          (field composition ''populated_cell_count'') (Inr (JInt (int (length cells)))))))))"

definition check_composition_vocabulary :: "json \<Rightarrow> cert_error + unit" where
  "check_composition_vocabulary composition =
     rbind (list_field composition ''cells'') (check_indexed (\<lambda>index cell.
       rbind (rbind (field cell ''category_id'') (registered TAXONOMY_DOCUMENT ''category_ids'')) (\<lambda>known.
       rbind (fail_at (\<not> known) ''TAXONOMY_TERM_UNREGISTERED'' (at_index ''/composition/cells/'' index ''/category_id'')) (\<lambda>_.
       rbind (rbind (field cell ''difficulty_stratum'') (registered TAXONOMY_DOCUMENT ''difficulty_strata'')) (\<lambda>known.
         fail_at (\<not> known) ''TAXONOMY_TERM_UNREGISTERED'' (at_index ''/composition/cells/'' index ''/difficulty_stratum''))))) 0)"

text \<open>The item set's entries as pairs of key and leaf; \<open>by_cell[key]\<close> are the leaves under that key.\<close>

definition tagged_leaf :: "json \<Rightarrow> cert_error + (json \<times> json) \<times> ustr" where
  "tagged_leaf entry = rbind (leaf_of entry) (\<lambda>leaf. rbind (cell_key entry) (\<lambda>key. Inr (key, leaf)))"

definition leaves_of_cell :: "((json \<times> json) \<times> ustr) list \<Rightarrow> json \<times> json \<Rightarrow> ustr list" where
  "leaves_of_cell tagged key = map snd (filter (\<lambda>t. same_key (fst t) key) tagged)"

definition check_cell_root :: "cert_env \<Rightarrow> ((json \<times> json) \<times> ustr) list \<Rightarrow> json \<Rightarrow> cert_error + unit" where
  "check_cell_root env tagged cell =
     (let loc = U ''/composition/cells'' in
      rbind (cell_key cell) (\<lambda>key.
      let leaves = leaves_of_cell tagged key in
      rbind (must_equal_at ''COMPOSITION_CELL_COUNT_MISMATCH'' loc (Inr (JInt (int (length leaves)))) (field cell ''item_count'')) (\<lambda>_.
      rbind (ds_role_digest env DS_CELL_ROOT_DOMAIN (JArr (map JStr (sort leaves)))) (\<lambda>d.
        must_equal_at ''COMPOSITION_CELL_ROOT_MISMATCH'' loc (Inr (JStr d)) (field cell ''cell_leaf_root'')))))"

definition check_cell_roots :: "cert_env \<Rightarrow> json \<Rightarrow> json \<Rightarrow> json \<Rightarrow> cert_error + bool" where
  "check_cell_roots env identity composition leaf_lists =
     rbind (rbind (field identity ''dataset_ref'') (get_by leaf_lists)) (\<lambda>item_set_entries.
       if \<not> json_truthy item_set_entries then Inr False
       else
         rbind (rbind (iterate item_set_entries) (traverse tagged_leaf)) (\<lambda>tagged.
         rbind (list_field composition ''cells'') (\<lambda>cells.
         rbind (check_all (check_cell_root env tagged) cells) (\<lambda>_.
         rbind (traverse cell_key cells) (\<lambda>declared.
         rbind (fail_at (list_ex (\<lambda>t. \<not> list_ex (same_key (fst t)) declared) tagged)
                  ''COMPOSITION_CELL_ROOT_MISMATCH'' (U ''/composition/cells'')) (\<lambda>_.
         rbind (ds_role_digest env DS_ITEM_SET_ROOT_DOMAIN (JArr (map JStr (sort (map snd tagged))))) (\<lambda>d.
         rbind (must_equal_at ''COMPOSITION_CELL_ROOT_MISMATCH'' (U ''/unsigned_manifest/identity/item_set_root'')
                  (Inr (JStr d)) (field identity ''item_set_root'')) (\<lambda>_. Inr True))))))))"

section \<open>Leakage\<close>

definition check_leakage_digest :: "cert_env \<Rightarrow> json \<Rightarrow> json \<Rightarrow> cert_error + unit" where
  "check_leakage_digest env manifest leakage_report =
     check_artifact_digest env DS_LEAKAGE_REPORT_DOMAIN ''leakage_report_digest'' ''LEAKAGE_REPORT_DIGEST_MISMATCH''
       ''/leakage_report/leakage_report_digest'' manifest leakage_report"

definition check_leakage_basis_coupling :: "json \<Rightarrow> cert_error + unit" where
  "check_leakage_basis_coupling leakage_report =
     rbind (list_field leakage_report ''findings'') (check_indexed (\<lambda>index finding.
       let loc = at_index ''/leakage_report/findings/'' index ''/observation_basis'' in
       rbind (field finding ''finding_kind'') (\<lambda>kind.
       rbind (field finding ''observation_basis'') (\<lambda>basis.
       rbind (in_names TIER_C_FINDING_KINDS kind) (\<lambda>tier_c.
       rbind (fail_at (tier_c \<and> basis \<noteq> jstr ''client_attested'') ''LEAKAGE_BASIS_COUPLING'' loc) (\<lambda>_.
       rbind (in_names TIER_A_B_FINDING_KINDS kind) (\<lambda>tier_a_b.
         fail_at (tier_a_b \<and> basis \<noteq> jstr ''backend_observed'') ''LEAKAGE_BASIS_COUPLING'' loc)))))) 0)"

definition check_leakage_scope_pin :: "json \<Rightarrow> dataset_context \<Rightarrow> cert_error + unit" where
  "check_leakage_scope_pin identity ctx =
     must_equal_at ''LEAKAGE_SCOPE_MISMATCH'' (U ''/unsigned_manifest/identity/leakage_scope_ref'')
       (field identity ''leakage_scope_ref'') (Inr (JStr (ds_leakage_scope_ref ctx)))"

definition relevant :: "json \<Rightarrow> cert_error + bool" where
  "relevant finding = rbind (field finding ''finding_kind'') (in_names DS3_RELEVANT_FINDING_KINDS)"

definition set_key :: "json \<Rightarrow> cert_error + json" where
  "set_key t = (if is_container t then Inl PyTypeErr else Inr t)"

definition ds3_relevant_corpus_refs :: "json \<Rightarrow> cert_error + json list" where
  "ds3_relevant_corpus_refs leakage_report =
     rbind (list_field leakage_report ''findings'') (fold_steps (\<lambda>refs finding.
       rbind (relevant finding) (\<lambda>b.
         if \<not> b then Inr refs
         else
           rbind (rbind (field finding ''corpus_a_ref'') set_key) (\<lambda>a.
           rbind (rbind (field finding ''corpus_b_ref'') set_key) (\<lambda>b. Inr (refs @ [a, b]))))) [])"

definition check_leakage_scope :: "json \<Rightarrow> json \<Rightarrow> json \<Rightarrow> cert_error + unit" where
  "check_leakage_scope identity leakage_report leaf_lists =
     rbind (must_equal_at ''LEAKAGE_SCOPE_MISMATCH'' (U ''/leakage_report/leakage_scope_ref'')
              (field leakage_report ''leakage_scope_ref'') (field identity ''leakage_scope_ref'')) (\<lambda>_.
       if \<not> json_truthy leaf_lists then Inr ()
       else
         rbind (rbind (list_field leakage_report ''leaf_list_digests'')
                  (traverse (\<lambda>entry. rbind (field entry ''corpus_ref'') set_key))) (\<lambda>supplied.
         rbind (field identity ''dataset_ref'') (\<lambda>dataset_ref.
           check_all (\<lambda>(corpus_ref, entries).
             fail_at (JStr corpus_ref \<notin> set supplied) ''LEAKAGE_SCOPE_MISMATCH'' (U ''/leakage_report/leaf_list_digests''))
             (corpus_lists dataset_ref leaf_lists))))"

text \<open>The last entry that declares the corpus.\<close>

definition declared_for :: "json list \<Rightarrow> ustr \<Rightarrow> cert_error + json option" where
  "declared_for entries corpus_ref =
     fold_steps (\<lambda>found entry. rbind (rbind (field entry ''corpus_ref'') set_key) (\<lambda>r.
       Inr (if r = JStr corpus_ref then Some entry else found))) None entries"

definition check_leaf_list_digests :: "cert_env \<Rightarrow> json \<Rightarrow> json \<Rightarrow> json \<Rightarrow> cert_error + (ustr \<times> ustr list) list" where
  "check_leaf_list_digests env identity leakage_report leaf_lists =
     (let loc = U ''/leakage_report/leaf_list_digests'' in
      rbind (list_field leakage_report ''leaf_list_digests'') (\<lambda>entries.
      rbind (check_all (\<lambda>entry. rbind (rbind (field entry ''corpus_ref'') set_key) (\<lambda>_. Inr ())) entries) (\<lambda>_.
      rbind (field identity ''dataset_ref'') (\<lambda>dataset_ref.
        traverse (\<lambda>(corpus_ref, supplied).
          rbind (declared_for entries corpus_ref) (\<lambda>found.
          rbind (case found of None \<Rightarrow> Inl (Located ''LEAF_LIST_DIGEST_MISMATCH'' loc) | Some declared \<Rightarrow> Inr declared) (\<lambda>declared.
          rbind (rbind (iterate supplied) (traverse leaf_of)) (\<lambda>leaves.
          rbind (must_equal_at ''LEAF_LIST_DIGEST_MISMATCH'' loc (Inr (JInt (int (length leaves)))) (field declared ''leaf_count'')) (\<lambda>_.
          rbind (leaf_list_digest env leaves) (\<lambda>d.
          rbind (must_equal_at ''LEAF_LIST_DIGEST_MISMATCH'' loc (Inr (JStr d)) (field declared ''leaf_list_digest'')) (\<lambda>_.
            Inr (corpus_ref, sort leaves)))))))) (corpus_lists dataset_ref leaf_lists)))))"

text \<open>The leaves of a corpus, by a reference a finding names.\<close>

definition leaves_by :: "(ustr \<times> ustr list) list \<Rightarrow> json \<Rightarrow> cert_error + ustr list option" where
  "leaves_by corpora_leaves ref =
     (case ref of JStr r \<Rightarrow> Inr (map_of corpora_leaves r) | _ \<Rightarrow> if is_container ref then Inl PyTypeErr else Inr None)"

definition common :: "ustr list \<Rightarrow> ustr list \<Rightarrow> ustr list" where
  "common a b = remdups (filter (\<lambda>x. x \<in> set b) a)"

definition check_overlap_finding :: "(ustr \<times> ustr list) list \<Rightarrow> nat \<Rightarrow> nat \<Rightarrow> json \<Rightarrow> cert_error + nat" where
  "check_overlap_finding corpora_leaves index checked finding =
     rbind (relevant finding) (\<lambda>b.
       if \<not> b then Inr checked
       else
         rbind (field finding ''corpus_a_ref'') (\<lambda>a_ref.
         rbind (field finding ''corpus_b_ref'') (\<lambda>b_ref.
         rbind (leaves_by corpora_leaves a_ref) (\<lambda>a.
           case a of None \<Rightarrow> Inr checked
           | Some a_leaves \<Rightarrow>
               rbind (leaves_by corpora_leaves b_ref) (\<lambda>b.
                 case b of None \<Rightarrow> Inr checked
                 | Some b_leaves \<Rightarrow>
                     let both = common a_leaves b_leaves in
                     rbind (get_item finding ''disjointness_asserted'') (\<lambda>asserted.
                     rbind (fail_at (json_truthy asserted \<and> both \<noteq> []) ''SPLIT_DISJOINTNESS_VIOLATION''
                              (at_index ''/leakage_report/findings/'' index ''/disjointness_asserted'')) (\<lambda>_.
                     rbind (must_equal_at ''LEAKAGE_OVERLAP_MISMATCH'' (at_index ''/leakage_report/findings/'' index ''/overlap_count'')
                              (Inr (JInt (int (length both)))) (field finding ''overlap_count'')) (\<lambda>_. Inr (Suc checked)))))))))"

definition check_overlap_and_disjointness :: "json \<Rightarrow> (ustr \<times> ustr list) list \<Rightarrow> cert_error + nat" where
  "check_overlap_and_disjointness leakage_report corpora_leaves =
     rbind (list_field leakage_report ''findings'') (fold_indexed (check_overlap_finding corpora_leaves) 0 0)"

text \<open>\<open>tuple(sorted((a, b)))\<close> of two references.\<close>

definition pair_key :: "json \<Rightarrow> cert_error + ustr \<times> ustr" where
  "pair_key finding =
     rbind (field finding ''corpus_a_ref'') (\<lambda>a.
     rbind (field finding ''corpus_b_ref'') (\<lambda>b.
       case (a, b) of (JStr x, JStr y) \<Rightarrow> Inr (if y < x then (y, x) else (x, y)) | _ \<Rightarrow> Inl PyTypeErr))"

definition add_pair :: "((ustr \<times> ustr) \<times> bool) list \<Rightarrow> json \<Rightarrow> cert_error + ((ustr \<times> ustr) \<times> bool) list" where
  "add_pair pairs finding =
     rbind (relevant finding) (\<lambda>b.
       if \<not> b then Inr pairs
       else
         rbind (pair_key finding) (\<lambda>key.
         rbind (get_item finding ''disjointness_asserted'') (\<lambda>asserted.
           Inr (AList.update key ((case map_of pairs key of None \<Rightarrow> False | Some v \<Rightarrow> v) \<or> asserted = JBool True) pairs))))"

definition pair_disjoint :: "(ustr \<times> ustr list) list \<Rightarrow> (ustr \<times> ustr) \<times> bool \<Rightarrow> bool" where
  "pair_disjoint corpora_leaves p =
     (case p of ((a_ref, b_ref), asserted) \<Rightarrow>
        asserted \<and>
        (case (map_of corpora_leaves a_ref, map_of corpora_leaves b_ref) of
           (Some a_leaves, Some b_leaves) \<Rightarrow> common a_leaves b_leaves = []
         | _ \<Rightarrow> False))"

definition ds3_disjointness_established :: "json \<Rightarrow> (ustr \<times> ustr list) list \<Rightarrow> cert_error + bool" where
  "ds3_disjointness_established leakage_report corpora_leaves =
     rbind (rbind (list_field leakage_report ''findings'') (fold_steps add_pair [])) (\<lambda>pairs.
       Inr (pairs \<noteq> [] \<and> list_all (pair_disjoint corpora_leaves) pairs))"

section \<open>Corpus descriptors and the attestation\<close>

type_synonym leaf_counts = "(json \<times> json) list"

definition count_of :: "leaf_counts \<Rightarrow> json \<Rightarrow> json" where
  "count_of counts ref = (case find (\<lambda>kv. py_eq (fst kv) ref) counts of None \<Rightarrow> JNull | Some kv \<Rightarrow> snd kv)"

definition collect_digest_descriptor :: "cert_env \<Rightarrow> json \<Rightarrow> nat \<Rightarrow> leaf_counts \<Rightarrow> json \<Rightarrow> cert_error + leaf_counts" where
  "collect_digest_descriptor env leakage_scope_ref index counts entry =
     rbind (rbind (field entry ''leaf_list_digest'') (\<lambda>d. derive_corpus_ref env d leakage_scope_ref)) (\<lambda>expected.
     rbind (field entry ''corpus_ref'') (\<lambda>ref.
     rbind (must_equal_at ''REF_NOT_DERIVED'' (at_index ''/leakage_report/leaf_list_digests/'' index ''/corpus_ref'')
              (Inr ref) (Inr (JStr expected))) (\<lambda>_.
     rbind (seen ref (map fst counts)) (\<lambda>dup.
     rbind (fail_at dup ''LEAF_LIST_DIGEST_MISMATCH'' (U ''/leakage_report/leaf_list_digests'')) (\<lambda>_.
     rbind (field entry ''leaf_count'') (\<lambda>n. Inr ((ref, n) # counts)))))))"

definition collect_digest_descriptor_counts :: "cert_env \<Rightarrow> json \<Rightarrow> json \<Rightarrow> cert_error + leaf_counts" where
  "collect_digest_descriptor_counts env leakage_scope_ref leakage_report =
     rbind (list_field leakage_report ''leaf_list_digests'')
       (fold_indexed (collect_digest_descriptor env leakage_scope_ref) 0 [])"

definition collect_attestation_leaf_count :: "leaf_counts \<Rightarrow> json \<Rightarrow> cert_error + leaf_counts" where
  "collect_attestation_leaf_count counts corpus =
     rbind (field corpus ''corpus_ref'') (\<lambda>ref.
     rbind (seen ref (map fst counts)) (\<lambda>dup.
     rbind (fail_at dup ''LEAF_LIST_DIGEST_MISMATCH'' (U ''/leaf_generation_attestation/corpora'')) (\<lambda>_.
     rbind (field corpus ''leaf_count'') (\<lambda>n. Inr ((ref, n) # counts)))))"

definition collect_attestation_leaf_counts :: "json \<Rightarrow> cert_error + leaf_counts" where
  "collect_attestation_leaf_counts attestation =
     rbind (list_field attestation ''corpora'') (fold_steps collect_attestation_leaf_count [])"

definition check_cross_list_leaf_counts :: "leaf_counts \<Rightarrow> leaf_counts \<Rightarrow> cert_error + unit" where
  "check_cross_list_leaf_counts counts attested =
     check_all (\<lambda>(ref, n).
       let declared = count_of counts ref in
       fail_at (declared \<noteq> JNull \<and> \<not> py_eq declared n) ''LEAF_LIST_DIGEST_MISMATCH'' []) (rev attested)"

definition check_corpus_ref_descriptors :: "cert_env \<Rightarrow> json \<Rightarrow> json \<Rightarrow> json \<Rightarrow> cert_error + unit" where
  "check_corpus_ref_descriptors env identity leakage_report attestation =
     rbind (rbind (field identity ''leakage_scope_ref'') (\<lambda>scope. collect_digest_descriptor_counts env scope leakage_report)) (\<lambda>counts.
     rbind (if attestation = JNull then Inr []
            else
              rbind (collect_attestation_leaf_counts attestation) (\<lambda>attested.
              rbind (check_cross_list_leaf_counts counts attested) (\<lambda>_. Inr (map fst attested)))) (\<lambda>attested_refs.
     let known = map fst counts @ attested_refs in
     rbind (list_field leakage_report ''findings'') (check_indexed (\<lambda>index finding.
       check_all (\<lambda>key.
         rbind (rbind (field finding key) (\<lambda>ref. seen ref known)) (\<lambda>b.
           fail_at (\<not> b) ''REF_NOT_DERIVED'' (at_index ''/leakage_report/findings/'' index (''/'' @ key))))
         [''corpus_a_ref'', ''corpus_b_ref'']) 0)))"

definition check_attestation_absent :: "json \<Rightarrow> json \<Rightarrow> cert_error + unit" where
  "check_attestation_absent manifest leakage_report =
     rbind (field manifest ''leaf_generation_attestation_digest'') (\<lambda>a.
     rbind (fail_at (a \<noteq> JNull) ''LEAF_GENERATION_ATTESTATION_MISSING''
              (U ''/unsigned_manifest/leaf_generation_attestation_digest'')) (\<lambda>_.
     rbind (field leakage_report ''leaf_generation_attestation_digest'') (\<lambda>b.
       fail_at (b \<noteq> JNull) ''LEAF_GENERATION_ATTESTATION_MISSING'' (U ''/leakage_report/leaf_generation_attestation_digest''))))"

definition check_attestation_digest_bindings :: "cert_env \<Rightarrow> json \<Rightarrow> json \<Rightarrow> json \<Rightarrow> cert_error + unit" where
  "check_attestation_digest_bindings env manifest leakage_report attestation =
     rbind (artifact_digest env DS_LEAF_GENERATION_ATTESTATION_DOMAIN ''attestation_digest'' attestation) (\<lambda>d.
     in_turn
       [must_equal_at ''LEAF_GENERATION_ATTESTATION_MISSING'' (U ''/leaf_generation_attestation'')
          (Inr (JStr d)) (field attestation ''attestation_digest''),
        must_equal_at ''LEAF_GENERATION_ATTESTATION_MISSING'' (U ''/unsigned_manifest/leaf_generation_attestation_digest'')
          (field manifest ''leaf_generation_attestation_digest'') (Inr (JStr d)),
        must_equal_at ''LEAF_GENERATION_ATTESTATION_MISSING'' (U ''/leakage_report/leaf_generation_attestation_digest'')
          (field leakage_report ''leaf_generation_attestation_digest'') (Inr (JStr d)),
        must_equal_at ''LEAF_SCOPE_BLIND_MISMATCH'' (U ''/leaf_generation_attestation/leakage_scope_ref'')
          (field attestation ''leakage_scope_ref'') (field leakage_report ''leakage_scope_ref'')])"

definition check_attested_corpus :: "cert_env \<Rightarrow> (ustr \<times> ustr list) list \<Rightarrow> json \<Rightarrow> cert_error + unit" where
  "check_attested_corpus env corpora_leaves corpus =
     (let loc = U ''/leaf_generation_attestation/corpora'' in
      rbind (rbind (field corpus ''corpus_ref'') (leaves_by corpora_leaves)) (\<lambda>found.
        case found of None \<Rightarrow> Inr ()
        | Some leaves \<Rightarrow>
            rbind (must_equal_at ''LEAF_COMPLETENESS_MISMATCH'' loc (field corpus ''leaf_count'') (Inr (JInt (int (length leaves))))) (\<lambda>_.
              must_equal_at ''LEAF_COMPLETENESS_MISMATCH'' loc (field corpus ''leaf_root'')
                (rbind (leaf_list_digest env leaves) (\<lambda>d. Inr (JStr d))))))"

definition check_leaf_generation_attestation ::
  "cert_env \<Rightarrow> json \<Rightarrow> json \<Rightarrow> json \<Rightarrow> (ustr \<times> ustr list) list \<Rightarrow> cert_error + bool" where
  "check_leaf_generation_attestation env manifest leakage_report attestation corpora_leaves =
     (if attestation = JNull then rbind (check_attestation_absent manifest leakage_report) (\<lambda>_. Inr False)
      else
        rbind (check_attestation_digest_bindings env manifest leakage_report attestation) (\<lambda>_.
        rbind (field attestation ''scope_blind_commitment'') (\<lambda>commitment.
        rbind (list_field attestation ''corpora'') (\<lambda>corpora.
        rbind (check_all (\<lambda>corpus. must_equal_at ''LEAF_SCOPE_BLIND_MISMATCH'' (U ''/leaf_generation_attestation/corpora'')
                 (field corpus ''scope_blind_commitment'') (Inr commitment)) corpora) (\<lambda>_.
        rbind (check_all (check_attested_corpus env corpora_leaves) corpora) (\<lambda>_. Inr True))))))"

section \<open>Evidence for DS2 and DS3\<close>

definition derive_ds2 :: "cert_env \<Rightarrow> json \<Rightarrow> json \<Rightarrow> json \<Rightarrow> cert_error + string \<times> string" where
  "derive_ds2 env identity composition leaf_lists =
     (if \<not> json_truthy leaf_lists then Inr (''declared_counts_only'', ''client_declared'')
      else
        rbind (rbind (field identity ''dataset_ref'') (get_by leaf_lists)) (\<lambda>entries.
        if entries \<noteq> JNull \<and> MAX_LEAF_LIST < length (elements entries) then Inr (''declared_counts_only'', ''client_declared'')
        else
          rbind (check_cell_roots env identity composition leaf_lists) (\<lambda>recomputed.
            Inr (if recomputed then (''cell_roots_recomputed'', ''issuer_verified'')
                 else (''declared_counts_only'', ''client_declared'')))))"

definition oversized :: "json \<Rightarrow> json \<Rightarrow> cert_error + bool" where
  "oversized leaf_lists ref =
     rbind (get_by leaf_lists ref) (\<lambda>entries. Inr (MAX_LEAF_LIST < length (elements entries)))"

definition derive_ds3 ::
  "dataset_context \<Rightarrow> json \<Rightarrow> json \<Rightarrow> json \<Rightarrow> (ustr \<times> ustr list) list \<Rightarrow> bool \<Rightarrow> cert_error + string \<times> string" where
  "derive_ds3 ctx leakage_report attestation leaf_lists corpora_leaves attestation_consistent =
     rbind (ds3_relevant_corpus_refs leakage_report) (\<lambda>ds3_relevant.
     rbind (if attestation = JNull then Inr []
            else rbind (list_field attestation ''corpora'') (traverse (\<lambda>corpus. rbind (field corpus ''corpus_ref'') set_key))) (\<lambda>attested_refs.
     let covered = ds3_relevant \<noteq> [] \<and>
           list_all (\<lambda>r. list_ex (\<lambda>kv. r = JStr (fst kv)) corpora_leaves \<and> list_ex (\<lambda>a. py_eq a r) attested_refs) ds3_relevant in
     rbind (if attestation_consistent \<and> covered then ds3_disjointness_established leakage_report corpora_leaves else Inr False) (\<lambda>verified.
     rbind (if \<not> json_truthy leaf_lists then Inr True else any_of (oversized leaf_lists) ds3_relevant) (\<lambda>abstains.
     rbind (fail_at (abstains \<and> require_leaf_lists ctx) ''CLAIM_SUPPORT_ROW_MISMATCH'' (U ''/claim_support_rows/2'')) (\<lambda>_.
       Inr (if verified then ''generation_attested'' else ''token_lists_only'',
            if abstains then ''abstained'' else if verified then ''issuer_verified'' else ''client_declared''))))))"

end
