(* ===== verification/DatasetVerify.thy ===== *)
theory DatasetVerify
  imports DatasetRecord
begin

text \<open>
  The second half of \<open>certification/dataset_record_verifier.py\<close>: limitations, the pre-registered plan, the
  efficiency report, the support rows, the issuer's signature, and \<open>verify_dataset_record_certificate\<close>.
\<close>

section \<open>Near duplicates and limitations\<close>

definition check_ds4_method :: "json \<Rightarrow> json \<Rightarrow> cert_error + unit" where
  "check_ds4_method leakage_report prereg =
     rbind (list_field leakage_report ''findings'') (check_indexed (\<lambda>index finding.
       rbind (field finding ''finding_kind'') (\<lambda>kind.
         if \<not> py_eq kind (jstr ''near_duplicate_overlap'') then Inr ()
         else
           let loc = at_index ''/leakage_report/findings/'' index ''/method'' in
           rbind (must_equal_at ''PREREGISTRATION_SCOPE_VIOLATION'' loc
                    (field finding ''method'') (field prereg ''near_duplicate_method'')) (\<lambda>_.
           rbind (must_equal_at ''PREREGISTRATION_SCOPE_VIOLATION'' (at_index ''/leakage_report/findings/'' index ''/threshold_milli'')
                    (field finding ''threshold_milli'') (field prereg ''near_duplicate_threshold_milli'')) (\<lambda>_.
           rbind (rbind (field finding ''method'') (registered METHOD_REGISTRY_DOCUMENT ''near_duplicate_methods'')) (\<lambda>known.
             fail_at (\<not> known) ''PREREGISTRATION_SCOPE_VIOLATION'' loc))))) 0)"

definition check_limitations_digest :: "cert_env \<Rightarrow> json \<Rightarrow> json \<Rightarrow> cert_error + unit" where
  "check_limitations_digest env manifest limitations =
     check_artifact_digest env DS_LIMITATIONS_DOMAIN ''limitations_digest'' ''LIMITATIONS_DIGEST_MISMATCH''
       ''/limitations/limitations_digest'' manifest limitations"

definition check_derivable_limitations :: "json \<Rightarrow> json \<Rightarrow> cert_error + unit" where
  "check_derivable_limitations composition limitations =
     (let loc = U ''/limitations/limitations'' in
      rbind (rbind (list_field limitations ''limitations'')
               (traverse (\<lambda>item. rbind (field item ''limitation_code'') set_key))) (\<lambda>codes.
      rbind (rbind (list_field composition ''cells'') (traverse (\<lambda>cell. num_field cell ''item_count''))) (\<lambda>counts.
      rbind (fail_at (list_ex (\<lambda>n. 0 < n \<and> n < MIN_STRATUM_SIZE) counts \<and> jstr ''small_stratum'' \<notin> set codes)
               ''LIMITATION_OMITTED'' loc) (\<lambda>_.
        fail_at (counts \<noteq> [] \<and> IMBALANCE_RATIO_LIMIT * Min (set counts) < Max (set counts) \<and> jstr ''unbalanced_strata'' \<notin> set codes)
          ''LIMITATION_OMITTED'' loc))))"

definition check_limitation_basis_coupling :: "json \<Rightarrow> cert_error + unit" where
  "check_limitation_basis_coupling limitations =
     rbind (list_field limitations ''limitations'') (check_indexed (\<lambda>index item.
       rbind (rbind (field item ''limitation_code'') (in_names DERIVABLE_LIMITATION_CODES)) (\<lambda>derivable.
         must_equal_at ''LIMITATION_BASIS_COUPLING'' (at_index ''/limitations/limitations/'' index ''/observation_basis'')
           (field item ''observation_basis'') (Inr (jstr (if derivable then ''backend_observed'' else ''client_attested''))))) 0)"

section \<open>The pre-registered plan\<close>

definition check_prereg_digest :: "cert_env \<Rightarrow> json \<Rightarrow> json \<Rightarrow> cert_error + json" where
  "check_prereg_digest env manifest envelope =
     rbind (field envelope ''preregistration'') (\<lambda>prereg.
     rbind (check_artifact_digest env DS_PREREG_DOMAIN ''prereg_digest'' ''PREREGISTRATION_DIGEST_MISMATCH''
              ''/preregistration_envelope/preregistration/prereg_digest'' manifest prereg) (\<lambda>_. Inr prereg))"

definition ds_canonical_material :: "byte list \<Rightarrow> json \<Rightarrow> cert_error + byte list" where
  "ds_canonical_material domain t =
     (case canonical_text t of None \<Rightarrow> Inl (Located ''CANONICALIZATION'' []) | Some text \<Rightarrow> Inr (domain @ 0 # utf8 text))"

definition check_prereg_signature :: "cert_env \<Rightarrow> json \<Rightarrow> json \<Rightarrow> json \<Rightarrow> cert_error + unit" where
  "check_prereg_signature env manifest envelope materials_issuer =
     (let code = ''PREREGISTRATION_SIGNATURE_INVALID''; loc = U ''/preregistration_envelope/signature'' in
      rbind (field envelope ''signature'') (\<lambda>signature.
      rbind (field envelope ''preregistration'') (\<lambda>prereg.
      rbind (if is_dict prereg then Inr (without_member ''prereg_digest'' prereg) else Inl OtherErr) (\<lambda>projection.
      rbind (field signature ''prereg_digest'') (\<lambda>d.
      rbind (must_equal_at code (U ''/preregistration_envelope/signature/prereg_digest'') (Inr d) (field prereg ''prereg_digest'')) (\<lambda>_.
      rbind (must_equal_at code (U ''/unsigned_manifest/prereg_digest'') (Inr d) (field manifest ''prereg_digest'')) (\<lambda>_.
      rbind (ds_role_digest env DS_PREREG_SIGNATURE_DOMAIN signature) (\<lambda>block_digest.
      rbind (must_equal_at code (U ''/unsigned_manifest/prereg_signature_digest'')
               (field manifest ''prereg_signature_digest'') (Inr (JStr block_digest))) (\<lambda>_.
      rbind (must_equal_at code loc (field signature ''issuer_key_ref'') (field materials_issuer ''key_ref'')) (\<lambda>_.
      rbind (must_equal_at code loc (field signature ''trust_ring_ref'') (field materials_issuer ''trust_ring_ref'')) (\<lambda>_.
      rbind (ds_canonical_material DS_PREREG_SIGNATURE_DOMAIN projection) (\<lambda>material.
      rbind (material_public_key env materials_issuer ISSUER_SPKI_DOMAIN) (\<lambda>public_key.
      rbind (field signature ''algorithm'') (\<lambda>algorithm.
      rbind (field signature ''signature'') (\<lambda>sig.
        recast_at is_failed code (U ''/preregistration_envelope/signature/signature'')
          (verify_signature env public_key algorithm material sig))))))))))))))))"

text \<open>\<open>tuple(xs) != names\<close>.\<close>

definition is_tuple_of :: "string list \<Rightarrow> json list \<Rightarrow> bool" where
  "is_tuple_of names ts \<longleftrightarrow> ts = map jstr names"

definition check_prereg_coverage :: "json \<Rightarrow> cert_error + unit" where
  "check_prereg_coverage prereg =
     rbind (list_field prereg ''coverage'') (\<lambda>ts.
       fail_at (\<not> is_tuple_of PREREG_COVERAGE ts) ''PREREGISTRATION_SCOPE_VIOLATION''
         (U ''/preregistration_envelope/preregistration/coverage''))"

definition check_applied_policy :: "json \<Rightarrow> json \<Rightarrow> cert_error + unit" where
  "check_applied_policy prereg efficiency_report =
     rbind (field efficiency_report ''applied_policy'') (\<lambda>applied.
       check_all (\<lambda>key. must_equal_at ''PREREGISTRATION_SCOPE_VIOLATION'' (U (''/efficiency_report/applied_policy/'' @ key))
         (field applied key) (field prereg key)) APPLIED_POLICY_FIELDS)"

definition check_interval_plan_scope :: "string \<Rightarrow> json \<Rightarrow> json \<Rightarrow> cert_error + unit" where
  "check_interval_plan_scope estimate_name estimate prereg =
     (let code = ''PREREGISTRATION_SCOPE_VIOLATION''; loc = (\<lambda>key. U (''/efficiency_report/'' @ estimate_name @ ''/'' @ key)) in
      rbind (field estimate ''interval_method'') (\<lambda>interval_method.
      rbind (must_equal_at code (loc ''interval_method'') (Inr interval_method) (field prereg ''interval_method'')) (\<lambda>_.
      rbind (must_equal_at code (loc ''interval_level_ppm'') (get_item estimate ''interval_level_ppm'') (field prereg ''interval_level_ppm'')) (\<lambda>_.
        if \<not> py_eq interval_method (jstr ''bootstrap_percentile_v1'') then Inr ()
        else
          check_all (\<lambda>(key, plan_key). must_equal_at code (loc key) (get_item estimate key) (field prereg plan_key))
            [(''resample_count'', ''bootstrap_resamples''), (''bootstrap_unit'', ''bootstrap_unit''), (''random_seed'', ''random_seed'')]))))"

definition check_near_duplicate_containment :: "json \<Rightarrow> json \<Rightarrow> cert_error + unit" where
  "check_near_duplicate_containment prereg leakage_report =
     (let code = ''PREREGISTRATION_SCOPE_VIOLATION''; loc = U ''/leakage_report/findings'' in
      rbind (list_field leakage_report ''findings'') (check_all (\<lambda>finding.
        rbind (field finding ''finding_kind'') (\<lambda>kind.
          if \<not> py_eq kind (jstr ''near_duplicate_overlap'') then Inr ()
          else
            rbind (must_equal_at code loc (field finding ''method'') (field prereg ''near_duplicate_method'')) (\<lambda>_.
              must_equal_at code loc (field finding ''threshold_milli'') (field prereg ''near_duplicate_threshold_milli''))))))"

definition ESTIMATES :: "string list" where
  "ESTIMATES = [''mean_item_information'', ''decisive_subset_upper_bound'']"

definition check_estimate_containment :: "json \<Rightarrow> json \<Rightarrow> string \<Rightarrow> cert_error + unit" where
  "check_estimate_containment prereg efficiency_report estimate_name =
     rbind (field efficiency_report estimate_name) (\<lambda>estimate.
     rbind (field estimate ''interval_method'') (\<lambda>interval_method.
     rbind (if py_eq interval_method (jstr ''none'') then Inr () else check_interval_plan_scope estimate_name estimate prereg) (\<lambda>_.
     rbind (num_field estimate ''sample_size_n'') (\<lambda>n.
     rbind (num_field prereg ''minimum_sample_size_n'') (\<lambda>least.
       fail_at (n < least) ''SAMPLE_SIZE_INSUFFICIENT'' (U (''/efficiency_report/'' @ estimate_name @ ''/sample_size_n'')))))))"

definition check_containment :: "json \<Rightarrow> json \<Rightarrow> json \<Rightarrow> cert_error + unit" where
  "check_containment prereg efficiency_report leakage_report =
     rbind (must_equal_at ''PREREGISTRATION_DIGEST_MISMATCH'' (U ''/efficiency_report/prereg_digest'')
              (field efficiency_report ''prereg_digest'') (field prereg ''prereg_digest'')) (\<lambda>_.
     rbind (traverse (\<lambda>key. rbind (field efficiency_report key) (\<lambda>v. Inr (key, v))) [''candidate_set_commitment'', ''candidate_count'']) (\<lambda>pairs.
     rbind (check_all (\<lambda>(key, v). must_equal_at ''PREREGISTRATION_SCOPE_VIOLATION'' (U (''/efficiency_report/'' @ key))
              (field prereg key) (Inr v)) pairs) (\<lambda>_.
     rbind (check_all (check_estimate_containment prereg efficiency_report) ESTIMATES) (\<lambda>_.
       check_near_duplicate_containment prereg leakage_report))))"

text \<open>The module's own copy of the timestamp parser, with its own code.\<close>

definition ds_utc_microseconds :: "json \<Rightarrow> cert_error + int" where
  "ds_utc_microseconds t =
     (case t of
        JStr s \<Rightarrow> (case utc_microseconds s of Inl e \<Rightarrow> Inl (Located ''PREREGISTRATION_ORDER'' []) | Inr n \<Rightarrow> Inr n)
      | _ \<Rightarrow> Inl PyTypeErr)"

definition observed_values :: "json \<Rightarrow> cert_error + int list" where
  "observed_values process_record_bundle =
     rbind (field process_record_bundle ''receipts'') (\<lambda>receipts.
     rbind (traverse (list_field receipts) STREAM_IDS) (\<lambda>streams.
       fold_steps (\<lambda>found receipt.
         rbind (rbind (field receipt ''step_id'') (in_names ORDERING_STEP_IDS)) (\<lambda>b.
           if b then rbind (rbind (field receipt ''observed_at'') ds_utc_microseconds) (\<lambda>n. Inr (found @ [n])) else Inr found))
         [] (concat streams)))"

definition check_ordering :: "json \<Rightarrow> json \<Rightarrow> json \<Rightarrow> cert_error + unit" where
  "check_ordering manifest prereg process_record_bundle =
     rbind (field prereg ''registered_at'') (\<lambda>registered_at.
     rbind (must_equal_at ''PREREGISTRATION_ORDER'' (U ''/unsigned_manifest/prereg_registered_at'')
              (Inr registered_at) (field manifest ''prereg_registered_at'')) (\<lambda>_.
     rbind (ds_utc_microseconds registered_at) (\<lambda>registered_us.
     rbind (observed_values process_record_bundle) (\<lambda>observed.
       fail_at (observed \<noteq> [] \<and> Min (set observed) \<le> registered_us) ''PREREGISTRATION_ORDER''
         (U ''/preregistration_envelope/preregistration/registered_at'')))))"

definition check_evidence_grade :: "json \<Rightarrow> json \<Rightarrow> dataset_context \<Rightarrow> cert_error + string" where
  "check_evidence_grade manifest prereg ctx =
     (let loc = U ''/preregistration_envelope/preregistration/evidence_grade'' in
      rbind (field prereg ''evidence_grade'') (\<lambda>declared.
      rbind (must_equal_at ''PREREGISTRATION_GRADE_MISMATCH'' (U ''/unsigned_manifest/prereg_evidence_grade'')
               (field manifest ''prereg_evidence_grade'') (Inr declared)) (\<lambda>_.
      rbind (fail_at (py_eq declared (jstr ''log_inclusion_proof'')) ''PREREGISTRATION_GRADE_UNSUPPORTED'' loc) (\<lambda>_.
        if py_eq declared (jstr ''caller_pinned_before_results'') then
          (case ds_prereg_pin ctx of
             None \<Rightarrow> Inl (Located ''PREREGISTRATION_GRADE_MISMATCH'' loc)
           | Some pin \<Rightarrow>
               rbind (must_equal_at ''PREREGISTRATION_GRADE_MISMATCH'' loc (Inr (JStr pin)) (field prereg ''prereg_digest'')) (\<lambda>_.
                 Inr ''caller_pinned_before_results''))
        else
          rbind (fail_at (\<not> py_eq declared (jstr ''digest_bound_attestation'')) ''PREREGISTRATION_GRADE_MISMATCH'' loc) (\<lambda>_.
          rbind (case ds_prereg_pin ctx of
                   None \<Rightarrow> Inr ()
                 | Some pin \<Rightarrow>
                     must_equal_at ''PREREGISTRATION_DIGEST_MISMATCH'' (U ''/preregistration_envelope/preregistration/prereg_digest'')
                       (Inr (JStr pin)) (field prereg ''prereg_digest'')) (\<lambda>_.
            Inr ''digest_bound_attestation''))))))"

section \<open>The efficiency report\<close>

definition check_efficiency_digest :: "cert_env \<Rightarrow> json \<Rightarrow> json \<Rightarrow> cert_error + unit" where
  "check_efficiency_digest env manifest efficiency_report =
     check_artifact_digest env DS_EFFICIENCY_REPORT_DOMAIN ''efficiency_report_digest'' ''EFFICIENCY_REPORT_DIGEST_MISMATCH''
       ''/efficiency_report/efficiency_report_digest'' manifest efficiency_report"

definition check_estimate_shape :: "json \<Rightarrow> string \<Rightarrow> cert_error + unit" where
  "check_estimate_shape estimate location =
     (let loc = U location in
      rbind (traverse (num_field estimate) [''lo'', ''point'', ''hi'']) (\<lambda>v.
      let lo = v ! 0; point = v ! 1; hi = v ! 2 in
      rbind (fail_at (\<not> (lo \<le> point \<and> point \<le> hi)) ''INTERVAL_ORDER'' loc) (\<lambda>_.
      rbind (rbind (field estimate ''estimator_kind'') (\<lambda>kind. Inr (kind \<in> {jstr ''exact'', jstr ''upper_bound''}))) (\<lambda>closed.
      rbind (field estimate ''interval_method'') (\<lambda>interval_method.
      rbind (if closed then
               fail_at (interval_method \<noteq> jstr ''none'' \<or> \<not> (lo = point \<and> point = hi)) ''INTERVAL_METHOD_COUPLING'' loc
             else
               rbind (fail_at (interval_method = jstr ''none'') ''INTERVAL_METHOD_COUPLING'' loc) (\<lambda>_.
                 if interval_method \<noteq> jstr ''wilson_score_v1'' then Inr ()
                 else rbind (field estimate ''quantity_kind'') (\<lambda>quantity.
                        fail_at (quantity \<noteq> jstr ''proportion'') ''INTERVAL_METHOD_QUANTITY_MISMATCH'' loc))) (\<lambda>_.
      rbind (num_field estimate ''effective_sample_size_n'') (\<lambda>effective.
      rbind (num_field estimate ''sample_size_n'') (\<lambda>n.
        fail_at (n < effective) ''SAMPLE_SIZE_INSUFFICIENT'' (loc @ U ''/effective_sample_size_n'')))))))))"

definition EXPECTED_UNITS :: "(string \<times> string) list" where
  "EXPECTED_UNITS =
     [(''irt_2pl_mml_v1'', ''fisher_micro''), (''point_biserial_v1'', ''point_biserial_milli''), (''score_variance_v1'', ''variance_micro'')]"

definition expected_unit :: "json \<Rightarrow> cert_error + json" where
  "expected_unit interval_method =
     (if is_container interval_method then Inl PyTypeErr
      else case find (\<lambda>kv. interval_method = jstr (fst kv)) EXPECTED_UNITS of None \<Rightarrow> Inl PyKeyErr | Some kv \<Rightarrow> Inr (jstr (snd kv)))"

definition check_information_range :: "json \<Rightarrow> json \<Rightarrow> json \<Rightarrow> cert_error + unit" where
  "check_information_range efficiency_report prereg identity =
     (let code = ''INFORMATION_UNIT_RANGE'' in
      rbind (num_field efficiency_report ''uninformative_item_count'') (\<lambda>uninformative.
      rbind (num_field identity ''item_count'') (\<lambda>item_count.
      rbind (fail_at (item_count < uninformative) code (U ''/efficiency_report/uninformative_item_count'')) (\<lambda>_.
      rbind (field efficiency_report ''information_method'') (\<lambda>information_method.
      rbind (field efficiency_report ''information_unit'') (\<lambda>unit.
      rbind (must_equal_at code (U ''/efficiency_report/information_unit'') (Inr unit) (expected_unit information_method)) (\<lambda>_.
      rbind (must_equal_at code (U ''/efficiency_report/information_method'') (Inr unit) (field prereg ''information_unit'')) (\<lambda>_.
      rbind (must_equal_at code (U ''/efficiency_report/information_method'') (Inr information_method) (field prereg ''information_method'')) (\<lambda>_.
      rbind (rbind (field efficiency_report ''mean_item_information'') (\<lambda>estimate. num_field estimate ''point'')) (\<lambda>point.
        fail_at (if py_eq unit (jstr ''point_biserial_milli'') then \<not> (-1000 \<le> point \<and> point \<le> 1000) else point < 0)
          code (U ''/efficiency_report/mean_item_information/point'')))))))))))"

definition check_inert_fraction :: "json \<Rightarrow> json \<Rightarrow> cert_error + unit" where
  "check_inert_fraction identity efficiency_report =
     rbind (num_field efficiency_report ''inert_item_count'') (\<lambda>inert.
     rbind (num_field identity ''item_count'') (\<lambda>item_count.
     rbind (fail_at (item_count < inert) ''INERT_FRACTION_MISMATCH'' (U ''/efficiency_report/inert_item_count'')) (\<lambda>_.
       must_equal_at ''INERT_FRACTION_MISMATCH'' (U ''/efficiency_report/inert_fraction_ppm'')
         (field efficiency_report ''inert_fraction_ppm'')
         (Inr (JInt (if item_count = 0 then 0 else inert * 1000000 div item_count))))))"

definition check_decisive_subset :: "json \<Rightarrow> json \<Rightarrow> cert_error + unit" where
  "check_decisive_subset identity efficiency_report =
     (let code = ''DECISIVE_SUBSET_BOUND'' in
      rbind (field efficiency_report ''decisive_subset_upper_bound'') (\<lambda>bound.
      rbind (must_equal_at code (U ''/efficiency_report/decisive_subset_upper_bound'') (field bound ''estimator_kind'') (Inr (jstr ''upper_bound''))) (\<lambda>_.
      rbind (must_equal_at code (U ''/efficiency_report/decisive_subset_upper_bound'') (field bound ''quantity_kind'') (Inr (jstr ''count''))) (\<lambda>_.
      rbind (num_field bound ''point'') (\<lambda>point.
      rbind (num_field identity ''item_count'') (\<lambda>item_count.
      rbind (fail_at (\<not> (1 \<le> point \<and> point \<le> item_count)) code (U ''/efficiency_report/decisive_subset_upper_bound/point'')) (\<lambda>_.
        must_equal_at code (U ''/efficiency_report/decisive_subset_estimator_kind'')
          (field efficiency_report ''decisive_subset_estimator_kind'') (Inr (jstr ''upper_bound'')))))))))"

text \<open>One ratio, for cost and for latency.\<close>

definition check_ratio :: "string \<Rightarrow> string \<Rightarrow> string \<Rightarrow> string \<Rightarrow> json \<Rightarrow> cert_error + unit" where
  "check_ratio code whole_key part_key ratio_key efficiency_report =
     (let loc = (\<lambda>key. U (''/efficiency_report/'' @ key)) in
      rbind (num_field efficiency_report whole_key) (\<lambda>whole.
      rbind (num_field efficiency_report part_key) (\<lambda>part.
        if 0 < whole then
          rbind (fail_at (whole < part) code (loc part_key)) (\<lambda>_.
            must_equal_at code (loc ratio_key) (field efficiency_report ratio_key) (Inr (JInt (part * 1000000 div whole))))
        else must_equal_at code (loc ratio_key) (field efficiency_report ratio_key) (Inr (JInt 0)))))"

definition check_cost_and_latency :: "json \<Rightarrow> cert_error + unit" where
  "check_cost_and_latency efficiency_report =
     in_turn
       [check_ratio ''COST_EFFICIENCY_MISMATCH'' ''full_pass_cost_microusd'' ''decisive_subset_cost_microusd'' ''cost_efficiency_ppm''
          efficiency_report,
        check_ratio ''LATENCY_EFFICIENCY_MISMATCH'' ''full_pass_latency_us'' ''decisive_subset_latency_us'' ''latency_efficiency_ppm''
          efficiency_report]"

section \<open>Non-claims and support rows\<close>

definition ds_check_non_claims :: "json \<Rightarrow> cert_error + unit" where
  "ds_check_non_claims manifest =
     rbind (list_field manifest ''non_claims'') (\<lambda>rows.
     rbind (fail_at (length rows \<noteq> length NON_CLAIMS_CANONICAL) ''NON_CLAIMS_MISMATCH'' (U ''/unsigned_manifest/non_claims'')) (\<lambda>_.
       check_indexed (\<lambda>index (row, expected_id, expected_template).
         rbind (must_equal_at ''NON_CLAIMS_MISMATCH'' (at_index ''/unsigned_manifest/non_claims/'' index [])
                  (field row ''non_claim_id'') (Inr (jstr expected_id))) (\<lambda>_.
           must_equal_at ''NON_CLAIMS_MISMATCH'' (at_index ''/unsigned_manifest/non_claims/'' index [])
             (field row ''reason_template_id'') (Inr (jstr expected_template)))) 0 (zip rows NON_CLAIMS_CANONICAL)))"

text \<open>\<open>JNull\<close> is the \<open>None\<close> of a null identity root.\<close>

definition expected_evidence_digest :: "json \<Rightarrow> json \<Rightarrow> string \<Rightarrow> cert_error + json" where
  "expected_evidence_digest manifest identity claim_id =
     (let source = profile_evidence_source (claim_row_profile claim_id) in
      if source = ''identity.dataset_identity_root'' then field identity ''dataset_identity_root'' else field manifest source)"

definition check_evidence_ref :: "claim_profile \<Rightarrow> json \<Rightarrow> json \<Rightarrow> cert_error + bool" where
  "check_evidence_ref profile expected_digest ref =
     (if expected_digest = JNull then Inr False
      else
        rbind (field ref ''evidence_kind'') (\<lambda>kind.
        if \<not> py_eq kind (jstr (profile_evidence_kind profile)) then Inr False
        else
          rbind (field ref ''evidence_digest'') (\<lambda>d.
          if \<not> py_eq d expected_digest then Inr False
          else rbind (iterate ref) (\<lambda>keys. Inr (list_all (\<lambda>k. k \<in> {jstr ''evidence_kind'', jstr ''evidence_digest''}) keys)))))"

definition ds_check_support_row :: "json \<Rightarrow> json \<Rightarrow> nat \<Rightarrow> string \<Rightarrow> json \<Rightarrow> string \<Rightarrow> cert_error + unit" where
  "ds_check_support_row manifest identity index claim_id row expected_basis =
     (let loc = at_index ''/claim_support_rows/'' index [] in
      rbind (field row ''evidence_basis'') (\<lambda>basis.
      rbind (fail_at (\<not> py_eq basis (jstr expected_basis) \<and> py_eq basis (jstr ''issuer_verified'')) ''CLAIM_NOT_VERIFIED'' loc) (\<lambda>_.
      rbind (fail_at (\<not> py_eq basis (jstr expected_basis)) ''CLAIM_SUPPORT_ROW_MISMATCH'' loc) (\<lambda>_.
        if py_eq basis (jstr ''abstained'') then
          must_equal_at ''CLAIM_SUPPORT_ROW_MISMATCH'' loc (field row ''abstention_code'') (Inr (jstr DS_ABSTENTION_CODE))
        else
          let profile = claim_row_profile claim_id in
          rbind (expected_evidence_digest manifest identity claim_id) (\<lambda>expected_digest.
          rbind (list_field row ''evidence_refs'') (\<lambda>refs.
          rbind (fail_at (length refs \<noteq> 1) ''CLAIM_SUPPORT_ROW_MISMATCH'' loc) (\<lambda>_.
          rbind (check_evidence_ref profile expected_digest (hd refs)) (\<lambda>good_ref.
          rbind (fail_at (\<not> good_ref) ''CLAIM_SUPPORT_ROW_MISMATCH'' loc) (\<lambda>_.
            if py_eq basis (jstr ''issuer_verified'') then
              rbind (must_equal_at ''CLAIM_SUPPORT_ROW_MISMATCH'' loc (field row ''verifier_id'') (Inr (jstr (profile_verifier_id profile)))) (\<lambda>_.
                must_equal_at ''CLAIM_SUPPORT_ROW_MISMATCH'' loc (field row ''verifier_version'') (Inr (jstr VERIFIER_VERSION)))
            else
              must_equal_at ''CLAIM_SUPPORT_ROW_MISMATCH'' loc (field row ''attestation_basis'') (Inr (jstr DS_ATTESTATION_BASIS)))))))))))"

text \<open>\<open>by_id\<close>: the last row of a claim.\<close>

definition row_of :: "json list \<Rightarrow> string \<Rightarrow> cert_error + json option" where
  "row_of rows claim_id =
     fold_steps (\<lambda>found row. rbind (rbind (field row ''claim_id'') set_key) (\<lambda>c.
       Inr (if c = jstr claim_id then Some row else found))) None rows"

record tallies =
  claims_verified :: "string list"
  claims_declared :: "string list"
  claims_abstained :: "string list"

definition ds_check_support_rows ::
  "cert_env \<Rightarrow> json \<Rightarrow> json \<Rightarrow> json \<Rightarrow> (string \<times> string) list \<Rightarrow> cert_error + ustr \<times> tallies" where
  "ds_check_support_rows env manifest identity claim_support_rows claim_bases =
     rbind (ds_role_digest env DS_CLAIM_SUPPORT_ROWS_DOMAIN claim_support_rows) (\<lambda>d.
     rbind (must_equal_at ''CLAIM_SUPPORT_ROW_MISMATCH'' (U ''/unsigned_manifest/claim_support_rows_digest'')
              (Inr (JStr d)) (field manifest ''claim_support_rows_digest'')) (\<lambda>_.
     rbind (iterate claim_support_rows) (\<lambda>rows.
     rbind (traverse (\<lambda>row. rbind (field row ''claim_id'') set_key) rows) (\<lambda>ids.
     rbind (fail_at (set ids \<noteq> jstr ` set CLAIM_IDS) ''CLAIM_SUPPORT_ROW_MISMATCH'' (U ''/claim_support_rows'')) (\<lambda>_.
     rbind (check_indexed (\<lambda>index (claim_id, basis).
              rbind (row_of rows claim_id) (\<lambda>found.
              rbind (case found of None \<Rightarrow> Inl PyKeyErr | Some row \<Rightarrow> Inr row) (\<lambda>row.
                ds_check_support_row manifest identity index claim_id row basis))) 0 claim_bases) (\<lambda>_.
     let having = (\<lambda>basis. map fst (filter (\<lambda>cb. snd cb = basis) claim_bases)) in
       Inr (d, \<lparr>claims_verified = having ''issuer_verified'', claims_declared = having ''client_declared'',
                claims_abstained = having ''abstained''\<rparr>)))))))"

section \<open>The issuer's signature\<close>

definition check_manifest_digest_and_signature :: "cert_env \<Rightarrow> json \<Rightarrow> json \<Rightarrow> json \<Rightarrow> cert_error + unit" where
  "check_manifest_digest_and_signature env manifest signature materials_issuer =
     rbind (ds_role_digest env DS_UNSIGNED_MANIFEST_DOMAIN manifest) (\<lambda>d.
     rbind (in_turn
       [must_equal_at ''UNSIGNED_MANIFEST_DIGEST_MISMATCH'' (U ''/signature/unsigned_manifest_digest'')
          (field signature ''unsigned_manifest_digest'') (Inr (JStr d)),
        must_equal_at ''ISSUER_SIGNATURE_INVALID'' (U ''/signature/algorithm'')
          (field signature ''algorithm'') (field manifest ''issuer_signature_algorithm''),
        must_equal_at ''KEY_RING_MISMATCH'' (U ''/signature'') (field signature ''issuer_key_ref'') (field manifest ''issuer_key_ref''),
        must_equal_at ''KEY_RING_MISMATCH'' (U ''/signature'') (field signature ''trust_ring_ref'') (field manifest ''trust_ring_ref''),
        must_equal_at ''KEY_RING_MISMATCH'' (U ''/signature'') (field signature ''issuer_key_ref'') (field materials_issuer ''key_ref''),
        must_equal_at ''KEY_RING_MISMATCH'' (U ''/signature'')
          (field signature ''trust_ring_ref'') (field materials_issuer ''trust_ring_ref'')]) (\<lambda>_.
     rbind (ds_canonical_material DS_ISSUER_SIGNATURE_DOMAIN manifest) (\<lambda>material.
     rbind (material_public_key env materials_issuer ISSUER_SPKI_DOMAIN) (\<lambda>public_key.
     rbind (field signature ''algorithm'') (\<lambda>algorithm.
     rbind (field signature ''signature'') (\<lambda>sig.
       recast_at is_failed ''ISSUER_SIGNATURE_INVALID'' (U ''/signature/signature'')
         (verify_signature env public_key algorithm material sig)))))))"

section \<open>Result\<close>

record dataset_result =
  dr_code :: string
  dr_commitment_ref :: json
  dr_identity_root :: json
  dr_blind_epoch :: json
  dr_item_set_root :: json
  dr_item_count :: json
  dr_populated_cell_count :: json
  composition_evidence :: string
  disjointness_evidence :: string
  findings_checked :: nat
  findings_attested :: nat
  limitation_count :: nat
  max_limitation_severity :: int
  dr_inert_fraction_ppm :: json
  dr_decisive_subset :: json
  dr_cost_efficiency_ppm :: json
  dr_tallies :: tallies
  dr_prereg_digest :: json
  dr_evidence_grade :: string
  dr_efficiency_evidence :: string

text \<open>\<open>DatasetRecordVerificationResult.__post_init__\<close>.\<close>

definition dataset_result_ok :: "dataset_result \<Rightarrow> bool" where
  "dataset_result_ok r \<longleftrightarrow>
     (let t = dr_tallies r;
          full = claims_verified t = CLAIM_IDS \<and> claims_declared t = [] \<and> claims_abstained t = [] in
      dr_code r \<in> {''DATASET_RECORD_VERIFIED'', ''DATASET_RECORD_VERIFIED_CLAIMS_PARTIAL''} \<and>
      composition_evidence r \<in> {''declared_counts_only'', ''cell_roots_recomputed''} \<and>
      disjointness_evidence r \<in> {''token_lists_only'', ''generation_attested''} \<and>
      dr_efficiency_evidence r = ''backend_observed_not_recomputed'' \<and>
      dr_evidence_grade r \<in> set EVIDENCE_GRADES \<and>
      (if dr_code r = ''DATASET_RECORD_VERIFIED'' then full else \<not> full) \<and>
      mset (claims_verified t @ claims_declared t @ claims_abstained t) = mset CLAIM_IDS)"

definition make_dataset_result :: "dataset_result \<Rightarrow> cert_error + dataset_result" where
  "make_dataset_result r = (if dataset_result_ok r then Inr r else Inl PyValueErr)"

section \<open>Verification\<close>

text \<open>
  \<open>_verify\<close>, in four parts: what the record is bound to, composition and leakage, limitations with the plan and the
  efficiency report, and the claims with the signature and the result.
\<close>

definition check_bound_record ::
  "cert_env \<Rightarrow> json \<Rightarrow> dataset_context \<Rightarrow> json \<Rightarrow> json \<Rightarrow> cert_error + process_result \<times> json \<times> string" where
  "check_bound_record env bundle ctx process_record_bundle leaf_lists =
     rbind (ds_validate_schema env bundle) (\<lambda>_.
     rbind (ds_check_strict_integers bundle) (\<lambda>_.
     rbind (rbind (field bundle ''unsigned_manifest'') (\<lambda>manifest. list_field manifest ''coverage'')) (\<lambda>covered.
     rbind (fail_at (\<not> is_tuple_of DS_MANIFEST_COVERAGE covered) ''SCHEMA'' (U ''/unsigned_manifest/coverage'')) (\<lambda>_.
     rbind (verify_process_record env process_record_bundle ctx) (\<lambda>(pr_result, pr_unsigned).
     rbind (path_to process_record_bundle [''verification_materials_v0'', ''issuer'']) (\<lambda>materials_issuer.
     rbind (field bundle ''unsigned_manifest'') (\<lambda>manifest.
     rbind (check_scope_binding env manifest pr_unsigned ctx) (\<lambda>_.
     rbind (check_process_binding manifest pr_result) (\<lambda>_.
     rbind (check_dataset_commitment manifest pr_result ctx) (\<lambda>_.
     rbind (field manifest ''identity'') (\<lambda>identity.
     rbind (check_identity identity ctx) (\<lambda>ds1_basis.
     rbind (check_derived_dataset_ref env identity) (\<lambda>_.
     rbind (check_leaf_list_input env identity leaf_lists) (\<lambda>_.
     rbind (check_derived_refs env manifest leaf_lists (get_member bundle ''leaf_generation_attestation'')) (\<lambda>_.
     rbind (check_taxonomy_and_registry_pins env manifest) (\<lambda>_.
       Inr (pr_result, materials_issuer, ds1_basis)))))))))))))))))"

definition attested_findings :: "json \<Rightarrow> cert_error + nat" where
  "attested_findings leakage_report =
     rbind (list_field leakage_report ''findings'') (fold_steps (\<lambda>n f.
       rbind (rbind (field f ''finding_kind'') (in_names TIER_C_FINDING_KINDS)) (\<lambda>b. Inr (if b then Suc n else n))) 0)"

record evidence =
  ev_composition :: string
  ev_ds2 :: string
  ev_disjointness :: string
  ev_ds3 :: string
  ev_checked :: nat
  ev_attested :: nat

definition check_composition_and_leakage ::
  "cert_env \<Rightarrow> json \<Rightarrow> dataset_context \<Rightarrow> json \<Rightarrow> cert_error + evidence" where
  "check_composition_and_leakage env bundle ctx leaf_lists =
     (let attestation = get_member bundle ''leaf_generation_attestation'' in
      rbind (field bundle ''unsigned_manifest'') (\<lambda>manifest.
      rbind (field manifest ''identity'') (\<lambda>identity.
      rbind (field bundle ''composition'') (\<lambda>composition.
      rbind (check_composition_digest env manifest composition) (\<lambda>_.
      rbind (check_declared_partition identity composition) (\<lambda>_.
      rbind (check_composition_vocabulary composition) (\<lambda>_.
      rbind (derive_ds2 env identity composition leaf_lists) (\<lambda>(composed, ds2_basis).
      rbind (field bundle ''leakage_report'') (\<lambda>leakage_report.
      rbind (check_leakage_scope_pin identity ctx) (\<lambda>_.
      rbind (check_leakage_digest env manifest leakage_report) (\<lambda>_.
      rbind (check_leakage_basis_coupling leakage_report) (\<lambda>_.
      rbind (check_leakage_scope identity leakage_report leaf_lists) (\<lambda>_.
      rbind (check_corpus_ref_descriptors env identity leakage_report attestation) (\<lambda>_.
      rbind (check_report_registry_identities manifest composition leakage_report) (\<lambda>_.
      rbind (if json_truthy leaf_lists then check_leaf_list_digests env identity leakage_report leaf_lists else Inr []) (\<lambda>corpora_leaves.
      rbind (check_leaf_generation_attestation env manifest leakage_report attestation corpora_leaves) (\<lambda>consistent.
      rbind (check_overlap_and_disjointness leakage_report corpora_leaves) (\<lambda>checked.
      rbind (attested_findings leakage_report) (\<lambda>attested.
      rbind (derive_ds3 ctx leakage_report attestation leaf_lists corpora_leaves consistent) (\<lambda>(disjoint, ds3_basis).
        Inr \<lparr>ev_composition = composed, ev_ds2 = ds2_basis, ev_disjointness = disjoint, ev_ds3 = ds3_basis,
             ev_checked = checked, ev_attested = attested\<rparr>))))))))))))))))))))"

definition check_plan :: "cert_env \<Rightarrow> json \<Rightarrow> dataset_context \<Rightarrow> json \<Rightarrow> json \<Rightarrow> cert_error + json \<times> string" where
  "check_plan env bundle ctx process_record_bundle materials_issuer =
     rbind (field bundle ''unsigned_manifest'') (\<lambda>manifest.
     rbind (field bundle ''composition'') (\<lambda>composition.
     rbind (field bundle ''leakage_report'') (\<lambda>leakage_report.
     rbind (field bundle ''limitations'') (\<lambda>limitations.
     rbind (check_limitations_digest env manifest limitations) (\<lambda>_.
     rbind (check_derivable_limitations composition limitations) (\<lambda>_.
     rbind (check_limitation_basis_coupling limitations) (\<lambda>_.
     rbind (field bundle ''preregistration_envelope'') (\<lambda>envelope.
     rbind (check_prereg_digest env manifest envelope) (\<lambda>prereg.
     rbind (check_prereg_signature env manifest envelope materials_issuer) (\<lambda>_.
     rbind (check_prereg_coverage prereg) (\<lambda>_.
     rbind (field bundle ''efficiency_report'') (\<lambda>efficiency_report.
     rbind (check_applied_policy prereg efficiency_report) (\<lambda>_.
     rbind (check_containment prereg efficiency_report leakage_report) (\<lambda>_.
     rbind (check_ordering manifest prereg process_record_bundle) (\<lambda>_.
     rbind (check_evidence_grade manifest prereg ctx) (\<lambda>grade.
       Inr (prereg, grade)))))))))))))))))"

text \<open>A zero denominator abstains DS5.\<close>

definition zero_field :: "json \<Rightarrow> string \<Rightarrow> cert_error + bool" where
  "zero_field t key = rbind (field t key) (\<lambda>v. Inr (py_eq v (JInt 0)))"

definition check_efficiency :: "cert_env \<Rightarrow> json \<Rightarrow> json \<Rightarrow> cert_error + bool \<times> bool" where
  "check_efficiency env bundle prereg =
     rbind (field bundle ''unsigned_manifest'') (\<lambda>manifest.
     rbind (field manifest ''identity'') (\<lambda>identity.
     rbind (field bundle ''leakage_report'') (\<lambda>leakage_report.
     rbind (field bundle ''efficiency_report'') (\<lambda>efficiency_report.
     rbind (check_efficiency_digest env manifest efficiency_report) (\<lambda>_.
     rbind (rbind (field efficiency_report ''mean_item_information'')
              (\<lambda>e. check_estimate_shape e ''/efficiency_report/mean_item_information'')) (\<lambda>_.
     rbind (rbind (field efficiency_report ''decisive_subset_upper_bound'')
              (\<lambda>e. check_estimate_shape e ''/efficiency_report/decisive_subset_upper_bound'')) (\<lambda>_.
     rbind (check_information_range efficiency_report prereg identity) (\<lambda>_.
     rbind (check_inert_fraction identity efficiency_report) (\<lambda>_.
     rbind (check_decisive_subset identity efficiency_report) (\<lambda>_.
     rbind (check_cost_and_latency efficiency_report) (\<lambda>_.
     rbind (check_ds4_method leakage_report prereg) (\<lambda>_.
     rbind (rbind (list_field leakage_report ''findings'')
              (any_of (\<lambda>f. field_is f ''finding_kind'' (jstr ''near_duplicate_overlap'')))) (\<lambda>ds4_available.
     rbind (any_of (zero_field efficiency_report) [''full_pass_cost_microusd'', ''full_pass_latency_us'']) (\<lambda>ds5_abstains.
       Inr (ds4_available, ds5_abstains)))))))))))))))"

definition claim_bases_of :: "string \<Rightarrow> string \<Rightarrow> string \<Rightarrow> bool \<Rightarrow> bool \<Rightarrow> (string \<times> string) list" where
  "claim_bases_of ds1_basis ds2_basis ds3_basis ds4_available ds5_abstains =
     [(''DS1'', ds1_basis), (''DS2'', ds2_basis), (''DS3'', ds3_basis),
      (''DS4'', if ds4_available then ''issuer_verified'' else ''abstained''),
      (''DS5'', if ds5_abstains then ''abstained'' else ''issuer_verified'')]"

definition success_code :: "tallies \<Rightarrow> string" where
  "success_code t =
     (if claims_verified t = CLAIM_IDS then ''DATASET_RECORD_VERIFIED'' else ''DATASET_RECORD_VERIFIED_CLAIMS_PARTIAL'')"

definition dataset_result_of :: "json \<Rightarrow> evidence \<Rightarrow> string \<Rightarrow> tallies \<Rightarrow> cert_error + dataset_result" where
  "dataset_result_of bundle ev grade tally =
     rbind (field bundle ''unsigned_manifest'') (\<lambda>manifest.
     rbind (field manifest ''identity'') (\<lambda>identity.
     rbind (field bundle ''composition'') (\<lambda>composition.
     rbind (field bundle ''limitations'') (\<lambda>limitations.
     rbind (field bundle ''efficiency_report'') (\<lambda>efficiency_report.
     rbind (field manifest ''dataset_commitment_ref'') (\<lambda>commitment.
     rbind (field identity ''dataset_identity_root'') (\<lambda>root.
     rbind (field identity ''identity_blind_epoch'') (\<lambda>epoch.
     rbind (field identity ''item_set_root'') (\<lambda>item_set_root.
     rbind (field identity ''item_count'') (\<lambda>item_count.
     rbind (field composition ''populated_cell_count'') (\<lambda>cell_count.
     rbind (list_field limitations ''limitations'') (\<lambda>items.
     rbind (traverse (\<lambda>item. num_field item ''severity'') items) (\<lambda>severities.
     rbind (field efficiency_report ''inert_fraction_ppm'') (\<lambda>inert.
     rbind (path_to efficiency_report [''decisive_subset_upper_bound'', ''point'']) (\<lambda>decisive.
     rbind (field efficiency_report ''cost_efficiency_ppm'') (\<lambda>cost.
     rbind (field manifest ''prereg_digest'') (\<lambda>plan.
       make_dataset_result
         \<lparr>dr_code = success_code tally, dr_commitment_ref = commitment,
          dr_identity_root = (if json_truthy root then root else JStr []), dr_blind_epoch = epoch,
          dr_item_set_root = item_set_root, dr_item_count = item_count, dr_populated_cell_count = cell_count,
          composition_evidence = ev_composition ev, disjointness_evidence = ev_disjointness ev,
          findings_checked = ev_checked ev, findings_attested = ev_attested ev, limitation_count = length items,
          max_limitation_severity = (if severities = [] then 0 else Max (set severities)),
          dr_inert_fraction_ppm = inert, dr_decisive_subset = decisive, dr_cost_efficiency_ppm = cost,
          dr_tallies = tally, dr_prereg_digest = plan, dr_evidence_grade = grade,
          dr_efficiency_evidence = ''backend_observed_not_recomputed''\<rparr>)))))))))))))))))"

definition verify_dataset_steps ::
  "cert_env \<Rightarrow> json \<Rightarrow> dataset_context \<Rightarrow> json \<Rightarrow> json \<Rightarrow> cert_error + dataset_result" where
  "verify_dataset_steps env bundle ctx process_record_bundle leaf_lists =
     rbind (check_bound_record env bundle ctx process_record_bundle leaf_lists) (\<lambda>(pr_result, materials_issuer, ds1_basis).
     rbind (check_composition_and_leakage env bundle ctx leaf_lists) (\<lambda>ev.
     rbind (check_plan env bundle ctx process_record_bundle materials_issuer) (\<lambda>(prereg, grade).
     rbind (check_efficiency env bundle prereg) (\<lambda>(ds4_available, ds5_abstains).
     rbind (field bundle ''unsigned_manifest'') (\<lambda>manifest.
     rbind (ds_check_non_claims manifest) (\<lambda>_.
     rbind (field manifest ''identity'') (\<lambda>identity.
     rbind (field bundle ''claim_support_rows'') (\<lambda>rows.
     rbind (ds_check_support_rows env manifest identity rows
              (claim_bases_of ds1_basis (ev_ds2 ev) (ev_ds3 ev) ds4_available ds5_abstains)) (\<lambda>(rows_digest, tally).
     rbind (field bundle ''signature'') (\<lambda>signature.
     rbind (check_manifest_digest_and_signature env manifest signature materials_issuer) (\<lambda>_.
       dataset_result_of bundle ev grade tally)))))))))))"

definition is_located :: "cert_error \<Rightarrow> bool" where
  "is_located e = (case e of Located code loc \<Rightarrow> True | _ \<Rightarrow> False)"

definition verify_dataset_record_certificate ::
  "cert_env \<Rightarrow> json \<Rightarrow> dataset_context \<Rightarrow> json \<Rightarrow> json \<Rightarrow> cert_error + dataset_result" where
  "verify_dataset_record_certificate env bundle ctx process_record_bundle leaf_lists =
     rbind (fail_at (\<not> is_dict bundle) ''BUNDLE_SHAPE'' []) (\<lambda>_.
       recast_at (\<lambda>e. \<not> is_located e) ''VERIFICATION_FAILED'' []
         (verify_dataset_steps env bundle ctx process_record_bundle leaf_lists))"

end
