(* ===== verification/DatasetLaws.thy ===== *)
theory DatasetLaws
  imports DatasetVerify TrustLaws
begin

text \<open>
  What an accepted dataset record means: composition cells that partition the item set, corpora that share no
  leaf, a plan registered before the results, ratios within their range, a manifest bound to an accepted process
  record and signed by its issuer, claims that partition the claim set, and a closed vocabulary of failures.
\<close>

section \<open>Loops\<close>

lemma check_all_Inr_set: "check_all f xs = Inr () \<longleftrightarrow> (\<forall>x\<in>set xs. f x = Inr ())"
  by (induction xs) (auto simp: rbind_Inr_iff)

lemma traverse_mem: "traverse f xs = Inr ys \<Longrightarrow> x \<in> set xs \<Longrightarrow> \<exists>y\<in>set ys. f x = Inr y"
  by (induction xs arbitrary: ys) (auto simp: rbind_Inr_iff)

lemma traverse_image: "traverse f xs = Inr ys \<Longrightarrow> y \<in> set ys \<Longrightarrow> \<exists>x\<in>set xs. f x = Inr y"
  by (induction xs arbitrary: ys) (auto simp: rbind_Inr_iff)

lemma list_ex_mem: "list_ex P xs \<longleftrightarrow> (\<exists>x\<in>set xs. P x)"
  by (simp add: list_ex_iff)

lemma must_equal_at_to_JStr: "must_equal_at code loc a (Inr (JStr s)) = Inr u \<longleftrightarrow> a = Inr (JStr s)"
  by (auto simp: must_equal_at_Inr)

lemma must_equal_at_from_JStr: "must_equal_at code loc (Inr (JStr s)) b = Inr u \<longleftrightarrow> b = Inr (JStr s)"
proof -
  have "py_eq (JStr s) y \<longleftrightarrow> y = JStr s" for y by (cases y) auto
  then show ?thesis by (auto simp: must_equal_at_Inr)
qed

lemmas must_equal_at_text = must_equal_at_to_JStr must_equal_at_from_JStr

section \<open>Registration before the results\<close>

lemma ds_utc_Inr: "ds_utc_microseconds t = Inr n \<longleftrightarrow> (\<exists>s. t = JStr s \<and> utc_microseconds s = Inr n)"
  by (cases t) (auto simp: ds_utc_microseconds_def split: sum.splits)

lemma observed_collects:
  assumes "fold_steps (\<lambda>found receipt.
         rbind (rbind (field receipt ''step_id'') (in_names names)) (\<lambda>b.
           if b then rbind (rbind (field receipt ''observed_at'') ds_utc_microseconds) (\<lambda>n. Inr (found @ [n])) else Inr found))
         found receipts = Inr found'" "receipt \<in> set receipts" "field receipt ''step_id'' = Inr (jstr name)" "name \<in> set names"
  shows "\<exists>s n. field receipt ''observed_at'' = Inr (JStr s) \<and> utc_microseconds s = Inr n \<and> n \<in> set found'"
  using assms(1,2)
proof (induction receipts arbitrary: found)
  case (Cons r receipts)
  have grow: "set found \<subseteq> set found'" if "fold_steps (\<lambda>found receipt.
         rbind (rbind (field receipt ''step_id'') (in_names names)) (\<lambda>b.
           if b then rbind (rbind (field receipt ''observed_at'') ds_utc_microseconds) (\<lambda>n. Inr (found @ [n])) else Inr found))
         found receipts = Inr found'" for found receipts
    using that by (induction receipts arbitrary: found) (fastforce simp: rbind_Inr_iff split: if_splits)+
  have named: "in_names names (jstr name) = Inr True" using assms(4) by (auto simp: in_names_def list_ex_iff)
  show ?case
  proof (cases "r = receipt")
    case True
    with Cons.prems assms(3) named obtain n s where n: "field receipt ''observed_at'' = Inr (JStr s)" "utc_microseconds s = Inr n"
      "fold_steps (\<lambda>found receipt.
         rbind (rbind (field receipt ''step_id'') (in_names names)) (\<lambda>b.
           if b then rbind (rbind (field receipt ''observed_at'') ds_utc_microseconds) (\<lambda>n. Inr (found @ [n])) else Inr found))
         (found @ [n]) receipts = Inr found'"
      by (auto simp: rbind_Inr_iff ds_utc_Inr)
    with grow [OF n(3)] show ?thesis by auto
  next
    case False
    with Cons.prems Cons.IH show ?thesis by (auto simp: rbind_Inr_iff split: if_splits)
  qed
qed simp

text \<open>
  C15: A plan whose ordering is accepted was registered strictly before every evaluate, aggregate, select and
  finalize receipt of the process record was observed, at the time that the signed manifest states.
\<close>

theorem plan_precedes_results:
  assumes "check_ordering manifest prereg process_record_bundle = Inr ()"
    and "field process_record_bundle ''receipts'' = Inr receipts" "traverse (list_field receipts) STREAM_IDS = Inr streams"
    and "receipt \<in> set (concat streams)" "field receipt ''step_id'' = Inr (jstr name)"
    and "name \<in> {''evaluate'', ''aggregate'', ''select'', ''finalize''}"
  shows "\<exists>s registered t observed. field prereg ''registered_at'' = Inr (JStr s) \<and>
    field manifest ''prereg_registered_at'' = Inr (JStr s) \<and> utc_microseconds s = Inr registered \<and>
    field receipt ''observed_at'' = Inr (JStr t) \<and> utc_microseconds t = Inr observed \<and> registered < observed"
proof -
  obtain t0 registered found where f: "field prereg ''registered_at'' = Inr t0"
    "must_equal_at ''PREREGISTRATION_ORDER'' (U ''/unsigned_manifest/prereg_registered_at'') (Inr t0) (field manifest ''prereg_registered_at'') = Inr ()"
    "ds_utc_microseconds t0 = Inr registered" "observed_values process_record_bundle = Inr found"
    "found \<noteq> [] \<longrightarrow> registered < Min (set found)"
    using assms(1) by (auto simp: check_ordering_def rbind_Inr_iff not_le simp del: Min_gr_iff)
  obtain s where s: "t0 = JStr s" "utc_microseconds s = Inr registered" using f(3) by (auto simp: ds_utc_Inr)
  have "name \<in> set ORDERING_STEP_IDS" using assms(6) by (auto simp: ORDERING_STEP_IDS_def)
  moreover have "fold_steps (\<lambda>found receipt.
         rbind (rbind (field receipt ''step_id'') (in_names ORDERING_STEP_IDS)) (\<lambda>b.
           if b then rbind (rbind (field receipt ''observed_at'') ds_utc_microseconds) (\<lambda>n. Inr (found @ [n])) else Inr found))
         [] (concat streams) = Inr found"
    using f(4) assms(2,3) by (simp add: observed_values_def)
  ultimately obtain t n where t: "field receipt ''observed_at'' = Inr (JStr t)" "utc_microseconds t = Inr n" "n \<in> set found"
    using observed_collects assms(4,5) by blast
  have "found \<noteq> []" using t(3) by auto
  then have "registered < n" using f(5) t(3) by auto
  then show ?thesis using f(1,2) s t(1,2) by (auto simp: must_equal_at_text)
qed

section \<open>Ratios\<close>

text \<open>Parts per million, rounded down.\<close>

definition is_ppm_of :: "json \<Rightarrow> int \<Rightarrow> int \<Rightarrow> bool" where
  "is_ppm_of t part whole \<longleftrightarrow>
     (\<exists>ppm. py_eq t (JInt ppm) \<and> 0 \<le> ppm \<and> ppm \<le> 1000000 \<and> ppm * whole \<le> part * 1000000 \<and>
        (0 < whole \<longrightarrow> part * 1000000 < (ppm + 1) * whole) \<and> (whole = 0 \<longrightarrow> ppm = 0))"

lemma ppm_floor:
  assumes "py_eq t (JInt (part * 1000000 div whole))" "0 < whole" "0 \<le> part" "part \<le> whole"
  shows "is_ppm_of t part whole"
proof -
  let ?q = "part * 1000000 div whole"
  have "?q * whole + part * 1000000 mod whole = part * 1000000" by (rule div_mult_mod_eq)
  moreover have "0 \<le> part * 1000000 mod whole" "part * 1000000 mod whole < whole" using assms(2) by simp_all
  moreover have "(?q + 1) * whole = ?q * whole + whole" by (simp only: distrib_right mult_1)
  ultimately have "?q * whole \<le> part * 1000000" "part * 1000000 < (?q + 1) * whole" by linarith+
  moreover have "0 \<le> ?q" using assms(2,3) by (simp add: pos_imp_zdiv_nonneg_iff)
  moreover have "?q \<le> 1000000"
  proof -
    have "?q \<le> whole * 1000000 div whole" using assms(2,4) by (intro zdiv_mono1) simp_all
    then show ?thesis using assms(2) by simp
  qed
  ultimately show ?thesis using assms(1,2) unfolding is_ppm_of_def by blast
qed

lemma ratio_in_range:
  assumes "check_ratio code whole_key part_key ratio_key t = Inr ()" "num_field t whole_key = Inr whole" "num_field t part_key = Inr part"
    and "0 \<le> whole" "0 \<le> part"
  shows "\<exists>r. field t ratio_key = Inr r \<and> is_ppm_of r part whole"
proof (cases "0 < whole")
  case True
  then obtain r where r: "field t ratio_key = Inr r" "py_eq r (JInt (part * 1000000 div whole))" "part \<le> whole"
    using assms(1-3) by (auto simp: check_ratio_def Let_def rbind_Inr_iff must_equal_at_Inr)
  show ?thesis using r(1) ppm_floor [OF r(2) True assms(5) r(3)] by blast
next
  case False
  then have w: "whole = 0" using assms(4) by simp
  then obtain r where "field t ratio_key = Inr r" "py_eq r (JInt 0)"
    using assms(1-3) by (auto simp: check_ratio_def Let_def rbind_Inr_iff must_equal_at_Inr)
  then show ?thesis using w assms(5) by (auto simp: is_ppm_of_def)
qed

text \<open>
  C16: The inert fraction and the two efficiency ratios of an accepted report lie between 0 and 1000000 and are
  the counts, costs and latencies of the report, rounded down; with a zero denominator they are 0.
\<close>

theorem efficiency_ratios_in_range:
  assumes "check_inert_fraction identity report = Inr ()" "check_cost_and_latency report = Inr ()"
    and "num_field report ''inert_item_count'' = Inr inert" "num_field identity ''item_count'' = Inr items"
    and "num_field report ''full_pass_cost_microusd'' = Inr full_cost" "num_field report ''decisive_subset_cost_microusd'' = Inr cost"
    and "num_field report ''full_pass_latency_us'' = Inr full_latency" "num_field report ''decisive_subset_latency_us'' = Inr latency"
    and "0 \<le> inert" "0 \<le> full_cost" "0 \<le> cost" "0 \<le> full_latency" "0 \<le> latency"
  shows "\<exists>inert_ppm cost_ppm latency_ppm. field report ''inert_fraction_ppm'' = Inr inert_ppm \<and> is_ppm_of inert_ppm inert items \<and>
    field report ''cost_efficiency_ppm'' = Inr cost_ppm \<and> is_ppm_of cost_ppm cost full_cost \<and>
    field report ''latency_efficiency_ppm'' = Inr latency_ppm \<and> is_ppm_of latency_ppm latency full_latency"
proof -
  obtain r where r: "inert \<le> items" "field report ''inert_fraction_ppm'' = Inr r"
    "py_eq r (JInt (if items = 0 then 0 else inert * 1000000 div items))"
    using assms(1,3,4) by (auto simp: check_inert_fraction_def rbind_Inr_iff must_equal_at_Inr not_less)
  have "is_ppm_of r inert items"
  proof (cases "items = 0")
    case False
    then show ?thesis using ppm_floor [of r inert items] r assms(9) by simp
  qed (use r assms(9) in \<open>auto simp: is_ppm_of_def\<close>)
  moreover note ratio_in_range [OF _ assms(5,6,10,11)] ratio_in_range [OF _ assms(7,8,12,13)]
  moreover have "check_ratio ''COST_EFFICIENCY_MISMATCH'' ''full_pass_cost_microusd'' ''decisive_subset_cost_microusd'' ''cost_efficiency_ppm'' report = Inr ()"
    "check_ratio ''LATENCY_EFFICIENCY_MISMATCH'' ''full_pass_latency_us'' ''decisive_subset_latency_us'' ''latency_efficiency_ppm'' report = Inr ()"
    using assms(2) by (simp_all add: check_cost_and_latency_def)
  ultimately show ?thesis using r(2) by blast
qed

section \<open>Cells and the item set\<close>

lemma scalar_py_eq_sym: "py_eq x y \<Longrightarrow> \<not> is_container x \<Longrightarrow> py_eq y x"
proof (cases x rule: num_value_cases)
  case (number q)
  then show "py_eq x y \<Longrightarrow> py_eq y x" using py_eq_number [of y q x] py_eq_number [of x q y] by simp
next
  case other
  then show "py_eq x y \<Longrightarrow> \<not> is_container x \<Longrightarrow> py_eq y x" by (cases x; cases y) auto
qed

definition scalar_key :: "json \<times> json \<Rightarrow> bool" where
  "scalar_key k \<longleftrightarrow> \<not> is_container (fst k) \<and> \<not> is_container (snd k)"

lemma cell_key_scalar: "cell_key t = Inr k \<Longrightarrow> scalar_key k"
  by (auto simp: cell_key_def rbind_Inr_iff scalar_key_def split: if_splits)

lemma same_key_sym: "same_key a b \<Longrightarrow> scalar_key a \<Longrightarrow> same_key b a"
  by (simp add: same_key_def scalar_key_def scalar_py_eq_sym)

lemma same_key_trans: "same_key a b \<Longrightarrow> same_key b c \<Longrightarrow> same_key a c"
  by (auto simp: same_key_def intro: py_eq_trans)

lemma partition_cell_Inr:
  "partition_cell i st cell = Inr st' \<longleftrightarrow>
   (\<exists>key n. cell_key cell = Inr key \<and> list_all (\<lambda>k. \<not> same_key k key) (fst st) \<and> num_field cell ''item_count'' = Inr n \<and>
      1 \<le> n \<and> st' = (key # fst st, snd st + n))"
  by (auto simp: partition_cell_def rbind_Inr_iff list_ex_iff list_all_iff not_less intro: exI)

lemma partition_facts:
  assumes "fold_indexed partition_cell i st cells = Inr st'"
  shows "\<exists>keys counts. traverse cell_key cells = Inr keys \<and> traverse (\<lambda>c. num_field c ''item_count'') cells = Inr counts \<and>
    snd st' = snd st + sum_list counts \<and> list_all (\<lambda>n. 1 \<le> n) counts \<and>
    sorted_wrt (\<lambda>a b. \<not> same_key a b) keys \<and> list_all (\<lambda>k. list_all (\<lambda>k'. \<not> same_key k' k) (fst st)) keys"
  using assms
proof (induction cells arbitrary: i st)
  case (Cons cell cells)
  obtain key n where c: "cell_key cell = Inr key" "list_all (\<lambda>k. \<not> same_key k key) (fst st)" "num_field cell ''item_count'' = Inr n" "1 \<le> n"
    "fold_indexed partition_cell (Suc i) (key # fst st, snd st + n) cells = Inr st'"
    using Cons.prems by (simp add: rbind_Inr_iff) (metis partition_cell_Inr)
  from Cons.IH [OF c(5)] obtain keys counts where i:
    "traverse cell_key cells = Inr keys" "traverse (\<lambda>c. num_field c ''item_count'') cells = Inr counts"
    "snd st' = snd st + n + sum_list counts" "list_all (\<lambda>n. 1 \<le> n) counts" "sorted_wrt (\<lambda>a b. \<not> same_key a b) keys"
    "list_all (\<lambda>k. \<not> same_key key k \<and> list_all (\<lambda>k'. \<not> same_key k' k) (fst st)) keys"
    unfolding fst_conv snd_conv list_all_iff list.set by blast
  have "sorted_wrt (\<lambda>a b. \<not> same_key a b) (key # keys)" "list_all (\<lambda>k. list_all (\<lambda>k'. \<not> same_key k' k) (fst st)) (key # keys)"
    using i(5,6) c(2) by (simp_all add: list_all_iff)
  moreover have "traverse cell_key (cell # cells) = Inr (key # keys)"
    "traverse (\<lambda>c. num_field c ''item_count'') (cell # cells) = Inr (n # counts)" using i(1,2) c(1,3) by simp_all
  moreover have "snd st' = snd st + sum_list (n # counts)" "list_all (\<lambda>n. 1 \<le> n) (n # counts)" using i(3,4) c(4) by simp_all
  ultimately show ?case by blast
qed simp

lemma one_cell:
  assumes "sorted_wrt (\<lambda>a b. \<not> same_key a b) keys" "list_all scalar_key keys" "scalar_key k" "k' \<in> set keys" "same_key k k'"
  shows "length (filter (same_key k) keys) = 1"
  using assms
proof (induction keys)
  case (Cons a keys)
  have none: "filter (same_key k) keys = []" if "same_key k a"
  proof (rule ccontr)
    assume "filter (same_key k) keys \<noteq> []"
    then obtain b where b: "b \<in> set keys" "same_key k b" by (metis filter_False)
    have "same_key a b" using same_key_trans [OF same_key_sym [OF that Cons.prems(3)] b(2)] .
    then show False using Cons.prems(1) b(1) by auto
  qed
  show ?case
  proof (cases "same_key k a")
    case True
    then show ?thesis using none by simp
  next
    case False
    then have "k' \<in> set keys" using Cons.prems(4,5) by auto
    then show ?thesis using False Cons.IH Cons.prems by simp
  qed
qed simp

lemma mset_concat_filters:
  assumes "\<And>t. t \<in> set ts \<Longrightarrow> length (filter (\<lambda>k. P t k) ks) = 1"
  shows "mset (concat (map (\<lambda>k. map g (filter (\<lambda>t. P t k) ts)) ks)) = mset (map g ts)"
proof -
  have "mset (concat (map (\<lambda>k. map g (filter (\<lambda>t. P t k) ts)) ks)) =
      (\<Sum>t\<leftarrow>ts. (\<Sum>k\<leftarrow>ks. if P t k then {#g t#} else {#}))" for ks
  proof (induction ks)
    case (Cons k ks)
    have one: "mset (map g (filter (\<lambda>t. P t k) ts)) = (\<Sum>t\<leftarrow>ts. if P t k then {#g t#} else {#})" by (induction ts) auto
    show ?case by (simp add: Cons.IH one sum_list_addf flip: mset_map)
  qed simp
  moreover have "(\<Sum>k\<leftarrow>ks. if P t k then {#g t#} else {#}) = {#g t#}" if "t \<in> set ts" for t
  proof -
    have "(\<Sum>k\<leftarrow>ks. if P t k then {#g t#} else {#}) = replicate_mset (length (filter (\<lambda>k. P t k) ks)) (g t)" for ks
      by (induction ks) auto
    then show ?thesis using assms [OF that] by simp
  qed
  ultimately have "mset (concat (map (\<lambda>k. map g (filter (\<lambda>t. P t k) ts)) ks)) = (\<Sum>t\<leftarrow>ts. {#g t#})"
    by (simp cong: map_cong)
  also have "\<dots> = mset (map g ts)" by (induction ts) auto
  finally show ?thesis .
qed

text \<open>
  C14: When the cell roots of a composition are recomputed, the cells partition the supplied item set: every
  leaf is in exactly one cell, each cell holds the declared number of leaves, and the numbers add up to the size
  of the item set and to the signed item count.
\<close>

theorem recomputed_cells_partition:
  assumes "check_declared_partition identity composition = Inr ()" "check_cell_roots env identity composition leaf_lists = Inr True"
  shows "\<exists>cells keys counts entries tagged n. list_field composition ''cells'' = Inr cells \<and> traverse cell_key cells = Inr keys \<and>
    traverse (\<lambda>c. num_field c ''item_count'') cells = Inr counts \<and>
    rbind (field identity ''dataset_ref'') (get_by leaf_lists) = Inr entries \<and> rbind (iterate entries) (traverse tagged_leaf) = Inr tagged \<and>
    map (\<lambda>k. int (length (leaves_of_cell tagged k))) keys = counts \<and>
    mset (concat (map (leaves_of_cell tagged) keys)) = mset (map snd tagged) \<and>
    int (length tagged) = sum_list counts \<and> field identity ''item_count'' = Inr n \<and> py_eq (JInt (int (length tagged))) n"
proof -
  obtain cells st n where p: "list_field composition ''cells'' = Inr cells" "fold_indexed partition_cell 0 ([], 0) cells = Inr st"
    "field identity ''item_count'' = Inr n" "py_eq (JInt (snd st)) n"
    using assms(1) by (auto simp: check_declared_partition_def Let_def rbind_Inr_iff must_equal_at_Inr)
  obtain keys counts where k: "traverse cell_key cells = Inr keys" "traverse (\<lambda>c. num_field c ''item_count'') cells = Inr counts"
    "snd st = sum_list counts" "sorted_wrt (\<lambda>a b. \<not> same_key a b) keys"
    using partition_facts [OF p(2)] by auto
  obtain entries tagged where r: "rbind (field identity ''dataset_ref'') (get_by leaf_lists) = Inr entries"
    "rbind (iterate entries) (traverse tagged_leaf) = Inr tagged" "check_all (check_cell_root env tagged) cells = Inr ()"
    "\<not> list_ex (\<lambda>t. \<not> list_ex (same_key (fst t)) keys) tagged"
    using assms(2) p(1) k(1) unfolding check_cell_roots_def by (auto simp: rbind_Inr_iff split: if_splits)
  have scalars: "list_all scalar_key keys"
    using traverse_image [OF k(1)] cell_key_scalar unfolding list_all_iff by blast
  have tagged_scalar: "scalar_key (fst t)" if "t \<in> set tagged" for t
  proof -
    obtain xs where "traverse tagged_leaf xs = Inr tagged" using r(2) by (auto simp: rbind_Inr_iff)
    from traverse_image [OF this that] obtain x where "tagged_leaf x = Inr t" by blast
    then have "cell_key x = Inr (fst t)" by (auto simp: tagged_leaf_def rbind_Inr_iff simp del: split_paired_Ex)
    then show ?thesis by (rule cell_key_scalar)
  qed
  have once: "length (filter (\<lambda>k. same_key (fst t) k) keys) = 1" if "t \<in> set tagged" for t
    using r(4) that one_cell [OF k(4) scalars tagged_scalar [OF that]] by (auto simp: list_ex_iff)
  have lengths: "map (\<lambda>k. int (length (leaves_of_cell tagged k))) keys = counts"
    using k(1,2) r(3)
  proof (induction cells arbitrary: keys counts)
    case (Cons cell cells)
    then obtain key keys' m counts' where c: "cell_key cell = Inr key" "keys = key # keys'" "traverse cell_key cells = Inr keys'"
      "num_field cell ''item_count'' = Inr m" "counts = m # counts'" "traverse (\<lambda>c. num_field c ''item_count'') cells = Inr counts'"
      "check_cell_root env tagged cell = Inr ()" "check_all (check_cell_root env tagged) cells = Inr ()"
      by (auto simp: rbind_Inr_iff)
    obtain v where v: "field cell ''item_count'' = Inr v" "py_eq (JInt (int (length (leaves_of_cell tagged key)))) v" "as_num v = Inr m"
      using c(1,4,7) by (auto simp: check_cell_root_def Let_def rbind_Inr_iff must_equal_at_Inr num_field_def)
    then have "m = int (length (leaves_of_cell tagged key))" by (cases v) (auto simp: as_num_def)
    then show ?case using Cons.IH [OF c(3,6,8)] c(2,5) by simp
  qed simp
  have whole: "mset (concat (map (leaves_of_cell tagged) keys)) = mset (map snd tagged)"
    using mset_concat_filters [of tagged "\<lambda>t k. same_key (fst t) k" keys snd] once by (simp add: leaves_of_cell_def [abs_def])
  then have "length (concat (map (leaves_of_cell tagged) keys)) = length tagged"
    by (metis length_map size_mset)
  moreover have "int (\<Sum>k\<leftarrow>ks. f k) = (\<Sum>k\<leftarrow>ks. int (f k))" for f :: "json \<times> json \<Rightarrow> nat" and ks by (induction ks) auto
  ultimately have "int (length tagged) = sum_list counts" by (simp add: length_concat comp_def flip: lengths) metis
  then show ?thesis using p(1,3,4) k(1-3) r(1,2) lengths whole by metis
qed

section \<open>Disjoint corpora\<close>

lemma add_pair_step:
  assumes "add_pair pairs f = Inr pairs'"
  shows "(relevant f = Inr True \<longrightarrow> (\<exists>key. pair_key f = Inr key \<and> map_of pairs' key \<noteq> None)) \<and>
    (\<forall>key. map_of pairs key \<noteq> None \<longrightarrow> map_of pairs' key \<noteq> None) \<and>
    (\<forall>key. map_of pairs' key = Some True \<longrightarrow> map_of pairs key = Some True \<or>
       (relevant f = Inr True \<and> pair_key f = Inr key \<and> get_item f ''disjointness_asserted'' = Inr (JBool True)))"
proof -
  obtain b where b: "relevant f = Inr b" using assms by (auto simp: add_pair_def rbind_Inr_iff)
  show ?thesis
  proof (cases b)
    case True
    with assms b obtain key asserted where k: "pair_key f = Inr key" "get_item f ''disjointness_asserted'' = Inr asserted"
      "pairs' = AList.update key ((case map_of pairs key of None \<Rightarrow> False | Some v \<Rightarrow> v) \<or> asserted = JBool True) pairs"
      by (auto simp: add_pair_def rbind_Inr_iff simp del: split_paired_Ex)
    show ?thesis using b True k by (auto simp: update_conv' split: option.splits)
  next
    case False
    with assms b show ?thesis by (simp add: add_pair_def)
  qed
qed

lemma pairs_cover:
  assumes "fold_steps add_pair pairs fs = Inr pairs'"
  shows "(\<forall>f\<in>set fs. relevant f = Inr True \<longrightarrow> (\<exists>key. pair_key f = Inr key \<and> map_of pairs' key \<noteq> None)) \<and>
    (\<forall>key. map_of pairs key \<noteq> None \<longrightarrow> map_of pairs' key \<noteq> None) \<and>
    (\<forall>key. map_of pairs' key = Some True \<longrightarrow> map_of pairs key = Some True \<or>
       (\<exists>f\<in>set fs. relevant f = Inr True \<and> pair_key f = Inr key \<and> get_item f ''disjointness_asserted'' = Inr (JBool True)))"
  using assms
proof (induction fs arbitrary: pairs)
  case (Cons f fs)
  then obtain pairs1 where c: "add_pair pairs f = Inr pairs1" "fold_steps add_pair pairs1 fs = Inr pairs'" by (auto simp: rbind_Inr_iff)
  note Cons.IH [OF c(2)] add_pair_step [OF c(1)]
  then show ?case unfolding list.set ball_simps bex_simps by meson
qed simp

definition supplied_leaves :: "cert_env \<Rightarrow> json \<Rightarrow> json \<Rightarrow> ustr \<Rightarrow> ustr list \<Rightarrow> bool" where
  "supplied_leaves env leakage_report leaf_lists ref leaves \<longleftrightarrow>
     (\<exists>supplied entries declared d. (ref, supplied) \<in> set (members leaf_lists) \<and>
        rbind (iterate supplied) (traverse leaf_of) = Inr leaves \<and>
        list_field leakage_report ''leaf_list_digests'' = Inr entries \<and> declared \<in> set entries \<and>
        field declared ''corpus_ref'' = Inr (JStr ref) \<and> leaf_list_digest env leaves = Inr d \<and>
        field declared ''leaf_list_digest'' = Inr (JStr d))"

definition attested_corpus :: "json \<Rightarrow> ustr \<Rightarrow> bool" where
  "attested_corpus attestation ref \<longleftrightarrow>
     (\<exists>corpora corpus. list_field attestation ''corpora'' = Inr corpora \<and> corpus \<in> set corpora \<and>
        field corpus ''corpus_ref'' = Inr (JStr ref))"

lemma declared_for_mem:
  assumes "declared_for entries ref = Inr (Some declared)"
  shows "declared \<in> set entries \<and> field declared ''corpus_ref'' = Inr (JStr ref)"
proof -
  have "fold_steps (\<lambda>found entry. rbind (rbind (field entry ''corpus_ref'') set_key) (\<lambda>r.
       Inr (if r = JStr ref then Some entry else found))) found entries = Inr (Some declared) \<Longrightarrow>
     found = Some declared \<or> declared \<in> set entries \<and> field declared ''corpus_ref'' = Inr (JStr ref)" for found
    by (induction entries arbitrary: found) (fastforce simp: rbind_Inr_iff set_key_def split: if_splits)+
  from this [of None] show ?thesis using assms by (auto simp: declared_for_def)
qed

lemma corpora_are_supplied:
  assumes "check_leaf_list_digests env identity leakage_report leaf_lists = Inr corpora_leaves" "map_of corpora_leaves ref = Some leaves"
  shows "\<exists>raw. supplied_leaves env leakage_report leaf_lists ref raw \<and> set raw = set leaves"
proof -
  obtain entries dataset_ref where e: "list_field leakage_report ''leaf_list_digests'' = Inr entries"
    "traverse (\<lambda>(corpus_ref, supplied).
       rbind (declared_for entries corpus_ref) (\<lambda>found.
       rbind (case found of None \<Rightarrow> Inl (Located ''LEAF_LIST_DIGEST_MISMATCH'' (U ''/leakage_report/leaf_list_digests'')) | Some declared \<Rightarrow> Inr declared) (\<lambda>declared.
       rbind (rbind (iterate supplied) (traverse leaf_of)) (\<lambda>leaves.
       rbind (must_equal_at ''LEAF_LIST_DIGEST_MISMATCH'' (U ''/leakage_report/leaf_list_digests'') (Inr (JInt (int (length leaves)))) (field declared ''leaf_count'')) (\<lambda>_.
       rbind (leaf_list_digest env leaves) (\<lambda>d.
       rbind (must_equal_at ''LEAF_LIST_DIGEST_MISMATCH'' (U ''/leakage_report/leaf_list_digests'') (Inr (JStr d)) (field declared ''leaf_list_digest'')) (\<lambda>_.
         Inr (corpus_ref, sort leaves)))))))) (corpus_lists dataset_ref leaf_lists) = Inr corpora_leaves"
    using assms(1) unfolding check_leaf_list_digests_def Let_def by (auto simp: rbind_Inr_iff)
  obtain supplied declared raw d where s: "(ref, supplied) \<in> set (corpus_lists dataset_ref leaf_lists)"
    "declared_for entries ref = Inr (Some declared)" "rbind (iterate supplied) (traverse leaf_of) = Inr raw"
    "leaf_list_digest env raw = Inr d" "field declared ''leaf_list_digest'' = Inr (JStr d)" "leaves = sort raw"
    using traverse_image [OF e(2) map_of_SomeD [OF assms(2)]]
    by (auto simp: rbind_Inr_iff must_equal_at_text split: option.splits)
  have "(ref, supplied) \<in> set (members leaf_lists)" using s(1) by (auto simp: corpus_lists_def)
  then have "supplied_leaves env leakage_report leaf_lists ref raw"
    unfolding supplied_leaves_def using s(3-5) e(1) declared_for_mem [OF s(2)] by blast
  then show ?thesis using s(6) by auto
qed

lemma relevant_refs_mem:
  assumes "fold_steps (\<lambda>refs finding. rbind (relevant finding) (\<lambda>b. if \<not> b then Inr refs
         else rbind (rbind (field finding ''corpus_a_ref'') set_key) (\<lambda>a.
              rbind (rbind (field finding ''corpus_b_ref'') set_key) (\<lambda>b. Inr (refs @ [a, b]))))) refs fs = Inr refs'"
  shows "set refs \<subseteq> set refs' \<and> (\<forall>f\<in>set fs. relevant f = Inr True \<longrightarrow>
    (\<exists>a b. field f ''corpus_a_ref'' = Inr a \<and> field f ''corpus_b_ref'' = Inr b \<and> a \<in> set refs' \<and> b \<in> set refs'))"
  using assms
proof (induction fs arbitrary: refs)
  case (Cons f fs)
  then obtain b where b: "relevant f = Inr b" by (auto simp: rbind_Inr_iff)
  show ?case
  proof (cases b)
    case True
    with Cons.prems b obtain x y where "field f ''corpus_a_ref'' = Inr x" "field f ''corpus_b_ref'' = Inr y"
      "fold_steps (\<lambda>refs finding. rbind (relevant finding) (\<lambda>b. if \<not> b then Inr refs
         else rbind (rbind (field finding ''corpus_a_ref'') set_key) (\<lambda>a.
              rbind (rbind (field finding ''corpus_b_ref'') set_key) (\<lambda>b. Inr (refs @ [a, b]))))) (refs @ [x, y]) fs = Inr refs'"
      by (auto simp: rbind_Inr_iff set_key_def split: if_splits)
    with Cons.IH [OF this(3)] b show ?thesis by auto
  next
    case False
    with Cons b show ?thesis by auto
  qed
qed simp

lemma pair_key_Inr:
  assumes "pair_key finding = Inr key"
  obtains a b where "field finding ''corpus_a_ref'' = Inr (JStr a)" "field finding ''corpus_b_ref'' = Inr (JStr b)"
    "key = (if b < a then (b, a) else (a, b))"
proof -
  obtain x y where xy: "field finding ''corpus_a_ref'' = Inr x" "field finding ''corpus_b_ref'' = Inr y"
    "(case (x, y) of (JStr a, JStr b) \<Rightarrow> Inr (if b < a then (b, a) else (a, b)) | _ \<Rightarrow> Inl PyTypeErr) = Inr key"
    using assms unfolding pair_key_def rbind_Inr_iff by blast
  then show ?thesis by (cases x; cases y) (auto intro: that)
qed

text \<open>
  C11: When the leakage claim DS3 is verified, the two corpora of every overlap or disjointness finding were
  supplied as leaf lists that match the digests of the signed report, are covered by the attestation, share no
  leaf, and are asserted to be disjoint by a finding on the same pair.
\<close>

theorem verified_corpora_are_disjoint:
  assumes "check_leaf_list_digests env identity leakage_report leaf_lists = Inr corpora_leaves"
    and "derive_ds3 ctx leakage_report attestation leaf_lists corpora_leaves consistent = Inr (grade, ''issuer_verified'')"
    and "list_field leakage_report ''findings'' = Inr findings" "finding \<in> set findings"
    and "field finding ''finding_kind'' = Inr (jstr kind)" "kind \<in> {''declared_corpus_overlap'', ''split_disjointness''}"
  shows "\<exists>a b la lb f. field finding ''corpus_a_ref'' = Inr (JStr a) \<and> field finding ''corpus_b_ref'' = Inr (JStr b) \<and>
    supplied_leaves env leakage_report leaf_lists a la \<and> supplied_leaves env leakage_report leaf_lists b lb \<and>
    attested_corpus attestation a \<and> attested_corpus attestation b \<and> set la \<inter> set lb = {} \<and>
    f \<in> set findings \<and> pair_key f = pair_key finding \<and> get_item f ''disjointness_asserted'' = Inr (JBool True)"
proof -
  have rel: "relevant finding = Inr True"
    using assms(5,6) by (auto simp: relevant_def in_names_def DS3_RELEVANT_FINDING_KINDS_def)
  obtain refs attested where r: "ds3_relevant_corpus_refs leakage_report = Inr refs"
    "(if attestation = JNull then Inr [] else rbind (list_field attestation ''corpora'')
        (traverse (\<lambda>corpus. rbind (field corpus ''corpus_ref'') set_key))) = Inr attested"
    "list_all (\<lambda>r. list_ex (\<lambda>kv. r = JStr (fst kv)) corpora_leaves \<and> list_ex (\<lambda>a. py_eq a r) attested) refs"
    "ds3_disjointness_established leakage_report corpora_leaves = Inr True"
    using assms(2) unfolding derive_ds3_def Let_def by (auto simp: rbind_Inr_iff split: if_splits)
  obtain pairs where p: "fold_steps add_pair [] findings = Inr pairs" "list_all (pair_disjoint corpora_leaves) pairs"
    using r(4) assms(3) by (auto simp: ds3_disjointness_established_def rbind_Inr_iff)
  obtain key v where k: "pair_key finding = Inr key" "map_of pairs key = Some v"
    using pairs_cover [OF p(1)] assms(4) rel by auto
  have "pair_disjoint corpora_leaves (key, v)" using p(2) map_of_SomeD [OF k(2)] by (auto simp: list_all_iff)
  then obtain la lb where l: "v" "map_of corpora_leaves (fst key) = Some la" "map_of corpora_leaves (snd key) = Some lb" "common la lb = []"
    by (auto simp: pair_disjoint_def split: prod.splits option.splits)
  obtain f where f: "f \<in> set findings" "pair_key f = Inr key" "get_item f ''disjointness_asserted'' = Inr (JBool True)"
    using conjunct2 [OF conjunct2 [OF pairs_cover [OF p(1)]], rule_format, of key] k(2) l(1) by auto
  obtain a b where ab: "field finding ''corpus_a_ref'' = Inr (JStr a)" "field finding ''corpus_b_ref'' = Inr (JStr b)"
    "key = (if b < a then (b, a) else (a, b))"
    by (rule pair_key_Inr [OF k(1)])
  from r(1) assms(3) have "JStr a \<in> set refs" "JStr b \<in> set refs"
    unfolding ds3_relevant_corpus_refs_def using relevant_refs_mem [of "[]" findings refs] assms(4) rel ab(1,2) by auto
  then have named: "JStr a \<in> set attested" "JStr b \<in> set attested" using r(3) by (auto simp: list_all_iff list_ex_iff)
  have "attested_corpus attestation c" if "JStr c \<in> set attested" for c
    using r(2) that
    by (auto simp: attested_corpus_def rbind_Inr_iff set_key_def dest!: traverse_image split: if_splits)
  then have att: "attested_corpus attestation a" "attested_corpus attestation b" using named by blast+
  have disjoint: "set la \<inter> set lb = {}" using l(4) by (auto simp: common_def filter_empty_conv)
  obtain ra where ra: "supplied_leaves env leakage_report leaf_lists (fst key) ra" "set ra = set la"
    using corpora_are_supplied [OF assms(1) l(2)] by blast
  obtain rb where rb: "supplied_leaves env leakage_report leaf_lists (snd key) rb" "set rb = set lb"
    using corpora_are_supplied [OF assms(1) l(3)] by blast
  have "\<exists>la lb. supplied_leaves env leakage_report leaf_lists a la \<and> supplied_leaves env leakage_report leaf_lists b lb \<and> set la \<inter> set lb = {}"
  proof (cases "b < a")
    case True
    then show ?thesis using ra rb disjoint ab(3) by (intro exI [of _ rb] exI [of _ ra]) auto
  next
    case False
    then show ?thesis using ra rb disjoint ab(3) by (intro exI [of _ ra] exI [of _ rb]) auto
  qed
  then show ?thesis using ab(1,2) att f k(1) by metis
qed

section \<open>What an accepted record is bound to\<close>

lemma bound_record_facts:
  assumes "check_bound_record env bundle ctx prb leaf_lists = Inr (pr, issuer, ds1_basis)" "field bundle ''unsigned_manifest'' = Inr manifest"
  obtains pr_unsigned identity where "verify_process_record env prb ctx = Inr (pr, pr_unsigned)"
    "path_to prb [''verification_materials_v0'', ''issuer''] = Inr issuer"
    "check_scope_binding env manifest pr_unsigned ctx = Inr ()" "check_process_binding manifest pr = Inr ()"
    "check_dataset_commitment manifest pr ctx = Inr ()" "field manifest ''identity'' = Inr identity"
    "check_identity identity ctx = Inr ds1_basis"
  using assms unfolding check_bound_record_def by (auto simp: rbind_Inr_iff simp del: path_to.simps)

lemma composition_and_leakage_facts:
  assumes "check_composition_and_leakage env bundle ctx leaf_lists = Inr ev" "field bundle ''unsigned_manifest'' = Inr manifest"
  obtains identity composition leakage_report corpora_leaves consistent where "field manifest ''identity'' = Inr identity"
    "field bundle ''composition'' = Inr composition" "check_composition_digest env manifest composition = Inr ()"
    "derive_ds2 env identity composition leaf_lists = Inr (ev_composition ev, ev_ds2 ev)"
    "field bundle ''leakage_report'' = Inr leakage_report" "check_leakage_digest env manifest leakage_report = Inr ()"
    "derive_ds3 ctx leakage_report (get_member bundle ''leaf_generation_attestation'') leaf_lists corpora_leaves consistent =
       Inr (ev_disjointness ev, ev_ds3 ev)"
  using assms unfolding check_composition_and_leakage_def Let_def by (auto simp: rbind_Inr_iff)

lemma plan_facts:
  assumes "check_plan env bundle ctx prb issuer = Inr (prereg, grade)" "field bundle ''unsigned_manifest'' = Inr manifest"
  obtains limitations envelope where "field bundle ''limitations'' = Inr limitations"
    "check_limitations_digest env manifest limitations = Inr ()" "field bundle ''preregistration_envelope'' = Inr envelope"
    "check_prereg_digest env manifest envelope = Inr prereg" "check_prereg_signature env manifest envelope issuer = Inr ()"
    "check_evidence_grade manifest prereg ctx = Inr grade"
  using assms unfolding check_plan_def by (auto simp: rbind_Inr_iff)

lemma efficiency_facts:
  assumes "check_efficiency env bundle prereg = Inr (ds4_available, ds5_abstains)" "field bundle ''unsigned_manifest'' = Inr manifest"
  obtains efficiency_report where "field bundle ''efficiency_report'' = Inr efficiency_report"
    "check_efficiency_digest env manifest efficiency_report = Inr ()"
  using assms unfolding check_efficiency_def by (auto simp: rbind_Inr_iff)

lemma dataset_steps_facts:
  assumes "verify_dataset_record_certificate env bundle ctx prb leaf_lists = Inr r"
  obtains pr issuer ds1_basis ev prereg grade ds4_available ds5_abstains manifest identity rows d tally signature where
    "check_bound_record env bundle ctx prb leaf_lists = Inr (pr, issuer, ds1_basis)"
    "check_composition_and_leakage env bundle ctx leaf_lists = Inr ev" "check_plan env bundle ctx prb issuer = Inr (prereg, grade)"
    "check_efficiency env bundle prereg = Inr (ds4_available, ds5_abstains)" "field bundle ''unsigned_manifest'' = Inr manifest"
    "ds_check_support_rows env manifest identity rows
       (claim_bases_of ds1_basis (ev_ds2 ev) (ev_ds3 ev) ds4_available ds5_abstains) = Inr (d, tally)"
    "field bundle ''signature'' = Inr signature" "check_manifest_digest_and_signature env manifest signature issuer = Inr ()"
    "dataset_result_of bundle ev grade tally = Inr r"
  using assms unfolding verify_dataset_record_certificate_def verify_dataset_steps_def by (auto simp: rbind_Inr_iff)

lemma ds_material_Inr: "ds_canonical_material domain t = Inr m \<longleftrightarrow> (\<exists>s. canonical_text t = Some s \<and> m = domain @ 0 # utf8 s)"
  by (auto simp: ds_canonical_material_def split: option.splits)

lemma manifest_signature_facts:
  assumes "check_manifest_digest_and_signature env manifest signature issuer = Inr ()"
  obtains public_key algorithm sig s where "material_public_key env issuer ISSUER_SPKI_DOMAIN = Inr public_key"
    "canonical_text manifest = Some s" "field signature ''signature'' = Inr sig"
    "verify_signature env public_key algorithm (DS_ISSUER_SIGNATURE_DOMAIN @ 0 # utf8 s) sig = Inr ()"
  using assms unfolding check_manifest_digest_and_signature_def by (auto simp: rbind_Inr_iff ds_material_Inr)

lemma plan_signature_facts:
  assumes "check_prereg_signature env manifest envelope issuer = Inr ()" "field envelope ''preregistration'' = Inr prereg"
  obtains public_key algorithm sig s where "material_public_key env issuer ISSUER_SPKI_DOMAIN = Inr public_key"
    "canonical_text (without_member ''prereg_digest'' prereg) = Some s"
    "path_to envelope [''signature'', ''signature''] = Inr sig"
    "verify_signature env public_key algorithm (DS_PREREG_SIGNATURE_DOMAIN @ 0 # utf8 s) sig = Inr ()"
  using assms unfolding check_prereg_signature_def Let_def by (auto simp: rbind_Inr_iff ds_material_Inr split: if_splits)

text \<open>The manifest states the digest of a part of the bundle.\<close>

definition states_digest_of :: "cert_env \<Rightarrow> json \<Rightarrow> json \<Rightarrow> string list \<Rightarrow> byte list \<Rightarrow> string \<Rightarrow> bool" where
  "states_digest_of env bundle manifest part domain key \<longleftrightarrow>
     (\<exists>t d. path_to bundle part = Inr t \<and> artifact_digest env domain key t = Inr d \<and> field t key = Inr (JStr d) \<and>
        field manifest key = Inr (JStr d))"

lemma artifact_digest_facts:
  assumes "check_artifact_digest env domain key code own manifest t = Inr ()" "path_to bundle part = Inr t"
  shows "states_digest_of env bundle manifest part domain key"
  using assms by (auto simp: check_artifact_digest_def rbind_Inr_iff must_equal_at_text states_digest_of_def)

definition accepted_parts :: "(string list \<times> byte list \<times> string) list" where
  "accepted_parts =
     [([''composition''], DS_COMPOSITION_DOMAIN, ''composition_digest''),
      ([''leakage_report''], DS_LEAKAGE_REPORT_DOMAIN, ''leakage_report_digest''),
      ([''limitations''], DS_LIMITATIONS_DOMAIN, ''limitations_digest''),
      ([''preregistration_envelope'', ''preregistration''], DS_PREREG_DOMAIN, ''prereg_digest''),
      ([''efficiency_report''], DS_EFFICIENCY_REPORT_DOMAIN, ''efficiency_report_digest'')]"

lemma parts_are_bound:
  assumes "check_composition_and_leakage env bundle ctx leaf_lists = Inr ev" "check_plan env bundle ctx prb issuer = Inr (prereg, grade)"
    and "check_efficiency env bundle prereg = Inr (b4, b5)" "field bundle ''unsigned_manifest'' = Inr manifest"
  obtains envelope where "field bundle ''preregistration_envelope'' = Inr envelope" "field envelope ''preregistration'' = Inr prereg"
    "check_prereg_signature env manifest envelope issuer = Inr ()"
    "list_all (\<lambda>(part, domain, key). states_digest_of env bundle manifest part domain key) accepted_parts"
proof -
  obtain composition leakage_report where h: "field bundle ''composition'' = Inr composition"
    "check_composition_digest env manifest composition = Inr ()" "field bundle ''leakage_report'' = Inr leakage_report"
    "check_leakage_digest env manifest leakage_report = Inr ()"
    using composition_and_leakage_facts [OF assms(1,4)] by metis
  obtain limitations envelope where p: "field bundle ''limitations'' = Inr limitations"
    "check_limitations_digest env manifest limitations = Inr ()" "field bundle ''preregistration_envelope'' = Inr envelope"
    "check_prereg_digest env manifest envelope = Inr prereg" "check_prereg_signature env manifest envelope issuer = Inr ()"
    using plan_facts [OF assms(2,4)] by metis
  obtain report where e: "field bundle ''efficiency_report'' = Inr report" "check_efficiency_digest env manifest report = Inr ()"
    using efficiency_facts [OF assms(3,4)] by metis
  have plan: "field envelope ''preregistration'' = Inr prereg"
    "check_artifact_digest env DS_PREREG_DOMAIN ''prereg_digest'' ''PREREGISTRATION_DIGEST_MISMATCH''
       ''/preregistration_envelope/preregistration/prereg_digest'' manifest prereg = Inr ()"
    using p(4) by (auto simp: check_prereg_digest_def rbind_Inr_iff)
  have "path_to bundle [''composition''] = Inr composition" "path_to bundle [''leakage_report''] = Inr leakage_report"
    "path_to bundle [''limitations''] = Inr limitations" "path_to bundle [''efficiency_report''] = Inr report"
    "path_to bundle [''preregistration_envelope'', ''preregistration''] = Inr prereg"
    using h(1,3) p(1,3) e(1) plan(1) by simp_all
  note artifact_digest_facts [OF h(2) [unfolded check_composition_digest_def] this(1)]
    artifact_digest_facts [OF h(4) [unfolded check_leakage_digest_def] this(2)]
    artifact_digest_facts [OF p(2) [unfolded check_limitations_digest_def] this(3)]
    artifact_digest_facts [OF e(2) [unfolded check_efficiency_digest_def] this(4)] artifact_digest_facts [OF plan(2) this(5)]
  then have "list_all (\<lambda>(part, domain, key). states_digest_of env bundle manifest part domain key) accepted_parts"
    by (simp add: accepted_parts_def)
  then show ?thesis using that p(3,5) plan(1) by blast
qed

text \<open>
  C12: An accepted dataset record is bound to a process record that is itself accepted and commits to the same,
  pinned data set; its manifest states the digests of the composition, the leakage report, the limitations, the
  plan and the efficiency report; and the manifest and the plan are signed by the issuer key of that process record.
\<close>

theorem dataset_record_is_bound_and_signed:
  assumes "verify_dataset_record_certificate env bundle ctx process_record_bundle leaf_lists = Inr r"
  shows "\<exists>pr manifest issuer public_key s algorithm sig prereg s' algorithm' sig'.
    verify_process_record_certificate env process_record_bundle (ds_process_context ctx) JNull = Inr pr \<and>
    field bundle ''unsigned_manifest'' = Inr manifest \<and>
    field manifest ''process_unsigned_manifest_digest'' = Inr (JStr (unsigned_manifest_digest pr)) \<and>
    field manifest ''dataset_commitment_ref'' = Inr (JStr (ds_commitment_ref ctx)) \<and>
    result_dataset_ref pr = JStr (ds_commitment_ref ctx) \<and>
    list_all (\<lambda>(part, domain, key). states_digest_of env bundle manifest part domain key) accepted_parts \<and>
    path_to process_record_bundle [''verification_materials_v0'', ''issuer''] = Inr issuer \<and>
    material_public_key env issuer ISSUER_SPKI_DOMAIN = Inr public_key \<and> canonical_text manifest = Some s \<and>
    path_to bundle [''signature'', ''signature''] = Inr sig \<and>
    verify_signature env public_key algorithm (DS_ISSUER_SIGNATURE_DOMAIN @ 0 # utf8 s) sig = Inr () \<and>
    path_to bundle [''preregistration_envelope'', ''preregistration''] = Inr prereg \<and>
    canonical_text (without_member ''prereg_digest'' prereg) = Some s' \<and>
    path_to bundle [''preregistration_envelope'', ''signature'', ''signature''] = Inr sig' \<and>
    verify_signature env public_key algorithm' (DS_PREREG_SIGNATURE_DOMAIN @ 0 # utf8 s') sig' = Inr ()"
proof -
  obtain pr issuer ds1_basis ev prereg grade b4 b5 manifest signature where
    f: "check_bound_record env bundle ctx process_record_bundle leaf_lists = Inr (pr, issuer, ds1_basis)"
    "check_composition_and_leakage env bundle ctx leaf_lists = Inr ev" "check_plan env bundle ctx process_record_bundle issuer = Inr (prereg, grade)"
    "check_efficiency env bundle prereg = Inr (b4, b5)" "field bundle ''unsigned_manifest'' = Inr manifest"
    "field bundle ''signature'' = Inr signature" "check_manifest_digest_and_signature env manifest signature issuer = Inr ()"
    using dataset_steps_facts [OF assms] by metis
  obtain pr_unsigned where g: "verify_process_record env process_record_bundle ctx = Inr (pr, pr_unsigned)"
    "path_to process_record_bundle [''verification_materials_v0'', ''issuer''] = Inr issuer"
    "check_process_binding manifest pr = Inr ()" "check_dataset_commitment manifest pr ctx = Inr ()"
    using bound_record_facts [OF f(1,5)] by metis
  obtain envelope where p: "field bundle ''preregistration_envelope'' = Inr envelope" "field envelope ''preregistration'' = Inr prereg"
    "check_prereg_signature env manifest envelope issuer = Inr ()"
    "list_all (\<lambda>(part, domain, key). states_digest_of env bundle manifest part domain key) accepted_parts"
    by (rule parts_are_bound [OF f(2-5)])
  obtain public_key algorithm sig s where sig: "material_public_key env issuer ISSUER_SPKI_DOMAIN = Inr public_key"
    "canonical_text manifest = Some s" "field signature ''signature'' = Inr sig"
    "verify_signature env public_key algorithm (DS_ISSUER_SIGNATURE_DOMAIN @ 0 # utf8 s) sig = Inr ()"
    by (rule manifest_signature_facts [OF f(7)])
  obtain public_key' algorithm' sig' s' where plan_sig: "material_public_key env issuer ISSUER_SPKI_DOMAIN = Inr public_key'"
    "canonical_text (without_member ''prereg_digest'' prereg) = Some s'" "path_to envelope [''signature'', ''signature''] = Inr sig'"
    "verify_signature env public_key' algorithm' (DS_PREREG_SIGNATURE_DOMAIN @ 0 # utf8 s') sig' = Inr ()"
    by (rule plan_signature_facts [OF p(3,2)])
  have "verify_process_record_certificate env process_record_bundle (ds_process_context ctx) JNull = Inr pr"
    using g(1) by (auto simp: verify_process_record_def rbind_Inr_iff)
  moreover have "field manifest ''process_unsigned_manifest_digest'' = Inr (JStr (unsigned_manifest_digest pr))"
    using g(3) by (simp add: check_process_binding_def must_equal_at_text)
  moreover have "field manifest ''dataset_commitment_ref'' = Inr (JStr (ds_commitment_ref ctx))"
    "result_dataset_ref pr = JStr (ds_commitment_ref ctx)"
    using g(4) by (auto simp: check_dataset_commitment_def Let_def rbind_Inr_iff must_equal_at_text)
  moreover have "path_to bundle [''signature'', ''signature''] = Inr sig"
    "path_to bundle [''preregistration_envelope'', ''preregistration''] = Inr prereg"
    "path_to bundle [''preregistration_envelope'', ''signature'', ''signature''] = Inr sig'"
    using f(6) sig(3) p(1,2) plan_sig(3) by simp_all
  moreover have "public_key' = public_key" using sig(1) plan_sig(1) by simp
  ultimately show ?thesis using f(5) p(4) g(2) sig plan_sig by blast
qed

section \<open>Claims\<close>

lemma support_tally:
  assumes "ds_check_support_rows env manifest identity rows bases = Inr (d, tally)"
  shows "claims_verified tally = map fst (filter (\<lambda>cb. snd cb = ''issuer_verified'') bases)"
    "claims_declared tally = map fst (filter (\<lambda>cb. snd cb = ''client_declared'') bases)"
    "claims_abstained tally = map fst (filter (\<lambda>cb. snd cb = ''abstained'') bases)"
  using assms unfolding ds_check_support_rows_def Let_def by (auto simp: rbind_Inr_iff)

lemma ds2_values:
  "derive_ds2 env identity composition leaf_lists = Inr (e, b) \<Longrightarrow>
   (e = ''cell_roots_recomputed'' \<and> b = ''issuer_verified'' \<and> json_truthy leaf_lists) \<or>
   (e = ''declared_counts_only'' \<and> b = ''client_declared'')"
  by (auto simp: derive_ds2_def rbind_Inr_iff split: if_splits)

lemma ds3_values:
  "derive_ds3 ctx report attestation leaf_lists corpora consistent = Inr (e, b) \<Longrightarrow>
   (\<not> json_truthy leaf_lists \<longrightarrow> b = ''abstained'') \<and>
   (b = ''abstained'' \<or> b = ''issuer_verified'' \<and> e = ''generation_attested'' \<or> b = ''client_declared'')"
  by (auto simp: derive_ds3_def Let_def rbind_Inr_iff split: if_splits)

lemma ds1_values: "check_identity identity ctx = Inr b \<Longrightarrow> b = ''abstained'' \<or> b = ''issuer_verified''"
  by (auto simp: check_identity_def Let_def rbind_Inr_iff split: if_splits option.splits)

definition results_in :: "('a \<Rightarrow> bool) \<Rightarrow> 'e + 'a \<Rightarrow> bool" where
  "results_in P m \<longleftrightarrow> (\<forall>x. m = Inr x \<longrightarrow> P x)"

lemma results_in_rbind: "(\<And>x. results_in P (f x)) \<Longrightarrow> results_in P (rbind m f)"
  by (auto simp: results_in_def rbind_Inr_iff)

lemma result_facts:
  assumes "dataset_result_of bundle ev grade tally = Inr r"
  shows "dr_tallies r = tally" "dr_code r = success_code tally" "composition_evidence r = ev_composition ev"
    "disjointness_evidence r = ev_disjointness ev"
proof -
  have "results_in (\<lambda>r. dr_tallies r = tally \<and> dr_code r = success_code tally \<and> composition_evidence r = ev_composition ev \<and>
      disjointness_evidence r = ev_disjointness ev) (dataset_result_of bundle ev grade tally)"
    unfolding dataset_result_of_def by (intro results_in_rbind) (simp add: results_in_def make_dataset_result_def)
  then show "dr_tallies r = tally" "dr_code r = success_code tally" "composition_evidence r = ev_composition ev"
    "disjointness_evidence r = ev_disjointness ev"
    using assms by (simp_all add: results_in_def)
qed

lemma three_way_split:
  assumes "list_all (\<lambda>x. snd x = a \<or> snd x = b \<or> snd x = c) xs" "a \<noteq> b" "a \<noteq> c" "b \<noteq> c"
  shows "mset (map fst (filter (\<lambda>x. snd x = a) xs) @ map fst (filter (\<lambda>x. snd x = b) xs) @ map fst (filter (\<lambda>x. snd x = c) xs)) =
    mset (map fst xs)"
  using assms by (induction xs) auto

lemma bases_differ: "''issuer_verified'' \<noteq> ''client_declared''" "''issuer_verified'' \<noteq> ''abstained''" "''client_declared'' \<noteq> ''abstained''"
  "''cell_roots_recomputed'' \<noteq> ''declared_counts_only''"
  by simp_all

lemma claims_differ: "distinct [''DS1'', ''DS2'', ''DS3'', ''DS4'', ''DS5'']"
  by simp


section \<open>Codes\<close>

definition located_code :: "cert_error \<Rightarrow> bool" where
  "located_code e \<longleftrightarrow> (case e of Located code l \<Rightarrow> code \<in> set DATASET_RECORD_ERROR_CODES | _ \<Rightarrow> True)"

lemma located_code_plain [simp]: "located_code PyKeyErr" "located_code PyTypeErr" "located_code OtherErr" "located_code PyValueErr"
  "located_code SchemaDependency" "located_code (Failed code)"
  by (simp_all add: located_code_def)

lemma located_codes [simp]:
  "located_code (Located ''CONTEXT'' l)" "located_code (Located ''BUNDLE_SHAPE'' l)" "located_code (Located ''SCHEMA'' l)"
  "located_code (Located ''SCHEMA_DEPENDENCY'' l)" "located_code (Located ''STRICT_INTEGER'' l)"
  "located_code (Located ''CANONICALIZATION'' l)" "located_code (Located ''VERIFICATION_FAILED'' l)"
  "located_code (Located ''LEAF_LIST_SHAPE'' l)" "located_code (Located ''PROCESS_RECORD_INVALID'' l)"
  "located_code (Located ''SCOPE_BINDING_MISMATCH'' l)" "located_code (Located ''PROCESS_MANIFEST_DIGEST_MISMATCH'' l)"
  "located_code (Located ''DATASET_COMMITMENT_REF_MISMATCH'' l)" "located_code (Located ''DATASET_IDENTITY_MISMATCH'' l)"
  "located_code (Located ''IDENTITY_EPOCH_INCONSISTENT'' l)" "located_code (Located ''REF_NOT_DERIVED'' l)"
  "located_code (Located ''KEY_RING_MISMATCH'' l)" "located_code (Located ''UNSIGNED_MANIFEST_DIGEST_MISMATCH'' l)"
  "located_code (Located ''ISSUER_SIGNATURE_INVALID'' l)" "located_code (Located ''TAXONOMY_DIGEST_MISMATCH'' l)"
  "located_code (Located ''METHOD_REGISTRY_DIGEST_MISMATCH'' l)" "located_code (Located ''TAXONOMY_TERM_UNREGISTERED'' l)"
  "located_code (Located ''COMPOSITION_DIGEST_MISMATCH'' l)" "located_code (Located ''STRATUM_PARTITION_MISMATCH'' l)"
  "located_code (Located ''COMPOSITION_CELL_ROOT_MISMATCH'' l)" "located_code (Located ''COMPOSITION_CELL_COUNT_MISMATCH'' l)"
  "located_code (Located ''LEAKAGE_REPORT_DIGEST_MISMATCH'' l)" "located_code (Located ''LEAKAGE_BASIS_COUPLING'' l)"
  "located_code (Located ''LEAKAGE_SCOPE_MISMATCH'' l)" "located_code (Located ''LEAF_LIST_DIGEST_MISMATCH'' l)"
  "located_code (Located ''LEAKAGE_OVERLAP_MISMATCH'' l)" "located_code (Located ''SPLIT_DISJOINTNESS_VIOLATION'' l)"
  "located_code (Located ''LEAF_GENERATION_ATTESTATION_MISSING'' l)" "located_code (Located ''LEAF_SCOPE_BLIND_MISMATCH'' l)"
  "located_code (Located ''LEAF_COMPLETENESS_MISMATCH'' l)" "located_code (Located ''LIMITATIONS_DIGEST_MISMATCH'' l)"
  "located_code (Located ''LIMITATION_OMITTED'' l)" "located_code (Located ''LIMITATION_BASIS_COUPLING'' l)"
  "located_code (Located ''PREREGISTRATION_DIGEST_MISMATCH'' l)" "located_code (Located ''PREREGISTRATION_SIGNATURE_INVALID'' l)"
  "located_code (Located ''PREREGISTRATION_SCOPE_VIOLATION'' l)" "located_code (Located ''PREREGISTRATION_ORDER'' l)"
  "located_code (Located ''PREREGISTRATION_GRADE_MISMATCH'' l)" "located_code (Located ''PREREGISTRATION_GRADE_UNSUPPORTED'' l)"
  "located_code (Located ''EFFICIENCY_REPORT_DIGEST_MISMATCH'' l)" "located_code (Located ''INTERVAL_ORDER'' l)"
  "located_code (Located ''INTERVAL_METHOD_COUPLING'' l)" "located_code (Located ''INTERVAL_METHOD_QUANTITY_MISMATCH'' l)"
  "located_code (Located ''SAMPLE_SIZE_INSUFFICIENT'' l)" "located_code (Located ''INFORMATION_UNIT_RANGE'' l)"
  "located_code (Located ''INERT_FRACTION_MISMATCH'' l)" "located_code (Located ''DECISIVE_SUBSET_BOUND'' l)"
  "located_code (Located ''COST_EFFICIENCY_MISMATCH'' l)" "located_code (Located ''LATENCY_EFFICIENCY_MISMATCH'' l)"
  "located_code (Located ''NON_CLAIMS_MISMATCH'' l)" "located_code (Located ''CLAIM_SUPPORT_ROW_MISMATCH'' l)"
  "located_code (Located ''CLAIM_NOT_VERIFIED'' l)"
  by (simp_all add: located_code_def DATASET_RECORD_ERROR_CODES_def)

lemma located_access [errors_intros]:
  "errors_in located_code (subscript t k)" "errors_in located_code (path_to t ks)" "errors_in located_code (iterate t)"
  "errors_in located_code (get_item t k')"
  by (rule access_errors [THEN errors_in_mono], auto simp: access_error_def)+

lemma errors_in_fail_at [errors_intros]: "P (Located code loc) \<Longrightarrow> errors_in P (fail_at b code loc)"
  by (cases b) (auto simp: errors_in_def)

lemma errors_in_must_equal_at [errors_intros]:
  "errors_in P a \<Longrightarrow> errors_in P b \<Longrightarrow> P (Located code loc) \<Longrightarrow> errors_in P (must_equal_at code loc a b)"
  unfolding must_equal_at_def by (intro errors_intros)

lemma errors_in_recast_at [errors_intros]: "errors_in P r \<Longrightarrow> P (Located code loc) \<Longrightarrow> errors_in P (recast_at caught code loc r)"
  by (cases r) (auto simp: errors_in_def recast_at_def)

lemma errors_in_check_indexed [errors_intros]: "(\<And>i x. errors_in P (f i x)) \<Longrightarrow> errors_in P (check_indexed f i xs)"
  by (induction xs arbitrary: i) (auto intro!: errors_intros)

lemma errors_in_fold_indexed [errors_intros]: "(\<And>i s x. errors_in P (f i s x)) \<Longrightarrow> errors_in P (fold_indexed f i s xs)"
  by (induction xs arbitrary: i s) (auto intro!: errors_intros)

lemma located_scalars [errors_intros]: "errors_in located_code (in_names ns t)" "errors_in located_code (get_by t u)"
  "errors_in located_code (as_num t)" "errors_in located_code (encoded t)" "errors_in located_code (set_key t)"
  "errors_in located_code (registered doc key t)" "errors_in located_code (seen t ts)" "errors_in located_code (pack_u64 n)"
  "errors_in located_code (leaves_by corpora t)" "errors_in located_code (expected_unit t)"
  by (auto simp: errors_in_def in_names_def get_by_def as_num_def encoded_def set_key_def registered_def seen_def pack_u64_def
      leaves_by_def expected_unit_def split: json.splits option.splits)

lemma located_lists [errors_intros]: "errors_in located_code (list_field t key)" "errors_in located_code (num_field t key)"
  "errors_in located_code (field_is t key v)" "errors_in located_code (zero_field t key)"
  unfolding list_field_def num_field_def field_is_def zero_field_def by (intro errors_intros)+

lemma json_case_error: "(case t of JStr s \<Rightarrow> Inr (f s) | _ \<Rightarrow> Inl PyTypeErr) = Inl e \<Longrightarrow> (e = PyTypeErr \<Longrightarrow> P) \<Longrightarrow> P"
  by (cases t) auto

lemma located_digests [errors_intros]: "errors_in located_code (ds_role_digest env domain t)"
  "errors_in located_code (ds_canonical_material domain t)" "errors_in located_code (leaf_list_digest env leaves)"
  "errors_in located_code (ds_utc_microseconds t)" "errors_in located_code (leaf_of t)"
proof -
  show "errors_in located_code (ds_utc_microseconds t)" by (cases t) (auto simp: errors_in_def ds_utc_microseconds_def split: sum.splits)
  show "errors_in located_code (leaf_of t)"
    by (auto simp: leaf_of_def intro!: errors_intros) (auto simp: errors_in_def elim!: json_case_error)
qed (auto simp: errors_in_def ds_role_digest_def ds_canonical_material_def leaf_list_digest_def split: option.splits)

lemma located_refs [errors_intros]: "errors_in located_code (derive_ref env prefix domain parts)"
  "errors_in located_code (derive_corpus_ref env leaf_root scope)" "errors_in located_code (derive_leakage_scope_ref env c)"
  "errors_in located_code (expected_dataset_ref env identity)" "errors_in located_code (artifact_digest env domain key t)"
proof -
  show r: "errors_in located_code (derive_ref env prefix domain parts)" for prefix domain parts
    unfolding derive_ref_def ds_length_prefixed_def by (intro errors_intros)
  show "errors_in located_code (derive_corpus_ref env leaf_root scope)" "errors_in located_code (derive_leakage_scope_ref env c)"
    "errors_in located_code (expected_dataset_ref env identity)" "errors_in located_code (artifact_digest env domain key t)"
    unfolding derive_corpus_ref_def derive_leakage_scope_ref_def expected_dataset_ref_def derive_dataset_ref_def
      derive_dataset_ref_from_item_set_def artifact_digest_def
    by (intro errors_intros r; simp)+
qed

lemma located_artifacts [errors_intros]: "located_code (Located code l) \<Longrightarrow> located_code (Located code l') \<Longrightarrow>
  errors_in located_code (check_artifact_digest env domain key code own manifest t)"
  unfolding check_artifact_digest_def by (intro errors_intros) (simp_all add: located_code_def)

lemma located_crypto [errors_intros]: "errors_in located_code (material_public_key env t domain)"
  "errors_in located_code (verify_signature env key algorithm material sig)"
proof -
  have "errors_in located_code (decode_signature sig)"
    by (auto simp: errors_in_def decode_signature_def split: json.splits option.splits)
  then show "errors_in located_code (verify_signature env key algorithm material sig)"
    unfolding verify_signature_def Let_def by (cases key) (auto intro!: errors_intros)
  show "errors_in located_code (material_public_key env t domain)"
    unfolding material_public_key_def by (intro errors_intros) (auto intro!: errors_intros split: json.splits option.splits)
qed

lemma errors_in_check_all_mem: "(\<And>x. x \<in> set xs \<Longrightarrow> errors_in P (f x)) \<Longrightarrow> errors_in P (check_all f xs)"
  by (induction xs) (auto intro!: errors_in_rbind errors_in_Inr)

lemma located_integers: "errors_in located_code (walk_strict_integers loc t)"
  by (induction loc t rule: walk_strict_integers.induct) (auto intro!: errors_in_check_all_mem errors_in_Inr errors_in_Inl)

lemma located_schema [errors_intros]: "errors_in located_code (ds_validate_schema env b)"
  "errors_in located_code (leaf_list_projection_error env name t)"
  by (auto simp: errors_in_def ds_validate_schema_def leaf_list_projection_error_def split: schema_outcome.splits)

lemma located_process [errors_intros]: "errors_in located_code (verify_process_record env b ctx)"
proof -
  have "errors_in located_code (verify_process_record_certificate env b pctx ts)" for pctx ts
    unfolding verify_process_record_certificate_def
    by (intro errors_intros) (auto simp: errors_in_def recast_def is_failed_def split: sum.splits)
  then show ?thesis unfolding verify_process_record_def by (intro errors_intros) simp_all
qed

lemma located_json_case: "errors_in P (case t of JArr ts \<Rightarrow> Inr ts | _ \<Rightarrow> Inl (Located code l))" if "P (Located code l)"
  using that by (cases t) (auto simp: errors_in_def)

lemma located_bindings [errors_intros]:
  "errors_in located_code (check_scope_binding env m u ctx)" "errors_in located_code (check_process_binding m pr)"
  "errors_in located_code (check_dataset_commitment m pr ctx)" "errors_in located_code (check_identity i ctx)"
  "errors_in located_code (check_derived_dataset_ref env i)" "errors_in located_code (check_leaf_list_input env i ll)"
  unfolding check_scope_binding_def check_process_binding_def check_dataset_commitment_def check_identity_def
    check_derived_dataset_ref_def check_leaf_list_input_def check_leaf_list_entry_def project_leaf_list_row_def Let_def
  by (intro errors_intros located_json_case; simp)+

lemma located_derived [errors_intros]:
  "errors_in located_code (check_derived_refs env m ll a)" "errors_in located_code (check_taxonomy_and_registry_pins env m)"
  "errors_in located_code (check_report_registry_identities m c l)" "errors_in located_code (check_composition_digest env m c)"
  "errors_in located_code (check_declared_partition i c)" "errors_in located_code (check_composition_vocabulary c)"
  unfolding check_derived_refs_def check_attestation_derived_refs_def check_leaf_list_derived_refs_def
    check_taxonomy_and_registry_pins_def check_report_registry_identities_def check_composition_digest_def check_declared_partition_def
    partition_cell_def cell_key_def check_composition_vocabulary_def Let_def
  by (intro errors_intros; simp)+

lemma located_composition [errors_intros]: "errors_in located_code (derive_ds2 env i c ll)"
  unfolding derive_ds2_def check_cell_roots_def check_cell_root_def tagged_leaf_def cell_key_def Let_def
  by (intro errors_intros) simp_all

lemma located_relevance [errors_intros]: "errors_in located_code (relevant f)" "errors_in located_code (ds3_relevant_corpus_refs l)"
  unfolding ds3_relevant_corpus_refs_def relevant_def by (intro errors_intros)+

lemma located_leakage [errors_intros]:
  "errors_in located_code (check_leakage_digest env m l)" "errors_in located_code (check_leakage_basis_coupling l)"
  "errors_in located_code (check_leakage_scope_pin i ctx)" "errors_in located_code (check_leakage_scope i l ll)"
  "errors_in located_code (check_leaf_list_digests env i l ll)" "errors_in located_code (check_overlap_and_disjointness l corpora)"
  unfolding check_leakage_digest_def check_leakage_basis_coupling_def check_leakage_scope_pin_def check_leakage_scope_def
    check_leaf_list_digests_def declared_for_def check_overlap_and_disjointness_def check_overlap_finding_def Let_def
  by (intro errors_intros; simp)+

lemma located_attestation [errors_intros]:
  "errors_in located_code (check_corpus_ref_descriptors env i l a)"
  "errors_in located_code (check_leaf_generation_attestation env m l a corpora)"
  unfolding check_corpus_ref_descriptors_def collect_digest_descriptor_counts_def collect_digest_descriptor_def
    collect_attestation_leaf_counts_def collect_attestation_leaf_count_def check_cross_list_leaf_counts_def
    check_leaf_generation_attestation_def check_attestation_absent_def check_attestation_digest_bindings_def check_attested_corpus_def Let_def
  by (intro errors_intros; simp)+

lemma located_pair [errors_intros]: "errors_in located_code (pair_key f)"
  unfolding pair_key_def by (intro errors_intros) (auto simp: errors_in_def split: json.splits)

lemma located_ds3 [errors_intros]: "errors_in located_code (derive_ds3 ctx l a ll corpora consistent)"
  unfolding derive_ds3_def ds3_disjointness_established_def add_pair_def oversized_def Let_def
  by (intro errors_intros) simp_all

lemma located_limitations [errors_intros]:
  "errors_in located_code (check_limitations_digest env m l)" "errors_in located_code (check_derivable_limitations c l)"
  "errors_in located_code (check_limitation_basis_coupling l)"
  unfolding check_limitations_digest_def check_derivable_limitations_def check_limitation_basis_coupling_def Let_def
  by (intro errors_intros; simp)+

lemma located_plan [errors_intros]:
  "errors_in located_code (check_prereg_digest env m e)" "errors_in located_code (check_prereg_signature env m e i)"
  "errors_in located_code (check_prereg_coverage p)" "errors_in located_code (check_applied_policy p r)"
  "errors_in located_code (check_ordering m p b)" "errors_in located_code (check_evidence_grade m p ctx)"
  unfolding check_prereg_digest_def check_prereg_signature_def check_prereg_coverage_def check_applied_policy_def check_ordering_def
    observed_values_def check_evidence_grade_def Let_def
  by (intro errors_intros; simp)+

lemma located_containment [errors_intros]: "errors_in located_code (check_containment p r l)"
  unfolding check_containment_def check_estimate_containment_def check_interval_plan_scope_def check_near_duplicate_containment_def Let_def
  by (intro errors_intros) simp_all

lemma located_efficiency [errors_intros]:
  "errors_in located_code (check_efficiency_digest env m r)" "errors_in located_code (check_estimate_shape e location)"
  "errors_in located_code (check_information_range r p i)" "errors_in located_code (check_inert_fraction i r)"
  "errors_in located_code (check_decisive_subset i r)" "errors_in located_code (check_cost_and_latency r)"
  "errors_in located_code (check_ds4_method l p)" "errors_in located_code (ds_check_non_claims m)"
  unfolding check_efficiency_digest_def check_estimate_shape_def check_information_range_def check_inert_fraction_def
    check_decisive_subset_def check_cost_and_latency_def check_ratio_def check_ds4_method_def ds_check_non_claims_def Let_def
  by (intro errors_intros; simp)+

lemma located_rows [errors_intros]: "errors_in located_code (ds_check_support_rows env m i rows bases)"
  unfolding ds_check_support_rows_def row_of_def ds_check_support_row_def expected_evidence_digest_def check_evidence_ref_def Let_def
  by (intro errors_intros) simp_all

lemma located_signature [errors_intros]: "errors_in located_code (check_manifest_digest_and_signature env m s i)"
  unfolding check_manifest_digest_and_signature_def by (intro errors_intros) simp_all

lemma located_result [errors_intros]: "errors_in located_code (dataset_result_of b ev grade tally)"
  unfolding dataset_result_of_def make_dataset_result_def by (intro errors_intros) simp_all

lemma located_steps: "errors_in located_code (verify_dataset_steps env b ctx prb ll)"
  unfolding verify_dataset_steps_def check_bound_record_def check_composition_and_leakage_def check_plan_def check_efficiency_def
    attested_findings_def ds_check_strict_integers_def Let_def
  by (intro errors_intros located_integers) simp_all

text \<open>
  C17: A rejected dataset record is rejected with one of the 56 codes of the vocabulary and a location, whatever
  the bundle, the process record and the leaf lists are.
\<close>

theorem dataset_record_errors:
  assumes "verify_dataset_record_certificate env bundle ctx process_record_bundle leaf_lists = Inl e"
  shows "\<exists>code loc. e = Located code loc \<and> code \<in> set DATASET_RECORD_ERROR_CODES"
proof -
  have l: "is_located e \<longleftrightarrow> (\<exists>code loc. e = Located code loc)" for e by (cases e) (auto simp: is_located_def)
  have code: "located_code (Located code loc) \<longleftrightarrow> code \<in> set DATASET_RECORD_ERROR_CODES" for code loc by (simp add: located_code_def)
  have "located_code (Located ''BUNDLE_SHAPE'' [])" "located_code (Located ''VERIFICATION_FAILED'' [])" by simp_all
  moreover have "code \<in> set DATASET_RECORD_ERROR_CODES" if "verify_dataset_steps env b ctx prb ll = Inl (Located code loc)"
    for env b ctx prb ll code loc
    using errors_inD [OF located_steps that] by (simp add: code)
  ultimately show ?thesis using assms
    by (auto simp: verify_dataset_record_certificate_def rbind_Inl_iff recast_at_def fail_at_def raise_if_def l code
        split: if_splits sum.splits)
qed

end
