(* ===== verification/DatasetDemo.thy ===== *)
theory DatasetDemo
  imports DatasetLaws ProcessDemo
begin

text \<open>
  A dataset record over the accepted process record that the verifier accepts without leaf lists, two corpora and a
  composition supplied as leaf lists, and the witnesses over them.
\<close>

section \<open>Small inputs\<close>

lemma must_equal_at_values: "must_equal_at code loc (Inr x) (Inr y) = fail_at (\<not> py_eq x y) code loc"
  by (simp add: must_equal_at_def)

definition sample_plan :: json where
  "sample_plan = JObj [(U ''registered_at'', jstr ''2026-01-01T12:00:00Z'')]"

definition sample_receipt :: json where
  "sample_receipt = JObj [(U ''step_id'', jstr ''evaluate''), (U ''observed_at'', jstr ''2026-01-02T00:00:00Z'')]"

definition sample_receipts :: json where
  "sample_receipts = JObj [(U ''decision_stream'', JArr [sample_receipt]), (U ''receipt_event_stream'', JArr []), (U ''transition_stream'', JArr [])]"

theorem plan_precedes_results_witness:
  "\<exists>registered observed. utc_microseconds (U ''2026-01-01T12:00:00Z'') = Inr registered \<and>
     utc_microseconds (U ''2026-01-02T00:00:00Z'') = Inr observed \<and> registered < observed"
proof -
  obtain a b where t: "utc_microseconds (U ''2026-01-01T12:00:00Z'') = Inr a" "utc_microseconds (U ''2026-01-02T00:00:00Z'') = Inr b"
    "b - a = 43200000000" using demo_times by blast
  define manifest where "manifest = JObj [(U ''prereg_registered_at'', jstr ''2026-01-01T12:00:00Z'')]"
  define pbundle where "pbundle = JObj [(U ''receipts'', sample_receipts)]"
  have streams: "traverse (list_field sample_receipts) STREAM_IDS = Inr [[sample_receipt], [], []]"
    by (simp add: STREAM_IDS_def list_field_def sample_receipts_def)
  have receipt: "field sample_receipt ''step_id'' = Inr (jstr ''evaluate'')"
    "field sample_receipt ''observed_at'' = Inr (jstr ''2026-01-02T00:00:00Z'')" by (simp_all add: sample_receipt_def)
  have "observed_values pbundle = Inr [b]"
    by (simp add: observed_values_def pbundle_def streams receipt in_names_def ORDERING_STEP_IDS_def ds_utc_microseconds_def t)
  then have "check_ordering manifest sample_plan pbundle = Inr ()"
    using t by (simp add: check_ordering_def sample_plan_def manifest_def ds_utc_microseconds_def)
  from plan_precedes_results [OF this _ streams _ receipt(1)]
  show ?thesis by (auto simp: pbundle_def sample_plan_def sample_receipt_def t)
qed

definition sample_efficiency :: json where
  "sample_efficiency = JObj
     [(U ''inert_item_count'', JInt 1), (U ''inert_fraction_ppm'', JInt 333333), (U ''full_pass_cost_microusd'', JInt 4),
      (U ''decisive_subset_cost_microusd'', JInt 3), (U ''cost_efficiency_ppm'', JInt 750000), (U ''full_pass_latency_us'', JInt 0),
      (U ''decisive_subset_latency_us'', JInt 0), (U ''latency_efficiency_ppm'', JInt 0)]"

theorem efficiency_ratios_in_range_witness:
  "is_ppm_of (JInt 333333) 1 3 \<and> is_ppm_of (JInt 750000) 3 4 \<and> is_ppm_of (JInt 0) 0 0"
proof -
  define identity where "identity = JObj [(U ''item_count'', JInt 3)]"
  have "check_inert_fraction identity sample_efficiency = Inr ()"
    by (simp add: check_inert_fraction_def sample_efficiency_def identity_def num_field_def as_num_def must_equal_at_values)
  moreover have "check_cost_and_latency sample_efficiency = Inr ()"
    by (simp add: check_cost_and_latency_def check_ratio_def sample_efficiency_def num_field_def as_num_def must_equal_at_values)
  moreover have "num_field sample_efficiency ''inert_item_count'' = Inr 1" "num_field identity ''item_count'' = Inr 3"
    "num_field sample_efficiency ''full_pass_cost_microusd'' = Inr 4" "num_field sample_efficiency ''decisive_subset_cost_microusd'' = Inr 3"
    "num_field sample_efficiency ''full_pass_latency_us'' = Inr 0" "num_field sample_efficiency ''decisive_subset_latency_us'' = Inr 0"
    by (simp_all add: sample_efficiency_def identity_def num_field_def as_num_def)
  ultimately show ?thesis using efficiency_ratios_in_range [of identity sample_efficiency 1 3 4 3 0 0] by (auto simp: sample_efficiency_def)
qed

definition leaf_entry :: "string \<Rightarrow> string \<Rightarrow> json" where
  "leaf_entry leaf stratum = JObj [(U ''leaf'', jstr leaf), (U ''category_id'', jstr ''arithmetic''), (U ''difficulty_stratum'', jstr stratum)]"

definition sample_cell :: "string \<Rightarrow> int \<Rightarrow> json" where
  "sample_cell stratum n = JObj [(U ''category_id'', jstr ''arithmetic''), (U ''difficulty_stratum'', jstr stratum), (U ''item_count'', JInt n),
     (U ''cell_leaf_root'', JStr dig)]"

lemma demo_ds_digest: "good 100 t \<Longrightarrow> ds_role_digest demo_env domain t = Inr dig"
  by (simp add: ds_role_digest_def good_text) (simp add: demo_env_def dig_def)

theorem recomputed_cells_partition_witness:
  "\<exists>tagged. traverse tagged_leaf [leaf_entry ''l1'' ''s1_easy'', leaf_entry ''l2'' ''s3_hard'', leaf_entry ''l3'' ''s1_easy''] = Inr tagged \<and>
     int (length tagged) = 2 + 1 \<and> mset (map snd tagged) = mset (map U [''l1'', ''l2'', ''l3''])"
proof -
  let ?entries = "[leaf_entry ''l1'' ''s1_easy'', leaf_entry ''l2'' ''s3_hard'', leaf_entry ''l3'' ''s1_easy'']"
  let ?cells = "[sample_cell ''s1_easy'' 2, sample_cell ''s3_hard'' 1]"
  define identity where "identity = JObj [(U ''item_count'', JInt 3), (U ''dataset_ref'', jstr ''dsr''), (U ''item_set_root'', JStr dig)]"
  define composition where "composition = JObj [(U ''cells'', JArr ?cells), (U ''populated_cell_count'', JInt 2)]"
  define leaf_lists where "leaf_lists = JObj [(U ''dsr'', JArr ?entries)]"
  define easy where "easy = (jstr ''arithmetic'', jstr ''s1_easy'')"
  define hard where "hard = (jstr ''arithmetic'', jstr ''s3_hard'')"
  have keys: "cell_key (sample_cell ''s1_easy'' n) = Inr easy" "cell_key (sample_cell ''s3_hard'' n) = Inr hard"
    "cell_key (leaf_entry s ''s1_easy'') = Inr easy" "cell_key (leaf_entry s ''s3_hard'') = Inr hard" for n s
    by (simp_all add: cell_key_def sample_cell_def leaf_entry_def easy_def hard_def)
  have cell: "num_field (sample_cell st n) ''item_count'' = Inr n" "field (sample_cell st n) ''item_count'' = Inr (JInt n)"
    "field (sample_cell st n) ''cell_leaf_root'' = Inr (JStr dig)" "leaf_of (leaf_entry s st) = Inr (U s)" for st n s
    by (simp_all add: sample_cell_def num_field_def as_num_def leaf_of_def leaf_entry_def)
  have same: "same_key easy easy" "same_key hard hard" "\<not> same_key easy hard" "\<not> same_key hard easy"
    by (simp_all add: same_key_def easy_def hard_def)
  have fields: "list_field composition ''cells'' = Inr ?cells" "field composition ''populated_cell_count'' = Inr (JInt 2)"
    "field identity ''item_count'' = Inr (JInt 3)" "field identity ''item_set_root'' = Inr (JStr dig)"
    "rbind (field identity ''dataset_ref'') (get_by leaf_lists) = Inr (JArr ?entries)"
    by (simp_all add: composition_def identity_def leaf_lists_def list_field_def get_by_def)
  have tags: "tagged_leaf (leaf_entry s ''s1_easy'') = Inr (easy, U s)" "tagged_leaf (leaf_entry s ''s3_hard'') = Inr (hard, U s)" for s
    by (simp_all add: tagged_leaf_def cell keys)
  have digest: "ds_role_digest demo_env domain (JArr (map JStr (sort ls))) = Inr dig" if "set ls \<subseteq> {U ''l1'', U ''l2'', U ''l3''}" for domain ls
  proof (rule demo_ds_digest)
    have "fine (JStr s)" if "s \<in> {U ''l1'', U ''l2'', U ''l3''}" for s using that by (auto simp: fine_literal)
    then show "good 100 (JArr (map JStr (sort ls)))" using that by (auto simp: good_JArr good_scalar list_all_iff)
  qed
  have part: "check_declared_partition identity composition = Inr ()"
    by (simp add: check_declared_partition_def Let_def fields MAX_CELLS_def partition_cell_def keys cell same must_equal_at_values)
  have "ds_role_digest demo_env domain (JArr (map JStr (sort [U ''l1'', U ''l3'']))) = Inr dig"
    "ds_role_digest demo_env domain (JArr (map JStr (sort [U ''l2'']))) = Inr dig"
    "ds_role_digest demo_env domain (JArr (map JStr (sort [U ''l1'', U ''l2'', U ''l3'']))) = Inr dig" for domain
    by (rule digest; simp)+
  then have "check_cell_roots demo_env identity composition leaf_lists = Inr True"
    by (simp add: check_cell_roots_def fields tags check_cell_root_def Let_def keys cell leaves_of_cell_def same must_equal_at_values)
  from recomputed_cells_partition [OF part this] fields(1,5) show ?thesis
    by (auto simp: cell tags)
qed

definition corpus_entry :: "string \<Rightarrow> int \<Rightarrow> json" where
  "corpus_entry ref n = JObj [(U ''corpus_ref'', jstr ref), (U ''leaf_count'', JInt n), (U ''leaf_list_digest'', JStr dig)]"

definition sample_finding :: json where
  "sample_finding = JObj [(U ''finding_kind'', jstr ''split_disjointness''), (U ''corpus_a_ref'', jstr ''cpr:b''), (U ''corpus_b_ref'', jstr ''cpr:a''),
     (U ''disjointness_asserted'', JBool True), (U ''overlap_count'', JInt 0)]"

definition sample_leakage :: json where
  "sample_leakage = JObj [(U ''leaf_list_digests'', JArr [corpus_entry ''cpr:a'' 2, corpus_entry ''cpr:b'' 1]), (U ''findings'', JArr [sample_finding])]"

definition sample_attestation :: json where
  "sample_attestation = JObj [(U ''corpora'', JArr [corpus_entry ''cpr:a'' 2, corpus_entry ''cpr:b'' 1])]"

definition only_leaf :: "string \<Rightarrow> json" where
  "only_leaf leaf = JObj [(U ''leaf'', jstr leaf)]"

definition sample_lists :: json where
  "sample_lists = JObj [(U ''dsr'', JArr []), (U ''cpr:a'', JArr [only_leaf ''l1'', only_leaf ''l2'']), (U ''cpr:b'', JArr [only_leaf ''l3''])]"

definition sample_ctx :: dataset_context where
  "sample_ctx = \<lparr>ds_process_context = demo_process_context\<lparr>allow_unchecked_base_status := True\<rparr>, ds_project_ref = U ''p1'',
     ds_build_session_ref = U ''ses'', ds_commitment_ref = dig, ds_identity_root = Some dig, ds_blind_epoch = 3, ds_leakage_scope_ref = U ''lsr:x'',
     ds_prereg_pin = None, require_leaf_lists = False\<rparr>"

theorem verified_corpora_are_disjoint_witness:
  "\<exists>la lb. supplied_leaves demo_env sample_leakage sample_lists (U ''cpr:b'') la \<and>
     supplied_leaves demo_env sample_leakage sample_lists (U ''cpr:a'') lb \<and> set la \<inter> set lb = {} \<and>
     attested_corpus sample_attestation (U ''cpr:b'')"
proof -
  define identity where "identity = JObj [(U ''dataset_ref'', jstr ''dsr'')]"
  have entry: "field (corpus_entry r n) ''corpus_ref'' = Inr (jstr r)" "field (corpus_entry r n) ''leaf_count'' = Inr (JInt n)"
    "field (corpus_entry r n) ''leaf_list_digest'' = Inr (JStr dig)" "leaf_of (only_leaf s) = Inr (U s)" for r n s
    by (simp_all add: corpus_entry_def leaf_of_def only_leaf_def)
  have report: "list_field sample_leakage ''leaf_list_digests'' = Inr [corpus_entry ''cpr:a'' 2, corpus_entry ''cpr:b'' 1]"
    "list_field sample_leakage ''findings'' = Inr [sample_finding]"
    "list_field sample_attestation ''corpora'' = Inr [corpus_entry ''cpr:a'' 2, corpus_entry ''cpr:b'' 1]"
    by (simp_all add: list_field_def sample_leakage_def sample_attestation_def)
  have finding: "field sample_finding ''finding_kind'' = Inr (jstr ''split_disjointness'')" "field sample_finding ''corpus_a_ref'' = Inr (jstr ''cpr:b'')"
    "field sample_finding ''corpus_b_ref'' = Inr (jstr ''cpr:a'')" "get_item sample_finding ''disjointness_asserted'' = Inr (JBool True)"
    by (simp_all add: sample_finding_def get_item_def member_or_def)
  have lists: "corpus_lists (jstr ''dsr'') sample_lists =
      [(U ''cpr:a'', JArr [only_leaf ''l1'', only_leaf ''l2'']), (U ''cpr:b'', JArr [only_leaf ''l3''])]"
    "json_truthy sample_lists" "get_by sample_lists (jstr ''cpr:a'') = Inr (JArr [only_leaf ''l1'', only_leaf ''l2''])"
    "get_by sample_lists (jstr ''cpr:b'') = Inr (JArr [only_leaf ''l3''])"
    by (simp_all add: corpus_lists_def sample_lists_def get_by_def)
  have names: "U ''cpr:a'' < U ''cpr:b''" "\<not> U ''cpr:b'' < U ''cpr:a''" "U ''cpr:a'' \<noteq> U ''cpr:b''"
    "U ''l1'' \<le> U ''l2''" "U ''l1'' \<noteq> U ''l2''" "U ''l3'' \<noteq> U ''l1''" "U ''l3'' \<noteq> U ''l2''"
    by (simp_all add: U_Cons)
  have digest: "leaf_list_digest demo_env ls = Inr dig" if "set ls \<subseteq> {U ''l1'', U ''l2'', U ''l3''}" for ls
    unfolding leaf_list_digest_def
  proof (rule demo_ds_digest)
    have "fine (JStr s)" if "s \<in> {U ''l1'', U ''l2'', U ''l3''}" for s using that by (auto simp: fine_literal)
    then show "good 100 (JArr (map JStr (sort ls)))" using that by (auto simp: good_JArr good_scalar list_all_iff)
  qed
  have digests: "leaf_list_digest demo_env [U ''l1'', U ''l2''] = Inr dig" "leaf_list_digest demo_env [U ''l3''] = Inr dig"
    by (rule digest; simp)+
  have corpora: "check_leaf_list_digests demo_env identity sample_leakage sample_lists =
      Inr [(U ''cpr:a'', [U ''l1'', U ''l2'']), (U ''cpr:b'', [U ''l3''])]"
    by (simp add: check_leaf_list_digests_def Let_def report entry set_key_def identity_def lists declared_for_def names names(3) [symmetric]
        must_equal_at_values digests)
  have rel: "relevant sample_finding = Inr True"
    by (simp add: relevant_def finding in_names_def DS3_RELEVANT_FINDING_KINDS_def)
  have "pair_key sample_finding = Inr (U ''cpr:a'', U ''cpr:b'')" by (simp add: pair_key_def finding names)
  then have "ds3_disjointness_established sample_leakage [(U ''cpr:a'', [U ''l1'', U ''l2'']), (U ''cpr:b'', [U ''l3''])] = Inr True"
    using names by (simp add: ds3_disjointness_established_def report add_pair_def rel finding pair_disjoint_def common_def)
  then have "derive_ds3 sample_ctx sample_leakage sample_attestation sample_lists [(U ''cpr:a'', [U ''l1'', U ''l2'']), (U ''cpr:b'', [U ''l3''])] True =
      Inr (''generation_attested'', ''issuer_verified'')"
    using lists by (simp add: derive_ds3_def Let_def ds3_relevant_corpus_refs_def report rel finding set_key_def entry oversized_def MAX_LEAF_LIST_def)
      (simp add: sample_attestation_def)
  from verified_corpora_are_disjoint [OF corpora this report(2) _ finding(1)]
  show ?thesis using finding(2,3) by auto
qed

section \<open>An accepted record\<close>

definition sample_registry :: "cert_env \<Rightarrow> json \<times> json" where
  "sample_registry env = (TAXONOMY_IDENTITY env, METHOD_REGISTRY_IDENTITY env)"

abbreviation sample_taxonomy :: json where "sample_taxonomy \<equiv> fst (sample_registry demo_env)"
abbreviation sample_methods :: json where "sample_methods \<equiv> snd (sample_registry demo_env)"

definition dsr :: ustr where "dsr = U ''dsr'' @ U '':'' @ b64_text (replicate 32 17)"
definition cpr :: ustr where "cpr = U ''cpr'' @ U '':'' @ b64_text (replicate 32 17)"

definition record_identity :: json where
  "record_identity = JObj [(U ''dataset_identity_root'', JStr dig), (U ''identity_blind_epoch'', JInt 3), (U ''dataset_ref'', JStr dsr),
     (U ''item_set_root'', JStr dig), (U ''item_count'', JInt 40), (U ''leakage_scope_ref'', jstr ''lsr:x'')]"

definition record_composition :: json where
  "record_composition = JObj [(U ''taxonomy'', sample_taxonomy), (U ''cells'', JArr [sample_cell ''s1_easy'' 40]),
     (U ''populated_cell_count'', JInt 1), (U ''composition_digest'', JStr dig)]"

definition near_finding :: json where
  "near_finding = JObj [(U ''finding_kind'', jstr ''near_duplicate_overlap''), (U ''observation_basis'', jstr ''backend_observed''),
     (U ''corpus_a_ref'', JStr cpr), (U ''corpus_b_ref'', JStr cpr), (U ''method'', jstr ''minhash_jaccard_v1''), (U ''threshold_milli'', JInt 800)]"

definition record_corpus :: json where
  "record_corpus = JObj [(U ''corpus_ref'', JStr cpr), (U ''leaf_count'', JInt 3), (U ''leaf_list_digest'', JStr dig)]"

definition record_leakage :: json where
  "record_leakage = JObj [(U ''leakage_scope_ref'', jstr ''lsr:x''), (U ''method_registry'', sample_methods),
     (U ''leaf_list_digests'', JArr [record_corpus]), (U ''findings'', JArr [near_finding]), (U ''leaf_generation_attestation_digest'', JNull),
     (U ''leakage_report_digest'', JStr dig)]"

definition record_limitations :: json where
  "record_limitations = JObj [(U ''limitations'', JArr []), (U ''limitations_digest'', JStr dig)]"

definition record_policy :: "(ustr \<times> json) list" where
  "record_policy = map (\<lambda>k. (U k, JInt 1)) APPLIED_POLICY_FIELDS"

definition record_prereg :: json where
  "record_prereg = JObj ([(U ''coverage'', jnames PREREG_COVERAGE), (U ''registered_at'', jstr ''2026-01-01T12:00:00Z''),
     (U ''evidence_grade'', jstr ''digest_bound_attestation''), (U ''candidate_set_commitment'', JStr dig), (U ''candidate_count'', JInt 3),
     (U ''near_duplicate_method'', jstr ''minhash_jaccard_v1''), (U ''near_duplicate_threshold_milli'', JInt 800),
     (U ''information_method'', jstr ''score_variance_v1''), (U ''information_unit'', jstr ''variance_micro'')] @ record_policy @
     [(U ''prereg_digest'', JStr dig)])"

definition record_plan_signature :: json where
  "record_plan_signature = JObj [(U ''prereg_digest'', JStr dig), (U ''issuer_key_ref'', jstr ''ik''), (U ''trust_ring_ref'', jstr ''tr''),
     (U ''algorithm'', jstr ''ed25519''), (U ''signature'', demo_signature)]"

definition record_envelope :: json where
  "record_envelope = JObj [(U ''preregistration'', record_prereg), (U ''signature'', record_plan_signature)]"

definition record_estimate :: "string \<Rightarrow> json" where
  "record_estimate kind = JObj [(U ''lo'', JInt 5), (U ''point'', JInt 5), (U ''hi'', JInt 5), (U ''estimator_kind'', jstr kind),
     (U ''quantity_kind'', jstr ''count''), (U ''interval_method'', jstr ''none''), (U ''sample_size_n'', JInt 40), (U ''effective_sample_size_n'', JInt 40)]"

definition record_efficiency :: json where
  "record_efficiency = JObj [(U ''prereg_digest'', JStr dig), (U ''candidate_set_commitment'', JStr dig), (U ''candidate_count'', JInt 3),
     (U ''applied_policy'', JObj record_policy), (U ''mean_item_information'', record_estimate ''exact''),
     (U ''decisive_subset_upper_bound'', record_estimate ''upper_bound''), (U ''decisive_subset_estimator_kind'', jstr ''upper_bound''),
     (U ''uninformative_item_count'', JInt 3), (U ''information_method'', jstr ''score_variance_v1''),
     (U ''information_unit'', jstr ''variance_micro''), (U ''inert_item_count'', JInt 4), (U ''inert_fraction_ppm'', JInt 100000),
     (U ''full_pass_cost_microusd'', JInt 40), (U ''decisive_subset_cost_microusd'', JInt 4), (U ''cost_efficiency_ppm'', JInt 100000),
     (U ''full_pass_latency_us'', JInt 40), (U ''decisive_subset_latency_us'', JInt 4), (U ''latency_efficiency_ppm'', JInt 100000),
     (U ''efficiency_report_digest'', JStr dig)]"

definition support_ref :: "string \<Rightarrow> json" where
  "support_ref kind = JArr [JObj [(U ''evidence_kind'', jstr kind), (U ''evidence_digest'', JStr dig)]]"

definition verified_row :: "string \<Rightarrow> json" where
  "verified_row claim_id = JObj [(U ''claim_id'', jstr claim_id), (U ''evidence_basis'', jstr ''issuer_verified''),
     (U ''evidence_refs'', support_ref (profile_evidence_kind (claim_row_profile claim_id))),
     (U ''verifier_id'', jstr (profile_verifier_id (claim_row_profile claim_id))), (U ''verifier_version'', jstr ''1.0.0'')]"

definition declared_row :: json where
  "declared_row = JObj [(U ''claim_id'', jstr ''DS2''), (U ''evidence_basis'', jstr ''client_declared''),
     (U ''evidence_refs'', support_ref ''verifier_report_digest''), (U ''attestation_basis'', jstr ''client_signed_declaration_v1'')]"

definition abstained_row :: json where
  "abstained_row = JObj [(U ''claim_id'', jstr ''DS3''), (U ''evidence_basis'', jstr ''abstained''), (U ''abstention_code'', jstr ''missing_evidence_binding'')]"

definition record_rows :: json where
  "record_rows = JArr [verified_row ''DS1'', declared_row, abstained_row, verified_row ''DS4'', verified_row ''DS5'']"

definition record_non_claims :: json where
  "record_non_claims = JArr (map (\<lambda>(id, reason). JObj [(U ''non_claim_id'', jstr id), (U ''reason_template_id'', jstr reason)]) NON_CLAIMS_CANONICAL)"

definition record_manifest :: json where
  "record_manifest = JObj [(U ''coverage'', jnames DS_MANIFEST_COVERAGE), (U ''process_unsigned_manifest_digest'', JStr dig),
     (U ''dataset_commitment_ref'', JStr dig), (U ''scope_binding_digest'', JStr dig), (U ''identity'', record_identity),
     (U ''taxonomy'', sample_taxonomy), (U ''method_registry'', sample_methods), (U ''composition_digest'', JStr dig),
     (U ''leakage_report_digest'', JStr dig), (U ''leaf_generation_attestation_digest'', JNull), (U ''efficiency_report_digest'', JStr dig),
     (U ''limitations_digest'', JStr dig), (U ''prereg_digest'', JStr dig), (U ''prereg_signature_digest'', JStr dig),
     (U ''prereg_evidence_grade'', jstr ''digest_bound_attestation''), (U ''prereg_registered_at'', jstr ''2026-01-01T12:00:00Z''),
     (U ''claim_support_rows_digest'', JStr dig), (U ''non_claims'', record_non_claims), (U ''trust_ring_ref'', jstr ''tr''),
     (U ''issuer_key_ref'', jstr ''ik''), (U ''issuer_signature_algorithm'', jstr ''ed25519'')]"

definition record_signature :: json where
  "record_signature = JObj [(U ''unsigned_manifest_digest'', JStr dig), (U ''algorithm'', jstr ''ed25519''), (U ''issuer_key_ref'', jstr ''ik''),
     (U ''trust_ring_ref'', jstr ''tr''), (U ''signature'', demo_signature)]"

definition dataset_bundle :: json where
  "dataset_bundle = JObj [(U ''unsigned_manifest'', record_manifest), (U ''composition'', record_composition), (U ''leakage_report'', record_leakage),
     (U ''limitations'', record_limitations), (U ''preregistration_envelope'', record_envelope), (U ''efficiency_report'', record_efficiency),
     (U ''claim_support_rows'', record_rows), (U ''signature'', record_signature)]"

lemma dataset_bundle_field [simp]:
  "field dataset_bundle ''unsigned_manifest'' = Inr record_manifest" "field dataset_bundle ''composition'' = Inr record_composition"
  "field dataset_bundle ''leakage_report'' = Inr record_leakage" "field dataset_bundle ''limitations'' = Inr record_limitations"
  "field dataset_bundle ''preregistration_envelope'' = Inr record_envelope" "field dataset_bundle ''efficiency_report'' = Inr record_efficiency"
  "field dataset_bundle ''claim_support_rows'' = Inr record_rows" "field dataset_bundle ''signature'' = Inr record_signature"
  "get_member dataset_bundle ''leaf_generation_attestation'' = JNull" "is_dict dataset_bundle"
  by (simp_all add: dataset_bundle_def member_or_def)

lemma record_manifest_field [simp]:
  "field record_manifest ''coverage'' = Inr (jnames DS_MANIFEST_COVERAGE)"
  "field record_manifest ''process_unsigned_manifest_digest'' = Inr (JStr dig)" "field record_manifest ''dataset_commitment_ref'' = Inr (JStr dig)"
  "field record_manifest ''scope_binding_digest'' = Inr (JStr dig)" "field record_manifest ''identity'' = Inr record_identity"
  "field record_manifest ''taxonomy'' = Inr sample_taxonomy" "field record_manifest ''method_registry'' = Inr sample_methods"
  "field record_manifest ''composition_digest'' = Inr (JStr dig)" "field record_manifest ''leakage_report_digest'' = Inr (JStr dig)"
  "field record_manifest ''leaf_generation_attestation_digest'' = Inr JNull" "field record_manifest ''efficiency_report_digest'' = Inr (JStr dig)"
  "field record_manifest ''limitations_digest'' = Inr (JStr dig)" "field record_manifest ''prereg_digest'' = Inr (JStr dig)"
  "field record_manifest ''prereg_signature_digest'' = Inr (JStr dig)"
  "field record_manifest ''prereg_evidence_grade'' = Inr (jstr ''digest_bound_attestation'')"
  "field record_manifest ''prereg_registered_at'' = Inr (jstr ''2026-01-01T12:00:00Z'')"
  "field record_manifest ''claim_support_rows_digest'' = Inr (JStr dig)" "field record_manifest ''non_claims'' = Inr record_non_claims"
  "field record_manifest ''trust_ring_ref'' = Inr (jstr ''tr'')" "field record_manifest ''issuer_key_ref'' = Inr (jstr ''ik'')"
  "field record_manifest ''issuer_signature_algorithm'' = Inr (jstr ''ed25519'')"
  by (simp_all add: record_manifest_def)

lemma record_identity_field [simp]:
  "field record_identity ''dataset_identity_root'' = Inr (JStr dig)" "field record_identity ''identity_blind_epoch'' = Inr (JInt 3)"
  "field record_identity ''dataset_ref'' = Inr (JStr dsr)" "field record_identity ''item_set_root'' = Inr (JStr dig)"
  "field record_identity ''item_count'' = Inr (JInt 40)" "field record_identity ''leakage_scope_ref'' = Inr (jstr ''lsr:x'')"
  by (simp_all add: record_identity_def)

fun no_floats :: "json \<Rightarrow> bool" where
  "no_floats (JObj kts) = list_all (\<lambda>kt. no_floats (snd kt)) kts"
| "no_floats (JArr ts) = list_all no_floats ts"
| "no_floats (JFloat f) = False"
| "no_floats t = True"

lemma walk_no_floats: "no_floats t \<Longrightarrow> walk_strict_integers loc t = Inr ()"
proof (induction loc t rule: walk_strict_integers.induct)
  case (2 loc kts)
  then show ?case by (auto simp: check_all_Inr_set list_all_iff)
next
  case (3 loc ts)
  then have "walk_strict_integers (loc @ U ''/'' @ int_text (int (fst it))) (snd it) = Inr ()" if "it \<in> set (enumerate 0 ts)" for it
    using that by (cases it) (auto simp: list_all_iff in_set_enumerate_eq)
  then show ?case by (simp add: check_all_Inr_set)
qed simp_all

lemma names_clean: "no_floats (jnames ns)" "0 < n \<Longrightarrow> good n (jnames ns) \<longleftrightarrow> list_all (\<lambda>s. length s \<le> 400) ns"
  using valid_U by (auto simp: jnames_def good_JArr good_scalar fine_scalar list.pred_map comp_def list.pred_True)

lemma registry_clean: "no_floats sample_taxonomy" "no_floats sample_methods" "good 100 sample_taxonomy" "good 100 sample_methods"
  "4 \<le> n \<Longrightarrow> good n sample_taxonomy" "4 \<le> n \<Longrightarrow> good n sample_methods"
proof -
  have d: "registry_digest demo_env domain t = dig" for domain t by (simp add: registry_digest_def) (simp add: demo_env_def dig_def)
  show "no_floats sample_taxonomy" "no_floats sample_methods" "good 100 sample_taxonomy" "good 100 sample_methods"
    "4 \<le> n \<Longrightarrow> good n sample_taxonomy" "4 \<le> n \<Longrightarrow> good n sample_methods"
    by (simp_all add: sample_registry_def TAXONOMY_IDENTITY_def METHOD_REGISTRY_IDENTITY_def d record_rules)
qed

lemma fine_numbers: "fine (JInt 800)" "fine (JInt 40)" "fine (JInt 100000)"
  by (simp_all add: fine_scalar MAX_SAFE_INTEGER_def int_text_def digit_chars_def nat_digits.simps)

lemma fine_refs: "fine (JStr dsr)" "fine (JStr cpr)"
proof -
  have "list_all word_char (b64_text (replicate 32 17))" using b64_chars by (auto simp: list_all_iff)
  then have "list_all valid_cp (b64_text (replicate 32 17))" "encodable (b64_text (replicate 32 17))"
    by (auto simp: list_all_iff encodable_def word_char_def lower_def upper_def is_digit_def valid_cp_def is_surrogate_def)
  moreover have "length (b64_text (replicate 32 17)) = 43" by (simp add: b64_text_vals length_b64_vals)
  ultimately show "fine (JStr dsr)" "fine (JStr cpr)" by (simp_all add: dsr_def cpr_def fine_scalar)
qed

lemmas sample_rules = record_rules fine_numbers fine_refs registry_clean names_clean

lemma bodies_clean:
  "20 \<le> n \<Longrightarrow> good n record_identity" "20 \<le> n \<Longrightarrow> good n record_composition" "20 \<le> n \<Longrightarrow> good n record_leakage"
  "20 \<le> n \<Longrightarrow> good n record_limitations" "20 \<le> n \<Longrightarrow> good n record_rows" "20 \<le> n \<Longrightarrow> good n record_non_claims"
  "20 \<le> n \<Longrightarrow> good n record_plan_signature"
  by (simp_all add: record_identity_def record_composition_def sample_cell_def record_leakage_def near_finding_def record_corpus_def
      record_limitations_def record_rows_def verified_row_def declared_row_def abstained_row_def support_ref_def claim_row_profile_def
      record_plan_signature_def good_signature sample_rules)
    (simp_all add: record_non_claims_def NON_CLAIMS_CANONICAL_def sample_rules)

lemma policy_clean: "no_floats (JObj record_policy)" "20 \<le> n \<Longrightarrow> good n (JObj record_policy)"
  by (simp_all add: record_policy_def APPLIED_POLICY_FIELDS_def sample_rules)

lemma plan_clean: "20 \<le> n \<Longrightarrow> good n record_prereg" "20 \<le> n \<Longrightarrow> good n (without_member ''prereg_digest'' record_prereg)"
  by (simp_all add: record_prereg_def without_member_def record_policy_def APPLIED_POLICY_FIELDS_def PREREG_COVERAGE_def sample_rules)

lemma efficiency_clean: "20 \<le> n \<Longrightarrow> good n record_efficiency"
  by (simp add: record_efficiency_def record_estimate_def record_policy_def APPLIED_POLICY_FIELDS_def sample_rules)

lemma manifest_clean: "good 100 record_manifest"
  by (simp add: record_manifest_def bodies_clean DS_MANIFEST_COVERAGE_def sample_rules)

lemma bundle_floats: "no_floats dataset_bundle"
proof -
  have "no_floats record_manifest"
    by (simp add: record_manifest_def record_identity_def registry_clean names_clean) (simp add: record_non_claims_def list_all_iff split_beta)
  moreover have "no_floats record_composition" "no_floats record_leakage" "no_floats record_limitations" "no_floats record_rows"
    by (simp_all add: record_composition_def sample_cell_def record_leakage_def near_finding_def record_corpus_def record_limitations_def
        record_rows_def verified_row_def declared_row_def abstained_row_def support_ref_def registry_clean)
  moreover have "no_floats record_envelope" "no_floats record_efficiency" "no_floats record_signature"
    by (simp_all add: record_envelope_def record_prereg_def record_plan_signature_def record_policy_def record_efficiency_def
        record_estimate_def record_signature_def demo_signature_def names_clean APPLIED_POLICY_FIELDS_def)
  ultimately show ?thesis by (simp add: dataset_bundle_def)
qed

lemma self_digest_clean:
  "good 100 t \<Longrightarrow> is_dict t \<Longrightarrow> artifact_digest demo_env domain key t = Inr dig"
proof -
  assume t: "good 100 t" "is_dict t"
  then obtain kts where k: "t = JObj kts" by (cases t) auto
  have "good 100 (without_member key t)"
    using t by (auto simp: k without_member_def good_JObj list_all_iff distinct_map_filter)
  then show ?thesis using t(2) by (simp add: artifact_digest_def demo_ds_digest)
qed

lemma sample_process:
  "\<exists>r. verify_process_record demo_env demo_record sample_ctx = Inr (r, demo_record_manifest) \<and> unsigned_manifest_digest r = dig \<and>
     result_dataset_ref r = JStr dig"
proof -
  let ?ctx = "demo_process_context\<lparr>allow_unchecked_base_status := True\<rparr>"
  have "check_record demo_env demo_record ?ctx = check_record demo_env demo_record demo_process_context"
    by (simp add: check_record_def verify_base_certificate_def check_commitment_refs_def expected_manifest_def)
  moreover have "validate_process_schema demo_env demo_record = Inr ()" by (simp add: validate_process_schema_def demo_env_def)
  moreover have "path_to demo_record [''verification_materials_v0'', ''issuer''] = Inr (demo_key_part ''tr'' (U ''ik''))" by simp
  moreover have "traverse (\<lambda>index. rbind (field index ''receipt_count'') as_int) (mp_streams demo_parts) = Inr [1, 0, 0]"
    by (simp add: demo_parts_def demo_index_def empty_index_def as_int_def)
  ultimately have "\<exists>r. verify_process_record_certificate demo_env demo_record ?ctx JNull = Inr r \<and> unsigned_manifest_digest r = dig \<and>
      result_dataset_ref r = JStr dig"
    by (simp add: verify_process_record_certificate_def verify_process_steps_def demo_integers demo_checked demo_signed check_status_def
        make_result_def result_ok_def recast_def del: path_to.simps)
  then show ?thesis by (auto simp: verify_process_record_def sample_ctx_def recast_at_def)
qed

lemma sample_bound: "\<exists>pr. check_bound_record demo_env dataset_bundle sample_ctx demo_record JNull =
  Inr (pr, demo_key_part ''tr'' (U ''ik''), ''issuer_verified'')"
proof -
  obtain pr where pr: "verify_process_record demo_env demo_record sample_ctx = Inr (pr, demo_record_manifest)"
    "unsigned_manifest_digest pr = dig" "result_dataset_ref pr = JStr dig" using sample_process by blast
  have ctx: "ds_project_ref sample_ctx = U ''p1''" "ds_build_session_ref sample_ctx = U ''ses''" "ds_commitment_ref sample_ctx = dig"
    "ds_identity_root sample_ctx = Some dig" "ds_blind_epoch sample_ctx = 3"
    by (simp_all add: sample_ctx_def)
  have "get_item demo_record_manifest ''project_ref'' = Inr (jstr ''p1'')" "get_item demo_record_manifest ''build_session_ref'' = Inr (jstr ''ses'')"
    by (simp_all add: get_item_def demo_record_manifest_def expected_manifest_def demo_process_context_def member_or_def)
  then have "check_scope_binding demo_env record_manifest demo_record_manifest sample_ctx = Inr ()"
    by (simp add: check_scope_binding_def Let_def ctx demo_ds_digest sample_rules)
  moreover have "check_derived_dataset_ref demo_env record_identity = Inr ()"
  proof -
    have "encodable dig" using fine_dig by (simp add: fine_scalar)
    moreover have "length (utf8_cp c) \<le> 4" for c by (simp add: utf8_cp_def)
    then have "length (utf8 s) \<le> 4 * length s" for s by (induction s) (auto simp: utf8_def intro: add_mono)
    from this [of dig] have "length (utf8 dig) < 18446744073709551616" by (simp add: dig_length)
    moreover have "hash demo_env m = replicate 32 17" for m by (simp add: demo_env_def)
    ultimately show ?thesis
      by (simp add: check_derived_dataset_ref_def expected_dataset_ref_def derive_dataset_ref_def encoded_def as_num_def pack_u64_def
          derive_ref_def ds_length_prefixed_def dsr_def)
  qed
  moreover have "check_taxonomy_and_registry_pins demo_env record_manifest = Inr ()"
    using registry_clean(3,4) py_eq_refl
    by (auto simp: check_taxonomy_and_registry_pins_def must_equal_at_values good_def fine_def parsed_def sample_registry_def)
  moreover have "path_to demo_record [''verification_materials_v0'', ''issuer''] = Inr (demo_key_part ''tr'' (U ''ik''))" by simp
  moreover have "ds_validate_schema demo_env dataset_bundle = Inr ()" by (simp add: ds_validate_schema_def demo_env_def)
  moreover have "is_tuple_of DS_MANIFEST_COVERAGE (map jstr DS_MANIFEST_COVERAGE)" by (simp add: is_tuple_of_def)
  ultimately show ?thesis
    by (simp add: check_bound_record_def ds_check_strict_integers_def walk_no_floats bundle_floats list_field_def jnames_def pr
        check_process_binding_def check_dataset_commitment_def Let_def check_identity_def ctx check_leaf_list_input_def check_derived_refs_def
        del: path_to.simps)
qed

lemma same_registry: "py_eq sample_taxonomy sample_taxonomy" "py_eq sample_methods sample_methods"
  using registry_clean(3,4) py_eq_refl by (auto simp: good_def fine_def parsed_def)

lemma self_artifact:
  "good 100 t \<Longrightarrow> is_dict t \<Longrightarrow> field t key = Inr (JStr dig) \<Longrightarrow> field record_manifest key = Inr (JStr dig) \<Longrightarrow>
   check_artifact_digest demo_env domain key code own record_manifest t = Inr ()"
  by (simp add: check_artifact_digest_def self_digest_clean)

lemma derived_corpus: "derive_corpus_ref demo_env (JStr dig) (jstr ''lsr:x'') = Inr cpr"
proof -
  have "encodable dig" using fine_dig by (simp add: fine_scalar)
  moreover have "length (utf8_cp c) \<le> 4" for c by (simp add: utf8_cp_def)
  then have "length (utf8 s) \<le> 4 * length s" for s by (induction s) (auto simp: utf8_def intro: add_mono)
  from this [of dig] this [of "U ''lsr:x''"] have "length (utf8 dig) < 18446744073709551616" "length (utf8 (U ''lsr:x'')) < 18446744073709551616"
    by (simp_all add: dig_length)
  moreover have "hash demo_env m = replicate 32 17" for m by (simp add: demo_env_def)
  ultimately show ?thesis by (simp add: derive_corpus_ref_def encoded_def pack_u64_def derive_ref_def ds_length_prefixed_def cpr_def)
qed

lemma sample_composition: "check_composition_and_leakage demo_env dataset_bundle sample_ctx JNull =
  Inr \<lparr>ev_composition = ''declared_counts_only'', ev_ds2 = ''client_declared'', ev_disjointness = ''token_lists_only'', ev_ds3 = ''abstained'',
       ev_checked = 0, ev_attested = 0\<rparr>"
proof -
  have f: "list_field record_composition ''cells'' = Inr [sample_cell ''s1_easy'' 40]" "field record_composition ''populated_cell_count'' = Inr (JInt 1)"
    "field record_composition ''taxonomy'' = Inr sample_taxonomy" "field record_composition ''composition_digest'' = Inr (JStr dig)"
    "is_dict record_composition" "list_field record_leakage ''findings'' = Inr [near_finding]"
    "list_field record_leakage ''leaf_list_digests'' = Inr [record_corpus]" "field record_leakage ''leakage_scope_ref'' = Inr (jstr ''lsr:x'')"
    "field record_leakage ''method_registry'' = Inr sample_methods" "field record_leakage ''leaf_generation_attestation_digest'' = Inr JNull"
    "field record_leakage ''leakage_report_digest'' = Inr (JStr dig)" "is_dict record_leakage"
    by (simp_all add: record_composition_def record_leakage_def list_field_def)
  have n: "field near_finding ''finding_kind'' = Inr (jstr ''near_duplicate_overlap'')"
    "field near_finding ''observation_basis'' = Inr (jstr ''backend_observed'')" "field near_finding ''corpus_a_ref'' = Inr (JStr cpr)"
    "field near_finding ''corpus_b_ref'' = Inr (JStr cpr)" "field record_corpus ''corpus_ref'' = Inr (JStr cpr)"
    "field record_corpus ''leaf_count'' = Inr (JInt 3)" "field record_corpus ''leaf_list_digest'' = Inr (JStr dig)"
    by (simp_all add: near_finding_def record_corpus_def)
  have c: "cell_key (sample_cell ''s1_easy'' 40) = Inr (jstr ''arithmetic'', jstr ''s1_easy'')" "num_field (sample_cell ''s1_easy'' 40) ''item_count'' = Inr 40"
    "field (sample_cell ''s1_easy'' 40) ''category_id'' = Inr (jstr ''arithmetic'')"
    "field (sample_cell ''s1_easy'' 40) ''difficulty_stratum'' = Inr (jstr ''s1_easy'')"
    by (simp_all add: cell_key_def sample_cell_def num_field_def as_num_def)
  have "registered TAXONOMY_DOCUMENT ''category_ids'' (jstr ''arithmetic'') = Inr True"
    "registered TAXONOMY_DOCUMENT ''difficulty_strata'' (jstr ''s1_easy'') = Inr True"
    by (simp_all add: registered_def TAXONOMY_DOCUMENT_def jnames_def member_or_def)
  then have "check_composition_vocabulary record_composition = Inr ()" by (simp add: check_composition_vocabulary_def f c)
  moreover have "check_composition_digest demo_env record_manifest record_composition = Inr ()"
    "check_leakage_digest demo_env record_manifest record_leakage = Inr ()"
    unfolding check_composition_digest_def check_leakage_digest_def by (rule self_artifact; simp add: bodies_clean f)+
  moreover have "check_declared_partition record_identity record_composition = Inr ()"
    by (simp add: check_declared_partition_def Let_def f MAX_CELLS_def partition_cell_def c must_equal_at_values)
  moreover have "check_leakage_basis_coupling record_leakage = Inr ()"
    by (simp add: check_leakage_basis_coupling_def f n in_names_def TIER_C_FINDING_KINDS_def Let_def)
  moreover have "check_corpus_ref_descriptors demo_env record_identity record_leakage JNull = Inr ()"
    by (simp add: check_corpus_ref_descriptors_def collect_digest_descriptor_counts_def f collect_digest_descriptor_def n derived_corpus seen_def)
  moreover have "check_report_registry_identities record_manifest record_composition record_leakage = Inr ()"
    by (simp add: check_report_registry_identities_def f must_equal_at_values same_registry)
  moreover have "check_leaf_generation_attestation demo_env record_manifest record_leakage JNull [] = Inr False"
    by (simp add: check_leaf_generation_attestation_def check_attestation_absent_def f)
  moreover have r: "relevant near_finding = Inr False" by (simp add: relevant_def n in_names_def DS3_RELEVANT_FINDING_KINDS_def)
  then have "check_overlap_and_disjointness record_leakage [] = Inr 0"
    by (simp add: check_overlap_and_disjointness_def f check_overlap_finding_def)
  moreover have "attested_findings record_leakage = Inr 0" by (simp add: attested_findings_def f n in_names_def TIER_C_FINDING_KINDS_def)
  moreover have "derive_ds3 sample_ctx record_leakage JNull JNull [] False = Inr (''token_lists_only'', ''abstained'')"
    using r by (simp add: derive_ds3_def Let_def ds3_relevant_corpus_refs_def f) (simp add: sample_ctx_def)
  moreover have "check_leakage_scope_pin record_identity sample_ctx = Inr ()" by (simp add: check_leakage_scope_pin_def sample_ctx_def)
  moreover have "check_leakage_scope record_identity record_leakage JNull = Inr ()" by (simp add: check_leakage_scope_def f)
  ultimately show ?thesis by (simp add: check_composition_and_leakage_def derive_ds2_def)
qed

lemma record_prereg_field [simp]:
  "field record_prereg ''coverage'' = Inr (jnames PREREG_COVERAGE)" "field record_prereg ''registered_at'' = Inr (jstr ''2026-01-01T12:00:00Z'')"
  "field record_prereg ''evidence_grade'' = Inr (jstr ''digest_bound_attestation'')" "field record_prereg ''prereg_digest'' = Inr (JStr dig)"
  "field record_prereg ''candidate_set_commitment'' = Inr (JStr dig)" "field record_prereg ''candidate_count'' = Inr (JInt 3)"
  "field record_prereg ''near_duplicate_method'' = Inr (jstr ''minhash_jaccard_v1'')"
  "field record_prereg ''near_duplicate_threshold_milli'' = Inr (JInt 800)" "field record_prereg ''information_unit'' = Inr (jstr ''variance_micro'')"
  "field record_prereg ''information_method'' = Inr (jstr ''score_variance_v1'')" "field record_prereg ''minimum_sample_size_n'' = Inr (JInt 1)"
  "is_dict record_prereg"
  by (simp_all add: record_prereg_def record_policy_def APPLIED_POLICY_FIELDS_def)

lemma record_efficiency_field [simp]:
  "field record_efficiency ''prereg_digest'' = Inr (JStr dig)" "field record_efficiency ''candidate_set_commitment'' = Inr (JStr dig)"
  "field record_efficiency ''candidate_count'' = Inr (JInt 3)" "field record_efficiency ''applied_policy'' = Inr (JObj record_policy)"
  "field record_efficiency ''mean_item_information'' = Inr (record_estimate ''exact'')"
  "field record_efficiency ''decisive_subset_upper_bound'' = Inr (record_estimate ''upper_bound'')"
  "field record_efficiency ''decisive_subset_estimator_kind'' = Inr (jstr ''upper_bound'')"
  "num_field record_efficiency ''uninformative_item_count'' = Inr 3" "field record_efficiency ''information_method'' = Inr (jstr ''score_variance_v1'')"
  "field record_efficiency ''information_unit'' = Inr (jstr ''variance_micro'')" "num_field record_efficiency ''inert_item_count'' = Inr 4"
  "field record_efficiency ''inert_fraction_ppm'' = Inr (JInt 100000)" "field record_efficiency ''cost_efficiency_ppm'' = Inr (JInt 100000)"
  "num_field record_efficiency ''full_pass_cost_microusd'' = Inr 40" "num_field record_efficiency ''decisive_subset_cost_microusd'' = Inr 4"
  "num_field record_efficiency ''full_pass_latency_us'' = Inr 40" "num_field record_efficiency ''decisive_subset_latency_us'' = Inr 4"
  "field record_efficiency ''full_pass_cost_microusd'' = Inr (JInt 40)" "field record_efficiency ''full_pass_latency_us'' = Inr (JInt 40)"
  "field record_efficiency ''latency_efficiency_ppm'' = Inr (JInt 100000)" "field record_efficiency ''efficiency_report_digest'' = Inr (JStr dig)"
  "is_dict record_efficiency"
  by (simp_all add: record_efficiency_def num_field_def as_num_def)

lemma record_estimate_field [simp]:
  "num_field (record_estimate kind) ''lo'' = Inr 5" "num_field (record_estimate kind) ''point'' = Inr 5" "num_field (record_estimate kind) ''hi'' = Inr 5"
  "field (record_estimate kind) ''estimator_kind'' = Inr (jstr kind)" "field (record_estimate kind) ''quantity_kind'' = Inr (jstr ''count'')"
  "field (record_estimate kind) ''interval_method'' = Inr (jstr ''none'')" "num_field (record_estimate kind) ''sample_size_n'' = Inr 40"
  "num_field (record_estimate kind) ''effective_sample_size_n'' = Inr 40" "field (record_estimate kind) ''point'' = Inr (JInt 5)"
  by (simp_all add: record_estimate_def num_field_def as_num_def)

lemma near_field [simp]:
  "list_field record_leakage ''findings'' = Inr [near_finding]" "field near_finding ''finding_kind'' = Inr (jstr ''near_duplicate_overlap'')"
  "field near_finding ''method'' = Inr (jstr ''minhash_jaccard_v1'')" "field near_finding ''threshold_milli'' = Inr (JInt 800)"
  "list_field record_limitations ''limitations'' = Inr []" "field record_limitations ''limitations_digest'' = Inr (JStr dig)" "is_dict record_limitations"
  "field record_envelope ''preregistration'' = Inr record_prereg" "field record_envelope ''signature'' = Inr record_plan_signature"
  "num_field record_identity ''item_count'' = Inr 40"
  by (simp_all add: record_leakage_def list_field_def near_finding_def record_limitations_def record_envelope_def num_field_def as_num_def)

lemma sample_policy: "check_applied_policy record_prereg record_efficiency = Inr ()"
proof -
  have "field record_prereg key = Inr (JInt 1) \<and> field (JObj record_policy) key = Inr (JInt 1)" if "key \<in> set APPLIED_POLICY_FIELDS" for key
    using that unfolding APPLIED_POLICY_FIELDS_def
    by (auto simp: record_prereg_def record_policy_def APPLIED_POLICY_FIELDS_def)
  then show ?thesis by (auto simp: check_applied_policy_def check_all_Inr_set must_equal_at_values)
qed

lemma sample_plan_signature: "check_prereg_signature demo_env record_manifest record_envelope (demo_key_part ''tr'' (U ''ik'')) = Inr ()"
proof -
  have "field record_plan_signature ''prereg_digest'' = Inr (JStr dig)" "field record_plan_signature ''issuer_key_ref'' = Inr (jstr ''ik'')"
    "field record_plan_signature ''trust_ring_ref'' = Inr (jstr ''tr'')" "field record_plan_signature ''algorithm'' = Inr (jstr ''ed25519'')"
    "field record_plan_signature ''signature'' = Inr demo_signature"
    by (simp_all add: record_plan_signature_def)
  moreover have "field (demo_key_part ''tr'' (U ''ik'')) ''key_ref'' = Inr (jstr ''ik'')" "field (demo_key_part ''tr'' (U ''ik'')) ''trust_ring_ref'' = Inr (jstr ''tr'')"
    by simp_all
  moreover have "canonical_text (without_member ''prereg_digest'' record_prereg) = Some (canon (without_member ''prereg_digest'' record_prereg))"
    by (rule good_text) (simp add: plan_clean)
  ultimately show ?thesis
    by (simp add: check_prereg_signature_def Let_def demo_ds_digest bodies_clean ds_canonical_material_def demo_material_key demo_verified recast_at_def)
qed

lemma sample_plan_ok: "check_plan demo_env dataset_bundle sample_ctx demo_record (demo_key_part ''tr'' (U ''ik'')) =
  Inr (record_prereg, ''digest_bound_attestation'')"
proof -
  obtain a b where t: "utc_microseconds (U ''2026-01-01T12:00:00Z'') = Inr a" "utc_microseconds (U ''2026-01-02T00:00:00Z'') = Inr b"
    "b - a = 43200000000" using demo_times by blast
  have "check_limitations_digest demo_env record_manifest record_limitations = Inr ()"
    unfolding check_limitations_digest_def by (rule self_artifact; simp add: bodies_clean)
  moreover have "check_prereg_digest demo_env record_manifest record_envelope = Inr record_prereg"
    unfolding check_prereg_digest_def by (simp add: self_artifact plan_clean)
  moreover have "check_prereg_coverage record_prereg = Inr ()"
    by (simp add: check_prereg_coverage_def list_field_def) (simp add: jnames_def is_tuple_of_def)
  moreover have "num_field record_prereg ''minimum_sample_size_n'' = Inr 1" by (simp add: num_field_def as_num_def)
  then have "check_containment record_prereg record_efficiency record_leakage = Inr ()"
    by (simp add: check_containment_def must_equal_at_values check_estimate_containment_def ESTIMATES_def check_near_duplicate_containment_def Let_def)
  moreover have "traverse (list_field demo_receipts) STREAM_IDS = Inr [[demo_receipt], [], []]"
    by (simp add: STREAM_IDS_def list_field_def)
  then have "observed_values demo_record = Inr []"
    by (simp add: observed_values_def in_names_def ORDERING_STEP_IDS_def)
  then have "check_ordering record_manifest record_prereg demo_record = Inr ()"
    by (simp add: check_ordering_def ds_utc_microseconds_def t)
  moreover have "check_evidence_grade record_manifest record_prereg sample_ctx = Inr ''digest_bound_attestation''"
    by (simp add: check_evidence_grade_def Let_def) (simp add: sample_ctx_def)
  moreover have "list_field record_composition ''cells'' = Inr [sample_cell ''s1_easy'' 40]" "num_field (sample_cell ''s1_easy'' 40) ''item_count'' = Inr 40"
    by (simp_all add: record_composition_def list_field_def sample_cell_def num_field_def as_num_def)
  then have "check_derivable_limitations record_composition record_limitations = Inr ()"
    by (simp add: check_derivable_limitations_def Let_def MIN_STRATUM_SIZE_def IMBALANCE_RATIO_LIMIT_def)
  moreover have "check_limitation_basis_coupling record_limitations = Inr ()" by (simp add: check_limitation_basis_coupling_def)
  ultimately show ?thesis by (simp add: check_plan_def sample_policy sample_plan_signature)
qed

lemma sample_efficiency_ok: "check_efficiency demo_env dataset_bundle record_prereg = Inr (True, False)"
proof -
  have "check_efficiency_digest demo_env record_manifest record_efficiency = Inr ()"
    unfolding check_efficiency_digest_def by (rule self_artifact; simp add: efficiency_clean)
  moreover have "check_estimate_shape (record_estimate kind) location = Inr ()" if "kind \<in> {''exact'', ''upper_bound''}" for kind location
    using that by (auto simp: check_estimate_shape_def Let_def numeral_2_eq_2)
  then have "check_estimate_shape (record_estimate ''exact'') location = Inr ()" "check_estimate_shape (record_estimate ''upper_bound'') location = Inr ()"
    for location by simp_all
  moreover have "check_information_range record_efficiency record_prereg record_identity = Inr ()"
    by (simp add: check_information_range_def Let_def expected_unit_def EXPECTED_UNITS_def)
  moreover have "check_inert_fraction record_identity record_efficiency = Inr ()" by (simp add: check_inert_fraction_def must_equal_at_values)
  moreover have "check_decisive_subset record_identity record_efficiency = Inr ()" by (simp add: check_decisive_subset_def Let_def)
  moreover have "check_cost_and_latency record_efficiency = Inr ()" by (simp add: check_cost_and_latency_def check_ratio_def must_equal_at_values)
  moreover have "registered METHOD_REGISTRY_DOCUMENT ''near_duplicate_methods'' (jstr ''minhash_jaccard_v1'') = Inr True"
    by (simp add: registered_def METHOD_REGISTRY_DOCUMENT_def jnames_def member_or_def)
  then have "check_ds4_method record_leakage record_prereg = Inr ()" by (simp add: check_ds4_method_def Let_def must_equal_at_values)
  ultimately show ?thesis by (simp add: check_efficiency_def field_is_def zero_field_def)
qed

lemma sample_non_claims: "ds_check_non_claims record_manifest = Inr ()"
proof -
  have "check_indexed (\<lambda>index (row, expected_id, expected_template).
         rbind (must_equal_at ''NON_CLAIMS_MISMATCH'' (at_index ''/unsigned_manifest/non_claims/'' index [])
                  (field row ''non_claim_id'') (Inr (jstr expected_id))) (\<lambda>_.
           must_equal_at ''NON_CLAIMS_MISMATCH'' (at_index ''/unsigned_manifest/non_claims/'' index [])
             (field row ''reason_template_id'') (Inr (jstr expected_template)))) i
      (zip (map (\<lambda>(id, reason). JObj [(U ''non_claim_id'', jstr id), (U ''reason_template_id'', jstr reason)]) rows) rows) = Inr ()" for i rows
    by (induction rows arbitrary: i) auto
  then show ?thesis by (simp add: ds_check_non_claims_def list_field_def record_non_claims_def)
qed

lemma sample_rows: "ds_check_support_rows demo_env record_manifest record_identity record_rows
    [(''DS1'', ''issuer_verified''), (''DS2'', ''client_declared''), (''DS3'', ''abstained''), (''DS4'', ''issuer_verified''), (''DS5'', ''issuer_verified'')] =
  Inr (dig, \<lparr>claims_verified = [''DS1'', ''DS4'', ''DS5''], claims_declared = [''DS2''], claims_abstained = [''DS3'']\<rparr>)"
proof -
  have v: "field (verified_row c) ''claim_id'' = Inr (jstr c)" "field (verified_row c) ''evidence_basis'' = Inr (jstr ''issuer_verified'')"
    "list_field (verified_row c) ''evidence_refs'' =
       Inr [JObj [(U ''evidence_kind'', jstr (profile_evidence_kind (claim_row_profile c))), (U ''evidence_digest'', JStr dig)]]"
    "field (verified_row c) ''verifier_id'' = Inr (jstr (profile_verifier_id (claim_row_profile c)))"
    "field (verified_row c) ''verifier_version'' = Inr (jstr ''1.0.0'')" for c
    by (simp_all add: verified_row_def list_field_def support_ref_def)
  have d: "field declared_row ''claim_id'' = Inr (jstr ''DS2'')" "field declared_row ''evidence_basis'' = Inr (jstr ''client_declared'')"
    "list_field declared_row ''evidence_refs'' = Inr [JObj [(U ''evidence_kind'', jstr ''verifier_report_digest''), (U ''evidence_digest'', JStr dig)]]"
    "field declared_row ''attestation_basis'' = Inr (jstr ''client_signed_declaration_v1'')"
    "field abstained_row ''claim_id'' = Inr (jstr ''DS3'')" "field abstained_row ''evidence_basis'' = Inr (jstr ''abstained'')"
    "field abstained_row ''abstention_code'' = Inr (jstr ''missing_evidence_binding'')"
    by (simp_all add: declared_row_def abstained_row_def list_field_def support_ref_def)
  have "expected_evidence_digest record_manifest record_identity c = Inr (JStr dig)" if "c \<in> set CLAIM_IDS" for c
    using that by (auto simp: expected_evidence_digest_def Let_def claim_row_profile_def CLAIM_IDS_def)
  then have e: "expected_evidence_digest record_manifest record_identity c = Inr (JStr dig)" if "c \<in> {''DS1'', ''DS2'', ''DS4'', ''DS5''}" for c
    using that by (auto simp: CLAIM_IDS_def)
  have ref: "check_evidence_ref profile (JStr dig) (JObj [(U ''evidence_kind'', jstr (profile_evidence_kind profile)), (U ''evidence_digest'', JStr dig)]) = Inr True"
    for profile by (simp add: check_evidence_ref_def)
  have row: "ds_check_support_row record_manifest record_identity i c (verified_row c) ''issuer_verified'' = Inr ()"
    if "c \<in> {''DS1'', ''DS4'', ''DS5''}" for i c
    using that by (auto simp: ds_check_support_row_def Let_def v e ref VERIFIER_VERSION_def)
  have "check_evidence_ref (claim_row_profile ''DS2'') (JStr dig) (JObj [(U ''evidence_kind'', jstr ''verifier_report_digest''), (U ''evidence_digest'', JStr dig)]) = Inr True"
    using ref [of "claim_row_profile ''DS2''"] by (simp add: claim_row_profile_def)
  then have row2: "ds_check_support_row record_manifest record_identity i ''DS2'' declared_row ''client_declared'' = Inr ()" for i
    by (simp add: ds_check_support_row_def Let_def d e DS_ATTESTATION_BASIS_def)
  have row3: "ds_check_support_row record_manifest record_identity i ''DS3'' abstained_row ''abstained'' = Inr ()" for i
    by (simp add: ds_check_support_row_def Let_def d DS_ABSTENTION_CODE_def)
  let ?rows = "[verified_row ''DS1'', declared_row, abstained_row, verified_row ''DS4'', verified_row ''DS5'']"
  have found: "row_of ?rows ''DS1'' = Inr (Some (verified_row ''DS1''))" "row_of ?rows ''DS2'' = Inr (Some declared_row)"
    "row_of ?rows ''DS3'' = Inr (Some abstained_row)" "row_of ?rows ''DS4'' = Inr (Some (verified_row ''DS4''))"
    "row_of ?rows ''DS5'' = Inr (Some (verified_row ''DS5''))"
    by (simp_all add: row_of_def v d set_key_def)
  have "traverse (\<lambda>row. rbind (field row ''claim_id'') set_key) ?rows = Inr [jstr ''DS1'', jstr ''DS2'', jstr ''DS3'', jstr ''DS4'', jstr ''DS5'']"
    by (simp add: v d set_key_def)
  moreover have "ds_role_digest demo_env DS_CLAIM_SUPPORT_ROWS_DOMAIN record_rows = Inr dig" by (simp add: demo_ds_digest bodies_clean)
  moreover have "iterate record_rows = Inr ?rows" by (simp add: record_rows_def)
  moreover have "{jstr ''DS1'', jstr ''DS2'', jstr ''DS3'', jstr ''DS4'', jstr ''DS5''} = jstr ` set CLAIM_IDS" by (simp add: CLAIM_IDS_def)
  ultimately show ?thesis
    by (simp add: ds_check_support_rows_def Let_def found row row2 row3)
qed

lemma sample_signed: "check_manifest_digest_and_signature demo_env record_manifest record_signature (demo_key_part ''tr'' (U ''ik'')) = Inr ()"
proof -
  have "field record_signature ''unsigned_manifest_digest'' = Inr (JStr dig)" "field record_signature ''issuer_key_ref'' = Inr (jstr ''ik'')"
    "field record_signature ''trust_ring_ref'' = Inr (jstr ''tr'')" "field record_signature ''algorithm'' = Inr (jstr ''ed25519'')"
    "field record_signature ''signature'' = Inr demo_signature"
    by (simp_all add: record_signature_def)
  then show ?thesis
    by (simp add: check_manifest_digest_and_signature_def demo_ds_digest manifest_clean ds_canonical_material_def good_text demo_material_key
        demo_verified recast_at_def)
qed

theorem dataset_record_accepted:
  "\<exists>r. verify_dataset_record_certificate demo_env dataset_bundle sample_ctx demo_record JNull = Inr r \<and>
     dr_code r = ''DATASET_RECORD_VERIFIED_CLAIMS_PARTIAL'' \<and> claims_verified (dr_tallies r) = [''DS1'', ''DS4'', ''DS5'']"
proof -
  let ?tally = "\<lparr>claims_verified = [''DS1'', ''DS4'', ''DS5''], claims_declared = [''DS2''], claims_abstained = [''DS3'']\<rparr>"
  let ?ev = "\<lparr>ev_composition = ''declared_counts_only'', ev_ds2 = ''client_declared'', ev_disjointness = ''token_lists_only'', ev_ds3 = ''abstained'',
       ev_checked = 0, ev_attested = 0\<rparr>"
  obtain pr where b: "check_bound_record demo_env dataset_bundle sample_ctx demo_record JNull = Inr (pr, demo_key_part ''tr'' (U ''ik''), ''issuer_verified'')"
    using sample_bound by blast
  have "field record_composition ''populated_cell_count'' = Inr (JInt 1)" by (simp add: record_composition_def)
  then have r: "\<exists>r. dataset_result_of dataset_bundle ?ev ''digest_bound_attestation'' ?tally = Inr r \<and>
      dr_code r = ''DATASET_RECORD_VERIFIED_CLAIMS_PARTIAL'' \<and> dr_tallies r = ?tally"
    by (simp add: dataset_result_of_def make_dataset_result_def dataset_result_ok_def EVIDENCE_GRADES_def CLAIM_IDS_def success_code_def)
  show ?thesis using r
    by (auto simp: verify_dataset_record_certificate_def verify_dataset_steps_def b sample_composition sample_plan_ok sample_efficiency_ok
        claim_bases_of_def sample_non_claims sample_rows sample_signed recast_at_def)
qed

section \<open>Witnesses over it\<close>

theorem dataset_record_is_bound_and_signed_witness:
  "\<exists>pr. verify_process_record_certificate demo_env demo_record (ds_process_context sample_ctx) JNull = Inr pr \<and>
     result_dataset_ref pr = JStr dig \<and>
     list_all (\<lambda>(part, domain, key). states_digest_of demo_env dataset_bundle record_manifest part domain key) accepted_parts"
proof -
  obtain r where "verify_dataset_record_certificate demo_env dataset_bundle sample_ctx demo_record JNull = Inr r"
    using dataset_record_accepted by blast
  from dataset_record_is_bound_and_signed [OF this] show ?thesis by (auto simp: sample_ctx_def)
qed


theorem dataset_record_errors_witness:
  "\<exists>code loc. verify_dataset_record_certificate demo_env dataset_bundle (sample_ctx\<lparr>ds_leakage_scope_ref := U ''lsr:y''\<rparr>) demo_record JNull =
     Inl (Located code loc) \<and> code \<in> set DATASET_RECORD_ERROR_CODES"
proof -
  let ?ctx = "sample_ctx\<lparr>ds_leakage_scope_ref := U ''lsr:y''\<rparr>"
  have "verify_dataset_record_certificate demo_env dataset_bundle ?ctx demo_record JNull \<noteq> Inr r" for r
  proof
    assume "verify_dataset_record_certificate demo_env dataset_bundle ?ctx demo_record JNull = Inr r"
    then obtain ev where "check_composition_and_leakage demo_env dataset_bundle ?ctx JNull = Inr ev"
      by (rule dataset_steps_facts)
    then have "check_leakage_scope_pin record_identity ?ctx = Inr ()" by (auto simp: check_composition_and_leakage_def Let_def rbind_Inr_iff)
    moreover have "U ''lsr:x'' \<noteq> U ''lsr:y''" by (simp add: U_Cons)
    ultimately show False by (simp add: check_leakage_scope_pin_def)
  qed
  then obtain e where "verify_dataset_record_certificate demo_env dataset_bundle ?ctx demo_record JNull = Inl e"
    by (metis sum.exhaust)
  with dataset_record_errors [OF this] show ?thesis by auto
qed

end
