(* ===== verification/Spec2Isabelle.thy ===== *)
theory Spec2Isabelle
  imports MultisetRoot BestConfig StrictJson BreakingSound BreakingGate Invariants RequiredGate LabelChain MaterialsDemo PrepareDemo LinkageDemo ProcessDemo DatasetDemo
begin

text \<open>
  A model of TraigentSchema's own logic, and what makes it correct. The repository keeps a library of JSON
  schemas and, beside it, the code that has to give every party the same answer about the same document: a
  canonicalizer, identities of examples and of multisets of examples, offline verifiers of certificates, a
  reference for sealed labels, an interpreter of declared invariants, and the gates of its pipeline.

  \<^bold>\<open>How the parts build on each other.\<close> Everything that is hashed or signed goes through one
  canonical text per value. \<open>fp2.py\<close> makes it; \<open>example_identity.py\<close> and
  \<open>best_config_profile.py\<close> narrow its domain (no unsafe float, no subclass of a built-in type, a bounded
  size) and hash it under a domain or a tenant key; multisets of such identities become Merkle roots with
  inclusion proofs. The strict readers are the other end: they turn text into the values the canonicalizer
  takes, and refuse duplicate keys and numbers that would not survive. The verifiers of
  \<open>traigent_schema/certification\<close> compare, project, digest and check signatures over parsed documents:
  the relying-party verifier is the base, the process-record verifier calls it for the embedded base
  certificate, and the dataset-record verifier calls the process-record verifier for the record it is bound to.
  The scripts are independent of the package: the breaking-change gate compares two versions of the schema
  library, the required gate folds the job results of a run into one verdict.

  \<^bold>\<open>Theories and sources.\<close> Paths are relative to \<open>src/\<close>.

  \<^item> \<open>Prelude\<close>, \<open>Codec\<close>: results with errors (\<open>rbind\<close>, \<open>traverse\<close>,
    \<open>raise_if\<close>), text as code points, UTF-8 and UTF-16, base64, numerals, and the locale
    \<open>work_stack\<close>: a loop over an explicit stack, with the cost that decreases, computes the recursive walk
    it was written for. \<open>PyValue\<close>: Python values in a heap, so that they may be shared or cyclic, and the
    tree \<open>json\<close> they spell if they spell one. \<open>JsonText\<close>, \<open>PyEq\<close>: parsed JSON with
    Python's equality, truth and \<open>json.dumps\<close>.
  \<^item> \<open>Fp2\<close>, \<open>Fp2Text\<close>: \<open>traigent_schema/fp2.py\<close>. \<open>encode_loop\<close> is
    the loop of \<open>_encode\<close> with its stack of work items, \<open>canon\<close> its recursive meaning. The locale
    \<open>canonical_encoder\<close> states what an encoder built on it guarantees: equal bytes are equal normal forms.
  \<^item> \<open>Identity\<close>, \<open>Merkle\<close>, \<open>MultisetRoot\<close>:
    \<open>traigent_schema/example_identity.py\<close>: canonical bytes, HKDF tenant keys, ids, versions and manifest
    digests; the RFC 9162 tree with builder and iterative verifier; members, roots, proofs and set relations.
  \<^item> \<open>BestConfig\<close>: \<open>traigent_schema/best_config_profile.py\<close>. \<open>StrictJson\<close>: the
    hooks all strict readers pass to \<open>json.loads\<close>, one locale \<open>strict_reader\<close> with an
    interpretation for each of the three, and \<open>certification/prohibited_register.py\<close>.
  \<^item> \<open>Invariants\<close>: \<open>traigent_schema/invariants.py\<close>.
  \<^item> \<open>CertCore\<close>: failures, access to parsed documents, digests, keys and signatures that the verifiers
    share. \<open>RelyingParty\<close>, \<open>RelyingMaterials\<close>, \<open>RelyingPrepare\<close>:
    \<open>certification/relying_party_verifier.py\<close> in its three entry points
    (\<open>verify_certificate\<close>, \<open>verify_certificate_with_materials\<close>,
    \<open>prepare_client_co_attestation\<close>). \<open>CommitmentLinkage\<close>:
    \<open>certification/commitment_linkage.py\<close>. \<open>UtcTime\<close>, \<open>ProcessRecord\<close>,
    \<open>ProcessVerify\<close>: \<open>certification/process_record_verifier.py\<close>. \<open>DatasetRecord\<close>,
    \<open>DatasetVerify\<close>: \<open>certification/dataset_record_verifier.py\<close>.
  \<^item> \<open>Labels\<close>, \<open>LabelChain\<close>: \<open>scripts/labels_reference.py\<close>, the second for
    signed bindings, the list of revoked keys and \<open>verify_chain\<close>.
  \<^item> \<open>BreakingDiff\<close>, \<open>BreakingEndpoints\<close>, \<open>BreakingRoles\<close>, \<open>BreakingGate\<close>:
    \<open>scripts/breaking_schema_check.py\<close>: comparator, walker of the endpoints documents, roles of the
    files, acknowledgements and exit code. \<open>RequiredGate\<close>: \<open>scripts/check_required_gate.py\<close>.

  A theory named after a component and \<open>Laws\<close> (or \<open>Sound\<close>) holds what is proved of it; one with
  \<open>Demo\<close> holds a document that the component accepts, built in full, and the witnesses over it.

  \<^bold>\<open>What is shown.\<close>

  \<^item> Canonical text. A value has one exactly if it spells a finite tree of at most 100 levels with safe
    integers, finite floats and no lone surrogate; two values have the same text exactly if their trees agree up
    to member order, the sign of zero and the spelling of a number; a cyclic value is rejected without looping.
  \<^item> Multisets. The root ignores order and the splitting of counts and binds the members; built proofs
    verify for every size and index; a proof that verifies names a member. Where hashing is involved the
    conclusion is the binding or a collision, and a collision names its two messages.
  \<^item> Declared invariants: on every payload that spells a tree the interpreter reports exactly one violation
    for every declared relation that fails in the specification over trees.
  \<^item> Certificates: what the issuer and the client have signed and what that determines; the pins of the
    caller's context; the preflight loop accepts exactly the values within its four limits; attaching a signature
    over the prepared bytes satisfies the verifier's client check; the twin of an ECDSA signature is refused.
  \<^item> Process records: receipts in order, bounded and without duplicates; the report derived from them; a
    checked trust status is signed, fresh and active; one signed manifest binds one list of receipts.
  \<^item> Dataset records: verified corpora share no leaf, recomputed cells partition the item set, the plan was
    registered before results were seen, ratios lie in their range and are those of the counts; claims are
    partitioned; every rejection has a code of the vocabulary.
  \<^item> Labels: what was sealed for a place opens for it, and the authenticated data of two places differ; an
    accepted chain of bindings is signed link by link from the pinned root, unrevoked and active.
  \<^item> Breaking changes: the conservative role reports the union of what the other two report; roles reach
    exactly the files referenced from a used one; a clean report on a request schema means that the new schema
    accepts all that the old one did, under a specification of Draft-07 validation; the gate passes exactly if
    every breaking finding is acknowledged by an entry with a real reason.

  \<^bold>\<open>How effects are written.\<close> A raise is the left side of a sum whose error type has one
  constructor per kind of failure the source tells apart; a \<open>TypeError\<close> or \<open>KeyError\<close> that a
  malformed document provokes is a value too (\<open>Foreign\<close>). The heap is explicit where identity of objects
  matters (cycles, a dict built on the way); the certificate code never compares identities, so there a document is
  a finite tree, and a dict is a member list without repeated keys, in the order of the file. Timestamps are
  microseconds since the epoch, as integers. Sets of strings that the code only tests for membership are lists.

  \<^bold>\<open>Loops and bounds.\<close> The stack walks of \<open>fp2.py\<close>, \<open>best_config_profile.py\<close>
  and \<open>invariants.py\<close> end for every heap, by the remaining depth (100, as in the code) and the size of
  the stack. \<open>reject_unsafe_numbers\<close> has no limit of its own in the source: it takes fuel, given the number
  of nodes of the tree that the canonicalizer has already accepted, and the lemmas show that it never runs out.
  The comparator recurses to level 60, the limit in the code, so 61 levels of unfolding compute it; a chain of
  references is followed for 25 hops, as in the code. The comparison in \<open>invariants.py\<close> keeps its 100000
  nodes and 100 levels, HKDF its 255 blocks. The preflight loop and the fixpoint of the roles end by a measure
  (the size of what is on the stack; the roles not yet given).

  \<^bold>\<open>Parameters.\<close> SHA-256, AES-GCM, X25519, Ed25519 and ECDSA, the DER parser, the
  \<open>jsonschema\<close> validator, \<open>referencing\<close>, Unicode's digit and space tables, the float
  that \<open>float()\<close> makes of a literal, the instant that \<open>datetime.fromisoformat\<close> makes
  of a text and the files of the installed package are arguments of the definitions that use them (the records
  \<open>cert_env\<close> and \<open>crypto\<close> for the verifiers and labels). The few laws that a theorem
  needs of them, such as that decryption undoes encryption (\<open>primitives_ok\<close>), are hypotheses with a
  witness that satisfies them.

  \<^bold>\<open>What is not modelled.\<close> \<open>certification/agent_quality_verifier.py\<close> and
  \<open>certification/evaluator_quality_verifier.py\<close>: two further record types over the same core.
  \<open>validator.py\<close>, \<open>content_identity.py\<close>, \<open>analytics_validators.py\<close>,
  \<open>utils.py\<close> and \<open>tvl_reactive.py\<close>: thin calls of the schema validator and file access. The scripts
  that lint schema files, refresh registries over the network, inspect archives or print test vectors, and the
  path helpers: input and output. In the two
  gates, the messages they print and the calls of \<open>git\<close> and \<open>tar\<close>. The scanner of \<open>json.loads\<close>
  that rejects malformed text: the readers start from the syntax tree of a well-formed text, as far as the hooks
  see it.
\<close>

end
